(* ===== verification/Asap_Prelude.thy ===== *)
theory Asap_Prelude
  imports Complex_Main "HOL-Library.AList" "HOL-Library.Char_ord" "HOL-Library.List_Lexorder"
    "HOL-Library.Product_Lexorder" "HOL-Library.Multiset" "HOL-Library.Countable"
begin

text \<open>
  What every component theory shares: the Python values the JSON payloads of the protocol
  carry, dictionaries in insertion order, string helpers, the exceptions of the standard
  library, the clocks, and the lemma collections.

  A Python \<open>dict\<close> keeps insertion order: storing under a present key keeps its place,
  a new key goes to the end, deletion closes the gap. \<^const>\<open>AList.update\<close> and
  \<^const>\<open>AList.delete\<close> are these operations on association lists, and
  \<^const>\<open>map_of\<close> is lookup; a dictionary is a list whose keys are distinct.

  Clocks. \<open>datetime\<close> has a resolution of one microsecond and is an \<^typ>\<open>int\<close> counting
  them; \<open>time.time()\<close> and \<open>time.monotonic()\<close> are \<^typ>\<open>rat\<close> seconds, that is, floating
  point values read as the exact rationals they denote, with exact arithmetic on them.
  A call that reads the clock takes the value read as an argument.
\<close>

subsection \<open>Collections of facts\<close>

named_theorems dict_simps "lookup, keys and well-formedness of dictionaries"
named_theorems store_defs "definitions of the store operations"
named_theorems inv_intros "preservation of the invariants of the stores"

subsection \<open>Types\<close>

type_synonym ('k, 'v) dict = "('k \<times> 'v) list"
type_synonym datetime = int
type_synonym timedelta = int
type_synonym seconds = rat

text \<open>Exceptions of the standard library that the modelled code raises or lets through.\<close>

datatype py_exn =
    KeyError string
  | ValueError string
  | TypeError
  | AttributeError
  | OverflowError
  | RuntimeError string

text \<open>An operation on a state returns its result, or the exception, and the new state: an
  exception does not undo what was written before it was raised.\<close>

type_synonym ('s, 'e, 'a) outcome = "('e + 'a) \<times> 's"

text \<open>Sequencing: an exception ends the computation and keeps the state reached.\<close>

definition bind_out :: "('s, 'e, 'a) outcome \<Rightarrow> ('a \<Rightarrow> 's \<Rightarrow> ('s, 'e, 'b) outcome) \<Rightarrow> ('s, 'e, 'b) outcome" where
  "bind_out m k = (case m of (Inl e, s) \<Rightarrow> (Inl e, s) | (Inr a, s) \<Rightarrow> k a s)"

subsection \<open>Python values\<close>

text \<open>A float is a finite number or one of the special values, which \<open>json.loads\<close> reads from the texts \<open>NaN\<close>, \<open>Infinity\<close> and
  \<open>-Infinity\<close>. Rounding is not modelled: a finite float is the rational number it is.\<close>

datatype pyfloat = Fin rat | PosInf | NegInf | NaN

text \<open>\<open>x < y\<close>: false as soon as one side is no number.\<close>

fun pyfloat_lt :: "pyfloat \<Rightarrow> pyfloat \<Rightarrow> bool" where
  "pyfloat_lt (Fin x) (Fin y) = (x < y)"
| "pyfloat_lt (Fin x) PosInf = True"
| "pyfloat_lt NegInf (Fin y) = True"
| "pyfloat_lt NegInf PosInf = True"
| "pyfloat_lt _ _ = False"

text \<open>\<open>x == y\<close>\<close>

definition pyfloat_eq :: "pyfloat \<Rightarrow> pyfloat \<Rightarrow> bool" where
  "pyfloat_eq x y \<longleftrightarrow> x = y \<and> x \<noteq> NaN"

text \<open>The values of JSON payloads (\<open>dict[str, Any]\<close>).\<close>

datatype pyval =
    PNone
  | PBool bool
  | PInt int
  | PFloat pyfloat
  | PStr string
  | PList "pyval list"
  | PDict "(string \<times> pyval) list"

type_synonym pydict = "(string, pyval) dict"

instance pyfloat :: countable
  by countable_datatype

instance pyval :: countable
  by countable_datatype

text \<open>\<open>bool\<close> is a subclass of \<open>int\<close>: the three numeric types compare by value.\<close>

fun py_num :: "pyval \<Rightarrow> pyfloat option" where
  "py_num (PBool b) = Some (Fin (if b then 1 else 0))"
| "py_num (PInt i) = Some (Fin (of_int i))"
| "py_num (PFloat x) = Some x"
| "py_num _ = None"

text \<open>\<open>==\<close>: numbers by value across types, lists pointwise, dictionaries irrespective of order. Containers compare their elements by
  identity first; \<open>json.loads\<close> reads every \<open>NaN\<close> as one object, which is identical to itself though not equal to itself.\<close>

definition num_eq :: "pyfloat option \<Rightarrow> pyfloat option \<Rightarrow> bool" where
  "num_eq a b = (case (a, b) of (Some x, Some y) \<Rightarrow> pyfloat_eq x y | _ \<Rightarrow> False)"

fun py_eq :: "pyval \<Rightarrow> pyval \<Rightarrow> bool"
and py_eq_list :: "pyval list \<Rightarrow> pyval list \<Rightarrow> bool"
and py_eq_entries :: "(string \<times> pyval) list \<Rightarrow> (string \<times> pyval) list \<Rightarrow> bool" where
  "py_eq PNone w = (w = PNone)"
| "py_eq (PStr s) w = (w = PStr s)"
| "py_eq (PList xs) w = (case w of PList ys \<Rightarrow> py_eq_list xs ys | _ \<Rightarrow> False)"
| "py_eq (PDict d) w =
     (case w of PDict e \<Rightarrow> length d = length e \<and> py_eq_entries d e | _ \<Rightarrow> False)"
| "py_eq (PBool b) w = num_eq (py_num w) (py_num (PBool b))"
| "py_eq (PInt i) w = num_eq (py_num w) (py_num (PInt i))"
| "py_eq (PFloat x) w = num_eq (py_num w) (Some x)"
| "py_eq_list [] ys = (ys = [])"
| "py_eq_list (x # xs) ys = (case ys of [] \<Rightarrow> False | y # ys' \<Rightarrow> (x = PFloat NaN \<and> y = x \<or> py_eq x y) \<and> py_eq_list xs ys')"
| "py_eq_entries [] e = True"
| "py_eq_entries (p # d) e =
     (case map_of e (fst p) of None \<Rightarrow> False | Some w \<Rightarrow> (snd p = PFloat NaN \<and> w = snd p \<or> py_eq (snd p) w) \<and> py_eq_entries d e)"

text \<open>Truth value testing (\<open>if x\<close>, \<open>x or y\<close>).\<close>

fun py_truthy :: "pyval \<Rightarrow> bool" where
  "py_truthy PNone = False"
| "py_truthy (PBool b) = b"
| "py_truthy (PInt i) = (i \<noteq> 0)"
| "py_truthy (PFloat x) = (x \<noteq> Fin 0)"
| "py_truthy (PStr s) = (s \<noteq> [])"
| "py_truthy (PList xs) = (xs \<noteq> [])"
| "py_truthy (PDict d) = (d \<noteq> [])"

text \<open>Values every dictionary of which has distinct keys: what \<open>json.loads\<close> builds.\<close>

fun wf_val :: "pyval \<Rightarrow> bool"
and wf_vals :: "pyval list \<Rightarrow> bool"
and wf_entries :: "(string \<times> pyval) list \<Rightarrow> bool" where
  "wf_val (PList xs) = wf_vals xs"
| "wf_val (PDict d) = (distinct (map fst d) \<and> wf_entries d)"
| "wf_val PNone = True"
| "wf_val (PBool b) = True"
| "wf_val (PInt i) = True"
| "wf_val (PFloat r) = True"
| "wf_val (PStr s) = True"
| "wf_vals [] = True"
| "wf_vals (x # xs) = (wf_val x \<and> wf_vals xs)"
| "wf_entries [] = True"
| "wf_entries (p # d) = (wf_val (snd p) \<and> wf_entries d)"

subsection \<open>Strings\<close>

text \<open>\<open>str.isspace\<close> on the code points a \<^typ>\<open>char\<close> holds.\<close>

definition py_space :: "char \<Rightarrow> bool" where
  "py_space c = (let n = of_char c :: nat in
     (9 \<le> n \<and> n \<le> 13) \<or> (28 \<le> n \<and> n \<le> 32) \<or> n = 133 \<or> n = 160)"

definition lstrip :: "string \<Rightarrow> string" where
  "lstrip s = dropWhile py_space s"

definition rstrip :: "string \<Rightarrow> string" where
  "rstrip s = rev (dropWhile py_space (rev s))"

definition strip :: "string \<Rightarrow> string" where
  "strip s = rstrip (lstrip s)"

text \<open>\<open>str.lower\<close> and \<open>str.isalnum\<close> on the same code points.\<close>

definition lower_char :: "char \<Rightarrow> char" where
  "lower_char c = (let n = of_char c :: nat in
     if (65 \<le> n \<and> n \<le> 90) \<or> (192 \<le> n \<and> n \<le> 222 \<and> n \<noteq> 215) then char_of (n + 32) else c)"

definition lower :: "string \<Rightarrow> string" where
  "lower s = map lower_char s"

definition py_isalnum :: "char \<Rightarrow> bool" where
  "py_isalnum c = (let n = of_char c :: nat in
     (48 \<le> n \<and> n \<le> 57) \<or> (65 \<le> n \<and> n \<le> 90) \<or> (97 \<le> n \<and> n \<le> 122) \<or>
     n = 170 \<or> n = 178 \<or> n = 179 \<or> n = 181 \<or> n = 185 \<or> n = 186 \<or> (188 \<le> n \<and> n \<le> 190) \<or>
     (192 \<le> n \<and> n \<noteq> 215 \<and> n \<noteq> 247))"

text \<open>\<open>s.startswith(p)\<close>\<close>

definition starts_with :: "string \<Rightarrow> string \<Rightarrow> bool" where
  "starts_with s p \<longleftrightarrow> take (length p) s = p"

text \<open>\<open>int(x)\<close> of a float truncates towards zero.\<close>

definition py_trunc :: "rat \<Rightarrow> int" where
  "py_trunc r = (if 0 \<le> r then floor r else ceiling r)"

subsection \<open>Dictionaries\<close>

abbreviation wf_dict :: "('k, 'v) dict \<Rightarrow> bool" where
  "wf_dict d \<equiv> distinct (map fst d)"

abbreviation dict_keys :: "('k, 'v) dict \<Rightarrow> 'k list" where
  "dict_keys d \<equiv> map fst d"

abbreviation dict_values :: "('k, 'v) dict \<Rightarrow> 'v list" where
  "dict_values d \<equiv> map snd d"

text \<open>\<open>OrderedDict.move_to_end\<close> of a present key.\<close>

definition move_to_end :: "'k \<Rightarrow> ('k, 'v) dict \<Rightarrow> ('k, 'v) dict" where
  "move_to_end k d =
     (case map_of d k of None \<Rightarrow> d | Some v \<Rightarrow> AList.delete k d @ [(k, v)])"

text \<open>\<open>while len(d) >= n: d.popitem(last=False)\<close>: what is left are the last \<open>n - 1\<close> entries.\<close>

fun pop_front_while_full :: "nat \<Rightarrow> ('k, 'v) dict \<Rightarrow> ('k, 'v) dict" where
  "pop_front_while_full n [] = []"
| "pop_front_while_full n (p # d) =
     (if n \<le> length (p # d) then pop_front_while_full n d else p # d)"

text \<open>\<open>dict.fromkeys(xs)\<close>: the elements once each, in the order of first occurrence.\<close>

definition fromkeys :: "'a list \<Rightarrow> 'a list" where
  "fromkeys xs = fold (\<lambda>x acc. if x \<in> set acc then acc else acc @ [x]) xs []"

subsection \<open>Lemmas on sequencing\<close>

lemma bind_out_simps [simp]:
  "bind_out (Inl e, s) k = (Inl e, s)" "bind_out (Inr a, s) k = k a s"
  by (simp_all add: bind_out_def)

lemma bind_out_Inr:
  assumes "bind_out m k = (Inr b, s')"
  obtains a s where "m = (Inr a, s)" "k a s = (Inr b, s')"
  using assms by (auto simp: bind_out_def split: prod.splits sum.splits)

subsection \<open>Lemmas on dictionaries\<close>

text \<open>Lookup stays lookup: membership in the list is not its normal form here.\<close>

declare map_of_eq_Some_iff [simp del] Some_eq_map_of_iff [simp del]

lemma update_append_new: "map_of d k = None \<Longrightarrow> AList.update k v d = d @ [(k, v)]"
  by (induction d) (auto split: if_splits)

lemma map_of_update [dict_simps]:
  "map_of (AList.update k v d) k' = (if k' = k then Some v else map_of d k')"
  by (simp add: update_conv')

lemma map_of_delete [dict_simps]:
  "map_of (AList.delete k d) k' = (if k' = k then None else map_of d k')"
  by (simp add: delete_conv')

lemma wf_dict_update [dict_simps]: "wf_dict d \<Longrightarrow> wf_dict (AList.update k v d)"
  by (rule distinct_update)

lemma wf_dict_delete [dict_simps]: "wf_dict d \<Longrightarrow> wf_dict (AList.delete k d)"
  by (rule distinct_delete)

lemma keys_delete [dict_simps]: "set (map fst (AList.delete k d)) = set (map fst d) - {k}"
  by (auto simp: AList.delete_eq)

lemma wf_dict_filter [dict_simps]: "wf_dict d \<Longrightarrow> wf_dict (filter P d)"
  by (simp add: distinct_map_filter)

lemma map_of_filter_snd:
  assumes "wf_dict d"
  shows "map_of (filter (\<lambda>(k, v). P k v) d) k =
    (case map_of d k of None \<Rightarrow> None | Some v \<Rightarrow> if P k v then Some v else None)"
  using assms
proof (induction d)
  case (Cons p d)
  then show ?case
    by (cases p) (auto split: option.splits simp: weak_map_of_SomeI dest: map_of_SomeD
      intro!: map_of_eq_None_iff [THEN iffD2])
qed simp

lemma length_update_le:
  "length (AList.update k v d) = (if k \<in> set (map fst d) then length d else Suc (length d))"
  by (induction d) auto

lemma length_update_bound: "length (AList.update k v d) \<le> Suc (length d)"
  by (simp add: length_update_le)

lemma fold_delete_filter: "fold AList.delete ks d = filter (\<lambda>p. fst p \<notin> set ks) d"
proof (induction ks arbitrary: d)
  case (Cons k ks)
  then show ?case by (auto simp: AList.delete_eq intro!: filter_cong)
qed simp

text \<open>Collecting the keys with a property and deleting them one by one is filtering.\<close>

lemma fold_delete_dead:
  assumes "wf_dict d"
  shows "fold AList.delete (map fst (filter (\<lambda>(k, v). P k v) d)) d = filter (\<lambda>(k, v). \<not> P k v) d"
  unfolding fold_delete_filter
proof (rule filter_cong [OF refl])
  fix p assume "p \<in> set d"
  with assms show "(fst p \<notin> set (map fst (filter (\<lambda>(k, v). P k v) d))) = (case p of (k, v) \<Rightarrow> \<not> P k v)"
    by (cases p) (auto simp: image_iff dest: eq_key_imp_eq_value)
qed

lemma map_of_in_keys: "map_of d k = Some v \<Longrightarrow> k \<in> set (map fst d)"
  by (force dest: map_of_SomeD)

lemma map_of_notin_keys: "k \<notin> set (map fst d) \<longleftrightarrow> map_of d k = None"
  by (simp add: map_of_eq_None_iff)

lemma keys_eq_dom: "set (map fst d) = dom (map_of d)"
  by (simp add: dom_map_of_conv_image_fst)

lemma wf_dict_entry: "wf_dict d \<Longrightarrow> (k, v) \<in> set d \<longleftrightarrow> map_of d k = Some v"
  by (auto simp: map_of_eq_Some_iff)

lemma map_of_move_to_end [dict_simps]:
  "wf_dict d \<Longrightarrow> map_of (move_to_end k d) = map_of d"
  by (rule ext) (auto simp: move_to_end_def map_add_def dict_simps split: option.splits)

lemma wf_dict_move_to_end [dict_simps]: "wf_dict d \<Longrightarrow> wf_dict (move_to_end k d)"
  by (auto simp: move_to_end_def AList.delete_eq distinct_map_filter split: option.splits)

lemma length_delete_in:
  "wf_dict d \<Longrightarrow> map_of d k = Some v \<Longrightarrow> length d = Suc (length (AList.delete k d))"
proof (induction d)
  case (Cons p d)
  then show ?case
    by (cases p) (auto simp: delete_idem split: if_splits)
qed simp

lemma length_move_to_end [dict_simps]: "wf_dict d \<Longrightarrow> length (move_to_end k d) = length d"
  by (auto simp: move_to_end_def length_delete_in split: option.splits)

lemma pop_front_while_full_drop:
  "0 < n \<Longrightarrow> pop_front_while_full n d = drop (Suc (length d) - n) d"
  by (induction d) (auto simp: Suc_diff_le)

lemma length_pop_front_while_full:
  "0 < n \<Longrightarrow> length (pop_front_while_full n d) = min (length d) (n - 1)"
  by (simp add: pop_front_while_full_drop)

lemma wf_dict_drop [dict_simps]: "wf_dict d \<Longrightarrow> wf_dict (drop n d)"
  by (simp add: drop_map [symmetric])

lemma wf_dict_pop_front_while_full [dict_simps]:
  "wf_dict d \<Longrightarrow> wf_dict (pop_front_while_full n d)"
  by (induction n d rule: pop_front_while_full.induct) auto

lemma map_of_pop_front_while_full:
  "wf_dict d \<Longrightarrow> map_of (pop_front_while_full n d) k = Some v \<Longrightarrow> map_of d k = Some v"
proof (induction n d rule: pop_front_while_full.induct)
  case (2 n p d)
  then show ?case
    by (cases p) (force split: if_splits dest: map_of_SomeD)
qed simp

lemma set_fromkeys_aux:
  "set (fold (\<lambda>x acc. if x \<in> set acc then acc else acc @ [x]) xs acc) = set acc \<union> set xs"
  by (induction xs arbitrary: acc) auto

lemma set_fromkeys [simp]: "set (fromkeys xs) = set xs"
  by (simp add: fromkeys_def set_fromkeys_aux)

lemma distinct_fromkeys_aux:
  "distinct acc \<Longrightarrow> distinct (fold (\<lambda>x acc. if x \<in> set acc then acc else acc @ [x]) xs acc)"
  by (induction xs arbitrary: acc) auto

lemma distinct_fromkeys [simp]: "distinct (fromkeys xs)"
  by (simp add: fromkeys_def distinct_fromkeys_aux)

subsection \<open>Lemmas on Python equality\<close>

lemma num_eq_simps [simp]:
  "num_eq None b = False" "num_eq a None = False" "num_eq (Some x) (Some y) = pyfloat_eq x y"
  "pyfloat_eq (Fin r) y = (y = Fin r)" "pyfloat_eq x (Fin r) = (x = Fin r)" "pyfloat_eq NaN y = False" "pyfloat_eq x NaN = False"
  by (auto simp: num_eq_def pyfloat_eq_def split: option.split)

lemma pyfloat_lt_NaN [simp]: "\<not> pyfloat_lt NaN y" "\<not> pyfloat_lt x NaN"
  by (cases y; simp) (cases x; simp)

subsection \<open>Lemmas on strings\<close>

lemma strip_Nil [simp]: "strip [] = []"
  by (simp add: strip_def lstrip_def rstrip_def)

lemma rstrip_eq_Nil_iff: "rstrip s = [] \<longleftrightarrow> (\<forall>c \<in> set s. py_space c)"
  by (simp add: rstrip_def dropWhile_eq_Nil_conv)

lemma all_space_dropWhile:
  "(\<forall>c \<in> set (dropWhile P s). P c) \<longleftrightarrow> (\<forall>c \<in> set s. P c)"
  by (induction s) auto

lemma strip_eq_Nil_iff: "strip s = [] \<longleftrightarrow> (\<forall>c \<in> set s. py_space c)"
  by (simp add: strip_def lstrip_def rstrip_eq_Nil_iff all_space_dropWhile)

text \<open>The text up to the first separator is the text up to the first separator.\<close>

lemma separated_eq:
  "c \<notin> set a \<Longrightarrow> c \<notin> set b \<Longrightarrow> a @ c # s = b @ c # t \<Longrightarrow> a = b \<and> s = t"
proof (induction a arbitrary: b)
  case Nil
  then show ?case by (cases b) auto
next
  case (Cons x a)
  then show ?case by (cases b) auto
qed

subsection \<open>Removing an element\<close>

lemma remove1_split:
  assumes "x \<in> set xs" "distinct xs"
  obtains ys zs where "xs = ys @ x # zs" "remove1 x xs = ys @ zs"
  using assms by (metis distinct.simps(2) distinct_append in_set_conv_decomp not_distinct_conv_prefix remove1_append remove1.simps(2)
    in_set_conv_decomp_first)

end
