(* ===== verification/Metrics.thy ===== *)
theory Metrics
  imports Asap_Prelude
begin

text \<open>
  The metrics collector (\<open>src/asap/observability/metrics.py\<close>): counters and histograms keyed
  by sorted label tuples, the collector that owns them, and the Prometheus text export.
  Locks are not modelled: each operation holds one for its whole body and is one step here.
  The text Python prints for a float is a parameter \<open>fmt\<close> of the export.
\<close>

subsection \<open>Counters\<close>

type_synonym label_key = "(string \<times> string) list"
type_synonym labels = "(string, string) dict option"

record counter =
  c_name :: string
  c_help_text :: string
  c_values :: "(label_key, rat) dict"

text \<open>\<open>tuple(sorted((labels or {}).items()))\<close>\<close>

definition label_key :: "labels \<Rightarrow> label_key" where
  "label_key labels = sort (case labels of None \<Rightarrow> [] | Some d \<Rightarrow> d)"

definition counter_increment :: "labels \<Rightarrow> rat \<Rightarrow> counter \<Rightarrow> counter" where
  "counter_increment labels value c =
     (let k = label_key labels;
          old = (case map_of (c_values c) k of None \<Rightarrow> 0 | Some x \<Rightarrow> x)
      in c\<lparr>c_values := AList.update k (old + value) (c_values c)\<rparr>)"

definition counter_get :: "labels \<Rightarrow> counter \<Rightarrow> rat" where
  "counter_get labels c =
     (case map_of (c_values c) (label_key labels) of None \<Rightarrow> 0 | Some x \<Rightarrow> x)"

subsection \<open>Histograms\<close>

definition DEFAULT_LATENCY_BUCKETS :: "rat list" where
  "DEFAULT_LATENCY_BUCKETS =
     [5/1000, 1/100, 25/1000, 5/100, 1/10, 25/100, 5/10, 1, 25/10, 5, 10]"

record hist_data =
  hd_buckets :: "(rat, rat) dict"
  hd_sum :: rat
  hd_count :: rat

record histogram =
  h_name :: string
  h_help_text :: string
  h_buckets :: "rat list"
  h_values :: "(label_key, hist_data) dict"

text \<open>\<open>dict.fromkeys(self.buckets, 0.0)\<close>, zero sum and zero count.\<close>

definition fresh_hist_data :: "rat list \<Rightarrow> hist_data" where
  "fresh_hist_data bounds =
     \<lparr>hd_buckets = map (\<lambda>b. (b, 0)) (fromkeys bounds), hd_sum = 0, hd_count = 0\<rparr>"

text \<open>\<open>for bound in self.buckets: if value <= bound: buckets[bound] += 1.0\<close>. Every bound is a
  key of the dictionary, so the subscript never raises.\<close>

fun bump_buckets :: "rat \<Rightarrow> rat list \<Rightarrow> (rat, rat) dict \<Rightarrow> (rat, rat) dict" where
  "bump_buckets value [] bs = bs"
| "bump_buckets value (bound # rest) bs =
     bump_buckets value rest
       (if value \<le> bound
        then AList.update bound ((case map_of bs bound of None \<Rightarrow> 0 | Some n \<Rightarrow> n) + 1) bs
        else bs)"

definition histogram_observe :: "rat \<Rightarrow> labels \<Rightarrow> histogram \<Rightarrow> histogram" where
  "histogram_observe value labels h =
     (let k = label_key labels;
          data = (case map_of (h_values h) k of
                    None \<Rightarrow> fresh_hist_data (h_buckets h) | Some d \<Rightarrow> d);
          data' = data\<lparr>hd_buckets := bump_buckets value (h_buckets h) (hd_buckets data),
                       hd_sum := hd_sum data + value,
                       hd_count := hd_count data + 1\<rparr>
      in h\<lparr>h_values := AList.update k data' (h_values h)\<rparr>)"

definition histogram_get_count :: "labels \<Rightarrow> histogram \<Rightarrow> rat" where
  "histogram_get_count labels h =
     (case map_of (h_values h) (label_key labels) of None \<Rightarrow> 0 | Some d \<Rightarrow> hd_count d)"

subsection \<open>The collector\<close>

record collector =
  counters :: "(string, counter) dict"
  histograms :: "(string, histogram) dict"
  start_time :: rat

definition new_counter :: "string \<Rightarrow> string \<Rightarrow> counter" where
  "new_counter n t = \<lparr>c_name = n, c_help_text = t, c_values = []\<rparr>"

definition new_histogram :: "string \<Rightarrow> string \<Rightarrow> rat list \<Rightarrow> histogram" where
  "new_histogram n t bs = \<lparr>h_name = n, h_help_text = t, h_buckets = bs, h_values = []\<rparr>"

definition DEFAULT_COUNTERS :: "(string, string) dict" where
  "DEFAULT_COUNTERS =
    [(''asap_requests_total'', ''Total number of ASAP requests received''),
     (''asap_requests_success_total'', ''Total number of successful ASAP requests''),
     (''asap_requests_error_total'', ''Total number of failed ASAP requests''),
     (''asap_thread_pool_exhausted_total'', ''Total number of thread pool exhaustion events''),
     (''asap_handler_executions_total'', ''Total number of handler executions''),
     (''asap_handler_errors_total'', ''Total number of handler execution failures''),
     (''asap_state_transitions_total'', ''Total number of state machine transitions''),
     (''asap_transport_send_total'', ''Total number of transport send attempts''),
     (''asap_transport_send_errors_total'', ''Total number of transport send errors''),
     (''asap_transport_retries_total'', ''Total number of transport retries''),
     (''asap_parse_errors_total'', ''Total number of JSON-RPC parse errors''),
     (''asap_auth_failures_total'', ''Total number of authentication failures''),
     (''asap_validation_errors_total'', ''Total number of envelope validation errors''),
     (''asap_invalid_timestamp_total'', ''Total number of invalid timestamp rejections''),
     (''asap_invalid_nonce_total'', ''Total number of invalid nonce rejections''),
     (''asap_sender_mismatch_total'', ''Total number of sender identity mismatches'')]"

definition DEFAULT_HISTOGRAMS :: "(string, string) dict" where
  "DEFAULT_HISTOGRAMS =
    [(''asap_request_duration_seconds'', ''Request processing duration in seconds''),
     (''asap_handler_duration_seconds'', ''Handler execution duration in seconds''),
     (''asap_transport_send_duration_seconds'', ''Transport send duration in seconds'')]"

definition collector_init :: "rat \<Rightarrow> collector" where
  "collector_init now =
     \<lparr>counters = map (\<lambda>(n, t). (n, new_counter n t)) DEFAULT_COUNTERS,
      histograms = map (\<lambda>(n, t). (n, new_histogram n t DEFAULT_LATENCY_BUCKETS)) DEFAULT_HISTOGRAMS,
      start_time = now\<rparr>"

definition register_counter :: "string \<Rightarrow> string \<Rightarrow> collector \<Rightarrow> collector" where
  "register_counter n t m =
     (if map_of (counters m) n = None
      then m\<lparr>counters := AList.update n (new_counter n t) (counters m)\<rparr> else m)"

definition register_histogram :: "string \<Rightarrow> string \<Rightarrow> rat list \<Rightarrow> collector \<Rightarrow> collector" where
  "register_histogram n t bs m =
     (if map_of (histograms m) n = None
      then m\<lparr>histograms := AList.update n (new_histogram n t bs) (histograms m)\<rparr> else m)"

definition increment_counter :: "string \<Rightarrow> labels \<Rightarrow> rat \<Rightarrow> collector \<Rightarrow> collector" where
  "increment_counter n labels value m =
     (case map_of (counters m) n of
        None \<Rightarrow> m
      | Some c \<Rightarrow> m\<lparr>counters := AList.update n (counter_increment labels value c) (counters m)\<rparr>)"

definition observe_histogram :: "string \<Rightarrow> rat \<Rightarrow> labels \<Rightarrow> collector \<Rightarrow> collector" where
  "observe_histogram n value labels m =
     (case map_of (histograms m) n of
        None \<Rightarrow> m
      | Some h \<Rightarrow> m\<lparr>histograms := AList.update n (histogram_observe value labels h) (histograms m)\<rparr>)"

definition get_counter :: "string \<Rightarrow> labels \<Rightarrow> collector \<Rightarrow> rat" where
  "get_counter n labels m =
     (case map_of (counters m) n of None \<Rightarrow> 0 | Some c \<Rightarrow> counter_get labels c)"

definition get_histogram_count :: "string \<Rightarrow> labels \<Rightarrow> collector \<Rightarrow> rat" where
  "get_histogram_count n labels m =
     (case map_of (histograms m) n of None \<Rightarrow> 0 | Some h \<Rightarrow> histogram_get_count labels h)"

definition collector_reset :: "collector \<Rightarrow> collector" where
  "collector_reset m =
     m\<lparr>counters := map (\<lambda>(n, c). (n, c\<lparr>c_values := []\<rparr>)) (counters m),
       histograms := map (\<lambda>(n, h). (n, h\<lparr>h_values := []\<rparr>)) (histograms m)\<rparr>"

subsection \<open>The Prometheus export\<close>

text \<open>\<open>value.replace(a, b)\<close> for a single character \<open>a\<close>.\<close>

definition replace_char :: "char \<Rightarrow> string \<Rightarrow> string \<Rightarrow> string" where
  "replace_char a b s = concat (map (\<lambda>c. if c = a then b else [c]) s)"

definition escape_label_value :: "string \<Rightarrow> string" where
  "escape_label_value v =
     replace_char (CHR 0x22) [CHR 0x5C, CHR 0x22] (replace_char (CHR 0x5C) [CHR 0x5C, CHR 0x5C] v)"

fun join :: "string \<Rightarrow> string list \<Rightarrow> string" where
  "join sep [] = []"
| "join sep [x] = x"
| "join sep (x # y # xs) = x @ sep @ join sep (y # xs)"

definition format_labels :: "label_key \<Rightarrow> string" where
  "format_labels ls =
     (if ls = [] then []
      else ''{'' @ join '','' (map (\<lambda>(k, v). k @ ''='' @ [CHR 0x22] @ escape_label_value v @ [CHR 0x22]) ls) @ ''}'')"

text \<open>\<open>base_labels[:-1] + ',le="x"}'\<close>, or the label alone when there is no other.\<close>

definition le_labels :: "string \<Rightarrow> string \<Rightarrow> string" where
  "le_labels base le =
     (let q = [CHR 0x22] in
      if base \<noteq> [] then butlast base @ '',le='' @ q @ le @ q @ ''}''
      else ''{le='' @ q @ le @ q @ ''}'')"

text \<open>The numbers the loop \<open>cumulative += buckets.get(bound, 0.0)\<close> prints, one per bound.\<close>

fun exported_buckets :: "rat \<Rightarrow> rat list \<Rightarrow> (rat, rat) dict \<Rightarrow> (rat \<times> rat) list" where
  "exported_buckets acc [] bs = []"
| "exported_buckets acc (bound # rest) bs =
     (let acc' = acc + (case map_of bs bound of None \<Rightarrow> 0 | Some n \<Rightarrow> n)
      in (bound, acc') # exported_buckets acc' rest bs)"

definition export_counter :: "(rat \<Rightarrow> string) \<Rightarrow> counter \<Rightarrow> string list" where
  "export_counter fmt c =
     [''# HELP '' @ c_name c @ '' '' @ c_help_text c, ''# TYPE '' @ c_name c @ '' counter''] @
     (if c_values c = [] then [c_name c @ '' 0'']
      else map (\<lambda>(k, v). c_name c @ format_labels k @ '' '' @ fmt v) (c_values c))"

definition export_hist_series :: "(rat \<Rightarrow> string) \<Rightarrow> histogram \<Rightarrow> label_key \<Rightarrow> hist_data \<Rightarrow> string list" where
  "export_hist_series fmt h k d =
     (let base = format_labels k in
      map (\<lambda>(bound, n). h_name h @ ''_bucket'' @ le_labels base (fmt bound) @ '' '' @ fmt n)
        (exported_buckets 0 (h_buckets h) (hd_buckets d)) @
      [h_name h @ ''_bucket'' @ le_labels base ''+Inf'' @ '' '' @ fmt (hd_count d),
       h_name h @ ''_sum'' @ base @ '' '' @ fmt (hd_sum d),
       h_name h @ ''_count'' @ base @ '' '' @ fmt (hd_count d)])"

definition export_histogram :: "(rat \<Rightarrow> string) \<Rightarrow> histogram \<Rightarrow> string list" where
  "export_histogram fmt h =
     [''# HELP '' @ h_name h @ '' '' @ h_help_text h, ''# TYPE '' @ h_name h @ '' histogram''] @
     (if h_values h = [] then
        map (\<lambda>bound. h_name h @ ''_bucket'' @ le_labels [] (fmt bound) @ '' 0'') (h_buckets h) @
        [h_name h @ ''_bucket'' @ le_labels [] ''+Inf'' @ '' 0'',
         h_name h @ ''_sum 0'', h_name h @ ''_count 0'']
      else concat (map (\<lambda>(k, d). export_hist_series fmt h k d) (h_values h)))"

text \<open>\<open>fmt3\<close> prints a float with the format \<open>.3f\<close>; lines are joined with a newline.\<close>

definition export_prometheus :: "(rat \<Rightarrow> string) \<Rightarrow> (rat \<Rightarrow> string) \<Rightarrow> rat \<Rightarrow> collector \<Rightarrow> string" where
  "export_prometheus fmt fmt3 now m =
     (let nl = [CHR 0x0A] in
      join nl
       (concat (map (export_counter fmt) (dict_values (counters m))) @
        concat (map (export_histogram fmt) (dict_values (histograms m))) @
        [''# HELP asap_process_uptime_seconds Time since server start'',
         ''# TYPE asap_process_uptime_seconds gauge'',
         ''asap_process_uptime_seconds '' @ fmt3 (now - start_time m)]) @ nl)"

subsection \<open>Labels and counters\<close>

text \<open>The key does not depend on the order in which the caller lists the labels.\<close>

lemma label_key_perm: "mset d = mset e \<Longrightarrow> label_key (Some d) = label_key (Some e)"
  by (simp add: label_key_def properties_for_sort)

lemma counter_get_increment:
  "counter_get l' (counter_increment l v c) =
     counter_get l' c + (if label_key l' = label_key l then v else 0)"
  by (auto simp: counter_get_def counter_increment_def Let_def dict_simps split: option.splits)

lemma get_counter_increment:
  "get_counter n' l' (increment_counter n l v m) =
     get_counter n' l' m +
     (if n' = n \<and> map_of (counters m) n \<noteq> None \<and> label_key l' = label_key l then v else 0)"
  by (auto simp: get_counter_def increment_counter_def dict_simps counter_get_increment
      split: option.splits)

lemma increment_counter_histograms [simp]:
  "histograms (increment_counter n l v m) = histograms m"
  by (simp add: increment_counter_def split: option.splits)

lemma increment_counter_known:
  "map_of (counters (increment_counter n l v m)) n' = None \<longleftrightarrow> map_of (counters m) n' = None"
  by (auto simp: increment_counter_def dict_simps split: option.splits)

text \<open>The sum of a counter over all label values.\<close>

definition counter_total :: "string \<Rightarrow> collector \<Rightarrow> rat" where
  "counter_total n m = (case map_of (counters m) n of None \<Rightarrow> 0 | Some c \<Rightarrow> sum_list (map snd (c_values c)))"

lemma sum_values_update:
  "sum_list (map snd (AList.update k (v :: rat) d)) = sum_list (map snd d) + v - (case map_of d k of None \<Rightarrow> 0 | Some w \<Rightarrow> w)"
  by (induction d) auto

lemma counter_total_increment:
  "counter_total n' (increment_counter n l v m) =
     counter_total n' m + (if n' = n \<and> map_of (counters m) n \<noteq> None then v else 0)"
  by (auto simp: counter_total_def increment_counter_def counter_increment_def Let_def dict_simps sum_values_update
      split: option.splits)

lemma counters_observe [simp]: "counters (observe_histogram n v l m) = counters m"
  by (simp add: observe_histogram_def split: option.splits)

lemma counter_total_observe [simp]: "counter_total n' (observe_histogram n v l m) = counter_total n' m"
  by (simp add: counter_total_def)

lemma get_counter_reset: "get_counter n l (collector_reset m) = 0"
proof -
  have "map_of (map (\<lambda>(n, c). (n, c\<lparr>c_values := []\<rparr>)) cs) n =
        map_option (\<lambda>c. c\<lparr>c_values := []\<rparr>) (map_of cs n)" for cs :: "(string, counter) dict"
    by (induction cs) auto
  then show ?thesis
    by (simp add: get_counter_def collector_reset_def counter_get_def split: option.splits)
qed

subsection \<open>Histograms: what is stored and what is exported\<close>

text \<open>Observations of one series as a list: what the stored data of the series is.\<close>

fun observe_all :: "rat list \<Rightarrow> labels \<Rightarrow> histogram \<Rightarrow> histogram" where
  "observe_all [] labels h = h"
| "observe_all (v # vs) labels h = observe_all vs labels (histogram_observe v labels h)"

lemma map_of_bump_buckets:
  "distinct bounds \<Longrightarrow>
   map_of (bump_buckets v bounds bs) b =
     (if b \<in> set bounds \<and> v \<le> b
      then Some ((case map_of bs b of None \<Rightarrow> 0 | Some n \<Rightarrow> n) + 1) else map_of bs b)"
  by (induction bounds arbitrary: bs) (auto simp: dict_simps)

lemma histogram_observe_buckets [simp]: "h_buckets (histogram_observe v l h) = h_buckets h"
  by (simp add: histogram_observe_def Let_def)

lemma observe_all_buckets [simp]: "h_buckets (observe_all vs l h) = h_buckets h"
  by (induction vs arbitrary: h) auto

definition series_of :: "labels \<Rightarrow> histogram \<Rightarrow> hist_data" where
  "series_of l h = (case map_of (h_values h) (label_key l) of
     None \<Rightarrow> fresh_hist_data (h_buckets h) | Some d \<Rightarrow> d)"

definition bucket_of :: "rat \<Rightarrow> hist_data \<Rightarrow> rat" where
  "bucket_of b d = (case map_of (hd_buckets d) b of None \<Rightarrow> 0 | Some n \<Rightarrow> n)"

lemma bucket_of_fresh [simp]: "bucket_of b (fresh_hist_data bounds) = 0"
  by (auto simp: bucket_of_def fresh_hist_data_def map_of_map_keys [symmetric] split: option.splits
      dest!: map_of_SomeD)

lemma series_of_observe:
  "distinct (h_buckets h) \<Longrightarrow>
     bucket_of b (series_of l (histogram_observe v l h)) =
       bucket_of b (series_of l h) + (if b \<in> set (h_buckets h) \<and> v \<le> b then 1 else 0)"
  "hd_count (series_of l (histogram_observe v l h)) = hd_count (series_of l h) + 1"
  "hd_sum (series_of l (histogram_observe v l h)) = hd_sum (series_of l h) + v"
  by (auto simp: series_of_def histogram_observe_def Let_def dict_simps bucket_of_def
      map_of_bump_buckets split: option.splits)

lemma series_of_observe_all:
  assumes "distinct (h_buckets h)"
  shows "b \<in> set (h_buckets h) \<Longrightarrow> bucket_of b (series_of l (observe_all vs l h)) =
           bucket_of b (series_of l h) + of_nat (length (filter (\<lambda>v. v \<le> b) vs))"
    and "hd_count (series_of l (observe_all vs l h)) = hd_count (series_of l h) + of_nat (length vs)"
    and "hd_sum (series_of l (observe_all vs l h)) = hd_sum (series_of l h) + sum_list vs"
  using assms by (induction vs arbitrary: h) (simp_all add: series_of_observe)

text \<open>The exported number at a bound is the sum of all stored buckets up to it.\<close>

lemma exported_buckets_sum:
  "i < length bounds \<Longrightarrow>
   exported_buckets acc bounds bs ! i =
     (bounds ! i, acc + (\<Sum>b \<leftarrow> take (Suc i) bounds. case map_of bs b of None \<Rightarrow> 0 | Some n \<Rightarrow> n))"
proof (induction bounds arbitrary: acc i)
  case (Cons b bounds)
  then show ?case by (cases i) (simp_all add: Let_def add.assoc)
qed simp

lemma length_exported_buckets [simp]: "length (exported_buckets acc bounds bs) = length bounds"
  by (induction bounds arbitrary: acc) (simp_all add: Let_def)

subsection \<open>Properties\<close>

lemma fresh_hist_data_zero: "hd_count (fresh_hist_data bs) = 0" "hd_sum (fresh_hist_data bs) = 0"
  by (simp_all add: fresh_hist_data_def)

lemma new_histogram_observed:
  assumes "distinct bounds"
  shows "hd_count (series_of l (observe_all vs l (new_histogram n t bounds))) = of_nat (length vs)"
    and "hd_sum (series_of l (observe_all vs l (new_histogram n t bounds))) = sum_list vs"
    and "b \<in> set bounds \<Longrightarrow> bucket_of b (series_of l (observe_all vs l (new_histogram n t bounds))) =
      of_nat (length (filter (\<lambda>v. v \<le> b) vs))"
proof -
  let ?h = "new_histogram n t bounds"
  have h: "h_buckets ?h = bounds" "series_of l ?h = fresh_hist_data bounds"
    by (simp_all add: new_histogram_def series_of_def)
  with series_of_observe_all [of ?h] assms
  show "hd_count (series_of l (observe_all vs l ?h)) = of_nat (length vs)"
    "hd_sum (series_of l (observe_all vs l ?h)) = sum_list vs"
    "b \<in> set bounds \<Longrightarrow> bucket_of b (series_of l (observe_all vs l ?h)) = of_nat (length (filter (\<lambda>v. v \<le> b) vs))"
    by (simp_all add: fresh_hist_data_zero)
qed

text \<open>A histogram series stores, after any observations, their number, their sum, and per bound the
  number of observations at most the bound, so the stored buckets are already cumulative.\<close>

theorem histogram_stores_cumulative_counts:
  assumes "distinct bounds"
  shows "hd_count (series_of l (observe_all vs l (new_histogram n t bounds))) = of_nat (length vs) \<and>
    hd_sum (series_of l (observe_all vs l (new_histogram n t bounds))) = sum_list vs \<and>
    (b \<in> set bounds \<longrightarrow> bucket_of b (series_of l (observe_all vs l (new_histogram n t bounds))) =
      of_nat (length (filter (\<lambda>v. v \<le> b) vs)))"
  using new_histogram_observed [OF assms] by blast

theorem histogram_stores_cumulative_counts_witness:
  "bucket_of 1 (series_of None (observe_all [1/2, 3, 1] None (new_histogram ''h'' ''t'' [1, 5]))) = 2"
  using histogram_stores_cumulative_counts [of "[1, 5]" None "[1/2, 3, 1]" "''h''" "''t''" 1] by simp

text \<open>The Prometheus export adds the stored buckets up once more. One observation at most the
  least bound is exported as a count of \<open>i + 1\<close> at the \<open>i\<close>-th bound, above the count of one that
  the same export gives for the bucket \<open>+Inf\<close>.\<close>

theorem export_counts_buckets_twice:
  fixes l :: labels and n t :: string
  assumes "distinct bounds" "\<forall>b \<in> set bounds. v \<le> b" "i < length bounds"
  defines "d \<equiv> series_of l (histogram_observe v l (new_histogram n t bounds))"
  shows "exported_buckets 0 bounds (hd_buckets d) ! i = (bounds ! i, of_nat (Suc i)) \<and> hd_count d = 1"
proof (rule conjI)
  have one: "bucket_of b d = 1" if "b \<in> set bounds" for b
    using new_histogram_observed(3) [OF assms(1) that, of l "[v]" n t] assms(2) that
    by (simp add: d_def)
  have "(\<Sum>b \<leftarrow> take (Suc i) bounds. bucket_of b d) = (\<Sum>b \<leftarrow> take (Suc i) bounds. 1)"
    by (rule arg_cong [where f = sum_list], rule map_cong [OF refl], rule one) (rule in_set_takeD)
  also have "\<dots> = of_nat (Suc i)"
    using assms(3) by (simp add: sum_list_triv min_def)
  finally show "exported_buckets 0 bounds (hd_buckets d) ! i = (bounds ! i, of_nat (Suc i))"
    using assms(3) by (simp add: exported_buckets_sum bucket_of_def)
  show "hd_count d = 1"
    using new_histogram_observed(1) [OF assms(1), of l "[v]" n t] by (simp add: d_def)
qed

theorem export_counts_buckets_twice_witness:
  "exported_buckets 0 DEFAULT_LATENCY_BUCKETS (hd_buckets (series_of None
     (histogram_observe (1/1000) None (new_histogram ''h'' ''t'' DEFAULT_LATENCY_BUCKETS)))) ! 10 = (10, 11)"
proof -
  have "distinct DEFAULT_LATENCY_BUCKETS" "\<forall>b \<in> set DEFAULT_LATENCY_BUCKETS. 1/1000 \<le> b"
    "10 < length DEFAULT_LATENCY_BUCKETS" "DEFAULT_LATENCY_BUCKETS ! 10 = 10"
    by (simp_all add: DEFAULT_LATENCY_BUCKETS_def)
  with export_counts_buckets_twice [of DEFAULT_LATENCY_BUCKETS "1/1000" 10 None "''h''" "''t''"]
  show ?thesis by simp
qed

end
