(* ===== verification/Task_Machine.thy ===== *)
theory Task_Machine
  imports Metrics
begin

text \<open>
  Tasks and their state machine: \<open>TaskStatus\<close> of \<open>src/asap/models/enums.py\<close>, \<open>Task\<close> of
  \<open>src/asap/models/entities.py\<close> and \<open>src/asap/state/machine.py\<close>. A transition reads the clock
  and increments a counter of the metrics collector, so both are arguments; the tracing span
  around it has no effect on the state and is not modelled.
\<close>

subsection \<open>Status and tasks\<close>

datatype task_status = SUBMITTED | WORKING | COMPLETED | FAILED | CANCELLED | INPUT_REQUIRED

fun status_value :: "task_status \<Rightarrow> string" where
  "status_value SUBMITTED = ''submitted''"
| "status_value WORKING = ''working''"
| "status_value COMPLETED = ''completed''"
| "status_value FAILED = ''failed''"
| "status_value CANCELLED = ''cancelled''"
| "status_value INPUT_REQUIRED = ''input_required''"

definition terminal_states :: "task_status set" where
  "terminal_states = {COMPLETED, FAILED, CANCELLED}"

definition is_terminal :: "task_status \<Rightarrow> bool" where
  "is_terminal s \<longleftrightarrow> s \<in> terminal_states"

definition MAX_TASK_DEPTH :: int where
  "MAX_TASK_DEPTH = 10"

record task =
  t_id :: string
  t_conversation_id :: string
  t_parent_task_id :: "string option"
  t_status :: task_status
  t_depth :: int
  t_progress :: "pydict option"
  t_created_at :: datetime
  t_updated_at :: datetime

text \<open>The field constraint \<open>ge=0, le=MAX_TASK_DEPTH\<close> that the constructor checks.\<close>

definition valid_task :: "task \<Rightarrow> bool" where
  "valid_task t \<longleftrightarrow> 0 \<le> t_depth t \<and> t_depth t \<le> MAX_TASK_DEPTH"

definition task_is_terminal :: "task \<Rightarrow> bool" where
  "task_is_terminal t \<longleftrightarrow> is_terminal (t_status t)"

definition can_be_cancelled :: "task \<Rightarrow> bool" where
  "can_be_cancelled t \<longleftrightarrow> t_status t \<in> {SUBMITTED, WORKING}"

subsection \<open>Transitions\<close>

definition VALID_TRANSITIONS :: "(task_status, task_status set) dict" where
  "VALID_TRANSITIONS =
    [(SUBMITTED, {WORKING, CANCELLED}),
     (WORKING, {COMPLETED, FAILED, CANCELLED, INPUT_REQUIRED}),
     (INPUT_REQUIRED, {WORKING, CANCELLED}),
     (COMPLETED, {}),
     (FAILED, {}),
     (CANCELLED, {})]"

definition can_transition :: "task_status \<Rightarrow> task_status \<Rightarrow> bool" where
  "can_transition from_status to_status \<longleftrightarrow>
     to_status \<in> (case map_of VALID_TRANSITIONS from_status of None \<Rightarrow> {} | Some v \<Rightarrow> v)"

text \<open>\<open>InvalidTransitionError(from_state, to_state, details={"task_id": ...})\<close>\<close>

datatype transition_error = InvalidTransitionError string string string

definition transition_labels :: "task_status \<Rightarrow> task_status \<Rightarrow> labels" where
  "transition_labels a b =
     Some [(''from_status'', status_value a), (''to_status'', status_value b)]"

definition transition ::
  "datetime \<Rightarrow> task \<Rightarrow> task_status \<Rightarrow> collector \<Rightarrow> (collector, transition_error, task) outcome" where
  "transition now t new_status m =
     (if \<not> can_transition (t_status t) new_status
      then (Inl (InvalidTransitionError (status_value (t_status t)) (status_value new_status) (t_id t)), m)
      else (Inr (t\<lparr>t_status := new_status, t_updated_at := now\<rparr>),
            increment_counter ''asap_state_transitions_total''
              (transition_labels (t_status t) new_status) 1 m))"

text \<open>A run: attempted transitions with the times they happen, errors leaving the task as it is.\<close>

fun run_transitions :: "(datetime \<times> task_status) list \<Rightarrow> task \<Rightarrow> collector \<Rightarrow> task \<times> collector" where
  "run_transitions [] t m = (t, m)"
| "run_transitions ((now, s) # steps) t m =
     (case transition now t s m of
        (Inl e, m') \<Rightarrow> run_transitions steps t m'
      | (Inr t', m') \<Rightarrow> run_transitions steps t' m')"

subsection \<open>The transition relation\<close>

lemma status_value_inj: "status_value a = status_value b \<longleftrightarrow> a = b"
  by (cases a; cases b) simp_all

lemma can_transition_iff [simp]:
  "can_transition SUBMITTED s \<longleftrightarrow> s = WORKING \<or> s = CANCELLED"
  "can_transition WORKING s \<longleftrightarrow> s = COMPLETED \<or> s = FAILED \<or> s = CANCELLED \<or> s = INPUT_REQUIRED"
  "can_transition INPUT_REQUIRED s \<longleftrightarrow> s = WORKING \<or> s = CANCELLED"
  "\<not> can_transition COMPLETED s" "\<not> can_transition FAILED s" "\<not> can_transition CANCELLED s"
  by (simp_all add: can_transition_def VALID_TRANSITIONS_def)

lemma is_terminal_simps [simp]:
  "is_terminal COMPLETED" "is_terminal FAILED" "is_terminal CANCELLED"
  "\<not> is_terminal SUBMITTED" "\<not> is_terminal WORKING" "\<not> is_terminal INPUT_REQUIRED"
  by (simp_all add: is_terminal_def terminal_states_def)

text \<open>The protocol's lifecycle as an inductive relation, one rule per arrow of the diagram.\<close>

inductive lifecycle :: "task_status \<Rightarrow> task_status \<Rightarrow> bool" where
  start: "lifecycle SUBMITTED WORKING"
| finish: "lifecycle WORKING COMPLETED"
| fail: "lifecycle WORKING FAILED"
| ask: "lifecycle WORKING INPUT_REQUIRED"
| resume: "lifecycle INPUT_REQUIRED WORKING"
| cancel: "\<not> is_terminal s \<Longrightarrow> lifecycle s CANCELLED"

inductive_cases lifecycle_from_terminal: "lifecycle COMPLETED s" "lifecycle FAILED s" "lifecycle CANCELLED s"

lemma can_transition_lifecycle: "can_transition a b \<longleftrightarrow> lifecycle a b"
proof
  show "can_transition a b \<Longrightarrow> lifecycle a b"
    by (cases a) (auto intro: lifecycle.intros)
  show "lifecycle a b \<Longrightarrow> can_transition a b"
    by (induction rule: lifecycle.induct) (auto simp: is_terminal_def terminal_states_def,
        metis can_transition_iff(1-3) is_terminal_simps(1-3) task_status.exhaust)
qed

lemma lifecycle_terminal_iff: "is_terminal a \<longleftrightarrow> (\<forall>b. \<not> lifecycle a b)"
  unfolding can_transition_lifecycle [symmetric] by (cases a) auto

lemma lifecycle_reaches:
  assumes "lifecycle\<^sup>*\<^sup>* a b" "is_terminal a" shows "b = a"
  using assms by (induction rule: rtranclp_induct) (auto simp: lifecycle_terminal_iff)

subsection \<open>Steps and runs\<close>

lemma transition_Inr_iff:
  "fst (transition now t s m) = Inr t' \<longleftrightarrow>
     can_transition (t_status t) s \<and> t' = t\<lparr>t_status := s, t_updated_at := now\<rparr>"
  by (auto simp: transition_def)

lemma transition_valid: "valid_task t \<Longrightarrow> fst (transition now t s m) = Inr t' \<Longrightarrow> valid_task t'"
  by (auto simp: transition_Inr_iff valid_task_def)

lemma run_transitions_reach:
  "run_transitions steps t m = (t', m') \<Longrightarrow> lifecycle\<^sup>*\<^sup>* (t_status t) (t_status t')"
proof (induction steps arbitrary: t m)
  case (Cons st steps)
  obtain now s where st: "st = (now, s)" by (cases st)
  show ?case
  proof (cases "can_transition (t_status t) s")
    case True
    with Cons.prems st have
      "run_transitions steps (t\<lparr>t_status := s, t_updated_at := now\<rparr>)
         (increment_counter ''asap_state_transitions_total'' (transition_labels (t_status t) s) 1 m) = (t', m')"
      by (simp add: transition_def)
    from Cons.IH [OF this] True show ?thesis
      by (auto simp: can_transition_lifecycle intro: converse_rtranclp_into_rtranclp)
  next
    case False
    with Cons.prems st Cons.IH show ?thesis by (simp add: transition_def)
  qed
qed simp

lemma run_transitions_frame:
  "run_transitions steps t m = (t', m') \<Longrightarrow>
     t_id t' = t_id t \<and> t_created_at t' = t_created_at t \<and> t_depth t' = t_depth t \<and>
     t_parent_task_id t' = t_parent_task_id t \<and> t_conversation_id t' = t_conversation_id t \<and>
     t_progress t' = t_progress t"
  by (induction steps t m rule: run_transitions.induct)
    (auto simp: transition_def split: prod.splits sum.splits if_splits)

lemma run_transitions_terminal:
  "is_terminal (t_status t) \<Longrightarrow> run_transitions steps t m = (t, m)"
  by (induction steps) (auto simp: transition_def can_transition_lifecycle lifecycle_terminal_iff)

text \<open>Steps of a run that the machine accepts, in order.\<close>

fun accepted_steps :: "task_status \<Rightarrow> task_status list \<Rightarrow> (task_status \<times> task_status) list" where
  "accepted_steps a [] = []"
| "accepted_steps a (s # ss) =
     (if can_transition a s then (a, s) # accepted_steps s ss else accepted_steps a ss)"

lemma transition_labels_key:
  "label_key (transition_labels a b) = label_key (transition_labels c d) \<longleftrightarrow> a = c \<and> b = d"
proof -
  have "label_key (transition_labels a b) = [(''from_status'', status_value a), (''to_status'', status_value b)]"
    for a b
    by (simp add: label_key_def transition_labels_def less_eq_prod_def Cons_less_Cons Cons_le_Cons
        less_char_def)
  then show ?thesis by (simp add: status_value_inj)
qed

lemma run_transitions_counts:
  assumes "run_transitions steps t m = (t', m')"
    and "map_of (counters m) ''asap_state_transitions_total'' \<noteq> None"
  shows "get_counter ''asap_state_transitions_total'' (transition_labels a b) m' =
    get_counter ''asap_state_transitions_total'' (transition_labels a b) m +
    of_nat (count_list (accepted_steps (t_status t) (map snd steps)) (a, b))"
  using assms
proof (induction steps arbitrary: t m)
  case (Cons st steps)
  obtain now s where st: "st = (now, s)" by (cases st)
  show ?case
  proof (cases "can_transition (t_status t) s")
    case True
    let ?t = "t\<lparr>t_status := s, t_updated_at := now\<rparr>"
    let ?m = "increment_counter ''asap_state_transitions_total'' (transition_labels (t_status t) s) 1 m"
    from True Cons.prems(1) st have run: "run_transitions steps ?t ?m = (t', m')"
      by (simp add: transition_def)
    from Cons.IH [OF run] Cons.prems(2) True st show ?thesis
      by (auto simp: get_counter_increment increment_counter_known transition_labels_key)
  next
    case False
    with Cons.prems st Cons.IH show ?thesis by (simp add: transition_def)
  qed
qed simp

subsection \<open>Properties\<close>

text \<open>C9: whatever transitions are attempted on a task, in whatever order, its status moves along
  the arrows of the protocol's lifecycle only (and the table allows exactly those arrows), nothing
  but the status and the update time changes, and a task in a terminal status never changes again.\<close>

theorem task_runs_follow_lifecycle:
  assumes "run_transitions steps t m = (t', m')"
  shows "lifecycle\<^sup>*\<^sup>* (t_status t) (t_status t') \<and> (\<forall>a b. can_transition a b \<longleftrightarrow> lifecycle a b) \<and>
    (is_terminal (t_status t) \<longrightarrow> t' = t \<and> m' = m) \<and>
    t' = t\<lparr>t_status := t_status t', t_updated_at := t_updated_at t'\<rparr>"
proof (intro conjI)
  show "lifecycle\<^sup>*\<^sup>* (t_status t) (t_status t')" by (rule run_transitions_reach [OF assms])
  show "is_terminal (t_status t) \<longrightarrow> t' = t \<and> m' = m" using run_transitions_terminal [of t steps m] assms by simp
  show "t' = t\<lparr>t_status := t_status t', t_updated_at := t_updated_at t'\<rparr>"
    using run_transitions_frame [OF assms] by simp
qed (simp add: can_transition_lifecycle)

theorem task_runs_follow_lifecycle_witness:
  "lifecycle\<^sup>*\<^sup>* SUBMITTED COMPLETED"
proof -
  let ?t = "\<lparr>t_id = ''t'', t_conversation_id = ''c'', t_parent_task_id = None, t_status = SUBMITTED,
    t_depth = 0, t_progress = None, t_created_at = 0, t_updated_at = 0\<rparr>"
  have "\<exists>m'. run_transitions [(1, COMPLETED), (2, WORKING), (3, COMPLETED), (4, FAILED)] ?t (collector_init 0) =
    (?t\<lparr>t_status := COMPLETED, t_updated_at := 3\<rparr>, m')"
    by (simp add: transition_def)
  then show ?thesis using task_runs_follow_lifecycle by fastforce
qed

text \<open>The counter of state transitions counts, per pair of statuses, exactly the transitions
  the machine accepted.\<close>

theorem accepted_transitions_counted:
  assumes "run_transitions steps t (collector_init now) = (t', m')"
  shows "get_counter ''asap_state_transitions_total'' (transition_labels a b) m' =
    of_nat (count_list (accepted_steps (t_status t) (map snd steps)) (a, b))"
proof -
  have "map_of (counters (collector_init now)) ''asap_state_transitions_total'' =
    Some (new_counter ''asap_state_transitions_total'' ''Total number of state machine transitions'')"
    by (simp add: collector_init_def DEFAULT_COUNTERS_def)
  with run_transitions_counts [OF assms, of a b] show ?thesis
    by (simp add: get_counter_def counter_get_def new_counter_def)
qed

theorem accepted_transitions_counted_witness:
  "get_counter ''asap_state_transitions_total'' (transition_labels SUBMITTED WORKING)
    (snd (run_transitions [(1, COMPLETED), (2, WORKING), (3, COMPLETED)]
      \<lparr>t_id = ''t'', t_conversation_id = ''c'', t_parent_task_id = None, t_status = SUBMITTED,
       t_depth = 0, t_progress = None, t_created_at = 0, t_updated_at = 0\<rparr> (collector_init 0))) = 1"
  by (subst accepted_transitions_counted [OF prod.collapse [symmetric]]) simp

end
