(* ===== verification/Snapshot_Store.thy ===== *)
theory Snapshot_Store
  imports Asap_Prelude
begin

text \<open>
  State snapshots: \<open>StateSnapshot\<close> of \<open>src/asap/models/entities.py\<close>, the store protocol of
  \<open>src/asap/state/snapshot.py\<close> as the locale \<open>snapshot_store\<close>, and the in-memory store of
  \<open>src/asap/state/stores/memory.py\<close> as its interpretation. The synchronous and the asynchronous
  class have the same method bodies under a lock held for the whole call, so one set of
  definitions models both.
\<close>

subsection \<open>Snapshots\<close>

record snapshot =
  sn_id :: string
  sn_task_id :: string
  sn_version :: int
  sn_data :: pydict
  sn_checkpoint :: bool
  sn_created_at :: datetime

text \<open>The field constraint \<open>ge=1\<close> on \<open>version\<close>.\<close>

definition valid_snapshot :: "snapshot \<Rightarrow> bool" where
  "valid_snapshot sn \<longleftrightarrow> 1 \<le> sn_version sn"

lemma le_last_sorted_list:
  "finite A \<Longrightarrow> A \<noteq> {} \<Longrightarrow> (last (sorted_list_of_set A) \<in> A) \<and> (\<forall>v \<in> A. v \<le> last (sorted_list_of_set (A :: int set)))"
proof -
  assume fin: "finite A" and ne: "A \<noteq> {}"
  have "xs \<noteq> [] \<Longrightarrow> sorted xs \<Longrightarrow> v \<in> set xs \<Longrightarrow> v \<le> last xs" for xs and v :: int
    by (induction xs) (auto split: if_splits)
  from this [of "sorted_list_of_set A"] fin ne last_in_set [of "sorted_list_of_set A"]
  show ?thesis by auto
qed

subsection \<open>Histories\<close>

text \<open>What clients do to a store, and what it means for the snapshots of the tasks.\<close>

datatype snap_op = Save snapshot | Delete string "int option"

fun spec_step :: "snap_op \<Rightarrow> (string \<Rightarrow> int \<Rightarrow> snapshot option) \<Rightarrow> string \<Rightarrow> int \<Rightarrow> snapshot option" where
  "spec_step (Save sn) f = f(sn_task_id sn := (f (sn_task_id sn))(sn_version sn \<mapsto> sn))"
| "spec_step (Delete t None) f = f(t := Map.empty)"
| "spec_step (Delete t (Some v)) f = f(t := (f t)(v := None))"

definition spec_run :: "snap_op list \<Rightarrow> string \<Rightarrow> int \<Rightarrow> snapshot option" where
  "spec_run ops = fold spec_step ops (\<lambda>t. Map.empty)"

fun valid_op :: "snap_op \<Rightarrow> bool" where
  "valid_op (Save sn) = valid_snapshot sn"
| "valid_op (Delete t vo) = True"

subsection \<open>The contract of a snapshot store\<close>

text \<open>The abstract value of a store: per task, a finite map from versions to snapshots. The
  laws are what the docstrings of the protocol promise for each method.\<close>

locale snapshot_store =
  fixes empty :: 's
    and save :: "snapshot \<Rightarrow> 's \<Rightarrow> 's"
    and get :: "string \<Rightarrow> int option \<Rightarrow> 's \<Rightarrow> snapshot option"
    and list_versions :: "string \<Rightarrow> 's \<Rightarrow> int list"
    and delete :: "string \<Rightarrow> int option \<Rightarrow> 's \<Rightarrow> bool \<times> 's"
    and contents :: "'s \<Rightarrow> string \<Rightarrow> int \<Rightarrow> snapshot option"
    and invar :: "'s \<Rightarrow> bool"
  assumes invar_empty: "invar empty"
    and invar_save: "invar s \<Longrightarrow> valid_snapshot sn \<Longrightarrow> invar (save sn s)"
    and invar_delete: "invar s \<Longrightarrow> invar (snd (delete t vo s))"
    and finite_contents: "invar s \<Longrightarrow> finite (dom (contents s t))"
    and contents_empty: "contents empty t = Map.empty"
    and contents_save: "invar s \<Longrightarrow> valid_snapshot sn \<Longrightarrow> contents (save sn s) t =
      (if t = sn_task_id sn then (contents s t)(sn_version sn \<mapsto> sn) else contents s t)"
    and contents_delete_all: "invar s \<Longrightarrow> contents (snd (delete t None s)) t' =
      (if t' = t then Map.empty else contents s t')"
    and contents_delete_one: "invar s \<Longrightarrow> contents (snd (delete t (Some v) s)) t' =
      (if t' = t then (contents s t)(v := None) else contents s t')"
    and delete_result: "invar s \<Longrightarrow> fst (delete t vo s) \<longleftrightarrow>
      (case vo of None \<Rightarrow> dom (contents s t) \<noteq> {} | Some v \<Rightarrow> v \<in> dom (contents s t))"
    and get_version: "invar s \<Longrightarrow> get t (Some v) s = contents s t v"
    and get_latest: "invar s \<Longrightarrow> get t None s =
      (if dom (contents s t) = {} then None else contents s t (Max (dom (contents s t))))"
    and list_versions_eq: "invar s \<Longrightarrow> list_versions t s = sorted_list_of_set (dom (contents s t))"
begin

lemma save_then_get:
  "invar s \<Longrightarrow> valid_snapshot sn \<Longrightarrow> get (sn_task_id sn) (Some (sn_version sn)) (save sn s) = Some sn"
  by (simp add: get_version invar_save contents_save)

text \<open>Resuming from the latest snapshot returns the one just saved, when its version is not
  below those already there.\<close>

lemma save_then_latest:
  assumes "invar s" "valid_snapshot sn"
    and "\<forall>v \<in> dom (contents s (sn_task_id sn)). v \<le> sn_version sn"
  shows "get (sn_task_id sn) None (save sn s) = Some sn"
proof -
  let ?D = "dom (contents s (sn_task_id sn))"
  have "Max (insert (sn_version sn) ?D) = sn_version sn"
    using assms finite_contents [OF assms(1)] by (intro Max_eqI) auto
  then show ?thesis
    using assms by (simp add: get_latest invar_save contents_save)
qed

text \<open>Saving an older version leaves the latest one in place.\<close>

lemma save_older_keeps_latest:
  assumes "invar s" "valid_snapshot sn" "v \<in> dom (contents s (sn_task_id sn))" "sn_version sn < v"
  shows "get (sn_task_id sn) None (save sn s) = get (sn_task_id sn) None s"
proof -
  let ?D = "dom (contents s (sn_task_id sn))"
  have fin: "finite ?D" using finite_contents [OF assms(1)] .
  have lt: "sn_version sn < Max ?D"
    using assms(3,4) fin by (metis Max_ge order_less_le_trans)
  then have "Max (insert (sn_version sn) ?D) = Max ?D"
    using assms(3) fin by (subst Max_insert) auto
  then show ?thesis
    using assms lt by (auto simp: get_latest invar_save contents_save)
qed

lemma delete_then_get: "invar s \<Longrightarrow> get t (Some v) (snd (delete t (Some v) s)) = None"
  by (simp add: get_version invar_delete contents_delete_one)

lemma delete_all_then_latest: "invar s \<Longrightarrow> get t None (snd (delete t None s)) = None"
  by (simp add: get_latest invar_delete contents_delete_all)

text \<open>Deleting the latest version rolls the task back to the greatest version left.\<close>

lemma delete_latest_rolls_back:
  assumes "invar s"
  shows "get t None (snd (delete t (Some v) s)) =
    (if dom (contents s t) - {v} = {} then None
     else contents s t (Max (dom (contents s t) - {v})))"
proof (cases "dom (contents s t) - {v} = {}")
  case True
  then show ?thesis
    using assms by (auto simp: get_latest invar_delete contents_delete_one)
next
  case False
  have "Max (dom (contents s t) - {v}) \<in> dom (contents s t) - {v}"
    using finite_contents [OF assms] False by (intro Max_in) auto
  then show ?thesis
    using assms False by (auto simp: get_latest invar_delete contents_delete_one)
qed

lemma list_versions_sorted: "invar s \<Longrightarrow> sorted (list_versions t s) \<and> distinct (list_versions t s)"
  by (simp add: list_versions_eq)

lemma list_versions_get:
  "invar s \<Longrightarrow> v \<in> set (list_versions t s) \<longleftrightarrow> get t (Some v) s \<noteq> None"
  using finite_contents [of s t] by (auto simp: list_versions_eq get_version)

lemma latest_is_last:
  assumes "invar s"
  shows "get t None s =
    (if list_versions t s = [] then None else get t (Some (last (list_versions t s))) s)"
proof (cases "dom (contents s t) = {}")
  case False
  have fin: "finite (dom (contents s t))" by (rule finite_contents [OF assms])
  have "last (sorted_list_of_set (dom (contents s t))) = Max (dom (contents s t))"
    using False fin by (intro Max_eqI [symmetric]) (simp_all add: le_last_sorted_list)
  then show ?thesis
    using False assms fin by (simp add: get_latest get_version list_versions_eq)
qed (simp add: assms get_latest list_versions_eq)

text \<open>Every history is the specification's.\<close>

fun op_step :: "snap_op \<Rightarrow> 's \<Rightarrow> 's" where
  "op_step (Save sn) s = save sn s"
| "op_step (Delete t vo) s = snd (delete t vo s)"

lemma op_step_spec:
  assumes "invar s" "valid_op opn"
  shows "invar (op_step opn s)" "contents (op_step opn s) = spec_step opn (contents s)"
proof -
  show "invar (op_step opn s)"
    using assms by (cases opn) (auto intro: invar_save invar_delete)
  show "contents (op_step opn s) = spec_step opn (contents s)"
  proof (cases opn)
    case (Save sn)
    with assms show ?thesis by (auto simp: contents_save)
  next
    case (Delete t vo)
    with assms show ?thesis by (cases vo) (auto simp: contents_delete_all contents_delete_one)
  qed
qed

lemma history_spec:
  assumes "\<forall>opn \<in> set ops. valid_op opn"
  shows "invar (fold op_step ops empty)" "contents (fold op_step ops empty) = spec_run ops"
proof -
  have "invar s \<Longrightarrow> invar (fold op_step ops s) \<and> contents (fold op_step ops s) = fold spec_step ops (contents s)" for s
    using assms by (induction ops arbitrary: s) (simp_all add: op_step_spec)
  moreover have "contents empty = (\<lambda>t. Map.empty)" by (rule ext) (rule contents_empty)
  ultimately show "invar (fold op_step ops empty)" "contents (fold op_step ops empty) = spec_run ops"
    using invar_empty by (simp_all add: spec_run_def)
qed

end

subsection \<open>The in-memory store\<close>

record mem_store =
  snapshots :: "(string, (int, snapshot) dict) dict"
  latest_versions :: "(string, int) dict"

definition mem_init :: mem_store where
  "mem_init = \<lparr>snapshots = [], latest_versions = []\<rparr>"

definition mem_save :: "snapshot \<Rightarrow> mem_store \<Rightarrow> mem_store" where
  "mem_save sn s =
     (let t = sn_task_id sn;
          vs = (case map_of (snapshots s) t of None \<Rightarrow> [] | Some vs \<Rightarrow> vs);
          old = (case map_of (latest_versions s) t of None \<Rightarrow> 0 | Some v \<Rightarrow> v)
      in s\<lparr>snapshots := AList.update t (AList.update (sn_version sn) sn vs) (snapshots s),
           latest_versions := AList.update t (max old (sn_version sn)) (latest_versions s)\<rparr>)"

definition mem_get :: "string \<Rightarrow> int option \<Rightarrow> mem_store \<Rightarrow> snapshot option" where
  "mem_get t version s =
     (case map_of (snapshots s) t of
        None \<Rightarrow> None
      | Some vs \<Rightarrow>
          (case version of
             None \<Rightarrow> (case map_of (latest_versions s) t of None \<Rightarrow> None | Some l \<Rightarrow> map_of vs l)
           | Some v \<Rightarrow> map_of vs v))"

definition mem_list_versions :: "string \<Rightarrow> mem_store \<Rightarrow> int list" where
  "mem_list_versions t s =
     (case map_of (snapshots s) t of None \<Rightarrow> [] | Some vs \<Rightarrow> sort (dict_keys vs))"

definition mem_delete :: "string \<Rightarrow> int option \<Rightarrow> mem_store \<Rightarrow> bool \<times> mem_store" where
  "mem_delete t version s =
     (case map_of (snapshots s) t of
        None \<Rightarrow> (False, s)
      | Some vs \<Rightarrow>
          (case version of
             None \<Rightarrow> (True, s\<lparr>snapshots := AList.delete t (snapshots s),
                            latest_versions := AList.delete t (latest_versions s)\<rparr>)
           | Some v \<Rightarrow>
               if v \<in> set (dict_keys vs) then
                 (let vs' = AList.delete v vs;
                      s1 = s\<lparr>snapshots := AList.update t vs' (snapshots s)\<rparr>;
                      s2 = (if map_of (latest_versions s1) t = Some v then
                              (if vs' \<noteq> []
                               then s1\<lparr>latest_versions :=
                                       AList.update t (Max (set (dict_keys vs'))) (latest_versions s1)\<rparr>
                               else s1\<lparr>latest_versions := AList.delete t (latest_versions s1)\<rparr>)
                            else s1);
                      s3 = (if vs' = []
                            then s2\<lparr>snapshots := AList.delete t (snapshots s2),
                                    latest_versions := AList.delete t (latest_versions s2)\<rparr>
                            else s2)
                  in (True, s3))
               else (False, s)))"

text \<open>What the store means, and what the two dictionaries have to say about each other: a task
  has an entry only when it has a version, and its recorded latest version is the greatest.\<close>

definition mem_contents :: "mem_store \<Rightarrow> string \<Rightarrow> int \<Rightarrow> snapshot option" where
  "mem_contents s t = (case map_of (snapshots s) t of None \<Rightarrow> Map.empty | Some vs \<Rightarrow> map_of vs)"

fun entry_ok :: "(int, snapshot) dict option \<Rightarrow> int option \<Rightarrow> bool" where
  "entry_ok None l \<longleftrightarrow> l = None"
| "entry_ok (Some vs) l \<longleftrightarrow> vs \<noteq> [] \<and> wf_dict vs \<and> (\<forall>v \<in> set (dict_keys vs). 1 \<le> v) \<and>
     l = Some (Max (set (dict_keys vs)))"

definition mem_inv :: "mem_store \<Rightarrow> bool" where
  "mem_inv s \<longleftrightarrow> (\<forall>t. entry_ok (map_of (snapshots s) t) (map_of (latest_versions s) t))"

lemmas mem_defs [store_defs] =
  mem_init_def mem_save_def mem_get_def mem_list_versions_def mem_delete_def mem_contents_def

lemma mem_invD:
  assumes "mem_inv s" "map_of (snapshots s) t = Some vs"
  shows "vs \<noteq> []" "v \<in> set (dict_keys vs) \<Longrightarrow> 1 \<le> v"
    "map_of (latest_versions s) t = Some (Max (set (dict_keys vs)))"
    "wf_dict vs"
proof -
  have "entry_ok (Some vs) (map_of (latest_versions s) t)"
    using assms by (metis mem_inv_def)
  then show "vs \<noteq> []" "v \<in> set (dict_keys vs) \<Longrightarrow> 1 \<le> v"
    "map_of (latest_versions s) t = Some (Max (set (dict_keys vs)))" "wf_dict vs"
    by (simp_all del: set_map)
qed

lemma mem_invD_None:
  "mem_inv s \<Longrightarrow> map_of (snapshots s) t = None \<Longrightarrow> map_of (latest_versions s) t = None"
  by (auto simp: mem_inv_def dest!: spec [of _ t])

text \<open>A step that touches one task keeps the invariant if the entry of that task is right after it.\<close>

lemma mem_inv_change_one:
  assumes "mem_inv s" "entry_ok (map_of (snapshots s') t) (map_of (latest_versions s') t)"
    and "\<And>t'. t' \<noteq> t \<Longrightarrow> map_of (snapshots s') t' = map_of (snapshots s) t' \<and>
      map_of (latest_versions s') t' = map_of (latest_versions s) t'"
  shows "mem_inv s'"
  unfolding mem_inv_def using assms by (metis mem_inv_def)

lemma update_ne_Nil [simp]: "AList.update k v d \<noteq> []"
  by (cases d) auto

lemma keys_update_set: "set (map fst (AList.update k v d)) = insert k (set (map fst d))"
  by (induction d) auto

lemma mem_inv_save:
  assumes inv: "mem_inv s" and valid: "valid_snapshot sn"
  shows "mem_inv (mem_save sn s)"
proof (rule mem_inv_change_one [where t = "sn_task_id sn", OF inv])
  let ?t = "sn_task_id sn" and ?v = "sn_version sn"
  show "entry_ok (map_of (snapshots (mem_save sn s)) ?t) (map_of (latest_versions (mem_save sn s)) ?t)"
  proof (cases "map_of (snapshots s) ?t")
    case None
    with mem_invD_None [OF inv None] valid show ?thesis
      by (simp add: mem_save_def Let_def dict_simps valid_snapshot_def)
  next
    case (Some vs)
    note D = mem_invD [OF inv Some]
    have "Max (insert ?v (set (dict_keys vs))) = max (Max (set (dict_keys vs))) ?v"
      using D(1) by (simp add: max.commute)
    with Some D valid show ?thesis
      by (auto simp: mem_save_def Let_def dict_simps keys_update_set valid_snapshot_def simp del: set_map)
  qed
qed (simp add: mem_save_def Let_def dict_simps)

lemma delete_eq_Nil_iff: "AList.delete k d = [] \<longleftrightarrow> set (map fst d) \<subseteq> {k}"
  by (auto simp: AList.delete_eq filter_empty_conv)

lemma Max_delete_other:
  "finite A \<Longrightarrow> v \<noteq> Max A \<Longrightarrow> A \<noteq> {} \<Longrightarrow> Max (A - {v}) = Max (A :: int set)"
  by (rule Max_eqI) (auto intro: Max_in Max_ge)

lemma mem_inv_delete:
  assumes inv: "mem_inv s"
  shows "mem_inv (snd (mem_delete t vo s))"
proof (rule mem_inv_change_one [where t = t, OF inv])
  show "entry_ok (map_of (snapshots (snd (mem_delete t vo s))) t)
    (map_of (latest_versions (snd (mem_delete t vo s))) t)"
  proof (cases "map_of (snapshots s) t")
    case None
    with mem_invD_None [OF inv None] show ?thesis by (simp add: mem_delete_def)
  next
    case (Some vs)
    note D = mem_invD [OF inv Some]
    have ge1: "\<forall>v' \<in> set (dict_keys (AList.delete v vs)). 1 \<le> v'" for v
      using D(2) by (auto simp: AList.delete_eq)
    show ?thesis
      using Some D ge1 Max_delete_other [of "set (dict_keys vs)"]
      by (auto simp: mem_delete_def Let_def dict_simps split: option.splits simp del: set_map)
  qed
qed (auto simp: mem_delete_def Let_def dict_simps split: option.splits)

lemma mem_contents_save:
  "mem_contents (mem_save sn s) t =
     (if t = sn_task_id sn then (mem_contents s t)(sn_version sn \<mapsto> sn) else mem_contents s t)"
  by (rule ext) (auto simp: mem_contents_def mem_save_def Let_def dict_simps split: option.splits)

lemma mem_contents_delete_all:
  "mem_contents (snd (mem_delete t None s)) t' = (if t' = t then Map.empty else mem_contents s t')"
  by (auto simp: mem_contents_def mem_delete_def dict_simps split: option.splits)

lemma mem_contents_delete_one:
  "mem_contents (snd (mem_delete t (Some v) s)) t' =
     (if t' = t then (mem_contents s t)(v := None) else mem_contents s t')"
proof (cases "map_of (snapshots s) t")
  case (Some vs)
  have nil: "AList.delete v vs = [] \<Longrightarrow> (map_of vs)(v := None) = Map.empty"
    using delete_conv' [of v vs] by simp
  show ?thesis
  proof (cases "v \<in> set (dict_keys vs)")
    case False
    then have "(map_of vs)(v := None) = map_of vs"
      by (intro fun_upd_idem) (simp add: map_of_eq_None_iff)
    with False Some show ?thesis by (simp add: mem_contents_def mem_delete_def)
  next
    case True
    with Some nil show ?thesis
      by (auto simp: mem_contents_def mem_delete_def Let_def dict_simps delete_conv' split: option.splits)
  qed
qed (auto simp: mem_contents_def mem_delete_def)

lemma dom_mem_contents:
  "dom (mem_contents s t) = (case map_of (snapshots s) t of None \<Rightarrow> {} | Some vs \<Rightarrow> set (dict_keys vs))"
  by (simp add: mem_contents_def dom_map_of_conv_image_fst split: option.splits)

lemma mem_delete_result:
  assumes "mem_inv s"
  shows "fst (mem_delete t vo s) \<longleftrightarrow>
    (case vo of None \<Rightarrow> dom (mem_contents s t) \<noteq> {} | Some v \<Rightarrow> v \<in> dom (mem_contents s t))"
  using assms mem_invD(1) [of s t]
  by (auto simp: mem_delete_def Let_def dom_mem_contents split: option.splits)

lemma mem_get_latest:
  assumes "mem_inv s"
  shows "mem_get t None s =
    (if dom (mem_contents s t) = {} then None else mem_contents s t (Max (dom (mem_contents s t))))"
  using assms mem_invD [of s t]
  by (auto simp: mem_get_def dom_mem_contents mem_contents_def dom_map_of_conv_image_fst
      split: option.splits)

lemma mem_list_versions_eq:
  assumes "mem_inv s"
  shows "mem_list_versions t s = sorted_list_of_set (dom (mem_contents s t))"
  using assms mem_invD(4) [of s t]
  by (simp add: mem_list_versions_def dom_mem_contents sorted_list_of_set_sort_remdups
      distinct_remdups_id del: set_map split: option.splits)

interpretation mem: snapshot_store mem_init mem_save mem_get mem_list_versions mem_delete
  mem_contents mem_inv
proof (unfold_locales, goal_cases)
  case 1 show ?case by (simp add: mem_inv_def mem_init_def)
next
  case (4 s t) show ?case by (simp add: dom_mem_contents split: option.splits)
next
  case (5 t) show ?case by (simp add: mem_contents_def mem_init_def)
next
  case (10 s t v) show ?case by (simp add: mem_get_def mem_contents_def split: option.splits)
qed (simp_all add: mem_inv_save mem_inv_delete mem_contents_save mem_contents_delete_all
    mem_contents_delete_one mem_delete_result mem_get_latest mem_list_versions_eq)

subsection \<open>Properties\<close>

text \<open>C8: the in-memory store implements a map from task and version to snapshot: after any saves
  and deletions, a version is found exactly if the history leaves it there, the call without a
  version returns the snapshot of the greatest version left, and the list of versions is those
  versions in order.\<close>

theorem memory_store_refines_map:
  assumes "\<forall>opn \<in> set ops. valid_op opn"
  shows "mem_get t (Some v) (fold mem.op_step ops mem_init) = spec_run ops t v \<and>
    mem_get t None (fold mem.op_step ops mem_init) =
      (if dom (spec_run ops t) = {} then None else spec_run ops t (Max (dom (spec_run ops t)))) \<and>
    mem_list_versions t (fold mem.op_step ops mem_init) = sorted_list_of_set (dom (spec_run ops t))"
  by (simp add: mem.get_version mem.get_latest mem.list_versions_eq mem.history_spec [OF assms])

theorem memory_store_refines_map_witness:
  "mem_list_versions ''t'' (fold mem.op_step
     (map (\<lambda>v. Save \<lparr>sn_id = ''s'', sn_task_id = ''t'', sn_version = v, sn_data = [],
        sn_checkpoint = False, sn_created_at = 0\<rparr>) [3, 1] @ [Delete ''t'' (Some 3)]) mem_init) = [1]"
proof (subst memory_store_refines_map [THEN conjunct2, THEN conjunct2])
  show "sorted_list_of_set (dom (spec_run (map (\<lambda>v. Save \<lparr>sn_id = ''s'', sn_task_id = ''t'', sn_version = v, sn_data = [],
        sn_checkpoint = False, sn_created_at = 0\<rparr>) [3, 1] @ [Delete ''t'' (Some 3)]) ''t'')) = [1]"
    by (simp add: spec_run_def fun_upd_def dom_def)
qed (simp add: valid_snapshot_def)

end
