(* ===== verification/Circuit_Breaker.thy ===== *)
theory Circuit_Breaker
  imports Asap_Prelude
begin

text \<open>
  The circuit breaker of the client and its registry
  (\<open>src/asap/transport/circuit_breaker.py\<close>). Every method runs under the breaker's lock, so it
  is one step; \<open>now\<close> is the value \<open>time.time()\<close> returns inside it. The registry hands out
  shared breaker objects by URL, so the model keeps them in the registry and an operation on a
  breaker is an operation on the registry entry.
\<close>

subsection \<open>The breaker\<close>

datatype circuit_state = CLOSED | OPEN | HALF_OPEN

record breaker =
  threshold :: int
  timeout :: seconds
  cb_state :: circuit_state
  consecutive_failures :: int
  last_failure_time :: "seconds option"
  half_open_permit :: bool

definition DEFAULT_CIRCUIT_BREAKER_THRESHOLD :: int where
  "DEFAULT_CIRCUIT_BREAKER_THRESHOLD = 5"

definition DEFAULT_CIRCUIT_BREAKER_TIMEOUT :: seconds where
  "DEFAULT_CIRCUIT_BREAKER_TIMEOUT = 60"

definition cb_init :: "int \<Rightarrow> seconds \<Rightarrow> breaker" where
  "cb_init thr tmo = \<lparr>threshold = thr, timeout = tmo, cb_state = CLOSED,
     consecutive_failures = 0, last_failure_time = None, half_open_permit = True\<rparr>"

definition record_success :: "breaker \<Rightarrow> breaker" where
  "record_success b =
     (let b1 = b\<lparr>consecutive_failures := 0\<rparr> in
      if cb_state b1 = HALF_OPEN
      then b1\<lparr>cb_state := CLOSED, last_failure_time := None\<rparr> else b1)"

definition record_failure :: "seconds \<Rightarrow> breaker \<Rightarrow> breaker" where
  "record_failure now b =
     (let b1 = b\<lparr>consecutive_failures := consecutive_failures b + 1,
                 last_failure_time := Some now\<rparr>;
          threshold_reached = (threshold b1 \<le> consecutive_failures b1 \<and> cb_state b1 = CLOSED)
      in if cb_state b1 = HALF_OPEN \<or> threshold_reached
         then b1\<lparr>cb_state := OPEN\<rparr> else b1)"

definition can_attempt :: "seconds \<Rightarrow> breaker \<Rightarrow> bool \<times> breaker" where
  "can_attempt now b =
     (let b1 = (if cb_state b = OPEN then
                  (case last_failure_time b of
                     None \<Rightarrow> b
                   | Some t \<Rightarrow> if timeout b \<le> now - t
                               then b\<lparr>cb_state := HALF_OPEN, half_open_permit := True\<rparr> else b)
                else b)
      in if cb_state b = OPEN \<and> cb_state b1 \<noteq> HALF_OPEN then (False, b1)
         else if cb_state b1 = HALF_OPEN then
           (if \<not> half_open_permit b1 then (False, b1)
            else (True, b1\<lparr>half_open_permit := False\<rparr>))
         else (True, b1))"

subsection \<open>The registry\<close>

type_synonym registry = "(string, breaker) dict"

definition get_or_create :: "string \<Rightarrow> int \<Rightarrow> seconds \<Rightarrow> registry \<Rightarrow> breaker \<times> registry" where
  "get_or_create url thr tmo r =
     (case map_of r url of
        None \<Rightarrow> (cb_init thr tmo, AList.update url (cb_init thr tmo) r)
      | Some b \<Rightarrow> (b, r))"

definition registry_clear :: "registry \<Rightarrow> registry" where
  "registry_clear r = []"

subsection \<open>What callers do, as events\<close>

datatype cb_event = Success | Failure seconds | Attempt seconds

fun cb_step :: "cb_event \<Rightarrow> breaker \<Rightarrow> breaker" where
  "cb_step Success b = record_success b"
| "cb_step (Failure now) b = record_failure now b"
| "cb_step (Attempt now) b = snd (can_attempt now b)"

fun cb_run :: "cb_event list \<Rightarrow> breaker \<Rightarrow> breaker" where
  "cb_run [] b = b"
| "cb_run (e # es) b = cb_run es (cb_step e b)"

text \<open>Answers of the \<open>can_attempt\<close> calls of a run, in order.\<close>

fun cb_answers :: "cb_event list \<Rightarrow> breaker \<Rightarrow> bool list" where
  "cb_answers [] b = []"
| "cb_answers (e # es) b =
     (case e of Attempt now \<Rightarrow> fst (can_attempt now b) # cb_answers es (cb_step e b)
      | _ \<Rightarrow> cb_answers es (cb_step e b))"

inductive cb_reachable :: "int \<Rightarrow> seconds \<Rightarrow> breaker \<Rightarrow> bool" for thr tmo where
  init: "cb_reachable thr tmo (cb_init thr tmo)"
| step: "cb_reachable thr tmo b \<Longrightarrow> cb_reachable thr tmo (cb_step e b)"

subsection \<open>The abstract machine\<close>

text \<open>What the class documentation describes: closed with a count of failures in a row, open
  since a failure, or half open with the one trial request out.\<close>

datatype abs_breaker = AClosed int | AOpen seconds | AHalfOpen

fun abs_success :: "abs_breaker \<Rightarrow> abs_breaker" where
  "abs_success (AClosed n) = AClosed 0"
| "abs_success (AOpen t) = AOpen t"
| "abs_success AHalfOpen = AClosed 0"

fun abs_failure :: "int \<Rightarrow> seconds \<Rightarrow> abs_breaker \<Rightarrow> abs_breaker" where
  "abs_failure thr now (AClosed n) = (if thr \<le> n + 1 then AOpen now else AClosed (n + 1))"
| "abs_failure thr now (AOpen t) = AOpen now"
| "abs_failure thr now AHalfOpen = AOpen now"

fun abs_attempt :: "seconds \<Rightarrow> seconds \<Rightarrow> abs_breaker \<Rightarrow> bool \<times> abs_breaker" where
  "abs_attempt tmo now (AClosed n) = (True, AClosed n)"
| "abs_attempt tmo now (AOpen t) = (if tmo \<le> now - t then (True, AHalfOpen) else (False, AOpen t))"
| "abs_attempt tmo now AHalfOpen = (False, AHalfOpen)"

definition cb_abs :: "breaker \<Rightarrow> abs_breaker" where
  "cb_abs b = (case cb_state b of
      CLOSED \<Rightarrow> AClosed (consecutive_failures b)
    | OPEN \<Rightarrow> AOpen (case last_failure_time b of None \<Rightarrow> 0 | Some t \<Rightarrow> t)
    | HALF_OPEN \<Rightarrow> AHalfOpen)"

text \<open>An open breaker has a failure time; a half open one has handed its permit out.\<close>

definition cb_inv :: "breaker \<Rightarrow> bool" where
  "cb_inv b \<longleftrightarrow> 0 \<le> consecutive_failures b \<and>
     (cb_state b = OPEN \<longrightarrow> last_failure_time b \<noteq> None) \<and>
     (cb_state b = HALF_OPEN \<longrightarrow> \<not> half_open_permit b \<and> last_failure_time b \<noteq> None)"

lemmas cb_ops = record_success_def record_failure_def can_attempt_def Let_def

lemma cb_step_frame [simp]:
  "threshold (cb_step e b) = threshold b" "timeout (cb_step e b) = timeout b"
  by (cases e; simp add: cb_ops split: option.splits)+

lemma cb_inv_init: "cb_inv (cb_init thr tmo)"
  by (simp add: cb_inv_def cb_init_def)

lemma cb_inv_step [inv_intros]: "cb_inv b \<Longrightarrow> cb_inv (cb_step e b)"
  by (cases e) (auto simp: cb_inv_def cb_ops split: option.splits)

lemma cb_reachable_inv: "cb_reachable thr tmo b \<Longrightarrow> cb_inv b \<and> threshold b = thr \<and> timeout b = tmo"
  by (induction rule: cb_reachable.induct) (auto simp: cb_inv_init cb_inv_step, auto simp: cb_init_def)

lemma cb_run_inv: "cb_inv b \<Longrightarrow> cb_inv (cb_run es b)"
  by (induction es arbitrary: b) (auto intro: cb_inv_step)

text \<open>Each operation simulates its abstract counterpart, answers included.\<close>

lemma cb_abs_success: "cb_abs (record_success b) = abs_success (cb_abs b)"
  by (cases "cb_state b") (auto simp: cb_abs_def cb_ops)

lemma cb_abs_failure: "cb_abs (record_failure now b) = abs_failure (threshold b) now (cb_abs b)"
  by (cases "cb_state b") (auto simp: cb_abs_def cb_ops)

lemma cb_abs_attempt:
  assumes "cb_inv b"
  shows "abs_attempt (timeout b) now (cb_abs b) =
    (fst (can_attempt now b), cb_abs (snd (can_attempt now b)))"
proof (cases "cb_state b")
  case OPEN
  with assms obtain t where "last_failure_time b = Some t" by (auto simp: cb_inv_def)
  with OPEN show ?thesis by (simp add: cb_abs_def can_attempt_def)
qed (use assms in \<open>auto simp: cb_abs_def can_attempt_def cb_inv_def\<close>)

subsection \<open>Behaviour over time\<close>

text \<open>Failures in a row from a closed breaker.\<close>

lemma failures_in_a_row:
  assumes "cb_state b = CLOSED" "cb_abs b = AClosed n" "ts \<noteq> []"
  shows "cb_abs (cb_run (map Failure ts) b) =
    (if threshold b \<le> n + int (length ts) then AOpen (last ts) else AClosed (n + int (length ts)))"
  using assms
proof (induction ts arbitrary: b n)
  case (Cons t ts)
  have abs1: "cb_abs (record_failure t b) = (if threshold b \<le> n + 1 then AOpen t else AClosed (n + 1))"
    using Cons.prems by (simp add: cb_abs_failure)
  have opened: "cb_abs b' = AOpen t' \<Longrightarrow> xs \<noteq> [] \<Longrightarrow> cb_abs (cb_run (map Failure xs) b') = AOpen (last xs)"
    for b' t' xs
  proof (induction xs arbitrary: b' t')
    case (Cons x xs)
    then have "cb_abs (record_failure x b') = AOpen x" by (simp add: cb_abs_failure)
    with Cons.IH [of "record_failure x b'" x] show ?case by (cases xs) auto
  qed simp
  show ?case
  proof (cases "ts = []")
    case True
    with abs1 show ?thesis by simp
  next
    case False
    show ?thesis
    proof (cases "threshold b \<le> n + 1")
      case True
      with abs1 opened [of "record_failure t b" t ts] False show ?thesis by simp
    next
      case less: False
      with abs1 have closed: "cb_abs (record_failure t b) = AClosed (n + 1)" by simp
      then have "cb_state (record_failure t b) = CLOSED"
        by (auto simp: cb_abs_def split: circuit_state.splits)
      from Cons.IH [OF this closed False] False show ?thesis
        by (auto simp: record_failure_def Let_def algebra_simps)
    qed
  qed
qed simp

text \<open>Once the trial is out, every further caller is refused, whatever the time, until the trial
  reports.\<close>

lemma half_open_refuses:
  assumes "cb_state b = HALF_OPEN" "\<not> half_open_permit b"
  shows "cb_run (map Attempt ts) b = b \<and> cb_answers (map Attempt ts) b = replicate (length ts) False"
  using assms by (induction ts) (auto simp: can_attempt_def)

lemma open_refuses:
  assumes "cb_state b = OPEN" "last_failure_time b = Some t" "\<forall>now \<in> set ts. now - t < timeout b"
  shows "cb_run (map Attempt ts) b = b \<and> cb_answers (map Attempt ts) b = replicate (length ts) False"
  using assms by (induction ts) (auto simp: can_attempt_def)

lemma open_admits_trial:
  assumes "cb_state b = OPEN" "last_failure_time b = Some t" "timeout b \<le> now - t"
  shows "can_attempt now b = (True, b\<lparr>cb_state := HALF_OPEN, half_open_permit := False\<rparr>)"
  using assms by (simp add: can_attempt_def)

lemma registry_get_or_create:
  "get_or_create url thr tmo r = (b, r') \<Longrightarrow>
     map_of r' url = Some b \<and> (\<forall>u. u \<noteq> url \<longrightarrow> map_of r' u = map_of r u) \<and>
     get_or_create url thr' tmo' r' = (b, r')"
  by (auto simp: get_or_create_def dict_simps split: option.splits)

subsection \<open>Properties\<close>

text \<open>The abstract machine's answers to a history.\<close>

fun abs_answers :: "int \<Rightarrow> seconds \<Rightarrow> cb_event list \<Rightarrow> abs_breaker \<Rightarrow> bool list" where
  "abs_answers thr tmo [] a = []"
| "abs_answers thr tmo (Success # es) a = abs_answers thr tmo es (abs_success a)"
| "abs_answers thr tmo (Failure now # es) a = abs_answers thr tmo es (abs_failure thr now a)"
| "abs_answers thr tmo (Attempt now # es) a =
     fst (abs_attempt tmo now a) # abs_answers thr tmo es (snd (abs_attempt tmo now a))"

lemma cb_answers_abs:
  "cb_inv b \<Longrightarrow> cb_answers es b = abs_answers (threshold b) (timeout b) es (cb_abs b)"
proof (induction es arbitrary: b)
  case (Cons e es)
  note IH = Cons.IH [OF cb_inv_step [OF Cons.prems, of e]]
  show ?case
    using IH Cons.prems cb_step_frame [of e b]
    by (cases e) (simp_all add: cb_abs_success cb_abs_failure cb_abs_attempt)
qed simp

text \<open>C7: over every history of successes, failures and admission requests, a new breaker answers
  exactly as the three-state machine of its documentation: closed with a count of failures in a
  row, open since the last failure, half open with one trial out.\<close>

theorem breaker_refines_three_states:
  "cb_answers es (cb_init thr tmo) = abs_answers thr tmo es (AClosed 0)"
  using cb_answers_abs [OF cb_inv_init, of es thr tmo] by (simp add: cb_init_def cb_abs_def)

text \<open>A new breaker opens with the failure that completes the threshold, not before, when the
  failures come in a row; a success in between starts the count again.\<close>

theorem breaker_opens_at_threshold:
  assumes "ts \<noteq> []"
  shows "cb_abs (cb_run (map Failure ts) (cb_init thr tmo)) =
      (if thr \<le> int (length ts) then AOpen (last ts) else AClosed (int (length ts))) \<and>
    (int (length ts) < thr \<longrightarrow> cb_abs (cb_run (map Failure ts @ [Success]) (cb_init thr tmo)) = AClosed 0)"
proof (intro conjI impI)
  show 1: "cb_abs (cb_run (map Failure ts) (cb_init thr tmo)) =
      (if thr \<le> int (length ts) then AOpen (last ts) else AClosed (int (length ts)))"
    using failures_in_a_row [of "cb_init thr tmo" 0 ts] assms by (simp add: cb_init_def cb_abs_def)
  have app: "cb_run (xs @ ys) b = cb_run ys (cb_run xs b)" for xs ys b
    by (induction xs arbitrary: b) auto
  show "int (length ts) < thr \<Longrightarrow> cb_abs (cb_run (map Failure ts @ [Success]) (cb_init thr tmo)) = AClosed 0"
    using 1 by (simp add: app cb_abs_success)
qed

theorem breaker_opens_at_threshold_witness:
  "cb_abs (cb_run (map Failure [1, 2, 3]) (cb_init 3 60)) = AOpen 3 \<and>
   cb_abs (cb_run (map Failure [1, 2] @ [Success]) (cb_init 3 60)) = AClosed 0"
  using breaker_opens_at_threshold [of "[1, 2, 3]" 3 60] breaker_opens_at_threshold [of "[1, 2]" 3 60]
  by simp

text \<open>An open breaker refuses every request until its timeout has passed, then admits one
  trial and refuses every further request, at whatever time it comes, until the trial reports.\<close>

theorem breaker_admits_one_trial:
  assumes "cb_state b = OPEN" "last_failure_time b = Some t" "\<forall>now \<in> set early. now - t < timeout b"
    and "timeout b \<le> now - t"
  shows "cb_answers (map Attempt (early @ now # later)) b =
    replicate (length early) False @ True # replicate (length later) False"
  using assms(3)
proof (induction early)
  case Nil
  from open_admits_trial [OF assms(1,2,4)]
    half_open_refuses [of "b\<lparr>cb_state := HALF_OPEN, half_open_permit := False\<rparr>" later]
  show ?case by simp
next
  case (Cons x early)
  with assms(1,2) show ?case by (simp add: can_attempt_def)
qed

theorem breaker_admits_one_trial_witness:
  "cb_answers (map Attempt [5, 62, 63, 900]) (record_failure 1 (cb_init 1 60)) = [False, True, False, False]"
  using breaker_admits_one_trial [of "record_failure 1 (cb_init 1 60)" 1 "[5]" 62 "[63, 900]"]
  by (simp add: record_failure_def cb_init_def)

end
