(* ===== verification/Ttl_Cache.thy ===== *)
theory Ttl_Cache
  imports Asap_Prelude
begin

text \<open>
  The two bounded caches with expiry: \<open>ManifestCache\<close> (\<open>src/asap/transport/cache.py\<close>) and
  \<open>RegistrationReceiptTTLCache\<close> (\<open>src/asap/registry/receipt_cache.py\<close>). Both keep an
  \<open>OrderedDict\<close> from least to most recently used. The locale \<open>ttl_cache\<close> is what their users
  rely on, with the freshness of every answer proved once; both classes interpret it, and so does the registry cache of \<open>Lite_Registry\<close>.

  A method takes the values \<open>time.monotonic()\<close> returns in it; \<open>cleanup_expired\<close>, which reads
  the clock once per entry, is modelled with one reading.
\<close>

subsection \<open>The contract\<close>

text \<open>Calls on a cache; \<open>'c\<close> is what a store call depends on besides key and value.\<close>

datatype ('c, 'k, 'v) cache_event =
    Lookup rat 'k
  | Store 'c 'k 'v
  | Remove 'k

text \<open>The last store under a key that no removal of the key follows.\<close>

fun last_store :: "('c, 'k, 'v) cache_event list \<Rightarrow> 'k \<Rightarrow> ('c \<times> 'v) option \<Rightarrow> ('c \<times> 'v) option" where
  "last_store [] k acc = acc"
| "last_store (Lookup now k' # es) k acc = last_store es k acc"
| "last_store (Store c k' v # es) k acc = last_store es k (if k' = k then Some (c, v) else acc)"
| "last_store (Remove k' # es) k acc = last_store es k (if k' = k then None else acc)"

locale ttl_cache =
  fixes lookup :: "rat \<Rightarrow> 'k \<Rightarrow> 's \<Rightarrow> 'v option \<times> 's"
    and store :: "'c \<Rightarrow> 'k \<Rightarrow> 'v \<Rightarrow> 's \<Rightarrow> 's"
    and remove :: "'k \<Rightarrow> 's \<Rightarrow> 's"
    and entries :: "'s \<Rightarrow> 'k \<Rightarrow> ('v \<times> rat) option"
    and expiry :: "'c \<Rightarrow> 's \<Rightarrow> rat"
    and load :: "'s \<Rightarrow> nat"
    and fits :: "nat \<Rightarrow> 's \<Rightarrow> bool"
    and invar :: "'s \<Rightarrow> bool"
  assumes invar_lookup: "invar s \<Longrightarrow> invar (snd (lookup now k s))"
    and invar_store: "invar s \<Longrightarrow> invar (store c k v s)"
    and invar_remove: "invar s \<Longrightarrow> invar (remove k s)"
    and lookup_hit: "invar s \<Longrightarrow> fst (lookup now k s) = Some v \<Longrightarrow>
      \<exists>e. entries s k = Some (v, e) \<and> now < e"
    and lookup_live: "invar s \<Longrightarrow> entries s k = Some (v, e) \<Longrightarrow> now < e \<Longrightarrow> fst (lookup now k s) = Some v"
    and lookup_entries: "invar s \<Longrightarrow> entries (snd (lookup now k s)) k' = Some x \<Longrightarrow> entries s k' = Some x"
    and lookup_keeps: "invar s \<Longrightarrow> entries s k' = Some (v, e) \<Longrightarrow> now < e \<Longrightarrow>
      entries (snd (lookup now k s)) k' = Some (v, e)"
    and store_same: "invar s \<Longrightarrow> entries (store c k v s) k = Some (v, expiry c s)"
    and store_other: "invar s \<Longrightarrow> k' \<noteq> k \<Longrightarrow> entries (store c k v s) k' = Some x \<Longrightarrow> entries s k' = Some x"
    and remove_same: "invar s \<Longrightarrow> entries (remove k s) k = None"
    and remove_other: "invar s \<Longrightarrow> k' \<noteq> k \<Longrightarrow> entries (remove k s) k' = Some x \<Longrightarrow> entries s k' = Some x"
    and expiry_lookup: "expiry c (snd (lookup now k s)) = expiry c s"
    and expiry_store: "expiry c (store c' k v s) = expiry c s"
    and expiry_remove: "expiry c (remove k s) = expiry c s"
    and load_within: "invar s \<Longrightarrow> fits (load s) s"
begin

fun run :: "('c, 'k, 'v) cache_event list \<Rightarrow> 's \<Rightarrow> 's" where
  "run [] s = s"
| "run (Lookup now k # es) s = run es (snd (lookup now k s))"
| "run (Store c k v # es) s = run es (store c k v s)"
| "run (Remove k # es) s = run es (remove k s)"

lemma run_invar: "invar s \<Longrightarrow> invar (run es s)"
  by (induction es s rule: run.induct) (auto intro: invar_lookup invar_store invar_remove)

lemma run_expiry: "expiry c (run es s) = expiry c s"
  by (induction es s rule: run.induct) (auto simp: expiry_lookup expiry_store expiry_remove)

text \<open>An entry stems from the last store of its key, and has the expiry that store gave it.\<close>

definition explained :: "'s \<Rightarrow> 'k \<Rightarrow> ('c \<times> 'v) option \<Rightarrow> bool" where
  "explained s k acc \<longleftrightarrow> (\<forall>v e. entries s k = Some (v, e) \<longrightarrow> (\<exists>c. acc = Some (c, v) \<and> e = expiry c s))"

lemma run_explained:
  "invar s \<Longrightarrow> explained s k acc \<Longrightarrow> explained (run es s) k (last_store es k acc)"
proof (induction es s arbitrary: acc rule: run.induct)
  case (2 now k' es s)
  have "explained (snd (lookup now k' s)) k acc"
    using 2(3) lookup_entries [OF 2(2), of now k' k] by (auto simp: explained_def expiry_lookup)
  with 2 show ?case by (simp add: invar_lookup)
next
  case (3 c k' v es s)
  have "explained (store c k' v s) k (if k' = k then Some (c, v) else acc)"
    using 3(3) store_same [OF 3(2), of c k v] store_other [OF 3(2), of k k' c v]
    by (auto simp: explained_def expiry_store)
  with 3 show ?case by (simp add: invar_store)
next
  case (4 k' es s)
  have "explained (remove k' s) k (if k' = k then None else acc)"
    using 4(3) remove_same [OF 4(2), of k] remove_other [OF 4(2), of k k']
    by (auto simp: explained_def expiry_remove)
  with 4 show ?case by (simp add: invar_remove)
qed simp

text \<open>Freshness: after any calls on an empty cache, a hit is the value last stored under the key,
  and it has not expired.\<close>

theorem hit_is_fresh:
  assumes "invar s" "\<forall>k. entries s k = None" "fst (lookup now k (run es s)) = Some v"
  shows "\<exists>c. last_store es k None = Some (c, v) \<and> now < expiry c s"
proof -
  have "explained (run es s) k (last_store es k None)"
    using assms(1,2) by (intro run_explained) (auto simp: explained_def)
  moreover obtain e where "entries (run es s) k = Some (v, e)" "now < e"
    using lookup_hit [OF run_invar [OF assms(1)] assms(3)] by blast
  ultimately show ?thesis by (auto simp: explained_def run_expiry)
qed

lemma run_absent:
  "invar s \<Longrightarrow> entries s k = None \<Longrightarrow> (\<And>c v. Store c k v \<notin> set es) \<Longrightarrow> entries (run es s) k = None"
proof (induction es s rule: run.induct)
  case (2 now k' es s)
  then show ?case using lookup_entries [OF 2(2), of now k' k] by (simp add: invar_lookup option.exhaust) fastforce
next
  case (3 c k' v es s)
  then have "k \<noteq> k'" by fastforce
  with 3 show ?case using store_other [OF 3(2), of k k' c v] by (simp add: invar_store) fastforce
next
  case (4 k' es s)
  then show ?case using remove_other [OF 4(2), of k k'] remove_same [OF 4(2), of k] by (simp add: invar_remove) fastforce
qed simp

lemma store_then_lookup:
  "invar s \<Longrightarrow> now < expiry c s \<Longrightarrow> fst (lookup now k (store c k v s)) = Some v"
  by (rule lookup_live [OF invar_store store_same])

lemma run_within: "invar s \<Longrightarrow> fits (load (run es s)) (run es s)"
  by (rule load_within [OF run_invar])

end

subsection \<open>The manifest cache\<close>

text \<open>A \<open>CacheEntry\<close> is the manifest and the time at which it expires.\<close>

type_synonym 'm cache_entry = "'m \<times> rat"

record 'm manifest_cache =
  mc_cache :: "(string, 'm cache_entry) dict"
  mc_default_ttl :: rat
  mc_max_size :: int

definition mc_init :: "rat \<Rightarrow> int \<Rightarrow> 'm manifest_cache" where
  "mc_init ttl maxsize = \<lparr>mc_cache = [], mc_default_ttl = ttl, mc_max_size = maxsize\<rparr>"

definition new_entry :: "rat \<Rightarrow> 'm \<Rightarrow> rat \<Rightarrow> 'm cache_entry" where
  "new_entry now manifest ttl = (manifest, now + ttl)"

definition is_expired :: "rat \<Rightarrow> 'm cache_entry \<Rightarrow> bool" where
  "is_expired now e \<longleftrightarrow> snd e \<le> now"

definition mc_get :: "rat \<Rightarrow> string \<Rightarrow> 'm manifest_cache \<Rightarrow> 'm option \<times> 'm manifest_cache" where
  "mc_get now url c =
     (case map_of (mc_cache c) url of
        None \<Rightarrow> (None, c)
      | Some e \<Rightarrow>
          if is_expired now e then (None, c\<lparr>mc_cache := AList.delete url (mc_cache c)\<rparr>)
          else (Some (fst e), c\<lparr>mc_cache := move_to_end url (mc_cache c)\<rparr>))"

definition mc_set :: "rat option \<times> rat \<Rightarrow> string \<Rightarrow> 'm \<Rightarrow> 'm manifest_cache \<Rightarrow> 'm manifest_cache" where
  "mc_set tn url m c =
     (let ttl = (case fst tn of None \<Rightarrow> mc_default_ttl c | Some t \<Rightarrow> t);
          d1 = (if map_of (mc_cache c) url \<noteq> None then AList.delete url (mc_cache c)
                else if 0 < mc_max_size c
                then pop_front_while_full (nat (mc_max_size c)) (mc_cache c)
                else mc_cache c)
      in c\<lparr>mc_cache := AList.update url (new_entry (snd tn) m ttl) d1\<rparr>)"

definition mc_invalidate :: "string \<Rightarrow> 'm manifest_cache \<Rightarrow> 'm manifest_cache" where
  "mc_invalidate url c = c\<lparr>mc_cache := AList.delete url (mc_cache c)\<rparr>"

definition mc_clear_all :: "'m manifest_cache \<Rightarrow> 'm manifest_cache" where
  "mc_clear_all c = c\<lparr>mc_cache := []\<rparr>"

definition mc_size :: "'m manifest_cache \<Rightarrow> nat" where
  "mc_size c = length (mc_cache c)"

definition mc_cleanup_expired :: "rat \<Rightarrow> 'm manifest_cache \<Rightarrow> nat \<times> 'm manifest_cache" where
  "mc_cleanup_expired now c =
     (let expired = map fst (filter (\<lambda>(url, e). is_expired now e) (mc_cache c))
      in (length expired, c\<lparr>mc_cache := fold AList.delete expired (mc_cache c)\<rparr>))"

definition mc_entries :: "'m manifest_cache \<Rightarrow> string \<Rightarrow> ('m \<times> rat) option" where
  "mc_entries c url = map_of (mc_cache c) url"

definition mc_expiry :: "rat option \<times> rat \<Rightarrow> 'm manifest_cache \<Rightarrow> rat" where
  "mc_expiry tn c = snd tn + (case fst tn of None \<Rightarrow> mc_default_ttl c | Some t \<Rightarrow> t)"

definition mc_within :: "nat \<Rightarrow> 'm manifest_cache \<Rightarrow> bool" where
  "mc_within n c \<longleftrightarrow> 0 < mc_max_size c \<longrightarrow> int n \<le> mc_max_size c"

definition mc_inv :: "'m manifest_cache \<Rightarrow> bool" where
  "mc_inv c \<longleftrightarrow> wf_dict (mc_cache c) \<and> mc_within (mc_size c) c"

subsection \<open>The receipt cache\<close>

record 'v receipt_cache =
  rc_maxsize :: int
  rc_ttl :: rat
  rc_store :: "(string, rat \<times> 'v) dict"

definition rc_init :: "int \<Rightarrow> rat \<Rightarrow> py_exn + 'v receipt_cache" where
  "rc_init maxsize ttl =
     (if maxsize < 1 then Inl (ValueError ''maxsize must be >= 1'')
      else if ttl \<le> 0 then Inl (ValueError ''ttl must be > 0'')
      else Inr \<lparr>rc_maxsize = maxsize, rc_ttl = ttl, rc_store = []\<rparr>)"

fun drop_expired_from_head :: "rat \<Rightarrow> (string, rat \<times> 'v) dict \<Rightarrow> (string, rat \<times> 'v) dict" where
  "drop_expired_from_head now [] = []"
| "drop_expired_from_head now ((k, e, v) # d) =
     (if now < e then (k, e, v) # d else drop_expired_from_head now d)"

text \<open>\<open>__getitem__\<close>: \<open>t1\<close> is read by \<open>_drop_expired_from_head\<close>, \<open>t2\<close> by the check after it.\<close>

definition rc_getitem ::
  "rat \<Rightarrow> rat \<Rightarrow> string \<Rightarrow> 'v receipt_cache \<Rightarrow> ('v receipt_cache, py_exn, 'v) outcome" where
  "rc_getitem t1 t2 key c =
     (let d1 = drop_expired_from_head t1 (rc_store c); c1 = c\<lparr>rc_store := d1\<rparr> in
      case map_of d1 key of
        None \<Rightarrow> (Inl (KeyError key), c1)
      | Some (e, v) \<Rightarrow>
          if e \<le> t2 then (Inl (KeyError key), c1\<lparr>rc_store := AList.delete key d1\<rparr>)
          else (Inr v, c1\<lparr>rc_store := move_to_end key d1\<rparr>))"

text \<open>\<open>__setitem__\<close>: \<open>fst tt\<close> is its own reading of the clock, \<open>snd tt\<close> that of the drop.\<close>

definition rc_setitem :: "rat \<times> rat \<Rightarrow> string \<Rightarrow> 'v \<Rightarrow> 'v receipt_cache \<Rightarrow> 'v receipt_cache" where
  "rc_setitem tt key v c =
     (let d1 = drop_expired_from_head (snd tt) (rc_store c);
          d2 = (if map_of d1 key \<noteq> None then AList.delete key d1 else d1);
          d3 = pop_front_while_full (nat (rc_maxsize c)) d2
      in c\<lparr>rc_store := AList.update key (fst tt + rc_ttl c, v) d3\<rparr>)"

definition rc_delitem :: "string \<Rightarrow> 'v receipt_cache \<Rightarrow> ('v receipt_cache, py_exn, unit) outcome" where
  "rc_delitem key c =
     (if map_of (rc_store c) key = None then (Inl (KeyError key), c)
      else (Inr (), c\<lparr>rc_store := AList.delete key (rc_store c)\<rparr>))"

definition rc_len :: "'v receipt_cache \<Rightarrow> nat" where
  "rc_len c = length (rc_store c)"

definition rc_contains :: "rat \<Rightarrow> string \<Rightarrow> 'v receipt_cache \<Rightarrow> bool \<times> 'v receipt_cache" where
  "rc_contains now key c =
     (case map_of (rc_store c) key of
        None \<Rightarrow> (False, c)
      | Some (e, v) \<Rightarrow>
          if e \<le> now then (False, c\<lparr>rc_store := AList.delete key (rc_store c)\<rparr>) else (True, c))"

text \<open>The mapping protocol seen through the contract: \<open>get\<close> is \<open>None\<close> for a \<open>KeyError\<close>; both
  clock readings of a lookup are taken equal.\<close>

definition rc_lookup :: "rat \<Rightarrow> string \<Rightarrow> 'v receipt_cache \<Rightarrow> 'v option \<times> 'v receipt_cache" where
  "rc_lookup now key c =
     (case rc_getitem now now key c of
        (Inl e, c') \<Rightarrow> (None, c') | (Inr v, c') \<Rightarrow> (Some v, c'))"

definition rc_entries :: "'v receipt_cache \<Rightarrow> string \<Rightarrow> ('v \<times> rat) option" where
  "rc_entries c key = map_option (\<lambda>(e, v). (v, e)) (map_of (rc_store c) key)"

definition rc_expiry :: "rat \<times> rat \<Rightarrow> 'v receipt_cache \<Rightarrow> rat" where
  "rc_expiry tt c = fst tt + rc_ttl c"

definition rc_within :: "nat \<Rightarrow> 'v receipt_cache \<Rightarrow> bool" where
  "rc_within n c \<longleftrightarrow> int n \<le> rc_maxsize c"

definition rc_inv :: "'v receipt_cache \<Rightarrow> bool" where
  "rc_inv c \<longleftrightarrow> wf_dict (rc_store c) \<and> 1 \<le> rc_maxsize c \<and> rc_within (rc_len c) c"

subsection \<open>Correctness of the manifest cache\<close>

lemmas mc_defs [store_defs] = mc_get_def mc_set_def mc_invalidate_def mc_size_def mc_within_def
  mc_entries_def mc_expiry_def new_entry_def is_expired_def

lemma length_delete_le: "length (AList.delete k d) \<le> length d"
  by (simp add: AList.delete_eq)

lemma mc_inv_get: "mc_inv c \<Longrightarrow> mc_inv (snd (mc_get now url c))"
  using length_delete_le [of url "mc_cache c"]
  by (auto simp: mc_inv_def store_defs dict_simps split: option.splits)

lemma mc_inv_set:
  fixes c :: "'m manifest_cache"
  assumes "mc_inv c" shows "mc_inv (mc_set tn url m c)"
proof -
  let ?d1 = "if map_of (mc_cache c) url \<noteq> None then AList.delete url (mc_cache c)
     else if 0 < mc_max_size c then pop_front_while_full (nat (mc_max_size c)) (mc_cache c)
     else mc_cache c"
  have wf: "wf_dict ?d1"
    using assms by (auto simp: mc_inv_def dict_simps)
  have "0 < mc_max_size c \<Longrightarrow> int (length ?d1) < mc_max_size c"
  proof -
    assume pos: "0 < mc_max_size c"
    show ?thesis
    proof (cases "map_of (mc_cache c) url")
      case None
      then show ?thesis
        using pos by (simp add: length_pop_front_while_full)
    next
      case (Some e)
      from length_delete_in [OF _ Some] assms pos Some show ?thesis
        by (simp add: mc_inv_def store_defs)
    qed
  qed
  with wf show ?thesis
    by (auto simp: mc_inv_def mc_set_def Let_def mc_size_def mc_within_def dict_simps
        length_update_le simp del: set_map split: if_splits)
qed

lemma mc_inv_invalidate: "mc_inv c \<Longrightarrow> mc_inv (mc_invalidate url c)"
  using length_delete_le [of url "mc_cache c"]
  by (auto simp: mc_inv_def store_defs dict_simps)

interpretation mc: ttl_cache mc_get mc_set mc_invalidate mc_entries mc_expiry mc_size mc_within mc_inv
proof (unfold_locales, goal_cases)
  case 1 then show ?case by (rule mc_inv_get)
next
  case 2 then show ?case by (rule mc_inv_set)
next
  case 3 then show ?case by (rule mc_inv_invalidate)
next
  case (4 s now k v)
  then show ?case by (auto simp: store_defs split: option.splits if_splits)
next
  case (7 s k' v e now k)
  then show ?case by (auto simp: mc_inv_def store_defs dict_simps split: option.splits)
next
  case (6 s now k k' x)
  then show ?case by (auto simp: mc_inv_def store_defs dict_simps split: option.splits if_splits)
next
  case (8 s c k v)
  then show ?case by (cases c) (auto simp: store_defs Let_def dict_simps)
next
  case (9 s k' k c v x)
  then show ?case
    by (cases c) (auto simp: mc_inv_def store_defs Let_def dict_simps
        dest: map_of_pop_front_while_full split: if_splits)
next
  case (13 c c' k v s)
  then show ?case by (simp add: mc_expiry_def mc_set_def Let_def split: option.splits)
qed (auto simp: store_defs dict_simps mc_inv_def split: option.splits)

text \<open>Eviction is least recently used: a new key on a full cache drops exactly the oldest entry.\<close>

lemma mc_set_evicts_oldest:
  assumes "mc_inv c" "mc_cache c = p # rest" "int (mc_size c) = mc_max_size c"
    and "map_of (mc_cache c) url = None"
  shows "mc_cache (mc_set tn url m c) =
    rest @ [(url, new_entry (snd tn) m (case fst tn of None \<Rightarrow> mc_default_ttl c | Some t \<Rightarrow> t))]"
proof -
  have "nat (mc_max_size c) = Suc (length rest)"
    using assms(2,3) by (simp add: mc_size_def)
  then have "pop_front_while_full (nat (mc_max_size c)) (mc_cache c) = rest"
    using assms(2) by (simp add: pop_front_while_full_drop)
  moreover have "map_of rest url = None"
    using assms(2,4) by (cases p) (auto split: if_splits)
  ultimately show ?thesis
    using assms(2-4) by (simp add: mc_set_def Let_def mc_size_def update_append_new)
qed

lemma mc_hit_is_most_recent:
  assumes "mc_inv c" "fst (mc_get now url c) = Some m"
  shows "fst (last (mc_cache (snd (mc_get now url c)))) = url"
  using assms by (auto simp: mc_get_def move_to_end_def split: option.splits if_splits)

lemma fold_delete_map_of:
  "map_of (fold AList.delete ks d) k = (if k \<in> set ks then None else map_of d k)"
  by (induction ks arbitrary: d) (auto simp: dict_simps)

lemma mc_cleanup_entries:
  assumes "wf_dict (mc_cache c)"
  shows "mc_entries (snd (mc_cleanup_expired now c)) url =
    (case mc_entries c url of None \<Rightarrow> None | Some e \<Rightarrow> if is_expired now e then None else Some e)"
proof -
  have "url \<in> set (map fst (filter (\<lambda>(url, e). is_expired now e) (mc_cache c))) \<longleftrightarrow>
    (\<exists>e. map_of (mc_cache c) url = Some e \<and> is_expired now e)"
    using assms by (force simp: map_of_eq_Some_iff)
  then show ?thesis
    by (auto simp: mc_cleanup_expired_def Let_def mc_entries_def fold_delete_map_of split: option.splits)
qed

subsection \<open>Correctness of the receipt cache\<close>

lemma drop_expired_suffix: "\<exists>n. drop_expired_from_head now d = drop n d"
proof (induction now d rule: drop_expired_from_head.induct)
  case (2 now k e v d)
  show ?case
  proof (cases "now < e")
    case True
    then show ?thesis by (auto intro: exI [of _ 0])
  next
    case False
    with 2 obtain n where "drop_expired_from_head now d = drop n d" by blast
    with False show ?thesis by (auto intro: exI [of _ "Suc n"])
  qed
qed simp

lemma wf_drop_expired [dict_simps]: "wf_dict d \<Longrightarrow> wf_dict (drop_expired_from_head now d)"
  using drop_expired_suffix [of now d] wf_dict_drop by metis

lemma length_drop_expired: "length (drop_expired_from_head now d) \<le> length d"
  by (induction now d rule: drop_expired_from_head.induct) auto

lemma map_of_drop_expired:
  assumes "wf_dict d"
  shows "map_of (drop_expired_from_head now d) k = Some x \<Longrightarrow> map_of d k = Some x"
    and "map_of d k = Some (e, v) \<Longrightarrow> now < e \<Longrightarrow> map_of (drop_expired_from_head now d) k = Some (e, v)"
  using assms
proof (induction now d rule: drop_expired_from_head.induct)
  case (2 now k' e' v' d)
  {
    case 1
    with 2 show ?case by (force split: if_splits dest: map_of_SomeD)
  next
    case 2
    with "2.IH" show ?case by (auto split: if_splits)
  }
qed auto

lemmas rc_defs [store_defs] = rc_setitem_def rc_delitem_def rc_len_def rc_entries_def
  rc_expiry_def rc_within_def rc_lookup_def rc_getitem_def

text \<open>\<open>d.pop(key, None)\<close> of the mapping protocol.\<close>

definition rc_discard :: "string \<Rightarrow> 'v receipt_cache \<Rightarrow> 'v receipt_cache" where
  "rc_discard key c = snd (rc_delitem key c)"

lemma rc_inv_lookup: "rc_inv c \<Longrightarrow> rc_inv (snd (rc_lookup now key c))"
  using length_drop_expired [of now "rc_store c"]
    length_delete_le [of key "drop_expired_from_head now (rc_store c)"]
  by (auto simp: rc_inv_def store_defs Let_def dict_simps split: option.splits)

lemma rc_inv_setitem:
  assumes "rc_inv c" shows "rc_inv (rc_setitem tt key v c)"
proof -
  let ?d1 = "drop_expired_from_head (snd tt) (rc_store c)"
  let ?d2 = "if map_of ?d1 key \<noteq> None then AList.delete key ?d1 else ?d1"
  let ?d3 = "pop_front_while_full (nat (rc_maxsize c)) ?d2"
  have wf: "wf_dict ?d3" using assms by (auto simp: rc_inv_def dict_simps)
  have "length ?d3 < nat (rc_maxsize c)"
    using assms length_pop_front_while_full [of "nat (rc_maxsize c)" ?d2]
    by (simp only: rc_inv_def) linarith
  then have "int (length (AList.update key (fst tt + rc_ttl c, v) ?d3)) \<le> rc_maxsize c"
    using length_update_bound [of key "(fst tt + rc_ttl c, v)" ?d3] by linarith
  with wf assms show ?thesis
    by (simp add: rc_inv_def rc_setitem_def Let_def rc_len_def rc_within_def dict_simps)
qed

lemma rc_inv_discard: "rc_inv c \<Longrightarrow> rc_inv (rc_discard key c)"
  using length_delete_le [of key "rc_store c"]
  by (auto simp: rc_inv_def rc_discard_def store_defs dict_simps)

interpretation rc: ttl_cache rc_lookup rc_setitem rc_discard rc_entries rc_expiry rc_len rc_within rc_inv
proof (unfold_locales, goal_cases)
  case 1 then show ?case by (rule rc_inv_lookup)
next
  case 2 then show ?case by (rule rc_inv_setitem)
next
  case 3 then show ?case by (rule rc_inv_discard)
next
  case (4 s now k v)
  then show ?case
    using map_of_drop_expired(1) [of "rc_store s" now k]
    by (auto simp: rc_inv_def store_defs Let_def split: option.splits if_splits)
next
  case (5 s k v e now)
  then show ?case
    using map_of_drop_expired(2) [of "rc_store s" k e v now]
    by (auto simp: rc_inv_def store_defs Let_def)
next
  case (6 s now k k' x)
  then show ?case
    using map_of_drop_expired(1) [of "rc_store s" now k']
    by (auto simp: rc_inv_def store_defs Let_def dict_simps split: option.splits if_splits)
next
  case (7 s k' v e now k)
  then show ?case
    using map_of_drop_expired(2) [of "rc_store s" k' e v now]
    by (auto simp: rc_inv_def store_defs Let_def dict_simps split: option.splits)
next
  case (8 s c k v)
  then show ?case by (cases c) (simp add: store_defs Let_def dict_simps)
next
  case (9 s k' k c v x)
  have wf: "wf_dict (rc_store s)" using 9(1) by (simp add: rc_inv_def)
  show ?case
    using 9(2,3) wf map_of_drop_expired(1) [OF wf, of "snd c" k']
    by (auto simp: store_defs Let_def dict_simps split: if_splits
        dest!: map_of_pop_front_while_full [rotated])
next
  case (11 s k' k x)
  then show ?case by (auto simp: rc_discard_def store_defs dict_simps split: if_splits)
qed (auto simp: rc_discard_def store_defs Let_def dict_simps rc_inv_def split: option.splits)

subsection \<open>Properties\<close>

lemma mc_ops_frame [simp]:
  "mc_max_size (snd (mc_get now url c)) = mc_max_size c"
  "mc_max_size (mc_set tn url m c) = mc_max_size c"
  "mc_max_size (mc_invalidate url c) = mc_max_size c"
  by (simp_all add: mc_get_def mc_set_def mc_invalidate_def Let_def split: option.split)

lemma mc_run_frame: "mc_max_size (mc.run es c) = mc_max_size c"
  by (induction es c rule: mc.run.induct) simp_all

lemma rc_ops_frame [simp]:
  "rc_maxsize (snd (rc_lookup now key c)) = rc_maxsize c"
  "rc_maxsize (rc_setitem tt key v c) = rc_maxsize c"
  "rc_maxsize (rc_discard key c) = rc_maxsize c"
  by (auto simp: rc_lookup_def rc_getitem_def rc_setitem_def rc_discard_def rc_delitem_def Let_def
      split: option.split prod.split sum.split if_splits)

lemma rc_run_frame: "rc_maxsize (rc.run es c) = rc_maxsize c"
  by (induction es c rule: rc.run.induct) simp_all

text \<open>After any sequence of lookups, stores and invalidations on a new manifest cache, a hit is
  the manifest last stored under the URL and not invalidated since, within its time to live; and a
  positive size limit is never exceeded.\<close>

theorem manifest_cache_fresh_and_bounded:
  assumes "fst (mc_get now url (mc.run es (mc_init ttl maxsize))) = Some m"
  shows "(\<exists>tn. last_store es url None = Some (tn, m) \<and>
      now < snd tn + (case fst tn of None \<Rightarrow> ttl | Some t \<Rightarrow> t)) \<and>
    (0 < maxsize \<longrightarrow> int (mc_size (mc.run es (mc_init ttl maxsize :: 'm manifest_cache))) \<le> maxsize)"
proof (rule conjI)
  have inv: "mc_inv (mc_init ttl maxsize)" by (simp add: mc_inv_def mc_init_def mc_within_def mc_size_def)
  from mc.hit_is_fresh [OF inv _ assms]
  show "\<exists>tn. last_store es url None = Some (tn, m) \<and> now < snd tn + (case fst tn of None \<Rightarrow> ttl | Some t \<Rightarrow> t)"
    by (simp add: mc_entries_def mc_init_def mc_expiry_def cong: option.case_cong)
  have inv': "mc_inv (mc_init ttl maxsize :: 'm manifest_cache)"
    by (simp add: mc_inv_def mc_init_def mc_within_def mc_size_def)
  from mc.run_within [OF inv', of es] mc_run_frame [of es "mc_init ttl maxsize :: 'm manifest_cache"]
  show "0 < maxsize \<longrightarrow> int (mc_size (mc.run es (mc_init ttl maxsize :: 'm manifest_cache))) \<le> maxsize"
    by (simp add: mc_within_def) (simp add: mc_init_def)
qed

theorem manifest_cache_fresh_and_bounded_witness:
  "\<exists>tn. last_store [Store (None, 0) ''u'' (1 :: nat), Store (Some 5, 1) ''v'' 2, Lookup 2 ''u''] ''u'' None = Some (tn, 1) \<and>
    3 < snd tn + (case fst tn of None \<Rightarrow> 10 | Some t \<Rightarrow> (t :: rat))"
  by (rule manifest_cache_fresh_and_bounded [where maxsize = 2, THEN conjunct1])
    (simp add: mc_init_def mc_get_def mc_set_def new_entry_def is_expired_def move_to_end_def)

text \<open>The same for the cache of registration receipts, which is never larger than its bound.\<close>

theorem receipt_cache_fresh_and_bounded:
  fixes c :: "'v receipt_cache"
  assumes "rc_init maxsize ttl = Inr c" and "fst (rc_lookup now key (rc.run es c)) = Some v"
  shows "(\<exists>tt. last_store es key None = Some (tt, v) \<and> now < fst tt + ttl) \<and> int (rc_len (rc.run es c)) \<le> maxsize"
proof (rule conjI)
  have c: "c = \<lparr>rc_maxsize = maxsize, rc_ttl = ttl, rc_store = []\<rparr>" "1 \<le> maxsize"
    using assms(1) by (auto simp: rc_init_def split: if_splits)
  then have inv: "rc_inv c" by (simp add: rc_inv_def rc_within_def rc_len_def)
  from rc.hit_is_fresh [OF inv _ assms(2)] c(1)
  show "\<exists>tt. last_store es key None = Some (tt, v) \<and> now < fst tt + ttl"
    by (simp add: rc_entries_def rc_expiry_def)
  from rc.run_within [OF inv, of es] rc_run_frame [of es c] c(1) show "int (rc_len (rc.run es c)) \<le> maxsize"
    by (simp add: rc_within_def)
qed

theorem receipt_cache_fresh_and_bounded_witness:
  "\<exists>tt. last_store [Store (0, 0 :: rat) ''u'' (1 :: nat), Store (1, 1) ''v'' 2] ''u'' None = Some (tt, 1) \<and> 3 < fst tt + (10 :: rat)"
  by (rule receipt_cache_fresh_and_bounded [where maxsize = 2 and c = "\<lparr>rc_maxsize = 2, rc_ttl = 10, rc_store = []\<rparr>", THEN conjunct1])
    (simp_all add: rc_init_def rc_lookup_def rc_getitem_def rc_setitem_def move_to_end_def)

end
