(* ===== verification/Rate_Limit.thy ===== *)
theory Rate_Limit
  imports Asap_Prelude
begin

text \<open>
  Rate limiting (\<open>src/asap/transport/rate_limit.py\<close>): the token bucket of a WebSocket connection
  and the HTTP limiter. The moving-window strategy the HTTP limiter calls is the package
  \<open>limits\<close>; its methods \<open>test\<close>, \<open>hit\<close> and \<open>get_window_stats\<close> are arguments here, over a storage
  type \<open>'st\<close> that \<open>test\<close> and \<open>get_window_stats\<close> cannot change.
\<close>

subsection \<open>The token bucket\<close>

record token_bucket =
  tb_rate :: rat
  tb_capacity :: rat
  tb_tokens :: rat
  tb_last_refill :: rat

definition tb_init :: "rat \<Rightarrow> rat option \<Rightarrow> rat \<Rightarrow> py_exn + token_bucket" where
  "tb_init rate capacity now =
     (if rate \<le> 0 then Inl (ValueError ''rate must be positive'')
      else (let cap = (case capacity of None \<Rightarrow> rate | Some c \<Rightarrow> c)
            in Inr \<lparr>tb_rate = rate, tb_capacity = cap, tb_tokens = cap, tb_last_refill = now\<rparr>))"

definition tb_refill :: "rat \<Rightarrow> token_bucket \<Rightarrow> token_bucket" where
  "tb_refill now b =
     (let elapsed = now - tb_last_refill b
      in b\<lparr>tb_tokens := min (tb_capacity b) (tb_tokens b + elapsed * tb_rate b),
           tb_last_refill := now\<rparr>)"

definition tb_consume :: "rat \<Rightarrow> int \<Rightarrow> token_bucket \<Rightarrow> bool \<times> token_bucket" where
  "tb_consume now n b =
     (if n \<le> 0 then (True, b)
      else (let b1 = tb_refill now b in
            if of_int n \<le> tb_tokens b1
            then (True, b1\<lparr>tb_tokens := tb_tokens b1 - of_int n\<rparr>)
            else (False, b1)))"

text \<open>Calls \<open>consume(n)\<close> at the given times; the tokens granted by the successful ones.\<close>

fun tb_run :: "(rat \<times> int) list \<Rightarrow> token_bucket \<Rightarrow> rat \<times> token_bucket" where
  "tb_run [] b = (0, b)"
| "tb_run ((now, n) # calls) b =
     (let (ok, b1) = tb_consume now n b; (granted, b2) = tb_run calls b1
      in (granted + (if ok \<and> 0 < n then of_int n else 0), b2))"

definition tb_inv :: "token_bucket \<Rightarrow> bool" where
  "tb_inv b \<longleftrightarrow> 0 < tb_rate b \<and> 0 \<le> tb_tokens b \<and> tb_tokens b \<le> tb_capacity b"

subsection \<open>The HTTP limiter\<close>

record http_request =
  client_host :: "string option"
  authorization :: "string option"

definition get_remote_address :: "http_request \<Rightarrow> string" where
  "get_remote_address r = (case client_host r of Some h \<Rightarrow> h | None \<Rightarrow> ''127.0.0.1'')"

text \<open>\<open>sha256_hex\<close> is the standard library's hash of the encoded token, in hexadecimal.\<close>

definition registration_token_key :: "(string \<Rightarrow> string) \<Rightarrow> http_request \<Rightarrow> string" where
  "registration_token_key sha256_hex r =
     (let auth = (case authorization r of None \<Rightarrow> [] | Some a \<Rightarrow> a);
          token = strip (drop 7 auth)
      in if starts_with auth ''Bearer '' \<and> token \<noteq> [] then ''regtok:'' @ sha256_hex token
         else ''ip:'' @ get_remote_address r)"

text \<open>\<open>RateLimitExceeded(limit, retry_after)\<close>\<close>

datatype 'i rate_limit_exceeded = RateLimitExceeded 'i int

definition retry_seconds :: "rat \<Rightarrow> rat \<Rightarrow> int" where
  "retry_seconds reset_at now = max 1 (py_trunc (reset_at - now))"

text \<open>Phase 1: the first limit whose test fails, as the exception it raises.\<close>

fun first_violation ::
  "('i \<Rightarrow> string \<Rightarrow> int \<Rightarrow> 'st \<Rightarrow> bool) \<Rightarrow> ('i \<Rightarrow> string \<Rightarrow> 'st \<Rightarrow> rat) \<Rightarrow> rat \<Rightarrow>
   'i list \<Rightarrow> string \<Rightarrow> int \<Rightarrow> 'st \<Rightarrow> 'i rate_limit_exceeded option" where
  "first_violation test reset_at now [] key cost st = None"
| "first_violation test reset_at now (l # ls) key cost st =
     (if \<not> test l key cost st
      then Some (RateLimitExceeded l (retry_seconds (reset_at l key st) now))
      else first_violation test reset_at now ls key cost st)"

text \<open>Phase 2 of \<open>check\<close>: one hit on every limit, results ignored.\<close>

fun hit_all :: "('i \<Rightarrow> string \<Rightarrow> int \<Rightarrow> 'st \<Rightarrow> bool \<times> 'st) \<Rightarrow> 'i list \<Rightarrow> string \<Rightarrow> 'st \<Rightarrow> 'st" where
  "hit_all hit [] key st = st"
| "hit_all hit (l # ls) key st = hit_all hit ls key (snd (hit l key 1 st))"

definition limiter_check ::
  "('i \<Rightarrow> string \<Rightarrow> int \<Rightarrow> 'st \<Rightarrow> bool) \<Rightarrow> ('i \<Rightarrow> string \<Rightarrow> int \<Rightarrow> 'st \<Rightarrow> bool \<times> 'st) \<Rightarrow>
   ('i \<Rightarrow> string \<Rightarrow> 'st \<Rightarrow> rat) \<Rightarrow> rat \<Rightarrow> 'i list \<Rightarrow> string \<Rightarrow> 'st \<Rightarrow>
   ('st, 'i rate_limit_exceeded, unit) outcome" where
  "limiter_check test hit reset_at now limits key st =
     (case first_violation test reset_at now limits key 1 st of
        Some e \<Rightarrow> (Inl e, st)
      | None \<Rightarrow> (Inr (), hit_all hit limits key st))"

text \<open>Phase 2 of \<open>check_n\<close>: a hit that fails raises, and the earlier hits stay.\<close>

fun hit_all_n ::
  "('i \<Rightarrow> string \<Rightarrow> int \<Rightarrow> 'st \<Rightarrow> bool \<times> 'st) \<Rightarrow> ('i \<Rightarrow> string \<Rightarrow> 'st \<Rightarrow> rat) \<Rightarrow> rat \<Rightarrow>
   'i list \<Rightarrow> string \<Rightarrow> int \<Rightarrow> 'st \<Rightarrow> ('st, 'i rate_limit_exceeded, unit) outcome" where
  "hit_all_n hit reset_at now [] key n st = (Inr (), st)"
| "hit_all_n hit reset_at now (l # ls) key n st =
     (let (ok, st1) = hit l key n st in
      if \<not> ok then (Inl (RateLimitExceeded l (retry_seconds (reset_at l key st1) now)), st1)
      else hit_all_n hit reset_at now ls key n st1)"

definition limiter_check_n ::
  "('i \<Rightarrow> string \<Rightarrow> int \<Rightarrow> 'st \<Rightarrow> bool) \<Rightarrow> ('i \<Rightarrow> string \<Rightarrow> int \<Rightarrow> 'st \<Rightarrow> bool \<times> 'st) \<Rightarrow>
   ('i \<Rightarrow> string \<Rightarrow> 'st \<Rightarrow> rat) \<Rightarrow> rat \<Rightarrow> 'i list \<Rightarrow> string \<Rightarrow> int \<Rightarrow> 'st \<Rightarrow>
   ('st, 'i rate_limit_exceeded, unit) outcome" where
  "limiter_check_n test hit reset_at now limits key n st =
     (if n \<le> 0 then (Inr (), st)
      else (case first_violation test reset_at now limits key n st of
              Some e \<Rightarrow> (Inl e, st)
            | None \<Rightarrow> hit_all_n hit reset_at now limits key n st))"

definition limiter_test :: "('i \<Rightarrow> string \<Rightarrow> int \<Rightarrow> 'st \<Rightarrow> bool) \<Rightarrow> 'i list \<Rightarrow> string \<Rightarrow> 'st \<Rightarrow> bool" where
  "limiter_test test limits key st \<longleftrightarrow> (\<forall>l \<in> set limits. test l key 1 st)"

subsection \<open>The bucket bounds the rate\<close>

lemma tb_init_inv: "tb_init r c now = Inr b \<Longrightarrow> 0 \<le> tb_capacity b \<Longrightarrow> tb_inv b"
  by (auto simp: tb_init_def tb_inv_def Let_def split: if_splits)

lemma tb_consume_frame [simp]:
  "tb_rate (snd (tb_consume now n b)) = tb_rate b"
  "tb_capacity (snd (tb_consume now n b)) = tb_capacity b"
  by (simp_all add: tb_consume_def tb_refill_def Let_def)

lemma tb_consume_inv:
  "tb_inv b \<Longrightarrow> tb_last_refill b \<le> now \<Longrightarrow> tb_inv (snd (tb_consume now n b))"
  by (auto simp: tb_inv_def tb_consume_def tb_refill_def Let_def min_def)

lemma tb_consume_clock:
  "tb_last_refill b \<le> now \<Longrightarrow>
     tb_last_refill b \<le> tb_last_refill (snd (tb_consume now n b)) \<and>
     tb_last_refill (snd (tb_consume now n b)) \<le> now"
  by (simp add: tb_consume_def tb_refill_def Let_def)

text \<open>Tokens granted by a call are paid for by the bucket and by the time that passed.\<close>

lemma tb_consume_balance:
  assumes "tb_inv b" "tb_last_refill b \<le> now"
  shows "(if fst (tb_consume now n b) \<and> 0 < n then of_int n else 0) + tb_tokens (snd (tb_consume now n b))
    \<le> tb_tokens b + (tb_last_refill (snd (tb_consume now n b)) - tb_last_refill b) * tb_rate b"
  using assms by (auto simp: tb_consume_def tb_refill_def Let_def)

lemma tb_run_balance:
  assumes "tb_inv b" "sorted (map fst calls)" "\<forall>(t, n) \<in> set calls. tb_last_refill b \<le> t"
    and "tb_run calls b = (granted, b')"
  shows "tb_inv b' \<and> granted + tb_tokens b' \<le> tb_tokens b + (tb_last_refill b' - tb_last_refill b) * tb_rate b \<and>
    tb_last_refill b' \<le> (if calls = [] then tb_last_refill b else fst (last calls)) \<and>
    tb_last_refill b \<le> tb_last_refill b' \<and> tb_rate b' = tb_rate b \<and> tb_capacity b' = tb_capacity b"
  using assms
proof (induction calls arbitrary: b granted b')
  case (Cons call calls)
  obtain now n where c: "call = (now, n)" by (cases call)
  obtain ok b1 where step: "tb_consume now n b = (ok, b1)" by (cases "tb_consume now n b")
  obtain g b2 where rest: "tb_run calls b1 = (g, b2)" by (cases "tb_run calls b1")
  have le: "tb_last_refill b \<le> now" using Cons.prems(3) c by auto
  have later: "\<forall>(t, m) \<in> set calls. now \<le> t" using Cons.prems(2) c by auto
  note clock = tb_consume_clock [OF le, of n, unfolded step, simplified]
  have inv1: "tb_inv b1" using tb_consume_inv [OF Cons.prems(1) le, of n] step by simp
  have frame: "tb_rate b1 = tb_rate b" "tb_capacity b1 = tb_capacity b"
    using tb_consume_frame [of now n b] step by simp_all
  have later1: "\<forall>(t, m) \<in> set calls. tb_last_refill b1 \<le> t" using later clock by force
  have IH: "tb_inv b2 \<and> g + tb_tokens b2 \<le> tb_tokens b1 + (tb_last_refill b2 - tb_last_refill b1) * tb_rate b1 \<and>
      tb_last_refill b2 \<le> (if calls = [] then tb_last_refill b1 else fst (last calls)) \<and>
      tb_last_refill b1 \<le> tb_last_refill b2 \<and> tb_rate b2 = tb_rate b1 \<and> tb_capacity b2 = tb_capacity b1"
    using Cons.IH [OF inv1 _ later1 rest] Cons.prems(2) by simp
  have bal: "(if ok \<and> 0 < n then of_int n else 0) + tb_tokens b1
      \<le> tb_tokens b + (tb_last_refill b1 - tb_last_refill b) * tb_rate b"
    using tb_consume_balance [OF Cons.prems(1) le, of n] step by simp
  have res: "b' = b2" "granted = g + (if ok \<and> 0 < n then of_int n else 0)"
    using Cons.prems(4) c step rest by (auto simp: Let_def)
  have "(tb_last_refill b2 - tb_last_refill b1) * tb_rate b + (tb_last_refill b1 - tb_last_refill b) * tb_rate b
      = (tb_last_refill b2 - tb_last_refill b) * tb_rate b"
    by (simp add: algebra_simps)
  then have "granted + tb_tokens b2 \<le> tb_tokens b + (tb_last_refill b2 - tb_last_refill b) * tb_rate b"
    using IH [THEN conjunct2, THEN conjunct1, unfolded frame] bal res(2) by linarith
  with IH frame clock res(1) c show ?case by (auto split: if_splits)
qed simp

subsection \<open>The two phases of the HTTP limiter\<close>

lemma first_violation_None_iff:
  "first_violation test reset_at now ls key n st = None \<longleftrightarrow> (\<forall>l \<in> set ls. test l key n st)"
  by (induction ls) auto

lemma first_violation_Some:
  "first_violation test reset_at now ls key n st = Some (RateLimitExceeded l r) \<Longrightarrow>
     l \<in> set ls \<and> \<not> test l key n st \<and> 1 \<le> r"
  by (induction ls) (auto simp: retry_seconds_def split: if_splits)

subsection \<open>Properties\<close>

text \<open>C10: a WebSocket token bucket never grants more than its capacity plus its rate times the time
  since its creation, for any sequence of calls, and its balance stays between zero and capacity.\<close>

theorem bucket_bounds_messages:
  assumes "tb_init rate capacity t0 = Inr b" "0 \<le> tb_capacity b"
    and "sorted (t0 # map fst calls)" "tb_run calls b = (granted, b')"
  shows "granted \<le> tb_capacity b + (last (t0 # map fst calls) - t0) * rate \<and>
    0 \<le> tb_tokens b' \<and> tb_tokens b' \<le> tb_capacity b"
proof (rule conjI)
  have b: "tb_rate b = rate" "tb_tokens b = tb_capacity b" "tb_last_refill b = t0" "0 < rate"
    using assms(1) by (auto simp: tb_init_def Let_def split: if_splits)
  have inv: "tb_inv b" by (rule tb_init_inv [OF assms(1,2)])
  have times: "sorted (map fst calls)" "\<forall>(t, n) \<in> set calls. tb_last_refill b \<le> t"
    using assms(3) b(3) by auto
  note run = tb_run_balance [OF inv times assms(4)]
  have "tb_last_refill b' \<le> last (t0 # map fst calls)"
    using run b(3) by (auto simp: last_map split: if_splits)
  then have "(tb_last_refill b' - t0) * rate \<le> (last (t0 # map fst calls) - t0) * rate"
    using b(4) by (intro mult_right_mono) auto
  moreover have "0 \<le> tb_tokens b'" using run by (simp add: tb_inv_def)
  moreover have "granted + tb_tokens b' \<le> tb_capacity b + (tb_last_refill b' - t0) * rate"
    using run b by simp
  ultimately show "granted \<le> tb_capacity b + (last (t0 # map fst calls) - t0) * rate"
    by linarith
  show "0 \<le> tb_tokens b' \<and> tb_tokens b' \<le> tb_capacity b"
    using run by (auto simp: tb_inv_def)
qed

theorem bucket_bounds_messages_witness:
  "fst (tb_run [(0, 2), (1, 1)] \<lparr>tb_rate = 1, tb_capacity = 2, tb_tokens = 2, tb_last_refill = 0\<rparr>) \<le> 2 + (1 - 0) * 1"
  using bucket_bounds_messages [of 1 "Some 2" 0 "\<lparr>tb_rate = 1, tb_capacity = 2, tb_tokens = 2, tb_last_refill = 0\<rparr>"
      "[(0, 2), (1, 1)]", OF _ _ _ prod.collapse [symmetric]]
  by (simp add: tb_init_def)

lemma hit_all_n_ok:
  assumes "\<And>l st. test l key n st \<Longrightarrow> fst (hit l key n st)"
    and "\<And>l l' st. l \<noteq> l' \<Longrightarrow> test l' key n st \<Longrightarrow> test l' key n (snd (hit l key n st))"
    and "distinct ls" "\<forall>l \<in> set ls. test l key n st"
  shows "fst (hit_all_n hit reset_at now ls key n st) = Inr ()"
  using assms(3,4)
proof (induction ls arbitrary: st)
  case (Cons l ls)
  then have "fst (hit l key n st)" "\<forall>l' \<in> set ls. test l' key n (snd (hit l key n st))"
    using assms(1) assms(2) [of l] by fastforce+
  with Cons show ?case by (simp add: Let_def split_beta)
qed simp

text \<open>The batch limiter is all or nothing. When the strategy admits a hit whose test passes, and
  a hit on one limit does not exhaust another, a batch of \<open>n\<close> requests is refused exactly if some
  limit's test fails, and a refused batch consumes no quota.\<close>

theorem batch_limit_all_or_nothing:
  assumes "\<And>l st. test l key n st \<Longrightarrow> fst (hit l key n st)"
    and "\<And>l l' st. l \<noteq> l' \<Longrightarrow> test l' key n st \<Longrightarrow> test l' key n (snd (hit l key n st))"
    and "distinct limits" "0 < n"
  shows "((\<exists>e. fst (limiter_check_n test hit reset_at now limits key n st) = Inl e) \<longleftrightarrow>
      (\<exists>l \<in> set limits. \<not> test l key n st)) \<and>
    (\<forall>e. fst (limiter_check_n test hit reset_at now limits key n st) = Inl e \<longrightarrow>
      snd (limiter_check_n test hit reset_at now limits key n st) = st)"
proof -
  have "fst (limiter_check_n test hit reset_at now limits key n st) = Inr ()"
    if "\<forall>l \<in> set limits. test l key n st"
    using hit_all_n_ok [where test = test and hit = hit and key = key and n = n, OF assms(1,2,3) that] that assms(4)
    by (simp add: limiter_check_n_def first_violation_None_iff [THEN iffD2])
  moreover have "\<exists>e. limiter_check_n test hit reset_at now limits key n st = (Inl e, st)"
    if "\<not> (\<forall>l \<in> set limits. test l key n st)"
  proof (cases "first_violation test reset_at now limits key n st")
    case None
    with that show ?thesis by (simp add: first_violation_None_iff)
  next
    case (Some e)
    with assms(4) show ?thesis by (simp add: limiter_check_n_def)
  qed
  ultimately show ?thesis
    by (cases "\<forall>l \<in> set limits. test l key n st") auto
qed

theorem batch_limit_all_or_nothing_witness:
  "snd (limiter_check_n (\<lambda>l k c st. st l + c \<le> l) (\<lambda>l k c st. (st l + c \<le> l, st(l := st l + c)))
     (\<lambda>l k st. 0) 0 [5, 2 :: int] ''k'' 3 (\<lambda>l. 0)) = (\<lambda>l. 0)"
  by (rule batch_limit_all_or_nothing [THEN conjunct2, rule_format])
    (auto simp: limiter_check_n_def retry_seconds_def py_trunc_def split: if_splits)

end
