(* ===== verification/Py_Text.thy ===== *)
theory Py_Text
  imports Asap_Prelude
begin

text \<open>
  Numbers and text in Python: decimal printing of integers, the constructor \<open>int\<close> on the values JSON
  carries, the names of their types, and splitting at a comma. Text is over the code points a
  \<^typ>\<open>char\<close> holds, where only the ASCII digits are digits for \<open>int\<close>.
\<close>

subsection \<open>Reading integers\<close>

definition is_digit :: "char \<Rightarrow> bool" where
  "is_digit c \<longleftrightarrow> 48 \<le> (of_char c :: nat) \<and> (of_char c :: nat) \<le> 57"

text \<open>Digits with single underscores between them; \<open>None\<close> when the text is something else.\<close>

fun digit_part :: "string \<Rightarrow> nat list option" where
  "digit_part [] = None"
| "digit_part [c] = (if is_digit c then Some [of_char c - 48] else None)"
| "digit_part (c # d # s) =
     (if \<not> is_digit c then None
      else map_option ((#) (of_char c - 48)) (digit_part (if d = CHR ''_'' then s else d # s)))"

definition digits_value :: "nat list \<Rightarrow> nat" where
  "digits_value ds = foldl (\<lambda>acc d. 10 * acc + d) 0 ds"

definition split_sign :: "string \<Rightarrow> bool \<times> string" where
  "split_sign s = (case s of
     c # r \<Rightarrow> if c = CHR ''-'' then (True, r) else if c = CHR ''+'' then (False, r) else (False, s)
   | [] \<Rightarrow> (False, s))"

text \<open>\<open>int(s)\<close>: outer white space, a sign, digits; more than 4300 digits are refused by the interpreter.\<close>

definition MAX_INT_DIGITS :: nat where
  "MAX_INT_DIGITS = 4300"

definition parse_int :: "string \<Rightarrow> int option" where
  "parse_int s =
     (case split_sign (strip s) of (neg, body) \<Rightarrow>
        (case digit_part body of
           None \<Rightarrow> None
         | Some ds \<Rightarrow>
             if length ds > MAX_INT_DIGITS then None
             else Some (if neg then - int (digits_value ds) else int (digits_value ds))))"

text \<open>\<open>int(v)\<close>\<close>

fun py_int :: "pyval \<Rightarrow> py_exn + int" where
  "py_int (PBool b) = Inr (if b then 1 else 0)"
| "py_int (PInt i) = Inr i"
| "py_int (PFloat (Fin r)) = Inr (py_trunc r)"
| "py_int (PFloat NaN) = Inl (ValueError ''cannot convert float NaN to integer'')"
| "py_int (PFloat _) = Inl OverflowError"
| "py_int (PStr s) = (case parse_int s of None \<Rightarrow> Inl (ValueError ''invalid literal for int() with base 10'') | Some i \<Rightarrow> Inr i)"
| "py_int _ = Inl TypeError"

text \<open>Whether \<open>int(s, 16)\<close> accepts the text: a sign, an optional prefix \<open>0x\<close>, digits with single underscores.\<close>

definition is_hex_digit :: "char \<Rightarrow> bool" where
  "is_hex_digit c \<longleftrightarrow> is_digit c \<or> c \<in> set ''abcdefABCDEF''"

fun hex_part :: "string \<Rightarrow> bool" where
  "hex_part [] = False"
| "hex_part [c] = is_hex_digit c"
| "hex_part (c # d # s) = (is_hex_digit c \<and> hex_part (if d = CHR ''_'' then s else d # s))"

definition hex_literal :: "string \<Rightarrow> bool" where
  "hex_literal s =
     (let body = snd (split_sign (strip s)) in
      if take 2 body = ''0x'' \<or> take 2 body = ''0X''
      then (let r = drop 2 body in hex_part (if r \<noteq> [] \<and> hd r = CHR ''_'' then tl r else r))
      else hex_part body)"

text \<open>\<open>type(v).__name__\<close>\<close>

fun type_name :: "pyval \<Rightarrow> string" where
  "type_name PNone = ''NoneType''"
| "type_name (PBool b) = ''bool''"
| "type_name (PInt i) = ''int''"
| "type_name (PFloat x) = ''float''"
| "type_name (PStr s) = ''str''"
| "type_name (PList l) = ''list''"
| "type_name (PDict d) = ''dict''"

subsection \<open>Printing integers\<close>

fun str_nat :: "nat \<Rightarrow> string" where
  "str_nat n = (if n < 10 then [char_of (48 + n)] else str_nat (n div 10) @ [char_of (48 + n mod 10)])"

declare str_nat.simps [simp del]

text \<open>\<open>hex(n)\<close> for \<open>n\<close> not negative.\<close>

fun hex_nat :: "nat \<Rightarrow> string" where
  "hex_nat n = (let d = (\<lambda>k. ''0123456789abcdef'' ! k) in if n < 16 then [d n] else hex_nat (n div 16) @ [d (n mod 16)])"

declare hex_nat.simps [simp del]

definition str_int :: "int \<Rightarrow> string" where
  "str_int i = (if i < 0 then CHR ''-'' # str_nat (nat (- i)) else str_nat (nat i))"

subsection \<open>Splitting\<close>

text \<open>\<open>s.split(c)\<close> for one character.\<close>

fun split_char :: "char \<Rightarrow> string \<Rightarrow> string list" where
  "split_char c [] = [[]]"
| "split_char c (x # s) =
     (if x = c then [] # split_char c s
      else (case split_char c s of [] \<Rightarrow> [[x]] | p # ps \<Rightarrow> (x # p) # ps))"

text \<open>\<open>p in s\<close> for strings.\<close>

fun has_substring :: "string \<Rightarrow> string \<Rightarrow> bool" where
  "has_substring p [] = (p = [])"
| "has_substring p (c # s) = (take (length p) (c # s) = p \<or> has_substring p s)"

text \<open>\<open>sep.join(parts)\<close>\<close>

fun str_join :: "string \<Rightarrow> string list \<Rightarrow> string" where
  "str_join sep [] = []"
| "str_join sep [x] = x"
| "str_join sep (x # y # xs) = x @ sep @ str_join sep (y # xs)"

subsection \<open>Replacement\<close>

text \<open>\<open>s.replace(old, new)\<close> for a non-empty \<open>old\<close>: the occurrences from the left that do not overlap.\<close>

function py_replace :: "string \<Rightarrow> string \<Rightarrow> string \<Rightarrow> string" where
  "py_replace old new [] = []"
| "py_replace old new (c # s) =
     (if starts_with (c # s) old then new @ py_replace old new (drop (length old - 1) s)
      else c # py_replace old new s)"
  by pat_completeness auto

termination by (relation "measure (\<lambda>(old, new, s). length s)") auto

subsection \<open>Slices\<close>

text \<open>\<open>xs[a:b]\<close>\<close>

definition py_slice :: "int \<Rightarrow> int \<Rightarrow> 'a list \<Rightarrow> 'a list" where
  "py_slice a b xs =
     (let n = int (length xs);
          norm = (\<lambda>i. if i < 0 then max 0 (i + n) else min i n)
      in take (nat (norm b - norm a)) (drop (nat (norm a)) xs))"

subsection \<open>Lemmas\<close>

lemma py_slice_window:
  "0 \<le> a \<Longrightarrow> 0 \<le> n \<Longrightarrow> py_slice a (a + n) xs = take (nat n) (drop (nat a) xs)"
proof (cases "a \<le> int (length xs)")
  case True
  assume "0 \<le> a" "0 \<le> n"
  with True show ?thesis
    by (cases "a + n \<le> int (length xs)") (auto simp: py_slice_def Let_def min_def)
qed (auto simp: py_slice_def Let_def)

lemma split_char_not_Nil [simp]: "split_char c s \<noteq> []"
  by (induction c s rule: split_char.induct) (auto split: list.splits)

lemma split_char_free: "c \<notin> set s \<Longrightarrow> split_char c s = [s]"
  by (induction s) auto

lemma split_char_append: "c \<notin> set p \<Longrightarrow> split_char c (p @ c # s) = p # split_char c s"
  by (induction p) auto

lemma split_char_join:
  "ps \<noteq> [] \<Longrightarrow> \<forall>p \<in> set ps. c \<notin> set p \<Longrightarrow> split_char c (str_join [c] ps) = ps"
  by (induction "[c]" ps rule: str_join.induct) (auto simp: split_char_free split_char_append)

lemma digit_char [simp]:
  "d < 10 \<Longrightarrow> is_digit (char_of (48 + d :: nat))" "d < 10 \<Longrightarrow> of_char (char_of (48 + d :: nat)) = 48 + d"
  by (simp_all add: is_digit_def)

lemma digit_not_underscore [simp]: "\<not> is_digit (CHR ''_'')"
  by (simp add: is_digit_def)

lemma digit_part_digits:
  "s \<noteq> [] \<Longrightarrow> \<forall>c \<in> set s. is_digit c \<Longrightarrow> digit_part s = Some (map (\<lambda>c. of_char c - 48) s)"
  by (induction s rule: digit_part.induct) auto

lemma str_nat_digits: "str_nat n \<noteq> [] \<and> (\<forall>c \<in> set (str_nat n). is_digit c)"
proof (induction n rule: str_nat.induct)
  case (1 n)
  then show ?case by (cases "n < 10") (auto simp: str_nat.simps [of n])
qed

lemma digits_value_snoc: "digits_value (ds @ [d]) = 10 * digits_value ds + d"
  by (simp add: digits_value_def)

lemma digits_value_str_nat: "digits_value (map (\<lambda>c. of_char c - 48) (str_nat n)) = n"
proof (induction n rule: str_nat.induct)
  case (1 n)
  then show ?case
    by (cases "n < 10") (simp_all add: str_nat.simps [of n] digits_value_snoc digits_value_def [of "[_]"])
qed

lemma digit_not_space: "is_digit c \<Longrightarrow> \<not> py_space c \<and> c \<noteq> CHR ''-'' \<and> c \<noteq> CHR ''+''"
  by (auto simp: is_digit_def py_space_def Let_def)

lemma strip_no_space:
  assumes "s \<noteq> []" "\<not> py_space (hd s)" "\<not> py_space (last s)"
  shows "strip s = s"
proof -
  have "lstrip s = s" using assms by (cases s) (auto simp: lstrip_def)
  moreover have "dropWhile py_space (rev s) = rev s"
    using assms by (cases "rev s") (auto simp: rev_eq_Cons_iff)
  ultimately show ?thesis by (simp add: strip_def rstrip_def)
qed

text \<open>Printing an integer and reading it back.\<close>

lemma parse_int_str_int:
  assumes "length (str_nat (nat \<bar>i\<bar>)) \<le> MAX_INT_DIGITS"
  shows "parse_int (str_int i) = Some i"
proof -
  let ?n = "nat \<bar>i\<bar>"
  have digits: "str_nat ?n \<noteq> []" "\<forall>c \<in> set (str_nat ?n). is_digit c" using str_nat_digits by auto
  have ends: "is_digit (hd (str_nat ?n))" "is_digit (last (str_nat ?n))" using digits by auto
  note part = digit_part_digits [OF digits] digits_value_str_nat [of ?n]
  show ?thesis
  proof (cases "i < 0")
    case True
    have "strip (CHR ''-'' # str_nat ?n) = CHR ''-'' # str_nat ?n"
      by (rule strip_no_space) (use digits ends digit_not_space in \<open>auto simp: py_space_def\<close>)
    with True part assms show ?thesis by (simp add: parse_int_def str_int_def split_sign_def)
  next
    case False
    have "strip (str_nat ?n) = str_nat ?n"
      by (rule strip_no_space) (use digits ends digit_not_space in auto)
    moreover have "split_sign (str_nat ?n) = (False, str_nat ?n)"
      using digits ends digit_not_space by (cases "str_nat ?n") (auto simp: split_sign_def)
    ultimately show ?thesis using False part assms by (simp add: parse_int_def str_int_def)
  qed
qed

lemma py_replace_char: "py_replace [a] new s = concat (map (\<lambda>c. if c = a then new else [c]) s)"
  by (induction s) (auto simp: starts_with_def)

end
