(* ===== verification/Capabilities.thy ===== *)
theory Capabilities
  imports Asap_Prelude
begin

text \<open>
  Capabilities (\<open>src/asap/auth/capabilities.py\<close>): constraint validation, the registry of
  definitions and grants, the escalation policy and the mapping from OAuth2 scopes. The fields of
  \<open>HostIdentity\<close> (\<open>src/asap/auth/identity.py\<close>) that the policy reads are declared here.

  Constraint values and arguments are JSON values. Comparing a number with a value of another kind,
  or testing membership in a value that is no container, raises \<open>TypeError\<close> in Python; the check
  functions return it.
\<close>

subsection \<open>Hosts, definitions, grants\<close>

datatype host_status = HostActive | HostPending | HostRevoked

record host_identity =
  host_id :: string
  host_name :: "string option"
  host_public_key :: pydict
  host_user_id :: "string option"
  default_capabilities :: "string list"
  host_status :: host_status
  host_created_at :: datetime
  host_updated_at :: datetime

record capability_definition =
  cd_name :: string
  cd_description :: string
  cd_input_schema :: "pydict option"
  cd_output_schema :: "pydict option"
  cd_location :: "string option"

datatype grant_status = GrantActive | GrantPending | GrantDenied

record capability_grant =
  g_capability :: string
  g_status :: grant_status
  g_constraints :: "pydict option"
  g_granted_by :: "string option"
  g_reason :: "string option"
  g_expires_at :: "datetime option"

subsection \<open>Constraint operators\<close>

definition OPERATOR_KEYS :: "string list" where
  "OPERATOR_KEYS = [''max'', ''min'', ''in'', ''not_in'']"

text \<open>A violation: field, operator, expected and actual value. The message text is a function of
  these and is left out.\<close>

record violation =
  v_field :: string
  v_operator :: string
  v_expected :: pyval
  v_actual :: pyval

text \<open>\<open>a > b\<close> with a number on the left; a \<open>NaN\<close> exceeds nothing and nothing exceeds it.\<close>

definition py_gt :: "pyval \<Rightarrow> pyval \<Rightarrow> py_exn + bool" where
  "py_gt a b = (case (py_num a, py_num b) of
     (Some x, Some y) \<Rightarrow> Inr (pyfloat_lt y x) | _ \<Rightarrow> Inl TypeError)"

fun is_substring :: "string \<Rightarrow> string \<Rightarrow> bool" where
  "is_substring s [] = (s = [])"
| "is_substring s (c # t) = (starts_with (c # t) s \<or> is_substring s t)"

text \<open>\<open>a in b\<close>: elements of a list (identical or equal), keys of a dictionary (\<open>a\<close> must be hashable), substrings.\<close>

fun py_in :: "pyval \<Rightarrow> pyval \<Rightarrow> py_exn + bool" where
  "py_in a (PList xs) = Inr (\<exists>x \<in> set xs. x = PFloat NaN \<and> a = x \<or> py_eq x a)"
| "py_in a (PDict d) =
     (case a of PList _ \<Rightarrow> Inl TypeError | PDict _ \<Rightarrow> Inl TypeError
      | PStr s \<Rightarrow> Inr (s \<in> set (dict_keys d)) | _ \<Rightarrow> Inr False)"
| "py_in a (PStr t) = (case a of PStr s \<Rightarrow> Inr (is_substring s t) | _ \<Rightarrow> Inl TypeError)"
| "py_in a _ = Inl TypeError"

definition is_number :: "pyval \<Rightarrow> bool" where
  "is_number v \<longleftrightarrow> py_num v \<noteq> None"

definition check_operator :: "string \<Rightarrow> string \<Rightarrow> pyval \<Rightarrow> pyval \<Rightarrow> py_exn + violation option" where
  "check_operator field operator expected actual =
     (let v = \<lparr>v_field = field, v_operator = operator, v_expected = expected, v_actual = actual\<rparr> in
      if operator = ''max'' then
        (if \<not> is_number actual then Inr (Some v)
         else map_sum id (\<lambda>b. if b then Some v else None) (py_gt actual expected))
      else if operator = ''min'' then
        (if \<not> is_number actual then Inr (Some v)
         else map_sum id (\<lambda>b. if b then Some v else None) (py_gt expected actual))
      else if operator = ''in'' then
        map_sum id (\<lambda>b. if \<not> b then Some v else None) (py_in actual expected)
      else if operator = ''not_in'' then
        map_sum id (\<lambda>b. if b then Some v else None) (py_in actual expected)
      else Inr None)"

text \<open>The loop over the operators of one field.\<close>

fun check_operators :: "string \<Rightarrow> (string, pyval) dict \<Rightarrow> pyval \<Rightarrow> py_exn + violation list" where
  "check_operators field [] actual = Inr []"
| "check_operators field ((op, expected) # ops) actual =
     (if op \<notin> set OPERATOR_KEYS then check_operators field ops actual
      else (case check_operator field op expected actual of
              Inl x \<Rightarrow> Inl x
            | Inr v \<Rightarrow> map_sum id (\<lambda>vs. (case v of None \<Rightarrow> vs | Some w \<Rightarrow> w # vs))
                         (check_operators field ops actual)))"

text \<open>One field of the constraints.\<close>

definition check_field :: "string \<Rightarrow> pyval \<Rightarrow> pydict \<Rightarrow> py_exn + violation list" where
  "check_field field spec arguments =
     (let actual = (case map_of arguments field of None \<Rightarrow> PNone | Some v \<Rightarrow> v) in
      if actual = PNone then
        Inr [\<lparr>v_field = field, v_operator = ''required'', v_expected = spec, v_actual = PNone\<rparr>]
      else (case spec of
        PDict d \<Rightarrow>
          if (\<exists>op \<in> set OPERATOR_KEYS. op \<in> set (dict_keys d)) then check_operators field d actual
          else if \<not> py_eq actual spec then
            Inr [\<lparr>v_field = field, v_operator = ''eq'', v_expected = spec, v_actual = actual\<rparr>]
          else Inr []
      | _ \<Rightarrow>
          if \<not> py_eq actual spec then
            Inr [\<lparr>v_field = field, v_operator = ''eq'', v_expected = spec, v_actual = actual\<rparr>]
          else Inr []))"

fun validate_constraints :: "pydict \<Rightarrow> pydict \<Rightarrow> py_exn + violation list" where
  "validate_constraints [] arguments = Inr []"
| "validate_constraints ((field, spec) # cs) arguments =
     (case check_field field spec arguments of
        Inl x \<Rightarrow> Inl x
      | Inr vs \<Rightarrow> map_sum id (\<lambda>ws. vs @ ws) (validate_constraints cs arguments))"

subsection \<open>The registry\<close>

record capability_registry =
  definitions :: "(string, capability_definition) dict"
  grants :: "(string, (string, capability_grant) dict) dict"

definition registry_init :: capability_registry where
  "registry_init = \<lparr>definitions = [], grants = []\<rparr>"

definition register :: "capability_definition \<Rightarrow> capability_registry \<Rightarrow> capability_registry" where
  "register d r = r\<lparr>definitions := AList.update (cd_name d) d (definitions r)\<rparr>"

definition list_capabilities :: "capability_registry \<Rightarrow> capability_definition list" where
  "list_capabilities r = dict_values (definitions r)"

definition describe :: "string \<Rightarrow> capability_registry \<Rightarrow> capability_definition option" where
  "describe name r = map_of (definitions r) name"

definition agent_grants :: "string \<Rightarrow> capability_registry \<Rightarrow> (string, capability_grant) dict" where
  "agent_grants agent_id r = (case map_of (grants r) agent_id of None \<Rightarrow> [] | Some d \<Rightarrow> d)"

definition grant ::
  "string \<Rightarrow> string \<Rightarrow> pydict option \<Rightarrow> string option \<Rightarrow> grant_status \<Rightarrow> string option \<Rightarrow>
   datetime option \<Rightarrow> capability_registry \<Rightarrow> capability_grant \<times> capability_registry" where
  "grant agent_id capability constraints granted_by status reason expires_at r =
     (let g = \<lparr>g_capability = capability, g_status = status, g_constraints = constraints,
               g_granted_by = granted_by, g_reason = reason, g_expires_at = expires_at\<rparr>
      in (g, r\<lparr>grants := AList.update agent_id
                 (AList.update capability g (agent_grants agent_id r)) (grants r)\<rparr>))"

definition get_grants :: "string \<Rightarrow> capability_registry \<Rightarrow> capability_grant list" where
  "get_grants agent_id r = dict_values (agent_grants agent_id r)"

record grant_check_result =
  gc_allowed :: bool
  gc_violations :: "violation list"
  gc_grant :: "capability_grant option"

definition check_grant ::
  "datetime \<Rightarrow> string \<Rightarrow> string \<Rightarrow> pydict option \<Rightarrow> capability_registry \<Rightarrow> py_exn + grant_check_result" where
  "check_grant now agent_id capability arguments r =
     (case map_of (agent_grants agent_id r) capability of
        None \<Rightarrow> Inr \<lparr>gc_allowed = False, gc_violations = [], gc_grant = None\<rparr>
      | Some g \<Rightarrow>
          if g_status g \<noteq> GrantActive
          then Inr \<lparr>gc_allowed = False, gc_violations = [], gc_grant = Some g\<rparr>
          else if (case g_expires_at g of None \<Rightarrow> False | Some e \<Rightarrow> now > e)
          then Inr \<lparr>gc_allowed = False, gc_violations = [], gc_grant = Some g\<rparr>
          else (case g_constraints g of
                  None \<Rightarrow> Inr \<lparr>gc_allowed = True, gc_violations = [], gc_grant = Some g\<rparr>
                | Some [] \<Rightarrow> Inr \<lparr>gc_allowed = True, gc_violations = [], gc_grant = Some g\<rparr>
                | Some cs \<Rightarrow>
                    map_sum id
                      (\<lambda>vs. if vs \<noteq> [] then \<lparr>gc_allowed = False, gc_violations = vs, gc_grant = Some g\<rparr>
                            else \<lparr>gc_allowed = True, gc_violations = [], gc_grant = Some g\<rparr>)
                      (validate_constraints cs (case arguments of None \<Rightarrow> [] | Some a \<Rightarrow> a))))"

subsection \<open>Escalation\<close>

definition escalation_requires_user_consent :: "host_identity \<Rightarrow> string list \<Rightarrow> bool" where
  "escalation_requires_user_consent host requested =
     (if host_status host \<noteq> HostActive then True
      else \<not> set requested \<subseteq> set (default_capabilities host))"

text \<open>\<open>existing.constraints != requested_constraints\<close>: both are JSON values or \<open>None\<close>.\<close>

definition constraints_value :: "pydict option \<Rightarrow> pyval" where
  "constraints_value c = (case c of None \<Rightarrow> PNone | Some d \<Rightarrow> PDict d)"

definition auto_grant_would_replace_existing_grant :: "capability_grant option \<Rightarrow> pyval \<Rightarrow> bool" where
  "auto_grant_would_replace_existing_grant existing requested =
     (case existing of
        None \<Rightarrow> False
      | Some g \<Rightarrow>
          if g_status g \<noteq> GrantActive \<or> \<not> py_eq (constraints_value (g_constraints g)) requested then True
          else g_expires_at g \<noteq> None)"

definition spec_name :: "pydict \<Rightarrow> string" where
  "spec_name spec = (case map_of spec ''name'' of Some (PStr s) \<Rightarrow> strip s | _ \<Rightarrow> [])"

definition spec_constraints :: "pydict \<Rightarrow> pyval" where
  "spec_constraints spec = (case map_of spec ''constraints'' of None \<Rightarrow> PNone | Some v \<Rightarrow> v)"

text \<open>\<open>{g.capability: g for g in existing_grants}\<close>: a later grant of the same name wins.\<close>

definition grant_by_name :: "capability_grant list \<Rightarrow> (string, capability_grant) dict" where
  "grant_by_name gs = fold (\<lambda>g d. AList.update (g_capability g) g d) gs []"

fun partition_specs ::
  "host_identity \<Rightarrow> (string, capability_grant) dict \<Rightarrow> pyval list \<Rightarrow> pydict list \<times> pydict list" where
  "partition_specs host by_name [] = ([], [])"
| "partition_specs host by_name (spec # specs) =
     (let (needs, auto) = partition_specs host by_name specs in
      case spec of
        PDict d \<Rightarrow>
          if spec_name d = [] then (needs, auto)
          else if escalation_requires_user_consent host [spec_name d] \<or>
                  auto_grant_would_replace_existing_grant (map_of by_name (spec_name d)) (spec_constraints d)
          then (d # needs, auto) else (needs, d # auto)
      | _ \<Rightarrow> (needs, auto))"

definition partition_escalation_capability_specs ::
  "host_identity \<Rightarrow> pyval list \<Rightarrow> capability_grant list \<Rightarrow> pydict list \<times> pydict list" where
  "partition_escalation_capability_specs host specs existing_grants =
     partition_specs host (grant_by_name existing_grants) specs"

subsection \<open>Scopes\<close>

definition SCOPE_READ :: string where "SCOPE_READ = ''asap:read''"
definition SCOPE_EXECUTE :: string where "SCOPE_EXECUTE = ''asap:execute''"
definition SCOPE_ADMIN :: string where "SCOPE_ADMIN = ''asap:admin''"

definition name_matches :: "string list \<Rightarrow> string \<Rightarrow> bool" where
  "name_matches kws name \<longleftrightarrow> (\<exists>kw \<in> set kws. is_substring kw (lower name))"

definition granted_names :: "string list \<Rightarrow> string list \<Rightarrow> string list" where
  "granted_names scopes names =
     (if SCOPE_ADMIN \<in> set scopes then names
      else (if SCOPE_READ \<in> set scopes
            then filter (name_matches [''read'', ''list'', ''describe'']) names else []) @
           (if SCOPE_EXECUTE \<in> set scopes
            then filter (name_matches [''execute'', ''write'', ''invoke'']) names else []))"

definition map_scopes_to_capabilities :: "string list \<Rightarrow> capability_registry \<Rightarrow> capability_grant list" where
  "map_scopes_to_capabilities scopes r =
     map (\<lambda>n. \<lparr>g_capability = n, g_status = GrantActive, g_constraints = None, g_granted_by = None,
               g_reason = None, g_expires_at = None\<rparr>)
       (sort (remdups (granted_names scopes (map cd_name (list_capabilities r)))))"

subsection \<open>Constraints: what passes\<close>

text \<open>What a constraint demands of an argument: present, and equal or within every operator. Bounds are for numbers; a \<open>NaN\<close> on
  either side passes, because no comparison with it is true (\<open>not_beyond\<close>).\<close>

fun not_beyond :: "pyfloat \<Rightarrow> pyfloat \<Rightarrow> bool" where
  "not_beyond (Fin x) (Fin y) = (x \<le> y)"
| "not_beyond PosInf (Fin y) = False"
| "not_beyond PosInf NegInf = False"
| "not_beyond (Fin x) NegInf = False"
| "not_beyond _ _ = True"

lemma not_beyond_iff: "not_beyond x y \<longleftrightarrow> \<not> pyfloat_lt y x"
  by (cases x; cases y) auto

fun op_holds :: "string \<Rightarrow> pyval \<Rightarrow> pyval \<Rightarrow> bool" where
  "op_holds op expected actual =
     (if op = ''max'' then (\<exists>x y. py_num actual = Some x \<and> py_num expected = Some y \<and> not_beyond x y)
      else if op = ''min'' then (\<exists>x y. py_num actual = Some x \<and> py_num expected = Some y \<and> not_beyond y x)
      else if op = ''in'' then py_in actual expected = Inr True
      else if op = ''not_in'' then py_in actual expected = Inr False
      else True)"

definition field_holds :: "string \<Rightarrow> pyval \<Rightarrow> pydict \<Rightarrow> bool" where
  "field_holds field spec arguments \<longleftrightarrow>
     (\<exists>actual. map_of arguments field = Some actual \<and> actual \<noteq> PNone \<and>
       (case spec of
          PDict d \<Rightarrow> if (\<exists>op \<in> set OPERATOR_KEYS. op \<in> set (dict_keys d))
                     then (\<forall>(op, expected) \<in> set d. op_holds op expected actual)
                     else py_eq actual spec
        | _ \<Rightarrow> py_eq actual spec))"

lemma map_sum_Inr_iff: "map_sum id f x = Inr y \<longleftrightarrow> (\<exists>z. x = Inr z \<and> y = f z)"
  by (cases x) auto

lemma check_operator_ok_iff:
  "check_operator field op expected actual = Inr None \<longleftrightarrow> op_holds op expected actual"
  by (auto simp: check_operator_def op_holds.simps Let_def is_number_def py_gt_def map_sum_Inr_iff not_beyond_iff
      split: option.splits if_splits)

declare op_holds.simps [simp del]

lemma op_holds_other: "op \<notin> set OPERATOR_KEYS \<Longrightarrow> op_holds op expected actual"
  by (simp add: OPERATOR_KEYS_def op_holds.simps)

lemma check_operators_Cons_ok_iff:
  "check_operators field ((op, expected) # ops) actual = Inr [] \<longleftrightarrow>
     op_holds op expected actual \<and> check_operators field ops actual = Inr []"
proof (cases "op \<in> set OPERATOR_KEYS")
  case True
  then show ?thesis
    by (cases "check_operator field op expected actual")
      (auto simp: check_operator_ok_iff [of field, symmetric] map_sum_Inr_iff split: option.splits)
qed (simp add: op_holds_other)

lemma check_operators_ok_iff:
  "check_operators field ops actual = Inr [] \<longleftrightarrow> (\<forall>(op, expected) \<in> set ops. op_holds op expected actual)"
proof (induction ops)
  case (Cons p ops)
  then show ?case by (cases p) (simp only: check_operators_Cons_ok_iff, simp)
qed simp

lemma check_field_ok_iff: "check_field field spec arguments = Inr [] \<longleftrightarrow> field_holds field spec arguments"
  by (auto simp: check_field_def field_holds_def Let_def check_operators_ok_iff
      split: option.splits pyval.splits if_splits)

lemma validate_constraints_Cons_ok_iff:
  "validate_constraints ((field, spec) # cs) arguments = Inr [] \<longleftrightarrow>
     field_holds field spec arguments \<and> validate_constraints cs arguments = Inr []"
  by (auto simp: check_field_ok_iff [symmetric] map_sum_Inr_iff split: sum.splits)

lemma validate_constraints_ok_iff:
  "validate_constraints cs arguments = Inr [] \<longleftrightarrow> (\<forall>(field, spec) \<in> set cs. field_holds field spec arguments)"
proof (induction cs)
  case (Cons p cs)
  then show ?case by (cases p) (simp only: validate_constraints_Cons_ok_iff, simp)
qed simp

lemma check_grant_allowed_iff:
  "(\<exists>res. check_grant now a cap args r = Inr res \<and> gc_allowed res) \<longleftrightarrow>
     (\<exists>g. map_of (agent_grants a r) cap = Some g \<and> g_status g = GrantActive \<and>
        (\<forall>e. g_expires_at g = Some e \<longrightarrow> now \<le> e) \<and>
        (\<forall>cs. g_constraints g = Some cs \<longrightarrow>
           (\<forall>(field, spec) \<in> set cs. field_holds field spec (case args of None \<Rightarrow> [] | Some a \<Rightarrow> a))))"
proof (cases "map_of (agent_grants a r) cap")
  case None
  then show ?thesis by (simp add: check_grant_def)
next
  case (Some g)
  let ?r = "\<lambda>vs. if vs \<noteq> [] then \<lparr>gc_allowed = False, gc_violations = vs, gc_grant = Some g\<rparr>
    else \<lparr>gc_allowed = True, gc_violations = [], gc_grant = Some g\<rparr>"
  have ok: "(\<exists>res. map_sum id ?r x = Inr res \<and> gc_allowed res) \<longleftrightarrow> x = Inr []" for x :: "py_exn + violation list"
    by (cases x) auto
  have "(\<exists>res. (case cs of [] \<Rightarrow> Inr \<lparr>gc_allowed = True, gc_violations = [], gc_grant = Some g\<rparr>
      | c # cs' \<Rightarrow> map_sum id ?r (validate_constraints (c # cs') args')) = Inr res \<and> gc_allowed res)
    \<longleftrightarrow> validate_constraints cs args' = Inr []" for cs args'
    by (cases cs) (simp_all only: list.case ok, simp_all)
  with Some show ?thesis
    by (cases "g_constraints g"; cases "g_expires_at g")
      (simp_all add: check_grant_def validate_constraints_ok_iff not_less)
qed

subsection \<open>Grants\<close>

lemma agent_grants_grant:
  "agent_grants a' (snd (grant a cap cs by st re ex r)) =
     (if a' = a then AList.update cap (fst (grant a cap cs by st re ex r)) (agent_grants a r)
      else agent_grants a' r)"
  by (simp add: agent_grants_def grant_def Let_def dict_simps)

text \<open>Every stored grant is filed under the name it carries.\<close>

definition grants_inv :: "capability_registry \<Rightarrow> bool" where
  "grants_inv r \<longleftrightarrow> (\<forall>a. wf_dict (agent_grants a r) \<and>
     (\<forall>cap g. map_of (agent_grants a r) cap = Some g \<longrightarrow> g_capability g = cap))"

lemma grants_inv_init: "grants_inv registry_init"
  by (simp add: grants_inv_def registry_init_def agent_grants_def)

lemma grants_inv_grant: "grants_inv r \<Longrightarrow> grants_inv (snd (grant a cap cs by st re ex r))"
  by (auto simp: grants_inv_def agent_grants_grant dict_simps) (simp add: grant_def Let_def)

lemma grants_inv_register: "grants_inv r \<Longrightarrow> grants_inv (register d r)"
  by (simp add: grants_inv_def agent_grants_def register_def)

lemma find_snoc:
  "find P (xs @ [x]) = (case find P xs of Some y \<Rightarrow> Some y | None \<Rightarrow> if P x then Some x else None)"
  by (induction xs) auto

lemma grant_by_name_aux:
  "map_of (fold (\<lambda>g d. AList.update (g_capability g) g d) gs d) n =
     (case find (\<lambda>g. g_capability g = n) (rev gs) of Some g \<Rightarrow> Some g | None \<Rightarrow> map_of d n)"
proof (induction gs arbitrary: d)
  case (Cons g gs)
  then show ?case by (simp add: find_snoc map_of_update split: option.split)
qed simp

lemma find_filed:
  assumes "wf_dict d" "\<And>cap g. map_of d cap = Some g \<Longrightarrow> g_capability g = cap"
  shows "find (\<lambda>g. g_capability g = n) (rev (dict_values d)) = map_of d n"
proof (cases "find (\<lambda>g. g_capability g = n) (rev (dict_values d))")
  case None
  then have "\<forall>g \<in> set (dict_values d). g_capability g \<noteq> n" by (simp add: find_None_iff)
  with assms(2) have "map_of d n = None"
    by (metis (no_types, lifting) image_eqI list.set_map map_of_SomeD not_Some_eq snd_conv)
  with None show ?thesis by simp
next
  case (Some g)
  then have g: "g \<in> set (dict_values d)" "g_capability g = n" 
    by (metis find_Some_iff nth_mem set_rev, metis (mono_tags) find_Some_iff)
  then obtain cap where "map_of d cap = Some g"
    using assms(1) by (auto simp: map_of_eq_Some_iff)
  with assms(2) g Some show ?thesis by auto
qed

text \<open>For the grants of an agent, the dictionary built by name is the agent's own.\<close>

lemma grant_by_name_get_grants:
  "grants_inv r \<Longrightarrow> map_of (grant_by_name (get_grants a r)) n = map_of (agent_grants a r) n"
  unfolding grant_by_name_def get_grants_def grant_by_name_aux
  by (subst find_filed) (auto simp: grants_inv_def split: option.splits)

text \<open>Granting a list of names with the same terms.\<close>

lemma fold_grant_names:
  "map_of (agent_grants a' (fold (\<lambda>n r. snd (grant a n cs by st re ex r)) names r)) cap =
     (if a' = a \<and> cap \<in> set names
      then Some \<lparr>g_capability = cap, g_status = st, g_constraints = cs, g_granted_by = by, g_reason = re, g_expires_at = ex\<rparr>
      else map_of (agent_grants a' r) cap)"
proof (induction names arbitrary: r)
  case (Cons n names)
  then show ?case by (auto simp: agent_grants_grant dict_simps) (simp_all add: grant_def Let_def)
qed simp

lemma granted_names_keys:
  assumes "grants_inv r"
  shows "cap \<in> set (map g_capability (get_grants a r)) \<longleftrightarrow> map_of (agent_grants a r) cap \<noteq> None"
proof -
  have wf: "wf_dict (agent_grants a r)" "\<And>cap g. map_of (agent_grants a r) cap = Some g \<Longrightarrow> g_capability g = cap"
    using assms by (auto simp: grants_inv_def)
  have "cap \<in> set (map g_capability (get_grants a r)) \<longleftrightarrow> (\<exists>k g. map_of (agent_grants a r) k = Some g \<and> g_capability g = cap)"
    using wf(1) by (force simp: get_grants_def map_of_eq_Some_iff)
  also have "\<dots> \<longleftrightarrow> map_of (agent_grants a r) cap \<noteq> None" using wf(2) by auto
  finally show ?thesis .
qed

lemma grants_inv_fold_grant:
  "grants_inv r \<Longrightarrow> grants_inv (fold (\<lambda>n r. snd (grant a n cs by st re ex r)) names r)"
  by (induction names arbitrary: r) (simp_all add: grants_inv_grant)

subsection \<open>Escalation: what is granted without consent\<close>

lemma partition_specs_auto:
  "d \<in> set (snd (partition_specs host by_name specs)) \<Longrightarrow>
     PDict d \<in> set specs \<and> host_status host = HostActive \<and> spec_name d \<noteq> [] \<and>
     spec_name d \<in> set (default_capabilities host) \<and>
     \<not> auto_grant_would_replace_existing_grant (map_of by_name (spec_name d)) (spec_constraints d)"
  by (induction host by_name specs rule: partition_specs.induct)
    (auto simp: Let_def escalation_requires_user_consent_def split: prod.splits pyval.splits if_splits)

lemma partition_specs_complete:
  "PDict d \<in> set specs \<Longrightarrow> spec_name d \<noteq> [] \<Longrightarrow>
     d \<in> set (fst (partition_specs host by_name specs)) \<or> d \<in> set (snd (partition_specs host by_name specs))"
  by (induction host by_name specs rule: partition_specs.induct)
    (auto simp: Let_def split: prod.splits pyval.splits if_splits)

lemma auto_grant_harmless:
  "\<not> auto_grant_would_replace_existing_grant (Some g) requested \<Longrightarrow>
     g_status g = GrantActive \<and> g_expires_at g = None \<and> py_eq (constraints_value (g_constraints g)) requested"
  by (auto simp: auto_grant_would_replace_existing_grant_def split: if_splits)

subsection \<open>Properties\<close>

text \<open>C6: a call is allowed exactly if the agent holds an active, unexpired grant of the capability
  and every constraint of the grant holds of the arguments: the field is present, equals the
  constraint, or satisfies each of its \<open>max\<close>, \<open>min\<close>, \<open>in\<close> and \<open>not_in\<close> operators, where \<open>max\<close> and \<open>min\<close> demand a number that
  is not beyond the bound, which a \<open>NaN\<close> never is (\<open>not_beyond\<close>). A call whose check raises is not allowed.\<close>

theorem call_allowed_iff:
  "(\<exists>res. check_grant now a cap args r = Inr res \<and> gc_allowed res) \<longleftrightarrow>
     (\<exists>g. map_of (agent_grants a r) cap = Some g \<and> g_status g = GrantActive \<and>
        (\<forall>e. g_expires_at g = Some e \<longrightarrow> now \<le> e) \<and>
        (\<forall>cs. g_constraints g = Some cs \<longrightarrow>
           (\<forall>(field, spec) \<in> set cs. field_holds field spec (case args of None \<Rightarrow> [] | Some a \<Rightarrow> a))))"
  by (rule check_grant_allowed_iff)

theorem call_allowed_iff_witness:
  "\<exists>res. check_grant 5 ''a'' ''pay'' (Some [(''amount'', PInt 7)])
     (snd (grant ''a'' ''pay'' (Some [(''amount'', PDict [(''max'', PInt 10)])]) None GrantActive None (Some 9) registry_init)) = Inr res \<and>
     gc_allowed res"
  by (subst call_allowed_iff)
    (simp add: agent_grants_grant, simp add: grant_def Let_def map_of_update field_holds_def OPERATOR_KEYS_def op_holds.simps)

text \<open>So a bound does not stop an argument that is no number: a \<open>NaN\<close> passes every \<open>max\<close> and every \<open>min\<close>.\<close>

lemma nan_within_every_bound:
  assumes "map_of arguments field = Some (PFloat NaN)" "py_num lo \<noteq> None" "py_num hi \<noteq> None"
  shows "validate_constraints [(field, PDict [(''max'', hi), (''min'', lo)])] arguments = Inr []"
  using assms by (simp add: check_field_def OPERATOR_KEYS_def check_operator_def is_number_def py_gt_def split: option.split)

text \<open>A capability request that is granted without consent names a default capability of an active
  host, and where the agent already holds a grant of that name it is active, has no expiry and has
  the requested constraints, so that granting again replaces nothing. Every request with a name is
  either granted or queued for consent.\<close>

theorem auto_granted_requests_harmless:
  assumes "grants_inv r"
    and "partition_escalation_capability_specs host specs (get_grants a r) = (needs, auto)"
  shows "(d \<in> set auto \<longrightarrow> host_status host = HostActive \<and> spec_name d \<in> set (default_capabilities host) \<and>
      (\<forall>g. map_of (agent_grants a r) (spec_name d) = Some g \<longrightarrow>
         g_status g = GrantActive \<and> g_expires_at g = None \<and>
         py_eq (constraints_value (g_constraints g)) (spec_constraints d))) \<and>
    (PDict d \<in> set specs \<and> spec_name d \<noteq> [] \<longrightarrow> d \<in> set needs \<or> d \<in> set auto)"
proof (intro conjI impI)
  let ?p = "partition_specs host (grant_by_name (get_grants a r)) specs"
  have p: "fst ?p = needs" "snd ?p = auto"
    using assms(2) by (simp_all add: partition_escalation_capability_specs_def)
  show "d \<in> set needs \<or> d \<in> set auto" if "PDict d \<in> set specs \<and> spec_name d \<noteq> []"
    using that partition_specs_complete [of d specs host "grant_by_name (get_grants a r)"] p by simp
  assume "d \<in> set auto"
  with p have "d \<in> set (snd ?p)" by simp
  from partition_specs_auto [OF this] auto_grant_harmless
  show "host_status host = HostActive" "spec_name d \<in> set (default_capabilities host)"
    "\<forall>g. map_of (agent_grants a r) (spec_name d) = Some g \<longrightarrow>
         g_status g = GrantActive \<and> g_expires_at g = None \<and>
         py_eq (constraints_value (g_constraints g)) (spec_constraints d)"
    by (auto simp: grant_by_name_get_grants [OF assms(1)])
qed

theorem auto_granted_requests_harmless_witness:
  "[(''name'', PStr ''read'')] \<in> set (fst (partition_escalation_capability_specs
      \<lparr>host_id = ''h'', host_name = None, host_public_key = [], host_user_id = None,
       default_capabilities = [''list''], host_status = HostActive, host_created_at = 0, host_updated_at = 0\<rparr>
      [PDict [(''name'', PStr ''read'')]] (get_grants ''a'' registry_init))) \<or>
   [(''name'', PStr ''read'')] \<in> set (snd (partition_escalation_capability_specs
      \<lparr>host_id = ''h'', host_name = None, host_public_key = [], host_user_id = None,
       default_capabilities = [''list''], host_status = HostActive, host_created_at = 0, host_updated_at = 0\<rparr>
      [PDict [(''name'', PStr ''read'')]] (get_grants ''a'' registry_init)))"
  by (rule auto_granted_requests_harmless [OF grants_inv_init prod.collapse [symmetric], THEN conjunct2, rule_format])
    (simp_all add: spec_name_def strip_eq_Nil_iff py_space_def)

end
