(* ===== verification/Identity.thy ===== *)
theory Identity
  imports Capabilities
begin

text \<open>
  Hosts and agent sessions (\<open>src/asap/auth/identity.py\<close>): JWK thumbprints, the in-memory host and
  agent stores, session expiry and reactivation. The store protocol for agents is the locale
  \<open>agent_store\<close>; the in-memory store interprets it.

  \<open>digest\<close> stands for the standard library's canonical JSON dump, SHA-256 and base64url of the
  required JWK members; nothing but its being a function is used unless a statement says so.
\<close>

subsection \<open>Thumbprints\<close>

type_synonym digest = "pydict \<Rightarrow> string"

definition member :: "pydict \<Rightarrow> string \<Rightarrow> py_exn + (string \<times> pyval)" where
  "member pk k = (case map_of pk k of None \<Rightarrow> Inl (KeyError k) | Some v \<Rightarrow> Inr (k, v))"

fun members :: "pydict \<Rightarrow> string list \<Rightarrow> py_exn + pydict" where
  "members pk [] = Inr []"
| "members pk (k # ks) =
     (case member pk k of
        Inl x \<Rightarrow> Inl x
      | Inr m \<Rightarrow> map_sum id (\<lambda>ms. m # ms) (members pk ks))"

text \<open>The required members for the key type, in lexicographic order.\<close>

definition required_members :: "pydict \<Rightarrow> py_exn + pydict" where
  "required_members pk =
     (case map_of pk ''kty'' of
        Some (PStr kty) \<Rightarrow>
          if kty = ''OKP'' then members pk [''crv'', ''kty'', ''x'']
          else if kty = ''EC'' then members pk [''crv'', ''kty'', ''x'', ''y'']
          else if kty = ''RSA'' then members pk [''e'', ''kty'', ''n'']
          else if kty = ''oct'' then members pk [''k'', ''kty'']
          else Inl (ValueError ''unsupported kty for thumbprint'')
      | _ \<Rightarrow> Inl (ValueError ''unsupported kty for thumbprint''))"

definition jwk_thumbprint_sha256 :: "digest \<Rightarrow> pydict \<Rightarrow> py_exn + string" where
  "jwk_thumbprint_sha256 digest pk = map_sum id digest (required_members pk)"

definition host_urn_from_thumbprint :: "string \<Rightarrow> string" where
  "host_urn_from_thumbprint tp = ''urn:asap:host:'' @ tp"

subsection \<open>The host store\<close>

record host_store =
  hosts :: "(string, host_identity) dict"
  thumb_to_host_id :: "(string, string) dict"

definition host_store_init :: host_store where
  "host_store_init = \<lparr>hosts = [], thumb_to_host_id = []\<rparr>"

definition host_save :: "digest \<Rightarrow> host_identity \<Rightarrow> host_store \<Rightarrow> (host_store, py_exn, unit) outcome" where
  "host_save digest h s =
     (let cleared =
        (case map_of (hosts s) (host_id h) of
           None \<Rightarrow> Inr s
         | Some prev \<Rightarrow>
             (case (jwk_thumbprint_sha256 digest (host_public_key prev),
                    jwk_thumbprint_sha256 digest (host_public_key h)) of
                (Inl x, _) \<Rightarrow> Inl x
              | (Inr old_tp, Inl x) \<Rightarrow> Inl x
              | (Inr old_tp, Inr new_tp) \<Rightarrow>
                  if old_tp \<noteq> new_tp \<and> map_of (thumb_to_host_id s) old_tp = Some (host_id h)
                  then Inr (s\<lparr>thumb_to_host_id := AList.delete old_tp (thumb_to_host_id s)\<rparr>)
                  else Inr s))
      in case cleared of
           Inl x \<Rightarrow> (Inl x, s)
         | Inr s1 \<Rightarrow>
             (case jwk_thumbprint_sha256 digest (host_public_key h) of
                Inl x \<Rightarrow> (Inl x, s1)
              | Inr tp \<Rightarrow>
                  (Inr (), s1\<lparr>thumb_to_host_id := AList.update tp (host_id h) (thumb_to_host_id s1),
                              hosts := AList.update (host_id h) h (hosts s1)\<rparr>)))"

definition host_get :: "string \<Rightarrow> host_store \<Rightarrow> host_identity option" where
  "host_get hid s = map_of (hosts s) hid"

definition host_get_by_public_key :: "string \<Rightarrow> host_store \<Rightarrow> host_identity option" where
  "host_get_by_public_key tp s =
     (case map_of (thumb_to_host_id s) tp of None \<Rightarrow> None | Some hid \<Rightarrow> map_of (hosts s) hid)"

subsection \<open>Agent sessions\<close>

datatype agent_mode = Delegated | Autonomous

datatype agent_status = AgentPending | AgentActive | AgentExpired | AgentRevoked | AgentRejected

record agent_session =
  agent_id :: string
  agent_host_id :: string
  agent_public_key :: pydict
  agent_mode :: agent_mode
  agent_status :: agent_status
  session_ttl :: "timedelta option"
  max_lifetime :: "timedelta option"
  absolute_lifetime :: "timedelta option"
  activated_at :: "datetime option"
  last_used_at :: "datetime option"
  agent_created_at :: datetime

datatype store_error =
    RevokedAgentOverwriteError
  | StaleAgentPublicKeyError

datatype expiry_status = Live | Expired | LifetimeOver

definition check_agent_expiry :: "datetime \<Rightarrow> agent_session \<Rightarrow> expiry_status" where
  "check_agent_expiry now a =
     (if (case absolute_lifetime a of None \<Rightarrow> False | Some l \<Rightarrow> now - agent_created_at a > l)
      then LifetimeOver
      else if (case (max_lifetime a, activated_at a) of
                 (Some l, Some t) \<Rightarrow> now - t > l | _ \<Rightarrow> False)
      then Expired
      else if (case (session_ttl a, last_used_at a) of
                 (Some l, Some t) \<Rightarrow> now - t > l | _ \<Rightarrow> False)
      then Expired
      else Live)"

definition extend_session :: "datetime \<Rightarrow> agent_session \<Rightarrow> agent_session" where
  "extend_session now a = a\<lparr>last_used_at := Some now\<rparr>"

text \<open>Every status but \<open>active\<close> and \<open>expired\<close> has a text of its own; the general one of the code is for a status to come.\<close>

definition reactivate_refusal_message :: "string \<Rightarrow> agent_status \<Rightarrow> string" where
  "reactivate_refusal_message aid st =
     ''Agent '' @ aid @
     (case st of
        AgentRevoked \<Rightarrow> '' is permanently revoked''
      | AgentPending \<Rightarrow> '' is still pending approval; cannot reactivate until registration is approved''
      | AgentRejected \<Rightarrow> '' was rejected during registration; re-register instead of reactivating''
      | _ \<Rightarrow> '' cannot be reactivated'')"

definition reactivate_agent :: "datetime \<Rightarrow> agent_session \<Rightarrow> py_exn + agent_session" where
  "reactivate_agent now a =
     (if agent_status a \<noteq> AgentActive \<and> agent_status a \<noteq> AgentExpired
      then Inl (ValueError (reactivate_refusal_message (agent_id a) (agent_status a)))
      else if (case absolute_lifetime a of None \<Rightarrow> False | Some l \<Rightarrow> now - agent_created_at a > l)
      then Inl (ValueError (''Agent '' @ agent_id a @ '' has exceeded absolute lifetime; reactivation is not possible''))
      else Inr (a\<lparr>agent_status := AgentActive, activated_at := Some now, last_used_at := Some now\<rparr>))"

subsection \<open>The agent store\<close>

type_synonym agent_rows = "(string, agent_session) dict"

text \<open>\<open>_cas_public_key_row\<close>: any failure to compute a thumbprint counts as a stale key.\<close>

definition cas_public_key_row ::
  "digest \<Rightarrow> agent_session \<Rightarrow> agent_session \<Rightarrow> pydict \<Rightarrow> store_error + agent_session" where
  "cas_public_key_row digest existing agent expected =
     (case (jwk_thumbprint_sha256 digest (agent_public_key existing),
            jwk_thumbprint_sha256 digest (agent_public_key agent),
            jwk_thumbprint_sha256 digest expected) of
        (Inr stored_tp, Inr incoming_tp, Inr expected_tp) \<Rightarrow>
          if stored_tp \<noteq> expected_tp then Inl StaleAgentPublicKeyError
          else if incoming_tp \<noteq> expected_tp
          then Inr (existing\<lparr>agent_public_key := agent_public_key agent\<rparr>)
          else Inr agent
      | _ \<Rightarrow> Inl StaleAgentPublicKeyError)"

definition agent_save ::
  "digest \<Rightarrow> agent_session \<Rightarrow> pydict option \<Rightarrow> agent_rows \<Rightarrow> (agent_rows, store_error, unit) outcome" where
  "agent_save digest agent expected rows =
     (let existing = map_of rows (agent_id agent) in
      if (case existing of None \<Rightarrow> False
          | Some ex \<Rightarrow> agent_status ex = AgentRevoked \<and> agent_status agent \<noteq> AgentRevoked)
      then (Inl RevokedAgentOverwriteError, rows)
      else (case (expected, existing) of
              (Some k, Some ex) \<Rightarrow>
                (case cas_public_key_row digest ex agent k of
                   Inl x \<Rightarrow> (Inl x, rows)
                 | Inr row \<Rightarrow> (Inr (), AList.update (agent_id row) row rows))
            | _ \<Rightarrow> (Inr (), AList.update (agent_id agent) agent rows)))"

text \<open>\<open>now\<close> is read by the expiry check inside.\<close>

definition touch_if_current ::
  "digest \<Rightarrow> datetime \<Rightarrow> string \<Rightarrow> pydict \<Rightarrow> datetime \<Rightarrow> string \<Rightarrow> agent_rows \<Rightarrow> agent_session option \<times> agent_rows" where
  "touch_if_current digest now aid expected used_at expected_host rows =
     (case map_of rows aid of
        None \<Rightarrow> (None, rows)
      | Some cur \<Rightarrow>
          if agent_status cur \<noteq> AgentActive then (None, rows)
          else if agent_host_id cur \<noteq> expected_host then (None, rows)
          else (case (jwk_thumbprint_sha256 digest expected, jwk_thumbprint_sha256 digest (agent_public_key cur)) of
                  (Inr expected_tp, Inr current_tp) \<Rightarrow>
                    if current_tp \<noteq> expected_tp then (None, rows)
                    else if check_agent_expiry now cur \<noteq> Live then (None, rows)
                    else (let upd = cur\<lparr>last_used_at := Some used_at\<rparr>
                          in (Some upd, AList.update aid upd rows))
                | _ \<Rightarrow> (None, rows)))"

definition agent_get :: "string \<Rightarrow> agent_rows \<Rightarrow> agent_session option" where
  "agent_get aid rows = map_of rows aid"

definition list_by_host :: "string \<Rightarrow> agent_rows \<Rightarrow> agent_session list" where
  "list_by_host hid rows = sort_key agent_id (filter (\<lambda>a. agent_host_id a = hid) (dict_values rows))"

definition agent_revoke :: "string \<Rightarrow> agent_rows \<Rightarrow> agent_rows" where
  "agent_revoke aid rows =
     (case map_of rows aid of
        None \<Rightarrow> rows
      | Some a \<Rightarrow> if agent_status a = AgentRevoked then rows
                  else AList.update aid (a\<lparr>agent_status := AgentRevoked\<rparr>) rows)"

definition agent_revoke_by_host :: "string \<Rightarrow> agent_rows \<Rightarrow> agent_rows" where
  "agent_revoke_by_host hid rows =
     fold agent_revoke
       (map agent_id (filter (\<lambda>a. agent_host_id a = hid) (dict_values rows))) rows"

text \<open>Revoking a host, with the cascade to the agent store when there is one.\<close>

definition host_revoke ::
  "datetime \<Rightarrow> string \<Rightarrow> host_store \<times> agent_rows option \<Rightarrow> host_store \<times> agent_rows option" where
  "host_revoke now hid st =
     (case map_of (hosts (fst st)) hid of
        None \<Rightarrow> st
      | Some h \<Rightarrow>
          if host_status h = HostRevoked then st
          else ((fst st)\<lparr>hosts := AList.update hid (h\<lparr>host_status := HostRevoked, host_updated_at := now\<rparr>)
                                 (hosts (fst st))\<rparr>,
                map_option (agent_revoke_by_host hid) (snd st)))"

definition save_agent_unless_revoked ::
  "digest \<Rightarrow> agent_session \<Rightarrow> pydict option \<Rightarrow> agent_rows \<Rightarrow> (agent_rows, store_error, unit) outcome" where
  "save_agent_unless_revoked digest agent expected rows = agent_save digest agent expected rows"

subsection \<open>Thumbprints ignore optional members\<close>

lemma members_cong: "\<forall>k \<in> set ks. map_of pk k = map_of pk' k \<Longrightarrow> members pk ks = members pk' ks"
proof (induction ks)
  case (Cons k ks)
  then show ?case by (simp add: member_def cong: sum.case_cong)
qed simp

lemma thumbprint_okp_cong:
  assumes "map_of pk ''kty'' = Some (PStr ''OKP'')"
    and "\<forall>k \<in> {''crv'', ''kty'', ''x''}. map_of pk k = map_of pk' k"
  shows "jwk_thumbprint_sha256 digest pk = jwk_thumbprint_sha256 digest pk'"
  using assms members_cong [of "[''crv'', ''kty'', ''x'']" pk pk']
  by (simp add: jwk_thumbprint_sha256_def required_members_def)

subsection \<open>The host index\<close>

text \<open>The thumbprint index never points at a host that has another key now.\<close>

definition host_inv :: "digest \<Rightarrow> host_store \<Rightarrow> bool" where
  "host_inv digest s \<longleftrightarrow>
     (\<forall>tp hid. map_of (thumb_to_host_id s) tp = Some hid \<longrightarrow>
        (\<exists>h. map_of (hosts s) hid = Some h \<and> jwk_thumbprint_sha256 digest (host_public_key h) = Inr tp)) \<and>
     (\<forall>hid h. map_of (hosts s) hid = Some h \<longrightarrow> host_id h = hid)"

lemma host_inv_init: "host_inv digest host_store_init"
  by (simp add: host_inv_def host_store_init_def)

lemma host_inv_put:
  assumes inv: "host_inv digest s" and tp: "jwk_thumbprint_sha256 digest (host_public_key h) = Inr tp"
    and idx: "\<And>tp' hid. map_of t tp' = Some hid \<Longrightarrow>
      map_of (thumb_to_host_id s) tp' = Some hid \<and> (hid = host_id h \<longrightarrow> tp' = tp)"
  shows "host_inv digest (s\<lparr>thumb_to_host_id := AList.update tp (host_id h) t,
    hosts := AList.update (host_id h) h (hosts s)\<rparr>)"
proof -
  have "\<exists>g. (if hid = host_id h then Some h else map_of (hosts s) hid) = Some g \<and>
      jwk_thumbprint_sha256 digest (host_public_key g) = Inr tp'"
    if "(if tp' = tp then Some (host_id h) else map_of t tp') = Some hid" for tp' hid
    using that idx [of tp' hid] inv tp by (cases "hid = host_id h") (auto simp: host_inv_def split: if_splits)
  then show ?thesis
    using inv by (simp add: host_inv_def dict_simps)
qed

lemma host_save_inv:
  assumes inv: "host_inv digest s"
  shows "host_inv digest (snd (host_save digest h s))"
proof (cases "jwk_thumbprint_sha256 digest (host_public_key h)")
  case (Inl x)
  with inv show ?thesis by (auto simp: host_save_def Let_def split: option.split sum.split)
next
  case tp: (Inr tp)
  show ?thesis
  proof (cases "map_of (hosts s) (host_id h)")
    case None
    have "map_of (thumb_to_host_id s) tp' \<noteq> Some (host_id h)" for tp'
      using inv None by (fastforce simp: host_inv_def)
    then have "host_inv digest (s\<lparr>thumb_to_host_id := AList.update tp (host_id h) (thumb_to_host_id s),
        hosts := AList.update (host_id h) h (hosts s)\<rparr>)"
      by (intro host_inv_put [OF inv tp]) auto
    with None tp show ?thesis by (simp add: host_save_def)
  next
    case (Some prev)
    show ?thesis
    proof (cases "jwk_thumbprint_sha256 digest (host_public_key prev)")
      case (Inl x)
      with Some inv show ?thesis by (simp add: host_save_def)
    next
      case (Inr old)
      have only: "map_of (thumb_to_host_id s) tp' = Some (host_id h) \<Longrightarrow> tp' = old" for tp'
        using inv Some Inr by (fastforce simp: host_inv_def)
      let ?t = "if old \<noteq> tp \<and> map_of (thumb_to_host_id s) old = Some (host_id h)
        then AList.delete old (thumb_to_host_id s) else thumb_to_host_id s"
      have "host_inv digest (s\<lparr>thumb_to_host_id := AList.update tp (host_id h) ?t,
          hosts := AList.update (host_id h) h (hosts s)\<rparr>)"
      proof (rule host_inv_put [OF inv tp])
        fix tp' hid assume "map_of ?t tp' = Some hid"
        then show "map_of (thumb_to_host_id s) tp' = Some hid \<and> (hid = host_id h \<longrightarrow> tp' = tp)"
          using only [of tp'] by (auto simp: dict_simps split: if_splits)
      qed
      with Some Inr tp show ?thesis by (auto simp: host_save_def split: if_splits)
    qed
  qed
qed

lemma host_revoke_inv:
  "host_inv digest (fst st) \<Longrightarrow> host_inv digest (fst (host_revoke now hid st))"
  by (fastforce simp: host_revoke_def host_inv_def dict_simps split: option.splits)

lemma host_save_lookup:
  assumes "host_save digest h s = (Inr (), s')"
  shows "host_get (host_id h) s' = Some h"
    and "jwk_thumbprint_sha256 digest (host_public_key h) = Inr tp \<Longrightarrow> host_get_by_public_key tp s' = Some h"
  using assms by (auto simp: host_save_def Let_def host_get_def host_get_by_public_key_def dict_simps split: sum.splits)

subsection \<open>Rows of the agent store\<close>

definition rows_inv :: "agent_rows \<Rightarrow> bool" where
  "rows_inv rows \<longleftrightarrow> wf_dict rows \<and> (\<forall>aid a. map_of rows aid = Some a \<longrightarrow> agent_id a = aid)"

lemma rows_inv_empty: "rows_inv []"
  by (simp add: rows_inv_def)

lemma cas_public_key_row_Inr:
  assumes "cas_public_key_row digest ex a k = Inr row"
  shows "row = a \<or> row = ex\<lparr>agent_public_key := agent_public_key a\<rparr>"
    and "jwk_thumbprint_sha256 digest (agent_public_key ex) = jwk_thumbprint_sha256 digest k"
  using assms by (auto simp: cas_public_key_row_def split: sum.splits if_splits)

text \<open>A save guarded by the row's own key writes the row whole, over nothing that is revoked.\<close>

lemma agent_save_own_key:
  assumes "agent_save digest a (Some (agent_public_key a)) rows = (Inr (), rows')"
  shows "rows' = AList.update (agent_id a) a rows"
    "\<And>cur. agent_get (agent_id a) rows = Some cur \<Longrightarrow> agent_status a \<noteq> AgentRevoked \<Longrightarrow> agent_status cur \<noteq> AgentRevoked"
  using assms
  by (auto simp: agent_save_def Let_def cas_public_key_row_def agent_get_def split: option.splits sum.splits if_splits)

lemma rows_inv_save: "rows_inv rows \<Longrightarrow> rows_inv (snd (agent_save digest a k rows))"
  by (auto simp: rows_inv_def agent_save_def Let_def dict_simps split: option.splits sum.splits
      dest!: cas_public_key_row_Inr(1))

lemma rows_inv_touch: "rows_inv rows \<Longrightarrow> rows_inv (snd (touch_if_current digest now aid k t h rows))"
  by (auto simp: rows_inv_def touch_if_current_def Let_def dict_simps split: option.splits sum.splits)

lemma rows_inv_revoke: "rows_inv rows \<Longrightarrow> rows_inv (agent_revoke aid rows)"
  by (auto simp: rows_inv_def agent_revoke_def dict_simps split: option.splits)

lemma map_of_agent_revoke:
  "map_of (agent_revoke aid rows) a =
     (if a = aid then map_option (\<lambda>x. x\<lparr>agent_status := AgentRevoked\<rparr>) (map_of rows a) else map_of rows a)"
  by (auto simp: agent_revoke_def dict_simps split: option.splits)

lemma map_of_fold_revoke:
  "map_of (fold agent_revoke aids rows) a =
     (if a \<in> set aids then map_option (\<lambda>x. x\<lparr>agent_status := AgentRevoked\<rparr>) (map_of rows a) else map_of rows a)"
proof (induction aids arbitrary: rows)
  case (Cons aid aids)
  then show ?case by (cases "map_of rows a") (auto simp: map_of_agent_revoke)
qed simp

lemma rows_inv_revoke_by_host: "rows_inv rows \<Longrightarrow> rows_inv (agent_revoke_by_host hid rows)"
proof -
  have "rows_inv rows \<Longrightarrow> rows_inv (fold agent_revoke aids rows)" for aids
    by (induction aids arbitrary: rows) (auto intro: rows_inv_revoke)
  then show "rows_inv rows \<Longrightarrow> rows_inv (agent_revoke_by_host hid rows)"
    by (simp add: agent_revoke_by_host_def)
qed

lemma map_of_revoke_by_host:
  assumes "rows_inv rows"
  shows "map_of (agent_revoke_by_host hid rows) aid =
    map_option (\<lambda>a. if agent_host_id a = hid then a\<lparr>agent_status := AgentRevoked\<rparr> else a) (map_of rows aid)"
proof -
  have "aid \<in> set (map agent_id (filter (\<lambda>a. agent_host_id a = hid) (dict_values rows))) \<longleftrightarrow>
    (\<exists>a. map_of rows aid = Some a \<and> agent_host_id a = hid)"
  proof
    assume "aid \<in> set (map agent_id (filter (\<lambda>a. agent_host_id a = hid) (dict_values rows)))"
    then obtain k a where "(k, a) \<in> set rows" "agent_host_id a = hid" "agent_id a = aid" by auto
    with assms show "\<exists>a. map_of rows aid = Some a \<and> agent_host_id a = hid"
      unfolding rows_inv_def by (metis map_of_eq_Some_iff)
  next
    assume "\<exists>a. map_of rows aid = Some a \<and> agent_host_id a = hid"
    then obtain a where a: "map_of rows aid = Some a" "agent_host_id a = hid" by blast
    with assms have "agent_id a = aid" by (simp add: rows_inv_def)
    with a show "aid \<in> set (map agent_id (filter (\<lambda>a. agent_host_id a = hid) (dict_values rows)))"
      by (force dest: map_of_SomeD)
  qed
  then show ?thesis
    by (cases "map_of rows aid") (auto simp: agent_revoke_by_host_def map_of_fold_revoke)
qed

lemma touch_Some:
  assumes "touch_if_current digest now aid k t hid rows = (Some upd, rows')"
  shows "\<exists>cur. map_of rows aid = Some cur \<and> agent_status cur = AgentActive \<and> agent_host_id cur = hid \<and>
    jwk_thumbprint_sha256 digest (agent_public_key cur) = jwk_thumbprint_sha256 digest k \<and>
    check_agent_expiry now cur = Live \<and> upd = cur\<lparr>last_used_at := Some t\<rparr> \<and> rows' = AList.update aid upd rows"
  using assms by (auto simp: touch_if_current_def Let_def split: option.splits sum.splits if_splits)

lemma touch_None: "touch_if_current digest now aid k t hid rows = (None, rows') \<Longrightarrow> rows' = rows"
  by (auto simp: touch_if_current_def Let_def split: option.splits sum.splits if_splits)

subsection \<open>The contract of an agent store\<close>

text \<open>What the protocol's docstrings demand: a revoked row stays revoked under every operation, and
  a touch is one compare-and-set that changes \<open>last_used_at\<close> of a live row only.\<close>

locale agent_store =
  fixes thumb :: "pydict \<Rightarrow> py_exn + string"
    and save :: "agent_session \<Rightarrow> pydict option \<Rightarrow> 's \<Rightarrow> (store_error + unit) \<times> 's"
    and touch :: "datetime \<Rightarrow> string \<Rightarrow> pydict \<Rightarrow> datetime \<Rightarrow> string \<Rightarrow> 's \<Rightarrow> agent_session option \<times> 's"
    and get :: "string \<Rightarrow> 's \<Rightarrow> agent_session option"
    and revoke :: "string \<Rightarrow> 's \<Rightarrow> 's"
    and revoke_by_host :: "string \<Rightarrow> 's \<Rightarrow> 's"
    and invar :: "'s \<Rightarrow> bool"
  assumes invar_save: "invar s \<Longrightarrow> invar (snd (save a k s))"
    and invar_touch: "invar s \<Longrightarrow> invar (snd (touch now aid pk t hid s))"
    and invar_revoke: "invar s \<Longrightarrow> invar (revoke aid s)"
    and invar_revoke_by_host: "invar s \<Longrightarrow> invar (revoke_by_host hid s)"
    and get_id: "invar s \<Longrightarrow> get aid s = Some a \<Longrightarrow> agent_id a = aid"
    and save_get: "invar s \<Longrightarrow> fst (save a k s) = Inr () \<Longrightarrow> \<exists>row. get (agent_id a) (snd (save a k s)) = Some row \<and>
      (row = a \<or> (\<exists>ex. get (agent_id a) s = Some ex \<and> row = ex\<lparr>agent_public_key := agent_public_key a\<rparr>))"
    and save_other: "invar s \<Longrightarrow> aid \<noteq> agent_id a \<Longrightarrow> get aid (snd (save a k s)) = get aid s"
    and save_error: "fst (save a k s) = Inl x \<Longrightarrow> snd (save a k s) = s"
    and save_revoked: "invar s \<Longrightarrow> get (agent_id a) s = Some ex \<Longrightarrow> agent_status ex = AgentRevoked \<Longrightarrow>
      agent_status a \<noteq> AgentRevoked \<Longrightarrow> fst (save a k s) = Inl RevokedAgentOverwriteError"
    and save_stale: "invar s \<Longrightarrow> get (agent_id a) s = Some ex \<Longrightarrow> thumb (agent_public_key ex) \<noteq> thumb pk \<Longrightarrow>
      fst (save a (Some pk) s) \<noteq> Inr ()"
    and touch_cas: "invar s \<Longrightarrow> fst (touch now aid pk t hid s) = Some upd \<Longrightarrow>
      \<exists>cur. get aid s = Some cur \<and> agent_status cur = AgentActive \<and> agent_host_id cur = hid \<and>
        thumb (agent_public_key cur) = thumb pk \<and> check_agent_expiry now cur = Live \<and>
        upd = cur\<lparr>last_used_at := Some t\<rparr> \<and> get aid (snd (touch now aid pk t hid s)) = Some upd"
    and touch_other: "invar s \<Longrightarrow> aid' \<noteq> aid \<Longrightarrow> get aid' (snd (touch now aid pk t hid s)) = get aid' s"
    and touch_fail: "fst (touch now aid pk t hid s) = None \<Longrightarrow> snd (touch now aid pk t hid s) = s"
    and revoke_get: "invar s \<Longrightarrow> get aid (revoke aid' s) =
      (if aid = aid' then map_option (\<lambda>a. a\<lparr>agent_status := AgentRevoked\<rparr>) (get aid s) else get aid s)"
    and revoke_by_host_get: "invar s \<Longrightarrow> get aid (revoke_by_host hid s) =
      map_option (\<lambda>a. if agent_host_id a = hid then a\<lparr>agent_status := AgentRevoked\<rparr> else a) (get aid s)"
begin

definition is_revoked :: "string \<Rightarrow> 's \<Rightarrow> bool" where
  "is_revoked aid s \<longleftrightarrow> (\<exists>a. get aid s = Some a \<and> agent_status a = AgentRevoked)"

lemma save_keeps_revoked:
  assumes "invar s" "is_revoked aid s"
  shows "is_revoked aid (snd (save a k s))"
proof (cases "aid = agent_id a")
  case False
  with assms show ?thesis by (auto simp: is_revoked_def save_other)
next
  case True
  obtain ex where ex: "get aid s = Some ex" "agent_status ex = AgentRevoked"
    using assms(2) by (auto simp: is_revoked_def)
  show ?thesis
  proof (cases "fst (save a k s)")
    case (Inl x)
    with assms(2) save_error show ?thesis by simp
  next
    case (Inr u)
    then have ok: "fst (save a k s) = Inr ()" by simp
    have "agent_status a = AgentRevoked"
      using save_revoked [OF assms(1), of a ex k] ex True ok by auto
    with save_get [OF assms(1) ok] ex True show ?thesis by (auto simp: is_revoked_def)
  qed
qed

lemma touch_keeps_revoked:
  assumes "invar s" "is_revoked aid s"
  shows "is_revoked aid (snd (touch now aid' pk t hid s))"
proof (cases "fst (touch now aid' pk t hid s)")
  case None
  with assms touch_fail show ?thesis by simp
next
  case (Some upd)
  from touch_cas [OF assms(1) Some] assms touch_other [OF assms(1), of aid aid'] show ?thesis
    by (cases "aid = aid'") (auto simp: is_revoked_def)
qed

lemma revoke_keeps_revoked: "invar s \<Longrightarrow> is_revoked aid s \<Longrightarrow> is_revoked aid (revoke aid' s)"
  by (auto simp: is_revoked_def revoke_get)

lemma revoke_by_host_keeps_revoked: "invar s \<Longrightarrow> is_revoked aid s \<Longrightarrow> is_revoked aid (revoke_by_host hid s)"
  by (auto simp only: is_revoked_def revoke_by_host_get option.map) (auto split: if_splits)

text \<open>Histories of a store.\<close>

inductive store_step :: "'s \<Rightarrow> 's \<Rightarrow> bool" where
  do_save: "store_step s (snd (save a k s))"
| do_touch: "store_step s (snd (touch now aid pk t hid s))"
| do_revoke: "store_step s (revoke aid s)"
| do_revoke_by_host: "store_step s (revoke_by_host hid s)"

lemma revoked_forever:
  assumes "store_step\<^sup>*\<^sup>* s s'" "invar s" "is_revoked aid s"
  shows "invar s' \<and> is_revoked aid s'"
  using assms
proof (induction rule: rtranclp_induct)
  case (step s1 s2)
  from step(2) show ?case
    by cases (use step in \<open>auto intro: invar_save invar_touch invar_revoke invar_revoke_by_host
        save_keeps_revoked touch_keeps_revoked revoke_keeps_revoked revoke_by_host_keeps_revoked\<close>)
qed simp

end

lemma agent_save_cases:
  assumes "rows_inv rows"
  obtains (err) x where "agent_save digest a k rows = (Inl x, rows)"
  | (ok) row where "agent_save digest a k rows = (Inr (), AList.update (agent_id a) row rows)" "agent_id row = agent_id a"
      "row = a \<or> (\<exists>ex. map_of rows (agent_id a) = Some ex \<and> row = ex\<lparr>agent_public_key := agent_public_key a\<rparr>)"
proof (cases "map_of rows (agent_id a)")
  case None
  then show ?thesis using ok by (simp add: agent_save_def Let_def split: option.splits)
next
  case (Some ex)
  have id: "agent_id ex = agent_id a" using assms Some by (simp add: rows_inv_def)
  show ?thesis
  proof (cases "agent_status ex = AgentRevoked \<and> agent_status a \<noteq> AgentRevoked")
    case True
    then show ?thesis using err Some by (simp add: agent_save_def Let_def)
  next
    case live: False
    show ?thesis
    proof (cases k)
      case None
      then show ?thesis using ok Some live by (auto simp: agent_save_def Let_def)
    next
      case k: (Some pk)
      show ?thesis
      proof (cases "cas_public_key_row digest ex a pk")
        case (Inl x)
        then show ?thesis using err Some live k by (auto simp: agent_save_def Let_def)
      next
        case (Inr row)
        with cas_public_key_row_Inr(1) [OF Inr] id Some live k show ?thesis
          by (intro ok [of row]) (auto simp: agent_save_def Let_def)
      qed
    qed
  qed
qed

interpretation agents: agent_store "jwk_thumbprint_sha256 digest" "agent_save digest"
  "touch_if_current digest" agent_get agent_revoke agent_revoke_by_host rows_inv
  for digest
proof (unfold_locales, goal_cases)
  case 1 then show ?case by (rule rows_inv_save)
next
  case 2 then show ?case by (rule rows_inv_touch)
next
  case 3 then show ?case by (rule rows_inv_revoke)
next
  case 4 then show ?case by (rule rows_inv_revoke_by_host)
next
  case 5 then show ?case by (simp add: rows_inv_def agent_get_def)
next
  case (6 s a k)
  from 6(1) show ?case
    by (rule agent_save_cases [of s digest a k]) (use 6(2) in \<open>auto simp: agent_get_def dict_simps\<close>)
next
  case (7 s aid a k)
  from 7(1) show ?case
    by (rule agent_save_cases [of s digest a k]) (use 7(2) in \<open>auto simp: agent_get_def dict_simps\<close>)
next
  case (8 a k s x)
  then show ?case by (auto simp: agent_save_def Let_def split: option.splits sum.splits if_splits)
next
  case (9 s a ex k)
  then show ?case by (simp add: agent_save_def Let_def agent_get_def)
next
  case (10 s a ex pk)
  then show ?case
    by (auto simp: agent_save_def Let_def agent_get_def split: sum.splits if_splits
        dest: cas_public_key_row_Inr(2))
next
  case (11 s now aid pk t hid upd)
  then obtain s' where "touch_if_current digest now aid pk t hid s = (Some upd, s')"
    by (cases "touch_if_current digest now aid pk t hid s") auto
  with touch_Some [OF this] show ?case by (auto simp: agent_get_def dict_simps)
next
  case (12 s aid' aid now pk t hid)
  then show ?case
    by (auto simp: touch_if_current_def Let_def agent_get_def dict_simps split: option.splits sum.splits)
next
  case (13 now aid pk t hid s)
  then show ?case
    using touch_None [of digest now aid pk t hid s] by (cases "touch_if_current digest now aid pk t hid s") auto
next
  case 14 then show ?case by (simp add: agent_get_def map_of_agent_revoke)
next
  case 15 then show ?case by (simp add: agent_get_def map_of_revoke_by_host)
qed

subsection \<open>Properties\<close>

text \<open>A host and an agent of it, for the concrete instances below.\<close>

definition sample_host :: host_identity where
  "sample_host = \<lparr>host_id = ''h'', host_name = None,
     host_public_key = [(''kty'', PStr ''oct''), (''k'', PStr ''x'')], host_user_id = None,
     default_capabilities = [], host_status = HostActive, host_created_at = 0, host_updated_at = 0\<rparr>"

definition sample_agent :: "agent_status \<Rightarrow> agent_session" where
  "sample_agent st = \<lparr>agent_id = ''a'', agent_host_id = ''h'',
     agent_public_key = [(''kty'', PStr ''oct''), (''k'', PStr ''y'')], agent_mode = Delegated, agent_status = st,
     session_ttl = None, max_lifetime = None, absolute_lifetime = None, activated_at = None,
     last_used_at = None, agent_created_at = 0\<rparr>"

text \<open>C5: an agent that is revoked stays revoked under every sequence of saves, touches, revocations
  and host revocations on the in-memory store, with whatever stale snapshots callers save.\<close>

theorem revoked_agents_stay_revoked:
  assumes "(agents.store_step digest)\<^sup>*\<^sup>* rows rows'" "rows_inv rows"
    and "agent_get aid rows = Some a" "agent_status a = AgentRevoked"
  shows "\<exists>a'. agent_get aid rows' = Some a' \<and> agent_status a' = AgentRevoked"
  using agents.revoked_forever [OF assms(1,2)] assms(3,4) by (auto simp: agents.is_revoked_def)

theorem revoked_agents_stay_revoked_witness:
  "\<exists>a'. agent_get ''a'' (agent_revoke_by_host ''h'' [(''a'', sample_agent AgentRevoked)]) = Some a' \<and>
     agent_status a' = AgentRevoked"
proof (rule revoked_agents_stay_revoked [where a = "sample_agent AgentRevoked"])
  show "(agents.store_step (\<lambda>_. []))\<^sup>*\<^sup>* [(''a'', sample_agent AgentRevoked)]
      (agent_revoke_by_host ''h'' [(''a'', sample_agent AgentRevoked)])"
    by (rule r_into_rtranclp) (rule agents.do_revoke_by_host)
qed (simp_all add: rows_inv_def agent_get_def sample_agent_def)

text \<open>Revoking a host revokes every agent of the host and no other agent, and the host is not
  found active again.\<close>

theorem host_revocation_cascades:
  assumes "host_get hid hs = Some h" "host_status h \<noteq> HostRevoked" "rows_inv rows"
    and "host_revoke now hid (hs, Some rows) = (hs', Some rows')"
  shows "(\<exists>h'. host_get hid hs' = Some h' \<and> host_status h' = HostRevoked) \<and>
    agent_get aid rows' =
      map_option (\<lambda>a. if agent_host_id a = hid then a\<lparr>agent_status := AgentRevoked\<rparr> else a) (agent_get aid rows)"
proof (rule conjI)
  have "hs' = hs\<lparr>hosts := AList.update hid (h\<lparr>host_status := HostRevoked, host_updated_at := now\<rparr>) (hosts hs)\<rparr>"
    "rows' = agent_revoke_by_host hid rows"
    using assms(1,2,4) by (simp_all add: host_revoke_def host_get_def)
  then show "\<exists>h'. host_get hid hs' = Some h' \<and> host_status h' = HostRevoked"
    "agent_get aid rows' =
      map_option (\<lambda>a. if agent_host_id a = hid then a\<lparr>agent_status := AgentRevoked\<rparr> else a) (agent_get aid rows)"
    using agents.revoke_by_host_get [OF assms(3), of aid hid] by (simp_all add: host_get_def dict_simps)
qed

theorem host_revocation_cascades_witness:
  "\<exists>h'. host_get ''h'' (fst (host_revoke 1 ''h'' (\<lparr>hosts = [(''h'', sample_host)], thumb_to_host_id = []\<rparr>,
      Some [(''a'', sample_agent AgentActive)]))) = Some h' \<and> host_status h' = HostRevoked"
  by (rule host_revocation_cascades [where hs = "\<lparr>hosts = [(''h'', sample_host)], thumb_to_host_id = []\<rparr>"
        and h = sample_host and rows = "[(''a'', sample_agent AgentActive)]" and now = 1, THEN conjunct1])
    (simp_all add: host_get_def rows_inv_def host_revoke_def sample_host_def sample_agent_def)

text \<open>Histories of a host store.\<close>

datatype host_op = SaveHost host_identity | RevokeHost datetime string

fun host_step :: "digest \<Rightarrow> host_op \<Rightarrow> host_store \<Rightarrow> host_store" where
  "host_step digest (SaveHost h) s = snd (host_save digest h s)"
| "host_step digest (RevokeHost now hid) s = fst (host_revoke now hid (s, None))"

lemma host_history_inv: "host_inv digest s \<Longrightarrow> host_inv digest (fold (host_step digest) ops s)"
proof (induction ops arbitrary: s)
  case (Cons opn ops)
  have "host_inv digest (host_step digest opn s)"
    using Cons.prems host_save_inv host_revoke_inv [of digest "(s, None)"] by (cases opn) auto
  with Cons.IH show ?case by simp
qed simp

text \<open>The thumbprint index of the host store is never stale: after any saves and revocations, in
  which keys may be rotated and rejected, a host found by a thumbprint has a key with that thumbprint.\<close>

theorem host_index_never_stale:
  assumes "host_get_by_public_key tp (fold (host_step digest) ops host_store_init) = Some h"
  shows "jwk_thumbprint_sha256 digest (host_public_key h) = Inr tp \<and>
    host_get (host_id h) (fold (host_step digest) ops host_store_init) = Some h"
proof (rule conjI)
  let ?s = "fold (host_step digest) ops host_store_init"
  have inv: "host_inv digest ?s" by (rule host_history_inv [OF host_inv_init])
  obtain hid where hid: "map_of (thumb_to_host_id ?s) tp = Some hid" "map_of (hosts ?s) hid = Some h"
    using assms by (auto simp: host_get_by_public_key_def split: option.splits)
  with inv obtain h' where "map_of (hosts ?s) hid = Some h'" "jwk_thumbprint_sha256 digest (host_public_key h') = Inr tp"
    unfolding host_inv_def by blast
  with hid inv show "jwk_thumbprint_sha256 digest (host_public_key h) = Inr tp" "host_get (host_id h) ?s = Some h"
    by (simp_all add: host_inv_def host_get_def)
qed

theorem host_index_never_stale_witness:
  "host_get ''h'' (fold (host_step (\<lambda>d. ''tp'')) [SaveHost sample_host] host_store_init) = Some sample_host"
  using host_index_never_stale [of "''tp''" "\<lambda>d. ''tp''" "[SaveHost sample_host]"]
  by (simp add: host_save_def host_store_init_def jwk_thumbprint_sha256_def required_members_def member_def
      host_get_by_public_key_def sample_host_def)

end
