(* ===== verification/Envelope.thy ===== *)
theory Envelope
  imports Asap_Prelude
begin

text \<open>
  The message envelope (\<open>src/asap/models/envelope.py\<close>) and the agent URN check
  (\<open>src/asap/models/validators.py\<close>, pattern in \<open>src/asap/models/constants.py\<close>). The payload is the
  dictionary it is parsed from; the payload classes are not modelled.
\<close>

subsection \<open>Agent URNs\<close>

definition MAX_URN_LENGTH :: nat where
  "MAX_URN_LENGTH = 256"

text \<open>The character class \<open>[a-z0-9-]\<close>.\<close>

definition urn_char :: "char \<Rightarrow> bool" where
  "urn_char c = (let n = of_char c :: nat in (97 \<le> n \<and> n \<le> 122) \<or> (48 \<le> n \<and> n \<le> 57) \<or> n = 45)"

definition urn_prefix :: string where
  "urn_prefix = ''urn:asap:agent:''"

text \<open>\<open>$\<close> without the flag \<open>MULTILINE\<close>: at the end, or before a newline at the end.\<close>

definition re_end :: "string \<Rightarrow> bool" where
  "re_end s \<longleftrightarrow> s = [] \<or> s = [CHR 0x0A]"

text \<open>\<open>re.match\<close> with \<open>^urn:asap:agent:[a-z0-9-]+(?::[a-z0-9-]+)?$\<close>. The colon is not in the
  class, so the greedy choice of each repetition is the only one that can lead to a match.\<close>

definition agent_urn_match :: "string \<Rightarrow> bool" where
  "agent_urn_match s =
     (starts_with s urn_prefix \<and>
      (let r = drop (length urn_prefix) s;
           name = takeWhile urn_char r;
           r1 = dropWhile urn_char r
       in name \<noteq> [] \<and>
          (re_end r1 \<or>
           (r1 \<noteq> [] \<and> hd r1 = CHR '':'' \<and>
            takeWhile urn_char (tl r1) \<noteq> [] \<and> re_end (dropWhile urn_char (tl r1))))))"

definition validate_agent_urn :: "string \<Rightarrow> py_exn + string" where
  "validate_agent_urn v =
     (if length v > MAX_URN_LENGTH then Inl (ValueError ''Agent URN must be at most 256 characters'')
      else if \<not> agent_urn_match v then Inl (ValueError ''Agent ID must follow URN format'')
      else Inr v)"

subsection \<open>The envelope\<close>

text \<open>A \<open>datetime\<close> is naive (no zone) or aware (local time and offset, in microseconds).\<close>

datatype py_datetime = Naive int | Aware int int

text \<open>\<open>replace(tzinfo=utc)\<close> for a naive value, \<open>astimezone(utc)\<close> for an aware one.\<close>

fun to_utc :: "py_datetime \<Rightarrow> datetime" where
  "to_utc (Naive t) = t"
| "to_utc (Aware t offset) = t - offset"

record envelope =
  env_id :: "string option"
  asap_version :: string
  env_timestamp :: "py_datetime option"
  sender :: string
  recipient :: string
  payload_type :: string
  payload :: pydict
  correlation_id :: "string option"
  trace_id :: "string option"
  requires_ack :: bool
  extensions :: "pydict option"

definition normalize_payload_type :: "string \<Rightarrow> string" where
  "normalize_payload_type pt = filter py_isalnum (lower pt)"

definition CORRELATION_REQUIRED_PAYLOAD_KEYS :: "string set" where
  "CORRELATION_REQUIRED_PAYLOAD_KEYS =
     {''taskresponse'', ''taskstream'', ''mcptoolresult'', ''mcpresourcedata''}"

definition validate_response_correlation :: "envelope \<Rightarrow> py_exn + envelope" where
  "validate_response_correlation e =
     (if normalize_payload_type (payload_type e) \<in> CORRELATION_REQUIRED_PAYLOAD_KEYS \<and>
         (correlation_id e = None \<or> correlation_id e = Some [])
      then Inl (ValueError ''must have correlation_id for request tracking'')
      else Inr e)"

text \<open>Construction: missing id and timestamp are generated (\<open>new_id\<close>, \<open>now\<close>), both URNs are
  checked, then the correlation rule.\<close>

definition make_envelope :: "string \<Rightarrow> datetime \<Rightarrow> envelope \<Rightarrow> py_exn + envelope" where
  "make_envelope new_id now e =
     (let e1 = e\<lparr>env_id := Some (case env_id e of None \<Rightarrow> new_id | Some i \<Rightarrow> i),
                 env_timestamp := Some (case env_timestamp e of None \<Rightarrow> Aware now 0 | Some t \<Rightarrow> t)\<rparr>
      in case validate_agent_urn (sender e1) of
           Inl x \<Rightarrow> Inl x
         | Inr _ \<Rightarrow> (case validate_agent_urn (recipient e1) of
             Inl x \<Rightarrow> Inl x
           | Inr _ \<Rightarrow> validate_response_correlation e1))"

subsection \<open>The language of the URN pattern\<close>

lemma starts_with_iff: "starts_with s p \<longleftrightarrow> (\<exists>r. s = p @ r)"
  unfolding starts_with_def by (metis append_eq_conv_conj append_take_drop_id)

lemma takeWhile_all_append:
  "\<forall>c \<in> set a. P c \<Longrightarrow> (r = [] \<or> \<not> P (hd r)) \<Longrightarrow> takeWhile P (a @ r) = a \<and> dropWhile P (a @ r) = r"
  by (induction a) (cases r; auto)+

lemma re_end_not_urn_char: "re_end r \<Longrightarrow> r = [] \<or> \<not> urn_char (hd r)"
  by (auto simp: re_end_def urn_char_def)

lemma urn_char_colon [simp]: "\<not> urn_char (CHR '':'')"
  by (simp add: urn_char_def)

lemma agent_urn_match_iff:
  "agent_urn_match s \<longleftrightarrow>
     (\<exists>name tl nl. s = urn_prefix @ name @ tl @ nl \<and> name \<noteq> [] \<and> (\<forall>c \<in> set name. urn_char c) \<and>
       (tl = [] \<or> (\<exists>sub. tl = CHR '':'' # sub \<and> sub \<noteq> [] \<and> (\<forall>c \<in> set sub. urn_char c))) \<and>
       re_end nl)" (is "_ \<longleftrightarrow> ?R")
proof
  assume m: "agent_urn_match s"
  define r where "r = drop (length urn_prefix) s"
  define name where "name = takeWhile urn_char r"
  define r1 where "r1 = dropWhile urn_char r"
  have s: "s = urn_prefix @ name @ r1"
    using m unfolding agent_urn_match_def starts_with_iff r_def name_def r1_def by auto
  have name: "name \<noteq> []" "\<forall>c \<in> set name. urn_char c"
    using m unfolding agent_urn_match_def name_def r_def by (auto simp: Let_def dest: set_takeWhileD)
  from m have alt: "re_end r1 \<or> (r1 \<noteq> [] \<and> hd r1 = CHR '':'' \<and>
      takeWhile urn_char (tl r1) \<noteq> [] \<and> re_end (dropWhile urn_char (tl r1)))"
    unfolding agent_urn_match_def r1_def r_def by (simp add: Let_def)
  show ?R
  proof (cases "re_end r1")
    case True
    with s name show ?thesis by (intro exI [of _ name] exI [of _ "[]"] exI [of _ r1]) simp
  next
    case False
    let ?sub = "takeWhile urn_char (tl r1)" and ?nl = "dropWhile urn_char (tl r1)"
    from False alt have r1: "r1 = CHR '':'' # ?sub @ ?nl" and sub: "?sub \<noteq> []" and nl: "re_end ?nl"
      by (cases r1; simp)+
    show ?thesis
    proof (intro exI conjI)
      show "s = urn_prefix @ name @ (CHR '':'' # ?sub) @ ?nl" using s r1 by simp
    qed (use name sub nl in \<open>auto dest: set_takeWhileD\<close>)
  qed
next
  assume ?R
  then obtain name tl nl where s: "s = urn_prefix @ name @ tl @ nl" and name: "name \<noteq> []" "\<forall>c \<in> set name. urn_char c"
    and tl: "tl = [] \<or> (\<exists>sub. tl = CHR '':'' # sub \<and> sub \<noteq> [] \<and> (\<forall>c \<in> set sub. urn_char c))"
    and nl: "re_end nl" by blast
  have stop: "tl @ nl = [] \<or> \<not> urn_char (hd (tl @ nl))"
    using tl re_end_not_urn_char [OF nl] by (auto simp: urn_char_def)
  note tw = takeWhile_all_append [OF name(2) stop]
  have start: "starts_with s urn_prefix" unfolding starts_with_iff using s by blast
  from tl show "agent_urn_match s"
  proof
    assume "tl = []"
    with s tw name start nl show ?thesis by (simp add: agent_urn_match_def Let_def)
  next
    assume "\<exists>sub. tl = CHR '':'' # sub \<and> sub \<noteq> [] \<and> (\<forall>c \<in> set sub. urn_char c)"
    then obtain sub where sub: "tl = CHR '':'' # sub" "sub \<noteq> []" "\<forall>c \<in> set sub. urn_char c" by blast
    with s tw name start nl takeWhile_all_append [OF sub(3) re_end_not_urn_char [OF nl]]
    show ?thesis by (simp add: agent_urn_match_def Let_def)
  qed
qed

lemma make_envelope_valid:
  assumes "make_envelope new_id now e = Inr e'"
  shows "env_id e' \<noteq> None" "env_timestamp e' \<noteq> None"
    "agent_urn_match (sender e')" "agent_urn_match (recipient e')"
    "normalize_payload_type (payload_type e') \<in> CORRELATION_REQUIRED_PAYLOAD_KEYS \<Longrightarrow>
       \<exists>c. correlation_id e' = Some c \<and> c \<noteq> []"
  using assms
  by (auto simp: make_envelope_def Let_def validate_agent_urn_def validate_response_correlation_def
      split: sum.splits if_splits)

subsection \<open>Properties\<close>

text \<open>The agent identifiers the validator accepts are exactly \<open>urn:asap:agent:\<close>, a name and an
  optional \<open>:\<close> and second name, over lower case letters, digits and hyphens, of at most 256
  characters in all; or such an identifier followed by one newline, because \<open>$\<close> matches there.\<close>

theorem accepted_agent_urns:
  "validate_agent_urn s = Inr s \<longleftrightarrow> length s \<le> 256 \<and>
     (\<exists>name tl nl. s = ''urn:asap:agent:'' @ name @ tl @ nl \<and> name \<noteq> [] \<and> (\<forall>c \<in> set name. urn_char c) \<and>
       (tl = [] \<or> (\<exists>sub. tl = CHR '':'' # sub \<and> sub \<noteq> [] \<and> (\<forall>c \<in> set sub. urn_char c))) \<and>
       (nl = [] \<or> nl = [CHR 0x0A]))"
  using agent_urn_match_iff [of s]
  by (simp add: validate_agent_urn_def MAX_URN_LENGTH_def urn_prefix_def re_end_def)

theorem accepted_agent_urns_witness:
  "validate_agent_urn (''urn:asap:agent:a:b-1'' @ [CHR 0x0A]) = Inr (''urn:asap:agent:a:b-1'' @ [CHR 0x0A])"
proof -
  have "\<exists>name tl nl. ''urn:asap:agent:a:b-1'' @ [CHR 0x0A] = ''urn:asap:agent:'' @ name @ tl @ nl \<and> name \<noteq> [] \<and>
      (\<forall>c \<in> set name. urn_char c) \<and> (tl = [] \<or> (\<exists>sub. tl = CHR '':'' # sub \<and> sub \<noteq> [] \<and> (\<forall>c \<in> set sub. urn_char c))) \<and>
      (nl = [] \<or> nl = [CHR 0x0A])"
    by (intro exI [of _ "''a''"] exI [of _ "'':b-1''"] exI [of _ "[CHR 0x0A]"]) (simp add: urn_char_def)
  then show ?thesis by (subst accepted_agent_urns) simp
qed

text \<open>An envelope that is built has an identifier and a timestamp, valid sender and recipient
  identifiers, and a correlation identifier when it carries a response; every other input with
  valid identifiers is built, with the caller's fields kept.\<close>

theorem built_envelopes_valid:
  "make_envelope new_id now e = Inr e' \<Longrightarrow>
     env_id e' \<noteq> None \<and> env_timestamp e' \<noteq> None \<and> agent_urn_match (sender e') \<and> agent_urn_match (recipient e') \<and>
     (normalize_payload_type (payload_type e') \<in> CORRELATION_REQUIRED_PAYLOAD_KEYS \<longrightarrow>
        (\<exists>c. correlation_id e' = Some c \<and> c \<noteq> [])) \<and>
     e' = e\<lparr>env_id := env_id e', env_timestamp := env_timestamp e'\<rparr> \<and>
     make_envelope new_id' now' e' = Inr e'"
  by (auto simp: make_envelope_def Let_def validate_agent_urn_def validate_response_correlation_def
      split: sum.splits if_splits option.splits)

theorem built_envelopes_valid_witness:
  "make_envelope ''j'' 9 \<lparr>env_id = Some ''i'', asap_version = ''0.1'', env_timestamp = Some (Aware 5 0),
     sender = ''urn:asap:agent:a'', recipient = ''urn:asap:agent:b'', payload_type = ''task.request'',
     payload = [], correlation_id = None, trace_id = None, requires_ack = False, extensions = None\<rparr> =
   Inr \<lparr>env_id = Some ''i'', asap_version = ''0.1'', env_timestamp = Some (Aware 5 0),
     sender = ''urn:asap:agent:a'', recipient = ''urn:asap:agent:b'', payload_type = ''task.request'',
     payload = [], correlation_id = None, trace_id = None, requires_ack = False, extensions = None\<rparr>"
  by (rule built_envelopes_valid [where new_id = "''i''" and now = 5 and e = "\<lparr>env_id = None, asap_version = ''0.1'', env_timestamp = None,
     sender = ''urn:asap:agent:a'', recipient = ''urn:asap:agent:b'', payload_type = ''task.request'',
     payload = [], correlation_id = None, trace_id = None, requires_ack = False, extensions = None\<rparr>",
     THEN conjunct2, THEN conjunct2, THEN conjunct2, THEN conjunct2, THEN conjunct2, THEN conjunct2])
    (simp add: make_envelope_def validate_agent_urn_def MAX_URN_LENGTH_def agent_urn_match_def starts_with_def
      urn_prefix_def urn_char_def re_end_def validate_response_correlation_def normalize_payload_type_def
      CORRELATION_REQUIRED_PAYLOAD_KEYS_def lower_def lower_char_def py_isalnum_def)

subsection \<open>A sample\<close>

definition sample_env :: envelope where
  "sample_env = \<lparr>env_id = Some ''i'', asap_version = ''0.1'', env_timestamp = Some (Aware 0 0), sender = ''urn:asap:agent:a'',
     recipient = ''urn:asap:agent:b'', payload_type = ''task.request'', payload = [], correlation_id = None, trace_id = None,
     requires_ack = False, extensions = Some [(''nonce'', PStr ''n1'')]\<rparr>"

lemma sample_urns [simp]: "validate_agent_urn ''urn:asap:agent:a'' = Inr ''urn:asap:agent:a''" "validate_agent_urn ''urn:asap:agent:b'' = Inr ''urn:asap:agent:b''"
  by (simp_all add: validate_agent_urn_def MAX_URN_LENGTH_def agent_urn_match_def starts_with_def urn_prefix_def urn_char_def re_end_def)

lemma sample_make_envelope: "make_envelope j t sample_env = Inr sample_env"
  by (simp add: make_envelope_def sample_env_def validate_response_correlation_def normalize_payload_type_def
      CORRELATION_REQUIRED_PAYLOAD_KEYS_def lower_def lower_char_def py_isalnum_def)

end
