(* ===== verification/Replay_Guard.thy ===== *)
theory Replay_Guard
  imports Envelope
begin

text \<open>
  Replay protection: the \<open>jti\<close> cache of \<open>src/asap/auth/agent_jwt.py\<close>, the Redis variant of
  \<open>src/asap/auth/jti_replay_cache.py\<close>, and the envelope validation of
  \<open>src/asap/transport/validators.py\<close> (timestamp window and nonce store). Redis is not part of the
  repository: its \<open>EXISTS\<close> and \<open>SET NX EX\<close> are arguments.
\<close>

subsection \<open>The jti cache\<close>

type_synonym jti_key = "string \<times> string"

record jti_cache =
  jc_ttl :: rat
  jc_max_size :: int
  expiry_by_key :: "(jti_key, rat) dict"

definition jc_init :: "rat \<Rightarrow> int \<Rightarrow> jti_cache" where
  "jc_init ttl maxsize = \<lparr>jc_ttl = ttl, jc_max_size = maxsize, expiry_by_key = []\<rparr>"

definition jti_blank :: "string \<Rightarrow> bool" where
  "jti_blank jti \<longleftrightarrow> jti = [] \<or> strip jti = []"

definition prune_expired :: "rat \<Rightarrow> (jti_key, rat) dict \<Rightarrow> (jti_key, rat) dict" where
  "prune_expired now d =
     (let dead = map fst (filter (\<lambda>(k, e). e \<le> now) d) in fold AList.delete dead d)"

text \<open>\<open>min(d, key=lambda k: d[k])\<close>: the first key with the least expiry.\<close>

fun oldest_key :: "'k \<Rightarrow> rat \<Rightarrow> ('k, rat) dict \<Rightarrow> 'k" where
  "oldest_key k e [] = k"
| "oldest_key k e ((k', e') # d) = (if e' < e then oldest_key k' e' d else oldest_key k e d)"

lemma oldest_key_in: "oldest_key k e d \<in> insert k (set (map fst d))"
  by (induction k e d rule: oldest_key.induct) auto

lemma length_delete_less: "k \<in> set (map fst d) \<Longrightarrow> length (AList.delete k d) < length d"
proof -
  assume "k \<in> set (map fst d)"
  then obtain v where "(k, v) \<in> set d" by auto
  then show ?thesis
    unfolding AList.delete_eq by (rule length_filter_less) simp
qed

text \<open>\<open>_evict_to_max_size\<close>. With a negative bound the loop ends in \<open>min()\<close> of nothing.\<close>

function evict_to_max_size :: "int \<Rightarrow> ('k, rat) dict \<Rightarrow> (('k, rat) dict, py_exn, unit) outcome" where
  "evict_to_max_size maxsize d =
     (if int (length d) > maxsize then
        (case d of
           [] \<Rightarrow> (Inl (ValueError ''min() iterable argument is empty''), d)
         | (k, e) # rest \<Rightarrow> evict_to_max_size maxsize (AList.delete (oldest_key k e rest) d))
      else (Inr (), d))"
  by pat_completeness auto

termination
proof (relation "measure (\<lambda>(m, d). length d)")
  fix maxsize :: int and d rest :: "('k, rat) dict" and p k e
  assume "d = p # rest" "(k, e) = p"
  then have "oldest_key k e rest \<in> set (map fst d)" using oldest_key_in [of k e rest] by auto
  from length_delete_less [OF this]
  show "((maxsize, AList.delete (oldest_key k e rest) d), maxsize, d) \<in> measure (\<lambda>(m, d). length d)"
    by simp
qed simp

declare evict_to_max_size.simps [simp del]

definition jc_contains :: "rat \<Rightarrow> string \<Rightarrow> string \<Rightarrow> jti_cache \<Rightarrow> bool \<times> jti_cache" where
  "jc_contains now partition_key jti c =
     (if jti_blank jti then (False, c)
      else (let d = prune_expired now (expiry_by_key c) in
            (case map_of d (partition_key, jti) of None \<Rightarrow> False | Some e \<Rightarrow> now < e,
             c\<lparr>expiry_by_key := d\<rparr>)))"

definition jc_check_and_record ::
  "rat \<Rightarrow> string \<Rightarrow> string \<Rightarrow> jti_cache \<Rightarrow> (jti_cache, py_exn, bool) outcome" where
  "jc_check_and_record now partition_key jti c =
     (if jti_blank jti then (Inr False, c)
      else (let d = prune_expired now (expiry_by_key c);
                key = (partition_key, jti);
                live = (case map_of d key of None \<Rightarrow> False | Some e \<Rightarrow> now < e)
            in if live then (Inr False, c\<lparr>expiry_by_key := d\<rparr>)
               else (case evict_to_max_size (jc_max_size c) (AList.update key (now + jc_ttl c) d) of
                       (Inl x, d') \<Rightarrow> (Inl x, c\<lparr>expiry_by_key := d'\<rparr>)
                     | (Inr u, d') \<Rightarrow> (Inr True, c\<lparr>expiry_by_key := d'\<rparr>))))"

subsection \<open>The Redis variant\<close>

definition redis_key :: "string \<Rightarrow> string \<Rightarrow> string \<Rightarrow> string" where
  "redis_key prefix partition_key jti = prefix @ '':'' @ partition_key @ '':'' @ jti"

definition redis_contains ::
  "(string \<Rightarrow> 'r \<Rightarrow> bool) \<Rightarrow> string \<Rightarrow> string \<Rightarrow> string \<Rightarrow> 'r \<Rightarrow> bool" where
  "redis_contains rexists prefix partition_key jti r =
     (if jti_blank jti then False else rexists (redis_key prefix partition_key jti) r)"

definition redis_check_and_record ::
  "(string \<Rightarrow> int \<Rightarrow> 'r \<Rightarrow> bool \<times> 'r) \<Rightarrow> rat \<Rightarrow> string \<Rightarrow> string \<Rightarrow> string \<Rightarrow> 'r \<Rightarrow> bool \<times> 'r" where
  "redis_check_and_record rset_nx ttl prefix partition_key jti r =
     (if jti_blank jti then (False, r)
      else rset_nx (redis_key prefix partition_key jti) (max 1 (py_trunc ttl)) r)"

subsection \<open>Envelope timestamps\<close>

definition MAX_ENVELOPE_AGE_SECONDS :: int where
  "MAX_ENVELOPE_AGE_SECONDS = 300"

definition MAX_FUTURE_TOLERANCE_SECONDS :: int where
  "MAX_FUTURE_TOLERANCE_SECONDS = 30"

definition NONCE_TTL_SECONDS :: int where
  "NONCE_TTL_SECONDS = MAX_ENVELOPE_AGE_SECONDS * 2"

datatype envelope_error =
    TimestampRequired
  | TimestampTooOld int
  | TimestampTooFarInFuture int
  | NonceMalformed
  | NonceDuplicate string

text \<open>Times are in microseconds; \<open>total_seconds()\<close> compares as the exact quotient.\<close>

definition validate_envelope_timestamp :: "datetime \<Rightarrow> envelope \<Rightarrow> envelope_error + unit" where
  "validate_envelope_timestamp now e =
     (case env_timestamp e of
        None \<Rightarrow> Inl TimestampRequired
      | Some t \<Rightarrow>
          (let age = now - to_utc t; future = to_utc t - now in
           if age > MAX_ENVELOPE_AGE_SECONDS * 1000000 then Inl (TimestampTooOld age)
           else if future > MAX_FUTURE_TOLERANCE_SECONDS * 1000000 then Inl (TimestampTooFarInFuture future)
           else Inr ()))"

subsection \<open>The nonce store\<close>

type_synonym nonce_store = "(string, rat) dict"

definition CLEANUP_PROBABILITY :: rat where
  "CLEANUP_PROBABILITY = 5 / 100"

definition MAX_NONCE_STORE_SIZE :: nat where
  "MAX_NONCE_STORE_SIZE = 50000"

text \<open>\<open>rnd\<close> is the random draw, \<open>now\<close> the clock read after it.\<close>

definition cleanup_expired :: "rat \<Rightarrow> rat \<Rightarrow> nonce_store \<Rightarrow> nonce_store" where
  "cleanup_expired rnd now s =
     (if length s \<le> MAX_NONCE_STORE_SIZE \<and> rnd \<ge> CLEANUP_PROBABILITY then s
      else (let expired = map fst (filter (\<lambda>(n, e). e < now) s) in fold AList.delete expired s))"

text \<open>The three readings of the clock: by the cleanup, by the check, for the new expiry.\<close>

record nonce_clock =
  nc_rnd :: rat
  nc_cleanup :: rat
  nc_check :: rat
  nc_mark :: rat

definition check_and_mark :: "nonce_clock \<Rightarrow> string \<Rightarrow> int \<Rightarrow> nonce_store \<Rightarrow> bool \<times> nonce_store" where
  "check_and_mark c nonce ttl s =
     (let s1 = cleanup_expired (nc_rnd c) (nc_cleanup c) s in
      if (case map_of s1 nonce of None \<Rightarrow> False | Some e \<Rightarrow> nc_check c \<le> e) then (True, s1)
      else (False, AList.update nonce (nc_mark c + of_int ttl) s1))"

text \<open>Validation of the nonce; no store means no validation.\<close>

definition validate_envelope_nonce ::
  "nonce_clock \<Rightarrow> envelope \<Rightarrow> nonce_store option \<Rightarrow> (nonce_store option, envelope_error, unit) outcome" where
  "validate_envelope_nonce c e store =
     (case store of
        None \<Rightarrow> (Inr (), store)
      | Some s \<Rightarrow>
          (case extensions e of
             None \<Rightarrow> (Inr (), store)
           | Some ext \<Rightarrow>
               (case map_of ext ''nonce'' of
                  None \<Rightarrow> (Inr (), store)
                | Some v \<Rightarrow>
                    (case v of
                       PStr n \<Rightarrow>
                         if n = [] then (Inl NonceMalformed, store)
                         else (let (dup, s1) = check_and_mark c n NONCE_TTL_SECONDS s
                               in if dup then (Inl (NonceDuplicate n), Some s1) else (Inr (), Some s1))
                     | _ \<Rightarrow> (Inl NonceMalformed, store)))))"

text \<open>Both checks in the order of the request handler: timestamp, then nonce.\<close>

definition validate_envelope ::
  "datetime \<Rightarrow> nonce_clock \<Rightarrow> envelope \<Rightarrow> nonce_store option \<Rightarrow> (nonce_store option, envelope_error, unit) outcome" where
  "validate_envelope now c e store =
     (case validate_envelope_timestamp now e of
        Inl x \<Rightarrow> (Inl x, store)
      | Inr u \<Rightarrow> validate_envelope_nonce c e store)"

subsection \<open>The jti cache under its invariant\<close>

text \<open>Entries are recorded with one lifetime and at growing times, so the dictionary is sorted by
  expiry: pruning removes a prefix and eviction removes from the front.\<close>

definition jc_inv :: "rat \<Rightarrow> jti_cache \<Rightarrow> bool" where
  "jc_inv t c \<longleftrightarrow> wf_dict (expiry_by_key c) \<and> sorted (map snd (expiry_by_key c)) \<and>
     (\<forall>e \<in> set (map snd (expiry_by_key c)). e \<le> t + jc_ttl c) \<and>
     1 \<le> jc_max_size c \<and> int (length (expiry_by_key c)) \<le> jc_max_size c"

lemma jc_inv_init: "1 \<le> m \<Longrightarrow> jc_inv t (jc_init ttl m)"
  by (simp add: jc_inv_def jc_init_def)

lemma prune_expired_eq: "wf_dict d \<Longrightarrow> prune_expired now d = filter (\<lambda>(k, e). now < e) d"
  using fold_delete_dead [of d "\<lambda>k e. e \<le> now"]
  by (simp add: prune_expired_def Let_def not_le)

lemma oldest_key_sorted: "sorted (e # map snd d) \<Longrightarrow> oldest_key k e d = k"
  by (induction k e d rule: oldest_key.induct) auto

lemma evict_sorted:
  "0 \<le> m \<Longrightarrow> wf_dict d \<Longrightarrow> sorted (map snd d) \<Longrightarrow>
     evict_to_max_size m d = (Inr (), drop (length d - nat m) d)"
proof (induction m d rule: evict_to_max_size.induct)
  case (1 m d)
  show ?case
  proof (cases "int (length d) > m")
    case False
    then have "length d - nat m = 0" using 1(2) by simp
    with False show ?thesis by (subst evict_to_max_size.simps) simp
  next
    case True
    with 1(2) obtain k e rest where d: "d = (k, e) # rest" by (cases d) auto
    have del: "AList.delete (oldest_key k e rest) d = rest"
      using 1(3,4) d by (simp add: oldest_key_sorted delete_idem)
    have "evict_to_max_size m d = evict_to_max_size m rest"
      using True d del by (subst evict_to_max_size.simps) simp
    also have "\<dots> = (Inr (), drop (length rest - nat m) rest)"
      using 1(1) [OF True d refl] 1(2-4) d del by simp
    also have "drop (length rest - nat m) rest = drop (length d - nat m) d"
      using True d 1(2) by (simp add: Suc_diff_le nat_le_iff)
    finally show ?thesis .
  qed
qed

text \<open>What a call does, in one equation.\<close>

lemma jc_check_eq:
  assumes "jc_inv t c" "t \<le> now" "\<not> jti_blank jti"
  shows "jc_check_and_record now p jti c =
    (let d = filter (\<lambda>(k, e). now < e) (expiry_by_key c) in
     if map_of d (p, jti) \<noteq> None then (Inr False, c\<lparr>expiry_by_key := d\<rparr>)
     else (Inr True, c\<lparr>expiry_by_key :=
       drop (Suc (length d) - nat (jc_max_size c)) (d @ [((p, jti), now + jc_ttl c)])\<rparr>))"
proof -
  let ?d = "filter (\<lambda>(k, e). now < e) (expiry_by_key c)"
  let ?new = "?d @ [((p, jti), now + jc_ttl c)]"
  have wf: "wf_dict (expiry_by_key c)" using assms(1) by (simp add: jc_inv_def)
  have live: "(case map_of ?d (p, jti) of None \<Rightarrow> False | Some e \<Rightarrow> now < e) \<longleftrightarrow> map_of ?d (p, jti) \<noteq> None"
    using map_of_filter_snd [OF wf, of "\<lambda>k e. now < e" "(p, jti)"] by (auto split: option.splits if_splits)
  have "evict_to_max_size (jc_max_size c) ?new = (Inr (), drop (length ?new - nat (jc_max_size c)) ?new)"
    if "map_of ?d (p, jti) = None"
  proof (rule evict_sorted)
    show "0 \<le> jc_max_size c" using assms(1) by (simp add: jc_inv_def)
    show "wf_dict ?new"
      using wf_dict_filter [OF wf, of "\<lambda>(k, e). now < e"] that
      by (simp add: map_of_eq_None_iff)
    have "\<forall>e \<in> set (map snd (expiry_by_key c)). e \<le> now + jc_ttl c"
      using assms(1,2) by (force simp: jc_inv_def)
    moreover have "sorted (map snd ?d)"
      using assms(1) by (auto simp: jc_inv_def intro: sorted_filter)
    ultimately show "sorted (map snd ?new)" by (auto simp: sorted_append)
  qed
  then show ?thesis
    using assms(3) live by (simp add: jc_check_and_record_def prune_expired_eq [OF wf] Let_def update_append_new)
qed

lemma jc_check_inv:
  assumes "jc_inv t c" "t \<le> now"
  shows "jc_inv now (snd (jc_check_and_record now p jti c))"
proof (cases "jti_blank jti")
  case True
  with assms show ?thesis by (force simp: jc_check_and_record_def jc_inv_def)
next
  case False
  let ?d = "filter (\<lambda>(k, e). now < e) (expiry_by_key c)"
  let ?new = "?d @ [((p, jti), now + jc_ttl c)]"
  have wf: "wf_dict ?d" using assms(1) by (simp add: jc_inv_def wf_dict_filter)
  have srt: "sorted (map snd ?d)" using assms(1) by (auto simp: jc_inv_def intro: sorted_filter)
  have bound: "\<forall>e \<in> set (map snd ?d). e \<le> now + jc_ttl c" using assms by (force simp: jc_inv_def)
  have len: "int (length ?d) \<le> jc_max_size c"
    using assms(1) length_filter_le [of "\<lambda>(k, e). now < e" "expiry_by_key c"]
    unfolding jc_inv_def by linarith
  show ?thesis
  proof (cases "map_of ?d (p, jti)")
    case (Some e)
    with False assms wf srt bound len show ?thesis
      by (simp add: jc_check_eq [OF assms False] jc_inv_def)
  next
    case None
    let ?n = "Suc (length ?d) - nat (jc_max_size c)"
    have "wf_dict ?new" using wf None by (simp add: map_of_eq_None_iff)
    then have "wf_dict (drop ?n ?new)" by (rule wf_dict_drop)
    moreover have "sorted (map snd (drop ?n ?new))"
      using srt bound by (simp only: drop_map [symmetric], intro sorted_wrt_drop) (simp add: sorted_append)
    moreover have "\<forall>e \<in> set (map snd (drop ?n ?new)). e \<le> now + jc_ttl c"
      using bound by (auto dest!: in_set_dropD)
    moreover have "int (length (drop ?n ?new)) \<le> jc_max_size c"
    proof -
      have "length ?new = Suc (length ?d)" by simp
      then have "length (drop ?n ?new) \<le> nat (jc_max_size c)" by (simp only: length_drop)
      then show ?thesis using assms(1) unfolding jc_inv_def by linarith
    qed
    moreover have "snd (jc_check_and_record now p jti c) = c\<lparr>expiry_by_key := drop ?n ?new\<rparr>"
      using None by (simp add: jc_check_eq [OF assms False] Let_def)
    ultimately show ?thesis
      using assms(1) by (simp add: jc_inv_def del: drop_append set_map length_drop)
  qed
qed

lemma jc_check_config [simp]:
  "jc_ttl (snd (jc_check_and_record now p j c)) = jc_ttl c"
  "jc_max_size (snd (jc_check_and_record now p j c)) = jc_max_size c"
  by (simp_all add: jc_check_and_record_def Let_def split: prod.splits sum.splits)

text \<open>An entry with \<open>n\<close> entries recorded after it.\<close>

definition jc_holds :: "jti_key \<Rightarrow> rat \<Rightarrow> nat \<Rightarrow> jti_cache \<Rightarrow> bool" where
  "jc_holds key e n c \<longleftrightarrow> (\<exists>pre post. expiry_by_key c = pre @ (key, e) # post \<and> length post \<le> n)"

lemma jc_holds_new:
  assumes "jc_inv t c" "t \<le> now" "fst (jc_check_and_record now p jti c) = Inr True"
  shows "jc_holds (p, jti) (now + jc_ttl c) 0 (snd (jc_check_and_record now p jti c))"
proof -
  have nb: "\<not> jti_blank jti" using assms(3) by (auto simp: jc_check_and_record_def)
  let ?d = "filter (\<lambda>(k, e). now < e) (expiry_by_key c)"
  have "Suc (length ?d) - nat (jc_max_size c) \<le> length ?d"
    using assms(1) by (auto simp: jc_inv_def)
  with assms(3) show ?thesis
    unfolding jc_check_eq [OF assms(1,2) nb] jc_holds_def
    by (auto simp: Let_def split: if_splits)
qed

lemma jc_holds_step:
  assumes "jc_inv t c" "t \<le> now" "now < e" "jc_holds key e n c" "int (n + 1) < jc_max_size c"
  shows "jc_holds key e (n + 1) (snd (jc_check_and_record now p jti c))"
proof (cases "jti_blank jti")
  case True
  with assms(4) show ?thesis by (auto simp: jc_check_and_record_def jc_holds_def intro: le_SucI)
next
  case False
  let ?live = "\<lambda>d. filter (\<lambda>(k, e). now < e) (d :: (jti_key, rat) dict)"
  obtain pre post where c: "expiry_by_key c = pre @ (key, e) # post" and post: "length post \<le> n"
    using assms(4) by (auto simp: jc_holds_def)
  have lp: "length (?live post) \<le> n" using post length_filter_le order_trans by blast
  have d: "?live (expiry_by_key c) = ?live pre @ (key, e) # ?live post" using c assms(3) by simp
  show ?thesis
  proof (cases "map_of (?live (expiry_by_key c)) (p, jti)")
    case (Some x)
    then show ?thesis
      using d lp by (auto simp: jc_check_eq [OF assms(1,2) False] jc_holds_def Let_def intro!: le_SucI)
  next
    case None
    let ?post = "?live post @ [((p, jti), now + jc_ttl c)]"
    let ?n = "Suc (length (?live (expiry_by_key c))) - nat (jc_max_size c)"
    have "?n \<le> length (?live pre)" using d lp assms(5) by simp
    then have "drop ?n (?live (expiry_by_key c) @ [((p, jti), now + jc_ttl c)]) =
        drop ?n (?live pre) @ (key, e) # ?post"
      using d by simp
    moreover have "length ?post \<le> n + 1" using lp by simp
    ultimately show ?thesis
      unfolding jc_holds_def using None
      by (intro exI [of _ "drop ?n (?live pre)"] exI [of _ ?post])
        (simp add: jc_check_eq [OF assms(1,2) False] Let_def)
  qed
qed

lemma jc_holds_refuses:
  assumes "jc_inv t c" "t \<le> now" "now < e" "jc_holds (p, jti) e n c" "\<not> jti_blank jti"
  shows "fst (jc_check_and_record now p jti c) = Inr False"
proof -
  have wf: "wf_dict (expiry_by_key c)" using assms(1) by (simp add: jc_inv_def)
  have "map_of (expiry_by_key c) (p, jti) = Some e"
    using assms(4) wf by (auto simp: jc_holds_def map_of_eq_Some_iff)
  with assms(3) map_of_filter_snd [OF wf, of "\<lambda>k e. now < e" "(p, jti)"] show ?thesis
    by (simp add: jc_check_eq [OF assms(1,2,5)] Let_def)
qed

text \<open>Calls from several clients in the order they take effect.\<close>

fun jc_run :: "(rat \<times> string \<times> string) list \<Rightarrow> jti_cache \<Rightarrow> jti_cache" where
  "jc_run [] c = c"
| "jc_run ((now, p, j) # calls) c = jc_run calls (snd (jc_check_and_record now p j c))"

lemma jc_run_holds:
  assumes "jc_inv t c" "sorted (t # map fst calls)" "\<forall>(now, p, j) \<in> set calls. now < e"
    and "jc_holds key e n c" "int (n + length calls) < jc_max_size c"
  shows "jc_inv (last (t # map fst calls)) (jc_run calls c) \<and> jc_holds key e (n + length calls) (jc_run calls c)"
  using assms
proof (induction calls arbitrary: t c n)
  case (Cons call calls)
  obtain now p j where call: "call = (now, p, j)" by (cases call) auto
  let ?c = "snd (jc_check_and_record now p j c)"
  have "jc_inv now ?c" using Cons.prems(1,2) call by (intro jc_check_inv) auto
  moreover have "jc_holds key e (n + 1) ?c"
    using Cons.prems call by (intro jc_holds_step [where t = t]) auto
  ultimately show ?case
    using Cons.IH [of now ?c "n + 1"] Cons.prems call by auto
qed simp

subsection \<open>Nonces\<close>

lemma cleanup_expired_eq:
  "wf_dict s \<Longrightarrow> cleanup_expired r now s =
     (if length s \<le> MAX_NONCE_STORE_SIZE \<and> r \<ge> CLEANUP_PROBABILITY then s
      else filter (\<lambda>(n, e). \<not> e < now) s)"
  using fold_delete_dead [of s "\<lambda>n e. e < now"] by (simp add: cleanup_expired_def Let_def)

lemma cleanup_expired_keeps:
  assumes "wf_dict s"
  shows "wf_dict (cleanup_expired r now s)"
    and "map_of s n = Some e \<Longrightarrow> now \<le> e \<Longrightarrow> map_of (cleanup_expired r now s) n = Some e"
  unfolding cleanup_expired_eq [OF assms]
  using assms map_of_filter_snd [OF assms, of "\<lambda>n e. \<not> e < now" n]
  by (simp_all add: wf_dict_filter)

lemma check_and_mark_wf: "wf_dict s \<Longrightarrow> wf_dict (snd (check_and_mark c n ttl s))"
  by (auto simp: check_and_mark_def Let_def cleanup_expired_keeps wf_dict_update)

text \<open>A mark stays until its expiry, whatever nonces are checked in between.\<close>

lemma check_and_mark_keeps:
  assumes "wf_dict s" "map_of s n = Some e" "nc_cleanup c \<le> e" "nc_check c \<le> e"
  shows "map_of (snd (check_and_mark c n' ttl s)) n = Some e"
  using assms cleanup_expired_keeps(2) [OF assms(1,2), of "nc_cleanup c" "nc_rnd c"]
  by (auto simp: check_and_mark_def Let_def dict_simps split: option.splits)

lemma check_and_mark_refuses:
  assumes "wf_dict s" "map_of s n = Some e" "nc_cleanup c \<le> e" "nc_check c \<le> e"
  shows "fst (check_and_mark c n ttl s)"
  using assms cleanup_expired_keeps(2) [OF assms(1,2), of "nc_cleanup c" "nc_rnd c"]
  by (simp add: check_and_mark_def Let_def)

lemma check_and_mark_new:
  "\<not> fst (check_and_mark c n ttl s) \<Longrightarrow>
     map_of (snd (check_and_mark c n ttl s)) n = Some (nc_mark c + of_int ttl)"
  by (auto simp: check_and_mark_def Let_def dict_simps)

text \<open>A server's history: envelopes with the clock values of their validation.\<close>

type_synonym validation = "datetime \<times> nonce_clock \<times> envelope"

fun validate_all :: "validation list \<Rightarrow> nonce_store option \<Rightarrow> nonce_store option" where
  "validate_all [] s = s"
| "validate_all ((now, c, e) # vs) s = validate_all vs (snd (validate_envelope now c e s))"

text \<open>\<open>time.time()\<close> and \<open>datetime.now()\<close> of one validation agree up to \<open>d\<close> seconds.\<close>

definition clocks_agree :: "rat \<Rightarrow> datetime \<Rightarrow> nonce_clock \<Rightarrow> bool" where
  "clocks_agree d now c \<longleftrightarrow>
     (\<forall>t \<in> {nc_cleanup c, nc_check c, nc_mark c}. \<bar>t - of_int now / 1000000\<bar> \<le> d)"

definition env_nonce :: "envelope \<Rightarrow> string option" where
  "env_nonce e = (case extensions e of None \<Rightarrow> None
     | Some ext \<Rightarrow> (case map_of ext ''nonce'' of Some (PStr n) \<Rightarrow> if n = [] then None else Some n | _ \<Rightarrow> None))"

lemma validate_envelope_nonce_eq:
  "env_nonce e = Some n \<Longrightarrow> validate_envelope_nonce c e (Some s) =
     (if fst (check_and_mark c n NONCE_TTL_SECONDS s) then Inl (NonceDuplicate n) else Inr (),
      Some (snd (check_and_mark c n NONCE_TTL_SECONDS s)))"
  by (auto simp: env_nonce_def validate_envelope_nonce_def Let_def
      split: option.splits pyval.splits if_splits prod.splits)

lemma validate_envelope_nonce_store:
  "\<exists>s'. snd (validate_envelope_nonce c e (Some s)) = Some s' \<and>
     (s' = s \<or> (\<exists>n. s' = snd (check_and_mark c n NONCE_TTL_SECONDS s)))"
  by (auto simp: validate_envelope_nonce_def Let_def split: option.splits pyval.splits prod.splits)
    (metis snd_conv)+

lemma validate_envelope_store:
  "\<exists>s'. snd (validate_envelope now c e (Some s)) = Some s' \<and>
     (s' = s \<or> (\<exists>n. s' = snd (check_and_mark c n NONCE_TTL_SECONDS s)))"
  using validate_envelope_nonce_store [of c e s]
  by (auto simp: validate_envelope_def split: sum.splits)

lemma validate_all_keeps:
  assumes "wf_dict s" "map_of s n = Some x"
    and "\<forall>(now, c, e) \<in> set vs. nc_cleanup c \<le> x \<and> nc_check c \<le> x"
  shows "\<exists>s'. validate_all vs (Some s) = Some s' \<and> wf_dict s' \<and> map_of s' n = Some x"
  using assms
proof (induction vs arbitrary: s)
  case (Cons v vs)
  obtain now c e where v: "v = (now, c, e)" by (cases v) auto
  obtain s1 where s1: "snd (validate_envelope now c e (Some s)) = Some s1"
    and s1': "s1 = s \<or> (\<exists>n. s1 = snd (check_and_mark c n NONCE_TTL_SECONDS s))"
    using validate_envelope_store [of now c e s] by blast
  have "wf_dict s1 \<and> map_of s1 n = Some x"
    using s1' Cons.prems v by (auto simp: check_and_mark_wf check_and_mark_keeps)
  with Cons.IH [of s1] Cons.prems(3) v s1 show ?case by simp
qed simp

lemma timestamp_accepted_iff:
  "validate_envelope_timestamp now e = Inr () \<longleftrightarrow>
     (\<exists>t. env_timestamp e = Some t \<and> now - to_utc t \<le> 300000000 \<and> to_utc t - now \<le> 30000000)"
  by (auto simp: validate_envelope_timestamp_def MAX_ENVELOPE_AGE_SECONDS_def
      MAX_FUTURE_TOLERANCE_SECONDS_def Let_def split: option.splits)

text \<open>While the timestamp of an envelope is acceptable, the mark of its nonce has not expired.\<close>

lemma nonce_outlives_timestamp:
  assumes "validate_envelope_timestamp now1 e = Inr ()" "validate_envelope_timestamp now2 e = Inr ()"
    and "d \<le> 135" "clocks_agree d now1 c1" "now \<le> now2" "\<bar>x - of_int now / 1000000\<bar> \<le> d"
  shows "x \<le> nc_mark c1 + of_int NONCE_TTL_SECONDS"
proof -
  obtain t where "env_timestamp e = Some t" "now2 - to_utc t \<le> 300000000" "to_utc t - now1 \<le> 30000000"
    using assms(1,2) by (auto simp: timestamp_accepted_iff)
  then have "now2 - now1 \<le> 330000000" by linarith
  then have "of_int now2 / 1000000 - of_int now1 / 1000000 \<le> (330 :: rat)" by linarith
  moreover have "(of_int now :: rat) \<le> of_int now2" using assms(5) by linarith
  moreover have "\<bar>nc_mark c1 - of_int now1 / 1000000\<bar> \<le> d" using assms(4) by (simp add: clocks_agree_def)
  ultimately show ?thesis
    using assms(3,6) by (simp add: NONCE_TTL_SECONDS_def MAX_ENVELOPE_AGE_SECONDS_def abs_le_iff)
qed

subsection \<open>Properties\<close>

text \<open>C4: an envelope that was accepted with a nonce is never accepted again by the same server,
  whatever envelopes come in between: for as long as its timestamp is acceptable the nonce is still
  stored. The hypothesis on the clocks is that the two clocks the checks read differ by at most 135
  seconds, and the time zone of the stored timestamp plays no part.\<close>

theorem accepted_envelope_is_not_replayed:
  assumes "wf_dict s" "env_nonce e = Some n"
    and accepted: "fst (validate_envelope now1 c1 e (Some s)) = Inr ()"
    and clocks: "d \<le> 135" "clocks_agree d now1 c1" "clocks_agree d now2 c2"
      "\<forall>(now, c, e') \<in> set between. clocks_agree d now c \<and> now \<le> now2"
  shows "fst (validate_envelope now2 c2 e
    (validate_all between (snd (validate_envelope now1 c1 e (Some s))))) \<noteq> Inr ()"
proof (cases "validate_envelope_timestamp now2 e")
  case (Inl x)
  then show ?thesis by (simp add: validate_envelope_def)
next
  case (Inr u)
  then have ts2: "validate_envelope_timestamp now2 e = Inr ()" by simp
  have ts1: "validate_envelope_timestamp now1 e = Inr ()"
    using accepted by (auto simp: validate_envelope_def split: sum.splits)
  note late = nonce_outlives_timestamp [OF ts1 ts2 clocks(1,2)]
  have new: "\<not> fst (check_and_mark c1 n NONCE_TTL_SECONDS s)"
    "snd (validate_envelope now1 c1 e (Some s)) = Some (snd (check_and_mark c1 n NONCE_TTL_SECONDS s))"
    using accepted ts1 by (auto simp: validate_envelope_def validate_envelope_nonce_eq [OF assms(2)] split: if_splits)
  obtain s2 where s2: "validate_all between (Some (snd (check_and_mark c1 n NONCE_TTL_SECONDS s))) = Some s2"
    "wf_dict s2" "map_of s2 n = Some (nc_mark c1 + of_int NONCE_TTL_SECONDS)"
  proof -
    have "\<forall>(now, c, e) \<in> set between. nc_cleanup c \<le> nc_mark c1 + of_int NONCE_TTL_SECONDS \<and>
        nc_check c \<le> nc_mark c1 + of_int NONCE_TTL_SECONDS"
      using clocks(4) late by (fastforce simp: clocks_agree_def)
    from validate_all_keeps [OF check_and_mark_wf [OF assms(1)] check_and_mark_new [OF new(1)] this] that
    show thesis by blast
  qed
  have "fst (check_and_mark c2 n NONCE_TTL_SECONDS s2)"
    using s2 clocks(3) late [of now2] by (intro check_and_mark_refuses) (auto simp: clocks_agree_def)
  then show ?thesis
    using ts2 new(2) s2(1) by (simp add: validate_envelope_def validate_envelope_nonce_eq [OF assms(2)])
qed

theorem accepted_envelope_is_not_replayed_witness:
  "let e = \<lparr>env_id = Some ''i'', asap_version = ''0.1'', env_timestamp = Some (Aware 0 0),
       sender = ''a'', recipient = ''b'', payload_type = ''task.request'',
       payload = [], correlation_id = None, trace_id = None, requires_ack = False,
       extensions = Some [(''nonce'', PStr ''n1'')]\<rparr>;
     c = (\<lambda>t. \<lparr>nc_rnd = 0, nc_cleanup = t, nc_check = t, nc_mark = t\<rparr>)
   in fst (validate_envelope 299000000 (c 299) e
        (validate_all [] (snd (validate_envelope 1000000 (c 1) e (Some []))))) \<noteq> Inr ()"
  unfolding Let_def
  by (rule accepted_envelope_is_not_replayed [where n = "''n1''" and d = 0])
    (simp_all add: env_nonce_def validate_envelope_def validate_envelope_timestamp_def MAX_ENVELOPE_AGE_SECONDS_def
      MAX_FUTURE_TOLERANCE_SECONDS_def validate_envelope_nonce_def check_and_mark_def cleanup_expired_def clocks_agree_def)

text \<open>A token identifier recorded in the in-memory cache is refused again in its partition until
  the lifetime of the record has passed, as long as fewer other identifiers than the size bound
  allows are recorded in between.\<close>

theorem recorded_jti_is_refused:
  assumes "1 \<le> maxsize" "fst (jc_check_and_record t0 p jti (jc_run before (jc_init ttl maxsize))) = Inr True"
    and "sorted (map fst before @ t0 # map fst calls @ [t1])"
    and "t1 < t0 + ttl" "int (length calls) < maxsize"
  shows "fst (jc_check_and_record t1 p jti (jc_run calls
    (snd (jc_check_and_record t0 p jti (jc_run before (jc_init ttl maxsize)))))) = Inr False"
proof -
  let ?c0 = "jc_run before (jc_init ttl maxsize)"
  have run: "jc_inv t c \<Longrightarrow> sorted (t # map fst xs) \<Longrightarrow> jc_inv (last (t # map fst xs)) (jc_run xs c) \<and>
      jc_ttl (jc_run xs c) = jc_ttl c \<and> jc_max_size (jc_run xs c) = jc_max_size c" for t xs c
  proof (induction xs arbitrary: t c)
    case (Cons x xs)
    obtain now q j where x: "x = (now, q, j)" by (cases x) auto
    with Cons.prems have "jc_inv now (snd (jc_check_and_record now q j c))" by (intro jc_check_inv) auto
    from Cons.IH [OF this] Cons.prems x show ?case by simp
  qed simp
  let ?s = "hd (map fst before @ [t0])"
  have "sorted (?s # map fst before)" using assms(3) by (cases before) (auto simp: sorted_append)
  from run [OF jc_inv_init [OF assms(1)] this] have c0: "jc_inv (last (?s # map fst before)) ?c0"
    "jc_ttl ?c0 = ttl" "jc_max_size ?c0 = maxsize"
    by (simp_all add: jc_init_def)
  have le: "last (?s # map fst before) \<le> t0"
    using assms(3) by (cases before) (auto simp: sorted_append last_map)
  let ?c1 = "snd (jc_check_and_record t0 p jti ?c0)"
  have c1: "jc_inv t0 ?c1" "jc_holds (p, jti) (t0 + ttl) 0 ?c1"
    using jc_check_inv [OF c0(1) le] jc_holds_new [OF c0(1) le assms(2)] c0(2) by simp_all
  have calls: "sorted (t0 # map fst calls)" "\<forall>(now, q, j) \<in> set calls. now < t0 + ttl" "last (t0 # map fst calls) \<le> t1"
    using assms(3,4) by (auto simp: sorted_append last_map split: if_splits)
  have "jc_inv (last (t0 # map fst calls)) (jc_run calls ?c1) \<and> jc_holds (p, jti) (t0 + ttl) (length calls) (jc_run calls ?c1)"
    using jc_run_holds [OF c1(1) calls(1,2) c1(2)] assms(5) c0(3) by simp
  moreover have "\<not> jti_blank jti" using assms(2) by (auto simp: jc_check_and_record_def)
  ultimately show ?thesis
    using jc_holds_refuses [OF _ calls(3) assms(4)] by blast
qed

theorem recorded_jti_is_refused_witness:
  "fst (jc_check_and_record 89 ''host'' ''jwt_1'' (jc_run [(50, ''host'', ''jwt_2'')]
    (snd (jc_check_and_record 0 ''host'' ''jwt_1'' (jc_run [] (jc_init 90 10000)))))) = Inr False"
  by (rule recorded_jti_is_refused)
    (simp_all add: jc_check_and_record_def jc_init_def jti_blank_def strip_def lstrip_def rstrip_def py_space_def
      prune_expired_def evict_to_max_size.simps)

end
