(* ===== verification/Agent_Jwt.thy ===== *)
theory Agent_Jwt
  imports Py_Text Identity Replay_Guard
begin

text \<open>
  Host and agent tokens (\<open>src/asap/auth/agent_jwt.py\<close>, \<open>src/asap/auth/agent_jwt_session.py\<close>) and the
  audience check of \<open>src/asap/auth/jwks.py\<close>.

  The JOSE library is not part of the repository: its unverified parsing of a compact token, its
  signature check and its signing are the fields of the record \<open>jose\<close>, an argument of the
  definitions; \<open>Inl\<close> carries the text of an exception the code catches.

  Verification awaits the stores several times. What other tasks do to the agent rows between two
  of those awaits is an argument too: \<open>between\<close> runs before the row is read again and
  \<open>before_touch\<close> between that read and the conditional write. The host store is read once, after
  the first read of the agent row: the argument \<open>hs\<close> is the host store at that instant, whatever it
  was before and becomes later.
\<close>

subsection \<open>The float constructor\<close>

fun pyfloat_less :: "rat \<Rightarrow> pyfloat \<Rightarrow> bool" where
  "pyfloat_less x (Fin y) = (x < y)"
| "pyfloat_less x PosInf = True"
| "pyfloat_less x NegInf = False"
| "pyfloat_less x NaN = False"

fun pyfloat_leq :: "pyfloat \<Rightarrow> rat \<Rightarrow> bool" where
  "pyfloat_leq (Fin x) y = (x \<le> y)"
| "pyfloat_leq PosInf y = False"
| "pyfloat_leq NegInf y = True"
| "pyfloat_leq NaN y = False"

text \<open>The text before and after the first occurrence of a character.\<close>

definition split_at :: "char \<Rightarrow> string \<Rightarrow> string \<times> string option" where
  "split_at c s = (case dropWhile (\<lambda>x. x \<noteq> c) s of [] \<Rightarrow> (s, None) | _ # r \<Rightarrow> (takeWhile (\<lambda>x. x \<noteq> c) s, Some r))"

definition mantissa :: "string \<Rightarrow> (nat list \<times> nat) option" where
  "mantissa s = (case split_at CHR ''.'' s of
     (i, None) \<Rightarrow> map_option (\<lambda>ds. (ds, 0)) (digit_part i)
   | (i, Some f) \<Rightarrow>
       if i = [] then map_option (\<lambda>ds. (ds, length ds)) (digit_part f)
       else if f = [] then map_option (\<lambda>ds. (ds, 0)) (digit_part i)
       else (case (digit_part i, digit_part f) of
               (Some a, Some b) \<Rightarrow> Some (a @ b, length b) | _ \<Rightarrow> None))"

definition exponent :: "string option \<Rightarrow> int option" where
  "exponent e = (case e of
     None \<Rightarrow> Some 0
   | Some t \<Rightarrow> (case split_sign t of (neg, ds) \<Rightarrow>
       map_option (\<lambda>d. if neg then - int (digits_value d) else int (digits_value d)) (digit_part ds)))"

definition parse_float :: "string \<Rightarrow> pyfloat option" where
  "parse_float s =
     (let (neg, body) = split_sign (lower (strip s)) in
      if body = ''inf'' \<or> body = ''infinity'' then Some (if neg then NegInf else PosInf)
      else if body = ''nan'' then Some NaN
      else (let (m, e) = split_at CHR ''e'' body in
            case (mantissa m, exponent e) of
              (Some (ds, k), Some x) \<Rightarrow>
                (let v = of_nat (digits_value ds) * (10 powi (x - int k)) in Some (Fin (if neg then - v else v)))
            | _ \<Rightarrow> None))"

text \<open>\<open>float(v)\<close>: an integer beyond the range of a double overflows, which the callers do not catch.\<close>

definition DBL_LIMIT :: int where
  "DBL_LIMIT = 2 ^ 1024 - 2 ^ 970"

fun py_float :: "pyval \<Rightarrow> py_exn + pyfloat" where
  "py_float (PBool b) = Inr (Fin (if b then 1 else 0))"
| "py_float (PInt i) = (if DBL_LIMIT \<le> \<bar>i\<bar> then Inl OverflowError else Inr (Fin (of_int i)))"
| "py_float (PFloat x) = Inr x"
| "py_float (PStr s) = (case parse_float s of None \<Rightarrow> Inl (ValueError ''could not convert string to float'') | Some f \<Rightarrow> Inr f)"
| "py_float _ = Inl TypeError"

text \<open>\<open>d.get(k)\<close>\<close>

definition get_claim :: "pydict \<Rightarrow> string \<Rightarrow> pyval" where
  "get_claim d k = (case map_of d k of None \<Rightarrow> PNone | Some v \<Rightarrow> v)"

subsection \<open>Claims\<close>

datatype audience = OneAud string | AudList "string list"

fun expected_list :: "audience \<Rightarrow> string list" where
  "expected_list (OneAud a) = [a]"
| "expected_list (AudList l) = l"

definition only_strings :: "pyval list \<Rightarrow> string list" where
  "only_strings xs = List.map_filter (\<lambda>v. case v of PStr s \<Rightarrow> Some s | _ \<Rightarrow> None) xs"

definition audience_matches_expected :: "pydict \<Rightarrow> audience \<Rightarrow> bool" where
  "audience_matches_expected claims expected_audience =
     (let expected = expected_list expected_audience in
      case get_claim claims ''aud'' of
        PStr a \<Rightarrow> a \<in> set expected
      | PList l \<Rightarrow> list_ex (\<lambda>a. a \<in> set expected) (only_strings l)
      | _ \<Rightarrow> False)"

definition IAT_MAX_FUTURE_SKEW_SECONDS :: rat where
  "IAT_MAX_FUTURE_SKEW_SECONDS = 60"

definition iat_not_in_future :: "pydict \<Rightarrow> rat \<Rightarrow> py_exn + bool" where
  "iat_not_in_future claims now_ts =
     (if get_claim claims ''iat'' = PNone then Inr True
      else (case py_float (get_claim claims ''iat'') of
              Inl OverflowError \<Rightarrow> Inl OverflowError
            | Inl _ \<Rightarrow> Inr False
            | Inr iat_ts \<Rightarrow> Inr (pyfloat_leq iat_ts (now_ts + IAT_MAX_FUTURE_SKEW_SECONDS))))"

definition exp_valid :: "pydict \<Rightarrow> rat \<Rightarrow> py_exn + bool" where
  "exp_valid claims now_ts =
     (if get_claim claims ''exp'' = PNone then Inr False
      else (case py_float (get_claim claims ''exp'') of
              Inl OverflowError \<Rightarrow> Inl OverflowError
            | Inl _ \<Rightarrow> Inr False
            | Inr exp_ts \<Rightarrow> Inr (pyfloat_less now_ts exp_ts)))"

definition jti_present :: "pydict \<Rightarrow> bool" where
  "jti_present claims = (case get_claim claims ''jti'' of PStr j \<Rightarrow> strip j \<noteq> [] | _ \<Rightarrow> False)"

definition validate_standard_claims :: "pydict \<Rightarrow> rat \<Rightarrow> audience option \<Rightarrow> py_exn + string option" where
  "validate_standard_claims claims now_ts expected_audience =
     (case exp_valid claims now_ts of
        Inl x \<Rightarrow> Inl x
      | Inr False \<Rightarrow> Inr (Some ''token expired or missing exp'')
      | Inr True \<Rightarrow>
          (case iat_not_in_future claims now_ts of
             Inl x \<Rightarrow> Inl x
           | Inr False \<Rightarrow> Inr (Some ''invalid iat (too far in the future)'')
           | Inr True \<Rightarrow>
               if \<not> jti_present claims then Inr (Some ''missing jti'')
               else if (case expected_audience of None \<Rightarrow> False
                        | Some aud \<Rightarrow> \<not> audience_matches_expected claims aud)
               then Inr (Some ''audience mismatch'')
               else Inr None))"

subsection \<open>Results\<close>

record jwt_verify_result =
  jv_ok :: bool
  jv_claims :: "pydict option"
  jv_host :: "host_identity option"
  jv_agent :: "agent_session option"
  jv_error :: "string option"

definition jwt_failed :: "string \<Rightarrow> jwt_verify_result" where
  "jwt_failed e = \<lparr>jv_ok = False, jv_claims = None, jv_host = None, jv_agent = None, jv_error = Some e\<rparr>"

definition capabilities_claim :: "jwt_verify_result \<Rightarrow> string list" where
  "capabilities_claim r =
     (case jv_claims r of
        None \<Rightarrow> []
      | Some claims \<Rightarrow> (case get_claim claims ''capabilities'' of PList l \<Rightarrow> only_strings l | _ \<Rightarrow> []))"

record jose =
  extract_compact :: "string \<Rightarrow> string + (pydict \<times> pyval)"
  jwt_decode :: "string \<Rightarrow> pydict \<Rightarrow> string + pydict"

definition HOST_JWT_TYP :: string where "HOST_JWT_TYP = ''host+jwt''"
definition AGENT_JWT_TYP :: string where "AGENT_JWT_TYP = ''agent+jwt''"
definition HOST_REVOKED_ERROR :: string where "HOST_REVOKED_ERROR = ''host revoked''"

definition jti_of :: "pydict \<Rightarrow> string" where
  "jti_of claims = (case get_claim claims ''jti'' of PStr j \<Rightarrow> j | _ \<Rightarrow> [])"

subsection \<open>Host tokens\<close>

text \<open>The replay check: recording, or only looking.\<close>

definition check_jti ::
  "rat \<Rightarrow> bool \<Rightarrow> string \<Rightarrow> string \<Rightarrow> jti_cache option \<Rightarrow> (jti_cache option, py_exn, bool) outcome" where
  "check_jti now record_jti part jti cache =
     (case cache of
        None \<Rightarrow> (Inr True, None)
      | Some c \<Rightarrow>
          if record_jti then map_prod id Some (jc_check_and_record now part jti c)
          else (case jc_contains now part jti c of (b, c') \<Rightarrow> (Inr (\<not> b), Some c')))"

text \<open>What follows once the signature is verified; \<open>now_ts\<close> and \<open>now_jti\<close> are the readings of the
  clock by the claim check and by the cache.\<close>

definition verify_host_claims ::
  "digest \<Rightarrow> rat \<Rightarrow> rat \<Rightarrow> host_store \<Rightarrow> audience option \<Rightarrow> bool \<Rightarrow> pydict \<Rightarrow> jti_cache option \<Rightarrow>
   (jti_cache option, py_exn, jwt_verify_result) outcome" where
  "verify_host_claims digest now_ts now_jti hs expected_audience record_jti claims cache =
     (case validate_standard_claims claims now_ts expected_audience of
        Inl x \<Rightarrow> (Inl x, cache)
      | Inr (Some err) \<Rightarrow> (Inr (jwt_failed err), cache)
      | Inr None \<Rightarrow>
          (case get_claim claims ''host_public_key'' of
             PDict host_pub \<Rightarrow>
               (case jwk_thumbprint_sha256 digest host_pub of
                  Inl x \<Rightarrow> (Inl x, cache)
                | Inr expected_iss \<Rightarrow>
                    if get_claim claims ''iss'' \<noteq> PStr expected_iss
                    then (Inr (jwt_failed ''iss does not match host_public_key thumbprint''), cache)
                    else
                      (case check_jti now_jti record_jti expected_iss (jti_of claims) cache of
                         (Inl x, cache') \<Rightarrow> (Inl x, cache')
                       | (Inr False, cache') \<Rightarrow> (Inr (jwt_failed ''jti replay detected''), cache')
                       | (Inr True, cache') \<Rightarrow>
                           (let host = host_get_by_public_key expected_iss hs in
                            if (case host of None \<Rightarrow> False | Some h \<Rightarrow> host_status h = HostRevoked)
                            then (Inr (jwt_failed HOST_REVOKED_ERROR), cache')
                            else (Inr \<lparr>jv_ok = True, jv_claims = Some claims, jv_host = host,
                                       jv_agent = None, jv_error = None\<rparr>, cache'))))
           | _ \<Rightarrow> (Inr (jwt_failed ''missing host_public_key in verified claims''), cache)))"

definition verify_host_jwt ::
  "jose \<Rightarrow> digest \<Rightarrow> rat \<Rightarrow> rat \<Rightarrow> string \<Rightarrow> host_store \<Rightarrow> audience option \<Rightarrow> bool \<Rightarrow> jti_cache option \<Rightarrow>
   (jti_cache option, py_exn, jwt_verify_result) outcome" where
  "verify_host_jwt j digest now_ts now_jti token hs expected_audience record_jti cache =
     (case extract_compact j token of
        Inl e \<Rightarrow> (Inr (jwt_failed (''invalid JWT structure: '' @ e)), cache)
      | Inr (header, body) \<Rightarrow>
          if get_claim header ''typ'' \<noteq> PStr HOST_JWT_TYP
          then (Inr (jwt_failed ''invalid typ for host JWT''), cache)
          else (case body of
            PDict p \<Rightarrow>
              (case get_claim p ''host_public_key'' of
                 PDict host_pub_claim \<Rightarrow>
                   (case jwt_decode j token host_pub_claim of
                      Inl e \<Rightarrow> (Inr (jwt_failed (''invalid host JWT: '' @ e)), cache)
                    | Inr claims \<Rightarrow>
                        verify_host_claims digest now_ts now_jti hs expected_audience record_jti claims cache)
               | _ \<Rightarrow> (Inr (jwt_failed ''missing or invalid host_public_key claim''), cache))
          | _ \<Rightarrow> (Inl AttributeError, cache)))"

subsection \<open>The session slide\<close>

definition status_name :: "agent_status \<Rightarrow> string" where
  "status_name st = (case st of AgentPending \<Rightarrow> ''pending'' | AgentActive \<Rightarrow> ''active''
     | AgentExpired \<Rightarrow> ''expired'' | AgentRevoked \<Rightarrow> ''revoked'' | AgentRejected \<Rightarrow> ''rejected'')"

definition unusable_agent_error :: "agent_session \<Rightarrow> string option" where
  "unusable_agent_error a =
     (if agent_status a \<in> {AgentRevoked, AgentExpired, AgentPending, AgentRejected}
      then Some (''agent session not usable: '' @ status_name (agent_status a)) else None)"

definition expired_agent_error :: "datetime \<Rightarrow> agent_session \<Rightarrow> string option" where
  "expired_agent_error now a =
     (case check_agent_expiry now a of
        LifetimeOver \<Rightarrow> Some ''agent_revoked'' | Expired \<Rightarrow> Some ''agent_expired'' | Live \<Rightarrow> None)"

definition agent_public_key_changed :: "digest \<Rightarrow> agent_session \<Rightarrow> agent_session \<Rightarrow> py_exn + bool" where
  "agent_public_key_changed digest current verified =
     (case jwk_thumbprint_sha256 digest (agent_public_key current) of
        Inl x \<Rightarrow> Inl x
      | Inr a \<Rightarrow> map_sum id (\<lambda>b. a \<noteq> b) (jwk_thumbprint_sha256 digest (agent_public_key verified)))"

text \<open>The readings of the wall clock: the first expiry check, the check after the row is read again,
  the time written by the touch and the expiry check inside it.\<close>

record session_clock =
  now_first :: datetime
  now_reread :: datetime
  now_used :: datetime
  now_cas :: datetime

definition slide_session_if_still_current ::
  "digest \<Rightarrow> session_clock \<Rightarrow> (agent_rows \<Rightarrow> agent_rows) \<Rightarrow> agent_session \<Rightarrow> agent_rows \<Rightarrow>
   (agent_rows, py_exn, string + agent_session) outcome" where
  "slide_session_if_still_current digest clk before_touch verified rows =
     (case agent_get (agent_id verified) rows of
        None \<Rightarrow> (Inr (Inl ''unknown agent''), rows)
      | Some current \<Rightarrow>
          (case unusable_agent_error current of
             Some e \<Rightarrow> (Inr (Inl e), rows)
           | None \<Rightarrow>
               if agent_host_id current \<noteq> agent_host_id verified
               then (Inr (Inl ''agent host_id changed during verification''), rows)
               else (case agent_public_key_changed digest current verified of
                 Inl x \<Rightarrow> (Inl x, rows)
               | Inr True \<Rightarrow> (Inr (Inl ''agent key changed during verification''), rows)
               | Inr False \<Rightarrow>
                   (case expired_agent_error (now_reread clk) current of
                      Some e \<Rightarrow> (Inr (Inl e), rows)
                    | None \<Rightarrow>
                        (case touch_if_current digest (now_cas clk) (agent_id verified) (agent_public_key verified)
                                (now_used clk) (agent_host_id verified) (before_touch rows) of
                           (None, rows') \<Rightarrow> (Inr (Inl ''agent session changed during verification''), rows')
                         | (Some touched, rows') \<Rightarrow> (Inr (Inr touched), rows'))))))"

subsection \<open>Agent tokens\<close>

text \<open>The checks between the signature and the session slide.\<close>

definition verify_agent_claims ::
  "rat \<Rightarrow> rat \<Rightarrow> host_store \<Rightarrow> audience option \<Rightarrow> agent_session \<Rightarrow> pydict \<Rightarrow> jti_cache option \<Rightarrow>
   (jti_cache option, py_exn, string + host_identity) outcome" where
  "verify_agent_claims now_ts now_jti hs expected_audience agent claims cache =
     (case validate_standard_claims claims now_ts expected_audience of
        Inl x \<Rightarrow> (Inl x, cache)
      | Inr (Some err) \<Rightarrow> (Inr (Inl err), cache)
      | Inr None \<Rightarrow>
          if get_claim claims ''sub'' \<noteq> PStr (agent_id agent)
          then (Inr (Inl ''sub does not match verified agent id''), cache)
          else (case get_claim claims ''iss'' of
            PStr iss \<Rightarrow>
              if strip iss = [] then (Inr (Inl ''missing iss (host thumbprint)''), cache)
              else (case host_get_by_public_key iss hs of
                 None \<Rightarrow> (Inr (Inl ''unknown host for iss''), cache)
               | Some host \<Rightarrow>
                   if host_status host = HostRevoked then (Inr (Inl HOST_REVOKED_ERROR), cache)
                   else if host_id host \<noteq> agent_host_id agent
                   then (Inr (Inl ''agent host_id does not match iss host''), cache)
                   else (case check_jti now_jti True (agent_id agent) (jti_of claims) cache of
                      (Inl x, cache') \<Rightarrow> (Inl x, cache')
                    | (Inr False, cache') \<Rightarrow> (Inr (Inl ''jti replay detected''), cache')
                    | (Inr True, cache') \<Rightarrow> (Inr (Inr host), cache')))
          | _ \<Rightarrow> (Inr (Inl ''missing iss (host thumbprint)''), cache)))"

text \<open>The agent row a token names, if it may authenticate at all.\<close>

definition agent_row_for_token ::
  "jose \<Rightarrow> string \<Rightarrow> agent_rows \<Rightarrow> py_exn + (string + agent_session)" where
  "agent_row_for_token j token rows =
     (case extract_compact j token of
        Inl e \<Rightarrow> Inr (Inl (''invalid JWT structure: '' @ e))
      | Inr (header, body) \<Rightarrow>
          if get_claim header ''typ'' \<noteq> PStr AGENT_JWT_TYP then Inr (Inl ''invalid typ for agent JWT'')
          else (case body of
            PDict p \<Rightarrow>
              (case get_claim p ''sub'' of
                 PStr sub_raw \<Rightarrow>
                   if strip sub_raw = [] then Inr (Inl ''missing sub (agent id)'')
                   else (case agent_get sub_raw rows of
                      None \<Rightarrow> Inr (Inl ''unknown agent'')
                    | Some agent \<Rightarrow>
                        (case unusable_agent_error agent of
                           Some e \<Rightarrow> Inr (Inl e)
                         | None \<Rightarrow> Inr (Inr agent)))
               | _ \<Rightarrow> Inr (Inl ''missing sub (agent id)''))
          | _ \<Rightarrow> Inl AttributeError))"

text \<open>\<open>hs\<close> is what the single read of the host store sees; the host is not looked at again.\<close>

definition verify_agent_jwt ::
  "jose \<Rightarrow> digest \<Rightarrow> rat \<Rightarrow> rat \<Rightarrow> session_clock \<Rightarrow> (agent_rows \<Rightarrow> agent_rows) \<Rightarrow> (agent_rows \<Rightarrow> agent_rows) \<Rightarrow>
   string \<Rightarrow> host_store \<Rightarrow> audience option \<Rightarrow> jti_cache option \<times> agent_rows \<Rightarrow>
   (jti_cache option \<times> agent_rows, py_exn, jwt_verify_result) outcome" where
  "verify_agent_jwt j digest now_ts now_jti clk between before_touch token hs expected_audience st =
     (case agent_row_for_token j token (snd st) of
        Inl x \<Rightarrow> (Inl x, st)
      | Inr (Inl err) \<Rightarrow> (Inr (jwt_failed err), st)
      | Inr (Inr agent) \<Rightarrow>
          (case jwt_decode j token (agent_public_key agent) of
             Inl e \<Rightarrow> (Inr (jwt_failed (''invalid agent JWT: '' @ e)), st)
           | Inr claims \<Rightarrow>
               (case verify_agent_claims now_ts now_jti hs expected_audience agent claims (fst st) of
                  (Inl x, cache) \<Rightarrow> (Inl x, (cache, between (snd st)))
                | (Inr (Inl err), cache) \<Rightarrow> (Inr (jwt_failed err), (cache, between (snd st)))
                | (Inr (Inr host), cache) \<Rightarrow>
                    (case expired_agent_error (now_first clk) agent of
                       Some err \<Rightarrow> (Inr (jwt_failed err), (cache, between (snd st)))
                     | None \<Rightarrow>
                         (case slide_session_if_still_current digest clk before_touch agent (between (snd st)) of
                            (Inl x, rows) \<Rightarrow> (Inl x, (cache, rows))
                          | (Inr (Inl err), rows) \<Rightarrow> (Inr (jwt_failed err), (cache, rows))
                          | (Inr (Inr session), rows) \<Rightarrow>
                              (Inr \<lparr>jv_ok = True, jv_claims = Some claims, jv_host = Some host,
                                    jv_agent = Some session, jv_error = None\<rparr>, (cache, rows)))))))"

subsection \<open>Issuing\<close>

definition DEFAULT_HOST_JWT_TTL_SECONDS :: int where "DEFAULT_HOST_JWT_TTL_SECONDS = 300"
definition AGENT_JWT_TTL_SECONDS :: int where "AGENT_JWT_TTL_SECONDS = 60"

definition aud_value :: "audience \<Rightarrow> pyval" where
  "aud_value a = (case a of OneAud s \<Rightarrow> PStr s | AudList l \<Rightarrow> PList (map PStr l))"

definition host_jwt_claims ::
  "string \<Rightarrow> pydict \<Rightarrow> audience \<Rightarrow> pydict option \<Rightarrow> int \<Rightarrow> int \<Rightarrow> string \<Rightarrow> pydict" where
  "host_jwt_claims iss host_pub aud agent_pub ttl now fresh_id =
     [(''iss'', PStr iss), (''aud'', aud_value aud), (''iat'', PInt now), (''exp'', PInt (now + ttl)),
      (''jti'', PStr (''jwt_'' @ fresh_id)), (''host_public_key'', PDict host_pub)] @
     (case agent_pub of None \<Rightarrow> [] | Some k \<Rightarrow> [(''agent_public_key'', PDict k)])"

definition create_host_jwt ::
  "(pydict \<Rightarrow> pydict \<Rightarrow> 'key \<Rightarrow> string) \<Rightarrow> ('key \<Rightarrow> pydict) \<Rightarrow> digest \<Rightarrow> rat \<Rightarrow> string \<Rightarrow>
   'key \<Rightarrow> audience \<Rightarrow> pydict option \<Rightarrow> int \<Rightarrow> py_exn + string" where
  "create_host_jwt jencode public_jwk digest now fresh_id key aud agent_pub ttl =
     map_sum id
       (\<lambda>iss. jencode [(''alg'', PStr ''EdDSA''), (''typ'', PStr HOST_JWT_TYP)]
          (host_jwt_claims iss (public_jwk key) aud agent_pub ttl (py_trunc now) fresh_id) key)
       (jwk_thumbprint_sha256 digest (public_jwk key))"

definition agent_jwt_claims ::
  "string \<Rightarrow> string \<Rightarrow> audience \<Rightarrow> string list option \<Rightarrow> int \<Rightarrow> string \<Rightarrow> pydict" where
  "agent_jwt_claims iss aid aud caps now fresh_id =
     [(''iss'', PStr iss), (''sub'', PStr aid), (''aud'', aud_value aud), (''iat'', PInt now),
      (''exp'', PInt (now + AGENT_JWT_TTL_SECONDS)), (''jti'', PStr (''jwt_'' @ fresh_id))] @
     (case caps of None \<Rightarrow> [] | Some cs \<Rightarrow> [(''capabilities'', PList (map PStr cs))])"

definition create_agent_jwt ::
  "(pydict \<Rightarrow> pydict \<Rightarrow> 'key \<Rightarrow> string) \<Rightarrow> rat \<Rightarrow> string \<Rightarrow> 'key \<Rightarrow> string \<Rightarrow> string \<Rightarrow> audience \<Rightarrow>
   string list option \<Rightarrow> string" where
  "create_agent_jwt jencode now fresh_id key host_thumbprint aid aud caps =
     jencode [(''alg'', PStr ''EdDSA''), (''typ'', PStr AGENT_JWT_TYP)]
       (agent_jwt_claims host_thumbprint aid aud caps (py_trunc now) fresh_id) key"

subsection \<open>What an accepted token means\<close>

lemma validate_standard_claims_ok:
  assumes "validate_standard_claims claims now aud = Inr None"
  shows "exp_valid claims now = Inr True" "iat_not_in_future claims now = Inr True"
    "\<not> jti_blank (jti_of claims)" "\<And>a. aud = Some a \<Longrightarrow> audience_matches_expected claims a"
  using assms
  by (auto simp: validate_standard_claims_def jti_present_def jti_of_def jti_blank_def
      split: sum.splits bool.splits if_splits option.splits pyval.splits)

lemma check_jti_Some:
  "check_jti now True p jti (Some c) =
     (fst (jc_check_and_record now p jti c), Some (snd (jc_check_and_record now p jti c)))"
  by (simp add: check_jti_def map_prod_def split_beta)

lemma agent_row_for_token_ok:
  assumes "agent_row_for_token j token rows = Inr (Inr agent)"
  obtains header p aid where "extract_compact j token = Inr (header, PDict p)"
    "get_claim header ''typ'' = PStr AGENT_JWT_TYP" "get_claim p ''sub'' = PStr aid"
    "agent_get aid rows = Some agent" "agent_status agent = AgentActive"
  using assms
  by (cases "agent_status agent")
    (auto simp: agent_row_for_token_def unusable_agent_error_def
      split: sum.splits if_splits option.splits pyval.splits)

lemma verify_agent_claims_ok:
  assumes "verify_agent_claims now_ts now_jti hs aud agent claims cache = (Inr (Inr host), cache')"
  obtains iss where "validate_standard_claims claims now_ts aud = Inr None"
    "get_claim claims ''sub'' = PStr (agent_id agent)" "get_claim claims ''iss'' = PStr iss"
    "host_get_by_public_key iss hs = Some host" "host_status host \<noteq> HostRevoked"
    "host_id host = agent_host_id agent"
    "check_jti now_jti True (agent_id agent) (jti_of claims) cache = (Inr True, cache')"
  using assms
  by (auto simp: verify_agent_claims_def split: sum.splits if_splits option.splits pyval.splits prod.splits bool.splits)

lemma slide_session_ok:
  assumes "slide_session_if_still_current digest clk before_touch verified rows = (Inr (Inr session), rows')"
  shows "touch_if_current digest (now_cas clk) (agent_id verified) (agent_public_key verified)
    (now_used clk) (agent_host_id verified) (before_touch rows) = (Some session, rows')"
  using assms
  by (auto simp: slide_session_if_still_current_def split: sum.splits if_splits option.splits prod.splits bool.splits)

lemma verify_agent_jwt_ok:
  assumes "verify_agent_jwt j digest now_ts now_jti clk between before_touch token hs aud st = (Inr r, st')"
    and "jv_ok r"
  obtains agent claims host session where
    "r = \<lparr>jv_ok = True, jv_claims = Some claims, jv_host = Some host, jv_agent = Some session, jv_error = None\<rparr>"
    "agent_row_for_token j token (snd st) = Inr (Inr agent)"
    "jwt_decode j token (agent_public_key agent) = Inr claims"
    "verify_agent_claims now_ts now_jti hs aud agent claims (fst st) = (Inr (Inr host), fst st')"
    "expired_agent_error (now_first clk) agent = None"
    "slide_session_if_still_current digest clk before_touch agent (between (snd st)) = (Inr (Inr session), snd st')"
  using assms
  by (auto simp: verify_agent_jwt_def jwt_failed_def split: sum.splits option.splits prod.splits)

lemma verify_host_jwt_ok:
  assumes "verify_host_jwt j digest now_ts now_jti token hs aud rec cache = (Inr r, cache')" and "jv_ok r"
  obtains header p claims_key claims host_pub iss where
    "extract_compact j token = Inr (header, PDict p)" "get_claim header ''typ'' = PStr HOST_JWT_TYP"
    "get_claim p ''host_public_key'' = PDict claims_key" "jwt_decode j token claims_key = Inr claims"
    "validate_standard_claims claims now_ts aud = Inr None"
    "get_claim claims ''host_public_key'' = PDict host_pub" "jwk_thumbprint_sha256 digest host_pub = Inr iss"
    "get_claim claims ''iss'' = PStr iss"
    "check_jti now_jti rec iss (jti_of claims) cache = (Inr True, cache')"
    "\<And>h. host_get_by_public_key iss hs = Some h \<Longrightarrow> host_status h \<noteq> HostRevoked"
    "r = \<lparr>jv_ok = True, jv_claims = Some claims, jv_host = host_get_by_public_key iss hs, jv_agent = None, jv_error = None\<rparr>"
proof -
  obtain header p k claims where 1: "extract_compact j token = Inr (header, PDict p)"
    "get_claim header ''typ'' = PStr HOST_JWT_TYP" "get_claim p ''host_public_key'' = PDict k"
    "jwt_decode j token k = Inr claims"
    "verify_host_claims digest now_ts now_jti hs aud rec claims cache = (Inr r, cache')"
    using assms by (auto simp: verify_host_jwt_def jwt_failed_def split: sum.splits if_splits pyval.splits)
  then show thesis
    using assms(2)
    by (auto simp: verify_host_claims_def jwt_failed_def Let_def
        split: sum.splits if_splits pyval.splits option.splits prod.splits bool.splits intro!: that [OF 1(1-4)])
qed

lemma verify_host_jwt_intro:
  assumes "extract_compact j token = Inr (header, PDict p)" "get_claim header ''typ'' = PStr HOST_JWT_TYP"
    "get_claim p ''host_public_key'' = PDict k" "jwt_decode j token k = Inr claims"
    "validate_standard_claims claims now_ts aud = Inr None"
    "get_claim claims ''host_public_key'' = PDict host_pub" "jwk_thumbprint_sha256 digest host_pub = Inr iss"
    "get_claim claims ''iss'' = PStr iss"
    "check_jti now_jti rec iss (jti_of claims) cache = (Inr True, cache')"
    "\<And>h. host_get_by_public_key iss hs = Some h \<Longrightarrow> host_status h \<noteq> HostRevoked"
  shows "verify_host_jwt j digest now_ts now_jti token hs aud rec cache =
    (Inr \<lparr>jv_ok = True, jv_claims = Some claims, jv_host = host_get_by_public_key iss hs,
      jv_agent = None, jv_error = None\<rparr>, cache')"
  using assms by (auto simp: verify_host_jwt_def verify_host_claims_def Let_def split: option.splits)

subsection \<open>The window of the replay cache\<close>

lemma jc_check_after_window:
  assumes "jc_inv t c" "t + jc_ttl c \<le> now" "t \<le> now" "\<not> jti_blank jti"
  shows "fst (jc_check_and_record now p jti c) = Inr True"
proof -
  have "filter (\<lambda>(k, e). now < e) (expiry_by_key c) = []"
    using assms(1,2) by (force simp: jc_inv_def filter_empty_conv)
  then show ?thesis by (simp add: jc_check_eq [OF assms(1,3,4)])
qed

lemma exp_valid_before:
  assumes "exp_valid claims now = Inr True" "py_float (get_claim claims ''exp'') = Inr (Fin e)"
  shows "now < e"
  using assms by (auto simp: exp_valid_def split: if_splits)

lemma iat_later: "iat_not_in_future claims t = Inr True \<Longrightarrow> t \<le> t' \<Longrightarrow> iat_not_in_future claims t' = Inr True"
  by (auto simp: iat_not_in_future_def split: sum.splits py_exn.splits if_splits elim!: pyfloat_leq.elims)

lemma validate_standard_claims_later:
  assumes "validate_standard_claims claims t aud = Inr None" "t \<le> t'" "exp_valid claims t' = Inr True"
  shows "validate_standard_claims claims t' aud = Inr None"
  using assms iat_later [OF validate_standard_claims_ok(2) [OF assms(1)] assms(2)]
  by (auto simp: validate_standard_claims_def split: sum.splits bool.splits if_splits option.splits)

lemma verify_agent_jwt_current:
  assumes "verify_agent_jwt j digest now_ts now_jti clk between before_touch token hs aud (cache, rows) =
      (Inr r, (cache', rows'))" "jv_ok r"
  obtains agent :: agent_session and claims host cur iss where
    "jwt_decode j token (agent_public_key agent) = Inr claims" "jv_claims r = Some claims" "jv_host r = Some host"
    "validate_standard_claims claims now_ts aud = Inr None"
    "get_claim claims ''sub'' = PStr (agent_id agent)" "get_claim claims ''iss'' = PStr iss"
    "host_get_by_public_key iss hs = Some host" "host_status host \<noteq> HostRevoked" "host_id host = agent_host_id cur"
    "agent_get (agent_id agent) (before_touch (between rows)) = Some cur" "agent_status cur = AgentActive"
    "jwk_thumbprint_sha256 digest (agent_public_key cur) = jwk_thumbprint_sha256 digest (agent_public_key agent)"
    "check_agent_expiry (now_cas clk) cur = Live"
    "jv_agent r = Some (cur\<lparr>last_used_at := Some (now_used clk)\<rparr>)"
    "rows' = AList.update (agent_id agent) (cur\<lparr>last_used_at := Some (now_used clk)\<rparr>) (before_touch (between rows))"
proof -
  obtain agent claims host session where v:
    "r = \<lparr>jv_ok = True, jv_claims = Some claims, jv_host = Some host, jv_agent = Some session, jv_error = None\<rparr>"
    "jwt_decode j token (agent_public_key agent) = Inr claims"
    "verify_agent_claims now_ts now_jti hs aud agent claims cache = (Inr (Inr host), cache')"
    "slide_session_if_still_current digest clk before_touch agent (between rows) = (Inr (Inr session), rows')"
    by (rule verify_agent_jwt_ok [OF assms]) simp
  from touch_Some [OF slide_session_ok [OF v(4)]] obtain cur where cur:
    "map_of (before_touch (between rows)) (agent_id agent) = Some cur" "agent_status cur = AgentActive"
    "agent_host_id cur = agent_host_id agent"
    "jwk_thumbprint_sha256 digest (agent_public_key cur) = jwk_thumbprint_sha256 digest (agent_public_key agent)"
    "check_agent_expiry (now_cas clk) cur = Live" "session = cur\<lparr>last_used_at := Some (now_used clk)\<rparr>"
    "rows' = AList.update (agent_id agent) session (before_touch (between rows))" by blast
  from verify_agent_claims_ok [OF v(3)] obtain iss where
    "validate_standard_claims claims now_ts aud = Inr None" "get_claim claims ''sub'' = PStr (agent_id agent)"
    "get_claim claims ''iss'' = PStr iss" "host_get_by_public_key iss hs = Some host"
    "host_status host \<noteq> HostRevoked" "host_id host = agent_host_id agent" .
  with v cur show thesis
    by (intro that [of agent claims host iss cur]) (simp_all add: agent_get_def)
qed

subsection \<open>Properties\<close>

text \<open>C2: an agent token is accepted only if, at the instant its session is written, the store holds an
  active and unexpired session of the agent named by the token, with a key of the same thumbprint as
  the key that verified the signature; whatever other tasks did to the agent rows during
  verification. A revocation of the agent or a rotation of its key in the middle of a verification
  therefore always wins. The session belongs to the host named by the issuer claim, which was not
  revoked at the instant the host store was read (\<open>hs\<close>); that is before the touch, and a
  revocation of the host row alone after that read is not noticed.\<close>

theorem accepted_agent_token_is_current:
  assumes "verify_agent_jwt j digest now_ts now_jti clk between before_touch token hs aud (cache, rows) =
      (Inr r, (cache', rows'))" "jv_ok r"
  shows "\<exists>(agent :: agent_session) claims host cur iss.
      jwt_decode j token (agent_public_key agent) = Inr claims \<and> jv_claims r = Some claims \<and>
      validate_standard_claims claims now_ts aud = Inr None \<and>
      get_claim claims ''sub'' = PStr (agent_id agent) \<and> get_claim claims ''iss'' = PStr iss \<and>
      host_get_by_public_key iss hs = Some host \<and> host_status host \<noteq> HostRevoked \<and> host_id host = agent_host_id cur \<and>
      agent_get (agent_id agent) (before_touch (between rows)) = Some cur \<and> agent_status cur = AgentActive \<and>
      jwk_thumbprint_sha256 digest (agent_public_key cur) = jwk_thumbprint_sha256 digest (agent_public_key agent) \<and>
      check_agent_expiry (now_cas clk) cur = Live \<and>
      jv_agent r = Some (cur\<lparr>last_used_at := Some (now_used clk)\<rparr>) \<and>
      rows' = AList.update (agent_id agent) (cur\<lparr>last_used_at := Some (now_used clk)\<rparr>) (before_touch (between rows))"
  by (rule verify_agent_jwt_current [OF assms]) blast

text \<open>A library that checks nothing, one token, its agent and host, for the concrete instances.\<close>

definition sample_digest :: digest where
  "sample_digest d = (if map_of d ''k'' = Some (PStr ''z'') then ''zp'' else ''tp'')"

definition sample_jose :: "pydict \<Rightarrow> pydict \<Rightarrow> jose" where
  "sample_jose header claims = \<lparr>extract_compact = (\<lambda>t. Inr (header, PDict claims)), jwt_decode = (\<lambda>t k. Inr claims)\<rparr>"

definition sample_hosts :: host_store where
  "sample_hosts = \<lparr>hosts = [(''h'', sample_host)], thumb_to_host_id = [(''tp'', ''h'')]\<rparr>"

definition sample_agent_claims :: pydict where
  "sample_agent_claims = agent_jwt_claims ''tp'' ''a'' (OneAud ''srv'') None 1000 ''1''"

definition sample_clock :: session_clock where
  "sample_clock = \<lparr>now_first = 0, now_reread = 0, now_used = 7, now_cas = 0\<rparr>"

definition sample_verify_agent :: "rat \<Rightarrow> jti_cache option \<times> agent_rows \<Rightarrow>
   (jti_cache option \<times> agent_rows, py_exn, jwt_verify_result) outcome" where
  "sample_verify_agent now st =
     verify_agent_jwt (sample_jose [(''typ'', PStr AGENT_JWT_TYP)] sample_agent_claims) sample_digest
       now now sample_clock id id ''t'' sample_hosts (Some (OneAud ''srv'')) st"

lemma sample_claims_ok: "validate_standard_claims sample_agent_claims 1010 (Some (OneAud ''srv'')) = Inr None"
  by (simp add: sample_agent_claims_def agent_jwt_claims_def validate_standard_claims_def exp_valid_def get_claim_def
      DBL_LIMIT_def AGENT_JWT_TTL_SECONDS_def iat_not_in_future_def IAT_MAX_FUTURE_SKEW_SECONDS_def jti_present_def
      audience_matches_expected_def aud_value_def strip_eq_Nil_iff py_space_def)

lemma sample_verify_agent_eq:
  assumes "check_jti 1010 True ''a'' ''jwt_1'' cache = (Inr True, cache')"
  shows "sample_verify_agent 1010 (cache, [(''a'', sample_agent AgentActive)]) =
     (Inr \<lparr>jv_ok = True, jv_claims = Some sample_agent_claims, jv_host = Some sample_host,
        jv_agent = Some ((sample_agent AgentActive)\<lparr>last_used_at := Some 7\<rparr>), jv_error = None\<rparr>,
      (cache', [(''a'', (sample_agent AgentActive)\<lparr>last_used_at := Some 7\<rparr>)]))"
proof -
  have claims: "get_claim sample_agent_claims ''sub'' = PStr ''a''" "get_claim sample_agent_claims ''iss'' = PStr ''tp''"
    "jti_of sample_agent_claims = ''jwt_1''"
    by (simp_all add: sample_agent_claims_def agent_jwt_claims_def get_claim_def jti_of_def)
  have row: "agent_row_for_token (sample_jose [(''typ'', PStr AGENT_JWT_TYP)] sample_agent_claims) ''t''
      [(''a'', sample_agent AgentActive)] = Inr (Inr (sample_agent AgentActive))"
    using claims by (simp add: agent_row_for_token_def sample_jose_def get_claim_def strip_eq_Nil_iff py_space_def agent_get_def
        unusable_agent_error_def sample_agent_def)
  have host: "verify_agent_claims 1010 1010 sample_hosts (Some (OneAud ''srv'')) (sample_agent AgentActive)
      sample_agent_claims cache = (Inr (Inr sample_host), cache')"
    using claims assms by (simp add: verify_agent_claims_def sample_claims_ok strip_eq_Nil_iff py_space_def host_get_by_public_key_def
        sample_hosts_def sample_host_def sample_agent_def)
  have live: "check_agent_expiry t (sample_agent AgentActive) = Live" for t
    by (simp add: check_agent_expiry_def sample_agent_def)
  have slide: "slide_session_if_still_current sample_digest sample_clock id (sample_agent AgentActive)
      [(''a'', sample_agent AgentActive)] = (Inr (Inr ((sample_agent AgentActive)\<lparr>last_used_at := Some 7\<rparr>)),
      [(''a'', (sample_agent AgentActive)\<lparr>last_used_at := Some 7\<rparr>)])"
    using live by (simp add: slide_session_if_still_current_def agent_get_def unusable_agent_error_def
        agent_public_key_changed_def jwk_thumbprint_sha256_def required_members_def sample_digest_def member_def expired_agent_error_def
        touch_if_current_def Let_def sample_agent_def sample_clock_def)
  show ?thesis
    using row host live slide by (simp add: sample_verify_agent_def verify_agent_jwt_def sample_jose_def expired_agent_error_def)
qed

theorem accepted_agent_token_is_current_witness:
  "\<exists>cur. agent_get ''a'' [(''a'', sample_agent AgentActive)] = Some cur \<and> agent_status cur = AgentActive \<and>
    jv_agent (case fst (sample_verify_agent 1010 (None, [(''a'', sample_agent AgentActive)])) of Inr r \<Rightarrow> r) =
      Some (cur\<lparr>last_used_at := Some 7\<rparr>)"
  using accepted_agent_token_is_current [OF sample_verify_agent_eq [of None None, unfolded sample_verify_agent_def]]
    sample_verify_agent_eq [of None None]
  by (auto simp: check_jti_def sample_clock_def agent_get_def sample_agent_claims_def agent_jwt_claims_def get_claim_def split: if_splits)

text \<open>C3: an agent token accepted once is not accepted again by a verifier with the same replay cache,
  on three conditions. The token has a finite expiry, within the cache's window (less the time \<open>lag\<close> a
  verification takes between the claim check and the cache). The clock readings of the cache do not
  decrease. Fewer identifiers than the cache holds were presented to it in between: a full cache
  evicts its oldest entry, and then a token is accepted again. Beyond that it holds whatever the
  agent rows, the hosts, the expected audience or the keys are the second time. The hypothesis on
  the JOSE library is that a verified token's claims are the token's payload.\<close>

theorem agent_token_accepted_once:
  assumes jose: "\<And>t k c. jwt_decode j t k = Inr c \<Longrightarrow> \<exists>h. extract_compact j t = Inr (h, PDict c)"
    and first: "verify_agent_jwt j digest t1 u1 clk between before_touch token hs aud (Some cache, rows) =
      (Inr r1, (Some cache1, rows1))" "jv_ok r1" "jv_claims r1 = Some claims"
    and inv: "jc_inv t0 cache" "t0 \<le> u1"
    and exp: "py_float (get_claim claims ''exp'') = Inr (Fin e)" "e + lag \<le> u1 + jc_ttl cache"
    and later: "sorted (u1 # map fst calls @ [u2])" "u2 \<le> t2 + lag" "int (length calls) < jc_max_size cache"
    and second: "fst (verify_agent_jwt j digest t2 u2 clk' between' before_touch' token hs' aud'
      (Some (jc_run calls cache1), rows2)) = Inr r2"
  shows "\<not> jv_ok r2"
proof
  assume ok2: "jv_ok r2"
  obtain agent1 host1 where v1: "agent_row_for_token j token rows = Inr (Inr agent1)"
    "jwt_decode j token (agent_public_key agent1) = Inr claims"
    "verify_agent_claims t1 u1 hs aud agent1 claims (Some cache) = (Inr (Inr host1), Some cache1)"
    by (rule verify_agent_jwt_ok [OF first(1,2)]) (use first(3) in simp)
  obtain c2 rows3 where "verify_agent_jwt j digest t2 u2 clk' between' before_touch' token hs' aud'
      (Some (jc_run calls cache1), rows2) = (Inr r2, (c2, rows3))"
    using second by (metis prod.collapse)
  then obtain agent2 claims2 host2 where v2: "jwt_decode j token (agent_public_key agent2) = Inr claims2"
    "verify_agent_claims t2 u2 hs' aud' agent2 claims2 (Some (jc_run calls cache1)) = (Inr (Inr host2), c2)"
    by (rule verify_agent_jwt_ok [OF _ ok2]) simp
  have same: "claims2 = claims" using jose [OF v1(2)] jose [OF v2(1)] by auto
  from verify_agent_claims_ok [OF v1(3)] have a1: "validate_standard_claims claims t1 aud = Inr None"
    "get_claim claims ''sub'' = PStr (agent_id agent1)"
    "check_jti u1 True (agent_id agent1) (jti_of claims) (Some cache) = (Inr True, Some cache1)" by metis+
  from verify_agent_claims_ok [OF v2(2)] same have a2: "validate_standard_claims claims t2 aud' = Inr None"
    "get_claim claims ''sub'' = PStr (agent_id agent2)"
    "check_jti u2 True (agent_id agent2) (jti_of claims) (Some (jc_run calls cache1)) = (Inr True, c2)" by metis+
  let ?p = "agent_id agent1" and ?j = "jti_of claims"
  have rec: "fst (jc_check_and_record u1 ?p ?j cache) = Inr True" "cache1 = snd (jc_check_and_record u1 ?p ?j cache)"
    using a1(3) by (simp_all add: check_jti_Some)
  have c1: "jc_inv u1 cache1" "jc_holds (?p, ?j) (u1 + jc_ttl cache) 0 cache1"
    using jc_check_inv [OF inv] jc_holds_new [OF inv rec(1)] rec(2) by simp_all
  have "t2 < e" by (rule exp_valid_before [OF validate_standard_claims_ok(1) [OF a2(1)] exp(1)])
  then have fresh: "u2 < u1 + jc_ttl cache" using exp(2) later(2) by linarith
  have calls: "sorted (u1 # map fst calls)" "\<forall>(now, q, k) \<in> set calls. now < u1 + jc_ttl cache"
    "last (u1 # map fst calls) \<le> u2"
    using later(1) fresh by (auto simp: sorted_append last_map split: if_splits)
  have "jc_inv (last (u1 # map fst calls)) (jc_run calls cache1) \<and>
      jc_holds (?p, ?j) (u1 + jc_ttl cache) (length calls) (jc_run calls cache1)"
    using jc_run_holds [OF c1(1) calls(1,2) c1(2)] later(3) rec(2) by simp
  then have "fst (jc_check_and_record u2 ?p ?j (jc_run calls cache1)) = Inr False"
    using jc_holds_refuses [OF _ calls(3) fresh] validate_standard_claims_ok(3) [OF a1(1)] by blast
  with a2(2,3) a1(2) show False by (simp add: check_jti_Some)
qed

text \<open>The cache of the concrete instances, before and after the first token.\<close>

definition sample_cache :: "jti_key list \<Rightarrow> jti_cache" where
  "sample_cache ks = \<lparr>jc_ttl = 90, jc_max_size = 10, expiry_by_key = map (\<lambda>k. (k, 1100)) ks\<rparr>"

lemma sample_cache_record:
  assumes "j = ''jwt_1''"
  shows "jc_check_and_record 1010 p j (sample_cache []) = (Inr True, sample_cache [(p, j)])"
  using assms by (simp add: jc_check_and_record_def sample_cache_def jti_blank_def strip_eq_Nil_iff py_space_def
      prune_expired_def evict_to_max_size.simps)

lemma sample_cache_inv: "jc_inv t (sample_cache [])"
  by (simp add: jc_inv_def sample_cache_def)

theorem agent_token_accepted_once_witness:
  "\<not> (\<exists>r. fst (sample_verify_agent 1050 (Some (sample_cache [(''a'', ''jwt_1'')]), [(''a'', sample_agent AgentActive)])) = Inr r \<and> jv_ok r)"
proof
  assume "\<exists>r. fst (sample_verify_agent 1050 (Some (sample_cache [(''a'', ''jwt_1'')]), [(''a'', sample_agent AgentActive)])) = Inr r \<and> jv_ok r"
  then obtain r where r: "fst (sample_verify_agent 1050 (Some (sample_cache [(''a'', ''jwt_1'')]), [(''a'', sample_agent AgentActive)])) = Inr r"
    "jv_ok r" by blast
  have "check_jti 1010 True ''a'' ''jwt_1'' (Some (sample_cache [])) = (Inr True, Some (sample_cache [(''a'', ''jwt_1'')]))"
    by (simp add: check_jti_Some sample_cache_record)
  note first = sample_verify_agent_eq [OF this, unfolded sample_verify_agent_def]
  have "\<not> jv_ok r"
  proof (rule agent_token_accepted_once [OF _ first, where ?t0.0 = 0 and claims = sample_agent_claims and e = 1060 and lag = 0
        and calls = "[]" and ?u2.0 = 1050 and ?t2.0 = 1050])
    show "fst (verify_agent_jwt (sample_jose [(''typ'', PStr AGENT_JWT_TYP)] sample_agent_claims) sample_digest
       1050 1050 sample_clock id id ''t'' sample_hosts (Some (OneAud ''srv''))
       (Some (jc_run [] (sample_cache [(''a'', ''jwt_1'')])), [(''a'', sample_agent AgentActive)])) = Inr r"
      using r(1) by (simp add: sample_verify_agent_def)
  qed (simp_all add: sample_jose_def sample_cache_inv sample_agent_claims_def agent_jwt_claims_def get_claim_def
      AGENT_JWT_TTL_SECONDS_def DBL_LIMIT_def, simp_all add: sample_cache_def)
  with r(2) show False by simp
qed

text \<open>A host token may be accepted twice. The replay cache forgets an identifier when its window
  has passed, and nothing ties the window to the token's expiry: a token accepted and recorded at
  \<open>u1\<close> is accepted again at any time after \<open>u1\<close> plus the window at which it has not expired, on a
  verifier that recorded nothing else. With the defaults (300 seconds of lifetime, a window of 90) a
  token can be replayed during its last 210 seconds.\<close>

theorem host_token_replayable_after_window:
  assumes first: "verify_host_jwt j digest t1 u1 token hs aud True (Some cache) = (Inr r1, Some cache1)" "jv_ok r1"
    "jv_claims r1 = Some claims"
    and inv: "jc_inv t0 cache" "t0 \<le> u1" "0 < jc_ttl cache"
    and later: "u1 + jc_ttl cache \<le> u2" "t1 \<le> t2" "exp_valid claims t2 = Inr True"
  shows "\<exists>cache2. verify_host_jwt j digest t2 u2 token hs aud True (Some cache1) = (Inr r1, cache2)"
proof -
  obtain header p k host_pub iss where v: "extract_compact j token = Inr (header, PDict p)"
    "get_claim header ''typ'' = PStr HOST_JWT_TYP" "get_claim p ''host_public_key'' = PDict k"
    "jwt_decode j token k = Inr claims" "validate_standard_claims claims t1 aud = Inr None"
    "get_claim claims ''host_public_key'' = PDict host_pub" "jwk_thumbprint_sha256 digest host_pub = Inr iss"
    "get_claim claims ''iss'' = PStr iss" "check_jti u1 True iss (jti_of claims) (Some cache) = (Inr True, Some cache1)"
    "\<And>h. host_get_by_public_key iss hs = Some h \<Longrightarrow> host_status h \<noteq> HostRevoked"
    "r1 = \<lparr>jv_ok = True, jv_claims = Some claims, jv_host = host_get_by_public_key iss hs, jv_agent = None, jv_error = None\<rparr>"
    by (rule verify_host_jwt_ok [OF first(1,2)]) (use first(3) in auto)
  have c1: "cache1 = snd (jc_check_and_record u1 iss (jti_of claims) cache)"
    using v(9) by (simp add: check_jti_Some)
  have "jc_inv u1 cache1" "jc_ttl cache1 = jc_ttl cache"
    using jc_check_inv [OF inv(1,2)] c1 by simp_all
  then have "fst (jc_check_and_record u2 iss (jti_of claims) cache1) = Inr True"
    using later(1) inv(3) validate_standard_claims_ok(3) [OF v(5)] by (intro jc_check_after_window [where t = u1]) auto
  then have "check_jti u2 True iss (jti_of claims) (Some cache1) =
      (Inr True, Some (snd (jc_check_and_record u2 iss (jti_of claims) cache1)))"
    by (simp add: check_jti_Some)
  from verify_host_jwt_intro [OF v(1-4) validate_standard_claims_later [OF v(5) later(2,3)] v(6-8) this v(10)] v(11)
  show ?thesis by blast
qed

definition sample_host_claims :: pydict where
  "sample_host_claims = host_jwt_claims ''tp'' (host_public_key sample_host) (OneAud ''srv'') None
     DEFAULT_HOST_JWT_TTL_SECONDS 1000 ''1''"

lemma sample_host_claims_ok:
  "exp_valid sample_host_claims 1010 = Inr True" "exp_valid sample_host_claims 1200 = Inr True"
  "validate_standard_claims sample_host_claims 1010 (Some (OneAud ''srv'')) = Inr None"
  by (simp_all add: sample_host_claims_def host_jwt_claims_def validate_standard_claims_def exp_valid_def get_claim_def
      DBL_LIMIT_def DEFAULT_HOST_JWT_TTL_SECONDS_def iat_not_in_future_def IAT_MAX_FUTURE_SKEW_SECONDS_def jti_present_def
      audience_matches_expected_def aud_value_def strip_eq_Nil_iff py_space_def)

lemma sample_verify_host_eq:
  "verify_host_jwt (sample_jose [(''typ'', PStr HOST_JWT_TYP)] sample_host_claims) sample_digest 1010 1010 ''t'' sample_hosts
     (Some (OneAud ''srv'')) True (Some (sample_cache [])) =
    (Inr \<lparr>jv_ok = True, jv_claims = Some sample_host_claims, jv_host = host_get_by_public_key ''tp'' sample_hosts,
      jv_agent = None, jv_error = None\<rparr>, Some (sample_cache [(''tp'', ''jwt_1'')]))"
proof -
  let ?j = "sample_jose [(''typ'', PStr HOST_JWT_TYP)] sample_host_claims"
  have claims: "get_claim sample_host_claims ''host_public_key'' = PDict (host_public_key sample_host)"
    "get_claim sample_host_claims ''iss'' = PStr ''tp''" "jti_of sample_host_claims = ''jwt_1''"
    by (simp_all add: sample_host_claims_def host_jwt_claims_def get_claim_def jti_of_def)
  have "check_jti 1010 True ''tp'' (jti_of sample_host_claims) (Some (sample_cache [])) =
      (Inr True, Some (sample_cache [(''tp'', ''jwt_1'')]))"
    by (simp add: check_jti_Some sample_cache_record claims(3))
  note first = verify_host_jwt_intro [where j = ?j and header = "[(''typ'', PStr HOST_JWT_TYP)]" and token = "''t''" and hs = sample_hosts and digest = sample_digest,
      OF _ _ claims(1) _ sample_host_claims_ok(3) claims(1) _ claims(2) this]
  show "verify_host_jwt ?j sample_digest 1010 1010 ''t'' sample_hosts (Some (OneAud ''srv'')) True (Some (sample_cache [])) =
    (Inr \<lparr>jv_ok = True, jv_claims = Some sample_host_claims, jv_host = host_get_by_public_key ''tp'' sample_hosts,
      jv_agent = None, jv_error = None\<rparr>, Some (sample_cache [(''tp'', ''jwt_1'')]))"
    by (rule first) (simp_all add: sample_jose_def get_claim_def jwk_thumbprint_sha256_def required_members_def sample_digest_def member_def
        sample_host_def host_get_by_public_key_def sample_hosts_def)
qed

theorem host_token_replayable_after_window_witness:
  "\<exists>cache r cache2. verify_host_jwt (sample_jose [(''typ'', PStr HOST_JWT_TYP)] sample_host_claims) sample_digest
     1200 1200 ''t'' sample_hosts (Some (OneAud ''srv'')) True
     (snd (verify_host_jwt (sample_jose [(''typ'', PStr HOST_JWT_TYP)] sample_host_claims) sample_digest
       1010 1010 ''t'' sample_hosts (Some (OneAud ''srv'')) True (Some cache))) = (Inr r, cache2) \<and> jv_ok r"
proof -
  let ?j = "sample_jose [(''typ'', PStr HOST_JWT_TYP)] sample_host_claims"
  from host_token_replayable_after_window [OF sample_verify_host_eq, of sample_host_claims 1010 1200 1200] sample_host_claims_ok
  obtain cache2 where "verify_host_jwt ?j sample_digest 1200 1200 ''t'' sample_hosts (Some (OneAud ''srv'')) True
      (Some (sample_cache [(''tp'', ''jwt_1'')])) =
    (Inr \<lparr>jv_ok = True, jv_claims = Some sample_host_claims, jv_host = host_get_by_public_key ''tp'' sample_hosts,
      jv_agent = None, jv_error = None\<rparr>, cache2)"
    by (auto simp: sample_cache_inv) (auto simp: sample_cache_def)
  with sample_verify_host_eq show ?thesis by (intro exI [of _ "sample_cache []"]) simp
qed

end
