(* ===== verification/Self_Auth.thy ===== *)
theory Self_Auth
  imports Agent_Jwt
begin

text \<open>
  Proof of a recent session and of presence on the approval paths (\<open>src/asap/auth/self_auth.py\<close>): the
  age of the host token and the WebAuthn gate. The verifier is whatever object the server is
  configured with, so it is a record of its two operations; \<open>placeholder_webauthn\<close> is the one used when
  WebAuthn is not installed.
\<close>

record fresh_session_config =
  window_seconds :: int
  require_webauthn_for :: "string list"

subsection \<open>Age of the host token\<close>

definition host_jwt_issued_at_seconds :: "pydict \<Rightarrow> py_exn + pyfloat option" where
  "host_jwt_issued_at_seconds claims =
     (case get_claim claims ''iat'' of
        PNone \<Rightarrow> Inr None
      | iat \<Rightarrow>
          (case py_float iat of
             Inl OverflowError \<Rightarrow> Inl OverflowError
           | Inl _ \<Rightarrow> Inr None
           | Inr t \<Rightarrow> Inr (Some t)))"

text \<open>\<open>(now_ts - session_timestamp) <= window\<close> on floating point numbers.\<close>

definition check_fresh_session :: "rat \<Rightarrow> fresh_session_config \<Rightarrow> pyfloat \<Rightarrow> bool" where
  "check_fresh_session now_ts config t =
     (case t of
        Fin s \<Rightarrow> now_ts - s \<le> of_int (window_seconds config)
      | PosInf \<Rightarrow> True | NegInf \<Rightarrow> False | NaN \<Rightarrow> False)"

definition STALE_SESSION :: string where
  "STALE_SESSION = ''stale host session; re-authenticate within the fresh-session window''"

definition fresh_session_violation_detail :: "rat \<Rightarrow> pydict \<Rightarrow> fresh_session_config \<Rightarrow> py_exn + string option" where
  "fresh_session_violation_detail now_ts claims config =
     (case host_jwt_issued_at_seconds claims of
        Inl x \<Rightarrow> Inl x
      | Inr None \<Rightarrow> Inr (Some ''missing iat on host token; cannot enforce fresh session for approval'')
      | Inr (Some t) \<Rightarrow> Inr (if check_fresh_session now_ts config t then None else Some STALE_SESSION))"

subsection \<open>The WebAuthn gate\<close>

text \<open>\<open>wv_real\<close> is \<open>uses_real_webauthn_verifier\<close>; \<open>wv_verify\<close> takes challenge, response, host and whether user
  verification is required.\<close>

record webauthn_verifier =
  wv_real :: bool
  wv_verify :: "string \<Rightarrow> pyval \<Rightarrow> string option \<Rightarrow> bool \<Rightarrow> bool"

definition placeholder_webauthn :: webauthn_verifier where
  "placeholder_webauthn = \<lparr>wv_real = False, wv_verify = (\<lambda>challenge response host uv. True)\<rparr>"

definition webauthn_required_capability_names :: "string list \<Rightarrow> fresh_session_config \<Rightarrow> string list" where
  "webauthn_required_capability_names requested config = filter (\<lambda>n. n \<in> set (require_webauthn_for config)) requested"

definition webauthn_needed :: "string list \<Rightarrow> fresh_session_config option \<Rightarrow> string list" where
  "webauthn_needed requested config =
     (case config of
        None \<Rightarrow> []
      | Some c \<Rightarrow> if require_webauthn_for c = [] then [] else webauthn_required_capability_names requested c)"

text \<open>The failure: its text and HTTP status.\<close>

definition check_webauthn_for_approval_path ::
  "string list \<Rightarrow> pydict \<Rightarrow> fresh_session_config option \<Rightarrow> webauthn_verifier \<Rightarrow> string option \<Rightarrow> bool \<Rightarrow> (string \<times> int) option" where
  "check_webauthn_for_approval_path requested raw_body config verifier hid agent_controls_browser =
     (let needed = webauthn_needed requested config;
          browser_gate = agent_controls_browser \<and> wv_real verifier;
          failed = (\<lambda>msg. Some (msg, if browser_gate then 403 else 400))
      in if needed = [] \<and> \<not> browser_gate then None
         else (case get_claim raw_body ''webauthn'' of
            PDict block \<Rightarrow>
              (case get_claim block ''challenge'' of
                 PStr challenge \<Rightarrow>
                   if strip challenge = [] then failed ''webauthn.challenge must be a non-empty string''
                   else if get_claim block ''response'' = PNone then failed ''webauthn.response is required''
                   else if \<not> wv_verify verifier challenge (get_claim block ''response'') hid browser_gate
                   then failed ''webauthn verification failed''
                   else None
               | _ \<Rightarrow> failed ''webauthn.challenge must be a non-empty string'')
          | _ \<Rightarrow> failed (if browser_gate \<and> needed = []
                        then ''webauthn object required for browser-controlled agent registration''
                        else ''webauthn object required for high-risk capabilities'')))"

definition verify_webauthn_if_required ::
  "string list \<Rightarrow> pydict \<Rightarrow> fresh_session_config \<Rightarrow> webauthn_verifier \<Rightarrow> string option \<Rightarrow> string option" where
  "verify_webauthn_if_required requested raw_body config verifier hid =
     map_option fst (check_webauthn_for_approval_path requested raw_body (Some config) verifier hid False)"

subsection \<open>What passing means\<close>

lemma fresh_session_ok_iff:
  "fresh_session_violation_detail now claims config = Inr None \<longleftrightarrow>
     (\<exists>t. host_jwt_issued_at_seconds claims = Inr (Some t) \<and> check_fresh_session now config t)"
  by (auto simp: fresh_session_violation_detail_def split: sum.splits option.splits)

lemma webauthn_passed:
  assumes "check_webauthn_for_approval_path requested raw_body config verifier hid browser = None"
    and "browser \<and> wv_real verifier \<or> (\<exists>c n. config = Some c \<and> n \<in> set requested \<and> n \<in> set (require_webauthn_for c))"
  obtains block challenge where "get_claim raw_body ''webauthn'' = PDict block" "get_claim block ''challenge'' = PStr challenge"
    "strip challenge \<noteq> []" "wv_verify verifier challenge (get_claim block ''response'') hid (browser \<and> wv_real verifier)"
proof -
  have gate: "\<not> (webauthn_needed requested config = [] \<and> \<not> (browser \<and> wv_real verifier))"
    using assms(2) by (auto simp: webauthn_needed_def webauthn_required_capability_names_def filter_empty_conv split: if_splits)
  note run = assms(1) [unfolded check_webauthn_for_approval_path_def Let_def if_not_P [OF gate]]
  have "\<exists>block. get_claim raw_body ''webauthn'' = PDict block"
    using run by (cases "get_claim raw_body ''webauthn''") simp_all
  then obtain block where block: "get_claim raw_body ''webauthn'' = PDict block" by blast
  have "\<exists>ch. get_claim block ''challenge'' = PStr ch"
    using run block by (cases "get_claim block ''challenge''") simp_all
  then obtain ch where ch: "get_claim block ''challenge'' = PStr ch" by blast
  show thesis
    using run block ch by (intro that [OF block ch]) (simp_all split: if_splits)
qed

subsection \<open>Properties\<close>

text \<open>A request that asks for a capability the policy protects, or comes from an agent that controls
  the browser on a server with a real verifier, passes the gate only with an assertion that the
  verifier accepted for the challenge in the body and for this host; with the browser gate the
  assertion includes user verification.\<close>

theorem protected_requests_need_webauthn:
  assumes "check_webauthn_for_approval_path requested raw_body config verifier hid browser = None"
    and "browser \<and> wv_real verifier \<or> (\<exists>c n. config = Some c \<and> n \<in> set requested \<and> n \<in> set (require_webauthn_for c))"
  shows "\<exists>block challenge. get_claim raw_body ''webauthn'' = PDict block \<and> get_claim block ''challenge'' = PStr challenge \<and>
    strip challenge \<noteq> [] \<and> wv_verify verifier challenge (get_claim block ''response'') hid (browser \<and> wv_real verifier)"
  by (rule webauthn_passed [OF assms]) blast

theorem protected_requests_need_webauthn_witness:
  "\<exists>block challenge. get_claim [(''webauthn'', PDict [(''challenge'', PStr ''c''), (''response'', PInt 1)])] ''webauthn'' = PDict block \<and>
     get_claim block ''challenge'' = PStr challenge \<and> challenge = ''c''"
proof -
  have "check_webauthn_for_approval_path [''pay''] [(''webauthn'', PDict [(''challenge'', PStr ''c''), (''response'', PInt 1)])]
      (Some \<lparr>window_seconds = 300, require_webauthn_for = [''pay'']\<rparr>) placeholder_webauthn None False = None"
    by (simp add: check_webauthn_for_approval_path_def webauthn_needed_def webauthn_required_capability_names_def get_claim_def
        placeholder_webauthn_def strip_eq_Nil_iff py_space_def)
  from protected_requests_need_webauthn [OF this] show ?thesis
    by (auto simp: get_claim_def)
qed

end
