(* ===== verification/Approval.thy ===== *)
theory Approval
  imports Identity
begin

text \<open>
  Approval requests (\<open>src/asap/auth/approval.py\<close>): the in-memory store, Device Authorization and
  CIBA flows, and the resolution of a request by a human through A2H. The store's methods hold one
  lock for their whole body and are one step each; every reading of the clock is an argument.

  \<open>fmt\<close> is the text \<open>str()\<close> gives for a name that is not a string.
\<close>

subsection \<open>Requests\<close>

datatype approval_method = DeviceAuthorization | Ciba
datatype approval_status = Pending | Approved | Denied | ExpiredReq
datatype approval_kind = Registration | Escalation

record approval_request =
  ar_agent_id :: string
  ar_method :: approval_method
  ar_capabilities :: "string list"
  ar_specs :: "pydict list"
  ar_kind :: approval_kind
  ar_status :: approval_status
  ar_user_code :: "string option"
  ar_verification_uri :: "string option"
  ar_verification_uri_complete :: "string option"
  ar_binding_message :: "string option"
  ar_expires_in :: int
  ar_interval :: int
  ar_created_at :: datetime
  ar_approved_by :: "string option"
  ar_deny_reason :: "string option"

record approval_object =
  ao_method :: approval_method
  ao_verification_uri :: "string option"
  ao_verification_uri_complete :: "string option"
  ao_user_code :: "string option"
  ao_binding_message :: "string option"
  ao_expires_in :: int
  ao_interval :: int

definition deadline :: "approval_request \<Rightarrow> datetime" where
  "deadline st = ar_created_at st + ar_expires_in st * 1000000"

definition refresh_expired :: "datetime \<Rightarrow> approval_request \<Rightarrow> approval_request" where
  "refresh_expired now st =
     (if ar_status st \<noteq> Pending then st
      else if deadline st \<le> now then st\<lparr>ar_status := ExpiredReq\<rparr> else st)"

definition approval_object_for_client :: "datetime \<Rightarrow> approval_request \<Rightarrow> approval_object" where
  "approval_object_for_client now st =
     \<lparr>ao_method = ar_method st, ao_verification_uri = ar_verification_uri st,
      ao_verification_uri_complete = ar_verification_uri_complete st, ao_user_code = ar_user_code st,
      ao_binding_message = ar_binding_message st,
      ao_expires_in = max 1 (py_trunc (of_int (deadline st - now) / 1000000)),
      ao_interval = ar_interval st\<rparr>"

definition select_approval_method ::
  "host_identity \<Rightarrow> bool \<Rightarrow> approval_method option \<Rightarrow> bool \<Rightarrow> approval_method" where
  "select_approval_method host host_supports_ciba preferred agent_controls_browser =
     (let linked = (case host_user_id host of None \<Rightarrow> False | Some u \<Rightarrow> u \<noteq> [] \<and> strip u \<noteq> []);
          can_ciba = linked \<and> host_supports_ciba
      in if agent_controls_browser \<and> can_ciba then Ciba
         else if preferred = Some DeviceAuthorization then DeviceAuthorization
         else if preferred = Some Ciba then (if can_ciba then Ciba else DeviceAuthorization)
         else if can_ciba then Ciba else DeviceAuthorization)"

subsection \<open>The store\<close>

type_synonym approval_store = "(string, approval_request) dict"

text \<open>\<open>create\<close>: the model requires a lifetime and an interval of at least one second.\<close>

definition approval_create ::
  "datetime \<Rightarrow> approval_request \<Rightarrow> approval_store \<Rightarrow> (approval_store, py_exn, unit) outcome" where
  "approval_create now req s =
     (if ar_expires_in req < 1 \<or> ar_interval req < 1 then (Inl (ValueError ''greater than or equal to 1''), s)
      else (Inr (), AList.update (ar_agent_id req)
              (req\<lparr>ar_status := Pending, ar_created_at := now, ar_approved_by := None, ar_deny_reason := None\<rparr>) s))"

definition approval_remove :: "string \<Rightarrow> approval_store \<Rightarrow> approval_store" where
  "approval_remove aid s = AList.delete aid s"

definition approval_get ::
  "datetime \<Rightarrow> string \<Rightarrow> approval_store \<Rightarrow> approval_request option \<times> approval_store" where
  "approval_get now aid s =
     (case map_of s aid of
        None \<Rightarrow> (None, s)
      | Some raw \<Rightarrow>
          (let updated = refresh_expired now raw
           in (Some updated, if updated \<noteq> raw then AList.update aid updated s else s)))"

definition approval_approve ::
  "datetime \<Rightarrow> string \<Rightarrow> string \<Rightarrow> approval_store \<Rightarrow> (approval_store, py_exn, unit) outcome" where
  "approval_approve now aid user s =
     (case map_of s aid of
        None \<Rightarrow> (Inl (KeyError aid), s)
      | Some raw \<Rightarrow>
          (let current = refresh_expired now raw in
           if ar_status current = ExpiredReq
           then (Inl (ValueError ''Approval request expired''), AList.update aid current s)
           else if ar_status current \<noteq> Pending
           then (Inl (ValueError ''Cannot approve request''), s)
           else (Inr (), AList.update aid (current\<lparr>ar_status := Approved, ar_approved_by := Some user\<rparr>) s)))"

definition approval_deny ::
  "datetime \<Rightarrow> string \<Rightarrow> string \<Rightarrow> approval_store \<Rightarrow> (approval_store, py_exn, unit) outcome" where
  "approval_deny now aid reason s =
     (case map_of s aid of
        None \<Rightarrow> (Inl (KeyError aid), s)
      | Some raw \<Rightarrow>
          (let current = refresh_expired now raw in
           if ar_status current = ExpiredReq
           then (Inl (ValueError ''Approval request expired''), AList.update aid current s)
           else if ar_status current \<noteq> Pending
           then (Inl (ValueError ''Cannot deny request''), s)
           else (Inr (), AList.update aid (current\<lparr>ar_status := Denied, ar_deny_reason := Some reason\<rparr>) s)))"

definition check_approval_status ::
  "datetime \<Rightarrow> string \<Rightarrow> approval_store \<Rightarrow> (approval_store, py_exn, approval_status) outcome" where
  "check_approval_status now aid s =
     (case approval_get now aid s of
        (None, s') \<Rightarrow> (Inl (KeyError aid), s')
      | (Some st, s') \<Rightarrow> (Inr (ar_status st), s'))"

subsection \<open>Payloads\<close>

definition spec_label :: "(pyval \<Rightarrow> string) \<Rightarrow> pydict \<Rightarrow> string" where
  "spec_label fmt spec = (case map_of spec ''name'' of None \<Rightarrow> [] | Some (PStr s) \<Rightarrow> s | Some v \<Rightarrow> fmt v)"

text \<open>A dictionary by name keeps the order of first occurrence, which is the order of \<open>order\<close>.\<close>

definition merge_capability_specs :: "(pyval \<Rightarrow> string) \<Rightarrow> pydict list \<Rightarrow> pydict list \<Rightarrow> pydict list" where
  "merge_capability_specs fmt existing incoming =
     (let (by_name, order) =
        fold (\<lambda>spec (by_name, order).
               (AList.update (spec_label fmt spec) spec by_name,
                if map_of by_name (spec_label fmt spec) = None then order @ [spec_label fmt spec] else order))
          (existing @ incoming) ([], [])
      in map (\<lambda>n. case map_of by_name n of Some spec \<Rightarrow> spec | None \<Rightarrow> []) order)"

definition merged_pending_payload ::
  "(pyval \<Rightarrow> string) \<Rightarrow> approval_request \<Rightarrow> string list \<Rightarrow> pydict list option \<Rightarrow> string list \<times> pydict list" where
  "merged_pending_payload fmt existing caps specs =
     (let incoming = (case specs of None \<Rightarrow> [] | Some l \<Rightarrow> l)
      in (fromkeys (ar_capabilities existing @ caps), merge_capability_specs fmt (ar_specs existing) incoming))"

definition specs_eq :: "pydict list \<Rightarrow> pydict list \<Rightarrow> bool" where
  "specs_eq xs ys = py_eq_list (map PDict xs) (map PDict ys)"

definition pending_matches_expected :: "approval_request option \<Rightarrow> pydict list \<Rightarrow> bool" where
  "pending_matches_expected st expected =
     (case st of None \<Rightarrow> False | Some st \<Rightarrow> ar_status st = Pending \<and> specs_eq (ar_specs st) expected)"

definition pending_payload_unchanged :: "approval_request \<Rightarrow> string list \<Rightarrow> pydict list \<Rightarrow> bool" where
  "pending_payload_unchanged existing caps specs \<longleftrightarrow> specs_eq specs (ar_specs existing) \<and> caps = ar_capabilities existing"

subsection \<open>The flows\<close>

definition DEFAULT_DEVICE_VERIFICATION_URI :: string where
  "DEFAULT_DEVICE_VERIFICATION_URI = ''https://asap.local/device''"

definition DEFAULT_CIBA_BINDING_MESSAGE :: string where
  "DEFAULT_CIBA_BINDING_MESSAGE = ''Approve ASAP agent registration''"

text \<open>The readings of the clock in one flow: by the first \<open>get\<close>, by \<open>create\<close>, by the second \<open>get\<close> and
  for the object returned.\<close>

record flow_clock =
  fc_get :: datetime
  fc_create :: datetime
  fc_reget :: datetime
  fc_object :: datetime

text \<open>The part the two flows share: reuse or merge a pending request of the same method and kind.
  \<open>Inl\<close> is the request to return unchanged.\<close>

definition reuse_or_merge ::
  "(pyval \<Rightarrow> string) \<Rightarrow> approval_method \<Rightarrow> approval_kind \<Rightarrow> string list \<Rightarrow> pydict list option \<Rightarrow>
   approval_request option \<Rightarrow> approval_request + string list \<times> pydict list option" where
  "reuse_or_merge fmt method kind caps specs existing =
     (case existing of
        None \<Rightarrow> Inr (caps, specs)
      | Some e \<Rightarrow>
          if ar_method e = method \<and> ar_status e = Pending \<and> ar_kind e = kind
          then (let (caps', specs') = merged_pending_payload fmt e caps specs in
                if pending_payload_unchanged e caps' specs' then Inl e else Inr (caps', Some specs'))
          else Inr (caps, specs))"

definition start_request ::
  "flow_clock \<Rightarrow> approval_request \<Rightarrow> approval_store \<Rightarrow> (approval_store, py_exn, approval_object) outcome" where
  "start_request clk req s =
     (case approval_create (fc_create clk) req s of
        (Inl x, s1) \<Rightarrow> (Inl x, s1)
      | (Inr u, s1) \<Rightarrow>
          (case approval_get (fc_reget clk) (ar_agent_id req) s1 of
             (None, s2) \<Rightarrow> (Inl (RuntimeError ''approval request missing after create''), s2)
           | (Some fresh, s2) \<Rightarrow> (Inr (approval_object_for_client (fc_object clk) fresh), s2)))"

definition new_request ::
  "string \<Rightarrow> approval_method \<Rightarrow> approval_kind \<Rightarrow> string list \<Rightarrow> pydict list option \<Rightarrow> int \<Rightarrow> int \<Rightarrow>
   string option \<Rightarrow> string option \<Rightarrow> string option \<Rightarrow> string option \<Rightarrow> approval_request" where
  "new_request aid method kind caps specs expires interval user_code uri uri_complete binding =
     \<lparr>ar_agent_id = aid, ar_method = method, ar_capabilities = caps,
      ar_specs = (case specs of None \<Rightarrow> [] | Some l \<Rightarrow> l), ar_kind = kind, ar_status = Pending,
      ar_user_code = user_code, ar_verification_uri = uri, ar_verification_uri_complete = uri_complete,
      ar_binding_message = binding, ar_expires_in = expires, ar_interval = interval,
      ar_created_at = 0, ar_approved_by = None, ar_deny_reason = None\<rparr>"

text \<open>\<open>code\<close> is the user code drawn if a new one is needed.\<close>

definition create_device_authorization ::
  "(pyval \<Rightarrow> string) \<Rightarrow> flow_clock \<Rightarrow> string \<Rightarrow> string \<Rightarrow> string list \<Rightarrow> int \<Rightarrow> int \<Rightarrow> string option \<Rightarrow>
   pydict list option \<Rightarrow> approval_kind \<Rightarrow> approval_store \<Rightarrow> (approval_store, py_exn, approval_object) outcome" where
  "create_device_authorization fmt clk code aid caps expires interval uri specs kind s =
     (let base_uri = (case uri of None \<Rightarrow> DEFAULT_DEVICE_VERIFICATION_URI
                      | Some u \<Rightarrow> if u = [] then DEFAULT_DEVICE_VERIFICATION_URI else u) in
      case approval_get (fc_get clk) aid s of
        (existing, s1) \<Rightarrow>
          (case reuse_or_merge fmt DeviceAuthorization kind caps specs existing of
             Inl e \<Rightarrow> (Inr (approval_object_for_client (fc_object clk) e), s1)
           | Inr (caps', specs') \<Rightarrow>
               start_request clk
                 (new_request aid DeviceAuthorization kind caps' specs' expires interval (Some code) (Some base_uri)
                    (Some (base_uri @ ''?user_code='' @ code)) None) s1))"

definition create_ciba_approval ::
  "(pyval \<Rightarrow> string) \<Rightarrow> flow_clock \<Rightarrow> string \<Rightarrow> string list \<Rightarrow> string option \<Rightarrow> int \<Rightarrow> int \<Rightarrow>
   pydict list option \<Rightarrow> approval_kind \<Rightarrow> approval_store \<Rightarrow> (approval_store, py_exn, approval_object) outcome" where
  "create_ciba_approval fmt clk aid caps binding expires interval specs kind s =
     (let msg = (case binding of None \<Rightarrow> DEFAULT_CIBA_BINDING_MESSAGE | Some m \<Rightarrow> m) in
      case approval_get (fc_get clk) aid s of
        (existing, s1) \<Rightarrow>
          (case reuse_or_merge fmt Ciba kind caps specs existing of
             Inl e \<Rightarrow> (Inr (approval_object_for_client (fc_object clk) e), s1)
           | Inr (caps', specs') \<Rightarrow>
               start_request clk
                 (new_request aid Ciba kind caps' specs' expires interval None None None (Some msg)) s1))"

subsection \<open>Resolution by a human\<close>

text \<open>The provider's answer; \<open>deciding\<close> is what other tasks do to the store until it arrives,
  \<open>t_get\<close> and \<open>t_decide\<close> the clock of the two store calls.\<close>

record a2h_result =
  a2h_approve :: bool
  a2h_data :: "pydict option"

definition resolve_via_a2h ::
  "(approval_store \<Rightarrow> approval_store) \<Rightarrow> datetime \<Rightarrow> datetime \<Rightarrow> a2h_result \<Rightarrow> string \<Rightarrow> string \<Rightarrow>
   pydict list option \<Rightarrow> approval_store \<Rightarrow> (approval_store, py_exn, unit) outcome" where
  "resolve_via_a2h deciding t_get t_decide result aid principal_id expected s0 =
     (let s = deciding s0;
          (matches, s1) =
            (case expected of
               None \<Rightarrow> (True, s)
             | Some e \<Rightarrow> (case approval_get t_get aid s of (st, s') \<Rightarrow> (pending_matches_expected st e, s')))
      in if \<not> matches then (Inr (), s1)
         else if a2h_approve result then approval_approve t_decide aid principal_id s1
         else approval_deny t_decide aid
                (case a2h_data result of
                   None \<Rightarrow> ''declined''
                 | Some d \<Rightarrow> (case map_of d ''reason'' of Some (PStr r) \<Rightarrow> r | _ \<Rightarrow> ''declined'')) s1)"

subsection \<open>Decisions\<close>

text \<open>Calls about one request, with their times.\<close>

datatype ap_op = Look datetime | Accept datetime string | Refuse datetime string

fun ap_time :: "ap_op \<Rightarrow> datetime" where
  "ap_time (Look t) = t"
| "ap_time (Accept t u) = t"
| "ap_time (Refuse t r) = t"

fun ap_step :: "string \<Rightarrow> ap_op \<Rightarrow> approval_store \<Rightarrow> approval_store" where
  "ap_step aid (Look t) s = snd (approval_get t aid s)"
| "ap_step aid (Accept t u) s = snd (approval_approve t aid u s)"
| "ap_step aid (Refuse t r) s = snd (approval_deny t aid r s)"

text \<open>What the calls should amount to: the first one that comes too late expires the request, the
  first timely decision settles it.\<close>

fun settle :: "ap_op list \<Rightarrow> approval_request \<Rightarrow> approval_request" where
  "settle [] st = st"
| "settle (opn # ops) st =
     (if deadline st \<le> ap_time opn then st\<lparr>ar_status := ExpiredReq\<rparr>
      else case opn of
        Look t \<Rightarrow> settle ops st
      | Accept t u \<Rightarrow> st\<lparr>ar_status := Approved, ar_approved_by := Some u\<rparr>
      | Refuse t r \<Rightarrow> st\<lparr>ar_status := Denied, ar_deny_reason := Some r\<rparr>)"

lemmas ap_defs [store_defs] = approval_get_def approval_approve_def approval_deny_def refresh_expired_def Let_def

lemma settled_stays:
  assumes "map_of s aid = Some st" "ar_status st \<noteq> Pending"
  shows "map_of (fold (ap_step aid) ops s) aid = Some st"
  using assms(1)
proof (induction ops arbitrary: s)
  case (Cons opn ops)
  have "map_of (ap_step aid opn s) aid = Some st"
    using Cons.prems assms(2) by (cases opn) (auto simp: ap_defs dict_simps)
  with Cons.IH show ?case by simp
qed simp

lemma pending_step:
  assumes "map_of s aid = Some st" "ar_status st = Pending" "deadline st \<le> ap_time opn"
  shows "map_of (ap_step aid opn s) aid = Some (st\<lparr>ar_status := ExpiredReq\<rparr>)"
  using assms by (cases opn) (auto simp: ap_defs dict_simps)

lemma request_settled:
  "map_of s aid = Some st \<Longrightarrow> ar_status st = Pending \<Longrightarrow>
     map_of (fold (ap_step aid) ops s) aid = Some (settle ops st)"
proof (induction ops arbitrary: s)
  case (Cons opn ops)
  show ?case
  proof (cases "deadline st \<le> ap_time opn")
    case True
    then show ?thesis
      using settled_stays [OF pending_step [OF Cons.prems True], of ops] by simp
  next
    case False
    show ?thesis
    proof (cases opn)
      case (Look t)
      then have "ap_step aid opn s = s"
        using False Cons.prems by (simp add: ap_defs)
      with Cons Look False show ?thesis by simp
    next
      case (Accept t u)
      have "map_of (ap_step aid opn s) aid = Some (st\<lparr>ar_status := Approved, ar_approved_by := Some u\<rparr>)"
        using False Cons.prems Accept by (simp add: ap_defs dict_simps)
      with settled_stays [OF this, of ops] Accept False show ?thesis by simp
    next
      case (Refuse t r)
      have "map_of (ap_step aid opn s) aid = Some (st\<lparr>ar_status := Denied, ar_deny_reason := Some r\<rparr>)"
        using False Cons.prems Refuse by (simp add: ap_defs dict_simps)
      with settled_stays [OF this, of ops] Refuse False show ?thesis by simp
    qed
  qed
qed simp

subsection \<open>Merging\<close>

abbreviation spec_dict :: "(pyval \<Rightarrow> string) \<Rightarrow> pydict list \<Rightarrow> (string, pydict) dict" where
  "spec_dict fmt specs \<equiv> fold (\<lambda>spec d. AList.update (spec_label fmt spec) spec d) specs []"

lemma merge_fold:
  "fold (\<lambda>spec (by_name, order).
       (AList.update (spec_label fmt spec) spec by_name,
        if map_of by_name (spec_label fmt spec) = None then order @ [spec_label fmt spec] else order))
     specs (d, map fst d) =
   (let d' = fold (\<lambda>spec d. AList.update (spec_label fmt spec) spec d) specs d in (d', map fst d'))"
proof (induction specs arbitrary: d)
  case (Cons spec specs)
  have "map fst (AList.update (spec_label fmt spec) spec d) =
    (if map_of d (spec_label fmt spec) = None then map fst d @ [spec_label fmt spec] else map fst d)"
    by (induction d) auto
  with Cons [of "AList.update (spec_label fmt spec) spec d"] show ?case by (simp add: Let_def)
qed simp

lemma wf_spec_dict: "wf_dict d \<Longrightarrow> wf_dict (fold (\<lambda>spec d. AList.update (spec_label fmt spec) spec d) specs d)"
  by (induction specs arbitrary: d) (simp_all add: dict_simps)

lemma map_values_of_keys: "wf_dict d \<Longrightarrow> map (\<lambda>n. case map_of d n of Some v \<Rightarrow> v | None \<Rightarrow> u) (map fst d) = map snd d"
  by (rule nth_equalityI) (auto simp: map_of_eq_Some_iff split: option.split dest: map_of_eq_None_iff [THEN iffD1],
      metis map_of_is_SomeI nth_mem option.inject prod.collapse)

lemma merge_capability_specs_eq:
  "merge_capability_specs fmt xs ys = dict_values (spec_dict fmt (xs @ ys))"
proof -
  have "fold (\<lambda>spec (by_name, order).
       (AList.update (spec_label fmt spec) spec by_name,
        if map_of by_name (spec_label fmt spec) = None then order @ [spec_label fmt spec] else order))
     (xs @ ys) ([], []) = (spec_dict fmt (xs @ ys), map fst (spec_dict fmt (xs @ ys)))"
    using merge_fold [of fmt "xs @ ys" "[]"] by (simp only: list.map Let_def)
  then show ?thesis
    unfolding merge_capability_specs_def Let_def
    by (simp only: prod.case map_values_of_keys [OF wf_spec_dict [of "[]", simplified]])
qed

lemma spec_dict_filed:
  assumes "map_of (fold (\<lambda>spec d. AList.update (spec_label fmt spec) spec d) specs d) n = Some spec"
    and "\<And>m sp. map_of d m = Some sp \<Longrightarrow> spec_label fmt sp = m"
  shows "spec_label fmt spec = n"
  using assms
proof (induction specs arbitrary: d)
  case (Cons sp specs)
  from Cons.prems show ?case
    by (intro Cons.IH [of "AList.update (spec_label fmt sp) sp d"]) (auto simp: dict_simps split: if_splits)
qed simp

lemma spec_dict_last:
  "map_of (fold (\<lambda>spec d. AList.update (spec_label fmt spec) spec d) specs d) n =
     (case find (\<lambda>spec. spec_label fmt spec = n) (rev specs) of None \<Rightarrow> map_of d n | Some spec \<Rightarrow> Some spec)"
proof (induction specs arbitrary: d)
  case (Cons sp specs)
  then show ?case by (simp add: find_snoc map_of_update split: option.split)
qed simp

subsection \<open>Properties\<close>

text \<open>C12: a request is settled once. From its creation, whatever polls, approvals and denials follow and
  in whatever order, its row is what the first decisive call made it: expired if that call came at or
  after the deadline, otherwise approved by that user or denied for that reason; later calls change
  nothing.\<close>

theorem request_settled_once:
  assumes "approval_create now req s = (Inr (), s1)"
  shows "map_of (fold (ap_step (ar_agent_id req)) ops s1) (ar_agent_id req) =
    Some (settle ops (req\<lparr>ar_status := Pending, ar_created_at := now, ar_approved_by := None, ar_deny_reason := None\<rparr>))"
  using assms by (intro request_settled) (auto simp: approval_create_def dict_simps split: if_splits)

definition sample_request :: approval_request where
  "sample_request = new_request ''a'' DeviceAuthorization Escalation [''read''] (Some [[(''name'', PStr ''read'')]]) 600 5
     (Some ''CODE1'') None None None"

theorem request_settled_once_witness:
  "\<exists>st. map_of (fold (ap_step ''a'') [Look 5, Accept 6 ''u'', Refuse 7 ''no'']
      (snd (approval_create 0 sample_request []))) ''a'' = Some st \<and> ar_status st = Approved \<and> ar_approved_by st = Some ''u''"
proof -
  have "approval_create 0 sample_request [] = (Inr (), snd (approval_create 0 sample_request []))" "ar_agent_id sample_request = ''a''"
    by (simp_all add: approval_create_def sample_request_def new_request_def)
  with request_settled_once [OF this(1), of "[Look 5, Accept 6 ''u'', Refuse 7 ''no'']"] show ?thesis
    by (simp add: deadline_def) (simp add: sample_request_def new_request_def)
qed

lemma start_request_row:
  assumes "start_request clk (new_request aid m k caps specs ex iv code u uc b) s = (r, s')" "map_of s' aid = Some e'"
  shows "map_of s aid = Some e' \<or> ar_user_code e' = code"
  using assms by (auto simp: start_request_def approval_create_def approval_get_def new_request_def refresh_expired_def
      Let_def dict_simps split: if_splits option.splits)

lemma approval_get_row:
  assumes "approval_get now aid s = (st, s1)"
  shows "map_of s1 aid = st" "\<And>e. map_of s aid = Some e \<Longrightarrow> st = Some (refresh_expired now e)"
    "map_of s aid = None \<Longrightarrow> st = None"
  using assms by (auto simp: approval_get_def Let_def dict_simps split: option.splits if_splits)

lemma refresh_expired_payload [simp]:
  "ar_specs (refresh_expired now e) = ar_specs e" "ar_capabilities (refresh_expired now e) = ar_capabilities e"
  "ar_user_code (refresh_expired now e) = ar_user_code e"
  by (simp_all add: refresh_expired_def)

text \<open>A user code stands for one payload. Whatever Device Authorization or CIBA flow is started for an
  agent, a request that still carries the user code shown earlier has the capabilities and constraint
  specifications it had then: a wider or different request gets a new code.\<close>

theorem user_code_stands_for_payload:
  assumes "map_of s aid = Some e" "ar_user_code e = Some c"
    and "snd (create_device_authorization fmt clk code aid caps ex iv uri specs kind s) = s' \<and> code \<noteq> c \<or>
      snd (create_ciba_approval fmt clk aid caps binding ex iv specs kind s) = s'"
    and "map_of s' aid = Some e'" "ar_user_code e' = Some c"
  shows "ar_specs e' = ar_specs e \<and> ar_capabilities e' = ar_capabilities e"
proof -
  obtain st s1 where get: "approval_get (fc_get clk) aid s = (st, s1)" by fastforce
  note row = approval_get_row [OF get]
  have s1: "map_of s1 aid = Some (refresh_expired (fc_get clk) e)" using row assms(1) by simp
  have payload: ?thesis if "e' = refresh_expired (fc_get clk) e" using that by simp
  have keep: ?thesis if "s' = s1" using that s1 assms(4) payload by simp
  have started: ?thesis
    if new: "s' = snd (start_request clk (new_request aid m k caps' specs' ex iv cd u uc b) s1)" "cd \<noteq> Some c"
    for m k caps' specs' cd u uc b
  proof -
    obtain r where "start_request clk (new_request aid m k caps' specs' ex iv cd u uc b) s1 = (r, s')"
      using new(1) by (metis prod.collapse)
    from start_request_row [OF this assms(4)] new(2) assms(5) s1 payload show ?thesis by auto
  qed
  from assms(3) show ?thesis
  proof
    assume "snd (create_device_authorization fmt clk code aid caps ex iv uri specs kind s) = s' \<and> code \<noteq> c"
    then show ?thesis
      using keep started [where cd = "Some code"]
      by (auto simp: create_device_authorization_def get Let_def split: sum.splits)
  next
    assume "snd (create_ciba_approval fmt clk aid caps binding ex iv specs kind s) = s'"
    then show ?thesis
      using keep started [where cd = None]
      by (auto simp: create_ciba_approval_def get Let_def split: sum.splits)
  qed
qed

definition sample_flow_clock :: flow_clock where
  "sample_flow_clock = \<lparr>fc_get = 0, fc_create = 0, fc_reget = 0, fc_object = 0\<rparr>"

theorem user_code_stands_for_payload_witness:
  "\<exists>e'. map_of (snd (create_device_authorization (\<lambda>v. []) sample_flow_clock ''CODE2'' ''a'' [''read''] 600 5 None
      (Some [[(''name'', PStr ''read'')]]) Escalation [(''a'', sample_request)])) ''a'' = Some e' \<and>
    ar_specs e' = ar_specs sample_request \<and> ar_capabilities e' = ar_capabilities sample_request"
proof -
  have unchanged: "reuse_or_merge (\<lambda>v. []) DeviceAuthorization Escalation [''read''] (Some [[(''name'', PStr ''read'')]])
      (Some sample_request) = Inl sample_request"
    by (simp add: reuse_or_merge_def merged_pending_payload_def merge_capability_specs_eq spec_label_def fromkeys_def
        pending_payload_unchanged_def specs_eq_def sample_request_def new_request_def)
  have get: "approval_get 0 ''a'' [(''a'', sample_request)] = (Some sample_request, [(''a'', sample_request)])"
    by (simp add: approval_get_def refresh_expired_def Let_def deadline_def sample_request_def new_request_def)
  have row: "map_of (snd (create_device_authorization (\<lambda>v. []) sample_flow_clock ''CODE2'' ''a'' [''read''] 600 5 None
      (Some [[(''name'', PStr ''read'')]]) Escalation [(''a'', sample_request)])) ''a'' = Some sample_request"
    using unchanged get by (simp add: create_device_authorization_def sample_flow_clock_def)
  have "ar_specs sample_request = ar_specs sample_request \<and> ar_capabilities sample_request = ar_capabilities sample_request"
    by (rule user_code_stands_for_payload [OF _ _ disjI1 [OF conjI [OF refl]] row, where c = "''CODE1''"])
      (simp_all add: sample_request_def new_request_def)
  with row show ?thesis by blast
qed

text \<open>A human's approval through A2H takes effect only on the payload the human was asked about. If
  the request is approved by the resolution, the store's row is pending with exactly the expected
  specifications when the decision arrives, whatever other tasks did to the store meanwhile, and its
  deadline has not passed.\<close>

theorem a2h_approves_expected_payload:
  assumes "resolve_via_a2h deciding t_get t_decide result aid principal_id (Some expected) s0 = (r, s')"
    and "map_of (deciding s0) aid = Some e" "ar_status e \<noteq> Approved"
    and "map_of s' aid = Some e'" "ar_status e' = Approved"
  shows "specs_eq (ar_specs e) expected \<and> e' = e\<lparr>ar_status := Approved, ar_approved_by := Some principal_id\<rparr> \<and>
    a2h_approve result \<and> t_decide < deadline e \<and> r = Inr ()"
proof -
  obtain st s1 where get: "approval_get t_get aid (deciding s0) = (st, s1)" by fastforce
  note row = approval_get_row [OF get]
  have st: "st = Some (refresh_expired t_get e)" "map_of s1 aid = st" using row assms(2) by simp_all
  have live: "ar_status (refresh_expired t_get e) \<noteq> Approved" using assms(3) by (simp add: refresh_expired_def)
  show ?thesis
  proof (cases "pending_matches_expected st expected")
    case False
    with assms(1) get have "s' = s1" by (simp add: resolve_via_a2h_def)
    with st live assms(4,5) show ?thesis by simp
  next
    case True
    then have pending: "ar_status e = Pending" "t_get < deadline e" "specs_eq (ar_specs e) expected"
      using st(1) by (auto simp: pending_matches_expected_def refresh_expired_def split: if_splits)
    then have row: "map_of s1 aid = Some e" using st by (simp add: refresh_expired_def)
    show ?thesis
    proof (cases "a2h_approve result")
      case yes: True
      with True get assms(1) have "approval_approve t_decide aid principal_id s1 = (r, s')"
        by (simp add: resolve_via_a2h_def)
      with row pending assms(4,5) yes show ?thesis
        by (auto simp: approval_approve_def refresh_expired_def Let_def dict_simps split: if_splits)
    next
      case no: False
      with True get assms(1) obtain reason where "approval_deny t_decide aid reason s1 = (r, s')"
        by (simp add: resolve_via_a2h_def)
      with row pending assms(4,5) show ?thesis
        by (auto simp: approval_deny_def refresh_expired_def Let_def dict_simps split: if_splits)
    qed
  qed
qed

theorem a2h_approves_expected_payload_witness:
  "specs_eq (ar_specs sample_request) [[(''name'', PStr ''read'')]]"
proof -
  have "specs_eq (ar_specs sample_request) [[(''name'', PStr ''read'')]] \<and>
    sample_request\<lparr>ar_status := Approved, ar_approved_by := Some ''u''\<rparr> = sample_request\<lparr>ar_status := Approved, ar_approved_by := Some ''u''\<rparr> \<and>
    a2h_approve \<lparr>a2h_approve = True, a2h_data = None\<rparr> \<and> 2 < deadline sample_request \<and> Inr () = (Inr () :: py_exn + unit)"
    by (rule a2h_approves_expected_payload [where deciding = id and t_get = 1 and aid = "''a''" and ?s0.0 = "[(''a'', sample_request)]"
          and s' = "[(''a'', sample_request\<lparr>ar_status := Approved, ar_approved_by := Some ''u''\<rparr>)]"])
      (simp_all add: resolve_via_a2h_def approval_get_def approval_approve_def refresh_expired_def pending_matches_expected_def
        specs_eq_def deadline_def Let_def sample_request_def new_request_def)
  then show ?thesis by simp
qed

text \<open>Merging two lists of capability specifications gives one specification per name, the last one
  given under that name.\<close>

theorem merge_keeps_last_per_name:
  "distinct (map (spec_label fmt) (merge_capability_specs fmt xs ys)) \<and>
   find (\<lambda>spec. spec_label fmt spec = n) (merge_capability_specs fmt xs ys) =
     find (\<lambda>spec. spec_label fmt spec = n) (rev (xs @ ys))"
proof -
  let ?d = "spec_dict fmt (xs @ ys)"
  have wf: "wf_dict ?d" by (rule wf_spec_dict) simp
  have filed: "(m, sp) \<in> set ?d \<Longrightarrow> spec_label fmt sp = m" for m sp
    using spec_dict_filed [of fmt "xs @ ys" "[]" m sp] wf by (auto simp: map_of_eq_Some_iff)
  have labels: "map (spec_label fmt) (map snd ?d) = map fst ?d"
    unfolding map_map
  proof (rule map_cong [OF refl])
    fix p assume "p \<in> set ?d"
    then show "(spec_label fmt \<circ> snd) p = fst p" using filed [of "fst p" "snd p"] by simp
  qed
  have look: "find (\<lambda>sp. spec_label fmt sp = n) (map snd d) = map_of d n"
    if "\<And>m sp. (m, sp) \<in> set d \<Longrightarrow> spec_label fmt sp = m" for d :: "(string, pydict) dict"
    using that
  proof (induction d)
    case (Cons p d)
    have "spec_label fmt (snd p) = fst p" by (rule Cons.prems) simp
    moreover have "find (\<lambda>sp. spec_label fmt sp = n) (map snd d) = map_of d n"
      by (rule Cons.IH, rule Cons.prems) simp
    ultimately show ?case by (cases p) auto
  qed simp
  have "find (\<lambda>sp. spec_label fmt sp = n) (map snd ?d) = map_of ?d n"
    by (rule look) (rule filed)
  also have "\<dots> = find (\<lambda>sp. spec_label fmt sp = n) (rev (xs @ ys))"
    unfolding spec_dict_last by (auto split: option.split)
  finally show ?thesis
    unfolding merge_capability_specs_eq labels using wf by simp
qed

text \<open>CIBA is chosen only for a host linked to a user on a server that supports it, and is always
  chosen then if the agent controls the browser, whatever method the client prefers.\<close>

theorem ciba_selection:
  "select_approval_method host supported preferred browser = Ciba \<longleftrightarrow>
     supported \<and> (\<exists>u. host_user_id host = Some u \<and> strip u \<noteq> []) \<and> (browser \<or> preferred \<noteq> Some DeviceAuthorization)"
  by (cases preferred; cases "the preferred")
    (auto simp: select_approval_method_def Let_def split: option.splits)

theorem ciba_selection_witness:
  "select_approval_method (sample_host\<lparr>host_user_id := Some ''u''\<rparr>) True (Some DeviceAuthorization) True = Ciba"
  by (subst ciba_selection) (simp add: strip_eq_Nil_iff py_space_def)

end
