(* ===== verification/Routes_Base.thy ===== *)
theory Routes_Base
  imports Self_Auth Approval
begin

text \<open>
  The identity server's state, its authentication helpers (\<open>src/asap/transport/_auth_helpers.py\<close>) and
  the capability endpoints (\<open>src/asap/transport/capability_routes.py\<close>).

  \<open>create_app\<close> always attaches the stores, the registry and the caches to the application, so they are
  fields of one record here. A handler maps a request and the server to a response and the new
  server; an exception the code does not catch is an \<open>Inl\<close>. The rate limiter call in front of every
  handler is the limiter of another theory. A request carries the values the handler reads from
  its environment: clocks, fresh identifiers and the effect of other tasks between two awaits.
\<close>

subsection \<open>Server, requests, responses\<close>

text \<open>A scheduled background task: agent, prompt, principal and expected specifications.\<close>

type_synonym a2h_task = "string \<times> string \<times> string \<times> pydict list"

record server =
  sv_hosts :: host_store
  sv_agents :: agent_rows
  sv_jti :: jti_cache
  sv_registry :: capability_registry
  sv_approvals :: approval_store
  sv_tasks :: "a2h_task list"
  sv_audience :: audience
  sv_ciba :: bool
  sv_a2h :: bool
  sv_fresh :: "fresh_session_config option"
  sv_webauthn :: webauthn_verifier

text \<open>What the library gives: JOSE, thumbprints, key import, the texts of values, of validation errors and of
  violated constraints.\<close>

record lib =
  lib_jose :: jose
  lib_digest :: digest
  lib_import_key :: "pydict \<Rightarrow> bool"
  lib_repr :: "pyval \<Rightarrow> string"
  lib_str :: "pyval \<Rightarrow> string"
  lib_isoformat :: "datetime \<Rightarrow> string"
  lib_validation_errors :: "pyval \<Rightarrow> pyval"
  lib_violation_text :: "violation \<Rightarrow> string"

record http_req =
  rq_authorization :: "string option"
  rq_json :: "string + pyval"
  rq_id :: string
  rq_now :: rat
  rq_now_jti :: rat
  rq_now_fresh :: rat
  rq_datetime :: datetime
  rq_session_clock :: session_clock
  rq_flow_clock :: flow_clock
  rq_new_id :: string
  rq_user_code :: string
  rq_between :: "agent_rows \<Rightarrow> agent_rows"
  rq_before_save :: "agent_rows \<Rightarrow> agent_rows"

record http_response =
  hr_status :: int
  hr_body :: pydict

type_synonym 'a handler_result = "(server, py_exn, 'a) outcome"

text \<open>The content handed to \<open>JSONResponse\<close>. Rendering it comes after the last change of state; content that
  holds a NaN or an infinity, such as the actual value of a violated constraint, makes the rendering raise
  and the client sees a 500 instead.\<close>

definition respond :: "int \<Rightarrow> pydict \<Rightarrow> http_response" where
  "respond st body = \<lparr>hr_status = st, hr_body = body\<rparr>"

definition detail :: "int \<Rightarrow> string \<Rightarrow> http_response" where
  "detail st text = respond st [(''detail'', PStr text)]"

subsection \<open>Bearer tokens\<close>

definition bearer_token_from_request :: "http_req \<Rightarrow> string option" where
  "bearer_token_from_request rq =
     (case rq_authorization rq of
        None \<Rightarrow> None
      | Some auth \<Rightarrow>
          if auth = [] \<or> \<not> starts_with auth ''Bearer '' then None
          else (let t = strip (drop 7 auth) in if t = [] then None else Some t))"

text \<open>\<open>Inl\<close> is the error response to return.\<close>

definition verify_host_bearer ::
  "lib \<Rightarrow> bool \<Rightarrow> bool \<Rightarrow> http_req \<Rightarrow> server \<Rightarrow> (http_response + jwt_verify_result) handler_result" where
  "verify_host_bearer lb require_active_host record_jti rq sv =
     (case bearer_token_from_request rq of
        None \<Rightarrow> (Inr (Inl (detail 401 ''Authentication required'')), sv)
      | Some token \<Rightarrow>
          (case verify_host_jwt (lib_jose lb) (lib_digest lb) (rq_now rq) (rq_now_jti rq) token (sv_hosts sv)
                  (Some (sv_audience sv)) record_jti (Some (sv_jti sv)) of
             (r, cache) \<Rightarrow>
               (let sv1 = sv\<lparr>sv_jti := (case cache of None \<Rightarrow> sv_jti sv | Some c \<Rightarrow> c)\<rparr> in
                case r of
                  Inl x \<Rightarrow> (Inl x, sv1)
                | Inr result \<Rightarrow>
                    if \<not> jv_ok result then
                      (if require_active_host \<and> jv_error result = Some HOST_REVOKED_ERROR
                       then (Inr (Inl (detail 403 ''host revoked'')), sv1)
                       else (Inr (Inl (detail 401 (case jv_error result of
                                  None \<Rightarrow> ''Invalid host token''
                                | Some e \<Rightarrow> if e = [] then ''Invalid host token'' else e))), sv1))
                    else (case jv_claims result of
                            None \<Rightarrow> (Inr (Inl (detail 401 ''Invalid host token'')), sv1)
                          | Some claims \<Rightarrow>
                              if (case get_claim claims ''iss'' of PStr iss \<Rightarrow> strip iss = [] | _ \<Rightarrow> True)
                              then (Inr (Inl (detail 400 ''missing iss in host JWT'')), sv1)
                              else if require_active_host \<and>
                                (case jv_host result of None \<Rightarrow> False | Some h \<Rightarrow> host_status h = HostRevoked)
                              then (Inr (Inl (detail 403 ''host revoked'')), sv1)
                              else (Inr (Inr result), sv1)))))"

definition run_verify_agent :: "lib \<Rightarrow> string \<Rightarrow> bool \<Rightarrow> http_req \<Rightarrow> server \<Rightarrow> jwt_verify_result handler_result" where
  "run_verify_agent lb token with_cache rq sv =
     (case verify_agent_jwt (lib_jose lb) (lib_digest lb) (rq_now rq) (rq_now_jti rq) (rq_session_clock rq)
             (rq_between rq) (rq_before_save rq) token (sv_hosts sv) (Some (sv_audience sv))
             (if with_cache then Some (sv_jti sv) else None, sv_agents sv) of
        (r, (cache, rows)) \<Rightarrow>
          (r, sv\<lparr>sv_agents := rows, sv_jti := (case cache of None \<Rightarrow> sv_jti sv | Some c \<Rightarrow> c)\<rparr>))"

definition verify_agent_bearer ::
  "lib \<Rightarrow> http_req \<Rightarrow> server \<Rightarrow> (http_response + jwt_verify_result) handler_result" where
  "verify_agent_bearer lb rq sv =
     (case bearer_token_from_request rq of
        None \<Rightarrow> (Inr (Inl (detail 401 ''Authentication required'')), sv)
      | Some token \<Rightarrow>
          bind_out (run_verify_agent lb token True rq sv) (\<lambda>result sv1.
            if \<not> jv_ok result then
              (let st = (if jv_error result \<in> {Some ''agent_expired'', Some ''agent_revoked'', Some HOST_REVOKED_ERROR}
                         then 403 else 401)
               in (Inr (Inl (respond st
                     [(''detail'', case jv_error result of None \<Rightarrow> PNone | Some e \<Rightarrow> PStr e),
                      (''request_id'', PStr (rq_id rq))])), sv1))
            else (Inr (Inr result), sv1)))"

subsection \<open>Listing and describing\<close>

definition grant_status_name :: "grant_status \<Rightarrow> string" where
  "grant_status_name st = (case st of GrantActive \<Rightarrow> ''active'' | GrantPending \<Rightarrow> ''pending'' | GrantDenied \<Rightarrow> ''denied'')"

text \<open>A key is added when the value is present and not empty.\<close>

definition optional_str :: "string \<Rightarrow> string option \<Rightarrow> pydict" where
  "optional_str k v = (case v of None \<Rightarrow> [] | Some s \<Rightarrow> if s = [] then [] else [(k, PStr s)])"

definition optional_dict :: "string \<Rightarrow> pydict option \<Rightarrow> pydict" where
  "optional_dict k v = (case v of None \<Rightarrow> [] | Some d \<Rightarrow> if d = [] then [] else [(k, PDict d)])"

definition grant_to_dict :: "lib \<Rightarrow> capability_grant \<Rightarrow> pydict" where
  "grant_to_dict lb g =
     [(''capability'', PStr (g_capability g)), (''status'', PStr (grant_status_name (g_status g)))] @
     optional_dict ''constraints'' (g_constraints g) @ optional_str ''granted_by'' (g_granted_by g) @
     optional_str ''reason'' (g_reason g) @
     (case g_expires_at g of None \<Rightarrow> [] | Some e \<Rightarrow> [(''expires_at'', PStr (lib_isoformat lb e))])"

text \<open>A definition as listed; the grant status is there for an authenticated agent only.\<close>

definition capability_item :: "capability_registry \<Rightarrow> string option \<Rightarrow> capability_definition \<Rightarrow> pydict" where
  "capability_item r aid d =
     [(''name'', PStr (cd_name d)), (''description'', PStr (cd_description d))] @
     optional_str ''location'' (cd_location d) @
     (case aid of
        None \<Rightarrow> []
      | Some a \<Rightarrow>
          if a = [] then []
          else [(''grant_status'',
                 case filter (\<lambda>g. g_capability g = cd_name d) (get_grants a r) of
                   [] \<Rightarrow> PNone | g # _ \<Rightarrow> PStr (grant_status_name (g_status g)))])"

text \<open>\<open>cursor\<close> is at least 0 and \<open>limit\<close> at least 1, which the router checks.\<close>

definition matching_definitions :: "string \<Rightarrow> capability_registry \<Rightarrow> capability_definition list" where
  "matching_definitions query r =
     (let q = lower query in
      if q = [] then list_capabilities r
      else filter (\<lambda>d. is_substring q (lower (cd_name d)) \<or> is_substring q (lower (cd_description d)))
             (list_capabilities r))"

definition handle_capability_list ::
  "lib \<Rightarrow> string \<Rightarrow> nat \<Rightarrow> nat \<Rightarrow> http_req \<Rightarrow> server \<Rightarrow> http_response handler_result" where
  "handle_capability_list lb query cursor limit rq sv =
     (let definitions = matching_definitions query (sv_registry sv);
          page = take limit (drop cursor definitions);
          next = (if cursor + limit < length definitions then [(''next_cursor'', PInt (int (cursor + limit)))] else []) in
      bind_out
        (case bearer_token_from_request rq of
           None \<Rightarrow> (Inr None, sv)
         | Some token \<Rightarrow>
             bind_out (run_verify_agent lb token False rq sv)
               (\<lambda>res sv1. (Inr (if jv_ok res then map_option agent_id (jv_agent res) else None), sv1)))
        (\<lambda>aid sv1.
           (Inr (respond 200 ([(''capabilities'', PList (map (PDict \<circ> capability_item (sv_registry sv1) aid) page))] @ next)),
            sv1)))"

definition handle_capability_describe :: "lib \<Rightarrow> string \<Rightarrow> server \<Rightarrow> http_response handler_result" where
  "handle_capability_describe lb name sv =
     (case describe name (sv_registry sv) of
        None \<Rightarrow> (Inr (detail 404 (''capability '' @ lib_repr lb (PStr name) @ '' not found'')), sv)
      | Some d \<Rightarrow>
          (Inr (respond 200 ([(''name'', PStr (cd_name d)), (''description'', PStr (cd_description d))] @
             optional_dict ''input_schema'' (cd_input_schema d) @ optional_dict ''output_schema'' (cd_output_schema d) @
             optional_str ''location'' (cd_location d))), sv))"

subsection \<open>Executing\<close>

text \<open>Validation of the body: known keys only, a string, an optional dictionary.\<close>

definition parse_execute_body :: "pyval \<Rightarrow> (string \<times> pydict option) option" where
  "parse_execute_body v =
     (case v of
        PDict d \<Rightarrow>
          if \<not> set (dict_keys d) \<subseteq> {''capability'', ''arguments''} then None
          else (case map_of d ''capability'' of
                  Some (PStr c) \<Rightarrow>
                    (case map_of d ''arguments'' of
                       None \<Rightarrow> Some (c, None) | Some PNone \<Rightarrow> Some (c, None)
                     | Some (PDict a) \<Rightarrow> Some (c, Some a) | Some _ \<Rightarrow> None)
                | _ \<Rightarrow> None)
      | _ \<Rightarrow> None)"

definition handle_capability_execute :: "lib \<Rightarrow> http_req \<Rightarrow> server \<Rightarrow> http_response handler_result" where
  "handle_capability_execute lb rq sv =
     bind_out (verify_agent_bearer lb rq sv) (\<lambda>auth sv1.
       case auth of
         Inl resp \<Rightarrow> (Inr resp, sv1)
       | Inr result \<Rightarrow>
           (case jv_agent result of
              None \<Rightarrow> (Inr (detail 401 ''Invalid agent token''), sv1)
            | Some agent \<Rightarrow>
                (case rq_json rq of
                   Inl e \<Rightarrow> (Inr (detail 400 (''Invalid JSON: '' @ e)), sv1)
                 | Inr raw \<Rightarrow>
                     (case parse_execute_body raw of
                        None \<Rightarrow> (Inr (respond 400 [(''detail'', lib_validation_errors lb raw)]), sv1)
                      | Some (cap, args) \<Rightarrow>
                          (case check_grant (rq_datetime rq) (agent_id agent) cap args (sv_registry sv1) of
                             Inl x \<Rightarrow> (Inl x, sv1)
                           | Inr check \<Rightarrow>
                               if gc_allowed check then
                                 (Inr (respond 200 [(''capability'', PStr cap), (''status'', PStr ''executed''),
                                    (''agent_id'', PStr (agent_id agent))]), sv1)
                               else if gc_violations check \<noteq> [] then
                                 (Inr (respond 403 [(''error'', PStr ''constraint_violated''), (''capability'', PStr cap),
                                    (''violations'', PList (map (\<lambda>v. PDict [(''field'', PStr (v_field v)),
                                       (''operator'', PStr (v_operator v)), (''message'', PStr (lib_violation_text lb v))]) (gc_violations check))),
                                    (''request_id'', PStr (rq_id rq))]), sv1)
                               else
                                 (Inr (respond 403 [(''error'', PDict [(''code'', PStr ''capability_not_granted''),
                                    (''message'', PStr (''agent has no active grant for '' @ lib_repr lb (PStr cap))),
                                    (''data'', PDict [(''required_capability'', PStr cap)]),
                                    (''request_id'', PStr (rq_id rq))])]), sv1))))))"

subsection \<open>Reactivation\<close>

definition parse_reactivate_body :: "pyval \<Rightarrow> string option" where
  "parse_reactivate_body v =
     (case v of PDict [(k, PStr a)] \<Rightarrow> if k = ''agent_id'' then Some a else None | _ \<Rightarrow> None)"

text \<open>Every grant the agent has is denied, then the host's defaults are granted.\<close>

definition decay_grants :: "string \<Rightarrow> host_identity \<Rightarrow> capability_registry \<Rightarrow> capability_registry" where
  "decay_grants aid host r =
     (let denied = fold (\<lambda>g r. snd (grant aid (g_capability g) None None GrantDenied
                     (Some ''capability decayed on reactivation'') None r)) (get_grants aid r) r
      in fold (\<lambda>cap r. snd (grant aid cap None (Some (host_id host)) GrantActive None None r))
           (default_capabilities host) denied)"

definition refusal_text :: "py_exn \<Rightarrow> string" where
  "refusal_text x = (case x of ValueError m \<Rightarrow> m | _ \<Rightarrow> [])"

definition handle_agent_reactivate :: "lib \<Rightarrow> http_req \<Rightarrow> server \<Rightarrow> http_response handler_result" where
  "handle_agent_reactivate lb rq sv =
     bind_out (verify_host_bearer lb True True rq sv) (\<lambda>auth sv1.
       case auth of
         Inl resp \<Rightarrow> (Inr resp, sv1)
       | Inr result \<Rightarrow>
           (case (jv_claims result, rq_json rq) of
              (None, _) \<Rightarrow> (Inr (detail 401 ''Invalid host token''), sv1)
            | (Some claims, Inl e) \<Rightarrow> (Inr (detail 400 (''Invalid JSON: '' @ e)), sv1)
            | (Some claims, Inr raw) \<Rightarrow>
                (case parse_reactivate_body raw of
                   None \<Rightarrow> (Inr (respond 400 [(''detail'', lib_validation_errors lb raw)]), sv1)
                 | Some aid \<Rightarrow>
                     (case agent_get aid (sv_agents sv1) of
                        None \<Rightarrow> (Inr (detail 404 ''unknown agent_id''), sv1)
                      | Some agent \<Rightarrow>
                          (case get_claim claims ''iss'' of
                             PStr iss \<Rightarrow>
                               (case host_get_by_public_key iss (sv_hosts sv1) of
                                  None \<Rightarrow> (Inr (detail 404 ''unknown host''), sv1)
                                | Some host \<Rightarrow>
                                    if host_id host \<noteq> agent_host_id agent
                                    then (Inr (detail 403 ''agent does not belong to this host''), sv1)
                                    else (let sv2 = sv1\<lparr>sv_agents := rq_between rq (sv_agents sv1)\<rparr> in
                                      case agent_get aid (sv_agents sv2) of
                                        None \<Rightarrow> (Inr (detail 404 ''unknown agent_id''), sv2)
                                      | Some fresh \<Rightarrow>
                                          (case reactivate_agent (rq_datetime rq) fresh of
                                             Inl x \<Rightarrow> (Inr (detail 403 (refusal_text x)), sv2)
                                           | Inr reactivated \<Rightarrow>
                                               (case save_agent_unless_revoked (lib_digest lb) reactivated
                                                       (Some (agent_public_key fresh)) (rq_before_save rq (sv_agents sv2)) of
                                                  (Inl RevokedAgentOverwriteError, rows) \<Rightarrow>
                                                    (Inr (detail 403 (''Agent '' @ aid @ '' is permanently revoked'')),
                                                     sv2\<lparr>sv_agents := rows\<rparr>)
                                                | (Inl StaleAgentPublicKeyError, rows) \<Rightarrow>
                                                    (Inr (detail 409 ''agent public key changed concurrently''),
                                                     sv2\<lparr>sv_agents := rows\<rparr>)
                                                | (Inr u, rows) \<Rightarrow>
                                                    (let reg = decay_grants aid host (sv_registry sv2) in
                                                     (Inr (respond 200 [(''agent_id'', PStr (agent_id reactivated)),
                                                        (''status'', PStr (status_name (agent_status reactivated))),
                                                        (''capabilities'', PList (map (PDict \<circ> grant_to_dict lb) (get_grants aid reg)))]),
                                                      sv2\<lparr>sv_agents := rows, sv_registry := reg\<rparr>))))))
                           | _ \<Rightarrow> (Inr (detail 400 ''missing iss''), sv1))))))"

subsection \<open>What the handlers guarantee\<close>

lemma verify_agent_bearer_ok:
  assumes "verify_agent_bearer lb rq sv = (Inr (Inr result), sv1)"
  obtains token cache rows where "bearer_token_from_request rq = Some token" "jv_ok result"
    "verify_agent_jwt (lib_jose lb) (lib_digest lb) (rq_now rq) (rq_now_jti rq) (rq_session_clock rq)
       (rq_between rq) (rq_before_save rq) token (sv_hosts sv) (Some (sv_audience sv))
       (Some (sv_jti sv), sv_agents sv) = (Inr result, (cache, rows))"
    "sv1 = sv\<lparr>sv_agents := rows, sv_jti := (case cache of None \<Rightarrow> sv_jti sv | Some c \<Rightarrow> c)\<rparr>"
  using assms
  by (auto simp: verify_agent_bearer_def run_verify_agent_def Let_def bind_out_def split: option.splits prod.splits sum.splits if_splits)

lemma verify_host_bearer_ok:
  assumes "verify_host_bearer lb active rec rq sv = (Inr (Inr result), sv1)"
  obtains token cache where "bearer_token_from_request rq = Some token" "jv_ok result"
    "verify_host_jwt (lib_jose lb) (lib_digest lb) (rq_now rq) (rq_now_jti rq) token (sv_hosts sv)
       (Some (sv_audience sv)) rec (Some (sv_jti sv)) = (Inr result, cache)"
    "sv1 = sv\<lparr>sv_jti := (case cache of None \<Rightarrow> sv_jti sv | Some c \<Rightarrow> c)\<rparr>"
proof -
  have "bearer_token_from_request rq \<noteq> None"
    using assms by (cases "bearer_token_from_request rq") (auto simp: verify_host_bearer_def)
  then obtain token where token: "bearer_token_from_request rq = Some token" by blast
  obtain r cache where r: "verify_host_jwt (lib_jose lb) (lib_digest lb) (rq_now rq) (rq_now_jti rq) token (sv_hosts sv)
       (Some (sv_audience sv)) rec (Some (sv_jti sv)) = (r, cache)" by fastforce
  have "\<exists>res. r = Inr res"
    using assms token r by (cases r) (simp_all add: verify_host_bearer_def Let_def)
  then obtain res where res: "r = Inr res" by blast
  have ok: "jv_ok res"
    using assms token r res by (cases "jv_ok res") (simp_all add: verify_host_bearer_def Let_def split: if_splits)
  have "jv_claims res \<noteq> None"
    using assms token r res ok by (cases "jv_claims res") (simp_all add: verify_host_bearer_def Let_def)
  then obtain claims where claims: "jv_claims res = Some claims" by blast
  have "res = result" "sv1 = sv\<lparr>sv_jti := (case cache of None \<Rightarrow> sv_jti sv | Some c \<Rightarrow> c)\<rparr>"
    using assms token r res ok claims by (simp_all add: verify_host_bearer_def Let_def split: if_splits)
  with that token r res ok show thesis by blast
qed

lemma verify_host_bearer_refused:
  assumes "verify_host_bearer lb active rec rq sv = (Inr (Inl resp), sv1)"
  shows "hr_status resp \<noteq> 200"
proof (cases "bearer_token_from_request rq")
  case (Some token)
  obtain r cache where r: "verify_host_jwt (lib_jose lb) (lib_digest lb) (rq_now rq) (rq_now_jti rq) token (sv_hosts sv)
       (Some (sv_audience sv)) rec (Some (sv_jti sv)) = (r, cache)" by fastforce
  note run = assms Some r
  note [simp] = verify_host_bearer_def Let_def detail_def respond_def
  show ?thesis
  proof (cases r)
    case (Inr res)
    show ?thesis
    proof (cases "jv_ok res")
      case True
      with run Inr show ?thesis by (cases "jv_claims res") (auto split: if_splits)
    next
      case False
      with run Inr show ?thesis by (auto split: if_splits)
    qed
  qed (use run in simp)
qed (use assms in \<open>auto simp: verify_host_bearer_def detail_def respond_def\<close>)

lemma execute_200:
  assumes "handle_capability_execute lb rq sv = (Inr resp, sv')" "hr_status resp = 200"
  obtains result agent raw cap args check where "verify_agent_bearer lb rq sv = (Inr (Inr result), sv')"
    "jv_agent result = Some agent" "rq_json rq = Inr raw" "parse_execute_body raw = Some (cap, args)"
    "check_grant (rq_datetime rq) (agent_id agent) cap args (sv_registry sv') = Inr check" "gc_allowed check"
proof -
  obtain auth sv1 where auth: "verify_agent_bearer lb rq sv = (Inr auth, sv1)"
    using assms(1) by (auto simp: handle_capability_execute_def elim!: bind_out_Inr)
  have "hr_status r \<noteq> 200" if "auth = Inl r" for r
    using auth that by (auto simp: verify_agent_bearer_def bind_out_def detail_def respond_def Let_def
        split: option.splits prod.splits sum.splits if_splits)
  with assms auth obtain result where result: "auth = Inr result"
    by (cases auth) (auto simp: handle_capability_execute_def bind_out_simps)
  note [simp] = handle_capability_execute_def detail_def respond_def
  note run = assms auth result
  have "jv_agent result \<noteq> None" using run by (cases "jv_agent result") (auto simp: Let_def)
  then obtain agent where agent: "jv_agent result = Some agent" by blast
  have "\<exists>raw. rq_json rq = Inr raw" using run agent by (cases "rq_json rq") auto
  then obtain raw where raw: "rq_json rq = Inr raw" by blast
  have "parse_execute_body raw \<noteq> None" using run agent raw by (cases "parse_execute_body raw") (auto simp: Let_def)
  then obtain cap args where body: "parse_execute_body raw = Some (cap, args)" by auto
  have "\<exists>check. check_grant (rq_datetime rq) (agent_id agent) cap args (sv_registry sv1) = Inr check"
    using run agent raw body
    by (cases "check_grant (rq_datetime rq) (agent_id agent) cap args (sv_registry sv1)") auto
  then obtain check where check: "check_grant (rq_datetime rq) (agent_id agent) cap args (sv_registry sv1) = Inr check"
    by blast
  have "gc_allowed check" "sv' = sv1"
    using run agent raw body check by (auto split: if_splits)
  with that auth result agent raw body check show thesis by blast
qed

lemma decay_grants_lookup:
  assumes "grants_inv r"
  shows "map_of (agent_grants a' (decay_grants aid host r)) cap =
    (if a' \<noteq> aid then map_of (agent_grants a' r) cap
     else if cap \<in> set (default_capabilities host)
     then Some \<lparr>g_capability = cap, g_status = GrantActive, g_constraints = None, g_granted_by = Some (host_id host),
                g_reason = None, g_expires_at = None\<rparr>
     else map_option (\<lambda>g. \<lparr>g_capability = cap, g_status = GrantDenied, g_constraints = None, g_granted_by = None,
                g_reason = Some ''capability decayed on reactivation'', g_expires_at = None\<rparr>)
            (map_of (agent_grants aid r) cap))"
proof -
  have fold: "fold (\<lambda>g r. snd (grant aid (g_capability g) None None GrantDenied re None r)) gs r =
    fold (\<lambda>n r. snd (grant aid n None None GrantDenied re None r)) (map g_capability gs) r" for gs re r
    by (simp add: fold_map comp_def)
  show ?thesis
    using granted_names_keys [OF assms, of cap aid]
    by (auto simp: decay_grants_def Let_def fold fold_grant_names simp del: set_map)
qed

lemma reactivate_200:
  assumes "handle_agent_reactivate lb rq sv = (Inr resp, sv')" "hr_status resp = 200"
  obtains result sv1 claims raw aid agent iss host fresh reactivated rows where
    "verify_host_bearer lb True True rq sv = (Inr (Inr result), sv1)" "jv_claims result = Some claims"
    "rq_json rq = Inr raw" "parse_reactivate_body raw = Some aid"
    "agent_get aid (sv_agents sv1) = Some agent" "get_claim claims ''iss'' = PStr iss"
    "host_get_by_public_key iss (sv_hosts sv1) = Some host" "host_id host = agent_host_id agent"
    "agent_get aid (rq_between rq (sv_agents sv1)) = Some fresh"
    "reactivate_agent (rq_datetime rq) fresh = Inr reactivated"
    "agent_save (lib_digest lb) reactivated (Some (agent_public_key fresh))
       (rq_before_save rq (rq_between rq (sv_agents sv1))) = (Inr (), rows)"
    "sv' = sv1\<lparr>sv_agents := rows, sv_registry := decay_grants aid host (sv_registry sv1)\<rparr>"
proof -
  obtain auth sv1 where auth: "verify_host_bearer lb True True rq sv = (Inr auth, sv1)"
    using assms(1) by (auto simp: handle_agent_reactivate_def elim!: bind_out_Inr)
  have "hr_status r \<noteq> 200" if "auth = Inl r" for r
    using verify_host_bearer_refused auth that by blast
  with assms auth obtain result where result: "auth = Inr result"
    by (cases auth) (auto simp: handle_agent_reactivate_def bind_out_simps)
  note [simp] = handle_agent_reactivate_def detail_def respond_def
  note run = assms auth result
  have "jv_claims result \<noteq> None" using run by (cases "jv_claims result") (auto simp: Let_def)
  then obtain claims where claims: "jv_claims result = Some claims" by blast
  have "\<exists>raw. rq_json rq = Inr raw" using run claims by (cases "rq_json rq") auto
  then obtain raw where raw: "rq_json rq = Inr raw" by blast
  note run = run claims raw
  have "parse_reactivate_body raw \<noteq> None" using run by (cases "parse_reactivate_body raw") (auto simp: Let_def)
  then obtain aid where body: "parse_reactivate_body raw = Some aid" by blast
  have "agent_get aid (sv_agents sv1) \<noteq> None" using run body by (cases "agent_get aid (sv_agents sv1)") (auto simp: Let_def)
  then obtain agent where agent: "agent_get aid (sv_agents sv1) = Some agent" by blast
  note run = run body agent
  have "\<exists>iss. get_claim claims ''iss'' = PStr iss" using run by (cases "get_claim claims ''iss''") auto
  then obtain iss where iss: "get_claim claims ''iss'' = PStr iss" by blast
  have "host_get_by_public_key iss (sv_hosts sv1) \<noteq> None" using run iss by (cases "host_get_by_public_key iss (sv_hosts sv1)") (auto simp: Let_def)
  then obtain host where host: "host_get_by_public_key iss (sv_hosts sv1) = Some host" by blast
  note run = run iss host
  have own: "host_id host = agent_host_id agent" using run by (auto split: if_splits)
  let ?rows = "rq_between rq (sv_agents sv1)"
  have "agent_get aid ?rows \<noteq> None" using run own by (cases "agent_get aid ?rows") (auto simp: Let_def)
  then obtain fresh where fresh: "agent_get aid ?rows = Some fresh" by blast
  have "\<exists>a. reactivate_agent (rq_datetime rq) fresh = Inr a"
    using run own fresh by (cases "reactivate_agent (rq_datetime rq) fresh") (auto simp: Let_def)
  then obtain a where a: "reactivate_agent (rq_datetime rq) fresh = Inr a" by blast
  note run = run own fresh a
  obtain out rows where save: "agent_save (lib_digest lb) a (Some (agent_public_key fresh)) (rq_before_save rq ?rows) = (out, rows)"
    by fastforce
  have "\<exists>u. out = Inr u" using run save
    by (cases out; cases "projl out") (auto simp: Let_def save_agent_unless_revoked_def)
  then have out: "out = Inr ()" by auto
  have "sv' = sv1\<lparr>sv_agents := rows, sv_registry := decay_grants aid host (sv_registry sv1)\<rparr>"
    using run save out by (auto simp: Let_def save_agent_unless_revoked_def)
  with that auth result claims raw body agent iss host own fresh a save out show thesis by blast
qed

subsection \<open>Properties\<close>

text \<open>A server, its library and a request, for the concrete instances.\<close>

definition sample_lib :: "string \<Rightarrow> pydict \<Rightarrow> lib" where
  "sample_lib typ claims = \<lparr>lib_jose = sample_jose [(''typ'', PStr typ)] claims, lib_digest = sample_digest,
     lib_import_key = (\<lambda>k. True), lib_repr = (\<lambda>v. []), lib_str = (\<lambda>v. []), lib_isoformat = (\<lambda>t. []),
     lib_validation_errors = (\<lambda>v. PNone),
     lib_violation_text = (\<lambda>v. [])\<rparr>"

definition sample_server :: "jti_cache \<Rightarrow> capability_registry \<Rightarrow> server" where
  "sample_server cache r = \<lparr>sv_hosts = sample_hosts, sv_agents = [(''a'', sample_agent AgentActive)], sv_jti = cache,
     sv_registry = r, sv_approvals = [], sv_tasks = [], sv_audience = OneAud ''srv'', sv_ciba = False, sv_a2h = False,
     sv_fresh = None, sv_webauthn = placeholder_webauthn\<rparr>"

definition sample_http_req :: "pydict \<Rightarrow> http_req" where
  "sample_http_req body = \<lparr>rq_authorization = Some ''Bearer t'', rq_json = Inr (PDict body), rq_id = ''r'',
     rq_now = 1010, rq_now_jti = 1010, rq_now_fresh = 1010, rq_datetime = 5, rq_session_clock = sample_clock,
     rq_flow_clock = \<lparr>fc_get = 0, fc_create = 0, fc_reget = 0, fc_object = 0\<rparr>, rq_new_id = ''n'', rq_user_code = ''c'',
     rq_between = id, rq_before_save = id\<rparr>"

definition pay_grant :: "capability_registry" where
  "pay_grant = snd (grant ''a'' ''pay'' (Some [(''amount'', PDict [(''max'', PInt 10)])]) None GrantActive None (Some 9) registry_init)"

text \<open>C11: the execute endpoint answers 200 only for an agent whose stored session is active and unexpired
  in the row as it is touched, whatever other requests did to the agent rows before, and whose host was not
  revoked in the host store, which the verification reads once, before the touch; and only if that agent
  holds an active, unexpired grant of the capability in the body whose every constraint holds of the
  arguments in the body. A constraint holds in the sense of \<^const>\<open>field_holds\<close>, which follows the
  comparisons of Python: the value NaN, which the JSON parser accepts, is within every maximum and every
  minimum. The grants are left as they are.\<close>

theorem executed_only_if_granted:
  assumes "handle_capability_execute lb rq sv = (Inr resp, sv')" "hr_status resp = 200"
  shows "\<exists>cur aid host iss raw cap args g.
      agent_get aid (rq_before_save rq (rq_between rq (sv_agents sv))) = Some cur \<and> agent_status cur = AgentActive \<and>
      check_agent_expiry (now_cas (rq_session_clock rq)) cur = Live \<and>
      host_get_by_public_key iss (sv_hosts sv) = Some host \<and> host_status host \<noteq> HostRevoked \<and>
      host_id host = agent_host_id cur \<and>
      rq_json rq = Inr raw \<and> parse_execute_body raw = Some (cap, args) \<and>
      map_of (agent_grants (agent_id cur) (sv_registry sv)) cap = Some g \<and> g_status g = GrantActive \<and>
      (\<forall>e. g_expires_at g = Some e \<longrightarrow> rq_datetime rq \<le> e) \<and>
      (\<forall>cs. g_constraints g = Some cs \<longrightarrow>
         (\<forall>(field, spec) \<in> set cs. field_holds field spec (case args of None \<Rightarrow> [] | Some a \<Rightarrow> a))) \<and>
      sv_registry sv' = sv_registry sv"
proof -
  obtain result agent raw cap args check where e: "verify_agent_bearer lb rq sv = (Inr (Inr result), sv')"
    "jv_agent result = Some agent" "rq_json rq = Inr raw" "parse_execute_body raw = Some (cap, args)"
    "check_grant (rq_datetime rq) (agent_id agent) cap args (sv_registry sv') = Inr check" "gc_allowed check"
    by (rule execute_200 [OF assms])
  obtain token cache rows where v: "jv_ok result"
    "verify_agent_jwt (lib_jose lb) (lib_digest lb) (rq_now rq) (rq_now_jti rq) (rq_session_clock rq)
       (rq_between rq) (rq_before_save rq) token (sv_hosts sv) (Some (sv_audience sv))
       (Some (sv_jti sv), sv_agents sv) = (Inr result, (cache, rows))"
    "sv_registry sv' = sv_registry sv"
    by (rule verify_agent_bearer_ok [OF e(1)]) simp
  obtain named :: agent_session and cur host iss where c:
    "host_get_by_public_key iss (sv_hosts sv) = Some host" "host_status host \<noteq> HostRevoked" "host_id host = agent_host_id cur"
    "agent_get (agent_id named) (rq_before_save rq (rq_between rq (sv_agents sv))) = Some cur" "agent_status cur = AgentActive"
    "check_agent_expiry (now_cas (rq_session_clock rq)) cur = Live"
    "jv_agent result = Some (cur\<lparr>last_used_at := Some (now_used (rq_session_clock rq))\<rparr>)"
    by (rule verify_agent_jwt_current [OF v(2,1)])
  have "agent_id agent = agent_id cur" using c(7) e(2) by auto
  with e(5,6) v(3) check_grant_allowed_iff [of "rq_datetime rq" "agent_id cur" cap args "sv_registry sv"]
  obtain g where "map_of (agent_grants (agent_id cur) (sv_registry sv)) cap = Some g" "g_status g = GrantActive"
    "\<forall>e. g_expires_at g = Some e \<longrightarrow> rq_datetime rq \<le> e"
    "\<forall>cs. g_constraints g = Some cs \<longrightarrow>
         (\<forall>(field, spec) \<in> set cs. field_holds field spec (case args of None \<Rightarrow> [] | Some a \<Rightarrow> a))"
    by auto
  with c e v(3) show ?thesis by blast
qed

lemma sample_req_sel [simp]:
  "rq_json (sample_http_req body) = Inr (PDict body)" "rq_now (sample_http_req body) = 1010"
  "rq_now_jti (sample_http_req body) = 1010" "rq_datetime (sample_http_req body) = 5"
  "rq_session_clock (sample_http_req body) = sample_clock" "rq_between (sample_http_req body) = id"
  "rq_before_save (sample_http_req body) = id" "rq_new_id (sample_http_req body) = ''n''"
  by (simp_all add: sample_http_req_def)

lemma sample_host_active: "host_status sample_host = HostActive"
  by (simp add: sample_host_def)

lemma sample_bearer: "bearer_token_from_request (sample_http_req body) = Some ''t''"
  by (simp add: bearer_token_from_request_def sample_http_req_def starts_with_def strip_def lstrip_def rstrip_def Let_def py_space_def)

lemma sample_execute:
  "handle_capability_execute (sample_lib AGENT_JWT_TYP sample_agent_claims)
     (sample_http_req [(''capability'', PStr ''pay''), (''arguments'', PDict [(''amount'', PInt 7)])])
     (sample_server (sample_cache []) pay_grant) =
   (Inr (respond 200 [(''capability'', PStr ''pay''), (''status'', PStr ''executed''), (''agent_id'', PStr ''a'')]),
    (sample_server (sample_cache [(''a'', ''jwt_1'')]) pay_grant)\<lparr>
      sv_agents := [(''a'', (sample_agent AgentActive)\<lparr>last_used_at := Some 7\<rparr>)]\<rparr>)"
proof -
  have "check_jti 1010 True ''a'' ''jwt_1'' (Some (sample_cache [])) = (Inr True, Some (sample_cache [(''a'', ''jwt_1'')]))"
    by (simp add: check_jti_Some sample_cache_record)
  note v = sample_verify_agent_eq [OF this, unfolded sample_verify_agent_def]
  have "check_grant 5 ''a'' ''pay'' (Some [(''amount'', PInt 7)]) pay_grant =
      Inr \<lparr>gc_allowed = True, gc_violations = [], gc_grant = map_of (agent_grants ''a'' pay_grant) ''pay''\<rparr>"
    by (simp add: check_grant_def pay_grant_def agent_grants_def grant_def Let_def registry_init_def
        check_field_def OPERATOR_KEYS_def check_operator_def is_number_def py_gt_def)
  with v show ?thesis
    by (simp add: handle_capability_execute_def verify_agent_bearer_def sample_bearer run_verify_agent_def sample_lib_def
        sample_server_def) (simp add: sample_http_req_def parse_execute_body_def sample_agent_def respond_def)
qed

theorem executed_only_if_granted_witness:
  "\<exists>g. map_of (agent_grants ''a'' pay_grant) ''pay'' = Some g \<and> g_status g = GrantActive \<and>
     (\<forall>e. g_expires_at g = Some e \<longrightarrow> 5 \<le> e)"
  using executed_only_if_granted [OF sample_execute]
  by (auto simp: respond_def sample_server_def sample_http_req_def agent_get_def parse_execute_body_def sample_agent_def
      split: if_splits)

text \<open>Reactivation answers 200 only to the agent's own, unrevoked host, for an agent that was active
  or expired and within its absolute lifetime when it was read again and not revoked when it was
  saved. The agent is then active as of now, its grants of the host's default capabilities are active
  and unconstrained, every other grant it had is denied, and no grant of another agent changes.\<close>

theorem reactivation_decays_grants:
  assumes ok: "handle_agent_reactivate lb rq sv = (Inr resp, sv')" "hr_status resp = 200"
    and inv: "grants_inv (sv_registry sv)" "rows_inv (rq_between rq (sv_agents sv))"
  shows "\<exists>aid host iss first fresh raw. rq_json rq = Inr raw \<and> parse_reactivate_body raw = Some aid \<and>
      host_get_by_public_key iss (sv_hosts sv) = Some host \<and> host_status host \<noteq> HostRevoked \<and>
      agent_get aid (sv_agents sv) = Some first \<and> agent_host_id first = host_id host \<and>
      agent_get aid (rq_between rq (sv_agents sv)) = Some fresh \<and> agent_status fresh \<in> {AgentActive, AgentExpired} \<and>
      (\<forall>l. absolute_lifetime fresh = Some l \<longrightarrow> rq_datetime rq - agent_created_at fresh \<le> l) \<and>
      (\<forall>cur. agent_get aid (rq_before_save rq (rq_between rq (sv_agents sv))) = Some cur \<longrightarrow> agent_status cur \<noteq> AgentRevoked) \<and>
      agent_get aid (sv_agents sv') = Some (fresh\<lparr>agent_status := AgentActive,
        activated_at := Some (rq_datetime rq), last_used_at := Some (rq_datetime rq)\<rparr>) \<and>
      (\<forall>cap. map_of (agent_grants aid (sv_registry sv')) cap =
         (if cap \<in> set (default_capabilities host)
          then Some \<lparr>g_capability = cap, g_status = GrantActive, g_constraints = None,
                 g_granted_by = Some (host_id host), g_reason = None, g_expires_at = None\<rparr>
          else map_option (\<lambda>g. \<lparr>g_capability = cap, g_status = GrantDenied, g_constraints = None,
                 g_granted_by = None, g_reason = Some ''capability decayed on reactivation'', g_expires_at = None\<rparr>)
               (map_of (agent_grants aid (sv_registry sv)) cap))) \<and>
      (\<forall>other cap. other \<noteq> aid \<longrightarrow>
         map_of (agent_grants other (sv_registry sv')) cap = map_of (agent_grants other (sv_registry sv)) cap)"
proof -
  obtain result sv1 claims raw aid agent iss host fresh a rows where r:
    "verify_host_bearer lb True True rq sv = (Inr (Inr result), sv1)" "jv_claims result = Some claims"
    "rq_json rq = Inr raw" "parse_reactivate_body raw = Some aid"
    "agent_get aid (sv_agents sv1) = Some agent" "get_claim claims ''iss'' = PStr iss"
    "host_get_by_public_key iss (sv_hosts sv1) = Some host" "host_id host = agent_host_id agent"
    "agent_get aid (rq_between rq (sv_agents sv1)) = Some fresh"
    "reactivate_agent (rq_datetime rq) fresh = Inr a"
    "agent_save (lib_digest lb) a (Some (agent_public_key fresh))
       (rq_before_save rq (rq_between rq (sv_agents sv1))) = (Inr (), rows)"
    "sv' = sv1\<lparr>sv_agents := rows, sv_registry := decay_grants aid host (sv_registry sv1)\<rparr>"
    by (rule reactivate_200 [OF ok])
  obtain token cache where h: "jv_ok result"
    "verify_host_jwt (lib_jose lb) (lib_digest lb) (rq_now rq) (rq_now_jti rq) token (sv_hosts sv)
       (Some (sv_audience sv)) True (Some (sv_jti sv)) = (Inr result, cache)"
    "sv_registry sv1 = sv_registry sv" "sv_agents sv1 = sv_agents sv" "sv_hosts sv1 = sv_hosts sv"
    by (rule verify_host_bearer_ok [OF r(1)]) simp
  have host: "host_status host \<noteq> HostRevoked"
    by (rule verify_host_jwt_ok [OF h(2,1)]) (use r(2,6,7) h(5) in auto)
  have fresh: "agent_status fresh \<in> {AgentActive, AgentExpired}" 
    "\<forall>l. absolute_lifetime fresh = Some l \<longrightarrow> rq_datetime rq - agent_created_at fresh \<le> l"
    "a = fresh\<lparr>agent_status := AgentActive, activated_at := Some (rq_datetime rq), last_used_at := Some (rq_datetime rq)\<rparr>"
    using r(10) by (auto simp: reactivate_agent_def not_less split: if_splits option.splits)
  have id: "agent_id a = aid" using inv(2) r(9) h(4) fresh(3) by (simp add: rows_inv_def agent_get_def)
  have saved: "map_of rows aid = Some a" 
    "\<forall>cur. agent_get aid (rq_before_save rq (rq_between rq (sv_agents sv))) = Some cur \<longrightarrow> agent_status cur \<noteq> AgentRevoked"
    using r(11) id fresh(3) h(4)
    by (auto simp: agent_save_def Let_def cas_public_key_row_def agent_get_def dict_simps split: option.splits sum.splits if_splits)
  from r h host fresh saved show ?thesis
    by (intro exI [of _ aid] exI [of _ host] exI [of _ iss] exI [of _ agent] exI [of _ fresh] exI [of _ raw])
      (simp add: decay_grants_lookup [OF inv(1)] agent_get_def)
qed

lemma sample_host_lookup: "host_get_by_public_key ''tp'' sample_hosts = Some sample_host"
  by (simp add: host_get_by_public_key_def sample_hosts_def)

lemma sample_host_iss: "get_claim sample_host_claims ''iss'' = PStr ''tp''"
  by (simp add: sample_host_claims_def host_jwt_claims_def get_claim_def)

lemma sample_host_auth:
  "verify_host_bearer (sample_lib HOST_JWT_TYP sample_host_claims) True True
      (sample_http_req body) (sample_server (sample_cache []) r) =
      (Inr (Inr \<lparr>jv_ok = True, jv_claims = Some sample_host_claims, jv_host = Some sample_host,
         jv_agent = None, jv_error = None\<rparr>), sample_server (sample_cache [(''tp'', ''jwt_1'')]) r)"
  using sample_verify_host_eq sample_host_iss sample_host_lookup
  by (simp add: verify_host_bearer_def sample_bearer sample_lib_def sample_server_def
      strip_eq_Nil_iff py_space_def sample_host_active)

lemma sample_reactivate:
  "\<exists>resp sv'. handle_agent_reactivate (sample_lib HOST_JWT_TYP sample_host_claims)
     (sample_http_req [(''agent_id'', PStr ''a'')]) (sample_server (sample_cache []) pay_grant) = (Inr resp, sv') \<and>
     hr_status resp = 200"
proof -
  have react: "reactivate_agent 5 (sample_agent AgentActive) =
      Inr ((sample_agent AgentActive)\<lparr>activated_at := Some 5, last_used_at := Some 5\<rparr>)"
    by (simp add: reactivate_agent_def sample_agent_def)
  have save: "agent_save sample_digest ((sample_agent AgentActive)\<lparr>activated_at := Some 5, last_used_at := Some 5\<rparr>)
      (Some (agent_public_key (sample_agent AgentActive))) [(''a'', sample_agent AgentActive)] =
      (Inr (), [(''a'', (sample_agent AgentActive)\<lparr>activated_at := Some 5, last_used_at := Some 5\<rparr>)])"
    by (simp add: agent_save_def Let_def sample_agent_def cas_public_key_row_def jwk_thumbprint_sha256_def
        required_members_def sample_digest_def member_def)
  have own: "host_id sample_host = agent_host_id (sample_agent AgentActive)"
    by (simp add: sample_host_def sample_agent_def)
  show ?thesis
    using sample_host_iss sample_host_lookup react save own unfolding handle_agent_reactivate_def sample_host_auth
    by (simp add: parse_reactivate_body_def sample_server_def
        agent_get_def Let_def sample_lib_def save_agent_unless_revoked_def respond_def)
qed

theorem reactivation_decays_grants_witness:
  "\<exists>resp sv'. handle_agent_reactivate (sample_lib HOST_JWT_TYP sample_host_claims)
     (sample_http_req [(''agent_id'', PStr ''a'')]) (sample_server (sample_cache []) pay_grant) = (Inr resp, sv') \<and>
     map_of (agent_grants ''b'' (sv_registry sv')) ''pay'' = map_of (agent_grants ''b'' pay_grant) ''pay''"
proof -
  obtain resp sv' where run: "handle_agent_reactivate (sample_lib HOST_JWT_TYP sample_host_claims)
     (sample_http_req [(''agent_id'', PStr ''a'')]) (sample_server (sample_cache []) pay_grant) = (Inr resp, sv')"
    "hr_status resp = 200" using sample_reactivate by blast
  have "grants_inv pay_grant" by (simp add: pay_grant_def grants_inv_grant grants_inv_init)
  moreover have "rows_inv [(''a'', sample_agent AgentActive)]" by (simp add: rows_inv_def sample_agent_def)
  ultimately show ?thesis
    using reactivation_decays_grants [OF run] run
    by (auto simp: sample_server_def parse_reactivate_body_def)
qed

end
