(* ===== verification/Routes_Agent.thy ===== *)
theory Routes_Agent
  imports Routes_Base
begin

text \<open>
  The agent lifecycle endpoints: register, status, revoke and rotate-key
  (\<open>src/asap/transport/agent_routes.py\<close>) and request-capability
  (\<open>src/asap/transport/escalation_routes.py\<close>).

  As in the other endpoints, \<open>rq_between\<close> is what other tasks do to the agent rows before a handler
  reads a row again and \<open>rq_before_save\<close> what they do before it writes.
\<close>

subsection \<open>Bodies\<close>

text \<open>One requested capability: its name and specification.\<close>

definition capability_request :: "pyval \<Rightarrow> (string \<times> pydict) option" where
  "capability_request v =
     (case v of
        PStr s \<Rightarrow> if strip s \<noteq> [] then Some (s, [(''name'', PStr s)]) else None
      | PDict d \<Rightarrow> (case map_of d ''name'' of Some (PStr s) \<Rightarrow> if s \<noteq> [] then Some (s, d) else None | _ \<Rightarrow> None)
      | _ \<Rightarrow> None)"

definition parse_capability_registration_body :: "pydict \<Rightarrow> string list \<times> pydict list" where
  "parse_capability_registration_body raw_body =
     (case get_claim raw_body ''capabilities'' of
        PList vs \<Rightarrow> (let rs = List.map_filter capability_request vs in (map fst rs, map snd rs))
      | _ \<Rightarrow> ([], []))"

definition parse_agent_controls_browser :: "pydict \<Rightarrow> bool" where
  "parse_agent_controls_browser raw_body \<longleftrightarrow> get_claim raw_body ''agent_controls_browser'' = PBool True"

definition parse_preferred_method :: "pydict \<Rightarrow> approval_method option" where
  "parse_preferred_method raw_body =
     (if get_claim raw_body ''approval_method'' = PStr ''device_authorization'' then Some DeviceAuthorization
      else if get_claim raw_body ''approval_method'' = PStr ''ciba'' then Some Ciba else None)"

subsection \<open>Gates of the approval path\<close>

definition approval_fresh_session_response :: "http_req \<Rightarrow> pydict \<Rightarrow> server \<Rightarrow> py_exn + http_response option" where
  "approval_fresh_session_response rq claims sv =
     (case sv_fresh sv of
        None \<Rightarrow> Inr None
      | Some cfg \<Rightarrow> map_sum id (map_option (detail 403)) (fresh_session_violation_detail (rq_now_fresh rq) claims cfg))"

definition approval_webauthn_response :: "pydict \<Rightarrow> string list \<Rightarrow> string \<Rightarrow> bool \<Rightarrow> server \<Rightarrow> http_response option" where
  "approval_webauthn_response raw_body requested hid browser sv =
     map_option (\<lambda>(msg, st). if st = 403 then detail 403 ''webauthn_required'' else detail 400 msg)
       (check_webauthn_for_approval_path requested raw_body (sv_fresh sv) (sv_webauthn sv) (Some hid) browser)"

subsection \<open>Granting what was specified\<close>

definition applied_grant_payload :: "capability_grant \<Rightarrow> pydict" where
  "applied_grant_payload g =
     [(''capability'', PStr (g_capability g)), (''status'', PStr (grant_status_name (g_status g)))] @
     optional_str ''reason'' (g_reason g)"

text \<open>The grant model accepts a dictionary or nothing as constraints.\<close>

definition grant_constraints :: "pyval \<Rightarrow> py_exn + pydict option" where
  "grant_constraints v =
     (case v of PNone \<Rightarrow> Inr None | PDict d \<Rightarrow> Inr (Some d) | _ \<Rightarrow> Inl (ValueError ''constraints''))"

definition raw_spec_name :: "pydict \<Rightarrow> string" where
  "raw_spec_name spec = (case map_of spec ''name'' of Some (PStr s) \<Rightarrow> s | _ \<Rightarrow> [])"

text \<open>One round of the loop: the payload to report, if any, and the registry.\<close>

definition apply_spec ::
  "lib \<Rightarrow> (string, capability_grant) dict \<Rightarrow> string \<Rightarrow> string \<Rightarrow> pydict \<Rightarrow> capability_registry \<Rightarrow>
   (capability_registry, py_exn, pydict list) outcome" where
  "apply_spec lb existing aid hid spec r =
     (let name = raw_spec_name spec; constraints = spec_constraints spec;
          keep = (case map_of existing name of
                    None \<Rightarrow> None
                  | Some g \<Rightarrow> if auto_grant_would_replace_existing_grant (Some g) constraints then None else Some g)
      in if name = [] then (Inr [], r)
         else (case keep of
            Some g \<Rightarrow> (Inr [applied_grant_payload g], r)
          | None \<Rightarrow>
              (case describe name r of
                 None \<Rightarrow>
                   (let (g, r') = grant aid name None (Some hid) GrantDenied
                          (Some (''capability '' @ lib_repr lb (PStr name) @ '' not found'')) None r
                    in (Inr [applied_grant_payload g], r'))
               | Some defn \<Rightarrow>
                   (case grant_constraints constraints of
                      Inl x \<Rightarrow> (Inl x, r)
                    | Inr cs \<Rightarrow>
                        (let (g, r') = grant aid name cs (Some hid) GrantActive None None r
                         in (Inr [applied_grant_payload g], r'))))))"

fun apply_specs ::
  "lib \<Rightarrow> (string, capability_grant) dict \<Rightarrow> string \<Rightarrow> string \<Rightarrow> pydict list \<Rightarrow> capability_registry \<Rightarrow>
   (capability_registry, py_exn, pydict list) outcome" where
  "apply_specs lb existing aid hid [] r = (Inr [], r)"
| "apply_specs lb existing aid hid (spec # specs) r =
     bind_out (apply_spec lb existing aid hid spec r) (\<lambda>p r1.
       bind_out (apply_specs lb existing aid hid specs r1) (\<lambda>ps r2. (Inr (p @ ps), r2)))"

definition apply_capability_specs_to_registry ::
  "lib \<Rightarrow> string \<Rightarrow> string \<Rightarrow> pydict list \<Rightarrow> capability_registry \<Rightarrow> (capability_registry, py_exn, pydict list) outcome" where
  "apply_capability_specs_to_registry lb aid hid specs r =
     apply_specs lb (grant_by_name (get_grants aid r)) aid hid specs r"

text \<open>The same on the server.\<close>

definition apply_on_server ::
  "lib \<Rightarrow> string \<Rightarrow> string \<Rightarrow> pydict list \<Rightarrow> server \<Rightarrow> pydict list handler_result" where
  "apply_on_server lb aid hid specs sv =
     (case apply_capability_specs_to_registry lb aid hid specs (sv_registry sv) of
        (out, r) \<Rightarrow> (out, sv\<lparr>sv_registry := r\<rparr>))"

definition effective_identity_host_id :: "jwt_verify_result \<Rightarrow> py_exn + string" where
  "effective_identity_host_id result =
     (case jv_claims result of
        None \<Rightarrow> Inl (ValueError ''verified host JWT must include claims'')
      | Some claims \<Rightarrow>
          (case get_claim claims ''iss'' of
             PStr iss \<Rightarrow> Inr (case jv_host result of Some h \<Rightarrow> host_id h | None \<Rightarrow> host_urn_from_thumbprint iss)
           | _ \<Rightarrow> Inl (ValueError ''verified host JWT must include iss'')))"

subsection \<open>Texts of responses\<close>

definition approval_method_name :: "approval_method \<Rightarrow> string" where
  "approval_method_name m = (case m of DeviceAuthorization \<Rightarrow> ''device_authorization'' | Ciba \<Rightarrow> ''ciba'')"

definition approval_status_name :: "approval_status \<Rightarrow> string" where
  "approval_status_name st =
     (case st of Pending \<Rightarrow> ''pending'' | Approved \<Rightarrow> ''approved'' | Denied \<Rightarrow> ''denied'' | ExpiredReq \<Rightarrow> ''expired'')"

definition dump_str :: "string option \<Rightarrow> pyval" where
  "dump_str v = (case v of None \<Rightarrow> PNone | Some s \<Rightarrow> PStr s)"

definition dump_approval :: "approval_object \<Rightarrow> pydict" where
  "dump_approval o' =
     [(''method'', PStr (approval_method_name (ao_method o'))), (''verification_uri'', dump_str (ao_verification_uri o')),
      (''verification_uri_complete'', dump_str (ao_verification_uri_complete o')), (''user_code'', dump_str (ao_user_code o')),
      (''binding_message'', dump_str (ao_binding_message o')), (''expires_in'', PInt (ao_expires_in o')),
      (''interval'', PInt (ao_interval o'))]"

text \<open>A duration in seconds, as the float \<open>total_seconds\<close> gives.\<close>

definition td_seconds :: "timedelta option \<Rightarrow> pyval" where
  "td_seconds td = (case td of None \<Rightarrow> PNone | Some d \<Rightarrow> PFloat (Fin (of_int d / 1000000)))"

definition agent_lifecycle_json :: "lib \<Rightarrow> agent_session \<Rightarrow> pydict" where
  "agent_lifecycle_json lb a =
     (let iso = (\<lambda>t. case t of None \<Rightarrow> PNone | Some d \<Rightarrow> PStr (lib_isoformat lb d)) in
      [(''mode'', PStr (case agent_mode a of Delegated \<Rightarrow> ''delegated'' | Autonomous \<Rightarrow> ''autonomous'')),
       (''session_ttl'', td_seconds (session_ttl a)), (''max_lifetime'', td_seconds (max_lifetime a)),
       (''absolute_lifetime'', td_seconds (absolute_lifetime a)), (''created_at'', iso (Some (agent_created_at a))),
       (''activated_at'', iso (activated_at a)), (''last_used_at'', iso (last_used_at a))])"

subsection \<open>Starting an approval\<close>

definition DEFAULT_DEVICE_EXPIRES_IN_SECONDS :: int where "DEFAULT_DEVICE_EXPIRES_IN_SECONDS = 600"
definition DEFAULT_POLL_INTERVAL_SECONDS :: int where "DEFAULT_POLL_INTERVAL_SECONDS = 5"

definition start_approval ::
  "lib \<Rightarrow> http_req \<Rightarrow> approval_method \<Rightarrow> string \<Rightarrow> string list \<Rightarrow> pydict list \<Rightarrow> approval_kind \<Rightarrow> server \<Rightarrow>
   approval_object handler_result" where
  "start_approval lb rq method aid names specs kind sv =
     (case (if method = Ciba
            then create_ciba_approval (lib_str lb) (rq_flow_clock rq) aid names None DEFAULT_DEVICE_EXPIRES_IN_SECONDS
                   DEFAULT_POLL_INTERVAL_SECONDS (Some specs) kind (sv_approvals sv)
            else create_device_authorization (lib_str lb) (rq_flow_clock rq) (rq_user_code rq) aid names
                   DEFAULT_DEVICE_EXPIRES_IN_SECONDS DEFAULT_POLL_INTERVAL_SECONDS None (Some specs) kind (sv_approvals sv)) of
        (out, store) \<Rightarrow> (out, sv\<lparr>sv_approvals := store\<rparr>))"

definition schedule_a2h :: "host_identity \<Rightarrow> string \<Rightarrow> string \<Rightarrow> pydict list \<Rightarrow> server \<Rightarrow> server" where
  "schedule_a2h host aid context specs sv =
     (let principal = (case host_user_id host of None \<Rightarrow> host_id host | Some u \<Rightarrow> if u = [] then host_id host else u)
      in if sv_a2h sv then sv\<lparr>sv_tasks := sv_tasks sv @ [(aid, context, principal, specs)]\<rparr> else sv)"

subsection \<open>Register\<close>

text \<open>The host of the token; a host seen for the first time is stored as pending.\<close>

definition registered_host ::
  "lib \<Rightarrow> http_req \<Rightarrow> string \<Rightarrow> pydict \<Rightarrow> host_identity option \<Rightarrow> server \<Rightarrow> host_identity handler_result" where
  "registered_host lb rq iss host_pub known sv =
     (case known of
        Some h \<Rightarrow> (Inr h, sv)
      | None \<Rightarrow>
          if \<not> lib_import_key lb host_pub then (Inl (ValueError ''Invalid OKP public key JWK''), sv)
          else (let h = \<lparr>host_id = host_urn_from_thumbprint iss, host_name = None, host_public_key = host_pub,
                         host_user_id = None, default_capabilities = [], host_status = HostPending,
                         host_created_at = rq_datetime rq, host_updated_at = rq_datetime rq\<rparr>
                in case host_save (lib_digest lb) h (sv_hosts sv) of
                     (out, hs) \<Rightarrow> (map_sum id (\<lambda>u. h) out, sv\<lparr>sv_hosts := hs\<rparr>)))"

fun find_by_key :: "digest \<Rightarrow> string \<Rightarrow> agent_session list \<Rightarrow> py_exn + agent_session option" where
  "find_by_key digest tp [] = Inr None"
| "find_by_key digest tp (sess # rest) =
     (case jwk_thumbprint_sha256 digest (agent_public_key sess) of
        Inl x \<Rightarrow> Inl x
      | Inr tp' \<Rightarrow> if tp' = tp then Inr (Some sess) else find_by_key digest tp rest)"

definition new_session :: "http_req \<Rightarrow> string \<Rightarrow> pydict \<Rightarrow> agent_session" where
  "new_session rq hid agent_pub =
     \<lparr>agent_id = rq_new_id rq, agent_host_id = hid, agent_public_key = agent_pub, agent_mode = Delegated,
      agent_status = AgentPending, session_ttl = None, max_lifetime = None, absolute_lifetime = None,
      activated_at = None, last_used_at = None, agent_created_at = rq_datetime rq\<rparr>"

definition save_or_raise :: "lib \<Rightarrow> agent_session \<Rightarrow> agent_rows \<Rightarrow> server \<Rightarrow> unit handler_result" where
  "save_or_raise lb a rows sv =
     (case agent_save (lib_digest lb) a None rows of
        (Inl x, rows') \<Rightarrow> (Inl (ValueError ''refusing to overwrite revoked agent''), sv\<lparr>sv_agents := rows'\<rparr>)
      | (Inr u, rows') \<Rightarrow> (Inr u, sv\<lparr>sv_agents := rows'\<rparr>))"

text \<open>Nothing to consent to: grant, then activate.\<close>

definition register_active ::
  "lib \<Rightarrow> http_req \<Rightarrow> host_identity \<Rightarrow> agent_session \<Rightarrow> pydict list \<Rightarrow> server \<Rightarrow> http_response handler_result" where
  "register_active lb rq host session specs sv =
     bind_out (if specs = [] then (Inr [], sv) else apply_on_server lb (agent_id session) (host_id host) specs sv)
       (\<lambda>grants sv1.
          bind_out (save_or_raise lb (session\<lparr>agent_status := AgentActive, activated_at := Some (rq_datetime rq)\<rparr>)
                      (rq_before_save rq (sv_agents sv1)) sv1)
            (\<lambda>u sv2. (Inr (respond 200 ([(''agent_id'', PStr (agent_id session)), (''host_id'', PStr (host_id host)),
                (''status'', PStr ''active'')] @
                (if grants = [] then [] else [(''agent_capability_grants'', PList (map PDict grants))]))), sv2)))"

definition register_pending ::
  "lib \<Rightarrow> http_req \<Rightarrow> host_identity \<Rightarrow> agent_session \<Rightarrow> string list \<Rightarrow> pydict list \<Rightarrow> approval_method option \<Rightarrow> bool \<Rightarrow>
   server \<Rightarrow> http_response handler_result" where
  "register_pending lb rq host session names specs preferred browser sv =
     bind_out (start_approval lb rq (select_approval_method host (sv_ciba sv) preferred browser)
                 (agent_id session) names specs Registration sv)
       (\<lambda>obj sv1.
          (Inr (respond 200 [(''agent_id'', PStr (agent_id session)), (''host_id'', PStr (host_id host)),
              (''status'', PStr ''pending''), (''approval'', PDict (dump_approval obj))]),
           schedule_a2h host (agent_id session)
             (''ASAP agent registration '' @ agent_id session @ '' for host '' @ host_id host) specs sv1))"

text \<open>A body that is no JSON object counts as empty.\<close>

definition register_body :: "http_req \<Rightarrow> pydict" where
  "register_body rq = (case rq_json rq of Inr (PDict d) \<Rightarrow> d | _ \<Rightarrow> [])"

text \<open>A key that is new to the host: gates, session, then one of the two paths.\<close>

definition register_new ::
  "lib \<Rightarrow> http_req \<Rightarrow> pydict \<Rightarrow> host_identity \<Rightarrow> pydict \<Rightarrow> server \<Rightarrow> http_response handler_result" where
  "register_new lb rq claims host agent_pub sv =
     (let raw_body = register_body rq;
          (names, specs) = parse_capability_registration_body raw_body;
          browser = parse_agent_controls_browser raw_body;
          needs = escalation_requires_user_consent host names;
          session = new_session rq (host_id host) agent_pub
      in case (if needs then approval_fresh_session_response rq claims sv else Inr None) of
           Inl x \<Rightarrow> (Inl x, sv)
         | Inr (Some resp) \<Rightarrow> (Inr resp, sv)
         | Inr None \<Rightarrow>
             (case (if needs then approval_webauthn_response raw_body names (host_id host) browser sv else None) of
                Some resp \<Rightarrow> (Inr resp, sv)
              | None \<Rightarrow>
                  bind_out (save_or_raise lb session (sv_agents sv) sv) (\<lambda>u sv1.
                    if \<not> needs then register_active lb rq host session specs sv1
                    else register_pending lb rq host session names specs (parse_preferred_method raw_body) browser sv1)))"

text \<open>A key the host has registered already gets its session back.\<close>

definition register_for_host ::
  "lib \<Rightarrow> http_req \<Rightarrow> pydict \<Rightarrow> pydict \<Rightarrow> host_identity \<Rightarrow> server \<Rightarrow> http_response handler_result" where
  "register_for_host lb rq claims agent_pub host sv2 =
     (case jwk_thumbprint_sha256 (lib_digest lb) agent_pub of
        Inl x \<Rightarrow> (Inl x, sv2)
      | Inr tp \<Rightarrow>
          (case find_by_key (lib_digest lb) tp (list_by_host (host_id host) (sv_agents sv2)) of
             Inl x \<Rightarrow> (Inl x, sv2)
           | Inr (Some ex) \<Rightarrow>
               (Inr (respond 200 [(''agent_id'', PStr (agent_id ex)), (''host_id'', PStr (agent_host_id ex)),
                  (''status'', PStr (status_name (agent_status ex)))]), sv2)
           | Inr None \<Rightarrow> register_new lb rq claims host agent_pub sv2))"

definition handle_agent_register :: "lib \<Rightarrow> http_req \<Rightarrow> server \<Rightarrow> http_response handler_result" where
  "handle_agent_register lb rq sv =
     bind_out (verify_host_bearer lb True True rq sv) (\<lambda>auth sv1.
       case auth of
         Inl resp \<Rightarrow> (Inr resp, sv1)
       | Inr result \<Rightarrow>
           (case jv_claims result of
              None \<Rightarrow> (Inr (detail 401 ''Invalid host token''), sv1)
            | Some claims \<Rightarrow>
                (case get_claim claims ''agent_public_key'' of
                   PDict agent_pub \<Rightarrow>
                     if \<not> lib_import_key lb agent_pub then (Inr (detail 400 ''invalid agent_public_key JWK''), sv1)
                     else (case get_claim claims ''host_public_key'' of
                        PDict host_pub \<Rightarrow>
                          (case get_claim claims ''iss'' of
                             PStr iss \<Rightarrow>
                               if strip iss = [] then (Inr (detail 400 ''missing iss in host JWT''), sv1)
                               else bind_out (registered_host lb rq iss host_pub (jv_host result) sv1)
                                      (register_for_host lb rq claims agent_pub)
                           | _ \<Rightarrow> (Inr (detail 400 ''missing iss in host JWT''), sv1))
                      | _ \<Rightarrow> (Inr (detail 400 ''missing host_public_key in host JWT''), sv1))
                 | _ \<Rightarrow> (Inr (detail 400 ''missing or invalid agent_public_key claim in host JWT''), sv1))))"

subsection \<open>Status\<close>

text \<open>What a poll does to an active agent's escalation request.\<close>

definition settle_escalation ::
  "lib \<Rightarrow> string \<Rightarrow> string \<Rightarrow> agent_session \<Rightarrow> approval_request option \<Rightarrow> server \<Rightarrow> approval_request option handler_result" where
  "settle_escalation lb aid hid session appr sv =
     (case appr of
        None \<Rightarrow> (Inr None, sv)
      | Some a \<Rightarrow>
          if agent_status session = AgentActive \<and> ar_kind a = Escalation then
            (if ar_status a = Approved then
               bind_out (if ar_specs a = [] then (Inr [], sv) else apply_on_server lb aid hid (ar_specs a) sv)
                 (\<lambda>p sv1. (Inr None, sv1\<lparr>sv_approvals := approval_remove aid (sv_approvals sv1)\<rparr>))
             else if ar_status a \<in> {Denied, ExpiredReq} then
               (Inr None, sv\<lparr>sv_approvals := approval_remove aid (sv_approvals sv)\<rparr>)
             else (Inr appr, sv))
          else (Inr appr, sv))"

text \<open>Re-read, and write the row back if it is still pending; \<open>after\<close> runs if the write succeeded.\<close>

definition settle_pending_row ::
  "lib \<Rightarrow> http_req \<Rightarrow> string \<Rightarrow> (agent_session \<Rightarrow> agent_session) \<Rightarrow> (server \<Rightarrow> unit handler_result) \<Rightarrow> server \<Rightarrow>
   unit handler_result" where
  "settle_pending_row lb rq aid upd after sv =
     (let sv1 = sv\<lparr>sv_agents := rq_between rq (sv_agents sv)\<rparr> in
      case agent_get aid (sv_agents sv1) of
        None \<Rightarrow> (Inr (), sv1)
      | Some fresh \<Rightarrow>
          if agent_status fresh \<noteq> AgentPending then (Inr (), sv1)
          else (case save_agent_unless_revoked (lib_digest lb) (upd fresh) (Some (agent_public_key fresh))
                       (rq_before_save rq (sv_agents sv1)) of
                  (Inl x, rows) \<Rightarrow> (Inr (), sv1\<lparr>sv_agents := rows\<rparr>)
                | (Inr u, rows) \<Rightarrow> after (sv1\<lparr>sv_agents := rows\<rparr>)))"

definition settle_registration ::
  "lib \<Rightarrow> http_req \<Rightarrow> string \<Rightarrow> string \<Rightarrow> agent_session \<Rightarrow> approval_request option \<Rightarrow> server \<Rightarrow> unit handler_result" where
  "settle_registration lb rq aid hid session appr sv =
     (case appr of
        None \<Rightarrow> (Inr (), sv)
      | Some a \<Rightarrow>
          if agent_status session \<noteq> AgentPending then (Inr (), sv)
          else if ar_status a = Approved then
            settle_pending_row lb rq aid
              (\<lambda>fresh. fresh\<lparr>agent_status := AgentActive, activated_at := Some (rq_datetime rq)\<rparr>)
              (\<lambda>sv1. if ar_specs a = [] then (Inr (), sv1)
                     else bind_out (apply_on_server lb aid hid (ar_specs a) sv1) (\<lambda>p sv2. (Inr (), sv2))) sv
          else if ar_status a = Denied then
            settle_pending_row lb rq aid (\<lambda>fresh. fresh\<lparr>agent_status := AgentRejected\<rparr>) (\<lambda>sv1. (Inr (), sv1)) sv
          else (Inr (), sv))"

definition approval_content :: "http_req \<Rightarrow> agent_session \<Rightarrow> approval_request \<Rightarrow> pydict" where
  "approval_content rq session a =
     [(''approval_status'', PStr (approval_status_name (ar_status a)))] @
     (if agent_status session = AgentPending \<and> ar_status a \<in> {Pending, ExpiredReq} \<or>
         agent_status session = AgentActive \<and> ar_kind a = Escalation \<and> ar_status a = Pending
      then [(''approval'', PDict (dump_approval (approval_object_for_client (fc_object (rq_flow_clock rq)) a) @
               [(''state'', PStr (approval_status_name (ar_status a)))]))]
      else if agent_status session = AgentRejected then optional_str ''deny_reason'' (ar_deny_reason a)
      else [])"

definition status_response ::
  "lib \<Rightarrow> http_req \<Rightarrow> string \<Rightarrow> agent_session \<Rightarrow> approval_request option \<Rightarrow> server \<Rightarrow> http_response" where
  "status_response lb rq aid session0 appr sv =
     (let session = (case agent_get aid (sv_agents sv) of None \<Rightarrow> session0 | Some s \<Rightarrow> s);
          caps = (if agent_status session = AgentActive
                  then PList (map (PDict \<circ> grant_to_dict lb) (get_grants aid (sv_registry sv))) else PList [])
      in respond 200 ([(''agent_id'', PStr (agent_id session)), (''host_id'', PStr (agent_host_id session)),
           (''status'', PStr (status_name (agent_status session))), (''capabilities'', caps),
           (''agent_capability_grants'', caps), (''lifecycle'', PDict (agent_lifecycle_json lb session))] @
           (case appr of None \<Rightarrow> [] | Some a \<Rightarrow> approval_content rq session a)))"

text \<open>A poll of a pending agent with a pending request needs a fresh host token.\<close>

definition poll_gate ::
  "http_req \<Rightarrow> pydict option \<Rightarrow> agent_session \<Rightarrow> approval_request option \<Rightarrow> server \<Rightarrow> py_exn + http_response option" where
  "poll_gate rq claims session appr sv =
     (case (appr, claims) of
        (Some a, Some cl) \<Rightarrow>
          if agent_status session = AgentPending \<and> ar_status a = Pending
          then approval_fresh_session_response rq cl sv else Inr None
      | _ \<Rightarrow> Inr None)"

definition handle_agent_status :: "lib \<Rightarrow> http_req \<Rightarrow> string \<Rightarrow> server \<Rightarrow> http_response handler_result" where
  "handle_agent_status lb rq aid sv =
     bind_out (verify_host_bearer lb True False rq sv) (\<lambda>auth sv1.
       case auth of
         Inl resp \<Rightarrow> (Inr resp, sv1)
       | Inr result \<Rightarrow>
           (case effective_identity_host_id result of
              Inl x \<Rightarrow> (Inl x, sv1)
            | Inr hid \<Rightarrow>
                (case agent_get aid (sv_agents sv1) of
                   None \<Rightarrow> (Inr (detail 404 ''unknown agent_id''), sv1)
                 | Some session \<Rightarrow>
                     if agent_host_id session \<noteq> hid then (Inr (detail 403 ''agent does not belong to this host''), sv1)
                     else (case approval_get (fc_get (rq_flow_clock rq)) aid (sv_approvals sv1) of
                        (appr, store) \<Rightarrow>
                          (let sv2 = sv1\<lparr>sv_approvals := store\<rparr> in
                           case poll_gate rq (jv_claims result) session appr sv2 of
                             Inl x \<Rightarrow> (Inl x, sv2)
                           | Inr (Some resp) \<Rightarrow> (Inr resp, sv2)
                           | Inr None \<Rightarrow>
                               bind_out (settle_escalation lb aid hid session appr sv2) (\<lambda>appr1 sv3.
                                 bind_out (settle_registration lb rq aid hid session appr1 sv3) (\<lambda>u sv4.
                                   (Inr (status_response lb rq aid session appr1 sv4), sv4))))))))"

subsection \<open>Revoke and rotate\<close>

definition handle_agent_revoke :: "lib \<Rightarrow> http_req \<Rightarrow> string \<Rightarrow> server \<Rightarrow> http_response handler_result" where
  "handle_agent_revoke lb rq aid sv =
     bind_out (verify_host_bearer lb True True rq sv) (\<lambda>auth sv1.
       case auth of
         Inl resp \<Rightarrow> (Inr resp, sv1)
       | Inr result \<Rightarrow>
           (case effective_identity_host_id result of
              Inl x \<Rightarrow> (Inl x, sv1)
            | Inr hid \<Rightarrow>
                (case agent_get aid (sv_agents sv1) of
                   None \<Rightarrow> (Inr (detail 404 ''unknown agent_id''), sv1)
                 | Some session \<Rightarrow>
                     if agent_host_id session \<noteq> hid then (Inr (detail 403 ''agent does not belong to this host''), sv1)
                     else (Inr (respond 200 [(''agent_id'', PStr aid), (''status'', PStr ''revoked'')]),
                           sv1\<lparr>sv_agents := agent_revoke aid (rq_before_save rq (sv_agents sv1))\<rparr>))))"

fun key_used_by_other :: "digest \<Rightarrow> string \<Rightarrow> string \<Rightarrow> agent_session list \<Rightarrow> py_exn + bool" where
  "key_used_by_other digest tp aid [] = Inr False"
| "key_used_by_other digest tp aid (other # rest) =
     (if agent_id other = aid then key_used_by_other digest tp aid rest
      else (case jwk_thumbprint_sha256 digest (agent_public_key other) of
              Inl x \<Rightarrow> Inl x
            | Inr tp' \<Rightarrow> if tp' = tp then Inr True else key_used_by_other digest tp aid rest))"

definition rotate_fresh_row :: "lib \<Rightarrow> http_req \<Rightarrow> string \<Rightarrow> pydict \<Rightarrow> server \<Rightarrow> http_response handler_result" where
  "rotate_fresh_row lb rq aid new_pub sv1 =
     (let sv2 = sv1\<lparr>sv_agents := rq_between rq (sv_agents sv1)\<rparr> in
      case agent_get aid (sv_agents sv2) of
        None \<Rightarrow> (Inr (detail 404 ''unknown agent_id''), sv2)
      | Some fresh \<Rightarrow>
          if agent_status fresh = AgentRevoked then (Inr (detail 400 ''cannot rotate key for revoked agent''), sv2)
          else (case save_agent_unless_revoked (lib_digest lb) (fresh\<lparr>agent_public_key := new_pub\<rparr>)
                       (Some (agent_public_key fresh)) (rq_before_save rq (sv_agents sv2)) of
                  (Inl RevokedAgentOverwriteError, rows) \<Rightarrow>
                    (Inr (detail 400 ''cannot rotate key for revoked agent''), sv2\<lparr>sv_agents := rows\<rparr>)
                | (Inl StaleAgentPublicKeyError, rows) \<Rightarrow>
                    (Inr (detail 409 ''agent public key changed concurrently''), sv2\<lparr>sv_agents := rows\<rparr>)
                | (Inr u, rows) \<Rightarrow>
                    (Inr (respond 200 [(''agent_id'', PStr (agent_id fresh)),
                       (''status'', PStr (status_name (agent_status fresh)))]), sv2\<lparr>sv_agents := rows\<rparr>)))"

definition handle_agent_rotate_key :: "lib \<Rightarrow> http_req \<Rightarrow> string \<Rightarrow> pydict \<Rightarrow> server \<Rightarrow> http_response handler_result" where
  "handle_agent_rotate_key lb rq aid new_pub sv =
     bind_out (verify_host_bearer lb True True rq sv) (\<lambda>auth sv1.
       case auth of
         Inl resp \<Rightarrow> (Inr resp, sv1)
       | Inr result \<Rightarrow>
           (case effective_identity_host_id result of
              Inl x \<Rightarrow> (Inl x, sv1)
            | Inr hid \<Rightarrow>
                (case agent_get aid (sv_agents sv1) of
                   None \<Rightarrow> (Inr (detail 404 ''unknown agent_id''), sv1)
                 | Some session \<Rightarrow>
                     if agent_host_id session \<noteq> hid then (Inr (detail 403 ''agent does not belong to this host''), sv1)
                     else if agent_status session = AgentRevoked
                     then (Inr (detail 400 ''cannot rotate key for revoked agent''), sv1)
                     else if \<not> lib_import_key lb new_pub then (Inr (detail 400 ''invalid new_public_key JWK''), sv1)
                     else (case (jwk_thumbprint_sha256 (lib_digest lb) new_pub,
                                 jwk_thumbprint_sha256 (lib_digest lb) (agent_public_key session)) of
                        (Inl x, _) \<Rightarrow> (Inl x, sv1)
                      | (Inr tp, Inl x) \<Rightarrow> (Inl x, sv1)
                      | (Inr tp, Inr old) \<Rightarrow>
                          if tp = old then (Inr (respond 200 [(''agent_id'', PStr (agent_id session)),
                              (''status'', PStr (status_name (agent_status session)))]), sv1)
                          else (case key_used_by_other (lib_digest lb) tp (agent_id session) (list_by_host hid (sv_agents sv1)) of
                             Inl x \<Rightarrow> (Inl x, sv1)
                           | Inr True \<Rightarrow> (Inr (detail 409 ''another agent under this host already uses this public key''), sv1)
                           | Inr False \<Rightarrow> rotate_fresh_row lb rq aid new_pub sv1)))))"

subsection \<open>Escalation\<close>

text \<open>The prompt shown to the human: every name with its constraints.\<close>

definition escalation_part :: "lib \<Rightarrow> pydict \<Rightarrow> string" where
  "escalation_part lb spec =
     (let name = (case map_of spec ''name'' of None \<Rightarrow> [] | Some (PStr s) \<Rightarrow> s | Some v \<Rightarrow> lib_str lb v) in
      case spec_constraints spec of
        PNone \<Rightarrow> name @ '' (no constraints)''
      | cs \<Rightarrow> name @ '' constraints='' @ lib_repr lb cs)"

fun join_parts :: "string list \<Rightarrow> string" where
  "join_parts [] = ''(none)''"
| "join_parts [p] = p"
| "join_parts (p # ps) = p @ ''; '' @ join_parts ps"

definition escalation_a2h_context :: "lib \<Rightarrow> string \<Rightarrow> string \<Rightarrow> pydict list \<Rightarrow> string" where
  "escalation_a2h_context lb aid hid specs =
     ''ASAP capability escalation '' @ aid @ '' for host '' @ hid @ '': '' @ join_parts (map (escalation_part lb) specs)"

definition as_dict :: "pyval \<Rightarrow> pydict option" where
  "as_dict v = (case v of PDict d \<Rightarrow> Some d | _ \<Rightarrow> None)"

definition parse_request_capability_body :: "pydict \<Rightarrow> pyval list option" where
  "parse_request_capability_body raw =
     (if \<not> set (dict_keys raw) \<subseteq> {''capabilities''} then None
      else (case map_of raw ''capabilities'' of
              Some (PList vs) \<Rightarrow> if vs \<noteq> [] \<and> list_all (\<lambda>v. as_dict v \<noteq> None) vs then Some vs else None
            | _ \<Rightarrow> None))"

definition request_consent ::
  "lib \<Rightarrow> http_req \<Rightarrow> host_identity \<Rightarrow> string \<Rightarrow> pydict list \<Rightarrow> pydict list \<Rightarrow> server \<Rightarrow> http_response handler_result" where
  "request_consent lb rq host aid needs granted sv =
     bind_out (start_approval lb rq (select_approval_method host (sv_ciba sv) None False) aid
                 (map raw_spec_name needs) needs Escalation sv)
       (\<lambda>obj sv1.
          case approval_get (rq_datetime rq) aid (sv_approvals sv1) of
            (pending, store) \<Rightarrow>
              (let consent = (case pending of None \<Rightarrow> needs | Some a \<Rightarrow> ar_specs a) in
               (Inr (respond 200 ([(''agent_id'', PStr aid), (''host_id'', PStr (host_id host)),
                   (''status'', PStr ''pending''), (''approval'', PDict (dump_approval obj))] @
                   (if granted = [] then [] else [(''agent_capability_grants'', PList (map PDict granted))]))),
                schedule_a2h host aid (escalation_a2h_context lb aid (host_id host) consent) consent
                  (sv1\<lparr>sv_approvals := store\<rparr>))))"

definition handle_request_capability :: "lib \<Rightarrow> http_req \<Rightarrow> server \<Rightarrow> http_response handler_result" where
  "handle_request_capability lb rq sv =
     bind_out (verify_agent_bearer lb rq sv) (\<lambda>auth sv1.
       case auth of
         Inl resp \<Rightarrow> (Inr resp, sv1)
       | Inr result \<Rightarrow>
           (case (jv_agent result, jv_host result) of
              (Some agent, Some host) \<Rightarrow>
                if agent_status agent \<noteq> AgentActive
                then (Inr (detail 400 ''agent must be active to request capability escalation''), sv1)
                else (case rq_json rq of
                   Inl e \<Rightarrow> (Inr (detail 400 (''Invalid JSON: '' @ e)), sv1)
                 | Inr (PDict raw) \<Rightarrow>
                     (case parse_request_capability_body raw of
                        None \<Rightarrow> (Inr (respond 400 [(''detail'', lib_validation_errors lb (PDict raw))]), sv1)
                      | Some caps \<Rightarrow>
                          (let (names, specs) = parse_capability_registration_body [(''capabilities'', PList caps)];
                               (needs, auto) = partition_escalation_capability_specs host (map PDict specs)
                                                 (get_grants (agent_id agent) (sv_registry sv1))
                           in if names = []
                              then (Inr (detail 400 ''each capability must include a non-empty name''), sv1)
                              else bind_out (apply_on_server lb (agent_id agent) (host_id host) auto sv1) (\<lambda>granted sv2.
                                if needs = []
                                then (Inr (respond 200 [(''agent_id'', PStr (agent_id agent)), (''host_id'', PStr (host_id host)),
                                        (''status'', PStr ''active''), (''agent_capability_grants'', PList (map PDict granted))]), sv2)
                                else request_consent lb rq host (agent_id agent) needs granted sv2)))
                 | Inr v \<Rightarrow> (Inr (detail 400 ''JSON body must be an object''), sv1))
            | _ \<Rightarrow> (Inr (detail 401 ''Invalid agent token''), sv1)))"

subsection \<open>What applying specifications does\<close>

text \<open>The grants one specification may lead to, given the registered definitions.\<close>

definition granted_by_spec :: "string \<Rightarrow> capability_registry \<Rightarrow> pydict \<Rightarrow> capability_grant \<Rightarrow> bool" where
  "granted_by_spec hid r spec g \<longleftrightarrow>
     g_capability g = raw_spec_name spec \<and> g_granted_by g = Some hid \<and> g_expires_at g = None \<and>
     (if describe (raw_spec_name spec) r = None then g_status g = GrantDenied \<and> g_constraints g = None
      else g_status g = GrantActive \<and> grant_constraints (spec_constraints spec) = Inr (g_constraints g))"

text \<open>Between two registries, the grants of one agent may have changed to what some specification gives.\<close>

definition grants_follow ::
  "string \<Rightarrow> string \<Rightarrow> pydict list \<Rightarrow> capability_registry \<Rightarrow> capability_registry \<Rightarrow> bool" where
  "grants_follow aid hid specs r r' \<longleftrightarrow>
     (\<forall>a cap. map_of (agent_grants a r') cap = map_of (agent_grants a r) cap \<or>
        a = aid \<and> (\<exists>g spec. map_of (agent_grants a r') cap = Some g \<and> spec \<in> set specs \<and>
          cap = raw_spec_name spec \<and> granted_by_spec hid r spec g)) \<and>
     definitions r' = definitions r"

lemma grants_follow_refl [simp]: "grants_follow aid hid specs r r"
  by (simp add: grants_follow_def)

lemma grants_follow_changed:
  assumes "grants_follow aid hid specs r r'" "map_of (agent_grants a r') cap \<noteq> map_of (agent_grants a r) cap"
  obtains g spec where "a = aid" "map_of (agent_grants a r') cap = Some g" "spec \<in> set specs" "cap = raw_spec_name spec"
    "granted_by_spec hid r spec g"
  using assms unfolding grants_follow_def by blast

lemma granted_by_spec_cong: "definitions r' = definitions r \<Longrightarrow> granted_by_spec hid r' = granted_by_spec hid r"
  by (simp add: granted_by_spec_def describe_def fun_eq_iff)

lemma grants_follow_trans:
  assumes "grants_follow aid hid specs r r1" "grants_follow aid hid specs' r1 r2"
    and "set specs \<subseteq> set all" "set specs' \<subseteq> set all"
  shows "grants_follow aid hid all r r2"
proof -
  note defs = granted_by_spec_cong [of r1 r hid]
  have "map_of (agent_grants a r2) cap = map_of (agent_grants a r) cap \<or>
      a = aid \<and> (\<exists>g spec. map_of (agent_grants a r2) cap = Some g \<and> spec \<in> set all \<and>
        cap = raw_spec_name spec \<and> granted_by_spec hid r spec g)" for a cap
  proof (cases "map_of (agent_grants a r2) cap = map_of (agent_grants a r1) cap")
    case True
    with assms(1,3) show ?thesis unfolding grants_follow_def True by (meson subsetD)
  next
    case False
    with assms(1,2) obtain g spec where "a = aid" "map_of (agent_grants a r2) cap = Some g" "spec \<in> set specs'"
      "cap = raw_spec_name spec" "granted_by_spec hid r1 spec g" unfolding grants_follow_def by blast
    with assms(1,4) defs show ?thesis unfolding grants_follow_def by auto
  qed
  with assms(1,2) show ?thesis by (simp add: grants_follow_def)
qed

lemma grant_follows:
  assumes "granted_by_spec hid r spec (fst (grant aid cap cs by st re ex r))"
  shows "grants_follow aid hid [spec] r (snd (grant aid cap cs by st re ex r))"
proof -
  have "cap = raw_spec_name spec" "definitions (snd (grant aid cap cs by st re ex r)) = definitions r"
    using assms by (auto simp: granted_by_spec_def grant_def Let_def)
  with assms show ?thesis by (auto simp: grants_follow_def agent_grants_grant dict_simps)
qed

lemma apply_spec_follows:
  assumes "apply_spec lb existing aid hid spec r = (out, r')"
  shows "grants_follow aid hid [spec] r r'"
proof (cases "raw_spec_name spec = []")
  case True
  with assms show ?thesis by (simp add: apply_spec_def)
next
  case named: False
  have keep: ?thesis if "r' = r" using that by simp
  show ?thesis
  proof (cases "describe (raw_spec_name spec) r")
    case None
    then have "granted_by_spec hid r spec (fst (grant aid (raw_spec_name spec) None (Some hid) GrantDenied re None r))" for re
      by (simp add: granted_by_spec_def grant_def Let_def)
    with None named assms keep grant_follows show ?thesis
      by (auto simp: apply_spec_def Let_def split_beta split: option.splits if_splits)
  next
    case (Some defn)
    have "granted_by_spec hid r spec (fst (grant aid (raw_spec_name spec) cs (Some hid) GrantActive None None r))"
      if "grant_constraints (spec_constraints spec) = Inr cs" for cs
      using that Some by (simp add: granted_by_spec_def grant_def Let_def)
    with Some named assms keep grant_follows show ?thesis
      by (auto simp: apply_spec_def Let_def split_beta split: option.splits sum.splits if_splits)
  qed
qed

lemma apply_specs_follow:
  "apply_specs lb existing aid hid specs r = (out, r') \<Longrightarrow> grants_follow aid hid specs r r'"
proof (induction specs arbitrary: r r' out)
  case (Cons spec specs)
  obtain o1 r1 where one: "apply_spec lb existing aid hid spec r = (o1, r1)" by fastforce
  note step = apply_spec_follows [OF one]
  show ?case
  proof (cases o1)
    case (Inl x)
    with Cons.prems one have "r' = r1" by auto
    with grants_follow_trans [OF step grants_follow_refl [of aid hid specs], of "spec # specs"] show ?thesis by auto
  next
    case (Inr p)
    obtain o2 r2 where two: "apply_specs lb existing aid hid specs r1 = (o2, r2)" by fastforce
    with Inr one Cons.prems have "r' = r2" by (cases o2) auto
    with grants_follow_trans [OF step Cons.IH [OF two], of "spec # specs"] show ?thesis by auto
  qed
qed simp

lemma apply_on_server_follows:
  assumes "apply_on_server lb aid hid specs sv = (out, sv')"
  shows "grants_follow aid hid specs (sv_registry sv) (sv_registry sv')"
    and "sv_agents sv' = sv_agents sv" "sv_approvals sv' = sv_approvals sv" "sv_hosts sv' = sv_hosts sv" "sv_tasks sv' = sv_tasks sv"
  using assms
  by (auto simp: apply_on_server_def apply_capability_specs_to_registry_def intro: apply_specs_follow split: prod.splits)

lemma verify_host_bearer_frame:
  assumes "verify_host_bearer lb active rec rq sv = (out, sv1)"
  shows "sv_registry sv1 = sv_registry sv \<and> sv_agents sv1 = sv_agents sv \<and> sv_approvals sv1 = sv_approvals sv \<and>
    sv_hosts sv1 = sv_hosts sv \<and> sv_fresh sv1 = sv_fresh sv \<and> sv_webauthn sv1 = sv_webauthn sv"
proof (cases "bearer_token_from_request rq")
  case (Some token)
  obtain r cache where r: "verify_host_jwt (lib_jose lb) (lib_digest lb) (rq_now rq) (rq_now_jti rq) token (sv_hosts sv)
       (Some (sv_audience sv)) rec (Some (sv_jti sv)) = (r, cache)" by fastforce
  let ?sv = "sv\<lparr>sv_jti := (case cache of None \<Rightarrow> sv_jti sv | Some c \<Rightarrow> c)\<rparr>"
  have "sv1 = ?sv"
  proof (cases r)
    case (Inr result)
    with assms Some r show ?thesis
      by (cases "jv_ok result"; cases "jv_claims result") (auto simp: verify_host_bearer_def Let_def split: if_splits)
  qed (use assms Some r in \<open>simp add: verify_host_bearer_def Let_def\<close>)
  then show ?thesis by simp
qed (use assms in \<open>auto simp: verify_host_bearer_def\<close>)

lemma settle_escalation_follows:
  assumes "settle_escalation lb aid hid session appr sv = (out, sv')"
  shows "sv_agents sv' = sv_agents sv \<and> (\<forall>a'. out = Inr (Some a') \<longrightarrow> appr = Some a') \<and>
    (sv_registry sv' = sv_registry sv \<or> (\<exists>a. appr = Some a \<and> ar_status a = Approved \<and>
      (\<forall>a'. out \<noteq> Inr (Some a')) \<and> grants_follow aid hid (ar_specs a) (sv_registry sv) (sv_registry sv')))"
proof (cases appr)
  case (Some a)
  show ?thesis
  proof (cases "agent_status session = AgentActive \<and> ar_kind a = Escalation \<and> ar_status a = Approved")
    case True
    obtain o1 sv1 where app: "apply_on_server lb aid hid (ar_specs a) sv = (o1, sv1)" by fastforce
    from True Some assms app apply_on_server_follows [OF app] show ?thesis
      by (cases o1) (auto simp: settle_escalation_def split: if_splits)
  qed (use Some assms in \<open>auto simp: settle_escalation_def split: if_splits\<close>)
qed (use assms in \<open>auto simp: settle_escalation_def\<close>)

text \<open>The rows a poll may leave: read, read again, or with the pending row settled as \<open>upd\<close> says.\<close>

definition row_settled ::
  "http_req \<Rightarrow> string \<Rightarrow> (agent_session \<Rightarrow> agent_session) \<Rightarrow> agent_rows \<Rightarrow> agent_rows \<Rightarrow> bool" where
  "row_settled rq aid upd rows rows' \<longleftrightarrow>
     (\<exists>fresh. agent_get aid (rq_between rq rows) = Some fresh \<and> agent_status fresh = AgentPending \<and>
        rows' = AList.update aid (upd fresh) (rq_before_save rq (rq_between rq rows)) \<and>
        (\<forall>cur. agent_get aid (rq_before_save rq (rq_between rq rows)) = Some cur \<longrightarrow> agent_status cur \<noteq> AgentRevoked))"

definition rows_unsettled :: "http_req \<Rightarrow> agent_rows \<Rightarrow> agent_rows \<Rightarrow> bool" where
  "rows_unsettled rq rows rows' \<longleftrightarrow> rows' \<in> {rows, rq_between rq rows, rq_before_save rq (rq_between rq rows)}"

lemma settle_pending_row_cases:
  assumes run: "settle_pending_row lb rq aid upd after sv = (out, sv')"
    and inv: "rows_inv (rq_between rq (sv_agents sv))"
    and upd: "\<And>a. agent_id (upd a) = agent_id a" "\<And>a. agent_public_key (upd a) = agent_public_key a"
      "\<And>a. agent_status (upd a) \<noteq> AgentRevoked"
  obtains (same) "rows_unsettled rq (sv_agents sv) (sv_agents sv')" "sv_registry sv' = sv_registry sv"
  | (settled) rows where "row_settled rq aid upd (sv_agents sv) rows" "after (sv\<lparr>sv_agents := rows\<rparr>) = (out, sv')"
proof (cases "agent_get aid (rq_between rq (sv_agents sv))")
  case None
  with run same show ?thesis by (auto simp: settle_pending_row_def Let_def rows_unsettled_def)
next
  case (Some fresh)
  let ?rows = "rq_before_save rq (rq_between rq (sv_agents sv))"
  obtain o1 rows where save: "agent_save (lib_digest lb) (upd fresh) (Some (agent_public_key fresh)) ?rows = (o1, rows)"
    by fastforce
  have aid: "agent_id (upd fresh) = aid" using inv Some upd(1) by (simp add: rows_inv_def agent_get_def)
  show ?thesis
  proof (cases "agent_status fresh = AgentPending \<and> (\<exists>u. o1 = Inr u)")
    case True
    then have ok: "agent_save (lib_digest lb) (upd fresh) (Some (agent_public_key (upd fresh))) ?rows = (Inr (), rows)"
      using save upd(2) by auto
    have "row_settled rq aid upd (sv_agents sv) rows"
      using agent_save_own_key [OF ok] True Some upd(3) aid by (simp add: row_settled_def)
    then show ?thesis
      using True run Some save by (intro settled) (auto simp: settle_pending_row_def Let_def save_agent_unless_revoked_def)
  next
    case False
    have "rows = ?rows" if "o1 = Inl x" for x
      using agents.save_error [of "lib_digest lb" "upd fresh" "Some (agent_public_key fresh)" ?rows x] save that by simp
    with False run Some save show ?thesis
      by (intro same) (cases o1; auto simp: settle_pending_row_def Let_def save_agent_unless_revoked_def rows_unsettled_def
          split: if_splits)+
  qed
qed

text \<open>What a poll amounts to, for the request it finds.\<close>

definition poll_effect ::
  "http_req \<Rightarrow> string \<Rightarrow> string \<Rightarrow> approval_request option \<Rightarrow> server \<Rightarrow> server \<Rightarrow> bool" where
  "poll_effect rq aid hid appr sv sv' \<longleftrightarrow>
     (case appr of
        None \<Rightarrow> sv_registry sv' = sv_registry sv \<and> rows_unsettled rq (sv_agents sv) (sv_agents sv')
      | Some a \<Rightarrow>
          (sv_registry sv' = sv_registry sv \<or>
             ar_status a = Approved \<and> grants_follow aid hid (ar_specs a) (sv_registry sv) (sv_registry sv')) \<and>
          (rows_unsettled rq (sv_agents sv) (sv_agents sv') \<or>
             ar_status a = Approved \<and> row_settled rq aid
               (\<lambda>fresh. fresh\<lparr>agent_status := AgentActive, activated_at := Some (rq_datetime rq)\<rparr>) (sv_agents sv) (sv_agents sv') \<or>
             ar_status a = Denied \<and> row_settled rq aid (\<lambda>fresh. fresh\<lparr>agent_status := AgentRejected\<rparr>) (sv_agents sv) (sv_agents sv')))"

lemma rows_unsettled_refl [simp]: "rows_unsettled rq rows rows"
  by (simp add: rows_unsettled_def)

lemma poll_effect_refl [simp]: "poll_effect rq aid hid appr sv sv"
  by (simp add: poll_effect_def split: option.splits)

lemma settle_registration_effect:
  assumes run: "settle_registration lb rq aid hid session appr sv = (out, sv')"
    and inv: "rows_inv (rq_between rq (sv_agents sv))"
  shows "poll_effect rq aid hid appr sv sv'"
proof (cases appr)
  case (Some a)
  consider "agent_status session \<noteq> AgentPending \<or> ar_status a \<notin> {Approved, Denied}"
    | "agent_status session = AgentPending" "ar_status a = Approved"
    | "agent_status session = AgentPending" "ar_status a = Denied" by blast
  then show ?thesis
  proof cases
    case 1
    with run Some show ?thesis by (auto simp: settle_registration_def split: if_splits)
  next
    case 2
    with run Some have row: "settle_pending_row lb rq aid
        (\<lambda>fresh. fresh\<lparr>agent_status := AgentActive, activated_at := Some (rq_datetime rq)\<rparr>)
        (\<lambda>sv1. if ar_specs a = [] then (Inr (), sv1)
               else bind_out (apply_on_server lb aid hid (ar_specs a) sv1) (\<lambda>p sv2. (Inr (), sv2))) sv = (out, sv')"
      by (simp add: settle_registration_def)
    consider "rows_unsettled rq (sv_agents sv) (sv_agents sv')" "sv_registry sv' = sv_registry sv"
      | rows where "row_settled rq aid (\<lambda>fresh. fresh\<lparr>agent_status := AgentActive, activated_at := Some (rq_datetime rq)\<rparr>) (sv_agents sv) rows"
          "(if ar_specs a = [] then (Inr (), sv\<lparr>sv_agents := rows\<rparr>)
            else bind_out (apply_on_server lb aid hid (ar_specs a) (sv\<lparr>sv_agents := rows\<rparr>)) (\<lambda>p sv2. (Inr (), sv2))) = (out, sv')"
      by (rule settle_pending_row_cases [OF row inv]) auto
    then show ?thesis
    proof cases
      case settled: 2
      obtain o1 sv1 where app: "apply_on_server lb aid hid (ar_specs a) (sv\<lparr>sv_agents := rows\<rparr>) = (o1, sv1)" by fastforce
      from settled 2 Some app apply_on_server_follows [OF app] show ?thesis
        by (cases o1) (auto simp: poll_effect_def split: if_splits)
    qed (simp add: poll_effect_def Some)
  next
    case 3
    with run Some have row: "settle_pending_row lb rq aid (\<lambda>fresh. fresh\<lparr>agent_status := AgentRejected\<rparr>)
        (\<lambda>sv1. (Inr (), sv1)) sv = (out, sv')" by (simp add: settle_registration_def)
    show ?thesis
      by (rule settle_pending_row_cases [OF row inv]) (use 3 Some in \<open>auto simp: poll_effect_def\<close>)
  qed
qed (use run in \<open>simp add: settle_registration_def\<close>)

lemma poll_effect_cong:
  assumes "poll_effect rq aid hid appr sv1 sv2" "sv_registry sv1 = sv_registry sv" "sv_agents sv1 = sv_agents sv"
  shows "poll_effect rq aid hid appr sv sv2"
  using assms(1) unfolding poll_effect_def assms(2,3) .

lemma decided_request_stored:
  assumes "approval_get now aid s = (Some a, s')" "ar_status a \<in> {Approved, Denied}"
  shows "map_of s aid = Some a"
  using assms by (auto simp: approval_get_def refresh_expired_def Let_def split: option.splits if_splits)

lemma settle_effect:
  assumes esc: "settle_escalation lb aid hid session appr sv = (out1, sv1)"
    and reg: "\<And>appr1. out1 = Inr appr1 \<Longrightarrow> settle_registration lb rq aid hid session appr1 sv1 = (out2, sv2)"
      "\<And>x. out1 = Inl x \<Longrightarrow> sv2 = sv1"
    and inv: "rows_inv (rq_between rq (sv_agents sv))"
  shows "poll_effect rq aid hid appr sv sv2"
proof -
  note e = settle_escalation_follows [OF esc]
  show ?thesis
  proof (cases "\<exists>a'. out1 = Inr (Some a')")
    case True
    then obtain a' where a': "out1 = Inr (Some a')" "appr = Some a'" using e by blast
    with e have same: "sv_registry sv1 = sv_registry sv" "sv_agents sv1 = sv_agents sv" by auto
    from settle_registration_effect [OF reg(1) [OF a'(1)]] same inv a'(2) show ?thesis
      using poll_effect_cong [OF _ same] by simp
  next
    case False
    have "sv2 = sv1"
    proof (cases out1)
      case (Inr appr1)
      with False have "appr1 = None" by (cases appr1) auto
      with reg(1) [OF Inr] show ?thesis by (simp add: settle_registration_def)
    qed (use reg(2) in blast)
    with e show ?thesis by (auto simp: poll_effect_def split: option.splits)
  qed
qed

lemma status_effect:
  assumes run: "handle_agent_status lb rq aid sv = (out, sv')"
    and inv: "rows_inv (rq_between rq (sv_agents sv))"
  shows "sv_registry sv' = sv_registry sv \<and> sv_agents sv' = sv_agents sv \<or>
    (\<exists>s appr store. agent_get aid (sv_agents sv) = Some s \<and>
       approval_get (fc_get (rq_flow_clock rq)) aid (sv_approvals sv) = (appr, store) \<and>
       poll_effect rq aid (agent_host_id s) appr sv sv')"
proof -
  obtain o1 sv1 where auth: "verify_host_bearer lb True False rq sv = (o1, sv1)" by fastforce
  note frame = verify_host_bearer_frame [OF auth]
  have keep: ?thesis if "sv_registry sv' = sv_registry sv1" "sv_agents sv' = sv_agents sv1" using that frame by simp
  note [simp] = handle_agent_status_def
  show ?thesis
  proof (cases "\<exists>result. o1 = Inr (Inr result)")
    case False
    with run auth have "sv' = sv1" by (cases o1; cases "projr o1") auto
    with keep show ?thesis by simp
  next
    case True
    then obtain result where o1: "o1 = Inr (Inr result)" by blast
    show ?thesis
    proof (cases "\<exists>hid s. effective_identity_host_id result = Inr hid \<and> agent_get aid (sv_agents sv1) = Some s \<and> agent_host_id s = hid")
      case False
      with run auth o1 have "sv' = sv1"
        by (cases "effective_identity_host_id result"; cases "agent_get aid (sv_agents sv1)") (auto split: if_splits)
      with keep show ?thesis by simp
    next
      case True
      then obtain s where s: "effective_identity_host_id result = Inr (agent_host_id s)" "agent_get aid (sv_agents sv1) = Some s"
        by blast
      obtain appr store where appr: "approval_get (fc_get (rq_flow_clock rq)) aid (sv_approvals sv1) = (appr, store)" by fastforce
      let ?sv2 = "sv1\<lparr>sv_approvals := store\<rparr>"
      let ?gate = "poll_gate rq (jv_claims result) s appr ?sv2"
      note run = run [unfolded handle_agent_status_def auth o1 bind_out_simps, simplified, unfolded s, simplified,
          unfolded appr prod.case Let_def]
      show ?thesis
      proof (cases "?gate = Inr None")
        case False
        with run have "sv' = ?sv2" by (auto split: sum.splits option.splits)
        with keep show ?thesis by simp
      next
        case True
        obtain out1 sv3 where esc: "settle_escalation lb aid (agent_host_id s) s appr ?sv2 = (out1, sv3)" by fastforce
        have "\<exists>out2 sv4. (\<forall>appr1. out1 = Inr appr1 \<longrightarrow> settle_registration lb rq aid (agent_host_id s) s appr1 sv3 = (out2, sv4)) \<and>
            ((\<exists>x. out1 = Inl x) \<longrightarrow> sv4 = sv3) \<and> sv' = sv4"
          using run True esc
          by (cases out1; cases "fst (settle_registration lb rq aid (agent_host_id s) s (projr out1) sv3)")
            (auto simp: bind_out_def split: prod.splits sum.splits)
        then have "poll_effect rq aid (agent_host_id s) appr ?sv2 sv'"
          using settle_effect [OF esc, of rq] inv frame by auto
        then have "poll_effect rq aid (agent_host_id s) appr sv sv'"
          using frame by (auto intro: poll_effect_cong)
        with s appr frame show ?thesis by auto
      qed
    qed
  qed
qed

subsection \<open>Rotation\<close>

lemma key_used_by_other_False:
  assumes "key_used_by_other digest tp aid as = Inr False" "a \<in> set as" "agent_id a \<noteq> aid"
  shows "jwk_thumbprint_sha256 digest (agent_public_key a) \<noteq> Inr tp"
  using assms by (induction as) (auto split: if_splits sum.splits)

lemma agent_save_new_key:
  assumes save: "agent_save digest a (Some k) rows = (Inr (), rows')" and inv: "rows_inv rows"
    and live: "agent_status a \<noteq> AgentRevoked"
  shows "\<exists>row. agent_get (agent_id a) rows' = Some row \<and> agent_public_key row = agent_public_key a"
    and "\<And>cur. agent_get (agent_id a) rows = Some cur \<Longrightarrow> agent_status cur \<noteq> AgentRevoked \<and>
      jwk_thumbprint_sha256 digest (agent_public_key cur) = jwk_thumbprint_sha256 digest k"
proof -
  have rows': "rows' = snd (agent_save digest a (Some k) rows)" "fst (agent_save digest a (Some k) rows) = Inr ()"
    using save by simp_all
  show "\<exists>row. agent_get (agent_id a) rows' = Some row \<and> agent_public_key row = agent_public_key a"
    using agents.save_get [OF inv rows'(2)] rows'(1) by auto
  fix cur assume "agent_get (agent_id a) rows = Some cur"
  then show "agent_status cur \<noteq> AgentRevoked \<and> jwk_thumbprint_sha256 digest (agent_public_key cur) = jwk_thumbprint_sha256 digest k"
    using agents.save_revoked [OF inv] agents.save_stale [OF inv] rows'(2) live by force
qed

lemma rotate_fresh_200:
  assumes "rotate_fresh_row lb rq aid new_pub sv = (Inr resp, sv')" "hr_status resp = 200"
  obtains fresh rows where "agent_get aid (rq_between rq (sv_agents sv)) = Some fresh" "agent_status fresh \<noteq> AgentRevoked"
    "agent_save (lib_digest lb) (fresh\<lparr>agent_public_key := new_pub\<rparr>) (Some (agent_public_key fresh))
       (rq_before_save rq (rq_between rq (sv_agents sv))) = (Inr (), rows)" "sv' = sv\<lparr>sv_agents := rows\<rparr>"
proof (cases "agent_get aid (rq_between rq (sv_agents sv))")
  case None
  with assms show thesis by (auto simp: rotate_fresh_row_def Let_def detail_def respond_def)
next
  case (Some fresh)
  obtain o1 rows where save: "agent_save (lib_digest lb) (fresh\<lparr>agent_public_key := new_pub\<rparr>) (Some (agent_public_key fresh))
       (rq_before_save rq (rq_between rq (sv_agents sv))) = (o1, rows)" by fastforce
  note [simp] = rotate_fresh_row_def Let_def detail_def respond_def save_agent_unless_revoked_def
  have live: "agent_status fresh \<noteq> AgentRevoked" using assms Some by auto
  have "\<exists>u. o1 = Inr u" using assms Some live save by (cases o1; cases "projl o1") auto
  then have "o1 = Inr ()" by auto
  with assms Some live save show thesis by (intro that [of fresh rows]) auto
qed

text \<open>What an accepted rotation went through.\<close>

lemma rotate_200:
  assumes run: "handle_agent_rotate_key lb rq aid new_pub sv = (Inr resp, sv')" "hr_status resp = 200"
  obtains result sv1 s tp where "verify_host_bearer lb True True rq sv = (Inr (Inr result), sv1)"
    "effective_identity_host_id result = Inr (agent_host_id s)" "agent_get aid (sv_agents sv) = Some s"
    "agent_status s \<noteq> AgentRevoked" "jwk_thumbprint_sha256 (lib_digest lb) new_pub = Inr tp"
    "jwk_thumbprint_sha256 (lib_digest lb) (agent_public_key s) = Inr tp \<and> sv' = sv1 \<or>
     key_used_by_other (lib_digest lb) tp (agent_id s) (list_by_host (agent_host_id s) (sv_agents sv)) = Inr False \<and>
     rotate_fresh_row lb rq aid new_pub sv1 = (Inr resp, sv')"
proof -
  obtain auth sv1 where auth: "verify_host_bearer lb True True rq sv = (Inr auth, sv1)"
    using run(1) by (auto simp: handle_agent_rotate_key_def elim!: bind_out_Inr)
  note frame = verify_host_bearer_frame [OF auth]
  have "\<exists>result. auth = Inr result"
    using run auth verify_host_bearer_refused [of lb True True rq sv _ sv1]
    by (cases auth) (auto simp: handle_agent_rotate_key_def)
  then obtain result where result: "auth = Inr result" by blast
  note [simp] = handle_agent_rotate_key_def detail_def respond_def
  have "\<exists>hid. effective_identity_host_id result = Inr hid"
    using run auth result by (cases "effective_identity_host_id result") auto
  then obtain hid where hid: "effective_identity_host_id result = Inr hid" by blast
  have "agent_get aid (sv_agents sv1) \<noteq> None"
    using run auth result hid by (cases "agent_get aid (sv_agents sv1)") auto
  then obtain s where s: "agent_get aid (sv_agents sv1) = Some s" by blast
  have own: "agent_host_id s = hid" "agent_status s \<noteq> AgentRevoked" "lib_import_key lb new_pub"
    using run auth result hid s by (auto split: if_splits)
  have "\<exists>tp. jwk_thumbprint_sha256 (lib_digest lb) new_pub = Inr tp"
    using run auth result hid s own by (cases "jwk_thumbprint_sha256 (lib_digest lb) new_pub") auto
  then obtain tp where tp: "jwk_thumbprint_sha256 (lib_digest lb) new_pub = Inr tp" by blast
  have "\<exists>old. jwk_thumbprint_sha256 (lib_digest lb) (agent_public_key s) = Inr old"
    using run auth result hid s own tp by (cases "jwk_thumbprint_sha256 (lib_digest lb) (agent_public_key s)") auto
  then obtain old where old: "jwk_thumbprint_sha256 (lib_digest lb) (agent_public_key s) = Inr old" by blast
  let ?used = "key_used_by_other (lib_digest lb) tp (agent_id s) (list_by_host hid (sv_agents sv1))"
  have "old = tp \<and> sv' = sv1 \<or> ?used = Inr False \<and> rotate_fresh_row lb rq aid new_pub sv1 = (Inr resp, sv')"
    using run auth result hid s own tp old
    by (cases "old = tp"; cases ?used; cases "projr ?used") auto
  with auth result hid s own tp old frame show thesis by (intro that [of result sv1 s tp]) auto
qed

subsection \<open>Registration\<close>

lemma save_or_raise_frame:
  assumes "save_or_raise lb a rows sv = (out, sv')"
  shows "sv_registry sv' = sv_registry sv \<and> sv_hosts sv' = sv_hosts sv \<and>
    (sv_agents sv' = rows \<or> sv_agents sv' = AList.update (agent_id a) a rows)"
  using assms
  by (auto simp: save_or_raise_def agent_save_def Let_def split: option.splits if_splits)

lemma start_approval_frame:
  "start_approval lb rq m aid names specs k sv = (out, sv') \<Longrightarrow>
     sv_registry sv' = sv_registry sv \<and> sv_agents sv' = sv_agents sv \<and> sv_tasks sv' = sv_tasks sv"
  by (auto simp: start_approval_def split: prod.splits)

lemma schedule_a2h_frame [simp]:
  "sv_registry (schedule_a2h host aid c specs sv) = sv_registry sv"
  "sv_agents (schedule_a2h host aid c specs sv) = sv_agents sv"
  "sv_approvals (schedule_a2h host aid c specs sv) = sv_approvals sv"
  by (simp_all add: schedule_a2h_def Let_def)

lemma register_pending_frame:
  assumes "register_pending lb rq host session names specs preferred browser sv = (out, sv')"
  shows "sv_registry sv' = sv_registry sv \<and> sv_agents sv' = sv_agents sv"
  using assms start_approval_frame
  by (auto simp: register_pending_def bind_out_def split: prod.splits sum.splits)

lemma register_active_effect:
  assumes "register_active lb rq host session specs sv = (out, sv')"
  shows "grants_follow (agent_id session) (host_id host) specs (sv_registry sv) (sv_registry sv')"
    and "sv_agents sv' \<in> {sv_agents sv, rq_before_save rq (sv_agents sv), AList.update (agent_id session)
      (session\<lparr>agent_status := AgentActive, activated_at := Some (rq_datetime rq)\<rparr>) (rq_before_save rq (sv_agents sv))}"
proof -
  obtain o1 sv1 where app: "(if specs = [] then (Inr [], sv) else apply_on_server lb (agent_id session) (host_id host) specs sv) = (o1, sv1)"
    by fastforce
  have f: "grants_follow (agent_id session) (host_id host) specs (sv_registry sv) (sv_registry sv1)" "sv_agents sv1 = sv_agents sv"
    using app apply_on_server_follows by (auto split: if_splits)
  have "grants_follow (agent_id session) (host_id host) specs (sv_registry sv) (sv_registry sv') \<and>
      sv_agents sv' \<in> {sv_agents sv, rq_before_save rq (sv_agents sv), AList.update (agent_id session)
      (session\<lparr>agent_status := AgentActive, activated_at := Some (rq_datetime rq)\<rparr>) (rq_before_save rq (sv_agents sv))}"
  proof (cases o1)
    case (Inl x)
    with assms app f show ?thesis by (simp add: register_active_def)
  next
    case (Inr gs)
    obtain o2 sv2 where save: "save_or_raise lb (session\<lparr>agent_status := AgentActive, activated_at := Some (rq_datetime rq)\<rparr>)
        (rq_before_save rq (sv_agents sv1)) sv1 = (o2, sv2)" by fastforce
    with assms app Inr have "sv' = sv2" by (cases o2) (auto simp: register_active_def)
    with save_or_raise_frame [OF save] f show ?thesis by auto
  qed
  then show "grants_follow (agent_id session) (host_id host) specs (sv_registry sv) (sv_registry sv')"
    "sv_agents sv' \<in> {sv_agents sv, rq_before_save rq (sv_agents sv), AList.update (agent_id session)
      (session\<lparr>agent_status := AgentActive, activated_at := Some (rq_datetime rq)\<rparr>) (rq_before_save rq (sv_agents sv))}"
    by blast+
qed

text \<open>What a registration may do when nothing needs consent, and when something does.\<close>

definition registration_effect :: "http_req \<Rightarrow> host_identity \<Rightarrow> server \<Rightarrow> server \<Rightarrow> bool" where
  "registration_effect rq host sv sv' \<longleftrightarrow>
     (let (names, specs) = parse_capability_registration_body (register_body rq);
          pending = (\<lambda>k. AList.update (rq_new_id rq) (new_session rq (host_id host) k) (sv_agents sv))
      in if escalation_requires_user_consent host names
         then sv_registry sv' = sv_registry sv \<and> (\<exists>k. sv_agents sv' \<in> {sv_agents sv, pending k})
         else grants_follow (rq_new_id rq) (host_id host) specs (sv_registry sv) (sv_registry sv') \<and>
           (\<exists>k. sv_agents sv' \<in> {sv_agents sv, pending k, rq_before_save rq (pending k),
              AList.update (rq_new_id rq) ((new_session rq (host_id host) k)\<lparr>agent_status := AgentActive,
                activated_at := Some (rq_datetime rq)\<rparr>) (rq_before_save rq (pending k))}))"

lemma registration_effect_refl: "registration_effect rq host sv sv"
  by (auto simp: registration_effect_def split: prod.splits)

lemma new_session_id [simp]: "agent_id (new_session rq hid k) = rq_new_id rq"
  by (simp add: new_session_def)

lemma register_new_effect:
  assumes run: "register_new lb rq claims host agent_pub sv = (out, sv')"
    and fresh_id: "agent_get (rq_new_id rq) (sv_agents sv) = None"
  shows "registration_effect rq host sv sv'"
proof -
  obtain names specs where body: "parse_capability_registration_body (register_body rq) = (names, specs)" by fastforce
  let ?needs = "escalation_requires_user_consent host names" and ?session = "new_session rq (host_id host) agent_pub"
  let ?g1 = "if ?needs then approval_fresh_session_response rq claims sv else Inr None"
  let ?g2 = "if ?needs then approval_webauthn_response (register_body rq) names (host_id host)
    (parse_agent_controls_browser (register_body rq)) sv else None"
  note run' = run [unfolded register_new_def Let_def body prod.case]
  show ?thesis
  proof (cases "?g1 = Inr None \<and> ?g2 = None")
    case False
    with run' have "sv' = sv" by (auto split: sum.splits option.splits)
    then show ?thesis using registration_effect_refl by simp
  next
    case True
    obtain sv1 where save: "save_or_raise lb ?session (sv_agents sv) sv = (Inr (), sv1)"
      "sv_agents sv1 = AList.update (rq_new_id rq) ?session (sv_agents sv)" "sv_registry sv1 = sv_registry sv"
      using fresh_id by (simp add: save_or_raise_def agent_save_def Let_def agent_get_def)
    show ?thesis
    proof (cases ?needs)
      case needs: True
      with run' True save(1) have "register_pending lb rq host ?session names specs
          (parse_preferred_method (register_body rq)) (parse_agent_controls_browser (register_body rq)) sv1 = (out, sv')" by simp
      from register_pending_frame [OF this] needs save body show ?thesis by (auto simp: registration_effect_def)
    next
      case auto: False
      with run' True save(1) have "register_active lb rq host ?session specs sv1 = (out, sv')" by simp
      from register_active_effect [OF this] auto save body show ?thesis by (auto simp: registration_effect_def)
    qed
  qed
qed

lemma registered_host_frame:
  assumes "registered_host lb rq iss host_pub known sv = (out, sv')"
  shows "sv_registry sv' = sv_registry sv \<and> sv_agents sv' = sv_agents sv"
    and "\<And>h. out = Inr h \<Longrightarrow> host_status h = HostActive \<Longrightarrow> known = Some h"
  using assms by (auto simp: registered_host_def Let_def map_sum_Inr_iff split: option.splits if_splits prod.splits sum.splits)

lemma registration_effect_cong:
  assumes "registration_effect rq host sv1 sv2" "sv_registry sv1 = sv_registry sv" "sv_agents sv1 = sv_agents sv"
  shows "registration_effect rq host sv sv2"
  using assms(1) unfolding registration_effect_def assms(2,3) .

lemma register_for_host_effect:
  assumes "register_for_host lb rq claims agent_pub host sv = (out, sv')" "agent_get (rq_new_id rq) (sv_agents sv) = None"
  shows "registration_effect rq host sv sv'"
  using assms register_new_effect registration_effect_refl
  by (auto simp: register_for_host_def split: sum.splits option.splits)

lemma register_effect:
  assumes run: "handle_agent_register lb rq sv = (out, sv')"
    and fresh_id: "agent_get (rq_new_id rq) (sv_agents sv) = None"
  shows "sv_registry sv' = sv_registry sv \<and> sv_agents sv' = sv_agents sv \<or>
    (\<exists>host. registration_effect rq host sv sv' \<and>
       (host_status host = HostActive \<longrightarrow> (\<exists>iss. host_get_by_public_key iss (sv_hosts sv) = Some host)))"
proof -
  obtain o1 sv1 where auth: "verify_host_bearer lb True True rq sv = (o1, sv1)" by fastforce
  note frame = verify_host_bearer_frame [OF auth]
  have keep: ?thesis if "sv' = sv1" using that frame by simp
  note run = run [unfolded handle_agent_register_def auth]
  show ?thesis
  proof (cases "\<exists>result claims k hk iss. o1 = Inr (Inr result) \<and> jv_claims result = Some claims \<and>
      get_claim claims ''agent_public_key'' = PDict k \<and> lib_import_key lb k \<and>
      get_claim claims ''host_public_key'' = PDict hk \<and> get_claim claims ''iss'' = PStr iss \<and> strip iss \<noteq> []")
    case False
    with run have "sv' = sv1"
      by (auto simp: bind_out_def split: sum.splits option.splits pyval.splits if_splits)
    with keep show ?thesis by simp
  next
    case True
    then obtain result claims k hk iss where c: "o1 = Inr (Inr result)" "jv_claims result = Some claims"
      "get_claim claims ''agent_public_key'' = PDict k" "lib_import_key lb k"
      "get_claim claims ''host_public_key'' = PDict hk" "get_claim claims ''iss'' = PStr iss" "strip iss \<noteq> []" by blast
    obtain o2 sv2 where host: "registered_host lb rq iss hk (jv_host result) sv1 = (o2, sv2)" by fastforce
    note hf = registered_host_frame [OF host]
    show ?thesis
    proof (cases o2)
      case (Inl x)
      with run c host have "sv' = sv2" by simp
      with hf frame show ?thesis by simp
    next
      case (Inr h)
      with run c host have "register_for_host lb rq claims k h sv2 = (out, sv')" by simp
      from register_for_host_effect [OF this] hf frame fresh_id have "registration_effect rq h sv2 sv'" by simp
      then have eff: "registration_effect rq h sv sv'" by (rule registration_effect_cong) (use hf frame in auto)
      obtain token cache where ok: "jv_ok result" "verify_host_jwt (lib_jose lb) (lib_digest lb) (rq_now rq) (rq_now_jti rq) token
          (sv_hosts sv) (Some (sv_audience sv)) True (Some (sv_jti sv)) = (Inr result, cache)"
        by (rule verify_host_bearer_ok [OF auth [unfolded c(1)]])
      have "\<exists>iss. jv_host result = host_get_by_public_key iss (sv_hosts sv)"
        by (rule verify_host_jwt_ok [OF ok(2,1)]) auto
      with eff hf(2) [OF Inr] show ?thesis by metis
    qed
  qed
qed

subsection \<open>Escalation\<close>

lemma verify_agent_bearer_frame:
  "verify_agent_bearer lb rq sv = (out, sv1) \<Longrightarrow>
     sv_registry sv1 = sv_registry sv \<and> sv_approvals sv1 = sv_approvals sv \<and> sv_tasks sv1 = sv_tasks sv"
  by (auto simp: verify_agent_bearer_def run_verify_agent_def bind_out_def Let_def
      split: option.splits prod.splits sum.splits if_splits)

lemma start_request_leaves_row:
  assumes "start_request clk req s = (Inr obj, s')"
  shows "map_of s' (ar_agent_id req) \<noteq> None"
proof -
  obtain o1 s1 where c: "approval_create (fc_create clk) req s = (o1, s1)" by fastforce
  obtain st s2 where g: "approval_get (fc_reget clk) (ar_agent_id req) s1 = (st, s2)" by fastforce
  have "\<exists>u. o1 = Inr u" using assms c by (cases o1) (auto simp: start_request_def)
  then have "st \<noteq> None" "s' = s2" using assms c g by (cases st; auto simp: start_request_def)+
  with approval_get_row(1) [OF g] show ?thesis by simp
qed

lemma flow_leaves_row:
  assumes "start_approval lb rq m aid names specs k sv = (Inr obj, sv')"
  shows "map_of (sv_approvals sv') aid \<noteq> None"
proof -
  obtain existing s1 where g: "approval_get (fc_get (rq_flow_clock rq)) aid (sv_approvals sv) = (existing, s1)" by fastforce
  have started: "map_of (sv_approvals sv') aid \<noteq> None"
    if "start_request (rq_flow_clock rq) (new_request aid m' k c sp ex iv cd u uc b) s1 = (Inr obj, sv_approvals sv')"
    for m' c sp ex iv cd u uc b
    using start_request_leaves_row [OF that] by (simp add: new_request_def)
  have reused: "map_of s1 aid \<noteq> None" if "reuse_or_merge (lib_str lb) m' k names (Some specs) existing = Inl e" for m' e
    using that approval_get_row(1) [OF g] by (auto simp: reuse_or_merge_def split: option.splits)
  show ?thesis
  proof (cases "m = Ciba")
    case True
    with assms g started reused show ?thesis
      by (cases "reuse_or_merge (lib_str lb) Ciba k names (Some specs) existing")
        (auto simp: start_approval_def create_ciba_approval_def Let_def split: prod.splits)
  next
    case False
    with assms g started reused show ?thesis
      by (cases "reuse_or_merge (lib_str lb) DeviceAuthorization k names (Some specs) existing")
        (auto simp: start_approval_def create_device_authorization_def Let_def split: prod.splits)
  qed
qed

lemma request_consent_effect:
  assumes "request_consent lb rq host aid needs granted sv = (out, sv')"
  shows "sv_registry sv' = sv_registry sv"
    and "sv_tasks sv' = sv_tasks sv \<or> (\<exists>principal req. map_of (sv_approvals sv') aid = Some req \<and>
      sv_tasks sv' = sv_tasks sv @
        [(aid, escalation_a2h_context lb aid (host_id host) (ar_specs req), principal, ar_specs req)])"
proof -
  obtain o1 sv1 where st: "start_approval lb rq (select_approval_method host (sv_ciba sv) None False) aid
      (map raw_spec_name needs) needs Escalation sv = (o1, sv1)" by fastforce
  note frame = start_approval_frame [OF st]
  have "sv_registry sv' = sv_registry sv \<and> (sv_tasks sv' = sv_tasks sv \<or> (\<exists>principal req. map_of (sv_approvals sv') aid = Some req \<and>
      sv_tasks sv' = sv_tasks sv @
        [(aid, escalation_a2h_context lb aid (host_id host) (ar_specs req), principal, ar_specs req)]))"
  proof (cases o1)
    case (Inl x)
    with assms st frame show ?thesis by (auto simp: request_consent_def)
  next
    case (Inr obj)
    obtain pending store where g: "approval_get (rq_datetime rq) aid (sv_approvals sv1) = (pending, store)" by fastforce
    obtain e where "map_of (sv_approvals sv1) aid = Some e" using flow_leaves_row st Inr by blast
    with approval_get_row [OF g] obtain req where req: "pending = Some req" "map_of store aid = Some req" by auto
    let ?sv = "schedule_a2h host aid (escalation_a2h_context lb aid (host_id host) (ar_specs req)) (ar_specs req)
      (sv1\<lparr>sv_approvals := store\<rparr>)"
    have "sv' = ?sv" using assms st Inr g req by (simp add: request_consent_def Let_def)
    with frame req show ?thesis by (auto simp: schedule_a2h_def Let_def)
  qed
  then show "sv_registry sv' = sv_registry sv" "sv_tasks sv' = sv_tasks sv \<or> (\<exists>principal req. map_of (sv_approvals sv') aid = Some req \<and>
      sv_tasks sv' = sv_tasks sv @
        [(aid, escalation_a2h_context lb aid (host_id host) (ar_specs req), principal, ar_specs req)])" by blast+
qed

text \<open>A request either leaves grants and prompts alone, or is that of a verified, active agent.\<close>

lemma request_capability_effect:
  assumes run: "handle_request_capability lb rq sv = (out, sv')"
  obtains (refused) "sv_registry sv' = sv_registry sv" "sv_tasks sv' = sv_tasks sv"
  | (accepted) result sv1 agent host specs needs auto where "verify_agent_bearer lb rq sv = (Inr (Inr result), sv1)"
      "jv_agent result = Some agent" "jv_host result = Some host"
      "partition_escalation_capability_specs host (map PDict specs) (get_grants (agent_id agent) (sv_registry sv)) = (needs, auto)"
      "grants_follow (agent_id agent) (host_id host) auto (sv_registry sv) (sv_registry sv')"
      "sv_tasks sv' = sv_tasks sv \<or> (\<exists>principal req. map_of (sv_approvals sv') (agent_id agent) = Some req \<and>
        sv_tasks sv' = sv_tasks sv @ [(agent_id agent,
          escalation_a2h_context lb (agent_id agent) (host_id host) (ar_specs req), principal, ar_specs req)])"
proof -
  obtain o1 sv1 where auth: "verify_agent_bearer lb rq sv = (o1, sv1)" by fastforce
  note frame = verify_agent_bearer_frame [OF auth]
  note run' = run [unfolded handle_request_capability_def auth]
  show thesis
  proof (cases "\<exists>result agent host raw caps. o1 = Inr (Inr result) \<and> jv_agent result = Some agent \<and> jv_host result = Some host \<and>
      agent_status agent = AgentActive \<and> rq_json rq = Inr (PDict raw) \<and> parse_request_capability_body raw = Some caps \<and>
      fst (parse_capability_registration_body [(''capabilities'', PList caps)]) \<noteq> []")
    case False
    with run' have "sv' = sv1"
      by (auto simp: bind_out_def Let_def split: sum.splits option.splits pyval.splits if_splits prod.splits)
    with frame show thesis by (intro refused) simp_all
  next
    case True
    then obtain result agent host raw caps where c: "o1 = Inr (Inr result)" "jv_agent result = Some agent"
      "jv_host result = Some host" "agent_status agent = AgentActive" "rq_json rq = Inr (PDict raw)"
      "parse_request_capability_body raw = Some caps"
      "fst (parse_capability_registration_body [(''capabilities'', PList caps)]) \<noteq> []" by blast
    obtain names specs where p: "parse_capability_registration_body [(''capabilities'', PList caps)] = (names, specs)" by fastforce
    obtain needs auto where q: "partition_escalation_capability_specs host (map PDict specs)
        (get_grants (agent_id agent) (sv_registry sv1)) = (needs, auto)" by fastforce
    obtain o2 sv2 where app: "apply_on_server lb (agent_id agent) (host_id host) auto sv1 = (o2, sv2)" by fastforce
    note fol = apply_on_server_follows [OF app]
    have "sv_registry sv' = sv_registry sv2 \<and> (sv_tasks sv' = sv_tasks sv \<or> (\<exists>principal req.
        map_of (sv_approvals sv') (agent_id agent) = Some req \<and> sv_tasks sv' = sv_tasks sv @ [(agent_id agent,
          escalation_a2h_context lb (agent_id agent) (host_id host) (ar_specs req), principal, ar_specs req)]))"
    proof (cases "\<exists>gs. o2 = Inr gs \<and> needs \<noteq> []")
      case False
      with run' c p q app fol frame show ?thesis by (cases o2) auto
    next
      case True
      then obtain gs where gs: "o2 = Inr gs" "needs \<noteq> []" by blast
      with run' c p q app have "request_consent lb rq host (agent_id agent) needs gs sv2 = (out, sv')" by simp
      from request_consent_effect [OF this] fol frame show ?thesis by simp
    qed
    with fol frame q auth c show thesis by (intro accepted [of result sv1 agent host specs needs auto]) auto
  qed
qed

subsection \<open>Properties\<close>

text \<open>C14: registration grants and activates nothing without consent, for a new identifier that is not in use. Grants change
  only for the new agent, and only if its host is stored and active and every capability named in the body is one of the
  host's defaults; each new grant is then what a specification of the body gives. A row that differs afterwards is the new session,
  pending, or active under such a host, or it is what another task left while the activation was waiting to be saved
  (\<open>rq_before_save\<close>).\<close>

theorem registration_needs_consent:
  assumes "handle_agent_register lb rq sv = (out, sv')"
    and "agent_get (rq_new_id rq) (sv_agents sv) = None"
    and "parse_capability_registration_body (register_body rq) = (names, specs)"
  shows "(\<forall>a cap. map_of (agent_grants a (sv_registry sv')) cap \<noteq> map_of (agent_grants a (sv_registry sv)) cap \<longrightarrow>
      a = rq_new_id rq \<and> (\<exists>host iss spec g. host_get_by_public_key iss (sv_hosts sv) = Some host \<and>
        host_status host = HostActive \<and> set names \<subseteq> set (default_capabilities host) \<and> spec \<in> set specs \<and>
        map_of (agent_grants a (sv_registry sv')) cap = Some g \<and> granted_by_spec (host_id host) (sv_registry sv) spec g)) \<and>
    (\<forall>a s. agent_get a (sv_agents sv') = Some s \<and> agent_get a (sv_agents sv) \<noteq> Some s \<longrightarrow>
      (\<exists>hid k. agent_get a (rq_before_save rq (AList.update (rq_new_id rq) (new_session rq hid k) (sv_agents sv))) = Some s) \<or>
      a = rq_new_id rq \<and> (agent_status s = AgentPending \<or> agent_status s = AgentActive \<and>
        (\<exists>host iss. host_get_by_public_key iss (sv_hosts sv) = Some host \<and> host_id host = agent_host_id s \<and>
           host_status host = HostActive \<and> set names \<subseteq> set (default_capabilities host))))"
proof -
  consider "sv_registry sv' = sv_registry sv" "sv_agents sv' = sv_agents sv"
    | host where "registration_effect rq host sv sv'"
        "host_status host = HostActive \<longrightarrow> (\<exists>iss. host_get_by_public_key iss (sv_hosts sv) = Some host)"
    using register_effect [OF assms(1,2)] by blast
  then show ?thesis
  proof cases
    case (2 host)
    show ?thesis
    proof (cases "escalation_requires_user_consent host names")
      case True
      with 2(1) assms(3) have "sv_registry sv' = sv_registry sv"
        "\<exists>k. sv_agents sv' \<in> {sv_agents sv, AList.update (rq_new_id rq) (new_session rq (host_id host) k) (sv_agents sv)}"
        by (auto simp: registration_effect_def)
      then show ?thesis by (auto simp: agent_get_def dict_simps new_session_def split: if_splits)
    next
      case False
      with 2 obtain iss where host: "host_get_by_public_key iss (sv_hosts sv) = Some host" "host_status host = HostActive"
        "set names \<subseteq> set (default_capabilities host)"
        by (auto simp: escalation_requires_user_consent_def split: if_splits)
      obtain k where eff: "grants_follow (rq_new_id rq) (host_id host) specs (sv_registry sv) (sv_registry sv')"
        and agents: "sv_agents sv' \<in> {sv_agents sv, AList.update (rq_new_id rq) (new_session rq (host_id host) k) (sv_agents sv),
           rq_before_save rq (AList.update (rq_new_id rq) (new_session rq (host_id host) k) (sv_agents sv)),
           AList.update (rq_new_id rq) ((new_session rq (host_id host) k)\<lparr>agent_status := AgentActive,
             activated_at := Some (rq_datetime rq)\<rparr>)
             (rq_before_save rq (AList.update (rq_new_id rq) (new_session rq (host_id host) k) (sv_agents sv)))}"
        using 2(1) assms(3) False by (auto simp: registration_effect_def)
      have rows: "agent_get a (rq_before_save rq (AList.update (rq_new_id rq) (new_session rq (host_id host) k) (sv_agents sv))) = Some s \<or>
          a = rq_new_id rq \<and> (agent_status s = AgentPending \<or> agent_status s = AgentActive \<and> host_id host = agent_host_id s)"
        if "agent_get a (sv_agents sv') = Some s \<and> agent_get a (sv_agents sv) \<noteq> Some s" for a s
        using agents that by (auto simp: agent_get_def dict_simps new_session_def split: if_splits)
      show ?thesis
        using rows host by (intro conjI allI impI) (metis grants_follow_changed [OF eff])+
    qed
  qed simp
qed

text \<open>A run that registers: an active host registers an agent with a capability that is a default of the host.\<close>

definition paying_host :: host_identity where
  "paying_host = sample_host\<lparr>default_capabilities := [''pay'']\<rparr>"

definition register_claims :: pydict where
  "register_claims = host_jwt_claims ''tp'' (host_public_key sample_host) (OneAud ''srv'')
     (Some [(''kty'', PStr ''oct''), (''k'', PStr ''z'')]) DEFAULT_HOST_JWT_TTL_SECONDS 1000 ''1''"

definition register_server :: server where
  "register_server = (sample_server (sample_cache []) (register \<lparr>cd_name = ''pay'', cd_description = [], cd_input_schema = None,
       cd_output_schema = None, cd_location = None\<rparr> registry_init))\<lparr>sv_hosts := \<lparr>hosts = [(''h'', paying_host)], thumb_to_host_id = [(''tp'', ''h'')]\<rparr>\<rparr>"

lemma register_host_auth:
  "verify_host_bearer (sample_lib HOST_JWT_TYP register_claims) True True (sample_http_req body) register_server =
     (Inr (Inr \<lparr>jv_ok = True, jv_claims = Some register_claims, jv_host = Some paying_host, jv_agent = None, jv_error = None\<rparr>),
      register_server\<lparr>sv_jti := sample_cache [(''tp'', ''jwt_1'')]\<rparr>)"
proof -
  let ?j = "sample_jose [(''typ'', PStr HOST_JWT_TYP)] register_claims"
  have claims: "get_claim register_claims ''host_public_key'' = PDict (host_public_key sample_host)"
    "get_claim register_claims ''iss'' = PStr ''tp''" "jti_of register_claims = ''jwt_1''"
    by (simp_all add: register_claims_def host_jwt_claims_def get_claim_def jti_of_def)
  have standard: "validate_standard_claims register_claims 1010 (Some (OneAud ''srv'')) = Inr None"
    by (simp add: register_claims_def host_jwt_claims_def validate_standard_claims_def exp_valid_def get_claim_def
      DBL_LIMIT_def DEFAULT_HOST_JWT_TTL_SECONDS_def iat_not_in_future_def IAT_MAX_FUTURE_SKEW_SECONDS_def jti_present_def
      audience_matches_expected_def aud_value_def strip_eq_Nil_iff py_space_def)
  have jti: "check_jti 1010 True ''tp'' (jti_of register_claims) (Some (sample_cache [])) =
      (Inr True, Some (sample_cache [(''tp'', ''jwt_1'')]))"
    by (simp add: check_jti_Some sample_cache_record claims(3))
  have host: "host_get_by_public_key ''tp'' (sv_hosts register_server) = Some paying_host" "host_status paying_host = HostActive"
    by (simp_all add: register_server_def host_get_by_public_key_def paying_host_def sample_host_def)
  have verified: "verify_host_jwt ?j sample_digest 1010 1010 ''t'' (sv_hosts register_server) (Some (OneAud ''srv'')) True (Some (sample_cache [])) =
      (Inr \<lparr>jv_ok = True, jv_claims = Some register_claims, jv_host = host_get_by_public_key ''tp'' (sv_hosts register_server),
         jv_agent = None, jv_error = None\<rparr>, Some (sample_cache [(''tp'', ''jwt_1'')]))"
    by (rule verify_host_jwt_intro [where header = "[(''typ'', PStr HOST_JWT_TYP)]", OF _ _ claims(1) _ standard claims(1) _ claims(2) jti])
       (use host in \<open>simp_all add: sample_jose_def get_claim_def jwk_thumbprint_sha256_def required_members_def sample_digest_def member_def sample_host_def\<close>)
  have "sv_jti register_server = sample_cache []" "sv_audience register_server = OneAud ''srv''"
    by (simp_all add: register_server_def sample_server_def)
  with verified host claims(2) show ?thesis
    by (simp add: verify_host_bearer_def sample_bearer sample_lib_def strip_eq_Nil_iff py_space_def)
qed

lemma register_request_body:
  "parse_capability_registration_body (register_body (sample_http_req [(''capabilities'', PList [PStr ''pay''])])) =
     ([''pay''], [[(''name'', PStr ''pay'')]])"
  by (simp add: register_body_def parse_capability_registration_body_def get_claim_def capability_request_def
      List.map_filter_def strip_eq_Nil_iff py_space_def)

lemma register_run:
  "\<exists>resp sv' s g. handle_agent_register (sample_lib HOST_JWT_TYP register_claims)
      (sample_http_req [(''capabilities'', PList [PStr ''pay''])]) register_server = (Inr resp, sv') \<and> hr_status resp = 200 \<and>
    agent_get ''n'' (sv_agents sv') = Some s \<and> agent_status s = AgentActive \<and>
    map_of (agent_grants ''n'' (sv_registry sv')) ''pay'' = Some g \<and> g_status g = GrantActive"
proof -
  have claims: "get_claim register_claims ''agent_public_key'' = PDict [(''kty'', PStr ''oct''), (''k'', PStr ''z'')]"
    "get_claim register_claims ''host_public_key'' = PDict (host_public_key sample_host)" "get_claim register_claims ''iss'' = PStr ''tp''"
    by (simp_all add: register_claims_def host_jwt_claims_def get_claim_def)
  have keys: "jwk_thumbprint_sha256 sample_digest [(''kty'', PStr ''oct''), (''k'', PStr ''z'')] = Inr ''zp''"
    "jwk_thumbprint_sha256 sample_digest (agent_public_key (sample_agent AgentActive)) = Inr ''tp''"
    by (simp_all add: jwk_thumbprint_sha256_def required_members_def member_def sample_digest_def sample_agent_def)
  have consent: "\<not> escalation_requires_user_consent paying_host [''pay'']"
    by (simp add: escalation_requires_user_consent_def paying_host_def sample_host_def)
  have host: "host_id paying_host = ''h''" by (simp add: paying_host_def sample_host_def)
  let ?lb = "sample_lib HOST_JWT_TYP register_claims" and ?rq = "sample_http_req [(''capabilities'', PList [PStr ''pay''])]"
  let ?key = "[(''kty'', PStr ''oct''), (''k'', PStr ''z'')]"
  let ?sv = "register_server\<lparr>sv_jti := sample_cache [(''tp'', ''jwt_1'')]\<rparr>" and ?session = "new_session ?rq ''h'' ?key"
  let ?rows = "[(''a'', sample_agent AgentActive), (''n'', ?session)]"
  have rows: "sv_agents ?sv = [(''a'', sample_agent AgentActive)]" by (simp add: register_server_def sample_server_def)
  have free: "find_by_key sample_digest ''zp'' (list_by_host ''h'' (sv_agents ?sv)) = Inr None"
    using keys(2) by (simp add: rows list_by_host_def)
  have saved: "save_or_raise ?lb ?session (sv_agents ?sv) ?sv = (Inr (), ?sv\<lparr>sv_agents := ?rows\<rparr>)"
    by (simp add: save_or_raise_def agent_save_def rows new_session_def)
  have granted: "\<exists>ps r g. apply_on_server ?lb ''n'' ''h'' [[(''name'', PStr ''pay'')]] (?sv\<lparr>sv_agents := ?rows\<rparr>) =
      (Inr ps, ?sv\<lparr>sv_agents := ?rows, sv_registry := r\<rparr>) \<and> map_of (agent_grants ''n'' r) ''pay'' = Some g \<and> g_status g = GrantActive"
    by (simp add: apply_on_server_def apply_capability_specs_to_registry_def apply_spec_def raw_spec_name_def spec_constraints_def
        grant_by_name_def get_grants_def agent_grants_def register_server_def sample_server_def register_def registry_init_def
        describe_def grant_constraints_def grant_def Let_def)
  then obtain ps r g where g: "apply_on_server ?lb ''n'' ''h'' [[(''name'', PStr ''pay'')]] (?sv\<lparr>sv_agents := ?rows\<rparr>) =
      (Inr ps, ?sv\<lparr>sv_agents := ?rows, sv_registry := r\<rparr>)" "map_of (agent_grants ''n'' r) ''pay'' = Some g" "g_status g = GrantActive" by blast
  let ?active = "?session\<lparr>agent_status := AgentActive, activated_at := Some 5\<rparr>"
  have activated: "save_or_raise ?lb ?active ?rows sv1 = (Inr (), sv1\<lparr>sv_agents := [(''a'', sample_agent AgentActive), (''n'', ?active)]\<rparr>)" for sv1
    by (simp add: save_or_raise_def agent_save_def new_session_def sample_agent_def)
  have new: "\<exists>resp sv'. register_new ?lb ?rq register_claims paying_host ?key ?sv = (Inr resp, sv') \<and> hr_status resp = 200 \<and>
      sv_registry sv' = r \<and> sv_agents sv' = [(''a'', sample_agent AgentActive), (''n'', ?active)]"
    using saved g(1) activated consent
    by (simp add: register_new_def register_request_body host register_active_def Let_def respond_def)
  have "handle_agent_register ?lb ?rq register_server = register_new ?lb ?rq register_claims paying_host ?key ?sv"
    unfolding handle_agent_register_def register_host_auth using claims keys free host
    by (simp add: registered_host_def register_for_host_def strip_eq_Nil_iff py_space_def sample_lib_def)
  with new g(2,3) show ?thesis by (auto simp: agent_get_def)
qed

theorem registration_needs_consent_witness:
  "\<exists>resp sv' host iss s. handle_agent_register (sample_lib HOST_JWT_TYP register_claims)
      (sample_http_req [(''capabilities'', PList [PStr ''pay''])]) register_server = (Inr resp, sv') \<and> hr_status resp = 200 \<and>
    agent_get ''n'' (sv_agents sv') = Some s \<and> agent_status s = AgentActive \<and>
    host_get_by_public_key iss (sv_hosts register_server) = Some host \<and> host_status host = HostActive \<and>
    ''pay'' \<in> set (default_capabilities host)"
proof -
  obtain resp sv' s g where run: "handle_agent_register (sample_lib HOST_JWT_TYP register_claims)
      (sample_http_req [(''capabilities'', PList [PStr ''pay''])]) register_server = (Inr resp, sv')" "hr_status resp = 200"
    "agent_get ''n'' (sv_agents sv') = Some s" "agent_status s = AgentActive"
    "map_of (agent_grants ''n'' (sv_registry sv')) ''pay'' = Some g" using register_run by blast
  have before: "agent_get ''n'' (sv_agents register_server) = None" "agent_grants ''n'' (sv_registry register_server) = []"
    by (simp_all add: register_server_def sample_server_def agent_get_def agent_grants_def register_def registry_init_def)
  have "agent_get (rq_new_id (sample_http_req [(''capabilities'', PList [PStr ''pay''])])) (sv_agents register_server) = None"
    using before(1) by simp
  note consent = registration_needs_consent [OF run(1) this register_request_body, THEN conjunct1, rule_format, of "''n''" "''pay''"]
  obtain host iss where "host_get_by_public_key iss (sv_hosts register_server) = Some host" "host_status host = HostActive"
    "''pay'' \<in> set (default_capabilities host)" using consent run(5) before(2) by auto
  with run show ?thesis by blast
qed

text \<open>C13: polling an agent's status applies decisions that were taken and nothing else. A grant changes only
  for that agent, only if its approval request is stored as approved, and only to what a
  specification of that request gives; the agent's row changes only from pending, to active for an
  approved and to rejected for a denied request, and never over a row that was revoked meanwhile.\<close>

theorem polling_applies_decisions_only:
  assumes run: "handle_agent_status lb rq aid sv = (out, sv')"
    and inv: "rows_inv (rq_between rq (sv_agents sv))"
  shows "(\<forall>a cap. map_of (agent_grants a (sv_registry sv')) cap \<noteq> map_of (agent_grants a (sv_registry sv)) cap \<longrightarrow>
      a = aid \<and> (\<exists>s req spec g. agent_get aid (sv_agents sv) = Some s \<and> map_of (sv_approvals sv) aid = Some req \<and>
        ar_status req = Approved \<and> spec \<in> set (ar_specs req) \<and> map_of (agent_grants aid (sv_registry sv')) cap = Some g \<and>
        granted_by_spec (agent_host_id s) (sv_registry sv) spec g)) \<and>
    (rows_unsettled rq (sv_agents sv) (sv_agents sv') \<or> (\<exists>req. map_of (sv_approvals sv) aid = Some req \<and>
      (ar_status req = Approved \<and> row_settled rq aid
         (\<lambda>fresh. fresh\<lparr>agent_status := AgentActive, activated_at := Some (rq_datetime rq)\<rparr>) (sv_agents sv) (sv_agents sv') \<or>
       ar_status req = Denied \<and> row_settled rq aid
         (\<lambda>fresh. fresh\<lparr>agent_status := AgentRejected\<rparr>) (sv_agents sv) (sv_agents sv'))))"
proof -
  consider "sv_registry sv' = sv_registry sv" "sv_agents sv' = sv_agents sv"
    | s appr store where "agent_get aid (sv_agents sv) = Some s"
       "approval_get (fc_get (rq_flow_clock rq)) aid (sv_approvals sv) = (appr, store)"
       "poll_effect rq aid (agent_host_id s) appr sv sv'"
    using status_effect [OF run inv] by blast
  then show ?thesis
  proof cases
    case (2 s appr store)
    show ?thesis
    proof (cases "\<exists>a. appr = Some a \<and> ar_status a \<in> {Approved, Denied}")
      case True
      then obtain req where req: "appr = Some req" "map_of (sv_approvals sv) aid = Some req"
        using decided_request_stored 2(2) by blast
      from 2(3) have grants: "sv_registry sv' = sv_registry sv \<or> ar_status req = Approved \<and>
          grants_follow aid (agent_host_id s) (ar_specs req) (sv_registry sv) (sv_registry sv')"
        and rows: "rows_unsettled rq (sv_agents sv) (sv_agents sv') \<or>
          ar_status req = Approved \<and> row_settled rq aid
            (\<lambda>fresh. fresh\<lparr>agent_status := AgentActive, activated_at := Some (rq_datetime rq)\<rparr>) (sv_agents sv) (sv_agents sv') \<or>
          ar_status req = Denied \<and> row_settled rq aid (\<lambda>fresh. fresh\<lparr>agent_status := AgentRejected\<rparr>) (sv_agents sv) (sv_agents sv')"
        unfolding poll_effect_def req(1) by simp_all
      show ?thesis
      proof (intro conjI allI impI)
        fix a cap assume "map_of (agent_grants a (sv_registry sv')) cap \<noteq> map_of (agent_grants a (sv_registry sv)) cap"
        with grants obtain g spec where "ar_status req = Approved" "a = aid" "map_of (agent_grants a (sv_registry sv')) cap = Some g"
          "spec \<in> set (ar_specs req)" "granted_by_spec (agent_host_id s) (sv_registry sv) spec g"
          by (auto elim: grants_follow_changed)
        with 2(1) req(2) show "a = aid" "\<exists>s req spec g. agent_get aid (sv_agents sv) = Some s \<and> map_of (sv_approvals sv) aid = Some req \<and>
          ar_status req = Approved \<and> spec \<in> set (ar_specs req) \<and> map_of (agent_grants aid (sv_registry sv')) cap = Some g \<and>
          granted_by_spec (agent_host_id s) (sv_registry sv) spec g" by blast+
      qed (use rows req(2) in blast)
    next
      case False
      with 2(3) show ?thesis by (auto simp: poll_effect_def split: option.splits)
    qed
  qed simp
qed

theorem polling_applies_decisions_only_witness:
  "\<forall>cap. map_of (agent_grants ''a'' (sv_registry (snd (handle_agent_status (sample_lib HOST_JWT_TYP sample_host_claims)
      (sample_http_req []) ''a'' (sample_server (sample_cache []) pay_grant))))) cap =
    map_of (agent_grants ''a'' pay_grant) cap"
proof -
  have "rows_inv [(''a'', sample_agent AgentActive)]" by (simp add: rows_inv_def sample_agent_def)
  then show ?thesis
    using polling_applies_decisions_only [OF prod.collapse [symmetric],
        of "sample_http_req []" "sample_server (sample_cache []) pay_grant" "sample_lib HOST_JWT_TYP sample_host_claims" "''a''"]
    by (simp add: sample_server_def)
qed

text \<open>Key rotation is accepted only from the agent's own host and for an agent that is not revoked. Either
  the new key is the key the agent had and nothing changes, or no other agent of the host had the
  new key, the row that is replaced was not revoked and still had the key that was read, and
  afterwards the agent has the new key.\<close>

theorem rotation_replaces_current_key:
  assumes run: "handle_agent_rotate_key lb rq aid new_pub sv = (Inr resp, sv')" "hr_status resp = 200"
    and inv: "rows_inv (rq_between rq (sv_agents sv))" "rows_inv (rq_before_save rq (rq_between rq (sv_agents sv)))"
  shows "\<exists>s result sv1. verify_host_bearer lb True True rq sv = (Inr (Inr result), sv1) \<and>
    effective_identity_host_id result = Inr (agent_host_id s) \<and>
    agent_get aid (sv_agents sv) = Some s \<and> agent_status s \<noteq> AgentRevoked \<and>
    (jwk_thumbprint_sha256 (lib_digest lb) new_pub = jwk_thumbprint_sha256 (lib_digest lb) (agent_public_key s) \<and>
       sv_agents sv' = sv_agents sv \<or>
     (\<forall>other. other \<in> set (list_by_host (agent_host_id s) (sv_agents sv)) \<and> agent_id other \<noteq> agent_id s \<longrightarrow>
        jwk_thumbprint_sha256 (lib_digest lb) (agent_public_key other) \<noteq> jwk_thumbprint_sha256 (lib_digest lb) new_pub) \<and>
     (\<exists>fresh row. agent_get aid (rq_between rq (sv_agents sv)) = Some fresh \<and>
        (\<forall>cur. agent_get aid (rq_before_save rq (rq_between rq (sv_agents sv))) = Some cur \<longrightarrow>
           agent_status cur \<noteq> AgentRevoked \<and>
           jwk_thumbprint_sha256 (lib_digest lb) (agent_public_key cur) =
             jwk_thumbprint_sha256 (lib_digest lb) (agent_public_key fresh)) \<and>
        agent_get aid (sv_agents sv') = Some row \<and> agent_public_key row = new_pub))"
proof -
  obtain result sv1 s tp where r: "verify_host_bearer lb True True rq sv = (Inr (Inr result), sv1)"
    "effective_identity_host_id result = Inr (agent_host_id s)" "agent_get aid (sv_agents sv) = Some s"
    "agent_status s \<noteq> AgentRevoked" "jwk_thumbprint_sha256 (lib_digest lb) new_pub = Inr tp"
    "jwk_thumbprint_sha256 (lib_digest lb) (agent_public_key s) = Inr tp \<and> sv' = sv1 \<or>
     key_used_by_other (lib_digest lb) tp (agent_id s) (list_by_host (agent_host_id s) (sv_agents sv)) = Inr False \<and>
     rotate_fresh_row lb rq aid new_pub sv1 = (Inr resp, sv')"
    by (rule rotate_200 [OF run])
  note frame = verify_host_bearer_frame [OF r(1)]
  show ?thesis
  proof (cases "jwk_thumbprint_sha256 (lib_digest lb) (agent_public_key s) = Inr tp \<and> sv' = sv1")
    case True
    with r(1-5) frame show ?thesis by auto
  next
    case False
    with r(6) have other: "key_used_by_other (lib_digest lb) tp (agent_id s) (list_by_host (agent_host_id s) (sv_agents sv)) = Inr False"
      and rot: "rotate_fresh_row lb rq aid new_pub sv1 = (Inr resp, sv')" by auto
    obtain fresh rows where f: "agent_get aid (rq_between rq (sv_agents sv1)) = Some fresh" "agent_status fresh \<noteq> AgentRevoked"
      "agent_save (lib_digest lb) (fresh\<lparr>agent_public_key := new_pub\<rparr>) (Some (agent_public_key fresh))
       (rq_before_save rq (rq_between rq (sv_agents sv1))) = (Inr (), rows)" "sv' = sv1\<lparr>sv_agents := rows\<rparr>"
      by (rule rotate_fresh_200 [OF rot run(2)])
    have id: "agent_id fresh = aid" using inv(1) f(1) frame by (simp add: rows_inv_def agent_get_def)
    have saved: "\<exists>row. agent_get aid rows = Some row \<and> agent_public_key row = new_pub"
      "\<And>cur. agent_get aid (rq_before_save rq (rq_between rq (sv_agents sv))) = Some cur \<Longrightarrow> agent_status cur \<noteq> AgentRevoked \<and>
         jwk_thumbprint_sha256 (lib_digest lb) (agent_public_key cur) = jwk_thumbprint_sha256 (lib_digest lb) (agent_public_key fresh)"
      using agent_save_new_key [OF f(3)] inv(2) f(2) id frame by simp_all
    have "jwk_thumbprint_sha256 (lib_digest lb) (agent_public_key other) \<noteq> jwk_thumbprint_sha256 (lib_digest lb) new_pub"
      if "other \<in> set (list_by_host (agent_host_id s) (sv_agents sv))" "agent_id other \<noteq> agent_id s" for other
      using key_used_by_other_False [OF other that] r(5) by simp
    with r(1-4) f(1,4) saved frame show ?thesis by auto
  qed
qed

lemma sample_rotate:
  "\<exists>resp sv'. handle_agent_rotate_key (sample_lib HOST_JWT_TYP sample_host_claims) (sample_http_req []) ''a''
     [(''kty'', PStr ''oct''), (''k'', PStr ''z'')] (sample_server (sample_cache []) r) = (Inr resp, sv') \<and> hr_status resp = 200"
proof -
  have host: "effective_identity_host_id \<lparr>jv_ok = True, jv_claims = Some sample_host_claims, jv_host = Some sample_host,
         jv_agent = None, jv_error = None\<rparr> = Inr ''h''"
    using sample_host_iss by (simp add: effective_identity_host_id_def sample_host_def)
  have row: "agent_host_id (sample_agent AgentActive) = ''h''" "agent_id (sample_agent AgentActive) = ''a''"
    "agent_status (sample_agent AgentActive) = AgentActive"
    by (simp_all add: sample_agent_def)
  have keys: "jwk_thumbprint_sha256 sample_digest [(''kty'', PStr ''oct''), (''k'', PStr ''z'')] = Inr ''zp''"
    "jwk_thumbprint_sha256 sample_digest (agent_public_key (sample_agent AgentActive)) = Inr ''tp''"
    by (simp_all add: jwk_thumbprint_sha256_def required_members_def member_def sample_digest_def sample_agent_def)
  show ?thesis
    using host row keys unfolding handle_agent_rotate_key_def sample_host_auth
    by (simp add: sample_server_def agent_get_def sample_lib_def list_by_host_def rotate_fresh_row_def Let_def
        save_agent_unless_revoked_def agent_save_def cas_public_key_row_def respond_def)
qed

theorem rotation_replaces_current_key_witness:
  "\<exists>s. agent_get ''a'' [(''a'', sample_agent AgentActive)] = Some s \<and> agent_status s \<noteq> AgentRevoked"
proof -
  obtain resp sv' where run: "handle_agent_rotate_key (sample_lib HOST_JWT_TYP sample_host_claims) (sample_http_req []) ''a''
     [(''kty'', PStr ''oct''), (''k'', PStr ''z'')] (sample_server (sample_cache []) pay_grant) = (Inr resp, sv')"
    "hr_status resp = 200" using sample_rotate by blast
  have "rows_inv [(''a'', sample_agent AgentActive)]" by (simp add: rows_inv_def sample_agent_def)
  then show ?thesis
    using rotation_replaces_current_key [OF run] by (auto simp: sample_server_def)
qed

lemma escalation_change:
  assumes "handle_request_capability lb rq sv = (out, sv')"
    and "map_of (agent_grants a (sv_registry sv')) cap \<noteq> map_of (agent_grants a (sv_registry sv)) cap"
  shows "\<exists>cur aid host iss spec g. agent_get aid (rq_before_save rq (rq_between rq (sv_agents sv))) = Some cur \<and>
    agent_status cur = AgentActive \<and> a = agent_id cur \<and> host_get_by_public_key iss (sv_hosts sv) = Some host \<and>
    host_id host = agent_host_id cur \<and> host_status host = HostActive \<and> cap = raw_spec_name spec \<and>
    strip cap \<in> set (default_capabilities host) \<and>
    map_of (agent_grants a (sv_registry sv')) cap = Some g \<and> granted_by_spec (host_id host) (sv_registry sv) spec g"
  using assms(1)
proof (cases rule: request_capability_effect)
  case refused
  with assms(2) show ?thesis by simp
next
  case (accepted result sv1 agent host specs needs auto)
  from accepted(5) assms(2) obtain g spec where g: "a = agent_id agent" "map_of (agent_grants a (sv_registry sv')) cap = Some g"
    "spec \<in> set auto" "cap = raw_spec_name spec" "granted_by_spec (host_id host) (sv_registry sv) spec g"
    by (elim grants_follow_changed)
  have "spec \<in> set (snd (partition_specs host (grant_by_name (get_grants (agent_id agent) (sv_registry sv))) (map PDict specs)))"
    using accepted(4) g(3) by (simp add: partition_escalation_capability_specs_def)
  from partition_specs_auto [OF this] have spec: "host_status host = HostActive" "strip cap \<in> set (default_capabilities host)"
    using g(4) by (auto simp: spec_name_def raw_spec_name_def split: option.splits pyval.splits)
  obtain token cache rows where v: "jv_ok result"
    "verify_agent_jwt (lib_jose lb) (lib_digest lb) (rq_now rq) (rq_now_jti rq) (rq_session_clock rq)
       (rq_between rq) (rq_before_save rq) token (sv_hosts sv) (Some (sv_audience sv))
       (Some (sv_jti sv), sv_agents sv) = (Inr result, (cache, rows))"
    by (rule verify_agent_bearer_ok [OF accepted(1)])
  obtain named :: agent_session and cur host' iss where c: "jv_host result = Some host'"
    "host_get_by_public_key iss (sv_hosts sv) = Some host'" "host_id host' = agent_host_id cur"
    "agent_get (agent_id named) (rq_before_save rq (rq_between rq (sv_agents sv))) = Some cur" "agent_status cur = AgentActive"
    "jv_agent result = Some (cur\<lparr>last_used_at := Some (now_used (rq_session_clock rq))\<rparr>)"
    by (rule verify_agent_jwt_current [OF v(2,1)])
  have "host' = host" "agent_id agent = agent_id cur" using c(1,6) accepted(2,3) by auto
  with c spec g show ?thesis by blast
qed

text \<open>An escalation request changes grants only of the authenticated agent, whose session is active and
  of an active host, and only for specifications whose name, without surrounding blanks, is one of
  the host's default capabilities; all else waits for consent.\<close>

theorem escalation_grants_defaults_only:
  assumes "handle_request_capability lb rq sv = (out, sv')"
  shows "\<forall>a cap. map_of (agent_grants a (sv_registry sv')) cap \<noteq> map_of (agent_grants a (sv_registry sv)) cap \<longrightarrow>
    (\<exists>cur aid host iss spec g. agent_get aid (rq_before_save rq (rq_between rq (sv_agents sv))) = Some cur \<and>
      agent_status cur = AgentActive \<and> a = agent_id cur \<and> host_get_by_public_key iss (sv_hosts sv) = Some host \<and>
      host_id host = agent_host_id cur \<and> host_status host = HostActive \<and> cap = raw_spec_name spec \<and>
      strip cap \<in> set (default_capabilities host) \<and>
      map_of (agent_grants a (sv_registry sv')) cap = Some g \<and> granted_by_spec (host_id host) (sv_registry sv) spec g)"
  using escalation_change [OF assms] by blast

theorem escalation_grants_defaults_only_witness:
  "\<forall>a cap. map_of (agent_grants a (sv_registry (snd (handle_request_capability (sample_lib AGENT_JWT_TYP sample_agent_claims)
      (sample_http_req [(''capabilities'', PList [PDict [(''name'', PStr ''pay'')]])]) (sample_server (sample_cache []) pay_grant))))) cap =
    map_of (agent_grants a pay_grant) cap"
proof -
  have "host = sample_host" if "host_get_by_public_key iss sample_hosts = Some host" for iss host
    using that by (auto simp: host_get_by_public_key_def sample_hosts_def split: option.splits if_splits)
  then show ?thesis
    using escalation_grants_defaults_only [OF prod.collapse [symmetric],
        of "sample_lib AGENT_JWT_TYP sample_agent_claims" "sample_http_req [(''capabilities'', PList [PDict [(''name'', PStr ''pay'')]])]"
           "sample_server (sample_cache []) pay_grant"]
    by (fastforce simp: sample_server_def sample_host_def)
qed

text \<open>A prompt that an escalation request schedules for a human shows, and later approves, exactly the
  specifications of the request that is then in the store, including those merged in from an earlier
  pending request.\<close>

theorem prompts_show_stored_request:
  assumes "handle_request_capability lb rq sv = (out, sv')"
  shows "sv_tasks sv' = sv_tasks sv \<or> (\<exists>aid hid principal req. map_of (sv_approvals sv') aid = Some req \<and>
    sv_tasks sv' = sv_tasks sv @ [(aid, escalation_a2h_context lb aid hid (ar_specs req), principal, ar_specs req)])"
  using assms by (cases rule: request_capability_effect) auto

lemma sample_agent_auth:
  "\<exists>rows. verify_agent_bearer (sample_lib AGENT_JWT_TYP sample_agent_claims) (sample_http_req body)
     ((sample_server (sample_cache []) r)\<lparr>sv_a2h := True\<rparr>) =
   (Inr (Inr \<lparr>jv_ok = True, jv_claims = Some sample_agent_claims, jv_host = Some sample_host,
        jv_agent = Some ((sample_agent AgentActive)\<lparr>last_used_at := Some 7\<rparr>), jv_error = None\<rparr>),
    (sample_server (sample_cache [(''a'', ''jwt_1'')]) r)\<lparr>sv_a2h := True, sv_agents := rows\<rparr>)"
proof -
  have "check_jti 1010 True ''a'' ''jwt_1'' (Some (sample_cache [])) = (Inr True, Some (sample_cache [(''a'', ''jwt_1'')]))"
    by (simp add: check_jti_Some sample_cache_record)
  note v = sample_verify_agent_eq [OF this, unfolded sample_verify_agent_def]
  then show ?thesis
    by (simp add: verify_agent_bearer_def sample_bearer run_verify_agent_def sample_lib_def sample_server_def)
qed

theorem prompts_show_stored_request_witness:
  "\<exists>aid hid principal req sv'. sv' = snd (handle_request_capability (sample_lib AGENT_JWT_TYP sample_agent_claims)
      (sample_http_req [(''capabilities'', PList [PDict [(''name'', PStr ''read'')]])])
      ((sample_server (sample_cache []) pay_grant)\<lparr>sv_a2h := True\<rparr>)) \<and>
    map_of (sv_approvals sv') aid = Some req \<and> sv_tasks sv' = [(aid, escalation_a2h_context
      (sample_lib AGENT_JWT_TYP sample_agent_claims) aid hid (ar_specs req), principal, ar_specs req)]"
proof -
  let ?lb = "sample_lib AGENT_JWT_TYP sample_agent_claims"
  let ?rq = "sample_http_req [(''capabilities'', PList [PDict [(''name'', PStr ''read'')]])]"
  let ?sv = "(sample_server (sample_cache []) pay_grant)\<lparr>sv_a2h := True\<rparr>"
  obtain rows where auth: "verify_agent_bearer ?lb ?rq ?sv =
    (Inr (Inr \<lparr>jv_ok = True, jv_claims = Some sample_agent_claims, jv_host = Some sample_host,
        jv_agent = Some ((sample_agent AgentActive)\<lparr>last_used_at := Some 7\<rparr>), jv_error = None\<rparr>),
    (sample_server (sample_cache [(''a'', ''jwt_1'')]) pay_grant)\<lparr>sv_a2h := True, sv_agents := rows\<rparr>)"
    using sample_agent_auth by blast
  have parse: "parse_request_capability_body [(''capabilities'', PList [PDict [(''name'', PStr ''read'')]])] =
      Some [PDict [(''name'', PStr ''read'')]]"
    "parse_capability_registration_body [(''capabilities'', PList [PDict [(''name'', PStr ''read'')]])] =
      ([''read''], [[(''name'', PStr ''read'')]])"
    by (simp_all add: parse_request_capability_body_def as_dict_def parse_capability_registration_body_def get_claim_def
        capability_request_def List.map_filter_def)
  have part: "partition_escalation_capability_specs sample_host [PDict [(''name'', PStr ''read'')]] gs =
      ([[(''name'', PStr ''read'')]], [])" for gs
    by (simp add: partition_escalation_capability_specs_def spec_name_def strip_def lstrip_def rstrip_def py_space_def
        escalation_requires_user_consent_def sample_host_def)
  have flow: "select_approval_method sample_host b None False = DeviceAuthorization" for b
    by (simp add: select_approval_method_def sample_host_def)
  have row: "agent_status (sample_agent AgentActive) = AgentActive" "agent_id (sample_agent AgentActive) = ''a''"
    by (simp_all add: sample_agent_def)
  have "sv_tasks (snd (handle_request_capability ?lb ?rq ?sv)) \<noteq> []"
    unfolding handle_request_capability_def auth
    using parse part flow row
    by (simp add: apply_on_server_def apply_capability_specs_to_registry_def request_consent_def start_approval_def
        sample_server_def create_device_authorization_def approval_get_def reuse_or_merge_def start_request_def
        approval_create_def new_request_def DEFAULT_DEVICE_EXPIRES_IN_SECONDS_def DEFAULT_POLL_INTERVAL_SECONDS_def
        Let_def schedule_a2h_def)
  moreover have "sv_tasks ?sv = []" by (simp add: sample_server_def)
  ultimately show ?thesis
    using prompts_show_stored_request [OF prod.collapse [symmetric], of ?lb ?rq ?sv] by fastforce
qed

end
