(* ===== verification/Errors.thy ===== *)
theory Errors
  imports Py_Text
begin

text \<open>
  The error taxonomy (\<open>src/asap/errors.py\<close>, with the two classes of \<open>src/asap/transport/errors.py\<close> and
  \<open>src/asap/transport/handlers.py\<close> the request path raises): construction with the check of the JSON-RPC
  code, the data a server puts into a JSON-RPC error, and the error a client rebuilds from it.

  An exception is a record; its class is a value of \<open>error_class\<close>, so \<open>isinstance\<close> and
  \<open>type(e).__name__\<close> are functions of it. The text \<open>str\<close> gives for a JSON value that is not a
  string is the parameter \<open>txt\<close>.
\<close>

subsection \<open>Codes\<close>

definition JSON_RPC_ASAP_MIN :: int where "JSON_RPC_ASAP_MIN = -32059"
definition JSON_RPC_ASAP_MAX :: int where "JSON_RPC_ASAP_MAX = -32000"
definition RPC_INVALID_STATE :: int where "RPC_INVALID_STATE = -32000"
definition RPC_MALFORMED_ENVELOPE :: int where "RPC_MALFORMED_ENVELOPE = -32001"
definition RPC_INVALID_TIMESTAMP :: int where "RPC_INVALID_TIMESTAMP = -32002"
definition RPC_INVALID_NONCE :: int where "RPC_INVALID_NONCE = -32003"
definition RPC_TASK_NOT_FOUND :: int where "RPC_TASK_NOT_FOUND = -32010"
definition RPC_CIRCUIT_OPEN :: int where "RPC_CIRCUIT_OPEN = -32011"
definition RPC_HANDLER_NOT_FOUND :: int where "RPC_HANDLER_NOT_FOUND = -32012"
definition RPC_UNSUPPORTED_AUTH_SCHEME :: int where "RPC_UNSUPPORTED_AUTH_SCHEME = -32020"
definition RPC_TASK_ALREADY_COMPLETED :: int where "RPC_TASK_ALREADY_COMPLETED = -32030"
definition RPC_THREAD_POOL_EXHAUSTED :: int where "RPC_THREAD_POOL_EXHAUSTED = -32031"
definition RPC_CONNECTION_ERROR :: int where "RPC_CONNECTION_ERROR = -32032"
definition RPC_TIMEOUT :: int where "RPC_TIMEOUT = -32033"
definition RPC_REMOTE_GENERIC :: int where "RPC_REMOTE_GENERIC = -32034"
definition RPC_RESOURCE_EXHAUSTED :: int where "RPC_RESOURCE_EXHAUSTED = -32040"
definition RPC_WEBHOOK_URL_REJECTED :: int where "RPC_WEBHOOK_URL_REJECTED = -32050"
definition RPC_AGENT_REVOKED :: int where "RPC_AGENT_REVOKED = -32051"
definition RPC_SIGNATURE_VERIFICATION :: int where "RPC_SIGNATURE_VERIFICATION = -32052"

lemmas rpc_code_defs =
  JSON_RPC_ASAP_MIN_def JSON_RPC_ASAP_MAX_def RPC_INVALID_STATE_def RPC_MALFORMED_ENVELOPE_def
  RPC_INVALID_TIMESTAMP_def RPC_INVALID_NONCE_def RPC_TASK_NOT_FOUND_def RPC_CIRCUIT_OPEN_def
  RPC_HANDLER_NOT_FOUND_def RPC_UNSUPPORTED_AUTH_SCHEME_def RPC_TASK_ALREADY_COMPLETED_def
  RPC_THREAD_POOL_EXHAUSTED_def RPC_CONNECTION_ERROR_def RPC_TIMEOUT_def RPC_REMOTE_GENERIC_def
  RPC_RESOURCE_EXHAUSTED_def RPC_WEBHOOK_URL_REJECTED_def RPC_AGENT_REVOKED_def RPC_SIGNATURE_VERIFICATION_def

definition is_asap_json_rpc_code :: "int \<Rightarrow> bool" where
  "is_asap_json_rpc_code code \<longleftrightarrow> JSON_RPC_ASAP_MIN \<le> code \<and> code \<le> JSON_RPC_ASAP_MAX"

subsection \<open>Classes and errors\<close>

datatype error_class =
    InvalidTransitionError | MalformedEnvelopeError | TaskNotFoundError | TaskAlreadyCompletedError
  | ThreadPoolExhaustedError | InvalidTimestampError | InvalidNonceError | CircuitOpenError
  | WebhookURLValidationError | AgentRevokedException | SignatureVerificationError
  | UnsupportedAuthSchemeError | ASAPConnectionError | ASAPTimeoutError | RemoteRPCError
  | RemoteFatalRPCError | RemoteRecoverableRPCError | HandlerNotFoundError | ProtocolCorrelationError

text \<open>\<open>isinstance(e, RecoverableError)\<close>\<close>

definition is_recoverable_class :: "error_class \<Rightarrow> bool" where
  "is_recoverable_class c \<longleftrightarrow>
     c \<in> {ThreadPoolExhaustedError, InvalidTimestampError, CircuitOpenError, ASAPConnectionError, ASAPTimeoutError,
           RemoteRecoverableRPCError}"

text \<open>\<open>isinstance(e, FatalError)\<close>: \<open>RemoteRPCError\<close> is neither, its two deprecated subclasses are one each.\<close>

definition is_fatal_class :: "error_class \<Rightarrow> bool" where
  "is_fatal_class c \<longleftrightarrow> \<not> is_recoverable_class c \<and> c \<noteq> RemoteRPCError"

fun class_name :: "error_class \<Rightarrow> string" where
  "class_name InvalidTransitionError = ''InvalidTransitionError''"
| "class_name MalformedEnvelopeError = ''MalformedEnvelopeError''"
| "class_name TaskNotFoundError = ''TaskNotFoundError''"
| "class_name TaskAlreadyCompletedError = ''TaskAlreadyCompletedError''"
| "class_name ThreadPoolExhaustedError = ''ThreadPoolExhaustedError''"
| "class_name InvalidTimestampError = ''InvalidTimestampError''"
| "class_name InvalidNonceError = ''InvalidNonceError''"
| "class_name CircuitOpenError = ''CircuitOpenError''"
| "class_name WebhookURLValidationError = ''WebhookURLValidationError''"
| "class_name AgentRevokedException = ''AgentRevokedException''"
| "class_name SignatureVerificationError = ''SignatureVerificationError''"
| "class_name UnsupportedAuthSchemeError = ''UnsupportedAuthSchemeError''"
| "class_name ASAPConnectionError = ''ASAPConnectionError''"
| "class_name ASAPTimeoutError = ''ASAPTimeoutError''"
| "class_name RemoteRPCError = ''RemoteRPCError''"
| "class_name RemoteFatalRPCError = ''RemoteFatalRPCError''"
| "class_name RemoteRecoverableRPCError = ''RemoteRecoverableRPCError''"
| "class_name HandlerNotFoundError = ''HandlerNotFoundError''"
| "class_name ProtocolCorrelationError = ''ProtocolCorrelationError''"

record asap_error =
  ae_class :: error_class
  ae_code :: string
  ae_rpc_code :: int
  ae_message :: string
  ae_details :: pydict
  ae_retry_after_ms :: "int option"
  ae_alternative_agents :: "pyval list option"
  ae_fallback_action :: "string option"

text \<open>The keyword arguments of the base constructor that most classes leave at \<open>None\<close>.\<close>

record recovery_hints =
  hint_retry_after_ms :: "int option"
  hint_alternative_agents :: "pyval list option"
  hint_fallback_action :: "string option"

definition no_hints :: recovery_hints where
  "no_hints = \<lparr>hint_retry_after_ms = None, hint_alternative_agents = None, hint_fallback_action = None\<rparr>"

definition asap_error_init ::
  "error_class \<Rightarrow> string \<Rightarrow> string \<Rightarrow> pydict \<Rightarrow> int \<Rightarrow> recovery_hints \<Rightarrow> py_exn + asap_error" where
  "asap_error_init cls code message details rpc_code hints =
     (if \<not> is_asap_json_rpc_code rpc_code then Inl (ValueError ''rpc_code must be in the ASAP range'')
      else Inr \<lparr>ae_class = cls, ae_code = code, ae_rpc_code = rpc_code, ae_message = message, ae_details = details,
                ae_retry_after_ms = hint_retry_after_ms hints, ae_alternative_agents = hint_alternative_agents hints,
                ae_fallback_action = hint_fallback_action hints\<rparr>)"

text \<open>\<open>{**a, **b}\<close>; the details argument of the constructors is optional (\<open>details or {}\<close>).\<close>

definition dict_merge :: "('k, 'v) dict \<Rightarrow> ('k, 'v) dict \<Rightarrow> ('k, 'v) dict" where
  "dict_merge a b = fold (\<lambda>(k, v). AList.update k v) b a"

definition or_empty :: "pydict option \<Rightarrow> pydict" where
  "or_empty d = (case d of None \<Rightarrow> [] | Some x \<Rightarrow> x)"

subsection \<open>The constructors of the classes\<close>

definition invalid_transition_error :: "string \<Rightarrow> string \<Rightarrow> pydict option \<Rightarrow> py_exn + asap_error" where
  "invalid_transition_error from_state to_state details =
     asap_error_init InvalidTransitionError ''asap:protocol/invalid_state''
       (''Invalid transition from '' @ [CHR 0x27] @ from_state @ [CHR 0x27] @ '' to '' @ [CHR 0x27] @ to_state @ [CHR 0x27])
       (dict_merge [(''from_state'', PStr from_state), (''to_state'', PStr to_state)] (or_empty details))
       RPC_INVALID_STATE no_hints"

definition malformed_envelope_error :: "string \<Rightarrow> pydict option \<Rightarrow> py_exn + asap_error" where
  "malformed_envelope_error reason details =
     asap_error_init MalformedEnvelopeError ''asap:protocol/malformed_envelope''
       (''Malformed envelope: '' @ reason) (or_empty details) RPC_MALFORMED_ENVELOPE no_hints"

definition task_not_found_error :: "string \<Rightarrow> pydict option \<Rightarrow> py_exn + asap_error" where
  "task_not_found_error task_id details =
     asap_error_init TaskNotFoundError ''asap:task/not_found'' (''Task not found: '' @ task_id)
       (dict_merge [(''task_id'', PStr task_id)] (or_empty details)) RPC_TASK_NOT_FOUND no_hints"

definition task_already_completed_error :: "string \<Rightarrow> string \<Rightarrow> pydict option \<Rightarrow> py_exn + asap_error" where
  "task_already_completed_error task_id current_status details =
     asap_error_init TaskAlreadyCompletedError ''asap:task/already_completed''
       (''Task already completed: '' @ task_id @ '' (status: '' @ current_status @ '')'')
       (dict_merge [(''task_id'', PStr task_id), (''current_status'', PStr current_status)] (or_empty details))
       RPC_TASK_ALREADY_COMPLETED no_hints"

definition thread_pool_exhausted_error :: "int \<Rightarrow> int \<Rightarrow> pydict option \<Rightarrow> int option \<Rightarrow> py_exn + asap_error" where
  "thread_pool_exhausted_error max_threads active_threads details retry =
     asap_error_init ThreadPoolExhaustedError ''asap:transport/thread_pool_exhausted''
       (''Thread pool exhausted: '' @ str_int active_threads @ ''/'' @ str_int max_threads @
        '' threads in use. Service temporarily unavailable.'')
       (dict_merge [(''max_threads'', PInt max_threads), (''active_threads'', PInt active_threads)] (or_empty details))
       RPC_THREAD_POOL_EXHAUSTED
       \<lparr>hint_retry_after_ms = retry, hint_alternative_agents = None, hint_fallback_action = Some ''retry_later''\<rparr>"

definition invalid_timestamp_error ::
  "string \<Rightarrow> string \<Rightarrow> rat option \<Rightarrow> rat option \<Rightarrow> pydict option \<Rightarrow> int option \<Rightarrow> py_exn + asap_error" where
  "invalid_timestamp_error timestamp message age future details retry =
     asap_error_init InvalidTimestampError ''asap:protocol/invalid_timestamp'' message
       (dict_merge
         ([(''timestamp'', PStr timestamp)] @
          (case age of None \<Rightarrow> [] | Some a \<Rightarrow> [(''age_seconds'', PFloat (Fin a))]) @
          (case future of None \<Rightarrow> [] | Some a \<Rightarrow> [(''future_offset_seconds'', PFloat (Fin a))]))
         (or_empty details))
       RPC_INVALID_TIMESTAMP
       \<lparr>hint_retry_after_ms = retry, hint_alternative_agents = None,
        hint_fallback_action = Some ''resend_with_fresh_timestamp''\<rparr>"

definition invalid_nonce_error :: "string \<Rightarrow> string \<Rightarrow> pydict option \<Rightarrow> py_exn + asap_error" where
  "invalid_nonce_error nonce message details =
     asap_error_init InvalidNonceError ''asap:protocol/invalid_nonce'' message
       (dict_merge [(''nonce'', PStr nonce)] (or_empty details)) RPC_INVALID_NONCE no_hints"

definition circuit_open_error :: "string \<Rightarrow> int \<Rightarrow> pydict option \<Rightarrow> int option \<Rightarrow> py_exn + asap_error" where
  "circuit_open_error base_url failures details retry =
     asap_error_init CircuitOpenError ''asap:transport/circuit_open''
       (''Circuit breaker is OPEN for '' @ base_url @ ''. Too many consecutive failures ('' @ str_int failures @
        ''). Service temporarily unavailable.'')
       (dict_merge [(''base_url'', PStr base_url), (''consecutive_failures'', PInt failures)] (or_empty details))
       RPC_CIRCUIT_OPEN
       \<lparr>hint_retry_after_ms = retry, hint_alternative_agents = None,
        hint_fallback_action = Some ''retry_later_or_failover''\<rparr>"

definition webhook_url_validation_error :: "string \<Rightarrow> string \<Rightarrow> pydict option \<Rightarrow> py_exn + asap_error" where
  "webhook_url_validation_error url reason details =
     asap_error_init WebhookURLValidationError ''asap:transport/webhook_url_rejected''
       (''Webhook URL rejected: '' @ reason)
       (dict_merge [(''url'', PStr url), (''reason'', PStr reason)] (or_empty details)) RPC_WEBHOOK_URL_REJECTED no_hints"

definition agent_revoked_exception :: "string \<Rightarrow> pydict option \<Rightarrow> py_exn + asap_error" where
  "agent_revoked_exception urn details =
     asap_error_init AgentRevokedException ''asap:agent/revoked'' (''Agent revoked: '' @ urn)
       (dict_merge [(''urn'', PStr urn)] (or_empty details)) RPC_AGENT_REVOKED no_hints"

definition signature_verification_error :: "string \<Rightarrow> pydict option \<Rightarrow> py_exn + asap_error" where
  "signature_verification_error message details =
     asap_error_init SignatureVerificationError ''asap:error/signature-verification'' message
       (or_empty details) RPC_SIGNATURE_VERIFICATION no_hints"

text \<open>The supported schemes are a set; the code sorts them.\<close>

definition unsupported_auth_scheme_error :: "string \<Rightarrow> string set \<Rightarrow> pydict option \<Rightarrow> py_exn + asap_error" where
  "unsupported_auth_scheme_error scheme supported details =
     (let supported_list = sorted_list_of_set supported in
      asap_error_init UnsupportedAuthSchemeError ''asap:auth/unsupported_scheme''
        (''Unsupported authentication scheme '' @ [CHR 0x27] @ scheme @ [CHR 0x27] @ ''. Supported schemes: '' @
         str_join '', '' supported_list)
        (dict_merge [(''scheme'', PStr scheme), (''supported_schemes'', PList (map PStr supported_list))] (or_empty details))
        RPC_UNSUPPORTED_AUTH_SCHEME no_hints)"

definition asap_connection_error ::
  "string \<Rightarrow> string option \<Rightarrow> string option \<Rightarrow> int \<Rightarrow> int option \<Rightarrow> pyval list option \<Rightarrow> py_exn + asap_error" where
  "asap_connection_error message cause url rpc_code retry alternatives =
     (let enhanced =
        (case url of
           None \<Rightarrow> message
         | Some u \<Rightarrow>
             if u \<noteq> [] \<and> \<not> has_substring ''Verify'' message \<and> \<not> has_substring ''troubleshooting'' (lower message)
             then message @ [CHR 0x0A] @ ''Troubleshooting: Connection failed to '' @ u @
                  ''. Verify the agent is running and accessible. Check the URL format, network connectivity, and firewall settings.''
             else message)
      in asap_error_init ASAPConnectionError ''asap:transport/connection_error'' enhanced
        ((case url of None \<Rightarrow> [] | Some u \<Rightarrow> [(''url'', PStr u)]) @
         (case cause of None \<Rightarrow> [] | Some c \<Rightarrow> [(''cause'', PStr c)]))
        rpc_code
        \<lparr>hint_retry_after_ms = retry, hint_alternative_agents = alternatives,
         hint_fallback_action = Some ''retry_or_check_connectivity''\<rparr>)"

definition asap_timeout_error :: "string \<Rightarrow> rat option \<Rightarrow> int option \<Rightarrow> py_exn + asap_error" where
  "asap_timeout_error message timeout retry =
     asap_error_init ASAPTimeoutError ''asap:transport/timeout'' message
       (case timeout of None \<Rightarrow> [] | Some t \<Rightarrow> [(''timeout_seconds'', PFloat (Fin t))]) RPC_TIMEOUT
       \<lparr>hint_retry_after_ms = retry, hint_alternative_agents = None, hint_fallback_action = Some ''retry_with_backoff''\<rparr>"

definition handler_not_found_error :: "string \<Rightarrow> py_exn + asap_error" where
  "handler_not_found_error payload_type =
     asap_error_init HandlerNotFoundError ''asap:transport/handler_not_found''
       (''No handler registered for payload type: '' @ payload_type) [(''payload_type'', PStr payload_type)]
       RPC_HANDLER_NOT_FOUND no_hints"

text \<open>\<open>rep\<close> is \<open>repr\<close> of an identifier or of \<open>None\<close>.\<close>

definition protocol_correlation_error ::
  "(string option \<Rightarrow> string) \<Rightarrow> string \<Rightarrow> string option \<Rightarrow> pydict option \<Rightarrow> py_exn + asap_error" where
  "protocol_correlation_error rep request_id correlation details =
     asap_error_init ProtocolCorrelationError ''asap:protocol/malformed_envelope''
       (''correlation_id mismatch: expected '' @ rep (Some request_id) @ '', got '' @ rep correlation)
       (dict_merge [(''request_id'', PStr request_id),
          (''correlation_id'', case correlation of None \<Rightarrow> PNone | Some c \<Rightarrow> PStr c)] (or_empty details))
       RPC_MALFORMED_ENVELOPE no_hints"

subsection \<open>The wire form\<close>

definition to_dict :: "asap_error \<Rightarrow> pydict" where
  "to_dict e =
     [(''code'', PStr (ae_code e)), (''rpc_code'', PInt (ae_rpc_code e)), (''message'', PStr (ae_message e)),
      (''details'', PDict (ae_details e))] @
     (case ae_retry_after_ms e of None \<Rightarrow> [] | Some r \<Rightarrow> [(''retry_after_ms'', PInt r)]) @
     (case ae_alternative_agents e of None \<Rightarrow> [] | Some l \<Rightarrow> [(''alternative_agents'', PList l)]) @
     (case ae_fallback_action e of None \<Rightarrow> [] | Some f \<Rightarrow> [(''fallback_action'', PStr f)])"

definition jsonrpc_error_data_for_asap_exception :: "asap_error \<Rightarrow> pydict" where
  "jsonrpc_error_data_for_asap_exception e =
     AList.update ''asap_taxonomy_code'' (PStr (ae_code e))
       (AList.update ''recoverable'' (PBool (is_recoverable_class (ae_class e))) (to_dict e))"

subsection \<open>Errors of a remote peer\<close>

record remote_error = asap_error +
  json_rpc_code :: int
  is_recoverable :: bool

text \<open>\<open>str(v)\<close>\<close>

definition py_str :: "(pyval \<Rightarrow> string) \<Rightarrow> pyval \<Rightarrow> string" where
  "py_str txt v = (case v of PStr s \<Rightarrow> s | _ \<Rightarrow> txt v)"

text \<open>The keys \<open>_pop_remote_meta\<close> takes out of the dictionary, in its order.\<close>

definition META_KEYS :: "string list" where
  "META_KEYS = [''asap_taxonomy_code'', ''recoverable'', ''retry_after_ms'', ''alternative_agents'',
                ''fallback_action'', ''rpc_code'', ''code'']"

definition pop_remote_meta ::
  "(pyval \<Rightarrow> string) \<Rightarrow> pydict \<Rightarrow> py_exn + (string \<times> pydict \<times> recovery_hints)" where
  "pop_remote_meta txt raw =
     (let d = fold AList.delete META_KEYS raw;
          taxonomy0 = (case map_of raw ''asap_taxonomy_code'' of None \<Rightarrow> ''asap:rpc/remote_error'' | Some v \<Rightarrow> py_str txt v);
          taxonomy = (case map_of raw ''code'' of
                        Some (PStr c) \<Rightarrow> if starts_with c ''asap:'' then c else taxonomy0
                      | _ \<Rightarrow> taxonomy0);
          agents = (case map_of raw ''alternative_agents'' of Some (PList l) \<Rightarrow> Some l | _ \<Rightarrow> None);
          fallback = (case map_of raw ''fallback_action'' of
                        None \<Rightarrow> None | Some v \<Rightarrow> if v = PNone then None else Some (py_str txt v));
          retry = (case map_of raw ''retry_after_ms'' of
                     None \<Rightarrow> Inr None | Some v \<Rightarrow> if v = PNone then Inr None else map_sum id Some (py_int v))
      in case retry of
           Inl x \<Rightarrow> Inl x
         | Inr r \<Rightarrow> Inr (taxonomy, d,
             \<lparr>hint_retry_after_ms = r, hint_alternative_agents = agents, hint_fallback_action = fallback\<rparr>))"

text \<open>\<open>RemoteRPCError.__init__\<close> on an object of the class or of a subclass, and the constructors of the three classes.\<close>

definition remote_error_init ::
  "error_class \<Rightarrow> int \<Rightarrow> string \<Rightarrow> pydict \<Rightarrow> bool \<Rightarrow> string \<Rightarrow> recovery_hints \<Rightarrow> py_exn + remote_error" where
  "remote_error_init cls wire message details recoverable taxonomy hints =
     (let slot = (if is_asap_json_rpc_code wire then wire else RPC_REMOTE_GENERIC) in
      map_sum id (\<lambda>e. asap_error.extend e \<lparr>json_rpc_code = wire, is_recoverable = recoverable\<rparr>)
        (asap_error_init cls taxonomy message details slot hints))"

definition remote_rpc_error_init ::
  "int \<Rightarrow> string \<Rightarrow> pydict \<Rightarrow> bool \<Rightarrow> string \<Rightarrow> recovery_hints \<Rightarrow> py_exn + remote_error" where
  "remote_rpc_error_init = remote_error_init RemoteRPCError"

definition remote_fatal_rpc_error ::
  "int \<Rightarrow> string \<Rightarrow> pydict \<Rightarrow> string \<Rightarrow> recovery_hints \<Rightarrow> py_exn + remote_error" where
  "remote_fatal_rpc_error wire message details taxonomy hints =
     remote_error_init RemoteFatalRPCError wire message details False taxonomy hints"

definition remote_recoverable_rpc_error ::
  "int \<Rightarrow> string \<Rightarrow> pydict \<Rightarrow> string \<Rightarrow> recovery_hints \<Rightarrow> py_exn + remote_error" where
  "remote_recoverable_rpc_error wire message details taxonomy hints =
     remote_error_init RemoteRecoverableRPCError wire message details True taxonomy hints"

definition from_jsonrpc ::
  "(pyval \<Rightarrow> string) \<Rightarrow> int \<Rightarrow> string \<Rightarrow> pydict option \<Rightarrow> py_exn + remote_error" where
  "from_jsonrpc txt rpc_code message data =
     (let raw = or_empty data in
      case pop_remote_meta txt raw of
        Inl x \<Rightarrow> Inl x
      | Inr (taxonomy, details, hints) \<Rightarrow>
          remote_rpc_error_init rpc_code message details (map_of raw ''recoverable'' = Some (PBool True)) taxonomy hints)"

definition remote_rpc_error_from_json ::
  "(pyval \<Rightarrow> string) \<Rightarrow> int \<Rightarrow> string \<Rightarrow> pydict option \<Rightarrow> py_exn + remote_error" where
  "remote_rpc_error_from_json txt rpc_code message data = from_jsonrpc txt rpc_code message data"

subsection \<open>Merging dictionaries\<close>

lemma map_of_dict_merge [dict_simps]:
  "wf_dict b \<Longrightarrow> map_of (dict_merge a b) k = (case map_of b k of None \<Rightarrow> map_of a k | Some v \<Rightarrow> Some v)"
proof (induction b arbitrary: a)
  case (Cons p b)
  then show ?case
    by (cases p) (auto simp: dict_merge_def dict_simps dest: map_of_in_keys split: option.splits)
qed (simp add: dict_merge_def)

lemma map_of_fold_delete: "map_of (fold AList.delete ks d) k = (if k \<in> set ks then None else map_of d k)"
  by (induction ks arbitrary: d) (auto simp: dict_simps)

lemma wf_dict_dict_merge [dict_simps]: "wf_dict a \<Longrightarrow> wf_dict (dict_merge a b)"
proof (induction b arbitrary: a)
  case (Cons p b)
  then show ?case using wf_dict_update [OF Cons.prems] by (cases p) (simp add: dict_merge_def)
qed (simp add: dict_merge_def)

subsection \<open>Errors over the wire\<close>

lemma map_of_error_data:
  fixes e :: asap_error
  defines "d \<equiv> jsonrpc_error_data_for_asap_exception e"
  shows "map_of d ''asap_taxonomy_code'' = Some (PStr (ae_code e))"
    "map_of d ''recoverable'' = Some (PBool (is_recoverable_class (ae_class e)))"
    "map_of d ''code'' = Some (PStr (ae_code e))" "map_of d ''rpc_code'' = Some (PInt (ae_rpc_code e))"
    "map_of d ''message'' = Some (PStr (ae_message e))" "map_of d ''details'' = Some (PDict (ae_details e))"
    "map_of d ''retry_after_ms'' = map_option PInt (ae_retry_after_ms e)"
    "map_of d ''alternative_agents'' = map_option PList (ae_alternative_agents e)"
    "map_of d ''fallback_action'' = map_option PStr (ae_fallback_action e)"
  by (simp_all add: d_def jsonrpc_error_data_for_asap_exception_def dict_simps to_dict_def split: option.splits)

text \<open>What the client rebuilds from a dictionary that agrees with the data of a server error on the keys it reads.\<close>

lemma from_jsonrpc_error_data:
  assumes code: "is_asap_json_rpc_code (ae_rpc_code e)"
    and meta: "\<And>k. k \<in> set META_KEYS \<Longrightarrow> map_of d k = map_of (jsonrpc_error_data_for_asap_exception e) k"
  obtains r where "from_jsonrpc txt (ae_rpc_code e) (ae_message e) (Some d) = Inr r"
    "ae_class r = RemoteRPCError" "ae_code r = ae_code e" "ae_rpc_code r = ae_rpc_code e" "ae_message r = ae_message e"
    "json_rpc_code r = ae_rpc_code e" "is_recoverable r = is_recoverable_class (ae_class e)"
    "ae_retry_after_ms r = ae_retry_after_ms e" "ae_alternative_agents r = ae_alternative_agents e"
    "ae_fallback_action r = ae_fallback_action e" "ae_details r = fold AList.delete META_KEYS d"
proof -
  have keys: "map_of d ''asap_taxonomy_code'' = Some (PStr (ae_code e))"
    "map_of d ''recoverable'' = Some (PBool (is_recoverable_class (ae_class e)))"
    "map_of d ''code'' = Some (PStr (ae_code e))"
    "map_of d ''retry_after_ms'' = map_option PInt (ae_retry_after_ms e)"
    "map_of d ''alternative_agents'' = map_option PList (ae_alternative_agents e)"
    "map_of d ''fallback_action'' = map_option PStr (ae_fallback_action e)"
    by (simp_all add: meta META_KEYS_def map_of_error_data)
  have pop: "pop_remote_meta txt d = Inr (ae_code e, fold AList.delete META_KEYS d,
      \<lparr>hint_retry_after_ms = ae_retry_after_ms e, hint_alternative_agents = ae_alternative_agents e,
       hint_fallback_action = ae_fallback_action e\<rparr>)"
    by (simp add: pop_remote_meta_def keys py_str_def split: option.splits)
  have "from_jsonrpc txt (ae_rpc_code e) (ae_message e) (Some d) =
      Inr \<lparr>ae_class = RemoteRPCError, ae_code = ae_code e, ae_rpc_code = ae_rpc_code e, ae_message = ae_message e,
           ae_details = fold AList.delete META_KEYS d, ae_retry_after_ms = ae_retry_after_ms e,
           ae_alternative_agents = ae_alternative_agents e, ae_fallback_action = ae_fallback_action e,
           json_rpc_code = ae_rpc_code e, is_recoverable = is_recoverable_class (ae_class e)\<rparr>"
    by (simp add: from_jsonrpc_def or_empty_def pop keys remote_rpc_error_init_def remote_error_init_def code asap_error_init_def
        asap_error.defs Let_def)
  then show thesis by (rule that) simp_all
qed

text \<open>An error of a peer that is raised on as it is (a relay) is not a \<open>RecoverableError\<close>: the next
  client sees a fatal error, whatever the peer said.\<close>

lemma relayed_error_is_fatal:
  assumes "from_jsonrpc txt code message data = Inr r"
  shows "map_of (jsonrpc_error_data_for_asap_exception (asap_error.truncate r)) ''recoverable'' = Some (PBool False)"
  using assms
  by (auto simp: from_jsonrpc_def remote_rpc_error_init_def remote_error_init_def asap_error_init_def asap_error.defs map_of_error_data
      is_recoverable_class_def Let_def split: sum.splits prod.splits if_splits)

subsection \<open>What the constructors build\<close>

text \<open>The errors the classes of the taxonomy build, one rule per class. The errors of a peer have their own constructors.\<close>

inductive taxonomy_error :: "asap_error \<Rightarrow> bool" where
  "invalid_transition_error a b d = Inr e \<Longrightarrow> taxonomy_error e"
| "malformed_envelope_error a d = Inr e \<Longrightarrow> taxonomy_error e"
| "task_not_found_error a d = Inr e \<Longrightarrow> taxonomy_error e"
| "task_already_completed_error a b d = Inr e \<Longrightarrow> taxonomy_error e"
| "thread_pool_exhausted_error m n d r = Inr e \<Longrightarrow> taxonomy_error e"
| "invalid_timestamp_error a b x y d r = Inr e \<Longrightarrow> taxonomy_error e"
| "invalid_nonce_error a b d = Inr e \<Longrightarrow> taxonomy_error e"
| "circuit_open_error a n d r = Inr e \<Longrightarrow> taxonomy_error e"
| "webhook_url_validation_error a b d = Inr e \<Longrightarrow> taxonomy_error e"
| "agent_revoked_exception a d = Inr e \<Longrightarrow> taxonomy_error e"
| "signature_verification_error a d = Inr e \<Longrightarrow> taxonomy_error e"
| "unsupported_auth_scheme_error a s d = Inr e \<Longrightarrow> taxonomy_error e"
| "asap_connection_error a c u code r l = Inr e \<Longrightarrow> taxonomy_error e"
| "asap_timeout_error a t r = Inr e \<Longrightarrow> taxonomy_error e"
| "handler_not_found_error a = Inr e \<Longrightarrow> taxonomy_error e"
| "protocol_correlation_error rep a b d = Inr e \<Longrightarrow> taxonomy_error e"

lemmas constructor_defs =
  invalid_transition_error_def malformed_envelope_error_def task_not_found_error_def task_already_completed_error_def
  thread_pool_exhausted_error_def invalid_timestamp_error_def invalid_nonce_error_def circuit_open_error_def
  webhook_url_validation_error_def agent_revoked_exception_def signature_verification_error_def
  unsupported_auth_scheme_error_def asap_connection_error_def asap_timeout_error_def handler_not_found_error_def
  protocol_correlation_error_def

lemma asap_error_init_Inr:
  "asap_error_init cls code message details rpc hints = Inr e \<longleftrightarrow>
     is_asap_json_rpc_code rpc \<and>
     e = \<lparr>ae_class = cls, ae_code = code, ae_rpc_code = rpc, ae_message = message, ae_details = details,
          ae_retry_after_ms = hint_retry_after_ms hints, ae_alternative_agents = hint_alternative_agents hints,
          ae_fallback_action = hint_fallback_action hints\<rparr>"
  by (auto simp: asap_error_init_def)

lemma starts_with_append [simp]: "starts_with (p @ s) p"
  by (simp add: starts_with_def)

lemma taxonomy_error_shape:
  assumes "taxonomy_error e"
  shows "is_asap_json_rpc_code (ae_rpc_code e)" "starts_with (ae_code e) ''asap:''"
    "is_recoverable_class (ae_class e) \<noteq> is_fatal_class (ae_class e)"
    "is_recoverable_class (ae_class e) \<longleftrightarrow> ae_fallback_action e \<noteq> None"
    "is_fatal_class (ae_class e) \<Longrightarrow> ae_retry_after_ms e = None \<and> ae_alternative_agents e = None"
  using assms
  by (cases rule: taxonomy_error.cases; simp add: constructor_defs asap_error_init_Inr Let_def starts_with_def
      is_recoverable_class_def is_fatal_class_def no_hints_def; fail)+

text \<open>The errors of a peer: one rule per class.\<close>

inductive remote_taxonomy_error :: "remote_error \<Rightarrow> bool" where
  "remote_rpc_error_init wire m d rec taxonomy hints = Inr r \<Longrightarrow> remote_taxonomy_error r"
| "remote_fatal_rpc_error wire m d taxonomy hints = Inr r \<Longrightarrow> remote_taxonomy_error r"
| "remote_recoverable_rpc_error wire m d taxonomy hints = Inr r \<Longrightarrow> remote_taxonomy_error r"

lemma remote_error_init_total:
  "\<exists>r. remote_error_init cls wire m d rec taxonomy hints = Inr r \<and> ae_class r = cls \<and> json_rpc_code r = wire \<and> is_recoverable r = rec \<and>
     is_asap_json_rpc_code (ae_rpc_code r) \<and> (is_asap_json_rpc_code wire \<longrightarrow> ae_rpc_code r = wire)"
  by (simp add: remote_error_init_def asap_error_init_def asap_error.defs Let_def is_asap_json_rpc_code_def rpc_code_defs)

lemma remote_taxonomy_error_shape:
  assumes "remote_taxonomy_error r"
  shows "is_asap_json_rpc_code (ae_rpc_code r)" "is_asap_json_rpc_code (json_rpc_code r) \<Longrightarrow> ae_rpc_code r = json_rpc_code r"
    "is_recoverable_class (ae_class r) \<Longrightarrow> is_recoverable r" "is_fatal_class (ae_class r) \<Longrightarrow> \<not> is_recoverable r"
    "ae_class r \<in> {RemoteRPCError, RemoteFatalRPCError, RemoteRecoverableRPCError}"
proof -
  obtain cls wire m d rec taxonomy hints where r: "remote_error_init cls wire m d rec taxonomy hints = Inr r"
    and cls: "cls = RemoteRPCError \<or> cls = RemoteFatalRPCError \<and> \<not> rec \<or> cls = RemoteRecoverableRPCError \<and> rec"
    using assms by (cases rule: remote_taxonomy_error.cases)
      (auto simp: remote_rpc_error_init_def remote_fatal_rpc_error_def remote_recoverable_rpc_error_def)
  from remote_error_init_total [of cls wire m d rec taxonomy hints] r
  have shape: "ae_class r = cls" "json_rpc_code r = wire" "is_recoverable r = rec" "is_asap_json_rpc_code (ae_rpc_code r)"
    "is_asap_json_rpc_code wire \<longrightarrow> ae_rpc_code r = wire" by auto
  with cls show "is_asap_json_rpc_code (ae_rpc_code r)" "is_asap_json_rpc_code (json_rpc_code r) \<Longrightarrow> ae_rpc_code r = json_rpc_code r"
    "is_recoverable_class (ae_class r) \<Longrightarrow> is_recoverable r" "is_fatal_class (ae_class r) \<Longrightarrow> \<not> is_recoverable r"
    "ae_class r \<in> {RemoteRPCError, RemoteFatalRPCError, RemoteRecoverableRPCError}"
    by (auto simp: is_recoverable_class_def is_fatal_class_def)
qed



end
