(* ===== verification/Lambda_Codec.thy ===== *)
theory Lambda_Codec
  imports Asap_Prelude
begin

text \<open>
  The Lambda codec (\<open>src/asap/transport/lambda_codec.py\<close>): substitution of frequent JSON tokens by short atoms
  between section signs, and back. Text is a list of code points, because the version prefix is not
  in the range of a \<^typ>\<open>char\<close>.
\<close>

type_synonym code_points = "nat list"

subsection \<open>Substitution\<close>

definition cp_prefix :: "code_points \<Rightarrow> code_points \<Rightarrow> bool" where
  "cp_prefix p s \<longleftrightarrow> take (length p) s = p"

text \<open>\<open>re.compile("|".join(...)).sub(...)\<close>: left to right, at every position the first alternative that
  matches. No alternative is empty.\<close>

function sub_all :: "(code_points \<times> code_points) list \<Rightarrow> code_points \<Rightarrow> code_points" where
  "sub_all tbl [] = []"
| "sub_all tbl (c # s) =
     (case find (\<lambda>(k, v). cp_prefix k (c # s)) tbl of
        Some (k, v) \<Rightarrow> v @ sub_all tbl (drop (length k - 1) s)
      | None \<Rightarrow> c # sub_all tbl s)"
  by pat_completeness auto

termination by (relation "measure (\<lambda>(tbl, s). length s)") auto

subsection \<open>The codec\<close>

definition cps :: "string \<Rightarrow> code_points" where
  "cps s = map of_char s"

definition LAMBDA_CONTENT_TYPE :: string where
  "LAMBDA_CONTENT_TYPE = ''application/vnd.asap+lambda''"

definition SECTION_SIGN :: nat where
  "SECTION_SIGN = 167"

definition VERSION_PREFIX :: code_points where
  "VERSION_PREFIX = 955 # cps ''1:''"

text \<open>The substitution table: the tokens without their quotes, the atoms without their section signs.\<close>

definition ENCODE_TOKENS :: "(string \<times> string) list" where
  "ENCODE_TOKENS =
    [(''jsonrpc'', ''Jrpc''), (''method'', ''Mthd''), (''params'', ''Prms''), (''result'', ''Rslt''),
     (''error'', ''Er''), (''id'', ''Id''), (''code'', ''Cd''), (''message'', ''Msg''),
     (''data'', ''Dt''), (''envelope'', ''Env''), (''sender'', ''Snd''), (''recipient'', ''Rcp''),
     (''payload'', ''Pld''), (''payload_type'', ''Pt''), (''task_id'', ''Ta''), (''status'', ''St''),
     (''trace_id'', ''Tr''), (''timestamp'', ''Ts''), (''nonce'', ''Nc''), (''version'', ''Vr''),
     (''description'', ''Ds''), (''idempotency_key'', ''Ik''), (''asap.message'', ''Am''), (''2.0'', ''V2''),
     (''task.request'', ''Treq''), (''task.response'', ''Tres''), (''task.status'', ''Tst''), (''task.cancel'', ''Tcn''),
     (''heartbeat'', ''Hb''), (''success'', ''Ok''), (''pending'', ''Pn''), (''running'', ''Rn''),
     (''completed'', ''Cp''), (''failed'', ''Fl''), (''cancelled'', ''Cx'')]"

definition ENCODE_MAP :: "(code_points \<times> code_points) list" where
  "ENCODE_MAP = map (\<lambda>(k, v). (34 # cps k @ [34], SECTION_SIGN # cps v @ [SECTION_SIGN])) ENCODE_TOKENS"

definition DECODE_MAP :: "(code_points \<times> code_points) list" where
  "DECODE_MAP = map (\<lambda>(k, v). (v, k)) ENCODE_MAP"

definition lambda_encode :: "code_points \<Rightarrow> code_points" where
  "lambda_encode json_str = VERSION_PREFIX @ sub_all ENCODE_MAP json_str"

definition lambda_decode :: "code_points \<Rightarrow> py_exn + code_points" where
  "lambda_decode encoded =
     (if \<not> cp_prefix VERSION_PREFIX encoded then Inl (ValueError ''Invalid Lambda codec format: missing version prefix'')
      else Inr (sub_all DECODE_MAP (drop (length VERSION_PREFIX) encoded)))"

subsection \<open>Codecs with delimited atoms\<close>

text \<open>What makes such a table invertible: non-empty tokens, and distinct atoms enclosed by a sign that occurs
  neither inside them nor in the text.\<close>

locale delimited_table =
  fixes tbl :: "(code_points \<times> code_points) list" and d :: nat
  assumes tokens: "\<And>k v. (k, v) \<in> set tbl \<Longrightarrow> k \<noteq> []"
    and atoms: "\<And>k v. (k, v) \<in> set tbl \<Longrightarrow> \<exists>b. v = d # b @ [d] \<and> d \<notin> set b"
    and atoms_distinct: "distinct (map snd tbl)"
begin

lemma atom_prefix_unique:
  assumes "(k, v) \<in> set tbl" "(k', v') \<in> set tbl" "cp_prefix v' (v @ s)"
  shows "v' = v \<and> k' = k"
proof -
  obtain b b' where b: "v = d # b @ [d]" "d \<notin> set b" "v' = d # b' @ [d]" "d \<notin> set b'"
    using atoms assms(1,2) by blast
  from assms(3) have "\<exists>r. v @ s = v' @ r" unfolding cp_prefix_def by (metis append_take_drop_id)
  then obtain r where "b @ d # s = b' @ d # r" using b by auto
  from separated_eq [OF b(2,4) this] b have "v' = v" by simp
  moreover from this have "k' = k"
    using atoms_distinct assms(1,2) unfolding distinct_map by (metis inj_onD prod.inject snd_conv)
  ultimately show ?thesis by simp
qed

definition inv_tbl :: "(code_points \<times> code_points) list" where
  "inv_tbl = map (\<lambda>(k, v). (v, k)) tbl"

lemma find_atom:
  assumes "(k, v) \<in> set tbl"
  shows "find (\<lambda>(v', k'). cp_prefix v' (v @ s)) inv_tbl = Some (v, k)"
proof -
  have "cp_prefix v (v @ s)" by (simp add: cp_prefix_def)
  with assms have "\<exists>x \<in> set inv_tbl. case x of (v', k') \<Rightarrow> cp_prefix v' (v @ s)"
    by (auto simp: inv_tbl_def intro!: bexI [of _ "(k, v)"])
  then obtain p where p: "find (\<lambda>(v', k'). cp_prefix v' (v @ s)) inv_tbl = Some p"
    by (cases "find (\<lambda>(v', k'). cp_prefix v' (v @ s)) inv_tbl") (auto simp: find_None_iff)
  then obtain k' v' where "p = (v', k')" "(k', v') \<in> set tbl" "cp_prefix v' (v @ s)"
    by (auto simp: find_Some_iff inv_tbl_def) (metis (mono_tags, lifting) case_prod_conv nth_map nth_mem surj_pair)
  with atom_prefix_unique [OF assms] p show ?thesis by blast
qed

lemma find_no_atom: "c \<noteq> d \<Longrightarrow> find (\<lambda>(v', k'). cp_prefix v' (c # s)) inv_tbl = None"
  by (auto simp: find_None_iff inv_tbl_def cp_prefix_def dest!: atoms)

lemma decode_atom:
  assumes "(k, v) \<in> set tbl"
  shows "sub_all inv_tbl (v @ s) = k @ sub_all inv_tbl s"
proof -
  obtain b where b: "v = d # b @ [d]" using atoms [OF assms] by blast
  with find_atom [OF assms, of s] show ?thesis by simp
qed

theorem decode_encode: "d \<notin> set s \<Longrightarrow> sub_all inv_tbl (sub_all tbl s) = s"
proof (induction "length s" arbitrary: s rule: less_induct)
  case less
  show ?case
  proof (cases s)
    case (Cons c r)
    show ?thesis
    proof (cases "find (\<lambda>(k, v). cp_prefix k (c # r)) tbl")
      case None
      with less.prems less.hyps [of r] Cons find_no_atom show ?thesis by simp
    next
      case (Some p)
      obtain k v where p: "p = (k, v)" by (cases p)
      from Some p have kv: "(k, v) \<in> set tbl" and pre: "cp_prefix k (c # r)"
        by (auto simp: find_Some_iff in_set_conv_nth)
      have k: "k \<noteq> []" "take (length k) s = k" using tokens [OF kv] pre Cons by (auto simp: cp_prefix_def)
      have "drop (length k - 1) r = drop (length k) s" using k(1) Cons by (cases k) auto
      moreover have "length (drop (length k) s) < length s" "d \<notin> set (drop (length k) s)"
        using k less.prems Cons by (auto dest: in_set_dropD)
      ultimately have "sub_all inv_tbl (sub_all tbl s) = k @ drop (length k) s"
        using Some p Cons less.hyps [of "drop (length k) s"] decode_atom [OF kv] by simp
      also have "\<dots> = s" using k(2) append_take_drop_id [of "length k" s] by simp
      finally show ?thesis .
    qed
  qed simp
qed

end

interpretation lambda: delimited_table ENCODE_MAP SECTION_SIGN
proof
  fix k v assume "(k, v) \<in> set ENCODE_MAP"
  then show "k \<noteq> []" by (auto simp: ENCODE_MAP_def)
next
  fix k v assume kv: "(k, v) \<in> set ENCODE_MAP"
  have "\<forall>(t, a) \<in> set ENCODE_TOKENS. SECTION_SIGN \<notin> set (cps a)"
    by (simp add: ENCODE_TOKENS_def SECTION_SIGN_def cps_def)
  with kv show "\<exists>b. v = SECTION_SIGN # b @ [SECTION_SIGN] \<and> SECTION_SIGN \<notin> set b"
    by (auto simp: ENCODE_MAP_def)
next
  show "distinct (map snd ENCODE_MAP)"
    by (simp add: ENCODE_MAP_def ENCODE_TOKENS_def SECTION_SIGN_def cps_def)
qed

lemma lambda_back: "lambda.inv_tbl = DECODE_MAP"
  by (simp add: lambda.inv_tbl_def DECODE_MAP_def)

subsection \<open>Properties\<close>

text \<open>C35: decoding an encoded text gives the text back, for every text without a section sign.\<close>

theorem lambda_round_trip:
  "SECTION_SIGN \<notin> set s \<Longrightarrow> lambda_decode (lambda_encode s) = Inr s"
  using lambda.decode_encode [of s]
  by (simp add: lambda_decode_def lambda_encode_def cp_prefix_def lambda_back)

text \<open>A section sign is a legal character of a JSON string, and a text that spells an atom is decoded to
  something else: here a string value turns into two tokens.\<close>

lemma lambda_corrupts_atoms:
  "let s = 34 # [SECTION_SIGN] @ cps ''Id'' @ [SECTION_SIGN, 34]
   in lambda_decode (lambda_encode s) = Inr (34 # cps (CHR 0x22 # ''id'') @ [34, 34])"
  by (simp add: lambda_decode_def lambda_encode_def cp_prefix_def DECODE_MAP_def ENCODE_MAP_def ENCODE_TOKENS_def
      SECTION_SIGN_def cps_def VERSION_PREFIX_def)

theorem lambda_round_trip_witness:
  "lambda_decode (lambda_encode (cps (CHR 0x22 # ''id'' @ [CHR 0x22] @ '':1''))) = Inr (cps (CHR 0x22 # ''id'' @ [CHR 0x22] @ '':1''))"
  by (rule lambda_round_trip) (simp add: cps_def SECTION_SIGN_def)

end
