(* ===== verification/Rpc_Base.thy ===== *)
theory Rpc_Base
  imports Errors Envelope Lambda_Codec
begin

text \<open>
  The JSON-RPC layer: error codes and message models (\<open>src/asap/transport/jsonrpc.py\<close>), payload compression
  (\<open>src/asap/transport/compression.py\<close>) and the middleware around the endpoint
  (\<open>src/asap/transport/middleware.py\<close>): bearer authentication, the size limit, version negotiation
  and the answer to a rate limit. A byte string is a list of \<^typ>\<open>char\<close>. The compression libraries, with the exceptions
  they raise, are the record \<open>codec_lib\<close>; \<open>None\<close> for Brotli means the package is not installed.
\<close>

subsection \<open>JSON-RPC\<close>

definition PARSE_ERROR :: int where "PARSE_ERROR = -32700"
definition INVALID_REQUEST :: int where "INVALID_REQUEST = -32600"
definition METHOD_NOT_FOUND :: int where "METHOD_NOT_FOUND = -32601"
definition INVALID_PARAMS :: int where "INVALID_PARAMS = -32602"
definition INTERNAL_ERROR :: int where "INTERNAL_ERROR = -32603"
definition VERSION_INCOMPATIBLE :: int where "VERSION_INCOMPATIBLE = -32000"
definition ASAP_METHOD :: string where "ASAP_METHOD = ''asap.send''"

definition ERROR_MESSAGES :: "(int, string) dict" where
  "ERROR_MESSAGES =
    [(PARSE_ERROR, ''Parse error''), (INVALID_REQUEST, ''Invalid request''), (METHOD_NOT_FOUND, ''Method not found''),
     (INVALID_PARAMS, ''Invalid params''), (INTERNAL_ERROR, ''Internal error''),
     (VERSION_INCOMPATIBLE, ''ASAP protocol version incompatible'')]"

record jsonrpc_error =
  je_code :: int
  je_message :: string
  je_data :: "pydict option"

definition jsonrpc_error_from_code :: "int \<Rightarrow> pydict option \<Rightarrow> jsonrpc_error" where
  "jsonrpc_error_from_code code data =
     \<lparr>je_code = code, je_message = (case map_of ERROR_MESSAGES code of None \<Rightarrow> ''Unknown error'' | Some m \<Rightarrow> m), je_data = data\<rparr>"

text \<open>The identifier of a request, \<open>str | int\<close>. Pydantic takes a Boolean or an integral float for an integer.\<close>

datatype rpc_id = IdStr string | IdInt int

fun coerce_id :: "pyval \<Rightarrow> rpc_id option" where
  "coerce_id (PStr s) = Some (IdStr s)"
| "coerce_id (PInt i) = Some (IdInt i)"
| "coerce_id (PBool b) = Some (IdInt (if b then 1 else 0))"
| "coerce_id (PFloat (Fin r)) = (if of_int (floor r) = r then Some (IdInt (floor r)) else None)"
| "coerce_id _ = None"

record jsonrpc_request =
  jr_method :: string
  jr_params :: pydict
  jr_id :: rpc_id

text \<open>\<open>JsonRpcRequest(**body)\<close>: the fields are typed and no other key is allowed.\<close>

definition parse_jsonrpc_request :: "pydict \<Rightarrow> jsonrpc_request option" where
  "parse_jsonrpc_request body =
     (if set (map fst body) \<subseteq> {''jsonrpc'', ''method'', ''params'', ''id''} \<and>
         (map_of body ''jsonrpc'' = None \<or> map_of body ''jsonrpc'' = Some (PStr ''2.0''))
      then (case (map_of body ''method'', map_of body ''params'', map_of body ''id'') of
              (Some (PStr m), Some (PDict p), Some i) \<Rightarrow>
                map_option (\<lambda>j. \<lparr>jr_method = m, jr_params = p, jr_id = j\<rparr>) (coerce_id i)
            | _ \<Rightarrow> None)
      else None)"

subsection \<open>Answers\<close>

datatype reply_body =
    ErrorBody jsonrpc_error "rpc_id option"
  | ResultBody envelope rpc_id
  | LambdaBody envelope rpc_id
  | PlainBody pydict

record reply =
  rp_status :: int
  rp_headers :: "(string \<times> string) list"
  rp_body :: reply_body

subsection \<open>Compression\<close>

type_synonym bytes = string

datatype codec_exn = CodecValueError string | CodecOSError string | CodecEOFError string | CodecZlibError string

record brotli_codec =
  br_compress :: "bytes \<Rightarrow> string + bytes"
  br_decompress :: "bytes \<Rightarrow> string + bytes"

record codec_lib =
  cl_gzip_compress :: "bytes \<Rightarrow> string + bytes"
  cl_gzip_decompress :: "bytes \<Rightarrow> codec_exn + bytes"
  cl_brotli :: "brotli_codec option"

datatype compression_algorithm = GZIP | BROTLI | IDENTITY

definition COMPRESSION_THRESHOLD :: int where
  "COMPRESSION_THRESHOLD = 1024"

fun algorithm_value :: "compression_algorithm \<Rightarrow> string" where
  "algorithm_value GZIP = ''gzip''"
| "algorithm_value BROTLI = ''br''"
| "algorithm_value IDENTITY = ''identity''"

definition is_brotli_available :: "codec_lib \<Rightarrow> bool" where
  "is_brotli_available cl \<longleftrightarrow> cl_brotli cl \<noteq> None"

definition get_supported_encodings :: "codec_lib \<Rightarrow> string list" where
  "get_supported_encodings cl = (if is_brotli_available cl then [''br'', ''gzip''] else [''gzip''])"

definition get_accept_encoding_header :: "codec_lib \<Rightarrow> string" where
  "get_accept_encoding_header cl = str_join '', '' (get_supported_encodings cl @ [''identity''])"

text \<open>Using a compressor: an exception of it, or a result that is not shorter, leaves the data as it is.\<close>

definition keep_if_smaller :: "compression_algorithm \<Rightarrow> bytes \<Rightarrow> string + bytes \<Rightarrow> bytes \<times> compression_algorithm" where
  "keep_if_smaller alg data r =
     (case r of
        Inl x \<Rightarrow> (data, IDENTITY)
      | Inr compressed \<Rightarrow> if length compressed \<ge> length data then (data, IDENTITY) else (compressed, alg))"

definition compress_payload ::
  "codec_lib \<Rightarrow> bytes \<Rightarrow> compression_algorithm option \<Rightarrow> int \<Rightarrow> bool \<Rightarrow> bytes \<times> compression_algorithm" where
  "compress_payload cl data preferred threshold prefer_fast =
     (if int (length data) < threshold then (data, IDENTITY)
      else (let algorithm = (case preferred of Some a \<Rightarrow> a
                             | None \<Rightarrow> if prefer_fast \<or> \<not> is_brotli_available cl then GZIP else BROTLI)
            in case algorithm of
                 IDENTITY \<Rightarrow> (data, IDENTITY)
               | GZIP \<Rightarrow> keep_if_smaller GZIP data (cl_gzip_compress cl data)
               | BROTLI \<Rightarrow>
                   (case cl_brotli cl of
                      Some b \<Rightarrow> keep_if_smaller BROTLI data (br_compress b data)
                    | None \<Rightarrow> keep_if_smaller GZIP data (cl_gzip_compress cl data))))"

definition decompress_brotli :: "brotli_codec \<Rightarrow> bytes \<Rightarrow> codec_exn + bytes" where
  "decompress_brotli b data =
     (case br_decompress b data of
        Inl e \<Rightarrow> Inl (CodecOSError (''Brotli decompression failed: '' @ e))
      | Inr d \<Rightarrow> Inr d)"

definition decompress_payload :: "codec_lib \<Rightarrow> bytes \<Rightarrow> string \<Rightarrow> codec_exn + bytes" where
  "decompress_payload cl data encoding =
     (let enc = strip (lower encoding) in
      if enc = ''identity'' \<or> enc = [] then Inr data
      else if enc = ''gzip'' then cl_gzip_decompress cl data
      else if enc = ''br'' then
        (case cl_brotli cl of
           None \<Rightarrow> Inl (CodecValueError ''Brotli decompression requested but brotli package is not installed.'')
         | Some b \<Rightarrow> decompress_brotli b data)
      else Inl (CodecValueError (''Unsupported Content-Encoding: '' @ encoding)))"

subsection \<open>Authentication\<close>

definition HTTP_UNAUTHORIZED :: int where "HTTP_UNAUTHORIZED = 401"
definition HTTP_FORBIDDEN :: int where "HTTP_FORBIDDEN = 403"
definition HTTP_TOO_MANY_REQUESTS :: int where "HTTP_TOO_MANY_REQUESTS = 429"
definition ERROR_AUTH_REQUIRED :: string where "ERROR_AUTH_REQUIRED = ''Authentication required''"
definition ERROR_INVALID_TOKEN :: string where "ERROR_INVALID_TOKEN = ''Invalid authentication token''"
definition ERROR_SENDER_MISMATCH :: string where "ERROR_SENDER_MISMATCH = ''Sender does not match authenticated identity''"
definition ERROR_RATE_LIMIT_EXCEEDED :: string where "ERROR_RATE_LIMIT_EXCEEDED = ''Rate limit exceeded''"

text \<open>An exception on the request path: an \<open>HTTPException\<close>, an \<open>ASAPError\<close> other than a \<open>RemoteRPCError\<close>, a
  \<open>RemoteRPCError\<close>, or another exception with its type and text.\<close>

datatype exn = HttpExn int string | AsapExn asap_error | RemoteExn remote_error | OtherExn string string

text \<open>An exception that is an \<open>ASAPError\<close>, with its \<open>str\<close>.\<close>

fun asap_exn :: "exn \<Rightarrow> (asap_error \<times> string) option" where
  "asap_exn (AsapExn e) = Some (e, ae_message e)"
| "asap_exn (RemoteExn r) = Some (asap_error.truncate r, ''Remote error '' @ str_int (json_rpc_code r) @ '': '' @ ae_message r)"
| "asap_exn _ = None"

text \<open>\<open>type(e).__name__\<close> and \<open>str(e)\<close> of any exception.\<close>

fun exn_type :: "exn \<Rightarrow> string" where
  "exn_type (HttpExn status d) = ''HTTPException''"
| "exn_type (AsapExn e) = class_name (ae_class e)"
| "exn_type (RemoteExn r) = class_name (ae_class r)"
| "exn_type (OtherExn t x) = t"

fun exn_text :: "exn \<Rightarrow> string" where
  "exn_text (HttpExn status d) = str_int status @ '': '' @ d"
| "exn_text (AsapExn e) = ae_message e"
| "exn_text (RemoteExn r) = ''Remote error '' @ str_int (json_rpc_code r) @ '': '' @ ae_message r"
| "exn_text (OtherExn t x) = x"

text \<open>An exception of the standard library as one of the request path.\<close>

fun lift_exn :: "py_exn \<Rightarrow> exn" where
  "lift_exn (KeyError x) = OtherExn ''KeyError'' x"
| "lift_exn (ValueError x) = OtherExn ''ValueError'' x"
| "lift_exn TypeError = OtherExn ''TypeError'' []"
| "lift_exn AttributeError = OtherExn ''AttributeError'' []"
| "lift_exn OverflowError = OtherExn ''OverflowError'' []"
| "lift_exn (RuntimeError x) = OtherExn ''RuntimeError'' x"

subsection \<open>Envelopes from JSON\<close>

text \<open>The validator that runs before the fields: \<open>pt.lower()\<close> on a payload type that is no string raises
  \<open>AttributeError\<close>, which pydantic does not turn into a validation error.\<close>

definition parse_payload_from_dict :: "pydict \<Rightarrow> exn + unit" where
  "parse_payload_from_dict data =
     (case (map_of data ''payload'', map_of data ''payload_type'') of
        (Some (PDict p), Some t) \<Rightarrow>
          (case t of
             PStr s \<Rightarrow> Inr ()
           | _ \<Rightarrow> if py_truthy t then Inl (OtherExn ''AttributeError'' (''object has no attribute lower'')) else Inr ())
      | _ \<Rightarrow> Inr ())"

text \<open>\<open>Envelope(**data)\<close>: that validator, the fields (pydantic, \<open>field_check\<close>), then the validators that run after them, whose
  \<open>ValueError\<close> pydantic reports (\<open>report\<close>).\<close>

definition envelope_from_dict ::
  "(pydict \<Rightarrow> pyval + envelope) \<Rightarrow> (py_exn \<Rightarrow> pyval) \<Rightarrow> string \<Rightarrow> datetime \<Rightarrow> pydict \<Rightarrow> exn + (pyval + envelope)" where
  "envelope_from_dict field_check report new_id now data =
     (case parse_payload_from_dict data of
        Inl x \<Rightarrow> Inl x
      | Inr u \<Rightarrow>
          (case field_check data of
             Inl errs \<Rightarrow> Inr (Inl errs)
           | Inr raw \<Rightarrow>
               (case make_envelope new_id now raw of
                  Inl x \<Rightarrow> Inr (Inl (report x))
                | Inr e \<Rightarrow> Inr (Inr e))))"

subsection \<open>The bearer middleware\<close>

text \<open>What the middleware reads of the manifest: its identifier and the authentication schemes, if any.\<close>

record manifest =
  mf_id :: string
  mf_auth_schemes :: "string list option"

text \<open>The middleware: the manifest and the application's token validator.\<close>

record auth_middleware =
  am_manifest :: manifest
  am_validator :: "(string \<Rightarrow> exn + string option) option"

definition auth_middleware_init :: "manifest \<Rightarrow> (string \<Rightarrow> exn + string option) option \<Rightarrow> py_exn + auth_middleware" where
  "auth_middleware_init m v =
     (if mf_auth_schemes m \<noteq> None \<and> v = None
      then Inl (ValueError ''Token validator required when authentication is configured in manifest'')
      else Inr \<lparr>am_manifest = m, am_validator = v\<rparr>)"

definition is_auth_required :: "auth_middleware \<Rightarrow> bool" where
  "is_auth_required am \<longleftrightarrow> mf_auth_schemes (am_manifest am) \<noteq> None"

definition supports_bearer_auth :: "auth_middleware \<Rightarrow> bool" where
  "supports_bearer_auth am =
     (case mf_auth_schemes (am_manifest am) of None \<Rightarrow> False | Some schemes \<Rightarrow> ''bearer'' \<in> set schemes)"

text \<open>\<open>credentials\<close> is what FastAPI's \<open>HTTPBearer\<close> extracts from the header: scheme and token.\<close>

definition verify_authentication :: "auth_middleware \<Rightarrow> (string \<times> string) option \<Rightarrow> exn + string option" where
  "verify_authentication am credentials =
     (if \<not> is_auth_required am then Inr None
      else (case credentials of
              None \<Rightarrow> Inl (HttpExn HTTP_UNAUTHORIZED ERROR_AUTH_REQUIRED)
            | Some (scheme, token) \<Rightarrow>
                if lower scheme \<noteq> ''bearer'' then Inl (HttpExn HTTP_UNAUTHORIZED ERROR_INVALID_TOKEN)
                else if \<not> supports_bearer_auth am then Inl (HttpExn HTTP_UNAUTHORIZED ERROR_INVALID_TOKEN)
                else (case am_validator am of
                        None \<Rightarrow> Inl (OtherExn ''RuntimeError'' ''Token validator is None but authentication is required.'')
                      | Some validate \<Rightarrow>
                          (case validate token of
                             Inl x \<Rightarrow> Inl x
                           | Inr None \<Rightarrow> Inl (HttpExn HTTP_UNAUTHORIZED ERROR_INVALID_TOKEN)
                           | Inr (Some agent_id) \<Rightarrow> Inr (Some agent_id)))))"

definition verify_sender_matches_auth :: "string option \<Rightarrow> string \<Rightarrow> exn + unit" where
  "verify_sender_matches_auth authenticated_agent_id envelope_sender =
     (case authenticated_agent_id of
        None \<Rightarrow> Inr ()
      | Some a \<Rightarrow> if envelope_sender \<noteq> a then Inl (HttpExn HTTP_FORBIDDEN ERROR_SENDER_MISMATCH) else Inr ())"

subsection \<open>Size limit and version negotiation\<close>

definition size_exceeded_reply :: "int \<Rightarrow> int \<Rightarrow> reply" where
  "size_exceeded_reply n max_size =
     \<lparr>rp_status = 413, rp_headers = [], rp_body = PlainBody [(''detail'',
        PStr (''Request size ('' @ str_int n @ '' bytes) exceeds maximum ('' @ str_int max_size @ '' bytes)''))]\<rparr>"

definition size_limit_init :: "int \<Rightarrow> py_exn + int" where
  "size_limit_init max_size =
     (if max_size < 1 then Inl (ValueError (''max_size must be >= 1, got '' @ str_int max_size)) else Inr max_size)"

definition size_limit_dispatch :: "int \<Rightarrow> string option \<Rightarrow> ('s \<Rightarrow> reply \<times> 's) \<Rightarrow> 's \<Rightarrow> reply \<times> 's" where
  "size_limit_dispatch max_size content_length call_next s =
     (case content_length of
        None \<Rightarrow> call_next s
      | Some h \<Rightarrow>
          if h = [] then call_next s
          else (case parse_int h of
                  None \<Rightarrow> call_next s
                | Some n \<Rightarrow> if n > max_size then (size_exceeded_reply n max_size, s) else call_next s))"

definition ASAP_VERSION_HEADER :: string where "ASAP_VERSION_HEADER = ''ASAP-Version''"
definition ASAP_DEFAULT_TRANSPORT_VERSION :: string where "ASAP_DEFAULT_TRANSPORT_VERSION = ''2.2''"
definition ASAP_SUPPORTED_TRANSPORT_VERSIONS :: "string list" where
  "ASAP_SUPPORTED_TRANSPORT_VERSIONS = [''2.1'', ''2.2'']"
definition ASAP_VERSION_NEGOTIATION_PATHS :: "string list" where
  "ASAP_VERSION_NEGOTIATION_PATHS = [''/asap'', ''/asap/stream'']"

definition first_supported_transport_version :: "string \<Rightarrow> string option" where
  "first_supported_transport_version header =
     find (\<lambda>t. t \<in> set ASAP_SUPPORTED_TRANSPORT_VERSIONS) (map strip (split_char (CHR '','') header))"

definition set_version :: "string \<Rightarrow> reply \<Rightarrow> reply" where
  "set_version v r = r\<lparr>rp_headers := AList.update ASAP_VERSION_HEADER v (rp_headers r)\<rparr>"

definition version_incompatible_reply :: "string \<Rightarrow> reply" where
  "version_incompatible_reply requested =
     \<lparr>rp_status = 200, rp_headers = [],
      rp_body = ErrorBody (jsonrpc_error_from_code VERSION_INCOMPATIBLE
        (Some [(''requested'', PStr requested), (''supported'', PList (map PStr ASAP_SUPPORTED_TRANSPORT_VERSIONS))])) None\<rparr>"

text \<open>\<open>negotiated\<close>: \<open>Inl\<close> the requested text when no version is supported, \<open>Inr\<close> the version of the answer.\<close>

definition negotiate_version :: "string \<Rightarrow> string \<Rightarrow> string option \<Rightarrow> string + string" where
  "negotiate_version http_method path header =
     (if http_method = ''POST'' \<and> path \<in> set ASAP_VERSION_NEGOTIATION_PATHS then
        (case header of
           None \<Rightarrow> Inr ASAP_DEFAULT_TRANSPORT_VERSION
         | Some raw \<Rightarrow>
             if strip raw = [] then Inr ASAP_DEFAULT_TRANSPORT_VERSION
             else (case first_supported_transport_version (strip raw) of
                     None \<Rightarrow> Inl (strip raw) | Some v \<Rightarrow> Inr v))
      else Inr ASAP_DEFAULT_TRANSPORT_VERSION)"

definition version_dispatch ::
  "string \<Rightarrow> string \<Rightarrow> string option \<Rightarrow> ('s \<Rightarrow> reply \<times> 's) \<Rightarrow> 's \<Rightarrow> reply \<times> 's" where
  "version_dispatch http_method path header call_next s =
     (case negotiate_version http_method path header of
        Inl requested \<Rightarrow> (set_version ASAP_DEFAULT_TRANSPORT_VERSION (version_incompatible_reply requested), s)
      | Inr v \<Rightarrow> (case call_next s of (r, s') \<Rightarrow> (set_version v r, s')))"

subsection \<open>The answer to an exceeded rate limit\<close>

text \<open>The exception: none when the handler got another exception than \<open>RateLimitExceeded\<close>, else its
  \<open>retry_after\<close> and \<open>limit\<close>; \<open>request_id\<close> is what the request state carries.\<close>

record rate_limit_exn =
  rle_retry_after :: "pyval"
  rle_limit :: "string"

definition rate_limit_handler :: "string \<Rightarrow> pyval \<Rightarrow> rate_limit_exn option \<Rightarrow> reply" where
  "rate_limit_handler default_limit request_id ex =
     (let err = [(''code'', PInt HTTP_TOO_MANY_REQUESTS), (''message'', PStr ERROR_RATE_LIMIT_EXCEEDED)];
          body = (\<lambda>e. PlainBody [(''jsonrpc'', PStr ''2.0''), (''id'', request_id), (''error'', PDict e)])
      in case ex of
           None \<Rightarrow> \<lparr>rp_status = HTTP_TOO_MANY_REQUESTS, rp_headers = [], rp_body = body err\<rparr>
         | Some x \<Rightarrow>
             (let retry = (if rle_retry_after x = PNone then 60
                           else (case py_int (rle_retry_after x) of Inl _ \<Rightarrow> 60 | Inr n \<Rightarrow> n));
                  limit_str = (if rle_limit x \<noteq> [] then rle_limit x else default_limit)
              in \<lparr>rp_status = HTTP_TOO_MANY_REQUESTS, rp_headers = [(''Retry-After'', str_int retry)],
                  rp_body = body (err @ [(''data'', PDict [(''retry_after'', PInt retry), (''limit'', PStr limit_str)])])\<rparr>))"

subsection \<open>Lemmas\<close>

lemma keep_if_smaller_cases:
  "keep_if_smaller alg data r = (data, IDENTITY) \<or>
     (\<exists>c. r = Inr c \<and> length c < length data \<and> keep_if_smaller alg data r = (c, alg))"
  by (auto simp: keep_if_smaller_def split: sum.splits)

lemma algorithm_value_normal [simp]: "strip (lower (algorithm_value a)) = algorithm_value a"
  by (cases a) (simp_all add: lower_def lower_char_def strip_def lstrip_def rstrip_def py_space_def)

lemma verify_authentication_sound:
  assumes "verify_authentication am credentials = Inr auth" "is_auth_required am"
  obtains scheme token agent_id validate where "credentials = Some (scheme, token)" "lower scheme = ''bearer''"
    "am_validator am = Some validate" "validate token = Inr (Some agent_id)" "auth = Some agent_id"
  using assms
  by (auto simp: verify_authentication_def split: option.splits if_splits prod.splits sum.splits)

lemma verify_authentication_none: "\<not> is_auth_required am \<Longrightarrow> verify_authentication am credentials = Inr None"
  by (simp add: verify_authentication_def)

lemma verify_sender_iff:
  "verify_sender_matches_auth auth s = Inr () \<longleftrightarrow> (\<forall>a. auth = Some a \<longrightarrow> s = a)"
  by (auto simp: verify_sender_matches_auth_def split: option.splits)

lemma negotiated_supported:
  "negotiate_version m p h = Inr v \<Longrightarrow> v \<in> set ASAP_SUPPORTED_TRANSPORT_VERSIONS"
  by (auto simp: negotiate_version_def ASAP_DEFAULT_TRANSPORT_VERSION_def ASAP_SUPPORTED_TRANSPORT_VERSIONS_def
      first_supported_transport_version_def find_Some_iff split: if_splits option.splits)

end
