(* ===== verification/Metering.thy ===== *)
theory Metering
  imports Errors Envelope
begin

text \<open>
  Usage metering: the hook that turns a finished task into a usage event (\<open>src/asap/economics/hooks.py\<close>), the
  store the dispatcher records into (\<open>src/asap/state/metering.py\<close>), the metering storage behind the usage
  API with its queries, aggregates and retention (\<open>src/asap/economics/storage.py\<close>,
  \<open>src/asap/economics/metering.py\<close>), and the bridge between the two. Times are UTC. The labels of the day and the week of
  a time (\<open>date.isoformat\<close>, \<open>isocalendar\<close>) are the parameter \<open>period_key\<close>. The SQLite storage is not modelled.
\<close>

subsection \<open>Usage events\<close>

record state_usage_metrics =
  sm_tokens_in :: int
  sm_tokens_out :: int
  sm_duration_ms :: int
  sm_api_calls :: int

record usage_event =
  ue_task_id :: string
  ue_agent_id :: string
  ue_consumer_id :: string
  ue_metrics :: state_usage_metrics
  ue_timestamp :: datetime

record usage_metrics =
  um_task_id :: string
  um_agent_id :: string
  um_consumer_id :: string
  um_tokens_in :: int
  um_tokens_out :: int
  um_duration_ms :: int
  um_api_calls :: int
  um_timestamp :: datetime

definition to_usage_event :: "usage_metrics \<Rightarrow> usage_event" where
  "to_usage_event m =
     \<lparr>ue_task_id = um_task_id m, ue_agent_id = um_agent_id m, ue_consumer_id = um_consumer_id m,
      ue_metrics = \<lparr>sm_tokens_in = um_tokens_in m, sm_tokens_out = um_tokens_out m,
                    sm_duration_ms = um_duration_ms m, sm_api_calls = um_api_calls m\<rparr>,
      ue_timestamp = um_timestamp m\<rparr>"

definition from_usage_event :: "usage_event \<Rightarrow> usage_metrics" where
  "from_usage_event e =
     \<lparr>um_task_id = ue_task_id e, um_agent_id = ue_agent_id e, um_consumer_id = ue_consumer_id e,
      um_tokens_in = sm_tokens_in (ue_metrics e), um_tokens_out = sm_tokens_out (ue_metrics e),
      um_duration_ms = sm_duration_ms (ue_metrics e), um_api_calls = sm_api_calls (ue_metrics e),
      um_timestamp = ue_timestamp e\<rparr>"

subsection \<open>The hook\<close>

text \<open>\<open>bool\<close> is a subclass of \<open>int\<close>. The \<open>OverflowError\<close> of \<open>int\<close> on an infinite float is not caught.\<close>

definition non_negative_int :: "pyval \<Rightarrow> py_exn + int" where
  "non_negative_int v =
     (case py_int v of
        Inl OverflowError \<Rightarrow> Inl OverflowError
      | Inl x \<Rightarrow> Inr 0
      | Inr n \<Rightarrow> Inr (if 0 \<le> n then n else 0))"

fun safe_int :: "pyval option \<Rightarrow> py_exn + int" where
  "safe_int None = Inr 0"
| "safe_int (Some (PBool b)) = Inr (if b then 1 else 0)"
| "safe_int (Some (PInt i)) = Inr (if 0 \<le> i then i else 0)"
| "safe_int (Some (PFloat x)) = non_negative_int (PFloat x)"
| "safe_int (Some (PStr s)) = non_negative_int (PStr s)"
| "safe_int (Some _) = Inr 0"

text \<open>\<open>round\<close>: half to even.\<close>

definition py_round :: "rat \<Rightarrow> int" where
  "py_round r = (let f = floor (r + 1/2) in if r + 1/2 = of_int f \<and> odd f then f - 1 else f)"

text \<open>The counts a response reports: tokens in, tokens out (the total if none are reported) and calls.\<close>

definition reported_counts :: "pydict \<Rightarrow> py_exn + int \<times> int \<times> int" where
  "reported_counts p =
     (case map_of p ''metrics'' of
        Some (PDict d) \<Rightarrow>
          (case safe_int (map_of d ''tokens_in'') of
             Inl x \<Rightarrow> Inl x
           | Inr tokens_in \<Rightarrow>
               (case (case safe_int (map_of d ''tokens_out'') of Inl x \<Rightarrow> Inl x | Inr n \<Rightarrow> if n = 0 then safe_int (map_of d ''tokens_used'') else Inr n) of
                  Inl x \<Rightarrow> Inl x
                | Inr tokens_out \<Rightarrow> map_sum id (\<lambda>calls. (tokens_in, tokens_out, calls)) (safe_int (map_of d ''api_calls''))))
      | _ \<Rightarrow> Inr (0, 0, 0))"

definition task_usage ::
  "(pyval \<Rightarrow> string) \<Rightarrow> datetime \<Rightarrow> string \<Rightarrow> rat \<Rightarrow> envelope \<Rightarrow> pyval \<Rightarrow> int \<times> int \<times> int \<Rightarrow> usage_metrics" where
  "task_usage txt now agent_id duration_ms request task_id counts =
     (case counts of (tokens_in, tokens_out, calls) \<Rightarrow>
        (let dur = py_round duration_ms
         in \<lparr>um_task_id = py_str txt task_id, um_agent_id = agent_id, um_consumer_id = sender request,
             um_tokens_in = tokens_in, um_tokens_out = tokens_out, um_duration_ms = (if dur < 0 then 0 else dur),
             um_api_calls = calls, um_timestamp = now\<rparr>))"

text \<open>The event recorded for a finished request, if any; the caller appends it to its store.\<close>

definition record_task_usage ::
  "(pyval \<Rightarrow> string) \<Rightarrow> datetime \<Rightarrow> string \<Rightarrow> rat \<Rightarrow> envelope \<Rightarrow> envelope \<Rightarrow> py_exn + usage_event option" where
  "record_task_usage txt now agent_id duration_ms request response =
     (if payload_type request \<noteq> ''task.request'' then Inr None
      else if payload_type response \<noteq> ''task.response'' then Inr None
      else (case map_of (payload response) ''task_id'' of
              None \<Rightarrow> Inr None
            | Some t \<Rightarrow> if \<not> py_truthy t then Inr None
                else map_sum id (\<lambda>counts. Some (to_usage_event (task_usage txt now agent_id duration_ms request t counts)))
                       (reported_counts (payload response))))"

subsection \<open>The store of the state layer\<close>

type_synonym metering_store = "usage_event list"

definition metering_record :: "usage_event \<Rightarrow> metering_store \<Rightarrow> metering_store" where
  "metering_record e s = s @ [e]"

definition metering_query ::
  "string \<Rightarrow> datetime \<Rightarrow> datetime \<Rightarrow> int option \<Rightarrow> int \<Rightarrow> metering_store \<Rightarrow> py_exn + usage_event list" where
  "metering_query agent_id start end_time limit offset s =
     (if offset < 0 then Inl (ValueError ''offset must be non-negative'')
      else (let out = sort_key ue_timestamp
                  (filter (\<lambda>e. ue_agent_id e = agent_id \<and> start \<le> ue_timestamp e \<and> ue_timestamp e \<le> end_time) s)
            in Inr (case limit of None \<Rightarrow> drop (nat offset) out | Some n \<Rightarrow> py_slice offset (offset + n) out)))"

record state_usage_aggregate =
  sa_agent_id :: string
  sa_period :: string
  sa_total_tokens :: int
  sa_total_duration :: int
  sa_total_tasks :: int
  sa_total_api_calls :: int

definition metering_aggregate :: "string \<Rightarrow> string \<Rightarrow> metering_store \<Rightarrow> state_usage_aggregate" where
  "metering_aggregate agent_id period s =
     (let es = filter (\<lambda>e. ue_agent_id e = agent_id) s in
      \<lparr>sa_agent_id = agent_id, sa_period = period,
       sa_total_tokens = sum_list (map (\<lambda>e. sm_tokens_in (ue_metrics e) + sm_tokens_out (ue_metrics e)) es),
       sa_total_duration = sum_list (map (\<lambda>e. sm_duration_ms (ue_metrics e)) es),
       sa_total_tasks = int (length es),
       sa_total_api_calls = sum_list (map (\<lambda>e. sm_api_calls (ue_metrics e)) es)\<rparr>)"

subsection \<open>The metering storage\<close>

text \<open>A query object; pydantic requires a limit of at least 1 and a non-negative offset.\<close>

record metering_filter =
  mq_agent_id :: "string option"
  mq_consumer_id :: "string option"
  mq_task_id :: "string option"
  mq_start :: "datetime option"
  mq_end :: "datetime option"
  mq_limit :: "nat option"
  mq_offset :: nat

definition usage_matches :: "usage_metrics \<Rightarrow> metering_filter \<Rightarrow> bool" where
  "usage_matches e f \<longleftrightarrow>
     (mq_agent_id f = None \<or> mq_agent_id f = Some (um_agent_id e)) \<and>
     (mq_consumer_id f = None \<or> mq_consumer_id f = Some (um_consumer_id e)) \<and>
     (mq_task_id f = None \<or> mq_task_id f = Some (um_task_id e)) \<and>
     (case mq_start f of None \<Rightarrow> True | Some t \<Rightarrow> um_timestamp e \<ge> t) \<and>
     (case mq_end f of None \<Rightarrow> True | Some t \<Rightarrow> um_timestamp e \<le> t)"

definition apply_query_filters :: "usage_metrics list \<Rightarrow> metering_filter \<Rightarrow> usage_metrics list" where
  "apply_query_filters events f =
     (let filtered = sort_key um_timestamp (filter (\<lambda>e. usage_matches e f) events);
          out = drop (mq_offset f) filtered
      in case mq_limit f of None \<Rightarrow> out | Some n \<Rightarrow> if n = 0 then out else take n out)"

text \<open>\<open>d.setdefault(key(e), []).append(e)\<close> for every event.\<close>

definition group_by :: "('e \<Rightarrow> 'k) \<Rightarrow> 'e list \<Rightarrow> ('k, 'e list) dict" where
  "group_by key es =
     fold (\<lambda>e d. AList.update (key e) ((case map_of d (key e) of None \<Rightarrow> [] | Some l \<Rightarrow> l) @ [e]) d) es []"

definition event_tokens :: "usage_metrics \<Rightarrow> int" where
  "event_tokens e = um_tokens_in e + um_tokens_out e"

definition unique_count :: "('e \<Rightarrow> string) \<Rightarrow> 'e list \<Rightarrow> int" where
  "unique_count key es = int (length (remdups (map key es)))"

text \<open>\<open>total / tasks if tasks else 0.0\<close>\<close>

definition average :: "int \<Rightarrow> int \<Rightarrow> rat" where
  "average amount tasks = (if tasks = 0 then 0 else of_int amount / of_int tasks)"

record usage_aggregate_by_agent =
  ag_agent_id :: string
  ag_period :: string
  ag_total_tokens :: int
  ag_total_duration_ms :: int
  ag_total_tasks :: int
  ag_total_api_calls :: int
  ag_avg_tokens_per_task :: rat
  ag_avg_duration_ms_per_task :: rat

definition agent_aggregate :: "string \<times> usage_metrics list \<Rightarrow> usage_aggregate_by_agent" where
  "agent_aggregate g =
     (case g of (agent_id, es) \<Rightarrow>
       (let tokens = sum_list (map event_tokens es); duration = sum_list (map um_duration_ms es); tasks = int (length es) in
        \<lparr>ag_agent_id = agent_id, ag_period = ''all'', ag_total_tokens = tokens, ag_total_duration_ms = duration,
         ag_total_tasks = tasks, ag_total_api_calls = sum_list (map um_api_calls es),
         ag_avg_tokens_per_task = average tokens tasks, ag_avg_duration_ms_per_task = average duration tasks\<rparr>))"

definition aggregate_by_agent :: "usage_metrics list \<Rightarrow> usage_aggregate_by_agent list" where
  "aggregate_by_agent events = sort_key ag_agent_id (map agent_aggregate (group_by um_agent_id events))"

record usage_aggregate_by_consumer =
  ac_consumer_id :: string
  ac_period :: string
  ac_total_tokens :: int
  ac_total_duration_ms :: int
  ac_total_tasks :: int
  ac_total_api_calls :: int
  ac_avg_tokens_per_task :: rat

definition consumer_aggregate :: "string \<times> usage_metrics list \<Rightarrow> usage_aggregate_by_consumer" where
  "consumer_aggregate g =
     (case g of (consumer_id, es) \<Rightarrow>
       (let tokens = sum_list (map event_tokens es); tasks = int (length es) in
        \<lparr>ac_consumer_id = consumer_id, ac_period = ''all'', ac_total_tokens = tokens,
         ac_total_duration_ms = sum_list (map um_duration_ms es), ac_total_tasks = tasks,
         ac_total_api_calls = sum_list (map um_api_calls es), ac_avg_tokens_per_task = average tokens tasks\<rparr>))"

definition aggregate_by_consumer :: "usage_metrics list \<Rightarrow> usage_aggregate_by_consumer list" where
  "aggregate_by_consumer events = sort_key ac_consumer_id (map consumer_aggregate (group_by um_consumer_id events))"

record usage_aggregate_by_period =
  ap_period :: string
  ap_total_tokens :: int
  ap_total_duration_ms :: int
  ap_total_tasks :: int
  ap_total_api_calls :: int
  ap_unique_agents :: int
  ap_unique_consumers :: int

definition period_aggregate :: "string \<times> usage_metrics list \<Rightarrow> usage_aggregate_by_period" where
  "period_aggregate g =
     (case g of (period, es) \<Rightarrow>
        \<lparr>ap_period = period, ap_total_tokens = sum_list (map event_tokens es),
         ap_total_duration_ms = sum_list (map um_duration_ms es), ap_total_tasks = int (length es),
         ap_total_api_calls = sum_list (map um_api_calls es),
         ap_unique_agents = unique_count um_agent_id es, ap_unique_consumers = unique_count um_consumer_id es\<rparr>)"

definition aggregate_by_period :: "(datetime \<Rightarrow> string) \<Rightarrow> usage_metrics list \<Rightarrow> usage_aggregate_by_period list" where
  "aggregate_by_period key events =
     sort_key ap_period (map period_aggregate (group_by (\<lambda>e. key (um_timestamp e)) events))"

datatype usage_aggregates =
    ByAgent "usage_aggregate_by_agent list"
  | ByConsumer "usage_aggregate_by_consumer list"
  | ByPeriod "usage_aggregate_by_period list"

definition dispatch_aggregate ::
  "(string \<Rightarrow> datetime \<Rightarrow> string) \<Rightarrow> usage_metrics list \<Rightarrow> string \<Rightarrow> py_exn + usage_aggregates" where
  "dispatch_aggregate period_key events grp =
     (if grp = ''agent'' then Inr (ByAgent (aggregate_by_agent events))
      else if grp = ''consumer'' then Inr (ByConsumer (aggregate_by_consumer events))
      else if grp = ''day'' \<or> grp = ''week'' then Inr (ByPeriod (aggregate_by_period (period_key grp) events))
      else Inl (ValueError ''group_by must be one of agent, consumer, day, week''))"

record usage_summary =
  us_total_tasks :: int
  us_total_tokens :: int
  us_total_duration_ms :: int
  us_unique_agents :: int
  us_unique_consumers :: int
  us_total_api_calls :: int

definition compute_summary :: "usage_metrics list \<Rightarrow> usage_summary" where
  "compute_summary events =
     (if events = [] then
        \<lparr>us_total_tasks = 0, us_total_tokens = 0, us_total_duration_ms = 0, us_unique_agents = 0,
         us_unique_consumers = 0, us_total_api_calls = 0\<rparr>
      else
        \<lparr>us_total_tasks = int (length events), us_total_tokens = sum_list (map event_tokens events),
         us_total_duration_ms = sum_list (map um_duration_ms events),
         us_unique_agents = unique_count um_agent_id events, us_unique_consumers = unique_count um_consumer_id events,
         us_total_api_calls = sum_list (map um_api_calls events)\<rparr>)"

record metering_storage =
  ms_events :: "usage_metrics list"
  ms_retention_ttl_seconds :: "int option"

definition ms_record :: "usage_metrics \<Rightarrow> metering_storage \<Rightarrow> metering_storage" where
  "ms_record m st = st\<lparr>ms_events := ms_events st @ [m]\<rparr>"

definition ms_query :: "metering_filter \<Rightarrow> metering_storage \<Rightarrow> usage_metrics list" where
  "ms_query f st = apply_query_filters (ms_events st) f"

text \<open>Aggregation and summary use the filter without its limit and offset.\<close>

definition selected_events :: "metering_filter option \<Rightarrow> metering_storage \<Rightarrow> usage_metrics list" where
  "selected_events filters st =
     (case filters of
        None \<Rightarrow> ms_events st
      | Some f \<Rightarrow> apply_query_filters (ms_events st) (f\<lparr>mq_limit := None, mq_offset := 0\<rparr>))"

definition ms_aggregate ::
  "(string \<Rightarrow> datetime \<Rightarrow> string) \<Rightarrow> string \<Rightarrow> metering_filter option \<Rightarrow> metering_storage \<Rightarrow> py_exn + usage_aggregates" where
  "ms_aggregate period_key grp filters st = dispatch_aggregate period_key (selected_events filters st) grp"

definition ms_summary :: "metering_filter option \<Rightarrow> metering_storage \<Rightarrow> usage_summary" where
  "ms_summary filters st = compute_summary (selected_events filters st)"

record storage_stats =
  st_total_events :: int
  st_oldest_timestamp :: "datetime option"
  st_retention_ttl_seconds :: "int option"

definition ms_stats :: "metering_storage \<Rightarrow> storage_stats" where
  "ms_stats st =
     (let es = ms_events st in
      if es = [] then \<lparr>st_total_events = 0, st_oldest_timestamp = None, st_retention_ttl_seconds = ms_retention_ttl_seconds st\<rparr>
      else \<lparr>st_total_events = int (length es), st_oldest_timestamp = Some (Min (set (map um_timestamp es))),
            st_retention_ttl_seconds = ms_retention_ttl_seconds st\<rparr>)"

text \<open>The cutoff is rounded down to a full second.\<close>

definition ms_purge_expired :: "datetime \<Rightarrow> metering_storage \<Rightarrow> nat \<times> metering_storage" where
  "ms_purge_expired now st =
     (case ms_retention_ttl_seconds st of
        None \<Rightarrow> (0, st)
      | Some ttl \<Rightarrow>
          (let c = now - ttl * 1000000; cutoff = c - c mod 1000000;
               kept = filter (\<lambda>e. um_timestamp e \<ge> cutoff) (ms_events st)
           in (length (ms_events st) - length kept, st\<lparr>ms_events := kept\<rparr>)))"

subsection \<open>The bridge\<close>

definition bridge_record :: "usage_event \<Rightarrow> metering_storage \<Rightarrow> metering_storage" where
  "bridge_record e st = ms_record (from_usage_event e) st"

text \<open>Building the query object fails for a limit below 1 and for a negative offset.\<close>

definition bridge_query ::
  "string \<Rightarrow> datetime \<Rightarrow> datetime \<Rightarrow> int option \<Rightarrow> int \<Rightarrow> metering_storage \<Rightarrow> py_exn + usage_event list" where
  "bridge_query agent_id start end_time limit offset st =
     (if offset < 0 \<or> (case limit of None \<Rightarrow> False | Some n \<Rightarrow> n < 1) then Inl (ValueError ''MeteringQuery'')
      else Inr (map to_usage_event (ms_query
        \<lparr>mq_agent_id = Some agent_id, mq_consumer_id = None, mq_task_id = None, mq_start = Some start,
         mq_end = Some end_time, mq_limit = map_option nat limit, mq_offset = nat offset\<rparr> st)))"

definition period_to_metering_query :: "datetime \<Rightarrow> string \<Rightarrow> string \<Rightarrow> metering_filter" where
  "period_to_metering_query now agent_id period =
     (let q = \<lparr>mq_agent_id = Some agent_id, mq_consumer_id = None, mq_task_id = None, mq_start = None,
               mq_end = None, mq_limit = None, mq_offset = 0\<rparr>
      in if period \<in> {''hour'', ''h''} then q\<lparr>mq_start := Some (now - 3600000000), mq_end := Some now\<rparr>
         else if period \<in> {''day'', ''d'', ''today''}
           then q\<lparr>mq_start := Some (now - now mod 86400000000), mq_end := Some now\<rparr>
         else if period \<in> {''week'', ''w''} then q\<lparr>mq_start := Some (now - 604800000000), mq_end := Some now\<rparr>
         else q)"

definition bridge_aggregate :: "datetime \<Rightarrow> string \<Rightarrow> string \<Rightarrow> metering_storage \<Rightarrow> state_usage_aggregate" where
  "bridge_aggregate now agent_id period st =
     (case find (\<lambda>a. ag_agent_id a = agent_id)
             (aggregate_by_agent (selected_events (Some (period_to_metering_query now agent_id period)) st)) of
        Some a \<Rightarrow> \<lparr>sa_agent_id = ag_agent_id a, sa_period = period, sa_total_tokens = ag_total_tokens a,
                   sa_total_duration = ag_total_duration_ms a, sa_total_tasks = ag_total_tasks a,
                   sa_total_api_calls = ag_total_api_calls a\<rparr>
      | None \<Rightarrow> \<lparr>sa_agent_id = agent_id, sa_period = period, sa_total_tokens = 0, sa_total_duration = 0,
                 sa_total_tasks = 0, sa_total_api_calls = 0\<rparr>)"

subsection \<open>Grouping\<close>

definition group_add :: "('e \<Rightarrow> 'k) \<Rightarrow> 'e \<Rightarrow> ('k, 'e list) dict \<Rightarrow> ('k, 'e list) dict" where
  "group_add key e d = AList.update (key e) ((case map_of d (key e) of None \<Rightarrow> [] | Some l \<Rightarrow> l) @ [e]) d"

lemma group_by_simps [simp]:
  "group_by key [] = []" "group_by key (es @ [e]) = group_add key e (group_by key es)"
  by (simp_all add: group_by_def group_add_def)

lemma group_by_wf: "wf_dict (group_by key es)"
  by (induction es rule: rev_induct) (simp_all add: group_add_def dict_simps)

lemma map_of_group_by:
  "map_of (group_by key es) k = (if k \<in> key ` set es then Some (filter (\<lambda>e. key e = k) es) else None)"
proof (induction es rule: rev_induct)
  case (snoc e es)
  have "filter (\<lambda>x. key x = key e) es = []" if "key e \<notin> key ` set es"
    using that by (auto simp: filter_empty_conv image_iff)
  with snoc show ?case by (auto simp: group_add_def dict_simps)
qed simp

lemma sum_groups_update:
  fixes f :: "'e list \<Rightarrow> int"
  shows "wf_dict d \<Longrightarrow> sum_list (map (\<lambda>g. f (snd g)) (AList.update k v d)) =
    sum_list (map (\<lambda>g. f (snd g)) d) + f v - (case map_of d k of None \<Rightarrow> 0 | Some w \<Rightarrow> f w)"
proof (induction d)
  case (Cons p d)
  have "map_of d (fst p) = None" using Cons.prems by (simp add: map_of_eq_None_iff)
  with Cons show ?case by (cases p) auto
qed simp

text \<open>Summing over the groups is summing over the events.\<close>

lemma sum_groups:
  fixes f :: "'e \<Rightarrow> int"
  shows "sum_list (map (\<lambda>g. sum_list (map f (snd g))) (group_by key es)) = sum_list (map f es)"
proof (induction es rule: rev_induct)
  case (snoc e es)
  then show ?case
    by (auto simp: group_add_def sum_groups_update [OF group_by_wf, where f = "\<lambda>l. sum_list (map f l)"] split: option.splits)
qed simp

lemma sum_group_lengths:
  "sum_list (map (\<lambda>g. int (length (snd g))) (group_by key es)) = int (length es)"
  using sum_groups [of "\<lambda>_. 1" key es] by (simp add: sum_list_triv)

lemma count_groups: "int (length (group_by key es)) = unique_count key es"
proof -
  have "length (group_by key es) = card (set (map fst (group_by key es)))"
    using distinct_card [OF group_by_wf [of key es]] by simp
  also have "set (map fst (group_by key es)) = key ` set es"
    unfolding keys_eq_dom by (simp add: dom_def map_of_group_by)
  also have "card (key ` set es) = length (remdups (map key es))" by (simp add: length_remdups_card_conv)
  finally show ?thesis by (simp add: unique_count_def)
qed

lemma sum_list_sort_key: "sum_list (map (f :: 'a \<Rightarrow> int) (sort_key k xs)) = sum_list (map f xs)"
  by (metis mset_map mset_sort sum_mset_sum_list)

lemma agent_aggregate_simps [simp]:
  "ag_agent_id (agent_aggregate g) = fst g" "ag_total_tokens (agent_aggregate g) = sum_list (map event_tokens (snd g))"
  "ag_total_duration_ms (agent_aggregate g) = sum_list (map um_duration_ms (snd g))"
  "ag_total_tasks (agent_aggregate g) = int (length (snd g))"
  "ag_total_api_calls (agent_aggregate g) = sum_list (map um_api_calls (snd g))"
  by (cases g; simp add: agent_aggregate_def Let_def)+

lemma set_aggregate_by_agent:
  "set (aggregate_by_agent es) = (\<lambda>a. agent_aggregate (a, filter (\<lambda>e. um_agent_id e = a) es)) ` um_agent_id ` set es"
proof -
  have "set (group_by um_agent_id es) = (\<lambda>a. (a, filter (\<lambda>e. um_agent_id e = a) es)) ` um_agent_id ` set es"
    by (auto simp: wf_dict_entry [OF group_by_wf] map_of_group_by split: if_splits)
  then show ?thesis by (simp add: aggregate_by_agent_def image_image)
qed

lemma summary_values:
  "us_total_tasks (compute_summary es) = int (length es)" "us_total_tokens (compute_summary es) = sum_list (map event_tokens es)"
  "us_total_duration_ms (compute_summary es) = sum_list (map um_duration_ms es)"
  "us_total_api_calls (compute_summary es) = sum_list (map um_api_calls es)"
  "us_unique_agents (compute_summary es) = unique_count um_agent_id es"
  "us_unique_consumers (compute_summary es) = unique_count um_consumer_id es"
  by (simp_all add: compute_summary_def unique_count_def)

subsection \<open>The bridge and the store\<close>

lemma to_from_usage_event [simp]: "to_usage_event (from_usage_event e) = e" "from_usage_event (to_usage_event m) = m"
  by (simp_all add: to_usage_event_def from_usage_event_def)

lemma from_usage_event_fields [simp]:
  "um_agent_id (from_usage_event e) = ue_agent_id e" "um_timestamp (from_usage_event e) = ue_timestamp e"
  by (simp_all add: from_usage_event_def)

lemma sort_key_map: "sort_key f (map g xs) = map g (sort_key (\<lambda>x. f (g x)) xs)"
proof (rule properties_for_sort_key)
  show "mset (map g (sort_key (\<lambda>x. f (g x)) xs)) = mset (map g xs)" by simp
  show "sorted (map f (map g (sort_key (\<lambda>x. f (g x)) xs)))" using sorted_sort_key [of "\<lambda>x. f (g x)" xs] by (simp add: comp_def)
  fix k assume "k \<in> set (map g (sort_key (\<lambda>x. f (g x)) xs))"
  show "filter (\<lambda>y. f k = f y) (map g (sort_key (\<lambda>x. f (g x)) xs)) = filter (\<lambda>y. f k = f y) (map g xs)"
    using sort_key_stable [of "\<lambda>x. f (g x)" "f k" xs] by (simp add: filter_map comp_def eq_commute [of "f k"])
qed

lemma stored_events:
  "ms_events (fold bridge_record es st) = ms_events st @ map from_usage_event es" "fold metering_record es s = s @ es"
  by (induction es arbitrary: st s) (simp_all add: bridge_record_def ms_record_def metering_record_def)

lemma bridge_query_selects:
  assumes st: "ms_events st = map from_usage_event s" and "0 \<le> offset"
    and limit: "\<And>n. limit = Some n \<Longrightarrow> 1 \<le> n"
  shows "bridge_query a t1 t2 limit offset st = metering_query a t1 t2 limit offset s"
proof -
  let ?sel = "\<lambda>e. ue_agent_id e = a \<and> t1 \<le> ue_timestamp e \<and> ue_timestamp e \<le> t2"
  let ?f = "\<lparr>mq_agent_id = Some a, mq_consumer_id = None, mq_task_id = None, mq_start = Some t1,
     mq_end = Some t2, mq_limit = map_option nat limit, mq_offset = nat offset\<rparr>"
  have sel: "filter (\<lambda>e. usage_matches (from_usage_event e) ?f) s = filter ?sel s"
    by (rule filter_cong) (auto simp: usage_matches_def)
  have "sort_key um_timestamp (filter (\<lambda>e. usage_matches e ?f) (map from_usage_event s)) =
      map from_usage_event (sort_key ue_timestamp (filter ?sel s))"
    by (simp add: filter_map comp_def sort_key_map sel)
  moreover have "(case limit of None \<Rightarrow> False | Some n \<Rightarrow> n < 1) = False" using limit by (cases limit) auto
  ultimately show ?thesis using assms(2) limit
    by (auto simp: bridge_query_def metering_query_def ms_query_def apply_query_filters_def st Let_def
        py_slice_window drop_map take_map comp_def split: option.splits)
qed

subsection \<open>Properties\<close>

text \<open>Aggregation by agent neither loses nor invents usage: there is exactly one aggregate per agent with
  events, in the order of the agent identifiers, each with the totals of that agent's events, and the
  aggregates add up to the summary.\<close>

theorem aggregates_conserve_usage:
  "sorted (map ag_agent_id (aggregate_by_agent es)) \<and> distinct (map ag_agent_id (aggregate_by_agent es)) \<and>
   int (length (aggregate_by_agent es)) = us_unique_agents (compute_summary es) \<and>
   set (aggregate_by_agent es) =
     {agent_aggregate (a, [e \<leftarrow> es. um_agent_id e = a]) | a. \<exists>e \<in> set es. um_agent_id e = a} \<and>
   sum_list (map ag_total_tokens (aggregate_by_agent es)) = us_total_tokens (compute_summary es) \<and>
   sum_list (map ag_total_duration_ms (aggregate_by_agent es)) = us_total_duration_ms (compute_summary es) \<and>
   sum_list (map ag_total_api_calls (aggregate_by_agent es)) = us_total_api_calls (compute_summary es) \<and>
   sum_list (map ag_total_tasks (aggregate_by_agent es)) = us_total_tasks (compute_summary es)"
proof -
  have "mset (map ag_agent_id (aggregate_by_agent es)) = mset (map fst (group_by um_agent_id es))"
    by (simp add: aggregate_by_agent_def multiset.map_comp comp_def)
  from mset_eq_imp_distinct_iff [OF this] have "distinct (map ag_agent_id (aggregate_by_agent es))"
    using group_by_wf [of um_agent_id es] by blast
  moreover have "set (aggregate_by_agent es) =
     {agent_aggregate (a, [e \<leftarrow> es. um_agent_id e = a]) | a. \<exists>e \<in> set es. um_agent_id e = a}"
    unfolding set_aggregate_by_agent by blast
  ultimately show ?thesis
    by (simp add: aggregate_by_agent_def sum_list_sort_key comp_def sum_groups sum_group_lengths count_groups summary_values)
qed

text \<open>The window of a period, as the bridge reads it; other periods have none.\<close>

definition in_period :: "datetime \<Rightarrow> string \<Rightarrow> usage_event \<Rightarrow> bool" where
  "in_period now period e \<longleftrightarrow>
     (period \<in> {''hour'', ''h''} \<longrightarrow> now - 3600000000 \<le> ue_timestamp e \<and> ue_timestamp e \<le> now) \<and>
     (period \<in> {''day'', ''d'', ''today''} \<longrightarrow> now - now mod 86400000000 \<le> ue_timestamp e \<and> ue_timestamp e \<le> now) \<and>
     (period \<in> {''week'', ''w''} \<longrightarrow> now - 604800000000 \<le> ue_timestamp e \<and> ue_timestamp e \<le> now)"

lemma period_query_matches:
  "usage_matches (from_usage_event e) ((period_to_metering_query now a period)\<lparr>mq_limit := None, mq_offset := 0\<rparr>) \<longleftrightarrow>
     ue_agent_id e = a \<and> in_period now period e"
  by (auto simp: period_to_metering_query_def usage_matches_def in_period_def Let_def)

lemma selected_period_events:
  assumes "ms_events st = map from_usage_event s"
  shows "selected_events (Some (period_to_metering_query now a period)) st =
    map from_usage_event (sort_key ue_timestamp (filter (\<lambda>e. ue_agent_id e = a) (filter (in_period now period) s)))"
proof -
  have "filter (\<lambda>e. usage_matches (from_usage_event e) ((period_to_metering_query now a period)\<lparr>mq_limit := None, mq_offset := 0\<rparr>)) s =
      filter (\<lambda>e. ue_agent_id e = a) (filter (in_period now period) s)"
    by (auto simp: period_query_matches intro!: filter_cong)
  then show ?thesis
    by (simp add: selected_events_def apply_query_filters_def assms filter_map comp_def sort_key_map)
qed

lemma find_only: "set xs = {x} \<Longrightarrow> P x \<Longrightarrow> find P xs = Some x"
  by (induction xs) auto

lemma bridge_aggregate_window:
  assumes st: "ms_events st = map from_usage_event s"
  shows "bridge_aggregate now a period st = metering_aggregate a period (filter (in_period now period) s)"
proof -
  let ?es = "filter (\<lambda>e. ue_agent_id e = a) (filter (in_period now period) s)"
  let ?sel = "selected_events (Some (period_to_metering_query now a period)) st"
  note sel = selected_period_events [OF st, of now a period]
  have tokens: "event_tokens (from_usage_event e) = sm_tokens_in (ue_metrics e) + sm_tokens_out (ue_metrics e)"
    and rest: "um_duration_ms (from_usage_event e) = sm_duration_ms (ue_metrics e)"
      "um_api_calls (from_usage_event e) = sm_api_calls (ue_metrics e)" for e
    by (simp_all add: event_tokens_def from_usage_event_def)
  show ?thesis
  proof (cases "?es = []")
    case True
    then have "?sel = []" by (simp add: sel)
    with True show ?thesis
      by (simp add: bridge_aggregate_def aggregate_by_agent_def metering_aggregate_def)
  next
    case False
    have own: "\<forall>m \<in> set ?sel. um_agent_id m = a" by (auto simp: sel)
    then have "filter (\<lambda>m. um_agent_id m = a) ?sel = ?sel" by simp
    moreover have "um_agent_id ` set ?sel = {a}" using own False by (auto simp: sel filter_empty_conv image_image)
    ultimately have "set (aggregate_by_agent ?sel) = {agent_aggregate (a, ?sel)}" by (simp add: set_aggregate_by_agent)
    then have "find (\<lambda>g. ag_agent_id g = a) (aggregate_by_agent ?sel) = Some (agent_aggregate (a, ?sel))" by (rule find_only) simp
    then show ?thesis
      by (simp add: bridge_aggregate_def metering_aggregate_def Let_def sel comp_def tokens rest sum_list_sort_key)
  qed
qed

text \<open>C34: usage events that are recorded through the bridge into the metering storage and asked for there give the answers of the
  in-memory metering store. A query with a non-negative offset and a limit of at least 1, or none, has the same answer; the bridge
  refuses the others, of which the store refuses the negative offsets only. The aggregate of a period is the store's aggregate of the
  events in the window of that period (the last hour, the day so far, the last week): the store itself aggregates all events, whatever the
  period, so the two agree where every event lies in the window.\<close>

theorem bridge_equals_store:
  "bridge_query a t1 t2 limit offset (fold bridge_record es \<lparr>ms_events = [], ms_retention_ttl_seconds = ttl\<rparr>) =
      (if offset < 0 \<or> (case limit of None \<Rightarrow> False | Some n \<Rightarrow> n < 1) then Inl (ValueError ''MeteringQuery'')
       else metering_query a t1 t2 limit offset (fold metering_record es [])) \<and>
   bridge_aggregate now a period (fold bridge_record es \<lparr>ms_events = [], ms_retention_ttl_seconds = ttl\<rparr>) =
     metering_aggregate a period (fold metering_record (filter (in_period now period) es) [])"
proof -
  let ?bridge = "fold bridge_record es \<lparr>ms_events = [], ms_retention_ttl_seconds = ttl\<rparr>"
  have st: "ms_events ?bridge = map from_usage_event es" by (simp add: stored_events)
  have "bridge_query a t1 t2 limit offset ?bridge = metering_query a t1 t2 limit offset es"
    if "\<not> (offset < 0 \<or> (case limit of None \<Rightarrow> False | Some n \<Rightarrow> n < 1))"
    using that st by (intro bridge_query_selects) (auto split: option.splits)
  then show ?thesis using bridge_aggregate_window [OF st] by (simp add: stored_events bridge_query_def)
qed

end
