(* ===== verification/Handlers.thy ===== *)
theory Handlers
  imports Rpc_Base Metering Metrics
begin

text \<open>
  The handler registry (\<open>src/asap/transport/handlers.py\<close>) and the bounded thread pool it runs synchronous
  handlers in (\<open>src/asap/transport/executors.py\<close>).

  A handler is application code: its kind and a function from the manifest and the envelope to a response or an exception.
  Every call of application code is logged in the field \<open>ds_calls\<close>, so that
  theorems can speak of what was run. A dispatch is one step: a thread pool permit it takes is back when it ends;
  the permits other requests hold are missing from the pool it starts with. Times measured during the
  call are arguments.
\<close>

subsection \<open>The bounded executor\<close>

record bounded_executor =
  be_max_threads :: int
  be_permits :: nat

text \<open>\<open>cpu_count\<close> is \<open>os.cpu_count()\<close>, which may be \<open>None\<close>.\<close>

definition executor_init :: "nat option \<Rightarrow> int option \<Rightarrow> py_exn + bounded_executor" where
  "executor_init cpu_count max_threads =
     (let cpus = (case cpu_count of None \<Rightarrow> 1 | Some n \<Rightarrow> if n = 0 then 1 else n);
          m = (case max_threads of None \<Rightarrow> min 32 (int cpus + 4) | Some n \<Rightarrow> n)
      in if m < 1 then Inl (ValueError (''max_threads must be >= 1, got '' @ str_int m))
         else Inr \<lparr>be_max_threads = m, be_permits = nat m\<rparr>)"

text \<open>An exception whose constructor itself fails is that failure.\<close>

fun raised :: "py_exn + asap_error \<Rightarrow> exn" where
  "raised (Inr e) = AsapExn e"
| "raised (Inl x) = OtherExn ''ValueError'' ''rpc_code must be in the ASAP range''"

text \<open>Submitting takes a permit without waiting; the completion of the task gives it back.\<close>

definition executor_submit :: "bounded_executor \<Rightarrow> collector \<Rightarrow> (bounded_executor \<times> collector, exn, unit) outcome" where
  "executor_submit ex m =
     (if be_permits ex = 0
      then (Inl (raised (thread_pool_exhausted_error (be_max_threads ex) (be_max_threads ex) None (Some 1000))),
            (ex, increment_counter ''asap_thread_pool_exhausted_total'' (Some []) 1 m))
      else (Inr (), (ex\<lparr>be_permits := be_permits ex - 1\<rparr>, m)))"

definition release_on_done :: "bounded_executor \<Rightarrow> bounded_executor" where
  "release_on_done ex = ex\<lparr>be_permits := be_permits ex + 1\<rparr>"

subsection \<open>The registry\<close>

datatype handler_kind = CoroutineHandler | AwaitableHandler | PlainHandler

text \<open>\<open>hn_params\<close> are the parameter names of the callable; \<open>None\<close> when they cannot be inspected.\<close>

record handler =
  hn_kind :: handler_kind
  hn_params :: "string list option"
  hn_run :: "manifest \<Rightarrow> envelope \<Rightarrow> exn + envelope"

record stream_handler =
  sh_async_gen :: bool
  sh_params :: "string list option"
  sh_run :: "manifest \<Rightarrow> envelope \<Rightarrow> envelope list \<times> exn option"

definition accepts_two :: "string list option \<Rightarrow> bool" where
  "accepts_two params =
     (case params of
        None \<Rightarrow> False
      | Some ps \<Rightarrow> length ps = 2 \<or> (length ps = 3 \<and> (hd ps = ''self'' \<or> hd ps = ''cls'')))"

definition validate_handler :: "handler \<Rightarrow> py_exn + unit" where
  "validate_handler h = (if accepts_two (hn_params h) then Inr () else Inl TypeError)"

definition validate_streaming_handler :: "stream_handler \<Rightarrow> py_exn + unit" where
  "validate_streaming_handler h =
     (if \<not> sh_async_gen h then Inl TypeError else if accepts_two (sh_params h) then Inr () else Inl TypeError)"

record handler_registry =
  hr_handlers :: "(string, handler) dict"
  hr_streaming :: "(string, stream_handler) dict"
  hr_executor :: "bounded_executor option"
  hr_metering :: "metering_store option"

definition handler_registry_init :: "bounded_executor option \<Rightarrow> metering_store option \<Rightarrow> handler_registry" where
  "handler_registry_init ex ms = \<lparr>hr_handlers = [], hr_streaming = [], hr_executor = ex, hr_metering = ms\<rparr>"

definition register_handler :: "string \<Rightarrow> handler \<Rightarrow> handler_registry \<Rightarrow> (handler_registry, py_exn, unit) outcome" where
  "register_handler pt h r =
     (case validate_handler h of
        Inl x \<Rightarrow> (Inl x, r)
      | Inr u \<Rightarrow> (Inr (), r\<lparr>hr_handlers := AList.update pt h (hr_handlers r)\<rparr>))"

definition has_handler :: "string \<Rightarrow> handler_registry \<Rightarrow> bool" where
  "has_handler pt r \<longleftrightarrow> map_of (hr_handlers r) pt \<noteq> None"

definition register_streaming_handler ::
  "string \<Rightarrow> stream_handler \<Rightarrow> handler_registry \<Rightarrow> (handler_registry, py_exn, unit) outcome" where
  "register_streaming_handler pt h r =
     (case validate_streaming_handler h of
        Inl x \<Rightarrow> (Inl x, r)
      | Inr u \<Rightarrow> (Inr (), r\<lparr>hr_streaming := AList.update pt h (hr_streaming r)\<rparr>))"

definition has_streaming_handler :: "string \<Rightarrow> handler_registry \<Rightarrow> bool" where
  "has_streaming_handler pt r \<longleftrightarrow> map_of (hr_streaming r) pt \<noteq> None"

definition set_metering_store :: "metering_store option \<Rightarrow> handler_registry \<Rightarrow> handler_registry" where
  "set_metering_store ms r = r\<lparr>hr_metering := ms\<rparr>"

definition list_handlers :: "handler_registry \<Rightarrow> string list" where
  "list_handlers r = map fst (hr_handlers r)"

subsection \<open>Dispatch\<close>

record dispatch_state =
  ds_registry :: handler_registry
  ds_metrics :: collector
  ds_calls :: "envelope list"

definition record_handler_success :: "string \<Rightarrow> rat \<Rightarrow> collector \<Rightarrow> collector" where
  "record_handler_success pt duration_ms m =
     observe_histogram ''asap_handler_duration_seconds'' (duration_ms / 1000) (Some [(''payload_type'', pt)])
       (increment_counter ''asap_handler_executions_total'' (Some [(''payload_type'', pt)]) 1 m)"

definition record_handler_error :: "string \<Rightarrow> collector \<Rightarrow> collector" where
  "record_handler_error pt m = increment_counter ''asap_handler_errors_total'' (Some [(''payload_type'', pt)]) 1 m"

definition log_call :: "envelope \<Rightarrow> 'a dispatch_state_scheme \<Rightarrow> 'a dispatch_state_scheme" where
  "log_call e s = s\<lparr>ds_calls := ds_calls s @ [e]\<rparr>"

definition on_metrics :: "(collector \<Rightarrow> collector) \<Rightarrow> 'a dispatch_state_scheme \<Rightarrow> 'a dispatch_state_scheme" where
  "on_metrics f s = s\<lparr>ds_metrics := f (ds_metrics s)\<rparr>"

text \<open>Running the handler: a coroutine function in the event loop, any other callable in the executor.
  Without a configured executor the default pool of the event loop takes every task.\<close>

definition run_handler ::
  "handler \<Rightarrow> manifest \<Rightarrow> envelope \<Rightarrow> 'a dispatch_state_scheme \<Rightarrow> ('a dispatch_state_scheme, exn, envelope) outcome" where
  "run_handler h mf e s =
     (case (hn_kind h, hr_executor (ds_registry s)) of
        (CoroutineHandler, _) \<Rightarrow> (hn_run h mf e, log_call e s)
      | (_, None) \<Rightarrow> (hn_run h mf e, log_call e s)
      | (_, Some ex) \<Rightarrow>
          (case executor_submit ex (ds_metrics s) of
             (Inl x, (ex', m')) \<Rightarrow> (Inl x, s\<lparr>ds_registry := (ds_registry s)\<lparr>hr_executor := Some ex'\<rparr>, ds_metrics := m'\<rparr>)
           | (Inr u, (ex', m')) \<Rightarrow>
               (hn_run h mf e,
                log_call e (s\<lparr>ds_registry := (ds_registry s)\<lparr>hr_executor := Some (release_on_done ex')\<rparr>, ds_metrics := m'\<rparr>))))"

definition record_metering ::
  "(pyval \<Rightarrow> string) \<Rightarrow> datetime \<Rightarrow> manifest \<Rightarrow> rat \<Rightarrow> envelope \<Rightarrow> envelope \<Rightarrow> handler_registry \<Rightarrow>
   (handler_registry, py_exn, unit) outcome" where
  "record_metering txt now mf duration_ms request response r =
     (case hr_metering r of
        None \<Rightarrow> (Inr (), r)
      | Some ms \<Rightarrow>
          (case record_task_usage txt now (mf_id mf) duration_ms request response of
             Inl x \<Rightarrow> (Inl x, r)
           | Inr None \<Rightarrow> (Inr (), r)
           | Inr (Some ev) \<Rightarrow> (Inr (), r\<lparr>hr_metering := Some (metering_record ev ms)\<rparr>)))"

text \<open>A failure to record the usage is counted as an error of the handler, after its success was counted.\<close>

definition dispatch_async ::
  "(pyval \<Rightarrow> string) \<Rightarrow> datetime \<Rightarrow> rat \<Rightarrow> manifest \<Rightarrow> envelope \<Rightarrow> 'a dispatch_state_scheme \<Rightarrow>
   ('a dispatch_state_scheme, exn, envelope) outcome" where
  "dispatch_async txt now duration_ms mf e s =
     (let pt = payload_type e in
      case map_of (hr_handlers (ds_registry s)) pt of
        None \<Rightarrow> (Inl (raised (handler_not_found_error pt)), s)
      | Some h \<Rightarrow>
          (case run_handler h mf e s of
             (Inl x, s1) \<Rightarrow> (Inl x, on_metrics (record_handler_error pt) s1)
           | (Inr response, s1) \<Rightarrow>
               (let s2 = on_metrics (record_handler_success pt duration_ms) s1
                in case record_metering txt now mf duration_ms e response (ds_registry s2) of
                     (Inl x, r) \<Rightarrow> (Inl (lift_exn x), on_metrics (record_handler_error pt) (s2\<lparr>ds_registry := r\<rparr>))
                   | (Inr u, r) \<Rightarrow> (Inr response, s2\<lparr>ds_registry := r\<rparr>))))"

text \<open>The synchronous variant: an awaitable result is a \<open>TypeError\<close>.\<close>

definition dispatch_sync ::
  "rat \<Rightarrow> manifest \<Rightarrow> envelope \<Rightarrow> 'a dispatch_state_scheme \<Rightarrow> ('a dispatch_state_scheme, exn, envelope) outcome" where
  "dispatch_sync duration_ms mf e s =
     (let pt = payload_type e in
      case map_of (hr_handlers (ds_registry s)) pt of
        None \<Rightarrow> (Inl (raised (handler_not_found_error pt)), s)
      | Some h \<Rightarrow>
          (if hn_kind h \<noteq> PlainHandler
           then (Inl (OtherExn ''TypeError'' ''returned awaitable in sync dispatch()''), on_metrics (record_handler_error pt) s)
           else (case hn_run h mf e of
                   Inl x \<Rightarrow> (Inl x, on_metrics (record_handler_error pt) (log_call e s))
                 | Inr response \<Rightarrow> (Inr response, on_metrics (record_handler_success pt duration_ms) (log_call e s)))))"

text \<open>The stream: the envelopes yielded and, when it does not end well, the exception.\<close>

definition dispatch_stream_async ::
  "rat \<Rightarrow> manifest \<Rightarrow> envelope \<Rightarrow> 'a dispatch_state_scheme \<Rightarrow> (envelope list \<times> exn option) \<times> 'a dispatch_state_scheme" where
  "dispatch_stream_async duration_ms mf e s =
     (let pt = payload_type e in
      case map_of (hr_streaming (ds_registry s)) pt of
        None \<Rightarrow> (([], Some (raised (handler_not_found_error pt))), s)
      | Some h \<Rightarrow>
          (case sh_run h mf e of
             (es, None) \<Rightarrow> ((es, None), on_metrics (record_handler_success pt duration_ms) (log_call e s))
           | (es, Some x) \<Rightarrow> ((es, Some x), on_metrics (record_handler_error pt) (log_call e s))))"

subsection \<open>The echo handler\<close>

text \<open>\<open>task_input\<close> is the validation of the payload by the class \<open>TaskRequest\<close>: the input, or the text of a validation
  error. Identifiers and the time are drawn by the constructors.\<close>

definition echo_handler ::
  "(pydict \<Rightarrow> string + pydict) \<Rightarrow> string \<Rightarrow> string \<Rightarrow> datetime \<Rightarrow> manifest \<Rightarrow> envelope \<Rightarrow> exn + envelope" where
  "echo_handler task_input task_uid new_id now mf e =
     (case task_input (payload e) of
        Inl x \<Rightarrow> Inl (OtherExn ''ValidationError'' x)
      | Inr inp \<Rightarrow>
          (case make_envelope new_id now
             \<lparr>env_id = None, asap_version = asap_version e, env_timestamp = None, sender = mf_id mf, recipient = sender e,
              payload_type = ''task.response'',
              payload = [(''task_id'', PStr (''task_'' @ task_uid)), (''status'', PStr ''completed''),
                         (''result'', PDict [(''echoed'', PDict inp)]), (''final_state'', PNone), (''metrics'', PNone)],
              correlation_id = env_id e, trace_id = trace_id e, requires_ack = False, extensions = None\<rparr> of
             Inl x \<Rightarrow> Inl (OtherExn ''ValidationError'' ''Envelope'')
           | Inr r \<Rightarrow> Inr r))"

definition create_default_registry ::
  "(manifest \<Rightarrow> envelope \<Rightarrow> exn + envelope) \<Rightarrow> metering_store option \<Rightarrow> handler_registry" where
  "create_default_registry echo ms =
     snd (register_handler ''task.request'' \<lparr>hn_kind = PlainHandler, hn_params = Some [''envelope'', ''manifest''], hn_run = echo\<rparr>
       (handler_registry_init None ms))"

subsection \<open>What a dispatch changes\<close>

text \<open>The configuration of the registry: everything but the metering store.\<close>

definition registry_config :: "handler_registry \<Rightarrow> handler_registry" where
  "registry_config r = r\<lparr>hr_metering := None\<rparr>"

lemma registry_config_fields:
  assumes "registry_config r = registry_config r'"
  shows "hr_handlers r = hr_handlers r'" "hr_streaming r = hr_streaming r'" "hr_executor r = hr_executor r'"
  using arg_cong [OF assms, of hr_handlers] arg_cong [OF assms, of hr_streaming] arg_cong [OF assms, of hr_executor]
  by (simp_all add: registry_config_def)

lemma registry_config_metering [simp]: "registry_config (snd (record_metering txt now mf d e e' r)) = registry_config r"
  by (simp add: record_metering_def registry_config_def split: option.splits sum.splits)

lemma executor_submit_release:
  "executor_submit ex m = (Inr u, (ex', m')) \<Longrightarrow> release_on_done ex' = ex \<and> m' = m"
  "executor_submit ex m = (Inl x, (ex', m')) \<Longrightarrow> ex' = ex \<and> m' = increment_counter ''asap_thread_pool_exhausted_total'' (Some []) 1 m"
  by (auto simp: executor_submit_def release_on_done_def split: if_splits)

text \<open>Running a handler either logs the call and gives the result of the application, or finds the pool
  exhausted and runs nothing.\<close>

lemma run_handler_cases:
  obtains (ran) "run_handler h mf e s = (hn_run h mf e, log_call e s)"
  | (exhausted) ex where "hr_executor (ds_registry s) = Some ex" "be_permits ex = 0" "hn_kind h \<noteq> CoroutineHandler"
      "run_handler h mf e s =
         (Inl (raised (thread_pool_exhausted_error (be_max_threads ex) (be_max_threads ex) None (Some 1000))),
          on_metrics (increment_counter ''asap_thread_pool_exhausted_total'' (Some []) 1) s)"
proof (cases "hn_kind h = CoroutineHandler \<or> hr_executor (ds_registry s) = None")
  case True
  then show thesis by (intro ran) (auto simp: run_handler_def split: handler_kind.splits)
next
  case False
  then obtain ex where ex: "hr_executor (ds_registry s) = Some ex" "hn_kind h \<noteq> CoroutineHandler" by auto
  then have run: "run_handler h mf e s =
      (case executor_submit ex (ds_metrics s) of
         (Inl x, (ex', m')) \<Rightarrow> (Inl x, s\<lparr>ds_registry := (ds_registry s)\<lparr>hr_executor := Some ex'\<rparr>, ds_metrics := m'\<rparr>)
       | (Inr u, (ex', m')) \<Rightarrow>
           (hn_run h mf e,
            log_call e (s\<lparr>ds_registry := (ds_registry s)\<lparr>hr_executor := Some (release_on_done ex')\<rparr>, ds_metrics := m'\<rparr>)))"
    by (auto simp: run_handler_def split: handler_kind.splits)
  show thesis
  proof (cases "be_permits ex = 0")
    case True
    with run ex show thesis by (intro exhausted) (simp_all add: executor_submit_def on_metrics_def)
  next
    case False
    then have "release_on_done (ex\<lparr>be_permits := be_permits ex - 1\<rparr>) = ex" by (simp add: release_on_done_def)
    moreover have "s\<lparr>ds_registry := (ds_registry s)\<lparr>hr_executor := Some ex\<rparr>\<rparr> = s" using ex(1) by simp
    ultimately show thesis using False run by (intro ran) (simp add: executor_submit_def)
  qed
qed

definition request_counters :: "string list" where
  "request_counters = [''asap_requests_total'', ''asap_requests_success_total'', ''asap_requests_error_total'']"

text \<open>Whether the counters of a collector are the same apart from their values, and unchanged for requests.\<close>

definition same_requests :: "collector \<Rightarrow> collector \<Rightarrow> bool" where
  "same_requests m m' \<longleftrightarrow>
     (\<forall>n. (map_of (counters m') n = None) = (map_of (counters m) n = None)) \<and>
     (\<forall>n \<in> set request_counters. counter_total n m' = counter_total n m)"

lemma same_requests_refl [simp]: "same_requests m m"
  by (simp add: same_requests_def)

lemma same_requests_trans [trans]: "same_requests a b \<Longrightarrow> same_requests b c \<Longrightarrow> same_requests a c"
  by (simp add: same_requests_def)

lemma same_requests_increment: "n \<notin> set request_counters \<Longrightarrow> same_requests m (increment_counter n l v m)"
  by (auto simp: same_requests_def counter_total_increment increment_counter_known)

lemma same_requests_observe: "same_requests m (observe_histogram n v l m)"
  by (simp add: same_requests_def)

lemma same_requests_handler:
  "same_requests m (record_handler_success pt d m)" "same_requests m (record_handler_error pt m)"
  unfolding record_handler_success_def record_handler_error_def
  by (rule same_requests_trans [OF same_requests_increment same_requests_observe], simp add: request_counters_def,
      rule same_requests_increment, simp add: request_counters_def)

text \<open>A dispatch keeps the configuration and the rest of the server, logs at most the dispatched envelope,
  and answers only with what the registered handler answered.\<close>

lemma dispatch_async_effect:
  assumes "dispatch_async txt now d mf e s = (out, s')"
  shows "registry_config (ds_registry s') = registry_config (ds_registry s)"
    "dispatch_state.more s' = dispatch_state.more s" "same_requests (ds_metrics s) (ds_metrics s')"
    "ds_calls s' = ds_calls s \<or> ds_calls s' = ds_calls s @ [e] \<and> has_handler (payload_type e) (ds_registry s)"
    "out = Inr r \<Longrightarrow> ds_calls s' = ds_calls s @ [e] \<and>
       (\<exists>h. map_of (hr_handlers (ds_registry s)) (payload_type e) = Some h \<and> hn_run h mf e = Inr r)"
proof -
  note step = assms [unfolded dispatch_async_def Let_def]
  have "registry_config (ds_registry s') = registry_config (ds_registry s) \<and> dispatch_state.more s' = dispatch_state.more s \<and>
    same_requests (ds_metrics s) (ds_metrics s') \<and>
    (ds_calls s' = ds_calls s \<or> ds_calls s' = ds_calls s @ [e] \<and> has_handler (payload_type e) (ds_registry s)) \<and>
    (out = Inr r \<longrightarrow> ds_calls s' = ds_calls s @ [e] \<and>
       (\<exists>h. map_of (hr_handlers (ds_registry s)) (payload_type e) = Some h \<and> hn_run h mf e = Inr r))"
  proof (cases "map_of (hr_handlers (ds_registry s)) (payload_type e)")
    case None
    with step show ?thesis by auto
  next
    case (Some h)
    show ?thesis
    proof (cases rule: run_handler_cases [of h mf e s])
      case ran
      have metered: "registry_config r = registry_config (ds_registry s)"
        if "record_metering txt now mf d e response (ds_registry s) = (res, r)" for response res r
        using registry_config_metering [of "txt" now mf d e response "ds_registry s"] that by simp
      have both: "same_requests m (record_handler_error (payload_type e) (record_handler_success (payload_type e) d m))" for m
        by (rule same_requests_trans [OF same_requests_handler])
      from step Some ran metered both show ?thesis
        by (cases "hn_run h mf e") (auto simp: on_metrics_def log_call_def has_handler_def same_requests_handler split: prod.splits sum.splits)
    next
      case (exhausted ex)
      have "same_requests (ds_metrics s) (record_handler_error (payload_type e)
          (increment_counter ''asap_thread_pool_exhausted_total'' (Some []) 1 (ds_metrics s)))"
        by (rule same_requests_trans [OF same_requests_increment same_requests_handler(2)]) (simp add: request_counters_def)
      with step Some exhausted show ?thesis by (auto simp: on_metrics_def)
    qed
  qed
  then show "registry_config (ds_registry s') = registry_config (ds_registry s)"
    "dispatch_state.more s' = dispatch_state.more s" "same_requests (ds_metrics s) (ds_metrics s')"
    "ds_calls s' = ds_calls s \<or> ds_calls s' = ds_calls s @ [e] \<and> has_handler (payload_type e) (ds_registry s)"
    "out = Inr r \<Longrightarrow> ds_calls s' = ds_calls s @ [e] \<and>
       (\<exists>h. map_of (hr_handlers (ds_registry s)) (payload_type e) = Some h \<and> hn_run h mf e = Inr r)"
    by blast+
qed

end
