(* ===== verification/Audit_Log.thy ===== *)
theory Audit_Log
  imports Py_Text
begin

text \<open>
  The audit log (\<open>src/asap/economics/audit.py\<close>, \<open>InMemoryAuditStore\<close>): entries sealed with the hash of the
  previous entry, queries, and verification of the chain. SHA-256 (of the UTF-8 text, in hexadecimal),
  \<open>isoformat\<close> and \<open>json.dumps\<close> with sorted keys are the parameters of the record \<open>audit_lib\<close>.
  Every operation holds the store's lock, so each is one step.
\<close>

subsection \<open>Entries\<close>

record audit_lib =
  al_sha256 :: "string \<Rightarrow> string"
  al_isoformat :: "datetime \<Rightarrow> string"
  al_dumps :: "pydict \<Rightarrow> string"

record audit_entry =
  au_id :: string
  au_timestamp :: datetime
  au_operation :: string
  au_agent_urn :: string
  au_details :: pydict
  au_prev_hash :: string
  au_hash :: string

definition canonical_text :: "audit_lib \<Rightarrow> string \<Rightarrow> datetime \<Rightarrow> string \<Rightarrow> pydict \<Rightarrow> string" where
  "canonical_text al prev timestamp operation details =
     prev @ ''|'' @ al_isoformat al timestamp @ ''|'' @ operation @ ''|'' @ al_dumps al details"

definition compute_entry_hash :: "audit_lib \<Rightarrow> string \<Rightarrow> datetime \<Rightarrow> string \<Rightarrow> pydict \<Rightarrow> string" where
  "compute_entry_hash al prev timestamp operation details =
     al_sha256 al (canonical_text al prev timestamp operation details)"

subsection \<open>The store\<close>

type_synonym audit_log = "audit_entry list"

definition last_hash :: "audit_log \<Rightarrow> string" where
  "last_hash es = (if es = [] then [] else au_hash (last es))"

definition audit_append :: "audit_lib \<Rightarrow> audit_entry \<Rightarrow> audit_log \<Rightarrow> audit_entry \<times> audit_log" where
  "audit_append al entry es =
     (let prev = last_hash es;
          computed = compute_entry_hash al prev (au_timestamp entry) (au_operation entry) (au_details entry);
          sealed = entry\<lparr>au_prev_hash := prev, au_hash := computed\<rparr>
      in (sealed, es @ [sealed]))"

definition audit_query ::
  "string option \<Rightarrow> datetime option \<Rightarrow> datetime option \<Rightarrow> int \<Rightarrow> int \<Rightarrow> audit_log \<Rightarrow> audit_entry list" where
  "audit_query agent_urn start end_time limit offset es =
     (let r1 = (case agent_urn of None \<Rightarrow> es | Some u \<Rightarrow> if u = [] then es else filter (\<lambda>e. au_agent_urn e = u) es);
          r2 = (case start of None \<Rightarrow> r1 | Some t \<Rightarrow> filter (\<lambda>e. au_timestamp e \<ge> t) r1);
          r3 = (case end_time of None \<Rightarrow> r2 | Some t \<Rightarrow> filter (\<lambda>e. au_timestamp e \<le> t) r2)
      in py_slice offset (offset + limit) r3)"

fun verify_from :: "audit_lib \<Rightarrow> string \<Rightarrow> audit_log \<Rightarrow> bool" where
  "verify_from al prev [] = True"
| "verify_from al prev (e # es) =
     (let expected = compute_entry_hash al prev (au_timestamp e) (au_operation e) (au_details e) in
      if au_hash e \<noteq> expected \<or> au_prev_hash e \<noteq> prev then False else verify_from al (au_hash e) es)"

definition verify_chain :: "audit_lib \<Rightarrow> audit_log \<Rightarrow> bool" where
  "verify_chain al es = verify_from al [] es"

definition audit_count :: "audit_log \<Rightarrow> nat" where
  "audit_count es = length es"

subsection \<open>The chain\<close>

definition links_to :: "audit_lib \<Rightarrow> string \<Rightarrow> audit_entry \<Rightarrow> bool" where
  "links_to al prev e \<longleftrightarrow>
     au_prev_hash e = prev \<and> au_hash e = compute_entry_hash al prev (au_timestamp e) (au_operation e) (au_details e)"

lemma verify_from_snoc:
  "verify_from al prev (es @ [e]) \<longleftrightarrow>
     verify_from al prev es \<and> links_to al (if es = [] then prev else au_hash (last es)) e"
  by (induction al prev es rule: verify_from.induct) (auto simp: links_to_def Let_def)

lemma verify_chain_simps [simp]:
  "verify_chain al []" "verify_chain al (es @ [e]) \<longleftrightarrow> verify_chain al es \<and> links_to al (last_hash es) e"
  by (simp_all add: verify_chain_def verify_from_snoc last_hash_def)

lemma last_hash_simps [simp]: "last_hash [] = []" "last_hash (es @ [e]) = au_hash e"
  by (simp_all add: last_hash_def)

lemma links_to_sealed: "links_to al (last_hash es) (fst (audit_append al entry es))"
  by (simp add: audit_append_def links_to_def Let_def)

lemma audit_append_snoc: "snd (audit_append al entry es) = es @ [fst (audit_append al entry es)]"
  by (simp add: audit_append_def Let_def)

lemma append_verified: "verify_chain al es \<Longrightarrow> verify_chain al (snd (audit_append al entry es))"
  by (simp add: audit_append_snoc links_to_sealed)

definition bar_free :: "string \<Rightarrow> bool" where
  "bar_free s \<longleftrightarrow> CHR ''|'' \<notin> set s"

lemma canonical_text_inj:
  assumes "bar_free p" "bar_free p'" "bar_free (al_isoformat al t)" "bar_free (al_isoformat al t')" "bar_free op" "bar_free op'"
    and "canonical_text al p t op d = canonical_text al p' t' op' d'"
  shows "p = p' \<and> al_isoformat al t = al_isoformat al t' \<and> op = op' \<and> al_dumps al d = al_dumps al d'"
proof -
  note free = assms(1-6) [unfolded bar_free_def]
  from assms(7) separated_eq [OF free(1,2)]
  have "p = p'" "al_isoformat al t @ CHR ''|'' # op @ ''|'' @ al_dumps al d = al_isoformat al t' @ CHR ''|'' # op' @ ''|'' @ al_dumps al d'"
    by (auto simp: canonical_text_def)
  with separated_eq [OF free(3,4)]
  have "al_isoformat al t = al_isoformat al t'" "op @ CHR ''|'' # al_dumps al d = op' @ CHR ''|'' # al_dumps al d'"
    by auto
  with separated_eq [OF free(5,6)] \<open>p = p'\<close> show ?thesis by auto
qed

text \<open>The text whose hash an entry carries, and what of an entry the chain seals.\<close>

definition sealed_text :: "audit_lib \<Rightarrow> audit_entry \<Rightarrow> string" where
  "sealed_text al e = canonical_text al (au_prev_hash e) (au_timestamp e) (au_operation e) (au_details e)"

definition sealed_part :: "audit_lib \<Rightarrow> audit_entry \<Rightarrow> string \<times> string \<times> string" where
  "sealed_part al e = (al_isoformat al (au_timestamp e), au_operation e, al_dumps al (au_details e))"

lemma links_to_text: "links_to al prev e \<Longrightarrow> au_prev_hash e = prev \<and> au_hash e = al_sha256 al (sealed_text al e)"
  by (simp add: links_to_def sealed_text_def compute_entry_hash_def)

lemma chain_collision:
  assumes hex: "\<And>x. al_sha256 al x \<noteq> [] \<and> bar_free (al_sha256 al x)" and iso: "\<And>t. bar_free (al_isoformat al t)"
  shows "verify_chain al es \<Longrightarrow> verify_chain al es' \<Longrightarrow> last_hash es = last_hash es' \<Longrightarrow>
     (\<forall>e \<in> set es \<union> set es'. bar_free (au_operation e)) \<Longrightarrow>
     map (sealed_part al) es = map (sealed_part al) es' \<or>
     (\<exists>e \<in> set es. \<exists>e' \<in> set es'. sealed_text al e \<noteq> sealed_text al e' \<and> al_sha256 al (sealed_text al e) = al_sha256 al (sealed_text al e'))"
proof (induction es arbitrary: es' rule: rev_induct)
  case Nil
  then show ?case
  proof (cases es' rule: rev_cases)
    case (snoc xs e)
    with Nil hex [of "sealed_text al e"] show ?thesis by (auto dest!: links_to_text)
  qed simp
next
  case (snoc e es)
  show ?case
  proof (cases es' rule: rev_cases)
    case Nil
    with snoc.prems hex [of "sealed_text al e"] show ?thesis by (auto dest!: links_to_text)
  next
    case (snoc xs e')
    note split = this
    have links: "links_to al (last_hash es) e" "links_to al (last_hash xs) e'" and same: "au_hash e = au_hash e'"
      using snoc.prems split by auto
    note hashes = links_to_text [OF links(1)] links_to_text [OF links(2)]
    show ?thesis
    proof (cases "sealed_text al e = sealed_text al e'")
      case False
      with hashes same split show ?thesis by auto
    next
      case True
      have free: "bar_free (last_hash ys)" if "verify_chain al ys" for ys
        using that hex by (cases ys rule: rev_cases) (auto simp: bar_free_def dest!: links_to_text)
      have parts: "bar_free (last_hash es)" "bar_free (last_hash xs)" "bar_free (au_operation e)" "bar_free (au_operation e')"
        using free snoc.prems split by auto
      have "canonical_text al (last_hash es) (au_timestamp e) (au_operation e) (au_details e) =
          canonical_text al (last_hash xs) (au_timestamp e') (au_operation e') (au_details e')"
        using True hashes by (simp add: sealed_text_def)
      from canonical_text_inj [OF parts(1,2) iso iso parts(3,4) this]
      have "last_hash es = last_hash xs \<and> sealed_part al e = sealed_part al e'" by (simp add: sealed_part_def)
      moreover from this snoc.IH [of xs] snoc.prems split
      have "map (sealed_part al) es = map (sealed_part al) xs \<or>
          (\<exists>e \<in> set es. \<exists>e' \<in> set xs. sealed_text al e \<noteq> sealed_text al e' \<and> al_sha256 al (sealed_text al e) = al_sha256 al (sealed_text al e'))"
        by auto
      ultimately show ?thesis using split by auto
    qed
  qed
qed

text \<open>The chain seals neither the agent of an entry nor its identifier.\<close>

lemma chain_ignores_agent:
  "verify_from al prev (map (\<lambda>e. e\<lparr>au_agent_urn := f e, au_id := g e\<rparr>) es) = verify_from al prev es"
  by (induction al prev es rule: verify_from.induct) (simp_all add: Let_def)

subsection \<open>Queries\<close>

definition audit_match :: "string option \<Rightarrow> datetime option \<Rightarrow> datetime option \<Rightarrow> audit_entry \<Rightarrow> bool" where
  "audit_match agent_urn start end_time e \<longleftrightarrow>
     (agent_urn = None \<or> agent_urn = Some [] \<or> agent_urn = Some (au_agent_urn e)) \<and>
     (\<forall>t. start = Some t \<longrightarrow> t \<le> au_timestamp e) \<and> (\<forall>t. end_time = Some t \<longrightarrow> au_timestamp e \<le> t)"

lemma audit_query_eq:
  "audit_query u s t limit offset es = py_slice offset (offset + limit) (filter (audit_match u s t) es)"
  by (cases u; cases s; cases t)
    (auto simp: audit_query_def audit_match_def Let_def intro!: arg_cong [where f = "py_slice offset (offset + limit)"] filter_cong)

subsection \<open>Properties\<close>

text \<open>A log built by appending entries to an empty store verifies, and holds the entries in order with
  everything but the two hash fields as given.\<close>

theorem appended_log_verifies:
  "verify_chain al (fold (\<lambda>e es. snd (audit_append al e es)) xs []) \<and>
   map (\<lambda>e. e\<lparr>au_prev_hash := [], au_hash := []\<rparr>) (fold (\<lambda>e es. snd (audit_append al e es)) xs []) =
   map (\<lambda>e. e\<lparr>au_prev_hash := [], au_hash := []\<rparr>) xs"
proof (induction xs rule: rev_induct)
  case (snoc e xs)
  then show ?case by (simp add: append_verified) (simp add: audit_append_def Let_def)
qed simp

text \<open>C33: the chain makes tampering evident to whoever remembers its last hash. Take two logs that both verify and end with the same hash, where no
  operation contains the separator \<open>|\<close>: they have the same entries as far as the hash covers them (timestamp, operation and details; not
  the identifier nor the agent), or two of their entries are different texts with the same SHA-256 value. So a change of a covered field, an
  entry removed, added or moved, or a cut at either end needs a collision. Without the remembered hash there is no such guarantee:
  a log whose hashes are computed anew verifies.\<close>

theorem audit_tampering_needs_collision:
  assumes "\<And>x. al_sha256 al x \<noteq> [] \<and> bar_free (al_sha256 al x)" and "\<And>t. bar_free (al_isoformat al t)"
    and "verify_chain al es" "verify_chain al es'" "last_hash es = last_hash es'"
    and "\<forall>e \<in> set es \<union> set es'. bar_free (au_operation e)"
  shows "map (sealed_part al) es = map (sealed_part al) es' \<or>
     (\<exists>e \<in> set es. \<exists>e' \<in> set es'. sealed_text al e \<noteq> sealed_text al e' \<and>
        al_sha256 al (sealed_text al e) = al_sha256 al (sealed_text al e'))"
  using assms by (rule chain_collision)

definition sample_audit_lib :: audit_lib where
  "sample_audit_lib = \<lparr>al_sha256 = (\<lambda>s. CHR ''h'' # filter (\<lambda>c. c \<noteq> CHR ''|'') s),
     al_isoformat = (\<lambda>t. replicate (nat t) (CHR ''t'')), al_dumps = (\<lambda>d. concat (map fst d))\<rparr>"

definition sample_entry :: "string \<Rightarrow> audit_entry" where
  "sample_entry u = \<lparr>au_id = ''i'', au_timestamp = 2, au_operation = ''task.request'', au_agent_urn = u,
     au_details = [(''k'', PNone)], au_prev_hash = [], au_hash = []\<rparr>"

text \<open>With a hash that is the same for every text, two logs of different operations end with the same hash, and the collision is there.\<close>

definition constant_hash_lib :: audit_lib where
  "constant_hash_lib = sample_audit_lib\<lparr>al_sha256 := (\<lambda>s. ''h'')\<rparr>"

definition logged_operation :: "string \<Rightarrow> audit_log" where
  "logged_operation op = snd (audit_append constant_hash_lib ((sample_entry ''a'')\<lparr>au_operation := op\<rparr>) [])"

theorem audit_tampering_needs_collision_witness:
  "verify_chain constant_hash_lib (logged_operation ''read'') \<and> verify_chain constant_hash_lib (logged_operation ''pay'') \<and>
   map au_operation (logged_operation ''read'') \<noteq> map au_operation (logged_operation ''pay'') \<and>
   (\<exists>e \<in> set (logged_operation ''read''). \<exists>e' \<in> set (logged_operation ''pay''). sealed_text constant_hash_lib e \<noteq> sealed_text constant_hash_lib e' \<and>
      al_sha256 constant_hash_lib (sealed_text constant_hash_lib e) = al_sha256 constant_hash_lib (sealed_text constant_hash_lib e'))"
proof -
  let ?al = constant_hash_lib and ?es = "logged_operation ''read''" and ?es' = "logged_operation ''pay''"
  have v: "verify_chain ?al ?es" "verify_chain ?al ?es'" by (simp_all add: logged_operation_def append_verified)
  have same: "last_hash ?es = last_hash ?es'" "\<forall>e \<in> set ?es \<union> set ?es'. bar_free (au_operation e)"
    by (simp_all add: logged_operation_def constant_hash_lib_def compute_entry_hash_def audit_append_def sample_entry_def Let_def bar_free_def last_hash_def)
  have lib: "al_sha256 ?al x \<noteq> [] \<and> bar_free (al_sha256 ?al x)" "bar_free (al_isoformat ?al t)" for x t
    by (simp_all add: constant_hash_lib_def sample_audit_lib_def bar_free_def)
  have differ: "map au_operation ?es \<noteq> map au_operation ?es'" "map (sealed_part ?al) ?es \<noteq> map (sealed_part ?al) ?es'"
    by (simp_all add: logged_operation_def audit_append_def sample_entry_def Let_def sealed_part_def)
  with audit_tampering_needs_collision [OF lib v same] v show ?thesis by blast
qed

end
