(* ===== verification/Pipeline.thy ===== *)
theory Pipeline
  imports Handlers Audit_Log Replay_Guard
begin

text \<open>
  The request pipeline of the \<open>/asap\<close> endpoint (\<open>src/asap/transport/_request_handler.py\<close>): reading and
  decompressing the body, the JSON-RPC frame, authentication, the envelope, the sender, the
  timestamp and the nonce, dispatch, the audit entry, the answer, and the metrics of every outcome.

  A stage maps the server to the answer that ends the request, or to the value the next stage
  needs; an exception that escapes is an \<open>Inl\<close> and is turned into an answer by \<open>handle_message\<close>.
  Parameters: the record \<open>rpc_lib\<close> holds what the JSON parser, the compression libraries, the field validation of pydantic, the
  tracing library and the text conversions of Python give. A request carries the clock readings
  made while it is served. Logging is not modelled.

  Building a \<open>JSONResponse\<close> renders its content, which raises for a value JSON does not have, such as a \<open>NaN\<close> (\<open>rl_render\<close>). Some
  refusals are counted after their answer is built and some before; the model keeps the order.
\<close>

subsection \<open>Parameters, configuration, requests, server\<close>

datatype json_fail = BadUtf8 string | BadJson string | BadNumber string | BadNesting string

record rpc_lib =
  rl_codec :: codec_lib
  rl_loads :: "bytes \<Rightarrow> json_fail + pyval"
  rl_str :: "pyval \<Rightarrow> string"
  rl_isoformat :: "datetime \<Rightarrow> string"
  rl_fixed1 :: "rat \<Rightarrow> string"
  rl_envelope :: "pydict \<Rightarrow> pyval + envelope"
  rl_request_errors :: "pydict \<Rightarrow> pyval"
  rl_validator_errors :: "py_exn \<Rightarrow> pyval"
  rl_inject_trace :: "envelope \<Rightarrow> envelope"
  rl_audit :: audit_lib
  rl_render :: "reply_body \<Rightarrow> py_exn option"

record rpc_config =
  cf_manifest :: manifest
  cf_auth :: "auth_middleware option"
  cf_max_request_size :: int
  cf_debug :: bool

record rpc_req =
  rr_content_encoding :: string
  rr_chunks :: "bytes list"
  rr_credentials :: "(string \<times> string) option"
  rr_accept :: string
  rr_duration :: rat
  rr_handler_ms :: rat
  rr_new_id :: string
  rr_parse_time :: datetime
  rr_check_time :: datetime
  rr_nonce_clock :: nonce_clock
  rr_meter_time :: datetime
  rr_audit_time :: datetime
  rr_audit_id :: string
  rr_traceback :: string

record rpc_server = dispatch_state +
  rs_nonces :: "nonce_store option"
  rs_audit :: "audit_log option"

type_synonym 'a stage = "(rpc_server, exn, reply + 'a) outcome"

definition bind_stage :: "'a stage \<Rightarrow> ('a \<Rightarrow> rpc_server \<Rightarrow> 'b stage) \<Rightarrow> 'b stage" where
  "bind_stage m k =
     (case m of
        (Inl x, s) \<Rightarrow> (Inl x, s)
      | (Inr (Inl r), s) \<Rightarrow> (Inr (Inl r), s)
      | (Inr (Inr a), s) \<Rightarrow> k a s)"

subsection \<open>Answers and metrics\<close>

definition error_reply :: "int \<Rightarrow> pydict \<Rightarrow> rpc_id option \<Rightarrow> reply" where
  "error_reply code data i =
     \<lparr>rp_status = 200, rp_headers = [], rp_body = ErrorBody (jsonrpc_error_from_code code (Some data)) i\<rparr>"

text \<open>A \<open>JSONResponse\<close>: the answer, or the exception of rendering it.\<close>

definition rendered :: "rpc_lib \<Rightarrow> reply \<Rightarrow> exn + reply" where
  "rendered lb r = (case rl_render lb (rp_body r) of None \<Rightarrow> Inr r | Some x \<Rightarrow> Inl (lift_exn x))"

text \<open>With an identifier as the peer sent it: the response model refuses one that is no string, integer or null.\<close>

definition build_error_response :: "rpc_lib \<Rightarrow> int \<Rightarrow> pydict \<Rightarrow> pyval \<Rightarrow> exn + reply" where
  "build_error_response lb code data request_id =
     (if request_id = PNone then rendered lb (error_reply code data None)
      else (case coerce_id request_id of
              None \<Rightarrow> Inl (OtherExn ''ValidationError'' ''JsonRpcErrorResponse'')
            | Some i \<Rightarrow> rendered lb (error_reply code data (Some i))))"

definition WWW_AUTHENTICATE_KEY :: string where
  "WWW_AUTHENTICATE_KEY = ''_www_authenticate_asap''"

text \<open>The data of the answer: the entry for the header is taken out of the details.\<close>

definition asap_reply_data :: "asap_error \<Rightarrow> pydict \<Rightarrow> pydict" where
  "asap_reply_data e extra =
     (let data = dict_merge (jsonrpc_error_data_for_asap_exception e) extra in
      case map_of data ''details'' of
        Some (PDict d) \<Rightarrow> AList.update ''details'' (PDict (AList.delete WWW_AUTHENTICATE_KEY d)) data
      | _ \<Rightarrow> data)"

definition asap_reply_headers :: "asap_error \<Rightarrow> pydict \<Rightarrow> (string \<times> string) list" where
  "asap_reply_headers e extra =
     (case map_of (dict_merge (jsonrpc_error_data_for_asap_exception e) extra) ''details'' of
        Some (PDict d) \<Rightarrow>
          (case map_of d WWW_AUTHENTICATE_KEY of Some (PStr wa) \<Rightarrow> [(''WWW-Authenticate'', wa)] | _ \<Rightarrow> [])
      | _ \<Rightarrow> [])"

definition asap_error_reply :: "asap_error \<Rightarrow> rpc_id option \<Rightarrow> pydict \<Rightarrow> reply" where
  "asap_error_reply e i extra =
     \<lparr>rp_status = 200, rp_headers = asap_reply_headers e extra,
      rp_body = ErrorBody \<lparr>je_code = ae_rpc_code e, je_message = ae_message e, je_data = Some (asap_reply_data e extra)\<rparr> i\<rparr>"

definition build_jsonrpc_error_for_asap_exception :: "rpc_lib \<Rightarrow> asap_error \<Rightarrow> rpc_id option \<Rightarrow> pydict \<Rightarrow> exn + reply" where
  "build_jsonrpc_error_for_asap_exception lb e i extra = rendered lb (asap_error_reply e i extra)"

definition normalize_payload_type_for_metrics :: "handler_registry \<Rightarrow> string \<Rightarrow> string" where
  "normalize_payload_type_for_metrics r pt = (if has_handler pt r then pt else ''other'')"

definition specific_counter :: "string \<Rightarrow> collector \<Rightarrow> collector" where
  "specific_counter error_type m =
     (if error_type = ''parse_error'' then increment_counter ''asap_parse_errors_total'' None 1 m
      else if error_type = ''auth_failed'' then increment_counter ''asap_auth_failures_total'' None 1 m
      else if error_type = ''invalid_timestamp'' then increment_counter ''asap_invalid_timestamp_total'' None 1 m
      else if error_type = ''invalid_nonce'' then increment_counter ''asap_invalid_nonce_total'' None 1 m
      else if error_type = ''sender_mismatch'' then increment_counter ''asap_sender_mismatch_total'' None 1 m
      else if error_type \<in> {''invalid_envelope'', ''missing_envelope'', ''invalid_params''}
        then increment_counter ''asap_validation_errors_total'' (Some [(''reason'', error_type)]) 1 m
      else m)"

definition error_metrics :: "string \<Rightarrow> string \<Rightarrow> rat \<Rightarrow> collector \<Rightarrow> collector" where
  "error_metrics npt error_type duration m =
     specific_counter error_type
       (observe_histogram ''asap_request_duration_seconds'' duration (Some [(''payload_type'', npt), (''status'', ''error'')])
         (increment_counter ''asap_requests_error_total'' (Some [(''payload_type'', npt), (''error_type'', error_type)]) 1
           (increment_counter ''asap_requests_total'' (Some [(''payload_type'', npt), (''status'', ''error'')]) 1 m)))"

definition record_error_metrics :: "string \<Rightarrow> string \<Rightarrow> rat \<Rightarrow> rpc_server \<Rightarrow> rpc_server" where
  "record_error_metrics pt error_type duration s =
     on_metrics (error_metrics (normalize_payload_type_for_metrics (ds_registry s) pt) error_type duration) s"

definition success_metrics :: "string \<Rightarrow> rat \<Rightarrow> collector \<Rightarrow> collector" where
  "success_metrics npt duration m =
     observe_histogram ''asap_request_duration_seconds'' duration (Some [(''payload_type'', npt), (''status'', ''success'')])
       (increment_counter ''asap_requests_success_total'' (Some [(''payload_type'', npt)]) 1
         (increment_counter ''asap_requests_total'' (Some [(''payload_type'', npt), (''status'', ''success'')]) 1 m))"

text \<open>A refusal: the answer, and the metrics of the error. The answer was built before, is built first, or is built after the error
  is counted.\<close>

definition refuse :: "string \<Rightarrow> string \<Rightarrow> rat \<Rightarrow> reply \<Rightarrow> rpc_server \<Rightarrow> 'a stage" where
  "refuse pt error_type duration r s = (Inr (Inl r), record_error_metrics pt error_type duration s)"

definition build_and_refuse :: "rpc_lib \<Rightarrow> string \<Rightarrow> string \<Rightarrow> rat \<Rightarrow> reply \<Rightarrow> rpc_server \<Rightarrow> 'a stage" where
  "build_and_refuse lb pt error_type duration r s =
     (case rendered lb r of Inl x \<Rightarrow> (Inl x, s) | Inr r' \<Rightarrow> refuse pt error_type duration r' s)"

definition refuse_and_build :: "rpc_lib \<Rightarrow> string \<Rightarrow> string \<Rightarrow> rat \<Rightarrow> reply \<Rightarrow> rpc_server \<Rightarrow> 'a stage" where
  "refuse_and_build lb pt error_type duration r s =
     (map_sum id Inl (rendered lb r), record_error_metrics pt error_type duration s)"

lemmas refuse_defs = refuse_def build_and_refuse_def refuse_and_build_def rendered_def

subsection \<open>The body\<close>

definition size_detail :: "string \<Rightarrow> nat \<Rightarrow> int \<Rightarrow> string" where
  "size_detail what n max_size =
     what @ '' size ('' @ str_int (int n) @ '' bytes) exceeds maximum ('' @ str_int max_size @ '' bytes)''"

text \<open>Reading stops at the first chunk that makes the body too large.\<close>

fun read_chunks :: "int \<Rightarrow> bytes \<Rightarrow> bytes list \<Rightarrow> exn + bytes" where
  "read_chunks max_size acc [] = Inr acc"
| "read_chunks max_size acc (c # cs) =
     (let body = acc @ c in
      if int (length body) > max_size then Inl (HttpExn 413 (size_detail ''Request'' (length body) max_size))
      else read_chunks max_size body cs)"

text \<open>A decompression error of the class \<open>zlib.error\<close> is neither a \<open>ValueError\<close> nor an \<open>OSError\<close>.\<close>

definition decompress_body :: "codec_lib \<Rightarrow> int \<Rightarrow> string \<Rightarrow> bytes \<Rightarrow> exn + bytes" where
  "decompress_body cl max_size encoding body =
     (case decompress_payload cl body encoding of
        Inl (CodecValueError x) \<Rightarrow> Inl (HttpExn 400 (''Failed to decompress request: '' @ x))
      | Inl (CodecOSError x) \<Rightarrow> Inl (HttpExn 400 (''Invalid compressed data: '' @ x))
      | Inl (CodecEOFError x) \<Rightarrow> Inl (HttpExn 400 (''Invalid compressed data: '' @ x))
      | Inl (CodecZlibError x) \<Rightarrow> Inl (OtherExn ''error'' x)
      | Inr d \<Rightarrow>
          if int (length d) > max_size then Inl (HttpExn 413 (size_detail ''Decompressed request'' (length d) max_size))
          else Inr d)"

fun json_exn :: "json_fail \<Rightarrow> exn" where
  "json_exn (BadUtf8 x) = OtherExn ''ValueError'' (''Invalid UTF-8 encoding: '' @ x)"
| "json_exn (BadJson x) = OtherExn ''ValueError'' (''Invalid JSON: '' @ x)"
| "json_exn (BadNumber x) = OtherExn ''ValueError'' x"
| "json_exn (BadNesting x) = OtherExn ''RecursionError'' x"

definition parse_json_body :: "rpc_lib \<Rightarrow> rpc_config \<Rightarrow> rpc_req \<Rightarrow> exn + pyval" where
  "parse_json_body lb cf rq =
     (let enc = strip (lower (rr_content_encoding rq)) in
      if enc \<noteq> [] \<and> enc \<notin> set (get_supported_encodings (rl_codec lb) @ [''identity'', ''''])
      then Inl (HttpExn 415 (''Unsupported Content-Encoding: '' @ enc @ ''. Supported: '' @
                             str_join '', '' (get_supported_encodings (rl_codec lb))))
      else (case read_chunks (cf_max_request_size cf) [] (rr_chunks rq) of
              Inl x \<Rightarrow> Inl x
            | Inr raw \<Rightarrow>
                (case (if enc \<noteq> [] \<and> enc \<notin> {''identity'', ''''}
                       then decompress_body (rl_codec lb) (cf_max_request_size cf) enc raw else Inr raw) of
                   Inl x \<Rightarrow> Inl x
                 | Inr body \<Rightarrow>
                     (case rl_loads lb body of Inl f \<Rightarrow> Inl (json_exn f) | Inr v \<Rightarrow> Inr v))))"

subsection \<open>The JSON-RPC frame\<close>

definition get_or_none :: "pydict \<Rightarrow> string \<Rightarrow> pyval" where
  "get_or_none d k = (case map_of d k of None \<Rightarrow> PNone | Some v \<Rightarrow> v)"

text \<open>Only a present \<open>params\<close> that is no object gives pydantic's \<open>dict_type\<close> error at \<open>params\<close>.\<close>

definition params_not_dict :: "pydict \<Rightarrow> bool" where
  "params_not_dict body =
     (case map_of body ''params'' of None \<Rightarrow> False | Some (PDict d) \<Rightarrow> False | Some v \<Rightarrow> True)"

definition validate_jsonrpc_request :: "rpc_lib \<Rightarrow> pydict \<Rightarrow> exn + (reply + jsonrpc_request)" where
  "validate_jsonrpc_request lb body =
     (case parse_jsonrpc_request body of
        None \<Rightarrow>
          (let (code, msg) = (if params_not_dict body
                 then (INVALID_PARAMS, ''JSON-RPC '' @ [CHR 0x27] @ ''params'' @ [CHR 0x27] @ '' must be an object'')
                 else (INVALID_REQUEST, ''Invalid JSON-RPC structure''))
           in map_sum id Inl (build_error_response lb code
                [(''error'', PStr msg), (''validation_errors'', rl_request_errors lb body)] (get_or_none body ''id'')))
      | Some rpc \<Rightarrow>
          if jr_method rpc \<noteq> ASAP_METHOD
          then map_sum id Inl (rendered lb (error_reply METHOD_NOT_FOUND [(''method'', PStr (jr_method rpc))] (Some (jr_id rpc))))
          else Inr (Inr rpc))"

definition parse_and_validate_request ::
  "rpc_lib \<Rightarrow> rpc_config \<Rightarrow> rpc_req \<Rightarrow> rpc_server \<Rightarrow> jsonrpc_request stage" where
  "parse_and_validate_request lb cf rq s =
     (case parse_json_body lb cf rq of
        Inl (HttpExn status detail) \<Rightarrow>
          (map_sum id Inl (rendered lb \<lparr>rp_status = status, rp_headers = [], rp_body = PlainBody [(''detail'', PStr detail)]\<rparr>), s)
      | Inl (OtherExn t x) \<Rightarrow>
          (if t = ''ValueError'' then build_and_refuse lb ''unknown'' ''parse_error'' 0 (error_reply PARSE_ERROR [(''error'', PStr x)] None) s
           else (Inl (OtherExn t x), s))
      | Inl x \<Rightarrow> (Inl x, s)
      | Inr (PDict body) \<Rightarrow>
          (case validate_jsonrpc_request lb body of
             Inl x \<Rightarrow> (Inl x, s)
           | Inr (Inl r) \<Rightarrow> refuse ''unknown'' ''invalid_request'' 0 r s
           | Inr (Inr rpc) \<Rightarrow> (Inr (Inr rpc), s))
      | Inr v \<Rightarrow>
          build_and_refuse lb ''unknown'' ''invalid_request'' 0
            (error_reply INVALID_REQUEST
              [(''error'', PStr ''JSON-RPC request must be an object''), (''received_type'', PStr (type_name v))] None) s)"

subsection \<open>Authentication and the envelope\<close>

definition authenticate_request ::
  "rpc_lib \<Rightarrow> rpc_config \<Rightarrow> rpc_req \<Rightarrow> jsonrpc_request \<Rightarrow> rpc_server \<Rightarrow> string option stage" where
  "authenticate_request lb cf rq rpc s =
     (case cf_auth cf of
        None \<Rightarrow> (Inr (Inr None), s)
      | Some am \<Rightarrow>
          (case verify_authentication am (rr_credentials rq) of
             Inr agent_id \<Rightarrow> (Inr (Inr agent_id), s)
           | Inl (HttpExn status detail) \<Rightarrow>
               build_and_refuse lb ''unknown'' ''auth_failed'' (rr_duration rq)
                 (error_reply (if status = 401 then INVALID_REQUEST else INVALID_PARAMS)
                   [(''error'', PStr detail), (''status_code'', PInt status)] (Some (jr_id rpc))) s
           | Inl x \<Rightarrow> (Inl x, s)))"

definition build_envelope :: "rpc_lib \<Rightarrow> rpc_req \<Rightarrow> pydict \<Rightarrow> exn + (pyval + envelope)" where
  "build_envelope lb rq data =
     envelope_from_dict (rl_envelope lb) (rl_validator_errors lb) (rr_new_id rq) (rr_parse_time rq) data"

text \<open>\<open>_validate_envelope\<close>. The parameters of a parsed request are an object, so the first test of the
  code never fails.\<close>

definition request_envelope :: "rpc_lib \<Rightarrow> rpc_req \<Rightarrow> jsonrpc_request \<Rightarrow> rpc_server \<Rightarrow> envelope stage" where
  "request_envelope lb rq rpc s =
     (let i = Some (jr_id rpc) in
      case get_or_none (jr_params rpc) ''envelope'' of
        PNone \<Rightarrow>
          build_and_refuse lb ''unknown'' ''missing_envelope'' (rr_duration rq)
            (error_reply INVALID_PARAMS [(''error'', PStr (''Missing '' @ [CHR 0x27] @ ''envelope'' @ [CHR 0x27] @ '' in params''))] i) s
      | PDict data \<Rightarrow>
          (case build_envelope lb rq data of
             Inl x \<Rightarrow> (Inl x, s)
           | Inr (Inl errs) \<Rightarrow>
               refuse_and_build lb ''unknown'' ''invalid_envelope'' (rr_duration rq)
                 (error_reply INVALID_PARAMS
                   [(''error'', PStr ''Invalid envelope structure''), (''validation_errors'', errs)] i) s
           | Inr (Inr e) \<Rightarrow> (Inr (Inr e), s))
      | _ \<Rightarrow>
          build_and_refuse lb ''unknown'' ''invalid_envelope'' (rr_duration rq)
            (error_reply INVALID_PARAMS [(''error'', PStr ([CHR 0x27] @ ''envelope'' @ [CHR 0x27] @ '' must be a JSON object''))] i) s)"

text \<open>Activating the trace context: \<open>len\<close> of a number and \<open>int(x, 16)\<close> of something that is no string raise
  \<open>TypeError\<close>; the identifier of the trace is converted first, and its \<open>ValueError\<close> is caught.\<close>

definition EXTENSION_SPAN_ID :: string where
  "EXTENSION_SPAN_ID = ''span_id''"

definition activate_trace :: "envelope \<Rightarrow> exn + unit" where
  "activate_trace e =
     (case trace_id e of
        None \<Rightarrow> Inr ()
      | Some t \<Rightarrow>
          if length t \<noteq> 32 then Inr ()
          else (case get_or_none (or_empty (extensions e)) EXTENSION_SPAN_ID of
                  PStr p \<Rightarrow> Inr ()
                | PList l \<Rightarrow> if length l = 16 \<and> hex_literal t then Inl (OtherExn ''TypeError'' ''int() with explicit base'') else Inr ()
                | PDict d \<Rightarrow> if length d = 16 \<and> hex_literal t then Inl (OtherExn ''TypeError'' ''int() with explicit base'') else Inr ()
                | v \<Rightarrow> if py_truthy v then Inl (OtherExn ''TypeError'' ''object has no len()'') else Inr ()))"

definition trace_stage :: "envelope \<Rightarrow> rpc_server \<Rightarrow> unit stage" where
  "trace_stage e s = (map_sum id Inr (activate_trace e), s)"

definition verify_sender_stage ::
  "rpc_lib \<Rightarrow> rpc_config \<Rightarrow> rpc_req \<Rightarrow> jsonrpc_request \<Rightarrow> string option \<Rightarrow> envelope \<Rightarrow> rpc_server \<Rightarrow> unit stage" where
  "verify_sender_stage lb cf rq rpc agent_id e s =
     (case cf_auth cf of
        None \<Rightarrow> (Inr (Inr ()), s)
      | Some am \<Rightarrow>
          (case verify_sender_matches_auth agent_id (sender e) of
             Inr u \<Rightarrow> (Inr (Inr ()), s)
           | Inl (HttpExn status detail) \<Rightarrow>
               build_and_refuse lb (payload_type e) ''sender_mismatch'' (rr_duration rq)
                 (error_reply INVALID_PARAMS [(''error'', PStr detail), (''status_code'', PInt status)] (Some (jr_id rpc))) s
           | Inl x \<Rightarrow> (Inl x, s)))"

subsection \<open>Timestamp and nonce\<close>

definition micro_seconds :: "int \<Rightarrow> rat" where
  "micro_seconds t = of_int t / 1000000"

definition env_id_value :: "envelope \<Rightarrow> pyval" where
  "env_id_value e = (case env_id e of None \<Rightarrow> PNone | Some i \<Rightarrow> PStr i)"

definition utc_text :: "rpc_lib \<Rightarrow> envelope \<Rightarrow> string" where
  "utc_text lb e = (case env_timestamp e of None \<Rightarrow> [] | Some t \<Rightarrow> rl_isoformat lb (to_utc t))"

text \<open>The text of the value a nonce has when it is no non-empty string.\<close>

definition nonce_value :: "envelope \<Rightarrow> pyval" where
  "nonce_value e = get_or_none (or_empty (extensions e)) ''nonce''"

text \<open>The exceptions \<open>validate_envelope_timestamp\<close> and \<open>validate_envelope_nonce\<close> raise.\<close>

fun envelope_exn :: "rpc_lib \<Rightarrow> envelope \<Rightarrow> envelope_error \<Rightarrow> py_exn + asap_error" where
  "envelope_exn lb e TimestampRequired =
     invalid_timestamp_error [] ''Envelope timestamp is required for validation'' None None
       (Some [(''envelope_id'', env_id_value e)]) (Some 5000)"
| "envelope_exn lb e (TimestampTooOld age) =
     invalid_timestamp_error (utc_text lb e)
       (''Envelope timestamp is too old: '' @ rl_fixed1 lb (micro_seconds age) @ '' seconds (max: 300 seconds)'')
       (Some (micro_seconds age)) None
       (Some [(''envelope_id'', env_id_value e), (''max_age_seconds'', PInt MAX_ENVELOPE_AGE_SECONDS)]) (Some 5000)"
| "envelope_exn lb e (TimestampTooFarInFuture off) =
     invalid_timestamp_error (utc_text lb e)
       (''Envelope timestamp is too far in the future: '' @ rl_fixed1 lb (micro_seconds off) @
        '' seconds (max tolerance: 30 seconds)'')
       None (Some (micro_seconds off))
       (Some [(''envelope_id'', env_id_value e), (''max_future_tolerance_seconds'', PInt MAX_FUTURE_TOLERANCE_SECONDS)]) (Some 5000)"
| "envelope_exn lb e NonceMalformed =
     invalid_nonce_error (py_str (rl_str lb) (nonce_value e))
       (''Nonce must be a non-empty string, got '' @
        (case nonce_value e of PStr s \<Rightarrow> ''empty string'' | v \<Rightarrow> type_name v))
       (Some [(''envelope_id'', env_id_value e)])"
| "envelope_exn lb e (NonceDuplicate n) =
     invalid_nonce_error n (''Duplicate nonce detected: '' @ n) (Some [(''envelope_id'', env_id_value e)])"

definition refuse_envelope ::
  "rpc_lib \<Rightarrow> rpc_req \<Rightarrow> jsonrpc_request \<Rightarrow> envelope \<Rightarrow> string \<Rightarrow> string \<Rightarrow> envelope_error \<Rightarrow> rpc_server \<Rightarrow> unit stage" where
  "refuse_envelope lb rq rpc e error_type msg x s =
     (case envelope_exn lb e x of
        Inl p \<Rightarrow> (Inl (raised (Inl p)), s)
      | Inr err \<Rightarrow>
          refuse_and_build lb (payload_type e) error_type (rr_duration rq)
            (asap_error_reply err (Some (jr_id rpc)) [(''error'', PStr msg)]) s)"

definition timestamp_stage :: "rpc_lib \<Rightarrow> rpc_req \<Rightarrow> jsonrpc_request \<Rightarrow> envelope \<Rightarrow> rpc_server \<Rightarrow> unit stage" where
  "timestamp_stage lb rq rpc e s =
     (case validate_envelope_timestamp (rr_check_time rq) e of
        Inl x \<Rightarrow> refuse_envelope lb rq rpc e ''invalid_timestamp'' ''Invalid envelope timestamp'' x s
      | Inr u \<Rightarrow> (Inr (Inr ()), s))"

definition nonce_stage :: "rpc_lib \<Rightarrow> rpc_req \<Rightarrow> jsonrpc_request \<Rightarrow> envelope \<Rightarrow> rpc_server \<Rightarrow> unit stage" where
  "nonce_stage lb rq rpc e s =
     (case validate_envelope_nonce (rr_nonce_clock rq) e (rs_nonces s) of
        (Inl x, n') \<Rightarrow> refuse_envelope lb rq rpc e ''invalid_nonce'' ''Invalid envelope nonce'' x (s\<lparr>rs_nonces := n'\<rparr>)
      | (Inr u, n') \<Rightarrow> (Inr (Inr ()), s\<lparr>rs_nonces := n'\<rparr>))"

subsection \<open>The pipeline\<close>

record prepared_request =
  pr_rpc :: jsonrpc_request
  pr_envelope :: envelope
  pr_agent_id :: "string option"

definition prepare_request :: "rpc_lib \<Rightarrow> rpc_config \<Rightarrow> rpc_req \<Rightarrow> rpc_server \<Rightarrow> prepared_request stage" where
  "prepare_request lb cf rq s =
     bind_stage (parse_and_validate_request lb cf rq s) (\<lambda>rpc s1.
     bind_stage (authenticate_request lb cf rq rpc s1) (\<lambda>agent_id s2.
     bind_stage (request_envelope lb rq rpc s2) (\<lambda>e s3.
     bind_stage (trace_stage e s3) (\<lambda>_ s4.
     bind_stage (verify_sender_stage lb cf rq rpc agent_id e s4) (\<lambda>_ s5.
     bind_stage (timestamp_stage lb rq rpc e s5) (\<lambda>_ s6.
     bind_stage (nonce_stage lb rq rpc e s6) (\<lambda>_ s7.
     (Inr (Inr \<lparr>pr_rpc = rpc, pr_envelope = e, pr_agent_id = agent_id\<rparr>), s7))))))))"

definition optional_int :: "int option \<Rightarrow> pyval" where
  "optional_int v = (case v of None \<Rightarrow> PNone | Some i \<Rightarrow> PInt i)"

definition optional_text :: "string option \<Rightarrow> pyval" where
  "optional_text v = (case v of None \<Rightarrow> PNone | Some t \<Rightarrow> PStr t)"

definition unavailable_reply :: "asap_error \<Rightarrow> reply" where
  "unavailable_reply e =
     \<lparr>rp_status = 503, rp_headers = [],
      rp_body = PlainBody
        [(''error'', PStr ''Service Temporarily Unavailable''), (''code'', PStr (ae_code e)),
         (''rpc_code'', PInt (ae_rpc_code e)), (''message'', PStr (ae_message e)), (''details'', PDict (ae_details e)),
         (''recoverable'', PBool True), (''retry_after_ms'', optional_int (ae_retry_after_ms e)),
         (''fallback_action'', optional_text (ae_fallback_action e))]\<rparr>"

definition dispatch_to_handler ::
  "rpc_lib \<Rightarrow> rpc_config \<Rightarrow> rpc_req \<Rightarrow> prepared_request \<Rightarrow> rpc_server \<Rightarrow> envelope stage" where
  "dispatch_to_handler lb cf rq p s =
     (let e = pr_envelope p; i = Some (jr_id (pr_rpc p)) in
      case dispatch_async (rl_str lb) (rr_meter_time rq) (rr_handler_ms rq) (cf_manifest cf) e s of
        (Inr response, s1) \<Rightarrow> (Inr (Inr response), s1)
      | (Inl (AsapExn err), s1) \<Rightarrow>
          (if ae_class err = ThreadPoolExhaustedError
           then refuse_and_build lb (payload_type e) ''thread_pool_exhausted'' (rr_duration rq) (unavailable_reply err) s1
           else if ae_class err = HandlerNotFoundError
           then refuse_and_build lb (payload_type e) ''handler_not_found'' (rr_duration rq)
                  (asap_error_reply err i [(''error'', PStr (ae_message err))]) s1
           else (Inl (AsapExn err), s1))
      | (Inl x, s1) \<Rightarrow> (Inl x, s1))"

definition audit_log_operation :: "rpc_lib \<Rightarrow> rpc_req \<Rightarrow> envelope \<Rightarrow> envelope \<Rightarrow> rpc_server \<Rightarrow> rpc_server" where
  "audit_log_operation lb rq e response s =
     (case rs_audit s of
        None \<Rightarrow> s
      | Some es \<Rightarrow>
          s\<lparr>rs_audit := Some (snd (audit_append (rl_audit lb)
              \<lparr>au_id = rr_audit_id rq, au_timestamp = rr_audit_time rq, au_operation = payload_type e, au_agent_urn = sender e,
               au_details = [(''envelope_id'', env_id_value e), (''response_id'', env_id_value response)],
               au_prev_hash = [], au_hash = []\<rparr> es))\<rparr>)"

text \<open>The success is counted before the answer is built. The compressed form is tried when the client accepts it, and given up when it
  cannot be encoded.\<close>

definition build_success_response ::
  "rpc_lib \<Rightarrow> rpc_req \<Rightarrow> prepared_request \<Rightarrow> envelope \<Rightarrow> rpc_server \<Rightarrow> (rpc_server, exn, reply) outcome" where
  "build_success_response lb rq p response s =
     (let r = rl_inject_trace lb response;
          npt = normalize_payload_type_for_metrics (ds_registry s) (payload_type (pr_envelope p));
          i = jr_id (pr_rpc p);
          accept_lambda = has_substring LAMBDA_CONTENT_TYPE (rr_accept rq)
      in (rendered lb \<lparr>rp_status = 200, rp_headers = [],
            rp_body = (if accept_lambda \<and> rl_render lb (LambdaBody r i) = None then LambdaBody r i else ResultBody r i)\<rparr>,
          on_metrics (success_metrics npt (rr_duration rq)) s))"

definition handle_internal_error ::
  "rpc_lib \<Rightarrow> rpc_config \<Rightarrow> rpc_req \<Rightarrow> exn \<Rightarrow> rpc_id \<Rightarrow> string \<Rightarrow> rpc_server \<Rightarrow> (rpc_server, exn, reply) outcome" where
  "handle_internal_error lb cf rq x i pt s =
     (let data = (if cf_debug cf
            then [(''error'', PStr (exn_text x)), (''type'', PStr (exn_type x)), (''traceback'', PStr (rr_traceback rq))]
            else [(''error'', PStr ''Internal server error'')])
      in (rendered lb (error_reply INTERNAL_ERROR data (Some i)), record_error_metrics pt ''internal_error'' (rr_duration rq) s))"

text \<open>The two \<open>except\<close> clauses of \<open>handle_message\<close>. An exception raised in one of them is not caught by the other.\<close>

definition answer_exception ::
  "rpc_lib \<Rightarrow> rpc_config \<Rightarrow> rpc_req \<Rightarrow> exn \<Rightarrow> rpc_id \<Rightarrow> string \<Rightarrow> rpc_server \<Rightarrow> (rpc_server, exn, reply) outcome" where
  "answer_exception lb cf rq x i pt s =
     (case asap_exn x of
        Some (e, msg) \<Rightarrow>
          (build_jsonrpc_error_for_asap_exception lb e (Some i) [(''error'', PStr msg)],
           record_error_metrics pt (class_name (ae_class e)) (rr_duration rq) s)
      | None \<Rightarrow> handle_internal_error lb cf rq x i pt s)"

text \<open>Before a request is prepared, the context is the fallback one, with the empty identifier. An exception that leaves the
  method is the framework's: it answers with status 500.\<close>

definition handle_message :: "rpc_lib \<Rightarrow> rpc_config \<Rightarrow> rpc_req \<Rightarrow> rpc_server \<Rightarrow> (rpc_server, exn, reply) outcome" where
  "handle_message lb cf rq s =
     (case prepare_request lb cf rq s of
        (Inl x, s1) \<Rightarrow> answer_exception lb cf rq x (IdStr []) ''unknown'' s1
      | (Inr (Inl r), s1) \<Rightarrow> (Inr r, s1)
      | (Inr (Inr p), s1) \<Rightarrow>
          (let failed = (\<lambda>x. answer_exception lb cf rq x (jr_id (pr_rpc p)) (payload_type (pr_envelope p))) in
           case dispatch_to_handler lb cf rq p s1 of
             (Inl x, s2) \<Rightarrow> failed x s2
           | (Inr (Inl r), s2) \<Rightarrow> (Inr r, s2)
           | (Inr (Inr response), s2) \<Rightarrow>
               (case build_success_response lb rq p response (audit_log_operation lb rq (pr_envelope p) response s2) of
                  (Inl x, s3) \<Rightarrow> failed x s3
                | (Inr r, s3) \<Rightarrow> (Inr r, s3))))"

text \<open>The preparation of a streaming request, and the stream: the envelopes sent, and whether it ended well.\<close>

definition prepare_streaming_request :: "rpc_lib \<Rightarrow> rpc_config \<Rightarrow> rpc_req \<Rightarrow> rpc_server \<Rightarrow> prepared_request stage" where
  "prepare_streaming_request lb cf rq s =
     bind_stage (prepare_request lb cf rq s) (\<lambda>p s1.
       let pt = payload_type (pr_envelope p) in
       if has_streaming_handler pt (ds_registry s1) then (Inr (Inr p), s1)
       else (case handler_not_found_error pt of
               Inl x \<Rightarrow> (Inl (raised (Inl x)), s1)
             | Inr err \<Rightarrow>
                 refuse_and_build lb pt ''handler_not_found'' (rr_duration rq)
                   (asap_error_reply err (Some (jr_id (pr_rpc p)))
                     [(''error'', PStr ''No streaming handler registered for payload type'')]) s1))"

definition handle_stream ::
  "rpc_lib \<Rightarrow> rpc_config \<Rightarrow> rpc_req \<Rightarrow> rpc_server \<Rightarrow> (rpc_server, exn, reply + (envelope list \<times> exn option)) outcome" where
  "handle_stream lb cf rq s =
     (case prepare_streaming_request lb cf rq s of
        (Inl x, s1) \<Rightarrow> map_prod (map_sum id Inl) id (handle_internal_error lb cf rq x (IdStr []) ''unknown'' s1)
      | (Inr (Inl r), s1) \<Rightarrow> (Inr (Inl r), s1)
      | (Inr (Inr p), s1) \<Rightarrow>
          (case dispatch_stream_async (rr_handler_ms rq) (cf_manifest cf) (pr_envelope p) s1 of
             ((es, None), s2) \<Rightarrow>
               (Inr (Inr (map (rl_inject_trace lb) es, None)),
                on_metrics (success_metrics (normalize_payload_type_for_metrics (ds_registry s2) (payload_type (pr_envelope p)))
                  (rr_duration rq)) s2)
           | ((es, Some x), s2) \<Rightarrow> (Inr (Inr (map (rl_inject_trace lb) es, Some x)), s2)))"

subsection \<open>Counting requests\<close>

definition has_request_counters :: "collector \<Rightarrow> bool" where
  "has_request_counters m \<longleftrightarrow> (\<forall>n \<in> set request_counters. map_of (counters m) n \<noteq> None)"

text \<open>One more request, of an error or of a success.\<close>

definition counted :: "bool \<Rightarrow> collector \<Rightarrow> collector \<Rightarrow> bool" where
  "counted ok m m' \<longleftrightarrow> has_request_counters m' \<and>
     counter_total ''asap_requests_total'' m' = counter_total ''asap_requests_total'' m + 1 \<and>
     counter_total ''asap_requests_success_total'' m' = counter_total ''asap_requests_success_total'' m + (if ok then 1 else 0) \<and>
     counter_total ''asap_requests_error_total'' m' = counter_total ''asap_requests_error_total'' m + (if ok then 0 else 1)"

lemma counted_same:
  "same_requests m m1 \<Longrightarrow> counted ok m1 m' \<Longrightarrow> counted ok m m'"
  by (simp add: counted_def same_requests_def request_counters_def)

lemma has_request_counters_same: "same_requests m m' \<Longrightarrow> has_request_counters m \<Longrightarrow> has_request_counters m'"
  by (simp add: has_request_counters_def same_requests_def)

lemma specific_counter_same: "same_requests m (specific_counter t m)"
  unfolding specific_counter_def
  by (simp add: same_requests_increment request_counters_def)

lemma error_metrics_counts:
  assumes "has_request_counters m"
  shows "counted False m (error_metrics npt t d m)"
proof -
  let ?m1 = "observe_histogram ''asap_request_duration_seconds'' d (Some [(''payload_type'', npt), (''status'', ''error'')])
    (increment_counter ''asap_requests_error_total'' (Some [(''payload_type'', npt), (''error_type'', t)]) 1
      (increment_counter ''asap_requests_total'' (Some [(''payload_type'', npt), (''status'', ''error'')]) 1 m))"
  have "counted False m ?m1"
    using assms by (simp add: counted_def counter_total_increment increment_counter_known has_request_counters_def request_counters_def)
  with specific_counter_same [of ?m1 t] show ?thesis
    by (simp add: error_metrics_def counted_def same_requests_def request_counters_def has_request_counters_def)
qed

lemma success_metrics_counts: "has_request_counters m \<Longrightarrow> counted True m (success_metrics npt d m)"
  by (simp add: success_metrics_def counted_def counter_total_increment increment_counter_known
      has_request_counters_def request_counters_def)

text \<open>How an answer is counted: not at all when the body could not be read, else as an error or a success.\<close>

definition answered :: "collector \<Rightarrow> reply \<Rightarrow> collector \<Rightarrow> bool" where
  "answered m r m' =
     (case rp_body r of
        PlainBody d \<Rightarrow> if rp_status r = 503 then counted False m m' else same_requests m m'
      | ErrorBody e i \<Rightarrow> counted False m m'
      | _ \<Rightarrow> counted True m m')"

lemma answered_same: "same_requests m m1 \<Longrightarrow> answered m1 r m' \<Longrightarrow> answered m r m'"
  by (auto simp: answered_def intro: counted_same same_requests_trans split: reply_body.splits if_splits)

subsection \<open>Stages\<close>

lemma bind_stage_simps [simp]:
  "bind_stage (Inl x, s) k = (Inl x, s)" "bind_stage (Inr (Inl r), s) k = (Inr (Inl r), s)"
  "bind_stage (Inr (Inr a), s) k = k a s"
  by (simp_all add: bind_stage_def)

lemma bind_stage_passed:
  assumes "bind_stage m k = (Inr (Inr b), s')"
  obtains a s1 where "m = (Inr (Inr a), s1)" "k a s1 = (Inr (Inr b), s')"
  using assms by (auto simp: bind_stage_def split: prod.splits sum.splits)

lemma asap_exn_lift [simp]: "asap_exn (lift_exn p) = None"
  by (cases p) simp_all

text \<open>An exception of rendering an answer.\<close>

definition unrendered :: "rpc_lib \<Rightarrow> exn \<Rightarrow> bool" where
  "unrendered lb x \<longleftrightarrow> (\<exists>b p. rl_render lb b = Some p \<and> x = lift_exn p)"

lemma unrenderedI: "rl_render lb b = Some p \<Longrightarrow> unrendered lb (lift_exn p)"
  by (auto simp: unrendered_def)

lemma rendered_cases:
  obtains (ok) "rendered lb r = Inr r" "rl_render lb (rp_body r) = None"
  | (failed) p where "rendered lb r = Inl (lift_exn p)" "rl_render lb (rp_body r) = Some p" "unrendered lb (lift_exn p)"
  by (cases "rl_render lb (rp_body r)") (auto simp: rendered_def unrendered_def)

text \<open>A stage before dispatch runs no handler and keeps the registry and the audit log; it counts a request
  when it answers it, and possibly when its answer cannot be rendered.\<close>

definition quiet :: "rpc_lib \<Rightarrow> rpc_server \<Rightarrow> 'a stage \<Rightarrow> bool" where
  "quiet lb s m =
     (case m of (out, s') \<Rightarrow>
        ds_calls s' = ds_calls s \<and> ds_registry s' = ds_registry s \<and> rs_audit s' = rs_audit s \<and>
        (case out of
           Inr (Inl r) \<Rightarrow> has_request_counters (ds_metrics s) \<longrightarrow> answered (ds_metrics s) r (ds_metrics s')
         | Inr (Inr a) \<Rightarrow> ds_metrics s' = ds_metrics s
         | Inl x \<Rightarrow> ds_metrics s' = ds_metrics s \<or>
             unrendered lb x \<and> (has_request_counters (ds_metrics s) \<longrightarrow> counted False (ds_metrics s) (ds_metrics s'))))"

lemma quiet_bind:
  assumes "quiet lb s m" "\<And>a s1. m = (Inr (Inr a), s1) \<Longrightarrow> quiet lb s1 (k a s1)"
  shows "quiet lb s (bind_stage m k)"
proof (cases m)
  case (Pair out s1)
  show ?thesis
  proof (cases out)
    case (Inr b)
    show ?thesis
    proof (cases b)
      case (Inr a)
      with Pair \<open>out = Inr b\<close> assms(1) assms(2) [of a s1] show ?thesis
        by (auto simp: quiet_def split: prod.splits sum.splits)
    qed (use Pair Inr assms(1) in \<open>simp add: quiet_def\<close>)
  qed (use Pair assms(1) in \<open>simp add: quiet_def\<close>)
qed

text \<open>The answers of refusals that are counted.\<close>

definition counted_reply :: "reply \<Rightarrow> bool" where
  "counted_reply r = (case rp_body r of ErrorBody e i \<Rightarrow> True | PlainBody d \<Rightarrow> rp_status r = 503 | _ \<Rightarrow> False)"

lemma answered_counted: "counted_reply r \<Longrightarrow> counted False m m' \<Longrightarrow> answered m r m'"
  by (auto simp: counted_reply_def answered_def split: reply_body.splits)

lemma refuse_quiet:
  assumes "counted_reply r" "ds_calls s' = ds_calls s" "ds_registry s' = ds_registry s" "rs_audit s' = rs_audit s" "ds_metrics s' = ds_metrics s"
  shows "quiet lb s (refuse pt t d r s' :: 'a stage)"
    "quiet lb s (build_and_refuse lb pt t d r s' :: 'a stage)"
    "quiet lb s (refuse_and_build lb pt t d r s' :: 'a stage)"
proof -
  have counts: "has_request_counters (ds_metrics s) \<Longrightarrow> counted False (ds_metrics s) (ds_metrics (record_error_metrics pt t d s'))"
    using assms(5) by (simp add: record_error_metrics_def on_metrics_def error_metrics_counts)
  have keeps: "ds_calls (record_error_metrics pt t d s') = ds_calls s" "ds_registry (record_error_metrics pt t d s') = ds_registry s"
    "rs_audit (record_error_metrics pt t d s') = rs_audit s"
    using assms by (simp_all add: record_error_metrics_def on_metrics_def)
  show refuse: "quiet lb s (refuse pt t d r s' :: 'a stage)"
    using counts keeps assms(1) by (auto simp: quiet_def refuse_def intro: answered_counted)
  show "quiet lb s (build_and_refuse lb pt t d r s' :: 'a stage)"
    using refuse assms by (cases rule: rendered_cases [of lb r]) (auto simp: build_and_refuse_def quiet_def)
  show "quiet lb s (refuse_and_build lb pt t d r s' :: 'a stage)"
    using counts keeps assms(1)
    by (cases rule: rendered_cases [of lb r]) (auto simp: refuse_and_build_def quiet_def intro: answered_counted)
qed

lemma error_reply_body [simp]:
  "rp_body (error_reply code data i) = ErrorBody (jsonrpc_error_from_code code (Some data)) i" "rp_status (error_reply code data i) = 200"
  by (simp_all add: error_reply_def)

lemma asap_reply_body [simp]:
  "rp_body (asap_error_reply e i extra) =
     ErrorBody \<lparr>je_code = ae_rpc_code e, je_message = ae_message e, je_data = Some (asap_reply_data e extra)\<rparr> i"
  "rp_status (asap_error_reply e i extra) = 200"
  by (simp_all add: asap_error_reply_def)

lemma counted_reply_simps [simp]:
  "counted_reply (error_reply code data i)" "counted_reply (asap_error_reply e i extra)" "counted_reply (unavailable_reply e)"
  by (simp_all add: counted_reply_def unavailable_reply_def)

subsection \<open>The stages before dispatch\<close>

lemma refusal_not_passed [simp]:
  "(refuse pt t d r s :: 'a stage) \<noteq> (Inr (Inr a), s')" "(build_and_refuse lb pt t d r s :: 'a stage) \<noteq> (Inr (Inr a), s')"
  "(refuse_and_build lb pt t d r s :: 'a stage) \<noteq> (Inr (Inr a), s')" "map_sum id Inl (rendered lb r) \<noteq> Inr (Inr a)"
  by (cases rule: rendered_cases [of lb r]; simp add: refuse_def build_and_refuse_def refuse_and_build_def)+

lemma quiet_passed [simp]:
  "quiet lb s (Inr (Inr a), s')\<longleftrightarrow> ds_calls s' = ds_calls s \<and> ds_registry s' = ds_registry s \<and> rs_audit s' = rs_audit s \<and> ds_metrics s' = ds_metrics s"
  by (auto simp: quiet_def)

lemma quiet_raised [simp]:
  "ds_calls s' = ds_calls s \<Longrightarrow> ds_registry s' = ds_registry s \<Longrightarrow> rs_audit s' = rs_audit s \<Longrightarrow> ds_metrics s' = ds_metrics s \<Longrightarrow>
   quiet lb s (Inl x, s')"
  by (simp add: quiet_def)

lemma error_reply_quiet [simp]:
  "quiet lb s (refuse pt t d (error_reply code data i) s :: 'a stage)"
  "quiet lb s (build_and_refuse lb pt t d (error_reply code data i) s :: 'a stage)"
  "quiet lb s (refuse_and_build lb pt t d (error_reply code data i) s :: 'a stage)"
  by (simp_all add: refuse_quiet)

lemma read_chunks_exn: "read_chunks n acc cs = Inl x \<Longrightarrow> \<exists>d. x = HttpExn 413 d"
  by (induction n acc cs rule: read_chunks.induct) (auto simp: Let_def split: if_splits)

text \<open>The exceptions that leave the reading of the body.\<close>

definition body_exn :: "exn \<Rightarrow> bool" where
  "body_exn x = (case x of HttpExn status d \<Rightarrow> status \<in> {400, 413, 415} | OtherExn t m \<Rightarrow> True | _ \<Rightarrow> False)"

lemma parse_json_body_exn: "parse_json_body lb cf rq = Inl x \<Longrightarrow> body_exn x"
proof -
  assume "parse_json_body lb cf rq = Inl x"
  moreover have "body_exn (json_exn f)" for f by (cases f) (simp_all add: body_exn_def)
  moreover have "body_exn y" if "decompress_body cl n enc b = Inl y" for cl n enc b y
    using that by (auto simp: decompress_body_def body_exn_def split: sum.splits codec_exn.splits if_splits)
  moreover have "body_exn y" if "read_chunks n acc cs = Inl y" for n acc cs y
    using read_chunks_exn [OF that] by (auto simp: body_exn_def)
  moreover have "body_exn (HttpExn 415 d)" for d by (simp add: body_exn_def)
  ultimately show ?thesis
    unfolding parse_json_body_def Let_def by (auto split: if_splits sum.splits)
qed

lemma validate_jsonrpc_request_reply:
  assumes "validate_jsonrpc_request lb body = Inr (Inl r)"
  obtains code data i where "r = error_reply code data i" "code \<in> {INVALID_PARAMS, INVALID_REQUEST, METHOD_NOT_FOUND}"
  using assms
  by (auto simp: validate_jsonrpc_request_def build_error_response_def rendered_def Let_def split: option.splits if_splits sum.splits)

lemma parse_stage_quiet: "quiet lb s (parse_and_validate_request lb cf rq s)"
proof (cases "parse_json_body lb cf rq")
  case (Inl x)
  with parse_json_body_exn [OF this] show ?thesis
    by (cases x) (auto simp: parse_and_validate_request_def body_exn_def rendered_def quiet_def [of _ _ "(Inr (Inl _), _)"] answered_def
        split: option.split)
next
  case (Inr v)
  show ?thesis
  proof (cases "\<exists>body. v = PDict body")
    case True
    then obtain body where body: "v = PDict body" by blast
    show ?thesis
    proof (cases "validate_jsonrpc_request lb body")
      case (Inl x)
      with Inr body show ?thesis by (simp add: parse_and_validate_request_def \<open>parse_json_body lb cf rq = Inr v\<close>)
    next
      case (Inr out)
      with body \<open>parse_json_body lb cf rq = Inr v\<close> show ?thesis
        by (cases out) (auto simp: parse_and_validate_request_def elim: validate_jsonrpc_request_reply)
    qed
  next
    case False
    with Inr show ?thesis by (cases v) (simp_all add: parse_and_validate_request_def)
  qed
qed

lemma auth_stage_quiet: "quiet lb s (authenticate_request lb cf rq rpc s)"
  by (auto simp: authenticate_request_def split: option.splits sum.splits exn.splits)

lemma envelope_stage_quiet: "quiet lb s (request_envelope lb rq rpc s)"
  by (auto simp: request_envelope_def Let_def split: pyval.splits sum.splits)

lemma trace_stage_quiet: "quiet lb s (trace_stage e s)"
  by (cases "activate_trace e") (simp_all add: trace_stage_def)

lemma sender_stage_quiet: "quiet lb s (verify_sender_stage lb cf rq rpc a e s)"
  by (auto simp: verify_sender_stage_def split: option.splits sum.splits exn.splits)

lemma refuse_envelope_quiet:
  assumes "ds_calls s' = ds_calls s" "ds_registry s' = ds_registry s" "rs_audit s' = rs_audit s" "ds_metrics s' = ds_metrics s"
  shows "quiet lb s (refuse_envelope lb rq rpc e t msg x s')"
  using assms by (auto simp: refuse_envelope_def intro!: refuse_quiet split: sum.splits)

lemma timestamp_stage_quiet: "quiet lb s (timestamp_stage lb rq rpc e s)"
  by (auto simp: timestamp_stage_def intro!: refuse_envelope_quiet split: sum.splits)

lemma nonce_stage_quiet: "quiet lb s (nonce_stage lb rq rpc e s)"
  by (auto simp: nonce_stage_def intro!: refuse_envelope_quiet split: prod.splits sum.splits)

lemma prepare_request_quiet: "quiet lb s (prepare_request lb cf rq s)"
  unfolding prepare_request_def
  by (intro quiet_bind parse_stage_quiet auth_stage_quiet envelope_stage_quiet trace_stage_quiet sender_stage_quiet
      timestamp_stage_quiet nonce_stage_quiet) simp

text \<open>What a prepared request has passed.\<close>

lemma prepare_request_passed:
  assumes "prepare_request lb cf rq s = (Inr (Inr p), s')"
  obtains body data am_id where "parse_json_body lb cf rq = Inr (PDict body)"
    "parse_jsonrpc_request body = Some (pr_rpc p)" "jr_method (pr_rpc p) = ASAP_METHOD"
    "case cf_auth cf of None \<Rightarrow> pr_agent_id p = None | Some am \<Rightarrow>
       verify_authentication am (rr_credentials rq) = Inr (pr_agent_id p) \<and>
       verify_sender_matches_auth (pr_agent_id p) (sender (pr_envelope p)) = Inr ()"
    "get_or_none (jr_params (pr_rpc p)) ''envelope'' = PDict data" "build_envelope lb rq data = Inr (Inr (pr_envelope p))"
    "validate_envelope (rr_check_time rq) (rr_nonce_clock rq) (pr_envelope p) (rs_nonces s) = (Inr (), rs_nonces s')"
proof -
  from assms obtain rpc s1 agent_id s2 e s3 u s4 v s5 w s6 x
    where 1: "parse_and_validate_request lb cf rq s = (Inr (Inr rpc), s1)"
      and 2: "authenticate_request lb cf rq rpc s1 = (Inr (Inr agent_id), s2)"
      and 3: "request_envelope lb rq rpc s2 = (Inr (Inr e), s3)"
      and 4: "trace_stage e s3 = (Inr (Inr u), s4)"
      and 5: "verify_sender_stage lb cf rq rpc agent_id e s4 = (Inr (Inr v), s5)"
      and 6: "timestamp_stage lb rq rpc e s5 = (Inr (Inr w), s6)"
      and 7: "nonce_stage lb rq rpc e s6 = (Inr (Inr x), s')"
      and p: "p = \<lparr>pr_rpc = rpc, pr_envelope = e, pr_agent_id = agent_id\<rparr>"
    unfolding prepare_request_def by (elim bind_stage_passed) auto
  have "s1 = s" and body: "\<exists>body. parse_json_body lb cf rq = Inr (PDict body) \<and> parse_jsonrpc_request body = Some rpc \<and> jr_method rpc = ASAP_METHOD"
    using 1
    by (auto simp: parse_and_validate_request_def validate_jsonrpc_request_def build_error_response_def Let_def
        split: sum.splits exn.splits pyval.splits option.splits if_splits)
  have auth: "s2 = s1" "case cf_auth cf of None \<Rightarrow> agent_id = None | Some am \<Rightarrow> verify_authentication am (rr_credentials rq) = Inr agent_id"
    using 2 by (auto simp: authenticate_request_def split: sum.splits exn.splits option.splits)
  have env: "s3 = s2" "\<exists>data. get_or_none (jr_params rpc) ''envelope'' = PDict data \<and> build_envelope lb rq data = Inr (Inr e)"
    using 3 by (auto simp: request_envelope_def Let_def split: pyval.splits sum.splits)
  have "s4 = s3" using 4 by (simp add: trace_stage_def)
  have snd: "s5 = s4" "cf_auth cf \<noteq> None \<Longrightarrow> verify_sender_matches_auth agent_id (sender e) = Inr ()"
    using 5 by (auto simp: verify_sender_stage_def split: sum.splits exn.splits option.splits)
  have ts: "s6 = s5" "validate_envelope_timestamp (rr_check_time rq) e = Inr ()"
    using 6 by (auto simp: timestamp_stage_def refuse_envelope_def split: sum.splits)
  have "validate_envelope_nonce (rr_nonce_clock rq) e (rs_nonces s6) = (Inr (), rs_nonces s')"
    using 7 by (auto simp: nonce_stage_def refuse_envelope_def split: prod.splits sum.splits)
  with ts snd(1) \<open>s4 = s3\<close> env(1) auth(1) \<open>s1 = s\<close>
  have "validate_envelope (rr_check_time rq) (rr_nonce_clock rq) e (rs_nonces s) = (Inr (), rs_nonces s')"
    by (simp add: validate_envelope_def)
  with body auth(2) env(2) snd(2) p show thesis by (auto intro!: that split: option.splits)
qed

subsection \<open>Dispatch and answers\<close>

lemma refused_effect:
  assumes "counted_reply r" "refuse_and_build lb pt t d r s = (out, s')"
  obtains "quiet lb s (out, s')" "rs_nonces s' = rs_nonces s" "\<nexists>a. out = Inr (Inr a)"
    "\<And>x. out = Inl x \<Longrightarrow> unrendered lb x \<and> (has_request_counters (ds_metrics s) \<longrightarrow> counted False (ds_metrics s) (ds_metrics s'))"
proof (rule that)
  show "quiet lb s (out, s')"
    unfolding assms(2) [symmetric] by (rule refuse_quiet(3) [OF assms(1)]) (rule refl)+
  show "rs_nonces s' = rs_nonces s" "\<nexists>a. out = Inr (Inr a)"
    using assms(2) by (cases rule: rendered_cases [of lb r]; auto simp: refuse_and_build_def record_error_metrics_def on_metrics_def)+
  show "unrendered lb x \<and> (has_request_counters (ds_metrics s) \<longrightarrow> counted False (ds_metrics s) (ds_metrics s'))" if "out = Inl x" for x
    using assms(2) that
    by (cases rule: rendered_cases [of lb r])
      (auto simp: refuse_and_build_def record_error_metrics_def on_metrics_def error_metrics_counts)
qed

lemma dispatch_to_handler_effect:
  assumes "dispatch_to_handler lb cf rq p s = (out, s')"
  obtains (effect) res s1 where
    "dispatch_async (rl_str lb) (rr_meter_time rq) (rr_handler_ms rq) (cf_manifest cf) (pr_envelope p) s = (res, s1)"
    "ds_calls s' = ds_calls s1" "ds_registry s' = ds_registry s1" "rs_audit s' = rs_audit s1" "rs_nonces s' = rs_nonces s1"
    "case out of
       Inr (Inr response) \<Rightarrow> res = Inr response \<and> s' = s1
     | Inr (Inl r) \<Rightarrow> has_request_counters (ds_metrics s1) \<longrightarrow> answered (ds_metrics s1) r (ds_metrics s')
     | Inl x \<Rightarrow> res = Inl x \<and> s' = s1 \<or>
         unrendered lb x \<and> (has_request_counters (ds_metrics s1) \<longrightarrow> counted False (ds_metrics s1) (ds_metrics s'))"
proof -
  obtain res s1 where run: "dispatch_async (rl_str lb) (rr_meter_time rq) (rr_handler_ms rq) (cf_manifest cf) (pr_envelope p) s = (res, s1)"
    by fastforce
  note step = assms [unfolded dispatch_to_handler_def Let_def run]
  show thesis
  proof (cases res)
    case (Inr response)
    with step show thesis by (intro effect [OF run]) auto
  next
    case (Inl x)
    show thesis
    proof (cases x)
      case (AsapExn err)
      have refused: thesis if build: "refuse_and_build lb pt t d r s1 = (out, s')" and r: "counted_reply r" for pt t d r
      proof (rule refused_effect [OF r build])
        assume "quiet lb s1 (out, s')" "rs_nonces s' = rs_nonces s1" "\<nexists>a. out = Inr (Inr a)"
          "\<And>x. out = Inl x \<Longrightarrow> unrendered lb x \<and> (has_request_counters (ds_metrics s1) \<longrightarrow> counted False (ds_metrics s1) (ds_metrics s'))"
        then show thesis by (intro effect [OF run]) (auto simp: quiet_def split: sum.splits)
      qed
      from step Inl AsapExn show thesis
        by (auto split: if_splits elim: refused intro: effect [OF run])
    qed (use step Inl in \<open>(intro effect [OF run]; auto)+\<close>)
  qed
qed

text \<open>The answer to an exception: it is counted as an error, and is that of the ASAP error or of an internal error, whose data are texts.\<close>

definition exception_reply :: "exn \<Rightarrow> rpc_id \<Rightarrow> reply \<Rightarrow> bool" where
  "exception_reply x i r \<longleftrightarrow>
     (case asap_exn x of
        Some (e, msg) \<Rightarrow> r = asap_error_reply e (Some i) [(''error'', PStr msg)]
      | None \<Rightarrow> \<exists>data. r = error_reply INTERNAL_ERROR data (Some i) \<and> (\<forall>v \<in> snd ` set data. \<exists>t. v = PStr t))"

lemma answer_exception_effect:
  assumes "answer_exception lb cf rq x i pt s = (out, s')"
  shows "ds_calls s' = ds_calls s" "ds_registry s' = ds_registry s" "rs_audit s' = rs_audit s" "rs_nonces s' = rs_nonces s"
    "has_request_counters (ds_metrics s) \<Longrightarrow> counted False (ds_metrics s) (ds_metrics s')"
    "\<exists>r. exception_reply x i r \<and> out = rendered lb r"
proof -
  show "ds_calls s' = ds_calls s" "ds_registry s' = ds_registry s" "rs_audit s' = rs_audit s" "rs_nonces s' = rs_nonces s"
    "has_request_counters (ds_metrics s) \<Longrightarrow> counted False (ds_metrics s) (ds_metrics s')"
    using assms
    by (auto simp: answer_exception_def handle_internal_error_def record_error_metrics_def on_metrics_def error_metrics_counts Let_def
        split: option.splits prod.splits)
  show "\<exists>r. exception_reply x i r \<and> out = rendered lb r"
  proof (cases "asap_exn x")
    case None
    have "exception_reply x i (error_reply INTERNAL_ERROR data (Some i))" if "\<forall>v \<in> snd ` set data. \<exists>t. v = PStr t" for data
      using None that by (auto simp: exception_reply_def)
    with None assms show ?thesis
      by (auto simp: answer_exception_def handle_internal_error_def Let_def split: if_splits intro!: exI)
  next
    case (Some em)
    with assms show ?thesis
      by (cases em) (auto simp: answer_exception_def build_jsonrpc_error_for_asap_exception_def exception_reply_def)
  qed
qed

lemma build_success_response_effect:
  assumes "build_success_response lb rq p response s = (out, s')"
  shows "ds_calls s' = ds_calls s" "ds_registry s' = ds_registry s" "rs_audit s' = rs_audit s" "rs_nonces s' = rs_nonces s"
    "has_request_counters (ds_metrics s) \<Longrightarrow> counted True (ds_metrics s) (ds_metrics s')"
    "case out of Inl x \<Rightarrow> unrendered lb x
     | Inr r \<Rightarrow> rp_status r = 200 \<and> rp_headers r = [] \<and>
         rp_body r \<in> {ResultBody (rl_inject_trace lb response) (jr_id (pr_rpc p)), LambdaBody (rl_inject_trace lb response) (jr_id (pr_rpc p))}"
  using assms
  by (auto simp: build_success_response_def rendered_def on_metrics_def success_metrics_counts Let_def
      intro: unrenderedI split: option.splits if_splits)

lemma audit_log_operation_effect [simp]:
  "ds_calls (audit_log_operation lb rq e r s) = ds_calls s" "ds_registry (audit_log_operation lb rq e r s) = ds_registry s"
  "ds_metrics (audit_log_operation lb rq e r s) = ds_metrics s" "rs_nonces (audit_log_operation lb rq e r s) = rs_nonces s"
  by (simp_all add: audit_log_operation_def split: option.split)

text \<open>The ways a request ends: refused or failed while it is prepared, refused or failed in dispatch, or with the result of a handler,
  which can be rendered or not.\<close>

lemma handle_message_cases:
  assumes "handle_message lb cf rq s = (out, s')"
  obtains (prepare_failed) x s1 where "prepare_request lb cf rq s = (Inl x, s1)"
      "answer_exception lb cf rq x (IdStr []) ''unknown'' s1 = (out, s')"
  | (prepare_refused) r where "prepare_request lb cf rq s = (Inr (Inl r), s')" "out = Inr r"
  | (dispatch_failed) p s1 x s2 where "prepare_request lb cf rq s = (Inr (Inr p), s1)" "dispatch_to_handler lb cf rq p s1 = (Inl x, s2)"
      "answer_exception lb cf rq x (jr_id (pr_rpc p)) (payload_type (pr_envelope p)) s2 = (out, s')"
  | (dispatch_refused) p s1 r where "prepare_request lb cf rq s = (Inr (Inr p), s1)"
      "dispatch_to_handler lb cf rq p s1 = (Inr (Inl r), s')" "out = Inr r"
  | (result_failed) p s1 response s2 x s3 where "prepare_request lb cf rq s = (Inr (Inr p), s1)"
      "dispatch_to_handler lb cf rq p s1 = (Inr (Inr response), s2)"
      "build_success_response lb rq p response (audit_log_operation lb rq (pr_envelope p) response s2) = (Inl x, s3)"
      "answer_exception lb cf rq x (jr_id (pr_rpc p)) (payload_type (pr_envelope p)) s3 = (out, s')"
  | (result) p s1 response s2 r where "prepare_request lb cf rq s = (Inr (Inr p), s1)"
      "dispatch_to_handler lb cf rq p s1 = (Inr (Inr response), s2)" "out = Inr r"
      "build_success_response lb rq p response (audit_log_operation lb rq (pr_envelope p) response s2) = (Inr r, s')"
proof -
  obtain out1 s1 where prep: "prepare_request lb cf rq s = (out1, s1)" by fastforce
  consider (exn) x where "out1 = Inl x" | (refusal) r where "out1 = Inr (Inl r)" | (prepared) p where "out1 = Inr (Inr p)"
    by (metis sum.exhaust)
  then show thesis
  proof cases
    case exn
    with assms prep show thesis by (intro prepare_failed) (auto simp: handle_message_def)
  next
    case refusal
    with assms prep show thesis by (intro prepare_refused) (auto simp: handle_message_def)
  next
    case (prepared p)
    obtain out2 s2 where disp: "dispatch_to_handler lb cf rq p s1 = (out2, s2)" by fastforce
    consider (exn) x where "out2 = Inl x" | (refusal) r where "out2 = Inr (Inl r)" | (response) response where "out2 = Inr (Inr response)"
      by (metis sum.exhaust)
    then show thesis
    proof cases
      case exn
      with assms prep prepared disp show thesis by (intro dispatch_failed) (auto simp: handle_message_def)
    next
      case refusal
      with assms prep prepared disp show thesis by (intro dispatch_refused) (auto simp: handle_message_def)
    next
      case (response response)
      obtain out3 s3 where built:
        "build_success_response lb rq p response (audit_log_operation lb rq (pr_envelope p) response s2) = (out3, s3)" by fastforce
      with assms prep prepared disp response show thesis
        by (cases out3) (auto simp: handle_message_def intro: result_failed result)
    qed
  qed
qed

text \<open>What a request changes beside the metrics, in one statement per outcome.\<close>

lemma handle_message_calls:
  assumes run: "handle_message lb cf rq s = (out, s')"
  obtains (refused) "ds_calls s' = ds_calls s"
  | (called) p s1 where "prepare_request lb cf rq s = (Inr (Inr p), s1)" "ds_calls s' = ds_calls s @ [pr_envelope p]"
      "has_handler (payload_type (pr_envelope p)) (ds_registry s)" "rs_nonces s' = rs_nonces s1"
proof -
  have quiet: "ds_calls s1 = ds_calls s" "ds_registry s1 = ds_registry s" if "prepare_request lb cf rq s = (out, s1)" for out s1
    using prepare_request_quiet [of lb s cf rq] that by (auto simp: quiet_def)
  have dispatched: thesis if prep: "prepare_request lb cf rq s = (Inr (Inr p), s1)"
    and disp: "dispatch_to_handler lb cf rq p s1 = (out2, s2)" and same: "ds_calls s' = ds_calls s2" "rs_nonces s' = rs_nonces s2"
    for p s1 out2 s2
  proof -
    from disp obtain res2 s3 where eff: "dispatch_async (rl_str lb) (rr_meter_time rq) (rr_handler_ms rq) (cf_manifest cf) (pr_envelope p) s1 = (res2, s3)"
      "ds_calls s2 = ds_calls s3" "rs_nonces s2 = rs_nonces s3" by (rule dispatch_to_handler_effect)
    have "rs_nonces s3 = rs_nonces s1"
      using dispatch_async_effect(2) [OF eff(1)] by (cases s3; cases s1) auto
    then have nonces: "rs_nonces s' = rs_nonces s1" using eff(3) same(2) by simp
    from dispatch_async_effect(4) [OF eff(1)] consider (skipped) "ds_calls s3 = ds_calls s1"
      | (ran) "ds_calls s3 = ds_calls s1 @ [pr_envelope p]" "has_handler (payload_type (pr_envelope p)) (ds_registry s1)" by blast
    then show thesis
    proof cases
      case skipped
      then show thesis using eff(2) same(1) quiet [OF prep] by (intro refused) simp
    next
      case ran
      then show thesis using eff(2) same(1) quiet [OF prep] nonces by (intro called [OF prep]) simp_all
    qed
  qed
  from run show thesis
  proof (cases rule: handle_message_cases)
    case (prepare_failed x s1)
    show thesis using answer_exception_effect(1) [OF prepare_failed(2)] quiet(1) [OF prepare_failed(1)] by (intro refused) simp
  next
    case (prepare_refused r)
    show thesis using quiet(1) [OF prepare_refused(1)] by (intro refused) simp
  next
    case (dispatch_failed p s1 x s2)
    show thesis by (rule dispatched [OF dispatch_failed(1,2) answer_exception_effect(1,4) [OF dispatch_failed(3)]])
  next
    case (dispatch_refused p s1 r)
    show thesis by (rule dispatched [OF dispatch_refused(1,2) refl refl])
  next
    case (result_failed p s1 response s2 x s3)
    with answer_exception_effect(1,4) [OF result_failed(4)] build_success_response_effect(1,4) [OF result_failed(3)]
    show thesis by (intro dispatched [OF result_failed(1,2)]) simp_all
  next
    case (result p s1 response s2 r)
    with build_success_response_effect(1,4) [OF result(4)] show thesis by (intro dispatched [OF result(1,2)]) simp_all
  qed
qed

subsection \<open>Nonces over many requests\<close>

text \<open>A mark in the nonce store survives every request whose clock readings are before its expiry.\<close>

definition holds_mark :: "string \<Rightarrow> rat \<Rightarrow> rpc_server \<Rightarrow> bool" where
  "holds_mark n x s \<longleftrightarrow> (\<exists>ns. rs_nonces s = Some ns \<and> wf_dict ns \<and> map_of ns n = Some x)"

lemma nonce_stage_keeps:
  assumes "holds_mark n x s" "nc_cleanup (rr_nonce_clock rq) \<le> x" "nc_check (rr_nonce_clock rq) \<le> x"
    "nonce_stage lb rq rpc e s = (out, s')"
  shows "holds_mark n x s'"
proof -
  obtain ns where ns: "rs_nonces s = Some ns" "wf_dict ns" "map_of ns n = Some x" using assms(1) by (auto simp: holds_mark_def)
  have "rs_nonces s' = snd (validate_envelope_nonce (rr_nonce_clock rq) e (Some ns))"
    using assms(4) ns(1)
    by (auto simp: nonce_stage_def refuse_envelope_def refuse_defs record_error_metrics_def on_metrics_def
        split: prod.splits sum.splits)
  then obtain ns' where "rs_nonces s' = Some ns'"
    "ns' = ns \<or> (\<exists>m. ns' = snd (check_and_mark (rr_nonce_clock rq) m NONCE_TTL_SECONDS ns))"
    using validate_envelope_nonce_store [of "rr_nonce_clock rq" e ns] by auto
  with ns assms(2,3) show ?thesis by (auto simp: holds_mark_def check_and_mark_wf check_and_mark_keeps)
qed

text \<open>Every other stage leaves the nonce store alone.\<close>

definition same_nonces :: "rpc_server \<Rightarrow> 'a stage \<Rightarrow> bool" where
  "same_nonces s m \<longleftrightarrow> rs_nonces (snd m) = rs_nonces s"

lemma refuse_keeps_nonces [simp]:
  "rs_nonces (snd (refuse pt t d r s)) = rs_nonces s" "rs_nonces (snd (build_and_refuse lb pt t d r s)) = rs_nonces s"
  "rs_nonces (snd (refuse_and_build lb pt t d r s)) = rs_nonces s"
  by (auto simp: refuse_def build_and_refuse_def refuse_and_build_def record_error_metrics_def on_metrics_def split: sum.split)

lemma parse_keeps_nonces: "same_nonces s (parse_and_validate_request lb cf rq s)"
  by (auto simp: same_nonces_def parse_and_validate_request_def split: sum.split exn.split pyval.split)

lemma auth_keeps_nonces: "same_nonces s (authenticate_request lb cf rq rpc s)"
  by (auto simp: same_nonces_def authenticate_request_def split: sum.split exn.split option.split)

lemma envelope_keeps_nonces: "same_nonces s (request_envelope lb rq rpc s)"
  by (auto simp: same_nonces_def request_envelope_def Let_def split: sum.split pyval.split)

lemma trace_keeps_nonces: "same_nonces s (trace_stage e s)"
  by (simp add: same_nonces_def trace_stage_def)

lemma sender_keeps_nonces: "same_nonces s (verify_sender_stage lb cf rq rpc a e s)"
  by (auto simp: same_nonces_def verify_sender_stage_def split: sum.split exn.split option.split)

lemma timestamp_keeps_nonces: "same_nonces s (timestamp_stage lb rq rpc e s)"
  by (auto simp: same_nonces_def timestamp_stage_def refuse_envelope_def split: sum.split)

lemma keeps_mark_bind:
  assumes "same_nonces s m" and mark: "holds_mark n x s"
    and k: "\<And>a s1. holds_mark n x s1 \<Longrightarrow> holds_mark n x (snd (k a s1))"
  shows "holds_mark n x (snd (bind_stage m k))"
proof (cases m)
  case (Pair out s1)
  with assms(1,2) have s1: "holds_mark n x s1" by (simp add: same_nonces_def holds_mark_def)
  show ?thesis
  proof (cases out)
    case (Inr b)
    then show ?thesis using Pair s1 k by (cases b) simp_all
  qed (use Pair s1 in simp)
qed

lemma prepare_keeps_mark:
  assumes mark: "holds_mark n x s" and clock: "nc_cleanup (rr_nonce_clock rq) \<le> x" "nc_check (rr_nonce_clock rq) \<le> x"
  shows "holds_mark n x (snd (prepare_request lb cf rq s))"
proof -
  have last: "holds_mark n x (snd (bind_stage (nonce_stage lb rq rpc e s6) (\<lambda>_ s7. (Inr (Inr (q :: prepared_request)), s7))))"
    if "holds_mark n x s6" for rpc e s6 q
    using nonce_stage_keeps [OF that clock, of lb rpc e] by (cases "nonce_stage lb rq rpc e s6") (auto simp: bind_stage_def split: sum.splits)
  show ?thesis
    unfolding prepare_request_def
    by (rule keeps_mark_bind [OF parse_keeps_nonces mark], rule keeps_mark_bind [OF auth_keeps_nonces], assumption,
        rule keeps_mark_bind [OF envelope_keeps_nonces], assumption, rule keeps_mark_bind [OF trace_keeps_nonces], assumption,
        rule keeps_mark_bind [OF sender_keeps_nonces], assumption, rule keeps_mark_bind [OF timestamp_keeps_nonces], assumption,
        rule last)
qed

lemma request_keeps_mark:
  assumes "holds_mark n x s" "nc_cleanup (rr_nonce_clock rq) \<le> x" "nc_check (rr_nonce_clock rq) \<le> x"
  shows "holds_mark n x (snd (handle_message lb cf rq s))"
proof -
  obtain out s1 where prep: "prepare_request lb cf rq s = (out, s1)" by fastforce
  have s1: "holds_mark n x s1" using prepare_keeps_mark [OF assms, of lb cf] prep by simp
  have dispatched: "rs_nonces s2 = rs_nonces s1" if "dispatch_to_handler lb cf rq p s1 = (out2, s2)" for p out2 s2
  proof -
    from that obtain res2 s3 where eff: "dispatch_async (rl_str lb) (rr_meter_time rq) (rr_handler_ms rq) (cf_manifest cf) (pr_envelope p) s1 = (res2, s3)"
      "rs_nonces s2 = rs_nonces s3" by (rule dispatch_to_handler_effect)
    moreover have "rs_nonces s3 = rs_nonces s1" using dispatch_async_effect(2) [OF eff(1)] by (cases s3; cases s1) auto
    ultimately show ?thesis by simp
  qed
  obtain answer s' where run: "handle_message lb cf rq s = (answer, s')" by fastforce
  then have nonces: "rs_nonces (snd (handle_message lb cf rq s)) = rs_nonces s1"
    by (cases rule: handle_message_cases)
      (use run prep in \<open>auto dest!: dispatched answer_exception_effect(4) build_success_response_effect(4)\<close>)
  with s1 show ?thesis by (simp add: holds_mark_def)
qed

fun serve_all :: "rpc_lib \<Rightarrow> rpc_config \<Rightarrow> rpc_req list \<Rightarrow> rpc_server \<Rightarrow> rpc_server" where
  "serve_all lb cf [] s = s"
| "serve_all lb cf (rq # rqs) s = serve_all lb cf rqs (snd (handle_message lb cf rq s))"

lemma serve_all_keeps_mark:
  "holds_mark n x s \<Longrightarrow> \<forall>rq \<in> set rqs. nc_cleanup (rr_nonce_clock rq) \<le> x \<and> nc_check (rr_nonce_clock rq) \<le> x \<Longrightarrow>
     holds_mark n x (serve_all lb cf rqs s)"
  by (induction rqs arbitrary: s) (simp_all add: request_keeps_mark)

subsection \<open>The codes of the answers\<close>

definition standard_codes :: "int set" where
  "standard_codes = {PARSE_ERROR, INVALID_REQUEST, METHOD_NOT_FOUND, INVALID_PARAMS, INTERNAL_ERROR}"

text \<open>An ASAP error as its constructor builds it.\<close>

definition exn_wf :: "exn \<Rightarrow> bool" where
  "exn_wf x = (case asap_exn x of None \<Rightarrow> True | Some (e, msg) \<Rightarrow> is_asap_json_rpc_code (ae_rpc_code e))"

definition refusal_wf :: "reply \<Rightarrow> bool" where
  "refusal_wf r =
     (case rp_body r of
        ErrorBody e i \<Rightarrow> rp_status r = 200 \<and> (je_code e \<in> standard_codes \<or> is_asap_json_rpc_code (je_code e))
      | PlainBody d \<Rightarrow> rp_status r \<in> {400, 413, 415, 503}
      | _ \<Rightarrow> False)"

definition stage_wf :: "'a stage \<Rightarrow> bool" where
  "stage_wf m = (case fst m of Inl x \<Rightarrow> exn_wf x | Inr (Inl r) \<Rightarrow> refusal_wf r | Inr (Inr a) \<Rightarrow> True)"

lemma stage_wf_simps [simp]:
  "stage_wf (Inl x, s) = exn_wf x" "stage_wf (Inr (Inr a), s)" "stage_wf (refuse pt t d r s :: 'a stage) = refusal_wf r"
  "stage_wf (Inr (Inl r), s) = refusal_wf r"
  by (simp_all add: stage_wf_def refuse_def)

lemma stage_wf_bind:
  assumes "stage_wf m" "\<And>a s. stage_wf (k a s)"
  shows "stage_wf (bind_stage m k)"
proof (cases m)
  case (Pair out s)
  show ?thesis
  proof (cases out)
    case (Inr b)
    with Pair assms show ?thesis by (cases b) (simp_all add: stage_wf_def)
  qed (use Pair assms in simp)
qed

lemma refusal_wf_error [simp]: "code \<in> standard_codes \<Longrightarrow> refusal_wf (error_reply code data i)"
  by (simp add: refusal_wf_def jsonrpc_error_from_code_def)

lemma refusal_wf_asap [simp]:
  "is_asap_json_rpc_code (ae_rpc_code e) \<Longrightarrow> refusal_wf (asap_error_reply e i extra)"
  by (simp add: refusal_wf_def)

lemma standard_codes_simps [simp]:
  "PARSE_ERROR \<in> standard_codes" "INVALID_REQUEST \<in> standard_codes" "METHOD_NOT_FOUND \<in> standard_codes"
  "INVALID_PARAMS \<in> standard_codes" "INTERNAL_ERROR \<in> standard_codes"
  by (simp_all add: standard_codes_def)

lemmas standard_code_values = standard_codes_def PARSE_ERROR_def INVALID_REQUEST_def METHOD_NOT_FOUND_def INVALID_PARAMS_def INTERNAL_ERROR_def

lemma exn_wf_simps [simp]:
  "exn_wf (OtherExn t m)" "exn_wf (HttpExn st d)" "exn_wf (AsapExn e) = is_asap_json_rpc_code (ae_rpc_code e)"
  "exn_wf (lift_exn p)"
  by (simp_all add: exn_wf_def)

lemma refuse_wf [simp]:
  assumes "refusal_wf r"
  shows "stage_wf (build_and_refuse lb pt t d r s :: 'a stage)" "stage_wf (refuse_and_build lb pt t d r s :: 'a stage)"
    "stage_wf (map_sum id Inl (rendered lb r), s :: rpc_server)"
  using assms
  by (cases rule: rendered_cases [of lb r]; simp add: build_and_refuse_def refuse_and_build_def)+

lemma validate_jsonrpc_request_exn: "validate_jsonrpc_request lb body = Inl x \<Longrightarrow> exn_wf x"
  by (auto simp: validate_jsonrpc_request_def build_error_response_def rendered_def Let_def split: option.splits if_splits)

lemma parse_stage_wf: "stage_wf (parse_and_validate_request lb cf rq s)"
proof (cases "parse_json_body lb cf rq")
  case (Inl x)
  with parse_json_body_exn [OF this] show ?thesis
    by (cases x) (auto simp: parse_and_validate_request_def body_exn_def refusal_wf_def jsonrpc_error_from_code_def)
next
  case (Inr v)
  show ?thesis
  proof (cases v)
    case (PDict body)
    have "refusal_wf r" if "validate_jsonrpc_request lb body = Inr (Inl r)" for r
      using that by (elim validate_jsonrpc_request_reply) auto
    with Inr PDict show ?thesis
      by (auto simp: parse_and_validate_request_def intro: validate_jsonrpc_request_exn split: sum.split)
  qed (use Inr in \<open>simp_all add: parse_and_validate_request_def\<close>)
qed

text \<open>What the application's token validator may raise.\<close>

definition validator_wf :: "rpc_config \<Rightarrow> bool" where
  "validator_wf cf \<longleftrightarrow>
     (\<forall>am validate t x. cf_auth cf = Some am \<longrightarrow> am_validator am = Some validate \<longrightarrow> validate t = Inl x \<longrightarrow> exn_wf x)"

lemma auth_stage_wf:
  assumes "validator_wf cf"
  shows "stage_wf (authenticate_request lb cf rq rpc s)"
proof -
  have wf: "exn_wf x" if "cf_auth cf = Some am" "verify_authentication am c = Inl x" for am c x
    using that assms
    by (auto simp: verify_authentication_def validator_wf_def split: if_splits option.splits prod.splits sum.splits)
  show ?thesis
  proof (cases "cf_auth cf")
    case (Some am)
    show ?thesis
    proof (cases "verify_authentication am (rr_credentials rq)")
      case (Inl x)
      with wf [OF Some Inl] Some show ?thesis by (cases x) (auto simp: authenticate_request_def)
    qed (use Some in \<open>simp add: authenticate_request_def\<close>)
  qed (simp add: authenticate_request_def)
qed

lemma envelope_stage_wf: "stage_wf (request_envelope lb rq rpc s)"
  by (auto simp: request_envelope_def build_envelope_def envelope_from_dict_def parse_payload_from_dict_def Let_def
      split: pyval.splits sum.splits option.splits if_splits)

lemma trace_stage_wf: "stage_wf (trace_stage e s)"
  by (auto simp: trace_stage_def activate_trace_def split: option.split pyval.split)

lemma sender_stage_wf: "stage_wf (verify_sender_stage lb cf rq rpc a e s)"
  by (auto simp: verify_sender_stage_def verify_sender_matches_auth_def split: option.splits sum.splits exn.splits if_splits)

lemma envelope_exn_code:
  obtains err where "envelope_exn lb e x = Inr err" "is_asap_json_rpc_code (ae_rpc_code err)"
  by (cases x) (auto simp: invalid_timestamp_error_def invalid_nonce_error_def asap_error_init_def is_asap_json_rpc_code_def rpc_code_defs)

lemma refuse_envelope_wf: "stage_wf (refuse_envelope lb rq rpc e t msg x s)"
  by (rule envelope_exn_code [of lb e x]) (simp add: refuse_envelope_def)

lemma timestamp_stage_wf: "stage_wf (timestamp_stage lb rq rpc e s)"
  by (auto simp: timestamp_stage_def refuse_envelope_wf split: sum.split)

lemma nonce_stage_wf: "stage_wf (nonce_stage lb rq rpc e s)"
  by (auto simp: nonce_stage_def refuse_envelope_wf split: sum.split prod.split)

lemma prepare_request_wf: "validator_wf cf \<Longrightarrow> stage_wf (prepare_request lb cf rq s)"
  unfolding prepare_request_def
  by (intro stage_wf_bind parse_stage_wf auth_stage_wf envelope_stage_wf trace_stage_wf sender_stage_wf timestamp_stage_wf
      nonce_stage_wf stage_wf_simps)

definition handlers_wf :: "handler_registry \<Rightarrow> bool" where
  "handlers_wf r \<longleftrightarrow> (\<forall>pt h mf e x. map_of (hr_handlers r) pt = Some h \<longrightarrow> hn_run h mf e = Inl x \<longrightarrow> exn_wf x)"

lemma raised_constructor_wf [simp]:
  "exn_wf (raised (thread_pool_exhausted_error a b d r))" "exn_wf (raised (handler_not_found_error pt))"
  by (simp_all add: thread_pool_exhausted_error_def handler_not_found_error_def asap_error_init_def is_asap_json_rpc_code_def rpc_code_defs)

lemma dispatch_async_exn:
  assumes "handlers_wf (ds_registry s)" "dispatch_async txt now d mf e s = (Inl x, s')"
  shows "exn_wf x"
proof (cases "map_of (hr_handlers (ds_registry s)) (payload_type e)")
  case None
  with assms(2) show ?thesis by (auto simp: dispatch_async_def Let_def)
next
  case (Some h)
  show ?thesis
  proof (cases rule: run_handler_cases [of h mf e s])
    case ran
    with assms Some show ?thesis
      by (cases "hn_run h mf e") (auto simp: dispatch_async_def Let_def handlers_wf_def split: prod.splits sum.splits)
  next
    case (exhausted ex)
    with assms(2) Some show ?thesis by (auto simp: dispatch_async_def Let_def)
  qed
qed

lemma dispatch_stage_wf:
  assumes "handlers_wf (ds_registry s)"
  shows "stage_wf (dispatch_to_handler lb cf rq p s)"
proof -
  obtain res s1 where run: "dispatch_async (rl_str lb) (rr_meter_time rq) (rr_handler_ms rq) (cf_manifest cf) (pr_envelope p) s = (res, s1)"
    by fastforce
  show ?thesis
  proof (cases res)
    case (Inl x)
    with dispatch_async_exn [OF assms, of _ _ _ _ _ x s1] run have "exn_wf x" by blast
    with run Inl show ?thesis
      by (cases x) (auto simp: dispatch_to_handler_def Let_def refusal_wf_def unavailable_reply_def)
  qed (use run in \<open>simp add: dispatch_to_handler_def Let_def\<close>)
qed

lemma exception_reply_wf: "exn_wf x \<Longrightarrow> exception_reply x i r \<Longrightarrow> refusal_wf r"
  by (auto simp: exception_reply_def exn_wf_def split: option.splits)

text \<open>A request is counted a second time, as an error, when the answer it was counted for cannot be rendered.\<close>

definition counted_again :: "rpc_lib \<Rightarrow> collector \<Rightarrow> collector \<Rightarrow> bool" where
  "counted_again lb m m' \<longleftrightarrow>
     (\<exists>b p. rl_render lb b = Some p) \<and> (\<exists>ok m1. counted ok m m1 \<and> counted False m1 m')"

text \<open>An exception that was the failure to render an answer ends as an internal error.\<close>

lemma unrendered_reply: "unrendered lb x \<Longrightarrow> exception_reply x i r \<Longrightarrow> \<exists>e. rp_body r = ErrorBody e (Some i) \<and> je_code e = INTERNAL_ERROR"
  by (auto simp: unrendered_def exception_reply_def jsonrpc_error_from_code_def)

definition ended :: "rpc_lib \<Rightarrow> collector \<Rightarrow> exn + reply \<Rightarrow> collector \<Rightarrow> bool" where
  "ended lb m out m' =
     (case out of
        Inl x \<Rightarrow> unrendered lb x \<and> (counted False m m' \<or> counted_again lb m m')
      | Inr r \<Rightarrow> answered m r m' \<or>
          (\<exists>e i. rp_body r = ErrorBody e i \<and> je_code e = INTERNAL_ERROR) \<and> counted_again lb m m')"

lemma ended_same: "same_requests m m1 \<Longrightarrow> ended lb m1 out m' \<Longrightarrow> ended lb m out m'"
  by (cases out) (auto simp: ended_def counted_again_def intro: counted_same answered_same)

lemma ended_once:
  assumes "answer_exception lb cf rq x i pt s = (out, s')" "has_request_counters (ds_metrics s)"
  shows "ended lb (ds_metrics s) out (ds_metrics s')"
proof -
  obtain r where r: "exception_reply x i r" "out = rendered lb r" using answer_exception_effect(6) [OF assms(1)] by blast
  have "counted_reply r" using r(1) by (auto simp: exception_reply_def split: option.splits)
  with r(2) answer_exception_effect(5) [OF assms] show ?thesis
    by (cases rule: rendered_cases [of lb r]) (auto simp: ended_def intro: answered_counted)
qed

lemma ended_again:
  assumes "answer_exception lb cf rq x i pt s1 = (out, s')" "unrendered lb x" "counted ok m (ds_metrics s1)"
  shows "ended lb m out (ds_metrics s')"
proof -
  obtain r where r: "exception_reply x i r" "out = rendered lb r" using answer_exception_effect(6) [OF assms(1)] by blast
  have "counted False (ds_metrics s1) (ds_metrics s')"
    using answer_exception_effect(5) [OF assms(1)] assms(3) by (simp add: counted_def)
  with assms(2,3) have "counted_again lb m (ds_metrics s')" by (auto simp: counted_again_def unrendered_def)
  with r(2) unrendered_reply [OF assms(2) r(1)] show ?thesis
    by (cases rule: rendered_cases [of lb r]) (auto simp: ended_def)
qed

lemma handle_message_answer:
  assumes run: "handle_message lb cf rq s = (out, s')"
    and counters: "has_request_counters (ds_metrics s)"
  shows "ended lb (ds_metrics s) out (ds_metrics s')"
proof -
  note q = prepare_request_quiet [of lb s cf rq]
  have failed: "ended lb (ds_metrics s1) out (ds_metrics s')"
    if "ds_metrics s2 = ds_metrics s1 \<or> unrendered lb x \<and> counted False (ds_metrics s1) (ds_metrics s2)"
      "answer_exception lb cf rq x i pt s2 = (out, s')" "has_request_counters (ds_metrics s1)" for s1 s2 x i pt
    using that ended_once [OF that(2)] ended_again [OF that(2)] by auto
  have dispatched: "\<exists>s3. same_requests (ds_metrics s) (ds_metrics s3) \<and> has_request_counters (ds_metrics s3) \<and>
      (case out2 of
         Inr (Inr response) \<Rightarrow> s2 = s3
       | Inr (Inl r) \<Rightarrow> answered (ds_metrics s3) r (ds_metrics s2)
       | Inl x \<Rightarrow> ds_metrics s2 = ds_metrics s3 \<or> unrendered lb x \<and> counted False (ds_metrics s3) (ds_metrics s2))"
    if prep: "prepare_request lb cf rq s = (Inr (Inr p), s1)" and disp: "dispatch_to_handler lb cf rq p s1 = (out2, s2)" for p s1 out2 s2
  proof -
    have m1: "ds_metrics s1 = ds_metrics s" using q prep by simp
    show ?thesis
    proof (rule dispatch_to_handler_effect [OF disp])
      fix res2 s3
      assume eff: "dispatch_async (rl_str lb) (rr_meter_time rq) (rr_handler_ms rq) (cf_manifest cf) (pr_envelope p) s1 = (res2, s3)"
        and out: "case out2 of Inr (Inr response) \<Rightarrow> res2 = Inr response \<and> s2 = s3
        | Inr (Inl r) \<Rightarrow> has_request_counters (ds_metrics s3) \<longrightarrow> answered (ds_metrics s3) r (ds_metrics s2)
        | Inl x \<Rightarrow> res2 = Inl x \<and> s2 = s3 \<or>
            unrendered lb x \<and> (has_request_counters (ds_metrics s3) \<longrightarrow> counted False (ds_metrics s3) (ds_metrics s2))"
      have same: "same_requests (ds_metrics s) (ds_metrics s3)" using dispatch_async_effect(3) [OF eff] m1 by simp
      then have "has_request_counters (ds_metrics s3)" using counters has_request_counters_same by blast
      with same out show ?thesis by (intro exI [of _ s3]) (auto split: sum.splits)
    qed
  qed
  from run show ?thesis
  proof (cases rule: handle_message_cases)
    case (prepare_failed x s1)
    with q counters have "ds_metrics s1 = ds_metrics s \<or> unrendered lb x \<and> counted False (ds_metrics s) (ds_metrics s1)"
      by (auto simp: quiet_def)
    then show ?thesis using prepare_failed(2) counters by (rule failed)
  next
    case (prepare_refused r)
    with q counters show ?thesis by (auto simp: quiet_def ended_def)
  next
    case (dispatch_failed p s1 x s2)
    from dispatched [OF dispatch_failed(1,2)] dispatch_failed(3) show ?thesis by (auto intro: ended_same failed)
  next
    case (dispatch_refused p s1 r)
    from dispatched [OF dispatch_refused(1,2)] dispatch_refused(3) show ?thesis by (auto simp: ended_def intro: answered_same)
  next
    case (result_failed p s1 response s2 x s3)
    from dispatched [OF result_failed(1,2)] have s2: "same_requests (ds_metrics s) (ds_metrics s2)" "has_request_counters (ds_metrics s2)"
      by auto
    with build_success_response_effect(5,6) [OF result_failed(3)] have "counted True (ds_metrics s2) (ds_metrics s3)" "unrendered lb x"
      by auto
    then show ?thesis using ended_again [OF result_failed(4)] s2 by (blast intro: ended_same)
  next
    case (result p s1 response s2 r)
    from dispatched [OF result(1,2)] have s2: "same_requests (ds_metrics s) (ds_metrics s2)" "has_request_counters (ds_metrics s2)"
      by auto
    with build_success_response_effect(5,6) [OF result(4)] have "answered (ds_metrics s2) r (ds_metrics s')"
      by (auto simp: answered_def)
    with s2 result(3) show ?thesis by (auto simp: ended_def intro: answered_same)
  qed
qed

text \<open>The answers of a request: documented refusals, the result of the registered handler, or, when the answer to an exception cannot be
  rendered, the exception of rendering it.\<close>

lemma handle_message_body:
  assumes run: "handle_message lb cf rq s = (out, s')" and wf: "validator_wf cf" "handlers_wf (ds_registry s)"
  shows "case out of
      Inr r \<Rightarrow> refusal_wf r \<or>
        (\<exists>p s1 h response. prepare_request lb cf rq s = (Inr (Inr p), s1) \<and> ds_calls s' = ds_calls s @ [pr_envelope p] \<and>
           map_of (hr_handlers (ds_registry s)) (payload_type (pr_envelope p)) = Some h \<and>
           hn_run h (cf_manifest cf) (pr_envelope p) = Inr response \<and> rp_status r = 200 \<and>
           rp_body r \<in> {ResultBody (rl_inject_trace lb response) (jr_id (pr_rpc p)), LambdaBody (rl_inject_trace lb response) (jr_id (pr_rpc p))})
    | Inl y \<Rightarrow> \<exists>x i r p. exception_reply x i r \<and> exn_wf x \<and> rl_render lb (rp_body r) = Some p \<and> y = lift_exn p"
proof -
  have failed: ?thesis if exn: "answer_exception lb cf rq x i pt t = (out, s')" "exn_wf x" for x i pt t
  proof -
    obtain r where r: "exception_reply x i r" "out = rendered lb r" using answer_exception_effect(6) [OF exn(1)] by blast
    with exn(2) exception_reply_wf [OF exn(2) r(1)] show ?thesis by (cases rule: rendered_cases [of lb r]) auto
  qed
  note pwf = prepare_request_wf [OF wf(1), of lb rq s]
  have q: "ds_calls s1 = ds_calls s" "ds_registry s1 = ds_registry s" if "prepare_request lb cf rq s = (o1, s1)" for o1 s1
    using prepare_request_quiet [of lb s cf rq] that by (auto simp: quiet_def)
  have dwf: "stage_wf (out2, s2)" if "prepare_request lb cf rq s = (o1, s1)" "dispatch_to_handler lb cf rq p s1 = (out2, s2)" for o1 s1 p out2 s2
    using dispatch_stage_wf [of s1 lb cf rq p] wf(2) q(2) [OF that(1)] that(2) by simp
  from run show ?thesis
  proof (cases rule: handle_message_cases)
    case (prepare_failed x s1)
    with pwf show ?thesis by (auto intro: failed)
  next
    case (prepare_refused r)
    with pwf show ?thesis by simp
  next
    case (dispatch_failed p s1 x s2)
    with dwf [OF dispatch_failed(1,2)] show ?thesis by (auto intro: failed)
  next
    case (dispatch_refused p s1 r)
    with dwf [OF dispatch_refused(1,2)] show ?thesis by simp
  next
    case (result_failed p s1 response s2 x s3)
    have "exn_wf x" using build_success_response_effect(6) [OF result_failed(3)] by (auto simp: unrendered_def)
    with result_failed(4) show ?thesis by (rule failed)
  next
    case (result p s1 response s2 r)
    from result(2) obtain res2 s3 where eff: "dispatch_async (rl_str lb) (rr_meter_time rq) (rr_handler_ms rq) (cf_manifest cf) (pr_envelope p) s1 = (res2, s3)"
      "ds_calls s2 = ds_calls s3" "res2 = Inr response" by (rule dispatch_to_handler_effect) auto
    from dispatch_async_effect(5) [OF eff(1,3)] obtain h where h: "ds_calls s3 = ds_calls s1 @ [pr_envelope p]"
      "map_of (hr_handlers (ds_registry s1)) (payload_type (pr_envelope p)) = Some h"
      "hn_run h (cf_manifest cf) (pr_envelope p) = Inr response" by blast
    with build_success_response_effect(1,6) [OF result(4)] eff(2) q [OF result(1)] result(1,3) show ?thesis by auto
  qed
qed

lemma read_chunks_length:
  "read_chunks n acc cs = Inr b \<Longrightarrow> int (length acc) \<le> n \<Longrightarrow> b = acc @ concat cs \<and> int (length b) \<le> n"
  by (induction n acc cs rule: read_chunks.induct) (auto simp: Let_def split: if_splits)

lemma build_envelope_valid:
  assumes "build_envelope lb rq data = Inr (Inr e)"
  shows "agent_urn_match (sender e)" "agent_urn_match (recipient e)" "env_timestamp e \<noteq> None"
  using assms make_envelope_valid [of "rr_new_id rq" "rr_parse_time rq" _ e]
  by (auto simp: build_envelope_def envelope_from_dict_def split: sum.splits)

subsection \<open>A sample server\<close>

definition sample_rpc_lib :: "pydict \<Rightarrow> rpc_lib" where
  "sample_rpc_lib data = \<lparr>rl_codec = \<lparr>cl_gzip_compress = Inr, cl_gzip_decompress = (\<lambda>d. if d = [] then Inl (CodecZlibError ''x'') else Inr d), cl_brotli = None\<rparr>,
     rl_loads = (\<lambda>b. Inr (PDict [(''method'', PStr ''asap.send''), (''params'', PDict [(''envelope'', PDict data)]), (''id'', PInt 7)])),
     rl_str = (\<lambda>_. []), rl_isoformat = (\<lambda>_. []), rl_fixed1 = (\<lambda>_. []), rl_envelope = (\<lambda>_. Inr sample_env),
     rl_request_errors = (\<lambda>_. PNone), rl_validator_errors = (\<lambda>_. PNone), rl_inject_trace = id, rl_audit = sample_audit_lib,
     rl_render = (\<lambda>_. None)\<rparr>"

definition sample_config :: rpc_config where
  "sample_config = \<lparr>cf_manifest = \<lparr>mf_id = ''urn:asap:agent:b'', mf_auth_schemes = Some [''bearer'']\<rparr>,
     cf_auth = Some \<lparr>am_manifest = \<lparr>mf_id = ''urn:asap:agent:b'', mf_auth_schemes = Some [''bearer'']\<rparr>,
       am_validator = Some (\<lambda>t. Inr (if t = ''t'' then Some ''urn:asap:agent:a'' else None))\<rparr>,
     cf_max_request_size = 10, cf_debug = False\<rparr>"

definition sample_rpc_req :: "int \<Rightarrow> rpc_req" where
  "sample_rpc_req t = \<lparr>rr_content_encoding = [], rr_chunks = [''{}''], rr_credentials = Some (''bearer'', ''t''), rr_accept = [],
     rr_duration = 1, rr_handler_ms = 1, rr_new_id = ''j'', rr_parse_time = t * 1000000, rr_check_time = t * 1000000,
     rr_nonce_clock = \<lparr>nc_rnd = 1, nc_cleanup = of_int t, nc_check = of_int t, nc_mark = of_int t\<rparr>,
     rr_meter_time = 0, rr_audit_time = 0, rr_audit_id = ''x'', rr_traceback = []\<rparr>"

definition sample_rpc_server :: rpc_server where
  "sample_rpc_server = \<lparr>ds_registry = \<lparr>hr_handlers = [(''task.request'', \<lparr>hn_kind = PlainHandler, hn_params = None, hn_run = (\<lambda>m e. Inr e)\<rparr>)],
       hr_streaming = [], hr_executor = None, hr_metering = None\<rparr>,
     ds_metrics = collector_init 0, ds_calls = [], rs_nonces = Some [], rs_audit = None\<rparr>"

lemmas sample_defs = sample_rpc_lib_def sample_config_def sample_rpc_req_def sample_rpc_server_def

lemma sample_parsed:
  "parse_and_validate_request (sample_rpc_lib data) sample_config (sample_rpc_req t) s =
     (Inr (Inr \<lparr>jr_method = ''asap.send'', jr_params = [(''envelope'', PDict data)], jr_id = IdInt 7\<rparr>), s)"
  by (simp add: parse_and_validate_request_def parse_json_body_def sample_defs Let_def lower_def
      validate_jsonrpc_request_def parse_jsonrpc_request_def ASAP_METHOD_def)

lemma sample_authenticated:
  "authenticate_request lb sample_config (sample_rpc_req t) rpc s = (Inr (Inr (Some ''urn:asap:agent:a'')), s)"
  by (simp add: authenticate_request_def verify_authentication_def is_auth_required_def supports_bearer_auth_def sample_defs
      lower_def lower_char_def)

lemma sample_prepared:
  assumes "0 \<le> t" "t \<le> 300"
  shows "prepare_request (sample_rpc_lib []) sample_config (sample_rpc_req t) sample_rpc_server =
    (Inr (Inr \<lparr>pr_rpc = \<lparr>jr_method = ''asap.send'', jr_params = [(''envelope'', PDict [])], jr_id = IdInt 7\<rparr>,
       pr_envelope = sample_env, pr_agent_id = Some ''urn:asap:agent:a''\<rparr>),
     sample_rpc_server\<lparr>rs_nonces := Some [(''n1'', of_int t + 600)]\<rparr>)"
proof -
  have env: "request_envelope (sample_rpc_lib []) (sample_rpc_req t) \<lparr>jr_method = ''asap.send'', jr_params = [(''envelope'', PDict [])], jr_id = IdInt 7\<rparr> s =
      (Inr (Inr sample_env), s)" for s
    by (simp add: request_envelope_def get_or_none_def build_envelope_def envelope_from_dict_def parse_payload_from_dict_def sample_rpc_lib_def sample_make_envelope)
  have trace: "trace_stage sample_env s = (Inr (Inr ()), s)" for s
    by (simp add: trace_stage_def activate_trace_def sample_env_def)
  have snd: "verify_sender_stage lb sample_config rq rpc (Some ''urn:asap:agent:a'') sample_env s = (Inr (Inr ()), s)" for lb rq rpc s
    by (simp add: verify_sender_stage_def verify_sender_matches_auth_def sample_config_def sample_env_def)
  have ts: "timestamp_stage lb (sample_rpc_req t) rpc sample_env s = (Inr (Inr ()), s)" for lb rpc s
    using assms by (simp add: timestamp_stage_def validate_envelope_timestamp_def sample_env_def sample_rpc_req_def
        MAX_ENVELOPE_AGE_SECONDS_def MAX_FUTURE_TOLERANCE_SECONDS_def)
  have nonce: "nonce_stage lb (sample_rpc_req t) rpc sample_env sample_rpc_server =
      (Inr (Inr ()), sample_rpc_server\<lparr>rs_nonces := Some [(''n1'', of_int t + 600)]\<rparr>)" for lb rpc
    by (simp add: nonce_stage_def validate_envelope_nonce_def sample_env_def sample_rpc_req_def sample_rpc_server_def
        check_and_mark_def cleanup_expired_def MAX_NONCE_STORE_SIZE_def NONCE_TTL_SECONDS_def MAX_ENVELOPE_AGE_SECONDS_def CLEANUP_PROBABILITY_def)
  show ?thesis
    unfolding prepare_request_def by (simp add: sample_parsed sample_authenticated env trace snd ts nonce)
qed

lemma sample_called:
  assumes "0 \<le> t" "t \<le> 300"
  shows "fst (handle_message (sample_rpc_lib []) sample_config (sample_rpc_req t) sample_rpc_server) =
      Inr \<lparr>rp_status = 200, rp_headers = [], rp_body = ResultBody sample_env (IdInt 7)\<rparr>"
    "ds_calls (snd (handle_message (sample_rpc_lib []) sample_config (sample_rpc_req t) sample_rpc_server)) = [sample_env]"
proof -
  have fields: "payload_type sample_env = ''task.request''" "rl_inject_trace (sample_rpc_lib []) = id" "rr_accept (sample_rpc_req t) = []"
    "rl_render (sample_rpc_lib []) b = None" for b
    by (simp_all add: sample_env_def sample_rpc_lib_def sample_rpc_req_def)
  show "fst (handle_message (sample_rpc_lib []) sample_config (sample_rpc_req t) sample_rpc_server) =
      Inr \<lparr>rp_status = 200, rp_headers = [], rp_body = ResultBody sample_env (IdInt 7)\<rparr>"
    "ds_calls (snd (handle_message (sample_rpc_lib []) sample_config (sample_rpc_req t) sample_rpc_server)) = [sample_env]"
    unfolding handle_message_def sample_prepared [OF assms]
    by (simp_all add: dispatch_to_handler_def dispatch_async_def run_handler_def fields sample_rpc_server_def record_metering_def
        build_success_response_def rendered_def audit_log_operation_def log_call_def on_metrics_def LAMBDA_CONTENT_TYPE_def Let_def)
qed

text \<open>What is known of a request that was prepared, whichever transport brought it.\<close>

definition checks_passed :: "rpc_lib \<Rightarrow> rpc_config \<Rightarrow> rpc_req \<Rightarrow> nonce_store option \<Rightarrow> envelope \<Rightarrow> nonce_store option \<Rightarrow> bool" where
  "checks_passed lb cf rq ns e ns' \<longleftrightarrow>
    (\<exists>body rpc. parse_json_body lb cf rq = Inr (PDict body) \<and> parse_jsonrpc_request body = Some rpc \<and> jr_method rpc = ''asap.send'') \<and>
    (\<forall>am. cf_auth cf = Some am \<longrightarrow> is_auth_required am \<longrightarrow>
       (\<exists>scheme token validate. rr_credentials rq = Some (scheme, token) \<and> lower scheme = ''bearer'' \<and>
          am_validator am = Some validate \<and> validate token = Inr (Some (sender e)))) \<and>
    agent_urn_match (sender e) \<and> agent_urn_match (recipient e) \<and>
    validate_envelope_timestamp (rr_check_time rq) e = Inr () \<and>
    validate_envelope_nonce (rr_nonce_clock rq) e ns = (Inr (), ns')"

lemma prepare_request_checks:
  assumes "prepare_request lb cf rq s = (Inr (Inr p), s1)"
  shows "checks_passed lb cf rq (rs_nonces s) (pr_envelope p) (rs_nonces s1)"
proof -
  from assms obtain body data where passed: "parse_json_body lb cf rq = Inr (PDict body)"
    "parse_jsonrpc_request body = Some (pr_rpc p)" "jr_method (pr_rpc p) = ASAP_METHOD"
    "case cf_auth cf of None \<Rightarrow> pr_agent_id p = None | Some am \<Rightarrow>
       verify_authentication am (rr_credentials rq) = Inr (pr_agent_id p) \<and>
       verify_sender_matches_auth (pr_agent_id p) (sender (pr_envelope p)) = Inr ()"
    "build_envelope lb rq data = Inr (Inr (pr_envelope p))"
    "validate_envelope (rr_check_time rq) (rr_nonce_clock rq) (pr_envelope p) (rs_nonces s) = (Inr (), rs_nonces s1)"
    by (rule prepare_request_passed)
  have auth: "\<exists>scheme token validate. rr_credentials rq = Some (scheme, token) \<and> lower scheme = ''bearer'' \<and>
      am_validator am = Some validate \<and> validate token = Inr (Some (sender (pr_envelope p)))"
    if am: "cf_auth cf = Some am" "is_auth_required am" for am
  proof -
    have "verify_authentication am (rr_credentials rq) = Inr (pr_agent_id p)" using passed(4) am(1) by simp
    then obtain scheme token agent_id validate where "rr_credentials rq = Some (scheme, token)" "lower scheme = ''bearer''"
      "am_validator am = Some validate" "validate token = Inr (Some agent_id)" "pr_agent_id p = Some agent_id"
      using am(2) by (rule verify_authentication_sound)
    then show ?thesis using passed(4) am(1) by (auto simp: verify_sender_iff)
  qed
  have "validate_envelope_timestamp (rr_check_time rq) (pr_envelope p) = Inr ()"
    "validate_envelope_nonce (rr_nonce_clock rq) (pr_envelope p) (rs_nonces s) = (Inr (), rs_nonces s1)"
    using passed(6) by (auto simp: validate_envelope_def split: sum.splits)
  with passed(1-3) auth build_envelope_valid(1,2) [OF passed(5)] show ?thesis
    by (auto simp: checks_passed_def ASAP_METHOD_def)
qed

subsection \<open>Properties\<close>

text \<open>C1: application code runs for a request only if everything before it passed: the body was read within the limits, it
  is a JSON-RPC call of \<open>asap.send\<close>, the bearer token of a server that requires authentication was
  validated to the very agent the envelope names as its sender, the envelope has valid sender and
  recipient identifiers, its timestamp is in the window and its nonce was not used. It runs at most once, for that
  envelope, and only a registered handler.\<close>

theorem dispatched_only_after_checks:
  assumes "handle_message lb cf rq s = (r, s')" "ds_calls s' \<noteq> ds_calls s"
  shows "\<exists>e body rpc. ds_calls s' = ds_calls s @ [e] \<and> has_handler (payload_type e) (ds_registry s) \<and>
    parse_json_body lb cf rq = Inr (PDict body) \<and> parse_jsonrpc_request body = Some rpc \<and> jr_method rpc = ''asap.send'' \<and>
    (\<forall>am. cf_auth cf = Some am \<longrightarrow> is_auth_required am \<longrightarrow>
       (\<exists>scheme token validate. rr_credentials rq = Some (scheme, token) \<and> lower scheme = ''bearer'' \<and>
          am_validator am = Some validate \<and> validate token = Inr (Some (sender e)))) \<and>
    agent_urn_match (sender e) \<and> agent_urn_match (recipient e) \<and>
    validate_envelope_timestamp (rr_check_time rq) e = Inr () \<and>
    validate_envelope_nonce (rr_nonce_clock rq) e (rs_nonces s) = (Inr (), rs_nonces s')"
  using assms(1)
proof (cases rule: handle_message_calls)
  case refused
  with assms(2) show ?thesis by simp
next
  case (called p s1)
  from prepare_request_checks [OF called(1)] obtain body rpc where "parse_json_body lb cf rq = Inr (PDict body)"
    "parse_jsonrpc_request body = Some rpc" "jr_method rpc = ''asap.send''"
    by (auto simp: checks_passed_def)
  with called prepare_request_checks [OF called(1)] show ?thesis
    by (intro exI [of _ "pr_envelope p"] exI [of _ body] exI [of _ rpc]) (simp add: checks_passed_def)
qed

theorem dispatched_only_after_checks_witness:
  "has_handler (payload_type sample_env) (ds_registry sample_rpc_server) \<and>
   validate_envelope_timestamp (rr_check_time (sample_rpc_req 1)) sample_env = Inr ()"
proof -
  note called = sample_called [of 1, simplified]
  have "ds_calls (snd (handle_message (sample_rpc_lib []) sample_config (sample_rpc_req 1) sample_rpc_server)) \<noteq> ds_calls sample_rpc_server"
    using called(2) by (simp add: sample_rpc_server_def)
  from dispatched_only_after_checks [OF prod.collapse [symmetric] this] called(2)
  show ?thesis by (auto simp: sample_rpc_server_def)
qed

text \<open>C15: on a server with a nonce store, an envelope with a nonce that one request got to a handler is not handed to a handler
  again by a later request, whatever requests are served in between, as long as for every one of them the monotonic and the wall
  clock of its checks agree within 135 seconds and the requests in between are not checked later than the repeated one. A server
  without a nonce store, the default, refuses no repetition.\<close>

theorem no_envelope_dispatched_twice:
  assumes "handle_message lb cf rq1 s = (r1, s1)" "ds_calls s1 = ds_calls s @ [e]" "env_nonce e = Some n"
    and "rs_nonces s = Some ns" "wf_dict ns"
    and "handle_message lb cf rq2 (serve_all lb cf between s1) = (r2, s3)"
    and "d \<le> 135" "\<forall>rq \<in> {rq1, rq2} \<union> set between. clocks_agree d (rr_check_time rq) (rr_nonce_clock rq)"
    and "\<forall>rq \<in> set between. rr_check_time rq \<le> rr_check_time rq2"
  shows "ds_calls s3 \<noteq> ds_calls (serve_all lb cf between s1) @ [e]"
proof
  let ?s2 = "serve_all lb cf between s1"
  assume again: "ds_calls s3 = ds_calls ?s2 @ [e]"
  from assms(1) obtain p1 t1 where 1: "prepare_request lb cf rq1 s = (Inr (Inr p1), t1)" "pr_envelope p1 = e" "rs_nonces s1 = rs_nonces t1"
    by (rule handle_message_calls) (use assms(2) in auto)
  from assms(6) obtain p2 t2 where 2: "prepare_request lb cf rq2 ?s2 = (Inr (Inr p2), t2)" "pr_envelope p2 = e"
    by (rule handle_message_calls) (use again in auto)
  have v1: "validate_envelope (rr_check_time rq1) (rr_nonce_clock rq1) e (Some ns) = (Inr (), rs_nonces s1)"
    by (rule prepare_request_passed [OF 1(1)]) (use 1 assms(4) in simp)
  have v2: "fst (validate_envelope (rr_check_time rq2) (rr_nonce_clock rq2) e (rs_nonces ?s2)) = Inr ()"
    by (rule prepare_request_passed [OF 2(1)]) (use 2 in simp)
  have ts: "validate_envelope_timestamp (rr_check_time rq1) e = Inr ()" "validate_envelope_timestamp (rr_check_time rq2) e = Inr ()"
    using v1 v2 by (auto simp: validate_envelope_def split: sum.splits)
  let ?x = "nc_mark (rr_nonce_clock rq1) + of_int NONCE_TTL_SECONDS"
  note late = nonce_outlives_timestamp [OF ts assms(7), of "rr_nonce_clock rq1"]
  have early: "nc_cleanup (rr_nonce_clock rq) \<le> ?x \<and> nc_check (rr_nonce_clock rq) \<le> ?x" if "rq \<in> set between \<or> rq = rq2" for rq
    using that assms(8,9) late [of "rr_check_time rq"] by (auto simp: clocks_agree_def)
  have "holds_mark n ?x s1"
    using v1 ts(1) check_and_mark_new [of "rr_nonce_clock rq1" n NONCE_TTL_SECONDS ns] check_and_mark_wf [OF assms(5)]
    by (auto simp: holds_mark_def validate_envelope_def validate_envelope_nonce_eq [OF assms(3)] dest!: sym [of "Some _"] split: if_splits)
  then have "holds_mark n ?x ?s2" using early by (intro serve_all_keeps_mark) auto
  then obtain ns2 where "rs_nonces ?s2 = Some ns2" "wf_dict ns2" "map_of ns2 n = Some ?x" by (auto simp: holds_mark_def)
  moreover from this early [of rq2] have "fst (check_and_mark (rr_nonce_clock rq2) n NONCE_TTL_SECONDS ns2)"
    by (intro check_and_mark_refuses) auto
  ultimately show False using v2 ts(2) by (simp add: validate_envelope_def validate_envelope_nonce_eq [OF assms(3)])
qed

theorem no_envelope_dispatched_twice_witness:
  "let s1 = snd (handle_message (sample_rpc_lib []) sample_config (sample_rpc_req 1) sample_rpc_server)
   in ds_calls s1 = [sample_env] \<and> ds_calls (snd (handle_message (sample_rpc_lib []) sample_config (sample_rpc_req 299) s1)) \<noteq> [sample_env, sample_env]"
proof -
  note called = sample_called [of 1, simplified]
  show ?thesis
    using no_envelope_dispatched_twice [OF prod.collapse [symmetric] _ _ _ _ prod.collapse [symmetric],
        where lb = "sample_rpc_lib []" and cf = sample_config and ?rq1.0 = "sample_rpc_req 1" and s = sample_rpc_server and
          e = sample_env and n = "''n1''" and ns = "[]" and ?rq2.0 = "sample_rpc_req 299" and between = "[]" and d = 0] called(2)
    by (simp add: Let_def sample_rpc_server_def sample_env_def env_nonce_def sample_rpc_req_def clocks_agree_def)
qed

text \<open>C16: a request ends in one of four documented ways. It is refused with a JSON-RPC error of one of the five standard
  codes or of the ASAP range, with status 200; or with a plain answer of status 400, 413, 415 or 503; or it gets the answer of the
  registered handler to its envelope, under its own identifier; or an exception was raised on the way, and the JSON-RPC error for
  it, an internal error with texts as its data or the ASAP error that was raised, cannot be rendered as JSON: only then
  an exception leaves the pipeline. The ASAP errors handlers and the token validator raise have codes of the
  ASAP range, as their constructors give them.\<close>

theorem every_request_answered:
  assumes "handle_message lb cf rq s = (out, s')" "validator_wf cf" "handlers_wf (ds_registry s)"
  shows "(\<exists>r err i. out = Inr r \<and> rp_body r = ErrorBody err i \<and> rp_status r = 200 \<and>
       (je_code err \<in> {-32700, -32600, -32601, -32602, -32603} \<or> -32059 \<le> je_code err \<and> je_code err \<le> -32000)) \<or>
    (\<exists>r d. out = Inr r \<and> rp_body r = PlainBody d \<and> rp_status r \<in> {400, 413, 415, 503}) \<or>
    (\<exists>r p s1 h response. out = Inr r \<and> prepare_request lb cf rq s = (Inr (Inr p), s1) \<and> ds_calls s' = ds_calls s @ [pr_envelope p] \<and>
       map_of (hr_handlers (ds_registry s)) (payload_type (pr_envelope p)) = Some h \<and>
       hn_run h (cf_manifest cf) (pr_envelope p) = Inr response \<and> rp_status r = 200 \<and>
       rp_body r \<in> {ResultBody (rl_inject_trace lb response) (jr_id (pr_rpc p)), LambdaBody (rl_inject_trace lb response) (jr_id (pr_rpc p))}) \<or>
    (\<exists>p err i. out = Inl (lift_exn p) \<and> rl_render lb (ErrorBody err (Some i)) = Some p \<and>
       (je_code err = -32603 \<and> (\<exists>data. je_data err = Some data \<and> (\<forall>v \<in> snd ` set data. \<exists>t. v = PStr t)) \<or>
        (\<exists>e msg. -32059 \<le> je_code err \<and> je_code err \<le> -32000 \<and> je_code err = ae_rpc_code e \<and> je_message err = ae_message e \<and>
           je_data err = Some (asap_reply_data e [(''error'', PStr msg)]))))"
proof (cases out)
  case (Inr r)
  with handle_message_body [OF assms] consider "refusal_wf r"
    | (result) "\<exists>p s1 h response. prepare_request lb cf rq s = (Inr (Inr p), s1) \<and> ds_calls s' = ds_calls s @ [pr_envelope p] \<and>
       map_of (hr_handlers (ds_registry s)) (payload_type (pr_envelope p)) = Some h \<and>
       hn_run h (cf_manifest cf) (pr_envelope p) = Inr response \<and> rp_status r = 200 \<and>
       rp_body r \<in> {ResultBody (rl_inject_trace lb response) (jr_id (pr_rpc p)), LambdaBody (rl_inject_trace lb response) (jr_id (pr_rpc p))}"
    by auto
  then show ?thesis
  proof cases
    case 1
    with Inr show ?thesis
      by (auto simp: refusal_wf_def standard_code_values is_asap_json_rpc_code_def rpc_code_defs split: reply_body.splits)
  next
    case result
    with Inr show ?thesis by simp
  qed
next
  case (Inl y)
  with handle_message_body [OF assms] obtain x i r p where failed: "exception_reply x i r" "exn_wf x"
    "rl_render lb (rp_body r) = Some p" "y = lift_exn p" by auto
  show ?thesis
  proof (cases "asap_exn x")
    case None
    with failed(1) obtain data where "r = error_reply INTERNAL_ERROR data (Some i)" "\<forall>v \<in> snd ` set data. \<exists>t. v = PStr t"
      by (auto simp: exception_reply_def)
    with failed Inl show ?thesis
      by (intro disjI2 exI [of _ p] exI [of _ "jsonrpc_error_from_code INTERNAL_ERROR (Some data)"] exI [of _ i])
        (simp add: jsonrpc_error_from_code_def INTERNAL_ERROR_def)
  next
    case (Some em)
    obtain e msg where "em = (e, msg)" by fastforce
    with Some failed(1) have r: "r = asap_error_reply e (Some i) [(''error'', PStr msg)]"
      by (simp add: exception_reply_def)
    let ?err = "\<lparr>je_code = ae_rpc_code e, je_message = ae_message e, je_data = Some (asap_reply_data e [(''error'', PStr msg)])\<rparr>"
    from Some \<open>em = (e, msg)\<close> failed(2) have "-32059 \<le> ae_rpc_code e \<and> ae_rpc_code e \<le> -32000"
      by (auto simp: exn_wf_def is_asap_json_rpc_code_def rpc_code_defs)
    with failed(3,4) Inl r show ?thesis
      by (intro disjI2 exI [of _ p] exI [of _ ?err] exI [of _ i] conjI) auto
  qed
qed

theorem every_request_answered_witness:
  "\<exists>r. fst (handle_message (sample_rpc_lib []) sample_config (sample_rpc_req 1) sample_rpc_server) = Inr r \<and>
     rp_body r = ResultBody sample_env (IdInt 7)"
proof -
  have "validator_wf sample_config" "handlers_wf (ds_registry sample_rpc_server)"
    by (auto simp: validator_wf_def handlers_wf_def sample_config_def sample_rpc_server_def split: if_splits)
  from every_request_answered [OF prod.collapse [symmetric] this, of "sample_rpc_lib []" "sample_rpc_req 1"]
    sample_called [of 1] show ?thesis by auto
qed



text \<open>The exception is real: on a server whose handler's answer cannot be rendered, the request is counted as a success and as an error.\<close>

lemma unrendered_result_counted_twice:
  assumes "prepare_request lb cf rq s = (Inr (Inr p), s1)" "dispatch_to_handler lb cf rq p s1 = (Inr (Inr response), s2)"
    and "build_success_response lb rq p response (audit_log_operation lb rq (pr_envelope p) response s2) = (Inl x, s3)"
    and "has_request_counters (ds_metrics s2)" "handle_message lb cf rq s = (out, s')"
  shows "counter_total ''asap_requests_total'' (ds_metrics s') = counter_total ''asap_requests_total'' (ds_metrics s2) + 2 \<and>
    counter_total ''asap_requests_success_total'' (ds_metrics s') = counter_total ''asap_requests_success_total'' (ds_metrics s2) + 1 \<and>
    counter_total ''asap_requests_error_total'' (ds_metrics s') = counter_total ''asap_requests_error_total'' (ds_metrics s2) + 1"
proof -
  have "answer_exception lb cf rq x (jr_id (pr_rpc p)) (payload_type (pr_envelope p)) s3 = (out, s')"
    using assms by (simp add: handle_message_def Let_def)
  moreover have "counted True (ds_metrics s2) (ds_metrics s3)" using build_success_response_effect(5) [OF assms(3)] assms(4) by simp
  ultimately show ?thesis using answer_exception_effect(5) by (fastforce simp: counted_def)
qed

text \<open>The text that is parsed as JSON is never longer than the limit, and neither is the body as received.\<close>

theorem accepted_body_within_limit:
  assumes "parse_json_body lb cf rq = Inr v" "0 \<le> cf_max_request_size cf"
  shows "\<exists>body. rl_loads lb body = Inr v \<and> int (length body) \<le> cf_max_request_size cf \<and>
    int (length (concat (rr_chunks rq))) \<le> cf_max_request_size cf"
proof -
  let ?enc = "strip (lower (rr_content_encoding rq))"
  obtain raw where raw: "read_chunks (cf_max_request_size cf) [] (rr_chunks rq) = Inr raw"
    using assms(1) by (auto simp: parse_json_body_def Let_def split: if_splits sum.splits)
  then have len: "int (length (concat (rr_chunks rq))) \<le> cf_max_request_size cf" "raw = concat (rr_chunks rq)"
    using read_chunks_length [OF raw] assms(2) by auto
  obtain body where "rl_loads lb body = Inr v"
    "body = raw \<or> decompress_body (rl_codec lb) (cf_max_request_size cf) ?enc raw = Inr body"
    using assms(1) raw by (auto simp: parse_json_body_def Let_def split: if_splits sum.splits)
  moreover have "int (length b) \<le> cf_max_request_size cf" if "decompress_body (rl_codec lb) (cf_max_request_size cf) ?enc raw = Inr b" for b
    using that by (auto simp: decompress_body_def split: sum.splits codec_exn.splits if_splits)
  ultimately show ?thesis using len by auto
qed

theorem accepted_body_within_limit_witness:
  "int (length (concat (rr_chunks (sample_rpc_req 1)))) \<le> 10"
  using accepted_body_within_limit [of "sample_rpc_lib []" sample_config "sample_rpc_req 1"]
  by (auto simp: parse_json_body_def sample_defs lower_def)

text \<open>C18: the client rebuilds the error a server answered with, when the answer could be rendered and the error has a code of the ASAP
  range: the taxonomy code, the JSON-RPC code, the message, the recovery hints, and the recoverability of the error's class, which is the
  error's own for every class but a relayed remote error, whose own recoverability is lost (the class is neither recoverable nor
  fatal). The details of the server are found one level deeper, under the key \<open>details\<close>, without the entry that went into the header.\<close>

theorem client_rebuilds_server_error:
  assumes "is_asap_json_rpc_code (ae_rpc_code e)"
    and "build_jsonrpc_error_for_asap_exception lb e i [(''error'', PStr msg)] = Inr r" "rp_body r = ErrorBody err j"
  shows "j = i \<and> (\<exists>c. remote_rpc_error_from_json txt (je_code err) (je_message err) (je_data err) = Inr c \<and>
    ae_code c = ae_code e \<and> ae_rpc_code c = ae_rpc_code e \<and> json_rpc_code c = ae_rpc_code e \<and> ae_message c = ae_message e \<and>
    is_recoverable c = is_recoverable_class (ae_class e) \<and> ae_retry_after_ms c = ae_retry_after_ms e \<and>
    ae_alternative_agents c = ae_alternative_agents e \<and> ae_fallback_action c = ae_fallback_action e \<and>
    map_of (ae_details c) ''details'' = Some (PDict (AList.delete ''_www_authenticate_asap'' (ae_details e))))"
proof -
  let ?D = "jsonrpc_error_data_for_asap_exception e"
  have merged: "map_of (dict_merge ?D [(''error'', PStr msg)]) k = (if k = ''error'' then Some (PStr msg) else map_of ?D k)" for k
    by (simp add: dict_simps)
  have data: "map_of (asap_reply_data e [(''error'', PStr msg)]) k =
      (if k = ''details'' then Some (PDict (AList.delete WWW_AUTHENTICATE_KEY (ae_details e)))
       else if k = ''error'' then Some (PStr msg) else map_of ?D k)" for k
    by (simp add: asap_reply_data_def merged map_of_error_data map_of_update)
  have err: "err = \<lparr>je_code = ae_rpc_code e, je_message = ae_message e, je_data = Some (asap_reply_data e [(''error'', PStr msg)])\<rparr>" "j = i"
    using assms(2,3) by (auto simp: build_jsonrpc_error_for_asap_exception_def rendered_def split: option.splits)
  have "''details'' \<notin> set META_KEYS" "''error'' \<notin> set META_KEYS" by (simp_all add: META_KEYS_def)
  then have meta: "map_of (asap_reply_data e [(''error'', PStr msg)]) k = map_of ?D k" if "k \<in> set META_KEYS" for k
    using that by (auto simp: data)
  obtain c where c: "from_jsonrpc txt (ae_rpc_code e) (ae_message e) (Some (asap_reply_data e [(''error'', PStr msg)])) = Inr c"
    "ae_code c = ae_code e" "ae_rpc_code c = ae_rpc_code e" "ae_message c = ae_message e"
    "json_rpc_code c = ae_rpc_code e" "is_recoverable c = is_recoverable_class (ae_class e)"
    "ae_retry_after_ms c = ae_retry_after_ms e" "ae_alternative_agents c = ae_alternative_agents e"
    "ae_fallback_action c = ae_fallback_action e" "ae_details c = fold AList.delete META_KEYS (asap_reply_data e [(''error'', PStr msg)])"
    by (rule from_jsonrpc_error_data [OF assms(1) meta]) auto
  moreover have "map_of (ae_details c) ''details'' = Some (PDict (AList.delete ''_www_authenticate_asap'' (ae_details e)))"
    unfolding c(10) map_of_fold_delete data by (simp add: META_KEYS_def WWW_AUTHENTICATE_KEY_def)
  ultimately show ?thesis using err by (simp add: remote_rpc_error_from_json_def)
qed

theorem client_rebuilds_server_error_witness:
  "\<exists>c. remote_rpc_error_from_json (\<lambda>_. []) (-32011) ''m'' (Some (asap_reply_data
     \<lparr>ae_class = CircuitOpenError, ae_code = ''asap:transport/circuit_open'', ae_rpc_code = -32011, ae_message = ''m'',
      ae_details = [], ae_retry_after_ms = Some 5000, ae_alternative_agents = None, ae_fallback_action = Some ''retry''\<rparr>
     [(''error'', PStr ''m'')])) = Inr c \<and> is_recoverable c \<and> ae_retry_after_ms c = Some 5000"
proof -
  let ?e = "\<lparr>ae_class = CircuitOpenError, ae_code = ''asap:transport/circuit_open'', ae_rpc_code = -32011, ae_message = ''m'',
      ae_details = [], ae_retry_after_ms = Some 5000, ae_alternative_agents = None, ae_fallback_action = Some ''retry''\<rparr>"
  have code: "is_asap_json_rpc_code (ae_rpc_code ?e)" by (simp add: is_asap_json_rpc_code_def rpc_code_defs)
  have "build_jsonrpc_error_for_asap_exception (sample_rpc_lib []) ?e None [(''error'', PStr ''m'')] =
      Inr (asap_error_reply ?e None [(''error'', PStr ''m'')])"
    by (simp add: build_jsonrpc_error_for_asap_exception_def rendered_def sample_rpc_lib_def)
  from client_rebuilds_server_error [OF code this asap_reply_body(1), of "\<lambda>_. []"] show ?thesis
    by (auto simp: is_recoverable_class_def)
qed

text \<open>Four kinds of malformed input are answered with the code for an internal error although the fault is
  the client's: compressed data the decompressor rejects with \<open>zlib.error\<close>, a JSON-RPC frame that is invalid and
  has an identifier of a type JSON-RPC does not allow, an envelope whose payload type is a number, and a
  numeric span identifier next to a trace identifier of the right length.\<close>

theorem client_faults_reported_as_internal:
  assumes "\<And>b. rl_render lb b = None" and "(\<exists>x. parse_json_body lb cf rq = Inl (OtherExn ''error'' x)) \<or>
     (\<exists>body. parse_json_body lb cf rq = Inr (PDict body) \<and> parse_jsonrpc_request body = None \<and>
        get_or_none body ''id'' \<noteq> PNone \<and> coerce_id (get_or_none body ''id'') = None) \<or>
     (\<exists>rpc agent_id data p t. parse_and_validate_request lb cf rq s = (Inr (Inr rpc), s) \<and>
        authenticate_request lb cf rq rpc s = (Inr (Inr agent_id), s) \<and>
        get_or_none (jr_params rpc) ''envelope'' = PDict data \<and>
        map_of data ''payload'' = Some (PDict p) \<and> map_of data ''payload_type'' = Some (PInt t) \<and> t \<noteq> 0) \<or>
     (\<exists>rpc agent_id e tr n. parse_and_validate_request lb cf rq s = (Inr (Inr rpc), s) \<and>
        authenticate_request lb cf rq rpc s = (Inr (Inr agent_id), s) \<and> request_envelope lb rq rpc s = (Inr (Inr e), s) \<and>
        trace_id e = Some tr \<and> length tr = 32 \<and> get_or_none (or_empty (extensions e)) ''span_id'' = PInt n \<and> n \<noteq> 0)"
  shows "\<exists>r err. fst (handle_message lb cf rq s) = Inr r \<and> rp_body r = ErrorBody err (Some (IdStr [])) \<and> je_code err = -32603"
proof -
  have internal: ?thesis if "prepare_request lb cf rq s = (Inl (OtherExn t x), s1)" for t x s1
    using that assms(1) by (simp add: handle_message_def answer_exception_def handle_internal_error_def rendered_def
        jsonrpc_error_from_code_def INTERNAL_ERROR_def Let_def)
  have early: "prepare_request lb cf rq s = (Inl x, s1)" if "parse_and_validate_request lb cf rq s = (Inl x, s1)" for x s1
    using that by (simp add: prepare_request_def)
  from assms(2) show ?thesis
  proof (elim disjE exE conjE)
    fix x assume "parse_json_body lb cf rq = Inl (OtherExn ''error'' x)"
    then show ?thesis by (intro internal early) (simp add: parse_and_validate_request_def)
  next
    fix body assume "parse_json_body lb cf rq = Inr (PDict body)" "parse_jsonrpc_request body = None"
      "get_or_none body ''id'' \<noteq> PNone" "coerce_id (get_or_none body ''id'') = None"
    then show ?thesis
      by (intro internal early) (simp add: parse_and_validate_request_def validate_jsonrpc_request_def build_error_response_def Let_def split_def)
  next
    fix rpc agent_id data p t
    assume "parse_and_validate_request lb cf rq s = (Inr (Inr rpc), s)" "authenticate_request lb cf rq rpc s = (Inr (Inr agent_id), s)"
      "get_or_none (jr_params rpc) ''envelope'' = PDict data" "map_of data ''payload'' = Some (PDict p)"
      "map_of data ''payload_type'' = Some (PInt t)" "t \<noteq> 0"
    then show ?thesis
      by (intro internal) (simp add: prepare_request_def request_envelope_def build_envelope_def envelope_from_dict_def parse_payload_from_dict_def)
  next
    fix rpc agent_id e tr n
    assume "parse_and_validate_request lb cf rq s = (Inr (Inr rpc), s)" "authenticate_request lb cf rq rpc s = (Inr (Inr agent_id), s)"
      "request_envelope lb rq rpc s = (Inr (Inr e), s)" "trace_id e = Some tr" "length tr = 32"
      "get_or_none (or_empty (extensions e)) ''span_id'' = PInt n" "n \<noteq> 0"
    then show ?thesis
      by (intro internal) (simp add: prepare_request_def trace_stage_def activate_trace_def EXTENSION_SPAN_ID_def)
  qed
qed

theorem client_faults_reported_as_internal_witness:
  "\<exists>r err. fst (handle_message (sample_rpc_lib [(''payload'', PDict []), (''payload_type'', PInt 5)]) sample_config
     (sample_rpc_req 1) sample_rpc_server) = Inr r \<and> rp_body r = ErrorBody err (Some (IdStr [])) \<and> je_code err = -32603"
  by (rule client_faults_reported_as_internal)
    (simp add: sample_rpc_lib_def, simp add: sample_parsed sample_authenticated get_or_none_def)

end
