(* ===== verification/Http_Base.thy ===== *)
theory Http_Base
  imports Rpc_Base
begin

text \<open>
  What the HTTP client and the server share around messages: URLs as \<open>urllib.parse\<close> splits them and
  their sanitised form (\<open>src/asap/utils/sanitization.py\<close>), headers, responses as \<open>httpx\<close> delivers them, and
  the ASAP challenge of a 401 answer (\<open>src/asap/transport/challenge.py\<close>), which a server formats and a
  client parses.

  Parameters: \<open>url_lib\<close> holds \<open>urlparse\<close> and \<open>urlunparse\<close> and the substitution used for a URL that cannot be split.
\<close>

subsection \<open>URLs\<close>

text \<open>The attribute \<open>port\<close> raises \<open>ValueError\<close> for a port that is no number in range.\<close>

record url_parts =
  up_scheme :: string
  up_netloc :: string
  up_path :: string
  up_params :: string
  up_query :: string
  up_fragment :: string
  up_username :: "string option"
  up_password :: "string option"
  up_hostname :: "string option"
  up_port :: "py_exn + int option"

record url_lib =
  ul_parse :: "string \<Rightarrow> py_exn + url_parts"
  ul_unparse :: "string \<times> string \<times> string \<times> string \<times> string \<times> string \<Rightarrow> string"
  ul_redact :: "string \<Rightarrow> string"

definition SANITIZE_PREFIX_LENGTH :: nat where
  "SANITIZE_PREFIX_LENGTH = 8"

definition sanitize_token :: "string \<Rightarrow> string" where
  "sanitize_token token =
     (if token = [] then []
      else if length token \<le> SANITIZE_PREFIX_LENGTH then token
      else take SANITIZE_PREFIX_LENGTH token @ ''...'')"

definition sanitize_nonce :: "string \<Rightarrow> string" where
  "sanitize_nonce nonce =
     (if nonce = [] then []
      else if length nonce \<le> SANITIZE_PREFIX_LENGTH then nonce
      else take SANITIZE_PREFIX_LENGTH nonce @ ''...'')"

text \<open>An f-string prints a missing user or host as \<open>None\<close>.\<close>

definition shown :: "string option \<Rightarrow> string" where
  "shown x = (case x of None \<Rightarrow> ''None'' | Some s \<Rightarrow> s)"

definition has_password :: "url_parts \<Rightarrow> bool" where
  "has_password p = (case up_password p of None \<Rightarrow> False | Some w \<Rightarrow> w \<noteq> [])"

definition sanitize_url :: "url_lib \<Rightarrow> string \<Rightarrow> string" where
  "sanitize_url ul url =
     (if url = [] then []
      else (case ul_parse ul url of
              Inl x \<Rightarrow> ul_redact ul url
            | Inr p \<Rightarrow>
                if has_password p then
                  (let netloc = shown (up_username p) @ '':***@'' @ shown (up_hostname p)
                   in case up_port p of
                        Inl x \<Rightarrow> ul_redact ul url
                      | Inr port \<Rightarrow>
                          ul_unparse ul (up_scheme p,
                            (case port of None \<Rightarrow> netloc | Some n \<Rightarrow> if n = 0 then netloc else netloc @ '':'' @ str_int n),
                            up_path p, up_params p, up_query p, up_fragment p))
                else url))"

subsection \<open>Headers and responses\<close>

text \<open>Header names are compared without regard to case; the first of several equal names counts. Setting
  a header replaces the first entry, removes the others and stores the name in lower case.\<close>

definition header_get :: "string \<Rightarrow> (string \<times> string) list \<Rightarrow> string option" where
  "header_get n hs = map_of (map (\<lambda>(k, v). (lower k, v)) hs) (lower n)"

fun set_header :: "string \<Rightarrow> string \<Rightarrow> (string \<times> string) list \<Rightarrow> (string \<times> string) list" where
  "set_header n v [] = [(lower n, v)]"
| "set_header n v ((k, w) # hs) =
     (if lower k = lower n then (lower n, v) # filter (\<lambda>p. lower (fst p) \<noteq> lower n) hs
      else (k, w) # set_header n v hs)"

text \<open>The text of a body is a list of code points; \<open>rsp_json\<close> is what \<open>response.json()\<close> gives, \<open>Inl\<close> the text of its
  exception, and \<open>rsp_excerpt\<close> the start of the text as error messages quote it.\<close>

record wire_response =
  rsp_status :: int
  rsp_headers :: "(string \<times> string) list"
  rsp_text :: code_points
  rsp_excerpt :: string
  rsp_json :: "string + pyval"

text \<open>What \<open>await client.post(...)\<close> or \<open>get(...)\<close> ends with.\<close>

datatype http_outcome =
    Delivered wire_response
  | ConnectFailed string
  | TimedOut string
  | HttpFailed string string

subsection \<open>The challenge\<close>

abbreviation backslash :: char where "backslash \<equiv> CHR 0x5C"
abbreviation dquote :: char where "dquote \<equiv> CHR 0x22"

definition format_www_authenticate_asap :: "string \<Rightarrow> string" where
  "format_www_authenticate_asap discovery_url =
     ''ASAP discovery='' @ [dquote] @
     py_replace [dquote] [backslash, dquote] (py_replace [backslash] [backslash, backslash] discovery_url) @ [dquote]"

text \<open>\<open>\w\<close> and the search for \<open>\bASAP\b\<close> without regard to case; \<open>prev\<close> tells whether the character before is one
  of a word.\<close>

definition word_char :: "char \<Rightarrow> bool" where
  "word_char c \<longleftrightarrow> py_isalnum c \<or> c = CHR ''_''"

fun has_asap_word :: "bool \<Rightarrow> string \<Rightarrow> bool" where
  "has_asap_word prev [] = False"
| "has_asap_word prev (c # s) =
     ((\<not> prev \<and> lower (take 4 (c # s)) = ''asap'' \<and> (drop 4 (c # s) = [] \<or> \<not> word_char (hd (drop 4 (c # s))))) \<or>
      has_asap_word (word_char c) s)"

text \<open>\<open>((?:[^"\\]|\\.)*)"\<close>: the body of a quoted string. The alternatives exclude each other by their first
  character and neither starts with a quote, so the longest repetition is the only one that can succeed.\<close>

fun quoted_body :: "string \<Rightarrow> string option" where
  "quoted_body [] = None"
| "quoted_body [c] = (if c = dquote then Some [] else None)"
| "quoted_body (c # d # s) =
     (if c = dquote then Some []
      else if c = backslash then
        (if d = CHR 0x0A then None else map_option (\<lambda>r. c # d # r) (quoted_body s))
      else map_option ((#) c) (quoted_body (d # s)))"

definition match_discovery :: "string \<Rightarrow> string option" where
  "match_discovery s =
     (if lower (take 9 s) = ''discovery'' then
        (case dropWhile py_space (drop 9 s) of
           c # r \<Rightarrow>
             if c \<noteq> CHR ''='' then None
             else (case dropWhile py_space r of
                     q # body \<Rightarrow> if q = dquote then quoted_body body else None
                   | [] \<Rightarrow> None)
         | [] \<Rightarrow> None)
      else None)"

fun search_discovery :: "string \<Rightarrow> string option" where
  "search_discovery [] = None"
| "search_discovery (c # s) = (case match_discovery (c # s) of Some r \<Rightarrow> Some r | None \<Rightarrow> search_discovery s)"

definition parse_www_authenticate_asap :: "string option \<Rightarrow> string option" where
  "parse_www_authenticate_asap header_value =
     (case header_value of
        None \<Rightarrow> None
      | Some h \<Rightarrow>
          if h = [] \<or> \<not> has_asap_word False h then None
          else map_option (\<lambda>raw. py_replace [backslash, backslash] [backslash] (py_replace [backslash, dquote] [dquote] raw))
                 (search_discovery h))"

definition WELLKNOWN_MANIFEST_PATH :: string where
  "WELLKNOWN_MANIFEST_PATH = ''/.well-known/asap/manifest.json''"

text \<open>\<open>s.rstrip("/")\<close>\<close>

definition rstrip_slash :: "string \<Rightarrow> string" where
  "rstrip_slash s = rev (dropWhile (\<lambda>c. c = CHR ''/'') (rev s))"

definition default_manifest_discovery_url :: "url_lib \<Rightarrow> string \<Rightarrow> py_exn + string" where
  "default_manifest_discovery_url ul endpoint =
     (case ul_parse ul (strip endpoint) of
        Inl x \<Rightarrow> Inl x
      | Inr p \<Rightarrow>
          if up_scheme p = [] \<or> up_netloc p = [] then Inl (ValueError ''Invalid ASAP endpoint URL for discovery'')
          else Inr (rstrip_slash (up_scheme p @ ''://'' @ up_netloc p) @ WELLKNOWN_MANIFEST_PATH))"

text \<open>The middleware. \<open>override\<close> is what the handler left in the request state.\<close>

record challenge_middleware =
  cm_default_discovery_url :: string
  cm_path_prefixes :: "string list option"
  cm_path_matcher :: "(string \<Rightarrow> bool) option"

definition should_challenge :: "challenge_middleware \<Rightarrow> string \<Rightarrow> bool" where
  "should_challenge m path =
     (case cm_path_matcher m of
        Some f \<Rightarrow> f path
      | None \<Rightarrow>
          (case cm_path_prefixes m of
             None \<Rightarrow> True
           | Some ps \<Rightarrow> if ps = [] then True else list_ex (starts_with path) ps))"

definition discovery_for :: "challenge_middleware \<Rightarrow> pyval \<Rightarrow> string" where
  "discovery_for m override =
     (case override of PStr s \<Rightarrow> if strip s \<noteq> [] then strip s else cm_default_discovery_url m | _ \<Rightarrow> cm_default_discovery_url m)"

definition challenge_dispatch ::
  "challenge_middleware \<Rightarrow> string \<Rightarrow> pyval \<Rightarrow> ('s \<Rightarrow> reply \<times> 's) \<Rightarrow> 's \<Rightarrow> reply \<times> 's" where
  "challenge_dispatch m path override call_next s =
     (case call_next s of
        (r, s') \<Rightarrow>
          if rp_status r \<noteq> HTTP_UNAUTHORIZED \<or> \<not> should_challenge m path then (r, s')
          else (let h = format_www_authenticate_asap (discovery_for m override);
                    v = (case header_get ''www-authenticate'' (rp_headers r) of
                           None \<Rightarrow> h
                         | Some e \<Rightarrow> if e = [] then h else e @ '', '' @ h)
                in (r\<lparr>rp_headers := set_header ''WWW-Authenticate'' v (rp_headers r)\<rparr>, s')))"

subsection \<open>Quoting\<close>

text \<open>Both replacements of the formatter in one, character by character, and with only the backslashes quoted.\<close>

definition quoted_char :: "char \<Rightarrow> string" where
  "quoted_char c = (if c = backslash then [backslash, backslash] else if c = dquote then [backslash, dquote] else [c])"

definition quoted_text :: "string \<Rightarrow> string" where
  "quoted_text s = concat (map quoted_char s)"

definition half_quoted :: "string \<Rightarrow> string" where
  "half_quoted s = concat (map (\<lambda>c. if c = backslash then [backslash, backslash] else [c]) s)"

lemma quoted_text_simps [simp]:
  "quoted_text [] = []" "quoted_text (c # s) = quoted_char c @ quoted_text s"
  by (simp_all add: quoted_text_def)

lemma half_quoted_simps [simp]:
  "half_quoted [] = []" "half_quoted (c # s) = (if c = backslash then [backslash, backslash] else [c]) @ half_quoted s"
  by (simp_all add: half_quoted_def)

lemma quote_both:
  "py_replace [dquote] [backslash, dquote] (py_replace [backslash] [backslash, backslash] s) = quoted_text s"
  unfolding py_replace_char by (induction s) (auto simp: quoted_char_def)

lemma quoted_text_start: "quoted_text s = [] \<or> hd (quoted_text s) \<noteq> dquote"
  by (cases s) (auto simp: quoted_char_def)

lemma starts_with_two: "starts_with (a # b # s) [x, y] \<longleftrightarrow> a = x \<and> b = y"
  by (auto simp: starts_with_def)

lemma starts_with_lone [simp]: "\<not> starts_with [a] [x, y]"
  by (simp add: starts_with_def)

lemma unquote_quotes: "py_replace [backslash, dquote] [dquote] (quoted_text s) = half_quoted s"
proof (induction s)
  case (Cons c s)
  have second: "\<not> starts_with (a # quoted_text s) [backslash, dquote]" for a
    using quoted_text_start [of s] by (cases "quoted_text s") (auto simp: starts_with_two)
  show ?case
  proof (cases "c = backslash \<or> c = dquote")
    case True
    then show ?thesis using Cons second by (auto simp: quoted_char_def starts_with_two)
  next
    case False
    then show ?thesis using Cons second by (simp add: quoted_char_def)
  qed
qed simp

lemma unquote_backslashes: "py_replace [backslash, backslash] [backslash] (half_quoted s) = s"
proof (induction s)
  case (Cons c s)
  then show ?case by (cases "half_quoted s") (auto simp: starts_with_def)
qed simp

lemma quoted_body_quoted [simp]: "quoted_body (quoted_text s @ dquote # rest) = Some (quoted_text s)"
proof (induction s)
  case Nil
  then show ?case by (cases rest) simp_all
next
  case (Cons c s)
  then show ?case by (cases "quoted_text s") (auto simp: quoted_char_def)
qed

lemma lower_asap: "lower [CHR ''A'', CHR ''S'', CHR ''A'', CHR ''P''] = ''asap''"
  by code_simp

lemma lower_discovery: "lower ''discovery'' = ''discovery''"
  by code_simp

lemma asap_scheme_found: "has_asap_word False (''ASAP discovery='' @ s)"
  by (simp add: lower_asap word_char_def py_isalnum_def)

lemma match_formatted: "match_discovery (''discovery='' @ dquote # quoted_text s @ [dquote]) = Some (quoted_text s)"
  by (simp add: match_discovery_def lower_discovery py_space_def)

lemma no_discovery_before: "lower_char c \<noteq> CHR ''d'' \<Longrightarrow> match_discovery (c # s) = None"
  by (simp add: match_discovery_def lower_def)

lemma scheme_letters:
  "lower_char (CHR ''A'') \<noteq> CHR ''d''" "lower_char (CHR ''S'') \<noteq> CHR ''d''" "lower_char (CHR ''P'') \<noteq> CHR ''d''"
  "lower_char (CHR '' '') \<noteq> CHR ''d''"
  by code_simp+

lemma search_formatted: "search_discovery (''ASAP discovery='' @ dquote # quoted_text s @ [dquote]) = Some (quoted_text s)"
  using match_formatted [of s] by (simp add: no_discovery_before scheme_letters)

lemma parse_formatted: "parse_www_authenticate_asap (Some (format_www_authenticate_asap u)) = Some u"
proof -
  have "format_www_authenticate_asap u = ''ASAP discovery='' @ dquote # quoted_text u @ [dquote]"
    by (simp add: format_www_authenticate_asap_def quote_both)
  then show ?thesis
    using asap_scheme_found [of "dquote # quoted_text u @ [dquote]"] search_formatted [of u]
    by (simp add: parse_www_authenticate_asap_def unquote_quotes unquote_backslashes
        del: has_asap_word.simps search_discovery.simps)
qed

lemma lower_lower [simp]: "lower (lower s) = lower s"
proof -
  have "lower_char (lower_char c) = lower_char c" for c
    by (auto simp: lower_char_def Let_def)
  then show ?thesis by (simp add: lower_def)
qed

lemma header_get_set [simp]: "header_get n (set_header n v hs) = Some v"
  by (induction n v hs rule: set_header.induct) (auto simp: header_get_def)

subsection \<open>Properties\<close>

lemma www_authenticate_names: "lower ''WWW-Authenticate'' = lower ''www-authenticate''"
  by code_simp

lemma header_get_lower: "lower a = lower b \<Longrightarrow> header_get a hs = header_get b hs"
  by (simp add: header_get_def)

text \<open>The challenge the middleware adds to a 401 answer is read back by the client as the discovery URL
  the server advertises, whatever characters the URL has.\<close>

theorem challenge_round_trip:
  assumes "call_next s = (r, s')" "rp_status r = HTTP_UNAUTHORIZED" "should_challenge m path"
    and "header_get ''www-authenticate'' (rp_headers r) = None"
  shows "parse_www_authenticate_asap
      (header_get ''www-authenticate'' (rp_headers (fst (challenge_dispatch m path override call_next s)))) =
    Some (discovery_for m override)"
proof -
  let ?h = "format_www_authenticate_asap (discovery_for m override)"
  have "rp_headers (fst (challenge_dispatch m path override call_next s)) = set_header ''WWW-Authenticate'' ?h (rp_headers r)"
    using assms by (simp add: challenge_dispatch_def)
  then show ?thesis
    by (simp only: header_get_lower [OF www_authenticate_names, symmetric] header_get_set parse_formatted)
qed

theorem challenge_round_trip_witness:
  "parse_www_authenticate_asap (header_get ''www-authenticate'' (rp_headers (fst (challenge_dispatch
      \<lparr>cm_default_discovery_url = ''https://h/m.json'', cm_path_prefixes = Some [''/asap''], cm_path_matcher = None\<rparr>
      ''/asap/agent'' PNone (\<lambda>s. (\<lparr>rp_status = 401, rp_headers = [], rp_body = PlainBody []\<rparr>, s)) ())))) =
    Some ''https://h/m.json''"
  by (subst challenge_round_trip [OF refl])
    (simp_all add: HTTP_UNAUTHORIZED_def should_challenge_def starts_with_def header_get_def discovery_for_def)

end
