(* ===== verification/Client_Discovery.thy ===== *)
theory Client_Discovery
  imports Http_Base Ttl_Cache Handlers
begin

text \<open>
  The discovery half of the client (\<open>src/asap/transport/client/_discovery.py\<close>): fetching, verifying and caching
  manifests, health checks, and asking for capabilities with polling of the answer; manifest signatures
  (\<open>src/asap/crypto/signing.py\<close>, \<open>src/asap/crypto/keys.py\<close>) and the life time a response grants
  (\<open>src/asap/transport/client/_helpers.py\<close>).

  A manifest is a value of a type \<open>'m\<close>. Parameters: the record \<open>manifest_lib\<close> holds the schema validation
  of pydantic and what the libraries for base64, JCS and Ed25519 compute. While a request is under way other tasks
  of the client may use the cache: \<open>fe_others\<close> are their calls.
\<close>

subsection \<open>Signed manifests\<close>

record 'm signed_manifest =
  sg_manifest :: 'm
  sg_alg :: string
  sg_signature :: string
  sg_trust_level :: string
  sg_public_key :: "string option"

datatype b64_fail = BinasciiError string | NotAscii string

record ('m, 'h) manifest_lib =
  ml_manifest :: "pyval \<Rightarrow> string + 'm"
  ml_signed :: "pyval \<Rightarrow> string + 'm signed_manifest"
  ml_health :: "pyval \<Rightarrow> string + 'h"
  ml_b64decode :: "string \<Rightarrow> b64_fail + bytes"
  ml_canonicalize :: "'m \<Rightarrow> bytes"
  ml_verify :: "bytes \<Rightarrow> bytes \<Rightarrow> bytes \<Rightarrow> bool"
  ml_str :: "pyval \<Rightarrow> string"

definition ED25519_ORDER :: int where
  "ED25519_ORDER = 2 ^ 252 + 27742317777372353535851937790883648493"

text \<open>\<open>int.from_bytes(b, "little")\<close>\<close>

fun le_value :: "bytes \<Rightarrow> int" where
  "le_value [] = 0"
| "le_value (c # s) = int (of_char c) + 256 * le_value s"

definition signature_error :: "string \<Rightarrow> pydict \<Rightarrow> exn" where
  "signature_error message details = raised (signature_verification_error message (Some details))"

definition enforce_strict_scalar :: "bytes \<Rightarrow> exn + unit" where
  "enforce_strict_scalar raw_sig =
     (if le_value (drop 32 raw_sig) \<ge> ED25519_ORDER
      then Inl (signature_error ''Signature malleability detected: scalar s >= group order l (RFC 8032 strict violation).''
        [(''s_value_hex'', PStr (''0x'' @ hex_nat (nat (le_value (drop 32 raw_sig)))))])
      else Inr ())"

definition b64_text :: "b64_fail \<Rightarrow> string" where
  "b64_text f = (case f of BinasciiError x \<Rightarrow> x | NotAscii x \<Rightarrow> x)"

definition load_public_key_from_base64 :: "('m, 'h) manifest_lib \<Rightarrow> string \<Rightarrow> exn + bytes" where
  "load_public_key_from_base64 lb b64 =
     (case ml_b64decode lb b64 of
        Inl f \<Rightarrow> Inl (OtherExn ''ValueError'' (b64_text f))
      | Inr raw \<Rightarrow>
          if length raw \<noteq> 32
          then Inl (OtherExn ''ValueError'' (''Ed25519 public key must be 32 bytes, got '' @ str_int (int (length raw))))
          else Inr raw)"

text \<open>The key: the one given, or the one the signed manifest carries.\<close>

definition signing_key :: "('m, 'h) manifest_lib \<Rightarrow> 'm signed_manifest \<Rightarrow> bytes option \<Rightarrow> exn + bytes" where
  "signing_key lb sm public_key =
     (case public_key of
        Some pk \<Rightarrow> Inr pk
      | None \<Rightarrow>
          (case sg_public_key sm of
             None \<Rightarrow> Inl (signature_error ''Cannot verify: no public key provided and signed manifest has no public_key.'' [])
           | Some b64 \<Rightarrow>
               if b64 = [] then Inl (signature_error ''Cannot verify: no public key provided and signed manifest has no public_key.'' [])
               else (case load_public_key_from_base64 lb b64 of
                       Inl x \<Rightarrow> Inl (signature_error (''Invalid public_key in signed manifest: '' @ exn_text x @ ''.'') [])
                     | Inr pk \<Rightarrow> Inr pk)))"

definition check_raw_signature ::
  "('m, 'h) manifest_lib \<Rightarrow> 'm signed_manifest \<Rightarrow> bytes \<Rightarrow> bytes \<Rightarrow> exn + unit" where
  "check_raw_signature lb sm pk raw_sig =
     (if length raw_sig \<noteq> 64
      then Inl (signature_error (''Ed25519 signature must be 64 bytes, got '' @ str_int (int (length raw_sig)) @ ''. Possible tampering.'')
                 [(''signature_length'', PInt (int (length raw_sig)))])
      else (case enforce_strict_scalar raw_sig of
              Inl x \<Rightarrow> Inl x
            | Inr u \<Rightarrow>
                if ml_verify lb pk raw_sig (ml_canonicalize lb (sg_manifest sm)) then Inr ()
                else Inl (signature_error ''Signature verification failed: manifest may have been tampered with or signature is invalid.'' [(''cause'', PStr [])])))"

definition verify_manifest :: "('m, 'h) manifest_lib \<Rightarrow> 'm signed_manifest \<Rightarrow> bytes option \<Rightarrow> exn + unit" where
  "verify_manifest lb sm public_key =
     (if sg_alg sm \<noteq> ''ed25519''
      then Inl (signature_error (''Unsupported signature algorithm: '' @ sg_alg sm @ ''. Only ed25519 is supported.'')
                 [(''alg'', PStr (sg_alg sm))])
      else (case signing_key lb sm public_key of
              Inl x \<Rightarrow> Inl x
            | Inr pk \<Rightarrow>
                (case ml_b64decode lb (sg_signature sm) of
                   Inl (BinasciiError x) \<Rightarrow> Inl (signature_error (''Invalid signature encoding (base64): '' @ x @ ''.'') [])
                 | Inl (NotAscii x) \<Rightarrow> Inl (OtherExn ''ValueError'' x)
                 | Inr raw_sig \<Rightarrow> check_raw_signature lb sm pk raw_sig)))"

subsection \<open>The client's settings\<close>

record disc_client =
  dc_base_url :: string
  dc_http_base_url :: string
  dc_timeout :: rat
  dc_connected :: bool
  dc_verify_signatures :: bool
  dc_trusted_keys :: "(string, string) dict"
  dc_urls :: url_lib

definition connection_exn :: "string \<Rightarrow> string option \<Rightarrow> string \<Rightarrow> exn" where
  "connection_exn message cause url =
     raised (asap_connection_error message cause (Some url) RPC_CONNECTION_ERROR None None)"

definition timeout_exn :: "string \<Rightarrow> rat \<Rightarrow> exn" where
  "timeout_exn message t = raised (asap_timeout_error message (Some t) None)"

definition not_connected :: "url_lib \<Rightarrow> string \<Rightarrow> exn" where
  "not_connected ul url =
     connection_exn (''Client not connected. Use '' @ [CHR 0x27] @ ''async with'' @ [CHR 0x27] @ '' context.'') None (sanitize_url ul url)"

subsection \<open>The payload of a manifest response\<close>

text \<open>\<open>k in v\<close> for the values JSON gives: keys, elements or substrings; \<open>None\<close> for a \<open>TypeError\<close>.\<close>

fun py_contains :: "string \<Rightarrow> pyval \<Rightarrow> bool option" where
  "py_contains k (PDict d) = Some (k \<in> set (map fst d))"
| "py_contains k (PList l) = Some (PStr k \<in> set l)"
| "py_contains k (PStr s) = Some (has_substring k s)"
| "py_contains k _ = None"

definition schema_exn :: "bool \<Rightarrow> string \<Rightarrow> exn" where
  "schema_exn use_schema_validator x =
     (if use_schema_validator then OtherExn ''ManifestValidationError'' (''Invalid manifest schema: '' @ x)
      else OtherExn ''ValueError'' (''Invalid manifest format: '' @ x))"

text \<open>An exception other than the two named ones becomes a \<open>ValueError\<close>.\<close>

definition wrap_format_exn :: "exn \<Rightarrow> exn" where
  "wrap_format_exn x =
     (case x of AsapExn e \<Rightarrow> x | _ \<Rightarrow> OtherExn ''ValueError'' (''Invalid manifest format: '' @ exn_text x))"

definition verify_fetched ::
  "('m, 'h) manifest_lib \<Rightarrow> disc_client \<Rightarrow> string \<Rightarrow> 'm signed_manifest \<Rightarrow> exn + unit" where
  "verify_fetched lb cl url sm =
     (if \<not> dc_verify_signatures cl then Inr ()
      else (case map_of (dc_trusted_keys cl) url of
              Some (b # b64) \<Rightarrow>
                (case load_public_key_from_base64 lb (b # b64) of
                   Inl x \<Rightarrow> Inl x
                 | Inr key \<Rightarrow> verify_manifest lb sm (Some key))
            | _ \<Rightarrow>
                Inl (signature_error (''Cannot verify signed manifest from '' @ sanitize_url (dc_urls cl) url @
                  '': no trusted public key provided. Pass trusted_manifest_keys to ASAPClient (or disable verify_signatures).'')
                  [(''url'', PStr (sanitize_url (dc_urls cl) url))])))"

definition coerce_manifest_payload ::
  "('m, 'h) manifest_lib \<Rightarrow> disc_client \<Rightarrow> pyval \<Rightarrow> string \<Rightarrow> bool \<Rightarrow> exn + 'm \<times> string option" where
  "coerce_manifest_payload lb cl data url use_schema_validator =
     (case (py_contains ''manifest'' data, py_contains ''signature'' data) of
        (Some m, Some sg) \<Rightarrow>
          if m \<and> sg then
            (case ml_signed lb data of
               Inl x \<Rightarrow> Inl (OtherExn ''ValueError'' (''Invalid manifest format: '' @ x))
             | Inr sm \<Rightarrow>
                 (case verify_fetched lb cl url sm of
                    Inl x \<Rightarrow> Inl (wrap_format_exn x)
                  | Inr u \<Rightarrow> Inr (sg_manifest sm, Some (sg_trust_level sm))))
          else (case ml_manifest lb data of
                  Inl x \<Rightarrow> Inl (schema_exn use_schema_validator x)
                | Inr mf \<Rightarrow> Inr (mf, None))
      | _ \<Rightarrow> Inl (OtherExn ''ValueError'' ''Invalid manifest format: argument is not iterable''))"

subsection \<open>Fetching and caching\<close>

definition DISCOVER_CACHE_MAX_AGE_CAP :: rat where
  "DISCOVER_CACHE_MAX_AGE_CAP = 86400"

text \<open>\<open>max-age\s*=\s*(\d+)\<close> without regard to case, at the first place where it matches.\<close>

definition match_max_age :: "string \<Rightarrow> string option" where
  "match_max_age s =
     (if lower (take 7 s) = ''max-age'' then
        (case dropWhile py_space (drop 7 s) of
           c # r \<Rightarrow>
             if c = CHR ''='' \<and> takeWhile is_digit (dropWhile py_space r) \<noteq> []
             then Some (takeWhile is_digit (dropWhile py_space r)) else None
         | [] \<Rightarrow> None)
      else None)"

fun search_max_age :: "string \<Rightarrow> string option" where
  "search_max_age [] = None"
| "search_max_age (c # s) = (case match_max_age (c # s) of Some d \<Rightarrow> Some d | None \<Rightarrow> search_max_age s)"

text \<open>\<open>int\<close> refuses a text of too many digits.\<close>

definition parse_max_age_from_cache_control :: "string option \<Rightarrow> exn + rat option" where
  "parse_max_age_from_cache_control cache_control =
     (case cache_control of
        None \<Rightarrow> Inr None
      | Some h \<Rightarrow>
          if h = [] then Inr None
          else (case search_max_age h of
                  None \<Rightarrow> Inr None
                | Some ds \<Rightarrow>
                    (case parse_int ds of
                       None \<Rightarrow> Inl (OtherExn ''ValueError'' ''Exceeds the limit for integer string conversion'')
                     | Some n \<Rightarrow> Inr (if n > 0 then Some (min (of_int n) DISCOVER_CACHE_MAX_AGE_CAP) else None))))"

record 'm fetch_env =
  fe_lookup_now :: rat
  fe_outcome :: http_outcome
  fe_others :: "(rat option \<times> rat, string, 'm) cache_event list"
  fe_store_now :: rat

text \<open>A response that arrived: the branches of the \<open>try\<close> block, with the entry the error paths of it drop.\<close>

definition store_fetched ::
  "('m, 'h) manifest_lib \<Rightarrow> disc_client \<Rightarrow> string \<Rightarrow> bool \<Rightarrow> bool \<Rightarrow> rat \<Rightarrow> wire_response \<Rightarrow> 'm manifest_cache \<Rightarrow>
   ('m manifest_cache, exn, 'm) outcome" where
  "store_fetched lb cl url use_schema_validator parse_ttl store_now r c =
     (if rsp_status r \<ge> 400
      then (Inl (connection_exn (''HTTP error '' @ str_int (rsp_status r) @ '' fetching manifest from '' @ url @
                   ''. Server response: '' @ rsp_excerpt r) None (sanitize_url (dc_urls cl) url)),
            mc_invalidate url c)
      else (case rsp_json r of
              Inl x \<Rightarrow> (Inl (OtherExn ''ValueError'' (''Invalid JSON in manifest response: '' @ x)), mc_invalidate url c)
            | Inr data \<Rightarrow>
                (case coerce_manifest_payload lb cl data url use_schema_validator of
                   Inl x \<Rightarrow> (Inl x, c)
                 | Inr (m, trust) \<Rightarrow>
                     (case (if parse_ttl then parse_max_age_from_cache_control (header_get ''Cache-Control'' (rsp_headers r))
                            else Inr None) of
                        Inl x \<Rightarrow> (Inl x, c)
                      | Inr ttl \<Rightarrow> (Inr m, mc_set (ttl, store_now) url m c)))))"

text \<open>The lock of the URL is held throughout, so no other task fetches the same URL meanwhile.\<close>

definition fetch_and_cache_manifest ::
  "('m, 'h) manifest_lib \<Rightarrow> disc_client \<Rightarrow> string \<Rightarrow> bool \<Rightarrow> bool \<Rightarrow> 'm fetch_env \<Rightarrow> 'm manifest_cache \<Rightarrow>
   ('m manifest_cache, exn, 'm) outcome" where
  "fetch_and_cache_manifest lb cl url use_schema_validator parse_ttl env c =
     (if \<not> dc_connected cl then (Inl (not_connected (dc_urls cl) url), c)
      else (case mc_get (fe_lookup_now env) url c of
              (Some m, c1) \<Rightarrow> (Inr m, c1)
            | (None, c1) \<Rightarrow>
                (let c2 = mc.run (fe_others env) c1 in
                 case fe_outcome env of
                   Delivered r \<Rightarrow> store_fetched lb cl url use_schema_validator parse_ttl (fe_store_now env) r c2
                 | TimedOut x \<Rightarrow> (Inl (timeout_exn (''Manifest request timeout after '' @ ml_str lb (PFloat (Fin (dc_timeout cl))) @ ''s'') (dc_timeout cl)), mc_invalidate url c2)
                 | ConnectFailed x \<Rightarrow>
                     (Inl (connection_exn (''Connection error fetching manifest from '' @ url @ '': '' @ x @
                        ''. Verify the agent is running and accessible.'') (Some x) (sanitize_url (dc_urls cl) url)),
                      mc_invalidate url c2)
                 | HttpFailed t x \<Rightarrow>
                     (Inl (connection_exn (''Unexpected error fetching manifest from '' @ url @ '': '' @ x @
                        ''. Verify the agent is running and accessible.'') (Some x) (sanitize_url (dc_urls cl) url)),
                      mc_invalidate url c2))))"

definition get_manifest ::
  "('m, 'h) manifest_lib \<Rightarrow> disc_client \<Rightarrow> string option \<Rightarrow> 'm fetch_env \<Rightarrow> 'm manifest_cache \<Rightarrow> ('m manifest_cache, exn, 'm) outcome" where
  "get_manifest lb cl url env c =
     fetch_and_cache_manifest lb cl
       (case url of None \<Rightarrow> dc_http_base_url cl @ WELLKNOWN_MANIFEST_PATH | Some u \<Rightarrow> u) False False env c"

definition discover ::
  "('m, 'h) manifest_lib \<Rightarrow> disc_client \<Rightarrow> string \<Rightarrow> 'm fetch_env \<Rightarrow> 'm manifest_cache \<Rightarrow> ('m manifest_cache, exn, 'm) outcome" where
  "discover lb cl base_url env c =
     fetch_and_cache_manifest lb cl (rstrip_slash base_url @ WELLKNOWN_MANIFEST_PATH) True True env c"

subsection \<open>Health\<close>

definition WELLKNOWN_HEALTH_PATH :: string where
  "WELLKNOWN_HEALTH_PATH = ''/.well-known/asap/health''"

definition health_check :: "('m, 'h) manifest_lib \<Rightarrow> disc_client \<Rightarrow> string option \<Rightarrow> http_outcome \<Rightarrow> exn + 'h" where
  "health_check lb cl base_url out =
     (let url = rstrip_slash (case base_url of None \<Rightarrow> dc_http_base_url cl | Some u \<Rightarrow> u) @ WELLKNOWN_HEALTH_PATH;
          san = sanitize_url (dc_urls cl) url
      in if \<not> dc_connected cl then Inl (not_connected (dc_urls cl) url)
         else (case out of
                 Delivered r \<Rightarrow>
                   if rsp_status r \<ge> 400
                   then Inl (connection_exn (''HTTP error '' @ str_int (rsp_status r) @ '' fetching health from '' @ url @
                               ''. Server response: '' @ rsp_excerpt r) None san)
                   else (case rsp_json r of
                           Inl x \<Rightarrow> Inl (OtherExn ''ValueError'' (''Invalid JSON in health response: '' @ x))
                         | Inr data \<Rightarrow>
                             (case ml_health lb data of
                                Inl x \<Rightarrow> Inl (OtherExn ''ValueError'' (''Invalid health response schema: '' @ x))
                              | Inr h \<Rightarrow> Inr h))
               | TimedOut x \<Rightarrow>
                   Inl (timeout_exn (''Health request timeout after '' @ ml_str lb (PFloat (Fin (dc_timeout cl))) @ ''s'') (dc_timeout cl))
               | ConnectFailed x \<Rightarrow>
                   Inl (connection_exn (''Connection error fetching health from '' @ url @ '': '' @ x @
                      ''. Verify the agent is running and accessible.'') (Some x) san)
               | HttpFailed t x \<Rightarrow>
                   Inl (connection_exn (''Unexpected error checking health at '' @ url @ '': '' @ x @
                      ''. Verify the agent is running and accessible.'') (Some x) san)))"

subsection \<open>Asking for capabilities\<close>

record receipt =
  rp_agent_id :: string
  rp_host_id :: string
  rp_grant_status :: string
  rp_approval :: "pydict option"
  rp_grants :: "pyval list"

definition py_list_or_empty :: "pyval option \<Rightarrow> pyval list" where
  "py_list_or_empty v = (case v of Some (PList l) \<Rightarrow> l | _ \<Rightarrow> [])"

definition capability_receipt_from_register_json :: "(pyval \<Rightarrow> string) \<Rightarrow> pydict \<Rightarrow> exn + receipt" where
  "capability_receipt_from_register_json txt data =
     (case (map_of data ''agent_id'', map_of data ''host_id'', map_of data ''status'') of
        (Some a, Some h, Some st) \<Rightarrow>
          Inr \<lparr>rp_agent_id = py_str txt a, rp_host_id = py_str txt h, rp_grant_status = py_str txt st,
               rp_approval = (case map_of data ''approval'' of Some (PDict d) \<Rightarrow> Some d | _ \<Rightarrow> None),
               rp_grants = py_list_or_empty (map_of data ''agent_capability_grants'')\<rparr>
      | (None, _, _) \<Rightarrow> Inl (OtherExn ''KeyError'' ''agent_id'')
      | (_, None, _) \<Rightarrow> Inl (OtherExn ''KeyError'' ''host_id'')
      | (_, _, None) \<Rightarrow> Inl (OtherExn ''KeyError'' ''status''))"

text \<open>An entry of the request is a name or a specification; anything else is dropped.\<close>

fun norm_capability :: "pyval \<Rightarrow> pyval list" where
  "norm_capability (PStr c) = [PDict [(''name'', PStr c)]]"
| "norm_capability (PDict d) = [PDict d]"
| "norm_capability _ = []"

definition norm_caps :: "pyval list \<Rightarrow> pyval list" where
  "norm_caps cs = concat (map norm_capability cs)"

text \<open>Outside of a \<open>try\<close> the exceptions of \<open>httpx\<close> reach the caller.\<close>

fun delivered :: "http_outcome \<Rightarrow> exn + wire_response" where
  "delivered (Delivered r) = Inr r"
| "delivered (ConnectFailed x) = Inl (OtherExn ''ConnectError'' x)"
| "delivered (TimedOut x) = Inl (OtherExn ''TimeoutException'' x)"
| "delivered (HttpFailed t x) = Inl (OtherExn t x)"

definition receipt_from_status :: "(pyval \<Rightarrow> string) \<Rightarrow> string \<Rightarrow> pydict \<Rightarrow> pydict \<Rightarrow> receipt" where
  "receipt_from_status txt agent_id data sj =
     \<lparr>rp_agent_id = (case map_of sj ''agent_id'' of None \<Rightarrow> agent_id | Some v \<Rightarrow> py_str txt v),
      rp_host_id = (case map_of sj ''host_id'' of
                      Some v \<Rightarrow> py_str txt v
                    | None \<Rightarrow> (case map_of data ''host_id'' of None \<Rightarrow> [] | Some v \<Rightarrow> py_str txt v)),
      rp_grant_status = (case map_of sj ''status'' of None \<Rightarrow> ''active'' | Some v \<Rightarrow> py_str txt v),
      rp_approval = None,
      rp_grants = (case map_of sj ''agent_capability_grants'' of
                     Some (PList l) \<Rightarrow> l | _ \<Rightarrow> py_list_or_empty (map_of sj ''capabilities''))\<rparr>"

text \<open>One answer to a status request: a receipt or an exception ends the polling.\<close>

definition poll_answer ::
  "(pyval \<Rightarrow> string) \<Rightarrow> url_lib \<Rightarrow> string \<Rightarrow> string \<Rightarrow> pydict \<Rightarrow> http_outcome \<Rightarrow> (exn + receipt) option" where
  "poll_answer txt ul st_url agent_id data out =
     (case delivered out of
        Inl x \<Rightarrow> Some (Inl x)
      | Inr r \<Rightarrow>
          if rsp_status r \<noteq> 200 then
            (if rsp_status r \<in> {401, 403, 404}
             then Some (Inl (connection_exn (''Escalation status polling failed with HTTP '' @ str_int (rsp_status r)) None (sanitize_url ul st_url)))
             else None)
          else (case rsp_json r of
                  Inl x \<Rightarrow> Some (Inl (OtherExn ''ValueError'' x))
                | Inr (PDict sj) \<Rightarrow>
                    if map_of sj ''approval_status'' \<noteq> Some (PStr ''pending'')
                    then Some (Inr (receipt_from_status txt agent_id data sj)) else None
                | Inr v \<Rightarrow> None))"

text \<open>The loop, over the clock readings and answers still to come; \<open>None\<close> when they end before the loop does.\<close>

fun poll_status ::
  "(pyval \<Rightarrow> string) \<Rightarrow> url_lib \<Rightarrow> string \<Rightarrow> string \<Rightarrow> pydict \<Rightarrow> rat \<Rightarrow> exn \<Rightarrow> (rat \<times> http_outcome) list \<Rightarrow> (exn + receipt) option" where
  "poll_status txt ul st_url agent_id data deadline expired [] = None"
| "poll_status txt ul st_url agent_id data deadline expired ((now, out) # script) =
     (if \<not> now < deadline then Some (Inl expired)
      else (case poll_answer txt ul st_url agent_id data out of
              Some r \<Rightarrow> Some r
            | None \<Rightarrow> poll_status txt ul st_url agent_id data deadline expired script))"

definition request_capability ::
  "('m, 'h) manifest_lib \<Rightarrow> disc_client \<Rightarrow> string \<Rightarrow> pyval list \<Rightarrow> (pyval \<Rightarrow> http_outcome) \<Rightarrow> rat \<Rightarrow> rat \<Rightarrow>
   (rat \<times> http_outcome) list \<Rightarrow> (exn + receipt) option" where
  "request_capability lb cl agent_id capabilities post now status_timeout script =
     (let ul = dc_urls cl;
          post_url = rstrip_slash (dc_http_base_url cl) @ ''/asap/agent/request-capability'';
          st_url = rstrip_slash (dc_http_base_url cl) @ ''/asap/agent/status''
      in if \<not> dc_connected cl then Some (Inl (not_connected ul (dc_base_url cl)))
         else (case delivered (post (PDict [(''capabilities'', PList (norm_caps capabilities))])) of
                 Inl x \<Rightarrow> Some (Inl x)
               | Inr r \<Rightarrow>
                   if rsp_status r \<ge> 400
                   then Some (Inl (connection_exn (''HTTP '' @ str_int (rsp_status r) @ '' from request-capability: '' @ rsp_excerpt r)
                                     None (sanitize_url ul post_url)))
                   else (case rsp_json r of
                           Inl x \<Rightarrow> Some (Inl (OtherExn ''ValueError'' x))
                         | Inr (PDict data) \<Rightarrow>
                             if map_of data ''status'' \<noteq> Some (PStr ''pending'') \<or> map_of data ''approval'' = None
                             then Some (capability_receipt_from_register_json (ml_str lb) data)
                             else poll_status (ml_str lb) ul st_url agent_id data (now + status_timeout)
                                    (timeout_exn (''Timed out after '' @ ml_str lb (PFloat (Fin status_timeout)) @
                                       ''s waiting for capability escalation'') status_timeout) script
                         | Inr v \<Rightarrow> Some (Inl (connection_exn ''Invalid JSON object from request-capability'' None (sanitize_url ul post_url))))))"

subsection \<open>The cache after a fetch\<close>

lemma mc_get_miss: "mc_inv c \<Longrightarrow> mc_get now url c = (None, c1) \<Longrightarrow> mc_entries c1 url = None \<and> mc_inv c1"
  using mc.invar_lookup [of c now url]
  by (auto simp: mc_get_def mc_entries_def dict_simps split: option.splits if_splits)

lemma mc_get_found: "mc_inv c \<Longrightarrow> mc_get now url c = (Some m, c1) \<Longrightarrow> (\<exists>e. mc_entries c1 url = Some (m, e)) \<and> mc_inv c1"
  using mc.invar_lookup [of c now url] mc.lookup_hit [of c now url m] mc.lookup_keeps [of c url m _ now url] by force

lemma invalidated [simp]: "mc_entries (mc_invalidate url c) url = None"
  by (simp add: mc_entries_def mc_invalidate_def dict_simps)

lemma store_fetched_cache:
  assumes "mc_inv c" "mc_entries c url = None" "store_fetched lb cl url sv pt t r c = (res, c')"
  shows "mc_inv c' \<and> (case res of Inl x \<Rightarrow> mc_entries c' url = None | Inr m \<Rightarrow> \<exists>e. mc_entries c' url = Some (m, e))"
  using assms mc.store_same [OF assms(1)] mc.invar_store [OF assms(1)] mc.invar_remove [OF assms(1)]
  by (auto simp: store_fetched_def split: if_splits sum.splits prod.splits)

lemma fetch_cache:
  assumes "mc_inv c" "\<And>tn m. Store tn url m \<notin> set (fe_others env)"
    and "fetch_and_cache_manifest lb cl url sv pt env c = (res, c')" "dc_connected cl"
  shows "mc_inv c' \<and> (case res of Inl x \<Rightarrow> mc_entries c' url = None | Inr m \<Rightarrow> \<exists>e. mc_entries c' url = Some (m, e))"
proof (cases "mc_get (fe_lookup_now env) url c")
  case (Pair found c1)
  show ?thesis
  proof (cases found)
    case (Some m)
    with Pair mc_get_found [OF assms(1)] assms(3,4) show ?thesis by (auto simp: fetch_and_cache_manifest_def)
  next
    case None
    define c2 where "c2 = mc.run (fe_others env) c1"
    from None Pair mc_get_miss [OF assms(1)] have "mc_entries c1 url = None" "mc_inv c1" by auto
    then have c2: "mc_entries c2 url = None" "mc_inv c2"
      unfolding c2_def using mc.run_absent mc.run_invar assms(2) by blast+
    from assms(3,4) None Pair show ?thesis
      using store_fetched_cache [OF c2(2,1)] mc.invar_remove [OF c2(2)]
      by (auto simp: fetch_and_cache_manifest_def c2_def [symmetric] simp del: split_paired_All split: http_outcome.splits) blast+
  qed
qed

subsection \<open>Signatures\<close>

lemma verify_manifest_accepts:
  assumes "verify_manifest lb sm (Some key) = Inr ()"
  obtains sig where "sg_alg sm = ''ed25519''" "ml_b64decode lb (sg_signature sm) = Inr sig" "length sig = 64"
    "le_value (drop 32 sig) < ED25519_ORDER" "ml_verify lb key sig (ml_canonicalize lb (sg_manifest sm))"
  using assms
  by (auto simp: verify_manifest_def signing_key_def check_raw_signature_def enforce_strict_scalar_def
      split: if_splits sum.splits b64_fail.splits)

lemma verify_fetched_accepts:
  assumes "verify_fetched lb cl url sm = Inr ()" "dc_verify_signatures cl"
  obtains b64 key where "map_of (dc_trusted_keys cl) url = Some b64" "ml_b64decode lb b64 = Inr key" "length key = 32"
    "verify_manifest lb sm (Some key) = Inr ()"
  using assms
  by (auto simp: verify_fetched_def load_public_key_from_base64_def split: option.splits list.splits sum.splits if_splits)

lemma store_fetched_signed:
  assumes "store_fetched lb cl url sv pt t r c = (Inr m, c')" "rsp_json r = Inr (PDict d)"
    and "{''manifest'', ''signature''} \<subseteq> set (map fst d)"
  obtains sm where "ml_signed lb (PDict d) = Inr sm" "verify_fetched lb cl url sm = Inr ()" "m = sg_manifest sm"
  using assms by (auto simp: store_fetched_def coerce_manifest_payload_def split: if_splits sum.splits prod.splits)

lemma max_age_bounds:
  "parse_max_age_from_cache_control h = Inr (Some t) \<Longrightarrow> 0 < t \<and> t \<le> DISCOVER_CACHE_MAX_AGE_CAP"
  by (auto simp: parse_max_age_from_cache_control_def DISCOVER_CACHE_MAX_AGE_CAP_def split: option.splits if_splits)

subsection \<open>Polling\<close>

lemma poll_ends:
  assumes "(now, out) \<in> set script" "deadline \<le> now"
  shows "\<exists>r. poll_status txt ul u a d deadline x script = Some r"
  using assms
proof (induction script)
  case (Cons p script)
  then show ?case by (cases p) (auto split: option.splits)
qed simp

lemma poll_answer_receipt:
  "poll_answer txt ul u a d out = Some (Inr rc) \<Longrightarrow>
    \<exists>r sj. out = Delivered r \<and> rsp_status r = 200 \<and> rsp_json r = Inr (PDict sj) \<and>
      map_of sj ''approval_status'' \<noteq> Some (PStr ''pending'') \<and> rc = receipt_from_status txt a d sj"
  by (cases out) (auto simp: poll_answer_def split: if_splits sum.splits pyval.splits)

lemma poll_receipt:
  "poll_status txt ul u a d deadline x script = Some (Inr rc) \<Longrightarrow>
    \<exists>now r sj. (now, Delivered r) \<in> set script \<and> now < deadline \<and> rsp_json r = Inr (PDict sj) \<and>
      map_of sj ''approval_status'' \<noteq> Some (PStr ''pending'') \<and> rc = receipt_from_status txt a d sj"
proof (induction script)
  case (Cons p script)
  then show ?case
    by (cases p) (fastforce dest: poll_answer_receipt split: if_splits option.splits)
qed simp

subsection \<open>Properties\<close>

text \<open>Whatever way a fetch of a manifest ends, the cache agrees with it. A manifest that is returned is the one cached
  under the URL; after any failure nothing is cached under it, although some of the error paths do
  not invalidate the entry themselves. The bound of the cache is kept.\<close>

theorem fetch_agrees_with_cache:
  assumes "mc_inv c" "\<And>tn m. Store tn url m \<notin> set (fe_others env)"
    and "fetch_and_cache_manifest lb cl url use_schema_validator parse_ttl env c = (res, c')" "dc_connected cl"
  shows "mc_inv c' \<and> (case res of Inl x \<Rightarrow> mc_entries c' url = None | Inr m \<Rightarrow> \<exists>e. mc_entries c' url = Some (m, e))"
  by (rule fetch_cache [OF assms])

definition sample_manifest_lib :: "(string, unit) manifest_lib" where
  "sample_manifest_lib =
     \<lparr>ml_manifest = (\<lambda>v. case v of PDict d \<Rightarrow> (case map_of d ''id'' of Some (PStr i) \<Rightarrow> Inr i | _ \<Rightarrow> Inl ''id'') | _ \<Rightarrow> Inl ''dict''),
      ml_signed = (\<lambda>v. Inr \<lparr>sg_manifest = ''agent'', sg_alg = ''ed25519'', sg_signature = ''sig'', sg_trust_level = ''self-signed'',
                            sg_public_key = Some ''own''\<rparr>),
      ml_health = (\<lambda>v. Inr ()),
      ml_b64decode = (\<lambda>s. if s = ''key'' then Inr (replicate 32 (CHR ''k'')) else Inr (replicate 64 (CHR 0x00))),
      ml_canonicalize = id, ml_verify = (\<lambda>k sig m. hd k = CHR ''k''), ml_str = (\<lambda>v. [])\<rparr>"

definition sample_url_lib :: url_lib where
  "sample_url_lib = \<lparr>ul_parse = (\<lambda>u. Inl TypeError), ul_unparse = (\<lambda>p. []), ul_redact = id\<rparr>"

definition sample_disc_client :: disc_client where
  "sample_disc_client =
     \<lparr>dc_base_url = ''https://h'', dc_http_base_url = ''https://h'', dc_timeout = 60, dc_connected = True,
      dc_verify_signatures = True, dc_trusted_keys = [(''u'', ''key'')], dc_urls = sample_url_lib\<rparr>"

definition sample_fetch :: "pyval \<Rightarrow> string fetch_env" where
  "sample_fetch v =
     \<lparr>fe_lookup_now = 1, fe_outcome = Delivered \<lparr>rsp_status = 200, rsp_headers = [], rsp_text = [], rsp_excerpt = [], rsp_json = Inr v\<rparr>,
      fe_others = [Store (None, 2) ''w'' ''other''], fe_store_now = 3\<rparr>"

definition sample_signed_payload :: pydict where
  "sample_signed_payload = [(''manifest'', PDict []), (''signature'', PDict [])]"

lemma sample_manifests_inv: "mc_inv (mc_init 300 10)"
  by (simp add: mc_inv_def mc_init_def mc_within_def mc_size_def)

lemmas sample_disc_defs = sample_manifest_lib_def sample_url_lib_def sample_disc_client_def sample_fetch_def sample_signed_payload_def

theorem fetch_agrees_with_cache_witness:
  "\<exists>c'. fetch_and_cache_manifest sample_manifest_lib sample_disc_client ''u'' False False
      (sample_fetch (PDict [(''id'', PStr ''agent'')])) (mc_init 300 10) = (Inr ''agent'', c') \<and>
    (\<exists>e. mc_entries c' ''u'' = Some (''agent'', e))"
proof -
  let ?run = "fetch_and_cache_manifest sample_manifest_lib sample_disc_client ''u'' False False
      (sample_fetch (PDict [(''id'', PStr ''agent'')])) (mc_init 300 10)"
  have "fst ?run = Inr ''agent''"
    by (simp add: fetch_and_cache_manifest_def store_fetched_def coerce_manifest_payload_def mc_get_def mc_init_def sample_disc_defs)
  then have run: "?run = (Inr ''agent'', snd ?run)" by (metis prod.collapse)
  have "dc_connected sample_disc_client" by (simp add: sample_disc_defs)
  moreover have "Store tn ''u'' m \<notin> set (fe_others (sample_fetch (PDict [(''id'', PStr ''agent'')])))" for tn m
    by (simp add: sample_disc_defs)
  ultimately show ?thesis using fetch_agrees_with_cache [OF sample_manifests_inv _ run] run by auto
qed

text \<open>With signature verification on, a signed manifest that was fetched is only returned (and cached) when the
  client has a trusted key for exactly its URL and the Ed25519 signature of the canonical form of the
  manifest that is returned verifies under that key, with a scalar below the group order.\<close>

theorem signed_manifest_verified:
  assumes "fetch_and_cache_manifest lb cl url use_schema_validator parse_ttl env c = (Inr m, c')" "dc_verify_signatures cl"
    and "fst (mc_get (fe_lookup_now env) url c) = None" "fe_outcome env = Delivered r" "rsp_json r = Inr (PDict d)"
    and "{''manifest'', ''signature''} \<subseteq> set (map fst d)"
  shows "\<exists>sm b64 key sig. ml_signed lb (PDict d) = Inr sm \<and> m = sg_manifest sm \<and> map_of (dc_trusted_keys cl) url = Some b64 \<and>
    ml_b64decode lb b64 = Inr key \<and> length key = 32 \<and> ml_b64decode lb (sg_signature sm) = Inr sig \<and> length sig = 64 \<and>
    le_value (drop 32 sig) < ED25519_ORDER \<and> ml_verify lb key sig (ml_canonicalize lb m)"
proof -
  obtain c2 where "store_fetched lb cl url use_schema_validator parse_ttl (fe_store_now env) r c2 = (Inr m, c')"
    using assms(1,3,4) by (auto simp: fetch_and_cache_manifest_def Let_def split: if_splits prod.splits)
  from store_fetched_signed [OF this assms(5,6)] obtain sm where
    sm: "ml_signed lb (PDict d) = Inr sm" "verify_fetched lb cl url sm = Inr ()" "m = sg_manifest sm" .
  from verify_fetched_accepts [OF sm(2) assms(2)] obtain b64 key where
    key: "map_of (dc_trusted_keys cl) url = Some b64" "ml_b64decode lb b64 = Inr key" "length key = 32"
      "verify_manifest lb sm (Some key) = Inr ()" .
  from verify_manifest_accepts [OF key(4)] sm(1,3) key(1-3) show ?thesis by metis
qed

theorem signed_manifest_verified_witness:
  "\<exists>key sig. ml_b64decode sample_manifest_lib ''key'' = Inr key \<and> ml_verify sample_manifest_lib key sig ''agent'' \<and>
    fst (fetch_and_cache_manifest sample_manifest_lib sample_disc_client ''u'' False False
      (sample_fetch (PDict sample_signed_payload)) (mc_init 300 10)) = Inr ''agent''"
proof -
  let ?run = "fetch_and_cache_manifest sample_manifest_lib sample_disc_client ''u'' False False
      (sample_fetch (PDict sample_signed_payload)) (mc_init 300 10)"
  have le: "le_value (replicate n (CHR 0x00)) = 0" for n
    by (induction n) simp_all
  have ord: "\<not> ED25519_ORDER \<le> 0" by (simp add: ED25519_ORDER_def)
  have verified: "verify_fetched sample_manifest_lib sample_disc_client ''u''
      \<lparr>sg_manifest = ''agent'', sg_alg = ''ed25519'', sg_signature = ''sig'', sg_trust_level = ''self-signed'', sg_public_key = Some ''own''\<rparr> = Inr ()"
    by (simp add: verify_fetched_def load_public_key_from_base64_def verify_manifest_def signing_key_def check_raw_signature_def
        enforce_strict_scalar_def sample_disc_defs le ord)
  have res: "fst ?run = Inr ''agent''"
    using verified
    by (simp add: fetch_and_cache_manifest_def store_fetched_def coerce_manifest_payload_def mc_get_def mc_init_def
        sample_fetch_def sample_signed_payload_def) (simp add: sample_disc_defs)
  then have run: "?run = (Inr ''agent'', snd ?run)" by (metis prod.collapse)
  have "dc_verify_signatures sample_disc_client" "fst (mc_get (fe_lookup_now (sample_fetch (PDict sample_signed_payload))) ''u'' (mc_init 300 10)) = None"
    "fe_outcome (sample_fetch (PDict sample_signed_payload)) =
       Delivered \<lparr>rsp_status = 200, rsp_headers = [], rsp_text = [], rsp_excerpt = [], rsp_json = Inr (PDict sample_signed_payload)\<rparr>"
    by (simp_all add: sample_disc_defs mc_get_def mc_init_def)
  from signed_manifest_verified [OF run this, of sample_signed_payload] res show ?thesis
    by (auto simp: sample_disc_defs)
qed

text \<open>Asking for capabilities ends. Once a clock reading of the polling loop reaches the deadline the call has returned
  (with a receipt or an exception); and a receipt it returns after the request was left
  pending stems from an answer, received before the deadline, that no longer says pending.\<close>

theorem capability_request_ends:
  assumes "delivered (post (PDict [(''capabilities'', PList (norm_caps caps))])) = Inr r" "rsp_json r = Inr (PDict data)"
    and "map_of data ''status'' = Some (PStr ''pending'')" "map_of data ''approval'' \<noteq> None" "rsp_status r < 400"
    and "dc_connected cl"
  shows "((\<exists>t out. (t, out) \<in> set script \<and> now + limit \<le> t) \<longrightarrow>
      (\<exists>res. request_capability lb cl agent caps post now limit script = Some res)) \<and>
    (\<forall>rc. request_capability lb cl agent caps post now limit script = Some (Inr rc) \<longrightarrow>
      (\<exists>t ans sj. (t, Delivered ans) \<in> set script \<and> t < now + limit \<and> rsp_json ans = Inr (PDict sj) \<and>
        map_of sj ''approval_status'' \<noteq> Some (PStr ''pending'') \<and> rc = receipt_from_status (ml_str lb) agent data sj))"
proof -
  let ?poll = "poll_status (ml_str lb) (dc_urls cl) (rstrip_slash (dc_http_base_url cl) @ ''/asap/agent/status'') agent data (now + limit)
    (timeout_exn (''Timed out after '' @ ml_str lb (PFloat (Fin limit)) @ ''s waiting for capability escalation'') limit) script"
  have "request_capability lb cl agent caps post now limit script = ?poll"
    using assms by (auto simp: request_capability_def Let_def)
  then show ?thesis using poll_ends poll_receipt by metis
qed

theorem capability_request_ends_witness:
  "\<exists>res. request_capability sample_manifest_lib sample_disc_client ''a'' [PStr ''c'']
     (\<lambda>b. Delivered \<lparr>rsp_status = 202, rsp_headers = [], rsp_text = [], rsp_excerpt = [],
        rsp_json = Inr (PDict [(''status'', PStr ''pending''), (''approval'', PDict [])])\<rparr>)
     0 90 [(1, TimedOut []), (91, TimedOut [])] = Some res"
proof -
  let ?r = "\<lparr>rsp_status = 202, rsp_headers = [], rsp_text = [], rsp_excerpt = [],
        rsp_json = Inr (PDict [(''status'', PStr ''pending''), (''approval'', PDict [])])\<rparr>"
  have late: "\<exists>t out. (t, out) \<in> set [(1 :: rat, TimedOut []), (91, TimedOut [])] \<and> 0 + 90 \<le> t"
    by (rule exI [of _ 91], rule exI [of _ "TimedOut []"]) simp
  show ?thesis
    by (rule capability_request_ends [of "\<lambda>b. Delivered ?r" "[PStr ''c'']" ?r
        "[(''status'', PStr ''pending''), (''approval'', PDict [])]" sample_disc_client
        "[(1, TimedOut []), (91, TimedOut [])]" 0 90 sample_manifest_lib "''a''", THEN conjunct1, THEN mp, OF _ _ _ _ _ _ late])
      (simp_all add: sample_disc_client_def)
qed

text \<open>The guide on signing says a signed manifest that carries its public key can be verified without trusted
  keys. The client refuses it.\<close>

lemma carried_key_not_used:
  assumes "dc_verify_signatures cl" "map_of (dc_trusted_keys cl) url = None"
  shows "\<exists>e. verify_fetched lb cl url sm = Inl e"
  using assms by (simp add: verify_fetched_def)

end
