(* ===== verification/Client_Send.thy ===== *)
theory Client_Send
  imports Client_Discovery Circuit_Breaker
begin

text \<open>
  The send path of the client (\<open>src/asap/transport/client/_send.py\<close>, helpers in \<open>client/_helpers.py\<close> and
  \<open>client/_core.py\<close>, binding of responses in \<open>src/asap/transport/errors.py\<close>): the retry loop with backoff, the branches
  on the HTTP status, JSON-RPC errors, the circuit breaker and the metrics.

  The network is the script \<open>se_attempts\<close>: for every attempt what the POST ends with, the clock readings, the draw for the
  jitter, and the calls other clients of the same URL make on the shared breaker while the attempt waits for the network
  (\<open>at_meanwhile\<close>) or sleeps (\<open>at_slept\<close>). \<open>ks_posts\<close> and \<open>ks_sleeps\<close> record what was posted and how long the task slept.
  Cancellation and logging are not modelled.
\<close>

subsection \<open>Binding responses to requests\<close>

definition RESPONSE_PAYLOAD_KEYS :: "string set" where
  "RESPONSE_PAYLOAD_KEYS = {''taskresponse'', ''mcptoolresult'', ''mcpresourcedata''}"

definition STREAM_BOUND_PAYLOAD_KEYS :: "string set" where
  "STREAM_BOUND_PAYLOAD_KEYS = RESPONSE_PAYLOAD_KEYS \<union> {''taskstream''}"

definition correlation_binds :: "(string option \<Rightarrow> string) \<Rightarrow> string \<Rightarrow> envelope \<Rightarrow> string set \<Rightarrow> exn + unit" where
  "correlation_binds rep request_id response bound_keys =
     (if normalize_payload_type (payload_type response) \<notin> bound_keys then Inr ()
      else if correlation_id response = Some request_id then Inr ()
      else Inl (raised (protocol_correlation_error rep request_id (correlation_id response) None)))"

definition assert_correlation_binds :: "(string option \<Rightarrow> string) \<Rightarrow> string \<Rightarrow> envelope \<Rightarrow> exn + unit" where
  "assert_correlation_binds rep request_id response = correlation_binds rep request_id response RESPONSE_PAYLOAD_KEYS"

definition assert_stream_correlation_binds :: "(string option \<Rightarrow> string) \<Rightarrow> string \<Rightarrow> envelope \<Rightarrow> exn + unit" where
  "assert_stream_correlation_binds rep request_id response = correlation_binds rep request_id response STREAM_BOUND_PAYLOAD_KEYS"

subsection \<open>Parameters, settings, state\<close>

record client_lib =
  kl_codec :: codec_lib
  kl_loads :: "code_points \<Rightarrow> string + pyval"
  kl_dumps :: "pyval \<Rightarrow> bytes"
  kl_dump_envelope :: "envelope \<Rightarrow> pyval"
  kl_fields :: "pydict \<Rightarrow> pyval + envelope"
  kl_report :: "py_exn \<Rightarrow> pyval"
  kl_str :: "pyval \<Rightarrow> string"
  kl_repr :: "string option \<Rightarrow> string"
  kl_date :: "string \<Rightarrow> rat option"

record client =
  ct_base_url :: string
  ct_timeout :: rat
  ct_max_retries :: int
  ct_base_delay :: rat
  ct_max_delay :: rat
  ct_jitter :: bool
  ct_compression :: bool
  ct_compression_threshold :: int
  ct_lambda_codec :: bool
  ct_auth_token :: "string option"
  ct_version_header :: string
  ct_auto_register :: bool
  ct_connected :: bool
  ct_websocket :: bool
  ct_disc :: disc_client

record 'm client_state =
  ks_breaker :: "breaker option"
  ks_metrics :: collector
  ks_next_request :: int
  ks_version :: "string option"
  ks_challenge :: "string option"
  ks_manifests :: "'m manifest_cache"
  ks_posts :: "((string \<times> string) list \<times> bytes) list"
  ks_sleeps :: "rat list"

record 'm attempt =
  at_outcome :: http_outcome
  at_meanwhile :: "cb_event list"
  at_slept :: "cb_event list"
  at_draw :: rat
  at_now :: rat
  at_wall :: rat
  at_elapsed :: rat
  at_new_id :: string
  at_parse_time :: datetime
  at_prefetch :: "'m fetch_env"

datatype ws_outcome = WsReply envelope | WsRemoteError int string pydict | WsTimeout string | WsFailed exn

record 'm send_env =
  se_clock :: rat
  se_idempotency_key :: string
  se_attempts :: "nat \<Rightarrow> 'm attempt"
  se_elapsed :: rat
  se_ws :: ws_outcome

abbreviation ct_urls :: "client \<Rightarrow> url_lib" where
  "ct_urls cl \<equiv> dc_urls (ct_disc cl)"

abbreviation sanitized :: "client \<Rightarrow> string" where
  "sanitized cl \<equiv> sanitize_url (ct_urls cl) (ct_base_url cl)"

definition on_breaker :: "(breaker \<Rightarrow> breaker) \<Rightarrow> 'm client_state \<Rightarrow> 'm client_state" where
  "on_breaker f s = s\<lparr>ks_breaker := map_option f (ks_breaker s)\<rparr>"

definition on_send_metrics :: "(collector \<Rightarrow> collector) \<Rightarrow> 'm client_state \<Rightarrow> 'm client_state" where
  "on_send_metrics f s = s\<lparr>ks_metrics := f (ks_metrics s)\<rparr>"

text \<open>\<open>await asyncio.sleep(d)\<close>, with what others do to the breaker meanwhile.\<close>

definition sleep_for :: "rat \<Rightarrow> cb_event list \<Rightarrow> 'm client_state \<Rightarrow> 'm client_state" where
  "sleep_for d others s = on_breaker (cb_run others) (s\<lparr>ks_sleeps := ks_sleeps s @ [d]\<rparr>)"

text \<open>An exception of a handler: the sentinel \<open>_RetryableSend\<close>, or another one.\<close>

datatype send_exn = RetryableSend exn | SendRaises exn

subsection \<open>Helpers\<close>

definition calculate_backoff :: "client \<Rightarrow> rat \<Rightarrow> nat \<Rightarrow> rat" where
  "calculate_backoff cl draw k =
     (let delay = min (ct_base_delay cl * 2 ^ k) (ct_max_delay cl)
      in if ct_jitter cl then delay + draw * (delay / 10) else delay)"

text \<open>\<open>str.isdigit\<close> holds for the superscripts one, two and three, which \<open>float\<close> refuses.\<close>

definition digit_like :: "char \<Rightarrow> bool" where
  "digit_like c \<longleftrightarrow> is_digit c \<or> (of_char c :: nat) \<in> {178, 179, 185}"

definition py_isdigit :: "string \<Rightarrow> bool" where
  "py_isdigit s \<longleftrightarrow> s \<noteq> [] \<and> list_all digit_like s"

definition drop_first_dot :: "string \<Rightarrow> string" where
  "drop_first_dot s = takeWhile (\<lambda>c. c \<noteq> CHR ''.'') s @ drop 1 (dropWhile (\<lambda>c. c \<noteq> CHR ''.'') s)"

definition decimal_value :: "string \<Rightarrow> rat" where
  "decimal_value s =
     (let digits = map (\<lambda>c. of_char c - 48);
          whole = digits (takeWhile (\<lambda>c. c \<noteq> CHR ''.'') s);
          frac = digits (drop 1 (dropWhile (\<lambda>c. c \<noteq> CHR ''.'') s))
      in of_nat (digits_value whole) + of_nat (digits_value frac) / 10 ^ length frac)"

definition parse_retry_after :: "client_lib \<Rightarrow> rat \<Rightarrow> wire_response \<Rightarrow> exn + rat option" where
  "parse_retry_after lb wall r =
     (case header_get ''Retry-After'' (rsp_headers r) of
        None \<Rightarrow> Inr None
      | Some raw \<Rightarrow>
          if raw = [] then Inr None
          else if py_isdigit (drop_first_dot raw) then
            (if list_all is_digit (drop_first_dot raw) then Inr (Some (decimal_value raw))
             else Inl (OtherExn ''ValueError'' ''could not convert string to float''))
          else (case kl_date lb raw of
                  None \<Rightarrow> Inr None
                | Some t \<Rightarrow> if t - wall > 0 then Inr (Some (t - wall)) else Inr None))"

definition record_send_error_metrics :: "rat \<Rightarrow> string \<Rightarrow> collector \<Rightarrow> collector" where
  "record_send_error_metrics duration reason m =
     observe_histogram ''asap_transport_send_duration_seconds'' duration (Some [(''status'', ''error'')])
       (increment_counter ''asap_transport_send_errors_total'' (Some [(''reason'', reason)]) 1
         (increment_counter ''asap_transport_send_total'' (Some [(''status'', ''error'')]) 1 m))"

definition send_success_metrics :: "rat \<Rightarrow> collector \<Rightarrow> collector" where
  "send_success_metrics duration m =
     observe_histogram ''asap_transport_send_duration_seconds'' duration (Some [(''status'', ''success'')])
       (increment_counter ''asap_transport_send_total'' (Some [(''status'', ''success'')]) 1 m)"

definition capture_asap_version_header :: "wire_response \<Rightarrow> 'm client_state \<Rightarrow> 'm client_state" where
  "capture_asap_version_header r s =
     s\<lparr>ks_version := (case header_get ASAP_VERSION_HEADER (rsp_headers r) of
                        None \<Rightarrow> None | Some raw \<Rightarrow> if raw = [] then None else Some (strip raw))\<rparr>"

text \<open>An exception of the prefetch is swallowed; its effect on the manifest cache stays.\<close>

definition ingest_asap_challenge_401 ::
  "('m, 'h) manifest_lib \<Rightarrow> client \<Rightarrow> 'm fetch_env \<Rightarrow> wire_response \<Rightarrow> 'm client_state \<Rightarrow> 'm client_state" where
  "ingest_asap_challenge_401 ml cl fe r s =
     (let disc = parse_www_authenticate_asap (header_get ''www-authenticate'' (rsp_headers r));
          s1 = s\<lparr>ks_challenge := disc\<rparr>
      in case disc of
           None \<Rightarrow> s1
         | Some u \<Rightarrow>
             if u = [] \<or> \<not> ct_auto_register cl then s1
             else s1\<lparr>ks_manifests := snd (get_manifest ml (ct_disc cl) (Some u) fe (ks_manifests s1))\<rparr>)"

definition compress_request_body :: "client_lib \<Rightarrow> client \<Rightarrow> bytes \<Rightarrow> bytes \<times> string option" where
  "compress_request_body lb cl body =
     (if \<not> ct_compression cl then (body, None)
      else (case compress_payload (kl_codec lb) body None (ct_compression_threshold cl) False of
              (compressed, alg) \<Rightarrow> if alg = IDENTITY then (body, None) else (compressed, Some (algorithm_value alg))))"

definition build_send_headers :: "client_lib \<Rightarrow> client \<Rightarrow> string \<Rightarrow> string option \<Rightarrow> (string \<times> string) list" where
  "build_send_headers lb cl idempotency_key content_encoding =
     [(''Content-Type'', ''application/json''),
      (''Accept'', if ct_lambda_codec cl then LAMBDA_CONTENT_TYPE @ '', application/json;q=0.9'' else ''application/json''),
      (''X-Idempotency-Key'', idempotency_key),
      (''Accept-Encoding'', get_accept_encoding_header (kl_codec lb)),
      (ASAP_VERSION_HEADER, ct_version_header cl)] @
     (case content_encoding of None \<Rightarrow> [] | Some e \<Rightarrow> if e = [] then [] else [(''Content-Encoding'', e)]) @
     (case ct_auth_token cl of None \<Rightarrow> [] | Some t \<Rightarrow> if t = [] then [] else [(''Authorization'', ''Bearer '' @ t)])"

subsection \<open>Failures\<close>

definition record_circuit_failure :: "'m attempt \<Rightarrow> 'm client_state \<Rightarrow> 'm client_state" where
  "record_circuit_failure a s = on_breaker (record_failure (at_now a)) s"

abbreviation retries_left :: "client \<Rightarrow> nat \<Rightarrow> bool" where
  "retries_left cl k \<equiv> int k < ct_max_retries cl - 1"

definition handle_server_error ::
  "client \<Rightarrow> 'm attempt \<Rightarrow> nat \<Rightarrow> wire_response \<Rightarrow> 'm client_state \<Rightarrow> ('m client_state, send_exn, envelope) outcome" where
  "handle_server_error cl a k r s =
     (let err = connection_exn (''HTTP server error '' @ str_int (rsp_status r) @ '' from '' @ ct_base_url cl @
                  ''. Server returned: '' @ rsp_excerpt r) None (ct_base_url cl)
      in if retries_left cl k
         then (Inl (RetryableSend err), sleep_for (calculate_backoff cl (at_draw a) k) (at_slept a) s)
         else (Inl (SendRaises err), record_circuit_failure a s))"

definition handle_rate_limited ::
  "client_lib \<Rightarrow> client \<Rightarrow> 'm attempt \<Rightarrow> nat \<Rightarrow> wire_response \<Rightarrow> 'm client_state \<Rightarrow> ('m client_state, send_exn, envelope) outcome" where
  "handle_rate_limited lb cl a k r s =
     (if \<not> retries_left cl k
      then (Inl (SendRaises (connection_exn (''HTTP rate limit error 429 from '' @ ct_base_url cl @ '' after '' @
                   str_int (ct_max_retries cl) @ '' attempts. Server response: '' @ rsp_excerpt r) None (sanitized cl))),
            record_circuit_failure a s)
      else (case parse_retry_after lb (at_wall a) r of
              Inl x \<Rightarrow> (Inl (SendRaises x), s)
            | Inr d \<Rightarrow>
                (let delay = (case d of None \<Rightarrow> calculate_backoff cl (at_draw a) k | Some t \<Rightarrow> t)
                 in (Inl (RetryableSend (connection_exn (''HTTP rate limit error 429 from '' @ ct_base_url cl @
                       ''. Server response: '' @ rsp_excerpt r) None (sanitized cl))),
                     sleep_for delay (at_slept a) s))))"

definition handle_client_error ::
  "client \<Rightarrow> 'm attempt \<Rightarrow> wire_response \<Rightarrow> 'm client_state \<Rightarrow> ('m client_state, send_exn, envelope) outcome" where
  "handle_client_error cl a r s =
     (Inl (SendRaises (connection_exn (''HTTP client error '' @ str_int (rsp_status r) @ '' from '' @ ct_base_url cl @
         ''. This indicates a problem with the request. Server response: '' @ rsp_excerpt r) None (sanitized cl))),
      record_circuit_failure a s)"

definition handle_send_transport_exception ::
  "client_lib \<Rightarrow> client \<Rightarrow> 'm attempt \<Rightarrow> nat \<Rightarrow> bool \<Rightarrow> string \<Rightarrow> 'm client_state \<Rightarrow> ('m client_state, send_exn, envelope) outcome" where
  "handle_send_transport_exception lb cl a k is_timeout error s =
     (let last_exception =
        (if is_timeout then timeout_exn (''Request timeout after '' @ kl_str lb (PFloat (Fin (ct_timeout cl))) @ ''s'') (ct_timeout cl)
         else connection_exn (''Connection error to '' @ ct_base_url cl @ '': '' @ error @
                ''. Verify the agent is running and accessible.'') (Some error) (ct_base_url cl))
      in if retries_left cl k
         then (Inl (RetryableSend last_exception), sleep_for (calculate_backoff cl (at_draw a) k) (at_slept a) s)
         else (Inl (SendRaises last_exception), record_circuit_failure a s))"

subsection \<open>Responses with status 2xx or 3xx\<close>

fun raised_remote :: "py_exn + remote_error \<Rightarrow> exn" where
  "raised_remote (Inr e) = RemoteExn e"
| "raised_remote (Inl x) = lift_exn x"

text \<open>The \<open>error\<close> entry of a body that has one: \<open>json_response["error"]\<close> and the calls of \<open>get\<close> on it.\<close>

definition rpc_error_of :: "client_lib \<Rightarrow> pyval \<Rightarrow> exn + remote_error" where
  "rpc_error_of lb v =
     (case v of
        PDict d \<Rightarrow>
          (case map_of d ''error'' of
             Some (PDict err) \<Rightarrow>
               (case py_int (case map_of err ''code'' of None \<Rightarrow> PInt (-32603) | Some c \<Rightarrow> c) of
                  Inl x \<Rightarrow> Inl (lift_exn x)
                | Inr wire \<Rightarrow>
                    (case remote_rpc_error_from_json (kl_str lb) wire
                            (case map_of err ''message'' of None \<Rightarrow> ''Unknown error'' | Some m \<Rightarrow> py_str (kl_str lb) m)
                            (case map_of err ''data'' of Some (PDict dd) \<Rightarrow> Some dd | _ \<Rightarrow> None) of
                       Inl x \<Rightarrow> Inl (lift_exn x)
                     | Inr e \<Rightarrow> Inr e))
           | Some w \<Rightarrow> Inl (lift_exn AttributeError)
           | None \<Rightarrow> Inl (lift_exn (KeyError ''error'')))
      | _ \<Rightarrow> Inl (lift_exn TypeError))"

definition handle_jsonrpc_error ::
  "client_lib \<Rightarrow> client \<Rightarrow> 'm attempt \<Rightarrow> nat \<Rightarrow> pyval \<Rightarrow> 'm client_state \<Rightarrow> ('m client_state, send_exn, envelope) outcome" where
  "handle_jsonrpc_error lb cl a k v s =
     (let s1 = on_breaker record_success s in
      case rpc_error_of lb v of
        Inl x \<Rightarrow> (Inl (SendRaises x), s1)
      | Inr e \<Rightarrow>
          (case ae_retry_after_ms e of
             Some ms \<Rightarrow>
               if is_recoverable e \<and> retries_left cl k
               then (Inl (RetryableSend (RemoteExn e)), sleep_for (max 0 (of_int ms / 1000)) (at_slept a) s1)
               else (Inl (SendRaises (RemoteExn e)), s1)
           | None \<Rightarrow> (Inl (SendRaises (RemoteExn e)), s1)))"

definition decode_send_response :: "client_lib \<Rightarrow> wire_response \<Rightarrow> string + pyval" where
  "decode_send_response lb r =
     (let content_type = (case header_get ''content-type'' (rsp_headers r) of None \<Rightarrow> [] | Some c \<Rightarrow> c)
      in if has_substring LAMBDA_CONTENT_TYPE content_type
         then (case lambda_decode (rsp_text r) of
                 Inl x \<Rightarrow> Inl (exn_text (lift_exn x))
               | Inr t \<Rightarrow> kl_loads lb t)
         else rsp_json r)"

text \<open>The response envelope of a body without \<open>error\<close>; \<open>.get\<close> on a value that is no object raises \<open>AttributeError\<close>, and
  \<open>**\<close> of one raises \<open>TypeError\<close>.\<close>

definition response_envelope_of :: "client_lib \<Rightarrow> 'm attempt \<Rightarrow> pyval \<Rightarrow> exn + envelope" where
  "response_envelope_of lb a v =
     (case v of
        PDict d \<Rightarrow>
          (case (case map_of d ''result'' of None \<Rightarrow> PDict [] | Some r \<Rightarrow> r) of
             PDict result \<Rightarrow>
               (case (case map_of result ''envelope'' of None \<Rightarrow> PNone | Some e \<Rightarrow> e) of
                  PDict data \<Rightarrow>
                    if data = [] then Inl (raised_remote (from_jsonrpc (kl_str lb) (-32603) ''Missing envelope in response'' None))
                    else (case envelope_from_dict (kl_fields lb) (kl_report lb) (at_new_id a) (at_parse_time a) data of
                            Inl x \<Rightarrow> Inl x
                          | Inr (Inl errs) \<Rightarrow> Inl (OtherExn ''ValidationError'' (kl_str lb errs))
                          | Inr (Inr e) \<Rightarrow> Inr e)
                | w \<Rightarrow>
                    if py_truthy w then Inl (lift_exn TypeError)
                    else Inl (raised_remote (from_jsonrpc (kl_str lb) (-32603) ''Missing envelope in response'' None)))
           | _ \<Rightarrow> Inl (lift_exn AttributeError))
      | _ \<Rightarrow> Inl (lift_exn AttributeError))"

definition handle_success_response ::
  "client_lib \<Rightarrow> client \<Rightarrow> 'm attempt \<Rightarrow> nat \<Rightarrow> envelope \<Rightarrow> wire_response \<Rightarrow> 'm client_state \<Rightarrow> ('m client_state, send_exn, envelope) outcome" where
  "handle_success_response lb cl a k e r s =
     (case decode_send_response lb r of
        Inl x \<Rightarrow> (Inl (SendRaises (raised_remote (from_jsonrpc (kl_str lb) (-32700) (''Invalid response: '' @ x) None))), s)
      | Inr v \<Rightarrow>
          (case py_contains ''error'' v of
             None \<Rightarrow> (Inl (SendRaises (lift_exn TypeError)), s)
           | Some True \<Rightarrow> handle_jsonrpc_error lb cl a k v s
           | Some False \<Rightarrow>
               (case response_envelope_of lb a v of
                  Inl x \<Rightarrow> (Inl (SendRaises x), s)
                | Inr resp \<Rightarrow>
                    (case assert_correlation_binds (kl_repr lb) (shown (env_id e)) resp of
                       Inl x \<Rightarrow> (Inl (SendRaises x), s)
                     | Inr u \<Rightarrow>
                         (Inr resp, on_send_metrics (send_success_metrics (at_elapsed a)) (on_breaker record_success s))))))"

definition handle_send_response ::
  "client_lib \<Rightarrow> client \<Rightarrow> 'm attempt \<Rightarrow> nat \<Rightarrow> envelope \<Rightarrow> wire_response \<Rightarrow> 'm client_state \<Rightarrow> ('m client_state, send_exn, envelope) outcome" where
  "handle_send_response lb cl a k e r s =
     (if rsp_status r \<ge> 500 then handle_server_error cl a k r s
      else if rsp_status r = 429 then handle_rate_limited lb cl a k r s
      else if rsp_status r \<ge> 400 then handle_client_error cl a r s
      else handle_success_response lb cl a k e r s)"

subsection \<open>The retry loop\<close>

text \<open>The exceptions the third \<open>except\<close> clause lets through.\<close>

fun known_send_exn :: "exn \<Rightarrow> bool" where
  "known_send_exn (AsapExn e) = (ae_class e \<in> {ASAPConnectionError, ASAPTimeoutError, ProtocolCorrelationError})"
| "known_send_exn (RemoteExn e) = True"
| "known_send_exn _ = False"

text \<open>The last clause: a failure is recorded and the exception wrapped.\<close>

definition unexpected_send_error ::
  "client \<Rightarrow> 'm attempt \<Rightarrow> exn \<Rightarrow> 'm client_state \<Rightarrow> ('m client_state, send_exn, envelope) outcome" where
  "unexpected_send_error cl a x s =
     (Inl (SendRaises (connection_exn (''Unexpected error connecting to '' @ ct_base_url cl @ '': '' @ exn_text x @
         ''. Verify the agent is running and accessible.'') (Some (exn_text x)) (sanitized cl))),
      on_send_metrics (record_send_error_metrics (at_elapsed a) (exn_type x)) (record_circuit_failure a s))"

definition except_clauses ::
  "client \<Rightarrow> 'm attempt \<Rightarrow> ('m client_state, send_exn, envelope) outcome \<Rightarrow> ('m client_state, send_exn, envelope) outcome" where
  "except_clauses cl a out =
     (case out of
        (Inl (SendRaises x), s) \<Rightarrow> if known_send_exn x then (Inl (SendRaises x), s) else unexpected_send_error cl a x s
      | _ \<Rightarrow> out)"

text \<open>One attempt: the POST, then the handlers.\<close>

definition send_attempt ::
  "client_lib \<Rightarrow> ('m, 'h) manifest_lib \<Rightarrow> client \<Rightarrow> string \<Rightarrow> bytes \<times> string option \<Rightarrow> envelope \<Rightarrow> nat \<Rightarrow> 'm attempt \<Rightarrow>
   'm client_state \<Rightarrow> ('m client_state, send_exn, envelope) outcome" where
  "send_attempt lb ml cl key body e k a s =
     (let s1 = (if k > 0 then on_send_metrics (increment_counter ''asap_transport_retries_total'' None 1) s else s);
          s2 = s1\<lparr>ks_posts := ks_posts s1 @ [(build_send_headers lb cl key (snd body), fst body)]\<rparr>;
          s3 = on_breaker (cb_run (at_meanwhile a)) s2
      in case at_outcome a of
           ConnectFailed x \<Rightarrow> handle_send_transport_exception lb cl a k False x s3
         | TimedOut x \<Rightarrow> handle_send_transport_exception lb cl a k True x s3
         | HttpFailed t x \<Rightarrow> except_clauses cl a (Inl (SendRaises (OtherExn t x)), s3)
         | Delivered r \<Rightarrow>
             (let s4 = capture_asap_version_header r s3;
                  s5 = (if rsp_status r = 401 then ingest_asap_challenge_401 ml cl (at_prefetch a) r s4 else s4)
              in except_clauses cl a (handle_send_response lb cl a k e r s5)))"

text \<open>\<open>for attempt in range(max_retries)\<close>: \<open>left\<close> attempts are left, \<open>k\<close> is the number of the next.\<close>

fun send_loop ::
  "client_lib \<Rightarrow> ('m, 'h) manifest_lib \<Rightarrow> client \<Rightarrow> string \<Rightarrow> bytes \<times> string option \<Rightarrow> envelope \<Rightarrow> 'm send_env \<Rightarrow> nat \<Rightarrow> nat \<Rightarrow> exn option \<Rightarrow>
   'm client_state \<Rightarrow> ('m client_state, exn, envelope) outcome" where
  "send_loop lb ml cl key body e env 0 k last_exception s =
     (case last_exception of
        Some x \<Rightarrow> (Inl x, on_send_metrics (record_send_error_metrics (se_elapsed env) (exn_type x)) s)
      | None \<Rightarrow> (Inl (connection_exn (''Max retries ('' @ str_int (ct_max_retries cl) @ '') exceeded for '' @ ct_base_url cl @
                   ''. Verify the agent is running and accessible.'') None (sanitized cl)), s))"
| "send_loop lb ml cl key body e env (Suc left) k last_exception s =
     (case send_attempt lb ml cl key body e k (se_attempts env k) s of
        (Inr resp, s') \<Rightarrow> (Inr resp, s')
      | (Inl (SendRaises x), s') \<Rightarrow> (Inl x, s')
      | (Inl (RetryableSend x), s') \<Rightarrow> send_loop lb ml cl key body e env left (Suc k) (Some x) s')"

definition json_rpc_request :: "client_lib \<Rightarrow> envelope \<Rightarrow> string \<Rightarrow> string \<Rightarrow> pyval" where
  "json_rpc_request lb e key request_id =
     PDict [(''jsonrpc'', PStr ''2.0''), (''method'', PStr ASAP_METHOD),
            (''params'', PDict [(''envelope'', kl_dump_envelope lb e), (''idempotency_key'', PStr key)]),
            (''id'', PStr request_id)]"

text \<open>\<open>can_attempt\<close> of the breaker, if there is one, with the exception for a refusal.\<close>

definition ask_breaker :: "client \<Rightarrow> rat \<Rightarrow> 'm client_state \<Rightarrow> ('m client_state, exn, unit) outcome" where
  "ask_breaker cl now s =
     (case ks_breaker s of
        None \<Rightarrow> (Inr (), s)
      | Some b \<Rightarrow>
          (case can_attempt now b of
             (ok, b') \<Rightarrow>
               (if ok then Inr () else Inl (raised (circuit_open_error (sanitized cl) (consecutive_failures b') None None)),
                s\<lparr>ks_breaker := Some b'\<rparr>)))"

definition send_websocket ::
  "client_lib \<Rightarrow> client \<Rightarrow> envelope \<Rightarrow> 'm send_env \<Rightarrow> 'm client_state \<Rightarrow> ('m client_state, exn, envelope) outcome" where
  "send_websocket lb cl e env s =
     (case ask_breaker cl (se_clock env) s of
        (Inl x, s1) \<Rightarrow> (Inl x, s1)
      | (Inr u, s1) \<Rightarrow>
          ((case se_ws env of
              WsReply r \<Rightarrow> Inr r
            | WsRemoteError code msg data \<Rightarrow> Inl (raised_remote (remote_rpc_error_from_json (kl_str lb) code msg (Some data)))
            | WsTimeout x \<Rightarrow>
                Inl (timeout_exn (''WebSocket receive timed out after '' @ kl_str lb (PFloat (Fin (ct_timeout cl))) @ ''s'') (ct_timeout cl))
            | WsFailed x \<Rightarrow> Inl x), s1))"

definition send_over_http ::
  "client_lib \<Rightarrow> ('m, 'h) manifest_lib \<Rightarrow> client \<Rightarrow> envelope \<Rightarrow> 'm send_env \<Rightarrow> 'm client_state \<Rightarrow> ('m client_state, exn, envelope) outcome" where
  "send_over_http lb ml cl e env s =
     (let request_id = ''req-'' @ str_int (ks_next_request s);
          s1 = s\<lparr>ks_next_request := ks_next_request s + 1\<rparr>;
          body = compress_request_body lb cl (kl_dumps lb (json_rpc_request lb e (se_idempotency_key env) request_id))
      in send_loop lb ml cl (se_idempotency_key env) body e env (nat (ct_max_retries cl)) 0 None s1)"

definition send ::
  "client_lib \<Rightarrow> ('m, 'h) manifest_lib \<Rightarrow> client \<Rightarrow> envelope \<Rightarrow> 'm send_env \<Rightarrow> 'm client_state \<Rightarrow> ('m client_state, exn, envelope) outcome" where
  "send lb ml cl e env s =
     (if \<not> ct_connected cl \<and> \<not> ct_websocket cl then (Inl (not_connected (ct_urls cl) (ct_base_url cl)), s)
      else if ct_websocket cl then send_websocket lb cl e env s
      else (case ask_breaker cl (se_clock env) s of
              (Inl x, s1) \<Rightarrow> (Inl x, s1)
            | (Inr u, s1) \<Rightarrow> send_over_http lb ml cl e env s1))"

subsection \<open>What the steps leave alone\<close>

lemma on_breaker_frame [simp]:
  "ks_breaker (on_breaker f s) = map_option f (ks_breaker s)" "ks_posts (on_breaker f s) = ks_posts s"
  "ks_sleeps (on_breaker f s) = ks_sleeps s" "ks_metrics (on_breaker f s) = ks_metrics s"
  by (simp_all add: on_breaker_def)

lemma on_send_metrics_frame [simp]:
  "ks_breaker (on_send_metrics f s) = ks_breaker s" "ks_posts (on_send_metrics f s) = ks_posts s"
  "ks_sleeps (on_send_metrics f s) = ks_sleeps s" "ks_metrics (on_send_metrics f s) = f (ks_metrics s)"
  by (simp_all add: on_send_metrics_def)

lemma sleep_for_frame [simp]:
  "ks_breaker (sleep_for d es s) = map_option (cb_run es) (ks_breaker s)" "ks_posts (sleep_for d es s) = ks_posts s"
  "ks_sleeps (sleep_for d es s) = ks_sleeps s @ [d]" "ks_metrics (sleep_for d es s) = ks_metrics s"
  by (simp_all add: sleep_for_def)

lemma record_circuit_failure_frame [simp]:
  "ks_breaker (record_circuit_failure a s) = map_option (record_failure (at_now a)) (ks_breaker s)"
  "ks_posts (record_circuit_failure a s) = ks_posts s" "ks_sleeps (record_circuit_failure a s) = ks_sleeps s"
  "ks_metrics (record_circuit_failure a s) = ks_metrics s"
  by (simp_all add: record_circuit_failure_def)

lemma capture_version_frame [simp]:
  "ks_breaker (capture_asap_version_header r s) = ks_breaker s" "ks_posts (capture_asap_version_header r s) = ks_posts s"
  "ks_sleeps (capture_asap_version_header r s) = ks_sleeps s" "ks_metrics (capture_asap_version_header r s) = ks_metrics s"
  by (simp_all add: capture_asap_version_header_def)

lemma ingest_challenge_frame [simp]:
  "ks_breaker (ingest_asap_challenge_401 ml cl fe r s) = ks_breaker s" "ks_posts (ingest_asap_challenge_401 ml cl fe r s) = ks_posts s"
  "ks_sleeps (ingest_asap_challenge_401 ml cl fe r s) = ks_sleeps s" "ks_metrics (ingest_asap_challenge_401 ml cl fe r s) = ks_metrics s"
  by (simp_all add: ingest_asap_challenge_401_def Let_def split: option.splits)

lemmas handler_defs = handle_send_response_def handle_server_error_def handle_rate_limited_def handle_client_error_def
  handle_success_response_def handle_jsonrpc_error_def handle_send_transport_exception_def

lemma handle_send_response_posts [simp]: "ks_posts (snd (handle_send_response lb cl a k e r s)) = ks_posts s"
  by (simp add: handler_defs Let_def split: sum.splits option.splits bool.splits)

lemma transport_exception_posts [simp]: "ks_posts (snd (handle_send_transport_exception lb cl a k b x s)) = ks_posts s"
  by (simp add: handle_send_transport_exception_def Let_def)

lemma except_clauses_posts [simp]: "ks_posts (snd (except_clauses cl a out)) = ks_posts (snd out)"
  by (auto simp: except_clauses_def unexpected_send_error_def split: prod.splits sum.splits send_exn.splits)

subsection \<open>One attempt\<close>

lemma except_clauses_cases:
  "fst (except_clauses cl a out) = Inr r \<longleftrightarrow> fst out = Inr r"
  "fst (except_clauses cl a out) = Inl (RetryableSend x) \<longleftrightarrow> fst out = Inl (RetryableSend x)"
  by (auto simp: except_clauses_def unexpected_send_error_def split: prod.splits sum.splits send_exn.splits)

lemma retryable_only_before_last:
  "fst (handle_send_response lb cl a k e r s) = Inl (RetryableSend x) \<Longrightarrow> retries_left cl k"
  "fst (handle_send_transport_exception lb cl a k b y s) = Inl (RetryableSend x) \<Longrightarrow> retries_left cl k"
  by (auto simp: handler_defs Let_def split: if_splits sum.splits option.splits bool.splits)

lemma send_attempt_posts:
  "ks_posts (snd (send_attempt lb ml cl key body e k a s)) = ks_posts s @ [(build_send_headers lb cl key (snd body), fst body)]"
  by (simp add: send_attempt_def Let_def split: http_outcome.splits)

lemma send_attempt_retry:
  "fst (send_attempt lb ml cl key body e k a s) = Inl (RetryableSend x) \<Longrightarrow> retries_left cl k"
  by (auto simp: send_attempt_def Let_def except_clauses_cases dest: retryable_only_before_last split: http_outcome.splits)

text \<open>What makes a response acceptable.\<close>

definition bound_to :: "envelope \<Rightarrow> envelope \<Rightarrow> bool" where
  "bound_to e resp \<longleftrightarrow> (normalize_payload_type (payload_type resp) \<in> RESPONSE_PAYLOAD_KEYS \<longrightarrow>
     correlation_id resp = Some (shown (env_id e)))"

lemma assert_binds_iff: "assert_correlation_binds rep (shown (env_id e)) resp = Inr () \<longleftrightarrow> bound_to e resp"
  by (auto simp: assert_correlation_binds_def correlation_binds_def bound_to_def)

text \<open>The envelope is the one the body of the response carries, which has no error.\<close>

definition carries :: "client_lib \<Rightarrow> 'm attempt \<Rightarrow> wire_response \<Rightarrow> envelope \<Rightarrow> bool" where
  "carries lb a r resp \<longleftrightarrow> rsp_status r < 400 \<and>
     (\<exists>v. decode_send_response lb r = Inr v \<and> py_contains ''error'' v = Some False \<and> response_envelope_of lb a v = Inr resp)"

lemma handle_send_response_Inr:
  assumes "handle_send_response lb cl a k e r s = (Inr resp, s')"
  shows "bound_to e resp \<and> carries lb a r resp \<and> s' = on_send_metrics (send_success_metrics (at_elapsed a)) (on_breaker record_success s)"
  using assms assert_binds_iff [of "kl_repr lb" e]
  by (auto simp: handler_defs carries_def Let_def split: if_splits sum.splits option.splits bool.splits)

lemma send_attempt_Inr:
  assumes "send_attempt lb ml cl key body e k a s = (Inr resp, s')"
  shows "\<exists>r. at_outcome a = Delivered r \<and> carries lb a r resp \<and> bound_to e resp"
proof (cases "at_outcome a")
  case (Delivered r)
  from assms have "fst (send_attempt lb ml cl key body e k a s) = Inr resp" by simp
  with Delivered obtain s0 where "fst (handle_send_response lb cl a k e r s0) = Inr resp"
    by (auto simp: send_attempt_def Let_def except_clauses_cases)
  with handle_send_response_Inr [of lb cl a k e r s0 resp] Delivered show ?thesis by (metis prod.collapse)
qed (use assms in \<open>auto simp: send_attempt_def Let_def handle_send_transport_exception_def except_clauses_def unexpected_send_error_def split: if_splits\<close>)

subsection \<open>The loop\<close>

lemma send_loop_posts:
  assumes "int k + int left = ct_max_retries cl"
  shows "\<exists>n \<le> left. (0 < left \<longrightarrow> 0 < n) \<and>
    ks_posts (snd (send_loop lb ml cl key body e env left k x s)) = ks_posts s @ replicate n (build_send_headers lb cl key (snd body), fst body)"
  using assms
proof (induction left arbitrary: k x s)
  case 0
  then show ?case by (auto split: option.splits)
next
  case (Suc left)
  let ?p = "(build_send_headers lb cl key (snd body), fst body)"
  obtain out s1 where step: "send_attempt lb ml cl key body e k (se_attempts env k) s = (out, s1)" by fastforce
  from send_attempt_posts [of lb ml cl key body e k "se_attempts env k" s] step
  have posts: "ks_posts s1 = ks_posts s @ [?p]" by simp
  show ?case
  proof (cases "\<exists>y. out = Inl (RetryableSend y)")
    case True
    then obtain y where y: "out = Inl (RetryableSend y)" ..
    from Suc(1) [of "Suc k" "Some y" s1] Suc(2) obtain n where
      n: "n \<le> left" "ks_posts (snd (send_loop lb ml cl key body e env left (Suc k) (Some y) s1)) = ks_posts s1 @ replicate n ?p" by auto
    then show ?thesis using step y posts by (intro exI [of _ "Suc n"]) simp
  next
    case False
    then show ?thesis using step posts
      by (intro exI [of _ 1]) (auto split: sum.splits send_exn.splits)
  qed
qed

lemma send_loop_Inr:
  "send_loop lb ml cl key body e env left k x s = (Inr resp, s') \<Longrightarrow>
    \<exists>j r. k \<le> j \<and> j < k + left \<and> length (ks_posts s') = length (ks_posts s) + (j - k) + 1 \<and>
      at_outcome (se_attempts env j) = Delivered r \<and> carries lb (se_attempts env j) r resp \<and> bound_to e resp"
proof (induction left arbitrary: k x s)
  case 0
  then show ?case by (simp split: option.splits)
next
  case (Suc left)
  obtain out s1 where step: "send_attempt lb ml cl key body e k (se_attempts env k) s = (out, s1)" by fastforce
  from send_attempt_posts [of lb ml cl key body e k "se_attempts env k" s] step
  have posts: "length (ks_posts s1) = length (ks_posts s) + 1" by simp
  show ?case
  proof (cases "\<exists>y. out = Inl (RetryableSend y)")
    case True
    then obtain y where "out = Inl (RetryableSend y)" ..
    with Suc(2) step have "send_loop lb ml cl key body e env left (Suc k) (Some y) s1 = (Inr resp, s')" by simp
    from Suc(1) [OF this] obtain j r where "Suc k \<le> j" "j < Suc k + left" "length (ks_posts s') = length (ks_posts s1) + (j - Suc k) + 1"
      "at_outcome (se_attempts env j) = Delivered r" "carries lb (se_attempts env j) r resp" "bound_to e resp" by blast
    then show ?thesis using posts by (intro exI [of _ j] exI [of _ r]) simp
  next
    case False
    with Suc(2) step have "out = Inr resp" "s' = s1" by (auto split: sum.splits send_exn.splits)
    with send_attempt_Inr [of lb ml cl key body e k "se_attempts env k" s resp s1] step
    obtain r where "at_outcome (se_attempts env k) = Delivered r" "carries lb (se_attempts env k) r resp" "bound_to e resp" by auto
    then show ?thesis using posts \<open>s' = s1\<close> by (intro exI [of _ k] exI [of _ r]) simp
  qed
qed

subsection \<open>Transient failures\<close>

text \<open>An attempt that ends with a connection error, a time-out or a status of 500 or more, and during which nobody else reports to
  the breaker.\<close>

definition transient :: "'m attempt \<Rightarrow> bool" where
  "transient a \<longleftrightarrow> at_meanwhile a = [] \<and> at_slept a = [] \<and>
     (case at_outcome a of Delivered r \<Rightarrow> rsp_status r \<ge> 500 | ConnectFailed x \<Rightarrow> True | TimedOut x \<Rightarrow> True | HttpFailed t x \<Rightarrow> False)"

lemma cb_run_Nil [simp]: "map_option (cb_run []) b = b"
  by (cases b) simp_all

lemma known_connection_exn [simp]: "known_send_exn (connection_exn m c u)"
  by (simp add: connection_exn_def asap_connection_error_def asap_error_init_def is_asap_json_rpc_code_def rpc_code_defs Let_def)

text \<open>How an attempt ends that may be retried: it sleeps before the last attempt, and the last one reports to the breaker.\<close>

definition backs_off ::
  "client \<Rightarrow> 'm attempt \<Rightarrow> nat \<Rightarrow> 'm client_state \<Rightarrow> ('m client_state, send_exn, envelope) outcome \<Rightarrow> bool" where
  "backs_off cl a k s out \<longleftrightarrow>
     (\<exists>x. fst out = Inl (if retries_left cl k then RetryableSend x else SendRaises x)) \<and>
     ks_sleeps (snd out) = ks_sleeps s @ (if retries_left cl k then [calculate_backoff cl (at_draw a) k] else []) \<and>
     ks_breaker (snd out) = map_option (if retries_left cl k then cb_run (at_slept a) else record_failure (at_now a)) (ks_breaker s) \<and>
     ks_metrics (snd out) = ks_metrics s"

lemma transport_exception_backs_off: "backs_off cl a k s (handle_send_transport_exception lb cl a k b y s)"
  by (simp add: backs_off_def handle_send_transport_exception_def Let_def)

lemma server_error_backs_off: "backs_off cl a k s (except_clauses cl a (handle_server_error cl a k r s))"
  by (simp add: backs_off_def handle_server_error_def except_clauses_def Let_def)

lemma transient_attempt:
  assumes "transient a"
  shows "\<exists>s0. ks_sleeps s0 = ks_sleeps s \<and> ks_breaker s0 = ks_breaker s \<and> 
    ks_metrics s0 = (if k > 0 then increment_counter ''asap_transport_retries_total'' None 1 else id) (ks_metrics s) \<and>
    backs_off cl a k s0 (send_attempt lb ml cl key body e k a s)"
proof -
  define s1 where "s1 = (if k > 0 then on_send_metrics (increment_counter ''asap_transport_retries_total'' None 1) s else s)"
  define s3 where "s3 = on_breaker (cb_run (at_meanwhile a))
    (s1\<lparr>ks_posts := ks_posts s1 @ [(build_send_headers lb cl key (snd body), fst body)]\<rparr>)"
  have s3: "ks_sleeps s3 = ks_sleeps s" "ks_breaker s3 = ks_breaker s" 
    "ks_metrics s3 = (if k > 0 then increment_counter ''asap_transport_retries_total'' None 1 else id) (ks_metrics s)"
    using assms(1) by (simp_all add: s3_def s1_def transient_def)
  show ?thesis
  proof (cases "at_outcome a")
    case (Delivered r)
    with assms(1) have r: "rsp_status r \<ge> 500" by (simp add: transient_def)
    then have "send_attempt lb ml cl key body e k a s =
        except_clauses cl a (handle_server_error cl a k r (capture_asap_version_header r s3))"
      using Delivered by (simp add: send_attempt_def Let_def s1_def s3_def handle_send_response_def)
    with server_error_backs_off s3 show ?thesis
      by (intro exI [of _ "capture_asap_version_header r s3"]) simp
  next
    case (ConnectFailed x)
    then show ?thesis using s3 transport_exception_backs_off [of cl a k s3 lb False x]
      by (intro exI [of _ s3]) (simp add: send_attempt_def Let_def s1_def s3_def)
  next
    case (TimedOut x)
    then show ?thesis using s3 transport_exception_backs_off [of cl a k s3 lb True x]
      by (intro exI [of _ s3]) (simp add: send_attempt_def Let_def s1_def s3_def)
  next
    case (HttpFailed t x)
    with assms(1) show ?thesis by (simp add: transient_def)
  qed
qed

text \<open>How a loop of \<open>Suc n\<close> attempts from number \<open>k\<close> on ends when all of them fail that way.\<close>

definition exhausts :: "client \<Rightarrow> 'm send_env \<Rightarrow> nat \<Rightarrow> nat \<Rightarrow> 'm client_state \<Rightarrow> ('m client_state, exn, envelope) outcome \<Rightarrow> bool" where
  "exhausts cl env k n s out \<longleftrightarrow>
     (\<exists>x. fst out = Inl x) \<and> length (ks_posts (snd out)) = length (ks_posts s) + Suc n \<and>
     ks_sleeps (snd out) = ks_sleeps s @ map (\<lambda>j. calculate_backoff cl (at_draw (se_attempts env j)) j) [k..<k + n] \<and>
     ks_breaker (snd out) = map_option (record_failure (at_now (se_attempts env (k + n)))) (ks_breaker s) \<and>
     ks_metrics (snd out) =
       (increment_counter ''asap_transport_retries_total'' None 1 ^^ (if k = 0 then n else Suc n)) (ks_metrics s)"

lemma transient_loop:
  assumes "\<forall>j. k \<le> j \<and> j \<le> k + n \<longrightarrow> transient (se_attempts env j)" "int k + int (Suc n) = ct_max_retries cl"
  shows "exhausts cl env k n s (send_loop lb ml cl key body e env (Suc n) k y s)"
  using assms
proof (induction n arbitrary: k y s)
  case 0
  let ?a = "se_attempts env k"
  from 0 obtain s0 where s0: "ks_sleeps s0 = ks_sleeps s" "ks_breaker s0 = ks_breaker s"
    "ks_metrics s0 = (if k > 0 then increment_counter ''asap_transport_retries_total'' None 1 else id) (ks_metrics s)"
    "backs_off cl ?a k s0 (send_attempt lb ml cl key body e k ?a s)"
    using transient_attempt [of ?a s k cl lb ml key body e] by auto
  obtain out s1 where step: "send_attempt lb ml cl key body e k ?a s = (out, s1)" by fastforce
  have last: "\<not> retries_left cl k" using 0(2) by simp
  with s0(4) step obtain x where "out = Inl (SendRaises x)" by (auto simp: backs_off_def)
  with step s0 last send_attempt_posts [of lb ml cl key body e k ?a s] show ?case
    by (auto simp: backs_off_def exhausts_def)
next
  case (Suc n)
  let ?a = "se_attempts env k" and ?inc = "increment_counter ''asap_transport_retries_total'' None 1"
  from Suc(2) have "transient ?a" by simp
  then obtain s0 where s0: "ks_sleeps s0 = ks_sleeps s" "ks_breaker s0 = ks_breaker s"
    "ks_metrics s0 = (if k > 0 then ?inc else id) (ks_metrics s)"
    "backs_off cl ?a k s0 (send_attempt lb ml cl key body e k ?a s)"
    using transient_attempt [of ?a s k cl lb ml key body e] by auto
  obtain out s1 where step: "send_attempt lb ml cl key body e k ?a s = (out, s1)" by fastforce
  have more: "retries_left cl k" using Suc(3) by simp
  have quiet: "at_slept ?a = []" using \<open>transient ?a\<close> by (simp add: transient_def)
  from s0(4) step more quiet obtain x where out: "out = Inl (RetryableSend x)" by (auto simp: backs_off_def)
  have s1: "ks_sleeps s1 = ks_sleeps s @ [calculate_backoff cl (at_draw ?a) k]" "ks_breaker s1 = ks_breaker s"
    "ks_metrics s1 = (if k > 0 then ?inc else id) (ks_metrics s)" "length (ks_posts s1) = Suc (length (ks_posts s))"
    using s0 step more quiet send_attempt_posts [of lb ml cl key body e k ?a s] by (simp_all add: backs_off_def)
  have "\<forall>j. Suc k \<le> j \<and> j \<le> Suc k + n \<longrightarrow> transient (se_attempts env j)" "int (Suc k) + int (Suc n) = ct_max_retries cl"
    using Suc(2,3) by auto
  from Suc(1) [OF this, of s1 "Some x"] s1 show ?case
    unfolding send_loop.simps(2) [of _ _ _ _ _ _ _ "Suc n"] step out
    by (simp add: exhausts_def upt_rec [of k] funpow_swap1)
qed

lemma ask_breaker_frame:
  assumes "ask_breaker cl now s = (res, s1)"
  shows "ks_posts s1 = ks_posts s" "ks_sleeps s1 = ks_sleeps s" "ks_metrics s1 = ks_metrics s" "ks_next_request s1 = ks_next_request s"
  using assms by (auto simp: ask_breaker_def split: option.splits prod.splits if_splits)

lemma send_over_http_transient:
  assumes "\<forall>j < nat (ct_max_retries cl). transient (se_attempts env j)" "0 < ct_max_retries cl"
  shows "exhausts cl env 0 (nat (ct_max_retries cl) - 1) s (send_over_http lb ml cl e env s)"
proof -
  define n where "n = nat (ct_max_retries cl) - 1"
  have n: "nat (ct_max_retries cl) = Suc n" "int 0 + int (Suc n) = ct_max_retries cl" using assms(2) by (simp_all add: n_def)
  then have "\<forall>j. 0 \<le> j \<and> j \<le> 0 + n \<longrightarrow> transient (se_attempts env j)" using assms(1) by simp
  from transient_loop [OF this n(2), of "s\<lparr>ks_next_request := ks_next_request s + 1\<rparr>"] show ?thesis
    unfolding send_over_http_def Let_def n(1) by (simp add: exhausts_def)
qed

lemma calculate_backoff_bounds:
  assumes "0 \<le> ct_base_delay cl" "0 \<le> ct_max_delay cl" "0 \<le> draw" "draw \<le> 1"
  shows "0 \<le> calculate_backoff cl draw k \<and> calculate_backoff cl draw k \<le> 11/10 * ct_max_delay cl"
proof -
  define d where "d = min (ct_base_delay cl * 2 ^ k) (ct_max_delay cl)"
  have "0 \<le> d" "d \<le> ct_max_delay cl" using assms(1,2) by (simp_all add: d_def)
  moreover from this have "0 \<le> draw * (d / 10)" "draw * (d / 10) \<le> d / 10"
    using assms(3,4) by (simp_all add: mult_left_le_one_le)
  ultimately show ?thesis by (simp add: calculate_backoff_def Let_def d_def [symmetric])
qed

subsection \<open>The breaker after an answer nobody reports\<close>

text \<open>A response the client cannot use: it does not parse, has no envelope, or answers another request.\<close>

definition unusable :: "client_lib \<Rightarrow> envelope \<Rightarrow> 'm attempt \<Rightarrow> wire_response \<Rightarrow> bool" where
  "unusable lb e a r \<longleftrightarrow> rsp_status r < 400 \<and>
     (case decode_send_response lb r of
        Inl x \<Rightarrow> True
      | Inr v \<Rightarrow> py_contains ''error'' v = Some False \<and>
          (case response_envelope_of lb a v of Inl x \<Rightarrow> (\<exists>y. x = RemoteExn y) | Inr resp \<Rightarrow> \<not> bound_to e resp))"

lemma raised_remote_plain: "\<exists>y. raised_remote (from_jsonrpc txt code m None) = RemoteExn y"
  by (simp add: from_jsonrpc_def pop_remote_meta_def or_empty_def remote_rpc_error_init_def remote_error_init_def asap_error_init_def
      is_asap_json_rpc_code_def rpc_code_defs Let_def)

lemma correlation_mismatch_known: "assert_correlation_binds rep i resp = Inl x \<Longrightarrow> known_send_exn x"
  by (auto simp: assert_correlation_binds_def correlation_binds_def protocol_correlation_error_def asap_error_init_def
      is_asap_json_rpc_code_def rpc_code_defs split: if_splits)

lemma unusable_raises:
  assumes "unusable lb e a r"
  shows "\<exists>x. handle_send_response lb cl a k e r s = (Inl (SendRaises x), s) \<and> known_send_exn x"
proof (cases "decode_send_response lb r")
  case (Inl x)
  with assms raised_remote_plain [of "kl_str lb" "-32700" "''Invalid response: '' @ x"] show ?thesis
    by (auto simp: unusable_def handle_send_response_def handle_success_response_def)
next
  case (Inr v)
  with assms have v: "py_contains ''error'' v = Some False" "rsp_status r < 400" by (auto simp: unusable_def)
  show ?thesis
  proof (cases "response_envelope_of lb a v")
    case (Inl x)
    with assms Inr v show ?thesis by (auto simp: unusable_def handle_send_response_def handle_success_response_def)
  next
    case env: (Inr resp)
    with assms Inr have "\<not> bound_to e resp" by (simp add: unusable_def)
    then obtain x where "assert_correlation_binds (kl_repr lb) (shown (env_id e)) resp = Inl x"
      using assert_binds_iff [of "kl_repr lb" e resp] by (cases "assert_correlation_binds (kl_repr lb) (shown (env_id e)) resp") auto
    with env Inr v correlation_mismatch_known show ?thesis
      by (auto simp: handle_send_response_def handle_success_response_def)
  qed
qed

lemma unusable_attempt:
  assumes "at_outcome a = Delivered r" "at_meanwhile a = []" "unusable lb e a r"
  shows "\<exists>x s'. send_attempt lb ml cl key body e k a s = (Inl (SendRaises x), s') \<and> ks_breaker s' = ks_breaker s"
proof -
  from assms(3) have "rsp_status r \<noteq> 401" by (simp add: unusable_def)
  define s1 where "s1 = (if k > 0 then on_send_metrics (increment_counter ''asap_transport_retries_total'' None 1) s else s)"
  define s4 where "s4 = capture_asap_version_header r (on_breaker (cb_run (at_meanwhile a))
    (s1\<lparr>ks_posts := ks_posts s1 @ [(build_send_headers lb cl key (snd body), fst body)]\<rparr>))"
  from unusable_raises [OF assms(3)] obtain x where "handle_send_response lb cl a k e r s4 = (Inl (SendRaises x), s4)" "known_send_exn x"
    by blast
  then have "send_attempt lb ml cl key body e k a s = (Inl (SendRaises x), s4)"
    using assms(1) \<open>rsp_status r \<noteq> 401\<close> by (simp add: send_attempt_def Let_def s1_def s4_def except_clauses_def)
  then show ?thesis using assms(2) by (simp add: s4_def s1_def)
qed

lemma trial_granted:
  assumes "ks_breaker s = Some b" "cb_state b = OPEN" "last_failure_time b = Some t" "timeout b \<le> now - t"
  shows "\<exists>b1. ask_breaker cl now s = (Inr (), s\<lparr>ks_breaker := Some b1\<rparr>) \<and> cb_state b1 = HALF_OPEN \<and> \<not> half_open_permit b1"
  using assms
  by (intro exI [of _ "b\<lparr>cb_state := HALF_OPEN, half_open_permit := False\<rparr>"]) (simp add: ask_breaker_def can_attempt_def Let_def)

lemma send_refused:
  assumes "ks_breaker s = Some b" "cb_state b = HALF_OPEN" "\<not> half_open_permit b" "ct_connected cl \<or> ct_websocket cl"
  shows "send lb ml cl e env s = (Inl (raised (circuit_open_error (sanitized cl) (consecutive_failures b) None None)), s)"
proof -
  have "ask_breaker cl (se_clock env) s = (Inl (raised (circuit_open_error (sanitized cl) (consecutive_failures b) None None)), s)"
    using assms(1-3) by (simp add: ask_breaker_def can_attempt_def Let_def)
  then show ?thesis using assms(4) by (auto simp: send_def send_websocket_def)
qed

lemma unreported_trial:
  assumes "ks_breaker s = Some b" "cb_state b = OPEN" "last_failure_time b = Some t" "timeout b \<le> se_clock env - t"
    and "ct_websocket cl \<or> (ct_connected cl \<and> 0 < ct_max_retries cl \<and> at_outcome (se_attempts env 0) = Delivered r \<and>
      at_meanwhile (se_attempts env 0) = [] \<and> unusable lb e (se_attempts env 0) r)"
  shows "\<exists>b1. ks_breaker (snd (send lb ml cl e env s)) = Some b1 \<and> cb_state b1 = HALF_OPEN \<and> \<not> half_open_permit b1"
proof -
  from trial_granted [OF assms(1-4)] obtain b1 where
    b1: "ask_breaker cl (se_clock env) s = (Inr (), s\<lparr>ks_breaker := Some b1\<rparr>)" "cb_state b1 = HALF_OPEN" "\<not> half_open_permit b1"
    by blast
  show ?thesis
  proof (cases "ct_websocket cl")
    case True
    with b1 show ?thesis by (simp add: send_def send_websocket_def)
  next
    case False
    with assms(5) have http: "ct_connected cl" "at_outcome (se_attempts env 0) = Delivered r"
      "at_meanwhile (se_attempts env 0) = []" "unusable lb e (se_attempts env 0) r" by auto
    obtain m where m: "nat (ct_max_retries cl) = Suc m" using False assms(5) by (cases "nat (ct_max_retries cl)") auto
    define s1 where "s1 = s\<lparr>ks_breaker := Some b1, ks_next_request := ks_next_request s + 1\<rparr>"
    define body where "body = compress_request_body lb cl (kl_dumps lb (json_rpc_request lb e (se_idempotency_key env) (''req-'' @ str_int (ks_next_request s))))"
    from unusable_attempt [OF http(2-4), of ml cl "se_idempotency_key env" body 0 s1] obtain x s' where
      "send_attempt lb ml cl (se_idempotency_key env) body e 0 (se_attempts env 0) s1 = (Inl (SendRaises x), s')" "ks_breaker s' = Some b1"
      by (auto simp: s1_def)
    then have "ks_breaker (snd (send_over_http lb ml cl e env (s\<lparr>ks_breaker := Some b1\<rparr>))) = Some b1"
      by (simp add: send_over_http_def Let_def m s1_def body_def)
    with b1 False http(1) show ?thesis by (simp add: send_def)
  qed
qed

subsection \<open>A sample client\<close>

definition sample_reply :: envelope where
  "sample_reply = sample_env\<lparr>payload_type := ''task.response'', correlation_id := Some ''i''\<rparr>"

definition sample_client_lib :: client_lib where
  "sample_client_lib =
     \<lparr>kl_codec = \<lparr>cl_gzip_compress = Inr, cl_gzip_decompress = Inr, cl_brotli = None\<rparr>, kl_loads = (\<lambda>t. Inl []),
      kl_dumps = (\<lambda>v. ''{}''), kl_dump_envelope = (\<lambda>e. PNone), kl_fields = (\<lambda>d. Inr sample_reply), kl_report = (\<lambda>x. PNone),
      kl_str = (\<lambda>v. []), kl_repr = (\<lambda>x. []), kl_date = (\<lambda>x. None)\<rparr>"

definition sample_client :: client where
  "sample_client =
     \<lparr>ct_base_url = ''https://h'', ct_timeout = 60, ct_max_retries = 3, ct_base_delay = 1, ct_max_delay = 60, ct_jitter = True,
      ct_compression = False, ct_compression_threshold = 1024, ct_lambda_codec = False, ct_auth_token = None,
      ct_version_header = ''2.2, 2.1'', ct_auto_register = False, ct_connected = True, ct_websocket = False,
      ct_disc = sample_disc_client\<rparr>"

definition sample_state :: "breaker option \<Rightarrow> string client_state" where
  "sample_state b =
     \<lparr>ks_breaker = b, ks_metrics = collector_init 0, ks_next_request = 1, ks_version = None, ks_challenge = None,
      ks_manifests = mc_init 300 10, ks_posts = [], ks_sleeps = []\<rparr>"

definition sample_attempt :: "http_outcome \<Rightarrow> string attempt" where
  "sample_attempt out =
     \<lparr>at_outcome = out, at_meanwhile = [], at_slept = [], at_draw = 1/2, at_now = 100, at_wall = 100, at_elapsed = 1,
      at_new_id = ''n'', at_parse_time = 0, at_prefetch = sample_fetch PNone\<rparr>"

definition sample_send_env :: "http_outcome \<Rightarrow> string send_env" where
  "sample_send_env out =
     \<lparr>se_clock = 100, se_idempotency_key = ''k'', se_attempts = (\<lambda>j. sample_attempt out), se_elapsed = 1, se_ws = WsTimeout []\<rparr>"

definition sample_answer :: "string + pyval \<Rightarrow> http_outcome" where
  "sample_answer v = Delivered \<lparr>rsp_status = 200, rsp_headers = [], rsp_text = [], rsp_excerpt = [], rsp_json = v\<rparr>"

definition good_answer :: http_outcome where
  "good_answer = sample_answer (Inr (PDict [(''result'', PDict [(''envelope'', PDict [(''id'', PStr ''r'')])])]))"

lemmas sample_client_defs = sample_client_lib_def sample_client_def sample_state_def sample_attempt_def sample_send_env_def sample_answer_def

lemma sample_reply_valid: "make_envelope n t sample_reply = Inr sample_reply"
  by (simp add: make_envelope_def sample_reply_def sample_env_def validate_response_correlation_def)

lemma sample_asks: "ask_breaker sample_client t (sample_state None) = (Inr (), sample_state None)"
  by (simp add: ask_breaker_def sample_state_def)

lemma sample_transient: "transient (se_attempts (sample_send_env (ConnectFailed ''refused'')) j)"
  by (simp add: transient_def sample_client_defs)

lemma send_loop_first:
  "fst (send_attempt lb ml cl key body e k (se_attempts env k) s) = Inr r \<Longrightarrow> fst (send_loop lb ml cl key body e env (Suc n) k x s) = Inr r"
  by (cases "send_attempt lb ml cl key body e k (se_attempts env k) s") simp

lemma sample_sent: "fst (send sample_client_lib sample_manifest_lib sample_client sample_env (sample_send_env good_answer) (sample_state None)) = Inr sample_reply"
proof -
  let ?a = "sample_attempt good_answer"
  have decoded: "response_envelope_of sample_client_lib ?a (PDict [(''result'', PDict [(''envelope'', PDict [(''id'', PStr ''r'')])])]) = Inr sample_reply"
    by (simp add: response_envelope_of_def envelope_from_dict_def parse_payload_from_dict_def sample_client_lib_def sample_reply_valid)
  have binds: "assert_correlation_binds rep (shown (env_id sample_env)) sample_reply = Inr ()" for rep
    unfolding assert_binds_iff by (simp add: bound_to_def sample_reply_def sample_env_def shown_def)
  have "fst (handle_send_response sample_client_lib sample_client ?a 0 sample_env
      \<lparr>rsp_status = 200, rsp_headers = [], rsp_text = [], rsp_excerpt = [],
       rsp_json = Inr (PDict [(''result'', PDict [(''envelope'', PDict [(''id'', PStr ''r'')])])])\<rparr> s) = Inr sample_reply" for s
    using decoded binds
    by (simp add: handle_send_response_def handle_success_response_def decode_send_response_def header_get_def LAMBDA_CONTENT_TYPE_def Let_def)
  then have first: "fst (send_attempt sample_client_lib sample_manifest_lib sample_client key body sample_env 0
      (se_attempts (sample_send_env good_answer) 0) s) = Inr sample_reply" for key body s
    by (simp add: send_attempt_def Let_def except_clauses_cases sample_attempt_def good_answer_def sample_answer_def sample_send_env_def)
  have tries: "nat (ct_max_retries sample_client) = Suc 2" by (simp add: sample_client_def)
  have "ct_connected sample_client" "\<not> ct_websocket sample_client" by (simp_all add: sample_client_def)
  then have "send sample_client_lib sample_manifest_lib sample_client sample_env (sample_send_env good_answer) (sample_state None) =
      send_over_http sample_client_lib sample_manifest_lib sample_client sample_env (sample_send_env good_answer) (sample_state None)"
    by (simp add: send_def sample_asks)
  then show ?thesis
    unfolding send_over_http_def Let_def tries by (simp only: send_loop_first [OF first])
qed

subsection \<open>Properties\<close>

text \<open>C20: sending has bounded effect on the network: whatever the server and other clients do, one call of \<open>send\<close> makes at most
  \<open>max_retries\<close> POST requests, and all of them are the same request, with the same idempotency key
  and the same (possibly compressed) body.\<close>

theorem retries_repeat_request:
  "\<exists>n. n \<le> nat (ct_max_retries cl) \<and> ks_posts (snd (send lb ml cl e env s)) = ks_posts s @ replicate n
     (let body = compress_request_body lb cl (kl_dumps lb (json_rpc_request lb e (se_idempotency_key env) (''req-'' @ str_int (ks_next_request s))))
      in (build_send_headers lb cl (se_idempotency_key env) (snd body), fst body))"
proof (cases "ask_breaker cl (se_clock env) s")
  case (Pair res s1)
  have none: "ks_posts (snd (send lb ml cl e env s)) = ks_posts s" if "\<not> (\<not> ct_websocket cl \<and> ct_connected cl \<and> (\<exists>u. res = Inr u))"
    using that Pair ask_breaker_frame(1) [OF Pair] by (auto simp: send_def send_websocket_def split: sum.splits)
  show ?thesis
  proof (cases "\<not> ct_websocket cl \<and> ct_connected cl \<and> (\<exists>u. res = Inr u)")
    case True
    let ?body = "compress_request_body lb cl (kl_dumps lb (json_rpc_request lb e (se_idempotency_key env) (''req-'' @ str_int (ks_next_request s))))"
    let ?loop = "send_loop lb ml cl (se_idempotency_key env) ?body e env (nat (ct_max_retries cl)) 0 None (s1\<lparr>ks_next_request := ks_next_request s + 1\<rparr>)"
    from True Pair have run: "send lb ml cl e env s = ?loop"
      using ask_breaker_frame(4) [OF Pair] by (auto simp: send_def send_over_http_def Let_def)
    show ?thesis
    proof (cases "0 \<le> ct_max_retries cl")
      case True
      then have "int 0 + int (nat (ct_max_retries cl)) = ct_max_retries cl" by simp
      from send_loop_posts [OF this, of lb ml "se_idempotency_key env" ?body e env None "s1\<lparr>ks_next_request := ks_next_request s + 1\<rparr>"]
      show ?thesis using ask_breaker_frame(1) [OF Pair] unfolding run Let_def by auto
    next
      case False
      then have "nat (ct_max_retries cl) = 0" by simp
      then show ?thesis using ask_breaker_frame(1) [OF Pair] by (simp add: run)
    qed
  next
    case False
    from none [OF False] show ?thesis by (intro exI [of _ 0]) simp
  qed
qed

text \<open>C19: over HTTP (the client has no WebSocket), an envelope that \<open>send\<close> returns is the one the last of its POSTs brought: that POST was answered
  with a status below 400 (which includes redirections, which are not followed), its body decodes to an object without \<open>error\<close>, and the
  envelope in the result of that very body is what is returned. When the payload type of the envelope is one of the three of responses
  (a task response, a tool result, resource data), its correlation identifier is the identifier of the envelope that was sent;
  an envelope of another type is returned without this check.\<close>

theorem response_answers_request:
  assumes "send lb ml cl e env s = (Inr resp, s')" "\<not> ct_websocket cl"
  shows "(\<exists>j r v. j < nat (ct_max_retries cl) \<and> length (ks_posts s') = length (ks_posts s) + j + 1 \<and>
      at_outcome (se_attempts env j) = Delivered r \<and> rsp_status r < 400 \<and> decode_send_response lb r = Inr v \<and>
      py_contains ''error'' v = Some False \<and> response_envelope_of lb (se_attempts env j) v = Inr resp) \<and>
    (normalize_payload_type (payload_type resp) \<in> {''taskresponse'', ''mcptoolresult'', ''mcpresourcedata''} \<longrightarrow>
      correlation_id resp = Some (shown (env_id e)))"
proof -
  from assms obtain s1 where asked: "ask_breaker cl (se_clock env) s = (Inr (), s1)" and run: "send_over_http lb ml cl e env s1 = (Inr resp, s')"
    by (auto simp: send_def split: if_splits prod.splits sum.splits)
  from send_loop_Inr [OF run [unfolded send_over_http_def Let_def]] ask_breaker_frame(1) [OF asked] show ?thesis
    by (auto simp: bound_to_def carries_def RESPONSE_PAYLOAD_KEYS_def)
qed

theorem response_answers_request_witness:
  "fst (send sample_client_lib sample_manifest_lib sample_client sample_env (sample_send_env good_answer) (sample_state None)) = Inr sample_reply \<and>
   correlation_id sample_reply = Some (shown (env_id sample_env))"
proof -
  have "normalize_payload_type (payload_type sample_reply) \<in> {''taskresponse'', ''mcptoolresult'', ''mcpresourcedata''}"
    by code_simp
  moreover have "\<not> ct_websocket sample_client" by (simp add: sample_client_def)
  ultimately have "correlation_id sample_reply = Some (shown (env_id sample_env))"
    using response_answers_request [OF prod.collapse [symmetric, of "send sample_client_lib sample_manifest_lib sample_client sample_env
      (sample_send_env good_answer) (sample_state None)", unfolded sample_sent]] by blast
  then show ?thesis by (simp add: sample_sent)
qed

text \<open>When every attempt fails with a connection error, a time-out or a server error, and nobody else uses the breaker meanwhile, \<open>send\<close>
  raises after exactly \<open>max_retries\<close> requests; before each but the first it slept the backoff of the attempt before; and it
  reported exactly one failure to the breaker, however many attempts it made.\<close>

theorem exhausted_retries:
  assumes "\<not> ct_websocket cl" "ct_connected cl" "ask_breaker cl (se_clock env) s = (Inr (), s1)" "0 < ct_max_retries cl"
    and "\<forall>j < nat (ct_max_retries cl). transient (se_attempts env j)"
  defines "n \<equiv> nat (ct_max_retries cl)"
  shows "(\<exists>x. fst (send lb ml cl e env s) = Inl x) \<and>
    length (ks_posts (snd (send lb ml cl e env s))) = length (ks_posts s) + n \<and>
    ks_sleeps (snd (send lb ml cl e env s)) =
      ks_sleeps s @ map (\<lambda>j. calculate_backoff cl (at_draw (se_attempts env j)) j) [0..<n - 1] \<and>
    ks_breaker (snd (send lb ml cl e env s)) = map_option (record_failure (at_now (se_attempts env (n - 1)))) (ks_breaker s1)"
proof -
  have "send lb ml cl e env s = send_over_http lb ml cl e env s1" using assms(1-3) by (simp add: send_def)
  with send_over_http_transient [OF assms(5,4), of s1 lb ml e] ask_breaker_frame [OF assms(3)] assms(4) show ?thesis
    by (auto simp: exhausts_def n_def)
qed

theorem exhausted_retries_witness:
  "length (ks_posts (snd (send sample_client_lib sample_manifest_lib sample_client sample_env
     (sample_send_env (ConnectFailed ''refused'')) (sample_state None)))) = 3"
proof -
  have "\<not> ct_websocket sample_client" "ct_connected sample_client" "0 < ct_max_retries sample_client"
    by (simp_all add: sample_client_def)
  from exhausted_retries [OF this(1,2) sample_asks this(3), of "sample_send_env (ConnectFailed ''refused'')" sample_client_lib sample_manifest_lib sample_env]
    sample_transient
  show ?thesis by (simp add: sample_client_def sample_state_def sample_send_env_def)
qed

text \<open>The waiting between the attempts is bounded: with delays that are not negative and the draws of the random generator in the unit interval,
  all backoff sleeps of such a call together take at most \<open>max_retries - 1\<close> times the maximal delay plus ten per cent.\<close>

theorem backoff_total_bounded:
  assumes "0 \<le> ct_base_delay cl" "0 \<le> ct_max_delay cl" "\<forall>j. 0 \<le> at_draw (se_attempts env j) \<and> at_draw (se_attempts env j) \<le> 1"
    and "\<not> ct_websocket cl" "ct_connected cl" "ask_breaker cl (se_clock env) s = (Inr (), s1)" "0 < ct_max_retries cl"
    and "\<forall>j < nat (ct_max_retries cl). transient (se_attempts env j)"
  shows "\<exists>ds. ks_sleeps (snd (send lb ml cl e env s)) = ks_sleeps s @ ds \<and> (\<forall>d \<in> set ds. 0 \<le> d \<and> d \<le> 11/10 * ct_max_delay cl) \<and>
    sum_list ds \<le> of_int (ct_max_retries cl - 1) * (11/10 * ct_max_delay cl)"
proof -
  let ?n = "nat (ct_max_retries cl) - 1" and ?d = "\<lambda>j. calculate_backoff cl (at_draw (se_attempts env j)) j"
  have "send lb ml cl e env s = send_over_http lb ml cl e env s1" using assms(4-6) by (simp add: send_def)
  with send_over_http_transient [OF assms(8,7), of s1 lb ml e] ask_breaker_frame [OF assms(6)]
  have sleeps: "ks_sleeps (snd (send lb ml cl e env s)) = ks_sleeps s @ map ?d [0..<?n]" by (simp add: exhausts_def)
  have each: "0 \<le> ?d j \<and> ?d j \<le> 11/10 * ct_max_delay cl" for j
    using calculate_backoff_bounds assms(1-3) by blast
  have "sum_list (map ?d [0..<?n]) \<le> sum_list (map (\<lambda>j. 11/10 * ct_max_delay cl) [0..<?n])"
    by (rule sum_list_mono) (use each in blast)
  also have "\<dots> = of_int (ct_max_retries cl - 1) * (11/10 * ct_max_delay cl)"
    using assms(7) by (simp add: sum_list_triv of_nat_diff)
  finally show ?thesis using sleeps each by (intro exI [of _ "map ?d [0..<?n]"]) auto
qed

theorem backoff_total_bounded_witness:
  "\<exists>ds. ks_sleeps (snd (send sample_client_lib sample_manifest_lib sample_client sample_env
     (sample_send_env (ConnectFailed ''refused'')) (sample_state None))) = ds \<and> sum_list ds \<le> 132"
proof -
  have "\<not> ct_websocket sample_client" "ct_connected sample_client" "0 < ct_max_retries sample_client"
    "0 \<le> ct_base_delay sample_client" "0 \<le> ct_max_delay sample_client"
    "\<forall>j. 0 \<le> at_draw (se_attempts (sample_send_env (ConnectFailed ''refused'')) j) \<and> at_draw (se_attempts (sample_send_env (ConnectFailed ''refused'')) j) \<le> 1"
    by (simp_all add: sample_client_defs)
  from backoff_total_bounded [OF this(4,5,6,1,2) sample_asks this(3), of sample_client_lib sample_manifest_lib sample_env] sample_transient
  show ?thesis by (simp add: sample_client_def sample_state_def)
qed

text \<open>A half open breaker can be left so for good. When the trial request it let through is answered with something the client cannot
  use (no JSON, no envelope, or an envelope for another request), or when the client talks over a WebSocket, \<open>send\<close> reports
  neither success nor failure; from then on every call is refused and changes nothing, whatever the time and the state of the server.\<close>

theorem half_open_trial_lost:
  assumes "ks_breaker s = Some b" "cb_state b = OPEN" "last_failure_time b = Some t" "timeout b \<le> se_clock env - t"
    and "ct_websocket cl \<or> (ct_connected cl \<and> 0 < ct_max_retries cl \<and> at_outcome (se_attempts env 0) = Delivered r \<and>
      at_meanwhile (se_attempts env 0) = [] \<and> unusable lb e (se_attempts env 0) r)"
  shows "\<exists>b1 :: breaker. cb_state b1 = HALF_OPEN \<and> (\<forall>e2 env2. send lb ml cl e2 env2 (snd (send lb ml cl e env s)) =
    (Inl (raised (circuit_open_error (sanitized cl) (consecutive_failures b1) None None)), snd (send lb ml cl e env s)))"
proof -
  from unreported_trial [OF assms] obtain b1 where b1: "ks_breaker (snd (send lb ml cl e env s)) = Some b1"
    "cb_state b1 = HALF_OPEN" "\<not> half_open_permit b1" by blast
  from assms(5) have "ct_connected cl \<or> ct_websocket cl" by auto
  from send_refused [OF b1 this] b1(2) show ?thesis by blast
qed

theorem half_open_trial_lost_witness:
  "\<exists>b1 :: breaker. cb_state b1 = HALF_OPEN \<and> (\<forall>e2 env2.
    send sample_client_lib sample_manifest_lib sample_client e2 env2 (snd (send sample_client_lib sample_manifest_lib sample_client sample_env
      (sample_send_env (sample_answer (Inl ''no JSON''))) (sample_state (Some ((cb_init 5 60)\<lparr>cb_state := OPEN, last_failure_time := Some 0\<rparr>))))) =
    (Inl (raised (circuit_open_error (sanitized sample_client) (consecutive_failures b1) None None)),
     snd (send sample_client_lib sample_manifest_lib sample_client sample_env
      (sample_send_env (sample_answer (Inl ''no JSON''))) (sample_state (Some ((cb_init 5 60)\<lparr>cb_state := OPEN, last_failure_time := Some 0\<rparr>))))))"
proof (rule half_open_trial_lost [where t = 0 and b = "(cb_init 5 60)\<lparr>cb_state := OPEN, last_failure_time := Some 0\<rparr>"
    and r = "\<lparr>rsp_status = 200, rsp_headers = [], rsp_text = [], rsp_excerpt = [], rsp_json = Inl ''no JSON''\<rparr>"])
  show "ct_websocket sample_client \<or> ct_connected sample_client \<and> 0 < ct_max_retries sample_client \<and>
    at_outcome (se_attempts (sample_send_env (sample_answer (Inl ''no JSON''))) 0) =
      Delivered \<lparr>rsp_status = 200, rsp_headers = [], rsp_text = [], rsp_excerpt = [], rsp_json = Inl ''no JSON''\<rparr> \<and>
    at_meanwhile (se_attempts (sample_send_env (sample_answer (Inl ''no JSON''))) 0) = [] \<and>
    unusable sample_client_lib sample_env (se_attempts (sample_send_env (sample_answer (Inl ''no JSON''))) 0)
      \<lparr>rsp_status = 200, rsp_headers = [], rsp_text = [], rsp_excerpt = [], rsp_json = Inl ''no JSON''\<rparr>"
    by (simp add: sample_client_defs unusable_def decode_send_response_def header_get_def LAMBDA_CONTENT_TYPE_def)
qed (simp_all add: sample_client_defs cb_init_def)

text \<open>The counters for failed sends do not see the failures that matter most: a call whose attempts all fail with connection errors, time-outs or server
  errors changes no counter but the one for retries.\<close>

lemma increments_other_counters:
  "n \<noteq> m \<Longrightarrow> map_of (counters ((increment_counter m l v ^^ k) c)) n = map_of (counters c) n"
  by (induction k) (auto simp: increment_counter_def dict_simps split: option.splits)

lemma exhausted_sends_not_counted:
  assumes "\<not> ct_websocket cl" "ct_connected cl" "ask_breaker cl (se_clock env) s = (Inr (), s1)" "0 < ct_max_retries cl"
    and "\<forall>j < nat (ct_max_retries cl). transient (se_attempts env j)" "n \<noteq> ''asap_transport_retries_total''"
  shows "map_of (counters (ks_metrics (snd (send lb ml cl e env s)))) n = map_of (counters (ks_metrics s)) n"
proof -
  have "send lb ml cl e env s = send_over_http lb ml cl e env s1" using assms(1-3) by (simp add: send_def)
  with send_over_http_transient [OF assms(5,4), of s1 lb ml e] ask_breaker_frame [OF assms(3)]
  show ?thesis by (simp add: exhausts_def increments_other_counters [OF assms(6)])
qed

end
