(* ===== verification/Oauth2.thy ===== *)
theory Oauth2
  imports Agent_Jwt Capabilities Http_Base
begin

text \<open>
  OAuth2 access tokens: the validator with its cache of the provider's keys (\<open>src/asap/auth/jwks.py\<close>), the
  middleware that guards the routes (\<open>src/asap/auth/middleware.py\<close>), the scope claim
  (\<open>src/asap/auth/_scope_parse.py\<close>) and the dependency that demands a scope (\<open>src/asap/auth/scopes.py\<close>).

  Parameters: \<open>oauth_lib\<close> holds the signature check and the claims registry of \<open>joserfc\<close>, \<open>json.loads\<close> and the text \<open>str\<close>
  gives for a value that is no string; a \<open>key_fetch\<close> says what a call that may fetch keys meets: the clock when it reads
  and when it writes the cache, what the provider answers and when, and what other tasks do to the cache before
  each of the two sections under the lock.
\<close>

subsection \<open>The scope claim\<close>

text \<open>\<open>s.split()\<close>: the maximal runs without white space.\<close>

function py_words :: "string \<Rightarrow> string list" where
  "py_words s =
     (let t = dropWhile py_space s
      in if t = [] then []
         else takeWhile (\<lambda>c. \<not> py_space c) t # py_words (dropWhile (\<lambda>c. \<not> py_space c) t))"
  by pat_completeness auto

termination
proof (relation "measure length", simp)
  fix s t :: string
  assume "t = dropWhile py_space s" "t \<noteq> []"
  then obtain x u where t: "t = x # u" "\<not> py_space x" "dropWhile py_space s = x # u"
    by (cases t) (metis dropWhile_eq_Cons_conv)+
  have "length (dropWhile (\<lambda>c. \<not> py_space c) u) \<le> length u" "length (x # u) \<le> length s"
    using length_dropWhile_le [of "\<lambda>c. \<not> py_space c" u] length_dropWhile_le [of py_space s] t(3) by auto
  then show "(dropWhile (\<lambda>c. \<not> py_space c) t, s) \<in> measure length" using t by simp
qed

declare py_words.simps [simp del]

definition parse_scope :: "(pyval \<Rightarrow> string) \<Rightarrow> pyval \<Rightarrow> string list" where
  "parse_scope txt claim =
     (case claim of
        PList l \<Rightarrow> map (py_str txt) l
      | PStr s \<Rightarrow> filter (\<lambda>w. w \<noteq> []) (map strip (py_words s))
      | _ \<Rightarrow> [])"

subsection \<open>The validator\<close>

definition JWKS_CACHE_TTL_SECONDS :: rat where
  "JWKS_CACHE_TTL_SECONDS = 86400"

text \<open>What validation can raise: an \<open>httpx.HTTPError\<close>, a \<open>JoseError\<close>, or something the middleware does not catch.\<close>

datatype oauth_exn = HttpFailure string | JoseError string | OtherFailure string

record 'k oauth_lib =
  ol_decode :: "string \<Rightarrow> 'k \<Rightarrow> string + pydict"
  ol_registry :: "pydict \<Rightarrow> string option"
  ol_loads :: "string \<Rightarrow> pyval option"
  ol_str :: "pyval \<Rightarrow> string"

definition issuer_matches_expected :: "pydict \<Rightarrow> string \<Rightarrow> bool" where
  "issuer_matches_expected claims expected_issuer =
     (case get_claim claims ''iss'' of
        PStr iss \<Rightarrow> strip iss \<noteq> [] \<and> rstrip_slash iss = rstrip_slash expected_issuer
      | _ \<Rightarrow> False)"

definition validate_jwt ::
  "'k oauth_lib \<Rightarrow> string option \<Rightarrow> audience option \<Rightarrow> bool \<Rightarrow> string \<Rightarrow> 'k \<Rightarrow> oauth_exn + pydict" where
  "validate_jwt lb expected_issuer expected_audience require_exp token key_set =
     (case ol_decode lb token key_set of
        Inl e \<Rightarrow> Inl (JoseError e)
      | Inr claims \<Rightarrow>
          if require_exp \<and> map_of claims ''exp'' = None then Inl (JoseError ''missing_claim: exp'')
          else if require_exp \<and> ol_registry lb claims \<noteq> None then Inl (JoseError (the (ol_registry lb claims)))
          else if (case expected_issuer of None \<Rightarrow> False | Some i \<Rightarrow> \<not> issuer_matches_expected claims i)
          then Inl (JoseError ''invalid_claim: iss'')
          else if (case expected_audience of None \<Rightarrow> False | Some a \<Rightarrow> \<not> audience_matches_expected claims a)
          then Inl (JoseError ''invalid_claim: aud'')
          else Inr claims)"

type_synonym 'k key_cache = "('k \<times> rat) option"

record jwks_validator =
  jw_uri :: string
  jw_expected_issuer :: "string option"
  jw_expected_audience :: "audience option"
  jw_require_exp :: bool

record 'k key_fetch =
  kf_before :: "'k key_cache \<Rightarrow> 'k key_cache"
  kf_read_now :: rat
  kf_result :: "string \<Rightarrow> oauth_exn + 'k"
  kf_served_now :: rat
  kf_between :: "'k key_cache \<Rightarrow> 'k key_cache"
  kf_store_now :: rat

definition store_keys :: "'k key_fetch \<Rightarrow> string \<Rightarrow> 'k key_cache \<Rightarrow> ('k key_cache, oauth_exn, 'k) outcome" where
  "store_keys f uri c =
     (case kf_result f uri of
        Inl x \<Rightarrow> (Inl x, kf_between f c)
      | Inr key_set \<Rightarrow> (Inr key_set, Some (key_set, kf_store_now f + JWKS_CACHE_TTL_SECONDS)))"

definition fetch_keys ::
  "jwks_validator \<Rightarrow> string option \<Rightarrow> 'k key_fetch \<Rightarrow> 'k key_cache \<Rightarrow> ('k key_cache, oauth_exn, 'k) outcome" where
  "fetch_keys v jwks_uri f c0 =
     (let uri = (case jwks_uri of Some u \<Rightarrow> if u = [] then jw_uri v else u | None \<Rightarrow> jw_uri v);
          c = kf_before f c0
      in case c of
           Some (key_set, expires_at) \<Rightarrow>
             if kf_read_now f < expires_at \<and> uri = jw_uri v then (Inr key_set, c) else store_keys f uri c
         | None \<Rightarrow> store_keys f uri c)"

definition invalidate_keys_cache :: "'k key_cache \<Rightarrow> 'k key_cache" where
  "invalidate_keys_cache c = None"

definition validate_with :: "'k oauth_lib \<Rightarrow> jwks_validator \<Rightarrow> string \<Rightarrow> 'k \<Rightarrow> oauth_exn + pydict" where
  "validate_with lb v token key_set =
     validate_jwt lb (jw_expected_issuer v) (jw_expected_audience v) (jw_require_exp v) token key_set"

text \<open>Both callers refetch once when the token does not validate.\<close>

definition validate_refetching ::
  "'k oauth_lib \<Rightarrow> jwks_validator \<Rightarrow> string \<Rightarrow> 'k key_fetch \<Rightarrow> 'k key_fetch \<Rightarrow> string \<Rightarrow> 'k key_cache \<Rightarrow>
   ('k key_cache, oauth_exn, pydict) outcome" where
  "validate_refetching lb v uri f1 f2 token c =
     bind_out (fetch_keys v (Some uri) f1 c) (\<lambda>key_set c1.
       case validate_with lb v token key_set of
         Inl (JoseError e) \<Rightarrow>
           bind_out (fetch_keys v (Some uri) f2 (invalidate_keys_cache c1)) (\<lambda>key_set c2. (validate_with lb v token key_set, c2))
       | r \<Rightarrow> (r, c1))"

definition validate_token ::
  "'k oauth_lib \<Rightarrow> jwks_validator \<Rightarrow> 'k key_fetch \<Rightarrow> 'k key_fetch \<Rightarrow> string \<Rightarrow> 'k key_cache \<Rightarrow> ('k key_cache, oauth_exn, pydict) outcome" where
  "validate_token lb v f1 f2 token c = validate_refetching lb v (jw_uri v) f1 f2 token c"

subsection \<open>Configuration of the middleware\<close>

definition DEFAULT_CUSTOM_CLAIM :: string where
  "DEFAULT_CUSTOM_CLAIM = ''https://github.com/adriannoes/asap-protocol/agent_id''"

definition AGENT_IDENTITY_ROUTE_PREFIX :: string where
  "AGENT_IDENTITY_ROUTE_PREFIX = ''/asap/agent/''"

definition OPERATOR_API_PATH_PREFIXES :: "string list" where
  "OPERATOR_API_PATH_PREFIXES = [''/usage'', ''/sla'', ''/audit'']"

definition ERROR_INSUFFICIENT_SCOPE :: string where
  "ERROR_INSUFFICIENT_SCOPE = ''Insufficient scope''"

definition ERROR_IDENTITY_MISMATCH :: string where
  "ERROR_IDENTITY_MISMATCH = ''Identity mismatch: custom claim does not match agent manifest''"

text \<open>The environment variables are a function; only strings and lists of the subject map are kept.\<close>

definition parse_subject_map :: "'k oauth_lib \<Rightarrow> (string \<Rightarrow> string option) \<Rightarrow> pydict" where
  "parse_subject_map lb environ =
     (case environ ''ASAP_AUTH_SUBJECT_MAP'' of
        None \<Rightarrow> []
      | Some raw \<Rightarrow>
          if strip raw = [] then []
          else (case ol_loads lb raw of
                  Some (PDict d) \<Rightarrow> filter (\<lambda>(k, v). case v of PStr s \<Rightarrow> True | PList l \<Rightarrow> True | _ \<Rightarrow> False) d
                | _ \<Rightarrow> []))"

definition parse_expected_audience_from_env :: "string option \<Rightarrow> audience option" where
  "parse_expected_audience_from_env raw =
     (case raw of
        None \<Rightarrow> None
      | Some r \<Rightarrow>
          if strip r = [] then None
          else (case filter (\<lambda>p. p \<noteq> []) (map strip (split_char (CHR '','') r)) of
                  [] \<Rightarrow> None
                | [p] \<Rightarrow> Some (OneAud p)
                | ps \<Rightarrow> Some (AudList ps)))"

record oauth2_middleware =
  om_jwks_uri :: string
  om_required_scope :: "string option"
  om_path_prefix :: "string option"
  om_extra_path_prefixes :: "string list"
  om_manifest_id :: "string option"
  om_custom_claim_key :: string
  om_subject_map :: pydict
  om_validator :: jwks_validator

fun or_else :: "string option \<Rightarrow> string option \<Rightarrow> string option" where
  "or_else (Some s) d = (if s = [] then d else Some s)"
| "or_else None d = d"

fun audience_or :: "audience option \<Rightarrow> audience option \<Rightarrow> audience option" where
  "audience_or (Some (OneAud s)) d = (if s = [] then d else Some (OneAud s))"
| "audience_or (Some (AudList l)) d = (if l = [] then d else Some (AudList l))"
| "audience_or None d = d"

definition oauth2_init ::
  "'k oauth_lib \<Rightarrow> (string \<Rightarrow> string option) \<Rightarrow> string \<Rightarrow> string option \<Rightarrow> string option \<Rightarrow> string list \<Rightarrow> string option \<Rightarrow>
   string option \<Rightarrow> string option \<Rightarrow> audience option \<Rightarrow> jwks_validator option \<Rightarrow> oauth2_middleware" where
  "oauth2_init lb environ jwks_uri required_scope path_prefix extra manifest_id custom_claim expected_issuer expected_audience validator =
     \<lparr>om_jwks_uri = jwks_uri, om_required_scope = required_scope, om_path_prefix = path_prefix,
      om_extra_path_prefixes = extra, om_manifest_id = manifest_id,
      om_custom_claim_key = (case or_else custom_claim (environ ''ASAP_AUTH_CUSTOM_CLAIM'') of Some k \<Rightarrow> k | None \<Rightarrow> DEFAULT_CUSTOM_CLAIM),
      om_subject_map = parse_subject_map lb environ,
      om_validator =
        (case validator of
           Some v \<Rightarrow> v
         | None \<Rightarrow> \<lparr>jw_uri = jwks_uri, jw_expected_issuer = or_else expected_issuer (environ ''ASAP_AUTH_ISSUER''),
                    jw_expected_audience = audience_or expected_audience (parse_expected_audience_from_env (environ ''ASAP_AUTH_AUDIENCE'')),
                    jw_require_exp = False\<rparr>)\<rparr>"

subsection \<open>The middleware\<close>

record oauth2_claims =
  oc_sub :: string
  oc_scope :: "string list"
  oc_exp :: int

definition get_bearer_token :: "string option \<Rightarrow> string option" where
  "get_bearer_token auth =
     (case auth of
        None \<Rightarrow> None
      | Some a \<Rightarrow>
          if \<not> starts_with a ''Bearer '' then None
          else (let t = strip (drop 7 a) in if t = [] then None else Some t))"

definition path_under_prefix :: "string \<Rightarrow> string \<Rightarrow> bool" where
  "path_under_prefix path prefix =
     (let normalized = (if rstrip_slash prefix = [] then ''/'' else rstrip_slash prefix)
      in if normalized = ''/'' then True else path = normalized \<or> starts_with path (normalized @ ''/''))"

definition should_validate :: "oauth2_middleware \<Rightarrow> string \<Rightarrow> bool" where
  "should_validate m path =
     (if starts_with path AGENT_IDENTITY_ROUTE_PREFIX then False
      else case om_path_prefix m of
             None \<Rightarrow> True
           | Some p \<Rightarrow> path_under_prefix path p \<or> list_ex (path_under_prefix path) (om_extra_path_prefixes m))"

definition enforces_global_scope :: "oauth2_middleware \<Rightarrow> string \<Rightarrow> bool" where
  "enforces_global_scope m path = (case om_path_prefix m of None \<Rightarrow> True | Some p \<Rightarrow> path_under_prefix path p)"

definition validate_scope :: "oauth2_middleware \<Rightarrow> string list \<Rightarrow> bool" where
  "validate_scope m scope_list = (case om_required_scope m of None \<Rightarrow> True | Some r \<Rightarrow> r \<in> set scope_list)"

text \<open>The detail of a refusal goes to the log only; the answer is whether the binding holds.\<close>

definition validate_identity_binding :: "'k oauth_lib \<Rightarrow> oauth2_middleware \<Rightarrow> pydict \<Rightarrow> string \<Rightarrow> bool" where
  "validate_identity_binding lb m claims sub =
     (case om_manifest_id m of
        None \<Rightarrow> True
      | Some mid \<Rightarrow>
          (let v = get_claim claims (om_custom_claim_key m)
           in if v \<noteq> PNone then strip (py_str (ol_str lb) v) = mid
              else (case map_of (om_subject_map m) mid of
                      Some (PStr s) \<Rightarrow> s = sub
                    | Some (PList l) \<Rightarrow> PStr sub \<in> set l
                    | _ \<Rightarrow> False)))"

text \<open>The expiry of a token. A value that is no number is refused like one \<open>int\<close> rejects; the \<open>OverflowError\<close> of an
  infinite number is not caught.\<close>

definition token_exp :: "pydict \<Rightarrow> py_exn + int option" where
  "token_exp claims =
     (case get_claim claims ''exp'' of
        PNone \<Rightarrow> Inr None
      | PStr s \<Rightarrow> Inl TypeError
      | v \<Rightarrow> map_sum id Some (py_int v))"

text \<open>What happens to a request: it is refused with a status and a detail, or the next
  application runs with these claims in the request state.\<close>

datatype gate = Refuse int string | Continue "oauth2_claims option"

definition accept_claims :: "'k oauth_lib \<Rightarrow> oauth2_middleware \<Rightarrow> bool \<Rightarrow> rat \<Rightarrow> pydict \<Rightarrow> string + gate" where
  "accept_claims lb m enforce_required_scope now claims =
     (case token_exp claims of
        Inl OverflowError \<Rightarrow> Inl ''OverflowError''
      | Inl x \<Rightarrow> Inr (Refuse HTTP_UNAUTHORIZED ERROR_INVALID_TOKEN)
      | Inr e \<Rightarrow>
          Inr (if (case e of None \<Rightarrow> False | Some t \<Rightarrow> of_int t < now) then Refuse HTTP_UNAUTHORIZED ERROR_INVALID_TOKEN
               else (case get_claim claims ''sub'' of
                  PStr sub \<Rightarrow>
                    if sub = [] then Refuse HTTP_UNAUTHORIZED ERROR_INVALID_TOKEN
                    else (let scope_list = parse_scope (ol_str lb) (get_claim claims ''scope'')
                          in if enforce_required_scope \<and> \<not> validate_scope m scope_list
                             then Refuse HTTP_FORBIDDEN ERROR_INSUFFICIENT_SCOPE
                             else if \<not> validate_identity_binding lb m claims sub
                             then Refuse HTTP_FORBIDDEN
                                    (case om_manifest_id m of
                                       Some mid \<Rightarrow> if mid = [] then ERROR_IDENTITY_MISMATCH
                                                   else ERROR_IDENTITY_MISMATCH @ '' (expected: '' @ mid @ '')''
                                     | None \<Rightarrow> ERROR_IDENTITY_MISMATCH)
                             else Continue (Some \<lparr>oc_sub = sub, oc_scope = scope_list, oc_exp = (case e of None \<Rightarrow> 0 | Some t \<Rightarrow> t)\<rparr>))
                | _ \<Rightarrow> Refuse HTTP_UNAUTHORIZED ERROR_INVALID_TOKEN)))"

text \<open>\<open>Inl\<close> is an exception the middleware does not catch.\<close>

definition validate_bearer_token ::
  "'k oauth_lib \<Rightarrow> oauth2_middleware \<Rightarrow> bool \<Rightarrow> rat \<Rightarrow> 'k key_fetch \<Rightarrow> 'k key_fetch \<Rightarrow> string \<Rightarrow> 'k key_cache \<Rightarrow>
   ('k key_cache, string, gate) outcome" where
  "validate_bearer_token lb m enforce_required_scope now f1 f2 token c =
     (case validate_refetching lb (om_validator m) (om_jwks_uri m) f1 f2 token c of
        (Inl (HttpFailure e), c1) \<Rightarrow> (Inr (Refuse 503 ''Authentication service unavailable''), c1)
      | (Inl (JoseError e), c1) \<Rightarrow> (Inr (Refuse HTTP_UNAUTHORIZED ERROR_INVALID_TOKEN), c1)
      | (Inl (OtherFailure e), c1) \<Rightarrow> (Inl e, c1)
      | (Inr claims, c1) \<Rightarrow> (accept_claims lb m enforce_required_scope now claims, c1))"

definition oauth2_dispatch ::
  "'k oauth_lib \<Rightarrow> oauth2_middleware \<Rightarrow> string \<Rightarrow> string option \<Rightarrow> rat \<Rightarrow> 'k key_fetch \<Rightarrow> 'k key_fetch \<Rightarrow> 'k key_cache \<Rightarrow>
   ('k key_cache, string, gate) outcome" where
  "oauth2_dispatch lb m path auth now f1 f2 c =
     (if \<not> should_validate m path then (Inr (Continue None), c)
      else case get_bearer_token auth of
             None \<Rightarrow> (Inr (Refuse HTTP_UNAUTHORIZED ERROR_AUTH_REQUIRED), c)
           | Some token \<Rightarrow> validate_bearer_token lb m (enforces_global_scope m path) now f1 f2 token c)"

subsection \<open>Required scopes\<close>


definition require_scope :: "string \<Rightarrow> oauth2_claims option \<Rightarrow> exn + oauth2_claims" where
  "require_scope scope claims =
     (case claims of
        None \<Rightarrow> Inl (HttpExn HTTP_UNAUTHORIZED ERROR_AUTH_REQUIRED)
      | Some cl \<Rightarrow> if scope \<notin> set (oc_scope cl) then Inl (HttpExn HTTP_FORBIDDEN ERROR_INSUFFICIENT_SCOPE) else Inr cl)"

subsection \<open>Freshness of the keys\<close>

text \<open>\<open>served t ks\<close>: the provider answered with \<open>ks\<close> for the validator's own address at time \<open>t\<close>; \<open>delay\<close> bounds the time from such an answer to
  the writing of the cache. A cache is fresh when its entry expires at most the delay and a day after such an answer.\<close>

definition cache_fresh :: "(rat \<Rightarrow> 'k \<Rightarrow> bool) \<Rightarrow> rat \<Rightarrow> 'k key_cache \<Rightarrow> bool" where
  "cache_fresh served delay c =
     (case c of None \<Rightarrow> True | Some (ks, e) \<Rightarrow> \<exists>t. served t ks \<and> e \<le> t + delay + JWKS_CACHE_TTL_SECONDS)"

text \<open>What a call meets is as the code relies on: the other tasks keep the cache fresh, and what is fetched was served before it is stored.\<close>

definition fetch_wf :: "(rat \<Rightarrow> 'k \<Rightarrow> bool) \<Rightarrow> rat \<Rightarrow> jwks_validator \<Rightarrow> 'k key_fetch \<Rightarrow> bool" where
  "fetch_wf served delay v f \<longleftrightarrow>
     (\<forall>c. cache_fresh served delay c \<longrightarrow> cache_fresh served delay (kf_before f c) \<and> cache_fresh served delay (kf_between f c)) \<and>
     kf_store_now f \<le> kf_served_now f + delay \<and>
     (\<forall>ks. kf_result f (jw_uri v) = Inr ks \<longrightarrow> served (kf_served_now f) ks)"

text \<open>Keys the provider served in this very call, or less than the delay and a day before the call read the cache.\<close>

definition recent :: "(rat \<Rightarrow> 'k \<Rightarrow> bool) \<Rightarrow> rat \<Rightarrow> 'k key_fetch \<Rightarrow> 'k \<Rightarrow> bool" where
  "recent served delay f ks \<longleftrightarrow>
     (\<exists>t. served t ks \<and> (t = kf_served_now f \<or> kf_read_now f < t + delay + JWKS_CACHE_TTL_SECONDS))"

lemma store_keys_fresh:
  assumes "store_keys f (jw_uri v) c = (res, c')" "cache_fresh served delay c" "fetch_wf served delay v f"
  shows "cache_fresh served delay c'" "res = Inr ks \<Longrightarrow> recent served delay f ks"
proof -
  have others: "cache_fresh served delay (kf_between f c)" and answer: "kf_result f (jw_uri v) = Inr k \<Longrightarrow> served (kf_served_now f) k"
    and stored: "kf_store_now f \<le> kf_served_now f + delay" for k
    using assms(2,3) by (auto simp: fetch_wf_def)
  have fresh: "cache_fresh served delay (Some (k, kf_store_now f + JWKS_CACHE_TTL_SECONDS))" if "served (kf_served_now f) k" for k
    using that stored by (auto simp: cache_fresh_def intro!: exI [of _ "kf_served_now f"])
  show "cache_fresh served delay c'"
    using assms(1) others answer fresh by (auto simp: store_keys_def split: sum.splits)
  show "recent served delay f ks" if "res = Inr ks"
    using assms(1) answer that by (auto simp: store_keys_def recent_def split: sum.splits)
qed

lemma fetch_keys_fresh:
  assumes "fetch_keys v (Some (jw_uri v)) f c = (res, c')" "cache_fresh served delay c" "fetch_wf served delay v f"
  shows "cache_fresh served delay c'" "res = Inr ks \<Longrightarrow> recent served delay f ks"
proof -
  have fresh: "cache_fresh served delay (kf_before f c)" using assms(2,3) by (auto simp: fetch_wf_def)
  show "cache_fresh served delay c'"
    using assms(1,3) fresh by (auto simp: fetch_keys_def Let_def split: option.splits if_splits prod.splits dest: store_keys_fresh(1))
  assume res: "res = Inr ks"
  show "recent served delay f ks"
  proof (cases "kf_before f c")
    case None
    with assms(1) have "store_keys f (jw_uri v) (kf_before f c) = (res, c')" by (simp add: fetch_keys_def split: if_splits)
    from store_keys_fresh(2) [OF this fresh assms(3) res] show ?thesis .
  next
    case (Some p)
    obtain k e where p: "p = (k, e)" by (cases p)
    show ?thesis
    proof (cases "kf_read_now f < e")
      case True
      then have "k = ks" using assms(1) Some p res by (simp add: fetch_keys_def split: if_splits)
      then show ?thesis using fresh Some p True by (fastforce simp: cache_fresh_def recent_def)
    next
      case False
      with assms(1) Some p have "store_keys f (jw_uri v) (kf_before f c) = (res, c')" by (simp add: fetch_keys_def split: if_splits)
      from store_keys_fresh(2) [OF this fresh assms(3) res] show ?thesis .
    qed
  qed
qed

lemma validate_jwt_accepts:
  assumes "validate_with lb v token ks = Inr claims"
  shows "ol_decode lb token ks = Inr claims"
    "jw_expected_issuer v = Some i \<Longrightarrow> issuer_matches_expected claims i"
    "jw_expected_audience v = Some a \<Longrightarrow> audience_matches_expected claims a"
    "jw_require_exp v \<Longrightarrow> map_of claims ''exp'' \<noteq> None \<and> ol_registry lb claims = None"
  using assms by (auto simp: validate_with_def validate_jwt_def split: sum.splits if_splits)

lemma validate_refetching_fresh:
  assumes "validate_refetching lb v (jw_uri v) f1 f2 token c = (Inr claims, c')" "cache_fresh served delay c"
    "fetch_wf served delay v f1" "fetch_wf served delay v f2"
  obtains ks where "validate_with lb v token ks = Inr claims" "recent served delay f1 ks \<or> recent served delay f2 ks"
proof -
  obtain r1 c1 where f1: "fetch_keys v (Some (jw_uri v)) f1 c = (r1, c1)" by (cases "fetch_keys v (Some (jw_uri v)) f1 c")
  with assms(1) obtain k1 where r1: "r1 = Inr k1" by (cases r1) (simp_all add: validate_refetching_def bind_out_def)
  note fresh1 = fetch_keys_fresh(2) [OF f1 assms(2,3) r1]
  show thesis
  proof (cases "validate_with lb v token k1")
    case (Inr cl)
    with assms(1) f1 r1 show thesis by (intro that [OF _ disjI1, of k1]) (simp_all add: validate_refetching_def bind_out_def fresh1)
  next
    case (Inl x)
    obtain r2 c2 where f2: "fetch_keys v (Some (jw_uri v)) f2 (invalidate_keys_cache c1) = (r2, c2)"
      by (cases "fetch_keys v (Some (jw_uri v)) f2 (invalidate_keys_cache c1)")
    have "cache_fresh served delay (invalidate_keys_cache c1)" by (simp add: cache_fresh_def invalidate_keys_cache_def)
    note fresh2 = fetch_keys_fresh(2) [OF f2 this assms(4)]
    from assms(1) f1 r1 f2 Inl obtain k2 where "r2 = Inr k2" "validate_with lb v token k2 = Inr claims"
      by (cases x; cases r2) (simp_all add: validate_refetching_def bind_out_def)
    then show thesis using fresh2 by (intro that [of k2]) auto
  qed
qed

lemma map_sum_Inr: "map_sum f g x = Inr y \<longleftrightarrow> (\<exists>z. x = Inr z \<and> y = g z)"
  by (cases x) auto

lemma accept_claims_Continue:
  assumes "accept_claims lb m enforce now claims = Inr (Continue cl)"
  obtains k where "cl = Some k" "get_claim claims ''sub'' = PStr (oc_sub k)" "oc_sub k \<noteq> []"
    "get_claim claims ''exp'' \<noteq> PNone \<Longrightarrow> now \<le> of_int (oc_exp k)"
    "oc_scope k = parse_scope (ol_str lb) (get_claim claims ''scope'')" "enforce \<Longrightarrow> validate_scope m (oc_scope k)"
    "validate_identity_binding lb m claims (oc_sub k)"
proof -
  from assms obtain e sub where e: "token_exp claims = Inr e" "case e of None \<Rightarrow> True | Some t \<Rightarrow> now \<le> of_int t"
    and sub: "get_claim claims ''sub'' = PStr sub" "sub \<noteq> []" "enforce \<Longrightarrow> validate_scope m (parse_scope (ol_str lb) (get_claim claims ''scope''))"
      "validate_identity_binding lb m claims sub"
      "cl = Some \<lparr>oc_sub = sub, oc_scope = parse_scope (ol_str lb) (get_claim claims ''scope''), oc_exp = (case e of None \<Rightarrow> 0 | Some t \<Rightarrow> t)\<rparr>"
    by (auto simp: accept_claims_def Let_def not_less split: option.splits if_splits pyval.splits sum.splits py_exn.splits)
  show thesis
    by (rule that [OF sub(5)]) (use e sub in \<open>auto simp: token_exp_def map_sum_Inr split: pyval.splits\<close>)
qed

subsection \<open>Properties\<close>

text \<open>C36: a request to a protected path reaches the application only with a bearer token whose signature verifies under a key set the
  provider served in this very call, or less than a day and the delay of storing it before the call read the cache. Its subject is a
  non-empty text; its issuer and audience match where the validator expects one; an expiry it has is not past. The validator the
  middleware builds for itself does not require an expiry and does not look at \<open>nbf\<close>: only one that requires an expiry
  has the claims checked by the registry of the library. The required scope is demanded under the path prefix but not on the extra
  prefixes, and the token is bound to the agent only if a manifest identifier is configured, by the custom claim or, without it,
  by the map of subjects. The application sees the subject and the scopes of exactly this token. Other tasks may use the
  cache at any time.\<close>

theorem protected_requests_authenticated:
  assumes "oauth2_dispatch lb m path auth now f1 f2 c = (Inr (Continue cl), c')" "should_validate m path"
    and "om_jwks_uri m = jw_uri (om_validator m)" "cache_fresh served delay c"
    and "fetch_wf served delay (om_validator m) f1" "fetch_wf served delay (om_validator m) f2"
  shows "\<exists>token ks claims k. get_bearer_token auth = Some token \<and> ol_decode lb token ks = Inr claims \<and>
    (recent served delay f1 ks \<or> recent served delay f2 ks) \<and> cl = Some k \<and> get_claim claims ''sub'' = PStr (oc_sub k) \<and> oc_sub k \<noteq> [] \<and>
    oc_scope k = parse_scope (ol_str lb) (get_claim claims ''scope'') \<and>
    (get_claim claims ''exp'' \<noteq> PNone \<longrightarrow> now \<le> of_int (oc_exp k)) \<and>
    (\<forall>i. jw_expected_issuer (om_validator m) = Some i \<longrightarrow> issuer_matches_expected claims i) \<and>
    (\<forall>a. jw_expected_audience (om_validator m) = Some a \<longrightarrow> audience_matches_expected claims a) \<and>
    (jw_require_exp (om_validator m) \<longrightarrow> map_of claims ''exp'' \<noteq> None \<and> ol_registry lb claims = None) \<and>
    (enforces_global_scope m path \<longrightarrow> validate_scope m (oc_scope k)) \<and> validate_identity_binding lb m claims (oc_sub k)"
proof -
  from assms(1,2) obtain token where token: "get_bearer_token auth = Some token"
    and run: "validate_bearer_token lb m (enforces_global_scope m path) now f1 f2 token c = (Inr (Continue cl), c')"
    by (auto simp: oauth2_dispatch_def split: option.splits)
  then obtain claims where claims: "validate_refetching lb (om_validator m) (jw_uri (om_validator m)) f1 f2 token c = (Inr claims, c')"
    "accept_claims lb m (enforces_global_scope m path) now claims = Inr (Continue cl)"
    using assms(3) by (auto simp: validate_bearer_token_def split: prod.splits sum.splits oauth_exn.splits)
  from validate_refetching_fresh [OF claims(1) assms(4-6)] obtain ks where
    ks: "validate_with lb (om_validator m) token ks = Inr claims" "recent served delay f1 ks \<or> recent served delay f2 ks" .
  from accept_claims_Continue [OF claims(2)] obtain k where
    k: "cl = Some k" "get_claim claims ''sub'' = PStr (oc_sub k)" "oc_sub k \<noteq> []"
      "get_claim claims ''exp'' \<noteq> PNone \<Longrightarrow> now \<le> of_int (oc_exp k)"
      "oc_scope k = parse_scope (ol_str lb) (get_claim claims ''scope'')"
      "enforces_global_scope m path \<Longrightarrow> validate_scope m (oc_scope k)" "validate_identity_binding lb m claims (oc_sub k)" by blast
  show ?thesis
    by (intro exI [of _ token] exI [of _ ks] exI [of _ claims] exI [of _ k])
      (use token ks k validate_jwt_accepts [OF ks(1)] in auto)
qed

definition sample_oauth_lib :: "string oauth_lib" where
  "sample_oauth_lib =
     \<lparr>ol_decode = (\<lambda>token ks. if token = ks then Inr [(''sub'', PStr ''agent''), (''scope'', PStr ''asap:read asap:execute''), (''exp'', PInt 100)] else Inl ''kid''),
      ol_registry = (\<lambda>d. None), ol_loads = (\<lambda>s. None), ol_str = (\<lambda>v. [])\<rparr>"

definition sample_middleware :: oauth2_middleware where
  "sample_middleware = oauth2_init sample_oauth_lib (\<lambda>_. None) ''u'' (Some ''asap:execute'') (Some ''/asap'') [] None None None None None"

definition sample_key_fetch :: "string \<Rightarrow> string key_fetch" where
  "sample_key_fetch ks = \<lparr>kf_before = id, kf_read_now = 5, kf_result = (\<lambda>u. Inr ks), kf_served_now = 5, kf_between = id, kf_store_now = 6\<rparr>"

lemmas sample_oauth_defs = sample_oauth_lib_def sample_middleware_def sample_key_fetch_def oauth2_init_def parse_subject_map_def
  parse_expected_audience_from_env_def

lemma sample_dispatch:
  "oauth2_dispatch sample_oauth_lib sample_middleware ''/asap'' (Some ''Bearer new'') 50 (sample_key_fetch ''old'') (sample_key_fetch ''new'') None =
     (Inr (Continue (Some \<lparr>oc_sub = ''agent'', oc_scope = [''asap:read'', ''asap:execute''], oc_exp = 100\<rparr>)), Some (''new'', 86406))"
proof -
  have words: "parse_scope t (PStr ''asap:read asap:execute'') = [''asap:read'', ''asap:execute'']" for t
    by (simp add: parse_scope_def) code_simp
  have tok: "get_bearer_token (Some ''Bearer new'') = Some ''new''" by code_simp
  have path: "path_under_prefix ''/asap'' ''/asap''" "\<not> starts_with ''/asap'' AGENT_IDENTITY_ROUTE_PREFIX" by code_simp+
  show ?thesis
    by (simp add: oauth2_dispatch_def should_validate_def enforces_global_scope_def tok path sample_oauth_defs validate_bearer_token_def
        validate_refetching_def fetch_keys_def store_keys_def bind_out_def validate_with_def validate_jwt_def invalidate_keys_cache_def
        accept_claims_def token_exp_def get_claim_def words validate_scope_def validate_identity_binding_def JWKS_CACHE_TTL_SECONDS_def)
qed

theorem protected_requests_authenticated_witness:
  "oauth2_dispatch sample_oauth_lib sample_middleware ''/asap'' (Some ''Bearer new'') 50 (sample_key_fetch ''old'') (sample_key_fetch ''new'') None =
     (Inr (Continue (Some \<lparr>oc_sub = ''agent'', oc_scope = [''asap:read'', ''asap:execute''], oc_exp = 100\<rparr>)), Some (''new'', 86406)) \<and>
   (\<exists>ks claims. ol_decode sample_oauth_lib ''new'' ks = Inr claims \<and> get_claim claims ''sub'' = PStr ''agent'' \<and>
      (recent (\<lambda>t ks. t = 5) 1 (sample_key_fetch ''old'') ks \<or> recent (\<lambda>t ks. t = 5) 1 (sample_key_fetch ''new'') ks) \<and>
      (enforces_global_scope sample_middleware ''/asap'' \<longrightarrow> validate_scope sample_middleware [''asap:read'', ''asap:execute'']))"
proof -
  have tok: "get_bearer_token (Some ''Bearer new'') = Some ''new''" by code_simp
  have "should_validate sample_middleware ''/asap''" by code_simp
  moreover have "om_jwks_uri sample_middleware = jw_uri (om_validator sample_middleware)" by (simp add: sample_oauth_defs)
  moreover have "cache_fresh (\<lambda>t ks. t = 5) 1 None" by (simp add: cache_fresh_def)
  moreover have "fetch_wf (\<lambda>t ks. t = 5) 1 (om_validator sample_middleware) (sample_key_fetch k)" for k
    by (simp add: fetch_wf_def sample_key_fetch_def)
  ultimately show ?thesis
    using protected_requests_authenticated [OF sample_dispatch, of "\<lambda>t ks. t = 5" 1] sample_dispatch by (auto simp: tok)
qed

text \<open>Rotation of the provider's keys: a token the cached keys reject is decided by the keys the provider serves now, and those are cached.\<close>

lemma rotated_keys_decide:
  assumes "kf_before f1 c = Some (old, e)" "kf_read_now f1 < e" "validate_with lb v token old = Inl (JoseError x)"
    and "kf_before f2 None = None" "kf_result f2 (jw_uri v) = Inr new"
  shows "validate_token lb v f1 f2 token c = (validate_with lb v token new, Some (new, kf_store_now f2 + JWKS_CACHE_TTL_SECONDS))"
  using assms by (simp add: validate_token_def validate_refetching_def fetch_keys_def store_keys_def bind_out_def invalidate_keys_cache_def Let_def)

text \<open>The address is checked when the cache is read but not when it is written: keys fetched from another address are used for the validator's own.\<close>

lemma foreign_keys_cached:
  assumes "u \<noteq> []" "u \<noteq> jw_uri v" "kf_result f u = Inr foreign" "fetch_keys v (Some u) f c = (res, c')"
    and "kf_before g = id" "kf_read_now g < kf_store_now f + JWKS_CACHE_TTL_SECONDS"
  shows "fetch_keys v None g c' = (Inr foreign, c')"
  using assms by (auto simp: fetch_keys_def store_keys_def Let_def split: option.splits prod.splits)

end
