(* ===== verification/Delegation.thy ===== *)
theory Delegation
  imports Oauth2
begin

text \<open>
  Delegation tokens (\<open>economics/delegation.py\<close>), the store of issued and revoked tokens
  (\<open>InMemoryDelegationStorage\<close> of \<open>economics/delegation_storage.py\<close>) and the endpoints on them
  (\<open>transport/delegation_api.py\<close>).

  Parameters: \<open>delegation_lib\<close> holds base64 and JSON decoding, the \<open>joserfc\<close> operations and the text
  \<open>str\<close> gives for a value that is no string. A call that reads the clock takes what it reads.
\<close>

subsection \<open>Scopes\<close>

definition WILDCARD_SCOPE :: string where
  "WILDCARD_SCOPE = ''*''"

definition DELEGATION_SCOPES :: "string list" where
  "DELEGATION_SCOPES = [''task.execute'', ''task.cancel'', ''data.read'', ''data.write'']"

text \<open>The claim \<open>scp\<close> is any list, \<open>in\<close> compares with \<open>==\<close>: only an equal string matches a string.\<close>

definition scope_includes_action :: "pyval list \<Rightarrow> string \<Rightarrow> bool" where
  "scope_includes_action scopes action =
     (if scopes = [] then False
      else if PStr WILDCARD_SCOPE \<in> set scopes then True
      else PStr action \<in> set scopes)"

subsection \<open>Reading a token\<close>

record ('pk, 'sk) delegation_lib =
  dl_b64url :: "string \<Rightarrow> string option"
  dl_loads :: "string \<Rightarrow> pyval option"
  dl_decode :: "string \<Rightarrow> 'pk \<Rightarrow> string + pydict"
  dl_encode :: "pydict \<Rightarrow> pydict \<Rightarrow> 'sk \<Rightarrow> string"
  dl_str :: "pyval \<Rightarrow> string"

definition b64url_decode :: "('pk, 'sk) delegation_lib \<Rightarrow> string \<Rightarrow> string option" where
  "b64url_decode lb p64 =
     (let pad = 4 - length p64 mod 4
      in dl_b64url lb (if pad \<noteq> 4 then p64 @ replicate pad (CHR ''='') else p64))"

definition parse_claim_from_jwt :: "('pk, 'sk) delegation_lib \<Rightarrow> string \<Rightarrow> string \<Rightarrow> string option" where
  "parse_claim_from_jwt lb token claim =
     (case split_char (CHR ''.'') token of
        [h, p, sig] \<Rightarrow>
          (case b64url_decode lb p of
             None \<Rightarrow> None
           | Some raw \<Rightarrow>
               (case dl_loads lb raw of
                  Some (PDict claims) \<Rightarrow>
                    (case map_of claims claim of
                       None \<Rightarrow> None
                     | Some v \<Rightarrow> if v = PNone then None else Some (py_str (dl_str lb) v))
                | _ \<Rightarrow> None))
      | _ \<Rightarrow> None)"

definition parse_iss_from_jwt :: "('pk, 'sk) delegation_lib \<Rightarrow> string \<Rightarrow> string option" where
  "parse_iss_from_jwt lb token = parse_claim_from_jwt lb token ''iss''"

definition get_jti_from_jwt :: "('pk, 'sk) delegation_lib \<Rightarrow> string \<Rightarrow> string option" where
  "get_jti_from_jwt lb token = parse_claim_from_jwt lb token ''jti''"

subsection \<open>Validation\<close>

record validation_result =
  vr_success :: bool
  vr_error :: "string option"
  vr_delegator :: "string option"
  vr_delegate :: pyval
  vr_jti :: "string option"
  vr_scopes :: "pyval list option"

definition refused :: "string \<Rightarrow> validation_result" where
  "refused e = \<lparr>vr_success = False, vr_error = Some e, vr_delegator = None, vr_delegate = PNone, vr_jti = None, vr_scopes = None\<rparr>"

definition X_ASAP_CONSTRAINTS_CLAIM :: string where
  "X_ASAP_CONSTRAINTS_CLAIM = ''x-asap-constraints''"

text \<open>What the caller passes besides the token: the resolver of keys and the three optional checks.\<close>

record 'pk delegation_checks =
  dk_key_of :: "string \<Rightarrow> exn + 'pk"
  dk_usage_count :: "(string \<Rightarrow> int) option"
  dk_allowed_delegators :: "string list option"
  dk_is_revoked :: "(string \<Rightarrow> bool) option"

text \<open>\<open>TypeError\<close> and \<open>ValueError\<close> of a conversion to an integer are caught, the \<open>OverflowError\<close> of an infinite number is not.\<close>

definition int_or_none :: "pyval \<Rightarrow> exn + int option" where
  "int_or_none v = (case py_int v of Inl OverflowError \<Rightarrow> Inl (lift_exn OverflowError) | Inl x \<Rightarrow> Inr None | Inr i \<Rightarrow> Inr (Some i))"

text \<open>\<open>int(exp)\<close> for a number, and an instant that is not positive counts as none.\<close>

definition expiry_of :: "pydict \<Rightarrow> exn + int option" where
  "expiry_of claims =
     map_sum id (\<lambda>ts. case ts of Some t \<Rightarrow> if t \<le> 0 then None else Some t | None \<Rightarrow> None)
       (case map_of claims ''exp'' of
          Some (PBool b) \<Rightarrow> int_or_none (PBool b)
        | Some (PInt i) \<Rightarrow> int_or_none (PInt i)
        | Some (PFloat f) \<Rightarrow> int_or_none (PFloat f)
        | _ \<Rightarrow> Inr None)"

definition scopes_of :: "pydict \<Rightarrow> pyval list" where
  "scopes_of claims = (case map_of claims ''scp'' of Some (PList l) \<Rightarrow> l | _ \<Rightarrow> [])"

definition token_jti :: "('pk, 'sk) delegation_lib \<Rightarrow> pydict \<Rightarrow> string option" where
  "token_jti lb claims =
     (case map_of claims ''jti'' of None \<Rightarrow> None | Some v \<Rightarrow> if v = PNone then None else Some (py_str (dl_str lb) v))"

definition token_delegate :: "('pk, 'sk) delegation_lib \<Rightarrow> pydict \<Rightarrow> pyval" where
  "token_delegate lb claims =
     (case map_of claims ''aud'' of
        Some (PList l) \<Rightarrow> (case l of [] \<Rightarrow> PNone | a # _ \<Rightarrow> a)
      | None \<Rightarrow> PNone
      | Some v \<Rightarrow> if v = PNone then PNone else PStr (py_str (dl_str lb) v))"

text \<open>A limit that is no number is not enforced.\<close>

definition task_limit_reached :: "('pk, 'sk) delegation_lib \<Rightarrow> (string \<Rightarrow> int) option \<Rightarrow> pydict \<Rightarrow> exn + bool" where
  "task_limit_reached lb usage claims =
     (case (map_of claims X_ASAP_CONSTRAINTS_CLAIM, usage, token_jti lb claims) of
        (Some (PDict x), Some used, Some j) \<Rightarrow>
          (case map_of x ''max_tasks'' of
             None \<Rightarrow> Inr False
           | Some v \<Rightarrow>
               if j = [] \<or> v = PNone then Inr False
               else map_sum id (\<lambda>n. case n of None \<Rightarrow> False | Some n \<Rightarrow> n \<le> used j) (int_or_none v))
      | _ \<Rightarrow> Inr False)"

definition check_delegation_claims ::
  "('pk, 'sk) delegation_lib \<Rightarrow> 'pk delegation_checks \<Rightarrow> rat \<Rightarrow> string \<Rightarrow> string \<Rightarrow> pydict \<Rightarrow> exn + validation_result" where
  "check_delegation_claims lb ck now action iss claims =
     (case expiry_of claims of
        Inl x \<Rightarrow> Inl x
      | Inr expiry \<Rightarrow>
          if (case expiry of Some t \<Rightarrow> of_int t \<le> now | None \<Rightarrow> False) then Inr (refused ''Token expired'')
          else if \<not> scope_includes_action (scopes_of claims) action then Inr (refused ''Action not allowed by token scopes'')
          else if (case (token_jti lb claims, dk_is_revoked ck) of
                     (Some j, Some is_revoked) \<Rightarrow> j \<noteq> [] \<and> is_revoked j | _ \<Rightarrow> False) then Inr (refused ''Token revoked'')
          else map_sum id
                 (\<lambda>reached. if reached then refused ''Delegation task limit exceeded''
                   else \<lparr>vr_success = True, vr_error = None, vr_delegator = Some iss, vr_delegate = token_delegate lb claims,
                         vr_jti = token_jti lb claims, vr_scopes = Some (scopes_of claims)\<rparr>)
                 (task_limit_reached lb (dk_usage_count ck) claims))"

text \<open>\<open>KeyError\<close> and \<open>ValueError\<close> of a lookup of keys are caught, anything else it raises goes to the caller.\<close>

fun key_lookup_failed :: "exn \<Rightarrow> bool" where
  "key_lookup_failed (OtherExn t x) = (t = ''KeyError'' \<or> t = ''ValueError'')"
| "key_lookup_failed _ = False"

definition validate_delegation ::
  "('pk, 'sk) delegation_lib \<Rightarrow> 'pk delegation_checks \<Rightarrow> rat \<Rightarrow> string \<Rightarrow> string \<Rightarrow> exn + validation_result" where
  "validate_delegation lb ck now token action =
     (case parse_iss_from_jwt lb token of
        None \<Rightarrow> Inr (refused ''Invalid or malformed token'')
      | Some iss \<Rightarrow>
          if iss = [] then Inr (refused ''Invalid or malformed token'')
          else if (case dk_allowed_delegators ck of Some l \<Rightarrow> iss \<notin> set l | None \<Rightarrow> False)
          then Inr (refused ''Delegator not allowed to issue delegations'')
          else (case dk_key_of ck iss of
                  Inl x \<Rightarrow>
                    if key_lookup_failed x then Inr (refused (''Delegator key not found or invalid: '' @ exn_text x)) else Inl x
                | Inr key \<Rightarrow>
                    (case dl_decode lb token key of
                       Inl e \<Rightarrow> Inr (refused (''Invalid or expired token: '' @ e))
                     | Inr claims \<Rightarrow> check_delegation_claims lb ck now action iss claims)))"

subsection \<open>Issuing\<close>

record delegation_constraints =
  cn_max_cost_usd :: "rat option"
  cn_max_tasks :: "int option"
  cn_expires_at :: datetime

definition unix_seconds :: "datetime \<Rightarrow> int" where
  "unix_seconds t = py_trunc (of_int t / 1000000)"

definition constraint_claims :: "delegation_constraints \<Rightarrow> pydict" where
  "constraint_claims c =
     (case cn_max_tasks c of None \<Rightarrow> [] | Some n \<Rightarrow> [(''max_tasks'', PInt n)]) @
     (case cn_max_cost_usd c of None \<Rightarrow> [] | Some r \<Rightarrow> [(''max_cost_usd'', PFloat (Fin r))])"

definition delegation_claims ::
  "string \<Rightarrow> string \<Rightarrow> string list \<Rightarrow> delegation_constraints \<Rightarrow> datetime \<Rightarrow> string \<Rightarrow> pydict" where
  "delegation_claims delegator delegate scopes c now jti =
     [(''iss'', PStr delegator), (''aud'', PStr delegate), (''jti'', PStr jti), (''iat'', PInt (unix_seconds now)),
      (''exp'', PInt (unix_seconds (cn_expires_at c))), (''scp'', PList (map PStr scopes))] @
     (if constraint_claims c = [] then [] else [(X_ASAP_CONSTRAINTS_CLAIM, PDict (constraint_claims c))])"

definition create_delegation_jwt ::
  "('pk, 'sk) delegation_lib \<Rightarrow> string \<Rightarrow> string \<Rightarrow> string list \<Rightarrow> delegation_constraints \<Rightarrow> 'sk \<Rightarrow> string option \<Rightarrow>
   datetime \<Rightarrow> string \<Rightarrow> py_exn + string" where
  "create_delegation_jwt lb delegator delegate scopes c key token_id now fresh =
     (if scopes = [] then Inl (ValueError ''scopes must not be empty'')
      else Inr (dl_encode lb [(''alg'', PStr ''Ed25519''), (''typ'', PStr ''JWT'')]
             (delegation_claims delegator delegate scopes c now
                (case token_id of Some t \<Rightarrow> t | None \<Rightarrow> ''del_'' @ fresh)) key))"

subsection \<open>The store\<close>

type_synonym issued_row = "string \<times> string option \<times> datetime"

record deleg_store =
  dv_revoked :: "(string, datetime \<times> string option) dict"
  dv_issued :: "(string, issued_row) dict"

definition deleg_init :: deleg_store where
  "deleg_init = \<lparr>dv_revoked = [], dv_issued = []\<rparr>"

definition deleg_revoke :: "datetime \<Rightarrow> string \<Rightarrow> string option \<Rightarrow> deleg_store \<Rightarrow> deleg_store" where
  "deleg_revoke now tid reason s = s\<lparr>dv_revoked := AList.update tid (now, reason) (dv_revoked s)\<rparr>"

definition deleg_is_revoked :: "string \<Rightarrow> deleg_store \<Rightarrow> bool" where
  "deleg_is_revoked tid s \<longleftrightarrow> tid \<in> set (dict_keys (dv_revoked s))"

definition register_issued :: "datetime \<Rightarrow> string \<Rightarrow> string \<Rightarrow> string option \<Rightarrow> deleg_store \<Rightarrow> deleg_store" where
  "register_issued now tid delegator delegate s = s\<lparr>dv_issued := AList.update tid (delegator, delegate, now) (dv_issued s)\<rparr>"

definition get_delegator :: "string \<Rightarrow> deleg_store \<Rightarrow> string option" where
  "get_delegator tid s = map_option fst (map_of (dv_issued s) tid)"

definition get_delegate :: "string \<Rightarrow> deleg_store \<Rightarrow> string option" where
  "get_delegate tid s = (case map_of (dv_issued s) tid of None \<Rightarrow> None | Some (d, u, t) \<Rightarrow> u)"

definition list_token_ids_issued_by :: "string \<Rightarrow> deleg_store \<Rightarrow> string list" where
  "list_token_ids_issued_by urn s = map fst (filter (\<lambda>(tid, d, u, t). d = urn) (dv_issued s))"

record issued_summary =
  is_id :: string
  is_delegate_urn :: "string option"
  is_created_at :: datetime

definition list_issued_summaries :: "string \<Rightarrow> deleg_store \<Rightarrow> issued_summary list" where
  "list_issued_summaries urn s =
     map (\<lambda>(tid, d, u, t). \<lparr>is_id = tid, is_delegate_urn = u, is_created_at = t\<rparr>) (filter (\<lambda>(tid, d, u, t). d = urn) (dv_issued s))"

definition get_issued_at :: "string \<Rightarrow> deleg_store \<Rightarrow> datetime option" where
  "get_issued_at tid s = map_option (\<lambda>(d, u, t). t) (map_of (dv_issued s) tid)"

definition get_revoked_at :: "string \<Rightarrow> deleg_store \<Rightarrow> datetime option" where
  "get_revoked_at tid s = map_option fst (map_of (dv_revoked s) tid)"

definition are_revoked :: "string list \<Rightarrow> deleg_store \<Rightarrow> (string, bool) dict" where
  "are_revoked tids s = map (\<lambda>t. (t, deleg_is_revoked t s)) (fromkeys tids)"

record token_detail =
  td_id :: string
  td_delegator_urn :: string
  td_delegate_urn :: "string option"
  td_created_at :: datetime
  td_is_revoked :: bool
  td_revoked_at :: "datetime option"

definition get_token_detail :: "string \<Rightarrow> deleg_store \<Rightarrow> token_detail option" where
  "get_token_detail tid s =
     (case map_of (dv_issued s) tid of
        None \<Rightarrow> None
      | Some (d, u, t) \<Rightarrow>
          Some \<lparr>td_id = tid, td_delegator_urn = d, td_delegate_urn = u, td_created_at = t,
                td_is_revoked = (map_of (dv_revoked s) tid \<noteq> None), td_revoked_at = get_revoked_at tid s\<rparr>)"

subsection \<open>Revocation with everything below\<close>

definition MAX_CASCADE_DEPTH :: nat where
  "MAX_CASCADE_DEPTH = 50"

text \<open>The tokens issued by the holder of a token; an empty name counts as none.\<close>

definition child_tokens :: "(string, issued_row) dict \<Rightarrow> string \<Rightarrow> string list" where
  "child_tokens iss tid =
     (case map_of iss tid of
        Some (d, Some u, t) \<Rightarrow> if u = [] then [] else map fst (filter (\<lambda>(c, d', u', t'). d' = u) iss)
      | _ \<Rightarrow> [])"

lemma child_tokens_unknown: "tid \<notin> set (dict_keys iss) \<Longrightarrow> child_tokens iss tid = []"
  using map_of_notin_keys [of tid iss] by (simp add: child_tokens_def)

text \<open>The loop: the stack has its top at the head (the code pushes at the end and pops there), \<open>now k\<close> is
  the clock when the token number \<open>k\<close> of the walk is revoked.\<close>

function cascade_walk ::
  "(string, issued_row) dict \<Rightarrow> (nat \<Rightarrow> datetime) \<Rightarrow> string option \<Rightarrow> string list \<Rightarrow> (string \<times> nat) list \<Rightarrow>
   (string, datetime \<times> string option) dict \<Rightarrow> (string, datetime \<times> string option) dict" where
  "cascade_walk iss now reason visited [] rv = rv"
| "cascade_walk iss now reason visited ((tid, depth) # stack) rv =
     (if tid \<in> set visited \<or> MAX_CASCADE_DEPTH < depth then cascade_walk iss now reason visited stack rv
      else cascade_walk iss now reason (tid # visited)
             (rev (map (\<lambda>c. (c, depth + 1)) (child_tokens iss tid)) @ stack)
             (AList.update tid (now (length visited), reason) rv))"
  by pat_completeness auto

termination
proof (relation "measures [\<lambda>(iss, now, reason, visited, stack, rv). card (set (dict_keys iss) - set visited),
    \<lambda>(iss, now, reason, visited, stack, rv). length stack]", goal_cases)
  case (3 iss now reason visited tid depth stack rv)
  show ?case
  proof (cases "tid \<in> set (dict_keys iss)")
    case True
    with 3 have "card (set (dict_keys iss) - set (tid # visited)) < card (set (dict_keys iss) - set visited)"
      by (intro psubset_card_mono) auto
    then show ?thesis by simp
  next
    case False
    then have "set (dict_keys iss) - set (tid # visited) = set (dict_keys iss) - set visited" by auto
    then show ?thesis using child_tokens_unknown [OF False] by simp
  qed
qed auto

definition revoke_cascade :: "(nat \<Rightarrow> datetime) \<Rightarrow> string \<Rightarrow> string option \<Rightarrow> deleg_store \<Rightarrow> deleg_store" where
  "revoke_cascade now tid reason s =
     s\<lparr>dv_revoked := cascade_walk (dv_issued s) now reason [] [(tid, 0)] (dv_revoked s)\<rparr>"

subsection \<open>Endpoints\<close>

text \<open>The body of a creation, after parsing: FastAPI answers 422 unless it satisfies the rules of the model.\<close>

record create_delegation_request =
  cr_delegate :: string
  cr_scopes :: "string list"
  cr_expires_in_seconds :: "int option"
  cr_max_tasks :: "int option"

definition valid_creation :: "create_delegation_request \<Rightarrow> bool" where
  "valid_creation b \<longleftrightarrow> cr_scopes b \<noteq> [] \<and>
     (case cr_expires_in_seconds b of None \<Rightarrow> True | Some n \<Rightarrow> 1 \<le> n \<and> n \<le> 365 * 24 * 3600) \<and>
     (case cr_max_tasks b of None \<Rightarrow> True | Some n \<Rightarrow> 0 \<le> n)"

text \<open>\<open>key_store\<close> and \<open>storage\<close> are \<^const>\<open>None\<close> when the application state does not hold them.\<close>

definition post_delegation ::
  "('pk, 'sk) delegation_lib \<Rightarrow> oauth2_claims option \<Rightarrow> (string \<Rightarrow> exn + 'sk) option \<Rightarrow> create_delegation_request \<Rightarrow> datetime \<Rightarrow> datetime \<Rightarrow> datetime \<Rightarrow>
   string \<Rightarrow> deleg_store option \<Rightarrow> (deleg_store option, exn, string) outcome" where
  "post_delegation lb who key_store body now now_jwt now_store fresh storage =
     (case require_scope SCOPE_EXECUTE who of
        Inl x \<Rightarrow> (Inl x, storage)
      | Inr claims \<Rightarrow>
          (case key_store of
             None \<Rightarrow> (Inl (HttpExn 503 ''Delegation API not configured (delegation_key_store not set)''), storage)
           | Some key_of \<Rightarrow>
               (case key_of (oc_sub claims) of
                  Inl x \<Rightarrow>
                    (Inl (if key_lookup_failed x then HttpExn 503 ''Delegation key not configured for this agent'' else x), storage)
                | Inr key \<Rightarrow>
                    (let expires_in = (case cr_expires_in_seconds body of Some n \<Rightarrow> n | None \<Rightarrow> 86400);
                         c = \<lparr>cn_max_cost_usd = None, cn_max_tasks = cr_max_tasks body, cn_expires_at = now + expires_in * 1000000\<rparr>
                     in case create_delegation_jwt lb (oc_sub claims) (cr_delegate body) (cr_scopes body) c key None now_jwt fresh of
                          Inl x \<Rightarrow> (Inl (OtherExn ''ValueError'' ''scopes must not be empty''), storage)
                        | Inr token \<Rightarrow>
                            (Inr token,
                             (case storage of
                                None \<Rightarrow> None
                              | Some s \<Rightarrow>
                                  (case get_jti_from_jwt lb token of
                                     None \<Rightarrow> Some s
                                   | Some jti \<Rightarrow>
                                       Some (if jti = [] then s
                                             else register_issued now_store jti (oc_sub claims) (Some (cr_delegate body)) s))))))))"

definition NO_DELEGATION_STORAGE :: exn where
  "NO_DELEGATION_STORAGE = HttpExn 503 ''Delegation revocation not configured (delegation_storage not set)''"

definition delete_delegation ::
  "oauth2_claims option \<Rightarrow> (nat \<Rightarrow> datetime) \<Rightarrow> string \<Rightarrow> deleg_store option \<Rightarrow> (deleg_store option, exn, unit) outcome" where
  "delete_delegation who now tid storage =
     (case require_scope SCOPE_EXECUTE who of
        Inl x \<Rightarrow> (Inl x, storage)
      | Inr claims \<Rightarrow>
          (case storage of
             None \<Rightarrow> (Inl NO_DELEGATION_STORAGE, storage)
           | Some s \<Rightarrow>
               (case get_delegator tid s of
                  None \<Rightarrow> (Inl (HttpExn 404 ''Delegation token not found or not issued via this server''), storage)
                | Some d \<Rightarrow>
                    if d \<noteq> oc_sub claims
                    then (Inl (HttpExn 403 ''Only the delegator that issued this token can revoke it''), storage)
                    else (Inr (), Some (revoke_cascade now tid None s)))))"

record delegation_token_summary =
  ts_id :: string
  ts_delegator :: string
  ts_delegate :: string
  ts_created_at :: datetime
  ts_active :: bool

definition list_delegations ::
  "oauth2_claims option \<Rightarrow> bool \<Rightarrow> deleg_store option \<Rightarrow> exn + delegation_token_summary list" where
  "list_delegations who active storage =
     (case require_scope SCOPE_EXECUTE who of
        Inl x \<Rightarrow> Inl x
      | Inr claims \<Rightarrow>
          (case storage of
             None \<Rightarrow> Inl NO_DELEGATION_STORAGE
           | Some s \<Rightarrow>
               (let summaries = list_issued_summaries (oc_sub claims) s;
                    revoked_map = are_revoked (map is_id summaries) s;
                    revoked = (\<lambda>tid. case map_of revoked_map tid of Some b \<Rightarrow> b | None \<Rightarrow> False)
                in Inr (map (\<lambda>m. \<lparr>ts_id = is_id m, ts_delegator = oc_sub claims,
                                  ts_delegate = (case is_delegate_urn m of Some u \<Rightarrow> u | None \<Rightarrow> []),
                                  ts_created_at = is_created_at m, ts_active = (\<not> revoked (is_id m))\<rparr>)
                        (filter (\<lambda>m. \<not> (active \<and> revoked (is_id m))) summaries)))))"

record delegation_token_detail = delegation_token_summary +
  tt_revoked_at :: "datetime option"

definition get_delegation ::
  "oauth2_claims option \<Rightarrow> string \<Rightarrow> deleg_store option \<Rightarrow> exn + delegation_token_detail" where
  "get_delegation who tid storage =
     (case require_scope SCOPE_EXECUTE who of
        Inl x \<Rightarrow> Inl x
      | Inr claims \<Rightarrow>
          (case storage of
             None \<Rightarrow> Inl NO_DELEGATION_STORAGE
           | Some s \<Rightarrow>
               (case get_token_detail tid s of
                  None \<Rightarrow> Inl (HttpExn 404 ''Delegation token not found'')
                | Some d \<Rightarrow>
                    (let delegate = (case td_delegate_urn d of Some u \<Rightarrow> u | None \<Rightarrow> [])
                     in if oc_sub claims \<noteq> td_delegator_urn d \<and> oc_sub claims \<noteq> delegate
                        then Inl (HttpExn 403 ''Only the issuer or holder of this token can view it'')
                        else Inr \<lparr>ts_id = td_id d, ts_delegator = td_delegator_urn d, ts_delegate = delegate,
                                  ts_created_at = td_created_at d, ts_active = (\<not> td_is_revoked d), tt_revoked_at = td_revoked_at d\<rparr>))))"

subsection \<open>What a cascade reaches\<close>

text \<open>The specification: a token is below another one if a chain of holders leads to it, each token of the chain issued by the
  holder of the one before.\<close>

inductive below :: "(string, issued_row) dict \<Rightarrow> string \<Rightarrow> string \<Rightarrow> bool" for iss where
  here: "below iss a a"
| next_holder: "below iss a b \<Longrightarrow> c \<in> set (child_tokens iss b) \<Longrightarrow> below iss a c"

lemma child_known: "c \<in> set (child_tokens iss b) \<Longrightarrow> c \<in> set (dict_keys iss)"
  by (auto simp: child_tokens_def split: option.splits if_splits)

lemma below_known: "below iss a b \<Longrightarrow> b = a \<or> b \<in> set (dict_keys iss)"
  by (induction rule: below.induct) (auto dest: child_known)

lemma finite_below: "finite {t. below iss a t}"
proof (rule finite_subset)
  show "{t. below iss a t} \<subseteq> insert a (set (dict_keys iss))" using below_known by blast
qed simp

lemma fst_set_update [simp]: "fst ` set (AList.update k v d) = insert k (fst ` set d)"
  by (simp add: dom_update)

lemma cascade_walk_keeps: "set (dict_keys rv) \<subseteq> set (dict_keys (cascade_walk iss now reason visited stack rv))"
proof (induction iss now reason visited stack rv rule: cascade_walk.induct)
  case (2 iss now reason visited tid depth stack rv)
  show ?case
  proof (cases "tid \<in> set visited \<or> MAX_CASCADE_DEPTH < depth")
    case True
    with 2(1) show ?thesis by simp
  next
    case False
    with 2(2) [OF False] show ?thesis by simp
  qed
qed simp

lemma cascade_walk_sound:
  assumes "\<forall>p \<in> set stack. below iss start (fst p)"
  shows "set (dict_keys (cascade_walk iss now reason visited stack rv)) \<subseteq> set (dict_keys rv) \<union> {t. below iss start t}"
  using assms
proof (induction iss now reason visited stack rv rule: cascade_walk.induct)
  case (2 iss now reason visited tid depth stack rv)
  show ?case
  proof (cases "tid \<in> set visited \<or> MAX_CASCADE_DEPTH < depth")
    case True
    with 2(1,3) show ?thesis by simp
  next
    case False
    have "\<forall>p \<in> set (rev (map (\<lambda>c. (c, depth + 1)) (child_tokens iss tid)) @ stack). below iss start (fst p)"
      using 2(3) by (auto intro: below.next_holder)
    from 2(2) [OF False this] 2(3) False show ?thesis by auto
  qed
qed simp

text \<open>Completeness. Every entry of the stack lies at most as deep as there are visited tokens, so while a
  token is missing the depth limit is not reached unless more than 51 tokens are below the first token.\<close>

lemma closed_below:
  assumes "below iss a b" "a \<in> V" "\<forall>v \<in> V. set (child_tokens iss v) \<subseteq> V"
  shows "b \<in> V"
  using assms by (induction rule: below.induct) auto

definition walk_inv :: "(string, issued_row) dict \<Rightarrow> string \<Rightarrow> string list \<Rightarrow> (string \<times> nat) list \<Rightarrow> bool" where
  "walk_inv iss start visited stack \<longleftrightarrow>
     distinct visited \<and> set visited \<subseteq> {t. below iss start t} \<and>
     (\<forall>(t, k) \<in> set stack. below iss start t \<and> k \<le> length visited) \<and>
     (\<forall>v \<in> set visited. set (child_tokens iss v) \<subseteq> set visited \<union> fst ` set stack)"

lemma walk_inv_visit:
  assumes "walk_inv iss start visited ((tid, depth) # stack)" "tid \<notin> set visited"
  shows "walk_inv iss start (tid # visited) (rev (map (\<lambda>c. (c, depth + 1)) (child_tokens iss tid)) @ stack)"
proof -
  from assms(1) have tid: "below iss start tid" "depth \<le> length visited"
    and vis: "distinct visited" "set visited \<subseteq> {t. below iss start t}"
    and rest: "\<And>t k. (t, k) \<in> set stack \<Longrightarrow> below iss start t \<and> k \<le> length visited"
    and closed: "\<And>v. v \<in> set visited \<Longrightarrow> set (child_tokens iss v) \<subseteq> insert tid (set visited \<union> fst ` set stack)"
    by (auto simp: walk_inv_def)
  have "below iss start c" if "c \<in> set (child_tokens iss tid)" for c
    using tid(1) that by (rule below.next_holder)
  then have stacked: "below iss start t \<and> k \<le> length (tid # visited)"
    if "(t, k) \<in> set (rev (map (\<lambda>c. (c, depth + 1)) (child_tokens iss tid)) @ stack)" for t k
    using that rest [of t k] tid(2) by auto
  have "set (child_tokens iss v) \<subseteq> set (tid # visited) \<union> fst ` set (rev (map (\<lambda>c. (c, depth + 1)) (child_tokens iss tid)) @ stack)"
    if "v \<in> set (tid # visited)" for v
    using that closed [of v] by (auto simp: image_Un image_image)
  moreover have "distinct (tid # visited)" "set (tid # visited) \<subseteq> {t. below iss start t}"
    using vis tid(1) assms(2) by auto
  ultimately show ?thesis using stacked unfolding walk_inv_def by blast
qed

lemma walk_inv_depth:
  assumes "walk_inv iss start visited ((tid, depth) # stack)" "tid \<notin> set visited"
    and "card {t. below iss start t} \<le> Suc MAX_CASCADE_DEPTH"
  shows "depth \<le> MAX_CASCADE_DEPTH"
proof -
  have "card (set (tid # visited)) \<le> card {t. below iss start t}"
    using assms(1) by (intro card_mono finite_below) (auto simp: walk_inv_def)
  moreover have "card (set (tid # visited)) = Suc (length visited)"
    using assms(1,2) by (simp add: walk_inv_def distinct_card)
  ultimately show ?thesis using assms(1,3) by (simp add: walk_inv_def)
qed

lemma cascade_walk_complete:
  assumes "walk_inv iss start visited stack" "card {t. below iss start t} \<le> Suc MAX_CASCADE_DEPTH" "set visited \<subseteq> set (dict_keys rv)"
    and "a \<in> set visited \<union> fst ` set stack" "below iss a t"
  shows "t \<in> set (dict_keys (cascade_walk iss now reason visited stack rv))"
  using assms
proof (induction iss now reason visited stack rv rule: cascade_walk.induct)
  case (1 iss now reason visited rv)
  then show ?case using closed_below [OF 1(5), of "set visited"] by (auto simp: walk_inv_def)
next
  case (2 iss now reason visited tid depth stack rv)
  show ?case
  proof (cases "tid \<in> set visited \<or> MAX_CASCADE_DEPTH < depth")
    case True
    then have seen: "tid \<in> set visited" using walk_inv_depth [OF 2(3) _ 2(4)] by force
    then have "walk_inv iss start visited stack" using 2(3) by (auto simp: walk_inv_def)
    from 2(1) [OF True this 2(4,5) _ 2(7)] 2(6) seen True show ?thesis by auto
  next
    case False
    then have "walk_inv iss start (tid # visited) (rev (map (\<lambda>c. (c, depth + 1)) (child_tokens iss tid)) @ stack)"
      using walk_inv_visit [OF 2(3)] by blast
    from 2(2) [OF False this 2(4) _ _ 2(7)] 2(5,6) False show ?thesis by auto
  qed
qed

lemma revoke_cascade_sound:
  "deleg_is_revoked t (revoke_cascade now tid reason s) \<Longrightarrow> deleg_is_revoked t s \<or> below (dv_issued s) tid t"
  using cascade_walk_sound [of "[(tid, 0)]" "dv_issued s" tid now reason "[]" "dv_revoked s"]
  by (auto simp: deleg_is_revoked_def revoke_cascade_def below.here)

lemma revoke_cascade_keeps: "deleg_is_revoked t s \<Longrightarrow> deleg_is_revoked t (revoke_cascade now tid reason s)"
  using cascade_walk_keeps [of "dv_revoked s" "dv_issued s" now reason "[]" "[(tid, 0)]"]
  by (auto simp: deleg_is_revoked_def revoke_cascade_def)

lemma revoke_cascade_complete:
  assumes "below (dv_issued s) tid t" "card {t. below (dv_issued s) tid t} \<le> Suc MAX_CASCADE_DEPTH"
  shows "deleg_is_revoked t (revoke_cascade now tid reason s)"
proof -
  have "walk_inv (dv_issued s) tid [] [(tid, 0)]" by (simp add: walk_inv_def below.here)
  from cascade_walk_complete [OF this assms(2) _ _ assms(1)] show ?thesis
    by (simp add: deleg_is_revoked_def revoke_cascade_def)
qed

subsection \<open>Revocation is permanent\<close>

text \<open>The operations of the store that write.\<close>

datatype deleg_op =
    Issue datetime string string "string option"
  | RevokeOne datetime string "string option"
  | RevokeBelow "nat \<Rightarrow> datetime" string "string option"

fun deleg_step :: "deleg_op \<Rightarrow> deleg_store \<Rightarrow> deleg_store" where
  "deleg_step (Issue now tid delegator delegate) s = register_issued now tid delegator delegate s"
| "deleg_step (RevokeOne now tid reason) s = deleg_revoke now tid reason s"
| "deleg_step (RevokeBelow now tid reason) s = revoke_cascade now tid reason s"

lemma deleg_step_keeps: "deleg_is_revoked t s \<Longrightarrow> deleg_is_revoked t (deleg_step op s)"
proof (cases op)
  case (RevokeBelow now tid reason)
  then show "deleg_is_revoked t s \<Longrightarrow> deleg_is_revoked t (deleg_step op s)" by (simp add: revoke_cascade_keeps)
qed (auto simp: register_issued_def deleg_revoke_def deleg_is_revoked_def)

lemma deleg_run_keeps: "deleg_is_revoked t s \<Longrightarrow> deleg_is_revoked t (fold deleg_step ops s)"
  by (induction ops arbitrary: s) (auto intro: deleg_step_keeps)

lemma validation_needs:
  assumes "validate_delegation lb ck now token action = Inr r" "vr_success r"
  obtains iss key claims where "parse_iss_from_jwt lb token = Some iss" "iss \<noteq> []"
    "\<And>l. dk_allowed_delegators ck = Some l \<Longrightarrow> iss \<in> set l" "dk_key_of ck iss = Inr key" "dl_decode lb token key = Inr claims"
    "check_delegation_claims lb ck now action iss claims = Inr r"
proof -
  from assms obtain iss where "parse_iss_from_jwt lb token = Some iss" "iss \<noteq> []"
    "\<not> (case dk_allowed_delegators ck of Some l \<Rightarrow> iss \<notin> set l | None \<Rightarrow> False)"
    by (auto simp: validate_delegation_def refused_def split: option.splits if_splits)
  with assms that show thesis
    by (fastforce simp: validate_delegation_def refused_def split: option.splits if_splits sum.splits)
qed

subsection \<open>Properties\<close>

text \<open>C37: once its delegator has deleted a delegation that has at most 51 tokens below it (itself included), neither it nor any token issued
  further down the chain is accepted again by a validation that asks this store about revocations, whatever is issued or revoked
  afterwards; nobody but the delegator can delete it, and the cascade revokes exactly what is below it. The bound is needed: the walk goes depth first
  and stops at depth 50, so with 52 tokens below even one two steps away can stay valid (\<open>cascade_misses_near_token\<close>).\<close>

theorem deleted_delegations_refused:
  assumes "delete_delegation who now tid (Some s) = (Inr (), Some s')" "card {t. below (dv_issued s) tid t} \<le> 51"
    and "dk_is_revoked ck = Some (\<lambda>j. deleg_is_revoked j (fold deleg_step ops s'))"
    and "validate_delegation lb ck t token action = Inr r" "vr_success r"
    and "vr_jti r = Some j" "j \<noteq> []"
  shows "\<not> below (dv_issued s) tid j \<and> (\<exists>cl. who = Some cl \<and> get_delegator tid s = Some (oc_sub cl)) \<and>
    (\<forall>i. deleg_is_revoked i s' \<longleftrightarrow> deleg_is_revoked i s \<or> below (dv_issued s) tid i)"
proof -
  from assms(1) have s': "s' = revoke_cascade now tid None s" and who: "\<exists>cl. who = Some cl \<and> get_delegator tid s = Some (oc_sub cl)"
    by (auto simp: delete_delegation_def require_scope_def split: option.splits if_splits sum.splits)
  have exact: "deleg_is_revoked i s' \<longleftrightarrow> deleg_is_revoked i s \<or> below (dv_issued s) tid i" for i
    using revoke_cascade_sound [of i now tid None s] revoke_cascade_keeps [of i s now tid None]
      revoke_cascade_complete [of s tid i now None] assms(2) by (auto simp: s' MAX_CASCADE_DEPTH_def)
  from validation_needs [OF assms(4,5)] obtain iss claims where "check_delegation_claims lb ck t action iss claims = Inr r" by metis
  with assms(3,5-7) have "\<not> deleg_is_revoked j (fold deleg_step ops s')"
    by (auto simp: check_delegation_claims_def refused_def map_sum_Inr split: if_splits option.splits sum.splits)
  with exact deleg_run_keeps who show ?thesis by blast
qed

definition sample_delegations :: deleg_store where
  "sample_delegations = \<lparr>dv_revoked = [], dv_issued = [(''t1'', ''A'', Some ''B'', 0), (''t2'', ''B'', Some ''C'', 0), (''t3'', ''D'', Some ''E'', 0)]\<rparr>"

definition sample_delegation_lib :: "(unit, unit) delegation_lib" where
  "sample_delegation_lib =
     \<lparr>dl_b64url = Some,
      dl_loads = (\<lambda>s. Some (PDict [(''iss'', PStr ''A''), (''jti'', PStr ''t3''), (''scp'', PList [PStr ''task.execute''])])),
      dl_decode = (\<lambda>token key. Inr [(''iss'', PStr ''A''), (''jti'', PStr ''t3''), (''scp'', PList [PStr ''task.execute''])]),
      dl_encode = (\<lambda>h c k. ''h.cccc.s''), dl_str = (\<lambda>v. [])\<rparr>"

definition sample_deleted :: deleg_store where
  "sample_deleted = revoke_cascade (\<lambda>k. 1) ''t1'' None sample_delegations"

theorem deleted_delegations_refused_witness:
  "\<not> below (dv_issued sample_delegations) ''t1'' ''t3'' \<and> deleg_is_revoked ''t2'' sample_deleted"
proof -
  let ?who = "Some \<lparr>oc_sub = ''A'', oc_scope = [''asap:execute''], oc_exp = 0\<rparr>"
  let ?ck = "\<lparr>dk_key_of = (\<lambda>i. Inr ()), dk_usage_count = None, dk_allowed_delegators = None,
    dk_is_revoked = Some (\<lambda>j. deleg_is_revoked j (fold deleg_step [] sample_deleted))\<rparr>"
  let ?r = "\<lparr>vr_success = True, vr_error = None, vr_delegator = Some ''A'', vr_delegate = PNone, vr_jti = Some ''t3'',
    vr_scopes = Some [PStr ''task.execute'']\<rparr>"
  have deleted: "delete_delegation ?who (\<lambda>k. 1) ''t1'' (Some sample_delegations) = (Inr (), Some sample_deleted)"
    by (simp add: delete_delegation_def require_scope_def SCOPE_EXECUTE_def get_delegator_def sample_delegations_def sample_deleted_def)
  have "{t. below (dv_issued sample_delegations) ''t1'' t} \<subseteq> {''t1'', ''t2'', ''t3''}"
    by (auto simp: sample_delegations_def dest: below_known)
  then have "card {t. below (dv_issued sample_delegations) ''t1'' t} \<le> card {''t1'', ''t2'', ''t3''}"
    by (rule card_mono [rotated]) simp
  also have "\<dots> = 3" by simp
  finally have few: "card {t. below (dv_issued sample_delegations) ''t1'' t} \<le> 51" by simp
  have revoked: "deleg_is_revoked ''t2'' sample_deleted" "\<not> deleg_is_revoked ''t3'' sample_deleted" by code_simp+
  have split: "split_char (CHR ''.'') ''h.cccc.s'' = [''h'', ''cccc'', ''s'']" by code_simp
  have valid: "validate_delegation sample_delegation_lib ?ck 5 ''h.cccc.s'' ''task.execute'' = Inr ?r"
    using revoked(2)
    by (simp add: validate_delegation_def parse_iss_from_jwt_def parse_claim_from_jwt_def split b64url_decode_def sample_delegation_lib_def
        py_str_def check_delegation_claims_def expiry_of_def scope_includes_action_def scopes_of_def token_jti_def task_limit_reached_def
        token_delegate_def X_ASAP_CONSTRAINTS_CLAIM_def WILDCARD_SCOPE_def)
  have "dk_is_revoked ?ck = Some (\<lambda>j. deleg_is_revoked j (fold deleg_step [] sample_deleted))" "vr_success ?r" "vr_jti ?r = Some ''t3''" "''t3'' \<noteq> []"
    by simp_all
  from deleted_delegations_refused [OF deleted few this(1) valid this(2-4)] revoked(1) show ?thesis by blast
qed

text \<open>What the library promises of signing: a compact token has three parts, its payload decodes to the claims that were signed, and with
  one of the two accepted algorithms in the header the signature verifies under the matching public key.\<close>

definition signs_readably :: "('pk, 'sk) delegation_lib \<Rightarrow> 'sk \<Rightarrow> 'pk \<Rightarrow> bool" where
  "signs_readably lb sk pk \<longleftrightarrow>
     (\<forall>hd cl. map_of hd ''alg'' \<in> {Some (PStr ''Ed25519''), Some (PStr ''EdDSA'')} \<longrightarrow>
        (\<exists>h p sig raw. split_char (CHR ''.'') (dl_encode lb hd cl sk) = [h, p, sig] \<and> b64url_decode lb p = Some raw \<and>
           dl_loads lb raw = Some (PDict cl)) \<and>
        dl_decode lb (dl_encode lb hd cl sk) pk = Inr cl)"

lemma created_token:
  assumes "create_delegation_jwt lb a b scopes c sk token_id now fresh = Inr token" "signs_readably lb sk pk" "a \<noteq> []"
  defines "jti \<equiv> case token_id of Some t \<Rightarrow> t | None \<Rightarrow> ''del_'' @ fresh"
  shows "parse_iss_from_jwt lb token = Some a \<and> dl_decode lb token pk = Inr (delegation_claims a b scopes c now jti) \<and> scopes \<noteq> []"
proof -
  let ?h = "[(''alg'', PStr ''Ed25519''), (''typ'', PStr ''JWT'')]" and ?cl = "delegation_claims a b scopes c now jti"
  have token: "token = dl_encode lb ?h ?cl sk" "scopes \<noteq> []"
    using assms(1) by (auto simp: create_delegation_jwt_def jti_def split: if_splits)
  have "map_of ?cl ''iss'' = Some (PStr a)" by (simp add: delegation_claims_def)
  moreover have "(\<exists>h p sig raw. split_char (CHR ''.'') token = [h, p, sig] \<and> b64url_decode lb p = Some raw \<and> dl_loads lb raw = Some (PDict ?cl)) \<and>
      dl_decode lb token pk = Inr ?cl"
    using assms(2) unfolding signs_readably_def token(1) by (metis insertI1 map_of_Cons_code(2))
  ultimately show ?thesis using token(2) by (auto simp: parse_iss_from_jwt_def parse_claim_from_jwt_def py_str_def)
qed

lemma map_of_delegation_claims:
  "map_of (delegation_claims a b scopes c now jti) ''iss'' = Some (PStr a)"
  "map_of (delegation_claims a b scopes c now jti) ''aud'' = Some (PStr b)"
  "map_of (delegation_claims a b scopes c now jti) ''jti'' = Some (PStr jti)"
  "map_of (delegation_claims a b scopes c now jti) ''exp'' = Some (PInt (unix_seconds (cn_expires_at c)))"
  "map_of (delegation_claims a b scopes c now jti) ''scp'' = Some (PList (map PStr scopes))"
  "map_of (delegation_claims a b scopes c now jti) X_ASAP_CONSTRAINTS_CLAIM =
     (if constraint_claims c = [] then None else Some (PDict (constraint_claims c)))"
  by (simp_all add: delegation_claims_def X_ASAP_CONSTRAINTS_CLAIM_def)

lemma issued_task_limit:
  assumes "jti \<noteq> []"
  shows "task_limit_reached lb usage (delegation_claims a b scopes c now jti) =
    Inr (\<exists>used n. usage = Some used \<and> cn_max_tasks c = Some n \<and> n \<le> used jti)"
  using assms
  by (auto simp: task_limit_reached_def token_jti_def map_of_delegation_claims py_str_def constraint_claims_def int_or_none_def
      split: option.splits)

text \<open>C38: issuing and validating fit together. A token \<open>create_delegation_jwt\<close> made, with a given identifier or one it generated, and read
  back with the public key that matches its key (the delegator is not empty and among the allowed ones, the identifier is not empty),
  is accepted for an action exactly if the action or \<open>*\<close> is among the scopes it was created for, its expiry has not been reached (an expiry not
  after 1970 counts as none), it is not revoked, and its task limit is not used up, each of the last two where the caller asks for the check;
  and then the result names the delegator, the delegate, the identifier and the scopes it was created for. The library is assumed to sign so that
  what was signed is what is read back.\<close>

theorem delegation_round_trip:
  assumes "create_delegation_jwt lb a b scopes c sk token_id now fresh = Inr token" "signs_readably lb sk pk"
    and "dk_key_of ck a = Inr pk" "a \<noteq> []" "\<forall>l. dk_allowed_delegators ck = Some l \<longrightarrow> a \<in> set l"
    and "jti = (case token_id of Some t \<Rightarrow> t | None \<Rightarrow> ''del_'' @ fresh)" "jti \<noteq> []"
  shows "\<exists>r. validate_delegation lb ck t token action = Inr r \<and>
    (vr_success r \<longleftrightarrow> (''*'' \<in> set scopes \<or> action \<in> set scopes) \<and>
       (0 < unix_seconds (cn_expires_at c) \<longrightarrow> t < of_int (unix_seconds (cn_expires_at c))) \<and>
       (\<forall>is_revoked. dk_is_revoked ck = Some is_revoked \<longrightarrow> \<not> is_revoked jti) \<and>
       (\<forall>used n. dk_usage_count ck = Some used \<longrightarrow> cn_max_tasks c = Some n \<longrightarrow> used jti < n)) \<and>
    (vr_success r \<longrightarrow> vr_delegator r = Some a \<and> vr_delegate r = PStr b \<and> vr_jti r = Some jti \<and> vr_scopes r = Some (map PStr scopes))"
proof -
  let ?cl = "delegation_claims a b scopes c now jti"
  have "parse_iss_from_jwt lb token = Some a" "dl_decode lb token pk = Inr ?cl"
    using created_token [OF assms(1,2,4)] by (simp_all add: assms(6))
  then have run: "validate_delegation lb ck t token action = check_delegation_claims lb ck t action a ?cl"
    using assms(3-5) by (auto simp: validate_delegation_def split: option.splits)
  have scopes: "scope_includes_action (scopes_of ?cl) action \<longleftrightarrow> ''*'' \<in> set scopes \<or> action \<in> set scopes"
    by (auto simp: scopes_of_def map_of_delegation_claims scope_includes_action_def WILDCARD_SCOPE_def)
  have expiry: "expiry_of ?cl = Inr (if unix_seconds (cn_expires_at c) \<le> 0 then None else Some (unix_seconds (cn_expires_at c)))"
    by (simp add: expiry_of_def map_of_delegation_claims int_or_none_def)
  have jti: "token_jti lb ?cl = Some jti" by (simp add: token_jti_def map_of_delegation_claims py_str_def)
  have delegate: "token_delegate lb ?cl = PStr b" by (simp add: token_delegate_def map_of_delegation_claims py_str_def)
  show ?thesis
    unfolding run check_delegation_claims_def expiry scopes jti delegate issued_task_limit [OF assms(7)]
    using assms(7)
    by (auto simp: refused_def not_le not_less scopes_of_def map_of_delegation_claims split: option.splits)
qed

text \<open>A library that keeps the promise: the claims are numbered, and a token is as long as the number of its claims says.\<close>

definition unary :: "pydict \<Rightarrow> string" where
  "unary cl = replicate (4 * to_nat cl) (CHR ''x'')"

definition unary_lib :: "(unit, unit) delegation_lib" where
  "unary_lib =
     \<lparr>dl_b64url = Some, dl_loads = (\<lambda>s. Some (PDict (from_nat (length s div 4)))),
      dl_decode = (\<lambda>token key. Inr (from_nat ((length token - 4) div 4))),
      dl_encode = (\<lambda>h cl k. ''h.'' @ unary cl @ ''.s''), dl_str = (\<lambda>v. [])\<rparr>"

lemma split_unary: "split_char (CHR ''.'') (''h.'' @ unary cl @ ''.s'') = [''h'', unary cl, ''s'']"
proof -
  have "split_char (CHR ''.'') (replicate n (CHR ''x'') @ ''.s'') = [replicate n (CHR ''x''), ''s'']" for n
    by (induction n) simp_all
  then show ?thesis by (simp add: unary_def)
qed

lemma unary_signs_readably: "signs_readably unary_lib sk pk"
  using split_unary by (auto simp: signs_readably_def unary_lib_def b64url_decode_def unary_def)

definition sample_constraints :: delegation_constraints where
  "sample_constraints = \<lparr>cn_max_cost_usd = None, cn_max_tasks = Some 3, cn_expires_at = 100000000\<rparr>"

theorem delegation_round_trip_witness:
  "\<exists>token r. create_delegation_jwt unary_lib ''A'' ''B'' [''data.read''] sample_constraints () None 0 ''1'' = Inr token \<and>
     validate_delegation unary_lib \<lparr>dk_key_of = (\<lambda>i. Inr ()), dk_usage_count = Some (\<lambda>j. 2), dk_allowed_delegators = Some [''A''],
       dk_is_revoked = Some (\<lambda>j. False)\<rparr> 99 token ''data.read'' = Inr r \<and>
     vr_success r \<and> vr_delegate r = PStr ''B'' \<and> vr_jti r = Some ''del_1''"
proof -
  let ?ck = "\<lparr>dk_key_of = (\<lambda>i. Inr ()), dk_usage_count = Some (\<lambda>j. 2 :: int), dk_allowed_delegators = Some [''A''],
     dk_is_revoked = Some (\<lambda>j. False)\<rparr>"
  obtain token where made: "create_delegation_jwt unary_lib ''A'' ''B'' [''data.read''] sample_constraints () None 0 ''1'' = Inr token"
    by (simp add: create_delegation_jwt_def)
  have sample: "unix_seconds (cn_expires_at sample_constraints) = 100" "cn_max_tasks sample_constraints = Some 3"
    by (simp_all add: unix_seconds_def sample_constraints_def py_trunc_def)
  have "dk_key_of ?ck ''A'' = Inr ()" "''A'' \<noteq> []" "\<forall>l. dk_allowed_delegators ?ck = Some l \<longrightarrow> ''A'' \<in> set l"
    "''del_1'' = (case None of Some t \<Rightarrow> t | None \<Rightarrow> ''del_'' @ ''1'')" "''del_1'' \<noteq> []" by simp_all
  from delegation_round_trip [OF made unary_signs_readably this, of 99 "''data.read''"] made show ?thesis
    by (auto simp: sample)
qed

subsection \<open>The depth limit cuts more than depth\<close>

text \<open>The walk goes depth first and never comes back to a visited token, so a token first met at the limit hides what is below it, even
  if a short chain leads there. Here \<open>x\<close> and \<open>lost\<close> are one and two steps below the deleted token, but a long
  chain that returns to the first holder is walked first.\<close>

definition ring_names :: string where
  "ring_names = ''ABCDEFGHIJKLMNOPQRSTUVWXYZabcdefghijklmnopqrstuvwxyz''"

definition ring_issued :: "(string, issued_row) dict" where
  "ring_issued =
     (''first'', ''owner'', Some ''A'', 0) # (''x'', ''A'', Some ''leaf'', 0) #
     map (\<lambda>(a, b). ([a], [a], Some [b], 0)) (zip (take 48 ring_names) (drop 1 (take 49 ring_names))) @
     [(''back'', [ring_names ! 48], Some ''A'', 0), (''lost'', ''leaf'', None, 0)]"

lemma cascade_misses_near_token:
  "''x'' \<in> set (child_tokens ring_issued ''first'') \<and> ''lost'' \<in> set (child_tokens ring_issued ''x'') \<and>
   \<not> deleg_is_revoked ''lost'' (revoke_cascade (\<lambda>k. 1) ''first'' None \<lparr>dv_revoked = [], dv_issued = ring_issued\<rparr>)"
  by code_simp

end
