(* ===== verification/Webhook.thy ===== *)
theory Webhook
  imports Handlers Http_Base Rate_Limit
begin

text \<open>
  Webhook delivery (\<open>src/asap/transport/webhook.py\<close>): the check of callback addresses, signed delivery, and the
  manager that retries with backoff, limits the rate per address and keeps the deliveries that failed for good.

  Parameters: \<open>webhook_lib\<close> holds \<open>urlparse\<close>, the classification of IP literals of \<open>ipaddress\<close>, \<open>json.dumps\<close>, HMAC-SHA256 and
  which exceptions are \<open>httpx.HTTPError\<close>s. What the name service and the receiver answer on one attempt is a
  \<open>delivery_env\<close>; the manager is one client's view, calls of other tasks on it are not interleaved.
\<close>

subsection \<open>Callback addresses\<close>

record ip_flags =
  ip_is_private :: bool
  ip_is_loopback :: bool
  ip_is_link_local :: bool
  ip_is_reserved :: bool

record webhook_lib =
  wl_urls :: url_lib
  wl_ip :: "string \<Rightarrow> ip_flags option"
  wl_dumps :: "pydict \<Rightarrow> bytes"
  wl_hmac :: "bytes \<Rightarrow> bytes \<Rightarrow> string"
  wl_is_http_error :: "string \<Rightarrow> bool"
  wl_shown_float :: "rat \<Rightarrow> string"

definition is_ip_blocked :: "webhook_lib \<Rightarrow> string \<Rightarrow> bool" where
  "is_ip_blocked lb addr =
     (case wl_ip lb addr of
        None \<Rightarrow> False
      | Some ip \<Rightarrow> ip_is_private ip \<or> ip_is_loopback ip \<or> ip_is_link_local ip \<or> ip_is_reserved ip)"

definition url_rejected :: "string \<Rightarrow> string \<Rightarrow> pydict option \<Rightarrow> exn" where
  "url_rejected url reason details = raised (webhook_url_validation_error url reason details)"

text \<open>\<open>dns\<close> is what \<open>getaddrinfo\<close> ends with: an exception, or the addresses in order, possibly repeated.\<close>

definition resolve_hostname :: "(string \<Rightarrow> exn + string list) \<Rightarrow> string \<Rightarrow> exn + string list" where
  "resolve_hostname dns hostname =
     (case dns hostname of
        Inl (OtherExn t x) \<Rightarrow>
          if t = ''gaierror''
          then Inl (url_rejected hostname (''DNS resolution failed for '' @ [CHR 0x27] @ hostname @ [CHR 0x27] @ '': '' @ x) None)
          else Inl (OtherExn t x)
      | Inl x \<Rightarrow> Inl x
      | Inr addrs \<Rightarrow> Inr (fromkeys addrs))"

definition ALLOWED_SCHEMES_STRICT :: "string list" where
  "ALLOWED_SCHEMES_STRICT = [''https'']"

definition ALLOWED_SCHEMES_RELAXED :: "string list" where
  "ALLOWED_SCHEMES_RELAXED = [''http'', ''https'']"

definition in_quotes :: "string \<Rightarrow> string" where
  "in_quotes s = [CHR 0x27] @ s @ [CHR 0x27]"

definition validate_callback_url ::
  "webhook_lib \<Rightarrow> (string \<Rightarrow> exn + string list) \<Rightarrow> bool \<Rightarrow> string \<Rightarrow> exn + unit" where
  "validate_callback_url lb dns require_https url =
     (case ul_parse (wl_urls lb) url of
        Inl x \<Rightarrow> Inl (lift_exn x)
      | Inr p \<Rightarrow>
          (let allowed = (if require_https then ALLOWED_SCHEMES_STRICT else ALLOWED_SCHEMES_RELAXED);
               hostname = (case up_hostname p of None \<Rightarrow> [] | Some h \<Rightarrow> h)
           in if up_scheme p \<notin> set allowed
              then Inl (url_rejected url (''Scheme '' @ in_quotes (up_scheme p) @ '' is not allowed. Allowed schemes: '' @ str_join '', '' allowed) None)
              else if hostname = [] then Inl (url_rejected url ''URL must include a hostname'' None)
              else if is_ip_blocked lb hostname
              then Inl (url_rejected url (''Host '' @ in_quotes hostname @ '' resolves to a blocked address range (private/loopback/link-local)'') None)
              else (case resolve_hostname dns hostname of
                      Inl x \<Rightarrow> Inl x
                    | Inr addrs \<Rightarrow>
                        (case find (is_ip_blocked lb) addrs of
                           None \<Rightarrow> Inr ()
                         | Some ip \<Rightarrow>
                             Inl (url_rejected url (''Host '' @ in_quotes hostname @ '' resolved to blocked IP '' @ in_quotes ip @ '' (private/loopback/link-local)'')
                               (Some [(''resolved_ips'', PList (map PStr addrs))]))))))"

definition ws_to_http :: "string \<Rightarrow> string option" where
  "ws_to_http scheme = (if scheme = ''ws'' then Some ''http'' else if scheme = ''wss'' then Some ''https'' else None)"

definition validate_agent_endpoint_url ::
  "webhook_lib \<Rightarrow> (string \<Rightarrow> exn + string list) \<Rightarrow> bool \<Rightarrow> string \<Rightarrow> exn + unit" where
  "validate_agent_endpoint_url lb dns require_https url =
     (case ul_parse (wl_urls lb) url of
        Inl x \<Rightarrow> Inl (lift_exn x)
      | Inr p \<Rightarrow>
          validate_callback_url lb dns require_https
            (case ws_to_http (lower (up_scheme p)) of
               None \<Rightarrow> url
             | Some scheme \<Rightarrow> ul_unparse (wl_urls lb) (scheme, up_netloc p, up_path p, up_params p, up_query p, up_fragment p)))"

subsection \<open>Delivery\<close>

record webhook_result =
  wr_url :: string
  wr_status_code :: int
  wr_success :: bool
  wr_elapsed_ms :: rat
  wr_error :: "string option"

record webhook_delivery =
  wd_secret :: "bytes option"
  wd_timeout_seconds :: rat
  wd_require_https :: bool

definition DEFAULT_WEBHOOK_TIMEOUT :: rat where
  "DEFAULT_WEBHOOK_TIMEOUT = 10"

definition X_ASAP_SIGNATURE_HEADER :: string where
  "X_ASAP_SIGNATURE_HEADER = ''X-ASAP-Signature''"

definition compute_signature :: "webhook_lib \<Rightarrow> bytes \<Rightarrow> bytes \<Rightarrow> string" where
  "compute_signature lb body secret = ''sha256='' @ wl_hmac lb secret body"

definition verify_signature :: "webhook_lib \<Rightarrow> bytes \<Rightarrow> bytes \<Rightarrow> string \<Rightarrow> bool" where
  "verify_signature lb body secret signature \<longleftrightarrow> compute_signature lb body secret = signature"

text \<open>One attempt: the answers of the name service and of the receiver, and the rounded time it took.\<close>

record delivery_env =
  de_dns :: "string \<Rightarrow> exn + string list"
  de_outcome :: http_outcome
  de_elapsed_ms :: rat

type_synonym posted = "string \<times> (string \<times> string) list \<times> bytes"

definition webhook_headers :: "webhook_lib \<Rightarrow> webhook_delivery \<Rightarrow> bytes \<Rightarrow> (string \<times> string) list \<Rightarrow> (string \<times> string) list" where
  "webhook_headers lb d body extra =
     dict_merge ((''Content-Type'', ''application/json'') #
       (case wd_secret d of None \<Rightarrow> [] | Some secret \<Rightarrow> [(X_ASAP_SIGNATURE_HEADER, compute_signature lb body secret)])) extra"

definition result_of_outcome ::
  "webhook_lib \<Rightarrow> webhook_delivery \<Rightarrow> string \<Rightarrow> delivery_env \<Rightarrow> exn + webhook_result" where
  "result_of_outcome lb d url env =
     (let failed = (\<lambda>msg. Inr \<lparr>wr_url = url, wr_status_code = 0, wr_success = False, wr_elapsed_ms = de_elapsed_ms env, wr_error = Some msg\<rparr>)
      in case de_outcome env of
           Delivered r \<Rightarrow>
             Inr \<lparr>wr_url = url, wr_status_code = rsp_status r, wr_success = (200 \<le> rsp_status r \<and> rsp_status r < 300),
                  wr_elapsed_ms = de_elapsed_ms env, wr_error = None\<rparr>
         | TimedOut x \<Rightarrow> failed (''Timeout after '' @ wl_shown_float lb (wd_timeout_seconds d) @ ''s: '' @ x)
         | ConnectFailed x \<Rightarrow> failed x
         | HttpFailed t x \<Rightarrow> if wl_is_http_error lb t then failed x else Inl (OtherExn t x))"

definition webhook_deliver ::
  "webhook_lib \<Rightarrow> webhook_delivery \<Rightarrow> string \<Rightarrow> pydict \<Rightarrow> (string \<times> string) list \<Rightarrow> delivery_env \<Rightarrow> posted list \<Rightarrow>
   (posted list, exn, webhook_result) outcome" where
  "webhook_deliver lb d url pl extra env posts =
     (case validate_callback_url lb (de_dns env) (wd_require_https d) url of
        Inl x \<Rightarrow> (Inl x, posts)
      | Inr _ \<Rightarrow>
          (let body = wl_dumps lb pl
           in (result_of_outcome lb d url env, posts @ [(url, webhook_headers lb d body extra, body)])))"

subsection \<open>Retries\<close>

definition DEFAULT_MAX_RETRIES :: int where "DEFAULT_MAX_RETRIES = 5"
definition DEFAULT_RETRY_BASE_DELAY :: rat where "DEFAULT_RETRY_BASE_DELAY = 1"
definition DEFAULT_RETRY_MAX_DELAY :: rat where "DEFAULT_RETRY_MAX_DELAY = 16"
definition DEFAULT_WEBHOOK_RATE_PER_SECOND :: rat where "DEFAULT_WEBHOOK_RATE_PER_SECOND = 10"
definition MAX_DEAD_LETTERS :: nat where "MAX_DEAD_LETTERS = 1000"

record retry_policy =
  po_max_retries :: int
  po_base_delay :: rat
  po_max_delay :: rat
  po_rate_per_second :: rat

definition backoff_delay :: "retry_policy \<Rightarrow> nat \<Rightarrow> rat" where
  "backoff_delay p attempt = min (po_base_delay p * 2 ^ attempt) (po_max_delay p)"

record dead_letter_entry =
  dle_url :: string
  dle_payload :: pydict
  dle_last_result :: webhook_result
  dle_attempts :: int
  dle_created_at :: rat

text \<open>The bucket of one address. It is the bucket of the WebSocket limiter with \<open>consume(1)\<close>.\<close>

definition ub_init :: "rat \<Rightarrow> rat \<Rightarrow> py_exn + token_bucket" where
  "ub_init rate now =
     (if rate \<le> 0 then Inl (ValueError ''rate must be positive'')
      else Inr \<lparr>tb_rate = rate, tb_capacity = rate, tb_tokens = rate, tb_last_refill = now\<rparr>)"

definition ub_refill :: "rat \<Rightarrow> token_bucket \<Rightarrow> token_bucket" where
  "ub_refill now b =
     b\<lparr>tb_tokens := min (tb_capacity b) (tb_tokens b + (now - tb_last_refill b) * tb_rate b), tb_last_refill := now\<rparr>"

definition ub_consume :: "rat \<Rightarrow> token_bucket \<Rightarrow> bool \<times> token_bucket" where
  "ub_consume now b =
     (let b1 = ub_refill now b
      in if 1 \<le> tb_tokens b1 then (True, b1\<lparr>tb_tokens := tb_tokens b1 - 1\<rparr>) else (False, b1))"

definition seconds_until_available :: "rat \<Rightarrow> token_bucket \<Rightarrow> rat \<times> token_bucket" where
  "seconds_until_available now b =
     (let b1 = ub_refill now b
      in (if 1 \<le> tb_tokens b1 then 0 else (1 - tb_tokens b1) / tb_rate b1, b1))"

record webhook_manager =
  wm_delivery :: webhook_delivery
  wm_policy :: retry_policy
  wm_has_callback :: bool
  wm_dead_letters :: "dead_letter_entry list"
  wm_url_buckets :: "(string, token_bucket) dict"
  wm_max_buckets :: nat
  wm_notified :: "dead_letter_entry list"
  wm_posts :: "posted list"
  wm_sleeps :: "rat list"

definition webhook_manager_init :: "webhook_delivery \<Rightarrow> retry_policy option \<Rightarrow> bool \<Rightarrow> webhook_manager" where
  "webhook_manager_init d policy callback =
     \<lparr>wm_delivery = d,
      wm_policy = (case policy of Some p \<Rightarrow> p | None \<Rightarrow>
        \<lparr>po_max_retries = DEFAULT_MAX_RETRIES, po_base_delay = DEFAULT_RETRY_BASE_DELAY, po_max_delay = DEFAULT_RETRY_MAX_DELAY,
         po_rate_per_second = DEFAULT_WEBHOOK_RATE_PER_SECOND\<rparr>),
      wm_has_callback = callback, wm_dead_letters = [], wm_url_buckets = [], wm_max_buckets = 10000,
      wm_notified = [], wm_posts = [], wm_sleeps = []\<rparr>"

definition get_bucket :: "rat \<Rightarrow> string \<Rightarrow> webhook_manager \<Rightarrow> (webhook_manager, exn, token_bucket) outcome" where
  "get_bucket now url m =
     (case map_of (wm_url_buckets m) url of
        Some b \<Rightarrow> (Inr b, m)
      | None \<Rightarrow>
          (let m1 = (if wm_max_buckets m \<le> length (wm_url_buckets m) then m\<lparr>wm_url_buckets := tl (wm_url_buckets m)\<rparr> else m)
           in case ub_init (po_rate_per_second (wm_policy m)) now of
                Inl x \<Rightarrow> (Inl (lift_exn x), m1)
              | Inr b \<Rightarrow> (Inr b, m1\<lparr>wm_url_buckets := AList.update url b (wm_url_buckets m1)\<rparr>)))"

text \<open>The waiting loop. Each round reads the clock in \<open>consume\<close> and, when that fails, again for the time to sleep; the
  list holds those pairs of readings. \<^const>\<open>None\<close>: still waiting when the list ends.\<close>

fun wait_for_token :: "(rat \<times> rat) list \<Rightarrow> token_bucket \<Rightarrow> (rat list \<times> token_bucket) option" where
  "wait_for_token [] b = None"
| "wait_for_token ((t, t') # clock) b =
     (case ub_consume t b of
        (True, b1) \<Rightarrow> Some ([], b1)
      | (False, b1) \<Rightarrow>
          (let (wait, b2) = seconds_until_available t' b1
           in map_option (\<lambda>(ws, b3). (wait # ws, b3)) (wait_for_token clock b2)))"

text \<open>One attempt of the manager: when the bucket is created, the clock of the waiting loop, and the delivery.\<close>

record webhook_attempt =
  wa_bucket_now :: rat
  wa_clock :: "(rat \<times> rat) list"
  wa_env :: delivery_env

definition wait_for_rate_limit ::
  "webhook_attempt \<Rightarrow> string \<Rightarrow> webhook_manager \<Rightarrow> (webhook_manager, exn, unit) outcome option" where
  "wait_for_rate_limit a url m =
     (case get_bucket (wa_bucket_now a) url m of
        (Inl x, m1) \<Rightarrow> Some (Inl x, m1)
      | (Inr b, m1) \<Rightarrow>
          map_option (\<lambda>(ws, b'). (Inr (), m1\<lparr>wm_url_buckets := AList.update url b' (wm_url_buckets m1), wm_sleeps := wm_sleeps m1 @ ws\<rparr>))
            (wait_for_token (wa_clock a) b))"

text \<open>A deque of bounded length drops its oldest entry.\<close>

definition send_to_dead_letter :: "rat \<Rightarrow> string \<Rightarrow> pydict \<Rightarrow> webhook_result \<Rightarrow> webhook_manager \<Rightarrow> webhook_manager" where
  "send_to_dead_letter now url pl last_result m =
     (let e = \<lparr>dle_url = url, dle_payload = pl, dle_last_result = last_result,
               dle_attempts = 1 + po_max_retries (wm_policy m), dle_created_at = now\<rparr>;
          dl = wm_dead_letters m @ [e]
      in m\<lparr>wm_dead_letters := drop (length dl - MAX_DEAD_LETTERS) dl,
           wm_notified := wm_notified m @ (if wm_has_callback m then [e] else [])\<rparr>)"

definition NON_RETRYABLE :: "int \<Rightarrow> bool" where
  "NON_RETRYABLE status \<longleftrightarrow> 400 \<le> status \<and> status < 500"

text \<open>The loop over the attempts: \<open>left\<close> attempts remain, \<open>k\<close> were made; \<^const>\<open>None\<close> when a waiting loop has not ended.\<close>

fun deliver_loop ::
  "webhook_lib \<Rightarrow> string \<Rightarrow> pydict \<Rightarrow> (string \<times> string) list \<Rightarrow> (nat \<Rightarrow> webhook_attempt) \<Rightarrow> rat \<Rightarrow> nat \<Rightarrow> nat \<Rightarrow>
   webhook_result option \<Rightarrow> webhook_manager \<Rightarrow> (webhook_manager, exn, webhook_result) outcome option" where
  "deliver_loop lb url pl extra env now 0 k last_result m =
     (case last_result of
        None \<Rightarrow> Some (Inl (OtherExn ''RuntimeError'' ''webhook retry loop produced no result''), m)
      | Some r \<Rightarrow> Some (Inr r, send_to_dead_letter now url pl r m))"
| "deliver_loop lb url pl extra env now (Suc left) k last_result m =
     (case wait_for_rate_limit (env k) url m of
        None \<Rightarrow> None
      | Some (Inl x, m1) \<Rightarrow> Some (Inl x, m1)
      | Some (Inr _, m1) \<Rightarrow>
          (case webhook_deliver lb (wm_delivery m1) url pl extra (wa_env (env k)) (wm_posts m1) of
             (Inl x, ps) \<Rightarrow> Some (Inl x, m1\<lparr>wm_posts := ps\<rparr>)
           | (Inr r, ps) \<Rightarrow>
               (let m2 = m1\<lparr>wm_posts := ps\<rparr>
                in if wr_success r \<or> NON_RETRYABLE (wr_status_code r) then Some (Inr r, m2)
                   else if left = 0 then deliver_loop lb url pl extra env now 0 (Suc k) (Some r) m2
                   else deliver_loop lb url pl extra env now left (Suc k) (Some r)
                          (m2\<lparr>wm_sleeps := wm_sleeps m2 @ [backoff_delay (wm_policy m2) k]\<rparr>))))"

definition deliver_with_retry ::
  "webhook_lib \<Rightarrow> string \<Rightarrow> pydict \<Rightarrow> (string \<times> string) list \<Rightarrow> (nat \<Rightarrow> webhook_attempt) \<Rightarrow> rat \<Rightarrow> webhook_manager \<Rightarrow>
   (webhook_manager, exn, webhook_result) outcome option" where
  "deliver_with_retry lb url pl extra env now m =
     deliver_loop lb url pl extra env now (nat (1 + po_max_retries (wm_policy m))) 0 None m"

subsection \<open>Addresses\<close>

lemma validate_callback_url_accepts:
  assumes "validate_callback_url lb dns require_https url = Inr ()"
  obtains p host addrs where "ul_parse (wl_urls lb) url = Inr p" "up_scheme p = ''https'' \<or> \<not> require_https \<and> up_scheme p = ''http''"
    "up_hostname p = Some host" "host \<noteq> []" "\<not> is_ip_blocked lb host" "dns host = Inr addrs" "\<forall>a \<in> set addrs. \<not> is_ip_blocked lb a"
proof -
  from assms obtain p addrs where p: "ul_parse (wl_urls lb) url = Inr p" "up_scheme p = ''https'' \<or> \<not> require_https \<and> up_scheme p = ''http''"
    and host: "(case up_hostname p of None \<Rightarrow> [] | Some h \<Rightarrow> h) \<noteq> []" "\<not> is_ip_blocked lb (case up_hostname p of None \<Rightarrow> [] | Some h \<Rightarrow> h)"
    and addrs: "resolve_hostname dns (case up_hostname p of None \<Rightarrow> [] | Some h \<Rightarrow> h) = Inr addrs" "find (is_ip_blocked lb) addrs = None"
    by (auto simp: validate_callback_url_def Let_def ALLOWED_SCHEMES_STRICT_def ALLOWED_SCHEMES_RELAXED_def
        split: sum.splits if_splits option.splits)
  from host(1) obtain h where h: "up_hostname p = Some h" "h \<noteq> []" by (cases "up_hostname p") auto
  from addrs(1) h(1) obtain raw where raw: "dns h = Inr raw" "addrs = fromkeys raw"
    by (auto simp: resolve_hostname_def split: sum.splits exn.splits if_splits)
  show thesis
    by (rule that [OF p h _ raw(1)]) (use host(2) h(1) addrs(2) raw(2) in \<open>auto simp: find_None_iff set_fromkeys\<close>)
qed

text \<open>The request that is posted names the host, not the addresses that were checked: it is the same whatever the check saw.\<close>

lemma posted_request_unpinned:
  assumes "validate_callback_url lb (de_dns env1) (wd_require_https d) url = Inr ()"
    and "validate_callback_url lb (de_dns env2) (wd_require_https d) url = Inr ()"
  shows "snd (webhook_deliver lb d url pl extra env1 posts) = snd (webhook_deliver lb d url pl extra env2 posts)"
  using assms by (simp add: webhook_deliver_def Let_def)

subsection \<open>The bucket of an address\<close>

lemma ub_consume_eq: "ub_consume now b = tb_consume now 1 b"
  by (simp add: ub_consume_def tb_consume_def ub_refill_def tb_refill_def Let_def)

lemma ub_refill_capacity [simp]:
  "tb_capacity (ub_refill now b) = tb_capacity b" "tb_rate (ub_refill now b) = tb_rate b"
  "tb_tokens (ub_refill now b) \<le> tb_capacity b" "tb_last_refill (ub_refill now b) = now"
  by (simp_all add: ub_refill_def)

lemma wait_below_one:
  assumes "tb_capacity b < 1"
  shows "wait_for_token clock b = None"
  using assms
proof (induction clock arbitrary: b)
  case (Cons p clock)
  obtain t t' where p: "p = (t, t')" by (cases p)
  have "\<not> 1 \<le> tb_tokens (ub_refill t b)" using Cons.prems ub_refill_capacity(3) [of t b] by linarith
  with Cons show ?case by (simp add: p ub_consume_def seconds_until_available_def Let_def split: if_splits)
qed simp

text \<open>With room for a whole token one sleep is enough: if the clock is not behind when the loop comes back, the token is there.\<close>

lemma wait_at_most_once:
  assumes "1 \<le> tb_capacity b" "0 < tb_rate b" "t \<le> t'"
    and "fst (seconds_until_available t' (snd (ub_consume t b))) \<le> u - t'"
  shows "\<exists>ws b'. wait_for_token ((t, t') # (u, u') # clock) b = Some (ws, b') \<and> length ws \<le> 1"
proof (cases "1 \<le> tb_tokens (ub_refill t b)")
  case True
  then show ?thesis by (simp add: ub_consume_def Let_def)
next
  case False
  let ?b1 = "ub_refill t b" and ?b2 = "ub_refill t' (ub_refill t b)"
  have wait: "fst (seconds_until_available t' ?b1) \<le> u - t'" using assms(4) False by (simp add: ub_consume_def Let_def)
  have "1 \<le> tb_tokens ?b2 + (u - t') * tb_rate b"
  proof (cases "1 \<le> tb_tokens ?b2")
    case True
    then have "0 \<le> (u - t') * tb_rate b" using wait assms(2) by (simp add: seconds_until_available_def Let_def)
    with True show ?thesis by simp
  next
    case False
    then have "(1 - tb_tokens ?b2) / tb_rate b \<le> u - t'" using wait by (simp add: seconds_until_available_def Let_def)
    then show ?thesis using assms(2) by (simp add: pos_divide_le_eq)
  qed
  then have "1 \<le> tb_tokens (ub_refill u ?b2)" using assms(1) by (simp add: ub_refill_def)
  with False show ?thesis by (simp add: ub_consume_def seconds_until_available_def Let_def)
qed

subsection \<open>The loop\<close>

lemma wait_for_rate_limit_frame:
  assumes "wait_for_rate_limit a url m = Some (res, m1)"
  shows "wm_posts m1 = wm_posts m" "wm_delivery m1 = wm_delivery m" "wm_policy m1 = wm_policy m"
    "wm_dead_letters m1 = wm_dead_letters m" "wm_notified m1 = wm_notified m" "wm_has_callback m1 = wm_has_callback m"
  using assms by (auto simp: wait_for_rate_limit_def get_bucket_def Let_def split: option.splits sum.splits prod.splits if_splits)

text \<open>What an ended run of the loop has done: \<open>n\<close> POSTs of one and the same request, each after a check that passed, the result is that of
  the last one, and the dead letters tell whether it gave up.\<close>

definition delivered_as ::
  "webhook_lib \<Rightarrow> string \<Rightarrow> pydict \<Rightarrow> (string \<times> string) list \<Rightarrow> (nat \<Rightarrow> webhook_attempt) \<Rightarrow> rat \<Rightarrow> nat \<Rightarrow> nat \<Rightarrow>
   webhook_manager \<Rightarrow> (webhook_manager, exn, webhook_result) outcome \<Rightarrow> nat \<Rightarrow> bool" where
  "delivered_as lb url pl extra env now left k m out n \<longleftrightarrow>
     n \<le> left \<and>
     wm_posts (snd out) = wm_posts m @ replicate n (url, webhook_headers lb (wm_delivery m) (wl_dumps lb pl) extra, wl_dumps lb pl) \<and>
     (\<forall>j < n. validate_callback_url lb (de_dns (wa_env (env (k + j)))) (wd_require_https (wm_delivery m)) url = Inr ()) \<and>
     (case fst out of
        Inl x \<Rightarrow> wm_dead_letters (snd out) = wm_dead_letters m \<and> wm_notified (snd out) = wm_notified m
      | Inr r \<Rightarrow>
          0 < n \<and> result_of_outcome lb (wm_delivery m) url (wa_env (env (k + n - 1))) = Inr r \<and>
          (if wr_success r \<or> NON_RETRYABLE (wr_status_code r)
           then wm_dead_letters (snd out) = wm_dead_letters m \<and> wm_notified (snd out) = wm_notified m
           else n = left \<and> (\<exists>e. e = \<lparr>dle_url = url, dle_payload = pl, dle_last_result = r,
                    dle_attempts = 1 + po_max_retries (wm_policy m), dle_created_at = now\<rparr> \<and>
                  wm_dead_letters (snd out) = drop (Suc (length (wm_dead_letters m)) - MAX_DEAD_LETTERS) (wm_dead_letters m @ [e]) \<and>
                  wm_notified (snd out) = wm_notified m @ (if wm_has_callback m then [e] else []))))"

lemma webhook_deliver_cases:
  assumes "webhook_deliver lb d url pl extra env posts = (res, ps)"
  obtains (refused) x where "res = Inl x" "ps = posts"
  | (posted) "validate_callback_url lb (de_dns env) (wd_require_https d) url = Inr ()"
      "ps = posts @ [(url, webhook_headers lb d (wl_dumps lb pl) extra, wl_dumps lb pl)]" "res = result_of_outcome lb d url env"
  using assms by (auto simp: webhook_deliver_def Let_def split: sum.splits)

text \<open>The managers before and after one attempt agree but for the buckets, the sleeps and one more POST.\<close>

definition posted_once ::
  "webhook_lib \<Rightarrow> string \<Rightarrow> pydict \<Rightarrow> (string \<times> string) list \<Rightarrow> delivery_env \<Rightarrow> webhook_manager \<Rightarrow> webhook_manager \<Rightarrow> bool" where
  "posted_once lb url pl extra env m m2 \<longleftrightarrow>
     wm_posts m2 = wm_posts m @ [(url, webhook_headers lb (wm_delivery m) (wl_dumps lb pl) extra, wl_dumps lb pl)] \<and>
     wm_delivery m2 = wm_delivery m \<and> wm_policy m2 = wm_policy m \<and> wm_dead_letters m2 = wm_dead_letters m \<and>
     wm_notified m2 = wm_notified m \<and> wm_has_callback m2 = wm_has_callback m \<and>
     validate_callback_url lb (de_dns env) (wd_require_https (wm_delivery m)) url = Inr ()"

lemma deliver_loop_step:
  assumes "deliver_loop lb url pl extra env now (Suc left) k last_result m = Some out"
  obtains (refused) x m1 where "out = (Inl x, m1)" "wm_posts m1 = wm_posts m" "wm_dead_letters m1 = wm_dead_letters m" "wm_notified m1 = wm_notified m"
  | (posted) m2 where "posted_once lb url pl extra (wa_env (env k)) m m2" "snd out = m2" "fst out = result_of_outcome lb (wm_delivery m) url (wa_env (env k))"
      "\<And>r. fst out = Inr r \<Longrightarrow> wr_success r \<or> NON_RETRYABLE (wr_status_code r)"
  | (again) r m2 where "posted_once lb url pl extra (wa_env (env k)) m m2" "result_of_outcome lb (wm_delivery m) url (wa_env (env k)) = Inr r"
      "\<not> wr_success r" "\<not> NON_RETRYABLE (wr_status_code r)" "deliver_loop lb url pl extra env now left (Suc k) (Some r) m2 = Some out"
proof -
  obtain res m1 where wait: "wait_for_rate_limit (env k) url m = Some (res, m1)" using assms by (auto split: option.splits)
  note frame = wait_for_rate_limit_frame [OF wait]
  obtain dres ps where del: "webhook_deliver lb (wm_delivery m1) url pl extra (wa_env (env k)) (wm_posts m1) = (dres, ps)" by fastforce
  let ?m2 = "m1\<lparr>wm_posts := ps\<rparr>"
  show thesis
  proof (cases res)
    case (Inl x)
    with assms wait frame show thesis by (intro refused [of x m1]) auto
  next
    case (Inr u)
    from del show thesis
    proof (cases rule: webhook_deliver_cases)
      case (refused x)
      with assms wait Inr del frame that(1) [of x ?m2] show thesis by auto
    next
      case posted
      then have once: "posted_once lb url pl extra (wa_env (env k)) m ?m2" "posted_once lb url pl extra (wa_env (env k)) m (?m2\<lparr>wm_sleeps := ss\<rparr>)" for ss
        using frame by (auto simp: posted_once_def)
      show thesis
      proof (cases "\<exists>r. dres = Inr r \<and> \<not> wr_success r \<and> \<not> NON_RETRYABLE (wr_status_code r)")
        case True
        then obtain r where r: "dres = Inr r" "\<not> wr_success r" "\<not> NON_RETRYABLE (wr_status_code r)" by blast
        with posted(3) frame have res: "result_of_outcome lb (wm_delivery m) url (wa_env (env k)) = Inr r" by simp
        show thesis
        proof (cases "left = 0")
          case True
          with assms wait Inr del r have "deliver_loop lb url pl extra env now left (Suc k) (Some r) ?m2 = Some out" by (simp add: Let_def)
          from again [OF once(1) res r(2,3) this] show thesis .
        next
          case False
          with assms wait Inr del r have "deliver_loop lb url pl extra env now left (Suc k) (Some r)
              (?m2\<lparr>wm_sleeps := wm_sleeps ?m2 @ [backoff_delay (wm_policy ?m2) k]\<rparr>) = Some out" by (simp add: Let_def)
          from again [OF once(2) res r(2,3) this] show thesis .
        qed
      next
        case False
        with assms wait Inr del have "out = (dres, ?m2)" by (auto simp: Let_def split: sum.splits if_splits)
        with False posted(3) frame that(2) [OF once(1)] show thesis by auto
      qed
    qed
  qed
qed

lemma delivered_as_later:
  assumes "delivered_as lb url pl extra env now left (Suc k) m2 out n" "posted_once lb url pl extra (wa_env (env k)) m m2"
  shows "delivered_as lb url pl extra env now (Suc left) k m out (Suc n)"
  using assms unfolding delivered_as_def posted_once_def
  by (auto simp: less_Suc_eq_0_disj split: sum.splits if_splits)

lemma delivered_as_refused:
  "wm_posts m1 = wm_posts m \<Longrightarrow> wm_dead_letters m1 = wm_dead_letters m \<Longrightarrow> wm_notified m1 = wm_notified m \<Longrightarrow>
   delivered_as lb url pl extra env now left k m (Inl x, m1) 0"
  by (simp add: delivered_as_def)

lemma delivered_as_posted:
  assumes "posted_once lb url pl extra (wa_env (env k)) m (snd out)" "fst out = result_of_outcome lb (wm_delivery m) url (wa_env (env k))"
    and "\<And>r. fst out = Inr r \<Longrightarrow> wr_success r \<or> NON_RETRYABLE (wr_status_code r)"
  shows "delivered_as lb url pl extra env now (Suc left) k m out 1"
  using assms by (auto simp: delivered_as_def posted_once_def split: sum.splits)

lemma delivered_as_gave_up:
  assumes "posted_once lb url pl extra (wa_env (env k)) m m2" "result_of_outcome lb (wm_delivery m) url (wa_env (env k)) = Inr r"
    and "\<not> wr_success r" "\<not> NON_RETRYABLE (wr_status_code r)"
  shows "delivered_as lb url pl extra env now (Suc 0) k m (Inr r, send_to_dead_letter now url pl r m2) 1"
  using assms by (simp add: delivered_as_def posted_once_def send_to_dead_letter_def Let_def)

lemma deliver_loop_delivered:
  assumes "deliver_loop lb url pl extra env now (Suc left) k last_result m = Some out"
  shows "\<exists>n. delivered_as lb url pl extra env now (Suc left) k m out n"
  using assms
proof (induction left arbitrary: k last_result m)
  case (0 k last_result m)
  from 0 show ?case
  proof (cases rule: deliver_loop_step)
    case (refused x m1)
    then show ?thesis using delivered_as_refused by blast
  next
    case (posted m2)
    then show ?thesis using delivered_as_posted by blast
  next
    case (again r m2)
    then have "out = (Inr r, send_to_dead_letter now url pl r m2)" by simp
    with again(1-4) show ?thesis by (auto intro!: exI [of _ 1] delivered_as_gave_up)
  qed
next
  case (Suc left k last_result m)
  from Suc.prems show ?case
  proof (cases rule: deliver_loop_step)
    case (refused x m1)
    then show ?thesis using delivered_as_refused by blast
  next
    case (posted m2)
    then show ?thesis using delivered_as_posted by blast
  next
    case (again r m2)
    from Suc.IH [OF again(5)] obtain n where "delivered_as lb url pl extra env now (Suc left) (Suc k) m2 out n" by blast
    from delivered_as_later [OF this again(1)] show ?thesis by blast
  qed
qed

subsection \<open>Properties\<close>

text \<open>C39: what a delivery that returns has done (with a retry count that is not negative). It has posted one and the same request at most
  \<open>1 + max_retries\<close> times, each time after a check that the scheme is allowed, that a host is named and that neither it nor any
  address it resolved to for this check is private, loopback, link-local or reserved (the client resolves the name again to connect: the
  address is not pinned). If it ends with a result, that is the result of the last POST. A success, and a client error (4xx), which is
  not retried, leave the dead letters alone; when all \<open>1 + max_retries\<close> attempts failed otherwise, the last failure is put into the dead letters
  (and the callback is told), of which at most a thousand are kept. If it ends with an exception (the check of the address on any attempt, the first or
  a retry, or something that is no HTTP error), nothing is put into the dead letters.\<close>

theorem webhook_deliveries_accounted:
  assumes "deliver_with_retry lb url pl extra env now m = Some (res, m')" "0 \<le> po_max_retries (wm_policy m)"
  shows "\<exists>n. n \<le> nat (1 + po_max_retries (wm_policy m)) \<and>
    (\<exists>request. wm_posts m' = wm_posts m @ replicate n request \<and> fst request = url) \<and>
    (\<forall>j < n. \<exists>p host addrs. ul_parse (wl_urls lb) url = Inr p \<and>
       (up_scheme p = ''https'' \<or> \<not> wd_require_https (wm_delivery m) \<and> up_scheme p = ''http'') \<and>
       up_hostname p = Some host \<and> host \<noteq> [] \<and> \<not> is_ip_blocked lb host \<and>
       de_dns (wa_env (env j)) host = Inr addrs \<and> (\<forall>a \<in> set addrs. \<not> is_ip_blocked lb a)) \<and>
    (case res of
       Inl x \<Rightarrow> wm_dead_letters m' = wm_dead_letters m \<and> wm_notified m' = wm_notified m
     | Inr r \<Rightarrow> 0 < n \<and> result_of_outcome lb (wm_delivery m) url (wa_env (env (n - 1))) = Inr r \<and>
         (if wr_success r \<or> NON_RETRYABLE (wr_status_code r) then wm_dead_letters m' = wm_dead_letters m \<and> wm_notified m' = wm_notified m
          else n = nat (1 + po_max_retries (wm_policy m)) \<and>
            (\<exists>e old. wm_dead_letters m' = old @ [e] \<and> dle_url e = url \<and> dle_payload e = pl \<and> dle_last_result e = r \<and>
            length (wm_dead_letters m') \<le> max 1000 (length (wm_dead_letters m)) \<and> (wm_has_callback m \<longrightarrow> wm_notified m' = wm_notified m @ [e]))))"
proof -
  let ?k = "nat (po_max_retries (wm_policy m))"
  have att: "nat (1 + po_max_retries (wm_policy m)) = Suc ?k" using assms(2) by (simp add: nat_add_distrib)
  with assms(1) have "deliver_loop lb url pl extra env now (Suc ?k) 0 None m = Some (res, m')"
    by (simp add: deliver_with_retry_def)
  then obtain n where n: "delivered_as lb url pl extra env now (Suc ?k) 0 m (res, m') n"
    using deliver_loop_delivered by blast
  have one_fits: "Suc 0 - MAX_DEAD_LETTERS = 0" by (simp add: MAX_DEAD_LETTERS_def)
  have checked: "\<exists>p host addrs. ul_parse (wl_urls lb) url = Inr p \<and>
       (up_scheme p = ''https'' \<or> \<not> wd_require_https (wm_delivery m) \<and> up_scheme p = ''http'') \<and>
       up_hostname p = Some host \<and> host \<noteq> [] \<and> \<not> is_ip_blocked lb host \<and>
       de_dns (wa_env (env j)) host = Inr addrs \<and> (\<forall>a \<in> set addrs. \<not> is_ip_blocked lb a)" if "j < n" for j
  proof -
    have "validate_callback_url lb (de_dns (wa_env (env j))) (wd_require_https (wm_delivery m)) url = Inr ()"
      using n that by (simp add: delivered_as_def)
    then show ?thesis by (rule validate_callback_url_accepts) blast
  qed
  have posts: "\<exists>request. wm_posts m' = wm_posts m @ replicate n request \<and> fst request = url"
    using n by (auto simp: delivered_as_def)
  have size: "length (drop (Suc (length l) - MAX_DEAD_LETTERS) l @ [e]) \<le> max 1000 (length l)" for l :: "dead_letter_entry list" and e
    by (auto simp: MAX_DEAD_LETTERS_def)
  show ?thesis
    using n checked posts size unfolding att
    by (intro exI [of _ n]) (auto simp: delivered_as_def one_fits split: sum.splits if_splits)
qed

definition sample_webhook_lib :: webhook_lib where
  "sample_webhook_lib =
     \<lparr>wl_urls = \<lparr>ul_parse = (\<lambda>u. Inr \<lparr>up_scheme = ''https'', up_netloc = ''h'', up_path = [], up_params = [], up_query = [], up_fragment = [],
        up_username = None, up_password = None, up_hostname = Some ''h'', up_port = Inr None\<rparr>), ul_unparse = (\<lambda>p. []), ul_redact = id\<rparr>,
      wl_ip = (\<lambda>a. if a = ''10.0.0.1''
        then Some \<lparr>ip_is_private = True, ip_is_loopback = False, ip_is_link_local = False, ip_is_reserved = False\<rparr> else None),
      wl_dumps = (\<lambda>d. ''{}''), wl_hmac = (\<lambda>k b. ''00''), wl_is_http_error = (\<lambda>t. True), wl_shown_float = (\<lambda>r. [])\<rparr>"

definition sample_webhook_attempt :: webhook_attempt where
  "sample_webhook_attempt = \<lparr>wa_bucket_now = 0, wa_clock = [(0, 0)],
     wa_env = \<lparr>de_dns = (\<lambda>h. Inr [''93.184.216.34'']), de_outcome = ConnectFailed ''refused'', de_elapsed_ms = 1\<rparr>\<rparr>"

definition sample_manager :: "rat \<Rightarrow> webhook_manager" where
  "sample_manager rate = webhook_manager_init \<lparr>wd_secret = None, wd_timeout_seconds = 10, wd_require_https = True\<rparr>
     (Some \<lparr>po_max_retries = 1, po_base_delay = 1, po_max_delay = 16, po_rate_per_second = rate\<rparr>) False"

lemmas sample_webhook_defs = sample_webhook_lib_def sample_webhook_attempt_def sample_manager_def webhook_manager_init_def

lemma sample_validated: "validate_callback_url sample_webhook_lib (de_dns (wa_env sample_webhook_attempt)) True u = Inr ()"
  by (simp add: validate_callback_url_def sample_webhook_lib_def sample_webhook_attempt_def ALLOWED_SCHEMES_STRICT_def is_ip_blocked_def
      resolve_hostname_def fromkeys_def)

lemma sample_run:
  "\<exists>r m'. deliver_with_retry sample_webhook_lib ''https://h'' [] [] (\<lambda>k. sample_webhook_attempt) 5 (sample_manager 10) = Some (Inr r, m') \<and>
     wr_status_code r = 0 \<and> \<not> wr_success r"
proof -
  have sample_times: "wa_clock sample_webhook_attempt = [(0, 0)]" "wa_bucket_now sample_webhook_attempt = 0" by (simp_all add: sample_webhook_attempt_def)
  let ?r = "\<lparr>wr_url = ''https://h'', wr_status_code = 0, wr_success = False, wr_elapsed_ms = 1, wr_error = Some ''refused''\<rparr>"
  have deliver: "webhook_deliver sample_webhook_lib d ''https://h'' [] [] (wa_env sample_webhook_attempt) ps =
      (Inr ?r, ps @ [(''https://h'', webhook_headers sample_webhook_lib d ''{}'' [], ''{}'')])" if "wd_require_https d" for d ps
    using sample_validated that
    by (simp add: webhook_deliver_def result_of_outcome_def Let_def) (simp add: sample_webhook_lib_def sample_webhook_attempt_def)
  have "deliver_loop sample_webhook_lib ''https://h'' [] [] (\<lambda>k. sample_webhook_attempt) 5 (Suc (Suc 0)) 0 None (sample_manager 10) =
      Some (Inr ?r, snd (the (deliver_loop sample_webhook_lib ''https://h'' [] [] (\<lambda>k. sample_webhook_attempt) 5 (Suc (Suc 0)) 0 None (sample_manager 10))))"
    by (simp add: wait_for_rate_limit_def get_bucket_def ub_init_def sample_manager_def webhook_manager_init_def ub_consume_def ub_refill_def
        deliver NON_RETRYABLE_def Let_def sample_times)
  moreover have "nat (1 + po_max_retries (wm_policy (sample_manager 10))) = Suc (Suc 0)" by (simp add: sample_manager_def webhook_manager_init_def)
  ultimately have "deliver_with_retry sample_webhook_lib ''https://h'' [] [] (\<lambda>k. sample_webhook_attempt) 5 (sample_manager 10) =
      Some (Inr ?r, snd (the (deliver_loop sample_webhook_lib ''https://h'' [] [] (\<lambda>k. sample_webhook_attempt) 5 (Suc (Suc 0)) 0 None (sample_manager 10))))"
    unfolding deliver_with_retry_def by simp
  then obtain m' where "deliver_with_retry sample_webhook_lib ''https://h'' [] [] (\<lambda>k. sample_webhook_attempt) 5 (sample_manager 10) = Some (Inr ?r, m')"
    by blast
  then show ?thesis by (intro exI [of _ ?r] exI [of _ m']) simp
qed

theorem webhook_deliveries_accounted_witness:
  "\<exists>r m' e old. deliver_with_retry sample_webhook_lib ''https://h'' [] [] (\<lambda>k. sample_webhook_attempt) 5 (sample_manager 10) = Some (Inr r, m') \<and>
     length (wm_posts m') = 2 \<and> wm_dead_letters m' = old @ [e] \<and> dle_last_result e = r"
proof -
  from sample_run obtain r m' where run: "deliver_with_retry sample_webhook_lib ''https://h'' [] [] (\<lambda>k. sample_webhook_attempt) 5 (sample_manager 10) = Some (Inr r, m')"
    and r: "wr_status_code r = 0" "\<not> wr_success r" by blast
  have m: "wm_posts (sample_manager 10) = []" "po_max_retries (wm_policy (sample_manager 10)) = 1"
    by (simp_all add: sample_manager_def webhook_manager_init_def)
  from webhook_deliveries_accounted [OF run] r m run show ?thesis by (fastforce simp: NON_RETRYABLE_def)
qed

text \<open>A policy with a rate below one delivery per second (and above zero) delivers nothing, ever: the bucket of the address holds
  less than one token however long the loop waits, so the call does not return, whatever the clock shows and whoever else is asked.\<close>

theorem slow_webhook_never_delivers:
  assumes "0 < po_rate_per_second (wm_policy m)" "po_rate_per_second (wm_policy m) < 1" "0 \<le> po_max_retries (wm_policy m)"
    and "map_of (wm_url_buckets m) url = None"
  shows "deliver_with_retry lb url pl extra env now m = None"
proof -
  have "wait_for_rate_limit a url m = None" for a
    using assms by (simp add: wait_for_rate_limit_def get_bucket_def ub_init_def Let_def wait_below_one)
  moreover have "nat (1 + po_max_retries (wm_policy m)) = Suc (nat (po_max_retries (wm_policy m)))" using assms(3) by simp
  ultimately show ?thesis by (simp add: deliver_with_retry_def)
qed

theorem slow_webhook_never_delivers_witness:
  "deliver_with_retry sample_webhook_lib ''https://h'' [] [] (\<lambda>k. sample_webhook_attempt) 5 (sample_manager (1/2)) = None"
  by (rule slow_webhook_never_delivers) (simp_all add: sample_manager_def webhook_manager_init_def)

end
