(* ===== verification/Sla.thy ===== *)
theory Sla
  imports Metering Oauth2
begin

text \<open>
  Service level agreements: the thresholds an agent publishes (\<open>SLADefinition\<close> of \<open>src/asap/models/entities.py\<close>), their evaluation and the
  helpers that compute metrics (\<open>src/asap/economics/sla.py\<close>), the in-memory store (\<open>InMemorySLAStorage\<close> of
  \<open>src/asap/economics/sla_storage.py\<close>) and the endpoints (\<open>src/asap/transport/sla_api.py\<close>).

  Floats are exact rationals. \<open>txt\<close> is the text an f-string gives for a float; the callback of a detector is a function that
  may raise; identifiers and clock readings are arguments.
\<close>

subsection \<open>Percentages\<close>

text \<open>The pattern \<open>^(-?[\d.]+)\s*%?\s*$\<close> on a stripped text: the group it captures.\<close>

definition percentage_group :: "string \<Rightarrow> string option" where
  "percentage_group s =
     (let (sign, body) = (case s of c # t \<Rightarrow> if c = CHR ''-'' then ([c], t) else ([], s) | [] \<Rightarrow> ([], s));
          num = takeWhile (\<lambda>c. is_digit c \<or> c = CHR ''.'') body;
          rest = lstrip (dropWhile (\<lambda>c. is_digit c \<or> c = CHR ''.'') body);
          tail = (case rest of c # t \<Rightarrow> if c = CHR ''%'' then lstrip t else rest | [] \<Rightarrow> [])
      in if num \<noteq> [] \<and> tail = [] then Some (sign @ num) else None)"

definition validate_percentage_format :: "string \<Rightarrow> py_exn + string" where
  "validate_percentage_format v =
     (if percentage_group (strip v) = None then Inl (ValueError ''Invalid percentage string'') else Inr (strip v))"

fun clamp_percent :: "pyfloat \<Rightarrow> rat" where
  "clamp_percent (Fin r) = min 100 (max 0 r)"
| "clamp_percent PosInf = 100"
| "clamp_percent NegInf = 0"
| "clamp_percent NaN = 0"

definition parse_percentage :: "string \<Rightarrow> py_exn + rat" where
  "parse_percentage s =
     (case percentage_group (strip s) of
        None \<Rightarrow> Inl (ValueError ''Invalid percentage string'')
      | Some g \<Rightarrow>
          (case parse_float g of
             None \<Rightarrow> Inl (ValueError ''could not convert string to float'')
           | Some f \<Rightarrow> Inr (clamp_percent f)))"

subsection \<open>Definitions and metrics\<close>

record sla_definition =
  sd_availability :: "string option"
  sd_max_latency_p95_ms :: "int option"
  sd_max_error_rate :: "string option"
  sd_support_hours :: "string option"

text \<open>What the model accepts.\<close>

definition sla_definition_ok :: "sla_definition \<Rightarrow> bool" where
  "sla_definition_ok d \<longleftrightarrow>
     (case sd_availability d of None \<Rightarrow> True | Some v \<Rightarrow> \<exists>s. validate_percentage_format v = Inr s) \<and>
     (case sd_max_error_rate d of None \<Rightarrow> True | Some v \<Rightarrow> \<exists>s. validate_percentage_format v = Inr s) \<and>
     (case sd_max_latency_p95_ms d of None \<Rightarrow> True | Some n \<Rightarrow> 0 \<le> n)"

record sla_metrics =
  sm_agent_id :: string
  sm_period_start :: datetime
  sm_period_end :: datetime
  sm_uptime_percent :: rat
  sm_latency_p95_ms :: int
  sm_error_rate_percent :: rat
  sm_tasks_completed :: int
  sm_tasks_failed :: int

definition sla_metrics_ok :: "sla_metrics \<Rightarrow> bool" where
  "sla_metrics_ok m \<longleftrightarrow> 0 \<le> sm_uptime_percent m \<and> sm_uptime_percent m \<le> 100 \<and> 0 \<le> sm_latency_p95_ms m \<and>
     0 \<le> sm_error_rate_percent m \<and> sm_error_rate_percent m \<le> 100 \<and> 0 \<le> sm_tasks_completed m \<and> 0 \<le> sm_tasks_failed m"

text \<open>The constructor raises a validation error for a value out of range.\<close>

definition make_sla_metrics :: "sla_metrics \<Rightarrow> exn + sla_metrics" where
  "make_sla_metrics m = (if sla_metrics_ok m then Inr m else Inl (OtherExn ''ValidationError'' []))"

subsection \<open>Breaches\<close>

datatype breach_type = AvailabilityBreach | LatencyBreach | ErrorRateBreach
datatype severity = Warning | Critical

record breach_condition =
  bc_type :: breach_type
  bc_threshold :: string
  bc_actual :: string
  bc_severity :: severity

definition AVAILABILITY_CRITICAL_BELOW_PERCENT :: rat where "AVAILABILITY_CRITICAL_BELOW_PERCENT = 95"
definition LATENCY_CRITICAL_MULTIPLIER :: rat where "LATENCY_CRITICAL_MULTIPLIER = 2"
definition ERROR_RATE_CRITICAL_PERCENT :: rat where "ERROR_RATE_CRITICAL_PERCENT = 5"
definition ERROR_RATE_CRITICAL_MULTIPLIER :: rat where "ERROR_RATE_CRITICAL_MULTIPLIER = 2"

definition availability_breach :: "(rat \<Rightarrow> string) \<Rightarrow> sla_definition \<Rightarrow> sla_metrics \<Rightarrow> breach_condition list" where
  "availability_breach txt sla m =
     (case sd_availability sla of
        None \<Rightarrow> []
      | Some v \<Rightarrow>
          (case parse_percentage v of
             Inl e \<Rightarrow> []
           | Inr required \<Rightarrow>
               if sm_uptime_percent m < required
               then [\<lparr>bc_type = AvailabilityBreach, bc_threshold = txt required @ ''%'', bc_actual = txt (sm_uptime_percent m) @ ''%'',
                      bc_severity = (if sm_uptime_percent m < AVAILABILITY_CRITICAL_BELOW_PERCENT then Critical else Warning)\<rparr>]
               else []))"

definition latency_breach :: "sla_definition \<Rightarrow> sla_metrics \<Rightarrow> breach_condition list" where
  "latency_breach sla m =
     (case sd_max_latency_p95_ms sla of
        None \<Rightarrow> []
      | Some limit \<Rightarrow>
          if limit < sm_latency_p95_ms m
          then [\<lparr>bc_type = LatencyBreach, bc_threshold = str_int limit @ ''ms'', bc_actual = str_int (sm_latency_p95_ms m) @ ''ms'',
                 bc_severity = (if of_int limit * LATENCY_CRITICAL_MULTIPLIER \<le> of_int (sm_latency_p95_ms m) then Critical else Warning)\<rparr>]
          else [])"

definition error_rate_breach :: "(rat \<Rightarrow> string) \<Rightarrow> sla_definition \<Rightarrow> sla_metrics \<Rightarrow> breach_condition list" where
  "error_rate_breach txt sla m =
     (case sd_max_error_rate sla of
        None \<Rightarrow> []
      | Some v \<Rightarrow>
          (case parse_percentage v of
             Inl e \<Rightarrow> []
           | Inr allowed \<Rightarrow>
               if allowed < sm_error_rate_percent m
               then [\<lparr>bc_type = ErrorRateBreach, bc_threshold = txt allowed @ ''%'', bc_actual = txt (sm_error_rate_percent m) @ ''%'',
                      bc_severity = (if ERROR_RATE_CRITICAL_PERCENT \<le> sm_error_rate_percent m \<or>
                                        allowed * ERROR_RATE_CRITICAL_MULTIPLIER \<le> sm_error_rate_percent m then Critical else Warning)\<rparr>]
               else []))"

definition evaluate_breach_conditions :: "(rat \<Rightarrow> string) \<Rightarrow> sla_definition option \<Rightarrow> sla_metrics \<Rightarrow> breach_condition list" where
  "evaluate_breach_conditions txt sla m =
     (case sla of None \<Rightarrow> [] | Some d \<Rightarrow> availability_breach txt d m @ latency_breach d m @ error_rate_breach txt d m)"

record sla_breach =
  sb_id :: string
  sb_agent_id :: string
  sb_condition :: breach_condition
  sb_detected_at :: datetime
  sb_resolved_at :: "datetime option"

record sla_storage =
  ss_metrics :: "sla_metrics list"
  ss_breaches :: "sla_breach list"

definition record_breach :: "sla_breach \<Rightarrow> sla_storage \<Rightarrow> sla_storage" where
  "record_breach b s = s\<lparr>ss_breaches := ss_breaches s @ [b]\<rparr>"

text \<open>\<open>fresh k\<close> is the identifier generated for condition number \<open>k\<close>; \<open>on_breach\<close> says what the callback raises.\<close>

fun record_conditions ::
  "(nat \<Rightarrow> string) \<Rightarrow> (sla_breach \<Rightarrow> exn option) \<Rightarrow> string \<Rightarrow> datetime \<Rightarrow> nat \<Rightarrow> breach_condition list \<Rightarrow> sla_breach list \<Rightarrow> sla_storage \<Rightarrow>
   (sla_storage, exn, sla_breach list) outcome" where
  "record_conditions fresh on_breach agent now k [] recorded s = (Inr recorded, s)"
| "record_conditions fresh on_breach agent now k (c # cs) recorded s =
     (let b = \<lparr>sb_id = ''breach_'' @ fresh k, sb_agent_id = agent, sb_condition = c, sb_detected_at = now, sb_resolved_at = None\<rparr>;
          s1 = record_breach b s
      in case on_breach b of
           Some x \<Rightarrow> (Inl x, s1)
         | None \<Rightarrow> record_conditions fresh on_breach agent now (Suc k) cs (recorded @ [b]) s1)"

definition check_and_record ::
  "(rat \<Rightarrow> string) \<Rightarrow> (nat \<Rightarrow> string) \<Rightarrow> (sla_breach \<Rightarrow> exn option) \<Rightarrow> string \<Rightarrow> sla_definition option \<Rightarrow> sla_metrics \<Rightarrow> datetime \<Rightarrow> sla_storage \<Rightarrow>
   (sla_storage, exn, sla_breach list) outcome" where
  "check_and_record txt fresh on_breach agent sla m now s =
     record_conditions fresh on_breach agent now 0 (evaluate_breach_conditions txt sla m) [] s"

subsection \<open>Computing metrics\<close>

definition compute_uptime_percent :: "int \<Rightarrow> int \<Rightarrow> rat" where
  "compute_uptime_percent ok_count total_count =
     (if total_count \<le> 0 then 100 else min 100 (max 0 (100 * of_int ok_count / of_int total_count)))"

definition compute_latency_p95_ms :: "int list \<Rightarrow> int" where
  "compute_latency_p95_ms durations =
     (if durations = [] then 0
      else (let sorted_d = sort durations;
                idx = (if 1 < length sorted_d then nat (py_trunc (95 / 100 * of_nat (length sorted_d - 1))) else 0)
            in sorted_d ! min idx (length sorted_d - 1)))"

definition compute_error_rate_percent :: "int \<Rightarrow> int \<Rightarrow> rat" where
  "compute_error_rate_percent completed failed =
     (if completed + failed \<le> 0 then 0 else min 100 (max 0 (100 * of_int failed / of_int (completed + failed))))"

definition rolling_window_bounds :: "string \<Rightarrow> datetime \<Rightarrow> py_exn + datetime \<times> datetime" where
  "rolling_window_bounds window end_time =
     (let hour = 3600 * 1000000
      in if window = ''1h'' then Inr (end_time - hour, end_time)
         else if window = ''24h'' then Inr (end_time - 24 * hour, end_time)
         else if window = ''7d'' then Inr (end_time - 7 * 24 * hour, end_time)
         else if window = ''30d'' then Inr (end_time - 30 * 24 * hour, end_time)
         else Inl (ValueError ''window must be one of 1h, 24h, 7d, 30d''))"

text \<open>\<open>round(x, 2)\<close>: to the nearest hundredth, ties to the even one.\<close>

definition round_half_even :: "rat \<Rightarrow> int" where
  "round_half_even x =
     (let f = floor x; d = x - of_int f
      in if d < 1/2 then f else if 1/2 < d then f + 1 else if even f then f else f + 1)"

definition round2 :: "rat \<Rightarrow> rat" where
  "round2 x = of_int (round_half_even (100 * x)) / 100"

definition weighted_mean :: "(sla_metrics \<Rightarrow> rat) \<Rightarrow> sla_metrics list \<Rightarrow> rat" where
  "weighted_mean f ms =
     (let total_tasks = sum_list (map sm_tasks_completed ms) + sum_list (map sm_tasks_failed ms)
      in if 0 < total_tasks
         then sum_list (map (\<lambda>m. f m * of_int (sm_tasks_completed m + sm_tasks_failed m)) ms) / of_int total_tasks
         else sum_list (map f ms) / of_nat (length ms))"

definition aggregate_sla_metrics :: "sla_metrics list \<Rightarrow> exn + sla_metrics option" where
  "aggregate_sla_metrics ms =
     (if ms = [] then Inr None
      else map_sum id Some (make_sla_metrics
             \<lparr>sm_agent_id = sm_agent_id (hd ms), sm_period_start = Min (set (map sm_period_start ms)), sm_period_end = Max (set (map sm_period_end ms)),
              sm_uptime_percent = round2 (weighted_mean sm_uptime_percent ms),
              sm_latency_p95_ms = compute_latency_p95_ms (map sm_latency_p95_ms ms),
              sm_error_rate_percent = round2 (weighted_mean sm_error_rate_percent ms),
              sm_tasks_completed = sum_list (map sm_tasks_completed ms), sm_tasks_failed = sum_list (map sm_tasks_failed ms)\<rparr>))"

subsection \<open>The store\<close>

definition metrics_matches :: "sla_metrics \<Rightarrow> string option \<Rightarrow> datetime option \<Rightarrow> datetime option \<Rightarrow> bool" where
  "metrics_matches m agent start_time end_time =
     (if (case agent of None \<Rightarrow> False | Some a \<Rightarrow> sm_agent_id m \<noteq> a) then False
      else if (case start_time of None \<Rightarrow> False | Some t \<Rightarrow> sm_period_end m < t) then False
      else \<not> (case end_time of None \<Rightarrow> False | Some t \<Rightarrow> sm_period_start m > t))"

definition breach_matches :: "sla_breach \<Rightarrow> string option \<Rightarrow> datetime option \<Rightarrow> datetime option \<Rightarrow> bool" where
  "breach_matches b agent start_time end_time =
     (if (case agent of None \<Rightarrow> False | Some a \<Rightarrow> sb_agent_id b \<noteq> a) then False
      else if (case start_time of None \<Rightarrow> False | Some t \<Rightarrow> sb_detected_at b < t) then False
      else \<not> (case end_time of None \<Rightarrow> False | Some t \<Rightarrow> sb_detected_at b > t))"

definition record_metrics :: "sla_metrics \<Rightarrow> sla_storage \<Rightarrow> sla_storage" where
  "record_metrics m s = s\<lparr>ss_metrics := ss_metrics s @ [m]\<rparr>"

definition query_metrics ::
  "string option \<Rightarrow> datetime option \<Rightarrow> datetime option \<Rightarrow> int option \<Rightarrow> int \<Rightarrow> sla_storage \<Rightarrow> py_exn + sla_metrics list" where
  "query_metrics agent start_time end_time limit offset s =
     (if offset < 0 then Inl (ValueError ''offset must be non-negative'')
      else (let out = sort_key sm_period_start (filter (\<lambda>m. metrics_matches m agent start_time end_time) (ss_metrics s))
            in Inr (case limit of Some n \<Rightarrow> py_slice offset (offset + n) out | None \<Rightarrow> drop (nat offset) out)))"

definition count_metrics :: "string option \<Rightarrow> datetime option \<Rightarrow> datetime option \<Rightarrow> sla_storage \<Rightarrow> nat" where
  "count_metrics agent start_time end_time s = length (filter (\<lambda>m. metrics_matches m agent start_time end_time) (ss_metrics s))"

definition query_breaches :: "string option \<Rightarrow> datetime option \<Rightarrow> datetime option \<Rightarrow> sla_storage \<Rightarrow> sla_breach list" where
  "query_breaches agent start_time end_time s =
     sort_key sb_detected_at (filter (\<lambda>b. breach_matches b agent start_time end_time) (ss_breaches s))"

definition sla_stats :: "sla_storage \<Rightarrow> storage_stats" where
  "sla_stats s =
     (let all_ts = concat (map (\<lambda>m. [sm_period_start m, sm_period_end m]) (ss_metrics s)) @ map sb_detected_at (ss_breaches s)
      in \<lparr>st_total_events = int (length (ss_metrics s)) + int (length (ss_breaches s)),
          st_oldest_timestamp = (if all_ts = [] then None else Some (Min (set all_ts))), st_retention_ttl_seconds = None\<rparr>)"

subsection \<open>Endpoints\<close>

definition compute_compliance_percent :: "(rat \<Rightarrow> string) \<Rightarrow> sla_definition option \<Rightarrow> sla_metrics \<Rightarrow> rat option" where
  "compute_compliance_percent txt sla m =
     (case sla of
        None \<Rightarrow> None
      | Some d \<Rightarrow>
          (let conditions = evaluate_breach_conditions txt sla m;
               critical = of_nat (length (filter (\<lambda>c. bc_severity c = Critical) conditions));
               warning = of_nat (length (filter (\<lambda>c. bc_severity c = Warning) conditions))
           in Some (if conditions = [] then 100
                    else if 0 < critical then max 0 (100 - 25 * critical - 5 * warning)
                    else max 0 (100 - 5 * warning))))"

definition sla_gate :: "bool \<Rightarrow> oauth2_claims option \<Rightarrow> exn option \<Rightarrow> exn + unit" where
  "sla_gate require_auth who limited =
     (case limited of
        Some x \<Rightarrow> Inl x
      | None \<Rightarrow> if require_auth then map_sum id (\<lambda>c. ()) (require_scope SCOPE_ADMIN who) else Inr ())"

definition NO_SLA_STORAGE :: exn where
  "NO_SLA_STORAGE = HttpExn 503 ''SLA API not configured (sla_storage not set)''"

text \<open>A row of the status: agent, metrics and compliance; \<open>manifest\<close> is the identifier and the agreement of the server's own manifest.\<close>

fun status_rows ::
  "(rat \<Rightarrow> string) \<Rightarrow> (string \<times> sla_definition option) option \<Rightarrow> (string, sla_metrics list) dict \<Rightarrow> exn + (string \<times> sla_metrics \<times> rat option) list" where
  "status_rows txt manifest [] = Inr []"
| "status_rows txt manifest ((agent, ms) # rest) =
     (case aggregate_sla_metrics ms of
        Inl x \<Rightarrow> Inl x
      | Inr None \<Rightarrow> status_rows txt manifest rest
      | Inr (Some aggregated) \<Rightarrow>
          (let sla = (case manifest of Some (i, d) \<Rightarrow> if i = agent then d else None | None \<Rightarrow> None)
           in map_sum id (\<lambda>rows. (agent, aggregated, compute_compliance_percent txt sla aggregated) # rows) (status_rows txt manifest rest)))"

definition get_sla ::
  "(rat \<Rightarrow> string) \<Rightarrow> (string \<times> sla_definition option) option \<Rightarrow> string option \<Rightarrow> string \<Rightarrow> datetime \<Rightarrow> sla_storage option \<Rightarrow>
   exn + (string \<times> sla_metrics \<times> rat option) list" where
  "get_sla txt manifest agent window now storage =
     (case storage of
        None \<Rightarrow> Inl NO_SLA_STORAGE
      | Some s \<Rightarrow>
          (case rolling_window_bounds window now of
             Inl e \<Rightarrow> Inl (HttpExn 400 ''window must be one of: 1h, 24h, 7d, 30d'')
           | Inr (start_time, end_time) \<Rightarrow>
               (case query_metrics agent (Some start_time) (Some end_time) None 0 s of
                  Inl e \<Rightarrow> Inl (lift_exn e)
                | Inr ms \<Rightarrow> status_rows txt manifest (group_by sm_agent_id ms))))"

definition get_sla_history ::
  "string option \<Rightarrow> datetime option \<Rightarrow> datetime option \<Rightarrow> int option \<Rightarrow> int \<Rightarrow> sla_storage option \<Rightarrow> exn + sla_metrics list \<times> nat" where
  "get_sla_history agent start_time end_time limit offset storage =
     (case storage of
        None \<Rightarrow> Inl NO_SLA_STORAGE
      | Some s \<Rightarrow>
          (case query_metrics agent start_time end_time limit offset s of
             Inl e \<Rightarrow> Inl (lift_exn e)
           | Inr ms \<Rightarrow> Inr (ms, count_metrics agent start_time end_time s)))"

definition get_sla_breaches ::
  "string option \<Rightarrow> string option \<Rightarrow> datetime option \<Rightarrow> datetime option \<Rightarrow> sla_storage option \<Rightarrow> exn + sla_breach list" where
  "get_sla_breaches agent sev start_time end_time storage =
     (case storage of
        None \<Rightarrow> Inl NO_SLA_STORAGE
      | Some s \<Rightarrow>
          (let bs = query_breaches agent start_time end_time s
           in case sev of
                None \<Rightarrow> Inr bs
              | Some v \<Rightarrow>
                  if v = ''warning'' then Inr (filter (\<lambda>b. bc_severity (sb_condition b) = Warning) bs)
                  else if v = ''critical'' then Inr (filter (\<lambda>b. bc_severity (sb_condition b) = Critical) bs)
                  else Inl (HttpExn 400 ''severity must be one of: warning, critical'')))"

subsection \<open>Detection\<close>

lemma record_conditions_run:
  assumes "record_conditions fresh on_breach agent now k cs recorded s = (res, s')"
  defines "mk \<equiv> \<lambda>(i, c). \<lparr>sb_id = ''breach_'' @ fresh i, sb_agent_id = agent, sb_condition = c, sb_detected_at = now, sb_resolved_at = None\<rparr>"
  defines "bs \<equiv> map mk (zip [k..<k + length cs] cs)"
  shows "ss_metrics s' = ss_metrics s \<and>
    (case res of
       Inr rs \<Rightarrow> rs = recorded @ bs \<and> ss_breaches s' = ss_breaches s @ bs \<and> (\<forall>b \<in> set bs. on_breach b = None)
     | Inl x \<Rightarrow> \<exists>n < length cs. ss_breaches s' = ss_breaches s @ take (Suc n) bs \<and> on_breach (bs ! n) = Some x)"
  using assms(1) unfolding bs_def
proof (induction cs arbitrary: k recorded s)
  case (Cons c cs)
  let ?b = "mk (k, c)" and ?bs = "map mk (zip [Suc k..<Suc k + length cs] cs)"
  have split: "map mk (zip [k..<k + length (c # cs)] (c # cs)) = ?b # ?bs"
    by (simp add: upt_conv_Cons del: upt_Suc)
  show ?case
  proof (cases "on_breach ?b")
    case None
    with Cons.prems have "record_conditions fresh on_breach agent now (Suc k) cs (recorded @ [?b]) (record_breach ?b s) = (res, s')"
      by (simp add: mk_def Let_def)
    from Cons.IH [OF this] None show ?thesis
      unfolding split by (cases res) (auto simp: record_breach_def intro!: exI [of _ "Suc _"])
  next
    case (Some x)
    with Cons.prems show ?thesis
      unfolding split by (auto simp: mk_def Let_def record_breach_def intro!: exI [of _ 0])
  qed
qed (auto split: sum.splits)

lemma breach_lists:
  "availability_breach txt d m = [] \<or> (\<exists>c. availability_breach txt d m = [c] \<and> bc_type c = AvailabilityBreach)"
  "latency_breach d m = [] \<or> (\<exists>c. latency_breach d m = [c] \<and> bc_type c = LatencyBreach)"
  "error_rate_breach txt d m = [] \<or> (\<exists>c. error_rate_breach txt d m = [c] \<and> bc_type c = ErrorRateBreach)"
  by (simp_all add: availability_breach_def latency_breach_def error_rate_breach_def split: option.splits sum.splits)

lemma evaluate_types: "distinct (map bc_type (evaluate_breach_conditions txt sla m))"
proof (cases sla)
  case (Some d)
  then show ?thesis
    using breach_lists(1) [of "txt" d m] breach_lists(2) [of d m] breach_lists(3) [of "txt" d m]
    by (elim disjE exE conjE) (simp_all add: evaluate_breach_conditions_def)
qed (simp add: evaluate_breach_conditions_def)

lemma severity_if: "(if P then Critical else Warning) = sev \<longleftrightarrow> (sev = Critical \<longleftrightarrow> P)"
  by (cases sev) auto

lemma twice_of_int: "(of_int l * 2 \<le> (of_int x :: rat)) \<longleftrightarrow> l * 2 \<le> x"
proof -
  have "of_int l * 2 = (of_int (l * 2) :: rat)" by simp
  then show ?thesis by (simp only: of_int_le_iff)
qed

lemma evaluate_kind:
  "(\<exists>c \<in> set (evaluate_breach_conditions txt (Some d) m). bc_type c = k \<and> P c) \<longleftrightarrow>
   (\<exists>c \<in> set (case k of AvailabilityBreach \<Rightarrow> availability_breach txt d m | LatencyBreach \<Rightarrow> latency_breach d m
                      | ErrorRateBreach \<Rightarrow> error_rate_breach txt d m). P c)"
  using breach_lists(1) [of "txt" d m] breach_lists(2) [of d m] breach_lists(3) [of "txt" d m]
  by (cases k) (auto simp: evaluate_breach_conditions_def)

lemma evaluate_availability:
  "(\<exists>c \<in> set (evaluate_breach_conditions txt (Some d) m). bc_type c = AvailabilityBreach \<and> bc_severity c = sev) \<longleftrightarrow>
     (\<exists>v r. sd_availability d = Some v \<and> parse_percentage v = Inr r \<and> sm_uptime_percent m < r \<and> (sev = Critical \<longleftrightarrow> sm_uptime_percent m < 95))"
  unfolding evaluate_kind
  by (cases "sd_availability d"; cases "parse_percentage (the (sd_availability d))")
    (simp_all add: availability_breach_def AVAILABILITY_CRITICAL_BELOW_PERCENT_def severity_if)

lemma evaluate_latency:
  "(\<exists>c \<in> set (evaluate_breach_conditions txt (Some d) m). bc_type c = LatencyBreach \<and> bc_severity c = sev) \<longleftrightarrow>
     (\<exists>l. sd_max_latency_p95_ms d = Some l \<and> l < sm_latency_p95_ms m \<and> (sev = Critical \<longleftrightarrow> l * 2 \<le> sm_latency_p95_ms m))"
  unfolding evaluate_kind
  by (cases "sd_max_latency_p95_ms d") (simp_all add: latency_breach_def LATENCY_CRITICAL_MULTIPLIER_def severity_if twice_of_int)

lemma evaluate_error_rate:
  "(\<exists>c \<in> set (evaluate_breach_conditions txt (Some d) m). bc_type c = ErrorRateBreach \<and> bc_severity c = sev) \<longleftrightarrow>
     (\<exists>v r. sd_max_error_rate d = Some v \<and> parse_percentage v = Inr r \<and> r < sm_error_rate_percent m \<and>
        (sev = Critical \<longleftrightarrow> 5 \<le> sm_error_rate_percent m \<or> r * 2 \<le> sm_error_rate_percent m))"
  unfolding evaluate_kind
  by (cases "sd_max_error_rate d"; cases "parse_percentage (the (sd_max_error_rate d))")
    (simp_all add: error_rate_breach_def ERROR_RATE_CRITICAL_PERCENT_def ERROR_RATE_CRITICAL_MULTIPLIER_def severity_if)

lemmas evaluate_kinds = evaluate_availability evaluate_latency evaluate_error_rate

subsection \<open>Aggregation\<close>

lemma round_half_even_near: "\<bar>of_int (round_half_even y) - y\<bar> \<le> 1 / 2"
proof -
  let ?f = "of_int (floor y) :: rat"
  have "?f \<le> y" "y < ?f + 1" by linarith+
  then show ?thesis unfolding round_half_even_def Let_def abs_le_iff
    by (cases "y - ?f < 1/2"; cases "1/2 < y - ?f"; cases "even (floor y)") (simp; linarith)+
qed

lemma round2_bounds: "\<bar>round2 x - x\<bar> \<le> 1 / 200"
  using round_half_even_near [of "100 * x"] by (simp add: round2_def abs_le_iff field_simps)

lemma round_half_even_mono_int:
  assumes "of_int a \<le> x" "x \<le> of_int b"
  shows "a \<le> round_half_even x" "round_half_even x \<le> b"
proof -
  have "of_int a - 1 / 2 \<le> (of_int (round_half_even x) :: rat)" "of_int (round_half_even x) \<le> of_int b + (1 / 2 :: rat)"
    using round_half_even_near [of x] assms unfolding abs_le_iff by linarith+
  then show "a \<le> round_half_even x" "round_half_even x \<le> b" by linarith+
qed

lemma round2_percent: "0 \<le> x \<Longrightarrow> x \<le> 100 \<Longrightarrow> 0 \<le> round2 x \<and> round2 x \<le> 100"
  using round_half_even_mono_int [of 0 "100 * x" 10000] by (simp add: round2_def)

lemma weighted_mean_between:
  assumes "ms \<noteq> []" "\<forall>m \<in> set ms. lo \<le> f m \<and> f m \<le> hi" "\<forall>m \<in> set ms. 0 \<le> sm_tasks_completed m \<and> 0 \<le> sm_tasks_failed m"
  shows "lo \<le> weighted_mean f ms \<and> weighted_mean f ms \<le> hi"
proof -
  let ?w = "\<lambda>m. sm_tasks_completed m + sm_tasks_failed m"
  let ?tasks = "sum_list (map sm_tasks_completed ms) + sum_list (map sm_tasks_failed ms)"
  have tasks: "?tasks = sum_list (map ?w ms)" by (simp add: sum_list_addf)
  have w: "lo * of_int (?w m) \<le> f m * of_int (?w m) \<and> f m * of_int (?w m) \<le> hi * of_int (?w m)" if "m \<in> set ms" for m
    using assms(2,3) that by (auto intro!: mult_right_mono)
  have scale: "sum_list (map (\<lambda>m. c * of_int (?w m)) ms) = c * of_int ?tasks" for c :: rat
    unfolding tasks by (induction ms) (simp_all add: algebra_simps)
  have up: "sum_list (map (\<lambda>m. lo * of_int (?w m)) ms) \<le> sum_list (map (\<lambda>m. f m * of_int (?w m)) ms)"
    "sum_list (map (\<lambda>m. f m * of_int (?w m)) ms) \<le> sum_list (map (\<lambda>m. hi * of_int (?w m)) ms)"
    using w by (auto intro!: sum_list_mono)
  have plain: "sum_list (map (\<lambda>m. lo) ms) \<le> sum_list (map f ms)" "sum_list (map f ms) \<le> sum_list (map (\<lambda>m. hi) ms)"
    using assms(2) by (auto intro!: sum_list_mono)
  have const: "sum_list (map (\<lambda>m. c) ms) = c * of_nat (length ms)" for c :: rat by (simp add: sum_list_triv mult.commute)
  have "0 < (of_nat (length ms) :: rat)" using assms(1) by simp
  then show ?thesis
    using up plain unfolding scale const weighted_mean_def Let_def
    by (cases "0 < ?tasks") (simp_all add: pos_le_divide_eq pos_divide_le_eq)
qed

lemma p95_member: "ds \<noteq> [] \<Longrightarrow> compute_latency_p95_ms ds \<in> set ds"
proof -
  assume ds: "ds \<noteq> []"
  have "min i (length (sort ds) - 1) < length (sort ds)" for i using ds by (cases ds) (auto simp: min_def)
  then have "sort ds ! min i (length (sort ds) - 1) \<in> set (sort ds)" for i by (rule nth_mem)
  then show ?thesis using ds by (simp add: compute_latency_p95_ms_def Let_def)
qed

text \<open>At least 95 per cent of the gaps between the sorted values lie below the percentile.\<close>

lemma p95_rank:
  assumes "ds \<noteq> []"
  shows "95 / 100 * of_nat (length ds - 1) < (of_nat (length (filter (\<lambda>d. d \<le> compute_latency_p95_ms ds) ds)) :: rat)"
proof -
  define i where "i = (if 1 < length ds then nat (py_trunc (95 / 100 * of_nat (length ds - 1))) else 0)"
  let ?s = "sort ds" and ?q = "95 / 100 * of_nat (length ds - 1) :: rat"
  have i: "?q < of_nat i + 1" "i \<le> length ds - 1"
  proof -
    show "?q < of_nat i + 1"
    proof (cases "1 < length ds")
      case True
      have "0 \<le> ?q" by simp
      then have "of_nat (nat (py_trunc ?q)) = (of_int (floor ?q) :: rat)" by (simp add: py_trunc_def)
      moreover have "?q < of_int (floor ?q) + 1" by linarith
      ultimately show ?thesis using True by (simp add: i_def)
    next
      case False
      then have "length ds - 1 = 0" by simp
      then show ?thesis by simp
    qed
    have "floor ?q \<le> floor (of_nat (length ds - 1) :: rat)" by (rule floor_mono) simp
    then show "i \<le> length ds - 1" by (auto simp: i_def py_trunc_def)
  qed
  have "compute_latency_p95_ms ds = ?s ! min i (length ds - 1)"
    using assms by (simp only: compute_latency_p95_ms_def Let_def i_def length_sort if_False)
  then have p95: "compute_latency_p95_ms ds = ?s ! i" using i(2) by (simp only: min_absorb1)
  have len: "Suc i \<le> length ?s" using i(2) assms by (cases ds) auto
  have "?s ! j \<le> ?s ! i" if "j < Suc i" for j using that len by (auto intro!: sorted_nth_mono)
  then have "filter (\<lambda>d. d \<le> ?s ! i) (take (Suc i) ?s) = take (Suc i) ?s"
    by (auto simp: filter_id_conv in_set_conv_nth)
  then have "Suc i \<le> length (filter (\<lambda>d. d \<le> ?s ! i) ?s)"
    using len by (subst append_take_drop_id [of "Suc i" ?s, symmetric], subst filter_append) simp
  moreover have "mset (filter (\<lambda>d. d \<le> ?s ! i) ?s) = mset (filter (\<lambda>d. d \<le> ?s ! i) ds)" by (simp add: mset_filter)
  then have "length (filter (\<lambda>d. d \<le> ?s ! i) ?s) = length (filter (\<lambda>d. d \<le> ?s ! i) ds)" by (metis size_mset)
  ultimately show ?thesis using i(1) unfolding p95 by linarith
qed

subsection \<open>Paging\<close>

lemma query_page:
  assumes "0 \<le> n"
  shows "query_metrics agent a b (Some n) (int k) s =
    Inr (take (nat n) (drop k (sort_key sm_period_start (filter (\<lambda>m. metrics_matches m agent a b) (ss_metrics s)))))"
  using assms by (simp add: query_metrics_def Let_def py_slice_window)

text \<open>Asking for the pages one after the other gives every matching record once, in order of the period; as many as the count says.\<close>

lemma pages_cover:
  fixes agent a b s
  assumes "0 < n"
  defines "page \<equiv> \<lambda>k. case query_metrics agent a b (Some (int n)) (int (k * n)) s of Inr ms \<Rightarrow> ms | Inl e \<Rightarrow> []"
  shows "concat (map page [0..<Suc (count_metrics agent a b s div n)]) =
      (case query_metrics agent a b None 0 s of Inr ms \<Rightarrow> ms | Inl e \<Rightarrow> []) \<and>
    length (concat (map page [0..<Suc (count_metrics agent a b s div n)])) = count_metrics agent a b s"
proof -
  define xs where "xs = sort_key sm_period_start (filter (\<lambda>m. metrics_matches m agent a b) (ss_metrics s))"
  have page: "page k = take n (drop (k * n) xs)" for k
    using query_page [of "int n" agent a b "k * n" s] by (simp add: page_def xs_def)
  have "concat (map page [0..<k]) = take (k * n) xs" for k
    by (induction k) (simp_all add: page take_add [symmetric] add.commute)
  moreover have "length xs \<le> Suc (length xs div n) * n"
    using assms(1) by (metis dividend_less_div_times less_imp_le mult.commute mult_Suc_right add.commute)
  ultimately have "concat (map page [0..<Suc (length xs div n)]) = xs" by (simp only: take_all)
  moreover have "count_metrics agent a b s = length xs" by (simp add: count_metrics_def xs_def)
  moreover have "query_metrics agent a b None 0 s = Inr xs" by (simp add: query_metrics_def xs_def)
  ultimately show ?thesis by (simp only: sum.case simp_thms)
qed

subsection \<open>Properties\<close>

text \<open>The detector records exactly the broken promises. It appends, in order, one breach for each threshold that parses and is
  violated by the metrics, at most one of each kind, returns what it recorded, and leaves the metrics alone; the severity is
  critical for an uptime below 95 per cent, a latency of twice the limit or an error rate of five per cent or twice the limit. Only a
  callback that raises stops it, after the breach it was told of has been recorded.\<close>

theorem detector_records_violations:
  assumes "check_and_record txt fresh on_breach agent (Some d) m now s = (res, s')"
  shows "\<exists>bs. ss_metrics s' = ss_metrics s \<and> distinct (map (bc_type \<circ> sb_condition) bs) \<and>
    (case res of
       Inr rs \<Rightarrow> rs = bs \<and> ss_breaches s' = ss_breaches s @ bs
     | Inl x \<Rightarrow> \<exists>n < length bs. ss_breaches s' = ss_breaches s @ take (Suc n) bs \<and> on_breach (bs ! n) = Some x) \<and>
    (\<forall>b \<in> set bs. sb_agent_id b = agent \<and> sb_detected_at b = now) \<and>
    (\<forall>sev. (\<exists>b \<in> set bs. bc_type (sb_condition b) = AvailabilityBreach \<and> bc_severity (sb_condition b) = sev) \<longleftrightarrow>
       (\<exists>v r. sd_availability d = Some v \<and> parse_percentage v = Inr r \<and> sm_uptime_percent m < r \<and>
          (sev = Critical \<longleftrightarrow> sm_uptime_percent m < 95))) \<and>
    (\<forall>sev. (\<exists>b \<in> set bs. bc_type (sb_condition b) = LatencyBreach \<and> bc_severity (sb_condition b) = sev) \<longleftrightarrow>
       (\<exists>l. sd_max_latency_p95_ms d = Some l \<and> l < sm_latency_p95_ms m \<and> (sev = Critical \<longleftrightarrow> l * 2 \<le> sm_latency_p95_ms m))) \<and>
    (\<forall>sev. (\<exists>b \<in> set bs. bc_type (sb_condition b) = ErrorRateBreach \<and> bc_severity (sb_condition b) = sev) \<longleftrightarrow>
       (\<exists>v r. sd_max_error_rate d = Some v \<and> parse_percentage v = Inr r \<and> r < sm_error_rate_percent m \<and>
          (sev = Critical \<longleftrightarrow> 5 \<le> sm_error_rate_percent m \<or> r * 2 \<le> sm_error_rate_percent m)))"
proof -
  define cs where "cs = evaluate_breach_conditions txt (Some d) m"
  define mk where "mk = (\<lambda>(i :: nat, c). \<lparr>sb_id = ''breach_'' @ fresh i, sb_agent_id = agent, sb_condition = c, sb_detected_at = now, sb_resolved_at = None\<rparr>)"
  define bs where "bs = map mk (zip [0..<length cs] cs)"
  have run: "record_conditions fresh on_breach agent now 0 cs [] s = (res, s')" using assms by (simp add: check_and_record_def cs_def)
  have conds: "map sb_condition bs = cs"
    by (simp add: bs_def mk_def o_def split_def)
  have ex: "(\<exists>b \<in> set bs. P (sb_condition b)) \<longleftrightarrow> (\<exists>c \<in> set cs. P c)" for P
    using conds by (metis (no_types, lifting) imageE image_eqI list.set_map)
  have types: "distinct (map (bc_type \<circ> sb_condition) bs)"
    using evaluate_types [of "txt" "Some d" m] unfolding cs_def [symmetric] conds [symmetric] by (simp add: o_def)
  have len: "length bs = length cs" by (simp add: bs_def)
  have same: "\<forall>b \<in> set bs. sb_agent_id b = agent \<and> sb_detected_at b = now" by (auto simp: bs_def mk_def)
  from record_conditions_run [OF run] have "ss_metrics s' = ss_metrics s \<and>
    (case res of
       Inr rs \<Rightarrow> rs = bs \<and> ss_breaches s' = ss_breaches s @ bs
     | Inl x \<Rightarrow> \<exists>n < length bs. ss_breaches s' = ss_breaches s @ take (Suc n) bs \<and> on_breach (bs ! n) = Some x)"
    unfolding len by (auto simp: bs_def mk_def split: sum.splits)
  with types same show ?thesis
    by (intro exI [of _ bs]) (simp add: ex [of "\<lambda>c. bc_type c = _ \<and> bc_severity c = _"] evaluate_kinds [of "txt" d m, folded cs_def])
qed

definition sample_sla :: sla_definition where
  "sample_sla = \<lparr>sd_availability = Some ''99.5%'', sd_max_latency_p95_ms = Some 500, sd_max_error_rate = Some ''1%'', sd_support_hours = None\<rparr>"

definition sample_sla_metrics :: sla_metrics where
  "sample_sla_metrics = \<lparr>sm_agent_id = ''a'', sm_period_start = 0, sm_period_end = 10, sm_uptime_percent = 94, sm_latency_p95_ms = 600,
     sm_error_rate_percent = 1/2, sm_tasks_completed = 199, sm_tasks_failed = 1\<rparr>"

theorem detector_records_violations_witness:
  "\<exists>bs s'. check_and_record (\<lambda>r. []) (\<lambda>k. []) (\<lambda>b. None) ''a'' (Some sample_sla) sample_sla_metrics 7 \<lparr>ss_metrics = [], ss_breaches = []\<rparr> = (Inr bs, s') \<and>
     ss_breaches s' = bs \<and> (\<exists>b \<in> set bs. bc_type (sb_condition b) = LatencyBreach \<and> bc_severity (sb_condition b) = Warning)"
proof -
  let ?run = "check_and_record (\<lambda>r. []) (\<lambda>k. []) (\<lambda>b. None) ''a'' (Some sample_sla) sample_sla_metrics 7 \<lparr>ss_metrics = [], ss_breaches = []\<rparr>"
  obtain res s' where run: "?run = (res, s')" by fastforce
  have limit: "\<exists>l. sd_max_latency_p95_ms sample_sla = Some l \<and> l < sm_latency_p95_ms sample_sla_metrics \<and>
      (Warning = Critical \<longleftrightarrow> l * 2 \<le> sm_latency_p95_ms sample_sla_metrics)"
    by (simp add: sample_sla_def sample_sla_metrics_def)
  from detector_records_violations [OF run] show ?thesis
  proof (elim exE conjE, goal_cases)
    case (1 bs)
    from 1(3) have "res = Inr bs \<and> ss_breaches s' = bs" by (cases res) simp_all
    moreover from 1(6) limit have "\<exists>b \<in> set bs. bc_type (sb_condition b) = LatencyBreach \<and> bc_severity (sb_condition b) = Warning" by blast
    ultimately show ?case using run by auto
  qed
qed

text \<open>Aggregating valid metrics never fails: for any non-empty list of metrics in range the result exists and is in range again, although its
  uptime and error rate are recomputed and rounded. They differ by at most half a hundredth from a mean that lies between the smallest and the largest
  value; the latency is one of the reported ones, reached by at least 95 per cent; the tasks add up and the period spans all.\<close>

theorem aggregation_stays_valid:
  assumes "ms \<noteq> []" "\<forall>m \<in> set ms. sla_metrics_ok m"
  shows "\<exists>a. aggregate_sla_metrics ms = Inr (Some a) \<and> sla_metrics_ok a \<and>
    (\<exists>u. \<bar>sm_uptime_percent a - u\<bar> \<le> 1/200 \<and> (\<exists>m \<in> set ms. sm_uptime_percent m \<le> u) \<and> (\<exists>m \<in> set ms. u \<le> sm_uptime_percent m)) \<and>
    (\<exists>e. \<bar>sm_error_rate_percent a - e\<bar> \<le> 1/200 \<and> (\<exists>m \<in> set ms. sm_error_rate_percent m \<le> e) \<and> (\<exists>m \<in> set ms. e \<le> sm_error_rate_percent m)) \<and>
    (\<exists>m \<in> set ms. sm_latency_p95_ms a = sm_latency_p95_ms m) \<and>
    95 / 100 * of_nat (length ms - 1) < (of_nat (length (filter (\<lambda>m. sm_latency_p95_ms m \<le> sm_latency_p95_ms a) ms)) :: rat) \<and>
    sm_tasks_completed a = sum_list (map sm_tasks_completed ms) \<and> sm_tasks_failed a = sum_list (map sm_tasks_failed ms) \<and>
    (\<forall>m \<in> set ms. sm_period_start a \<le> sm_period_start m \<and> sm_period_end m \<le> sm_period_end a)"
proof -
  let ?up = "weighted_mean sm_uptime_percent ms" and ?er = "weighted_mean sm_error_rate_percent ms"
  let ?lat = "compute_latency_p95_ms (map sm_latency_p95_ms ms)"
  define a where "a = \<lparr>sm_agent_id = sm_agent_id (hd ms), sm_period_start = Min (set (map sm_period_start ms)),
      sm_period_end = Max (set (map sm_period_end ms)), sm_uptime_percent = round2 ?up, sm_latency_p95_ms = ?lat,
      sm_error_rate_percent = round2 ?er, sm_tasks_completed = sum_list (map sm_tasks_completed ms), sm_tasks_failed = sum_list (map sm_tasks_failed ms)\<rparr>"
  have tasks: "\<forall>m \<in> set ms. 0 \<le> sm_tasks_completed m \<and> 0 \<le> sm_tasks_failed m" using assms(2) by (auto simp: sla_metrics_ok_def)
  note mean = weighted_mean_between [OF assms(1) _ tasks]
  have range: "0 \<le> ?up" "?up \<le> 100" "0 \<le> ?er" "?er \<le> 100"
    using mean [of 0 sm_uptime_percent 100] mean [of 0 sm_error_rate_percent 100] assms(2) by (auto simp: sla_metrics_ok_def)
  have extremes: "(\<exists>m \<in> set ms. f m \<le> weighted_mean f ms) \<and> (\<exists>m \<in> set ms. weighted_mean f ms \<le> f m)" for f :: "sla_metrics \<Rightarrow> rat"
  proof -
    have fin: "finite (f ` set ms)" "f ` set ms \<noteq> {}" using assms(1) by auto
    have "Min (f ` set ms) \<le> weighted_mean f ms \<and> weighted_mean f ms \<le> Max (f ` set ms)"
      by (rule mean) (use fin in auto)
    with Min_in [OF fin] Max_in [OF fin] show ?thesis by auto
  qed
  have lat: "\<exists>m \<in> set ms. ?lat = sm_latency_p95_ms m" using p95_member [of "map sm_latency_p95_ms ms"] assms(1) by auto
  have rank: "95 / 100 * of_nat (length ms - 1) < (of_nat (length (filter (\<lambda>m. sm_latency_p95_ms m \<le> ?lat) ms)) :: rat)"
    using p95_rank [of "map sm_latency_p95_ms ms"] assms(1) by (simp add: filter_map o_def)
  have ok: "sla_metrics_ok a"
    using round2_percent [OF range(1,2)] round2_percent [OF range(3,4)] lat assms(2) tasks
    by (auto simp: a_def sla_metrics_ok_def intro!: sum_list_nonneg)
  have "aggregate_sla_metrics ms = Inr (Some a)"
    using assms(1) ok by (simp add: aggregate_sla_metrics_def make_sla_metrics_def a_def)
  moreover have "\<bar>sm_uptime_percent a - ?up\<bar> \<le> 1/200" "\<bar>sm_error_rate_percent a - ?er\<bar> \<le> 1/200"
    using round2_bounds [of ?up] round2_bounds [of ?er] by (simp_all add: a_def)
  ultimately show ?thesis
    using ok extremes [of sm_uptime_percent] extremes [of sm_error_rate_percent] lat rank by (intro exI [of _ a]) (auto simp: a_def)
qed

theorem aggregation_stays_valid_witness:
  "\<exists>a. aggregate_sla_metrics [sample_sla_metrics, sample_sla_metrics] = Inr (Some a) \<and> sm_tasks_completed a = 398"
proof -
  have "\<forall>m \<in> set [sample_sla_metrics, sample_sla_metrics]. sla_metrics_ok m" by (simp add: sla_metrics_ok_def sample_sla_metrics_def)
  from aggregation_stays_valid [OF _ this] show ?thesis by (auto simp: sample_sla_metrics_def)
qed

text \<open>The format check of a definition accepts texts that are no numbers, and the evaluation then drops the promise silently.\<close>

lemma malformed_promise_dropped:
  "sla_definition_ok \<lparr>sd_availability = Some ''99..9%'', sd_max_latency_p95_ms = None, sd_max_error_rate = None, sd_support_hours = None\<rparr> \<and>
   evaluate_breach_conditions txt (Some \<lparr>sd_availability = Some ''99..9%'', sd_max_latency_p95_ms = None, sd_max_error_rate = None, sd_support_hours = None\<rparr>) m = []"
proof -
  have "validate_percentage_format ''99..9%'' = Inr ''99..9%''" by code_simp
  moreover have "\<exists>e. parse_percentage ''99..9%'' = Inl e"
  proof -
    have "percentage_group (strip ''99..9%'') = Some ''99..9''" "parse_float ''99..9'' = None" by code_simp+
    then show ?thesis by (simp add: parse_percentage_def)
  qed
  ultimately show ?thesis
    by (auto simp: sla_definition_ok_def evaluate_breach_conditions_def availability_breach_def latency_breach_def error_rate_breach_def)
qed

end
