(* ===== verification/Ws_Pool.thy ===== *)
theory Ws_Pool
  imports Asap_Prelude
begin

text \<open>
  The pool of WebSocket connections to one URL (\<open>src/asap/transport/ws/pool.py\<close>): \<open>acquire\<close> with its two phases, \<open>release\<close> and
  \<open>close\<close>.

  A transport is a number; \<open>pl_dead\<close> are the transports whose socket is gone (\<open>transport._ws is None\<close>), which can happen at any moment.
  What runs under the lock of the pool is one step, for the awaits inside it (connecting, closing a transport) keep
  everybody out who needs the lock. The second phase of \<open>acquire\<close> waits on the queue without the lock: a caller there is counted in
  \<open>pl_waiting\<close>, one that got an entry and not yet the lock is an entry of \<open>pl_taken\<close>. \<open>close\<close> drains the queue without the lock, one entry at a time.
  \<open>pl_held\<close> are the transports callers have.
\<close>

type_synonym transport = nat

record pool_config =
  pc_max_size :: int
  pc_idle_timeout :: rat

record pool =
  pl_available :: "(transport \<times> rat) list"
  pl_in_use_count :: int
  pl_total_count :: int
  pl_closed :: bool
  pl_next :: transport
  pl_dead :: "transport set"
  pl_waiting :: nat
  pl_taken :: "(transport \<times> rat) list"
  pl_held :: "transport list"

definition pool_init :: pool where
  "pool_init = \<lparr>pl_available = [], pl_in_use_count = 0, pl_total_count = 0, pl_closed = False, pl_next = 0, pl_dead = {},
     pl_waiting = 0, pl_taken = [], pl_held = []\<rparr>"

definition usable :: "pool_config \<Rightarrow> rat \<Rightarrow> transport set \<Rightarrow> transport \<times> rat \<Rightarrow> bool" where
  "usable pc now dead e \<longleftrightarrow> now - snd e \<le> pc_idle_timeout pc \<and> fst e \<notin> dead"

subsection \<open>Operations\<close>

text \<open>The loop over the queue at the start of \<open>acquire\<close>: entries that were idle for too long or are dead are dropped.\<close>

fun scan_available :: "pool_config \<Rightarrow> rat \<Rightarrow> transport set \<Rightarrow> (transport \<times> rat) list \<Rightarrow> transport option \<times> int \<times> (transport \<times> rat) list" where
  "scan_available pc now dead [] = (None, 0, [])"
| "scan_available pc now dead (e # q) =
     (if usable pc now dead e then (Some (fst e), 0, q)
      else (case scan_available pc now dead q of (r, n, q') \<Rightarrow> (r, n + 1, q')))"

datatype acquired = PoolClosed | Got transport | ConnectFailed | MustWait

text \<open>\<open>acquire\<close> up to the wait, as one step; \<open>connects\<close> says whether a new connection can be made. The lock is held throughout;
  a caller that waits on the queue takes no lock, and one that is woken while an idle transport is being closed is taken to run before
  or after the whole step.\<close>

definition pool_acquire :: "pool_config \<Rightarrow> rat \<Rightarrow> bool \<Rightarrow> pool \<Rightarrow> acquired \<times> pool" where
  "pool_acquire pc now connects p =
     (if pl_closed p then (PoolClosed, p)
      else (case scan_available pc now (pl_dead p) (pl_available p) of
              (r, n, q) \<Rightarrow>
                let p1 = p\<lparr>pl_available := q, pl_total_count := pl_total_count p - n\<rparr>
                in case r of
                     Some t \<Rightarrow> (Got t, p1\<lparr>pl_in_use_count := pl_in_use_count p1 + 1, pl_held := pl_held p1 @ [t]\<rparr>)
                   | None \<Rightarrow>
                       if pl_total_count p1 < pc_max_size pc then
                         if connects
                         then (Got (pl_next p1), p1\<lparr>pl_next := Suc (pl_next p1), pl_total_count := pl_total_count p1 + 1,
                                 pl_in_use_count := pl_in_use_count p1 + 1, pl_held := pl_held p1 @ [pl_next p1]\<rparr>)
                         else (ConnectFailed, p1)
                       else (MustWait, p1\<lparr>pl_waiting := pl_waiting p1 + 1\<rparr>)))"

text \<open>A waiting caller gets an entry of the queue, then the lock: a useless entry sends it back to waiting.\<close>

definition waiter_takes :: "pool \<Rightarrow> pool" where
  "waiter_takes p =
     (case pl_available p of
        [] \<Rightarrow> p
      | e # q \<Rightarrow> if pl_waiting p = 0 then p
                 else p\<lparr>pl_available := q, pl_waiting := pl_waiting p - 1, pl_taken := pl_taken p @ [e]\<rparr>)"

definition waiter_resumes :: "pool_config \<Rightarrow> rat \<Rightarrow> transport \<times> rat \<Rightarrow> pool \<Rightarrow> acquired \<times> pool" where
  "waiter_resumes pc now e p =
     (let p1 = p\<lparr>pl_taken := remove1 e (pl_taken p)\<rparr>
      in if pl_closed p then (PoolClosed, p1)
         else if usable pc now (pl_dead p) e
         then (Got (fst e), p1\<lparr>pl_in_use_count := pl_in_use_count p + 1, pl_held := pl_held p @ [fst e]\<rparr>)
         else (MustWait, p1\<lparr>pl_total_count := pl_total_count p - 1, pl_waiting := pl_waiting p + 1\<rparr>))"

definition pool_release :: "rat \<Rightarrow> transport \<Rightarrow> pool \<Rightarrow> pool" where
  "pool_release now t p =
     (let p1 = p\<lparr>pl_in_use_count := pl_in_use_count p - 1, pl_held := remove1 t (pl_held p)\<rparr>
      in if pl_closed p then p1
         else if t \<in> pl_dead p then p1\<lparr>pl_total_count := pl_total_count p - 1\<rparr>
         else p1\<lparr>pl_available := pl_available p @ [(t, now)]\<rparr>)"

definition pool_close_start :: "pool \<Rightarrow> pool" where
  "pool_close_start p = p\<lparr>pl_closed := True\<rparr>"

definition pool_close_drain :: "pool \<Rightarrow> pool" where
  "pool_close_drain p =
     (case pl_available p of
        [] \<Rightarrow> p\<lparr>pl_total_count := 0, pl_in_use_count := 0\<rparr>
      | e # q \<Rightarrow> p\<lparr>pl_available := q\<rparr>)"

subsection \<open>Runs\<close>

datatype pool_event = PoolAcquire | WaiterTakes | WaiterResumes | PoolRelease | TransportDies | PoolCloses | PoolDrains

inductive pool_step :: "pool_config \<Rightarrow> pool_event \<Rightarrow> pool \<Rightarrow> pool \<Rightarrow> bool" for pc :: pool_config where
  acquire: "pool_step pc PoolAcquire p (snd (pool_acquire pc now connects p))"
| takes: "pool_step pc WaiterTakes p (waiter_takes p)"
| resumes: "e \<in> set (pl_taken p) \<Longrightarrow> pool_step pc WaiterResumes p (snd (waiter_resumes pc now e p))"
| release: "t \<in> set (pl_held p) \<Longrightarrow> pool_step pc PoolRelease p (pool_release now t p)"
| dies: "pool_step pc TransportDies p (p\<lparr>pl_dead := insert t (pl_dead p)\<rparr>)"
| closes: "pool_step pc PoolCloses p (pool_close_start p)"
| drains: "pl_closed p \<Longrightarrow> pool_step pc PoolDrains p (pool_close_drain p)"

inductive pool_run :: "pool_config \<Rightarrow> pool_event list \<Rightarrow> pool \<Rightarrow> pool \<Rightarrow> bool" for pc :: pool_config where
  stay: "pool_run pc [] p p"
| step: "pool_run pc evs p p' \<Longrightarrow> pool_step pc ev p' p'' \<Longrightarrow> pool_run pc (evs @ [ev]) p p''"

subsection \<open>The invariant\<close>

definition pool_transports :: "pool \<Rightarrow> transport list" where
  "pool_transports p = map fst (pl_available p) @ map fst (pl_taken p) @ pl_held p"

definition pool_inv :: "pool_config \<Rightarrow> pool \<Rightarrow> bool" where
  "pool_inv pc p \<longleftrightarrow> distinct (pool_transports p) \<and> set (pool_transports p) \<subseteq> {..<pl_next p} \<and>
     int (length (pool_transports p)) \<le> max 0 (pc_max_size pc) \<and>
     (\<not> pl_closed p \<longrightarrow> pl_total_count p = int (length (pool_transports p)) \<and> pl_in_use_count p = int (length (pl_held p)))"

lemma scan_available_spec:
  assumes "scan_available pc now dead q = (r, n, q')"
  shows "0 \<le> n \<and> (\<exists>dropped. map fst q = dropped @ (case r of None \<Rightarrow> [] | Some t \<Rightarrow> [t]) @ map fst q' \<and> int (length dropped) = n) \<and>
    (r = None \<longrightarrow> q' = []) \<and> (\<forall>t. r = Some t \<longrightarrow> t \<notin> dead)"
  using assms
proof (induction q arbitrary: r n q')
  case (Cons e q)
  show ?case
  proof (cases "usable pc now dead e")
    case True
    with Cons.prems show ?thesis by (auto simp: usable_def)
  next
    case False
    obtain r' n' q'' where rest: "scan_available pc now dead q = (r', n', q'')" by (cases "scan_available pc now dead q")
    from Cons.IH [OF rest] obtain dropped where "map fst q = dropped @ (case r' of None \<Rightarrow> [] | Some t \<Rightarrow> [t]) @ map fst q''" "int (length dropped) = n'"
      by blast
    then have "map fst (e # q) = (fst e # dropped) @ (case r' of None \<Rightarrow> [] | Some t \<Rightarrow> [t]) @ map fst q''" "int (length (fst e # dropped)) = n' + 1"
      by simp_all
    with Cons.IH [OF rest] Cons.prems False rest show ?thesis by (auto intro: exI [of _ "fst e # dropped"])
  qed
qed simp

lemma distinct_shrink:
  assumes "distinct xs" "mset ys \<subseteq># mset xs"
  shows "distinct ys"
  unfolding distinct_count_atmost_1
proof
  fix a
  have "count (mset ys) a \<le> count (mset xs) a" using assms(2) by (simp add: subseteq_mset_def)
  moreover have "count (mset xs) a \<le> 1" using assms(1) by (simp add: distinct_count_atmost_1)
  ultimately have "count (mset ys) a \<le> 1" by simp
  moreover have "0 < count (mset ys) a" if "a \<in> set ys" using that by simp
  ultimately show "count (mset ys) a = (if a \<in> set ys then 1 else 0)"
    by (cases "a \<in> set ys") (simp_all add: count_mset_0_iff le_antisym Suc_leI del: count_greater_zero_iff)
qed

lemma pool_inv_shrink:
  assumes inv: "pool_inv pc p" and sub: "mset (pool_transports p') \<subseteq># mset (pool_transports p)" and nxt: "pl_next p' = pl_next p"
    and counts: "\<not> pl_closed p' \<Longrightarrow> pl_total_count p' = int (length (pool_transports p')) \<and> pl_in_use_count p' = int (length (pl_held p'))"
  shows "pool_inv pc p'"
proof -
  from set_mset_mono [OF sub] have "set (pool_transports p') \<subseteq> set (pool_transports p)" by simp
  moreover from size_mset_mono [OF sub] have "length (pool_transports p') \<le> length (pool_transports p)" by simp
  moreover have "distinct (pool_transports p')" using inv sub unfolding pool_inv_def by (auto intro: distinct_shrink)
  ultimately show ?thesis using inv counts nxt unfolding pool_inv_def by force
qed

lemma pool_inv_new:
  assumes inv: "pool_inv pc p" and open_pool: "\<not> pl_closed p" and room: "pl_total_count p < pc_max_size pc"
  shows "pool_inv pc (p\<lparr>pl_next := Suc (pl_next p), pl_total_count := pl_total_count p + 1, pl_in_use_count := pl_in_use_count p + 1,
    pl_held := pl_held p @ [pl_next p]\<rparr>)" (is "pool_inv pc ?q")
proof -
  have t: "pool_transports ?q = pool_transports p @ [pl_next p]" by (simp add: pool_transports_def)
  from inv have "pl_next p \<notin> set (pool_transports p)" "set (pool_transports p) \<subseteq> {..<Suc (pl_next p)}" by (auto simp: pool_inv_def)
  then show ?thesis using inv open_pool room unfolding pool_inv_def t by simp
qed

lemma pool_inv_acquire:
  assumes inv: "pool_inv pc p"
  shows "pool_inv pc (snd (pool_acquire pc now connects p))"
proof (cases "pl_closed p")
  case False
  obtain r n q where scan: "scan_available pc now (pl_dead p) (pl_available p) = (r, n, q)" by (cases "scan_available pc now (pl_dead p) (pl_available p)")
  from scan_available_spec [OF scan] obtain dropped where
    split: "map fst (pl_available p) = dropped @ (case r of None \<Rightarrow> [] | Some t \<Rightarrow> [t]) @ map fst q" "int (length dropped) = n"
    by blast
  let ?p = "p\<lparr>pl_available := q, pl_total_count := pl_total_count p - n\<rparr>"
  from inv False have counts: "pl_total_count p = int (length (pool_transports p))" "pl_in_use_count p = int (length (pl_held p))"
    by (simp_all add: pool_inv_def)
  show ?thesis
  proof (cases r)
    case (Some t)
    then have t: "pool_transports p = dropped @ t # map fst q @ map fst (pl_taken p) @ pl_held p"
      using split(1) by (simp add: pool_transports_def)
    have "pool_inv pc (?p\<lparr>pl_in_use_count := pl_in_use_count p + 1, pl_held := pl_held p @ [t]\<rparr>)"
      by (rule pool_inv_shrink [OF inv]) (simp_all add: counts t split(2) [symmetric], simp_all add: pool_transports_def)
    with Some scan False show ?thesis by (simp add: pool_acquire_def Let_def)
  next
    case None
    then have t: "pool_transports p = dropped @ map fst q @ map fst (pl_taken p) @ pl_held p"
      using split(1) by (simp add: pool_transports_def)
    have p: "pool_inv pc ?p"
      by (rule pool_inv_shrink [OF inv]) (simp_all add: counts t split(2) [symmetric], simp_all add: pool_transports_def)
    moreover have "pool_inv pc (?p\<lparr>pl_waiting := w\<rparr>)" for w using p by (simp add: pool_inv_def pool_transports_def)
    ultimately show ?thesis
      using None scan False pool_inv_new [OF p] by (simp add: pool_acquire_def Let_def)
  qed
qed (simp add: pool_acquire_def inv)

lemma pool_inv_waiter_takes: "pool_inv pc p \<Longrightarrow> pool_inv pc (waiter_takes p)"
proof (cases "pl_available p")
  case (Cons e q)
  assume inv: "pool_inv pc p"
  then have "\<not> pl_closed p \<Longrightarrow> pl_total_count p = int (length (pool_transports p)) \<and> pl_in_use_count p = int (length (pl_held p))"
    by (simp add: pool_inv_def)
  then have "pool_inv pc (p\<lparr>pl_available := q, pl_waiting := pl_waiting p - 1, pl_taken := pl_taken p @ [e]\<rparr>)"
    by (intro pool_inv_shrink [OF inv]) (simp_all add: Cons pool_transports_def)
  with inv show ?thesis by (simp add: waiter_takes_def Cons)
qed (simp add: waiter_takes_def)

lemma pool_inv_waiter_resumes:
  assumes inv: "pool_inv pc p" and e: "e \<in> set (pl_taken p)"
  shows "pool_inv pc (snd (waiter_resumes pc now e p))"
proof -
  have "distinct (pl_taken p)" using inv by (auto simp: pool_inv_def pool_transports_def distinct_map)
  with e obtain ys zs where split: "pl_taken p = ys @ e # zs" "remove1 e (pl_taken p) = ys @ zs" by (rule remove1_split)
  from inv have "\<not> pl_closed p \<Longrightarrow> pl_total_count p = int (length (pool_transports p)) \<and> pl_in_use_count p = int (length (pl_held p))"
    by (simp add: pool_inv_def)
  then show ?thesis
    using split by (cases "pl_closed p"; cases "usable pc now (pl_dead p) e"; intro pool_inv_shrink [OF inv])
      (simp_all add: waiter_resumes_def Let_def pool_transports_def)
qed

lemma pool_inv_release:
  assumes inv: "pool_inv pc p" and t: "t \<in> set (pl_held p)"
  shows "pool_inv pc (pool_release now t p)"
proof -
  have "distinct (pl_held p)" using inv by (auto simp: pool_inv_def pool_transports_def)
  with t obtain ys zs where split: "pl_held p = ys @ t # zs" "remove1 t (pl_held p) = ys @ zs" by (rule remove1_split)
  from inv have "\<not> pl_closed p \<Longrightarrow> pl_total_count p = int (length (pool_transports p)) \<and> pl_in_use_count p = int (length (pl_held p))"
    by (simp add: pool_inv_def)
  then show ?thesis
    using split by (cases "pl_closed p"; cases "t \<in> pl_dead p"; intro pool_inv_shrink [OF inv])
      (simp_all add: pool_release_def Let_def pool_transports_def)
qed

lemma pool_inv_drain: "pl_closed p \<Longrightarrow> pool_inv pc p \<Longrightarrow> pool_inv pc (pool_close_drain p)"
  by (cases "pl_available p") (auto simp: pool_inv_def pool_transports_def pool_close_drain_def)

lemma pool_inv_step: "pool_step pc ev p p' \<Longrightarrow> pool_inv pc p \<Longrightarrow> pool_inv pc p'"
proof (induction rule: pool_step.induct)
  case (dies p t)
  then show ?case by (simp add: pool_inv_def pool_transports_def)
next
  case (closes p)
  then show ?case by (simp add: pool_inv_def pool_transports_def pool_close_start_def)
qed (auto intro: pool_inv_acquire pool_inv_waiter_takes pool_inv_waiter_resumes pool_inv_release pool_inv_drain)

lemma pool_inv_run: "pool_run pc evs p p' \<Longrightarrow> pool_inv pc p \<Longrightarrow> pool_inv pc p'"
  by (induction rule: pool_run.induct) (auto intro: pool_inv_step)

lemma pool_inv_init: "pool_inv pc pool_init"
  by (simp add: pool_inv_def pool_transports_def pool_init_def)

subsection \<open>Callers left waiting\<close>

definition stranded :: "nat \<Rightarrow> pool \<Rightarrow> bool" where
  "stranded n p \<longleftrightarrow> pl_available p = [] \<and> pl_taken p = [] \<and> pl_held p = [] \<and> pl_waiting p = n"

lemma stranded_step: "pool_step pc ev p p' \<Longrightarrow> stranded n p \<Longrightarrow> ev \<noteq> PoolAcquire \<Longrightarrow> stranded n p'"
  by (induction rule: pool_step.induct) (auto simp: stranded_def waiter_takes_def pool_close_start_def pool_close_drain_def)

lemma stranded_run: "pool_run pc evs p p' \<Longrightarrow> stranded n p \<Longrightarrow> PoolAcquire \<notin> set evs \<Longrightarrow> stranded n p'"
  by (induction rule: pool_run.induct) (auto intro: stranded_step)

subsection \<open>Properties\<close>

definition sample_pool_config :: pool_config where
  "sample_pool_config = \<lparr>pc_max_size = 1, pc_idle_timeout = 60\<rparr>"

text \<open>One caller holds the only connection, a second one waits, the connection dies and is given back.\<close>

definition sample_stranded_pool :: pool where
  "sample_stranded_pool =
     pool_release 3 0 ((snd (pool_acquire sample_pool_config 1 True (snd (pool_acquire sample_pool_config 0 True pool_init))))\<lparr>pl_dead := {0}\<rparr>)"

lemma sample_stranded_run:
  "pool_run sample_pool_config [PoolAcquire, PoolAcquire, TransportDies, PoolRelease] pool_init sample_stranded_pool"
proof -
  let ?p1 = "snd (pool_acquire sample_pool_config 0 True pool_init)"
  let ?p2 = "snd (pool_acquire sample_pool_config 1 True ?p1)"
  let ?p3 = "?p2\<lparr>pl_dead := insert 0 (pl_dead ?p2)\<rparr>"
  have p3: "?p3 = ?p2\<lparr>pl_dead := {0}\<rparr>" "0 \<in> set (pl_held ?p3)"
    by (simp_all add: pool_acquire_def pool_init_def sample_pool_config_def Let_def)
  have "pool_run sample_pool_config (((([] @ [PoolAcquire]) @ [PoolAcquire]) @ [TransportDies]) @ [PoolRelease]) pool_init (pool_release 3 0 ?p3)"
    by (rule pool_run.step [OF pool_run.step [OF pool_run.step [OF pool_run.step [OF pool_run.stay pool_step.acquire] pool_step.acquire]
      pool_step.dies] pool_step.release]) (rule p3(2))
  then show ?thesis by (simp add: sample_stranded_pool_def p3(1))
qed

text \<open>C26: A pool never has more than \<open>max_size\<close> transports, in the queue, with callers and in between; no transport is with two
  callers; and until it is closed its two counters are the number of its transports and of those that callers have.\<close>

theorem pool_bounded_and_exclusive:
  assumes "pool_run pc evs pool_init p"
  shows "distinct (pool_transports p) \<and> int (length (pool_transports p)) \<le> max 0 (pc_max_size pc) \<and>
    (\<not> pl_closed p \<longrightarrow> pl_total_count p = int (length (pool_transports p)) \<and> pl_in_use_count p = int (length (pl_held p)))"
  using pool_inv_run [OF assms pool_inv_init] by (simp add: pool_inv_def)

theorem pool_bounded_and_exclusive_witness: "int (length (pool_transports sample_stranded_pool)) \<le> 1"
  using pool_bounded_and_exclusive [OF sample_stranded_run] by (simp add: sample_pool_config_def)

text \<open>When the last connection of a full pool died before it was given back, the callers that wait are served by nobody: the pool would have room for a new
  connection, but as long as no other caller comes, they wait, even when the pool is closed.\<close>

theorem waiters_stranded:
  assumes "pool_run pc evs pool_init p" "\<not> pl_closed p" "pl_total_count p = 0" "pool_run pc evs' p p'" "PoolAcquire \<notin> set evs'"
  shows "pl_waiting p' = pl_waiting p \<and> pl_held p' = []"
proof -
  from pool_inv_run [OF assms(1) pool_inv_init] assms(2,3) have "stranded (pl_waiting p) p"
    by (simp add: pool_inv_def stranded_def) (simp add: pool_transports_def)
  from stranded_run [OF assms(4) this assms(5)] show ?thesis by (simp add: stranded_def)
qed

theorem waiters_stranded_witness: "pl_waiting (pool_close_start sample_stranded_pool) = 1"
proof -
  have s: "\<not> pl_closed sample_stranded_pool" "pl_total_count sample_stranded_pool = 0" "pl_waiting sample_stranded_pool = 1"
    by (simp_all add: sample_stranded_pool_def pool_release_def pool_acquire_def pool_init_def sample_pool_config_def Let_def)
  have "pool_run sample_pool_config ([] @ [PoolCloses]) sample_stranded_pool (pool_close_start sample_stranded_pool)"
    by (rule pool_run.step [OF pool_run.stay pool_step.closes])
  from waiters_stranded [OF sample_stranded_run s(1,2) this] s(3) show ?thesis by simp
qed

end
