(* ===== verification/Ws_Client.thy ===== *)
theory Ws_Client
  imports Client_Send
begin

text \<open>
  The WebSocket transport of the client (\<open>src/asap/transport/ws/client.py\<close>) with its receive loop
  (\<open>ws/_recv.py\<close>), its acknowledgement layer (\<open>ws/_ack.py\<close>) and the framing (\<open>ws/codecs.py\<close>).

  The transport runs several tasks over one state: callers that send and wait, the receive loop, and the loop that
  retransmits what was not acknowledged. A task keeps control until it awaits, so the code between two awaits is one
  atomic step; \<open>ws_step\<close> is the relation of all these steps, in any order. Futures and trackers of acknowledgements are
  shared objects: they live in the lists \<open>wc_futures\<close> and \<open>wc_acks\<close>, and dictionaries and tasks hold their addresses. The fields
  \<open>wc_sent\<close>, \<open>wc_seen\<close>, \<open>wc_pushed\<close>, \<open>wc_resent\<close> and \<open>wc_returned\<close> record what happened. JSON and the fields of pydantic are
  the record \<open>ws_lib\<close>; logging is left out.
\<close>

subsection \<open>Frames\<close>

definition ASAP_ACK_METHOD :: string where "ASAP_ACK_METHOD = ''asap.ack''"
definition HEARTBEAT_FRAME_TYPE_PING :: string where "HEARTBEAT_FRAME_TYPE_PING = ''ping''"
definition HEARTBEAT_FRAME_TYPE_PONG :: string where "HEARTBEAT_FRAME_TYPE_PONG = ''pong''"
definition RECONNECT_INITIAL_BACKOFF :: rat where "RECONNECT_INITIAL_BACKOFF = 1"
definition RECONNECT_MAX_BACKOFF :: rat where "RECONNECT_MAX_BACKOFF = 30"

definition PAYLOAD_TYPES_REQUIRING_ACK :: "string list" where
  "PAYLOAD_TYPES_REQUIRING_ACK =
     [''TaskRequest'', ''task.request'', ''TaskCancel'', ''task.cancel'', ''StateRestore'', ''state_restore'',
      ''MessageSend'', ''message.send'', ''message_send'']"

record ws_lib =
  wsl_loads :: "string \<Rightarrow> string + pyval"
  wsl_dumps :: "pyval \<Rightarrow> string"
  wsl_dump_envelope :: "envelope \<Rightarrow> pydict"
  wsl_fields :: "pydict \<Rightarrow> pyval + envelope"
  wsl_report :: "py_exn \<Rightarrow> pyval"
  wsl_no_object :: "pyval \<Rightarrow> string"
  wsl_str :: "pyval \<Rightarrow> string"
  wsl_repr :: "string option \<Rightarrow> string"
  wsl_exn_text :: "exn \<Rightarrow> string"

text \<open>A frame as the socket delivers it: a text, or bytes with the result of decoding them.\<close>

datatype ws_frame = TextFrame string | BinaryFrame "string + string"

definition encode_envelope_frame :: "ws_lib \<Rightarrow> pydict \<Rightarrow> string \<Rightarrow> string" where
  "encode_envelope_frame lb env request_id =
     wsl_dumps lb (PDict [(''jsonrpc'', PStr ''2.0''), (''method'', PStr ASAP_METHOD),
       (''params'', PDict [(''envelope'', PDict env)]), (''id'', PStr request_id)])"

definition decode_frame_to_json :: "ws_lib \<Rightarrow> string \<Rightarrow> string + pyval" where
  "decode_frame_to_json lb raw = wsl_loads lb raw"

text \<open>\<open>data.get("type") == t and "method" not in data\<close> on an object.\<close>

definition heartbeat_frame :: "string \<Rightarrow> pydict \<Rightarrow> bool" where
  "heartbeat_frame t data \<longleftrightarrow> map_of data ''type'' = Some (PStr t) \<and> map_of data ''method'' = None"

definition is_heartbeat_pong :: "pydict \<Rightarrow> bool" where
  "is_heartbeat_pong data = heartbeat_frame HEARTBEAT_FRAME_TYPE_PONG data"

definition is_client_heartbeat_ping :: "pydict \<Rightarrow> bool" where
  "is_client_heartbeat_ping data = heartbeat_frame HEARTBEAT_FRAME_TYPE_PING data"

definition pong_frame :: "ws_lib \<Rightarrow> string" where
  "pong_frame lb = wsl_dumps lb (PDict [(''type'', PStr HEARTBEAT_FRAME_TYPE_PONG)])"

text \<open>\<open>Envelope.model_validate(v)\<close>\<close>

definition model_validate :: "ws_lib \<Rightarrow> string \<Rightarrow> datetime \<Rightarrow> pyval \<Rightarrow> exn + envelope" where
  "model_validate lb new_id now v =
     (case v of
        PDict d \<Rightarrow>
          (case envelope_from_dict (wsl_fields lb) (wsl_report lb) new_id now d of
             Inl x \<Rightarrow> Inl x
           | Inr (Inl errs) \<Rightarrow> Inl (OtherExn ''ValidationError'' (wsl_str lb errs))
           | Inr (Inr e) \<Rightarrow> Inr e)
      | _ \<Rightarrow> Inl (OtherExn ''ValidationError'' (wsl_no_object lb v)))"

text \<open>\<open>MessageAck.model_validate(d)\<close>: the identifier a valid acknowledgement names.\<close>

definition message_ack_id :: "pydict \<Rightarrow> string option" where
  "message_ack_id d =
     (if set (map fst d) \<subseteq> {''original_envelope_id'', ''status'', ''error''}
      then (case (map_of d ''original_envelope_id'', map_of d ''status'', map_of d ''error'') of
              (Some (PStr i), Some (PStr st), err) \<Rightarrow>
                if st \<in> {''received'', ''processed'', ''rejected''} \<and> (case err of None \<Rightarrow> True | Some PNone \<Rightarrow> True | Some (PStr x) \<Rightarrow> True | _ \<Rightarrow> False)
                then Some i else None
            | _ \<Rightarrow> None)
      else None)"

subsection \<open>The transport\<close>

datatype ws_exn = WsRemote pyval pyval pyval | WsRaised exn | WsTimedOut string

datatype future = Waiting | Resolved envelope | Rejected ws_exn | Cancelled

record pending_ack =
  pa_envelope_id :: string
  pa_sent_at :: rat
  pa_retries :: int
  pa_original :: envelope

datatype call_kind = SendOnly | AwaitReply

record ws_config =
  wf_reconnect :: bool
  wf_has_callback :: bool
  wf_ack_timeout :: rat
  wf_max_ack_retries :: int

text \<open>A caller inside \<open>ws.send\<close> is an entry of \<open>wc_sending\<close>, one waiting for its answer an entry of \<open>wc_calls\<close> with the address of
  its future. \<open>wc_round\<close> is the state of the loop over the trackers: those still to be retransmitted, those to be expired;
  \<open>wc_resending\<close> says that it is inside \<open>ws.send\<close>.\<close>

record ws_client =
  wc_connected :: bool
  wc_closed :: bool
  wc_reader :: bool
  wc_checker :: bool
  wc_counter :: nat
  wc_pending :: "(string, nat) dict"
  wc_pending_request_ids :: "(string, string) dict"
  wc_futures :: "future list"
  wc_pending_acks :: "(string, nat) dict"
  wc_acks :: "pending_ack list"
  wc_breaker :: "breaker option"
  wc_sending :: "(string \<times> envelope \<times> call_kind) list"
  wc_calls :: "(string \<times> envelope \<times> nat) list"
  wc_round :: "((string \<times> nat) list \<times> string list) option"
  wc_resending :: bool
  wc_sent :: "string list"
  wc_seen :: "pydict list"
  wc_pushed :: "envelope list"
  wc_resent :: "nat list"
  wc_returned :: "(string \<times> envelope \<times> (ws_exn + envelope)) list"

definition ws_init :: "breaker option \<Rightarrow> ws_client" where
  "ws_init b =
     \<lparr>wc_connected = False, wc_closed = False, wc_reader = False, wc_checker = False, wc_counter = 1,
      wc_pending = [], wc_pending_request_ids = [], wc_futures = [], wc_pending_acks = [], wc_acks = [], wc_breaker = b,
      wc_sending = [], wc_calls = [], wc_round = None, wc_resending = False,
      wc_sent = [], wc_seen = [], wc_pushed = [], wc_resent = [], wc_returned = []\<rparr>"

subsection \<open>Sending\<close>

definition request_name :: "nat \<Rightarrow> string" where
  "request_name n = ''ws-req-'' @ str_nat n"

definition requires_ack_for :: "envelope \<Rightarrow> bool" where
  "requires_ack_for e \<longleftrightarrow> requires_ack e \<or> payload_type e \<in> set PAYLOAD_TYPES_REQUIRING_ACK"

definition envelope_dict_for_send :: "ws_lib \<Rightarrow> envelope \<Rightarrow> pydict" where
  "envelope_dict_for_send lb e =
     (let dump = wsl_dump_envelope lb e
      in if \<not> (case map_of dump ''requires_ack'' of None \<Rightarrow> False | Some v \<Rightarrow> py_truthy v) \<and>
            (case map_of dump ''payload_type'' of Some (PStr t) \<Rightarrow> t \<in> set PAYLOAD_TYPES_REQUIRING_ACK | _ \<Rightarrow> False)
         then AList.update ''requires_ack'' (PBool True) dump else dump)"

text \<open>\<open>_send_frame\<close> up to the \<open>await\<close> of \<open>ws.send\<close>.\<close>

definition hand_to_socket :: "ws_lib \<Rightarrow> envelope \<Rightarrow> ws_client \<Rightarrow> (ws_client, ws_exn, string) outcome" where
  "hand_to_socket lb e s =
     (if \<not> wc_connected s
      then (Inl (WsRaised (OtherExn ''RuntimeError'' ''WebSocket not connected; call connect(url) first'')), s)
      else (let request_id = request_name (wc_counter s)
            in (Inr request_id, s\<lparr>wc_counter := Suc (wc_counter s),
                  wc_sent := wc_sent s @ [encode_envelope_frame lb (envelope_dict_for_send lb e) request_id]\<rparr>)))"

definition register_pending_ack :: "rat \<Rightarrow> envelope \<Rightarrow> ws_client \<Rightarrow> ws_client" where
  "register_pending_ack now e s =
     (case env_id e of
        None \<Rightarrow> s
      | Some i \<Rightarrow>
          if i = [] \<or> \<not> requires_ack_for e then s
          else s\<lparr>wc_pending_acks := AList.update i (length (wc_acks s)) (wc_pending_acks s),
                 wc_acks := wc_acks s @ [\<lparr>pa_envelope_id = i, pa_sent_at = now, pa_retries = 0, pa_original = e\<rparr>]\<rparr>)"

text \<open>\<open>send_and_receive\<close> between the return of \<open>_send_frame\<close> and the wait.\<close>

definition register_future :: "string \<Rightarrow> envelope \<Rightarrow> ws_client \<Rightarrow> ws_client" where
  "register_future request_id e s =
     s\<lparr>wc_pending := AList.update request_id (length (wc_futures s)) (wc_pending s),
       wc_pending_request_ids := AList.update request_id (shown (env_id e)) (wc_pending_request_ids s),
       wc_futures := wc_futures s @ [Waiting],
       wc_calls := wc_calls s @ [(request_id, e, length (wc_futures s))]\<rparr>"

definition start_call :: "ws_lib \<Rightarrow> call_kind \<Rightarrow> envelope \<Rightarrow> ws_client \<Rightarrow> ws_client" where
  "start_call lb k e s =
     (case hand_to_socket lb e s of
        (Inl x, s1) \<Rightarrow> s1
      | (Inr request_id, s1) \<Rightarrow> s1\<lparr>wc_sending := wc_sending s1 @ [(request_id, e, k)]\<rparr>)"

definition finish_sending :: "rat \<Rightarrow> string \<times> envelope \<times> call_kind \<Rightarrow> ws_client \<Rightarrow> ws_client" where
  "finish_sending now c s =
     (case c of (request_id, e, k) \<Rightarrow>
        (let s1 = register_pending_ack now e (s\<lparr>wc_sending := remove1 c (wc_sending s)\<rparr>)
         in case k of SendOnly \<Rightarrow> s1 | AwaitReply \<Rightarrow> register_future request_id e s1))"

text \<open>The end of a call: its \<open>finally\<close> clause and what it gives to its caller.\<close>

definition drop_pending :: "string \<Rightarrow> ws_client \<Rightarrow> ws_client" where
  "drop_pending request_id s =
     s\<lparr>wc_pending := AList.delete request_id (wc_pending s),
       wc_pending_request_ids := AList.delete request_id (wc_pending_request_ids s)\<rparr>"

definition end_call :: "string \<times> envelope \<times> nat \<Rightarrow> ws_exn + envelope \<Rightarrow> ws_client \<Rightarrow> ws_client" where
  "end_call c r s =
     (case c of (request_id, e, a) \<Rightarrow>
        drop_pending request_id (s\<lparr>wc_calls := remove1 c (wc_calls s), wc_returned := wc_returned s @ [(request_id, e, r)]\<rparr>))"

fun future_result :: "future \<Rightarrow> (ws_exn + envelope) option" where
  "future_result Waiting = None"
| "future_result (Resolved r) = Some (Inr r)"
| "future_result (Rejected x) = Some (Inl x)"
| "future_result Cancelled = Some (Inl (WsTimedOut []))"

text \<open>Setting a future that is not done.\<close>

definition set_future :: "nat \<Rightarrow> future \<Rightarrow> ws_client \<Rightarrow> ws_client" where
  "set_future a f s = (if wc_futures s ! a = Waiting then s\<lparr>wc_futures := (wc_futures s)[a := f]\<rparr> else s)"

subsection \<open>Receiving\<close>

text \<open>\<open>request_id is not None and request_id in self._pending\<close>: a list or an object cannot be looked up, and no other value equals a string.\<close>

fun pending_key :: "pyval \<Rightarrow> ws_client \<Rightarrow> exn + string option" where
  "pending_key (PStr i) s = Inr (if map_of (wc_pending s) i = None then None else Some i)"
| "pending_key (PList l) s = Inl (lift_exn TypeError)"
| "pending_key (PDict d) s = Inl (lift_exn TypeError)"
| "pending_key _ s = Inr None"

text \<open>Popping a pending request and setting its future.\<close>

definition resolve :: "string \<Rightarrow> future \<Rightarrow> ws_client \<Rightarrow> ws_client" where
  "resolve i f s = (case map_of (wc_pending s) i of None \<Rightarrow> s | Some a \<Rightarrow> set_future a f (drop_pending i s))"

definition consume_ack_frame :: "ws_lib \<Rightarrow> string \<Rightarrow> datetime \<Rightarrow> pydict \<Rightarrow> ws_client \<Rightarrow> ws_client" where
  "consume_ack_frame lb new_id now data s =
     (case map_of data ''params'' of
        Some (PDict params) \<Rightarrow>
          (case map_of params ''envelope'' of
             Some (PDict d) \<Rightarrow>
               (case model_validate lb new_id now (PDict d) of
                  Inl x \<Rightarrow> s
                | Inr e \<Rightarrow>
                    if payload_type e = ''MessageAck''
                    then (case message_ack_id (payload e) of
                            None \<Rightarrow> s
                          | Some i \<Rightarrow> s\<lparr>wc_pending_acks := AList.delete i (wc_pending_acks s)\<rparr>)
                    else s)
           | _ \<Rightarrow> s)
      | _ \<Rightarrow> s)"

definition get_or :: "pydict \<Rightarrow> string \<Rightarrow> pyval \<Rightarrow> pyval" where
  "get_or d k v = (case map_of d k of None \<Rightarrow> v | Some w \<Rightarrow> w)"

definition or_empty_dict :: "pyval \<Rightarrow> pyval" where
  "or_empty_dict v = (if py_truthy v then v else PDict [])"

definition error_frame_exn :: "ws_lib \<Rightarrow> pyval \<Rightarrow> ws_exn" where
  "error_frame_exn lb err =
     (case err of
        PDict d \<Rightarrow> WsRemote (get_or d ''code'' (PInt (-32603))) (get_or d ''message'' (PStr ''Unknown error'')) (or_empty_dict (get_or d ''data'' PNone))
      | _ \<Rightarrow> WsRemote (PInt (-32603)) (PStr (if py_truthy err then wsl_str lb err else ''Unknown error'')) (PDict []))"

definition resolve_error_frame :: "ws_lib \<Rightarrow> pydict \<Rightarrow> pyval \<Rightarrow> ws_client \<Rightarrow> (ws_client, exn, unit) outcome" where
  "resolve_error_frame lb data request_id s =
     (case pending_key request_id s of
        Inl x \<Rightarrow> (Inl x, s)
      | Inr None \<Rightarrow> (Inr (), s)
      | Inr (Some i) \<Rightarrow> (Inr (), resolve i (Rejected (error_frame_exn lb (get_or data ''error'' PNone))) s))"

definition resolve_missing_result :: "pydict \<Rightarrow> pyval \<Rightarrow> ws_client \<Rightarrow> (ws_client, exn, unit) outcome" where
  "resolve_missing_result data request_id s =
     (case pending_key request_id s of
        Inl x \<Rightarrow> (Inl x, s)
      | Inr None \<Rightarrow> (Inr (), s)
      | Inr (Some i) \<Rightarrow>
          (Inr (), resolve i (Rejected (WsRemote (PInt (-32603)) (PStr ''Missing result.envelope in response'') (PDict data))) s))"

definition resolve_bound_future :: "ws_lib \<Rightarrow> envelope \<Rightarrow> string \<Rightarrow> ws_client \<Rightarrow> ws_client" where
  "resolve_bound_future lb e i s =
     resolve i (case assert_correlation_binds (wsl_repr lb) (shown (map_of (wc_pending_request_ids s) i)) e of
                  Inl x \<Rightarrow> Rejected (WsRaised x)
                | Inr u \<Rightarrow> Resolved e) s"

text \<open>\<open>result["envelope"]\<close> on a value that contains the key but is no object raises \<open>TypeError\<close>.\<close>

definition resolve_result_frame ::
  "ws_lib \<Rightarrow> ws_config \<Rightarrow> string \<Rightarrow> datetime \<Rightarrow> pyval \<Rightarrow> pyval \<Rightarrow> ws_client \<Rightarrow> (ws_client, exn, unit) outcome" where
  "resolve_result_frame lb cf new_id now request_id result s =
     (case result of
        PDict d \<Rightarrow>
          (case model_validate lb new_id now (get_or d ''envelope'' PNone) of
             Inl x \<Rightarrow> (Inl x, s)
           | Inr e \<Rightarrow>
               (case pending_key request_id s of
                  Inl x \<Rightarrow> (Inl x, s)
                | Inr (Some i) \<Rightarrow> (Inr (), resolve_bound_future lb e i s)
                | Inr None \<Rightarrow> (Inr (), if wf_has_callback cf then s\<lparr>wc_pushed := wc_pushed s @ [e]\<rparr> else s)))
      | _ \<Rightarrow> (Inl (lift_exn TypeError), s))"

text \<open>One round of the loop after a frame arrived. \<open>pong\<close> is what sending the answer to a ping ends with.\<close>

definition route_frame ::
  "ws_lib \<Rightarrow> ws_config \<Rightarrow> exn option \<Rightarrow> string \<Rightarrow> datetime \<Rightarrow> pydict \<Rightarrow> ws_client \<Rightarrow> (ws_client, exn, unit) outcome" where
  "route_frame lb cf pong new_id now data s =
     (if is_client_heartbeat_ping data then
        if wc_connected s
        then (case pong of None \<Rightarrow> Inr () | Some x \<Rightarrow> Inl x, s\<lparr>wc_sent := wc_sent s @ [pong_frame lb]\<rparr>)
        else (Inr (), s)
      else if map_of data ''method'' = Some (PStr ASAP_ACK_METHOD) \<and> map_of data ''params'' \<noteq> None
      then (Inr (), consume_ack_frame lb new_id now data s)
      else (let request_id = get_or data ''id'' PNone; result = get_or data ''result'' PNone
            in if map_of data ''error'' \<noteq> None then resolve_error_frame lb data request_id s
               else if \<not> py_truthy result then resolve_missing_result data request_id s
               else (case py_contains ''envelope'' result of
                       None \<Rightarrow> (Inl (lift_exn TypeError), s)
                     | Some False \<Rightarrow> resolve_missing_result data request_id s
                     | Some True \<Rightarrow> resolve_result_frame lb cf new_id now request_id result s)))"

definition receive_frame ::
  "ws_lib \<Rightarrow> ws_config \<Rightarrow> exn option \<Rightarrow> string \<Rightarrow> datetime \<Rightarrow> ws_frame \<Rightarrow> ws_client \<Rightarrow> (ws_client, exn, unit) outcome" where
  "receive_frame lb cf pong new_id now frame s =
     (case (case frame of TextFrame t \<Rightarrow> Inr t | BinaryFrame d \<Rightarrow> d) of
        Inl err \<Rightarrow> (Inl (OtherExn ''UnicodeDecodeError'' err), s)
      | Inr raw \<Rightarrow>
          (case decode_frame_to_json lb raw of
             Inl err \<Rightarrow> (Inr (), s)
           | Inr (PDict data) \<Rightarrow> route_frame lb cf pong new_id now data (s\<lparr>wc_seen := wc_seen s @ [data]\<rparr>)
           | Inr _ \<Rightarrow> (Inl (lift_exn AttributeError), s)))"

text \<open>The handler at the end of the loop: every pending future fails, the task is over.\<close>

definition reader_fails :: "ws_lib \<Rightarrow> exn \<Rightarrow> ws_client \<Rightarrow> ws_client" where
  "reader_fails lb x s =
     (fold (\<lambda>a s. set_future a (Rejected (WsRemote (PInt (-32603)) (PStr (wsl_exn_text lb x)) (PDict []))) s) (map snd (wc_pending s)) s)
     \<lparr>wc_pending := [], wc_pending_request_ids := [], wc_reader := False\<rparr>"

definition reader_step ::
  "ws_lib \<Rightarrow> ws_config \<Rightarrow> exn option \<Rightarrow> string \<Rightarrow> datetime \<Rightarrow> ws_frame \<Rightarrow> ws_client \<Rightarrow> ws_client" where
  "reader_step lb cf pong new_id now frame s =
     (case receive_frame lb cf pong new_id now frame s of
        (Inl x, s') \<Rightarrow> reader_fails lb x s'
      | (Inr u, s') \<Rightarrow> s')"

subsection \<open>Acknowledgements\<close>

text \<open>The scan of \<open>_retransmit_or_expire_pending_acks\<close>: the overdue trackers with retries left, and the overdue ones without.\<close>

definition overdue :: "ws_config \<Rightarrow> rat \<Rightarrow> pending_ack \<Rightarrow> bool" where
  "overdue cf now p \<longleftrightarrow> now - pa_sent_at p > wf_ack_timeout cf"

definition scan_acks :: "ws_config \<Rightarrow> rat \<Rightarrow> ws_client \<Rightarrow> (string \<times> nat) list \<times> string list" where
  "scan_acks cf now s =
     (let late = filter (\<lambda>(i, a). overdue cf now (wc_acks s ! a)) (wc_pending_acks s);
          again = (\<lambda>(i, a). pa_retries (wc_acks s ! a) < wf_max_ack_retries cf)
      in (filter again late, map fst (filter (\<lambda>p. \<not> again p) late)))"

definition start_scan :: "ws_config \<Rightarrow> rat \<Rightarrow> ws_client \<Rightarrow> ws_client" where
  "start_scan cf now s =
     (if wc_closed s \<or> \<not> wc_connected s then s\<lparr>wc_checker := False\<rparr> else s\<lparr>wc_round := Some (scan_acks cf now s)\<rparr>)"

text \<open>After a retransmission, which does nothing without a connection but counts all the same.\<close>

definition count_retry :: "rat \<Rightarrow> nat \<Rightarrow> ws_client \<Rightarrow> ws_client" where
  "count_retry now a s =
     s\<lparr>wc_acks := (wc_acks s)[a := (wc_acks s ! a)\<lparr>pa_sent_at := now, pa_retries := pa_retries (wc_acks s ! a) + 1\<rparr>],
       wc_resent := wc_resent s @ [a]\<rparr>"

definition start_resend :: "ws_lib \<Rightarrow> rat \<Rightarrow> nat \<Rightarrow> (string \<times> nat) list \<Rightarrow> string list \<Rightarrow> ws_client \<Rightarrow> ws_client" where
  "start_resend lb now a rest old s =
     (case hand_to_socket lb (pa_original (wc_acks s ! a)) s of
        (Inl x, s1) \<Rightarrow> count_retry now a (s1\<lparr>wc_round := Some (rest, old)\<rparr>)
      | (Inr i, s1) \<Rightarrow> s1\<lparr>wc_resending := True\<rparr>)"

definition end_resend :: "rat option \<Rightarrow> nat \<Rightarrow> (string \<times> nat) list \<Rightarrow> string list \<Rightarrow> ws_client \<Rightarrow> ws_client" where
  "end_resend sent_at a rest old s =
     (let s1 = s\<lparr>wc_round := Some (rest, old), wc_resending := False\<rparr>
      in case sent_at of None \<Rightarrow> s1 | Some now \<Rightarrow> count_retry now a s1)"

definition expire_pending_ack :: "rat \<Rightarrow> string \<Rightarrow> ws_client \<Rightarrow> ws_client" where
  "expire_pending_ack now i s =
     s\<lparr>wc_pending_acks := AList.delete i (wc_pending_acks s), wc_breaker := map_option (record_failure now) (wc_breaker s)\<rparr>"

definition end_scan :: "rat \<Rightarrow> string list \<Rightarrow> ws_client \<Rightarrow> ws_client" where
  "end_scan now old s = fold (expire_pending_ack now) old (s\<lparr>wc_round := None\<rparr>)"

subsection \<open>Connecting and closing\<close>

definition stop_checker :: "ws_client \<Rightarrow> ws_client" where
  "stop_checker s = s\<lparr>wc_checker := False, wc_round := None, wc_resending := False\<rparr>"

text \<open>\<open>_do_connect\<close> with a connection: a new receive loop and a new check loop.\<close>

definition on_connected :: "ws_client \<Rightarrow> ws_client" where
  "on_connected s = (stop_checker s)\<lparr>wc_connected := True, wc_reader := True, wc_checker := True\<rparr>"

text \<open>\<open>close\<close>: up to the cancellation of the tasks, then what follows it, then the end of \<open>ws.close\<close>.\<close>

definition start_close :: "ws_client \<Rightarrow> ws_client" where
  "start_close s = (stop_checker s)\<lparr>wc_closed := True, wc_reader := False\<rparr>"

definition fail_pending :: "ws_client \<Rightarrow> ws_client" where
  "fail_pending s =
     (fold (\<lambda>a s. set_future a (Rejected (WsTimedOut ''Connection closed'')) s) (map snd (wc_pending s)) (s\<lparr>wc_pending_acks := []\<rparr>))
     \<lparr>wc_pending := [], wc_pending_request_ids := []\<rparr>"

definition end_close :: "ws_client \<Rightarrow> ws_client" where
  "end_close s = s\<lparr>wc_connected := False\<rparr>"

subsection \<open>The steps\<close>

datatype ws_event =
    StartCall | SendReturned | SendRaised | FrameArrived | ReaderRaised | TimeoutFired | CallEnded | CallLate
  | ScanStarted | ResendStarted | ResendEnded | ScanEnded | Connected | Dropped | CloseStarted | CloseSwept | CloseEnded | BreakerUsed

text \<open>Futures are set by the receive loop, by a timeout or by \<open>close\<close>; a call resumes some time after its future was set, and a timeout
  that fires before it resumes makes it end with \<open>TimeoutError\<close> although there is a result. With \<open>reconnect_on_disconnect\<close>
  the task \<open>_run_loop\<close> drops a connection whose receive loop ended, and connects again.\<close>

inductive ws_step :: "ws_lib \<Rightarrow> ws_config \<Rightarrow> ws_event \<Rightarrow> ws_client \<Rightarrow> ws_client \<Rightarrow> bool" for lb :: ws_lib and cf :: ws_config where
  call: "ws_step lb cf StartCall s (start_call lb k e s)"
| send_returns: "c \<in> set (wc_sending s) \<Longrightarrow> ws_step lb cf SendReturned s (finish_sending now c s)"
| send_raises: "c \<in> set (wc_sending s) \<Longrightarrow> ws_step lb cf SendRaised s (s\<lparr>wc_sending := remove1 c (wc_sending s)\<rparr>)"
| frame: "wc_reader s \<Longrightarrow> ws_step lb cf FrameArrived s (reader_step lb cf pong new_id now fr s)"
| reader_raises: "wc_reader s \<Longrightarrow> ws_step lb cf ReaderRaised s (reader_fails lb x s)"
| timeout: "(i, e, a) \<in> set (wc_calls s) \<Longrightarrow> ws_step lb cf TimeoutFired s (set_future a Cancelled s)"
| ends: "(i, e, a) \<in> set (wc_calls s) \<Longrightarrow> future_result (wc_futures s ! a) = Some r \<Longrightarrow>
    ws_step lb cf CallEnded s (end_call (i, e, a) r s)"
| late: "(i, e, a) \<in> set (wc_calls s) \<Longrightarrow> wc_futures s ! a \<noteq> Waiting \<Longrightarrow>
    ws_step lb cf CallLate s (end_call (i, e, a) (Inl (WsTimedOut [])) s)"
| scan: "wc_checker s \<Longrightarrow> wc_round s = None \<Longrightarrow> ws_step lb cf ScanStarted s (start_scan cf now s)"
| resend: "wc_round s = Some ((i, a) # rest, old) \<Longrightarrow> \<not> wc_resending s \<Longrightarrow>
    ws_step lb cf ResendStarted s (start_resend lb now a rest old s)"
| resent: "wc_round s = Some ((i, a) # rest, old) \<Longrightarrow> wc_resending s \<Longrightarrow>
    ws_step lb cf ResendEnded s (end_resend sent_at a rest old s)"
| expire: "wc_round s = Some ([], old) \<Longrightarrow> ws_step lb cf ScanEnded s (end_scan now old s)"
| connect: "\<not> wc_connected s \<Longrightarrow> ws_step lb cf Connected s (on_connected (s\<lparr>wc_closed := False\<rparr>))"
| drop: "wf_reconnect cf \<Longrightarrow> \<not> wc_reader s \<Longrightarrow> \<not> wc_closed s \<Longrightarrow>
    ws_step lb cf Dropped s (s\<lparr>wc_connected := False\<rparr>)"
| close: "ws_step lb cf CloseStarted s (start_close s)"
| sweep: "wc_closed s \<Longrightarrow> ws_step lb cf CloseSwept s (fail_pending s)"
| closed: "wc_closed s \<Longrightarrow> ws_step lb cf CloseEnded s (end_close s)"
| breaker: "ws_step lb cf BreakerUsed s (s\<lparr>wc_breaker := map_option (cb_step ev) (wc_breaker s)\<rparr>)"

inductive ws_run :: "ws_lib \<Rightarrow> ws_config \<Rightarrow> ws_event list \<Rightarrow> ws_client \<Rightarrow> ws_client \<Rightarrow> bool" for lb :: ws_lib and cf :: ws_config where
  stay [intro, simp]: "ws_run lb cf [] s s"
| step: "ws_run lb cf evs s s' \<Longrightarrow> ws_step lb cf ev s' s'' \<Longrightarrow> ws_run lb cf (evs @ [ev]) s s''"

subsection \<open>Reconnecting\<close>

record reconnect_policy =
  rx_max_attempts :: "nat option"
  rx_initial_backoff :: rat
  rx_max_backoff :: rat

definition reconnect_delay :: "nat \<Rightarrow> rat \<Rightarrow> rat \<Rightarrow> rat" where
  "reconnect_delay attempt initial_backoff max_backoff = min (initial_backoff * 2 ^ (attempt - 1)) max_backoff"

definition reconnect_exhausted :: "reconnect_policy \<Rightarrow> nat \<Rightarrow> bool" where
  "reconnect_exhausted p attempt = (case rx_max_attempts p of None \<Rightarrow> False | Some m \<Rightarrow> m \<le> attempt)"

text \<open>\<open>_run_loop\<close> over the fates of its connections: the attempt to connect raises, the connection is lost some time later, or the
  transport is closed; the list ends where the loop finds it closed. The answer has the exception of the first attempt,
  if it raised, the number of attempts, and the delays slept.\<close>

datatype link = ConnectRaises exn | LinkLost | LinkClosed

fun run_loop :: "reconnect_policy \<Rightarrow> nat \<Rightarrow> link list \<Rightarrow> (exn + unit) \<times> nat \<times> rat list" where
  "run_loop p attempt [] = (Inr (), 0, [])"
| "run_loop p attempt (LinkClosed # ls) = (Inr (), 1, [])"
| "run_loop p attempt (ConnectRaises x # ls) =
     (if attempt = 0 then (Inl x, 1, [])
      else if reconnect_exhausted p (Suc attempt) then (Inr (), 1, [])
      else (case run_loop p (Suc attempt) ls of
              (r, n, ds) \<Rightarrow> (r, Suc n, reconnect_delay (Suc attempt) (rx_initial_backoff p) (rx_max_backoff p) # ds)))"
| "run_loop p attempt (LinkLost # ls) =
     (if reconnect_exhausted p (Suc attempt) then (Inr (), 1, [])
      else (case run_loop p (Suc attempt) ls of
              (r, n, ds) \<Rightarrow> (r, Suc n, reconnect_delay (Suc attempt) (rx_initial_backoff p) (rx_max_backoff p) # ds)))"

text \<open>The attempts are never counted anew: \<open>max_reconnect_attempts\<close> losses end the loop, however long each connection lasted.\<close>

lemma reconnects_bounded:
  assumes "rx_max_attempts p = Some m" "run_loop p attempt ls = (r, n, ds)"
  shows "attempt + n \<le> max m (Suc attempt)"
  using assms(2)
proof (induction ls arbitrary: attempt r n ds)
  case (Cons l ls)
  obtain r' n' ds' where rest: "run_loop p (Suc attempt) ls = (r', n', ds')" by (cases "run_loop p (Suc attempt) ls")
  from Cons.IH [OF rest] have "Suc attempt < m \<Longrightarrow> attempt + Suc n' \<le> m" by simp
  with Cons.prems assms(1) rest show ?case
    by (cases l) (auto simp: reconnect_exhausted_def split: if_splits)
qed simp

lemma reconnect_delays_bounded: "run_loop p attempt ls = (r, n, ds) \<Longrightarrow> d \<in> set ds \<Longrightarrow> d \<le> rx_max_backoff p"
proof (induction p attempt ls arbitrary: r n ds rule: run_loop.induct)
  case (3 p attempt x ls)
  then show ?case by (auto simp: reconnect_delay_def split: if_splits prod.splits)
next
  case (4 p attempt ls)
  then show ?case by (auto simp: reconnect_delay_def split: if_splits prod.splits)
qed auto

subsection \<open>Streams\<close>

definition raised_ws :: "py_exn \<Rightarrow> ws_exn" where
  "raised_ws x = WsRaised (lift_exn x)"

text \<open>\<open>err.get(...)\<close> on the entry \<open>error\<close>, outside the receive loop: a value that is no object raises.\<close>

definition remote_error_of :: "ws_lib \<Rightarrow> pydict \<Rightarrow> ws_exn" where
  "remote_error_of lb data =
     (case get_or data ''error'' PNone of PDict d \<Rightarrow> error_frame_exn lb (PDict d) | _ \<Rightarrow> raised_ws AttributeError)"

definition result_envelope_of :: "ws_lib \<Rightarrow> string \<Rightarrow> datetime \<Rightarrow> pydict \<Rightarrow> ws_exn + envelope" where
  "result_envelope_of lb new_id now data =
     (let result = get_or data ''result'' PNone;
          missing = WsRemote (PInt (-32603)) (PStr ''Missing result.envelope in response'') (PDict data)
      in if \<not> py_truthy result then Inl missing
         else (case (py_contains ''envelope'' result, result) of
                 (None, _) \<Rightarrow> Inl (raised_ws TypeError)
               | (Some False, _) \<Rightarrow> Inl missing
               | (Some True, PDict d) \<Rightarrow> map_sum WsRaised id (model_validate lb new_id now (get_or d ''envelope'' PNone))
               | (Some True, _) \<Rightarrow> Inl (raised_ws TypeError)))"

definition frame_object :: "ws_lib \<Rightarrow> ws_exn + ws_frame \<Rightarrow> ws_exn + pydict" where
  "frame_object lb got =
     (case got of
        Inl x \<Rightarrow> Inl x
      | Inr fr \<Rightarrow>
          (case (case fr of TextFrame t \<Rightarrow> Inr t | BinaryFrame d \<Rightarrow> d) of
             Inl err \<Rightarrow> Inl (WsRaised (OtherExn ''UnicodeDecodeError'' err))
           | Inr raw \<Rightarrow>
               (case decode_frame_to_json lb raw of
                  Inl err \<Rightarrow> Inl (raised_ws (ValueError err))
                | Inr (PDict data) \<Rightarrow> Inr data
                | Inr _ \<Rightarrow> Inl (raised_ws AttributeError))))"

text \<open>\<open>receive\<close> with what \<open>wait_for(ws.recv())\<close> ends with.\<close>

definition receive_once :: "ws_lib \<Rightarrow> string \<Rightarrow> datetime \<Rightarrow> bool \<Rightarrow> ws_exn + ws_frame \<Rightarrow> ws_exn + envelope" where
  "receive_once lb new_id now is_connected got =
     (if \<not> is_connected then Inl (WsRaised (OtherExn ''RuntimeError'' ''WebSocket not connected; call connect(url) first''))
      else (case frame_object lb got of
              Inl x \<Rightarrow> Inl x
            | Inr data \<Rightarrow>
                if map_of data ''error'' \<noteq> None then Inl (remote_error_of lb data) else result_envelope_of lb new_id now data))"

text \<open>The loop of \<open>send_and_receive_stream\<close> over what arrives; the answer has the chunks and how the stream ended, \<open>None\<close> while it waits.\<close>

fun stream_loop ::
  "ws_lib \<Rightarrow> string \<Rightarrow> envelope \<Rightarrow> ((ws_exn + ws_frame) \<times> string \<times> datetime) list \<Rightarrow> envelope list \<times> (ws_exn + unit) option" where
  "stream_loop lb request_id e [] = ([], None)"
| "stream_loop lb request_id e ((got, new_id, now) # rest) =
     (case frame_object lb got of
        Inl x \<Rightarrow> ([], Some (Inl x))
      | Inr data \<Rightarrow>
          if is_heartbeat_pong data \<or> map_of data ''method'' = Some (PStr ASAP_ACK_METHOD) then stream_loop lb request_id e rest
          else if map_of data ''error'' \<noteq> None then ([], Some (Inl (remote_error_of lb data)))
          else if get_or data ''id'' PNone \<noteq> PStr request_id then stream_loop lb request_id e rest
          else (case result_envelope_of lb new_id now data of
                  Inl x \<Rightarrow> ([], Some (Inl x))
                | Inr r \<Rightarrow>
                    (case assert_stream_correlation_binds (wsl_repr lb) (shown (env_id e)) r of
                       Inl x \<Rightarrow> ([], Some (Inl (WsRaised x)))
                     | Inr u \<Rightarrow>
                         if map_of (payload r) ''final'' = Some (PBool True) then ([r], Some (Inr ()))
                         else (case stream_loop lb request_id e rest of (rs, fin) \<Rightarrow> (r # rs, fin)))))"

definition final_chunk :: "envelope \<Rightarrow> bool" where
  "final_chunk r \<longleftrightarrow> map_of (payload r) ''final'' = Some (PBool True)"

text \<open>Every chunk is bound to the request, the stream ends regularly exactly with its first final chunk.\<close>

lemma streamed_chunks:
  assumes "stream_loop lb i e got = (rs, fin)"
  shows "(\<forall>r \<in> set rs. normalize_payload_type (payload_type r) \<in> STREAM_BOUND_PAYLOAD_KEYS \<longrightarrow> correlation_id r = Some (shown (env_id e))) \<and>
    (\<forall>r \<in> set (butlast rs). \<not> final_chunk r) \<and> (fin = Some (Inr ()) \<longleftrightarrow> rs \<noteq> [] \<and> final_chunk (last rs))"
  using assms
proof (induction got arbitrary: rs fin)
  case (Cons g got)
  obtain x new_id now where g: "g = (x, new_id, now)" by (cases g)
  have bound: "normalize_payload_type (payload_type r) \<in> STREAM_BOUND_PAYLOAD_KEYS \<longrightarrow> correlation_id r = Some (shown (env_id e))"
    if "assert_stream_correlation_binds (wsl_repr lb) (shown (env_id e)) r = Inr u" for r u
    using that by (auto simp: assert_stream_correlation_binds_def correlation_binds_def split: if_splits)
  show ?case
    using Cons.prems Cons.IH
    by (auto simp: g final_chunk_def bound split: sum.splits if_splits prod.splits)
qed auto

subsection \<open>Answers belong to their calls\<close>

lemma request_name_inj: "request_name m = request_name n \<longleftrightarrow> m = n"
  by (auto simp: request_name_def dest: arg_cong [where f = "\<lambda>s. digits_value (map (\<lambda>c. of_char c - 48) s)"] simp: digits_value_str_nat)

text \<open>An envelope answers a call if it came in a frame with the request identifier of the call, and is bound to the envelope that was sent.\<close>

definition answers :: "ws_lib \<Rightarrow> pydict list \<Rightarrow> string \<Rightarrow> envelope \<Rightarrow> envelope \<Rightarrow> bool" where
  "answers lb seen i e r \<longleftrightarrow> bound_to e r \<and>
     (\<exists>data d v new_id now. data \<in> set seen \<and> map_of data ''id'' = Some (PStr i) \<and> map_of data ''result'' = Some (PDict d) \<and>
        map_of d ''envelope'' = Some v \<and> model_validate lb new_id now v = Inr r)"

lemma answers_mono: "answers lb seen i e r \<Longrightarrow> answers lb (seen @ extra) i e r"
  unfolding answers_def by (metis Un_iff set_append)

definition call_names :: "ws_client \<Rightarrow> string list" where
  "call_names s = map fst (wc_sending s) @ map fst (wc_calls s) @ map fst (wc_returned s)"

definition names_inv :: "ws_client \<Rightarrow> bool" where
  "names_inv s \<longleftrightarrow> distinct (call_names s) \<and> set (call_names s) \<subseteq> request_name ` {..<wc_counter s}"

definition pending_inv :: "ws_client \<Rightarrow> bool" where
  "pending_inv s \<longleftrightarrow>
     (\<forall>i a. map_of (wc_pending s) i = Some a \<longrightarrow>
        (\<exists>e. (i, e, a) \<in> set (wc_calls s) \<and> map_of (wc_pending_request_ids s) i = Some (shown (env_id e))))"

definition futures_inv :: "ws_lib \<Rightarrow> ws_client \<Rightarrow> bool" where
  "futures_inv lb s \<longleftrightarrow> distinct (map (snd \<circ> snd) (wc_calls s)) \<and>
     (\<forall>(i, e, a) \<in> set (wc_calls s). a < length (wc_futures s) \<and>
        (\<forall>r. wc_futures s ! a = Resolved r \<longrightarrow> answers lb (wc_seen s) i e r))"

definition returned_inv :: "ws_lib \<Rightarrow> ws_client \<Rightarrow> bool" where
  "returned_inv lb s \<longleftrightarrow> (\<forall>(i, e, res) \<in> set (wc_returned s). \<forall>r. res = Inr r \<longrightarrow> answers lb (wc_seen s) i e r)"

definition call_inv :: "ws_lib \<Rightarrow> ws_client \<Rightarrow> bool" where
  "call_inv lb s \<longleftrightarrow> names_inv s \<and> pending_inv s \<and> futures_inv lb s \<and> returned_inv lb s"

text \<open>The invariant reads only some fields; an operation that changes others, or moves the counter on, keeps it.\<close>

definition call_part ::
  "ws_client \<Rightarrow> ((string, nat) dict \<times> (string, string) dict \<times> future list) \<times>
     ((string \<times> envelope \<times> nat) list \<times> (string \<times> envelope \<times> call_kind) list \<times> (string \<times> envelope \<times> (ws_exn + envelope)) list) \<times> pydict list" where
  "call_part s = ((wc_pending s, wc_pending_request_ids s, wc_futures s), (wc_calls s, wc_sending s, wc_returned s), wc_seen s)"

lemma call_inv_cong:
  assumes part: "call_part s' = call_part s" and counter: "wc_counter s \<le> wc_counter s'" and inv: "call_inv lb s"
  shows "call_inv lb s'"
proof -
  from part have eqs: "wc_pending s' = wc_pending s" "wc_pending_request_ids s' = wc_pending_request_ids s" "wc_futures s' = wc_futures s"
    "wc_calls s' = wc_calls s" "wc_sending s' = wc_sending s" "wc_returned s' = wc_returned s" "wc_seen s' = wc_seen s"
    by (simp_all add: call_part_def)
  have "request_name ` {..<wc_counter s} \<subseteq> request_name ` {..<wc_counter s'}" using counter by auto
  with inv have "names_inv s'" unfolding call_inv_def names_inv_def call_names_def eqs by (meson order_trans)
  with inv show ?thesis unfolding call_inv_def pending_inv_def futures_inv_def returned_inv_def eqs by blast
qed

lemma set_future_part [simp]:
  "wc_pending (set_future a f s) = wc_pending s" "wc_pending_request_ids (set_future a f s) = wc_pending_request_ids s"
  "wc_calls (set_future a f s) = wc_calls s" "wc_sending (set_future a f s) = wc_sending s"
  "wc_returned (set_future a f s) = wc_returned s" "wc_seen (set_future a f s) = wc_seen s"
  "wc_counter (set_future a f s) = wc_counter s" "length (wc_futures (set_future a f s)) = length (wc_futures s)"
  by (simp_all add: set_future_def)

lemma set_future_Resolved:
  "wc_futures (set_future a f s) ! b = Resolved r \<Longrightarrow> b < length (wc_futures s) \<Longrightarrow>
   (b = a \<and> f = Resolved r) \<or> wc_futures s ! b = Resolved r"
  by (cases "b = a") (auto simp: set_future_def nth_list_update split: if_splits)

lemma call_inv_set_future:
  assumes inv: "call_inv lb s" and ok: "\<And>i e r. (i, e, a) \<in> set (wc_calls s) \<Longrightarrow> f = Resolved r \<Longrightarrow> answers lb (wc_seen s) i e r"
  shows "call_inv lb (set_future a f s)"
proof -
  have "futures_inv lb (set_future a f s)"
    unfolding futures_inv_def
  proof safe
    show "distinct (map (snd \<circ> snd) (wc_calls (set_future a f s)))"
      using inv unfolding call_inv_def futures_inv_def by simp
  next
    fix i e b assume "(i, e, b) \<in> set (wc_calls (set_future a f s))"
    with inv show "b < length (wc_futures (set_future a f s))" unfolding call_inv_def futures_inv_def by auto
  next
    fix i e b r assume b: "(i, e, b) \<in> set (wc_calls (set_future a f s))" "wc_futures (set_future a f s) ! b = Resolved r"
    with inv have "b < length (wc_futures s)" "wc_futures s ! b = Resolved r \<longrightarrow> answers lb (wc_seen s) i e r"
      unfolding call_inv_def futures_inv_def by auto
    with b set_future_Resolved [OF b(2)] ok show "answers lb (wc_seen (set_future a f s)) i e r" by auto
  qed
  with inv show ?thesis unfolding call_inv_def names_inv_def call_names_def pending_inv_def returned_inv_def by simp
qed

lemma call_inv_drop_pending: "call_inv lb s \<Longrightarrow> call_inv lb (drop_pending i s)"
  by (auto simp: call_inv_def names_inv_def call_names_def pending_inv_def futures_inv_def returned_inv_def drop_pending_def
    map_of_delete split: if_splits)

lemma same_address: "call_inv lb s \<Longrightarrow> (i, e, a) \<in> set (wc_calls s) \<Longrightarrow> (i', e', a) \<in> set (wc_calls s) \<Longrightarrow> i' = i \<and> e' = e"
  unfolding call_inv_def futures_inv_def distinct_map by (auto dest: inj_onD [of _ _ "(i, e, a)" "(i', e', a)"])

lemma call_inv_resolve:
  assumes inv: "call_inv lb s"
    and ok: "\<And>r e. f = Resolved r \<Longrightarrow> map_of (wc_pending_request_ids s) i = Some (shown (env_id e)) \<Longrightarrow> answers lb (wc_seen s) i e r"
  shows "call_inv lb (resolve i f s)"
proof (cases "map_of (wc_pending s) i")
  case (Some a)
  with inv obtain e where e: "(i, e, a) \<in> set (wc_calls s)" "map_of (wc_pending_request_ids s) i = Some (shown (env_id e))"
    unfolding call_inv_def pending_inv_def by blast
  have "call_inv lb (set_future a f (drop_pending i s))"
  proof (rule call_inv_set_future [OF call_inv_drop_pending [OF inv]])
    fix i' e' r assume "(i', e', a) \<in> set (wc_calls (drop_pending i s))" "f = Resolved r"
    with same_address [OF inv e(1)] ok [OF _ e(2)] show "answers lb (wc_seen (drop_pending i s)) i' e' r"
      by (auto simp: drop_pending_def)
  qed
  with Some show ?thesis by (simp add: resolve_def)
qed (simp add: resolve_def inv)

lemma call_inv_fold_fail:
  "call_inv lb s \<Longrightarrow> call_inv lb (fold (\<lambda>a s. set_future a (Rejected x) s) as s)"
  by (induction as arbitrary: s) (auto intro!: call_inv_set_future)

lemma call_inv_clear_pending: "call_inv lb s \<Longrightarrow> call_inv lb (s\<lparr>wc_pending := [], wc_pending_request_ids := []\<rparr>)"
  by (auto simp: call_inv_def names_inv_def call_names_def pending_inv_def futures_inv_def returned_inv_def)

lemma call_inv_start_call: "call_inv lb s \<Longrightarrow> call_inv lb (start_call lb' k e s)"
proof (cases "wc_connected s")
  case True
  assume inv: "call_inv lb s"
  let ?s = "start_call lb' k e s"
  from True have fields: "wc_sending ?s = wc_sending s @ [(request_name (wc_counter s), e, k)]" "wc_counter ?s = Suc (wc_counter s)"
    "wc_pending ?s = wc_pending s" "wc_pending_request_ids ?s = wc_pending_request_ids s" "wc_futures ?s = wc_futures s"
    "wc_calls ?s = wc_calls s" "wc_returned ?s = wc_returned s" "wc_seen ?s = wc_seen s"
    by (simp_all add: start_call_def hand_to_socket_def Let_def)
  from inv have old: "distinct (call_names s)" "set (call_names s) \<subseteq> request_name ` {..<wc_counter s}"
    by (auto simp: call_inv_def names_inv_def)
  then have "request_name (wc_counter s) \<notin> set (call_names s)" by (auto simp: request_name_inj)
  with old have "names_inv ?s"
    unfolding names_inv_def call_names_def fields by (auto simp: lessThan_Suc)
  with inv show ?thesis
    unfolding call_inv_def pending_inv_def futures_inv_def returned_inv_def fields by blast
qed (simp add: start_call_def hand_to_socket_def)

lemma register_pending_ack_part: "call_part (register_pending_ack now e s) = call_part s" "wc_counter (register_pending_ack now e s) = wc_counter s"
  by (auto simp: register_pending_ack_def call_part_def split: option.splits)

lemma call_inv_forget_sending:
  assumes inv: "call_inv lb s" and c: "c \<in> set (wc_sending s)"
  shows "call_inv lb (s\<lparr>wc_sending := remove1 c (wc_sending s)\<rparr>) \<and> fst c \<notin> set (call_names (s\<lparr>wc_sending := remove1 c (wc_sending s)\<rparr>)) \<and>
    fst c \<in> request_name ` {..<wc_counter s}"
proof -
  from inv have n: "distinct (call_names s)" "set (call_names s) \<subseteq> request_name ` {..<wc_counter s}"
    by (auto simp: call_inv_def names_inv_def)
  then have "distinct (wc_sending s)" by (auto simp: call_names_def distinct_map)
  with c obtain ys zs where split: "wc_sending s = ys @ c # zs" "remove1 c (wc_sending s) = ys @ zs" by (rule remove1_split)
  with n have "names_inv (s\<lparr>wc_sending := remove1 c (wc_sending s)\<rparr>)" "fst c \<notin> set (call_names (s\<lparr>wc_sending := remove1 c (wc_sending s)\<rparr>))"
    "fst c \<in> request_name ` {..<wc_counter s}"
    by (auto simp: names_inv_def call_names_def)
  with inv show ?thesis by (simp add: call_inv_def pending_inv_def futures_inv_def returned_inv_def)
qed

lemma call_inv_register_future:
  assumes inv: "call_inv lb s" and i: "i \<notin> set (call_names s)" "i \<in> request_name ` {..<wc_counter s}"
  shows "call_inv lb (register_future i e s)"
proof -
  let ?s = "register_future i e s"
  have "names_inv ?s" using inv i by (auto simp: call_inv_def names_inv_def call_names_def register_future_def)
  moreover have "pending_inv ?s"
    using inv by (auto simp: call_inv_def pending_inv_def register_future_def map_of_update split: if_splits)
  moreover have "futures_inv lb ?s"
    using inv by (auto simp: call_inv_def futures_inv_def register_future_def nth_append split: if_splits)
  moreover have "returned_inv lb ?s" using inv by (auto simp: call_inv_def returned_inv_def register_future_def)
  ultimately show ?thesis by (simp add: call_inv_def)
qed

lemma call_inv_finish_sending:
  assumes "call_inv lb s" "c \<in> set (wc_sending s)"
  shows "call_inv lb (finish_sending now c s)"
proof -
  obtain i e k where c: "c = (i, e, k)" by (cases c)
  let ?s = "s\<lparr>wc_sending := remove1 c (wc_sending s)\<rparr>"
  let ?t = "register_pending_ack now e ?s"
  have part: "call_part ?t = call_part ?s" "wc_counter ?t = wc_counter ?s" by (rule register_pending_ack_part)+
  from call_inv_forget_sending [OF assms] have s: "call_inv lb ?s" "i \<notin> set (call_names ?s)" "i \<in> request_name ` {..<wc_counter s}"
    by (simp_all add: c)
  have t: "call_inv lb ?t" by (rule call_inv_cong [OF part(1) _ s(1)]) (simp add: part(2))
  have "call_names ?t = call_names ?s" using part(1) by (simp add: call_names_def call_part_def)
  with s part(2) have "call_inv lb (register_future i e ?t)" by (intro call_inv_register_future [OF t]) simp_all
  with t show ?thesis by (cases k) (simp_all add: finish_sending_def c Let_def)
qed

lemma call_inv_end_call:
  assumes inv: "call_inv lb s" and c: "(i, e, a) \<in> set (wc_calls s)" and r: "\<And>v. r = Inr v \<Longrightarrow> wc_futures s ! a = Resolved v"
  shows "call_inv lb (end_call (i, e, a) r s)"
proof -
  let ?c = "(i, e, a)" let ?s = "end_call ?c r s"
  from inv have n: "distinct (call_names s)" "set (call_names s) \<subseteq> request_name ` {..<wc_counter s}"
    by (auto simp: call_inv_def names_inv_def)
  then have "distinct (wc_calls s)" by (auto simp: call_names_def distinct_map)
  with c obtain ys zs where split: "wc_calls s = ys @ ?c # zs" "remove1 ?c (wc_calls s) = ys @ zs" by (rule remove1_split)
  with n have "names_inv ?s" by (auto simp: names_inv_def call_names_def end_call_def drop_pending_def)
  moreover have "pending_inv ?s"
    using inv n(1) split by (fastforce simp: call_inv_def pending_inv_def end_call_def drop_pending_def map_of_delete call_names_def split: if_splits)
  moreover have "futures_inv lb ?s"
    using inv split by (auto simp: call_inv_def futures_inv_def end_call_def drop_pending_def)
  moreover have "returned_inv lb ?s"
    using inv c r by (auto simp: call_inv_def returned_inv_def futures_inv_def end_call_def drop_pending_def)
  ultimately show ?thesis by (simp add: call_inv_def)
qed

lemma consume_ack_part: "call_part (consume_ack_frame lb new_id now data s) = call_part s" "wc_counter (consume_ack_frame lb new_id now data s) = wc_counter s"
  by (auto simp: consume_ack_frame_def call_part_def split: option.splits pyval.splits sum.splits)

lemma call_inv_reject: "call_inv lb s \<Longrightarrow> call_inv lb (resolve i (Rejected x) s)"
  by (rule call_inv_resolve) auto

text \<open>The one place where a future gets a result.\<close>

lemma call_inv_resolve_bound_future:
  assumes inv: "call_inv lb s" and data: "data \<in> set (wc_seen s)" "map_of data ''id'' = Some (PStr i)" "map_of data ''result'' = Some (PDict d)"
    "map_of d ''envelope'' = Some v" "model_validate lb new_id now v = Inr r"
  shows "call_inv lb (resolve_bound_future lb r i s)"
  unfolding resolve_bound_future_def
proof (rule call_inv_resolve [OF inv])
  fix r' and e :: envelope
  assume res: "(case assert_correlation_binds (wsl_repr lb) (shown (map_of (wc_pending_request_ids s) i)) r of Inl x \<Rightarrow> Rejected (WsRaised x)
      | Inr u \<Rightarrow> Resolved r) = Resolved r'"
    and e: "map_of (wc_pending_request_ids s) i = Some (shown (env_id e))"
  from res e have "r' = r" "assert_correlation_binds (wsl_repr lb) (shown (env_id e)) r = Inr ()"
    by (auto simp: shown_def split: sum.splits)
  then have "r' = r" "bound_to e r" by (simp_all add: assert_binds_iff)
  then show "answers lb (wc_seen s) i e r'" using data unfolding answers_def by blast
qed

lemma pending_key_Some: "pending_key v s = Inr (Some i) \<Longrightarrow> v = PStr i"
  by (cases v) (auto split: if_splits)

lemma get_or_eq: "get_or d k PNone = v \<Longrightarrow> v \<noteq> PNone \<Longrightarrow> map_of d k = Some v"
  by (auto simp: get_or_def split: option.splits)

lemma call_inv_resolve_result_frame:
  assumes inv: "call_inv lb s" and data: "data \<in> set (wc_seen s)" "py_contains ''envelope'' (get_or data ''result'' PNone) = Some True"
  shows "call_inv lb (snd (resolve_result_frame lb cf new_id now (get_or data ''id'' PNone) (get_or data ''result'' PNone) s))"
proof (cases "get_or data ''result'' PNone")
  case (PDict d)
  with data(2) obtain v where v: "map_of d ''envelope'' = Some v" by (cases "map_of d ''envelope''") (auto simp: map_of_eq_None_iff)
  have result: "map_of data ''result'' = Some (PDict d)" using PDict by (rule get_or_eq) simp
  have pushed: "call_inv lb (s\<lparr>wc_pushed := wc_pushed s @ [e]\<rparr>)" for e
    by (rule call_inv_cong [OF _ _ inv]) (simp_all add: call_part_def)
  have bound: "call_inv lb (resolve_bound_future lb r i s)"
    if "model_validate lb new_id now v = Inr r" "pending_key (get_or data ''id'' PNone) s = Inr (Some i)" for r i
    using call_inv_resolve_bound_future [OF inv data(1) get_or_eq [OF pending_key_Some [OF that(2)]] result v that(1)] by simp
  show ?thesis
    using PDict v inv pushed bound by (auto simp: resolve_result_frame_def get_or_def split: sum.splits option.splits)
qed (simp_all add: resolve_result_frame_def inv)

lemma call_inv_route_frame:
  assumes inv: "call_inv lb s" and data: "data \<in> set (wc_seen s)"
  shows "call_inv lb (snd (route_frame lb cf pong new_id now data s))"
proof -
  have pong: "call_inv lb (s\<lparr>wc_sent := x\<rparr>)" for x by (rule call_inv_cong [OF _ _ inv]) (simp_all add: call_part_def)
  have ack: "call_inv lb (consume_ack_frame lb new_id now data s)"
    by (rule call_inv_cong [OF _ _ inv]) (simp_all add: consume_ack_part)
  have err: "call_inv lb (snd (resolve_error_frame lb data i s))" "call_inv lb (snd (resolve_missing_result data i s))" for i
    by (auto simp: resolve_error_frame_def resolve_missing_result_def inv call_inv_reject split: sum.splits option.splits)
  show ?thesis
    using inv pong ack err call_inv_resolve_result_frame [OF inv data]
    by (auto simp: route_frame_def Let_def split: option.splits bool.splits)
qed

lemma call_inv_seen:
  assumes "call_inv lb s"
  shows "call_inv lb (s\<lparr>wc_seen := wc_seen s @ [d]\<rparr>)"
proof -
  have "futures_inv lb (s\<lparr>wc_seen := wc_seen s @ [d]\<rparr>)"
    using assms unfolding call_inv_def futures_inv_def by (fastforce intro: answers_mono)
  moreover have "returned_inv lb (s\<lparr>wc_seen := wc_seen s @ [d]\<rparr>)"
    using assms unfolding call_inv_def returned_inv_def by (fastforce intro: answers_mono)
  ultimately show ?thesis using assms by (simp add: call_inv_def names_inv_def call_names_def pending_inv_def)
qed

lemma call_inv_reader_fails:
  assumes "call_inv lb s"
  shows "call_inv lb (reader_fails lb' x s)"
proof -
  let ?t = "fold (\<lambda>a s. set_future a (Rejected (WsRemote (PInt (-32603)) (PStr (wsl_exn_text lb' x)) (PDict []))) s) (map snd (wc_pending s)) s"
  have "call_inv lb (?t\<lparr>wc_pending := [], wc_pending_request_ids := []\<rparr>)"
    by (intro call_inv_clear_pending call_inv_fold_fail assms)
  then show ?thesis unfolding reader_fails_def by (rule call_inv_cong [rotated 2]) (simp_all add: call_part_def)
qed

lemma call_inv_reader_step:
  assumes "call_inv lb s"
  shows "call_inv lb (reader_step lb cf pong new_id now fr s)"
proof -
  have "call_inv lb (snd (receive_frame lb cf pong new_id now fr s))"
    using call_inv_route_frame [OF call_inv_seen [OF assms]] assms
    by (auto simp: receive_frame_def split: sum.splits pyval.splits ws_frame.splits)
  then show ?thesis
    by (cases "receive_frame lb cf pong new_id now fr s") (auto simp: reader_step_def call_inv_reader_fails split: sum.splits)
qed

text \<open>The acknowledgement layer and the connection do not touch the calls.\<close>

lemma scan_parts:
  "call_part (start_scan cf now s) = call_part s" "wc_counter (start_scan cf now s) = wc_counter s"
  "call_part (start_resend lb now a rest old s) = call_part s" "wc_counter s \<le> wc_counter (start_resend lb now a rest old s)"
  "call_part (end_resend sent_at a rest old s) = call_part s" "wc_counter (end_resend sent_at a rest old s) = wc_counter s"
  "call_part (on_connected (s\<lparr>wc_closed := x\<rparr>)) = call_part s" "wc_counter (on_connected (s\<lparr>wc_closed := x\<rparr>)) = wc_counter s"
  "call_part (start_close s) = call_part s" "wc_counter (start_close s) = wc_counter s"
  by (auto simp: call_part_def start_scan_def start_resend_def end_resend_def count_retry_def hand_to_socket_def on_connected_def
    start_close_def stop_checker_def Let_def split: option.splits)

lemma end_scan_part: "call_part (end_scan now old s) = call_part s \<and> wc_counter (end_scan now old s) = wc_counter s"
proof -
  have "call_part (fold (expire_pending_ack now) old t) = call_part t \<and> wc_counter (fold (expire_pending_ack now) old t) = wc_counter t" for t
    by (induction old arbitrary: t) (simp_all add: expire_pending_ack_def call_part_def)
  then show ?thesis by (simp add: end_scan_def call_part_def)
qed

lemma call_inv_scan:
  assumes "call_inv lb s"
  shows "call_inv lb (start_scan cf now s)" "call_inv lb (start_resend lb' now a rest old s)" "call_inv lb (end_resend sent_at a rest old s)"
    "call_inv lb (end_scan now old s)" "call_inv lb (start_close s)" "call_inv lb (on_connected (s\<lparr>wc_closed := x\<rparr>))"
  by (simp_all add: call_inv_cong [OF _ _ assms] scan_parts end_scan_part)

lemma call_inv_fail_pending: "call_inv lb s \<Longrightarrow> call_inv lb (fail_pending s)"
proof -
  assume "call_inv lb s"
  then have "call_inv lb (s\<lparr>wc_pending_acks := []\<rparr>)" by (rule call_inv_cong [rotated 2]) (simp_all add: call_part_def)
  from call_inv_clear_pending [OF call_inv_fold_fail [OF this]] show ?thesis by (simp add: fail_pending_def)
qed

lemma call_inv_step:
  assumes "ws_step lb cf ev s s'" "call_inv lb s"
  shows "call_inv lb s'"
  using assms
proof cases
  case (ends i e a r)
  then show ?thesis using assms(2) by (auto intro!: call_inv_end_call elim: future_result.elims)
qed (auto intro: assms(2) call_inv_start_call call_inv_finish_sending call_inv_forget_sending [THEN conjunct1] call_inv_reader_step call_inv_reader_fails
    call_inv_set_future call_inv_end_call call_inv_fail_pending call_inv_scan
    call_inv_cong [OF _ _ assms(2)] simp: call_part_def end_close_def)

lemma call_inv_init: "call_inv lb (ws_init b)"
  by (simp add: call_inv_def names_inv_def call_names_def pending_inv_def futures_inv_def returned_inv_def ws_init_def)

lemma call_inv_run: "ws_run lb cf evs s s' \<Longrightarrow> call_inv lb s \<Longrightarrow> call_inv lb s'"
  by (induction rule: ws_run.induct) (auto intro: call_inv_step)

subsection \<open>The budget of retransmissions\<close>

text \<open>The invariant over addresses: of the pending trackers, of those left in a round, and of every completed retransmission.\<close>

definition ack_ok :: "int \<Rightarrow> nat list \<Rightarrow> pending_ack list \<Rightarrow> nat list \<Rightarrow> nat list \<Rightarrow> bool" where
  "ack_ok budget pend acks todo resent \<longleftrightarrow>
     distinct pend \<and> distinct todo \<and> set pend \<union> set resent \<subseteq> {..<length acks} \<and>
     (\<forall>a < length acks. pa_retries (acks ! a) = int (count_list resent a) \<and> pa_retries (acks ! a) \<le> max 0 budget) \<and>
     (\<forall>a \<in> set todo. a < length acks \<and> pa_retries (acks ! a) < budget)"

fun round_todo :: "((string \<times> nat) list \<times> string list) option \<Rightarrow> nat list" where
  "round_todo None = []"
| "round_todo (Some (todo, old)) = map snd todo"

definition ack_inv :: "ws_config \<Rightarrow> ws_client \<Rightarrow> bool" where
  "ack_inv cf s \<longleftrightarrow> ack_ok (wf_max_ack_retries cf) (map snd (wc_pending_acks s)) (wc_acks s) (round_todo (wc_round s)) (wc_resent s)"

definition ack_part :: "ws_client \<Rightarrow> (string, nat) dict \<times> pending_ack list \<times> ((string \<times> nat) list \<times> string list) option \<times> nat list" where
  "ack_part s = (wc_pending_acks s, wc_acks s, wc_round s, wc_resent s)"

lemma ack_inv_cong: "ack_part s' = ack_part s \<Longrightarrow> ack_inv cf s \<Longrightarrow> ack_inv cf s'"
  by (simp add: ack_inv_def ack_part_def)

lemma values_update:
  "distinct (map snd d) \<Longrightarrow> v \<notin> set (map snd d) \<Longrightarrow> distinct (map snd (AList.update k v d))"
  "set (map snd (AList.update k v d)) \<subseteq> insert v (set (map snd d))"
proof -
  show sub: "set (map snd (AList.update k v d)) \<subseteq> insert v (set (map snd d))" for d
    by (induction d) auto
  show "distinct (map snd d) \<Longrightarrow> v \<notin> set (map snd d) \<Longrightarrow> distinct (map snd (AList.update k v d))"
  proof (induction d)
    case (Cons p d)
    then show ?case using sub [of d] by (cases p) auto
  qed simp
qed

lemma values_delete: "distinct (map snd d) \<Longrightarrow> distinct (map snd (AList.delete k d))" "set (map snd (AList.delete k d)) \<subseteq> set (map snd d)"
  by (auto simp: AList.delete_eq distinct_map_filter)

lemma ack_ok_new:
  assumes "ack_ok m pend acks todo resent" "pa_retries p = 0" "distinct pend'" "set pend' \<subseteq> insert (length acks) (set pend)"
  shows "ack_ok m pend' (acks @ [p]) todo resent"
proof -
  from assms(1) have "length acks \<notin> set resent" by (auto simp: ack_ok_def)
  then have "count_list resent (length acks) = 0" by (simp add: count_list_0_iff)
  moreover have "set pend' \<subseteq> {..<Suc (length acks)}" using assms(1,4) by (force simp: ack_ok_def)
  ultimately show ?thesis using assms by (auto simp: ack_ok_def nth_append less_Suc_eq)
qed

lemma ack_ok_fewer:
  "ack_ok m pend acks todo resent \<Longrightarrow> distinct pend' \<Longrightarrow> set pend' \<subseteq> set pend \<Longrightarrow> distinct todo' \<Longrightarrow> set todo' \<subseteq> set todo \<Longrightarrow>
   ack_ok m pend' acks todo' resent"
  unfolding ack_ok_def by blast

lemma ack_ok_count:
  assumes "ack_ok m pend acks (a # todo) resent"
  shows "ack_ok m pend (acks[a := (acks ! a)\<lparr>pa_sent_at := now, pa_retries := pa_retries (acks ! a) + 1\<rparr>]) todo (resent @ [a])"
  using assms by (auto simp: ack_ok_def nth_list_update)

lemma ack_inv_register:
  assumes "ack_inv cf s"
  shows "ack_inv cf (register_pending_ack now e s)"
proof -
  have "length (wc_acks s) \<notin> set (map snd (wc_pending_acks s))" "distinct (map snd (wc_pending_acks s))"
    using assms by (auto simp: ack_inv_def ack_ok_def)
  then have "ack_inv cf (s\<lparr>wc_pending_acks := AList.update i (length (wc_acks s)) (wc_pending_acks s), wc_acks := wc_acks s @ [p]\<rparr>)"
    if "pa_retries p = 0" for i p
    using assms that unfolding ack_inv_def by (auto intro!: ack_ok_new values_update(1) dest: subsetD [OF values_update(2)])
  then show ?thesis using assms by (auto simp: register_pending_ack_def split: option.splits)
qed

lemma ack_inv_fewer:
  assumes "ack_inv cf s"
  shows "ack_inv cf (s\<lparr>wc_pending_acks := AList.delete i (wc_pending_acks s)\<rparr>)" "ack_inv cf (s\<lparr>wc_pending_acks := []\<rparr>)" "ack_inv cf (s\<lparr>wc_round := None\<rparr>)"
proof -
  have "distinct (map snd (wc_pending_acks s))" "distinct (round_todo (wc_round s))" using assms by (auto simp: ack_inv_def ack_ok_def)
  then show "ack_inv cf (s\<lparr>wc_pending_acks := AList.delete i (wc_pending_acks s)\<rparr>)" "ack_inv cf (s\<lparr>wc_pending_acks := []\<rparr>)" "ack_inv cf (s\<lparr>wc_round := None\<rparr>)"
    using assms values_delete [where d = "wc_pending_acks s"] unfolding ack_inv_def by (auto elim!: ack_ok_fewer simp del: set_map)
qed

lemma ack_inv_scan:
  assumes "ack_inv cf s"
  shows "ack_inv cf (start_scan cf now s)"
proof -
  let ?todo = "fst (scan_acks cf now s)"
  have "distinct (map snd ?todo)" "\<forall>a \<in> set (map snd ?todo). a \<in> set (map snd (wc_pending_acks s)) \<and> pa_retries (wc_acks s ! a) < wf_max_ack_retries cf"
    using assms by (auto simp: ack_inv_def ack_ok_def scan_acks_def Let_def distinct_map_filter)
  then have "ack_inv cf (s\<lparr>wc_round := Some (?todo, old)\<rparr>)" for old
    using assms unfolding ack_inv_def ack_ok_def by auto
  moreover have "scan_acks cf now s = (?todo, snd (scan_acks cf now s))" by simp
  ultimately have "ack_inv cf (s\<lparr>wc_round := Some (scan_acks cf now s)\<rparr>)" by metis
  moreover have "ack_inv cf (s\<lparr>wc_checker := x\<rparr>)" for x by (rule ack_inv_cong [OF _ assms]) (simp add: ack_part_def)
  ultimately show ?thesis by (simp add: start_scan_def)
qed

lemma ack_inv_count:
  assumes "ack_inv cf s" "wc_round s = Some ((i, a) # rest, old)"
  shows "ack_inv cf (count_retry now a (s\<lparr>wc_round := Some (rest, old)\<rparr>))" "ack_inv cf (s\<lparr>wc_round := Some (rest, old)\<rparr>)"
proof -
  have ok: "ack_ok (wf_max_ack_retries cf) (map snd (wc_pending_acks s)) (wc_acks s) (a # map snd rest) (wc_resent s)"
    using assms by (simp add: ack_inv_def)
  from ack_ok_count [OF ok] show "ack_inv cf (count_retry now a (s\<lparr>wc_round := Some (rest, old)\<rparr>))"
    by (simp add: ack_inv_def count_retry_def)
  have "distinct (map snd rest)" "distinct (map snd (wc_pending_acks s))" using ok by (simp_all add: ack_ok_def)
  from ack_ok_fewer [OF ok this(2) subset_refl this(1)]
  show "ack_inv cf (s\<lparr>wc_round := Some (rest, old)\<rparr>)" by (auto simp: ack_inv_def)
qed

lemma ack_inv_expire: "ack_inv cf s \<Longrightarrow> ack_inv cf (fold (expire_pending_ack now) old s)"
proof (induction old arbitrary: s)
  case (Cons i old)
  have "ack_inv cf (expire_pending_ack now i s)"
    by (rule ack_inv_cong [OF _ ack_inv_fewer(1) [OF Cons.prems, of i]]) (simp add: expire_pending_ack_def ack_part_def)
  with Cons.IH show ?case by simp
qed simp

lemma ack_inv_init: "ack_inv cf (ws_init b)"
  by (simp add: ack_inv_def ack_ok_def ws_init_def)

lemma set_future_ack_part [simp]: "ack_part (set_future a f s) = ack_part s"
  by (simp add: set_future_def ack_part_def)

lemma fold_fail_ack_part [simp]: "ack_part (fold (\<lambda>a s. set_future a (Rejected x) s) as s) = ack_part s"
  by (induction as arbitrary: s) simp_all

lemma call_ack_parts [simp]:
  "ack_part (s\<lparr>wc_pending := p, wc_pending_request_ids := q\<rparr>) = ack_part s" "ack_part (s\<lparr>wc_pending := p, wc_pending_request_ids := q, wc_reader := x\<rparr>) = ack_part s"
  "ack_part (drop_pending i s) = ack_part s" "ack_part (resolve i f s) = ack_part s"
  "ack_part (start_call lb k e s) = ack_part s" "ack_part (end_call (i, e, a) r s) = ack_part s" "ack_part (register_future i e s) = ack_part s"
  "ack_part (s\<lparr>wc_sending := y\<rparr>) = ack_part s" "ack_part (s\<lparr>wc_sent := z\<rparr>) = ack_part s" "ack_part (s\<lparr>wc_seen := w\<rparr>) = ack_part s"
  "ack_part (s\<lparr>wc_pushed := v\<rparr>) = ack_part s"
  by (auto simp: ack_part_def drop_pending_def resolve_def start_call_def end_call_def hand_to_socket_def register_future_def Let_def set_future_def
    split: option.splits)

lemma ack_inv_frame:
  assumes "ack_inv cf s"
  shows "ack_inv cf (resolve i f s)" "ack_inv cf (s\<lparr>wc_sent := z\<rparr>)" "ack_inv cf (s\<lparr>wc_pushed := v\<rparr>)"
  by (rule ack_inv_cong [OF _ assms], simp)+

lemma consume_ack_inv: "ack_inv cf s \<Longrightarrow> ack_inv cf (consume_ack_frame lb new_id now data s)"
  by (auto simp: consume_ack_frame_def ack_inv_fewer split: option.splits pyval.splits sum.splits)

lemma route_frame_ack_inv: "ack_inv cf s \<Longrightarrow> ack_inv cf (snd (route_frame lb cf' pong new_id now data s))"
  by (simp add: route_frame_def resolve_error_frame_def resolve_missing_result_def resolve_result_frame_def resolve_bound_future_def Let_def
    consume_ack_inv ack_inv_frame split: option.splits bool.splits sum.splits pyval.splits)

lemma reader_ack_inv:
  assumes "ack_inv cf s"
  shows "ack_inv cf (reader_fails lb x s)" "ack_inv cf (reader_step lb cf' pong new_id now fr s)"
proof -
  have fails: "ack_inv cf (reader_fails lb x t)" if "ack_inv cf t" for t x
    by (rule ack_inv_cong [OF _ that]) (simp add: reader_fails_def)
  then show "ack_inv cf (reader_fails lb x s)" using assms .
  have "ack_inv cf (s\<lparr>wc_seen := z\<rparr>)" for z by (rule ack_inv_cong [OF _ assms]) simp
  then have "ack_inv cf (snd (receive_frame lb cf' pong new_id now fr s))"
    using assms route_frame_ack_inv by (auto simp: receive_frame_def split: ws_frame.splits sum.splits pyval.splits)
  with fails show "ack_inv cf (reader_step lb cf' pong new_id now fr s)"
    by (cases "receive_frame lb cf' pong new_id now fr s") (auto simp: reader_step_def split: sum.splits)
qed

lemma ack_inv_step:
  assumes "ws_step lb cf ev s s'" "ack_inv cf s"
  shows "ack_inv cf s'"
  using assms
proof cases
  case (send_returns c now)
  have "ack_inv cf (s\<lparr>wc_sending := remove1 c (wc_sending s)\<rparr>)" by (rule ack_inv_cong [OF _ assms(2)]) simp
  then have "ack_inv cf (register_pending_ack now e (s\<lparr>wc_sending := remove1 c (wc_sending s)\<rparr>))" for e by (rule ack_inv_register)
  moreover have "ack_inv cf (register_future i e t)" if "ack_inv cf t" for i e t by (rule ack_inv_cong [OF _ that]) simp
  ultimately show ?thesis by (cases c) (auto simp: send_returns finish_sending_def Let_def split: call_kind.splits)
next
  case (resend i a rest old now)
  have "ack_inv cf (s\<lparr>wc_counter := n, wc_sent := x, wc_resending := r\<rparr>)" for n x r
    by (rule ack_inv_cong [OF _ assms(2)]) (simp add: ack_part_def)
  with ack_inv_count(1) [OF assms(2) resend(3)] show ?thesis by (simp add: resend start_resend_def hand_to_socket_def Let_def)
next
  case (resent i a rest old sent_at)
  have "ack_inv cf (t\<lparr>wc_resending := x\<rparr>)" if "ack_inv cf t" for t x by (rule ack_inv_cong [OF _ that]) (simp add: ack_part_def)
  moreover have "count_retry now a (s\<lparr>wc_round := Some (rest, old), wc_resending := False\<rparr>) = (count_retry now a (s\<lparr>wc_round := Some (rest, old)\<rparr>))\<lparr>wc_resending := False\<rparr>" for now
    by (simp add: count_retry_def)
  ultimately show ?thesis using ack_inv_count [OF assms(2) resent(3)] by (auto simp: resent end_resend_def Let_def split: option.splits)
next
  case (expire old now)
  then show ?thesis using ack_inv_expire [OF ack_inv_fewer(3) [OF assms(2)]] by (simp add: end_scan_def)
next
  case (scan now)
  then show ?thesis using ack_inv_scan [OF assms(2)] by simp
next
  case (frame pong new_id now fr)
  then show ?thesis using reader_ack_inv(2) [OF assms(2)] by simp
next
  case (reader_raises x)
  then show ?thesis using reader_ack_inv(1) [OF assms(2)] by simp
next
  case sweep
  show ?thesis unfolding sweep by (rule ack_inv_cong [OF _ ack_inv_fewer(2) [OF assms(2)]]) (simp add: fail_pending_def)
next
  case connect
  show ?thesis unfolding connect by (rule ack_inv_cong [OF _ ack_inv_fewer(3) [OF assms(2)]]) (simp add: on_connected_def stop_checker_def ack_part_def)
next
  case close
  show ?thesis unfolding close by (rule ack_inv_cong [OF _ ack_inv_fewer(3) [OF assms(2)]]) (simp add: start_close_def stop_checker_def ack_part_def)
qed (auto intro: ack_inv_cong [OF _ assms(2)] simp: ack_part_def [of "s\<lparr>wc_connected := _\<rparr>"] ack_part_def [of "s\<lparr>wc_breaker := _\<rparr>"] ack_part_def [of s] end_close_def)

lemma ack_inv_run: "ws_run lb cf evs s s' \<Longrightarrow> ack_inv cf s \<Longrightarrow> ack_inv cf s'"
  by (induction rule: ws_run.induct) (auto intro: ack_inv_step)

subsection \<open>Nobody waits after closing\<close>

definition waiting_inv :: "ws_client \<Rightarrow> bool" where
  "waiting_inv s \<longleftrightarrow> (\<forall>(i, e, a) \<in> set (wc_calls s). wc_futures s ! a = Waiting \<longrightarrow> map_of (wc_pending s) i = Some a)"

lemma waiting_inv_cong: "call_part s' = call_part s \<Longrightarrow> waiting_inv s \<Longrightarrow> waiting_inv s'"
  by (simp add: waiting_inv_def call_part_def)

lemma set_future_Waiting:
  "f \<noteq> Waiting \<Longrightarrow> b < length (wc_futures s) \<Longrightarrow> wc_futures (set_future a f s) ! b = Waiting \<longleftrightarrow> wc_futures s ! b = Waiting \<and> b \<noteq> a"
  by (cases "b = a") (auto simp: set_future_def nth_list_update)

lemma waiting_inv_set_future:
  assumes "waiting_inv s" "call_inv lb s" "f \<noteq> Waiting"
  shows "waiting_inv (set_future a f s)"
  using assms set_future_Waiting [OF assms(3)] by (fastforce simp: waiting_inv_def call_inv_def futures_inv_def)

lemma same_name: "call_inv lb s \<Longrightarrow> (i, e, a) \<in> set (wc_calls s) \<Longrightarrow> (i, e', a') \<in> set (wc_calls s) \<Longrightarrow> e' = e \<and> a' = a"
  unfolding call_inv_def names_inv_def call_names_def by (auto dest: eq_key_imp_eq_value)

lemma waiting_inv_resolve:
  assumes "waiting_inv s" "call_inv lb s" "f \<noteq> Waiting"
  shows "waiting_inv (resolve i f s)"
proof (cases "map_of (wc_pending s) i")
  case (Some a)
  with assms(2) obtain e where e: "(i, e, a) \<in> set (wc_calls s)" unfolding call_inv_def pending_inv_def by blast
  show ?thesis
    unfolding waiting_inv_def
  proof safe
    fix i' e' b assume call: "(i', e', b) \<in> set (wc_calls (resolve i f s))" and w: "wc_futures (resolve i f s) ! b = Waiting"
    from call have c: "(i', e', b) \<in> set (wc_calls s)" by (simp add: resolve_def Some drop_pending_def)
    then have b: "b < length (wc_futures (drop_pending i s))" using assms(2) by (auto simp: call_inv_def futures_inv_def drop_pending_def)
    from w set_future_Waiting [OF assms(3) b] have "wc_futures s ! b = Waiting" "b \<noteq> a"
      by (auto simp: resolve_def Some drop_pending_def)
    with c assms(1) same_name [OF assms(2) e] show "map_of (wc_pending (resolve i f s)) i' = Some b"
      by (auto simp: waiting_inv_def resolve_def Some drop_pending_def map_of_delete)
  qed
qed (simp add: resolve_def assms(1))

lemma fold_fail_Waiting:
  "b < length (wc_futures s) \<Longrightarrow> wc_futures (fold (\<lambda>a s. set_future a (Rejected x) s) as s) ! b = Waiting \<longleftrightarrow> wc_futures s ! b = Waiting \<and> b \<notin> set as"
  by (induction as arbitrary: s) (auto simp: set_future_Waiting)

lemma fold_fail_nth:
  "b < length (wc_futures s) \<Longrightarrow> wc_futures (fold (\<lambda>a s. set_future a (Rejected x) s) as s) ! b =
     (if wc_futures s ! b = Waiting \<and> b \<in> set as then Rejected x else wc_futures s ! b)"
proof (induction as arbitrary: s)
  case (Cons a as)
  have "wc_futures (set_future a (Rejected x) s) ! b = (if a = b \<and> wc_futures s ! b = Waiting then Rejected x else wc_futures s ! b)"
    "b < length (wc_futures (set_future a (Rejected x) s))"
    using Cons.prems by (cases "a = b"; simp add: set_future_def)+
  then show ?case using Cons.IH [of "set_future a (Rejected x) s"] by auto
qed simp

lemma fold_fail_sending [simp]: "wc_sending (fold (\<lambda>a s. set_future a (Rejected x) s) as s) = wc_sending s"
  by (induction as arbitrary: s) (simp_all add: set_future_def)

lemma fold_fail_calls [simp]: "wc_calls (fold (\<lambda>a s. set_future a (Rejected x) s) as s) = wc_calls s"
  by (induction as arbitrary: s) simp_all

text \<open>When the receive loop fails or the transport is closed, every future of a call gets a value.\<close>

lemma sweep_ends_waiting:
  assumes "waiting_inv s" "call_inv lb s" "(i, e, a) \<in> set (wc_calls s)"
  shows "wc_futures (fold (\<lambda>a s. set_future a (Rejected x) s) (map snd (wc_pending s)) s) ! a \<noteq> Waiting"
proof -
  from assms(2,3) have "a < length (wc_futures s)" by (auto simp: call_inv_def futures_inv_def)
  moreover have "wc_futures s ! a = Waiting \<Longrightarrow> a \<in> set (map snd (wc_pending s))"
    using assms(1,3) by (force simp: waiting_inv_def dest: map_of_SomeD)
  ultimately show ?thesis by (simp add: fold_fail_Waiting)
qed

lemma waiting_inv_reader_fails:
  assumes "waiting_inv s" "call_inv lb s"
  shows "waiting_inv (reader_fails lb' x s)"
  unfolding waiting_inv_def
proof safe
  fix i e a assume "(i, e, a) \<in> set (wc_calls (reader_fails lb' x s))" "wc_futures (reader_fails lb' x s) ! a = Waiting"
  with sweep_ends_waiting [OF assms, of i e a] show "map_of (wc_pending (reader_fails lb' x s)) i = Some a"
    by (simp add: reader_fails_def)
qed

lemma fail_pending_none_waiting:
  assumes "waiting_inv s" "call_inv lb s" "(i, e, a) \<in> set (wc_calls (fail_pending s))"
  shows "wc_futures (fail_pending s) ! a \<noteq> Waiting"
proof -
  let ?s = "s\<lparr>wc_pending_acks := []\<rparr>"
  have "call_inv lb ?s" by (rule call_inv_cong [OF _ _ assms(2)]) (simp_all add: call_part_def)
  moreover have "waiting_inv ?s" by (rule waiting_inv_cong [OF _ assms(1)]) (simp add: call_part_def)
  ultimately show ?thesis using sweep_ends_waiting [of ?s lb i e a] assms(3) by (auto simp: fail_pending_def)
qed

lemma waiting_inv_register_future:
  assumes "waiting_inv s" "call_inv lb s" "i \<notin> set (call_names s)"
  shows "waiting_inv (register_future i e s)"
  unfolding waiting_inv_def
proof safe
  fix i' e' b
  assume call: "(i', e', b) \<in> set (wc_calls (register_future i e s))" and w: "wc_futures (register_future i e s) ! b = Waiting"
  show "map_of (wc_pending (register_future i e s)) i' = Some b"
  proof (cases "(i', e', b) \<in> set (wc_calls s)")
    case True
    with assms(3) have "i' \<noteq> i" by (force simp: call_names_def)
    moreover have "b < length (wc_futures s)" using True assms(2) by (auto simp: call_inv_def futures_inv_def)
    ultimately show ?thesis using True w assms(1) by (auto simp: waiting_inv_def register_future_def nth_append map_of_update)
  qed (use call in \<open>auto simp: register_future_def map_of_update\<close>)
qed

lemma waiting_inv_finish_sending:
  assumes "waiting_inv s" "call_inv lb s" "c \<in> set (wc_sending s)"
  shows "waiting_inv (finish_sending now c s)"
proof -
  obtain i e k where c: "c = (i, e, k)" by (cases c)
  let ?s = "s\<lparr>wc_sending := remove1 c (wc_sending s)\<rparr>"
  let ?t = "register_pending_ack now e ?s"
  have s: "call_inv lb ?s" "i \<notin> set (call_names ?s)" "waiting_inv ?s"
    using call_inv_forget_sending [OF assms(2,3)] assms(1) by (simp_all add: c waiting_inv_def)
  have t: "call_inv lb ?t" "waiting_inv ?t"
    using call_inv_cong [OF register_pending_ack_part(1) _ s(1)] waiting_inv_cong [OF register_pending_ack_part(1) s(3)]
    by (simp_all add: register_pending_ack_part)
  have "call_names ?t = call_names ?s" using register_pending_ack_part(1) [of now e ?s] by (simp add: call_names_def call_part_def)
  with s waiting_inv_register_future [OF t(2,1), of i e] t show ?thesis by (cases k) (simp_all add: finish_sending_def c Let_def)
qed

lemma waiting_inv_end_call:
  assumes "waiting_inv s" "call_inv lb s" "(i, e, a) \<in> set (wc_calls s)"
  shows "waiting_inv (end_call (i, e, a) r s)"
proof -
  from assms(2) have "distinct (map fst (wc_calls s))" by (auto simp: call_inv_def names_inv_def call_names_def)
  then have "distinct (wc_calls s)" by (auto simp: distinct_map)
  with assms(3) obtain ys zs where split: "wc_calls s = ys @ (i, e, a) # zs" "remove1 (i, e, a) (wc_calls s) = ys @ zs"
    by (rule remove1_split)
  with \<open>distinct (map fst (wc_calls s))\<close> have "i \<notin> fst ` set (ys @ zs)" by auto
  then have other: "i' \<noteq> i" if "(i', e', b) \<in> set (ys @ zs)" for i' e' b using that by force
  show ?thesis
    unfolding waiting_inv_def
  proof safe
    fix i' e' b assume "(i', e', b) \<in> set (wc_calls (end_call (i, e, a) r s))" "wc_futures (end_call (i, e, a) r s) ! b = Waiting"
    then have "(i', e', b) \<in> set (ys @ zs)" "wc_futures s ! b = Waiting" by (simp_all add: end_call_def drop_pending_def split(2))
    with other assms(1) split(1) show "map_of (wc_pending (end_call (i, e, a) r s)) i' = Some b"
      by (fastforce simp: waiting_inv_def end_call_def drop_pending_def map_of_delete)
  qed
qed

lemma waiting_inv_route_frame:
  assumes "waiting_inv s" "call_inv lb s"
  shows "waiting_inv (snd (route_frame lb cf pong new_id now data s))"
proof -
  have res: "waiting_inv (resolve i (Rejected x) s)" "waiting_inv (resolve_bound_future lb e i s)" for i x e
    by (auto simp: resolve_bound_future_def intro!: waiting_inv_resolve [OF assms] split: sum.splits)
  have same: "waiting_inv (s\<lparr>wc_sent := z\<rparr>)" "waiting_inv (s\<lparr>wc_pushed := v\<rparr>)" "waiting_inv (consume_ack_frame lb new_id now data s)" for z v
    by (rule waiting_inv_cong [OF _ assms(1)], simp add: call_part_def consume_ack_part [unfolded call_part_def])+
  show ?thesis
    using assms(1) res same
    by (simp add: route_frame_def resolve_error_frame_def resolve_missing_result_def resolve_result_frame_def Let_def
      split: option.splits bool.splits sum.splits pyval.splits)
qed

lemma waiting_inv_reader_step:
  assumes "waiting_inv s" "call_inv lb s"
  shows "waiting_inv (reader_step lb cf pong new_id now fr s)"
proof -
  have "waiting_inv (s\<lparr>wc_seen := z\<rparr>)" for z using assms(1) by (simp add: waiting_inv_def)
  then have "waiting_inv (snd (receive_frame lb cf pong new_id now fr s))" "call_inv lb (snd (receive_frame lb cf pong new_id now fr s))"
    using assms waiting_inv_route_frame call_inv_route_frame call_inv_seen
    by (auto simp: receive_frame_def split: ws_frame.splits sum.splits pyval.splits)
  then show ?thesis
    by (cases "receive_frame lb cf pong new_id now fr s") (auto simp: reader_step_def waiting_inv_reader_fails split: sum.splits)
qed

lemma waiting_inv_same:
  assumes "waiting_inv s"
  shows "waiting_inv (start_scan cf now s)" "waiting_inv (start_resend lb now a rest old s)" "waiting_inv (end_resend sent_at a rest old s)"
    "waiting_inv (end_scan now old s)" "waiting_inv (start_close s)" "waiting_inv (on_connected (s\<lparr>wc_closed := x\<rparr>))"
  by (rule waiting_inv_cong [OF _ assms], simp add: scan_parts end_scan_part)+

lemma waiting_inv_step:
  assumes "ws_step lb cf ev s s'" "waiting_inv s" "call_inv lb s"
  shows "waiting_inv s'"
  using assms
proof cases
  case (call k e)
  then show ?thesis using assms(2) by (simp add: waiting_inv_def start_call_def hand_to_socket_def Let_def)
next
  case sweep
  then show ?thesis using fail_pending_none_waiting [OF assms(2,3)] by (auto simp: waiting_inv_def)
qed (auto intro: assms(2) waiting_inv_finish_sending [OF assms(2,3)] waiting_inv_reader_step [OF assms(2,3)] waiting_inv_reader_fails [OF assms(2,3)]
    waiting_inv_set_future [OF assms(2,3)] waiting_inv_end_call [OF assms(2,3)] waiting_inv_same [OF assms(2)]
    waiting_inv_cong [OF _ assms(2)] simp: call_part_def end_close_def waiting_inv_def [of "s\<lparr>wc_sending := _\<rparr>"] waiting_inv_def [of s])

lemma waiting_inv_run: "ws_run lb cf evs s s' \<Longrightarrow> waiting_inv s \<Longrightarrow> call_inv lb s \<Longrightarrow> waiting_inv s'"
  by (induction rule: ws_run.induct) (auto intro: waiting_inv_step call_inv_run)

lemma waiting_inv_init: "waiting_inv (ws_init b)"
  by (simp add: waiting_inv_def ws_init_def)

subsection \<open>A receive loop that has ended\<close>

text \<open>Without automatic reconnection nothing starts the receive loop of a connected transport again.\<close>

definition silent :: "(string \<Rightarrow> envelope \<Rightarrow> envelope \<Rightarrow> bool) \<Rightarrow> ws_client \<Rightarrow> bool" where
  "silent old s \<longleftrightarrow> wc_connected s \<and> \<not> wc_reader s \<and> \<not> wc_closed s \<and>
     (\<forall>(i, e, a) \<in> set (wc_calls s). \<forall>r. wc_futures s ! a = Resolved r \<longrightarrow> old i e r) \<and>
     (\<forall>(i, e, res) \<in> set (wc_returned s). \<forall>r. res = Inr r \<longrightarrow> old i e r)"

definition conn_part :: "ws_client \<Rightarrow> bool \<times> bool \<times> bool" where
  "conn_part s = (wc_connected s, wc_reader s, wc_closed s)"

lemma silent_cong: "call_part s' = call_part s \<Longrightarrow> conn_part s' = conn_part s \<Longrightarrow> silent old s \<Longrightarrow> silent old s'"
  by (simp add: silent_def call_part_def conn_part_def)

lemma conn_parts:
  "conn_part (start_scan cf now s) = conn_part s" "conn_part (start_resend lb now a rest old s) = conn_part s"
  "conn_part (end_resend sent_at a rest old s) = conn_part s" "conn_part (register_pending_ack now e s) = conn_part s"
  "conn_part (set_future a f s) = conn_part s"
  by (auto simp: conn_part_def start_scan_def start_resend_def end_resend_def count_retry_def hand_to_socket_def register_pending_ack_def set_future_def
    Let_def split: option.splits)

lemma end_scan_conn_part: "conn_part (end_scan now old s) = conn_part s"
proof -
  have "conn_part (fold (expire_pending_ack now) old t) = conn_part t" for t
    by (induction old arbitrary: t) (simp_all add: expire_pending_ack_def conn_part_def)
  then show ?thesis by (simp add: end_scan_def conn_part_def)
qed

lemma silent_register_future:
  assumes "silent old s" "call_inv lb s"
  shows "silent old (register_future i e s)"
proof -
  have "(\<forall>(j, e', a) \<in> set (wc_calls s). a < length (wc_futures s))" using assms(2) by (auto simp: call_inv_def futures_inv_def)
  then show ?thesis using assms(1) by (fastforce simp: silent_def register_future_def nth_append)
qed

lemma silent_finish_sending:
  assumes "silent old s" "call_inv lb s" "c \<in> set (wc_sending s)"
  shows "silent old (finish_sending now c s)"
proof -
  obtain i e k where c: "c = (i, e, k)" by (cases c)
  let ?s = "s\<lparr>wc_sending := remove1 c (wc_sending s)\<rparr>"
  have s: "silent old ?s" "call_inv lb ?s" using assms(1) call_inv_forget_sending [OF assms(2,3)] by (simp_all add: silent_def)
  have "silent old (register_pending_ack now e ?s)" "call_inv lb (register_pending_ack now e ?s)"
    by (rule silent_cong [OF register_pending_ack_part(1) conn_parts(4) s(1)])
      (rule call_inv_cong [OF register_pending_ack_part(1) _ s(2)], simp add: register_pending_ack_part)
  then show ?thesis using silent_register_future by (cases k) (auto simp: finish_sending_def c Let_def)
qed

lemma silent_set_future: "silent old s \<Longrightarrow> call_inv lb s \<Longrightarrow> silent old (set_future a Cancelled s)"
  using conn_parts(5) [of a Cancelled s]
  by (auto simp: silent_def conn_part_def call_inv_def futures_inv_def dest!: set_future_Resolved)

lemma silent_end_call:
  assumes "silent old s" "(i, e, a) \<in> set (wc_calls s)" "\<And>v. r = Inr v \<Longrightarrow> wc_futures s ! a = Resolved v"
  shows "silent old (end_call (i, e, a) r s)"
proof -
  have "\<forall>c \<in> set (remove1 (i, e, a) (wc_calls s)). c \<in> set (wc_calls s)" using notin_set_remove1 by metis
  moreover have "old i e v" if "r = Inr v" for v using assms that unfolding silent_def by blast
  ultimately show ?thesis using assms(1) unfolding silent_def end_call_def drop_pending_def by auto
qed

lemma silent_same:
  assumes "silent old s"
  shows "silent old (start_scan cf now s)" "silent old (start_resend lb now a rest todo s)" "silent old (end_resend sent_at a rest todo s)"
    "silent old (end_scan now todo s)"
  by (rule silent_cong [OF _ _ assms], simp add: scan_parts end_scan_part, simp add: conn_parts end_scan_conn_part)+

lemma silent_step:
  assumes "ws_step lb cf ev s s'" "silent old s" "call_inv lb s" "\<not> wf_reconnect cf" "ev \<noteq> CloseStarted"
  shows "silent old s'"
  using assms
proof cases
  case (call k e)
  then show ?thesis using assms(2) by (simp add: silent_def start_call_def hand_to_socket_def Let_def)
next
  case (ends i e a r)
  then show ?thesis using assms(2) by (auto intro!: silent_end_call elim: future_result.elims)
qed (use assms in \<open>auto intro: silent_finish_sending silent_set_future silent_end_call silent_same simp: silent_def [of old "s\<lparr>wc_sending := _\<rparr>"]
    silent_def [of old "s\<lparr>wc_breaker := _\<rparr>"] silent_def [of old s]\<close>)

lemma silent_run:
  "ws_run lb cf evs s s' \<Longrightarrow> silent old s \<Longrightarrow> call_inv lb s \<Longrightarrow> \<not> wf_reconnect cf \<Longrightarrow> CloseStarted \<notin> set evs \<Longrightarrow> silent old s'"
  by (induction rule: ws_run.induct) (auto intro: silent_step call_inv_run)

lemma fold_fail_Resolved:
  "b < length (wc_futures s) \<Longrightarrow> wc_futures (fold (\<lambda>a s. set_future a (Rejected x) s) as s) ! b = Resolved r \<Longrightarrow> wc_futures s ! b = Resolved r"
proof (induction as arbitrary: s)
  case (Cons a as)
  from Cons.IH [of "set_future a (Rejected x) s"] Cons.prems show ?case by (auto dest!: set_future_Resolved)
qed simp

lemma fold_fail_fields [simp]:
  "wc_returned (fold (\<lambda>a s. set_future a (Rejected x) s) as s) = wc_returned s"
  "conn_part (fold (\<lambda>a s. set_future a (Rejected x) s) as s) = conn_part s"
  by (induction as arbitrary: s) (simp_all add: conn_parts)

lemma reader_fails_silent:
  assumes "call_inv lb s" "wc_connected s" "\<not> wc_closed s"
  shows "silent (\<lambda>i e r. (i, e, Inr r) \<in> set (wc_returned s) \<or> (\<exists>a. (i, e, a) \<in> set (wc_calls s) \<and> wc_futures s ! a = Resolved r)) (reader_fails lb' x s)"
proof -
  let ?f = "fold (\<lambda>a s. set_future a (Rejected (WsRemote (PInt (-32603)) (PStr (wsl_exn_text lb' x)) (PDict []))) s) (map snd (wc_pending s)) s"
  have "conn_part ?f = conn_part s" by simp
  then have "wc_connected ?f" "\<not> wc_closed ?f" using assms by (simp_all add: conn_part_def)
  moreover have "\<forall>(i, e, a) \<in> set (wc_calls s). \<forall>r. wc_futures ?f ! a = Resolved r \<longrightarrow> wc_futures s ! a = Resolved r"
    using assms(1) by (auto simp: call_inv_def futures_inv_def dest!: fold_fail_Resolved)
  ultimately show ?thesis by (fastforce simp: silent_def reader_fails_def)
qed

subsection \<open>Retransmissions that fail\<close>

lemma ws_run_trans: "ws_run lb cf b s' s'' \<Longrightarrow> ws_run lb cf a s s' \<Longrightarrow> ws_run lb cf (a @ b) s s''"
  by (induction rule: ws_run.induct) (auto simp: append_assoc [symmetric] simp del: append_assoc intro: ws_run.step)

lemma ws_run_one: "ws_step lb cf ev s s' \<Longrightarrow> ws_run lb cf [ev] s s'"
  using ws_run.step [OF ws_run.stay] by fastforce

text \<open>One round over a single overdue tracker whose retransmission raises changes nothing but the counter and what was sent.\<close>

lemma failing_round:
  assumes "wc_checker s" "wc_connected s" "\<not> wc_closed s" "wc_round s = None" "\<not> wc_resending s"
    and "wc_pending_acks s = [(i, a)]" "pa_retries (wc_acks s ! a) < wf_max_ack_retries cf"
  shows "\<exists>x. ws_run lb cf [ScanStarted, ResendStarted, ResendEnded, ScanEnded] s
     (s\<lparr>wc_counter := Suc (wc_counter s), wc_sent := wc_sent s @ [x]\<rparr>)"
proof -
  define now where "now = pa_sent_at (wc_acks s ! a) + wf_ack_timeout cf + 1"
  define x where "x = encode_envelope_frame lb (envelope_dict_for_send lb (pa_original (wc_acks s ! a))) (request_name (wc_counter s))"
  have scan: "scan_acks cf now s = ([(i, a)], [])"
    using assms(6,7) by (simp add: scan_acks_def overdue_def now_def)
  define s1 where "s1 = s\<lparr>wc_round := Some ([(i, a)], [])\<rparr>"
  define s2 where "s2 = s1\<lparr>wc_counter := Suc (wc_counter s), wc_sent := wc_sent s @ [x], wc_resending := True\<rparr>"
  define s3 where "s3 = s2\<lparr>wc_round := Some ([], []), wc_resending := False\<rparr>"
  have 1: "ws_run lb cf [ScanStarted] s s1"
    using ws_step.scan [OF assms(1,4), of lb cf now] assms(2,3) by (auto simp: start_scan_def scan s1_def intro: ws_run_one)
  have "ws_step lb cf ResendStarted s1 (start_resend lb now a [] [] s1)"
    by (rule ws_step.resend [where i = i]) (simp_all add: s1_def assms(5))
  then have 2: "ws_step lb cf ResendStarted s1 s2"
    using assms(2) by (simp add: start_resend_def hand_to_socket_def s1_def s2_def x_def Let_def)
  have "ws_step lb cf ResendEnded s2 (end_resend None a [] [] s2)"
    by (rule ws_step.resent [where i = i]) (simp_all add: s1_def s2_def)
  then have 3: "ws_step lb cf ResendEnded s2 s3" by (simp add: end_resend_def s3_def)
  have "ws_step lb cf ScanEnded s3 (end_scan now [] s3)" by (rule ws_step.expire) (simp add: s3_def)
  moreover have "end_scan now [] s3 = s\<lparr>wc_counter := Suc (wc_counter s), wc_sent := wc_sent s @ [x]\<rparr>"
    by (rule ws_client.equality) (simp_all add: end_scan_def s3_def s2_def s1_def assms(4,5))
  ultimately have 4: "ws_step lb cf ScanEnded s3 (s\<lparr>wc_counter := Suc (wc_counter s), wc_sent := wc_sent s @ [x]\<rparr>)" by simp
  have "ws_run lb cf ((([ScanStarted] @ [ResendStarted]) @ [ResendEnded]) @ [ScanEnded]) s (s\<lparr>wc_counter := Suc (wc_counter s), wc_sent := wc_sent s @ [x]\<rparr>)"
    by (rule ws_run.step [OF ws_run.step [OF ws_run.step [OF 1 2] 3] 4])
  then show ?thesis by auto
qed

lemma failing_rounds:
  assumes "wc_checker s" "wc_connected s" "\<not> wc_closed s" "wc_round s = None" "\<not> wc_resending s"
    and "wc_pending_acks s = [(i, a)]" "pa_retries (wc_acks s ! a) < wf_max_ack_retries cf"
  shows "\<exists>evs s'. ws_run lb cf evs s s' \<and> length (wc_sent s') = length (wc_sent s) + n \<and> wc_pending_acks s' = [(i, a)] \<and> wc_acks s' = wc_acks s"
  using assms
proof (induction n arbitrary: s)
  case 0
  then show ?case using ws_run.stay by fastforce
next
  case (Suc n)
  from failing_round [OF Suc.prems] obtain x where x: "ws_run lb cf [ScanStarted, ResendStarted, ResendEnded, ScanEnded] s
     (s\<lparr>wc_counter := Suc (wc_counter s), wc_sent := wc_sent s @ [x]\<rparr>)" by blast
  let ?t = "s\<lparr>wc_counter := Suc (wc_counter s), wc_sent := wc_sent s @ [x]\<rparr>"
  from Suc.IH [of ?t] Suc.prems obtain evs s' where "ws_run lb cf evs ?t s'" "length (wc_sent s') = length (wc_sent ?t) + n"
    "wc_pending_acks s' = [(i, a)]" "wc_acks s' = wc_acks s" by auto
  with ws_run_trans [OF this(1) x] show ?case by fastforce
qed

subsection \<open>A sample run\<close>

definition sample_ws_lib :: "pyval \<Rightarrow> ws_lib" where
  "sample_ws_lib v =
     \<lparr>wsl_loads = (\<lambda>t. Inr v), wsl_dumps = (\<lambda>v. []), wsl_dump_envelope = (\<lambda>e. []), wsl_fields = (\<lambda>d. Inr sample_reply),
      wsl_report = (\<lambda>x. PNone), wsl_no_object = (\<lambda>v. []), wsl_str = (\<lambda>v. []), wsl_repr = (\<lambda>v. []), wsl_exn_text = (\<lambda>x. [])\<rparr>"

definition sample_ws_config :: ws_config where
  "sample_ws_config = \<lparr>wf_reconnect = False, wf_has_callback = False, wf_ack_timeout = 30, wf_max_ack_retries = 3\<rparr>"

definition sample_ws_answer :: pyval where
  "sample_ws_answer = PDict [(''id'', PStr (request_name 1)), (''result'', PDict [(''envelope'', PDict [])])]"

definition sample_waiting :: "pyval \<Rightarrow> ws_client" where
  "sample_waiting v =
     finish_sending 0 (request_name 1, sample_env, AwaitReply)
       (start_call (sample_ws_lib v) AwaitReply sample_env (on_connected ((ws_init None)\<lparr>wc_closed := False\<rparr>)))"

definition sample_answered :: ws_client where
  "sample_answered =
     end_call (request_name 1, sample_env, 0) (Inr sample_reply)
       (reader_step (sample_ws_lib sample_ws_answer) sample_ws_config None [] 0 (TextFrame []) (sample_waiting sample_ws_answer))"

lemma sample_waiting_run: "ws_run (sample_ws_lib v) cf [Connected, StartCall, SendReturned] (ws_init None) (sample_waiting v)"
proof -
  let ?s = "on_connected ((ws_init None)\<lparr>wc_closed := False\<rparr>)"
  have "ws_run (sample_ws_lib v) cf ([Connected] @ [StartCall]) (ws_init None) (start_call (sample_ws_lib v) AwaitReply sample_env ?s)"
    by (rule ws_run.step [OF ws_run_one [OF ws_step.connect] ws_step.call]) (simp add: ws_init_def)
  then have "ws_run (sample_ws_lib v) cf (([Connected] @ [StartCall]) @ [SendReturned]) (ws_init None) (sample_waiting v)"
    unfolding sample_waiting_def
    by (rule ws_run.step, intro ws_step.send_returns) (simp add: start_call_def hand_to_socket_def on_connected_def stop_checker_def ws_init_def Let_def)
  then show ?thesis by simp
qed

lemma sample_waiting_fields:
  "wc_connected (sample_waiting v)" "wc_reader (sample_waiting v)" "\<not> wc_closed (sample_waiting v)"
  "wc_pending (sample_waiting v) = [(request_name 1, 0)]" "wc_pending_request_ids (sample_waiting v) = [(request_name 1, shown (env_id sample_env))]"
  "wc_futures (sample_waiting v) = [Waiting]" "wc_calls (sample_waiting v) = [(request_name 1, sample_env, 0)]"
  "wc_returned (sample_waiting v) = []"
  by (auto simp: sample_waiting_def finish_sending_def start_call_def hand_to_socket_def on_connected_def stop_checker_def ws_init_def register_future_def
    register_pending_ack_def Let_def split: option.splits)

lemma sample_answer_resolves:
  "wc_calls (reader_step (sample_ws_lib sample_ws_answer) sample_ws_config None [] 0 (TextFrame []) (sample_waiting sample_ws_answer)) = [(request_name 1, sample_env, 0)]"
  "wc_futures (reader_step (sample_ws_lib sample_ws_answer) sample_ws_config None [] 0 (TextFrame []) (sample_waiting sample_ws_answer)) = [Resolved sample_reply]"
  "wc_returned (reader_step (sample_ws_lib sample_ws_answer) sample_ws_config None [] 0 (TextFrame []) (sample_waiting sample_ws_answer)) = []"
proof -
  let ?s = "(sample_waiting sample_ws_answer)\<lparr>wc_seen := wc_seen (sample_waiting sample_ws_answer) @ [[(''id'', PStr (request_name 1)), (''result'', PDict [(''envelope'', PDict [])])]]\<rparr>"
  have valid: "model_validate (sample_ws_lib sample_ws_answer) [] 0 (PDict []) = Inr sample_reply"
    by (simp add: model_validate_def envelope_from_dict_def parse_payload_from_dict_def sample_ws_lib_def sample_reply_valid)
  have "bound_to sample_env sample_reply" by (simp add: bound_to_def sample_reply_def sample_env_def shown_def)
  then have binds: "assert_correlation_binds rep (shown (env_id sample_env)) sample_reply = Inr ()" for rep by (simp add: assert_binds_iff)
  have step: "reader_step (sample_ws_lib sample_ws_answer) sample_ws_config None [] 0 (TextFrame []) (sample_waiting sample_ws_answer) =
      resolve (request_name 1) (Resolved sample_reply) ?s"
    using valid binds
    by (simp add: reader_step_def receive_frame_def decode_frame_to_json_def sample_ws_lib_def [of sample_ws_answer, THEN arg_cong [where f = wsl_loads]]
      sample_ws_answer_def [THEN arg_cong [where f = Inr]] route_frame_def is_client_heartbeat_ping_def heartbeat_frame_def get_or_def Let_def
      resolve_result_frame_def resolve_bound_future_def sample_waiting_fields shown_def)
  show "wc_calls (reader_step (sample_ws_lib sample_ws_answer) sample_ws_config None [] 0 (TextFrame []) (sample_waiting sample_ws_answer)) = [(request_name 1, sample_env, 0)]"
    "wc_futures (reader_step (sample_ws_lib sample_ws_answer) sample_ws_config None [] 0 (TextFrame []) (sample_waiting sample_ws_answer)) = [Resolved sample_reply]"
    "wc_returned (reader_step (sample_ws_lib sample_ws_answer) sample_ws_config None [] 0 (TextFrame []) (sample_waiting sample_ws_answer)) = []"
    unfolding step by (simp_all add: resolve_def set_future_def drop_pending_def sample_waiting_fields)
qed

lemma sample_answered_run:
  "ws_run (sample_ws_lib sample_ws_answer) sample_ws_config [Connected, StartCall, SendReturned, FrameArrived, CallEnded] (ws_init None) sample_answered"
proof -
  let ?r = "reader_step (sample_ws_lib sample_ws_answer) sample_ws_config None [] 0 (TextFrame []) (sample_waiting sample_ws_answer)"
  have "ws_run (sample_ws_lib sample_ws_answer) sample_ws_config ([Connected, StartCall, SendReturned] @ [FrameArrived]) (ws_init None) ?r"
    by (rule ws_run.step [OF sample_waiting_run ws_step.frame]) (rule sample_waiting_fields)
  then have "ws_run (sample_ws_lib sample_ws_answer) sample_ws_config (([Connected, StartCall, SendReturned] @ [FrameArrived]) @ [CallEnded]) (ws_init None) sample_answered"
    unfolding sample_answered_def by (rule ws_run.step, intro ws_step.ends) (simp_all add: sample_answer_resolves)
  then show ?thesis by simp
qed

subsection \<open>Properties\<close>

text \<open>C22: However callers, the receive loop, timeouts, retransmissions and closing interleave, each call gets at most one result, and
  an envelope it returns came in a frame with the request identifier of this call and, if it is a response, carries the identifier of the envelope
  this call sent as its correlation identifier.\<close>

theorem ws_replies_answer_calls:
  assumes "ws_run lb cf evs (ws_init b) s"
  shows "distinct (map fst (wc_returned s)) \<and>
    (\<forall>(i, e, res) \<in> set (wc_returned s). \<forall>r. res = Inr r \<longrightarrow>
       (normalize_payload_type (payload_type r) \<in> RESPONSE_PAYLOAD_KEYS \<longrightarrow> correlation_id r = Some (shown (env_id e))) \<and>
       (\<exists>data d v new_id now. data \<in> set (wc_seen s) \<and> map_of data ''id'' = Some (PStr i) \<and> map_of data ''result'' = Some (PDict d) \<and>
          map_of d ''envelope'' = Some v \<and> model_validate lb new_id now v = Inr r))"
proof
  have inv: "call_inv lb s" using call_inv_run [OF assms call_inv_init] .
  then show "distinct (map fst (wc_returned s))" by (auto simp: call_inv_def names_inv_def call_names_def)
  from inv show "\<forall>(i, e, res) \<in> set (wc_returned s). \<forall>r. res = Inr r \<longrightarrow>
       (normalize_payload_type (payload_type r) \<in> RESPONSE_PAYLOAD_KEYS \<longrightarrow> correlation_id r = Some (shown (env_id e))) \<and>
       (\<exists>data d v new_id now. data \<in> set (wc_seen s) \<and> map_of data ''id'' = Some (PStr i) \<and> map_of data ''result'' = Some (PDict d) \<and>
          map_of d ''envelope'' = Some v \<and> model_validate lb new_id now v = Inr r)"
    unfolding call_inv_def returned_inv_def answers_def bound_to_def by blast
qed

theorem ws_replies_answer_calls_witness:
  "wc_returned sample_answered = [(request_name 1, sample_env, Inr sample_reply)] \<and> correlation_id sample_reply = Some (shown (env_id sample_env))"
proof -
  have returned: "wc_returned sample_answered = [(request_name 1, sample_env, Inr sample_reply)]"
    by (simp add: sample_answered_def end_call_def drop_pending_def sample_answer_resolves)
  have "normalize_payload_type (payload_type sample_reply) \<in> RESPONSE_PAYLOAD_KEYS" by code_simp
  with ws_replies_answer_calls [OF sample_answered_run] returned show ?thesis by auto
qed

text \<open>C24: Every envelope that waits for an acknowledgement is retransmitted at most \<open>max_ack_retries\<close> times with success, and its tracker
  counts exactly these retransmissions.\<close>

theorem retransmissions_within_budget:
  assumes "ws_run lb cf evs (ws_init b) s" "a < length (wc_acks s)"
  shows "pa_retries (wc_acks s ! a) = int (count_list (wc_resent s) a) \<and> count_list (wc_resent s) a \<le> nat (wf_max_ack_retries cf)"
proof -
  have "ack_inv cf s" using ack_inv_run [OF assms(1) ack_inv_init] .
  with assms(2) have "pa_retries (wc_acks s ! a) = int (count_list (wc_resent s) a)" "pa_retries (wc_acks s ! a) \<le> max 0 (wf_max_ack_retries cf)"
    by (auto simp: ack_inv_def ack_ok_def)
  then show ?thesis by (simp add: le_nat_iff max_def split: if_splits)
qed

theorem retransmissions_within_budget_witness:
  "pa_retries (wc_acks (sample_waiting PNone) ! 0) = 0 \<and> length (wc_acks (sample_waiting PNone)) = 1"
proof -
  have acks: "length (wc_acks (sample_waiting PNone)) = 1" "wc_resent (sample_waiting PNone) = []"
    by (simp_all add: sample_waiting_def finish_sending_def start_call_def hand_to_socket_def on_connected_def stop_checker_def ws_init_def
      register_future_def register_pending_ack_def requires_ack_for_def PAYLOAD_TYPES_REQUIRING_ACK_def sample_env_def Let_def)
  with retransmissions_within_budget [OF sample_waiting_run [of PNone sample_ws_config], of 0] show ?thesis by simp
qed

text \<open>Only successful retransmissions count: while sending raises, an envelope is tried again without bound, and its tracker never expires.\<close>

lemma failed_resends_never_count:
  assumes "0 < wf_max_ack_retries cf"
  shows "\<exists>evs s. ws_run (sample_ws_lib PNone) cf evs (ws_init None) s \<and> n \<le> length (wc_sent s) \<and>
    wc_pending_acks s = [(''i'', 0)] \<and> pa_retries (wc_acks s ! 0) = 0"
proof -
  let ?s = "sample_waiting PNone"
  have s: "wc_checker ?s" "wc_round ?s = None" "\<not> wc_resending ?s" "wc_pending_acks ?s = [(''i'', 0)]" "pa_retries (wc_acks ?s ! 0) = 0"
    by (simp_all add: sample_waiting_def finish_sending_def start_call_def hand_to_socket_def on_connected_def stop_checker_def ws_init_def
      register_future_def register_pending_ack_def requires_ack_for_def PAYLOAD_TYPES_REQUIRING_ACK_def sample_env_def Let_def)
  with failing_rounds [of ?s "''i''" 0 cf "sample_ws_lib PNone" n] sample_waiting_fields [of PNone] assms
  obtain evs s' where "ws_run (sample_ws_lib PNone) cf evs ?s s'" "length (wc_sent s') = length (wc_sent ?s) + n"
    "wc_pending_acks s' = [(''i'', 0)]" "wc_acks s' = wc_acks ?s" by auto
  with ws_run_trans [OF this(1) sample_waiting_run] s(5) show ?thesis by (metis le_add2)
qed

text \<open>C23: what \<open>close\<close> does to the callers, in every state the client can reach. Each call that is registered when \<open>close\<close> sweeps the pending
  requests has a result afterwards: the one its future had already, and otherwise the time-out that says the connection was closed. A caller that is still
  inside \<open>ws.send\<close> then is not reached by the sweep: if its send returns, it registers a new future, which is waiting, and
  it waits for its own time-out.\<close>

theorem close_releases_callers:
  assumes "ws_run lb cf evs (ws_init b) s"
  shows "wc_calls (fail_pending s) = wc_calls s \<and>
    (\<forall>(i, e, a) \<in> set (wc_calls s). future_result (wc_futures (fail_pending s) ! a) =
       Some (case future_result (wc_futures s ! a) of Some r \<Rightarrow> r | None \<Rightarrow> Inl (WsTimedOut ''Connection closed''))) \<and>
    wc_sending (fail_pending s) = wc_sending s \<and>
    (\<forall>i e now. (i, e, AwaitReply) \<in> set (wc_sending s) \<longrightarrow>
       (\<exists>a. (i, e, a) \<in> set (wc_calls (finish_sending now (i, e, AwaitReply) (fail_pending s))) \<and>
          wc_futures (finish_sending now (i, e, AwaitReply) (fail_pending s)) ! a = Waiting))"
proof (intro conjI ballI allI impI)
  show "wc_calls (fail_pending s) = wc_calls s" "wc_sending (fail_pending s) = wc_sending s" by (simp_all add: fail_pending_def)
  have inv: "call_inv lb s" "waiting_inv s"
    using call_inv_run [OF assms call_inv_init] waiting_inv_run [OF assms waiting_inv_init call_inv_init] by auto
  show "case c of (i, e, a) \<Rightarrow> future_result (wc_futures (fail_pending s) ! a) =
       Some (case future_result (wc_futures s ! a) of Some r \<Rightarrow> r | None \<Rightarrow> Inl (WsTimedOut ''Connection closed''))"
    if call: "c \<in> set (wc_calls s)" for c
  proof -
    obtain i e a where c: "c = (i, e, a)" by (cases c)
    have "a < length (wc_futures s)" "wc_futures s ! a = Waiting \<Longrightarrow> a \<in> set (map snd (wc_pending s))"
      using inv call c by (force simp: call_inv_def futures_inv_def waiting_inv_def dest: map_of_SomeD)+
    then show ?thesis by (cases "wc_futures s ! a") (auto simp: c fail_pending_def fold_fail_nth)
  qed
  show "\<exists>a. (i, e, a) \<in> set (wc_calls (finish_sending now (i, e, AwaitReply) (fail_pending s))) \<and>
      wc_futures (finish_sending now (i, e, AwaitReply) (fail_pending s)) ! a = Waiting" for i e now
    by (simp add: finish_sending_def register_future_def Let_def) fastforce
qed

theorem close_releases_callers_witness:
  "future_result (wc_futures (fail_pending (sample_waiting PNone)) ! 0) = Some (Inl (WsTimedOut ''Connection closed''))"
  using close_releases_callers [OF sample_waiting_run [of PNone sample_ws_config]] by (auto simp: sample_waiting_fields)

text \<open>One frame that is valid JSON but no object ends the receive loop for good: without automatic reconnection the transport still counts as
  connected, so \<open>connect\<close> does nothing, and until it is closed no call gets an answer that had not arrived before.\<close>

theorem malformed_frame_silences_transport:
  assumes "\<not> wf_reconnect cf" "ws_run lb cf evs (ws_init b) s" "wc_connected s" "\<not> wc_closed s"
    and "decode_frame_to_json lb raw = Inr (PList l)" "ws_run lb cf evs' (reader_step lb cf pong new_id now (TextFrame raw) s) s'" "CloseStarted \<notin> set evs'"
  shows "wc_connected s' \<and> \<not> wc_reader s' \<and>
    (\<forall>(i, e, res) \<in> set (wc_returned s'). \<forall>r. res = Inr r \<longrightarrow>
       (i, e, res) \<in> set (wc_returned s) \<or> (\<exists>a. (i, e, a) \<in> set (wc_calls s) \<and> wc_futures s ! a = Resolved r))"
proof -
  let ?old = "\<lambda>i e r. (i, e, Inr r) \<in> set (wc_returned s) \<or> (\<exists>a. (i, e, a) \<in> set (wc_calls s) \<and> wc_futures s ! a = Resolved r)"
  have inv: "call_inv lb s" using call_inv_run [OF assms(2) call_inv_init] .
  have step: "reader_step lb cf pong new_id now (TextFrame raw) s = reader_fails lb (lift_exn AttributeError) s"
    by (simp add: reader_step_def receive_frame_def assms(5))
  have "silent ?old s'"
    using silent_run [OF assms(6) _ _ assms(1,7)] reader_fails_silent [OF inv assms(3,4)] call_inv_reader_fails [OF inv]
    unfolding step by blast
  then show ?thesis unfolding silent_def by auto
qed

theorem malformed_frame_silences_transport_witness:
  "\<not> wc_reader (reader_step (sample_ws_lib (PList [])) sample_ws_config None [] 0 (TextFrame []) (sample_waiting (PList [])))"
proof -
  have "decode_frame_to_json (sample_ws_lib (PList [])) [] = Inr (PList [])" by (simp add: decode_frame_to_json_def sample_ws_lib_def)
  moreover have "\<not> wf_reconnect sample_ws_config" by (simp add: sample_ws_config_def)
  ultimately show ?thesis
    using malformed_frame_silences_transport [OF _ sample_waiting_run sample_waiting_fields(1,3) _ ws_run.stay] by fastforce
qed

end
