(* ===== verification/Ws_Server.thy ===== *)
theory Ws_Server
  imports Pipeline Oauth2 Rate_Limit Ws_Client
begin

text \<open>
  The server side of a WebSocket connection (\<open>src/asap/transport/ws/server.py\<close>, dispatch in \<open>ws/_dispatch.py\<close>, close actions
  in \<open>ws/_actions.py\<close>): admission with an OAuth2 token, the heartbeat, the per-connection rate limit, subscriptions,
  acknowledgements, and the way of a frame through the request pipeline to a handler and back.

  A session is the state of one connection with the server behind it. Sending fails once the peer is gone:
  \<open>ss_capacity\<close> is the number of frames the connection takes, without bound for \<open>None\<close>, and \<open>ss_broken\<close> the exception after that. A frame
  is recorded in \<open>ss_out\<close> by what it says, not by its JSON text. \<open>ws_serve\<close> runs a connection over what happens to it: frames, ticks of
  the heartbeat, disconnection. Ticks are taken between frames; logging and tracing contexts are left out.
\<close>

subsection \<open>Close actions\<close>

definition WS_CLOSE_GOING_AWAY :: int where "WS_CLOSE_GOING_AWAY = 1001"
definition WS_CLOSE_POLICY_VIOLATION :: int where "WS_CLOSE_POLICY_VIOLATION = 1008"
definition WS_CLOSE_AUTH_REQUIRED :: int where "WS_CLOSE_AUTH_REQUIRED = 4401"
definition STALE_CONNECTION_TIMEOUT :: rat where "STALE_CONNECTION_TIMEOUT = 90"
definition SLA_SUBSCRIBE_METHOD :: string where "SLA_SUBSCRIBE_METHOD = ''sla.subscribe''"
definition SLA_UNSUBSCRIBE_METHOD :: string where "SLA_UNSUBSCRIBE_METHOD = ''sla.unsubscribe''"

datatype close_action = CONTINUE | CLOSE_RATE_LIMITED | CLOSE_FATAL

definition ws_close_code :: "close_action \<Rightarrow> int" where
  "ws_close_code a = (if a = CLOSE_RATE_LIMITED then WS_CLOSE_POLICY_VIOLATION else WS_CLOSE_GOING_AWAY)"

subsection \<open>Sessions and frames\<close>

datatype ws_out =
    AckOut string string string string string "string option"
  | ReplyOut reply_body
  | ResultOut envelope pyval
  | ErrorOut int string pydict pyval
  | SubscribedOut bool pyval
  | PingOut

record ws_session =
  ss_out :: "ws_out list"
  ss_capacity :: "nat option"
  ss_broken :: exn
  ss_bucket :: "token_bucket option"
  ss_subscriptions :: bool
  ss_subscribed :: bool
  ss_active :: bool
  ss_last_received :: rat
  ss_closed :: bool
  ss_rpc :: rpc_server

text \<open>What the server reads of the clock and of the handshake while it handles a frame.\<close>

record frame_env =
  fe_now :: rat
  fe_new_id :: string
  fe_parse_time :: datetime
  fe_request :: rpc_req

type_synonym 'a ws_result = "(ws_session, exn, 'a) outcome"

definition send_text :: "ws_out \<Rightarrow> ws_session \<Rightarrow> unit ws_result" where
  "send_text f s =
     (if (case ss_capacity s of None \<Rightarrow> False | Some n \<Rightarrow> n \<le> length (ss_out s)) then (Inl (ss_broken s), s)
      else (Inr (), s\<lparr>ss_out := ss_out s @ [f]\<rparr>))"

definition on_rpc :: "(rpc_server \<Rightarrow> rpc_server) \<Rightarrow> ws_session \<Rightarrow> ws_session" where
  "on_rpc f s = s\<lparr>ss_rpc := f (ss_rpc s)\<rparr>"

subsection \<open>Admission\<close>

definition bearer_token_from_websocket :: "string option \<Rightarrow> string option" where
  "bearer_token_from_websocket auth =
     (case auth of
        None \<Rightarrow> None
      | Some a \<Rightarrow>
          if a = [] \<or> \<not> starts_with a ''Bearer '' then None
          else (let t = strip (drop 7 a) in if t = [] then None else Some t))"

text \<open>\<open>_enforce_ws_oauth2\<close>: the close code of a refusal, \<open>None\<close> for an admitted connection. The global scope is always enforced here.\<close>

definition enforce_ws_oauth2 ::
  "'k oauth_lib \<Rightarrow> oauth2_middleware \<Rightarrow> string option \<Rightarrow> rat \<Rightarrow> 'k key_fetch \<Rightarrow> 'k key_fetch \<Rightarrow> 'k key_cache \<Rightarrow> ('k key_cache, string, int option) outcome" where
  "enforce_ws_oauth2 lb m auth now f1 f2 c =
     (case bearer_token_from_websocket auth of
        None \<Rightarrow> (Inr (Some WS_CLOSE_AUTH_REQUIRED), c)
      | Some token \<Rightarrow>
          (case validate_bearer_token lb m True now f1 f2 token c of
             (Inl x, c1) \<Rightarrow> (Inl x, c1)
           | (Inr (Continue claims), c1) \<Rightarrow> (Inr None, c1)
           | (Inr (Refuse status detail), c1) \<Rightarrow> (Inr (Some WS_CLOSE_AUTH_REQUIRED), c1)))"

subsection \<open>Heartbeat\<close>

text \<open>One round of \<open>_heartbeat_loop\<close> after its sleep. Setting the event ends the task and nothing else.\<close>

definition heartbeat :: "rat \<Rightarrow> ws_session \<Rightarrow> ws_session" where
  "heartbeat now s =
     (if ss_closed s then s
      else if now - ss_last_received s > STALE_CONNECTION_TIMEOUT then s\<lparr>ss_closed := True\<rparr>
      else (case send_text PingOut s of (Inl x, s1) \<Rightarrow> s1\<lparr>ss_closed := True\<rparr> | (Inr u, s1) \<Rightarrow> s1))"

subsection \<open>Subscriptions\<close>

text \<open>\<open>method in self._handlers\<close> raises for a list or an object.\<close>

definition subscription_method :: "pydict \<Rightarrow> exn + bool option" where
  "subscription_method data =
     (case get_or data ''method'' PNone of
        PStr m \<Rightarrow> Inr (if m = SLA_SUBSCRIBE_METHOD then Some True else if m = SLA_UNSUBSCRIBE_METHOD then Some False else None)
      | PList l \<Rightarrow> Inl (lift_exn TypeError)
      | PDict d \<Rightarrow> Inl (lift_exn TypeError)
      | _ \<Rightarrow> Inr None)"

definition handle_subscription :: "bool \<Rightarrow> pyval \<Rightarrow> ws_session \<Rightarrow> unit ws_result" where
  "handle_subscription sub request_id s = send_text (SubscribedOut sub request_id) (s\<lparr>ss_subscribed := sub\<rparr>)"

text \<open>\<open>broadcast_sla_breach\<close>: \<open>outcome\<close> is what sending to a subscriber raises. Other exceptions than the two caught ones reach the caller.\<close>

definition broadcast_sla_breach :: "(nat \<Rightarrow> exn option) \<Rightarrow> nat list \<Rightarrow> exn option \<times> nat list" where
  "broadcast_sla_breach outcome subscribers =
     (let caught = (\<lambda>x. exn_type x \<in> {''RuntimeError'', ''OSError''});
          bad = filter (\<lambda>w. case outcome w of Some x \<Rightarrow> \<not> caught x | None \<Rightarrow> False) subscribers
      in (case bad of [] \<Rightarrow> None | w # ws \<Rightarrow> outcome w,
          filter (\<lambda>w. case outcome w of Some x \<Rightarrow> \<not> caught x | None \<Rightarrow> True) subscribers))"

subsection \<open>Acknowledgements\<close>

text \<open>Only a \<open>ValidationError\<close> is caught; the \<open>AttributeError\<close> of a payload type that is no string is not.\<close>

definition extract_envelope_for_ack :: "rpc_lib \<Rightarrow> frame_env \<Rightarrow> pydict \<Rightarrow> exn + envelope option" where
  "extract_envelope_for_ack lb fe data =
     (case get_or data ''params'' PNone of
        PDict params \<Rightarrow>
          (case get_or params ''envelope'' PNone of
             PDict d \<Rightarrow>
               (case envelope_from_dict (rl_envelope lb) (rl_validator_errors lb) (fe_new_id fe) (fe_parse_time fe) d of
                  Inl x \<Rightarrow> Inl x
                | Inr (Inl errs) \<Rightarrow> Inr None
                | Inr (Inr e) \<Rightarrow> Inr (Some e))
           | _ \<Rightarrow> Inr None)
      | _ \<Rightarrow> Inr None)"

definition send_ack :: "string \<Rightarrow> string option \<Rightarrow> envelope option \<Rightarrow> ws_session \<Rightarrow> unit ws_result" where
  "send_ack status err ack s =
     (case ack of
        None \<Rightarrow> (Inr (), s)
      | Some e \<Rightarrow>
          (case env_id e of
             None \<Rightarrow> (Inr (), s)
           | Some i \<Rightarrow> if \<not> requires_ack e \<or> i = [] then (Inr (), s)
                       else send_text (AckOut i status (recipient e) (sender e) (asap_version e) err) s))"

definition maybe_send_received_ack :: "envelope option \<Rightarrow> ws_session \<Rightarrow> unit ws_result" where
  "maybe_send_received_ack ack s = send_ack ''received'' None ack s"

definition send_ws_dispatch_failure :: "envelope option \<Rightarrow> string \<Rightarrow> ws_session \<Rightarrow> unit ws_result" where
  "send_ws_dispatch_failure ack err s = send_ack ''rejected'' (Some err) ack s"

subsection \<open>Answers\<close>

text \<open>The identifier as the response models take it: \<open>str | int\<close>.\<close>

definition wire_id :: "pyval \<Rightarrow> exn + pyval" where
  "wire_id v = (case coerce_id v of None \<Rightarrow> Inl (OtherExn ''ValidationError'' ''id'') | Some (IdStr s) \<Rightarrow> Inr (PStr s) | Some (IdInt i) \<Rightarrow> Inr (PInt i))"

definition send_ws_result_frame :: "rpc_lib \<Rightarrow> envelope \<Rightarrow> pyval \<Rightarrow> ws_session \<Rightarrow> unit ws_result" where
  "send_ws_result_frame lb r response_id s =
     (case wire_id response_id of Inl x \<Rightarrow> (Inl x, s) | Inr i \<Rightarrow> send_text (ResultOut (rl_inject_trace lb r) i) s)"

definition send_ws_asap_error_frame ::
  "rpc_lib \<Rightarrow> rpc_req \<Rightarrow> prepared_request \<Rightarrow> string \<Rightarrow> asap_error \<times> string \<Rightarrow> ws_session \<Rightarrow> unit ws_result" where
  "send_ws_asap_error_frame lb rq p pt err s =
     (case err of (e, msg) \<Rightarrow>
        (let s1 = on_rpc (record_error_metrics pt (class_name (ae_class e)) (rr_duration rq)) s
         in case build_jsonrpc_error_for_asap_exception lb e (Some (jr_id (pr_rpc p))) [(''error'', PStr msg)] of
              Inl x \<Rightarrow> (Inl x, s1)
            | Inr r \<Rightarrow> send_text (ReplyOut (rp_body r)) s1))"

text \<open>The metrics of an internal error: the payload type is not normalised here.\<close>

definition internal_ws_metrics :: "string \<Rightarrow> rat \<Rightarrow> collector \<Rightarrow> collector" where
  "internal_ws_metrics pt duration m =
     observe_histogram ''asap_request_duration_seconds'' duration (Some [(''payload_type'', pt), (''status'', ''error'')])
       (increment_counter ''asap_requests_error_total'' (Some [(''payload_type'', pt), (''error_type'', ''internal_error'')]) 1
         (increment_counter ''asap_requests_total'' (Some [(''payload_type'', pt), (''status'', ''error'')]) 1 m))"

definition send_internal_error_frame ::
  "rpc_config \<Rightarrow> rpc_req \<Rightarrow> bool \<Rightarrow> string \<Rightarrow> exn \<Rightarrow> pyval \<Rightarrow> ws_session \<Rightarrow> close_action \<times> ws_session" where
  "send_internal_error_frame cf rq prepared pt x response_id s =
     (let s1 = (if prepared then on_rpc (on_metrics (internal_ws_metrics pt (rr_duration rq))) s else s);
          data = (if cf_debug cf then [(''error'', PStr (exn_text x)), (''type'', PStr (exn_type x))] else [(''error'', PStr ''Internal server error'')])
      in case send_text (ErrorOut INTERNAL_ERROR ''Internal error'' data response_id) s1 of
           (Inl e, s2) \<Rightarrow> (CLOSE_FATAL, s2)
         | (Inr u, s2) \<Rightarrow> (CONTINUE, s2))"

definition first_truthy :: "pydict \<Rightarrow> string list \<Rightarrow> pyval \<Rightarrow> pyval" where
  "first_truthy d ks v = (case filter (\<lambda>k. py_truthy (get_or d k PNone)) ks of [] \<Rightarrow> v | k # _ \<Rightarrow> get_or d k PNone)"

text \<open>\<open>_send_ws_recoverable_error_frame\<close>: the body of an HTTP 503 as a JSON-RPC error.\<close>

definition recoverable_error_frame :: "rpc_lib \<Rightarrow> pydict \<Rightarrow> pyval \<Rightarrow> exn + ws_out" where
  "recoverable_error_frame lb raw response_id =
     (case (py_int (first_truthy raw [''rpc_code'', ''code''] (PInt INTERNAL_ERROR)), wire_id response_id) of
        (Inl x, _) \<Rightarrow> Inl (lift_exn x)
      | (Inr code, Inl x) \<Rightarrow> Inl x
      | (Inr code, Inr i) \<Rightarrow>
          Inr (ErrorOut code (py_str (rl_str lb) (first_truthy raw [''message''] (PStr ''Service Temporarily Unavailable'')))
            ([(''recoverable'', PBool (py_truthy (get_or raw ''recoverable'' (PBool True))))] @
             (if get_or raw ''retry_after_ms'' PNone \<noteq> PNone then [(''retry_after_ms'', get_or raw ''retry_after_ms'' PNone)] else []) @
             (if get_or raw ''fallback_action'' PNone \<noteq> PNone then [(''fallback_action'', get_or raw ''fallback_action'' PNone)] else []) @
             (if py_truthy (get_or raw ''details'' PNone) then [(''details'', get_or raw ''details'' PNone)] else [])) i))"

definition forward_reply :: "rpc_lib \<Rightarrow> reply \<Rightarrow> pyval \<Rightarrow> ws_session \<Rightarrow> unit ws_result" where
  "forward_reply lb r response_id s =
     (case (rp_status r = 503, rp_body r) of
        (True, PlainBody raw) \<Rightarrow> (case recoverable_error_frame lb raw response_id of Inl x \<Rightarrow> (Inl x, s) | Inr f \<Rightarrow> send_text f s)
      | _ \<Rightarrow> send_text (ReplyOut (rp_body r)) s)"

subsection \<open>Dispatch\<close>

definition record_ws_success :: "rpc_lib \<Rightarrow> rpc_req \<Rightarrow> envelope \<Rightarrow> envelope \<Rightarrow> rpc_server \<Rightarrow> rpc_server" where
  "record_ws_success lb rq e r s =
     audit_log_operation lb rq e r
       (on_metrics (success_metrics (normalize_payload_type_for_metrics (ds_registry s) (payload_type e)) (rr_duration rq)) s)"

definition record_ws_stream_success :: "rpc_req \<Rightarrow> envelope \<Rightarrow> rpc_server \<Rightarrow> rpc_server" where
  "record_ws_stream_success rq e s =
     on_metrics (success_metrics (normalize_payload_type_for_metrics (ds_registry s) (payload_type e)) (rr_duration rq)) s"

fun send_chunks :: "rpc_lib \<Rightarrow> pyval \<Rightarrow> envelope list \<Rightarrow> ws_session \<Rightarrow> unit ws_result" where
  "send_chunks lb response_id [] s = (Inr (), s)"
| "send_chunks lb response_id (r # rs) s =
     (case send_ws_result_frame lb r response_id s of
        (Inl x, s1) \<Rightarrow> (Inl x, s1)
      | (Inr u, s1) \<Rightarrow> send_chunks lb response_id rs s1)"

definition stream_failed ::
  "rpc_lib \<Rightarrow> rpc_config \<Rightarrow> rpc_req \<Rightarrow> prepared_request \<Rightarrow> exn \<Rightarrow> pyval \<Rightarrow> ws_session \<Rightarrow> unit ws_result" where
  "stream_failed lb cf rq p x response_id s =
     (let pt = payload_type (pr_envelope p)
      in case asap_exn x of
           Some err \<Rightarrow> send_ws_asap_error_frame lb rq p pt err s
         | None \<Rightarrow> (Inr (), snd (send_internal_error_frame cf rq True pt x response_id s)))"

text \<open>When a frame cannot be sent the handler is abandoned in the middle: its metrics are not recorded.\<close>

definition run_ws_stream_dispatch ::
  "rpc_lib \<Rightarrow> rpc_config \<Rightarrow> rpc_req \<Rightarrow> prepared_request \<Rightarrow> pyval \<Rightarrow> ws_session \<Rightarrow> unit ws_result" where
  "run_ws_stream_dispatch lb cf rq p response_id s =
     (case dispatch_stream_async (rr_handler_ms rq) (cf_manifest cf) (pr_envelope p) (ss_rpc s) of
        ((es, fin), rpc1) \<Rightarrow>
          (case send_chunks lb response_id es s of
             (Inl x, s1) \<Rightarrow> stream_failed lb cf rq p x response_id (on_rpc (log_call (pr_envelope p)) s1)
           | (Inr u, s1) \<Rightarrow>
               (case fin of
                  Some x \<Rightarrow> stream_failed lb cf rq p x response_id (s1\<lparr>ss_rpc := rpc1\<rparr>)
                | None \<Rightarrow> (Inr (), s1\<lparr>ss_rpc := record_ws_stream_success rq (pr_envelope p) rpc1\<rparr>))))"

definition run_ws_dispatch ::
  "rpc_lib \<Rightarrow> rpc_config \<Rightarrow> rpc_req \<Rightarrow> prepared_request \<Rightarrow> pyval \<Rightarrow> ws_session \<Rightarrow> unit ws_result" where
  "run_ws_dispatch lb cf rq p response_id s =
     (if has_streaming_handler (payload_type (pr_envelope p)) (ds_registry (ss_rpc s)) then run_ws_stream_dispatch lb cf rq p response_id s
      else (case dispatch_to_handler lb cf rq p (ss_rpc s) of
              (Inl x, r1) \<Rightarrow> (Inl x, s\<lparr>ss_rpc := r1\<rparr>)
            | (Inr (Inl reply), r1) \<Rightarrow> forward_reply lb reply response_id (s\<lparr>ss_rpc := r1\<rparr>)
            | (Inr (Inr r), r1) \<Rightarrow> send_ws_result_frame lb r response_id (s\<lparr>ss_rpc := record_ws_success lb rq (pr_envelope p) r r1\<rparr>)))"

definition synthesize_ws_request :: "bytes \<Rightarrow> frame_env \<Rightarrow> rpc_req" where
  "synthesize_ws_request raw fe = (fe_request fe)\<lparr>rr_chunks := [raw]\<rparr>"

text \<open>The two \<open>except\<close> clauses of \<open>_dispatch_ws_envelope\<close>. What a clause raises itself is not caught.\<close>

definition ws_dispatch_failed ::
  "rpc_lib \<Rightarrow> rpc_config \<Rightarrow> rpc_req \<Rightarrow> prepared_request option \<Rightarrow> envelope option \<Rightarrow> exn \<Rightarrow> pyval \<Rightarrow> ws_session \<Rightarrow> close_action ws_result" where
  "ws_dispatch_failed lb cf rq prepared ack x response_id s =
     (let pt = (case ack of None \<Rightarrow> [] | Some e \<Rightarrow> payload_type e)
      in case asap_exn x of
           Some err \<Rightarrow>
             (case send_ws_dispatch_failure ack (snd err) s of
                (Inl y, s1) \<Rightarrow> (Inl y, s1)
              | (Inr u, s1) \<Rightarrow>
                  (case prepared of
                     None \<Rightarrow> (Inr CONTINUE, s1)
                   | Some p \<Rightarrow> (case send_ws_asap_error_frame lb rq p pt err s1 of (Inl y, s2) \<Rightarrow> (Inl y, s2) | (Inr u, s2) \<Rightarrow> (Inr CONTINUE, s2))))
         | None \<Rightarrow>
             (case send_ws_dispatch_failure ack (exn_text x) s of
                (Inl y, s1) \<Rightarrow> (Inl y, s1)
              | (Inr u, s1) \<Rightarrow> (case send_internal_error_frame cf rq (prepared \<noteq> None) pt x response_id s1 of (a, s2) \<Rightarrow> (Inr a, s2))))"

definition dispatch_ws_envelope ::
  "rpc_lib \<Rightarrow> rpc_config \<Rightarrow> frame_env \<Rightarrow> bytes \<Rightarrow> pydict \<Rightarrow> envelope option \<Rightarrow> ws_session \<Rightarrow> close_action ws_result" where
  "dispatch_ws_envelope lb cf fe raw data ack s =
     (let rq = synthesize_ws_request raw fe;
          response_id = (case get_or data ''id'' PNone of PNone \<Rightarrow> PStr [] | v \<Rightarrow> v)
      in case prepare_request lb cf rq (ss_rpc s) of
           (Inl x, r1) \<Rightarrow> ws_dispatch_failed lb cf rq None ack x response_id (s\<lparr>ss_rpc := r1\<rparr>)
         | (Inr (Inl reply), r1) \<Rightarrow>
             (case send_text (ReplyOut (rp_body reply)) (s\<lparr>ss_rpc := r1\<rparr>) of
                (Inl x, s1) \<Rightarrow> ws_dispatch_failed lb cf rq None ack x response_id s1
              | (Inr u, s1) \<Rightarrow> (Inr CONTINUE, s1))
         | (Inr (Inr p), r1) \<Rightarrow>
             (case run_ws_dispatch lb cf rq p response_id (s\<lparr>ss_rpc := r1\<rparr>) of
                (Inl x, s1) \<Rightarrow> ws_dispatch_failed lb cf rq (Some p) ack x response_id s1
              | (Inr u, s1) \<Rightarrow> (Inr CONTINUE, s1)))"

subsection \<open>A frame\<close>

definition rate_limit_frame :: "pydict \<Rightarrow> ws_out" where
  "rate_limit_frame data = ErrorOut (-32001) ''Rate limit exceeded; too many messages per second'' [] (get_or data ''id'' PNone)"

text \<open>Behind the rate limit.\<close>

definition serve_envelope ::
  "rpc_lib \<Rightarrow> rpc_config \<Rightarrow> frame_env \<Rightarrow> bytes \<Rightarrow> pydict \<Rightarrow> ws_session \<Rightarrow> close_action ws_result" where
  "serve_envelope lb cf fe raw data s =
     (case extract_envelope_for_ack lb fe data of
        Inl x \<Rightarrow> (Inl x, s)
      | Inr ack \<Rightarrow>
          (case maybe_send_received_ack ack s of
             (Inl x, s1) \<Rightarrow> (Inl x, s1)
           | (Inr u, s1) \<Rightarrow> dispatch_ws_envelope lb cf fe raw data ack s1))"

definition limit_rate :: "rat \<Rightarrow> ws_session \<Rightarrow> bool \<times> ws_session" where
  "limit_rate now s =
     (case ss_bucket s of
        None \<Rightarrow> (True, s)
      | Some b \<Rightarrow> (case tb_consume now 1 b of (ok, b') \<Rightarrow> (ok, s\<lparr>ss_bucket := Some b'\<rparr>)))"

text \<open>JSON that is no object costs a token like any other frame; reading its fields then raises, limited or not.\<close>

definition process_ws_message ::
  "rpc_lib \<Rightarrow> rpc_config \<Rightarrow> frame_env \<Rightarrow> bytes \<Rightarrow> ws_session \<Rightarrow> close_action ws_result" where
  "process_ws_message lb cf fe raw s =
     (case rl_loads lb raw of
        Inl (BadJson x) \<Rightarrow> (Inr CONTINUE, s)
      | Inl f \<Rightarrow> (Inl (json_exn f), s)
      | Inr (PDict data) \<Rightarrow>
          if is_heartbeat_pong data then (Inr CONTINUE, s)
          else (case (if ss_subscriptions s then subscription_method data else Inr None) of
                  Inl x \<Rightarrow> (Inl x, s)
                | Inr (Some sub) \<Rightarrow>
                    (case handle_subscription sub (get_or data ''id'' PNone) s of (Inl x, s1) \<Rightarrow> (Inl x, s1) | (Inr u, s1) \<Rightarrow> (Inr CONTINUE, s1))
                | Inr None \<Rightarrow>
                    (case limit_rate (fe_now fe) s of
                       (False, s1) \<Rightarrow>
                         (case send_text (rate_limit_frame data) s1 of (Inl x, s2) \<Rightarrow> (Inl x, s2) | (Inr u, s2) \<Rightarrow> (Inr CLOSE_RATE_LIMITED, s2))
                     | (True, s1) \<Rightarrow> serve_envelope lb cf fe raw data s1))
      | Inr v \<Rightarrow> (Inl (lift_exn AttributeError), snd (limit_rate (fe_now fe) s)))"

subsection \<open>A connection\<close>

datatype ws_input = Incoming frame_env bytes | HeartbeatTick rat | Disconnected

definition teardown :: "ws_session \<Rightarrow> ws_session" where
  "teardown s = s\<lparr>ss_closed := True, ss_active := False, ss_subscribed := False\<rparr>"

text \<open>One round of \<open>_ws_receive_loop\<close>: the action that ends it, if it ends. An exception ends it as \<open>CLOSE_FATAL\<close>, the initial value of the action.\<close>

definition ws_receive :: "rpc_lib \<Rightarrow> rpc_config \<Rightarrow> frame_env \<Rightarrow> bytes \<Rightarrow> ws_session \<Rightarrow> close_action option \<times> ws_session" where
  "ws_receive lb cf fe raw s =
     (case process_ws_message lb cf fe raw (s\<lparr>ss_last_received := fe_now fe\<rparr>) of
        (Inl x, s1) \<Rightarrow> (Some CLOSE_FATAL, s1)
      | (Inr CONTINUE, s1) \<Rightarrow> (if ss_closed s1 then Some CONTINUE else None, s1)
      | (Inr a, s1) \<Rightarrow> (Some a, s1))"

text \<open>\<open>handle_websocket_connection\<close> after admission. The code the connection is closed with, or \<open>None\<close> while it is open: between two rounds the loop is blocked in
  \<open>receive_text\<close>, which the event of the heartbeat does not interrupt.\<close>

fun ws_serve :: "rpc_lib \<Rightarrow> rpc_config \<Rightarrow> ws_input list \<Rightarrow> ws_session \<Rightarrow> int option \<times> ws_session" where
  "ws_serve lb cf [] s = (None, s)"
| "ws_serve lb cf (Incoming fe raw # ins) s =
     (case ws_receive lb cf fe raw s of
        (None, s1) \<Rightarrow> ws_serve lb cf ins s1
      | (Some a, s1) \<Rightarrow> (Some (ws_close_code a), teardown s1))"
| "ws_serve lb cf (HeartbeatTick now # ins) s = ws_serve lb cf ins (heartbeat now s)"
| "ws_serve lb cf (Disconnected # ins) s = (Some (ws_close_code CLOSE_FATAL), teardown s)"

text \<open>A limit that is absent or not positive means no bucket; the default capacity is the rate.\<close>

definition session_init :: "rat \<Rightarrow> rat option \<Rightarrow> bool \<Rightarrow> nat option \<Rightarrow> exn \<Rightarrow> rpc_server \<Rightarrow> ws_session" where
  "session_init now limit subscriptions capacity broken rpc =
     \<lparr>ss_out = [], ss_capacity = capacity, ss_broken = broken,
      ss_bucket = (case limit of None \<Rightarrow> None | Some r \<Rightarrow> if 0 < r then (case tb_init r None now of Inr b \<Rightarrow> Some b | Inl x \<Rightarrow> None) else None),
      ss_subscriptions = subscriptions, ss_subscribed = False, ss_active = True, ss_last_received = now, ss_closed = False, ss_rpc = rpc\<rparr>"

subsection \<open>What answering leaves alone\<close>

text \<open>Sending changes only the frames; recording metrics and audit entries changes neither the calls, nor the nonces, nor the handlers.\<close>

definition core :: "ws_session \<Rightarrow> envelope list \<times> nonce_store option \<times> handler_registry \<times> token_bucket option" where
  "core s = (ds_calls (ss_rpc s), rs_nonces (ss_rpc s), ds_registry (ss_rpc s), ss_bucket s)"

lemma send_text_core [simp]: "core (snd (send_text f s)) = core s" "ss_rpc (snd (send_text f s)) = ss_rpc s"
  by (simp_all add: send_text_def core_def)

lemma send_ack_core [simp]: "core (snd (send_ack st err ack s)) = core s" "ss_rpc (snd (send_ack st err ack s)) = ss_rpc s"
  by (simp_all add: send_ack_def split: option.splits)

lemma send_ws_result_frame_core [simp]: "core (snd (send_ws_result_frame lb r i s)) = core s" "ss_rpc (snd (send_ws_result_frame lb r i s)) = ss_rpc s"
  by (simp_all add: send_ws_result_frame_def split: sum.splits)

lemma on_metrics_core [simp]:
  "ds_calls (on_metrics f r) = ds_calls r" "ds_registry (on_metrics f r) = ds_registry r" "rs_nonces (on_metrics f r) = rs_nonces r"
  by (simp_all add: on_metrics_def)

lemma record_core [simp]:
  "core (on_rpc (record_error_metrics pt t d) s) = core s" "core (on_rpc (on_metrics f) s) = core s"
  "core (s\<lparr>ss_rpc := record_ws_success lb rq e r rpc1\<rparr>) = core (s\<lparr>ss_rpc := rpc1\<rparr>)"
  "core (s\<lparr>ss_rpc := record_ws_stream_success rq e rpc1\<rparr>) = core (s\<lparr>ss_rpc := rpc1\<rparr>)"
  by (simp_all add: core_def on_rpc_def record_error_metrics_def record_ws_success_def record_ws_stream_success_def audit_log_operation_def split: option.splits)

lemma send_ws_asap_error_frame_core [simp]: "core (snd (send_ws_asap_error_frame lb rq p pt err s)) = core s"
  by (simp add: send_ws_asap_error_frame_def Let_def split: prod.split sum.split)

text \<open>An operation followed by what depends on how it ended.\<close>

lemma core_chain:
  assumes "core (snd m) = core s" "\<And>x t. core t = core s \<Longrightarrow> core (snd (f x t)) = core s" "\<And>u t. core t = core s \<Longrightarrow> core (snd (g u t)) = core s"
  shows "core (snd (case m of (Inl x, t) \<Rightarrow> f x t | (Inr u, t) \<Rightarrow> g u t)) = core s"
  using assms by (cases m; cases "fst m") auto

lemma send_internal_error_frame_core [simp]: "core (snd (send_internal_error_frame cf rq b pt x i s)) = core s"
  unfolding send_internal_error_frame_def Let_def by (rule core_chain) simp_all

lemma send_chunks_core [simp]: "core (snd (send_chunks lb i es s)) = core s \<and> ss_rpc (snd (send_chunks lb i es s)) = ss_rpc s"
proof (induction es arbitrary: s)
  case (Cons r es)
  obtain out s1 where step: "send_ws_result_frame lb r i s = (out, s1)" by fastforce
  then have "core s1 = core s" "ss_rpc s1 = ss_rpc s" using send_ws_result_frame_core [of lb r i s] by simp_all
  with Cons.IH [of s1] step show ?case by (cases out) simp_all
qed simp

lemma forward_reply_core [simp]: "core (snd (forward_reply lb r i s)) = core s"
  by (simp add: forward_reply_def split: bool.splits reply_body.splits sum.splits)

lemma stream_failed_core [simp]: "core (snd (stream_failed lb cf rq p x i s)) = core s"
  by (simp add: stream_failed_def Let_def split: option.splits)

lemma send_ws_dispatch_failure_core [simp]: "core (snd (send_ws_dispatch_failure ack t s)) = core s"
  by (simp add: send_ws_dispatch_failure_def)

lemma ws_dispatch_failed_core: "core (snd (ws_dispatch_failed lb cf rq p ack x i s)) = core s"
proof -
  have err: "core (snd (case send_ws_asap_error_frame lb rq q pt e t of (Inl y, s2) \<Rightarrow> (Inl y, s2) | (Inr u, s2) \<Rightarrow> (Inr CONTINUE, s2))) = core s"
    if "core t = core s" for q pt e t
    using that by (intro core_chain) simp_all
  have int: "core (snd (case send_internal_error_frame cf rq b pt x i t of (a, s2) \<Rightarrow> (Inr a, s2))) = core s" if "core t = core s" for b pt t
    using that by (simp add: case_prod_beta)
  show ?thesis
    unfolding ws_dispatch_failed_def Let_def
  proof (cases "asap_exn x"; simp only: option.case)
    case None
    show "core (snd (case send_ws_dispatch_failure ack (exn_text x) s of (Inl y, s1) \<Rightarrow> (Inl y, s1)
        | (Inr u, s1) \<Rightarrow> (case send_internal_error_frame cf rq (p \<noteq> None) (case ack of None \<Rightarrow> [] | Some e \<Rightarrow> payload_type e) x i s1 of (a, s2) \<Rightarrow> (Inr a, s2)))) = core s"
      by (rule core_chain) (simp_all add: int)
  next
    case (Some e)
    show "core (snd (case send_ws_dispatch_failure ack (snd e) s of (Inl y, s1) \<Rightarrow> (Inl y, s1)
        | (Inr u, s1) \<Rightarrow> (case p of None \<Rightarrow> (Inr CONTINUE, s1)
          | Some p \<Rightarrow> (case send_ws_asap_error_frame lb rq p (case ack of None \<Rightarrow> [] | Some e \<Rightarrow> payload_type e) e s1 of (Inl y, s2) \<Rightarrow> (Inl y, s2)
             | (Inr u, s2) \<Rightarrow> (Inr CONTINUE, s2))))) = core s"
      by (rule core_chain) (simp_all add: err split: option.split)
  qed
qed

subsection \<open>Handlers run after all checks\<close>

lemma dispatch_to_handler_core:
  assumes "dispatch_to_handler lb cf rq p r = (out, r')"
  shows "rs_nonces r' = rs_nonces r \<and> (ds_calls r' = ds_calls r \<or> ds_calls r' = ds_calls r @ [pr_envelope p] \<and> has_handler (payload_type (pr_envelope p)) (ds_registry r))"
proof -
  from assms obtain res r1 where eff: "dispatch_async (rl_str lb) (rr_meter_time rq) (rr_handler_ms rq) (cf_manifest cf) (pr_envelope p) r = (res, r1)"
    "ds_calls r' = ds_calls r1" "rs_nonces r' = rs_nonces r1" by (rule dispatch_to_handler_effect)
  moreover have "rs_nonces r1 = rs_nonces r" using dispatch_async_effect(2) [OF eff(1)] by (cases r1; cases r) auto
  ultimately show ?thesis using dispatch_async_effect(4) [OF eff(1)] by simp
qed

lemma dispatch_stream_core:
  assumes "dispatch_stream_async d mf e r = (out, r')"
  shows "rs_nonces r' = rs_nonces r \<and> (ds_calls r' = ds_calls r \<or> ds_calls r' = ds_calls r @ [e])"
  using assms by (auto simp: dispatch_stream_async_def log_call_def Let_def split: option.splits prod.splits)

text \<open>How much a step called handlers, and what it did to the bucket.\<close>

definition called_at_most :: "envelope \<Rightarrow> bool \<Rightarrow> ws_session \<Rightarrow> ws_session \<Rightarrow> bool" where
  "called_at_most e registered s s' \<longleftrightarrow> ss_bucket s' = ss_bucket s \<and> rs_nonces (ss_rpc s') = rs_nonces (ss_rpc s) \<and>
     (ds_calls (ss_rpc s') = ds_calls (ss_rpc s) \<or> ds_calls (ss_rpc s') = ds_calls (ss_rpc s) @ [e] \<and> registered)"

lemma called_at_most_core: "core t' = core t \<Longrightarrow> called_at_most e b s t \<Longrightarrow> called_at_most e b s t'"
  by (simp add: called_at_most_def core_def)

lemma run_ws_dispatch_calls:
  "called_at_most (pr_envelope p)
     (has_handler (payload_type (pr_envelope p)) (ds_registry (ss_rpc s)) \<or> has_streaming_handler (payload_type (pr_envelope p)) (ds_registry (ss_rpc s)))
     s (snd (run_ws_dispatch lb cf rq p i s))"
proof (cases "has_streaming_handler (payload_type (pr_envelope p)) (ds_registry (ss_rpc s))")
  case True
  obtain es fin r1 where disp: "dispatch_stream_async (rr_handler_ms rq) (cf_manifest cf) (pr_envelope p) (ss_rpc s) = ((es, fin), r1)"
    by (metis prod.collapse)
  obtain out s1 where chunks: "send_chunks lb i es s = (out, s1)" by fastforce
  with send_chunks_core [of lb i es s] have s1: "ss_bucket s1 = ss_bucket s" "ss_rpc s1 = ss_rpc s" by (simp_all add: core_def)
  have a: "called_at_most (pr_envelope p) True s (s1\<lparr>ss_rpc := r1\<rparr>)"
    using dispatch_stream_core [OF disp] s1 by (simp add: called_at_most_def)
  have b: "called_at_most (pr_envelope p) True s (on_rpc (log_call (pr_envelope p)) s1)"
    using s1 by (simp add: called_at_most_def on_rpc_def log_call_def)
  have "called_at_most (pr_envelope p) True s (snd (run_ws_stream_dispatch lb cf rq p i s))"
    using disp chunks a b
    by (auto simp: run_ws_stream_dispatch_def split: sum.splits option.splits intro: called_at_most_core [OF stream_failed_core] called_at_most_core [OF record_core(4)])
  with True show ?thesis by (simp add: run_ws_dispatch_def)
next
  case False
  obtain out r1 where disp: "dispatch_to_handler lb cf rq p (ss_rpc s) = (out, r1)" by fastforce
  have a: "called_at_most (pr_envelope p) (has_handler (payload_type (pr_envelope p)) (ds_registry (ss_rpc s))) s (s\<lparr>ss_rpc := r1\<rparr>)"
    using dispatch_to_handler_core [OF disp] by (simp add: called_at_most_def)
  with False disp show ?thesis
    by (auto simp: run_ws_dispatch_def split: sum.splits
      intro: called_at_most_core [OF forward_reply_core] called_at_most_core [OF trans [OF send_ws_result_frame_core(1) record_core(3)]])
qed

definition passed_checks :: "rpc_lib \<Rightarrow> rpc_config \<Rightarrow> rpc_req \<Rightarrow> rpc_server \<Rightarrow> rpc_server \<Rightarrow> bool" where
  "passed_checks lb cf rq r r' \<longleftrightarrow>
     (\<exists>p r1. prepare_request lb cf rq r = (Inr (Inr p), r1) \<and> ds_calls r' = ds_calls r @ [pr_envelope p] \<and> rs_nonces r' = rs_nonces r1 \<and>
        (has_handler (payload_type (pr_envelope p)) (ds_registry r) \<or> has_streaming_handler (payload_type (pr_envelope p)) (ds_registry r)))"

lemma dispatch_ws_envelope_calls:
  assumes s'_def: "s' = snd (dispatch_ws_envelope lb cf fe raw data ack s)"
  shows "ss_bucket s' = ss_bucket s \<and>
    (ds_calls (ss_rpc s') = ds_calls (ss_rpc s) \<or> passed_checks lb cf (synthesize_ws_request raw fe) (ss_rpc s) (ss_rpc s'))"
proof -
  let ?rq = "synthesize_ws_request raw fe"
  let ?i = "case get_or data ''id'' PNone of PNone \<Rightarrow> PStr [] | v \<Rightarrow> v"
  obtain out r1 where prep: "prepare_request lb cf ?rq (ss_rpc s) = (out, r1)" by fastforce
  have q: "ds_calls r1 = ds_calls (ss_rpc s)" "ds_registry r1 = ds_registry (ss_rpc s)"
    using prepare_request_quiet [of lb "ss_rpc s" cf ?rq] prep by (auto simp: quiet_def)
  let ?s = "s\<lparr>ss_rpc := r1\<rparr>"
  have same: "ss_bucket t = ss_bucket s \<and> ds_calls (ss_rpc t) = ds_calls (ss_rpc s)" if "core t = core ?s" for t
    using that q by (simp add: core_def)
  consider (raised) x where "out = Inl x" | (refused) r where "out = Inr (Inl r)" | (prepared) p where "out = Inr (Inr p)"
    by (metis sum.exhaust)
  then show ?thesis
  proof cases
    case raised
    with prep same [OF ws_dispatch_failed_core] show ?thesis by (simp add: s'_def dispatch_ws_envelope_def Let_def)
  next
    case refused
    have "core (snd (case send_text (ReplyOut (rp_body r)) ?s of (Inl x, s1) \<Rightarrow> ws_dispatch_failed lb cf ?rq None ack x ?i s1 | (Inr u, s1) \<Rightarrow> (Inr CONTINUE, s1))) = core ?s"
      by (rule core_chain) (simp_all add: ws_dispatch_failed_core)
    with refused prep same show ?thesis by (simp add: s'_def dispatch_ws_envelope_def Let_def)
  next
    case prepared
    obtain o2 s2 where run: "run_ws_dispatch lb cf ?rq p ?i ?s = (o2, s2)" by fastforce
    let ?reg = "has_handler (payload_type (pr_envelope p)) (ds_registry r1) \<or> has_streaming_handler (payload_type (pr_envelope p)) (ds_registry r1)"
    have "called_at_most (pr_envelope p) ?reg ?s s2" using run_ws_dispatch_calls [of p ?s lb cf ?rq ?i] run by simp
    moreover have "core s' = core s2"
      using prepared prep run ws_dispatch_failed_core [of lb cf ?rq "Some p" ack _ ?i s2]
      by (cases o2) (simp_all add: s'_def dispatch_ws_envelope_def Let_def)
    ultimately have "called_at_most (pr_envelope p) ?reg ?s s'" by (rule called_at_most_core [rotated])
    with q prep prepared show ?thesis by (auto simp: called_at_most_def passed_checks_def)
  qed
qed

lemma serve_envelope_calls:
  assumes s'_def: "s' = snd (serve_envelope lb cf fe raw data s)"
  shows "ss_bucket s' = ss_bucket s \<and>
    (ds_calls (ss_rpc s') = ds_calls (ss_rpc s) \<or> passed_checks lb cf (synthesize_ws_request raw fe) (ss_rpc s) (ss_rpc s'))"
proof (cases "extract_envelope_for_ack lb fe data")
  case (Inr ack)
  obtain out s1 where sent: "maybe_send_received_ack ack s = (out, s1)" by fastforce
  then have "ss_bucket s1 = ss_bucket s" "ss_rpc s1 = ss_rpc s"
    using send_ack_core [of "''received''" None ack s] by (simp_all add: maybe_send_received_ack_def core_def)
  with Inr sent dispatch_ws_envelope_calls [OF refl, of lb cf fe raw data ack s1] show ?thesis
    by (cases out) (simp_all add: s'_def serve_envelope_def)
qed (simp add: s'_def serve_envelope_def)

text \<open>A frame: no handler is called without a token of the bucket.\<close>

definition spends :: "rat \<Rightarrow> ws_session \<Rightarrow> ws_session \<Rightarrow> bool" where
  "spends now s s' \<longleftrightarrow> ss_bucket s' = ss_bucket s \<or>
     (\<exists>b. ss_bucket s = Some b \<and> ss_bucket s' = Some (snd (tb_consume now 1 b)))"

lemma process_ws_message_calls:
  assumes s'_def: "s' = snd (process_ws_message lb cf fe raw s)"
  shows "spends (fe_now fe) s s' \<and>
    (ds_calls (ss_rpc s') = ds_calls (ss_rpc s) \<or>
     passed_checks lb cf (synthesize_ws_request raw fe) (ss_rpc s) (ss_rpc s') \<and>
     (\<forall>b. ss_bucket s = Some b \<longrightarrow> fst (tb_consume (fe_now fe) 1 b) \<and> ss_bucket s' = Some (snd (tb_consume (fe_now fe) 1 b))))"
proof -
  let ?ok = "\<lambda>s'. spends (fe_now fe) s s' \<and>
    (ds_calls (ss_rpc s') = ds_calls (ss_rpc s) \<or>
     passed_checks lb cf (synthesize_ws_request raw fe) (ss_rpc s) (ss_rpc s') \<and>
     (\<forall>b. ss_bucket s = Some b \<longrightarrow> fst (tb_consume (fe_now fe) 1 b) \<and> ss_bucket s' = Some (snd (tb_consume (fe_now fe) 1 b))))"
  have keep: "?ok t" if "ss_bucket t = ss_bucket s" "ss_rpc t = ss_rpc s" for t using that by (simp add: spends_def)
  obtain ok s1 where lim: "limit_rate (fe_now fe) s = (ok, s1)" by fastforce
  then have rpc: "ss_rpc s1 = ss_rpc s" and bucket: "case ss_bucket s of None \<Rightarrow> ss_bucket s1 = None \<and> ok
      | Some b \<Rightarrow> ss_bucket s1 = Some (snd (tb_consume (fe_now fe) 1 b)) \<and> ok = fst (tb_consume (fe_now fe) 1 b)"
    by (auto simp: limit_rate_def split: option.splits prod.splits)
  have limited: "?ok (snd (case send_text (rate_limit_frame data) s1 of (Inl x, s2) \<Rightarrow> (Inl x, s2) | (Inr u, s2) \<Rightarrow> (Inr CLOSE_RATE_LIMITED, s2)))" for data
    using rpc bucket by (simp add: send_text_def spends_def split: option.splits)
  have served: "?ok (snd (serve_envelope lb cf fe raw data s1))" if ok for data
    using serve_envelope_calls [OF refl, of lb cf fe raw data s1] rpc bucket that by (auto simp: spends_def split: option.splits)
  have other: "?ok s1" using rpc bucket by (auto simp: spends_def split: option.splits)
  have sub: "?ok (snd (case handle_subscription b i s of (Inl x, s1) \<Rightarrow> (Inl x, s1) | (Inr u, s1) \<Rightarrow> (Inr CONTINUE, s1)))" for b i
    by (rule keep) (simp_all add: handle_subscription_def send_text_def)
  show ?thesis
    unfolding s'_def process_ws_message_def lim
    using keep [of s] limited served sub other by (auto split: sum.splits json_fail.splits pyval.splits option.splits bool.splits)
qed

subsection \<open>The rate of a connection\<close>

fun frame_times :: "ws_input list \<Rightarrow> rat list" where
  "frame_times [] = []"
| "frame_times (Incoming fe raw # ins) = fe_now fe # frame_times ins"
| "frame_times (HeartbeatTick now # ins) = frame_times ins"
| "frame_times (Disconnected # ins) = frame_times ins"

definition calls_made :: "ws_session \<Rightarrow> rat" where
  "calls_made s = of_nat (length (ds_calls (ss_rpc s)))"

text \<open>What the calls cost is paid by the bucket and the time that passed.\<close>

definition paid :: "rat \<Rightarrow> ws_session \<Rightarrow> token_bucket \<Rightarrow> ws_session \<Rightarrow> token_bucket \<Rightarrow> bool" where
  "paid t s b s' b' \<longleftrightarrow> ss_bucket s' = Some b' \<and> tb_inv b' \<and> tb_rate b' = tb_rate b \<and> tb_last_refill b \<le> tb_last_refill b' \<and> tb_last_refill b' \<le> t \<and>
     calls_made s' + tb_tokens b' \<le> calls_made s + tb_tokens b + (tb_last_refill b' - tb_last_refill b) * tb_rate b"

lemma paid_trans:
  assumes "paid t s b s1 b1" "paid t' s1 b1 s' b'" "t \<le> t'"
  shows "paid t' s b s' b'"
  using assms by (auto simp: paid_def algebra_simps)

lemma paid_refl: "ss_bucket s' = Some b \<Longrightarrow> tb_inv b \<Longrightarrow> tb_last_refill b \<le> t \<Longrightarrow> ss_rpc s' = ss_rpc s \<Longrightarrow> paid t s b s' b"
  by (simp add: paid_def calls_made_def)

lemma passed_checks_length: "passed_checks lb cf rq r r' \<Longrightarrow> length (ds_calls r') = Suc (length (ds_calls r))"
  by (auto simp: passed_checks_def)

lemma process_ws_message_paid:
  assumes b: "ss_bucket s = Some b" "tb_inv b" "tb_last_refill b \<le> fe_now fe" and s': "s' = snd (process_ws_message lb cf fe raw s)"
  shows "\<exists>b'. paid (fe_now fe) s b s' b'"
proof -
  let ?t = "fe_now fe" let ?b = "snd (tb_consume ?t 1 b)"
  note calls = process_ws_message_calls [OF s']
  note clock = tb_consume_clock [OF b(3), of 1] and inv = tb_consume_inv [OF b(2,3), of 1] and balance = tb_consume_balance [OF b(2,3), of 1]
  show ?thesis
  proof (cases "ds_calls (ss_rpc s') = ds_calls (ss_rpc s)")
    case True
    with calls b(1) consider "ss_bucket s' = Some b" | "ss_bucket s' = Some ?b" by (auto simp: spends_def)
    then show ?thesis
    proof cases
      case 1
      with True b show ?thesis by (auto simp: paid_def calls_made_def intro!: exI [of _ b])
    next
      case 2
      have "tb_tokens ?b \<le> tb_tokens b + (tb_last_refill ?b - tb_last_refill b) * tb_rate b"
        using balance by (simp split: if_splits)
      with 2 True clock inv show ?thesis by (auto simp: paid_def calls_made_def intro!: exI [of _ ?b])
    qed
  next
    case False
    with calls b(1) have "length (ds_calls (ss_rpc s')) = Suc (length (ds_calls (ss_rpc s)))" "ss_bucket s' = Some ?b" "fst (tb_consume ?t 1 b)"
      by (auto dest: passed_checks_length)
    with clock inv balance show ?thesis by (auto simp: paid_def calls_made_def intro!: exI [of _ ?b])
  qed
qed

lemma heartbeat_core: "core (heartbeat now s) = core s \<and> ss_rpc (heartbeat now s) = ss_rpc s"
proof -
  obtain out s1 where sent: "send_text PingOut s = (out, s1)" by fastforce
  with send_text_core [of PingOut s] have "core s1 = core s" "ss_rpc s1 = ss_rpc s" by simp_all
  with sent show ?thesis by (cases out) (simp_all add: heartbeat_def core_def)
qed

lemma ws_serve_paid:
  assumes "ss_bucket s = Some b" "tb_inv b" "sorted (tb_last_refill b # frame_times ins)" "ws_serve lb cf ins s = (code, s')"
  shows "\<exists>b'. paid (last (tb_last_refill b # frame_times ins)) s b s' b'"
  using assms
proof (induction ins arbitrary: s b)
  case Nil
  then show ?case by (auto intro!: exI [of _ b] paid_refl)
next
  case (Cons i ins)
  show ?case
  proof (cases i)
    case (Incoming fe raw)
    let ?t = "fe_now fe" let ?s = "s\<lparr>ss_last_received := ?t\<rparr>"
    let ?last = "last (tb_last_refill b # frame_times (i # ins))"
    obtain a s1 where recv: "ws_receive lb cf fe raw s = (a, s1)" by fastforce
    then have s1: "s1 = snd (process_ws_message lb cf fe raw ?s)"
      by (auto simp: ws_receive_def split: prod.splits sum.splits close_action.splits)
    from Cons.prems(3) Incoming have t: "tb_last_refill b \<le> ?t" "sorted (?t # frame_times ins)" by auto
    from process_ws_message_paid [OF _ Cons.prems(2) t(1) s1] Cons.prems(1) obtain b1 where "paid ?t ?s b s1 b1" by auto
    then have b1: "paid ?t s b s1 b1" by (simp add: paid_def calls_made_def)
    then have inv1: "ss_bucket s1 = Some b1" "tb_inv b1" "tb_last_refill b1 \<le> ?t" by (auto simp: paid_def)
    have last: "?last = last (?t # frame_times ins)" using Incoming by simp
    have later: "?t \<le> ?last" "last (tb_last_refill b1 # frame_times ins) \<le> ?last" unfolding last
      using t(2) inv1(3) by (cases "frame_times ins = []"; simp)+
    show ?thesis
    proof (cases a)
      case None
      have "sorted (tb_last_refill b1 # frame_times ins)" using inv1(3) t(2) by auto
      with Cons.IH [OF inv1(1,2)] Cons.prems(4) Incoming recv None obtain b' where "paid (last (tb_last_refill b1 # frame_times ins)) s1 b1 s' b'" by auto
      with later(2) have "paid ?last s1 b1 s' b'" by (auto simp: paid_def)
      with paid_trans [OF b1 this later(1)] show ?thesis by blast
    next
      case (Some act)
      then have "paid ?t s1 b1 s' b1" using Cons.prems(4) Incoming recv inv1 by (auto simp: teardown_def intro!: paid_refl)
      from paid_trans [OF b1 this order_refl] have "paid ?t s b s' b1" .
      with later(1) show ?thesis by (auto simp: paid_def intro!: exI [of _ b1])
    qed
  next
    case (HeartbeatTick now)
    have "ss_bucket (heartbeat now s) = Some b" using heartbeat_core [of now s] Cons.prems(1) by (simp add: core_def)
    from Cons.IH [OF this Cons.prems(2)] Cons.prems HeartbeatTick obtain b' where "paid (last (tb_last_refill b # frame_times ins)) (heartbeat now s) b s' b'" by auto
    then show ?thesis using HeartbeatTick heartbeat_core [of now s] by (auto simp: paid_def calls_made_def)
  next
    case Disconnected
    then have s': "s' = teardown s" using Cons.prems(4) by simp
    have "tb_last_refill b \<le> last (tb_last_refill b # frame_times ins)" using Cons.prems(3) Disconnected by (cases "frame_times ins = []") simp_all
    then show ?thesis using Cons.prems(1,2) Disconnected s' by (auto simp: teardown_def intro!: exI [of _ b] paid_refl)
  qed
qed

subsection \<open>A sample connection\<close>

definition sample_frame :: "int \<Rightarrow> frame_env" where
  "sample_frame t = \<lparr>fe_now = of_int t, fe_new_id = ''j'', fe_parse_time = 0, fe_request = sample_rpc_req t\<rparr>"

definition sample_session :: ws_session where
  "sample_session = session_init 0 (Some 1) True None (OtherExn ''RuntimeError'' ''closed'') sample_rpc_server"

lemma sample_session_fields:
  "ss_rpc sample_session = sample_rpc_server" "ss_subscriptions sample_session"
  "ss_bucket sample_session = Some \<lparr>tb_rate = 1, tb_capacity = 1, tb_tokens = 1, tb_last_refill = 0\<rparr>"
  "ss_capacity sample_session = None"
  by (simp_all add: sample_session_def session_init_def tb_init_def)

lemma sample_served:
  assumes "0 \<le> t" "t \<le> 300" "ss_rpc s = sample_rpc_server" "ss_capacity s = None"
    and ack: "extract_envelope_for_ack (sample_rpc_lib []) (sample_frame t) data = Inr ack" and id: "get_or data ''id'' PNone = PInt 7"
  shows "ds_calls (ss_rpc (snd (serve_envelope (sample_rpc_lib []) sample_config (sample_frame t) ''{}'' data s))) = [sample_env]"
proof -
  have send: "fst (send_text f s) = Inr ()" "ss_capacity (snd (send_text f s)) = None" for f
    using assms(4) by (simp_all add: send_text_def)
  have "fst (maybe_send_received_ack ack s) = Inr ()" "ss_rpc (snd (maybe_send_received_ack ack s)) = sample_rpc_server"
    "ss_capacity (snd (maybe_send_received_ack ack s)) = None"
    using assms(3,4) send by (simp_all add: maybe_send_received_ack_def send_ack_def split: option.split)
  then obtain s1 where sent: "maybe_send_received_ack ack s = (Inr (), s1)" "ss_rpc s1 = sample_rpc_server" "ss_capacity s1 = None"
    by (cases "maybe_send_received_ack ack s") auto
  have rq: "synthesize_ws_request ''{}'' (sample_frame t) = sample_rpc_req t"
    by (simp add: synthesize_ws_request_def sample_frame_def sample_rpc_req_def)
  have fields: "payload_type sample_env = ''task.request''" by (simp add: sample_env_def)
  show ?thesis
    using sent ack id sample_prepared [OF assms(1,2)]
    by (simp add: serve_envelope_def dispatch_ws_envelope_def rq run_ws_dispatch_def has_streaming_handler_def sample_rpc_server_def fields
        dispatch_to_handler_def dispatch_async_def run_handler_def record_metering_def log_call_def on_metrics_def Let_def
        send_ws_result_frame_def wire_id_def record_ws_success_def audit_log_operation_def send_text_def)
qed

lemma sample_processed:
  assumes "0 < t" "t \<le> 300"
  shows "ds_calls (ss_rpc (snd (process_ws_message (sample_rpc_lib []) sample_config (sample_frame t) ''{}'' sample_session))) = [sample_env]"
proof -
  let ?data = "[(''method'', PStr ''asap.send''), (''params'', PDict [(''envelope'', PDict [])]), (''id'', PInt 7)]"
  have ack: "extract_envelope_for_ack (sample_rpc_lib []) (sample_frame t) ?data = Inr (Some sample_env)"
    by (simp add: extract_envelope_for_ack_def get_or_def envelope_from_dict_def parse_payload_from_dict_def sample_rpc_lib_def sample_make_envelope sample_frame_def)
  have limit: "fst (limit_rate (of_int t) sample_session)" "ss_rpc (snd (limit_rate (of_int t) sample_session)) = sample_rpc_server"
    "ss_capacity (snd (limit_rate (of_int t) sample_session)) = None"
    using assms by (simp_all add: limit_rate_def sample_session_fields tb_consume_def tb_refill_def Let_def)
  then obtain s1 where "limit_rate (of_int t) sample_session = (True, s1)" "ss_rpc s1 = sample_rpc_server" "ss_capacity s1 = None"
    by (cases "limit_rate (of_int t) sample_session") auto
  moreover have "rl_loads (sample_rpc_lib []) ''{}'' = Inr (PDict ?data)" by (simp add: sample_rpc_lib_def)
  moreover have "fe_now (sample_frame t) = of_int t" by (simp add: sample_frame_def)
  ultimately show ?thesis using sample_served [OF _ assms(2) _ _ ack] assms
    by (simp add: process_ws_message_def is_heartbeat_pong_def heartbeat_frame_def subscription_method_def get_or_def
        SLA_SUBSCRIBE_METHOD_def SLA_UNSUBSCRIBE_METHOD_def sample_session_fields)
qed

subsection \<open>Properties\<close>

text \<open>C21: a frame of a WebSocket connection runs application code only after the checks an HTTP request has to pass, and it
  takes a token of the rate limiter: the body is a JSON-RPC call of \<open>asap.send\<close>, the bearer token of the
  handshake was validated to the very agent the envelope names as its sender, the agent identifiers are well formed, the timestamp
  is in the window, the nonce was not used. One handler runs, once, for that envelope.\<close>

theorem ws_handlers_run_after_checks:
  assumes "process_ws_message lb cf fe raw s = (out, s')" "ds_calls (ss_rpc s') \<noteq> ds_calls (ss_rpc s)"
  shows "\<exists>e body rpc. ds_calls (ss_rpc s') = ds_calls (ss_rpc s) @ [e] \<and>
    (has_handler (payload_type e) (ds_registry (ss_rpc s)) \<or> has_streaming_handler (payload_type e) (ds_registry (ss_rpc s))) \<and>
    (\<forall>b. ss_bucket s = Some b \<longrightarrow> fst (tb_consume (fe_now fe) 1 b)) \<and>
    parse_json_body lb cf (synthesize_ws_request raw fe) = Inr (PDict body) \<and> parse_jsonrpc_request body = Some rpc \<and> jr_method rpc = ''asap.send'' \<and>
    (\<forall>am. cf_auth cf = Some am \<longrightarrow> is_auth_required am \<longrightarrow>
       (\<exists>scheme token validate. rr_credentials (fe_request fe) = Some (scheme, token) \<and> lower scheme = ''bearer'' \<and>
          am_validator am = Some validate \<and> validate token = Inr (Some (sender e)))) \<and>
    agent_urn_match (sender e) \<and> agent_urn_match (recipient e) \<and>
    validate_envelope_timestamp (rr_check_time (fe_request fe)) e = Inr () \<and>
    validate_envelope_nonce (rr_nonce_clock (fe_request fe)) e (rs_nonces (ss_rpc s)) = (Inr (), rs_nonces (ss_rpc s'))"
proof -
  have "s' = snd (process_ws_message lb cf fe raw s)" using assms(1) by simp
  from process_ws_message_calls [OF this] assms(2)
  have "passed_checks lb cf (synthesize_ws_request raw fe) (ss_rpc s) (ss_rpc s')" and paid: "\<forall>b. ss_bucket s = Some b \<longrightarrow> fst (tb_consume (fe_now fe) 1 b)"
    by auto
  then obtain p r1 where prep: "prepare_request lb cf (synthesize_ws_request raw fe) (ss_rpc s) = (Inr (Inr p), r1)"
    and called: "ds_calls (ss_rpc s') = ds_calls (ss_rpc s) @ [pr_envelope p]" "rs_nonces (ss_rpc s') = rs_nonces r1"
      "has_handler (payload_type (pr_envelope p)) (ds_registry (ss_rpc s)) \<or> has_streaming_handler (payload_type (pr_envelope p)) (ds_registry (ss_rpc s))"
    by (auto simp: passed_checks_def)
  note checks = prepare_request_checks [OF prep, unfolded checks_passed_def]
  from checks obtain body rpc where "parse_json_body lb cf (synthesize_ws_request raw fe) = Inr (PDict body)"
    "parse_jsonrpc_request body = Some rpc" "jr_method rpc = ''asap.send''" by auto
  with checks called paid show ?thesis
    by (intro exI [of _ "pr_envelope p"] exI [of _ body] exI [of _ rpc]) (simp add: synthesize_ws_request_def)
qed

theorem ws_handlers_run_after_checks_witness:
  "has_handler (payload_type sample_env) (ds_registry sample_rpc_server) \<and>
   validate_envelope_timestamp (rr_check_time (sample_rpc_req 1)) sample_env = Inr ()"
proof -
  note called = sample_processed [of 1, simplified]
  have "ds_calls (ss_rpc (snd (process_ws_message (sample_rpc_lib []) sample_config (sample_frame 1) ''{}'' sample_session))) \<noteq> ds_calls (ss_rpc sample_session)"
    using called by (simp add: sample_session_fields sample_rpc_server_def)
  from ws_handlers_run_after_checks [OF prod.collapse [symmetric] this] called show ?thesis
    by (auto simp: sample_session_fields sample_frame_def sample_rpc_server_def has_streaming_handler_def)
qed

text \<open>C25: the rate limit of a connection bounds the work it makes the server do: over the whole life of a connection that is limited to \<open>r\<close>
  messages a second, at most \<open>r + d * r\<close> handler calls are made, where \<open>d\<close> is the time from the handshake to the last frame, whatever frames
  arrive and however the connection ends.\<close>

theorem ws_rate_bounds_handlers:
  assumes "0 < r" "sorted (t0 # frame_times ins)" "s = session_init t0 (Some r) subs cap broken rpc" "ws_serve lb cf ins s = (code, s')"
  shows "calls_made s' \<le> calls_made s + r + (last (t0 # frame_times ins) - t0) * r"
proof -
  obtain b where b: "ss_bucket s = Some b" "tb_inv b" "tb_rate b = r" "tb_tokens b = r" "tb_last_refill b = t0"
    using assms(1,3) by (simp add: session_init_def tb_init_def tb_inv_def)
  let ?last = "last (t0 # frame_times ins)"
  from ws_serve_paid [OF b(1,2) _ assms(4)] assms(2) b(5) obtain b' where "paid ?last s b s' b'" by auto
  then have p: "tb_inv b'" "tb_last_refill b' \<le> ?last" "calls_made s' + tb_tokens b' \<le> calls_made s + r + (tb_last_refill b' - t0) * r"
    using b by (auto simp: paid_def)
  have "(tb_last_refill b' - t0) * r \<le> (?last - t0) * r" using p(2) assms(1) by (intro mult_right_mono) auto
  moreover have "0 \<le> tb_tokens b'" using p(1) by (simp add: tb_inv_def)
  ultimately show ?thesis using p(3) by linarith
qed

theorem ws_rate_bounds_handlers_witness:
  "calls_made (snd (ws_serve (sample_rpc_lib []) sample_config [Incoming (sample_frame 1) ''{}'', HeartbeatTick 1, Incoming (sample_frame 1) ''{}'', Disconnected] sample_session)) \<le> 2"
  using ws_rate_bounds_handlers [OF _ _ sample_session_def prod.collapse [symmetric],
      of "[Incoming (sample_frame 1) ''{}'', HeartbeatTick 1, Incoming (sample_frame 1) ''{}'', Disconnected]" "sample_rpc_lib []" sample_config]
  by (simp add: sample_frame_def calls_made_def sample_session_fields sample_rpc_server_def)

text \<open>A connection whose peer went silent is not closed by the heartbeat: however many rounds pass without a frame, the
  server keeps the connection active and sends nothing that closes it, although the heartbeat declared it stale.\<close>

theorem stale_connections_stay_open:
  assumes "ss_active s" "now - ss_last_received s > STALE_CONNECTION_TIMEOUT"
  shows "\<exists>s'. ws_serve lb cf (HeartbeatTick now # map HeartbeatTick later) s = (None, s') \<and> ss_closed s' \<and> ss_active s' \<and> ss_out s' = ss_out s"
proof -
  have "ws_serve lb cf (map HeartbeatTick ts) t = (None, t)" if "ss_closed t" for ts t
    using that by (induction ts) (simp_all add: heartbeat_def)
  then show ?thesis using assms by (simp add: heartbeat_def)
qed

theorem stale_connections_stay_open_witness:
  "fst (ws_serve (sample_rpc_lib []) sample_config [HeartbeatTick 100, HeartbeatTick 120] sample_session) = None"
proof -
  have "ss_active sample_session" "100 - ss_last_received sample_session > STALE_CONNECTION_TIMEOUT"
    by (simp_all add: sample_session_def session_init_def STALE_CONNECTION_TIMEOUT_def)
  from stale_connections_stay_open [OF this, of "sample_rpc_lib []" sample_config "[120]"] show ?thesis by auto
qed

subsection \<open>Frames that end a connection\<close>

text \<open>JSON that is no object, and an envelope whose payload type is no string, end the connection instead of being answered.\<close>

lemma non_object_frame_closes:
  assumes "rl_loads lb raw = Inr v" "\<forall>d. v \<noteq> PDict d"
  shows "fst (ws_serve lb cf (Incoming fe raw # ins) s) = Some WS_CLOSE_GOING_AWAY"
  using assms by (cases v) (simp_all add: ws_receive_def process_ws_message_def ws_close_code_def)

text \<open>A limit below one message a second refuses every message: the bucket never holds a whole token.\<close>

lemma slow_limit_refuses_all:
  assumes "tb_inv b" "tb_capacity b < 1" "tb_last_refill b \<le> now"
  shows "\<not> fst (tb_consume now 1 b)"
  using assms tb_consume_inv [OF assms(1,3), of 1] by (auto simp: tb_consume_def tb_refill_def tb_inv_def Let_def min_def split: if_splits)

end
