(* ===== verification/Mcp.thy ===== *)
theory Mcp
  imports Routes_Base Rpc_Base
begin

text \<open>
  The MCP side: a server of tools over standard input and output (\<open>src/asap/mcp/server.py\<close>, messages in \<open>mcp/protocol.py\<close>), its
  subclass that asks for an agent token and a grant before a tool runs (\<open>mcp/auth/\<close>), and the client (\<open>mcp/client.py\<close>).

  A tool is a function of its arguments; \<open>ms_calls\<close> records which tools ran with which arguments. A method that a subclass overrides is an
  argument of the functions that call it: \<open>dispatch_request\<close> and \<open>serve\<close> take the handler of \<open>tools/call\<close>, and the server within the
  state. The queue between the two tasks of \<open>serve_stdio\<close> keeps the order of the lines, so the server is a function of
  the lines it reads. JSON, \<open>jsonschema\<close> and the texts of validation errors are the record \<open>mcp_lib\<close>; logging is left out.
\<close>

subsection \<open>Messages\<close>

definition MCP_PROTOCOL_VERSION :: string where "MCP_PROTOCOL_VERSION = ''2025-11-25''"
definition INTERNAL_TOOL_ERROR_MESSAGE :: string where "INTERNAL_TOOL_ERROR_MESSAGE = ''Internal tool error''"
definition EMPTY_INPUT_SCHEMA :: pydict where
  "EMPTY_INPUT_SCHEMA = [(''type'', PStr ''object''), (''additionalProperties'', PBool False)]"

datatype schema_check = SchemaHolds | SchemaViolated string | SchemaBroken string

record mcp_lib =
  ml_loads :: "string \<Rightarrow> pyval option"
  ml_dumps :: "pyval \<Rightarrow> string"
  ml_str :: "pyval \<Rightarrow> string"
  ml_repr :: "string \<Rightarrow> string"
  ml_validate :: "pydict \<Rightarrow> pydict \<Rightarrow> schema_check"
  ml_params_error :: "pydict \<Rightarrow> string"
  ml_request_error :: "pydict \<Rightarrow> string"
  ml_exn_text :: "py_exn \<Rightarrow> string"
  ml_jose :: jose
  ml_digest :: digest
  ml_violation_text :: "violation \<Rightarrow> string"

text \<open>\<open>str(e)\<close> matters for a \<open>ValueError\<close> only, which has its own branch.\<close>

datatype mcp_exn = McpValueError string | McpError string

definition id_value :: "rpc_id \<Rightarrow> pyval" where
  "id_value i = (case i of IdStr s \<Rightarrow> PStr s | IdInt n \<Rightarrow> PInt n)"

definition mcp_response :: "rpc_id \<Rightarrow> pydict \<Rightarrow> pyval" where
  "mcp_response i result = PDict [(''jsonrpc'', PStr ''2.0''), (''id'', id_value i), (''result'', PDict result)]"

definition mcp_error_object :: "pyval \<Rightarrow> int \<Rightarrow> string \<Rightarrow> pyval" where
  "mcp_error_object i code msg =
     PDict [(''jsonrpc'', PStr ''2.0''), (''id'', i),
       (''error'', PDict [(''code'', PInt code), (''message'', PStr msg), (''data'', PNone)])]"

definition mcp_error_response :: "rpc_id \<Rightarrow> int \<Rightarrow> string \<Rightarrow> pyval" where
  "mcp_error_response i code msg = mcp_error_object (id_value i) code msg"

record mcp_request =
  mr_id :: rpc_id
  mr_method :: string
  mr_params :: "pydict option"

text \<open>\<open>dict[str, Any] | None\<close> with default \<open>None\<close>: \<open>None\<close> outside means that the value is refused.\<close>

definition optional_object :: "pyval option \<Rightarrow> pydict option option" where
  "optional_object v = (case v of None \<Rightarrow> Some None | Some PNone \<Rightarrow> Some None | Some (PDict d) \<Rightarrow> Some (Some d) | _ \<Rightarrow> None)"

definition parse_mcp_request :: "pydict \<Rightarrow> mcp_request option" where
  "parse_mcp_request raw =
     (if map_of raw ''jsonrpc'' \<noteq> None \<and> map_of raw ''jsonrpc'' \<noteq> Some (PStr ''2.0'') then None
      else (case (map_of raw ''id'', map_of raw ''method'', optional_object (map_of raw ''params'')) of
              (Some i, Some (PStr m), Some p) \<Rightarrow> map_option (\<lambda>j. \<lparr>mr_id = j, mr_method = m, mr_params = p\<rparr>) (coerce_id i)
            | _ \<Rightarrow> None))"

record call_params =
  cp_name :: string
  cp_arguments :: pydict
  cp_meta :: "pydict option"

text \<open>\<open>CallToolRequestParams(**params)\<close>: the field \<open>meta\<close> is looked up under its alias first, then under its name.\<close>

definition parse_call_params :: "pydict \<Rightarrow> call_params option" where
  "parse_call_params params =
     (let meta = (if map_of params ''_meta'' \<noteq> None then map_of params ''_meta'' else map_of params ''meta'')
      in case (map_of params ''name'', map_of params ''arguments'', optional_object meta) of
           (Some (PStr n), None, Some m) \<Rightarrow> Some \<lparr>cp_name = n, cp_arguments = [], cp_meta = m\<rparr>
         | (Some (PStr n), Some (PDict a), Some m) \<Rightarrow> Some \<lparr>cp_name = n, cp_arguments = a, cp_meta = m\<rparr>
         | _ \<Rightarrow> None)"

definition text_content :: "string \<Rightarrow> pyval" where
  "text_content t = PDict [(''type'', PStr ''text''), (''text'', PStr t), (''annotations'', PNone)]"

definition tool_result :: "string \<Rightarrow> bool \<Rightarrow> pydict" where
  "tool_result t is_error = [(''content'', PList [text_content t]), (''isError'', PBool is_error)]"

definition AUTH_REQUIRED :: string where "AUTH_REQUIRED = ''asap:auth_required''"
definition INVALID_TOKEN :: string where "INVALID_TOKEN = ''asap:invalid_token''"
definition CAPABILITY_DENIED :: string where "CAPABILITY_DENIED = ''asap:capability_denied''"
definition CONSTRAINT_VIOLATION :: string where "CONSTRAINT_VIOLATION = ''asap:constraint_violation''"

definition tool_error_result :: "string \<Rightarrow> string option \<Rightarrow> pydict" where
  "tool_error_result code extra =
     tool_result (case extra of None \<Rightarrow> code | Some d \<Rightarrow> code @ '': '' @ d) True"

subsection \<open>The server\<close>

datatype tool_output = ToolReturns pyval | ToolMismatch string | ToolRaises string

record tool_registration =
  tr_name :: string
  tr_handler :: "pydict \<Rightarrow> tool_output"
  tr_schema :: pydict
  tr_description :: string
  tr_title :: "string option"
  tr_capability :: "string option"

record mcp_server =
  ms_info :: pydict
  ms_instructions :: "string option"
  ms_tools :: "(string, tool_registration) dict"
  ms_calls :: "(string \<times> pydict) list"

definition str_entry :: "string \<Rightarrow> string option \<Rightarrow> pydict" where
  "str_entry k v = (case v of None \<Rightarrow> [] | Some s \<Rightarrow> [(k, PStr s)])"

definition mcp_server_init :: "string \<Rightarrow> string \<Rightarrow> string option \<Rightarrow> string option \<Rightarrow> string option \<Rightarrow> mcp_server" where
  "mcp_server_init name version title desc instructions =
     \<lparr>ms_info = [(''name'', PStr name), (''version'', PStr version),
        (''title'', PStr (case title of None \<Rightarrow> name | Some t \<Rightarrow> if t = [] then name else t))] @ str_entry ''description'' desc,
      ms_instructions = instructions, ms_tools = [], ms_calls = []\<rparr>"

definition get_tool_capability :: "string \<Rightarrow> mcp_server \<Rightarrow> string option" where
  "get_tool_capability name s = (case map_of (ms_tools s) name of None \<Rightarrow> None | Some r \<Rightarrow> tr_capability r)"

definition register_tool ::
  "string \<Rightarrow> (pydict \<Rightarrow> tool_output) \<Rightarrow> pydict \<Rightarrow> string \<Rightarrow> string option \<Rightarrow> string option \<Rightarrow> mcp_server \<Rightarrow> mcp_server" where
  "register_tool name f schema desc title capability s =
     s\<lparr>ms_tools := AList.update name
        \<lparr>tr_name = name, tr_handler = f, tr_schema = (if schema = [] then EMPTY_INPUT_SCHEMA else schema),
         tr_description = (if desc = [] then ''Tool '' @ name else desc), tr_title = title, tr_capability = capability\<rparr> (ms_tools s)\<rparr>"

definition get_capabilities :: "mcp_server \<Rightarrow> pydict" where
  "get_capabilities s = (if ms_tools s = [] then [] else [(''tools'', PDict [(''listChanged'', PBool True)])])"

definition handle_initialize :: "mcp_server \<Rightarrow> pydict" where
  "handle_initialize s =
     [(''protocolVersion'', PStr MCP_PROTOCOL_VERSION), (''capabilities'', PDict (get_capabilities s)), (''serverInfo'', PDict (ms_info s))] @
     str_entry ''instructions'' (ms_instructions s)"

definition tool_entry :: "tool_registration \<Rightarrow> pyval" where
  "tool_entry r =
     PDict ([(''name'', PStr (tr_name r)), (''description'', PStr (tr_description r)), (''inputSchema'', PDict (tr_schema r))] @
       str_entry ''title'' (tr_title r))"

definition handle_tools_list :: "mcp_server \<Rightarrow> pydict" where
  "handle_tools_list s = [(''tools'', PList (map tool_entry (dict_values (ms_tools s))))]"

text \<open>The text of what a tool returns.\<close>

definition output_text :: "mcp_lib \<Rightarrow> pyval \<Rightarrow> string" where
  "output_text lb out = (case out of PStr s \<Rightarrow> s | PDict d \<Rightarrow> ml_dumps lb (PDict d) | _ \<Rightarrow> ml_str lb out)"

definition handle_tools_call :: "mcp_lib \<Rightarrow> bool \<Rightarrow> pydict \<Rightarrow> mcp_server \<Rightarrow> (mcp_server, mcp_exn, pydict) outcome" where
  "handle_tools_call lb debug params s =
     (case parse_call_params params of
        None \<Rightarrow> (Inl (McpValueError (''Invalid params: '' @ ml_params_error lb params)), s)
      | Some p \<Rightarrow>
          (case map_of (ms_tools s) (cp_name p) of
             None \<Rightarrow> (Inr (tool_result (''Unknown tool: '' @ cp_name p) True), s)
           | Some r \<Rightarrow>
               (case ml_validate lb (tr_schema r) (cp_arguments p) of
                  SchemaViolated msg \<Rightarrow> (Inl (McpValueError (''Invalid arguments: '' @ msg)), s)
                | SchemaBroken msg \<Rightarrow> (Inl (McpError msg), s)
                | SchemaHolds \<Rightarrow>
                    (let s1 = s\<lparr>ms_calls := ms_calls s @ [(cp_name p, cp_arguments p)]\<rparr>
                     in case tr_handler r (cp_arguments p) of
                          ToolMismatch e \<Rightarrow> (Inl (McpValueError (''Tool argument mismatch: '' @ e)), s1)
                        | ToolRaises e \<Rightarrow> (Inr (tool_result (if debug then e else INTERNAL_TOOL_ERROR_MESSAGE) True), s1)
                        | ToolReturns out \<Rightarrow> (Inr (tool_result (output_text lb out) False), s1)))))"

text \<open>\<open>_dispatch_request\<close>: \<open>srv\<close> is the server within the state, \<open>call\<close> its \<open>_handle_tools_call\<close>. An exception other than \<open>ValueError\<close> leaves it.\<close>

definition dispatch_request ::
  "('s \<Rightarrow> mcp_server) \<Rightarrow> (pydict \<Rightarrow> 's \<Rightarrow> ('s, mcp_exn, pydict) outcome) \<Rightarrow> mcp_request \<Rightarrow> 's \<Rightarrow> ('s, string, pyval) outcome" where
  "dispatch_request srv call rq s =
     (let params = (case mr_params rq of None \<Rightarrow> [] | Some p \<Rightarrow> p); rid = mr_id rq
      in if mr_method rq = ''initialize'' then (Inr (mcp_response rid (handle_initialize (srv s))), s)
         else if mr_method rq = ''tools/list'' then (Inr (mcp_response rid (handle_tools_list (srv s))), s)
         else if mr_method rq = ''tools/call'' then
           (case call params s of
              (Inl (McpValueError e), s1) \<Rightarrow> (Inr (mcp_error_response rid INVALID_PARAMS e), s1)
            | (Inl (McpError e), s1) \<Rightarrow> (Inl e, s1)
            | (Inr result, s1) \<Rightarrow> (Inr (mcp_response rid result), s1))
         else if mr_method rq = ''ping'' then (Inr (mcp_response rid []), s)
         else (Inr (mcp_error_response rid METHOD_NOT_FOUND (''Method not found: '' @ mr_method rq)), s))"

subsection \<open>Standard input and output\<close>

definition newline_char :: "char \<Rightarrow> bool" where
  "newline_char c \<longleftrightarrow> of_char c = (10 :: nat) \<or> of_char c = (13 :: nat)"

definition rstrip_newlines :: "string \<Rightarrow> string" where
  "rstrip_newlines s = rev (dropWhile newline_char (rev s))"

definition parse_error_object :: pydict where
  "parse_error_object = [(''jsonrpc'', PStr ''2.0''), (''id'', PNone), (''error'', PDict [(''code'', PInt PARSE_ERROR), (''message'', PStr ''Parse error'')])]"

text \<open>\<open>read_stdin\<close> on a line: \<open>None\<close> ends the session.\<close>

definition read_stdin :: "mcp_lib \<Rightarrow> string \<Rightarrow> pydict option" where
  "read_stdin lb raw_line =
     (let line = rstrip_newlines raw_line
      in if line = [] then None
         else (case ml_loads lb line of Some (PDict d) \<Rightarrow> Some d | _ \<Rightarrow> Some parse_error_object))"

text \<open>The test of the consumer for a parse error: \<open>raw.get("error", {}).get("code") == PARSE_ERROR\<close>.\<close>

definition is_parse_error :: "pydict \<Rightarrow> py_exn + bool" where
  "is_parse_error raw =
     (case map_of raw ''error'' of
        None \<Rightarrow> Inr False
      | Some (PDict e) \<Rightarrow> Inr (case map_of e ''code'' of None \<Rightarrow> False | Some c \<Rightarrow> py_eq c (PInt PARSE_ERROR))
      | Some _ \<Rightarrow> Inl AttributeError)"

text \<open>A round of the consumer: the line it writes, or \<open>None\<close> outside for an exception that ends the server.\<close>

definition consume ::
  "mcp_lib \<Rightarrow> ('s \<Rightarrow> mcp_server) \<Rightarrow> (pydict \<Rightarrow> 's \<Rightarrow> ('s, mcp_exn, pydict) outcome) \<Rightarrow> pydict \<Rightarrow> 's \<Rightarrow> pyval option option \<times> 's" where
  "consume lb srv call raw s =
     (case (if map_of raw ''method'' = None then is_parse_error raw else Inr False) of
        Inl x \<Rightarrow> (None, s)
      | Inr True \<Rightarrow> (Some (Some (PDict raw)), s)
      | Inr False \<Rightarrow>
          if map_of raw ''id'' \<noteq> None \<and> (case map_of raw ''method'' of None \<Rightarrow> False | Some m \<Rightarrow> py_truthy m) then
            (case (case parse_mcp_request raw of
                     None \<Rightarrow> (Inl (ml_request_error lb raw), s)
                   | Some rq \<Rightarrow> dispatch_request srv call rq s) of
               (Inr answer, s1) \<Rightarrow> (Some (Some answer), s1)
             | (Inl e, s1) \<Rightarrow>
                 (case map_of raw ''id'' of
                    Some PNone \<Rightarrow> (Some (Some (mcp_error_object PNone INTERNAL_ERROR e)), s1)
                  | Some i \<Rightarrow> (case coerce_id i of None \<Rightarrow> (None, s1) | Some j \<Rightarrow> (Some (Some (mcp_error_response j INTERNAL_ERROR e)), s1))
                  | None \<Rightarrow> (Some (Some (mcp_error_object PNone INTERNAL_ERROR e)), s1)))
          else (Some None, s))"

text \<open>\<open>serve_stdio\<close> over the lines until the end of the input, with what each call reads of its environment. The answer has the objects
  written, and whether an exception ended the server.\<close>

fun serve_stdio ::
  "mcp_lib \<Rightarrow> ('s \<Rightarrow> mcp_server) \<Rightarrow> ('e \<Rightarrow> pydict \<Rightarrow> 's \<Rightarrow> ('s, mcp_exn, pydict) outcome) \<Rightarrow> ('e \<times> string) list \<Rightarrow> 's \<Rightarrow> pyval list \<times> bool \<times> 's" where
  "serve_stdio lb srv call [] s = ([], False, s)"
| "serve_stdio lb srv call ((env, line) # rest) s =
     (case read_stdin lb line of
        None \<Rightarrow> ([], False, s)
      | Some raw \<Rightarrow>
          (case consume lb srv (call env) raw s of
             (None, s1) \<Rightarrow> ([], True, s1)
           | (Some w, s1) \<Rightarrow>
               (case serve_stdio lb srv call rest s1 of
                  (out, crashed, s2) \<Rightarrow> ((case w of None \<Rightarrow> out | Some v \<Rightarrow> v # out), crashed, s2))))"

subsection \<open>The protected server\<close>

record mcp_auth =
  ma_hosts :: host_store
  ma_registry :: capability_registry
  ma_capability_map :: "(string, string) dict"
  ma_public_tools :: "string list"
  ma_enforce_grants :: bool
  ma_validate_tools :: bool
  ma_jwt_extractor :: "(call_params \<Rightarrow> string option) option"
  ma_env_fallback :: bool
  ma_audience :: "audience option"

record protected_server =
  px_server :: mcp_server
  px_jti :: "jti_cache option"
  px_agents :: agent_rows

text \<open>What a call reads: clocks, the environment variable \<open>ASAP_AGENT_JWT\<close>, and what other tasks do to the agent rows meanwhile.\<close>

record call_env =
  ce_now :: rat
  ce_now_jti :: rat
  ce_clock :: session_clock
  ce_between :: "agent_rows \<Rightarrow> agent_rows"
  ce_before_touch :: "agent_rows \<Rightarrow> agent_rows"
  ce_datetime :: datetime
  ce_env_jwt :: "string option"

definition META_JWT_KEY :: string where "META_JWT_KEY = ''asap_agent_jwt''"

definition stripped :: "string option \<Rightarrow> string option" where
  "stripped v = (case v of None \<Rightarrow> None | Some s \<Rightarrow> if strip s = [] then None else Some (strip s))"

definition default_jwt_extractor :: "bool \<Rightarrow> string option \<Rightarrow> call_params \<Rightarrow> string option" where
  "default_jwt_extractor allow_env env_jwt p =
     (let meta = (case cp_meta p of None \<Rightarrow> [] | Some m \<Rightarrow> m)
      in case stripped (case map_of meta META_JWT_KEY of Some (PStr t) \<Rightarrow> Some t | _ \<Rightarrow> None) of
           Some t \<Rightarrow> Some t
         | None \<Rightarrow> if allow_env then stripped env_jwt else None)"

definition resolve_jwt_extractor :: "mcp_auth \<Rightarrow> string option \<Rightarrow> call_params \<Rightarrow> string option" where
  "resolve_jwt_extractor cf env_jwt =
     (case ma_jwt_extractor cf of Some f \<Rightarrow> f | None \<Rightarrow> default_jwt_extractor (ma_env_fallback cf) env_jwt)"

definition resolve_capability :: "string \<Rightarrow> mcp_auth \<Rightarrow> mcp_server \<Rightarrow> string" where
  "resolve_capability tool cf s =
     (case map_of (ma_capability_map cf) tool of
        Some c \<Rightarrow> c
      | None \<Rightarrow> (case get_tool_capability tool s of Some c \<Rightarrow> c | None \<Rightarrow> tool))"

definition format_constraint_violations :: "mcp_lib \<Rightarrow> violation list \<Rightarrow> string" where
  "format_constraint_violations lb vs = str_join ''; '' (map (ml_violation_text lb) vs)"

definition check_capability_grant ::
  "mcp_lib \<Rightarrow> mcp_auth \<Rightarrow> datetime \<Rightarrow> call_params \<Rightarrow> jwt_verify_result \<Rightarrow> mcp_server \<Rightarrow> py_exn + pydict option" where
  "check_capability_grant lb cf now p result s =
     (let capability = resolve_capability (cp_name p) cf s
      in if capability \<notin> set (capabilities_claim result)
         then Inr (Some (tool_error_result CAPABILITY_DENIED (Some (''JWT capabilities claim does not include '' @ ml_repr lb capability))))
         else (case jv_agent result of
                 None \<Rightarrow> Inr (Some (tool_error_result CAPABILITY_DENIED (Some ''missing agent identity for grant check'')))
               | Some agent \<Rightarrow>
                   (case check_grant now (agent_id agent) capability (Some (cp_arguments p)) (ma_registry cf) of
                      Inl x \<Rightarrow> Inl x
                    | Inr check \<Rightarrow>
                        if gc_allowed check then Inr None
                        else if gc_violations check \<noteq> []
                        then Inr (Some (tool_error_result CONSTRAINT_VIOLATION (Some (format_constraint_violations lb (gc_violations check)))))
                        else Inr (Some (tool_error_result CAPABILITY_DENIED (Some (''no active grant for capability '' @ ml_repr lb capability)))))))"

definition mcp_raised :: "mcp_lib \<Rightarrow> py_exn \<Rightarrow> mcp_exn" where
  "mcp_raised lb x = (case x of ValueError e \<Rightarrow> McpValueError e | _ \<Rightarrow> McpError (ml_exn_text lb x))"

definition super_tools_call :: "mcp_lib \<Rightarrow> bool \<Rightarrow> pydict \<Rightarrow> protected_server \<Rightarrow> (protected_server, mcp_exn, pydict) outcome" where
  "super_tools_call lb debug params s =
     (case handle_tools_call lb debug params (px_server s) of (r, s1) \<Rightarrow> (r, s\<lparr>px_server := s1\<rparr>))"

definition protected_tools_call ::
  "mcp_lib \<Rightarrow> bool \<Rightarrow> mcp_auth \<Rightarrow> call_env \<Rightarrow> pydict \<Rightarrow> protected_server \<Rightarrow> (protected_server, mcp_exn, pydict) outcome" where
  "protected_tools_call lb debug cf ce params s =
     (case parse_call_params params of
        None \<Rightarrow> (Inl (McpValueError (''Invalid params: '' @ ml_params_error lb params)), s)
      | Some p \<Rightarrow>
          if cp_name p \<in> set (ma_public_tools cf) then super_tools_call lb debug params s
          else (case resolve_jwt_extractor cf (ce_env_jwt ce) p of
                  None \<Rightarrow> (Inr (tool_error_result AUTH_REQUIRED None), s)
                | Some [] \<Rightarrow> (Inr (tool_error_result AUTH_REQUIRED None), s)
                | Some token \<Rightarrow>
                    (case verify_agent_jwt (ml_jose lb) (ml_digest lb) (ce_now ce) (ce_now_jti ce) (ce_clock ce) (ce_between ce) (ce_before_touch ce)
                            token (ma_hosts cf) (ma_audience cf) (px_jti s, px_agents s) of
                       (Inl x, (jti, rows)) \<Rightarrow> (Inl (mcp_raised lb x), s\<lparr>px_jti := jti, px_agents := rows\<rparr>)
                     | (Inr result, (jti, rows)) \<Rightarrow>
                         (let s1 = s\<lparr>px_jti := jti, px_agents := rows\<rparr>
                          in if \<not> jv_ok result then (Inr (tool_error_result INVALID_TOKEN (jv_error result)), s1)
                             else (case (if ma_enforce_grants cf then check_capability_grant lb cf (ce_datetime ce) p result (px_server s1) else Inr None) of
                                     Inl x \<Rightarrow> (Inl (mcp_raised lb x), s1)
                                   | Inr (Some refusal) \<Rightarrow> (Inr refusal, s1)
                                   | Inr None \<Rightarrow> super_tools_call lb debug params s1)))))"

text \<open>The checks at start-up; the error names the tool.\<close>

definition validate_tool_at_startup :: "mcp_lib \<Rightarrow> mcp_auth \<Rightarrow> mcp_server \<Rightarrow> string \<Rightarrow> py_exn + unit" where
  "validate_tool_at_startup lb cf s tool =
     (let capability = resolve_capability tool cf s
      in if strip capability = []
         then Inl (ValueError (''Tool '' @ ml_repr lb tool @ '' resolves to empty capability name; set tool_capability_map or register-time capability metadata''))
         else if describe capability (ma_registry cf) = None
         then Inl (ValueError (''Tool '' @ ml_repr lb tool @ '' resolves to unknown capability '' @ ml_repr lb capability @ '' (not registered; describe returned None)''))
         else Inr ())"

fun validate_tools_at_startup :: "mcp_lib \<Rightarrow> mcp_auth \<Rightarrow> mcp_server \<Rightarrow> string list \<Rightarrow> py_exn + unit" where
  "validate_tools_at_startup lb cf s [] = Inr ()"
| "validate_tools_at_startup lb cf s (t # ts) =
     (case validate_tool_at_startup lb cf s t of Inl x \<Rightarrow> Inl x | Inr u \<Rightarrow> validate_tools_at_startup lb cf s ts)"

definition protect_server :: "mcp_lib \<Rightarrow> mcp_auth \<Rightarrow> jti_cache option \<Rightarrow> agent_rows \<Rightarrow> mcp_server \<Rightarrow> py_exn + protected_server" where
  "protect_server lb cf jti rows s =
     (case (if ma_validate_tools cf then validate_tools_at_startup lb cf s (dict_keys (ms_tools s)) else Inr ()) of
        Inl x \<Rightarrow> Inl x
      | Inr u \<Rightarrow> Inr \<lparr>px_server = s, px_jti = jti, px_agents = rows\<rparr>)"

text \<open>A tool that fails the check stays registered.\<close>

definition register_protected_tool ::
  "mcp_lib \<Rightarrow> mcp_auth \<Rightarrow> string \<Rightarrow> (pydict \<Rightarrow> tool_output) \<Rightarrow> pydict \<Rightarrow> string \<Rightarrow> string option \<Rightarrow> string option \<Rightarrow> protected_server \<Rightarrow>
   (protected_server, py_exn, unit) outcome" where
  "register_protected_tool lb cf name f schema desc title capability s =
     (let s1 = s\<lparr>px_server := register_tool name f schema desc title capability (px_server s)\<rparr>
      in (if ma_validate_tools cf then validate_tool_at_startup lb cf (px_server s1) name else Inr (), s1))"

subsection \<open>The client\<close>

record mcp_client =
  mk_process :: bool
  mk_initialized :: bool
  mk_request_id :: nat
  mk_use_str_ids :: bool
  mk_sent :: "pyval list"

definition mcp_client_init :: "(string list) option \<Rightarrow> string \<Rightarrow> bool \<Rightarrow> string + mcp_client" where
  "mcp_client_init allowed_binaries binary use_str =
     (case allowed_binaries of
        Some allowed \<Rightarrow>
          if binary \<notin> set allowed then Inl binary
          else Inr \<lparr>mk_process = False, mk_initialized = False, mk_request_id = 0, mk_use_str_ids = use_str, mk_sent = []\<rparr>
      | None \<Rightarrow> Inr \<lparr>mk_process = False, mk_initialized = False, mk_request_id = 0, mk_use_str_ids = use_str, mk_sent = []\<rparr>)"

definition next_id :: "mcp_client \<Rightarrow> rpc_id \<times> mcp_client" where
  "next_id c =
     (let n = Suc (mk_request_id c)
      in (if mk_use_str_ids c then IdStr (str_nat n) else IdInt (int n), c\<lparr>mk_request_id := n\<rparr>))"

text \<open>What the methods raise: \<open>RuntimeError\<close> with its message, another exception of the standard library, or a \<open>ValidationError\<close> for the value.\<close>

datatype mcp_client_exn = ClientRuntime string | ClientRaised py_exn | ClientInvalid pyval

text \<open>What reading a line ends with: the time limit, the limit of the stream reader (a line of more than 64 KiB), or the bytes read, decoded; an empty
  text is the end of the stream.\<close>

datatype received = ReadTimeout string | ReadOverrun string | ReadText string

definition mcp_receive :: "mcp_lib \<Rightarrow> received \<Rightarrow> mcp_client_exn + pydict option" where
  "mcp_receive lb r =
     (case r of
        ReadTimeout t \<Rightarrow> Inl (ClientRuntime (''No response within '' @ t @ ''s''))
      | ReadOverrun t \<Rightarrow> Inl (ClientRaised (ValueError t))
      | ReadText raw_line \<Rightarrow>
          (let line = rstrip_newlines raw_line
           in if line = [] then Inr None
              else (case ml_loads lb line of Some (PDict d) \<Rightarrow> Inr (Some d) | _ \<Rightarrow> Inr None)))"

definition mcp_call_object :: "rpc_id \<Rightarrow> string \<Rightarrow> pydict \<Rightarrow> pyval" where
  "mcp_call_object i m params =
     PDict [(''jsonrpc'', PStr ''2.0''), (''id'', id_value i), (''method'', PStr m), (''params'', PDict params)]"

definition mcp_send :: "pyval \<Rightarrow> mcp_client \<Rightarrow> mcp_client" where
  "mcp_send v c = c\<lparr>mk_sent := mk_sent c @ [v]\<rparr>"

text \<open>The lax Boolean, and an optional text, of pydantic.\<close>

fun lax_bool :: "pyval \<Rightarrow> bool option" where
  "lax_bool (PBool b) = Some b"
| "lax_bool (PInt i) = (if i = 1 then Some True else if i = 0 then Some False else None)"
| "lax_bool (PFloat x) = (if x = Fin 1 then Some True else if x = Fin 0 then Some False else None)"
| "lax_bool (PStr t) =
     (if lower t \<in> {''1'', ''on'', ''t'', ''true'', ''y'', ''yes''} then Some True
      else if lower t \<in> {''0'', ''off'', ''f'', ''false'', ''n'', ''no''} then Some False else None)"
| "lax_bool _ = None"

definition text_or_none :: "pyval option \<Rightarrow> bool" where
  "text_or_none v \<longleftrightarrow> (case v of None \<Rightarrow> True | Some PNone \<Rightarrow> True | Some (PStr t) \<Rightarrow> True | _ \<Rightarrow> False)"

definition is_object :: "pyval \<Rightarrow> bool" where
  "is_object v \<longleftrightarrow> (case v of PDict d \<Rightarrow> True | _ \<Rightarrow> False)"

definition optional_objects :: "pyval option \<Rightarrow> bool" where
  "optional_objects v \<longleftrightarrow> (case v of None \<Rightarrow> True | Some PNone \<Rightarrow> True | Some (PList l) \<Rightarrow> list_all is_object l | _ \<Rightarrow> False)"

text \<open>A field with an alias.\<close>

definition aliased :: "pydict \<Rightarrow> string \<Rightarrow> string \<Rightarrow> pyval option" where
  "aliased d alias name = (if map_of d alias \<noteq> None then map_of d alias else map_of d name)"

record call_tool_result =
  cr_content :: "pyval list"
  cr_is_error :: bool

definition parse_tool_result :: "pyval \<Rightarrow> call_tool_result option" where
  "parse_tool_result v =
     (case v of
        PDict d \<Rightarrow>
          (case (case map_of d ''content'' of None \<Rightarrow> Some [] | Some (PList l) \<Rightarrow> if list_all is_object l then Some l else None | _ \<Rightarrow> None,
                 case aliased d ''isError'' ''is_error'' of None \<Rightarrow> Some False | Some b \<Rightarrow> lax_bool b,
                 optional_object (aliased d ''structuredContent'' ''structured_content'')) of
             (Some l, Some b, Some sc) \<Rightarrow> Some \<lparr>cr_content = l, cr_is_error = b\<rparr>
           | _ \<Rightarrow> None)
      | _ \<Rightarrow> None)"

definition is_implementation :: "pyval \<Rightarrow> bool" where
  "is_implementation v \<longleftrightarrow>
     (case v of
        PDict d \<Rightarrow>
          (case (map_of d ''name'', map_of d ''version'') of
             (Some (PStr n), Some (PStr w)) \<Rightarrow> text_or_none (map_of d ''title'') \<and> text_or_none (map_of d ''description'') \<and>
               optional_objects (map_of d ''icons'') \<and> text_or_none (aliased d ''websiteUrl'' ''website_url'')
           | _ \<Rightarrow> False)
      | _ \<Rightarrow> False)"

definition is_init_result :: "pyval \<Rightarrow> bool" where
  "is_init_result v \<longleftrightarrow>
     (case v of
        PDict d \<Rightarrow>
          (case aliased d ''protocolVersion'' ''protocol_version'' of None \<Rightarrow> True | Some (PStr t) \<Rightarrow> True | _ \<Rightarrow> False) \<and>
          (case map_of d ''capabilities'' of None \<Rightarrow> True | Some c \<Rightarrow> is_object c) \<and>
          (case aliased d ''serverInfo'' ''server_info'' of None \<Rightarrow> False | Some i \<Rightarrow> is_implementation i) \<and> text_or_none (map_of d ''instructions'')
      | _ \<Rightarrow> False)"

definition is_tool :: "pyval \<Rightarrow> bool" where
  "is_tool v \<longleftrightarrow>
     (case v of
        PDict d \<Rightarrow>
          (case (map_of d ''name'', map_of d ''description'') of (Some (PStr n), Some (PStr t)) \<Rightarrow> True | _ \<Rightarrow> False) \<and>
          (case aliased d ''inputSchema'' ''input_schema'' of Some s \<Rightarrow> is_object s | None \<Rightarrow> False) \<and> text_or_none (map_of d ''title'') \<and>
          optional_objects (map_of d ''icons'') \<and> optional_object (aliased d ''outputSchema'' ''output_schema'') \<noteq> None \<and>
          optional_object (map_of d ''annotations'') \<noteq> None
      | _ \<Rightarrow> False)"

text \<open>\<open>ListToolsResult(**raw["result"]).tools\<close>\<close>

definition parse_tools :: "pyval \<Rightarrow> mcp_client_exn + pyval list" where
  "parse_tools v =
     (case v of
        PDict d \<Rightarrow>
          (case (map_of d ''tools'', text_or_none (aliased d ''nextCursor'' ''next_cursor'')) of
             (None, True) \<Rightarrow> Inr []
           | (Some (PList l), True) \<Rightarrow> if list_all is_tool l then Inr l else Inl (ClientInvalid v)
           | _ \<Rightarrow> Inl (ClientInvalid v))
      | _ \<Rightarrow> Inl (ClientRaised TypeError))"

text \<open>\<open>err.get("message", err)\<close> in the text of an exception.\<close>

definition error_text :: "mcp_lib \<Rightarrow> pyval \<Rightarrow> string option" where
  "error_text lb err =
     (case err of PDict e \<Rightarrow> Some (ml_str lb (case map_of e ''message'' of None \<Rightarrow> PDict e | Some m \<Rightarrow> m)) | _ \<Rightarrow> None)"

text \<open>A request and the next line, whatever its identifier is; \<open>reply\<close> is what reading gives after the request was written.\<close>

definition mcp_ask ::
  "mcp_lib \<Rightarrow> string \<Rightarrow> pydict \<Rightarrow> (mcp_client \<Rightarrow> received) \<Rightarrow> mcp_client \<Rightarrow> (mcp_client, mcp_client_exn, pydict) outcome" where
  "mcp_ask lb m params reply c =
     (case next_id c of
        (i, c1) \<Rightarrow>
          (let c2 = mcp_send (mcp_call_object i m params) c1
           in case mcp_receive lb (reply c2) of
                Inl x \<Rightarrow> (Inl x, c2)
              | Inr None \<Rightarrow> (Inl (ClientRuntime (''No response to '' @ m)), c2)
              | Inr (Some raw) \<Rightarrow> (Inr raw, c2)))"

definition mcp_connect ::
  "mcp_lib \<Rightarrow> pydict \<Rightarrow> (mcp_client \<Rightarrow> received) \<Rightarrow> mcp_client \<Rightarrow> (mcp_client, mcp_client_exn, pyval) outcome" where
  "mcp_connect lb client_info reply c =
     (if mk_process c then (Inl (ClientRuntime ''Already connected''), c)
      else (case mcp_ask lb ''initialize''
                   [(''protocolVersion'', PStr MCP_PROTOCOL_VERSION), (''capabilities'', PDict []), (''clientInfo'', PDict client_info)]
                   reply (c\<lparr>mk_process := True\<rparr>) of
              (Inl x, c1) \<Rightarrow> (Inl x, c1)
            | (Inr raw, c1) \<Rightarrow>
                (case (map_of raw ''error'', map_of raw ''result'') of
                   (Some err, _) \<Rightarrow>
                     (Inl (case error_text lb err of None \<Rightarrow> ClientRaised AttributeError | Some t \<Rightarrow> ClientRuntime (''Initialize failed: '' @ t)), c1)
                 | (None, None) \<Rightarrow> (Inl (ClientRaised (KeyError ''result'')), c1)
                 | (None, Some r) \<Rightarrow>
                     if is_init_result r
                     then (Inr r, mcp_send (PDict [(''jsonrpc'', PStr ''2.0''), (''method'', PStr ''notifications/initialized'')]) (c1\<lparr>mk_initialized := True\<rparr>))
                     else (Inl (ClientInvalid r), c1))))"

definition list_tools :: "mcp_lib \<Rightarrow> (mcp_client \<Rightarrow> received) \<Rightarrow> mcp_client \<Rightarrow> (mcp_client, mcp_client_exn, pyval list) outcome" where
  "list_tools lb reply c =
     (if \<not> mk_initialized c then (Inl (ClientRuntime ''Not initialized; call connect() first''), c)
      else (case mcp_ask lb ''tools/list'' [] reply c of
              (Inl x, c1) \<Rightarrow> (Inl x, c1)
            | (Inr raw, c1) \<Rightarrow>
                (case (map_of raw ''error'', map_of raw ''result'') of
                   (Some err, _) \<Rightarrow>
                     (Inl (case error_text lb err of None \<Rightarrow> ClientRaised AttributeError | Some t \<Rightarrow> ClientRuntime (''tools/list failed: '' @ t)), c1)
                 | (None, None) \<Rightarrow> (Inl (ClientRaised (KeyError ''result'')), c1)
                 | (None, Some r) \<Rightarrow> (parse_tools r, c1))))"

text \<open>\<open>call_tool\<close>: the parameters as \<open>model_dump(by_alias=True)\<close> writes them.\<close>

definition call_tool_params :: "string \<Rightarrow> pydict \<Rightarrow> pydict option \<Rightarrow> pydict" where
  "call_tool_params name arguments meta =
     [(''name'', PStr name), (''arguments'', PDict arguments), (''_meta'', case meta of None \<Rightarrow> PNone | Some m \<Rightarrow> PDict m)]"

definition call_tool ::
  "mcp_lib \<Rightarrow> string \<Rightarrow> pydict \<Rightarrow> pydict option \<Rightarrow> (mcp_client \<Rightarrow> received) \<Rightarrow> mcp_client \<Rightarrow> (mcp_client, mcp_client_exn, call_tool_result) outcome" where
  "call_tool lb name arguments meta reply c =
     (if \<not> mk_initialized c then (Inl (ClientRuntime ''Not initialized; call connect() first''), c)
      else (case mcp_ask lb ''tools/call'' (call_tool_params name arguments meta) reply c of
              (Inl x, c1) \<Rightarrow> (Inl x, c1)
            | (Inr raw, c1) \<Rightarrow>
                (case (map_of raw ''error'', map_of raw ''result'') of
                   (Some (PDict err), _) \<Rightarrow>
                     (Inr \<lparr>cr_content = [PDict [(''type'', PStr ''text''),
                         (''text'', case map_of err ''message'' of None \<Rightarrow> PStr (ml_str lb (PDict err)) | Some m \<Rightarrow> m)]],
                        cr_is_error = True\<rparr>, c1)
                 | (Some v, _) \<Rightarrow> (Inl (ClientRaised AttributeError), c1)
                 | (None, None) \<Rightarrow> (Inl (ClientRaised (KeyError ''result'')), c1)
                 | (None, Some r) \<Rightarrow> (case parse_tool_result r of None \<Rightarrow> (Inl (ClientInvalid r), c1) | Some t \<Rightarrow> (Inr t, c1)))))"

definition mcp_disconnect :: "mcp_client \<Rightarrow> mcp_client" where
  "mcp_disconnect c = c\<lparr>mk_process := False, mk_initialized := False\<rparr>"

subsection \<open>What a handler of calls promises\<close>

text \<open>The interface between the loop and the handler of \<open>tools/call\<close>: an answer is a tool result, the tools stay as they are, and at most one
  tool runs.\<close>

locale tool_server =
  fixes lb :: mcp_lib and srv :: "'s \<Rightarrow> mcp_server" and call :: "'e \<Rightarrow> pydict \<Rightarrow> 's \<Rightarrow> ('s, mcp_exn, pydict) outcome"
  assumes call_result: "call env params s = (Inr r, s') \<Longrightarrow> \<exists>t b. r = tool_result t b"
    and call_tools: "ms_tools (srv (snd (call env params s))) = ms_tools (srv s)"
    and call_once: "\<exists>l. ms_calls (srv (snd (call env params s))) = ms_calls (srv s) @ l \<and> length l \<le> 1"
begin

lemma dispatch_effect:
  "ms_tools (srv (snd (dispatch_request srv (call env) rq s))) = ms_tools (srv s) \<and>
   (\<exists>l. ms_calls (srv (snd (dispatch_request srv (call env) rq s))) = ms_calls (srv s) @ l \<and> length l \<le> 1)"
proof (cases "call env (case mr_params rq of None \<Rightarrow> [] | Some p \<Rightarrow> p) s")
  case (Pair r s1)
  have "ms_tools (srv s1) = ms_tools (srv s)" "\<exists>l. ms_calls (srv s1) = ms_calls (srv s) @ l \<and> length l \<le> 1"
    using call_tools [of env "case mr_params rq of None \<Rightarrow> [] | Some p \<Rightarrow> p" s] call_once [of env "case mr_params rq of None \<Rightarrow> [] | Some p \<Rightarrow> p" s] Pair
    by simp_all
  with Pair show ?thesis
    by (auto simp: dispatch_request_def Let_def split: sum.splits mcp_exn.splits)
qed

lemma consume_effect:
  "ms_tools (srv (snd (consume lb srv (call env) raw s))) = ms_tools (srv s) \<and>
   (\<exists>l. ms_calls (srv (snd (consume lb srv (call env) raw s))) = ms_calls (srv s) @ l \<and> length l \<le> 1)"
proof -
  have "\<exists>rq. snd (consume lb srv (call env) raw s) = s \<or> snd (consume lb srv (call env) raw s) = snd (dispatch_request srv (call env) rq s)"
    by (auto simp: consume_def split: sum.splits bool.splits option.splits prod.splits pyval.splits) (metis snd_conv)+
  then show ?thesis using dispatch_effect [of env _ s] by (metis append_Nil2 le0 list.size(3))
qed

text \<open>A request is answered by one object that has its identifier and either a result or an error.\<close>

lemma request_answered:
  assumes "parse_mcp_request raw = Some rq" "mr_method rq \<noteq> []"
  shows "\<exists>answer s'. consume lb srv (call env) raw s = (Some (Some (PDict answer)), s') \<and> map_of answer ''id'' = Some (id_value (mr_id rq)) \<and>
    (map_of answer ''result'' = None \<longleftrightarrow> map_of answer ''error'' \<noteq> None)"
proof -
  from assms have raw: "map_of raw ''method'' = Some (PStr (mr_method rq))" "\<exists>i. map_of raw ''id'' = Some i \<and> coerce_id i = Some (mr_id rq)"
    by (auto simp: parse_mcp_request_def split: if_splits option.splits pyval.splits)
  then obtain i where i: "map_of raw ''id'' = Some i" "coerce_id i = Some (mr_id rq)" by blast
  then have "i \<noteq> PNone" by auto
  obtain out s1 where d: "dispatch_request srv (call env) rq s = (out, s1)" by fastforce
  have "\<exists>answer. v = PDict answer \<and> map_of answer ''id'' = Some (id_value (mr_id rq)) \<and> (map_of answer ''result'' = None \<longleftrightarrow> map_of answer ''error'' \<noteq> None)"
    if "out = Inr v" for v
    using d that by (auto simp: dispatch_request_def Let_def mcp_response_def mcp_error_response_def mcp_error_object_def split: if_splits prod.splits sum.splits mcp_exn.splits)
  with raw i \<open>i \<noteq> PNone\<close> d assms show ?thesis
    by (cases out; cases i) (auto simp: consume_def mcp_error_response_def mcp_error_object_def)
qed

lemma serve_effect:
  "serve_stdio lb srv call ins s = (out, crashed, s') \<Longrightarrow> ms_tools (srv s') = ms_tools (srv s) \<and>
   (\<exists>l. ms_calls (srv s') = ms_calls (srv s) @ l \<and> length l \<le> length ins)"
proof (induction ins arbitrary: s out)
  case (Cons i ins)
  obtain env line where i: "i = (env, line)" by fastforce
  show ?case
  proof (cases "read_stdin lb line")
    case (Some raw)
    obtain w s1 where c: "consume lb srv (call env) raw s = (w, s1)" by fastforce
    with consume_effect [of env raw s] obtain l1 where l1: "ms_tools (srv s1) = ms_tools (srv s)" "ms_calls (srv s1) = ms_calls (srv s) @ l1" "length l1 \<le> 1"
      by auto
    show ?thesis
    proof (cases w)
      case None
      with Cons.prems i Some c l1 show ?thesis by (auto intro!: exI [of _ l1])
    next
      case (Some w')
      obtain out1 where "serve_stdio lb srv call ins s1 = (out1, crashed, s')"
        using Cons.prems i \<open>read_stdin lb line = Some raw\<close> c Some by (auto split: prod.splits)
      from Cons.IH [OF this] obtain l2 where "ms_tools (srv s') = ms_tools (srv s1)" "ms_calls (srv s') = ms_calls (srv s1) @ l2" "length l2 \<le> length ins" by auto
      with l1 show ?thesis by (auto intro!: exI [of _ "l1 @ l2"])
    qed
  qed (use Cons.prems i in \<open>auto intro!: exI [of _ "[]"]\<close>)
qed (auto intro!: exI [of _ "[]"])

end

lemma handle_tools_call_shape: "handle_tools_call lb debug params s = (Inr r, s') \<Longrightarrow> \<exists>t b. r = tool_result t b"
  by (auto simp: handle_tools_call_def Let_def split: option.splits schema_check.splits tool_output.splits)

lemma handle_tools_call_effect:
  "ms_tools (snd (handle_tools_call lb debug params s)) = ms_tools s \<and>
   (\<exists>l. ms_calls (snd (handle_tools_call lb debug params s)) = ms_calls s @ l \<and> length l \<le> 1)"
  by (simp add: handle_tools_call_def Let_def split: option.split schema_check.split tool_output.split)

interpretation plain: tool_server lb id "handle_tools_call lb" for lb
  by unfold_locales (use handle_tools_call_shape handle_tools_call_effect in \<open>auto simp: id_def\<close>)

lemma super_effect:
  "ms_tools (px_server (snd (super_tools_call lb debug params s))) = ms_tools (px_server s)"
  "\<exists>l. ms_calls (px_server (snd (super_tools_call lb debug params s))) = ms_calls (px_server s) @ l \<and> length l \<le> 1"
  "super_tools_call lb debug params s = (Inr r, s') \<Longrightarrow> \<exists>t b. r = tool_result t b"
  using handle_tools_call_effect [of lb debug params "px_server s"] handle_tools_call_shape
  by (auto simp: super_tools_call_def case_prod_beta prod_eq_iff)

text \<open>The protected handler either refuses, with the calls as they were, or runs the inherited one in a state with the same server.\<close>

lemma protected_tools_call_cases:
  obtains (refused) r s1 where "protected_tools_call lb debug cf ce params s = (r, s1)" "px_server s1 = px_server s"
      "\<And>v. r = Inr v \<Longrightarrow> \<exists>t b. v = tool_result t b"
  | (ran) s1 where "protected_tools_call lb debug cf ce params s = super_tools_call lb debug params s1" "px_server s1 = px_server s"
proof -
  let ?r = "protected_tools_call lb debug cf ce params s"
  have "(px_server (snd ?r) = px_server s \<and> (\<forall>v. fst ?r = Inr v \<longrightarrow> (\<exists>t b. v = tool_result t b))) \<or>
     (\<exists>s1. ?r = super_tools_call lb debug params s1 \<and> px_server s1 = px_server s)"
    by (auto simp: protected_tools_call_def Let_def check_capability_grant_def tool_error_result_def split: option.split list.split sum.split prod.split if_split)
  then show thesis using refused [OF prod.collapse [symmetric]] ran by blast
qed

interpretation guarded: tool_server lb px_server "protected_tools_call lb debug cf" for lb debug cf
proof (unfold_locales, goal_cases)
  case (1 ce params s r s')
  show ?case
  proof (rule protected_tools_call_cases [of lb debug cf ce params s])
    fix s1 assume "protected_tools_call lb debug cf ce params s = super_tools_call lb debug params s1"
    with 1 super_effect(3) [of lb debug params s1] show ?thesis by simp
  qed (use 1 in auto)
next
  case (2 ce params s)
  show ?case
    by (rule protected_tools_call_cases [of lb debug cf ce params s]) (use super_effect(1) in auto)
next
  case (3 ce params s)
  show ?case
  proof (rule protected_tools_call_cases [of lb debug cf ce params s])
    fix s1 assume "protected_tools_call lb debug cf ce params s = super_tools_call lb debug params s1" "px_server s1 = px_server s"
    with super_effect(2) [of lb debug params s1] show ?thesis by simp
  qed simp
qed

subsection \<open>Properties\<close>

lemma super_tools_call_ran:
  assumes "super_tools_call lb debug params s = (out, s')" "ms_calls (px_server s') \<noteq> ms_calls (px_server s)" "parse_call_params params = Some p"
  obtains r where "map_of (ms_tools (px_server s)) (cp_name p) = Some r" "ml_validate lb (tr_schema r) (cp_arguments p) = SchemaHolds"
    "ms_calls (px_server s') = ms_calls (px_server s) @ [(cp_name p, cp_arguments p)]"
  using assms by (auto simp: super_tools_call_def handle_tools_call_def Let_def split: option.splits schema_check.splits tool_output.splits)

text \<open>C27: a tool of a protected server runs only if it is registered, its arguments satisfy its schema and, unless it is public, the token of the call was
  verified to an agent that was active and unexpired when the session was touched, of a host that was not revoked when the verification read it;
  with grants enforced, only if the token claims the capability of the tool and the agent holds an active, unexpired grant of it whose
  constraints hold of the very arguments the tool gets, in the sense of \<open>field_holds\<close>: an argument that is \<open>NaN\<close>, which \<open>json.loads\<close> accepts, is
  within every \<open>max\<close> and \<open>min\<close>.\<close>

theorem mcp_tools_need_grants:
  assumes "protected_tools_call lb debug cf ce params s = (out, s')" "ms_calls (px_server s') \<noteq> ms_calls (px_server s)"
  shows "\<exists>p r. parse_call_params params = Some p \<and> map_of (ms_tools (px_server s)) (cp_name p) = Some r \<and>
    ml_validate lb (tr_schema r) (cp_arguments p) = SchemaHolds \<and> ms_calls (px_server s') = ms_calls (px_server s) @ [(cp_name p, cp_arguments p)] \<and>
    (cp_name p \<in> set (ma_public_tools cf) \<or>
     (\<exists>token result cur aid host iss. resolve_jwt_extractor cf (ce_env_jwt ce) p = Some token \<and>
        fst (verify_agent_jwt (ml_jose lb) (ml_digest lb) (ce_now ce) (ce_now_jti ce) (ce_clock ce) (ce_between ce) (ce_before_touch ce)
          token (ma_hosts cf) (ma_audience cf) (px_jti s, px_agents s)) = Inr result \<and> jv_ok result \<and>
        agent_get aid (ce_before_touch ce (ce_between ce (px_agents s))) = Some cur \<and> agent_status cur = AgentActive \<and>
        check_agent_expiry (now_cas (ce_clock ce)) cur = Live \<and>
        host_get_by_public_key iss (ma_hosts cf) = Some host \<and> host_status host \<noteq> HostRevoked \<and> host_id host = agent_host_id cur \<and>
        (ma_enforce_grants cf \<longrightarrow>
           (let cap = resolve_capability (cp_name p) cf (px_server s)
            in cap \<in> set (capabilities_claim result) \<and>
               (\<exists>g. map_of (agent_grants (agent_id cur) (ma_registry cf)) cap = Some g \<and> g_status g = GrantActive \<and>
                  (\<forall>e. g_expires_at g = Some e \<longrightarrow> ce_datetime ce \<le> e) \<and>
                  (\<forall>cs. g_constraints g = Some cs \<longrightarrow> (\<forall>(field, spec) \<in> set cs. field_holds field spec (cp_arguments p))))))))"
proof -
  obtain p where p: "parse_call_params params = Some p"
    using assms by (cases "parse_call_params params") (auto simp: protected_tools_call_def)
  show ?thesis
  proof (cases "cp_name p \<in> set (ma_public_tools cf)")
    case True
    then have "super_tools_call lb debug params s = (out, s')" using assms(1) p by (simp add: protected_tools_call_def)
    from super_tools_call_ran [OF this assms(2) p] True p show ?thesis by blast
  next
    case False
    with assms p obtain token result jti rows where v: "resolve_jwt_extractor cf (ce_env_jwt ce) p = Some token"
      "verify_agent_jwt (ml_jose lb) (ml_digest lb) (ce_now ce) (ce_now_jti ce) (ce_clock ce) (ce_between ce) (ce_before_touch ce)
          token (ma_hosts cf) (ma_audience cf) (px_jti s, px_agents s) = (Inr result, (jti, rows))" "jv_ok result"
      and grant: "ma_enforce_grants cf \<Longrightarrow> check_capability_grant lb cf (ce_datetime ce) p result (px_server s) = Inr None"
      and super: "super_tools_call lb debug params (s\<lparr>px_jti := jti, px_agents := rows\<rparr>) = (out, s')"
      by (auto simp: protected_tools_call_def Let_def split: option.splits list.splits sum.splits prod.splits if_splits)
    from verify_agent_jwt_current [OF v(2,3)] obtain aid cur iss host where c:
      "host_get_by_public_key iss (ma_hosts cf) = Some host" "host_status host \<noteq> HostRevoked" "host_id host = agent_host_id cur"
      "agent_get aid (ce_before_touch ce (ce_between ce (px_agents s))) = Some cur" "agent_status cur = AgentActive"
      "check_agent_expiry (now_cas (ce_clock ce)) cur = Live"
      "jv_agent result = Some (cur\<lparr>last_used_at := Some (now_used (ce_clock ce))\<rparr>)" by metis
    let ?cap = "resolve_capability (cp_name p) cf (px_server s)"
    have "?cap \<in> set (capabilities_claim result) \<and> (\<exists>res. check_grant (ce_datetime ce) (agent_id cur) ?cap (Some (cp_arguments p)) (ma_registry cf) = Inr res \<and> gc_allowed res)"
      if "ma_enforce_grants cf"
      using grant [OF that] c(7) by (auto simp: check_capability_grant_def Let_def split: if_splits sum.splits)
    then have g: "ma_enforce_grants cf \<longrightarrow> (let cap = ?cap in cap \<in> set (capabilities_claim result) \<and>
               (\<exists>g. map_of (agent_grants (agent_id cur) (ma_registry cf)) cap = Some g \<and> g_status g = GrantActive \<and>
                  (\<forall>e. g_expires_at g = Some e \<longrightarrow> ce_datetime ce \<le> e) \<and>
                  (\<forall>cs. g_constraints g = Some cs \<longrightarrow> (\<forall>(field, spec) \<in> set cs. field_holds field spec (cp_arguments p)))))"
      unfolding Let_def check_grant_allowed_iff by simp
    obtain r where "map_of (ms_tools (px_server s)) (cp_name p) = Some r" "ml_validate lb (tr_schema r) (cp_arguments p) = SchemaHolds"
      "ms_calls (px_server s') = ms_calls (px_server s) @ [(cp_name p, cp_arguments p)]"
      by (rule super_tools_call_ran [OF super _ p]) (use assms(2) in simp_all)
    with p v c g show ?thesis by (intro exI [of _ p] exI [of _ r]) (simp, blast)
  qed
qed

text \<open>A well-formed request line is answered by exactly one object, which has the identifier of the request and either a result or an
  error, and runs at most one tool; this is so for the plain and for the protected server.\<close>

theorem mcp_requests_answered_once:
  assumes "read_stdin lb line = Some raw" "parse_mcp_request raw = Some rq" "mr_method rq \<noteq> []"
  shows "(\<exists>answer s'. serve_stdio lb id (handle_tools_call lb) [(debug, line)] s = ([PDict answer], False, s') \<and>
      map_of answer ''id'' = Some (id_value (mr_id rq)) \<and> (map_of answer ''result'' = None \<longleftrightarrow> map_of answer ''error'' \<noteq> None) \<and>
      (\<exists>l. ms_calls s' = ms_calls s @ l \<and> length l \<le> 1)) \<and>
    (\<exists>answer t'. serve_stdio lb px_server (protected_tools_call lb debug cf) [(ce, line)] t = ([PDict answer], False, t') \<and>
      map_of answer ''id'' = Some (id_value (mr_id rq)) \<and> (map_of answer ''result'' = None \<longleftrightarrow> map_of answer ''error'' \<noteq> None) \<and>
      (\<exists>l. ms_calls (px_server t') = ms_calls (px_server t) @ l \<and> length l \<le> 1))"
proof -
  from plain.request_answered [OF assms(2,3), of lb debug s] obtain a s' where
    "consume lb id (handle_tools_call lb debug) raw s = (Some (Some (PDict a)), s')" "map_of a ''id'' = Some (id_value (mr_id rq))"
    "map_of a ''result'' = None \<longleftrightarrow> map_of a ''error'' \<noteq> None" by auto
  moreover from guarded.request_answered [OF assms(2,3), of lb debug cf ce t] obtain b t' where
    "consume lb px_server (protected_tools_call lb debug cf ce) raw t = (Some (Some (PDict b)), t')" "map_of b ''id'' = Some (id_value (mr_id rq))"
    "map_of b ''result'' = None \<longleftrightarrow> map_of b ''error'' \<noteq> None" by auto
  moreover have "\<exists>l. ms_calls s' = ms_calls s @ l \<and> length l \<le> 1"
    using plain.consume_effect [of lb debug raw s] calculation(1) by (auto simp: id_def)
  moreover have "\<exists>l. ms_calls (px_server t') = ms_calls (px_server t) @ l \<and> length l \<le> 1"
    using guarded.consume_effect [of lb debug cf ce raw t] calculation(4) by auto
  ultimately show ?thesis using assms(1) by simp
qed

subsection \<open>Client and server\<close>

text \<open>JSON as the two sides use it: reading a written value gives it back, and a written value is one line.\<close>

definition json_faithful :: "mcp_lib \<Rightarrow> bool" where
  "json_faithful lb \<longleftrightarrow>
     (\<forall>v. wf_val v \<longrightarrow> ml_loads lb (ml_dumps lb v) = Some v \<and> ml_dumps lb v \<noteq> [] \<and> rstrip_newlines (ml_dumps lb v) = ml_dumps lb v)"

definition written :: "mcp_lib \<Rightarrow> pyval \<Rightarrow> string" where
  "written lb v = ml_dumps lb v @ [char_of (10 :: nat)]"

lemma rstrip_written: "json_faithful lb \<Longrightarrow> wf_val v \<Longrightarrow> rstrip_newlines (written lb v) = ml_dumps lb v"
  by (simp add: json_faithful_def written_def rstrip_newlines_def newline_char_def)

text \<open>What the client reads when the server of state \<open>s\<close> serves its last request and the line it answers with is within the limit of the reader.\<close>

definition answered_by ::
  "mcp_lib \<Rightarrow> ('s \<Rightarrow> mcp_server) \<Rightarrow> ('e \<Rightarrow> pydict \<Rightarrow> 's \<Rightarrow> ('s, mcp_exn, pydict) outcome) \<Rightarrow> 'e \<Rightarrow> 's \<Rightarrow> mcp_client \<Rightarrow> received" where
  "answered_by lb srv call env s c =
     (case serve_stdio lb srv call [(env, written lb (last (mk_sent c)))] s of
        (v # out, crashed, s') \<Rightarrow> ReadText (written lb v)
      | _ \<Rightarrow> ReadText [])"

text \<open>The outcome of a handler as a client gets to see it.\<close>

definition client_view :: "mcp_exn + pydict \<Rightarrow> call_tool_result" where
  "client_view out =
     (case out of
        Inr r \<Rightarrow> \<lparr>cr_content = (case map_of r ''content'' of Some (PList l) \<Rightarrow> l | _ \<Rightarrow> []), cr_is_error = (map_of r ''isError'' = Some (PBool True))\<rparr>
      | Inl (McpValueError e) \<Rightarrow> \<lparr>cr_content = [PDict [(''type'', PStr ''text''), (''text'', PStr e)]], cr_is_error = True\<rparr>
      | Inl (McpError e) \<Rightarrow> \<lparr>cr_content = [PDict [(''type'', PStr ''text''), (''text'', PStr e)]], cr_is_error = True\<rparr>)"

lemma coerce_id_value [simp]: "coerce_id (id_value i) = Some i"
  by (cases i) (simp_all add: id_value_def)

lemma wf_id_value [simp]: "wf_val (id_value i)"
  by (cases i) (simp_all add: id_value_def)

lemma id_value_not_None [simp]: "id_value i \<noteq> PNone" "PNone \<noteq> id_value i"
  by (cases i; simp add: id_value_def)+

lemma parse_call_object:
  "parse_mcp_request [(''jsonrpc'', PStr ''2.0''), (''id'', id_value i), (''method'', PStr m), (''params'', PDict params)] =
     Some \<lparr>mr_id = i, mr_method = m, mr_params = Some params\<rparr>"
  by (simp add: parse_mcp_request_def optional_object_def)

lemmas parse_call_object_ids =
  parse_call_object [of "IdStr t" for t, unfolded id_value_def rpc_id.case] parse_call_object [of "IdInt n" for n, unfolded id_value_def rpc_id.case]

text \<open>What an answer says of the outcome of the handler.\<close>

definition reports :: "mcp_exn + pydict \<Rightarrow> pydict \<Rightarrow> bool" where
  "reports out answer \<longleftrightarrow>
     (case out of
        Inr r \<Rightarrow> map_of answer ''error'' = None \<and> map_of answer ''result'' = Some (PDict r)
      | Inl x \<Rightarrow> map_of answer ''error'' = Some (PDict [(''code'', PInt (case x of McpValueError e \<Rightarrow> INVALID_PARAMS | McpError e \<Rightarrow> INTERNAL_ERROR)),
          (''message'', PStr (case x of McpValueError e \<Rightarrow> e | McpError e \<Rightarrow> e)), (''data'', PNone)]))"

context tool_server
begin

lemma call_consumed:
  "\<exists>answer. fst (consume lb srv (call env) [(''jsonrpc'', PStr ''2.0''), (''id'', id_value i), (''method'', PStr ''tools/call''), (''params'', PDict params)] s) =
     Some (Some (PDict answer)) \<and> wf_val (PDict answer) \<and> reports (fst (call env params s)) answer"
proof -
  obtain out s1 where c: "call env params s = (out, s1)" by fastforce
  have shape: "\<exists>t b. r = tool_result t b" if "out = Inr r" for r using call_result c that by blast
  show ?thesis
  proof (cases out)
    case (Inl x)
    with c show ?thesis
      by (cases x; cases i)
        (simp_all add: consume_def parse_call_object_ids dispatch_request_def Let_def mcp_error_response_def mcp_error_object_def id_value_def reports_def)
  next
    case (Inr r)
    with shape obtain t b where "r = tool_result t b" by blast
    with Inr c show ?thesis
      by (simp add: consume_def parse_call_object dispatch_request_def Let_def mcp_response_def tool_result_def text_content_def reports_def)
  qed
qed

lemma round_trip:
  assumes json: "json_faithful lb" and c: "mk_initialized c" and wf: "wf_val (PDict args)" "\<And>m. meta = Some m \<Longrightarrow> wf_val (PDict m)"
  shows "fst (call_tool lb name args meta (answered_by lb srv call env s) c) = Inr (client_view (fst (call env (call_tool_params name args meta) s)))"
proof -
  let ?params = "call_tool_params name args meta"
  obtain i c1 where i: "next_id c = (i, c1)" by fastforce
  let ?raw = "[(''jsonrpc'', PStr ''2.0''), (''id'', id_value i), (''method'', PStr ''tools/call''), (''params'', PDict ?params)]"
  let ?c = "mcp_send (mcp_call_object i ''tools/call'' ?params) c1"
  have wfr: "wf_val (PDict ?raw)" using wf by (auto simp: call_tool_params_def split: option.split)
  then have read: "read_stdin lb (written lb (PDict ?raw)) = Some ?raw"
    using json rstrip_written [OF json wfr] by (simp add: read_stdin_def json_faithful_def)
  from call_consumed [of env i ?params s] obtain answer where
    "fst (consume lb srv (call env) ?raw s) = Some (Some (PDict answer))" and a: "wf_val (PDict answer)" "reports (fst (call env ?params s)) answer"
    by blast
  then obtain s1 where s1: "consume lb srv (call env) ?raw s = (Some (Some (PDict answer)), s1)" by (cases "consume lb srv (call env) ?raw s") simp
  have "answered_by lb srv call env s ?c = ReadText (written lb (PDict answer))"
    using s1 read by (simp add: answered_by_def mcp_send_def mcp_call_object_def)
  then have got: "mcp_receive lb (answered_by lb srv call env s ?c) = Inr (Some answer)"
    using json a(1) rstrip_written [OF json a(1)] by (simp add: mcp_receive_def json_faithful_def)
  show ?thesis
  proof (cases "fst (call env ?params s)")
    case (Inl x)
    with a(2) i got c show ?thesis
      by (cases x) (simp_all add: reports_def call_tool_def mcp_ask_def Let_def client_view_def)
  next
    case (Inr r)
    then obtain t b where "r = tool_result t b" using call_result [of env ?params s r "snd (call env ?params s)"] by (auto simp: prod_eq_iff)
    with Inr a(2) i got c show ?thesis
      by (simp add: reports_def call_tool_def mcp_ask_def Let_def client_view_def tool_result_def parse_tool_result_def aliased_def optional_object_def
          is_object_def text_content_def)
  qed
qed

end

text \<open>C28: what a client gets from \<open>call_tool\<close> is what the handler of the server made of the same name, arguments and metadata: its result, or its
  exception as an error result; this is so for the plain and for the protected server, when JSON texts are read back as they were written and the line
  of the answer is within the 64 KiB the client's reader takes.\<close>

theorem mcp_call_round_trip:
  assumes "json_faithful lb" "mk_initialized c" "wf_val (PDict args)" "\<forall>m. meta = Some m \<longrightarrow> wf_val (PDict m)"
  shows "fst (call_tool lb name args meta (answered_by lb id (handle_tools_call lb) debug s) c) =
      Inr (client_view (fst (handle_tools_call lb debug (call_tool_params name args meta) s))) \<and>
    fst (call_tool lb name args meta (answered_by lb px_server (protected_tools_call lb debug cf) ce t) c) =
      Inr (client_view (fst (protected_tools_call lb debug cf ce (call_tool_params name args meta) t))) \<and>
    parse_call_params (call_tool_params name args meta) = Some \<lparr>cp_name = name, cp_arguments = args, cp_meta = meta\<rparr>"
  using plain.round_trip [of lb c args meta name debug s] guarded.round_trip [of lb c args meta name debug cf ce t] assms
  by (auto simp: parse_call_params_def call_tool_params_def optional_object_def split: option.split)

subsection \<open>A sample server\<close>

definition sample_mcp_lib :: "pydict \<Rightarrow> mcp_lib" where
  "sample_mcp_lib claims =
     \<lparr>ml_loads = (\<lambda>t. Some (from_nat (length t - 1))), ml_dumps = (\<lambda>v. replicate (Suc (to_nat v)) (CHR ''x'')),
      ml_str = (\<lambda>v. []), ml_repr = id, ml_validate = (\<lambda>schema args. SchemaHolds), ml_params_error = (\<lambda>d. []), ml_request_error = (\<lambda>d. []),
      ml_exn_text = (\<lambda>x. []), ml_jose = sample_jose [(''typ'', PStr AGENT_JWT_TYP)] claims, ml_digest = sample_digest, ml_violation_text = (\<lambda>v. [])\<rparr>"

lemma sample_json_faithful: "json_faithful (sample_mcp_lib claims)"
proof -
  have "rstrip_newlines (replicate (Suc n) (CHR ''x'')) = replicate (Suc n) (CHR ''x'')" for n
    by (simp add: rstrip_newlines_def newline_char_def flip: replicate_append_same) (simp add: replicate_append_same newline_char_def)
  then show ?thesis by (simp add: json_faithful_def sample_mcp_lib_def)
qed

definition sample_pay_claims :: pydict where
  "sample_pay_claims = agent_jwt_claims ''tp'' ''a'' (OneAud ''srv'') (Some [''pay'']) 1000 ''1''"

definition sample_call_env :: call_env where
  "sample_call_env = \<lparr>ce_now = 1010, ce_now_jti = 1010, ce_clock = sample_clock, ce_between = id, ce_before_touch = id, ce_datetime = 5, ce_env_jwt = None\<rparr>"

definition sample_mcp_auth :: mcp_auth where
  "sample_mcp_auth = \<lparr>ma_hosts = sample_hosts, ma_registry = pay_grant, ma_capability_map = [], ma_public_tools = [], ma_enforce_grants = True,
     ma_validate_tools = False, ma_jwt_extractor = None, ma_env_fallback = False, ma_audience = Some (OneAud ''srv'')\<rparr>"

definition sample_mcp_server :: mcp_server where
  "sample_mcp_server = register_tool ''pay'' (\<lambda>a. ToolReturns (PStr ''paid'')) [] [] None None (mcp_server_init ''n'' ''1'' None None None)"

definition sample_protected :: protected_server where
  "sample_protected = \<lparr>px_server = sample_mcp_server, px_jti = None, px_agents = [(''a'', sample_agent AgentActive)]\<rparr>"

definition sample_pay_params :: pydict where
  "sample_pay_params = call_tool_params ''pay'' [(''amount'', PInt 7)] (Some [(META_JWT_KEY, PStr ''t'')])"

lemma sample_pay_verified:
  "verify_agent_jwt (sample_jose [(''typ'', PStr AGENT_JWT_TYP)] sample_pay_claims) sample_digest 1010 1010 sample_clock id id ''t'' sample_hosts
     (Some (OneAud ''srv'')) (None, [(''a'', sample_agent AgentActive)]) =
   (Inr \<lparr>jv_ok = True, jv_claims = Some sample_pay_claims, jv_host = Some sample_host,
      jv_agent = Some ((sample_agent AgentActive)\<lparr>last_used_at := Some 7\<rparr>), jv_error = None\<rparr>,
    (None, [(''a'', (sample_agent AgentActive)\<lparr>last_used_at := Some 7\<rparr>)]))"
proof -
  have ok: "validate_standard_claims sample_pay_claims 1010 (Some (OneAud ''srv'')) = Inr None"
    by (simp add: sample_pay_claims_def agent_jwt_claims_def validate_standard_claims_def exp_valid_def get_claim_def
        DBL_LIMIT_def AGENT_JWT_TTL_SECONDS_def iat_not_in_future_def IAT_MAX_FUTURE_SKEW_SECONDS_def jti_present_def
        audience_matches_expected_def aud_value_def strip_eq_Nil_iff py_space_def)
  have claims: "get_claim sample_pay_claims ''sub'' = PStr ''a''" "get_claim sample_pay_claims ''iss'' = PStr ''tp''"
    "jti_of sample_pay_claims = ''jwt_1''"
    by (simp_all add: sample_pay_claims_def agent_jwt_claims_def get_claim_def jti_of_def)
  have row: "agent_row_for_token (sample_jose [(''typ'', PStr AGENT_JWT_TYP)] sample_pay_claims) ''t''
      [(''a'', sample_agent AgentActive)] = Inr (Inr (sample_agent AgentActive))"
    using claims by (simp add: agent_row_for_token_def sample_jose_def get_claim_def strip_eq_Nil_iff py_space_def agent_get_def
        unusable_agent_error_def sample_agent_def)
  have host: "verify_agent_claims 1010 1010 sample_hosts (Some (OneAud ''srv'')) (sample_agent AgentActive)
      sample_pay_claims None = (Inr (Inr sample_host), None)"
    using claims ok by (simp add: verify_agent_claims_def strip_eq_Nil_iff py_space_def host_get_by_public_key_def
        sample_hosts_def sample_host_def sample_agent_def check_jti_def)
  have live: "check_agent_expiry t (sample_agent AgentActive) = Live" for t
    by (simp add: check_agent_expiry_def sample_agent_def)
  have slide: "slide_session_if_still_current sample_digest sample_clock id (sample_agent AgentActive)
      [(''a'', sample_agent AgentActive)] = (Inr (Inr ((sample_agent AgentActive)\<lparr>last_used_at := Some 7\<rparr>)),
      [(''a'', (sample_agent AgentActive)\<lparr>last_used_at := Some 7\<rparr>)])"
    using live by (simp add: slide_session_if_still_current_def agent_get_def unusable_agent_error_def
        agent_public_key_changed_def jwk_thumbprint_sha256_def required_members_def sample_digest_def member_def expired_agent_error_def
        touch_if_current_def Let_def sample_agent_def sample_clock_def)
  show ?thesis
    using row host live slide by (simp add: verify_agent_jwt_def sample_jose_def expired_agent_error_def)
qed

lemma sample_pay_ran:
  "ms_calls (px_server (snd (protected_tools_call (sample_mcp_lib sample_pay_claims) False sample_mcp_auth sample_call_env sample_pay_params sample_protected))) =
     [(''pay'', [(''amount'', PInt 7)])]"
proof -
  have p: "parse_call_params sample_pay_params = Some \<lparr>cp_name = ''pay'', cp_arguments = [(''amount'', PInt 7)], cp_meta = Some [(META_JWT_KEY, PStr ''t'')]\<rparr>"
    by (simp add: parse_call_params_def sample_pay_params_def call_tool_params_def optional_object_def)
  have t: "strip ''t'' = ''t''" by (simp add: strip_def lstrip_def rstrip_def py_space_def)
  have "check_grant 5 ''a'' ''pay'' (Some [(''amount'', PInt 7)]) pay_grant =
      Inr \<lparr>gc_allowed = True, gc_violations = [], gc_grant = map_of (agent_grants ''a'' pay_grant) ''pay''\<rparr>"
    by (simp add: check_grant_def pay_grant_def agent_grants_def grant_def Let_def registry_init_def
        check_field_def OPERATOR_KEYS_def check_operator_def is_number_def py_gt_def)
  moreover have "''pay'' \<in> set (capabilities_claim \<lparr>jv_ok = True, jv_claims = Some sample_pay_claims, jv_host = h, jv_agent = ag, jv_error = e\<rparr>)" for h ag e
    by (simp add: capabilities_claim_def sample_pay_claims_def agent_jwt_claims_def get_claim_def only_strings_def)
  ultimately show ?thesis
    using sample_pay_verified p t
    by (simp add: protected_tools_call_def sample_mcp_auth_def resolve_jwt_extractor_def default_jwt_extractor_def stripped_def sample_mcp_lib_def
        sample_call_env_def sample_protected_def check_capability_grant_def resolve_capability_def get_tool_capability_def sample_mcp_server_def register_tool_def
        mcp_server_init_def sample_agent_def super_tools_call_def handle_tools_call_def Let_def)
qed

theorem mcp_tools_need_grants_witness:
  "\<exists>g. map_of (agent_grants ''a'' pay_grant) ''pay'' = Some g \<and> g_status g = GrantActive"
proof -
  let ?r = "protected_tools_call (sample_mcp_lib sample_pay_claims) False sample_mcp_auth sample_call_env sample_pay_params sample_protected"
  have "ms_calls (px_server (snd ?r)) \<noteq> ms_calls (px_server sample_protected)"
    using sample_pay_ran by (simp add: sample_protected_def sample_mcp_server_def register_tool_def mcp_server_init_def)
  from mcp_tools_need_grants [OF prod.collapse [symmetric] this] show ?thesis
    by (auto simp: sample_pay_ran Let_def sample_mcp_auth_def resolve_capability_def get_tool_capability_def sample_protected_def sample_mcp_server_def
        register_tool_def mcp_server_init_def agent_get_def sample_call_env_def sample_agent_def split: if_splits)
qed

theorem mcp_requests_answered_once_witness:
  "length (fst (serve_stdio (sample_mcp_lib []) id (handle_tools_call (sample_mcp_lib [])) 
     [(False, written (sample_mcp_lib []) (mcp_call_object (IdInt 1) ''ping'' []))] sample_mcp_server)) = 1"
proof -
  let ?lb = "sample_mcp_lib []"
  let ?raw = "[(''jsonrpc'', PStr ''2.0''), (''id'', id_value (IdInt 1)), (''method'', PStr ''ping''), (''params'', PDict [])]"
  have wf: "wf_val (PDict ?raw)" by simp
  have "read_stdin ?lb (written ?lb (mcp_call_object (IdInt 1) ''ping'' [])) = Some ?raw"
    using sample_json_faithful [of "[]"] rstrip_written [OF sample_json_faithful wf, of "[]"] wf
    by (simp add: read_stdin_def json_faithful_def mcp_call_object_def)
  from mcp_requests_answered_once [OF this parse_call_object, of False sample_mcp_server sample_mcp_auth sample_call_env sample_protected]
  show ?thesis by (auto simp del: serve_stdio.simps)
qed

theorem mcp_call_round_trip_witness:
  "fst (call_tool (sample_mcp_lib []) ''pay'' [] None (answered_by (sample_mcp_lib []) id (handle_tools_call (sample_mcp_lib [])) False sample_mcp_server)
     \<lparr>mk_process = True, mk_initialized = True, mk_request_id = 0, mk_use_str_ids = True, mk_sent = []\<rparr>) =
   Inr \<lparr>cr_content = [text_content ''paid''], cr_is_error = False\<rparr>"
  using mcp_call_round_trip [OF sample_json_faithful, of "\<lparr>mk_process = True, mk_initialized = True, mk_request_id = 0, mk_use_str_ids = True, mk_sent = []\<rparr>"
      "[]" None "[]" "''pay''" False sample_mcp_server]
  by (simp add: handle_tools_call_def sample_mcp_server_def register_tool_def mcp_server_init_def Let_def client_view_def tool_result_def
      sample_mcp_lib_def output_text_def)

subsection \<open>Lines that end the server\<close>

text \<open>An object without a method whose entry \<open>error\<close> is no object, and a request whose identifier is neither text nor integer, raise out of
  the loop; an empty line ends it like the end of the input.\<close>

lemma malformed_error_ends_server:
  assumes "read_stdin lb line = Some raw" "map_of raw ''method'' = None" "map_of raw ''error'' = Some (PStr e)"
  shows "serve_stdio lb srv call ((env, line) # rest) s = ([], True, s)"
  using assms by (simp add: consume_def is_parse_error_def)

lemma malformed_id_ends_server:
  assumes "read_stdin lb line = Some raw" "map_of raw ''method'' = Some (PStr m)" "m \<noteq> []" "map_of raw ''id'' = Some (PList l)"
  shows "serve_stdio lb srv call ((env, line) # rest) s = ([], True, s)"
proof -
  have "parse_mcp_request raw = None" using assms by (simp add: parse_mcp_request_def split: option.split)
  with assms show ?thesis by (simp add: consume_def)
qed

lemma empty_line_ends_server: "serve_stdio lb srv call ((env, ''\<newline>'') # rest) s = ([], False, s)"
  by (simp add: read_stdin_def rstrip_newlines_def newline_char_def)

text \<open>The client takes the next line for the answer: after a call that timed out, the next call returns the late answer of the first.\<close>

lemma late_answer_taken_for_next:
  assumes "mk_initialized c"
    and late: "\<And>c'. mcp_receive lb (reply c') = Inr (Some [(''jsonrpc'', PStr ''2.0''), (''id'', id_value i), (''result'', PDict (tool_result u b))])"
  shows "fst (call_tool lb n2 a2 m2 reply (snd (call_tool lb n1 a1 m1 (\<lambda>_. ReadTimeout t) c))) = Inr \<lparr>cr_content = [text_content u], cr_is_error = b\<rparr>"
  using assms
  by (simp add: call_tool_def mcp_ask_def next_id_def Let_def mcp_receive_def mcp_send_def tool_result_def parse_tool_result_def aliased_def
      optional_object_def is_object_def text_content_def)

end
