(* ===== verification/Openapi.thy ===== *)
theory Openapi
  imports Http_Base Errors
begin

text \<open>
  The OpenAPI adapter (\<open>src/asap/adapters/openapi/\<close>): operations of a document become capabilities (\<open>capability_mapper.py\<close>), some of which need
  a proof of presence (\<open>approval.py\<close>); a call of a capability becomes a request to the described service (\<open>handler.py\<close>), whose base address
  comes from the document (\<open>factory.py\<close>).

  A parsed document is a record: schemas are JSON objects as \<open>model_dump\<close> writes them, every other part that may be a reference
  has type \<open>ref_or\<close>. In a schema \<open>properties\<close> is an object and \<open>allOf\<close> a list, as the parser of the documents (the package
  \<open>openapi_pydantic\<close>) guarantees. A chain of references that never ends exhausts the stack of the interpreter; its depth is the
  argument \<open>fuel\<close>. Logging is left out.
\<close>

subsection \<open>Documents\<close>

datatype 'a ref_or = Ref string | Obj 'a

record oa_media =
  om_schema :: "pydict ref_or option"

record oa_parameter =
  op_name :: string
  op_in :: string
  op_schema :: "pydict ref_or option"
  op_content :: "(string, oa_media) dict"
  op_description :: "string option"
  op_required :: bool

record oa_content =
  oc_content :: "(string, oa_media) dict"

record oa_components =
  cs_schemas :: "(string, pydict) dict"
  cs_parameters :: "(string, oa_parameter ref_or) dict"
  cs_bodies :: "(string, oa_content ref_or) dict"
  cs_responses :: "(string, oa_content ref_or) dict"

record oa_operation =
  oo_operation_id :: "string option"
  oo_summary :: "string option"
  oo_description :: "string option"
  oo_parameters :: "oa_parameter ref_or list"
  oo_request_body :: "oa_content ref_or option"
  oo_responses :: "(string, oa_content ref_or) dict"

record oa_path_item =
  oi_operations :: "(string, oa_operation) dict"
  oi_parameters :: "oa_parameter ref_or list"
  oi_summary :: "string option"
  oi_description :: "string option"

record oa_document =
  od_paths :: "(string, oa_path_item) dict"
  od_components :: oa_components
  od_servers :: "string list"

definition HTTP_METHODS :: "string list" where
  "HTTP_METHODS = [''get'', ''put'', ''post'', ''delete'', ''options'', ''head'', ''patch'', ''trace'']"

definition ref_fragment :: "string \<Rightarrow> string \<Rightarrow> string option" where
  "ref_fragment ref prefix = (if starts_with ref prefix then Some (drop (length prefix) ref) else None)"

subsection \<open>References\<close>

text \<open>\<open>_resolve_parameter\<close>, \<open>_resolve_request_body\<close> and \<open>_resolve_response\<close> follow references alike. \<open>Inl\<close> is the \<open>RecursionError\<close> of a cycle.\<close>

fun resolve_component :: "string \<Rightarrow> (string, 'a ref_or) dict \<Rightarrow> nat \<Rightarrow> 'a ref_or \<Rightarrow> unit + 'a option" where
  "resolve_component prefix bag fuel (Obj x) = Inr (Some x)"
| "resolve_component prefix bag fuel (Ref ref) =
     (case ref_fragment ref prefix of
        None \<Rightarrow> Inr None
      | Some key \<Rightarrow>
          (case (map_of bag key, fuel) of
             (None, _) \<Rightarrow> Inr None
           | (Some t, 0) \<Rightarrow> Inl ()
           | (Some t, Suc n) \<Rightarrow> resolve_component prefix bag n t))"

definition resolve_parameter :: "oa_components \<Rightarrow> nat \<Rightarrow> oa_parameter ref_or \<Rightarrow> unit + oa_parameter option" where
  "resolve_parameter cs = resolve_component ''#/components/parameters/'' (cs_parameters cs)"

definition resolve_request_body :: "oa_components \<Rightarrow> nat \<Rightarrow> oa_content ref_or option \<Rightarrow> unit + oa_content option" where
  "resolve_request_body cs fuel obj =
     (case obj of None \<Rightarrow> Inr None | Some r \<Rightarrow> resolve_component ''#/components/requestBodies/'' (cs_bodies cs) fuel r)"

definition resolve_response :: "oa_components \<Rightarrow> nat \<Rightarrow> oa_content ref_or \<Rightarrow> unit + oa_content option" where
  "resolve_response cs = resolve_component ''#/components/responses/'' (cs_responses cs)"

text \<open>\<open>expand_refs\<close> with \<open>n = 51 - depth\<close>: at depth 51 a node is left as it is.\<close>

definition MAX_REF_DEPTH :: nat where "MAX_REF_DEPTH = 51"

definition schema_ref :: "(string, pydict) dict \<Rightarrow> pydict \<Rightarrow> (string \<times> pydict) option" where
  "schema_ref raws d =
     (case map_of d ''$ref'' of
        Some (PStr ref) \<Rightarrow>
          (case ref_fragment ref ''#/components/schemas/'' of
             Some name \<Rightarrow> (case map_of raws name of Some base \<Rightarrow> Some (name, base) | None \<Rightarrow> None)
           | None \<Rightarrow> None)
      | _ \<Rightarrow> None)"

fun expand_refs :: "(string, pydict) dict \<Rightarrow> nat \<Rightarrow> string list \<Rightarrow> pyval \<Rightarrow> pyval" where
  "expand_refs raws 0 seen node = node"
| "expand_refs raws (Suc n) seen node =
     (case node of
        PDict d \<Rightarrow>
          (case schema_ref raws d of
             Some (name, base) \<Rightarrow>
               if name \<in> set seen then PDict [(''$ref'', case map_of d ''$ref'' of Some r \<Rightarrow> r | None \<Rightarrow> PNone)]
               else expand_refs raws n (name # seen) (PDict base)
           | None \<Rightarrow> PDict (map (\<lambda>(k, v). (k, expand_refs raws n seen v)) d))
      | PList l \<Rightarrow> PList (map (expand_refs raws n seen) l)
      | v \<Rightarrow> v)"

text \<open>The members of a value that is an object.\<close>

definition members_of :: "pyval \<Rightarrow> pydict" where
  "members_of v = (case v of PDict d \<Rightarrow> d | _ \<Rightarrow> [])"

definition materialize :: "(string, pydict) dict \<Rightarrow> pydict ref_or option \<Rightarrow> pydict option" where
  "materialize raws s =
     (case s of
        None \<Rightarrow> None
      | Some (Ref ref) \<Rightarrow>
          (case ref_fragment ref ''#/components/schemas/'' of
             None \<Rightarrow> Some [(''$ref'', PStr ref)]
           | Some name \<Rightarrow>
               (case map_of raws name of
                  None \<Rightarrow> Some [(''$ref'', PStr ref)]
                | Some base \<Rightarrow> Some (members_of (expand_refs raws MAX_REF_DEPTH [name] (PDict base)))))
      | Some (Obj d) \<Rightarrow> Some (members_of (expand_refs raws MAX_REF_DEPTH [] (PDict d))))"

subsection \<open>Input and output schemas\<close>

fun add_parameters ::
  "oa_components \<Rightarrow> nat \<Rightarrow> oa_parameter ref_or list \<Rightarrow> (string \<times> string, oa_parameter) dict \<Rightarrow> unit + (string \<times> string, oa_parameter) dict" where
  "add_parameters cs fuel [] acc = Inr acc"
| "add_parameters cs fuel (p # ps) acc =
     (case resolve_parameter cs fuel p of
        Inl x \<Rightarrow> Inl x
      | Inr None \<Rightarrow> add_parameters cs fuel ps acc
      | Inr (Some q) \<Rightarrow> add_parameters cs fuel ps (AList.update (op_name q, op_in q) q acc))"

definition merge_parameters :: "oa_components \<Rightarrow> nat \<Rightarrow> oa_path_item \<Rightarrow> oa_operation \<Rightarrow> unit + oa_parameter list" where
  "merge_parameters cs fuel item op =
     map_sum id dict_values (add_parameters cs fuel (oi_parameters item @ oo_parameters op) [])"

definition json_media_schema :: "(string, pydict) dict \<Rightarrow> oa_content \<Rightarrow> pydict option" where
  "json_media_schema raws c =
     (case map_of (oc_content c) ''application/json'' of None \<Rightarrow> None | Some m \<Rightarrow> materialize raws (om_schema m))"

definition body_json_schema :: "(string, pydict) dict \<Rightarrow> oa_content option \<Rightarrow> pydict option" where
  "body_json_schema raws b = (case b of None \<Rightarrow> None | Some c \<Rightarrow> json_media_schema raws c)"

fun first_success_schema :: "oa_components \<Rightarrow> nat \<Rightarrow> (string, oa_content ref_or) dict \<Rightarrow> string list \<Rightarrow> unit + pydict option" where
  "first_success_schema cs fuel resps [] = Inr None"
| "first_success_schema cs fuel resps (code # codes) =
     (case map_of resps code of
        None \<Rightarrow> first_success_schema cs fuel resps codes
      | Some r \<Rightarrow>
          (case resolve_response cs fuel r of
             Inl x \<Rightarrow> Inl x
           | Inr None \<Rightarrow> first_success_schema cs fuel resps codes
           | Inr (Some c) \<Rightarrow>
               if map_of (oc_content c) ''application/json'' = None then first_success_schema cs fuel resps codes
               else Inr (json_media_schema (cs_schemas cs) c)))"

definition success_response_schema :: "oa_components \<Rightarrow> nat \<Rightarrow> oa_operation \<Rightarrow> unit + pydict option" where
  "success_response_schema cs fuel op = first_success_schema cs fuel (oo_responses op) [''200'', ''201'']"

fun any_event_stream :: "oa_components \<Rightarrow> nat \<Rightarrow> oa_content ref_or list \<Rightarrow> unit + bool" where
  "any_event_stream cs fuel [] = Inr False"
| "any_event_stream cs fuel (r # rs) =
     (case resolve_response cs fuel r of
        Inl x \<Rightarrow> Inl x
      | Inr None \<Rightarrow> any_event_stream cs fuel rs
      | Inr (Some c) \<Rightarrow>
          if list_ex (\<lambda>m. lower m = ''text/event-stream'') (dict_keys (oc_content c)) then Inr True else any_event_stream cs fuel rs)"

datatype execution_kind = SyncKind | StreamingKind

definition detect_openapi_execution_kind :: "oa_components \<Rightarrow> nat \<Rightarrow> oa_operation \<Rightarrow> unit + execution_kind" where
  "detect_openapi_execution_kind cs fuel op =
     map_sum id (\<lambda>b. if b then StreamingKind else SyncKind) (any_event_stream cs fuel (dict_values (oo_responses op)))"

definition PARAM_IN_KEY :: string where "PARAM_IN_KEY = ''x-openapi-param-in''"

definition parameter_schema :: "(string, pydict) dict \<Rightarrow> oa_parameter \<Rightarrow> pydict" where
  "parameter_schema raws p =
     (let schema = (case op_schema p of
            Some s \<Rightarrow> Some s
          | None \<Rightarrow> (case map_of (op_content p) ''application/json'' of None \<Rightarrow> None | Some m \<Rightarrow> om_schema m));
          base = (case materialize raws schema of None \<Rightarrow> [(''type'', PStr ''string'')] | Some d \<Rightarrow> d);
          prop = AList.update PARAM_IN_KEY (PStr (op_in p)) base
      in case op_description p of
           Some t \<Rightarrow> if t \<noteq> [] \<and> map_of prop ''description'' = None then AList.update ''description'' (PStr t) prop else prop
         | None \<Rightarrow> prop)"

fun parameter_properties :: "(string, pydict) dict \<Rightarrow> oa_parameter list \<Rightarrow> pydict \<times> string list \<Rightarrow> pydict \<times> string list" where
  "parameter_properties raws [] acc = acc"
| "parameter_properties raws (p # ps) (props, required) =
     parameter_properties raws ps
       (AList.update (op_name p) (PDict (parameter_schema raws p)) props,
        if op_required p \<and> op_name p \<notin> set required then required @ [op_name p] else required)"

definition build_input_schema :: "(string, pydict) dict \<Rightarrow> oa_parameter list \<Rightarrow> pydict option \<Rightarrow> pydict option" where
  "build_input_schema raws ps body =
     (let (props, required) = parameter_properties raws ps ([], []);
          parts = (if props \<noteq> []
                   then [[(''type'', PStr ''object''), (''properties'', PDict props)] @
                         (if required \<noteq> [] then [(''required'', PList (map PStr required))] else [])]
                   else []) @
                  (case body of None \<Rightarrow> [] | Some b \<Rightarrow> if b = [] then [] else [b])
      in case parts of [] \<Rightarrow> None | [p] \<Rightarrow> Some p | _ \<Rightarrow> Some [(''allOf'', PList (map PDict parts))])"

subsection \<open>Capabilities\<close>

record oa_skill =
  sk_id :: string
  sk_description :: string
  sk_input_schema :: "pydict option"
  sk_output_schema :: "pydict option"

record oa_capability =
  oc_skill :: oa_skill
  oc_http_method :: string
  oc_path_template :: string
  oc_execution_kind :: execution_kind
  oc_operation_id :: "string option"

text \<open>\<open>s.strip("/")\<close>\<close>

definition strip_slashes :: "string \<Rightarrow> string" where
  "strip_slashes s = rstrip_slash (dropWhile (\<lambda>c. c = CHR ''/'') s)"

definition fallback_capability_name :: "string \<Rightarrow> string \<Rightarrow> string" where
  "fallback_capability_name http_method path =
     (let trimmed = strip_slashes path
      in lower http_method @ ''_'' @
         (if trimmed = [] then ''rootpath''
          else filter (\<lambda>c. c \<noteq> CHR ''{'' \<and> c \<noteq> CHR ''}'') (map (\<lambda>c. if c = CHR ''/'' then CHR ''_'' else c) trimmed)))"

definition first_text :: "string option list \<Rightarrow> string \<Rightarrow> string" where
  "first_text vs dflt =
     (case filter (\<lambda>v. case v of None \<Rightarrow> False | Some t \<Rightarrow> strip t \<noteq> []) vs of Some t # _ \<Rightarrow> strip t | _ \<Rightarrow> dflt)"

definition operation_description :: "oa_operation \<Rightarrow> oa_path_item \<Rightarrow> string \<Rightarrow> string" where
  "operation_description op item dflt = first_text [oo_summary op, oo_description op, oi_summary item, oi_description item] dflt"

text \<open>The filter of operations: all, some methods, or a predicate over method, path, capability name and operation identifier.\<close>

datatype capability_filter = AllOperations | Methods "string list" | Predicate "string \<Rightarrow> string \<Rightarrow> string \<Rightarrow> string option \<Rightarrow> bool"

fun filter_accepts :: "capability_filter \<Rightarrow> string \<Rightarrow> string \<Rightarrow> string \<Rightarrow> string option \<Rightarrow> bool" where
  "filter_accepts AllOperations m path name oid = True"
| "filter_accepts (Methods ms) m path name oid = (m \<in> set (map (\<lambda>x. lower (strip x)) ms))"
| "filter_accepts (Predicate f) m path name oid = f m path name oid"

definition operation_id_of :: "oa_operation \<Rightarrow> string option" where
  "operation_id_of op = (case oo_operation_id op of None \<Rightarrow> None | Some t \<Rightarrow> if strip t = [] then None else Some (strip t))"

definition map_operation ::
  "oa_components \<Rightarrow> nat \<Rightarrow> string \<Rightarrow> oa_path_item \<Rightarrow> string \<Rightarrow> oa_operation \<Rightarrow> string \<Rightarrow> unit + oa_capability" where
  "map_operation cs fuel path item http_method op name =
     (case merge_parameters cs fuel item op of
        Inl x \<Rightarrow> Inl x
      | Inr ps \<Rightarrow>
          (case resolve_request_body cs fuel (oo_request_body op) of
             Inl x \<Rightarrow> Inl x
           | Inr body \<Rightarrow>
               (case (success_response_schema cs fuel op, detect_openapi_execution_kind cs fuel op) of
                  (Inr out, Inr kind) \<Rightarrow>
                    Inr \<lparr>oc_skill = \<lparr>sk_id = name, sk_description = operation_description op item name,
                           sk_input_schema = build_input_schema (cs_schemas cs) ps (body_json_schema (cs_schemas cs) body),
                           sk_output_schema = out\<rparr>,
                         oc_http_method = http_method, oc_path_template = path, oc_execution_kind = kind, oc_operation_id = operation_id_of op\<rparr>
                | _ \<Rightarrow> Inl ())))"

fun map_methods ::
  "oa_components \<Rightarrow> nat \<Rightarrow> capability_filter \<Rightarrow> string \<Rightarrow> oa_path_item \<Rightarrow> string list \<Rightarrow> unit + oa_capability list" where
  "map_methods cs fuel flt path item [] = Inr []"
| "map_methods cs fuel flt path item (m # ms) =
     (case map_of (oi_operations item) m of
        None \<Rightarrow> map_methods cs fuel flt path item ms
      | Some op \<Rightarrow>
          (let oid = operation_id_of op; name = (case oid of Some t \<Rightarrow> t | None \<Rightarrow> fallback_capability_name m path)
           in if \<not> filter_accepts flt m path name oid then map_methods cs fuel flt path item ms
              else (case map_operation cs fuel path item m op name of
                      Inl x \<Rightarrow> Inl x
                    | Inr cap \<Rightarrow> map_sum id (Cons cap) (map_methods cs fuel flt path item ms))))"

fun map_paths :: "oa_components \<Rightarrow> nat \<Rightarrow> capability_filter \<Rightarrow> (string, oa_path_item) dict \<Rightarrow> unit + oa_capability list" where
  "map_paths cs fuel flt [] = Inr []"
| "map_paths cs fuel flt ((path, item) # rest) =
     (case map_methods cs fuel flt path item HTTP_METHODS of
        Inl x \<Rightarrow> Inl x
      | Inr caps \<Rightarrow> map_sum id (append caps) (map_paths cs fuel flt rest))"

definition map_openapi_to_capabilities :: "nat \<Rightarrow> oa_document \<Rightarrow> capability_filter \<Rightarrow> unit + oa_capability list" where
  "map_openapi_to_capabilities fuel doc flt = map_paths (od_components doc) fuel flt (od_paths doc)"

subsection \<open>Approval strength\<close>

definition HTTP_VERBS :: "string list" where
  "HTTP_VERBS = [''GET'', ''PUT'', ''POST'', ''DELETE'', ''OPTIONS'', ''HEAD'', ''PATCH'', ''TRACE'']"

text \<open>\<open>str.upper\<close> on the code points whose upper case is one code point again; the methods and keys compared here are ASCII.\<close>

definition upper_char :: "char \<Rightarrow> char" where
  "upper_char c = (let n = of_char c :: nat in if (97 \<le> n \<and> n \<le> 122) \<or> (224 \<le> n \<and> n \<le> 254 \<and> n \<noteq> 247) then char_of (n - 32) else c)"

definition upper :: "string \<Rightarrow> string" where
  "upper s = map upper_char s"

datatype approval_strength = SessionStrength | WebauthnStrength

text \<open>The entry that is refused is the error.\<close>

fun normalize_approval_strength_map ::
  "(string, string) dict \<Rightarrow> (string, approval_strength) dict \<Rightarrow> (string \<times> string) + (string, approval_strength) dict" where
  "normalize_approval_strength_map [] acc = Inr acc"
| "normalize_approval_strength_map ((raw_key, raw_val) # rest) acc =
     (let key = strip raw_key; norm_key = (if upper key \<in> set HTTP_VERBS then upper key else key); val = lower (strip raw_val)
      in if key = [] then normalize_approval_strength_map rest acc
         else if val = ''session'' then normalize_approval_strength_map rest (AList.update norm_key SessionStrength acc)
         else if val = ''webauthn'' then normalize_approval_strength_map rest (AList.update norm_key WebauthnStrength acc)
         else Inl (raw_key, raw_val))"

definition resolve_approval_strength :: "string \<Rightarrow> string option \<Rightarrow> (string, approval_strength) dict \<Rightarrow> approval_strength option" where
  "resolve_approval_strength http_method oid mapping =
     (case oid of
        Some i \<Rightarrow> (case map_of mapping i of Some v \<Rightarrow> Some v | None \<Rightarrow> map_of mapping (upper (strip http_method)))
      | None \<Rightarrow> map_of mapping (upper (strip http_method)))"

definition collect_webauthn_required_capability_names ::
  "oa_capability list \<Rightarrow> (string, string) dict \<Rightarrow> (string \<times> string) + string list" where
  "collect_webauthn_required_capability_names caps strengths =
     (case normalize_approval_strength_map strengths [] of
        Inl x \<Rightarrow> Inl x
      | Inr m \<Rightarrow>
          Inr (fromkeys (map (sk_id \<circ> oc_skill)
            (filter (\<lambda>c. resolve_approval_strength (oc_http_method c) (oc_operation_id c) m = Some WebauthnStrength) caps))))"

subsection \<open>The base address\<close>

text \<open>\<open>_infer_upstream_base_url\<close>; the error is the reason.\<close>

datatype base_url_error = NoServers | EmptyServerUrl | RelativeServerUrl

definition infer_from_servers :: "(string \<Rightarrow> string \<Rightarrow> string) \<Rightarrow> oa_document \<Rightarrow> string option \<Rightarrow> base_url_error + string" where
  "infer_from_servers urljoin doc resolution_base =
     (case od_servers doc of
        [] \<Rightarrow> Inl NoServers
      | raw # _ \<Rightarrow>
          (let candidate = strip raw
           in if candidate = [] then Inl EmptyServerUrl
              else if starts_with candidate ''http://'' \<or> starts_with candidate ''https://'' then Inr (rstrip_slash candidate)
              else (case resolution_base of
                      None \<Rightarrow> Inl RelativeServerUrl
                    | Some b \<Rightarrow> if strip b = [] then Inl RelativeServerUrl else Inr (rstrip_slash (urljoin (strip b) candidate)))))"

definition infer_upstream_base_url :: "(string \<Rightarrow> string \<Rightarrow> string) \<Rightarrow> oa_document \<Rightarrow> string option \<Rightarrow> string option \<Rightarrow> base_url_error + string" where
  "infer_upstream_base_url urljoin doc override resolution_base =
     (case override of
        Some u \<Rightarrow> if strip u \<noteq> [] then Inr (rstrip_slash (strip u)) else infer_from_servers urljoin doc resolution_base
      | None \<Rightarrow> infer_from_servers urljoin doc resolution_base)"

subsection \<open>Errors of a call\<close>

record openapi_error =
  oe_recoverable :: bool
  oe_code :: string
  oe_message :: string
  oe_details :: pydict
  oe_rpc_code :: int

text \<open>\<open>repr\<close> of a string and \<open>str\<close> of a value that is none are the library's.\<close>

record openapi_lib =
  ol_repr :: "string \<Rightarrow> string"
  ol_str :: "pyval \<Rightarrow> string"

definition text_of :: "openapi_lib \<Rightarrow> pyval \<Rightarrow> string" where
  "text_of lb v = (case v of PStr s \<Rightarrow> s | _ \<Rightarrow> ol_str lb v)"

definition unknown_capability_error :: "openapi_lib \<Rightarrow> string \<Rightarrow> openapi_error" where
  "unknown_capability_error lb name =
     \<lparr>oe_recoverable = False, oe_code = ''asap:adapters/openapi/unknown_capability'', oe_message = ''Unknown OpenAPI capability '' @ ol_repr lb name @ ''.'',
      oe_details = [(''capability_name'', PStr name)], oe_rpc_code = RPC_HANDLER_NOT_FOUND\<rparr>"

definition invocation_error :: "string \<Rightarrow> pydict \<Rightarrow> openapi_error" where
  "invocation_error message details =
     \<lparr>oe_recoverable = False, oe_code = ''asap:adapters/openapi/invocation'', oe_message = message, oe_details = details, oe_rpc_code = RPC_REMOTE_GENERIC\<rparr>"

definition path_parameter_error :: "openapi_lib \<Rightarrow> string \<Rightarrow> string list \<Rightarrow> string list \<Rightarrow> openapi_error" where
  "path_parameter_error lb template missing invalid =
     (let details = [(''path_template'', PStr template)];
          (message, extra) =
            (if missing \<noteq> []
             then (''Missing path parameter(s) for template '' @ ol_repr lb template @ '': '' @ str_join '', '' missing @ ''.'', [(''missing'', PList (map PStr missing))])
             else if invalid \<noteq> []
             then (''Invalid path parameter value(s) for template '' @ ol_repr lb template @ '': '' @ str_join '', '' invalid @
                     '' (must not be None, empty, whitespace-only, or a '' @ [CHR 0x27] @ ''.'' @ [CHR 0x27] @ ''/'' @ [CHR 0x27] @ ''..'' @ [CHR 0x27] @ '' path segment).'',
                   [(''invalid'', PList (map PStr invalid))])
             else (''Path parameter error for template '' @ ol_repr lb template @ ''.'', []))
      in \<lparr>oe_recoverable = False, oe_code = ''asap:adapters/openapi/path_parameters'', oe_message = message, oe_details = details @ extra,
          oe_rpc_code = RPC_REMOTE_GENERIC\<rparr>)"

text \<open>Duplicate identifiers are refused; the identifier is the error.\<close>

fun index_capabilities :: "oa_capability list \<Rightarrow> (string, oa_capability) dict \<Rightarrow> string + (string, oa_capability) dict" where
  "index_capabilities [] acc = Inr acc"
| "index_capabilities (c # cs) acc =
     (if map_of acc (sk_id (oc_skill c)) \<noteq> None then Inl (sk_id (oc_skill c))
      else index_capabilities cs (acc @ [(sk_id (oc_skill c), c)]))"

subsection \<open>Where an argument goes\<close>

definition properties_of :: "pydict \<Rightarrow> pydict" where
  "properties_of d = (case map_of d ''properties'' of Some v \<Rightarrow> members_of v | None \<Rightarrow> [])"

definition is_object_schema :: "pydict \<Rightarrow> bool" where
  "is_object_schema d \<longleftrightarrow> map_of d ''type'' = Some (PStr ''object'') \<and> map_of d ''properties'' \<noteq> None"

definition location_of :: "pyval \<Rightarrow> string option" where
  "location_of sub = (case sub of PDict d \<Rightarrow> (case map_of d PARAM_IN_KEY of Some (PStr loc) \<Rightarrow> Some loc | _ \<Rightarrow> None) | _ \<Rightarrow> None)"

text \<open>\<open>_param_props_from_object\<close> into an empty dictionary.\<close>

definition param_props_from_object :: "pydict \<Rightarrow> (string, string) dict" where
  "param_props_from_object obj =
     (if is_object_schema obj then List.map_filter (\<lambda>(name, sub). map_option (Pair name) (location_of sub)) (properties_of obj) else [])"

definition list_items :: "pyval option \<Rightarrow> pyval list" where
  "list_items v = (case v of Some (PList l) \<Rightarrow> l | _ \<Rightarrow> [])"

fun collect_body_property_keys :: "pyval \<Rightarrow> string list" 
and collect_body_keys_list :: "pyval list \<Rightarrow> string list"
and collect_body_keys_entries :: "(string \<times> pyval) list \<Rightarrow> string list" where
  "collect_body_property_keys (PDict d) =
     (if is_object_schema d then dict_keys (properties_of d) else collect_body_keys_entries d)"
| "collect_body_property_keys _ = []"
| "collect_body_keys_list [] = []"
| "collect_body_keys_list (v # vs) = collect_body_property_keys v @ collect_body_keys_list vs"
| "collect_body_keys_entries [] = []"
| "collect_body_keys_entries ((k, v) # es) =
     (if k = ''allOf'' then (case v of PList l \<Rightarrow> collect_body_keys_list l | _ \<Rightarrow> []) else collect_body_keys_entries es)"

definition parse_input_schema_routing :: "pydict option \<Rightarrow> (string, string) dict \<times> string list" where
  "parse_input_schema_routing schema =
     (case schema of
        None \<Rightarrow> ([], [])
      | Some d \<Rightarrow>
          if map_of d ''allOf'' \<noteq> None then
            (let parts = list_items (map_of d ''allOf'')
             in (case parts of PDict p # _ \<Rightarrow> param_props_from_object p | _ \<Rightarrow> [], collect_body_keys_list (drop 1 parts)))
          else if is_object_schema d then
            (List.map_filter (\<lambda>(name, sub). map_option (Pair name) (location_of sub)) (properties_of d),
             map fst (filter (\<lambda>(name, sub). (case sub of PDict e \<Rightarrow> True | _ \<Rightarrow> False) \<and> location_of sub = None) (properties_of d)))
          else ([], []))"

record split_request =
  sp_path :: pydict
  sp_query :: pydict
  sp_headers :: "(string, string) dict"
  sp_cookies :: "string list"
  sp_body :: pydict

definition sorted_names :: "string list \<Rightarrow> string list" where
  "sorted_names ns = sort (remdups ns)"

fun place_arguments :: "openapi_lib \<Rightarrow> (string, string) dict \<Rightarrow> pydict \<Rightarrow> split_request \<Rightarrow> openapi_error + split_request" where
  "place_arguments lb param_in [] r = Inr r"
| "place_arguments lb param_in ((key, val) # args) r =
     (case map_of param_in key of
        None \<Rightarrow> place_arguments lb param_in args (r\<lparr>sp_body := AList.update key val (sp_body r)\<rparr>)
      | Some loc \<Rightarrow>
          if loc = ''path'' then place_arguments lb param_in args (r\<lparr>sp_path := AList.update key val (sp_path r)\<rparr>)
          else if loc = ''query'' then place_arguments lb param_in args (r\<lparr>sp_query := AList.update key val (sp_query r)\<rparr>)
          else if loc = ''header'' then place_arguments lb param_in args (r\<lparr>sp_headers := AList.update key (text_of lb val) (sp_headers r)\<rparr>)
          else if loc = ''cookie'' then place_arguments lb param_in args (r\<lparr>sp_cookies := sp_cookies r @ [key @ ''='' @ text_of lb val]\<rparr>)
          else Inl (invocation_error (''Unsupported OpenAPI parameter location '' @ ol_repr lb loc @ '' for '' @ ol_repr lb key @ ''.'')
                 [(''name'', PStr key), (''in'', PStr loc)]))"

text \<open>The last component is the JSON body, if there is one.\<close>

definition split_arguments_for_request ::
  "openapi_lib \<Rightarrow> pydict option \<Rightarrow> pydict \<Rightarrow> openapi_error + pydict \<times> pydict \<times> (string, string) dict \<times> pydict option" where
  "split_arguments_for_request lb schema args =
     (let (param_in, body_keys) = parse_input_schema_routing schema;
          allowed = dict_keys param_in @ body_keys;
          extras = filter (\<lambda>k. k \<notin> set allowed) (dict_keys args)
      in if schema = None \<and> args \<noteq> []
         then Inl (invocation_error ''Unexpected arguments for capability with no input schema.'' [(''unexpected'', PList (map PStr (sorted_names (dict_keys args))))])
         else if extras \<noteq> []
         then Inl (invocation_error (''Unexpected argument name(s): '' @ str_join '', '' (sorted_names extras) @ ''.'')
                [(''unexpected'', PList (map PStr (sorted_names extras))), (''allowed'', PList (map PStr (sorted_names allowed)))])
         else (case place_arguments lb param_in args \<lparr>sp_path = [], sp_query = [], sp_headers = [], sp_cookies = [], sp_body = []\<rparr> of
                 Inl x \<Rightarrow> Inl x
               | Inr r \<Rightarrow>
                   Inr (sp_path r, sp_query r,
                     if sp_cookies r = [] then sp_headers r else AList.update ''Cookie'' (str_join ''; '' (sp_cookies r)) (sp_headers r),
                     if body_keys = [] then None else Some (sp_body r))))"

subsection \<open>Paths\<close>

text \<open>\<open>re.findall(r"\{([^}]+)\}", template)\<close>\<close>

function placeholder_names :: "string \<Rightarrow> string list" where
  "placeholder_names [] = []"
| "placeholder_names (c # s) =
     (let body = takeWhile (\<lambda>x. x \<noteq> CHR ''}'') s; rest = dropWhile (\<lambda>x. x \<noteq> CHR ''}'') s
      in if c = CHR ''{'' \<and> body \<noteq> [] \<and> rest \<noteq> [] then body # placeholder_names (tl rest) else placeholder_names s)"
  by pat_completeness auto

termination
  by (relation "measure length") (auto simp: length_dropWhile_le le_imp_less_Suc intro: le_less_trans [OF diff_le_self])

text \<open>\<open>urllib.parse.quote(s, safe="")\<close>: what is not unreserved becomes the percent codes of its UTF-8 bytes.\<close>

definition hex_char :: "nat \<Rightarrow> char" where
  "hex_char n = (if n < 10 then char_of (48 + n) else char_of (55 + n))"

definition percent :: "nat \<Rightarrow> string" where
  "percent n = [CHR ''%'', hex_char (n div 16), hex_char (n mod 16)]"

definition unreserved :: "char \<Rightarrow> bool" where
  "unreserved c \<longleftrightarrow> (let n = of_char c :: nat in (48 \<le> n \<and> n \<le> 57) \<or> (65 \<le> n \<and> n \<le> 90) \<or> (97 \<le> n \<and> n \<le> 122)) \<or> c \<in> set ''_.-~''"

definition quote_char :: "char \<Rightarrow> string" where
  "quote_char c =
     (let n = of_char c :: nat
      in if unreserved c then [c] else if n < 128 then percent n else percent (192 + n div 64) @ percent (128 + n mod 64))"

definition quote_text :: "string \<Rightarrow> string" where
  "quote_text s = concat (map quote_char s)"

definition DOT_PATH_SEGMENTS :: "string list" where "DOT_PATH_SEGMENTS = [''.'', ''..'']"

definition is_invalid_path_param_value :: "openapi_lib \<Rightarrow> pyval \<Rightarrow> bool" where
  "is_invalid_path_param_value lb v \<longleftrightarrow>
     v = PNone \<or> (case v of PStr s \<Rightarrow> strip s = [] | _ \<Rightarrow> False) \<or> text_of lb v \<in> set DOT_PATH_SEGMENTS"

definition filled_path_has_dot_segment :: "string \<Rightarrow> bool" where
  "filled_path_has_dot_segment path \<longleftrightarrow> list_ex (\<lambda>seg. seg \<in> set DOT_PATH_SEGMENTS) (split_char (CHR ''/'') path)"

definition fill_one :: "openapi_lib \<Rightarrow> pydict \<Rightarrow> string \<Rightarrow> string \<Rightarrow> string" where
  "fill_one lb params name out =
     py_replace (''{'' @ name @ ''}'') (quote_text (text_of lb (case map_of params name of Some v \<Rightarrow> v | None \<Rightarrow> PNone))) out"

definition fill_path_template :: "openapi_lib \<Rightarrow> string \<Rightarrow> pydict \<Rightarrow> openapi_error + string" where
  "fill_path_template lb template params =
     (let names = fromkeys (placeholder_names template);
          missing = filter (\<lambda>n. map_of params n = None) names;
          invalid = filter (\<lambda>n. case map_of params n of Some v \<Rightarrow> is_invalid_path_param_value lb v | None \<Rightarrow> False) names
      in if missing \<noteq> [] then Inl (path_parameter_error lb template missing [])
         else if invalid \<noteq> [] then Inl (path_parameter_error lb template [] invalid)
         else (let out = fold (fill_one lb params) names template
               in if filled_path_has_dot_segment out
                  then Inl (path_parameter_error lb template [] (if names \<noteq> [] then names else [template]))
                  else Inr out))"

subsection \<open>A call\<close>

record upstream_request =
  uq_method :: string
  uq_url :: string
  uq_params :: "pydict option"
  uq_headers :: "(string, string) dict option"
  uq_json :: "pydict option"

record upstream_response =
  ur_status :: int
  ur_url :: string
  ur_text :: string
  ur_content_type :: string
  ur_json :: "string + pyval"

datatype upstream_outcome = RequestFailed string | Responded upstream_response

text \<open>What the callback for headers does: it raises an exception of some type, or returns a value.\<close>

datatype headers_outcome = HeadersRaise string string | HeadersReturn pyval

record upstream_handler =
  uh_base_url :: string
  uh_capabilities :: "(string, oa_capability) dict"
  uh_resolve_headers :: "headers_outcome option"
  uh_challenge_url :: "string option"

definition upstream_handler_init ::
  "string \<Rightarrow> oa_capability list \<Rightarrow> headers_outcome option \<Rightarrow> string option \<Rightarrow> string + upstream_handler" where
  "upstream_handler_init base caps headers challenge =
     (case index_capabilities caps [] of
        Inl dup \<Rightarrow> Inl dup
      | Inr ix \<Rightarrow> Inr \<lparr>uh_base_url = rstrip_slash base, uh_capabilities = ix, uh_resolve_headers = headers, uh_challenge_url = challenge\<rparr>)"

definition merge_request_headers :: "(string, string) dict option \<Rightarrow> (string, string) dict \<Rightarrow> (string, string) dict option" where
  "merge_request_headers first op =
     (case first of
        None \<Rightarrow> if op = [] then None else Some op
      | Some f \<Rightarrow> if f = [] \<and> op = [] then None else Some (dict_merge f op))"

definition resolve_headers_error :: "string \<Rightarrow> pydict \<Rightarrow> openapi_error" where
  "resolve_headers_error message details =
     \<lparr>oe_recoverable = True, oe_code = ''asap:adapters/openapi/resolve_headers'', oe_message = message, oe_details = details, oe_rpc_code = RPC_REMOTE_GENERIC\<rparr>"

fun string_values :: "pydict \<Rightarrow> openapi_error + (string, string) dict" where
  "string_values [] = Inr []"
| "string_values ((k, v) # d) =
     (case v of
        PStr t \<Rightarrow> map_sum id (Cons (k, t)) (string_values d)
      | _ \<Rightarrow> Inl (resolve_headers_error ''resolve_headers dict must use only str keys and str values.''
               [(''key_type'', PStr ''str''), (''value_type'', PStr (type_name v))]))"

definition headers_from_resolve_callback :: "headers_outcome \<Rightarrow> openapi_error + (string, string) dict" where
  "headers_from_resolve_callback h =
     (case h of
        HeadersRaise t e \<Rightarrow> Inl (resolve_headers_error (''resolve_headers callback failed: '' @ e @ ''.'') [(''error_type'', PStr t)])
      | HeadersReturn (PDict d) \<Rightarrow> string_values d
      | HeadersReturn v \<Rightarrow> Inl (resolve_headers_error ''resolve_headers must return dict[str, str].'' [(''got_type'', PStr (type_name v))]))"

definition UPSTREAM_CLIENT_ERROR_BODY_MAX_LEN :: nat where "UPSTREAM_CLIENT_ERROR_BODY_MAX_LEN = 200"

text \<open>The request a call makes, or the reason why it makes none.\<close>

definition build_request :: "openapi_lib \<Rightarrow> upstream_handler \<Rightarrow> oa_capability \<Rightarrow> pydict \<Rightarrow> openapi_error + upstream_request" where
  "build_request lb h cap args =
     (case split_arguments_for_request lb (sk_input_schema (oc_skill cap)) args of
        Inl x \<Rightarrow> Inl x
      | Inr (path_vals, query, headers, json_body) \<Rightarrow>
          (case fill_path_template lb (oc_path_template cap) path_vals of
             Inl x \<Rightarrow> Inl x
           | Inr path \<Rightarrow>
               (let path' = (if starts_with path ''/'' then path else CHR ''/'' # path)
                in case (case uh_resolve_headers h of None \<Rightarrow> Inr None | Some cb \<Rightarrow> map_sum id Some (headers_from_resolve_callback cb)) of
                     Inl x \<Rightarrow> Inl x
                   | Inr auth \<Rightarrow>
                       Inr \<lparr>uq_method = upper (oc_http_method cap), uq_url = uh_base_url h @ path',
                            uq_params = (if query = [] then None else Some query), uq_headers = merge_request_headers auth headers,
                            uq_json = json_body\<rparr>)))"

datatype openapi_failure = OpenapiFailed openapi_error | JsonRaised string

text \<open>What is made of the response. \<open>raise_for_status\<close> raises for every status outside of 200 to 299.\<close>

definition read_response :: "upstream_handler \<Rightarrow> string \<Rightarrow> upstream_response \<Rightarrow> openapi_failure + pydict" where
  "read_response h name r =
     (let st = ur_status r;
          details = [(''capability_name'', PStr name), (''url'', PStr (ur_url r)), (''status_code'', PInt st)];
          message = ''Upstream HTTP '' @ str_int st @ ''.''
      in if st = 204 then Inr []
         else if \<not> (200 \<le> st \<and> st \<le> 299) then
           if 500 \<le> st
           then Inl (OpenapiFailed \<lparr>oe_recoverable = True, oe_code = ''asap:adapters/openapi/upstream_server_error'', oe_message = message,
                  oe_details = details, oe_rpc_code = RPC_REMOTE_GENERIC\<rparr>)
           else Inl (OpenapiFailed \<lparr>oe_recoverable = False, oe_code = ''asap:adapters/openapi/upstream_client_error'', oe_message = message,
                  oe_details = details @ [(''body_snippet'', PStr (take UPSTREAM_CLIENT_ERROR_BODY_MAX_LEN (ur_text r)))] @
                    (case uh_challenge_url h of
                       Some u \<Rightarrow> if st = 401 \<and> u \<noteq> [] then [(''_www_authenticate_asap'', PStr (format_www_authenticate_asap u))] else []
                     | None \<Rightarrow> []),
                  oe_rpc_code = RPC_REMOTE_GENERIC\<rparr>)
         else if has_substring ''application/json'' (lower (ur_content_type r)) then
           (case ur_json r of
              Inl e \<Rightarrow> Inl (JsonRaised e)
            | Inr (PDict d) \<Rightarrow> Inr d
            | Inr v \<Rightarrow> Inr [(''_json'', v)])
         else Inr [(''_text'', PStr (ur_text r)), (''_status_code'', PInt st), (''content_type'', PStr (ur_content_type r))])"

text \<open>\<open>execute\<close> with the service as a function of the request; the requests made are the second component.\<close>

definition execute_capability ::
  "openapi_lib \<Rightarrow> (upstream_request \<Rightarrow> upstream_outcome) \<Rightarrow> upstream_handler \<Rightarrow> string \<Rightarrow> pydict \<Rightarrow> (openapi_failure + pydict) \<times> upstream_request list" where
  "execute_capability lb service h name args =
     (case map_of (uh_capabilities h) name of
        None \<Rightarrow> (Inl (OpenapiFailed (unknown_capability_error lb name)), [])
      | Some cap \<Rightarrow>
          (case build_request lb h cap args of
             Inl x \<Rightarrow> (Inl (OpenapiFailed x), [])
           | Inr rq \<Rightarrow>
               (case service rq of
                  RequestFailed e \<Rightarrow>
                    (Inl (OpenapiFailed \<lparr>oe_recoverable = True, oe_code = ''asap:adapters/openapi/upstream_connection'',
                        oe_message = ''Upstream request failed: '' @ e @ ''.'', oe_details = [(''capability_name'', PStr name), (''url'', PStr (uq_url rq))],
                        oe_rpc_code = RPC_CONNECTION_ERROR\<rparr>), [rq])
                | Responded r \<Rightarrow> (read_response h name r, [rq]))))"

subsection \<open>Paths stay in their template\<close>

lemma hex_char_unreserved: "n < 16 \<Longrightarrow> unreserved (hex_char n)"
  by (auto simp: hex_char_def unreserved_def)

lemma percent_chars: "n < 256 \<Longrightarrow> x \<in> set (percent n) \<Longrightarrow> unreserved x \<or> x = CHR ''%''"
  using hex_char_unreserved [of "n div 16"] hex_char_unreserved [of "n mod 16"] by (auto simp: percent_def)

lemma quote_text_chars: "x \<in> set (quote_text s) \<Longrightarrow> unreserved x \<or> x = CHR ''%''"
proof -
  assume "x \<in> set (quote_text s)"
  then obtain c where c: "x \<in> set (quote_char c)" by (auto simp: quote_text_def)
  let ?n = "of_char c :: nat"
  have "?n div 64 < 4" using nat_of_char_less_256 [of c] by (simp add: less_mult_imp_div_less del: nat_of_char_less_256)
  then have "192 + ?n div 64 < 256" "128 + ?n mod 64 < 256" "?n < 128 \<Longrightarrow> ?n < 256" by auto
  with c percent_chars [of "192 + ?n div 64" x] percent_chars [of "128 + ?n mod 64" x] percent_chars [of ?n x] show ?thesis
    by (auto simp: quote_char_def Let_def split: if_splits)
qed

text \<open>The characters with a meaning in a URL that quoting never leaves.\<close>

definition url_delimiters :: "char list" where "url_delimiters = [CHR ''/'', CHR ''?'', CHR ''#'', backslash]"

lemma delimiters_quoted: "c \<in> set url_delimiters \<Longrightarrow> c \<notin> set (quote_text s)"
  by (auto simp: url_delimiters_def unreserved_def dest!: quote_text_chars)

lemma count_drop: "count_list (drop n s) c \<le> count_list s c"
  by (metis append_take_drop_id count_list_append le_add2)

lemma count_py_replace: "c \<notin> set new \<Longrightarrow> count_list (py_replace old new s) c \<le> count_list s c"
proof (induction old new s rule: py_replace.induct)
  case (2 old new x s)
  have "count_list (drop (length old - 1) s) c \<le> count_list s c" by (rule count_drop)
  with 2 show ?case by (auto simp: count_list_0_iff)
qed simp

lemma count_fill:
  assumes "c \<in> set url_delimiters"
  shows "count_list (fold (fill_one lb params) names template) c \<le> count_list template c"
proof (induction names arbitrary: template)
  case (Cons n names)
  have "count_list (fill_one lb params n template) c \<le> count_list template c"
    unfolding fill_one_def by (rule count_py_replace) (rule delimiters_quoted [OF assms])
  with Cons.IH [of "fill_one lb params n template"] show ?case by simp
qed simp

lemma fill_path_template_ok:
  assumes "fill_path_template lb template params = Inr path"
  shows "\<not> filled_path_has_dot_segment path" "c \<in> set url_delimiters \<Longrightarrow> count_list path c \<le> count_list template c"
  using assms count_fill [of c lb params "fromkeys (placeholder_names template)" template]
  by (auto simp: fill_path_template_def Let_def split: if_splits)

lemma dot_segment_slash: "filled_path_has_dot_segment (CHR ''/'' # path) = filled_path_has_dot_segment path"
  by (simp add: filled_path_has_dot_segment_def DOT_PATH_SEGMENTS_def)

text \<open>C29: a call makes at most one request, with the method of its capability, to an address below the base address: the path has no
  \<open>.\<close> or \<open>..\<close> segment, and no argument adds a path segment, a query, a fragment or a backslash to what the template has.\<close>

theorem openapi_request_stays_in_template:
  assumes "execute_capability lb service h name args = (out, rqs)" "rq \<in> set rqs"
  shows "rqs = [rq] \<and> (\<exists>cap path. map_of (uh_capabilities h) name = Some cap \<and> uq_method rq = upper (oc_http_method cap) \<and>
    uq_url rq = uh_base_url h @ path \<and> starts_with path ''/'' \<and> (\<forall>seg \<in> set (split_char (CHR ''/'') path). seg \<noteq> ''.'' \<and> seg \<noteq> ''..'') \<and>
    (\<forall>c \<in> set url_delimiters. count_list path c \<le> count_list (oc_path_template cap) c + (if c = CHR ''/'' then 1 else 0)))"
proof -
  from assms obtain cap where cap: "map_of (uh_capabilities h) name = Some cap" "build_request lb h cap args = Inr rq" "rqs = [rq]"
    by (auto simp: execute_capability_def split: option.splits sum.splits upstream_outcome.splits)
  from cap(2) obtain path_vals path where p: "fill_path_template lb (oc_path_template cap) path_vals = Inr path"
    "uq_method rq = upper (oc_http_method cap)" "uq_url rq = uh_base_url h @ (if starts_with path ''/'' then path else CHR ''/'' # path)"
    by (auto simp: build_request_def Let_def split: sum.splits prod.splits)
  let ?path = "if starts_with path ''/'' then path else CHR ''/'' # path"
  have "\<not> filled_path_has_dot_segment ?path" using fill_path_template_ok(1) [OF p(1)] by (simp add: dot_segment_slash)
  moreover have "starts_with ?path ''/''" by (simp add: starts_with_def)
  moreover have "\<forall>c \<in> set url_delimiters. count_list ?path c \<le> count_list (oc_path_template cap) c + (if c = CHR ''/'' then 1 else 0)"
    using fill_path_template_ok(2) [OF p(1)] by (auto simp: le_SucI)
  ultimately show ?thesis using cap p
    by (intro conjI exI [of _ cap] exI [of _ ?path]) (auto simp: filled_path_has_dot_segment_def DOT_PATH_SEGMENTS_def list_ex_iff)
qed

subsection \<open>Arguments go where the document says\<close>

lemma place_arguments_ok:
  assumes "place_arguments lb param_in args r = Inr r'" "wf_dict args"
  shows "map_of (sp_path r') k = (if map_of param_in k = Some ''path'' \<and> map_of args k \<noteq> None then map_of args k else map_of (sp_path r) k) \<and>
    map_of (sp_query r') k = (if map_of param_in k = Some ''query'' \<and> map_of args k \<noteq> None then map_of args k else map_of (sp_query r) k) \<and>
    map_of (sp_headers r') k = (if map_of param_in k = Some ''header'' \<and> map_of args k \<noteq> None then map_option (text_of lb) (map_of args k) else map_of (sp_headers r) k) \<and>
    map_of (sp_body r') k = (if map_of param_in k = None \<and> map_of args k \<noteq> None then map_of args k else map_of (sp_body r) k)"
  using assms
proof (induction lb param_in args r arbitrary: r' rule: place_arguments.induct)
  case (2 lb param_in key val args r)
  have new: "map_of args key = None" using 2(7) by (simp add: map_of_eq_None_iff)
  show ?case
  proof (cases "map_of param_in key")
    case None
    with 2(1) [OF None] 2(6,7) new show ?thesis by (auto simp: map_of_update)
  next
    case (Some loc)
    with 2(6) consider "loc = ''path''" | "loc = ''query''" | "loc = ''header''" | "loc = ''cookie''" by (auto split: if_splits)
    then show ?thesis
      using 2(2-5) [OF Some] 2(6,7) Some new by cases (auto simp: map_of_update)
  qed
qed simp

text \<open>The properties of distinct parameters.\<close>

lemma parameter_properties_distinct:
  "distinct (dict_keys props @ map op_name ps) \<Longrightarrow>
   fst (parameter_properties raws ps (props, required)) = props @ map (\<lambda>p. (op_name p, PDict (parameter_schema raws p))) ps"
proof (induction ps arbitrary: props required)
  case (Cons p ps)
  then have "map_of props (op_name p) = None" by (auto simp: map_of_eq_None_iff)
  then have "AList.update (op_name p) v props = props @ [(op_name p, v)]" for v by (rule update_append_new)
  with Cons show ?case by simp
qed simp

lemma parameter_location: "location_of (PDict (parameter_schema raws p)) = Some (op_in p)"
  by (auto simp: location_of_def parameter_schema_def Let_def map_of_update PARAM_IN_KEY_def split: option.split)

lemma routing_of_parameters:
  "List.map_filter (\<lambda>(name, sub). map_option (Pair name) (location_of sub)) (map (\<lambda>p. (op_name p, PDict (parameter_schema raws p))) ps) =
     map (\<lambda>p. (op_name p, op_in p)) ps"
  by (induction ps) (simp_all add: List.map_filter_simps parameter_location)

text \<open>A body schema of named properties, none of them marked as a parameter.\<close>

definition plain_body :: "pydict \<Rightarrow> bool" where
  "plain_body b \<longleftrightarrow> is_object_schema b \<and> map_of b ''allOf'' = None \<and> (\<forall>(n, sub) \<in> set (properties_of b). location_of sub = None \<and> (\<exists>e. sub = PDict e))"

lemma plain_body_routing:
  assumes "plain_body b"
  shows "List.map_filter (\<lambda>(name, sub). map_option (Pair name) (location_of sub)) (properties_of b) = []"
    "filter (\<lambda>(name, sub). (case sub of PDict e \<Rightarrow> True | _ \<Rightarrow> False) \<and> location_of sub = None) (properties_of b) = properties_of b"
    "b \<noteq> []" "collect_body_keys_list [PDict b] = dict_keys (properties_of b)"
  using assms by (auto simp: plain_body_def is_object_schema_def List.map_filter_def filter_empty_conv filter_id_conv)

lemma routing_of_schema:
  assumes ps: "distinct (map op_name ps)" and body: "\<And>b. body = Some b \<Longrightarrow> plain_body b"
  shows "parse_input_schema_routing (build_input_schema raws ps body) =
    (map (\<lambda>p. (op_name p, op_in p)) ps, case body of None \<Rightarrow> [] | Some b \<Rightarrow> dict_keys (properties_of b))"
proof -
  obtain props required where pp: "parameter_properties raws ps ([], []) = (props, required)" by fastforce
  with parameter_properties_distinct [of "[]" ps raws "[]"] ps have props: "props = map (\<lambda>p. (op_name p, PDict (parameter_schema raws p))) ps" by simp
  define part where "part = [(''type'', PStr ''object''), (''properties'', PDict props)] @ (if required \<noteq> [] then [(''required'', PList (map PStr required))] else [])"
  have part: "is_object_schema part" "properties_of part = props" "map_of part ''allOf'' = None"
    by (simp_all add: part_def is_object_schema_def properties_of_def members_of_def)
  have none: "filter (\<lambda>(name, sub). (case sub of PDict e \<Rightarrow> True | _ \<Rightarrow> False) \<and> location_of sub = None) props = []"
    by (auto simp: props filter_empty_conv parameter_location)
  have build: "build_input_schema raws ps body =
      (if ps = [] then body else case body of None \<Rightarrow> Some part | Some b \<Rightarrow> Some [(''allOf'', PList [PDict part, PDict b])])"
    using plain_body_routing(3) body by (auto simp: build_input_schema_def pp Let_def part_def props split: option.split)
  show ?thesis
  proof (cases body)
    case None
    with part none show ?thesis unfolding build by (cases "ps = []") (simp_all add: parse_input_schema_routing_def routing_of_parameters props)
  next
    case (Some b)
    note b = body [OF this] and routing = plain_body_routing [OF body [OF this]]
    have obj: "is_object_schema b" "map_of b ''allOf'' = None" using b by (simp_all add: plain_body_def)
    show ?thesis
    proof (cases "ps = []")
      case True
      with Some obj routing show ?thesis unfolding build by (simp add: parse_input_schema_routing_def)
    next
      case False
      with Some routing(4) part show ?thesis unfolding build
        by (simp add: parse_input_schema_routing_def list_items_def param_props_from_object_def routing_of_parameters props)
    qed
  qed
qed

lemma place_arguments_cookies:
  "place_arguments lb param_in args r = Inr r' \<Longrightarrow>
   sp_cookies r' = sp_cookies r @ map (\<lambda>(k, v). k @ ''='' @ text_of lb v) (filter (\<lambda>(k, v). map_of param_in k = Some ''cookie'') args)"
proof (induction lb param_in args r arbitrary: r' rule: place_arguments.induct)
  case (2 lb param_in key val args r)
  note step = 2
  show ?case
  proof (cases "map_of param_in key")
    case None
    with 2(1) [OF None] 2(6) show ?thesis by simp
  next
    case (Some loc)
    with 2(6) consider "loc = ''path''" | "loc = ''query''" | "loc = ''header''" | "loc = ''cookie''" by (auto split: if_splits)
    then show ?thesis
    proof cases
      case path: 1
      from step(2) [OF Some path] step(6) show ?thesis by (simp add: Some path)
    next
      case query: 2
      from step(3) [OF Some _ query] step(6) show ?thesis by (simp add: Some query)
    next
      case header: 3
      from step(4) [OF Some _ _ header] step(6) show ?thesis by (simp add: Some header)
    next
      case cookie: 4
      from step(5) [OF Some _ _ _ cookie] step(6) show ?thesis by (simp add: Some cookie)
    qed
  qed
qed simp

text \<open>C30: every argument of a call goes where the document says. For an operation whose parameters have distinct names and whose body, if any, is an object
  of named properties: the values for the path and the query are those of the arguments named like such a parameter; a header parameter becomes a header
  with the text of the argument; the arguments for cookies, in order, make up the header \<open>Cookie\<close>, which without any is a header like the
  others; there is a JSON body exactly if the document's body has properties, and it has all the arguments that are no parameters, and no others;
  without a body every argument is a parameter. An argument the document does not name is refused.\<close>

theorem openapi_arguments_routed:
  assumes "split_arguments_for_request lb (build_input_schema raws ps body) args = Inr (path_vals, query, headers, json_body)"
    and "distinct (map op_name ps)" "\<forall>b. body = Some b \<longrightarrow> plain_body b" "wf_dict args"
  shows "(\<forall>k. k \<in> set (dict_keys args) \<longrightarrow> k \<in> op_name ` set ps \<or> (\<exists>b. body = Some b \<and> k \<in> set (dict_keys (properties_of b)))) \<and>
    (\<forall>k. map_of path_vals k = (if \<exists>p \<in> set ps. op_name p = k \<and> op_in p = ''path'' then map_of args k else None)) \<and>
    (\<forall>k. map_of query k = (if \<exists>p \<in> set ps. op_name p = k \<and> op_in p = ''query'' then map_of args k else None)) \<and>
    (let cookies = filter (\<lambda>(k, v). \<exists>p \<in> set ps. op_name p = k \<and> op_in p = ''cookie'') args in
       \<forall>k. map_of headers k =
         (if k = ''Cookie'' \<and> cookies \<noteq> [] then Some (str_join ''; '' (map (\<lambda>(k, v). k @ ''='' @ text_of lb v) cookies))
          else if \<exists>p \<in> set ps. op_name p = k \<and> op_in p = ''header'' then map_option (text_of lb) (map_of args k) else None)) \<and>
    (case json_body of
       None \<Rightarrow> (\<forall>b. body = Some b \<longrightarrow> properties_of b = []) \<and> (\<forall>k. k \<in> set (dict_keys args) \<longrightarrow> k \<in> op_name ` set ps)
     | Some b \<Rightarrow> (\<exists>d. body = Some d \<and> properties_of d \<noteq> []) \<and> (\<forall>k. map_of b k = (if k \<in> op_name ` set ps then None else map_of args k)))"
proof -
  let ?in = "map (\<lambda>p. (op_name p, op_in p)) ps"
  let ?keys = "case body of None \<Rightarrow> [] | Some b \<Rightarrow> dict_keys (properties_of b)"
  let ?r0 = "\<lparr>sp_path = [], sp_query = [], sp_headers = [], sp_cookies = [], sp_body = []\<rparr>"
  have routing: "parse_input_schema_routing (build_input_schema raws ps body) = (?in, ?keys)"
    using assms(2,3) by (intro routing_of_schema) auto
  have loc: "map_of ?in k = Some l \<longleftrightarrow> (\<exists>p \<in> set ps. op_name p = k \<and> op_in p = l)" for k l
  proof -
    have "wf_dict ?in" using assms(2) by (simp add: comp_def)
    then have "(k, l) \<in> set ?in \<longleftrightarrow> map_of ?in k = Some l" by (rule wf_dict_entry)
    then show ?thesis by auto
  qed
  have unknown: "map_of ?in k = None \<longleftrightarrow> k \<notin> op_name ` set ps" for k
    by (force simp: map_of_eq_None_iff image_image)
  from assms(1) obtain r where r: "place_arguments lb ?in args ?r0 = Inr r" "path_vals = sp_path r" "query = sp_query r"
    "headers = (if sp_cookies r = [] then sp_headers r else AList.update ''Cookie'' (str_join ''; '' (sp_cookies r)) (sp_headers r))"
    "json_body = (if ?keys = [] then None else Some (sp_body r))"
    and extras: "\<forall>k \<in> set (dict_keys args). k \<in> op_name ` set ps \<or> (\<exists>b. body = Some b \<and> k \<in> set (dict_keys (properties_of b)))"
    by (auto simp: split_arguments_for_request_def Let_def routing filter_empty_conv split: if_splits sum.splits option.splits)
  note placed = place_arguments_ok [OF r(1) assms(4), simplified]
  let ?cookies = "filter (\<lambda>(k, v). \<exists>p \<in> set ps. op_name p = k \<and> op_in p = ''cookie'') args"
  have cookies: "sp_cookies r = map (\<lambda>(k, v). k @ ''='' @ text_of lb v) ?cookies"
    using place_arguments_cookies [OF r(1)] by (simp add: loc)
  have headers: "map_of headers k =
      (if k = ''Cookie'' \<and> ?cookies \<noteq> [] then Some (str_join ''; '' (map (\<lambda>(k, v). k @ ''='' @ text_of lb v) ?cookies))
       else if \<exists>p \<in> set ps. op_name p = k \<and> op_in p = ''header'' then map_option (text_of lb) (map_of args k) else None)" for k
    using placed [of k] unfolding r(4) cookies by (auto simp: map_of_update loc)
  have body: "case json_body of
       None \<Rightarrow> (\<forall>b. body = Some b \<longrightarrow> properties_of b = []) \<and> (\<forall>k. k \<in> set (dict_keys args) \<longrightarrow> k \<in> op_name ` set ps)
     | Some b \<Rightarrow> (\<exists>d. body = Some d \<and> properties_of d \<noteq> []) \<and> (\<forall>k. map_of b k = (if k \<in> op_name ` set ps then None else map_of args k))"
  proof (cases "?keys = []")
    case True
    then have "\<forall>b. body = Some b \<longrightarrow> properties_of b = []" by auto
    with True extras r(5) show ?thesis by auto
  next
    case False
    then have "\<exists>d. body = Some d \<and> properties_of d \<noteq> []" by (auto split: option.splits)
    with False r(5) placed show ?thesis by (auto simp: unknown)
  qed
  have path: "map_of path_vals k = (if \<exists>p \<in> set ps. op_name p = k \<and> op_in p = ''path'' then map_of args k else None)"
    and query: "map_of query k = (if \<exists>p \<in> set ps. op_name p = k \<and> op_in p = ''query'' then map_of args k else None)" for k
    using placed [of k] r(2,3) by (auto simp: loc)
  show ?thesis unfolding Let_def using extras path query headers body by blast
qed

definition sample_pet_parameter :: oa_parameter where
  "sample_pet_parameter = \<lparr>op_name = ''petId'', op_in = ''path'', op_schema = None, op_content = [], op_description = None, op_required = True\<rparr>"

definition sample_pet_capability :: oa_capability where
  "sample_pet_capability = \<lparr>oc_skill = \<lparr>sk_id = ''show'', sk_description = [], sk_input_schema = build_input_schema [] [sample_pet_parameter] None, sk_output_schema = None\<rparr>,
     oc_http_method = ''get'', oc_path_template = ''/pets/{petId}'', oc_execution_kind = SyncKind, oc_operation_id = Some ''show''\<rparr>"

definition sample_openapi_lib :: openapi_lib where
  "sample_openapi_lib = \<lparr>ol_repr = id, ol_str = (\<lambda>v. [])\<rparr>"

definition sample_upstream :: upstream_handler where
  "sample_upstream = \<lparr>uh_base_url = ''http://h'', uh_capabilities = [(''show'', sample_pet_capability)], uh_resolve_headers = None, uh_challenge_url = None\<rparr>"

lemma sample_pet_routed:
  "split_arguments_for_request sample_openapi_lib (build_input_schema [] [sample_pet_parameter] None) [(''petId'', PStr ''a/b'')] =
     Inr ([(''petId'', PStr ''a/b'')], [], [], None)"
  by code_simp

lemma sample_pet_request:
  "execute_capability sample_openapi_lib (\<lambda>_. RequestFailed ''down'') sample_upstream ''show'' [(''petId'', PStr ''a/b'')] =
   (Inl (OpenapiFailed \<lparr>oe_recoverable = True, oe_code = ''asap:adapters/openapi/upstream_connection'', oe_message = ''Upstream request failed: down.'',
      oe_details = [(''capability_name'', PStr ''show''), (''url'', PStr ''http://h/pets/a%2Fb'')], oe_rpc_code = -32032\<rparr>),
    [\<lparr>uq_method = ''GET'', uq_url = ''http://h/pets/a%2Fb'', uq_params = None, uq_headers = None, uq_json = None\<rparr>])"
  by code_simp

theorem openapi_request_stays_in_template_witness:
  "\<exists>path. ''http://h/pets/a%2Fb'' = ''http://h'' @ path \<and> (\<forall>seg \<in> set (split_char (CHR ''/'') path). seg \<noteq> ''.'' \<and> seg \<noteq> ''..'')"
proof -
  from openapi_request_stays_in_template [OF sample_pet_request] obtain path where
    "''http://h/pets/a%2Fb'' = uh_base_url sample_upstream @ path" "\<forall>seg \<in> set (split_char (CHR ''/'') path). seg \<noteq> ''.'' \<and> seg \<noteq> ''..''" by auto
  then show ?thesis by (auto simp: sample_upstream_def)
qed

text \<open>An operation with a parameter in the path, one in a cookie and a body.\<close>

definition sample_cookie_parameter :: oa_parameter where
  "sample_cookie_parameter = \<lparr>op_name = ''sid'', op_in = ''cookie'', op_schema = None, op_content = [], op_description = None, op_required = False\<rparr>"

definition sample_body_schema :: pydict where
  "sample_body_schema = [(''type'', PStr ''object''), (''properties'', PDict [(''name'', PDict [(''type'', PStr ''string'')])])]"

lemma sample_update_routed:
  "split_arguments_for_request sample_openapi_lib (build_input_schema [] [sample_pet_parameter, sample_cookie_parameter] (Some sample_body_schema))
     [(''name'', PStr ''Rex''), (''sid'', PStr ''s1''), (''petId'', PStr ''7'')] =
   Inr ([(''petId'', PStr ''7'')], [], [(''Cookie'', ''sid=s1'')], Some [(''name'', PStr ''Rex'')])"
  by code_simp

theorem openapi_arguments_routed_witness:
  "(\<exists>b. Some [(''name'', PStr ''Rex'')] = Some b \<and> map_of b ''name'' = Some (PStr ''Rex'') \<and> map_of b ''petId'' = None) \<and>
   map_of [(''Cookie'', ''sid=s1'')] ''Cookie'' = Some ''sid=s1'' \<and> map_of [(''petId'', PStr ''7'')] ''petId'' = Some (PStr ''7'')"
proof -
  have "plain_body sample_body_schema"
    by (simp add: plain_body_def sample_body_schema_def is_object_schema_def properties_of_def members_of_def location_of_def PARAM_IN_KEY_def)
  moreover have "distinct (map op_name [sample_pet_parameter, sample_cookie_parameter])"
    "wf_dict [(''name'', PStr ''Rex''), (''sid'', PStr ''s1''), (''petId'', PStr ''7'')]"
    by (simp_all add: sample_pet_parameter_def sample_cookie_parameter_def)
  ultimately show ?thesis
    using openapi_arguments_routed [OF sample_update_routed] by (simp add: sample_pet_parameter_def sample_cookie_parameter_def)
qed

subsection \<open>What upstream bodies reveal\<close>

text \<open>The error of a failed call depends on nothing of the body of a server error, and on the first 200 characters of the body of another one.\<close>

lemma upstream_bodies_not_leaked:
  assumes "ur_status r' = ur_status r" "ur_url r' = ur_url r" "ur_status r \<noteq> 204" "\<not> (200 \<le> ur_status r \<and> ur_status r \<le> 299)"
    and "500 \<le> ur_status r \<or> take 200 (ur_text r') = take 200 (ur_text r)"
  shows "read_response h name r' = read_response h name r"
  using assms by (auto simp: read_response_def Let_def UPSTREAM_CLIENT_ERROR_BODY_MAX_LEN_def)

text \<open>The capabilities that need a proof of presence.\<close>

lemma webauthn_names_iff:
  assumes "collect_webauthn_required_capability_names caps strengths = Inr names" "normalize_approval_strength_map strengths [] = Inr m"
  shows "n \<in> set names \<longleftrightarrow> (\<exists>c \<in> set caps. sk_id (oc_skill c) = n \<and> resolve_approval_strength (oc_http_method c) (oc_operation_id c) m = Some WebauthnStrength)"
  using assms by (auto simp: collect_webauthn_required_capability_names_def)

text \<open>Expansion of references in an object gives an object.\<close>

lemma expand_refs_object: "\<exists>d'. expand_refs raws n seen (PDict d) = PDict d'"
proof (induction n arbitrary: seen d)
  case (Suc n)
  then show ?case by (auto split: option.split)
qed simp

subsection \<open>Arguments that cannot be sent\<close>

text \<open>A body that is itself a conjunction, of an operation without parameters: its first conjunct is taken for the parameters, and
  its properties are refused.\<close>

lemma first_conjunct_refused:
  assumes "map_of b ''allOf'' = Some (PList (PDict p # parts))" "param_props_from_object p = []" "k \<notin> set (collect_body_keys_list parts)"
  shows "\<exists>x. split_arguments_for_request lb (build_input_schema raws [] (Some b)) [(k, v)] = Inl x"
proof -
  have "b \<noteq> []" using assms(1) by auto
  then have "build_input_schema raws [] (Some b) = Some b" by (simp add: build_input_schema_def)
  with assms show ?thesis by (simp add: split_arguments_for_request_def parse_input_schema_routing_def list_items_def Let_def)
qed

text \<open>Two parameters of one name in different places are one property: the place of the later one counts.\<close>

lemma same_name_parameters_collide:
  assumes "op_name p = op_name q"
  shows "parse_input_schema_routing (build_input_schema raws [p, q] None) = ([(op_name q, op_in q)], [])"
  using assms parameter_location [of raws q]
  by (simp add: build_input_schema_def Let_def parse_input_schema_routing_def is_object_schema_def properties_of_def members_of_def List.map_filter_simps)

end
