(* ===== verification/Lite_Registry.thy ===== *)
theory Lite_Registry
  imports Client_Discovery
begin

text \<open>
  The public registry of agents as its readers see it: entries and lookups (\<open>src/asap/discovery/registry.py\<close>), checks of manifests
  (\<open>src/asap/discovery/validation.py\<close>), the well-known manifest and health answers (\<open>wellknown.py\<close>, \<open>health.py\<close>), and the client that resolves
  an agent by name (\<open>src/asap/client/\<close>) with the signatures of a certificate authority (\<open>src/asap/crypto/trust.py\<close>).

  Parameters: \<open>registry_lib\<close> holds what Pydantic makes of JSON texts before the validators of the classes run, dates of HTTP, base64,
  Ed25519 signing and version numbers. The answers of servers are arguments, one per attempt. The registry cache interprets the
  contract \<open>ttl_cache\<close>.
\<close>

subsection \<open>Manifests and entries\<close>

text \<open>What readers use of a manifest. Values of enumerations are their texts; the models of an agent are not read here.\<close>

record hardware_capability =
  hw_class :: "string option"
  hw_io :: "string list"

record agent_manifest =
  man_id :: string
  man_name :: string
  man_version :: string
  man_description :: string
  man_asap_version :: string
  man_skills :: "string list"
  man_hardware :: "hardware_capability option"
  man_inference :: "(string list) option"
  man_asap :: string
  man_events :: "string option"

datatype verification_state = Verified | Pending | Rejected

record registry_entry =
  ent_id :: string
  ent_name :: string
  ent_description :: string
  ent_endpoints :: "(string, string) dict"
  ent_skills :: "string list"
  ent_category :: "string option"
  ent_tags :: "string list"
  ent_asap_version :: string
  ent_repository_url :: "string option"
  ent_documentation_url :: "string option"
  ent_built_with :: "string option"
  ent_verification :: "verification_state option"
  ent_online_check :: "bool option"
  ent_hardware_class :: "string option"
  ent_inference_modes :: "string list"
  ent_hardware_io :: "string list"

record lite_registry =
  lr_version :: string
  lr_updated_at :: datetime
  lr_agents :: "registry_entry list"

definition REGISTRY_CATEGORIES :: "string list" where
  "REGISTRY_CATEGORIES =
     [''Research'', ''Coding'', ''Productivity'', ''Data'', ''Security'', ''Infrastructure'', ''Creative'', ''Finance'', ''Other'']"

definition normalize_category :: "string option \<Rightarrow> string option" where
  "normalize_category v =
     (case v of
        None \<Rightarrow> None
      | Some s \<Rightarrow>
          if strip s = [] then None
          else (case find (\<lambda>canonical. lower (strip s) = lower canonical) REGISTRY_CATEGORIES of
                  Some canonical \<Rightarrow> Some canonical
                | None \<Rightarrow> Some (strip s)))"

text \<open>Construction of an entry: the two validators.\<close>

definition make_registry_entry :: "registry_entry \<Rightarrow> py_exn + registry_entry" where
  "make_registry_entry e =
     (case validate_agent_urn (ent_id e) of
        Inl x \<Rightarrow> Inl x
      | Inr urn \<Rightarrow> Inr (e\<lparr>ent_id := urn, ent_category := normalize_category (ent_category e)\<rparr>))"

fun make_entries :: "registry_entry list \<Rightarrow> py_exn + registry_entry list" where
  "make_entries [] = Inr []"
| "make_entries (e # es) =
     (case make_registry_entry e of
        Inl x \<Rightarrow> Inl x
      | Inr e' \<Rightarrow> (case make_entries es of Inl x \<Rightarrow> Inl x | Inr es' \<Rightarrow> Inr (e' # es')))"

record registry_lib =
  rl_registry_json :: "code_points \<Rightarrow> string + lite_registry"
  rl_signed_json :: "code_points \<Rightarrow> string + agent_manifest signed_manifest"
  rl_manifests :: "(agent_manifest, unit) manifest_lib"
  rl_b64encode :: "bytes \<Rightarrow> string"
  rl_public_key :: "bytes \<Rightarrow> bytes"
  rl_sign :: "bytes \<Rightarrow> bytes \<Rightarrow> bytes"
  rl_http_date :: "string \<Rightarrow> rat option"
  rl_version_less :: "string \<Rightarrow> string \<Rightarrow> string + bool"
  rl_shown :: "string list \<Rightarrow> string"

definition parse_lite_registry :: "registry_lib \<Rightarrow> code_points \<Rightarrow> exn + lite_registry" where
  "parse_lite_registry lb body =
     (case rl_registry_json lb body of
        Inl x \<Rightarrow> Inl (OtherExn ''ValidationError'' x)
      | Inr r \<Rightarrow>
          (case make_entries (lr_agents r) of
             Inl x \<Rightarrow> Inl (OtherExn ''ValidationError'' (exn_text (lift_exn x)))
           | Inr agents \<Rightarrow> Inr (r\<lparr>lr_agents := agents\<rparr>)))"

subsection \<open>Lookups\<close>

definition find_by_skill :: "lite_registry \<Rightarrow> string \<Rightarrow> registry_entry list" where
  "find_by_skill r skill = filter (\<lambda>e. skill \<in> set (ent_skills e)) (lr_agents r)"

definition find_by_hardware_class :: "lite_registry \<Rightarrow> string \<Rightarrow> registry_entry list" where
  "find_by_hardware_class r cls = filter (\<lambda>e. ent_hardware_class e = Some cls) (lr_agents r)"

definition find_by_inference_mode :: "lite_registry \<Rightarrow> string \<Rightarrow> registry_entry list" where
  "find_by_inference_mode r mode = filter (\<lambda>e. mode \<in> set (ent_inference_modes e)) (lr_agents r)"

definition find_by_io :: "lite_registry \<Rightarrow> string \<Rightarrow> registry_entry list" where
  "find_by_io r io_type = filter (\<lambda>e. io_type \<in> set (ent_hardware_io e)) (lr_agents r)"

definition find_by_id :: "lite_registry \<Rightarrow> string \<Rightarrow> registry_entry option" where
  "find_by_id r urn = find (\<lambda>e. ent_id e = urn) (lr_agents r)"

text \<open>The derived fields: a class, the interfaces and the modes; what the manifest leaves out keeps its default.\<close>

definition derive_registry_hardware_fields :: "agent_manifest \<Rightarrow> registry_entry \<Rightarrow> registry_entry" where
  "derive_registry_hardware_fields m e =
     (let e1 = (case man_hardware m of
                  None \<Rightarrow> e
                | Some hw \<Rightarrow> e\<lparr>ent_hardware_class := hw_class hw, ent_hardware_io := hw_io hw\<rparr>)
      in case man_inference m of None \<Rightarrow> e1 | Some modes \<Rightarrow> e1\<lparr>ent_inference_modes := modes\<rparr>)"

text \<open>\<open>(s.strip() or None) if s else None\<close>\<close>

definition stripped_or_none :: "string option \<Rightarrow> string option" where
  "stripped_or_none v = (case v of None \<Rightarrow> None | Some s \<Rightarrow> if strip s = [] then None else Some (strip s))"

definition generate_registry_entry ::
  "agent_manifest \<Rightarrow> (string, string) dict \<Rightarrow> string option \<Rightarrow> string option \<Rightarrow> string option \<Rightarrow> string option \<Rightarrow> string list \<Rightarrow>
   py_exn + registry_entry" where
  "generate_registry_entry m endpoints repository_url documentation_url built_with category tags =
     make_registry_entry (derive_registry_hardware_fields m
       \<lparr>ent_id = man_id m, ent_name = man_name m, ent_description = man_description m, ent_endpoints = endpoints,
        ent_skills = man_skills m, ent_category = category, ent_tags = tags, ent_asap_version = man_asap_version m,
        ent_repository_url = stripped_or_none repository_url, ent_documentation_url = stripped_or_none documentation_url,
        ent_built_with = stripped_or_none built_with, ent_verification = None, ent_online_check = None,
        ent_hardware_class = None, ent_inference_modes = [], ent_hardware_io = []\<rparr>)"

subsection \<open>Checks of manifests\<close>

definition manifest_validation_error :: "string \<Rightarrow> exn" where
  "manifest_validation_error message = OtherExn ''ManifestValidationError'' message"

definition validate_manifest_schema :: "registry_lib \<Rightarrow> pydict \<Rightarrow> exn + agent_manifest" where
  "validate_manifest_schema lb data =
     (case ml_manifest (rl_manifests lb) (PDict data) of
        Inl x \<Rightarrow> Inl (manifest_validation_error (''Invalid manifest schema: '' @ x))
      | Inr m \<Rightarrow> Inr m)"

definition validate_signed_manifest_response :: "registry_lib \<Rightarrow> pydict \<Rightarrow> bool \<Rightarrow> exn + agent_manifest" where
  "validate_signed_manifest_response lb data verify_signature =
     (if map_of data ''manifest'' \<noteq> None \<and> map_of data ''signature'' \<noteq> None then
        (case ml_signed (rl_manifests lb) (PDict data) of
           Inl x \<Rightarrow> Inl (manifest_validation_error (''Invalid signed manifest schema: '' @ x))
         | Inr sm \<Rightarrow>
             (case (if verify_signature then verify_manifest (rl_manifests lb) sm None else Inr ()) of
                Inl x \<Rightarrow> Inl x
              | Inr u \<Rightarrow> Inr (sg_manifest sm)))
      else validate_manifest_schema lb data)"

text \<open>\<open>rl_version_less a b\<close> compares parsed versions; \<open>Inl\<close> is the text of \<open>InvalidVersion\<close>.\<close>

definition ASAP_PROTOCOL_VERSION :: string where
  "ASAP_PROTOCOL_VERSION = ''0.1''"

definition check_version_compatibility :: "registry_lib \<Rightarrow> agent_manifest \<Rightarrow> string option \<Rightarrow> exn + unit" where
  "check_version_compatibility lb m min_asap_version =
     (let required = (case min_asap_version of None \<Rightarrow> ASAP_PROTOCOL_VERSION | Some v \<Rightarrow> v);
          quoted = (\<lambda>s. [CHR 0x27] @ s @ [CHR 0x27])
      in case rl_version_less lb (man_asap_version m) required of
           Inl x \<Rightarrow> Inl (manifest_validation_error (''Invalid ASAP version in manifest: '' @ quoted (man_asap_version m) @ ''. '' @ x))
         | Inr older \<Rightarrow>
             if older
             then Inl (manifest_validation_error (''Agent ASAP version '' @ quoted (man_asap_version m) @ '' is older than required '' @ quoted required @ ''.''))
             else Inr ())"

definition manifest_supports_skill :: "agent_manifest \<Rightarrow> string \<Rightarrow> bool" where
  "manifest_supports_skill m skill_id \<longleftrightarrow> skill_id \<in> set (man_skills m)"

definition require_skill :: "registry_lib \<Rightarrow> agent_manifest \<Rightarrow> string \<Rightarrow> exn + unit" where
  "require_skill lb m skill_id =
     (if manifest_supports_skill m skill_id then Inr ()
      else Inl (manifest_validation_error (''Agent does not support required skill '' @ [CHR 0x27] @ skill_id @ [CHR 0x27] @
        ''. Available skills: '' @ (if man_skills m = [] then ''none'' else rl_shown lb (man_skills m)) @ ''.'')))"

subsection \<open>The well-known answers\<close>

definition CACHE_CONTROL_VALUE :: string where
  "CACHE_CONTROL_VALUE = ''public, max-age=300''"

record served_response =
  sv_status :: int
  sv_headers :: "(string \<times> string) list"
  sv_body :: "pyval option"

text \<open>\<open>etag_of\<close> is the SHA-256 digest, in hexadecimal, of the sorted JSON text of the manifest, and \<open>dump\<close> its \<open>model_dump\<close>.\<close>

definition etag_header_value :: "string \<Rightarrow> string" where
  "etag_header_value etag = [dquote] @ etag @ [dquote]"

definition get_manifest_response ::
  "(agent_manifest \<Rightarrow> string) \<Rightarrow> (agent_manifest \<Rightarrow> pyval) \<Rightarrow> agent_manifest \<Rightarrow> (string \<times> string) list \<Rightarrow> served_response" where
  "get_manifest_response etag_of dump m request_headers =
     (let etag = etag_header_value (etag_of m);
          headers = [(''etag'', etag), (''cache-control'', CACHE_CONTROL_VALUE)]
      in if (case header_get ''if-none-match'' request_headers of
               None \<Rightarrow> False
             | Some h \<Rightarrow> etag \<in> set (map strip (split_char (CHR '','') h)))
         then \<lparr>sv_status = 304, sv_headers = headers, sv_body = None\<rparr>
         else \<lparr>sv_status = 200, sv_headers = headers, sv_body = Some (dump m)\<rparr>)"

record health_load =
  hl_active_tasks :: int
  hl_queue_depth :: int

record health_status =
  hs_status :: string
  hs_agent_id :: string
  hs_version :: string
  hs_asap_version :: string
  hs_uptime_seconds :: rat
  hs_load :: "health_load option"

definition compute_uptime_seconds :: "rat \<Rightarrow> rat \<Rightarrow> rat" where
  "compute_uptime_seconds started_at now = max 0 (now - started_at)"

text \<open>\<open>round2\<close> is Python's rounding to two digits.\<close>

definition get_health_response ::
  "(rat \<Rightarrow> rat) \<Rightarrow> agent_manifest \<Rightarrow> rat \<Rightarrow> rat \<Rightarrow> bool \<Rightarrow> health_load option \<Rightarrow> health_status \<times> int" where
  "get_health_response round2 m started_at now is_healthy load =
     (\<lparr>hs_status = (if is_healthy then ''healthy'' else ''unhealthy''), hs_agent_id = man_id m, hs_version = man_version m,
       hs_asap_version = man_asap_version m, hs_uptime_seconds = round2 (compute_uptime_seconds started_at now), hs_load = load\<rparr>,
      if is_healthy then 200 else 503)"

subsection \<open>Waiting after an answer 429\<close>

definition MAX_429_RETRIES :: nat where "MAX_429_RETRIES = 3"
definition BASE_DELAY_SECONDS :: rat where "BASE_DELAY_SECONDS = 1"

text \<open>\<open>isdigit\<close> also holds of three superscripts among the characters of a header, which \<open>float\<close> refuses.\<close>

definition superscript :: "char \<Rightarrow> bool" where
  "superscript c \<longleftrightarrow> (of_char c :: nat) \<in> {0xB2, 0xB3, 0xB9}"

text \<open>\<open>raw.replace(".", "", 1).isdigit()\<close>\<close>

definition decimal_digits :: "string \<Rightarrow> string" where
  "decimal_digits raw = takeWhile (\<lambda>c. c \<noteq> CHR ''.'') raw @ drop 1 (dropWhile (\<lambda>c. c \<noteq> CHR ''.'') raw)"

definition looks_decimal :: "string \<Rightarrow> bool" where
  "looks_decimal raw \<longleftrightarrow> decimal_digits raw \<noteq> [] \<and> (\<forall>c \<in> set (decimal_digits raw). is_digit c \<or> superscript c)"

definition retry_after_value :: "string \<Rightarrow> rat option" where
  "retry_after_value raw =
     (if (\<exists>c \<in> set (decimal_digits raw). superscript c) then None
      else Some (of_nat (digits_value (map (\<lambda>c. of_char c - 48) (decimal_digits raw))) /
             10 ^ length (drop 1 (dropWhile (\<lambda>c. c \<noteq> CHR ''.'') raw))))"

definition clamp :: "rat \<Rightarrow> rat \<Rightarrow> rat" where
  "clamp upper d = max (1 / 10) (min d upper)"

definition delay_seconds_for_429 :: "registry_lib \<Rightarrow> rat \<Rightarrow> wire_response \<Rightarrow> nat \<Rightarrow> rat" where
  "delay_seconds_for_429 lb now r attempt =
     (let backoff = clamp 60 (BASE_DELAY_SECONDS * 2 ^ attempt)
      in case header_get ''Retry-After'' (rsp_headers r) of
           None \<Rightarrow> backoff
         | Some raw \<Rightarrow>
             if raw = [] then backoff
             else if looks_decimal raw then
               (case retry_after_value raw of Some secs \<Rightarrow> if secs > 0 then clamp 300 secs else backoff | None \<Rightarrow> backoff)
             else (case rl_http_date lb raw of
                     Some t \<Rightarrow> if t - now > 0 then clamp 300 (t - now) else backoff
                   | None \<Rightarrow> backoff))"

text \<open>A failed call: a status outside 200 to 299, or another exception.\<close>

datatype call_failure = StatusError wire_response | CallRaised exn

definition call_exn :: "call_failure \<Rightarrow> exn" where
  "call_exn f = (case f of StatusError r \<Rightarrow> OtherExn ''HTTPStatusError'' (str_int (rsp_status r)) | CallRaised x \<Rightarrow> x)"

definition raise_for_status :: "wire_response \<Rightarrow> call_failure + unit" where
  "raise_for_status r = (if 200 \<le> rsp_status r \<and> rsp_status r < 300 then Inr () else Inl (StatusError r))"

definition transport_exn :: "http_outcome \<Rightarrow> exn" where
  "transport_exn out =
     (case out of
        ConnectFailed x \<Rightarrow> OtherExn ''ConnectError'' x
      | TimedOut x \<Rightarrow> OtherExn ''TimeoutException'' x
      | HttpFailed t x \<Rightarrow> OtherExn t x
      | Delivered r \<Rightarrow> OtherExn ''RuntimeError'' [])"

text \<open>The loop: the answer and the times it slept. \<open>answers\<close> gives the outcome of every attempt, \<open>wall\<close> the clock after it.\<close>

fun retry_429 ::
  "registry_lib \<Rightarrow> (nat \<Rightarrow> http_outcome) \<Rightarrow> (nat \<Rightarrow> rat) \<Rightarrow> nat \<Rightarrow> nat \<Rightarrow> (call_failure + wire_response) \<times> rat list" where
  "retry_429 lb answers wall attempt remaining =
     (case answers attempt of
        Delivered r \<Rightarrow>
          if rsp_status r \<noteq> 429 then (Inr r, [])
          else (case remaining of
                  0 \<Rightarrow> (Inl (StatusError r), [])
                | Suc n \<Rightarrow>
                    (let (out, sleeps) = retry_429 lb answers wall (Suc attempt) n
                     in (out, delay_seconds_for_429 lb (wall attempt) r attempt # sleeps)))
      | failed \<Rightarrow> (Inl (CallRaised (transport_exn failed)), []))"

declare retry_429.simps [simp del]

definition get_with_429_retry ::
  "registry_lib \<Rightarrow> (nat \<Rightarrow> http_outcome) \<Rightarrow> (nat \<Rightarrow> rat) \<Rightarrow> nat \<Rightarrow> (call_failure + wire_response) \<times> rat list" where
  "get_with_429_retry lb answers wall max_retries = retry_429 lb answers wall 0 max_retries"

subsection \<open>The registry and its cache\<close>

type_synonym registry_cache = "(string, rat \<times> lite_registry) dict"

definition DEFAULT_REGISTRY_URL :: string where
  "DEFAULT_REGISTRY_URL = ''https://asap-protocol.github.io/registry/registry.json''"

definition registry_lookup :: "rat \<Rightarrow> string \<Rightarrow> registry_cache \<Rightarrow> lite_registry option \<times> registry_cache" where
  "registry_lookup now url c =
     (case map_of c url of
        None \<Rightarrow> (None, c)
      | Some (expiry, r) \<Rightarrow> if now < expiry then (Some r, c) else (None, AList.delete url c))"

definition registry_store :: "rat \<times> int \<Rightarrow> string \<Rightarrow> lite_registry \<Rightarrow> registry_cache \<Rightarrow> registry_cache" where
  "registry_store tt url r c = AList.update url (fst tt + of_int (snd tt), r) c"

record discover_env =
  dv_now :: rat
  dv_outcome :: http_outcome
  dv_others :: "(rat \<times> int, string, lite_registry) cache_event list"

text \<open>\<open>reset_registry_cache\<close> is meant for tests only.\<close>

definition reset_registry_cache :: "registry_cache \<Rightarrow> registry_cache" where
  "reset_registry_cache c = []"

definition registry_drop :: "string \<Rightarrow> registry_cache \<Rightarrow> registry_cache" where
  "registry_drop url c = AList.delete url c"

definition registry_entries :: "registry_cache \<Rightarrow> string \<Rightarrow> (lite_registry \<times> rat) option" where
  "registry_entries c url = map_option (\<lambda>(e, r). (r, e)) (map_of c url)"

definition registry_expiry :: "rat \<times> int \<Rightarrow> registry_cache \<Rightarrow> rat" where
  "registry_expiry tt c = fst tt + of_int (snd tt)"

definition registry_inv :: "registry_cache \<Rightarrow> bool" where
  "registry_inv c \<longleftrightarrow> wf_dict c"

definition registry_fits :: "nat \<Rightarrow> registry_cache \<Rightarrow> bool" where
  "registry_fits n c \<longleftrightarrow> n = card (set (dict_keys c))"

lemmas registry_cache_defs = registry_lookup_def registry_store_def registry_drop_def registry_entries_def registry_expiry_def
  registry_inv_def registry_fits_def

interpretation rg: ttl_cache registry_lookup registry_store registry_drop registry_entries registry_expiry length registry_fits registry_inv
proof (unfold_locales, goal_cases)
  case (15 s)
  then have "card (set (dict_keys s)) = length (dict_keys s)" unfolding registry_inv_def by (rule distinct_card)
  then show ?case by (simp add: registry_fits_def)
qed (auto simp: registry_cache_defs dict_simps split: option.splits if_splits)

text \<open>The lock of the URL is held throughout: other tasks use other entries of the cache meanwhile.\<close>

definition discover_from_registry ::
  "registry_lib \<Rightarrow> string \<Rightarrow> int \<Rightarrow> discover_env \<Rightarrow> registry_cache \<Rightarrow> (registry_cache, call_failure, lite_registry) outcome" where
  "discover_from_registry lb url ttl env c =
     (case registry_lookup (dv_now env) url c of
        (Some r, c1) \<Rightarrow> (Inr r, c1)
      | (None, c1) \<Rightarrow>
          (let c2 = rg.run (dv_others env) c1 in
           case dv_outcome env of
             Delivered r \<Rightarrow>
               (case raise_for_status r of
                  Inl x \<Rightarrow> (Inl x, c2)
                | Inr u \<Rightarrow>
                    (case parse_lite_registry lb (rsp_text r) of
                       Inl x \<Rightarrow> (Inl (CallRaised x), c2)
                     | Inr reg \<Rightarrow> (Inr reg, registry_store (dv_now env, ttl) url reg c2)))
           | failed \<Rightarrow> (Inl (CallRaised (transport_exn failed)), c2)))"

definition DEFAULT_REGISTRY_CACHE_TTL :: int where
  "DEFAULT_REGISTRY_CACHE_TTL = 300"

text \<open>\<open>raw\<close> is the value of \<open>ASAP_REGISTRY_CACHE_TTL\<close>, if it is set.\<close>

definition cache_ttl_seconds :: "string option \<Rightarrow> int" where
  "cache_ttl_seconds raw =
     (case raw of
        None \<Rightarrow> DEFAULT_REGISTRY_CACHE_TTL
      | Some s \<Rightarrow> (case parse_int s of Some v \<Rightarrow> if v > 0 then v else DEFAULT_REGISTRY_CACHE_TTL | None \<Rightarrow> DEFAULT_REGISTRY_CACHE_TTL))"

text \<open>The loop of \<open>get_registry\<close>: one call of \<open>discover_from_registry\<close> per attempt, and what other tasks do to the cache during each sleep.\<close>

record registry_env =
  rv_attempt :: "nat \<Rightarrow> discover_env"
  rv_wall :: "nat \<Rightarrow> rat"
  rv_during_sleep :: "nat \<Rightarrow> (rat \<times> int, string, lite_registry) cache_event list"

fun registry_loop ::
  "registry_lib \<Rightarrow> string \<Rightarrow> int \<Rightarrow> registry_env \<Rightarrow> nat \<Rightarrow> nat \<Rightarrow> registry_cache \<Rightarrow> (registry_cache, exn, lite_registry) outcome" where
  "registry_loop lb url ttl env attempt remaining c =
     (case discover_from_registry lb url ttl (rv_attempt env attempt) c of
        (Inr r, c1) \<Rightarrow> (Inr r, c1)
      | (Inl x, c1) \<Rightarrow>
          (case (x, remaining) of
             (StatusError r, Suc n) \<Rightarrow>
               if rsp_status r = 429 then registry_loop lb url ttl env (Suc attempt) n (rg.run (rv_during_sleep env attempt) c1)
               else (Inl (call_exn x), c1)
           | _ \<Rightarrow> (Inl (call_exn x), c1)))"

declare registry_loop.simps [simp del]

definition get_registry ::
  "registry_lib \<Rightarrow> string \<Rightarrow> int option \<Rightarrow> string option \<Rightarrow> registry_env \<Rightarrow> registry_cache \<Rightarrow> (registry_cache, exn, lite_registry) outcome" where
  "get_registry lb url ttl_seconds env_ttl env c =
     registry_loop lb url (case ttl_seconds of None \<Rightarrow> cache_ttl_seconds env_ttl | Some t \<Rightarrow> t) env 0 MAX_429_RETRIES c"

subsection \<open>Revocation and trust\<close>

definition DEFAULT_REVOKED_URL :: string where
  "DEFAULT_REVOKED_URL = ''https://raw.githubusercontent.com/asap-protocol/asap-protocol/main/revoked_agents.json''"

definition revoked_list_url :: "string option \<Rightarrow> string option \<Rightarrow> string" where
  "revoked_list_url revoked_url env_url =
     (case revoked_url of
        Some (a # u) \<Rightarrow> a # u
      | _ \<Rightarrow> (case env_url of Some u \<Rightarrow> u | None \<Rightarrow> DEFAULT_REVOKED_URL))"

definition names_urn :: "string \<Rightarrow> pyval \<Rightarrow> bool" where
  "names_urn urn e = (case e of PDict d \<Rightarrow> map_of d ''urn'' = Some (PStr urn) | _ \<Rightarrow> False)"

definition revoked_by :: "string \<Rightarrow> pyval \<Rightarrow> bool" where
  "revoked_by urn listing =
     (case listing of
        PDict d \<Rightarrow> (case map_of d ''revoked'' of Some (PList l) \<Rightarrow> (\<exists>e \<in> set l. names_urn urn e) | _ \<Rightarrow> False)
      | _ \<Rightarrow> False)"

definition urn_is_revoked :: "string \<Rightarrow> http_outcome \<Rightarrow> exn + bool" where
  "urn_is_revoked urn out =
     (case out of
        Delivered r \<Rightarrow>
          (case raise_for_status r of
             Inl x \<Rightarrow> Inl (call_exn x)
           | Inr u \<Rightarrow>
               (case rsp_json r of
                  Inl x \<Rightarrow> Inl (OtherExn ''JSONDecodeError'' x)
                | Inr listing \<Rightarrow> Inr (revoked_by urn listing)))
      | failed \<Rightarrow> Inl (transport_exn failed))"

definition detect_trust_level :: "'m signed_manifest \<Rightarrow> string" where
  "detect_trust_level sm = sg_trust_level sm"

text \<open>Signing: the bytes of a private key, \<open>rl_public_key\<close> its public key.\<close>

definition sign_manifest :: "registry_lib \<Rightarrow> agent_manifest \<Rightarrow> bytes \<Rightarrow> exn + agent_manifest signed_manifest" where
  "sign_manifest lb m private_key =
     (let raw = rl_sign lb private_key (ml_canonicalize (rl_manifests lb) m)
      in if length raw \<noteq> 64
         then Inl (OtherExn ''ValueError'' (''Ed25519 signature must be 64 bytes, got '' @ str_int (int (length raw))))
         else Inr \<lparr>sg_manifest = m, sg_alg = ''ed25519'', sg_signature = rl_b64encode lb raw, sg_trust_level = ''self-signed'',
                   sg_public_key = Some (rl_b64encode lb (rl_public_key lb private_key))\<rparr>)"

definition sign_with_ca :: "registry_lib \<Rightarrow> agent_manifest \<Rightarrow> bytes \<Rightarrow> agent_manifest signed_manifest" where
  "sign_with_ca lb m ca_key =
     \<lparr>sg_manifest = m, sg_alg = ''ed25519'', sg_signature = rl_b64encode lb (rl_sign lb ca_key (ml_canonicalize (rl_manifests lb) m)),
      sg_trust_level = ''verified'', sg_public_key = Some (rl_b64encode lb (rl_public_key lb ca_key))\<rparr>"

definition verify_ca_signature :: "registry_lib \<Rightarrow> agent_manifest signed_manifest \<Rightarrow> string list \<Rightarrow> exn + unit" where
  "verify_ca_signature lb sm known_cas =
     (if sg_trust_level sm \<noteq> ''verified''
      then Inl (signature_error (''Expected trust_level=verified for CA verification, got '' @ sg_trust_level sm @ ''.'')
                 [(''trust_level'', PStr (sg_trust_level sm))])
      else (case sg_public_key sm of
              Some (b # b64) \<Rightarrow>
                (case load_public_key_from_base64 (rl_manifests lb) (b # b64) of
                   Inl x \<Rightarrow> Inl x
                 | Inr key \<Rightarrow>
                     if rl_b64encode lb key \<notin> set known_cas
                     then Inl (signature_error ''CA not in known_cas: signature from unknown CA.''
                                [(''public_key_preview'', PStr (take 16 (b # b64) @ ''...''))])
                     else verify_manifest (rl_manifests lb) sm (Some key))
            | _ \<Rightarrow> Inl (signature_error ''Cannot verify CA: signed manifest has no public_key.'' [])))"

definition get_ca_key_b64 :: "string option \<Rightarrow> exn + string" where
  "get_ca_key_b64 env_key =
     (case env_key of
        Some (k # ks) \<Rightarrow> Inr (k # ks)
      | _ \<Rightarrow> Inl (OtherExn ''RuntimeError'' (''ASAP_CA_PUBLIC_KEY environment variable is required. '' @
               ''Set it to the base64-encoded ASAP CA public key (fail closed).'')))"

definition verify_agent_trust :: "registry_lib \<Rightarrow> string option \<Rightarrow> agent_manifest signed_manifest \<Rightarrow> exn + unit" where
  "verify_agent_trust lb env_key sm =
     (case get_ca_key_b64 env_key of Inl x \<Rightarrow> Inl x | Inr ca \<Rightarrow> verify_ca_signature lb sm [ca])"

subsection \<open>The market client\<close>

record agent_summary =
  sm_urn :: string
  sm_name :: string
  sm_skill_ids :: "string list"

definition manifest_url_from_entry :: "registry_lib \<Rightarrow> registry_entry \<Rightarrow> exn + string" where
  "manifest_url_from_entry lb e =
     (case map_of (ent_endpoints e) ''manifest'' of
        Some (a # u) \<Rightarrow> Inr (a # u)
      | _ \<Rightarrow>
          (case map_of (ent_endpoints e) ''http'' of
             Some (a # u) \<Rightarrow> Inr (rstrip_slash (a # u) @ WELLKNOWN_MANIFEST_PATH)
           | _ \<Rightarrow> Inl (OtherExn ''ValueError'' (''Registry entry '' @ ent_id e @ '' has no '' @ [CHR 0x27] @ ''manifest'' @ [CHR 0x27] @ '' or '' @
                    [CHR 0x27] @ ''http'' @ [CHR 0x27] @ '' endpoint. endpoints='' @ rl_shown lb (dict_keys (ent_endpoints e))))))"

record market_client =
  mt_registry_url :: string
  mt_revoked_url :: "string option"
  mt_auth_token :: "string option"
  mt_sender_urn :: string
  mt_registry_cache_ttl :: "int option"

record resolved_agent =
  ra_manifest :: agent_manifest
  ra_entry :: registry_entry

text \<open>What a call of \<open>resolve\<close> meets: the registry, the server that is asked for the manifest at a URL, the server of the revocation list,
  and the environment. The two checks run at the same time; when both raise, \<open>re_revocation_first\<close> says which exception counts.\<close>

record resolve_env =
  re_registry :: registry_env
  re_env_ttl :: "string option"
  re_manifest :: "string \<Rightarrow> nat \<Rightarrow> http_outcome"
  re_wall :: "nat \<Rightarrow> rat"
  re_ca_key :: "string option"
  re_env_revoked_url :: "string option"
  re_revoked :: "string \<Rightarrow> http_outcome"
  re_revocation_first :: bool

definition fetch_signed_manifest :: "registry_lib \<Rightarrow> resolve_env \<Rightarrow> string \<Rightarrow> exn + agent_manifest signed_manifest" where
  "fetch_signed_manifest lb env url =
     (case fst (get_with_429_retry lb (re_manifest env url) (re_wall env) MAX_429_RETRIES) of
        Inl x \<Rightarrow> Inl (call_exn x)
      | Inr r \<Rightarrow>
          (case raise_for_status r of
             Inl x \<Rightarrow> Inl (call_exn x)
           | Inr u \<Rightarrow>
               (case rl_signed_json lb (rsp_text r) of
                  Inl x \<Rightarrow> Inl (OtherExn ''ValidationError'' x)
                | Inr sm \<Rightarrow> Inr sm)))"

definition check_trust_and_revocation ::
  "registry_lib \<Rightarrow> market_client \<Rightarrow> resolve_env \<Rightarrow> string \<Rightarrow> agent_manifest signed_manifest \<Rightarrow> exn + bool" where
  "check_trust_and_revocation lb mt env urn sm =
     (case (verify_agent_trust lb (re_ca_key env) sm, urn_is_revoked urn (re_revoked env (revoked_list_url (mt_revoked_url mt) (re_env_revoked_url env)))) of
        (Inl x, Inl y) \<Rightarrow> Inl (if re_revocation_first env then y else x)
      | (Inl x, Inr revoked) \<Rightarrow> Inl x
      | (Inr u, Inl y) \<Rightarrow> Inl y
      | (Inr u, Inr revoked) \<Rightarrow> Inr revoked)"

definition market_resolve ::
  "registry_lib \<Rightarrow> market_client \<Rightarrow> string \<Rightarrow> resolve_env \<Rightarrow> registry_cache \<Rightarrow> (registry_cache, exn, resolved_agent) outcome" where
  "market_resolve lb mt urn env c =
     (case get_registry lb (mt_registry_url mt) (mt_registry_cache_ttl mt) (re_env_ttl env) (re_registry env) c of
        (Inl x, c1) \<Rightarrow> (Inl x, c1)
      | (Inr registry, c1) \<Rightarrow>
          (case find_by_id registry urn of
             None \<Rightarrow> (Inl (OtherExn ''ValueError'' (''Agent not found in registry: '' @ urn)), c1)
           | Some entry \<Rightarrow>
               (case manifest_url_from_entry lb entry of
                  Inl x \<Rightarrow> (Inl x, c1)
                | Inr url \<Rightarrow>
                    (case fetch_signed_manifest lb env url of
                       Inl x \<Rightarrow> (Inl x, c1)
                     | Inr sm \<Rightarrow>
                         (case check_trust_and_revocation lb mt env urn sm of
                            Inl x \<Rightarrow> (Inl x, c1)
                          | Inr revoked \<Rightarrow>
                              if revoked then (Inl (raised (agent_revoked_exception urn None)), c1)
                              else (Inr \<lparr>ra_manifest = sg_manifest sm, ra_entry = entry\<rparr>, c1))))))"

definition list_agents ::
  "registry_lib \<Rightarrow> market_client \<Rightarrow> resolve_env \<Rightarrow> registry_cache \<Rightarrow> (registry_cache, exn, agent_summary list) outcome" where
  "list_agents lb mt env c =
     (case get_registry lb (mt_registry_url mt) (mt_registry_cache_ttl mt) (re_env_ttl env) (re_registry env) c of
        (Inl x, c1) \<Rightarrow> (Inl x, c1)
      | (Inr registry, c1) \<Rightarrow>
          (Inr (map (\<lambda>e. \<lparr>sm_urn = ent_id e, sm_name = ent_name e, sm_skill_ids = ent_skills e\<rparr>) (lr_agents registry)), c1))"

subsection \<open>Lemmas\<close>

lemma clamp_bounds: "u \<ge> 1 / 10 \<Longrightarrow> 1 / 10 \<le> clamp u d \<and> clamp u d \<le> u"
  by (simp add: clamp_def)

lemma delay_bounds: "1 / 10 \<le> delay_seconds_for_429 lb now r attempt \<and> delay_seconds_for_429 lb now r attempt \<le> 300"
proof -
  have "1 / 10 \<le> clamp 60 d \<and> clamp 60 d \<le> 300" "1 / 10 \<le> clamp 300 d \<and> clamp 300 d \<le> 300" for d
    by (auto simp: clamp_def)
  then show ?thesis by (simp add: delay_seconds_for_429_def Let_def split: option.split)
qed

text \<open>At most \<open>max_retries\<close> sleeps, of at most five minutes each; an answer that is returned is the first that is not 429.\<close>

lemma retry_429_bounded:
  "retry_429 lb answers wall attempt remaining = (out, sleeps) \<Longrightarrow>
   length sleeps \<le> remaining \<and> (\<forall>d \<in> set sleeps. 1 / 10 \<le> d \<and> d \<le> 300) \<and>
   (\<forall>r. out = Inr r \<longrightarrow> answers (attempt + length sleeps) = Delivered r \<and> rsp_status r \<noteq> 429) \<and>
   (\<forall>i < length sleeps. \<exists>r. answers (attempt + i) = Delivered r \<and> rsp_status r = 429)"
proof (induction lb answers wall attempt remaining arbitrary: out sleeps rule: retry_429.induct)
  case (1 lb answers wall attempt remaining)
  show ?case
  proof (cases "\<exists>r n. answers attempt = Delivered r \<and> rsp_status r = 429 \<and> remaining = Suc n")
    case True
    then obtain r n where rn: "answers attempt = Delivered r" "rsp_status r = 429" "remaining = Suc n" by blast
    obtain out' ss where rec: "retry_429 lb answers wall (Suc attempt) n = (out', ss)" by fastforce
    from "1.prems" rn rec have os: "out = out'" "sleeps = delay_seconds_for_429 lb (wall attempt) r attempt # ss"
      by (auto simp: retry_429.simps [of lb answers wall attempt])
    have "\<not> rsp_status r \<noteq> 429" using rn(2) by simp
    from "1.IH" [OF rn(1) this rn(3) rec] os rn delay_bounds [of lb "wall attempt" r attempt]
    show ?thesis by (auto simp: less_Suc_eq_0_disj)
  next
    case False
    with "1.prems" show ?thesis
      by (auto simp: retry_429.simps [of lb answers wall attempt] split: http_outcome.splits if_splits nat.splits)
  qed
qed

subsection \<open>Registries are recent\<close>

text \<open>\<open>served url r t\<close>: the server of \<open>url\<close> answered with the registry \<open>r\<close> to a request of time \<open>t\<close>. A cache is recent when every entry
  expires at most \<open>ttl\<close> seconds after such an answer.\<close>

definition recent_registries :: "(string \<Rightarrow> lite_registry \<Rightarrow> rat \<Rightarrow> bool) \<Rightarrow> int \<Rightarrow> registry_cache \<Rightarrow> bool" where
  "recent_registries served ttl c \<longleftrightarrow> registry_inv c \<and>
     (\<forall>url r e. registry_entries c url = Some (r, e) \<longrightarrow> (\<exists>t. served url r t \<and> e \<le> t + of_int ttl))"

fun honest_event :: "(string \<Rightarrow> lite_registry \<Rightarrow> rat \<Rightarrow> bool) \<Rightarrow> int \<Rightarrow> (rat \<times> int, string, lite_registry) cache_event \<Rightarrow> bool" where
  "honest_event served ttl (Store tt url r) \<longleftrightarrow> served url r (fst tt) \<and> snd tt \<le> ttl"
| "honest_event served ttl _ \<longleftrightarrow> True"

lemma recent_store:
  assumes "recent_registries served ttl c" "served url r (fst tt)" "snd tt \<le> ttl"
  shows "recent_registries served ttl (registry_store tt url r c)"
proof -
  have "(of_int (snd tt) :: rat) \<le> of_int ttl" using assms(3) by simp
  then have "registry_expiry tt c \<le> fst tt + of_int ttl" by (simp add: registry_expiry_def)
  with assms show ?thesis unfolding recent_registries_def
    by (metis option.inject prod.inject rg.invar_store rg.store_other rg.store_same)
qed

lemma recent_lookup: "recent_registries served ttl c \<Longrightarrow> recent_registries served ttl (snd (registry_lookup now url c))"
  unfolding recent_registries_def by (metis rg.invar_lookup rg.lookup_entries)

lemma recent_drop: "recent_registries served ttl c \<Longrightarrow> recent_registries served ttl (registry_drop url c)"
  unfolding recent_registries_def by (metis option.distinct(1) rg.invar_remove rg.remove_other rg.remove_same)

lemma recent_run:
  "recent_registries served ttl c \<Longrightarrow> \<forall>ev \<in> set evs. honest_event served ttl ev \<Longrightarrow> recent_registries served ttl (rg.run evs c)"
proof (induction evs arbitrary: c)
  case (Cons ev evs)
  then show ?case by (cases ev) (simp_all add: recent_store recent_lookup recent_drop)
qed simp

definition honest_attempt :: "registry_lib \<Rightarrow> (string \<Rightarrow> lite_registry \<Rightarrow> rat \<Rightarrow> bool) \<Rightarrow> int \<Rightarrow> string \<Rightarrow> discover_env \<Rightarrow> bool" where
  "honest_attempt lb served ttl url env \<longleftrightarrow> (\<forall>ev \<in> set (dv_others env). honest_event served ttl ev) \<and>
     (\<forall>r reg. dv_outcome env = Delivered r \<longrightarrow> parse_lite_registry lb (rsp_text r) = Inr reg \<longrightarrow> served url reg (dv_now env))"

lemma discover_recent:
  assumes "discover_from_registry lb url t env c = (out, c')" "recent_registries served ttl c" "honest_attempt lb served ttl url env"
    and "t \<le> ttl" "0 < ttl"
  shows "recent_registries served ttl c' \<and> (\<forall>reg. out = Inr reg \<longrightarrow> (\<exists>since. served url reg since \<and> dv_now env < since + of_int ttl))"
proof (cases "registry_lookup (dv_now env) url c")
  case (Pair hit c1)
  from recent_lookup [OF assms(2), of "dv_now env" url] Pair have c1: "recent_registries served ttl c1" by simp
  show ?thesis
  proof (cases hit)
    case (Some reg)
    then obtain e where e: "registry_entries c url = Some (reg, e)" "dv_now env < e"
      using rg.lookup_hit [of c "dv_now env" url reg] assms(2) Pair by (auto simp: recent_registries_def)
    then obtain since where "served url reg since" "e \<le> since + of_int ttl"
      using assms(2) e(1) unfolding recent_registries_def by blast
    with e(2) assms(1) Pair Some c1 show ?thesis by (auto simp: discover_from_registry_def intro!: exI [of _ since])
  next
    case None
    let ?c2 = "rg.run (dv_others env) c1"
    have c2: "recent_registries served ttl ?c2" using c1 assms(3) by (intro recent_run) (auto simp: honest_attempt_def)
    have store: "recent_registries served ttl (registry_store (dv_now env, t) url reg ?c2)" if "served url reg (dv_now env)" for reg
      using recent_store [OF c2, of url reg "(dv_now env, t)"] that assms(4) by simp
    from assms(1,3,5) None Pair c2 store show ?thesis
      by (auto simp: discover_from_registry_def Let_def honest_attempt_def split: http_outcome.splits sum.splits
          intro!: exI [of _ "dv_now env"])
  qed
qed

text \<open>Whatever other tasks do to the cache, a registry that is returned was served less than a life time before the attempt that returned it.\<close>

lemma registry_loop_recent:
  assumes "t \<le> ttl" "0 < ttl" "\<forall>i. honest_attempt lb served ttl url (rv_attempt env i)"
    and "\<forall>i. \<forall>ev \<in> set (rv_during_sleep env i). honest_event served ttl ev"
  shows "registry_loop lb url t env attempt remaining c = (out, c') \<Longrightarrow> recent_registries served ttl c \<Longrightarrow>
    recent_registries served ttl c' \<and>
    (\<forall>reg. out = Inr reg \<longrightarrow> (\<exists>i since. i \<le> attempt + remaining \<and> served url reg since \<and> dv_now (rv_attempt env i) < since + of_int ttl))"
proof (induction remaining arbitrary: attempt c)
  case 0
  obtain out1 c1 where d: "discover_from_registry lb url t (rv_attempt env attempt) c = (out1, c1)" by fastforce
  from discover_recent [OF d "0.prems"(2) assms(3) [rule_format] assms(1,2)] "0.prems"(1) d show ?case
    by (auto simp: registry_loop.simps split: sum.splits call_failure.splits intro!: exI [of _ attempt])
next
  case (Suc n)
  obtain out1 c1 where d: "discover_from_registry lb url t (rv_attempt env attempt) c = (out1, c1)" by fastforce
  note first = discover_recent [OF d Suc.prems(2) assms(3) [rule_format] assms(1,2)]
  show ?case
  proof (cases "\<exists>r. out1 = Inl (StatusError r) \<and> rsp_status r = 429")
    case True
    let ?c2 = "rg.run (rv_during_sleep env attempt) c1"
    from first assms(4) have "recent_registries served ttl ?c2" by (auto intro!: recent_run)
    moreover from Suc.prems(1) d True have "registry_loop lb url t env (Suc attempt) n ?c2 = (out, c')"
      by (auto simp: registry_loop.simps [of lb url t env attempt])
    ultimately show ?thesis using Suc.IH [of "Suc attempt" ?c2] by simp
  next
    case False
    with Suc.prems(1) d first show ?thesis
      by (auto simp: registry_loop.simps [of lb url t env attempt] split: sum.splits call_failure.splits if_splits intro!: exI [of _ attempt])
  qed
qed

subsection \<open>A resolved agent\<close>

text \<open>C32: the market client resolves a name to a manifest only if the name is the identifier of an entry of the registry it got, the manifest came
  from the address of that entry with a signature by the configured authority that verifies over its canonical form, and a revocation
  list was fetched that does not name the agent; without a configured authority nothing is resolved.\<close>

theorem resolved_agents_trusted:
  assumes "market_resolve lb mt urn env c = (Inr a, c')"
  shows "\<exists>registry url sm ca key raw_sig rev listing.
    get_registry lb (mt_registry_url mt) (mt_registry_cache_ttl mt) (re_env_ttl env) (re_registry env) c = (Inr registry, c') \<and>
    ra_entry a \<in> set (lr_agents registry) \<and> ent_id (ra_entry a) = urn \<and> manifest_url_from_entry lb (ra_entry a) = Inr url \<and>
    fetch_signed_manifest lb env url = Inr sm \<and> sg_manifest sm = ra_manifest a \<and> sg_trust_level sm = ''verified'' \<and>
    re_ca_key env = Some ca \<and> rl_b64encode lb key = ca \<and> ml_b64decode (rl_manifests lb) (sg_signature sm) = Inr raw_sig \<and>
    length raw_sig = 64 \<and> le_value (drop 32 raw_sig) < ED25519_ORDER \<and>
    ml_verify (rl_manifests lb) key raw_sig (ml_canonicalize (rl_manifests lb) (ra_manifest a)) \<and>
    re_revoked env (revoked_list_url (mt_revoked_url mt) (re_env_revoked_url env)) = Delivered rev \<and>
    200 \<le> rsp_status rev \<and> rsp_status rev < 300 \<and> rsp_json rev = Inr listing \<and> \<not> revoked_by urn listing"
proof -
  from assms obtain registry url sm where r:
    "get_registry lb (mt_registry_url mt) (mt_registry_cache_ttl mt) (re_env_ttl env) (re_registry env) c = (Inr registry, c')"
    "find_by_id registry urn = Some (ra_entry a)" "manifest_url_from_entry lb (ra_entry a) = Inr url"
    "fetch_signed_manifest lb env url = Inr sm" "check_trust_and_revocation lb mt env urn sm = Inr False" "sg_manifest sm = ra_manifest a"
    by (auto simp: market_resolve_def split: prod.splits sum.splits option.splits if_splits)
  from r(2) have e: "ra_entry a \<in> set (lr_agents registry)" "ent_id (ra_entry a) = urn"
    by (auto simp: find_by_id_def find_Some_iff)
  from r(5) have t: "verify_agent_trust lb (re_ca_key env) sm = Inr ()"
    and v: "urn_is_revoked urn (re_revoked env (revoked_list_url (mt_revoked_url mt) (re_env_revoked_url env))) = Inr False"
    by (auto simp: check_trust_and_revocation_def split: sum.splits)
  from v obtain rev listing where rev: "re_revoked env (revoked_list_url (mt_revoked_url mt) (re_env_revoked_url env)) = Delivered rev"
    "200 \<le> rsp_status rev" "rsp_status rev < 300" "rsp_json rev = Inr listing" "\<not> revoked_by urn listing"
    by (auto simp: urn_is_revoked_def raise_for_status_def split: http_outcome.splits sum.splits if_splits)
  from t obtain ca where ca: "re_ca_key env = Some ca" "verify_ca_signature lb sm [ca] = Inr ()"
    by (auto simp: verify_agent_trust_def get_ca_key_b64_def split: sum.splits option.splits list.splits)
  from ca(2) obtain key where key: "sg_trust_level sm = ''verified''" "rl_b64encode lb key = ca" "verify_manifest (rl_manifests lb) sm (Some key) = Inr ()"
    by (auto simp: verify_ca_signature_def split: if_splits option.splits list.splits sum.splits)
  from verify_manifest_accepts [OF key(3)] obtain raw_sig where "ml_b64decode (rl_manifests lb) (sg_signature sm) = Inr raw_sig" "length raw_sig = 64"
    "le_value (drop 32 raw_sig) < ED25519_ORDER" "ml_verify (rl_manifests lb) key raw_sig (ml_canonicalize (rl_manifests lb) (sg_manifest sm))" .
  with r e rev ca(1) key show ?thesis by metis
qed

subsection \<open>Signatures of an authority\<close>

text \<open>The laws of the packages: base64 and Ed25519. A signature is 64 bytes with a reduced scalar, and verifies under the public key of its private key.\<close>

definition signatures_lawful :: "registry_lib \<Rightarrow> bool" where
  "signatures_lawful lb \<longleftrightarrow>
     (\<forall>b. ml_b64decode (rl_manifests lb) (rl_b64encode lb b) = Inr b) \<and> (\<forall>k. length (rl_public_key lb k) = 32) \<and>
     (\<forall>k m. length (rl_sign lb k m) = 64 \<and> le_value (drop 32 (rl_sign lb k m)) < ED25519_ORDER) \<and>
     (\<forall>k m. ml_verify (rl_manifests lb) (rl_public_key lb k) (rl_sign lb k m) m) \<and> (\<forall>k. rl_b64encode lb (rl_public_key lb k) \<noteq> [])"

lemma verify_signed:
  assumes "signatures_lawful lb" "sg_alg sm = ''ed25519''" "sg_signature sm = rl_b64encode lb (rl_sign lb k m)"
    and "ml_canonicalize (rl_manifests lb) (sg_manifest sm) = m"
  shows "verify_manifest (rl_manifests lb) sm (Some (rl_public_key lb k)) = Inr ()"
proof -
  have "\<not> ED25519_ORDER \<le> le_value (drop 32 (rl_sign lb k m))" "length (rl_sign lb k m) = 64"
    "ml_b64decode (rl_manifests lb) (sg_signature sm) = Inr (rl_sign lb k m)" "ml_verify (rl_manifests lb) (rl_public_key lb k) (rl_sign lb k m) m"
    using assms(1,3) by (auto simp: signatures_lawful_def not_le)
  with assms(2,4) show ?thesis
    by (simp add: verify_manifest_def signing_key_def check_raw_signature_def enforce_strict_scalar_def)
qed

lemma signed_key_loads:
  assumes "signatures_lawful lb"
  shows "load_public_key_from_base64 (rl_manifests lb) (rl_b64encode lb (rl_public_key lb k)) = Inr (rl_public_key lb k)"
  using assms by (simp add: load_public_key_from_base64_def signatures_lawful_def)

lemma ca_trusted_iff:
  assumes "signatures_lawful lb"
  shows "verify_ca_signature lb (sign_with_ca lb m ca_key) known_cas = Inr () \<longleftrightarrow> rl_b64encode lb (rl_public_key lb ca_key) \<in> set known_cas"
proof -
  let ?sm = "sign_with_ca lb m ca_key" and ?b64 = "rl_b64encode lb (rl_public_key lb ca_key)"
  have "?b64 \<noteq> []" using assms by (simp add: signatures_lawful_def)
  then obtain b bs where b64: "?b64 = b # bs" by (cases ?b64) auto
  have "verify_manifest (rl_manifests lb) ?sm (Some (rl_public_key lb ca_key)) = Inr ()"
    by (rule verify_signed [OF assms]) (simp_all add: sign_with_ca_def)
  then show ?thesis
    using signed_key_loads [OF assms, of ca_key] by (simp add: verify_ca_signature_def sign_with_ca_def b64)
qed

text \<open>A manifest signed by an authority is accepted by exactly the readers that know the public key of the authority, and a manifest an agent
  signed itself is accepted by none of them although its signature verifies under the key it carries.\<close>

theorem ca_signature_round_trip:
  assumes "signatures_lawful lb"
  shows "(verify_ca_signature lb (sign_with_ca lb m ca_key) known_cas = Inr () \<longleftrightarrow> rl_b64encode lb (rl_public_key lb ca_key) \<in> set known_cas) \<and>
    (\<exists>sm. sign_manifest lb m own_key = Inr sm \<and> verify_manifest (rl_manifests lb) sm None = Inr () \<and>
       verify_ca_signature lb sm known_cas \<noteq> Inr ())"
proof -
  have ne: "rl_b64encode lb (rl_public_key lb k) \<noteq> []" for k using assms by (simp add: signatures_lawful_def)
  have len: "length (rl_sign lb own_key (ml_canonicalize (rl_manifests lb) m)) = 64" using assms by (simp add: signatures_lawful_def)
  then obtain sm where sm: "sign_manifest lb m own_key = Inr sm" by (simp add: sign_manifest_def)
  then have f: "sg_manifest sm = m" "sg_alg sm = ''ed25519''" "sg_trust_level sm = ''self-signed''"
    "sg_signature sm = rl_b64encode lb (rl_sign lb own_key (ml_canonicalize (rl_manifests lb) m))"
    "sg_public_key sm = Some (rl_b64encode lb (rl_public_key lb own_key))"
    by (auto simp: sign_manifest_def Let_def split: if_splits)
  have "verify_manifest (rl_manifests lb) sm None = verify_manifest (rl_manifests lb) sm (Some (rl_public_key lb own_key))"
    using f(5) ne signed_key_loads [OF assms, of own_key] by (simp add: verify_manifest_def signing_key_def)
  also have "\<dots> = Inr ()" by (rule verify_signed [OF assms f(2,4)]) (simp add: f(1))
  finally show ?thesis using ca_trusted_iff [OF assms] sm f(3) by (auto simp: verify_ca_signature_def)
qed

subsection \<open>The entity tag\<close>

lemma etag_matches:
  assumes "\<forall>c \<in> set etag. is_hex_digit c"
  shows "strip (etag_header_value etag) = etag_header_value etag" "CHR '','' \<notin> set (etag_header_value etag)"
proof -
  have "\<not> py_space dquote" by (simp add: py_space_def)
  then show "strip (etag_header_value etag) = etag_header_value etag"
    by (simp add: etag_header_value_def strip_def lstrip_def rstrip_def)
  have "\<not> is_hex_digit (CHR '','')" by (simp add: is_hex_digit_def is_digit_def)
  with assms show "CHR '','' \<notin> set (etag_header_value etag)" by (auto simp: etag_header_value_def)
qed

text \<open>A reader that sends back the tag it got is answered without a body exactly while the tag of the manifest stays the same.\<close>

lemma manifest_revalidated:
  assumes "\<forall>c \<in> set (etag_of m). is_hex_digit c" "map_of (sv_headers (get_manifest_response etag_of dump m [])) ''etag'' = Some tag"
  shows "sv_status (get_manifest_response etag_of dump m' [(''if-none-match'', tag)]) = (if etag_of m' = etag_of m then 304 else 200)"
    "sv_body (get_manifest_response etag_of dump m' [(''if-none-match'', tag)]) = (if etag_of m' = etag_of m then None else Some (dump m'))"
proof -
  have tag: "tag = etag_header_value (etag_of m)" using assms(2) by (simp add: get_manifest_response_def header_get_def Let_def)
  have "etag_header_value a = etag_header_value b \<longleftrightarrow> a = b" for a b by (simp add: etag_header_value_def)
  then show "sv_status (get_manifest_response etag_of dump m' [(''if-none-match'', tag)]) = (if etag_of m' = etag_of m then 304 else 200)"
    "sv_body (get_manifest_response etag_of dump m' [(''if-none-match'', tag)]) = (if etag_of m' = etag_of m then None else Some (dump m'))"
    using etag_matches [OF assms(1)] by (auto simp: get_manifest_response_def header_get_def Let_def tag split_char_free)
qed

subsection \<open>A sample registry\<close>

definition sample_registered :: "string \<Rightarrow> registry_entry" where
  "sample_registered urn =
     \<lparr>ent_id = urn, ent_name = ''a'', ent_description = [], ent_endpoints = [(''manifest'', ''https://a/m.json'')], ent_skills = [], ent_category = None,
      ent_tags = [], ent_asap_version = ''0.1'', ent_repository_url = None, ent_documentation_url = None, ent_built_with = None,
      ent_verification = None, ent_online_check = None, ent_hardware_class = None, ent_inference_modes = [], ent_hardware_io = []\<rparr>"

definition sample_agent_manifest :: "string \<Rightarrow> agent_manifest" where
  "sample_agent_manifest urn =
     \<lparr>man_id = urn, man_name = ''a'', man_version = ''1.0.0'', man_description = [], man_asap_version = ''0.1'', man_skills = [], man_hardware = None,
      man_inference = None, man_asap = ''https://a/asap'', man_events = None\<rparr>"

text \<open>A toy signature scheme: a signature repeats the key and pads with zeros, so that its scalar is zero.\<close>

definition sample_keys :: "bytes \<Rightarrow> bytes" where
  "sample_keys k = take 32 (k @ replicate 32 (CHR 0x00))"

definition sample_registry_manifests :: "(agent_manifest, unit) manifest_lib" where
  "sample_registry_manifests =
     \<lparr>ml_manifest = (\<lambda>v. Inr (sample_agent_manifest ''urn:asap:agent:a'')),
      ml_signed = (\<lambda>v. Inr \<lparr>sg_manifest = sample_agent_manifest ''urn:asap:agent:a'', sg_alg = ''ed25519'', sg_signature = [], sg_trust_level = ''verified'', sg_public_key = None\<rparr>),
      ml_health = (\<lambda>v. Inr ()), ml_b64decode = (\<lambda>s. Inr (drop 1 s)), ml_canonicalize = man_id, ml_verify = (\<lambda>key sig m. take 32 sig = key),
      ml_str = (\<lambda>v. [])\<rparr>"

definition sample_registry_lib :: "string \<Rightarrow> string \<Rightarrow> registry_lib" where
  "sample_registry_lib urn other =
     \<lparr>rl_registry_json = (\<lambda>t. Inr \<lparr>lr_version = ''1.0'', lr_updated_at = 0, lr_agents = [sample_registered urn]\<rparr>),
      rl_signed_json = (\<lambda>t. Inr \<lparr>sg_manifest = sample_agent_manifest other, sg_alg = ''ed25519'', sg_signature = CHR ''b'' # sample_keys ''ca'' @ replicate 32 (CHR 0x00),
         sg_trust_level = ''verified'', sg_public_key = Some (CHR ''b'' # sample_keys ''ca'')\<rparr>),
      rl_manifests = sample_registry_manifests, rl_b64encode = (\<lambda>b. CHR ''b'' # b), rl_public_key = sample_keys,
      rl_sign = (\<lambda>k m. sample_keys k @ replicate 32 (CHR 0x00)), rl_http_date = (\<lambda>s. None), rl_version_less = (\<lambda>a b. Inr False), rl_shown = (\<lambda>l. [])\<rparr>"

definition sample_ok :: "pyval \<Rightarrow> http_outcome" where
  "sample_ok v = Delivered \<lparr>rsp_status = 200, rsp_headers = [], rsp_text = [], rsp_excerpt = [], rsp_json = Inr v\<rparr>"

definition sample_resolve :: "pyval \<Rightarrow> resolve_env" where
  "sample_resolve listing =
     \<lparr>re_registry = \<lparr>rv_attempt = (\<lambda>i. \<lparr>dv_now = 1, dv_outcome = sample_ok PNone, dv_others = []\<rparr>), rv_wall = (\<lambda>i. 0), rv_during_sleep = (\<lambda>i. [])\<rparr>,
      re_env_ttl = None, re_manifest = (\<lambda>u i. sample_ok PNone), re_wall = (\<lambda>i. 0), re_ca_key = Some (CHR ''b'' # sample_keys ''ca''),
      re_env_revoked_url = None, re_revoked = (\<lambda>u. sample_ok listing), re_revocation_first = False\<rparr>"

definition sample_market :: market_client where
  "sample_market = \<lparr>mt_registry_url = DEFAULT_REGISTRY_URL, mt_revoked_url = None, mt_auth_token = None, mt_sender_urn = ''urn:asap:agent:c'', mt_registry_cache_ttl = None\<rparr>"

lemmas sample_registry_defs = sample_registered_def sample_agent_manifest_def sample_registry_lib_def sample_registry_manifests_def sample_ok_def
  sample_resolve_def sample_market_def

lemma le_value_zeros: "le_value (replicate n (CHR 0x00)) = 0"
  by (induction n) simp_all

lemma sample_keys_length [simp]: "length (sample_keys k) = 32"
  by (simp add: sample_keys_def)

lemma sample_signatures_lawful: "signatures_lawful (sample_registry_lib urn other)"
  by (simp add: signatures_lawful_def sample_registry_lib_def sample_registry_manifests_def le_value_zeros ED25519_ORDER_def)

lemma sample_registry_fetched:
  assumes "validate_agent_urn urn = Inr urn"
  shows "fst (get_registry (sample_registry_lib urn other) url ttl None (re_registry (sample_resolve listing)) []) =
    Inr \<lparr>lr_version = ''1.0'', lr_updated_at = 0, lr_agents = [sample_registered urn]\<rparr>"
  using assms
  by (simp add: get_registry_def registry_loop.simps discover_from_registry_def registry_lookup_def raise_for_status_def parse_lite_registry_def
      make_registry_entry_def normalize_category_def sample_registry_defs)

lemma sample_manifest_trusted:
  "fetch_signed_manifest (sample_registry_lib urn other) (sample_resolve listing) url =
     Inr (sign_with_ca (sample_registry_lib urn other) (sample_agent_manifest other) ''ca'')"
  by (simp add: fetch_signed_manifest_def get_with_429_retry_def retry_429.simps raise_for_status_def sample_registry_lib_def sample_resolve_def
      sample_ok_def sign_with_ca_def sample_registry_manifests_def)

lemma sample_resolves:
  assumes "validate_agent_urn urn = Inr urn" "\<not> revoked_by urn listing"
  shows "fst (market_resolve (sample_registry_lib urn other) sample_market urn (sample_resolve listing) []) =
    Inr \<lparr>ra_manifest = sample_agent_manifest other, ra_entry = sample_registered urn\<rparr>"
proof -
  let ?lb = "sample_registry_lib urn other" and ?env = "sample_resolve listing"
  obtain c where reg: "get_registry ?lb DEFAULT_REGISTRY_URL None None (re_registry ?env) [] =
      (Inr \<lparr>lr_version = ''1.0'', lr_updated_at = 0, lr_agents = [sample_registered urn]\<rparr>, c)"
    using sample_registry_fetched [OF assms(1), of other DEFAULT_REGISTRY_URL None listing] by (metis prod.collapse)
  have "verify_ca_signature ?lb (sign_with_ca ?lb (sample_agent_manifest other) ''ca'') [rl_b64encode ?lb (rl_public_key ?lb ''ca'')] = Inr ()"
    by (simp add: ca_trusted_iff [OF sample_signatures_lawful])
  then have "check_trust_and_revocation ?lb sample_market ?env urn (sign_with_ca ?lb (sample_agent_manifest other) ''ca'') = Inr False"
    using assms(2)
    by (simp add: check_trust_and_revocation_def verify_agent_trust_def get_ca_key_b64_def urn_is_revoked_def raise_for_status_def
        sample_resolve_def sample_ok_def sample_registry_lib_def)
  moreover have "sg_manifest (sign_with_ca ?lb m k) = m" for m k by (simp add: sign_with_ca_def)
  moreover have "re_env_ttl ?env = None" by (simp add: sample_resolve_def)
  ultimately show ?thesis
    using reg sample_manifest_trusted [of urn other listing]
    by (simp add: market_resolve_def find_by_id_def manifest_url_from_entry_def sample_market_def sample_registered_def)
qed

theorem resolved_agents_trusted_witness:
  "\<exists>a c'. market_resolve (sample_registry_lib ''urn:asap:agent:a'' ''urn:asap:agent:a'') sample_market ''urn:asap:agent:a''
      (sample_resolve (PDict [(''revoked'', PList [])])) [] = (Inr a, c') \<and> ent_id (ra_entry a) = ''urn:asap:agent:a'' \<and>
    (\<exists>sm url. fetch_signed_manifest (sample_registry_lib ''urn:asap:agent:a'' ''urn:asap:agent:a'') (sample_resolve (PDict [(''revoked'', PList [])])) url = Inr sm \<and>
       sg_manifest sm = ra_manifest a \<and> sg_trust_level sm = ''verified'')"
proof -
  let ?run = "market_resolve (sample_registry_lib ''urn:asap:agent:a'' ''urn:asap:agent:a'') sample_market ''urn:asap:agent:a''
      (sample_resolve (PDict [(''revoked'', PList [])])) []"
  have "fst ?run = Inr \<lparr>ra_manifest = sample_agent_manifest ''urn:asap:agent:a'', ra_entry = sample_registered ''urn:asap:agent:a''\<rparr>"
    by (rule sample_resolves) (simp_all add: revoked_by_def)
  then obtain a where a: "?run = (Inr a, snd ?run)" by (metis prod.collapse)
  from resolved_agents_trusted [OF a] a show ?thesis by blast
qed

theorem ca_signature_round_trip_witness:
  "verify_ca_signature (sample_registry_lib [] []) (sign_with_ca (sample_registry_lib [] []) (sample_agent_manifest ''urn:asap:agent:a'') ''ca'')
     [rl_b64encode (sample_registry_lib [] []) (rl_public_key (sample_registry_lib [] []) ''ca'')] = Inr ()"
  using ca_signature_round_trip [OF sample_signatures_lawful] by simp

subsection \<open>What resolving does not check\<close>

text \<open>The manifest need not be that of the agent that was asked for: any manifest the authority signed resolves, and its identifier becomes
  the recipient of the tasks.\<close>

lemma foreign_manifest_resolves:
  "\<exists>a. fst (market_resolve (sample_registry_lib ''urn:asap:agent:a'' ''urn:asap:agent:b'') sample_market ''urn:asap:agent:a''
      (sample_resolve (PDict [(''revoked'', PList [])])) []) = Inr a \<and> man_id (ra_manifest a) = ''urn:asap:agent:b''"
  using sample_resolves [of "''urn:asap:agent:a''" "PDict [(''revoked'', PList [])]" "''urn:asap:agent:b''"]
  by (simp add: revoked_by_def sample_agent_manifest_def)

text \<open>A revocation list of another shape revokes nobody: the names at the top level, or a name in place of an entry.\<close>

lemma malformed_revocations_ignored:
  "urn_is_revoked urn (sample_ok (PList l)) = Inr False" "urn_is_revoked urn (sample_ok (PDict [(''revoked'', PList [PStr urn])])) = Inr False"
  "urn_is_revoked urn (sample_ok (PDict [(''revoked'', PDict d)])) = Inr False"
  by (simp_all add: urn_is_revoked_def sample_ok_def raise_for_status_def revoked_by_def names_urn_def)

end
