(* ===== verification/Auto_Registration.thy ===== *)
theory Auto_Registration
  imports Lite_Registry Webhook Oauth2
begin

text \<open>
  Self-service registration in the public registry: the endpoint \<open>POST /registry/agents\<close> (\<open>src/asap/registry/auto_registration.py\<close>,
  \<open>anti_spam.py\<close>) and the bot that proposes the new entry as a pull request (\<open>src/asap/registry/bot_pr.py\<close>). It joins components that other theories
  model: scopes of a token (\<open>Oauth2\<close>), the rate limiter (\<open>Rate_Limit\<close>), the receipt cache (\<open>Ttl_Cache\<close>), checked addresses (\<open>Webhook\<close>) and
  manifests (\<open>Lite_Registry\<close>).

  Everything that leaves the process is recorded in order as an \<open>action\<close>. Arguments: the answers of name servers, of the agent, of git and of GitHub, and
  the report of the compliance harness. The hooks of \<open>BotPRSettings\<close> that tests use are left at their defaults; a configured
  \<open>open_pull_request\<close> is a function.
\<close>

subsection \<open>Merging an entry\<close>

definition branch_char :: "char \<Rightarrow> bool" where
  "branch_char c \<longleftrightarrow> (of_char c :: nat) < 128 \<and> (py_isalnum c \<or> c \<in> set ''._-'')"

text \<open>\<open>re.sub(r"[^a-zA-Z0-9._-]+", "-", s)\<close>\<close>

function dash_runs :: "string \<Rightarrow> string" where
  "dash_runs [] = []"
| "dash_runs (c # s) = (if branch_char c then c # dash_runs s else CHR ''-'' # dash_runs (dropWhile (\<lambda>x. \<not> branch_char x) s))"
  by pat_completeness auto
termination
  by (relation "measure length") (auto simp: less_Suc_eq_le length_dropWhile_le)

definition strip_dashes :: "string \<Rightarrow> string" where
  "strip_dashes s = rev (dropWhile (\<lambda>c. c = CHR ''-'') (rev (dropWhile (\<lambda>c. c = CHR ''-'') s)))"

definition sanitize_urn_for_branch :: "string \<Rightarrow> string" where
  "sanitize_urn_for_branch urn =
     (let slug = strip_dashes (dash_runs (strip urn)) in if slug = [] then ''unknown'' else take 200 slug)"

definition entries_by_id :: "registry_entry list \<Rightarrow> (string, registry_entry) dict" where
  "entries_by_id agents = fold (\<lambda>a d. AList.update (ent_id a) a d) agents []"

definition merge_lite_registry :: "datetime \<Rightarrow> lite_registry \<Rightarrow> registry_entry \<Rightarrow> py_exn + lite_registry" where
  "merge_lite_registry now registry entry =
     (let by_id = entries_by_id (lr_agents registry)
      in if map_of by_id (ent_id entry) \<noteq> None
         then Inl (ValueError (''Agent id '' @ [CHR 0x27] @ ent_id entry @ [CHR 0x27] @ '' is already registered''))
         else Inr \<lparr>lr_version = lr_version registry, lr_updated_at = now,
                   lr_agents = sort_key ent_id (dict_values (AList.update (ent_id entry) entry by_id))\<rparr>)"

record bot_lib =
  bl_registry :: registry_lib
  bl_addresses :: webhook_lib
  bl_dump :: "lite_registry \<Rightarrow> code_points"
  bl_is_request_error :: "string \<Rightarrow> bool"
  bl_http_url :: "pyval \<Rightarrow> string option"
  bl_sha256 :: "string \<Rightarrow> string"

definition merge_lite_registry_json_text ::
  "bot_lib \<Rightarrow> datetime \<Rightarrow> code_points \<Rightarrow> registry_entry \<Rightarrow> exn + code_points" where
  "merge_lite_registry_json_text lb now existing_json entry =
     (case parse_lite_registry (bl_registry lb) existing_json of
        Inl x \<Rightarrow> Inl (OtherExn ''ValueError'' ''registry.json is not valid LiteRegistry JSON'')
      | Inr registry \<Rightarrow>
          (case merge_lite_registry now registry entry of
             Inl x \<Rightarrow> Inl (lift_exn x)
           | Inr merged \<Rightarrow> Inr (bl_dump lb merged)))"

definition conventional_commit_message :: "registry_entry \<Rightarrow> string" where
  "conventional_commit_message e = ''feat(registry): auto-register '' @ ent_name e @ '' ('' @ ent_id e @ '')''"

subsection \<open>Git and GitHub\<close>

record bot_settings =
  bs_owner :: string
  bs_repo :: string
  bs_base_branch :: string
  bs_github_token :: string
  bs_registry_path :: string
  bs_remote_name :: string

text \<open>\<open>s.replace(p, r, 1)\<close> for a text \<open>p\<close> that is not empty.\<close>

fun replace_first :: "string \<Rightarrow> string \<Rightarrow> string \<Rightarrow> string" where
  "replace_first p r [] = []"
| "replace_first p r (c # s) = (if starts_with (c # s) p then r @ drop (length p) (c # s) else c # replace_first p r s)"

definition authenticated_clone_url :: "bot_lib \<Rightarrow> bot_settings \<Rightarrow> string \<Rightarrow> exn + string" where
  "authenticated_clone_url lb bs clone_url =
     (if bs_github_token bs = [] then Inr clone_url
      else (case ul_parse (wl_urls (bl_addresses lb)) clone_url of
              Inl x \<Rightarrow> Inl (lift_exn x)
            | Inr p \<Rightarrow>
                if up_scheme p \<noteq> ''https'' \<or> (case up_hostname p of None \<Rightarrow> True | Some h \<Rightarrow> h = []) then Inr clone_url
                else Inr (replace_first ''https://'' (''https://x-access-token:'' @ bs_github_token bs @ ''@'') clone_url)))"

datatype git_command =
    GitClone string string
  | GitCheckout string
  | GitAdd string
  | GitCommit string
  | GitPush string string

datatype action =
    Fetched string
  | RanHarness string
  | CalledBackend registry_entry string
  | RanGit git_command
  | WroteRegistry code_points
  | PostedPull pydict
  | PostedLabel pyval

text \<open>What git, the clone and GitHub answer: the failure of a command, if it fails, the registry file, and two responses.\<close>

record bot_env =
  be_git :: "git_command \<Rightarrow> exn option"
  be_file :: "code_points option"
  be_now :: datetime
  be_pull :: http_outcome
  be_label :: http_outcome

definition run_git :: "bot_env \<Rightarrow> git_command \<Rightarrow> action list \<Rightarrow> (action list, exn, unit) outcome" where
  "run_git env cmd acts = (case be_git env cmd of Some x \<Rightarrow> (Inl x, acts @ [RanGit cmd]) | None \<Rightarrow> (Inr (), acts @ [RanGit cmd]))"

definition default_branch_prep ::
  "bot_lib \<Rightarrow> bot_env \<Rightarrow> bot_settings \<Rightarrow> registry_entry \<Rightarrow> action list \<Rightarrow> (action list, exn, unit) outcome" where
  "default_branch_prep lb env bs e acts =
     (case be_file env of
        None \<Rightarrow> (Inl (OtherExn ''FileNotFoundError'' (''Missing '' @ bs_registry_path bs)), acts)
      | Some file \<Rightarrow>
          (case merge_lite_registry_json_text lb (be_now env) file e of
             Inl x \<Rightarrow> (Inl x, acts)
           | Inr new_json \<Rightarrow>
               bind_out (run_git env (GitAdd (bs_registry_path bs)) (acts @ [WroteRegistry (new_json @ [10])]))
                 (\<lambda>u. run_git env (GitCommit (conventional_commit_message e)))))"

definition default_git_push :: "bot_env \<Rightarrow> bot_settings \<Rightarrow> string \<Rightarrow> action list \<Rightarrow> (action list, exn, unit) outcome" where
  "default_git_push env bs branch = run_git env (GitPush (bs_remote_name bs) branch)"

definition run_local_git_flow ::
  "bot_lib \<Rightarrow> bot_env \<Rightarrow> bot_settings \<Rightarrow> string \<Rightarrow> string \<Rightarrow> registry_entry \<Rightarrow> action list \<Rightarrow> (action list, exn, unit) outcome" where
  "run_local_git_flow lb env bs clone_target branch e acts =
     bind_out (run_git env (GitClone (bs_base_branch bs) clone_target) acts) (\<lambda>u acts1.
     bind_out (run_git env (GitCheckout branch) acts1) (\<lambda>u acts2.
     bind_out (default_branch_prep lb env bs e acts2) (\<lambda>u acts3.
     default_git_push env bs branch acts3)))"

definition is_reserved_destination :: "bot_lib \<Rightarrow> string \<Rightarrow> exn + bool" where
  "is_reserved_destination lb url =
     (case ul_parse (wl_urls (bl_addresses lb)) url of
        Inl x \<Rightarrow> Inl (lift_exn x)
      | Inr p \<Rightarrow>
          (let host = lower (case up_hostname p of None \<Rightarrow> [] | Some h \<Rightarrow> h)
           in if host \<in> {''localhost'', ''127.0.0.1'', ''::1'', ''0.0.0.0''} then Inr True
              else (case wl_ip (bl_addresses lb) host of
                      None \<Rightarrow> Inr False
                    | Some ip \<Rightarrow> Inr (ip_is_private ip \<or> ip_is_loopback ip \<or> ip_is_link_local ip))))"

definition answered_ok :: "http_outcome \<Rightarrow> exn + wire_response" where
  "answered_ok out =
     (case out of
        Delivered r \<Rightarrow> (case raise_for_status r of Inl x \<Rightarrow> Inl (call_exn x) | Inr u \<Rightarrow> Inr r)
      | failed \<Rightarrow> Inl (transport_exn failed))"

text \<open>The address of the pull request and its number, which the label needs; \<open>isinstance(True, int)\<close> holds.\<close>

definition read_pull_answer :: "wire_response \<Rightarrow> exn + string \<times> pyval" where
  "read_pull_answer r =
     (case rsp_json r of
        Inl x \<Rightarrow> Inl (OtherExn ''JSONDecodeError'' x)
      | Inr (PDict d) \<Rightarrow>
          (case map_of d ''html_url'' of
             Some (PStr html_url) \<Rightarrow>
               (case map_of d ''number'' of
                  Some (PInt n) \<Rightarrow> Inr (html_url, PInt n)
                | Some (PBool b) \<Rightarrow> Inr (html_url, PBool b)
                | _ \<Rightarrow> Inl (OtherExn ''RuntimeError'' ''GitHub API response missing pull request number''))
           | _ \<Rightarrow> Inl (OtherExn ''RuntimeError'' ''GitHub API response missing html_url''))
      | Inr v \<Rightarrow> Inl (OtherExn ''AttributeError'' []))"

definition github_create_pull_request ::
  "bot_env \<Rightarrow> bot_settings \<Rightarrow> string \<Rightarrow> string \<Rightarrow> string \<Rightarrow> action list \<Rightarrow> (action list, exn, string) outcome" where
  "github_create_pull_request env bs head_branch title body acts =
     (if bs_github_token bs = [] then (Inl (OtherExn ''ValueError'' ''GITHUB_TOKEN is required to open a pull request''), acts)
      else
        (let acts1 = acts @ [PostedPull [(''title'', PStr title), (''head'', PStr head_branch), (''base'', PStr (bs_base_branch bs)),
                                         (''body'', PStr body), (''maintainer_can_modify'', PBool True)]]
         in case answered_ok (be_pull env) of
              Inl x \<Rightarrow> (Inl x, acts1)
            | Inr r \<Rightarrow>
                (case read_pull_answer r of
                   Inl x \<Rightarrow> (Inl x, acts1)
                 | Inr (html_url, number) \<Rightarrow>
                     (case answered_ok (be_label env) of
                        Inl x \<Rightarrow> (Inl x, acts1 @ [PostedLabel number])
                      | Inr _ \<Rightarrow> (Inr html_url, acts1 @ [PostedLabel number])))))"

definition pull_request_body :: "registry_entry \<Rightarrow> string \<Rightarrow> string" where
  "pull_request_body e manifest_url =
     ''Automated registration request.'' @ [CHR 0x0A, CHR 0x0A] @ ''- **URN**: `'' @ ent_id e @ ''`'' @ [CHR 0x0A] @
     ''- **Manifest**: '' @ manifest_url @ [CHR 0x0A] @ ''- **Trust**: self-signed (pending verification)'' @ [CHR 0x0A]"

definition open_registry_pull_request ::
  "bot_lib \<Rightarrow> bot_env \<Rightarrow> bot_settings \<Rightarrow> registry_entry \<Rightarrow> string \<Rightarrow> action list \<Rightarrow> (action list, exn, string) outcome" where
  "open_registry_pull_request lb env bs e manifest_url acts =
     (let branch = ''auto-reg/'' @ sanitize_urn_for_branch (ent_id e);
          clone = ''https://github.com/'' @ bs_owner bs @ ''/'' @ bs_repo bs @ ''.git''
      in case is_reserved_destination lb clone of
           Inl x \<Rightarrow> (Inl x, acts)
         | Inr reserved \<Rightarrow>
             if reserved then (Inl (OtherExn ''ValueError'' (''Refusing to clone from reserved destination: '' @ clone)), acts)
             else (case authenticated_clone_url lb bs clone of
                     Inl x \<Rightarrow> (Inl x, acts)
                   | Inr clone_target \<Rightarrow>
                       bind_out (run_local_git_flow lb env bs clone_target branch e acts)
                         (\<lambda>u. github_create_pull_request env bs branch (''Auto-register '' @ ent_name e) (pull_request_body e manifest_url))))"

subsection \<open>The endpoint\<close>

definition REGISTRY_REGISTER_SCOPE :: string where "REGISTRY_REGISTER_SCOPE = ''asap:registry''"
definition TRUST_LEVEL_SELF_SIGNED :: string where "TRUST_LEVEL_SELF_SIGNED = ''self-signed''"

definition auto_register_verification :: verification_state where
  "auto_register_verification = Pending"

datatype pr_backend = NoBackend | Bot bot_settings | Backend "registry_entry \<Rightarrow> string \<Rightarrow> exn + string"

record auto_registration_config =
  ac_required_scope :: string
  ac_claims_dependency :: "(http_request \<Rightarrow> exn + oauth2_claims) option"
  ac_backend :: pr_backend

record registration_receipt =
  rr_agent_id :: string
  rr_urn :: string
  rr_harness_score :: rat
  rr_pr_url :: "string option"
  rr_status :: string
  rr_trust_level :: string

record compliance_report =
  cr_score :: rat
  cr_checks :: "(bool \<times> pyval) list"
  cr_summary :: string

text \<open>An answer that is an error: an \<open>HTTPException\<close> with its detail, a body that is not valid, or an exception nobody catches.\<close>

datatype reg_failure = Answered int pyval | InvalidBody | Uncaught exn

definition parse_register_body :: "bot_lib \<Rightarrow> pydict \<Rightarrow> string option" where
  "parse_register_body lb body =
     (case map_of body ''manifest_url'' of
        Some v \<Rightarrow> if set (dict_keys body) = {''manifest_url''} then bl_http_url lb v else None
      | None \<Rightarrow> None)"

definition deterministic_registration_agent_id :: "bot_lib \<Rightarrow> string \<Rightarrow> string" where
  "deterministic_registration_agent_id lb manifest_url = ''urn:asap:registry:auto:'' @ bl_sha256 lb (strip manifest_url)"

definition manifest_url_cache_key :: "bot_lib \<Rightarrow> string \<Rightarrow> string" where
  "manifest_url_cache_key lb manifest_url = bl_sha256 lb (strip manifest_url)"

definition ends_with :: "string \<Rightarrow> string \<Rightarrow> bool" where
  "ends_with s p \<longleftrightarrow> length p \<le> length s \<and> drop (length s - length p) s = p"

definition harness_base_url_from_manifest :: "bot_lib \<Rightarrow> agent_manifest \<Rightarrow> exn + string" where
  "harness_base_url_from_manifest lb m =
     (case ul_parse (wl_urls (bl_addresses lb)) (man_asap m) of
        Inl x \<Rightarrow> Inl (lift_exn x)
      | Inr u \<Rightarrow>
          (let path = rstrip_slash (up_path u);
               root_path = (if ends_with path ''/asap'' then take (length path - 5) path else path);
               base = rstrip_slash (ul_unparse (wl_urls (bl_addresses lb))
                 (up_scheme u, up_netloc u, (if root_path = [] then ''/'' else root_path), [], [], []))
           in Inr (if base = [] then up_scheme u @ ''://'' @ up_netloc u else base)))"

text \<open>An exception of the checks of addresses, as the handlers of \<open>WebhookURLValidationError\<close> see it.\<close>

definition url_blocked :: "exn \<Rightarrow> bool" where
  "url_blocked x = (case x of AsapExn e \<Rightarrow> ae_class e = WebhookURLValidationError | _ \<Rightarrow> False)"

definition signature_failed :: "exn \<Rightarrow> bool" where
  "signature_failed x = (case x of AsapExn e \<Rightarrow> ae_class e = SignatureVerificationError | _ \<Rightarrow> False)"

definition blocked_or_raised :: "string \<Rightarrow> exn \<Rightarrow> reg_failure" where
  "blocked_or_raised prefix x = (if url_blocked x then Answered 400 (PStr (prefix @ exn_text x)) else Uncaught x)"

text \<open>\<open>fetch_manifest_at_url\<close> with the exceptions its caller turns into answers.\<close>

definition read_manifest :: "bot_lib \<Rightarrow> wire_response \<Rightarrow> reg_failure + agent_manifest" where
  "read_manifest lb r =
     (case raise_for_status r of
        Inl x \<Rightarrow> Inl (Answered 400 (PStr (''Failed to fetch manifest: HTTP '' @ str_int (rsp_status r))))
      | Inr u \<Rightarrow>
          (case rsp_json r of
             Inl x \<Rightarrow> Inl (Answered 400 (PStr ''Manifest response is not JSON''))
           | Inr (PDict data) \<Rightarrow>
               (case validate_signed_manifest_response (bl_registry lb) data True of
                  Inl x \<Rightarrow>
                    if signature_failed x \<or> exn_type x = ''ManifestValidationError'' then Inl (Answered 400 (PStr (exn_text x)))
                    else Inl (Uncaught x)
                | Inr m \<Rightarrow> Inr m)
           | Inr v \<Rightarrow> Inl (Answered 400 (PStr ''Manifest JSON must be an object''))))"

definition fetch_manifest_at_url ::
  "bot_lib \<Rightarrow> (string \<Rightarrow> exn + string list) \<Rightarrow> http_outcome \<Rightarrow> string \<Rightarrow> action list \<Rightarrow> (action list, reg_failure, agent_manifest) outcome" where
  "fetch_manifest_at_url lb dns out manifest_url acts =
     (case validate_callback_url (bl_addresses lb) dns True manifest_url of
        Inl x \<Rightarrow> (Inl (blocked_or_raised [] x), acts)
      | Inr u \<Rightarrow>
          (case out of
             Delivered r \<Rightarrow> (read_manifest lb r, acts @ [Fetched manifest_url])
           | HttpFailed t x \<Rightarrow>
               (Inl (if bl_is_request_error lb t then Answered 502 (PStr (''Manifest fetch failed: '' @ x)) else Uncaught (OtherExn t x)),
                acts @ [Fetched manifest_url])
           | failed \<Rightarrow> (Inl (Answered 502 (PStr (''Manifest fetch failed: '' @ exn_text (transport_exn failed)))), acts @ [Fetched manifest_url])))"

text \<open>The endpoint of the agent and, if it has one, that of its events.\<close>

definition persisted_endpoints :: "agent_manifest \<Rightarrow> (string \<times> string) list" where
  "persisted_endpoints m =
     (''HTTP'', man_asap m) # (case man_events m of Some (a # u) \<Rightarrow> [(''WebSocket'', a # u)] | _ \<Rightarrow> [])"

fun validate_endpoints :: "bot_lib \<Rightarrow> (string \<Rightarrow> exn + string list) \<Rightarrow> (string \<times> string) list \<Rightarrow> reg_failure + unit" where
  "validate_endpoints lb dns [] = Inr ()"
| "validate_endpoints lb dns ((label, url) # es) =
     (case validate_agent_endpoint_url (bl_addresses lb) dns True url of
        Inl x \<Rightarrow> Inl (blocked_or_raised (label @ '' endpoint blocked: '') x)
      | Inr u \<Rightarrow> validate_endpoints lb dns es)"

definition validate_persisted_registry_endpoints :: "bot_lib \<Rightarrow> (string \<Rightarrow> exn + string list) \<Rightarrow> agent_manifest \<Rightarrow> reg_failure + unit" where
  "validate_persisted_registry_endpoints lb dns m = validate_endpoints lb dns (persisted_endpoints m)"

definition build_registry_entry :: "agent_manifest \<Rightarrow> string \<Rightarrow> py_exn + registry_entry" where
  "build_registry_entry m manifest_url =
     (case generate_registry_entry m
             ([(''http'', man_asap m), (''manifest'', manifest_url)] @ (case man_events m of Some (a # u) \<Rightarrow> [(''ws'', a # u)] | _ \<Rightarrow> []))
             None None None None [] of
        Inl x \<Rightarrow> Inl x
      | Inr e \<Rightarrow> Inr (e\<lparr>ent_verification := Some auto_register_verification, ent_tags := sort (remdups (TRUST_LEVEL_SELF_SIGNED # ent_tags e))\<rparr>))"

definition open_pr ::
  "bot_lib \<Rightarrow> auto_registration_config \<Rightarrow> bot_env \<Rightarrow> registry_entry \<Rightarrow> string \<Rightarrow> action list \<Rightarrow> (action list, exn, string) outcome" where
  "open_pr lb cfg env e manifest_url acts =
     (case ac_backend cfg of
        Backend f \<Rightarrow> (f e manifest_url, acts @ [CalledBackend e manifest_url])
      | NoBackend \<Rightarrow> (Inl (HttpExn 503 ''Auto-registration PR backend is not configured (missing BotPRSettings)''), acts)
      | Bot bs \<Rightarrow> open_registry_pull_request lb env bs e manifest_url acts)"

definition pr_failure :: "exn \<Rightarrow> reg_failure" where
  "pr_failure x =
     (case x of
        HttpExn status d \<Rightarrow> Answered status (PStr d)
      | _ \<Rightarrow> if exn_type x \<in> {''ValueError'', ''ValidationError'', ''JSONDecodeError''} then Answered 400 (PStr (exn_text x))
             else Answered 502 (PStr ''Pull request flow failed. Check server logs for details.''))"

record ('i, 'st) limiter =
  lm_limits :: "'i list"
  lm_test :: "'i \<Rightarrow> string \<Rightarrow> int \<Rightarrow> 'st \<Rightarrow> bool"
  lm_hit :: "'i \<Rightarrow> string \<Rightarrow> int \<Rightarrow> 'st \<Rightarrow> bool \<times> 'st"
  lm_reset_at :: "'i \<Rightarrow> string \<Rightarrow> 'st \<Rightarrow> rat"
  lm_detail :: "'i \<Rightarrow> string"

definition registration_rate_limit ::
  "bot_lib \<Rightarrow> ('i, 'st) limiter option \<Rightarrow> rat \<Rightarrow> http_request \<Rightarrow> 'st \<Rightarrow> ('st, reg_failure, unit) outcome" where
  "registration_rate_limit lb limits now req st =
     (case limits of
        None \<Rightarrow> (Inr (), st)
      | Some l \<Rightarrow>
          (case limiter_check (lm_test l) (lm_hit l) (lm_reset_at l) now (lm_limits l) (registration_token_key (bl_sha256 lb) req) st of
             (Inl (RateLimitExceeded i retry), st1) \<Rightarrow> (Inl (Answered 429 (PStr (lm_detail l i))), st1)
           | (Inr u, st1) \<Rightarrow> (Inr (), st1)))"

record reg_env =
  gv_now :: rat
  gv_t_in :: rat
  gv_t_get :: "rat \<times> rat"
  gv_t_set :: "rat \<times> rat"
  gv_receipts_meanwhile :: "(rat \<times> rat, string, registration_receipt) cache_event list"
  gv_dns_manifest :: "string \<Rightarrow> exn + string list"
  gv_fetch :: http_outcome
  gv_dns_harness :: "string \<Rightarrow> exn + string list"
  gv_report :: "exn + compliance_report"
  gv_dns_endpoints :: "string \<Rightarrow> exn + string list"
  gv_bot :: bot_env

record 'st reg_state =
  gs_limiter :: 'st
  gs_receipts :: "registration_receipt receipt_cache option"
  gs_actions :: "action list"

text \<open>\<open>cache_key in cache\<close> and then \<open>cache[cache_key]\<close>, each with its own readings of the clock.\<close>

definition cached_receipt ::
  "reg_env \<Rightarrow> string \<Rightarrow> registration_receipt receipt_cache \<Rightarrow> (registration_receipt receipt_cache, reg_failure, registration_receipt option) outcome" where
  "cached_receipt env key c =
     (case rc_contains (gv_t_in env) key c of
        (False, c1) \<Rightarrow> (Inr None, c1)
      | (True, c1) \<Rightarrow>
          (case rc_getitem (fst (gv_t_get env)) (snd (gv_t_get env)) key c1 of
             (Inl x, c2) \<Rightarrow> (Inl (Uncaught (lift_exn x)), c2)
           | (Inr r, c2) \<Rightarrow> (Inr (Some r), c2)))"

definition compliance_failed_detail :: "compliance_report \<Rightarrow> pyval" where
  "compliance_failed_detail report =
     PDict [(''error'', PStr ''compliance_gate_failed''), (''score'', PFloat (Fin (cr_score report))),
            (''failed_checks'', PList (map snd (filter (\<lambda>c. \<not> fst c) (cr_checks report)))), (''summary'', PStr (cr_summary report))]"

definition check_harness_url :: "bot_lib \<Rightarrow> reg_env \<Rightarrow> agent_manifest \<Rightarrow> reg_failure + string" where
  "check_harness_url lb env m =
     (case harness_base_url_from_manifest lb m of
        Inl x \<Rightarrow> Inl (Uncaught x)
      | Inr url \<Rightarrow>
          (case validate_callback_url (bl_addresses lb) (gv_dns_harness env) True url of
             Inl x \<Rightarrow> Inl (blocked_or_raised ''Harness base URL blocked: '' x)
           | Inr u \<Rightarrow> Inr url))"

definition compliance_gate :: "reg_env \<Rightarrow> reg_failure + compliance_report" where
  "compliance_gate env =
     (case gv_report env of
        Inl x \<Rightarrow> Inl (Uncaught x)
      | Inr report \<Rightarrow> if cr_score report < 1 then Inl (Answered 422 (compliance_failed_detail report)) else Inr report)"

definition propose_entry ::
  "bot_lib \<Rightarrow> auto_registration_config \<Rightarrow> reg_env \<Rightarrow> string \<Rightarrow> agent_manifest \<Rightarrow> compliance_report \<Rightarrow> action list \<Rightarrow>
   (action list, reg_failure, registration_receipt) outcome" where
  "propose_entry lb cfg env manifest_url m report acts =
     (case validate_persisted_registry_endpoints lb (gv_dns_endpoints env) m of
        Inl x \<Rightarrow> (Inl x, acts)
      | Inr u \<Rightarrow>
          (case build_registry_entry m manifest_url of
             Inl x \<Rightarrow> (Inl (Uncaught (lift_exn x)), acts)
           | Inr e \<Rightarrow>
               (case open_pr lb cfg (gv_bot env) e manifest_url acts of
                  (Inl x, acts1) \<Rightarrow> (Inl (pr_failure x), acts1)
                | (Inr pr_url, acts1) \<Rightarrow>
                    (Inr \<lparr>rr_agent_id = deterministic_registration_agent_id lb manifest_url, rr_urn = man_id m,
                          rr_harness_score = cr_score report, rr_pr_url = Some pr_url, rr_status = ''queued'',
                          rr_trust_level = TRUST_LEVEL_SELF_SIGNED\<rparr>, acts1))))"

definition register_checked ::
  "bot_lib \<Rightarrow> auto_registration_config \<Rightarrow> reg_env \<Rightarrow> string \<Rightarrow> action list \<Rightarrow> (action list, reg_failure, registration_receipt) outcome" where
  "register_checked lb cfg env manifest_url acts =
     bind_out (fetch_manifest_at_url lb (gv_dns_manifest env) (gv_fetch env) manifest_url acts) (\<lambda>m acts1.
     case check_harness_url lb env m of
       Inl x \<Rightarrow> (Inl x, acts1)
     | Inr url \<Rightarrow>
         (case compliance_gate env of
            Inl x \<Rightarrow> (Inl x, acts1 @ [RanHarness url])
          | Inr report \<Rightarrow> propose_entry lb cfg env manifest_url m report (acts1 @ [RanHarness url])))"

text \<open>FastAPI asks the dependencies in order, the claims and then the limiter, before it looks at the body. Other requests use the receipt cache while
  this one waits.\<close>

text \<open>The operator may configure another dependency for the claims than the one that demands the scope.\<close>

definition register_agent ::
  "bot_lib \<Rightarrow> auto_registration_config \<Rightarrow> ('i, 'st) limiter option \<Rightarrow> reg_env \<Rightarrow> oauth2_claims option \<Rightarrow> http_request \<Rightarrow> pydict \<Rightarrow>
   'st reg_state \<Rightarrow> ('st reg_state, reg_failure, registration_receipt) outcome" where
  "register_agent lb cfg limits env claims req body s =
     (case (case ac_claims_dependency cfg of None \<Rightarrow> require_scope (ac_required_scope cfg) claims | Some dep \<Rightarrow> dep req) of
        Inl x \<Rightarrow> (Inl (pr_failure x), s)
      | Inr cl \<Rightarrow>
          (case registration_rate_limit lb limits (gv_now env) req (gs_limiter s) of
             (Inl x, st1) \<Rightarrow> (Inl x, s\<lparr>gs_limiter := st1\<rparr>)
           | (Inr u, st1) \<Rightarrow>
               (let s1 = s\<lparr>gs_limiter := st1\<rparr> in
                case parse_register_body lb body of
                  None \<Rightarrow> (Inl InvalidBody, s1)
                | Some url \<Rightarrow>
                    (case gs_receipts s1 of
                       None \<Rightarrow>
                         (case register_checked lb cfg env url (gs_actions s1) of (out, acts) \<Rightarrow> (out, s1\<lparr>gs_actions := acts\<rparr>))
                     | Some c \<Rightarrow>
                         (case cached_receipt env (manifest_url_cache_key lb url) c of
                            (Inl x, c1) \<Rightarrow> (Inl x, s1\<lparr>gs_receipts := Some c1\<rparr>)
                          | (Inr (Some r), c1) \<Rightarrow> (Inr r, s1\<lparr>gs_receipts := Some c1\<rparr>)
                          | (Inr None, c1) \<Rightarrow>
                              (let c2 = rc.run (gv_receipts_meanwhile env) c1 in
                               case register_checked lb cfg env url (gs_actions s1) of
                                 (Inl x, acts) \<Rightarrow> (Inl x, s1\<lparr>gs_receipts := Some c2, gs_actions := acts\<rparr>)
                               | (Inr r, acts) \<Rightarrow>
                                   (Inr r, s1\<lparr>gs_receipts := Some (rc_setitem (gv_t_set env) (manifest_url_cache_key lb url) r c2),
                                             gs_actions := acts\<rparr>)))))))"

subsection \<open>Merging keeps what is there\<close>

lemma entries_by_id_rev: "entries_by_id (as @ [a]) = AList.update (ent_id a) a (entries_by_id as)"
  by (simp add: entries_by_id_def)

lemma entries_by_id_props:
  "wf_dict (entries_by_id as)" "dom (map_of (entries_by_id as)) = ent_id ` set as"
  "map_of (entries_by_id as) k = Some a \<Longrightarrow> a \<in> set as \<and> ent_id a = k"
proof (induction as arbitrary: k a rule: rev_induct)
  case (snoc a as)
  { case 1 from snoc.IH(1) show ?case by (simp add: entries_by_id_rev dict_simps) }
  { case 2 from snoc.IH(2) show ?case by (simp only: entries_by_id_rev update_conv' dom_fun_upd) simp }
  { case 3 from snoc.IH(3) 3 show ?case by (auto simp: entries_by_id_rev update_conv split: if_splits) }
qed (simp_all add: entries_by_id_def)

lemma ids_of_values: "wf_dict d \<Longrightarrow> (\<And>k a. map_of d k = Some a \<Longrightarrow> ent_id a = k) \<Longrightarrow> map ent_id (dict_values d) = dict_keys d"
proof -
  assume wf: "wf_dict d" and ids: "\<And>k a. map_of d k = Some a \<Longrightarrow> ent_id a = k"
  have "ent_id (snd p) = fst p" if "p \<in> set d" for p
    using that ids [of "fst p" "snd p"] wf_dict_entry [OF wf, of "fst p" "snd p"] by simp
  then show ?thesis by simp
qed

text \<open>A registration never replaces an entry: the identifier is new, every identifier keeps an entry, no identifier is left twice, and in a registry
  without repetitions all entries stay.\<close>

lemma merge_keeps_entries:
  assumes "merge_lite_registry now registry e = Inr merged"
  shows "ent_id e \<notin> ent_id ` set (lr_agents registry)" "sorted (map ent_id (lr_agents merged))" "distinct (map ent_id (lr_agents merged))"
    "ent_id ` set (lr_agents merged) = insert (ent_id e) (ent_id ` set (lr_agents registry))" "e \<in> set (lr_agents merged)"
    "set (lr_agents merged) \<subseteq> insert e (set (lr_agents registry))"
    "distinct (map ent_id (lr_agents registry)) \<Longrightarrow> set (lr_agents merged) = insert e (set (lr_agents registry))"
proof -
  let ?d = "entries_by_id (lr_agents registry)"
  let ?d' = "AList.update (ent_id e) e ?d"
  note d = entries_by_id_props [of "lr_agents registry"]
  from assms have new: "map_of ?d (ent_id e) = None" and m: "lr_agents merged = sort_key ent_id (dict_values ?d')"
    by (auto simp: merge_lite_registry_def Let_def split: if_splits)
  show fresh: "ent_id e \<notin> ent_id ` set (lr_agents registry)" using new d(2) by blast
  have wf: "wf_dict ?d'" using d(1) by (simp add: dict_simps)
  have vals: "a \<in> set (dict_values ?d') \<longleftrightarrow> (\<exists>k. map_of ?d' k = Some a)" for a
    using wf_dict_entry [OF wf] by force
  have ids: "map ent_id (dict_values ?d') = dict_keys ?d'"
    by (rule ids_of_values [OF wf]) (use d(3) in \<open>auto simp: update_conv split: if_splits\<close>)
  show "sorted (map ent_id (lr_agents merged))" by (simp add: m)
  have "distinct (map ent_id (dict_values ?d'))" using wf by (simp only: ids)
  then show "distinct (map ent_id (lr_agents merged))" by (simp only: m distinct_map distinct_sort set_sort)
  show "e \<in> set (lr_agents merged)" using vals [of e] by (auto simp: m update_conv)
  show sub: "set (lr_agents merged) \<subseteq> insert e (set (lr_agents registry))"
  proof
    fix a assume "a \<in> set (lr_agents merged)"
    then obtain k where "map_of ?d' k = Some a" using vals by (auto simp only: m set_sort)
    then show "a \<in> insert e (set (lr_agents registry))" using d(3) [of k a] by (auto simp: update_conv split: if_splits)
  qed
  have "ent_id ` set (lr_agents merged) = dom (map_of ?d')"
    using ids wf by (metis dom_map_of_conv_image_fst list.set_map m set_sort)
  then show ids': "ent_id ` set (lr_agents merged) = insert (ent_id e) (ent_id ` set (lr_agents registry))"
    using d(2) by (simp only: update_conv' dom_fun_upd) simp
  show "set (lr_agents merged) = insert e (set (lr_agents registry))" if dist: "distinct (map ent_id (lr_agents registry))"
  proof (intro equalityI sub subsetI)
    fix a assume "a \<in> insert e (set (lr_agents registry))"
    then consider "a = e" | "a \<in> set (lr_agents registry)" by blast
    then show "a \<in> set (lr_agents merged)"
    proof cases
      case 2
      then obtain b where b: "b \<in> set (lr_agents merged)" "ent_id b = ent_id a" using ids' by (metis image_iff insertI2)
      with sub fresh 2 have "b \<in> set (lr_agents registry)" by auto
      with dist b 2 show ?thesis by (metis distinct_map inj_on_eq_iff)
    qed (use \<open>e \<in> set (lr_agents merged)\<close> in simp)
  qed
qed

subsection \<open>What a proposal does\<close>

text \<open>Actions that publish something, and what they may publish for an entry of a manifest address.\<close>

fun publishing :: "action \<Rightarrow> bool" where
  "publishing (Fetched u) = False"
| "publishing (RanHarness u) = False"
| "publishing _ = True"

definition merged_text :: "bot_lib \<Rightarrow> bot_env \<Rightarrow> registry_entry \<Rightarrow> code_points \<Rightarrow> bool" where
  "merged_text lb env e t \<longleftrightarrow> (\<exists>file registry merged. be_file env = Some file \<and> parse_lite_registry (bl_registry lb) file = Inr registry \<and>
     merge_lite_registry (be_now env) registry e = Inr merged \<and> t = bl_dump lb merged @ [10])"

fun proposes :: "bot_lib \<Rightarrow> bot_env \<Rightarrow> string \<Rightarrow> registry_entry \<Rightarrow> action \<Rightarrow> bool" where
  "proposes lb env url e (Fetched u) = False"
| "proposes lb env url e (RanHarness u) = False"
| "proposes lb env url e (CalledBackend e' u) = (e' = e \<and> u = url)"
| "proposes lb env url e (WroteRegistry t) = merged_text lb env e t"
| "proposes lb env url e _ = True"

definition adds :: "(action \<Rightarrow> bool) \<Rightarrow> action list \<Rightarrow> action list \<Rightarrow> bool" where
  "adds P acts acts' \<longleftrightarrow> (\<exists>new. acts' = acts @ new \<and> (\<forall>x \<in> set new. P x))"

lemma adds_intros [intro]:
  "adds P acts acts" "P x \<Longrightarrow> adds P acts (acts @ [x])" "adds P acts acts1 \<Longrightarrow> P x \<Longrightarrow> adds P acts (acts1 @ [x])"
  by (auto simp: adds_def)

lemma adds_trans: "adds P acts acts1 \<Longrightarrow> adds P acts1 acts2 \<Longrightarrow> adds P acts acts2"
  by (auto simp: adds_def)

lemma adds_bind:
  assumes "adds P acts (snd m)" "\<And>a acts1. m = (Inr a, acts1) \<Longrightarrow> adds P acts1 (snd (k a acts1))"
  shows "adds P acts (snd (bind_out m k))"
proof (cases m)
  case (Pair r acts1)
  then show ?thesis using assms by (cases r) (auto intro: adds_trans)
qed

lemma adds_mono: "adds P acts acts' \<Longrightarrow> (\<And>x. P x \<Longrightarrow> Q x) \<Longrightarrow> adds Q acts acts'"
  by (auto simp: adds_def)

definition prepares :: "bot_lib \<Rightarrow> bot_env \<Rightarrow> registry_entry \<Rightarrow> action \<Rightarrow> bool" where
  "prepares lb env e x = (case x of RanGit cmd \<Rightarrow> True | WroteRegistry t \<Rightarrow> merged_text lb env e t | _ \<Rightarrow> False)"

lemma prepares_proposes: "prepares lb env e x \<Longrightarrow> proposes lb env url e x"
  by (cases x) (auto simp: prepares_def)

lemma run_git_adds: "adds (prepares lb env e) acts (snd (run_git env cmd acts))"
  by (auto simp: run_git_def prepares_def split: option.split)

lemma merge_json_text_merged:
  "merge_lite_registry_json_text lb (be_now env) doc e = Inr new_json \<Longrightarrow> be_file env = Some doc \<Longrightarrow> merged_text lb env e (new_json @ [10])"
  by (auto simp: merge_lite_registry_json_text_def merged_text_def split: sum.splits)

lemma branch_prep_adds: "adds (prepares lb env e) acts (snd (default_branch_prep lb env bs e acts))"
proof (cases "\<exists>doc new_json. be_file env = Some doc \<and> merge_lite_registry_json_text lb (be_now env) doc e = Inr new_json")
  case True
  then obtain doc new_json where f: "be_file env = Some doc" "merge_lite_registry_json_text lb (be_now env) doc e = Inr new_json" by blast
  then have "adds (prepares lb env e) acts (acts @ [WroteRegistry (new_json @ [10])])"
    by (auto simp: prepares_def merge_json_text_merged)
  from adds_trans [OF this adds_bind [OF run_git_adds run_git_adds]] show ?thesis
    unfolding default_branch_prep_def by (simp add: f)
qed (auto simp: default_branch_prep_def split: option.split sum.split)

lemma git_flow_adds: "adds (prepares lb env e) acts (snd (run_local_git_flow lb env bs target branch e acts))"
  unfolding run_local_git_flow_def default_git_push_def by (intro adds_bind run_git_adds branch_prep_adds)

lemma git_flow_ok:
  assumes "run_local_git_flow lb env bs target branch e acts = (Inr u, acts')"
  shows "\<exists>t. WroteRegistry t \<in> set acts' \<and> merged_text lb env e t \<and> RanGit (GitPush (bs_remote_name bs) branch) \<in> set acts' \<and>
    be_git env (GitPush (bs_remote_name bs) branch) = None"
  using assms
  by (auto simp: run_local_git_flow_def default_git_push_def default_branch_prep_def run_git_def bind_out_def
      dest: merge_json_text_merged split: option.splits sum.splits)

lemma pull_request_adds:
  "adds (proposes lb env url e) acts (snd (github_create_pull_request env bs branch title body acts))"
  "PostedPull d \<in> set (snd (github_create_pull_request env bs branch title body acts)) \<Longrightarrow> PostedPull d \<notin> set acts \<Longrightarrow> map_of d ''head'' = Some (PStr branch)"
  by (auto simp: github_create_pull_request_def Let_def adds_def split: sum.splits prod.splits if_splits)

lemma open_pr_adds: "adds (proposes lb env url e) acts (snd (open_pr lb cfg env e url acts))"
proof -
  have "adds (proposes lb env url e) acts (snd (open_registry_pull_request lb env bs e url acts))" for bs
    by (auto simp: open_registry_pull_request_def Let_def intro!: adds_bind pull_request_adds adds_mono [OF git_flow_adds prepares_proposes]
        split: sum.split)
  then show ?thesis by (auto simp: open_pr_def split: pr_backend.split)
qed

text \<open>A pull request is posted only after a branch with the merged registry was pushed, and proposes that branch.\<close>

lemma pull_after_push:
  assumes "open_registry_pull_request lb env bs e url acts = (out, acts')" "PostedPull d \<in> set acts'" "PostedPull d \<notin> set acts"
  shows "\<exists>t branch. WroteRegistry t \<in> set acts' \<and> merged_text lb env e t \<and> RanGit (GitPush (bs_remote_name bs) branch) \<in> set acts' \<and>
    be_git env (GitPush (bs_remote_name bs) branch) = None \<and> map_of d ''head'' = Some (PStr branch)"
proof -
  let ?branch = "''auto-reg/'' @ sanitize_urn_for_branch (ent_id e)"
  from assms obtain target where t: "bind_out (run_local_git_flow lb env bs target ?branch e acts)
      (\<lambda>u. github_create_pull_request env bs ?branch (''Auto-register '' @ ent_name e) (pull_request_body e url)) = (out, acts')"
    by (auto simp: open_registry_pull_request_def Let_def split: sum.splits if_splits)
  obtain r acts1 where f: "run_local_git_flow lb env bs target ?branch e acts = (r, acts1)" by fastforce
  have "\<not> prepares lb env e (PostedPull d)" by (simp add: prepares_def)
  then have no: "PostedPull d \<notin> set acts1"
    using git_flow_adds [of lb env e acts bs target ?branch] assms(3) unfolding adds_def f snd_conv by auto
  with t f assms(2) obtain u where u: "r = Inr u" by (cases r) auto
  let ?pull = "github_create_pull_request env bs ?branch (''Auto-register '' @ ent_name e) (pull_request_body e url) acts1"
  from t f u have a: "acts' = snd ?pull" by simp
  from pull_request_adds(2) [of d env bs ?branch "''Auto-register '' @ ent_name e" "pull_request_body e url" acts1] assms(2) no a
  have "map_of d ''head'' = Some (PStr ?branch)" by simp
  moreover have "set acts1 \<subseteq> set acts'"
    using pull_request_adds(1) [of lb env url e acts1 bs ?branch "''Auto-register '' @ ent_name e" "pull_request_body e url"] a by (auto simp: adds_def)
  ultimately show ?thesis using git_flow_ok [of lb env bs target ?branch e acts u acts1] f u by blast
qed

subsection \<open>Nothing is published before the checks\<close>

definition public_https :: "webhook_lib \<Rightarrow> (string \<Rightarrow> exn + string list) \<Rightarrow> string \<Rightarrow> bool" where
  "public_https lb dns url \<longleftrightarrow> (\<exists>p host addrs. ul_parse (wl_urls lb) url = Inr p \<and> up_scheme p = ''https'' \<and> up_hostname p = Some host \<and>
     \<not> is_ip_blocked lb host \<and> dns host = Inr addrs \<and> (\<forall>a \<in> set addrs. \<not> is_ip_blocked lb a))"

text \<open>A WebSocket address with the scheme of HTTP it stands for.\<close>

definition http_form :: "webhook_lib \<Rightarrow> string \<Rightarrow> string" where
  "http_form lb url =
     (case ul_parse (wl_urls lb) url of
        Inl x \<Rightarrow> url
      | Inr p \<Rightarrow>
          (case ws_to_http (lower (up_scheme p)) of
             None \<Rightarrow> url
           | Some scheme \<Rightarrow> ul_unparse (wl_urls lb) (scheme, up_netloc p, up_path p, up_params p, up_query p, up_fragment p)))"

lemma validated_public: "validate_callback_url lb dns True url = Inr u \<Longrightarrow> public_https lb dns url"
proof -
  assume "validate_callback_url lb dns True url = Inr u"
  then have "validate_callback_url lb dns True url = Inr ()" by simp
  then show ?thesis by (rule validate_callback_url_accepts) (auto simp: public_https_def)
qed

lemma endpoint_public: "validate_agent_endpoint_url lb dns True url = Inr u \<Longrightarrow> public_https lb dns (http_form lb url)"
  by (auto simp: validate_agent_endpoint_url_def http_form_def split: sum.splits option.splits dest: validated_public)

lemma endpoints_public: "validate_endpoints lb dns es = Inr u \<Longrightarrow> \<forall>(label, url) \<in> set es. public_https (bl_addresses lb) dns (http_form (bl_addresses lb) url)"
  by (induction lb dns es rule: validate_endpoints.induct) (auto split: sum.splits dest: endpoint_public)

lemma signed_response_verified:
  assumes "validate_signed_manifest_response lb data True = Inr m" "map_of data ''manifest'' \<noteq> None" "map_of data ''signature'' \<noteq> None"
  shows "\<exists>sm. ml_signed (rl_manifests lb) (PDict data) = Inr sm \<and> sg_manifest sm = m \<and> verify_manifest (rl_manifests lb) sm None = Inr ()"
  using assms by (auto simp: validate_signed_manifest_response_def split: sum.splits)

lemma built_entry:
  assumes "build_registry_entry m url = Inr e"
  shows "ent_id e = man_id m" "ent_verification e = Some Pending" "map_of (ent_endpoints e) ''manifest'' = Some url"
    "map_of (ent_endpoints e) ''http'' = Some (man_asap m)" "ent_tags e = [TRUST_LEVEL_SELF_SIGNED]"
proof -
  have derived: "ent_id (derive_registry_hardware_fields m e0) = ent_id e0" "ent_endpoints (derive_registry_hardware_fields m e0) = ent_endpoints e0"
    "ent_tags (derive_registry_hardware_fields m e0) = ent_tags e0" for e0
    by (simp_all add: derive_registry_hardware_fields_def Let_def split: option.split)
  have urn: "validate_agent_urn u = Inr v \<Longrightarrow> v = u" for u v by (auto simp: validate_agent_urn_def split: if_splits)
  show "ent_id e = man_id m" "ent_verification e = Some Pending" "map_of (ent_endpoints e) ''manifest'' = Some url"
    "map_of (ent_endpoints e) ''http'' = Some (man_asap m)" "ent_tags e = [TRUST_LEVEL_SELF_SIGNED]"
    using assms
    by (auto simp: build_registry_entry_def generate_registry_entry_def make_registry_entry_def auto_register_verification_def derived
        dest: urn split: sum.splits)
qed

text \<open>What has been checked when an action publishes an entry.\<close>

definition vetted :: "bot_lib \<Rightarrow> reg_env \<Rightarrow> string \<Rightarrow> agent_manifest \<Rightarrow> registry_entry \<Rightarrow> bool" where
  "vetted lb env url m e \<longleftrightarrow>
     public_https (bl_addresses lb) (gv_dns_manifest env) url \<and>
     (\<exists>r data. gv_fetch env = Delivered r \<and> rsp_json r = Inr (PDict data) \<and>
        validate_signed_manifest_response (bl_registry lb) data True = Inr m \<and>
        (map_of data ''manifest'' \<noteq> None \<and> map_of data ''signature'' \<noteq> None \<longrightarrow>
           (\<exists>sm. ml_signed (rl_manifests (bl_registry lb)) (PDict data) = Inr sm \<and> sg_manifest sm = m \<and>
              verify_manifest (rl_manifests (bl_registry lb)) sm None = Inr ()))) \<and>
     (\<exists>harness. harness_base_url_from_manifest lb m = Inr harness \<and> public_https (bl_addresses lb) (gv_dns_harness env) harness) \<and>
     (\<exists>report. gv_report env = Inr report \<and> 1 \<le> cr_score report) \<and>
     (\<forall>(label, u) \<in> set (persisted_endpoints m). public_https (bl_addresses lb) (gv_dns_endpoints env) (http_form (bl_addresses lb) u)) \<and>
     ent_id e = man_id m \<and> ent_verification e = Some Pending \<and> map_of (ent_endpoints e) ''manifest'' = Some url \<and>
     map_of (ent_endpoints e) ''http'' = Some (man_asap m)"

lemma register_checked_publishes:
  assumes "register_checked lb cfg env url acts = (out, acts')" "x \<in> set (drop (length acts) acts')" "publishing x"
  shows "\<exists>m e. vetted lb env url m e \<and> proposes lb (gv_bot env) url e x"
proof -
  obtain o1 acts1 where f: "fetch_manifest_at_url lb (gv_dns_manifest env) (gv_fetch env) url acts = (o1, acts1)" by fastforce
  then have acts1: "acts1 = acts \<or> acts1 = acts @ [Fetched url]" by (auto simp: fetch_manifest_at_url_def split: sum.splits http_outcome.splits)
  with assms f obtain m where m: "o1 = Inr m" by (cases o1) (auto simp: register_checked_def)
  with f have f': "acts1 = acts @ [Fetched url]" "public_https (bl_addresses lb) (gv_dns_manifest env) url"
    "\<exists>r data. gv_fetch env = Delivered r \<and> rsp_json r = Inr (PDict data) \<and> validate_signed_manifest_response (bl_registry lb) data True = Inr m"
    by (auto simp: fetch_manifest_at_url_def read_manifest_def split: sum.splits http_outcome.splits pyval.splits if_splits dest: validated_public)
  from assms f m f'(1) obtain harness report where h: "check_harness_url lb env m = Inr harness" "compliance_gate env = Inr report"
    and p: "propose_entry lb cfg env url m report (acts1 @ [RanHarness harness]) = (out, acts')"
    by (auto simp: register_checked_def split: sum.splits)
  from h(1) have h1: "harness_base_url_from_manifest lb m = Inr harness" "public_https (bl_addresses lb) (gv_dns_harness env) harness"
    by (auto simp: check_harness_url_def split: sum.splits dest: validated_public)
  from h(2) have h2: "gv_report env = Inr report" "1 \<le> cr_score report"
    by (auto simp: compliance_gate_def split: sum.splits if_splits)
  from p assms(2,3) f'(1) obtain e u where e: "build_registry_entry m url = Inr e"
    "validate_persisted_registry_endpoints lb (gv_dns_endpoints env) m = Inr u" "acts' = snd (open_pr lb cfg (gv_bot env) e url (acts1 @ [RanHarness harness]))"
    by (auto simp: propose_entry_def split: sum.splits prod.splits)
  from open_pr_adds [of lb "gv_bot env" url e "acts1 @ [RanHarness harness]" cfg] e(3) assms(2,3) f'(1)
  have "proposes lb (gv_bot env) url e x" by (auto simp: adds_def)
  moreover have "vetted lb env url m e"
    unfolding vetted_def using f'(2,3) h1 h2 built_entry [OF e(1)] endpoints_public [OF e(2) [unfolded validate_persisted_registry_endpoints_def]]
      signed_response_verified by blast
  ultimately show ?thesis by blast
qed

lemma rate_limit_passed:
  assumes "registration_rate_limit lb limits now req st = (Inr u, st')"
  shows "\<forall>l. limits = Some l \<longrightarrow> (\<forall>i \<in> set (lm_limits l). lm_test l i (registration_token_key (bl_sha256 lb) req) 1 st)"
  using assms
  by (auto simp: registration_rate_limit_def limiter_check_def first_violation_None_iff
      split: option.splits sum.splits prod.splits rate_limit_exceeded.splits)

text \<open>C31: the registration endpoint publishes nothing (no branch, no pull request, no call of a configured backend) unless the caller's token has the
  required scope (or the dependency the operator configured instead accepts the request), its rate limit allows the request, the manifest came from an
  address whose scheme is HTTPS and whose host resolved to public addresses, the compliance harness reached a full score at such an address, and
  every endpoint of the manifest is such an address. A manifest that is signed verifies under the key it carries; one that is not signed is
  accepted as it is, and no trust level is looked at. What is published is the entry of that manifest, pending verification, merged into the
  registry without replacing an entry. The checks resolve a host once more than the requests do: the addresses are not pinned.\<close>

theorem registered_only_after_checks:
  assumes "register_agent lb cfg limits env claims req body s = (out, s')" "x \<in> set (drop (length (gs_actions s)) (gs_actions s'))" "publishing x"
  shows "\<exists>url m e.
    (case ac_claims_dependency cfg of
       None \<Rightarrow> \<exists>cl. claims = Some cl \<and> ac_required_scope cfg \<in> set (oc_scope cl)
     | Some dep \<Rightarrow> \<exists>cl. dep req = Inr cl) \<and>
    (\<forall>l. limits = Some l \<longrightarrow> (\<forall>i \<in> set (lm_limits l). lm_test l i (registration_token_key (bl_sha256 lb) req) 1 (gs_limiter s))) \<and>
    parse_register_body lb body = Some url \<and> vetted lb env url m e \<and> proposes lb (gv_bot env) url e x \<and>
    (\<forall>t. x = WroteRegistry t \<longrightarrow> (\<exists>doc registry merged. be_file (gv_bot env) = Some doc \<and>
       parse_lite_registry (bl_registry lb) doc = Inr registry \<and> t = bl_dump lb merged @ [10] \<and> man_id m \<notin> ent_id ` set (lr_agents registry) \<and>
       ent_id ` set (lr_agents merged) = insert (man_id m) (ent_id ` set (lr_agents registry)) \<and>
       set (lr_agents merged) \<subseteq> insert e (set (lr_agents registry)) \<and> distinct (map ent_id (lr_agents merged))))"
proof -
  let ?allowed = "case ac_claims_dependency cfg of
      None \<Rightarrow> \<exists>cl. claims = Some cl \<and> ac_required_scope cfg \<in> set (oc_scope cl) | Some dep \<Rightarrow> \<exists>cl. dep req = Inr cl"
  obtain cl where dep: "(case ac_claims_dependency cfg of None \<Rightarrow> require_scope (ac_required_scope cfg) claims | Some dep \<Rightarrow> dep req) = Inr cl"
    using assms by (auto simp: register_agent_def split: sum.splits)
  have "\<exists>st1 url. registration_rate_limit lb limits (gv_now env) req (gs_limiter s) = (Inr (), st1) \<and> parse_register_body lb body = Some url \<and>
      gs_actions s' = snd (register_checked lb cfg env url (gs_actions s))"
    using assms
    by (auto simp: register_agent_def dep Let_def split: option.splits sum.splits prod.splits)
  then obtain st1 url where r: ?allowed
    "registration_rate_limit lb limits (gv_now env) req (gs_limiter s) = (Inr (), st1)" "parse_register_body lb body = Some url"
    "gs_actions s' = snd (register_checked lb cfg env url (gs_actions s))"
    using dep by (auto simp: require_scope_def split: option.splits if_splits)
  from register_checked_publishes [of lb cfg env url "gs_actions s" "fst (register_checked lb cfg env url (gs_actions s))" "gs_actions s'"] r(4) assms(2,3)
  obtain m e where me: "vetted lb env url m e" "proposes lb (gv_bot env) url e x" by (metis prod.collapse)
  have "\<exists>doc registry merged. be_file (gv_bot env) = Some doc \<and>
       parse_lite_registry (bl_registry lb) doc = Inr registry \<and> t = bl_dump lb merged @ [10] \<and> man_id m \<notin> ent_id ` set (lr_agents registry) \<and>
       ent_id ` set (lr_agents merged) = insert (man_id m) (ent_id ` set (lr_agents registry)) \<and>
       set (lr_agents merged) \<subseteq> insert e (set (lr_agents registry)) \<and> distinct (map ent_id (lr_agents merged))" if x: "x = WroteRegistry t" for t
  proof -
    from me(2) x obtain doc registry merged where mg: "merge_lite_registry (be_now (gv_bot env)) registry e = Inr merged" "t = bl_dump lb merged @ [10]"
      "be_file (gv_bot env) = Some doc" "parse_lite_registry (bl_registry lb) doc = Inr registry"
      by (auto simp: merged_text_def)
    have "ent_id e = man_id m" using me(1) by (simp add: vetted_def)
    with merge_keeps_entries [OF mg(1)] mg(2-) show ?thesis
      by (intro exI [of _ doc] exI [of _ registry] exI [of _ merged]) simp
  qed
  with r(1,3) rate_limit_passed [OF r(2)] me show ?thesis by blast
qed

text \<open>A receipt that is still in the cache is answered again without any new action.\<close>

lemma repeated_registration:
  assumes "gs_receipts s = Some c" "rc_inv c" "rc_entries c (manifest_url_cache_key lb url) = Some (r, e)"
    and "gv_t_in env < e" "fst (gv_t_get env) < e" "snd (gv_t_get env) < e"
    and "ac_claims_dependency cfg = None" "require_scope (ac_required_scope cfg) claims = Inr cl" "registration_rate_limit lb limits (gv_now env) req (gs_limiter s) = (Inr (), st1)"
    and "parse_register_body lb body = Some url"
  shows "\<exists>s'. register_agent lb cfg limits env claims req body s = (Inr r, s') \<and> gs_actions s' = gs_actions s"
proof -
  let ?key = "manifest_url_cache_key lb url"
  from assms(3) have "map_of (rc_store c) ?key = Some (e, r)" by (auto simp: rc_entries_def)
  moreover from this have "map_of (drop_expired_from_head (fst (gv_t_get env)) (rc_store c)) ?key = Some (e, r)"
    using assms(2,5) map_of_drop_expired by (metis rc_inv_def)
  ultimately have "\<exists>c'. cached_receipt env ?key c = (Inr (Some r), c')"
    using assms(4,6) by (auto simp: cached_receipt_def rc_contains_def rc_getitem_def Let_def)
  with assms show ?thesis by (auto simp: register_agent_def Let_def)
qed

subsection \<open>A sample registration\<close>

definition sample_parts :: url_parts where
  "sample_parts = \<lparr>up_scheme = ''https'', up_netloc = ''a'', up_path = ''/asap'', up_params = [], up_query = [], up_fragment = [], up_username = None,
     up_password = None, up_hostname = Some ''a'', up_port = Inr None\<rparr>"

definition sample_bot_lib :: bot_lib where
  "sample_bot_lib =
     \<lparr>bl_registry = sample_registry_lib ''urn:asap:agent:b'' [],
      bl_addresses = \<lparr>wl_urls = \<lparr>ul_parse = (\<lambda>u. Inr sample_parts), ul_unparse = (\<lambda>p. ''https://a''), ul_redact = id\<rparr>, wl_ip = (\<lambda>a. None), wl_dumps = (\<lambda>d. []),
        wl_hmac = (\<lambda>k b. []), wl_is_http_error = (\<lambda>t. True), wl_shown_float = (\<lambda>r. [])\<rparr>,
      bl_dump = (\<lambda>r. [length (lr_agents r)]), bl_is_request_error = (\<lambda>t. True), bl_http_url = (\<lambda>v. case v of PStr u \<Rightarrow> Some u | _ \<Rightarrow> None), bl_sha256 = id\<rparr>"

definition sample_bot_env :: bot_env where
  "sample_bot_env =
     \<lparr>be_git = (\<lambda>c. None), be_file = Some [], be_now = 0,
      be_pull = sample_ok (PDict [(''html_url'', PStr ''https://pr''), (''number'', PInt 1)]), be_label = sample_ok PNone\<rparr>"

definition sample_reg_env :: "pydict \<Rightarrow> reg_env" where
  "sample_reg_env data =
     \<lparr>gv_now = 0, gv_t_in = 0, gv_t_get = (0, 0), gv_t_set = (0, 0), gv_receipts_meanwhile = [], gv_dns_manifest = (\<lambda>h. Inr []),
      gv_fetch = sample_ok (PDict data), gv_dns_harness = (\<lambda>h. Inr []), gv_report = Inr \<lparr>cr_score = 1, cr_checks = [], cr_summary = []\<rparr>,
      gv_dns_endpoints = (\<lambda>h. Inr []), gv_bot = sample_bot_env\<rparr>"

definition sample_reg_config :: auto_registration_config where
  "sample_reg_config = \<lparr>ac_required_scope = REGISTRY_REGISTER_SCOPE, ac_claims_dependency = None,
     ac_backend = Bot \<lparr>bs_owner = ''o'', bs_repo = ''r'', bs_base_branch = ''main'', bs_github_token = ''t'', bs_registry_path = ''registry.json'', bs_remote_name = ''origin''\<rparr>\<rparr>"

definition sample_reg_claims :: oauth2_claims where
  "sample_reg_claims = \<lparr>oc_sub = ''u'', oc_scope = [REGISTRY_REGISTER_SCOPE], oc_exp = 0\<rparr>"

definition sample_reg_body :: pydict where
  "sample_reg_body = [(''manifest_url'', PStr ''https://a/m.json'')]"

lemma sample_addresses_ok [simp]:
  "validate_callback_url (bl_addresses sample_bot_lib) (\<lambda>h. Inr []) True u = Inr ()"
  "validate_agent_endpoint_url (bl_addresses sample_bot_lib) (\<lambda>h. Inr []) True u = Inr ()"
proof -
  have v: "validate_callback_url (bl_addresses sample_bot_lib) (\<lambda>h. Inr []) True u = Inr ()" for u
    by (simp add: validate_callback_url_def sample_bot_lib_def sample_parts_def ALLOWED_SCHEMES_STRICT_def is_ip_blocked_def resolve_hostname_def fromkeys_def)
  then show "validate_callback_url (bl_addresses sample_bot_lib) (\<lambda>h. Inr []) True u = Inr ()"
    "validate_agent_endpoint_url (bl_addresses sample_bot_lib) (\<lambda>h. Inr []) True u = Inr ()"
    by (simp_all add: validate_agent_endpoint_url_def) (simp add: sample_bot_lib_def)
qed

lemma sample_fetched:
  assumes "validate_signed_manifest_response (bl_registry sample_bot_lib) data True = Inr m"
  shows "fetch_manifest_at_url sample_bot_lib (\<lambda>h. Inr []) (sample_ok (PDict data)) u acts = (Inr m, acts @ [Fetched u])"
  using assms by (simp add: fetch_manifest_at_url_def read_manifest_def sample_ok_def raise_for_status_def)

lemma sample_harness: "check_harness_url sample_bot_lib (sample_reg_env data) m = Inr ''https://a''"
proof -
  have "harness_base_url_from_manifest sample_bot_lib m = Inr ''https://a''"
    by (simp add: harness_base_url_from_manifest_def sample_bot_lib_def sample_parts_def rstrip_slash_def Let_def)
  then show ?thesis by (simp add: check_harness_url_def sample_reg_env_def)
qed

definition sample_entry :: registry_entry where
  "sample_entry = (case build_registry_entry (sample_agent_manifest ''urn:asap:agent:a'') ''https://a/m.json'' of Inr e \<Rightarrow> e | Inl x \<Rightarrow> sample_registered [])"

lemma sample_entry_built:
  "build_registry_entry (sample_agent_manifest ''urn:asap:agent:a'') ''https://a/m.json'' = Inr sample_entry" "ent_id sample_entry = ''urn:asap:agent:a''"
  by (simp_all add: sample_entry_def build_registry_entry_def generate_registry_entry_def make_registry_entry_def derive_registry_hardware_fields_def
      sample_agent_manifest_def)

lemma sample_merge:
  "merge_lite_registry_json_text sample_bot_lib 0 [] sample_entry = Inr [2]"
  by (simp add: merge_lite_registry_json_text_def parse_lite_registry_def sample_bot_lib_def sample_registry_lib_def sample_registered_def
      make_registry_entry_def normalize_category_def merge_lite_registry_def entries_by_id_def sample_entry_built)

lemma sample_pull:
  "\<exists>acts'. open_pr sample_bot_lib sample_reg_config sample_bot_env sample_entry ''https://a/m.json'' acts = (Inr ''https://pr'', acts @ acts') \<and>
     WroteRegistry [2, 10] \<in> set acts'"
proof -
  have "is_reserved_destination sample_bot_lib u = Inr False" for u
    by (simp add: is_reserved_destination_def sample_bot_lib_def sample_parts_def lower_def lower_char_def Let_def)
  moreover have "\<exists>t. authenticated_clone_url sample_bot_lib bs u = Inr t" for bs u
    by (simp add: authenticated_clone_url_def sample_bot_lib_def sample_parts_def)
  then obtain target where "\<And>bs u. authenticated_clone_url sample_bot_lib bs u = Inr (target bs u)" by metis
  ultimately show ?thesis
    using sample_merge
    by (simp add: open_pr_def sample_reg_config_def open_registry_pull_request_def run_local_git_flow_def run_git_def sample_bot_env_def
        default_branch_prep_def default_git_push_def github_create_pull_request_def answered_ok_def sample_ok_def raise_for_status_def
        read_pull_answer_def Let_def)
qed

definition sample_reg_state :: "unit reg_state" where
  "sample_reg_state = \<lparr>gs_limiter = (), gs_receipts = None, gs_actions = []\<rparr>"

definition sample_limits :: "(unit, unit) limiter option" where
  "sample_limits = Some \<lparr>lm_limits = [()], lm_test = (\<lambda>i k n st. True), lm_hit = (\<lambda>i k n st. (True, st)), lm_reset_at = (\<lambda>i k st. 0), lm_detail = (\<lambda>i. [])\<rparr>"

lemma sample_registration:
  assumes "validate_signed_manifest_response (bl_registry sample_bot_lib) data True = Inr (sample_agent_manifest ''urn:asap:agent:a'')"
  shows "\<exists>r s'. register_agent sample_bot_lib sample_reg_config sample_limits (sample_reg_env data) (Some sample_reg_claims) req sample_reg_body sample_reg_state =
      (Inr r, s') \<and> WroteRegistry [2, 10] \<in> set (gs_actions s') \<and> rr_trust_level r = TRUST_LEVEL_SELF_SIGNED"
proof -
  have "validate_persisted_registry_endpoints sample_bot_lib (\<lambda>h. Inr []) (sample_agent_manifest ''urn:asap:agent:a'') = Inr ()"
    by (simp add: validate_persisted_registry_endpoints_def persisted_endpoints_def sample_agent_manifest_def)
  moreover have "gv_dns_manifest (sample_reg_env data) = (\<lambda>h. Inr [])" "gv_fetch (sample_reg_env data) = sample_ok (PDict data)"
    "gv_dns_endpoints (sample_reg_env data) = (\<lambda>h. Inr [])" "gv_bot (sample_reg_env data) = sample_bot_env"
    "compliance_gate (sample_reg_env data) = Inr \<lparr>cr_score = 1, cr_checks = [], cr_summary = []\<rparr>"
    by (simp_all add: sample_reg_env_def compliance_gate_def)
  ultimately have "\<exists>r acts. register_checked sample_bot_lib sample_reg_config (sample_reg_env data) ''https://a/m.json'' [] = (Inr r, acts) \<and>
      WroteRegistry [2, 10] \<in> set acts \<and> rr_trust_level r = TRUST_LEVEL_SELF_SIGNED"
    using sample_pull [of "[Fetched ''https://a/m.json'', RanHarness ''https://a'']"] sample_entry_built(1)
    by (auto simp: register_checked_def sample_fetched [OF assms] sample_harness propose_entry_def)
  moreover have "parse_register_body sample_bot_lib sample_reg_body = Some ''https://a/m.json''"
    by (simp add: parse_register_body_def sample_reg_body_def sample_bot_lib_def)
  moreover have "ac_claims_dependency sample_reg_config = None" by (simp add: sample_reg_config_def)
  moreover have "require_scope (ac_required_scope sample_reg_config) (Some sample_reg_claims) = Inr sample_reg_claims"
    by (simp add: require_scope_def sample_reg_config_def sample_reg_claims_def)
  moreover have "registration_rate_limit sample_bot_lib sample_limits now req () = (Inr (), ())" for now
    by (simp add: registration_rate_limit_def sample_limits_def limiter_check_def)
  ultimately show ?thesis by (auto simp: register_agent_def sample_reg_state_def Let_def)
qed

lemma sample_unsigned:
  "validate_signed_manifest_response (bl_registry sample_bot_lib) [] True = Inr (sample_agent_manifest ''urn:asap:agent:a'')"
  by (simp add: validate_signed_manifest_response_def validate_manifest_schema_def sample_bot_lib_def sample_registry_lib_def sample_registry_manifests_def)

theorem registered_only_after_checks_witness:
  "\<exists>r s'. register_agent sample_bot_lib sample_reg_config sample_limits (sample_reg_env []) (Some sample_reg_claims) \<lparr>client_host = None, authorization = None\<rparr>
      sample_reg_body sample_reg_state = (Inr r, s') \<and>
    (\<exists>url m e. parse_register_body sample_bot_lib sample_reg_body = Some url \<and> vetted sample_bot_lib (sample_reg_env []) url m e \<and>
       proposes sample_bot_lib sample_bot_env url e (WroteRegistry [2, 10]))"
proof -
  from sample_registration [OF sample_unsigned] obtain r s' where run: "register_agent sample_bot_lib sample_reg_config sample_limits (sample_reg_env [])
      (Some sample_reg_claims) \<lparr>client_host = None, authorization = None\<rparr> sample_reg_body sample_reg_state = (Inr r, s')" "WroteRegistry [2, 10] \<in> set (gs_actions s')"
    by blast
  have "WroteRegistry [2, 10] \<in> set (drop (length (gs_actions sample_reg_state)) (gs_actions s'))" using run(2) by (simp add: sample_reg_state_def)
  from registered_only_after_checks [OF run(1) this] run(1) show ?thesis by (auto simp: sample_reg_env_def)
qed

subsection \<open>What registration does not check\<close>

text \<open>The trust level of a signed manifest is not looked at: two answers that differ in nothing else give the same manifest. A manifest without
  a signature is accepted and published with the tag of a self-signed one.\<close>

lemma trust_level_not_looked_at:
  assumes "ml_signed (rl_manifests lb) (PDict data) = Inr sm" "ml_signed (rl_manifests lb) (PDict data') = Inr (sm\<lparr>sg_trust_level := l\<rparr>)"
    and "map_of data ''manifest'' \<noteq> None" "map_of data ''signature'' \<noteq> None" "map_of data' ''manifest'' \<noteq> None" "map_of data' ''signature'' \<noteq> None"
  shows "validate_signed_manifest_response lb data True = validate_signed_manifest_response lb data' True"
proof -
  have "check_raw_signature (rl_manifests lb) (sm\<lparr>sg_trust_level := l\<rparr>) = check_raw_signature (rl_manifests lb) sm"
    by (intro ext) (simp add: check_raw_signature_def)
  then have "verify_manifest (rl_manifests lb) (sm\<lparr>sg_trust_level := l\<rparr>) None = verify_manifest (rl_manifests lb) sm None"
    by (simp add: verify_manifest_def signing_key_def split: sum.split b64_fail.split)
  with assms show ?thesis by (simp add: validate_signed_manifest_response_def split: sum.split)
qed

lemma unsigned_manifests_registered:
  "\<exists>r s'. register_agent sample_bot_lib sample_reg_config sample_limits (sample_reg_env []) (Some sample_reg_claims) req sample_reg_body sample_reg_state = (Inr r, s') \<and>
     WroteRegistry [2, 10] \<in> set (gs_actions s') \<and> rr_trust_level r = TRUST_LEVEL_SELF_SIGNED"
  by (rule sample_registration [OF sample_unsigned])

text \<open>The check of the address resolves the name, and the request resolves it again: the answer that is read does not depend on the addresses that
  were checked.\<close>

lemma fetch_not_pinned:
  assumes "validate_callback_url (bl_addresses lb) dns True url = Inr u" "validate_callback_url (bl_addresses lb) dns' True url = Inr u"
  shows "fetch_manifest_at_url lb dns out url acts = fetch_manifest_at_url lb dns' out url acts"
  using assms by (simp add: fetch_manifest_at_url_def)

end
