(* ===== verification/Spec2Isabelle.thy ===== *)
theory Spec2Isabelle
  imports Task_Machine Snapshot_Store Circuit_Breaker Ttl_Cache Rate_Limit Routes_Agent Pipeline Client_Send Delegation Webhook Sla Ws_Pool Ws_Server Mcp Openapi Auto_Registration
begin

text \<open>
  A verification library for the Python implementation of the ASAP protocol (\<open>src/asap\<close>): agents that find each
  other, authenticate, exchange signed and bounded messages, delegate rights to each other, and account for what they did.

  \<^bold>\<open>The program.\<close> A server receives JSON-RPC requests whose parameters hold an \<^emph>\<open>envelope\<close> (\<open>models/envelope.py\<close>).
  \<open>transport/_request_handler.py\<close> takes a request through body size, JSON, frame, authentication
  (\<open>transport/middleware.py\<close>), envelope, sender, timestamp and nonce checks (\<open>transport/validators.py\<close>), and hands it to the
  handler registered for its payload type (\<open>transport/handlers.py\<close>, \<open>transport/executors.py\<close>). Identity endpoints
  (\<open>transport/agent_routes.py\<close>, \<open>capability_routes.py\<close>, \<open>escalation_routes.py\<close>) register agents under hosts, with tokens
  (\<open>auth/agent_jwt.py\<close>), stores (\<open>auth/identity.py\<close>), grants (\<open>auth/capabilities.py\<close>) and human consent
  (\<open>auth/approval.py\<close>, \<open>auth/self_auth.py\<close>). OAuth2 tokens (\<open>auth/jwks.py\<close>, \<open>auth/middleware.py\<close>) protect the operator
  endpoints, among them delegation (\<open>economics/delegation*.py\<close>, \<open>transport/delegation_api.py\<close>) and service levels
  (\<open>economics/sla*.py\<close>, \<open>transport/sla_api.py\<close>). A client (\<open>transport/client/\<close>) discovers manifests, sends envelopes with
  retries behind a circuit breaker (\<open>transport/circuit_breaker.py\<close>) and checks the answers. Webhooks
  (\<open>transport/webhook.py\<close>) push results; a WebSocket
  carries the same requests in both directions (\<open>transport/ws/\<close>); \<open>economics/\<close> meters usage and keeps a hash-chained log.
  Tools of the Model Context Protocol (\<open>mcp/\<close>) and operations of OpenAPI documents (\<open>adapters/openapi/\<close>) are offered as capabilities.
  Agents register themselves in a public registry (\<open>registry/\<close>), where clients find them (\<open>discovery/\<close>, \<open>client/\<close>).

  \<^bold>\<open>How it is modelled.\<close> One theory per component, each with the state of the code as a record, its exceptions as values and
  one definition per function or method. A method that may raise and change state has type \<open>(state, error, answer) outcome\<close>,
  the pair of an error or an answer and the state it leaves. Readings of clocks, random draws, and the outcomes of
  network calls are arguments; where an \<open>await\<close> lets other tasks run, what they do to the shared state is an argument too.
  A Python \<open>dict\<close> is an association list in insertion order, JSON values are the datatype \<open>pyval\<close>, an \<open>int\<close> is an \<open>int\<close>, a time is
  a rational number of seconds or an integer number of microseconds. A float in a JSON value
  is an exact rational, NaN or an infinity (\<open>pyfloat\<close>), since \<open>json.loads\<close> accepts all of them, and it compares and converts as in
  Python; rounding of floats is not modelled, and quantities the code computes itself (durations, rates, backoffs) are exact rationals.
  Rendering a response may raise for such a value: in \<open>Pipeline\<close> this is a parameter (\<open>rl_render\<close>) with the error path behind it; the
  identity endpoints end with the content they hand to \<open>JSONResponse\<close>, after their last change of state. Everything is executable; witnesses evaluate the definitions in the kernel.

  \<^bold>\<open>The theories.\<close>
  \<^item> \<open>Asap_Prelude, Py_Text\<close>: Python values, dictionaries, exceptions, numbers and text;
  \<^item> \<open>Metrics\<close>: \<open>observability/metrics.py\<close>: counters, histograms, their Prometheus text;
  \<^item> \<open>Task_Machine\<close>: \<open>state/machine.py\<close>: runs of a task follow the lifecycle and stop in terminal statuses;
  \<^item> \<open>Snapshot_Store\<close>: \<open>state/stores/memory.py\<close>: the store refines a map from task and version to snapshot;
  \<^item> \<open>Circuit_Breaker\<close>: \<open>transport/circuit_breaker.py\<close>: the breaker refines a three-state machine;
  \<^item> \<open>Ttl_Cache\<close>: \<open>transport/cache.py\<close>, \<open>registry/receipt_cache.py\<close>: bounded caches never answer what has expired;
  \<^item> \<open>Rate_Limit\<close>: \<open>transport/rate_limit.py\<close>: a token bucket grants at most its capacity and what flows in;
  \<^item> \<open>Envelope\<close>: \<open>models/envelope.py\<close>: construction and validation;
  \<^item> \<open>Replay_Guard\<close>: \<open>transport/validators.py\<close>, \<open>auth/jti_replay_cache.py\<close>: no accepted nonce or token is accepted again;
  \<^item> \<open>Capabilities\<close>: \<open>auth/capabilities.py\<close>: constraints, grants, when a call is allowed;
  \<^item> \<open>Identity\<close>: \<open>auth/identity.py\<close>: hosts and sessions, revocation is final;
  \<^item> \<open>Agent_Jwt\<close>: \<open>auth/agent_jwt.py\<close>: an accepted token belongs to a current session, and is accepted once;
  \<^item> \<open>Self_Auth\<close>: \<open>auth/self_auth.py\<close>: proof of a fresh session and of presence;
  \<^item> \<open>Approval\<close>: \<open>auth/approval.py\<close>, \<open>handlers/hitl.py\<close>: a request is settled once, by its first timely decision;
  \<^item> \<open>Routes_Base\<close>: \<open>transport/capability_routes.py\<close>: execution needs an active grant whose constraints hold;
  \<^item> \<open>Routes_Agent\<close>: \<open>transport/agent_routes.py\<close>, \<open>escalation_routes.py\<close>: nothing beyond defaults without consent;
  \<^item> \<open>Errors\<close>: \<open>errors.py\<close>: the taxonomy, its wire form and what a client rebuilds of it;
  \<^item> \<open>Audit_Log\<close>: \<open>economics/audit.py\<close>: the chain verifies, and tampering needs a collision;
  \<^item> \<open>Metering\<close>: \<open>economics/metering.py\<close>, \<open>hooks.py\<close>, \<open>storage.py\<close>, \<open>state/metering.py\<close>: aggregates conserve usage;
  \<^item> \<open>Lambda_Codec\<close>: \<open>transport/lambda_codec.py\<close>: decoding inverts encoding away from the marker;
  \<^item> \<open>Rpc_Base\<close>: \<open>transport/jsonrpc.py\<close>, \<open>compression.py\<close>, \<open>middleware.py\<close>: frames, compression, authentication;
  \<^item> \<open>Handlers\<close>: \<open>transport/handlers.py\<close>, \<open>executors.py\<close>: dispatch and the bounded executor;
  \<^item> \<open>Pipeline\<close>: \<open>transport/_request_handler.py\<close>: every check precedes dispatch; how requests are answered and counted, also when an answer cannot be rendered;
  \<^item> \<open>Http_Base\<close>: \<open>transport/challenge.py\<close>, \<open>utils/sanitization.py\<close>: challenges, URLs, responses;
  \<^item> \<open>Client_Discovery\<close>: \<open>transport/client/_discovery.py\<close>: manifests are cached and verified;
  \<^item> \<open>Client_Send\<close>: \<open>transport/client/_send.py\<close>: retries, breaker, correlation of answers;
  \<^item> \<open>Oauth2\<close>: \<open>auth/jwks.py\<close>, \<open>auth/middleware.py\<close>, \<open>auth/scopes.py\<close>: protected paths need a token under recent keys;
  \<^item> \<open>Delegation\<close>: \<open>economics/delegation.py\<close>, \<open>delegation_storage.py\<close>, \<open>transport/delegation_api.py\<close>: deleted delegations stay refused;
  \<^item> \<open>Webhook\<close>: \<open>transport/webhook.py\<close>: checked addresses, bounded attempts, dead letters;
  \<^item> \<open>Sla\<close>: \<open>economics/sla.py\<close>, \<open>sla_storage.py\<close>, \<open>transport/sla_api.py\<close>: violations are recorded exactly, aggregates stay in range;
  \<^item> \<open>Ws_Client\<close>: \<open>transport/ws/client.py\<close>, \<open>_recv.py\<close>, \<open>_ack.py\<close>, \<open>codecs.py\<close>: tasks over one connection; answers reach the calls they belong to;
  \<^item> \<open>Ws_Pool\<close>: \<open>transport/ws/pool.py\<close>: at most the maximal number of connections, none with two callers;
  \<^item> \<open>Ws_Server\<close>: \<open>transport/ws/server.py\<close>, \<open>_dispatch.py\<close>: frames go through the checks of the pipeline, at the rate of the connection;
  \<^item> \<open>Mcp\<close>: \<open>mcp/server.py\<close>, \<open>client.py\<close>, \<open>protocol.py\<close>, \<open>auth/\<close>: tools behind tokens and grants, over lines of JSON;
  \<^item> \<open>Openapi\<close>: \<open>adapters/openapi/\<close>: operations of a document as capabilities, and calls as requests that stay in their template;
  \<^item> \<open>Lite_Registry\<close>: \<open>discovery/registry.py\<close>, \<open>validation.py\<close>, \<open>wellknown.py\<close>, \<open>health.py\<close>, \<open>client/\<close>, \<open>crypto/trust.py\<close>: entries, recent registries, agents resolved under an authority;
  \<^item> \<open>Auto_Registration\<close>: \<open>registry/auto_registration.py\<close>, \<open>bot_pr.py\<close>: nothing is published before the checks, and no entry is replaced.

  \<^bold>\<open>Interfaces.\<close> Contracts between components are locales, each interpreted on the definitions of the model: among them
  the snapshot store (\<open>Snapshot_Store\<close>), the expiring caches (\<open>Ttl_Cache\<close>, with three interpretations), the session store behind the token checks
  (\<open>Identity\<close>), delimited substitution tables (\<open>Lambda_Codec\<close>) and servers of tools (\<open>Mcp\<close>, interpreted on the plain and on the protected server).
  The properties are stated outside of them, over the definitions.

  \<^bold>\<open>Parameters.\<close> Code that is not part of the repository appears as a record of functions that the definitions take:
  the JOSE library, digests and canonical JSON (\<open>Identity\<close>, \<open>Agent_Jwt\<close>, \<open>Audit_Log\<close>, \<open>Oauth2\<close>, \<open>Delegation\<close>), Pydantic's field
  checks and error reports, \<open>json\<close>, the compression packages (\<open>Rpc_Base\<close>), \<open>urllib\<close>, \<open>httpx\<close> and \<open>ipaddress\<close> (\<open>Http_Base\<close>, \<open>Client_Discovery\<close>,
  \<open>Client_Send\<close>, \<open>Webhook\<close>), and the package \<open>limits\<close> (\<open>Rate_Limit\<close>). What a theorem needs of them is a named hypothesis, such as
  that decoding inverts encoding, and its witness gives an instance.

  Tasks that run over shared state (\<open>Ws_Client\<close>, \<open>Ws_Pool\<close>) are step relations: the code between two awaits is one step, steps come in
  any order, and invariants are proved by rule induction over runs.

  \<^bold>\<open>Bounds.\<close> Loops are structural or carry a termination proof. A waiting loop runs over the script of the times at which it wakes
  up and returns \<open>None\<close> when the script ends first (\<open>Webhook\<close>); the theorem on slow webhooks shows that for some settings no
  script is long enough. Retry loops take the number of attempts the code computes. The cascade over delegations is bounded
  by the depth the code gives it (50), and its termination measure is the number of tokens not visited.

@MORE@
  \<^bold>\<open>Not modelled.\<close> Wiring and I/O: \<open>transport/server.py\<close> (application assembly), the command line (\<open>cli/\<close>), logging and tracing
  (\<open>observability/\<close> but the metrics), \<open>mcp/serve.py\<close>, loading and wiring of \<open>adapters/\<close>, \<open>integrations/\<close>, \<open>discovery/dnssd.py\<close>, \<open>testing/\<close> and
  \<open>examples/\<close>. The SQLite stores are SQL texts around the contracts that the in-memory stores satisfy here. Key files and
  signing are calls of \<open>cryptography\<close>. 
\<close>

end
